(* ===== verification/Prelude.thy ===== *)
theory Prelude
  imports Main "HOL-Library.AList" "HOL-Library.Sublist" "HOL-Library.List_Lexorder" "HOL-Library.Char_ord"
begin

text \<open>
  Shared vocabulary of the development: Python results as sums, insertion-ordered
  dictionaries as association lists, loops that stop at the first error, and the
  two interfaces (a checked state machine, and one with an append-only log) that the
  runtime components provide.
\<close>

named_theorems errs \<open>elimination of error results of checked computations\<close>
named_theorems dicts \<open>lookup and update laws of insertion-ordered dictionaries\<close>

section \<open>Results of Python calls\<close>

text \<open>
  A call that may raise returns \<open>Inl e\<close> for the exception and \<open>Inr v\<close> for the value.
  Sequencing stops at the first exception.
\<close>

fun ebind :: "'e + 'a \<Rightarrow> ('a \<Rightarrow> 'e + 'b) \<Rightarrow> 'e + 'b" where
  "ebind (Inl e) f = Inl e"
| "ebind (Inr x) f = f x"

definition require :: "bool \<Rightarrow> 'e \<Rightarrow> 'e + unit" where
  "require b e = (if b then Inr () else Inl e)"

lemma ebind_eq_Inr [errs]: "ebind m f = Inr y \<longleftrightarrow> (\<exists>x. m = Inr x \<and> f x = Inr y)"
  by (cases m) auto

lemma ebind_eq_Inl: "ebind m f = Inl e \<longleftrightarrow> m = Inl e \<or> (\<exists>x. m = Inr x \<and> f x = Inl e)"
  by (cases m) auto

lemma ebind_cong [fundef_cong]:
  "m = m' \<Longrightarrow> (\<And>x. m' = Inr x \<Longrightarrow> f x = g x) \<Longrightarrow> ebind m f = ebind m' g"
  by (cases m') auto

lemma require_eq_Inr [errs]: "require b e = Inr u \<longleftrightarrow> b"
  by (simp add: require_def)

lemma require_eq_Inl [errs]: "require b e = Inl e' \<longleftrightarrow> \<not> b \<and> e' = e"
  by (auto simp: require_def)

lemma require_True [simp]: "require True e = Inr ()"
  and require_False [simp]: "require False e = Inl e"
  by (simp_all add: require_def)

lemma sum_not_Inl: "(\<forall>e. m \<noteq> Inl e) \<longleftrightarrow> (\<exists>x. m = Inr x)"
  by (cases m) auto

text \<open>A \<open>for\<close> loop over a list whose body may raise.\<close>

fun efold :: "('s \<Rightarrow> 'a \<Rightarrow> 'e + 's) \<Rightarrow> 's \<Rightarrow> 'a list \<Rightarrow> 'e + 's" where
  "efold f s [] = Inr s"
| "efold f s (x # xs) = ebind (f s x) (\<lambda>s'. efold f s' xs)"

lemma efold_append: "efold f s (xs @ ys) = ebind (efold f s xs) (\<lambda>s'. efold f s' ys)"
proof (induction xs arbitrary: s)
  case Nil
  then show ?case by simp
next
  case (Cons x xs)
  then show ?case by (cases "f s x") auto
qed

lemma efold_invariant:
  assumes "efold f s xs = Inr s'" and "P s"
    and "\<And>s x s'. x \<in> set xs \<Longrightarrow> P s \<Longrightarrow> f s x = Inr s' \<Longrightarrow> P s'"
  shows "P s'"
  using assms
proof (induction xs arbitrary: s)
  case Nil
  then show ?case by simp
next
  case (Cons x xs)
  from Cons.prems(1) obtain t where t: "f s x = Inr t" "efold f t xs = Inr s'"
    by (auto simp: errs)
  from Cons.prems(2,3) t(1) have "P t" by auto
  with t(2) show ?case by (rule Cons.IH) (use Cons.prems(3) in auto)
qed

lemma efold_Inr:
  assumes "\<And>s x. x \<in> set xs \<Longrightarrow> f s x = Inr (g s x)"
  shows "efold f s xs = Inr (foldl g s xs)"
  using assms by (induction xs arbitrary: s) auto

lemma efold_concat:
  assumes "\<And>x. x \<in> set xs \<Longrightarrow> f x = Inr (g x)"
  shows "efold (\<lambda>acc x. ebind (f x) (\<lambda>ys. Inr (acc @ ys))) acc xs = Inr (acc @ concat (map g xs))"
  using assms by (induction xs arbitrary: acc) auto

text \<open>A list built one element at a time.\<close>

definition collect :: "('a \<Rightarrow> 'e + 'b) \<Rightarrow> 'a list \<Rightarrow> 'e + 'b list" where
  "collect f xs = efold (\<lambda>ys x. ebind (f x) (\<lambda>y. Inr (ys @ [y]))) [] xs"

lemma collect_ok:
  assumes "\<And>x. x \<in> set xs \<Longrightarrow> f x = Inr (g x)"
  shows "collect f xs = Inr (map g xs)"
proof -
  have "efold (\<lambda>ys x. ebind (f x) (\<lambda>y. Inr (ys @ [y]))) acc xs = Inr (acc @ map g xs)" for acc
    using assms by (induction xs arbitrary: acc) auto
  then show ?thesis by (simp add: collect_def)
qed

lemma collect_eq_Inr: "collect f xs = Inr ys \<longleftrightarrow> list_all2 (\<lambda>x y. f x = Inr y) xs ys"
proof -
  have "efold (\<lambda>ys x. ebind (f x) (\<lambda>y. Inr (ys @ [y]))) acc xs = Inr ys
      \<longleftrightarrow> (\<exists>zs. ys = acc @ zs \<and> list_all2 (\<lambda>x y. f x = Inr y) xs zs)" for acc
  proof (induction xs arbitrary: acc)
    case (Cons x xs)
    show ?case
    proof (cases "f x")
      case (Inr y)
      then show ?thesis by (auto simp: Cons.IH list_all2_Cons1)
    qed (auto simp: list_all2_Cons1)
  qed auto
  then show ?thesis by (simp add: collect_def)
qed

lemma collect_Nil [simp]: "collect f [] = Inr []"
  by (simp add: collect_def)

text \<open>A loop that only checks, one element at a time.\<close>

definition echeck :: "('a \<Rightarrow> 'e + unit) \<Rightarrow> 'a list \<Rightarrow> 'e + unit" where
  "echeck f xs = efold (\<lambda>_. f) () xs"

lemma echeck_eq_Inr [errs]: "echeck f xs = Inr u \<longleftrightarrow> (\<forall>x \<in> set xs. f x = Inr ())"
  unfolding echeck_def by (induction xs) (auto simp: errs)

lemma echeck_Nil [simp]: "echeck f [] = Inr ()"
  by (simp add: echeck_def)

lemma echeck_Cons: "echeck f (x # xs) = ebind (f x) (\<lambda>_. echeck f xs)"
  by (simp add: echeck_def)

text \<open>
  A loop that leaves early: the body returns \<open>Inl\<close> a final result, at which the loop breaks, or
  \<open>Inr\<close> the state with which the next iteration starts.
\<close>

fun floop :: "('s \<Rightarrow> 'a \<Rightarrow> 'e + ('r + 's)) \<Rightarrow> 's \<Rightarrow> 'a list \<Rightarrow> 'e + ('r + 's)" where
  "floop f s [] = Inr (Inr s)"
| "floop f s (x # xs) =
     ebind (f s x) (\<lambda>r. case r of Inl stop \<Rightarrow> Inr (Inl stop) | Inr s' \<Rightarrow> floop f s' xs)"

lemma ebind_break_Inr [errs]:
  "ebind m (\<lambda>r. case r of Inl stop \<Rightarrow> Inr (Inl stop) | Inr x \<Rightarrow> g x) = Inr (Inr y)
     \<longleftrightarrow> (\<exists>x. m = Inr (Inr x) \<and> g x = Inr (Inr y))"
proof (cases m)
  case (Inr v)
  then show ?thesis by (cases v) auto
qed simp

lemma floop_Cons_Inr [errs]:
  "floop f s (x # xs) = Inr (Inr t) \<longleftrightarrow> (\<exists>u. f s x = Inr (Inr u) \<and> floop f u xs = Inr (Inr t))"
  unfolding floop.simps by (rule ebind_break_Inr)

lemma floop_invariant:
  assumes "floop f s xs = Inr (Inr s')" and "P s"
    and "\<And>s x s'. x \<in> set xs \<Longrightarrow> P s \<Longrightarrow> f s x = Inr (Inr s') \<Longrightarrow> P s'"
  shows "P s'"
  using assms
proof (induction xs arbitrary: s)
  case Nil
  then show ?case by simp
next
  case (Cons x xs)
  from Cons.prems(1) obtain t where t: "f s x = Inr (Inr t)" "floop f t xs = Inr (Inr s')"
    unfolding floop_Cons_Inr by blast
  from Cons.prems(2,3) t(1) have "P t" by auto
  with t(2) show ?case by (rule Cons.IH) (use Cons.prems(3) in auto)
qed

lemma floop_break:
  assumes "floop f s xs = Inr (Inl r)" and "P s"
    and "\<And>s x s'. x \<in> set xs \<Longrightarrow> P s \<Longrightarrow> f s x = Inr (Inr s') \<Longrightarrow> P s'"
    and "\<And>s x. x \<in> set xs \<Longrightarrow> P s \<Longrightarrow> f s x = Inr (Inl r) \<Longrightarrow> Q r"
  shows "Q r"
  using assms
proof (induction xs arbitrary: s)
  case Nil
  then show ?case by simp
next
  case (Cons x xs)
  from Cons.prems(1) obtain v where v: "f s x = Inr v"
    by (auto simp: errs)
  show ?case
  proof (cases v)
    case (Inl r')
    with v Cons.prems(1) have "f s x = Inr (Inl r)" by simp
    with Cons.prems(2) show ?thesis by (intro Cons.prems(4) [of x s]) auto
  next
    case (Inr t)
    with v Cons.prems(1) have "floop f t xs = Inr (Inl r)" by simp
    moreover have "P t" using Cons.prems(2,3) v Inr by auto
    ultimately show ?thesis
    proof (rule Cons.IH)
      show "P s'" if "y \<in> set xs" "P s" "f s y = Inr (Inr s')" for s y s'
        using Cons.prems(3) that by (meson list.set_intros(2))
      show "Q r" if "y \<in> set xs" "P s" "f s y = Inr (Inl r)" for s y
        using Cons.prems(4) that by (meson list.set_intros(2))
    qed
  qed
qed

lemma floop_each:
  fixes xs :: "'x list"
  assumes "floop f s xs = Inr (Inr s')" and "P s"
    and step: "\<And>s x s'. x \<in> set xs \<Longrightarrow> P s \<Longrightarrow> f s x = Inr (Inr s') \<Longrightarrow> P s' \<and> Q x s'"
    and keep: "\<And>s x s' y. x \<in> set xs \<Longrightarrow> P s \<Longrightarrow> Q y s \<Longrightarrow> f s x = Inr (Inr s') \<Longrightarrow> Q y s'"
  shows "P s' \<and> (\<forall>x \<in> set xs. Q x s')"
proof -
  have "(\<forall>x \<in> set ys. Q x t) \<Longrightarrow> set ys \<union> set zs = set xs \<Longrightarrow> P t \<Longrightarrow> floop f t zs = Inr (Inr s') \<Longrightarrow>
      P s' \<and> (\<forall>x \<in> set xs. Q x s')"
    for ys zs :: "'x list" and t
  proof (induction zs arbitrary: ys t)
    case Nil
    then show ?case by simp
  next
    case (Cons z zs)
    from Cons.prems(4) obtain u where u: "f t z = Inr (Inr u)" "floop f u zs = Inr (Inr s')"
      unfolding floop_Cons_Inr by blast
    have z: "z \<in> set xs" using Cons.prems(2) by auto
    from step [OF z Cons.prems(3) u(1)] have "P u" "Q z u" by blast+
    moreover have "\<forall>x \<in> set ys. Q x u" using Cons.prems(1) keep [OF z Cons.prems(3) _ u(1)] by blast
    ultimately show ?case
      using Cons.prems(2) u(2) by (intro Cons.IH [of "ys @ [z]"]) auto
  qed
  from this [where ys = "[]" and zs = xs and t = s] assms(1,2) show ?thesis by simp
qed

text \<open>A call that does not raise, and whose value satisfies \<open>P\<close>.\<close>

definition returns :: "'e + 'a \<Rightarrow> ('a \<Rightarrow> bool) \<Rightarrow> bool" where
  "returns m P \<longleftrightarrow> (case m of Inl e \<Rightarrow> False | Inr v \<Rightarrow> P v)"

lemma returns_simps [simp]:
  "returns (Inr v) P \<longleftrightarrow> P v" "\<not> returns (Inl e) P"
  "returns (ebind m f) P \<longleftrightarrow> returns m (\<lambda>x. returns (f x) P)"
  "returns (require b e) Q \<longleftrightarrow> b \<and> Q ()"
  by (simp_all add: returns_def require_def split: sum.splits)

lemma returns_echeck [simp]: "returns (echeck f xs) P \<longleftrightarrow> (\<forall>x \<in> set xs. f x = Inr ()) \<and> P ()"
proof (cases "echeck f xs")
  case (Inl e)
  then have "\<not> (\<forall>x \<in> set xs. f x = Inr ())" using echeck_eq_Inr [of f xs "()"] by simp
  with Inl show ?thesis by simp
next
  case (Inr u)
  then have "\<forall>x \<in> set xs. f x = Inr ()" using echeck_eq_Inr [of f xs u] by simp
  with Inr show ?thesis by simp
qed

lemma returns_iff: "returns m P \<longleftrightarrow> (\<exists>v. m = Inr v \<and> P v)"
  by (auto simp: returns_def split: sum.splits)

lemma returns_mono: "returns m P \<Longrightarrow> (\<And>v. m = Inr v \<Longrightarrow> P v \<Longrightarrow> Q v) \<Longrightarrow> returns m Q"
  by (auto simp: returns_iff)

lemma returns_floop:
  assumes "P s" and "\<And>s x. x \<in> set xs \<Longrightarrow> P s \<Longrightarrow> returns (f s x) (\<lambda>v. case v of Inl r \<Rightarrow> Q r | Inr s' \<Rightarrow> P s')"
  shows "returns (floop f s xs) (\<lambda>v. case v of Inl r \<Rightarrow> Q r | Inr s' \<Rightarrow> P s')"
  using assms
proof (induction xs arbitrary: s)
  case Nil
  then show ?case by simp
next
  case (Cons x xs)
  have "returns (f s x) (\<lambda>v. case v of Inl r \<Rightarrow> Q r | Inr s' \<Rightarrow> P s')" using Cons.prems by simp
  then show ?case
    unfolding floop.simps returns_simps
  proof (rule returns_mono)
    fix v assume v: "case v of Inl r \<Rightarrow> Q r | Inr s' \<Rightarrow> P s'"
    show "returns (case v of Inl stop \<Rightarrow> Inr (Inl stop) | Inr s' \<Rightarrow> floop f s' xs)
        (\<lambda>v. case v of Inl r \<Rightarrow> Q r | Inr s' \<Rightarrow> P s')"
    proof (cases v)
      case (Inr t)
      with v Cons.prems(2) show ?thesis by (auto intro: Cons.IH)
    qed (use v in simp)
  qed
qed

lemma returns_efold:
  assumes "P s" and "\<And>s x. x \<in> set xs \<Longrightarrow> P s \<Longrightarrow> returns (f s x) P"
  shows "returns (efold f s xs) P"
  using assms
proof (induction xs arbitrary: s)
  case (Cons x xs)
  have "returns (f s x) P" using Cons.prems by simp
  then have "returns (f s x) (\<lambda>t. returns (efold f t xs) P)"
    by (rule returns_mono) (use Cons in auto)
  then show ?case by simp
qed simp

lemma returns_collect:
  assumes "\<And>x. x \<in> set xs \<Longrightarrow> returns (f x) (\<lambda>y. y = g x)"
  shows "collect f xs = Inr (map g xs)"
  using assms by (intro collect_ok) (auto simp: returns_iff)

section \<open>Dictionaries\<close>

text \<open>
  A Python dictionary keeps insertion order: storing under a present key keeps its
  position, storing under a new key appends. This is exactly \<^theory_text>\<open>AList.update\<close>.
\<close>

type_synonym ('k, 'v) dict = "('k \<times> 'v) list"

abbreviation dget :: "('k, 'v) dict \<Rightarrow> 'k \<Rightarrow> 'v option" where
  "dget d k \<equiv> map_of d k"

abbreviation dput :: "'k \<Rightarrow> 'v \<Rightarrow> ('k, 'v) dict \<Rightarrow> ('k, 'v) dict" where
  "dput k v d \<equiv> AList.update k v d"

abbreviation dkeys :: "('k, 'v) dict \<Rightarrow> 'k list" where
  "dkeys d \<equiv> map fst d"

abbreviation dvals :: "('k, 'v) dict \<Rightarrow> 'v list" where
  "dvals d \<equiv> map snd d"

text \<open>Every Python dictionary has distinct keys.\<close>

abbreviation dict_ok :: "('k, 'v) dict \<Rightarrow> bool" where
  "dict_ok d \<equiv> distinct (dkeys d)"

lemma dget_dput [simp, dicts]: "dget (dput k v d) k' = (if k' = k then Some v else dget d k')"
  by (simp add: update_conv')

lemma dict_ok_dput [simp, dicts]: "dict_ok d \<Longrightarrow> dict_ok (dput k v d)"
  by (rule distinct_update)

lemma dkeys_dput: "set (dkeys (dput k v d)) = insert k (set (dkeys d))"
  by (induction d) auto

lemma set_dput_subset: "set (dput k v d) \<subseteq> insert (k, v) (set d)"
  by (induction d) auto

lemma in_set_dput [dicts]:
  "dict_ok d \<Longrightarrow> p \<in> set (dput k v d) \<longleftrightarrow> p = (k, v) \<or> (p \<in> set d \<and> fst p \<noteq> k)"
  by (induction d) (auto simp: rev_image_eqI)

lemma dget_Some_iff: "dict_ok d \<Longrightarrow> dget d k = Some v \<longleftrightarrow> (k, v) \<in> set d"
  by simp

lemma dget_Some_key: "dget d k = Some v \<Longrightarrow> k \<in> set (dkeys d)"
  by (force dest: map_of_SomeD)

lemma dkeys_iff_dget: "k \<in> set (dkeys d) \<longleftrightarrow> (\<exists>v. dget d k = Some v)"
  by (induction d) auto

lemma dget_None_iff: "dget d k = None \<longleftrightarrow> k \<notin> set (dkeys d)"
  by (simp add: map_of_eq_None_iff)

lemma dkeys_dput_present [dicts]: "dget d k \<noteq> None \<Longrightarrow> dkeys (dput k v d) = dkeys d"
  by (simp add: update_keys map_of_eq_None_iff)

lemma dput_absent [dicts]: "dget d k = None \<Longrightarrow> dput k v d = d @ [(k, v)]"
  by (induction d) (auto split: if_splits)

lemma prefix_dkeys_dput [dicts]: "prefix (dkeys d) (dkeys (dput k v d))"
proof (cases "dget d k")
  case None
  then show ?thesis by (simp add: dput_absent)
next
  case (Some w)
  then show ?thesis by (simp add: dkeys_dput_present)
qed

lemma dput_same: "dget d k = Some v \<Longrightarrow> dput k v d = d"
  by (induction d) auto

lemma dict_eqI:
  assumes "dkeys d = dkeys e" and "dict_ok d" and "\<And>k. dget d k = dget e k"
  shows "d = e"
  using assms
proof (induction d arbitrary: e)
  case Nil
  then show ?case by simp
next
  case (Cons p d)
  then obtain q e' where e: "e = q # e'" "fst q = fst p" "dkeys e' = dkeys d"
    by (cases e) auto
  have "snd p = snd q" using Cons.prems(3) [of "fst p"] e by (cases p; cases q) simp
  moreover have "d = e'"
  proof (rule Cons.IH)
    fix k
    have "dget d k = None" "dget e' k = None" if "k = fst p"
      using Cons.prems(2) e that unfolding dget_None_iff by auto
    then show "dget d k = dget e' k"
      using Cons.prems(3) [of k] e by (cases p; cases q) (auto split: if_splits)
  qed (use Cons.prems e in auto)
  ultimately show ?case using e by (simp add: prod_eq_iff)
qed

lemma dget_map_value: "dget (map (\<lambda>(k, v). (k, f k v)) d) k = map_option (f k) (dget d k)"
  by (induction d) auto

lemma dkeys_map_value [simp]: "dkeys (map (\<lambda>(k, v). (k, f k v)) d) = dkeys d"
  by (induction d) auto

text \<open>A dictionary comprehension over distinct keys.\<close>

lemma foldl_dput_distinct:
  "distinct (dkeys acc @ map k xs) \<Longrightarrow>
     foldl (\<lambda>d x. dput (k x) (v x) d) acc xs = acc @ map (\<lambda>x. (k x, v x)) xs"
proof (induction xs arbitrary: acc)
  case Nil
  then show ?case by simp
next
  case (Cons x xs)
  then have "k x \<notin> set (dkeys acc)" by simp
  then have "dput (k x) (v x) acc = acc @ [(k x, v x)]"
    unfolding dget_None_iff [symmetric] by (rule dput_absent)
  with Cons show ?case by simp
qed

text \<open>Sums over the values of a dictionary, when one value is replaced or added.\<close>

lemma sum_dput_present:
  fixes f :: "'v \<Rightarrow> int"
  assumes "dict_ok d" and "dget d k = Some old"
  shows "sum_list (map f (dvals (dput k v d))) = sum_list (map f (dvals d)) - f old + f v"
  using assms
proof (induction d)
  case Nil
  then show ?case by simp
next
  case (Cons p d)
  then show ?case by (cases p) (auto split: if_splits)
qed

lemma sum_dput_absent:
  fixes f :: "'v \<Rightarrow> int"
  assumes "dget d k = None"
  shows "sum_list (map f (dvals (dput k v d))) = sum_list (map f (dvals d)) + f v"
  using assms by (induction d) (auto split: if_splits)

lemma sum_list_nonneg_map: "(\<And>x. x \<in> set xs \<Longrightarrow> 0 \<le> f x) \<Longrightarrow> (0::int) \<le> sum_list (map f xs)"
  by (induction xs) auto

lemma member_le_sum_list_map:
  "(\<And>x. x \<in> set xs \<Longrightarrow> 0 \<le> f x) \<Longrightarrow> y \<in> set xs \<Longrightarrow> f y \<le> (sum_list (map f xs) :: int)"
  by (induction xs) (auto intro: sum_list_nonneg_map add_increasing add_increasing2)

text \<open>\<open>list(dict.fromkeys(xs))\<close>: the first occurrence of every element, in order.\<close>

fun fromkeys :: "'a list \<Rightarrow> 'a list" where
  "fromkeys [] = []"
| "fromkeys (x # xs) = x # filter (\<lambda>y. y \<noteq> x) (fromkeys xs)"

lemma set_fromkeys [simp]: "set (fromkeys xs) = set xs"
  by (induction xs) auto

lemma distinct_fromkeys [simp]: "distinct (fromkeys xs)"
  by (induction xs) auto

lemma fromkeys_distinct [simp]: "distinct xs \<Longrightarrow> fromkeys xs = xs"
proof (induction xs)
  case Nil
  then show ?case by simp
next
  case (Cons x xs)
  then have "filter (\<lambda>y. y \<noteq> x) xs = xs" by (intro filter_True) auto
  with Cons show ?case by simp
qed

lemma find_distinct: "distinct (map f xs) \<Longrightarrow> x \<in> set xs \<Longrightarrow> find (\<lambda>y. f y = f x) xs = Some x"
  by (induction xs) (auto simp: image_iff)

text \<open>\<open>f"{n}"\<close> for an integer.\<close>

fun digits_of :: "nat \<Rightarrow> string" where
  "digits_of n =
     (if n < 10 then [char_of (48 + n)] else digits_of (n div 10) @ [char_of (48 + n mod 10)])"

declare digits_of.simps [simp del]

definition int_text :: "int \<Rightarrow> string" where
  "int_text n = (if n < 0 then CHR ''-'' # digits_of (nat (- n)) else digits_of (nat n))"

text \<open>A digest with its algorithm: \<open>sha256:\<close> and 64 hexadecimal digits, and so on.\<close>

definition hex_char :: "char \<Rightarrow> bool" where
  "hex_char c \<longleftrightarrow> CHR ''0'' \<le> c \<and> c \<le> CHR ''9'' \<or> CHR ''A'' \<le> c \<and> c \<le> CHR ''F''
     \<or> CHR ''a'' \<le> c \<and> c \<le> CHR ''f''"

definition digest_text :: "string \<Rightarrow> bool" where
  "digest_text s \<longleftrightarrow>
     list_ex (\<lambda>(p, n). take 7 s = p \<and> length s = 7 + n \<and> list_all hex_char (drop 7 s))
       [(''sha256:'', 64), (''sha384:'', 96), (''sha512:'', 128), (''blake3:'', 64)]"

text \<open>\<open>values == tuple(sorted(set(values)))\<close>.\<close>

definition sorted_unique :: "'a :: linorder list \<Rightarrow> bool" where
  "sorted_unique xs \<longleftrightarrow> xs = sort (remdups xs)"

lemma sorted_unique_iff: "sorted_unique xs \<longleftrightarrow> sorted xs \<and> distinct xs"
proof
  assume "sorted_unique xs"
  then have "xs = sort (remdups xs)" by (simp add: sorted_unique_def)
  then show "sorted xs \<and> distinct xs" by (metis distinct_remdups distinct_sort sorted_sort)
next
  assume "sorted xs \<and> distinct xs"
  then show "sorted_unique xs" by (simp add: sorted_unique_def distinct_remdups_id sorted_sort_id)
qed

lemma sorted_unique_of_set [simp]: "sorted_unique (sorted_list_of_set A)"
  by (simp add: sorted_unique_iff)

section \<open>Interfaces of the stateful components\<close>

text \<open>
  A component whose operations may raise: an operation that returns yields the next
  state, an operation that raises leaves the caller with the state it had.
  \<open>machine_reach step s\<close> are the states that some sequence of successful operations
  reaches from \<open>s\<close>.
\<close>

inductive machine_reach :: "('op \<Rightarrow> 's \<Rightarrow> 'e + 's) \<Rightarrow> 's \<Rightarrow> 's \<Rightarrow> bool"
  for step :: "'op \<Rightarrow> 's \<Rightarrow> 'e + 's" and s :: 's where
  reach_start: "machine_reach step s s"
| reach_step: "machine_reach step s t \<Longrightarrow> step op t = Inr u \<Longrightarrow> machine_reach step s u"

lemma machine_reach_trans:
  assumes "machine_reach step t u" and "machine_reach step s t"
  shows "machine_reach step s u"
  using assms by (induction rule: machine_reach.induct) (auto intro: machine_reach.reach_step)

text \<open>The run of a list of operations, as the client issues them; the first exception ends it.\<close>

definition machine_run :: "('op \<Rightarrow> 's \<Rightarrow> 'e + 's) \<Rightarrow> 's \<Rightarrow> 'op list \<Rightarrow> 'e + 's" where
  "machine_run step s ops = efold (\<lambda>t op. step op t) s ops"

lemma machine_run_Nil [simp]: "machine_run step s [] = Inr s"
  by (simp add: machine_run_def)

lemma machine_run_Cons [simp]:
  "machine_run step s (op # ops) = ebind (step op s) (\<lambda>t. machine_run step t ops)"
  by (simp add: machine_run_def)

lemma machine_run_reach: "machine_run step s ops = Inr u \<Longrightarrow> machine_reach step s u"
proof (induction ops arbitrary: s)
  case Nil
  then show ?case by (simp add: machine_reach.reach_start)
next
  case (Cons op ops)
  then obtain t where t: "step op s = Inr t" "machine_run step t ops = Inr u"
    by (auto simp: errs)
  have "machine_reach step s t"
    using machine_reach.reach_start t(1) by (rule machine_reach.reach_step)
  with Cons.IH [OF t(2)] show ?case by (rule machine_reach_trans)
qed

locale checked_machine =
  fixes step :: "'op \<Rightarrow> 's \<Rightarrow> 'e + 's" and inv :: "'s \<Rightarrow> bool"
  assumes step_inv: "inv s \<Longrightarrow> step op s = Inr t \<Longrightarrow> inv t"
begin

lemma reach_inv: "machine_reach step s t \<Longrightarrow> inv s \<Longrightarrow> inv t"
  by (induction rule: machine_reach.induct) (auto intro: step_inv)

lemma run_inv: "machine_run step s ops = Inr t \<Longrightarrow> inv s \<Longrightarrow> inv t"
  by (rule reach_inv [OF machine_run_reach])

end

text \<open>
  A component that also keeps an append-only log (a clock history, an episode history,
  the ledger of budget events): every operation extends it.
\<close>

locale logged_machine = checked_machine +
  fixes log :: "'s \<Rightarrow> 'l list"
  assumes step_log: "inv s \<Longrightarrow> step op s = Inr t \<Longrightarrow> prefix (log s) (log t)"
begin

lemma reach_log: "machine_reach step s t \<Longrightarrow> inv s \<Longrightarrow> prefix (log s) (log t)"
proof (induction rule: machine_reach.induct)
  case reach_start
  then show ?case by simp
next
  case (reach_step t op u)
  from reach_step.hyps(1) reach_step.prems have "inv t" by (rule reach_inv)
  then have "prefix (log t) (log u)" using reach_step.hyps(2) by (rule step_log)
  with reach_step show ?case by (auto intro: prefix_order.trans)
qed

lemma run_log: "machine_run step s ops = Inr t \<Longrightarrow> inv s \<Longrightarrow> prefix (log s) (log t)"
  by (rule reach_log [OF machine_run_reach])

lemma logged_entry_kept:
  "machine_reach step s t \<Longrightarrow> inv s \<Longrightarrow> i < length (log s) \<Longrightarrow> log t ! i = log s ! i"
  by (metis reach_log nth_append prefix_def)

end

end
