(* ===== verification/Addressing.thy ===== *)
theory Addressing
  imports Prelude
begin

text \<open>
  The wire contract of processor-owned runtime addresses (raes_contracts/addressing.py).
  An address is a string of dot-separated segments; the regular expression of the code,
  \<open>SEG(\.SEG)+\<close> with \<open>SEG = [a-z0-9][a-z0-9_-]{0,63} | __private\<close>, has no dot inside a
  segment, so it is checked segment by segment after splitting at the dots.
\<close>

type_synonym address = string

datatype address_error = NotCanonicalAddress \<comment> \<open>ValueError: must be a canonical compiled address\<close>

definition COMPILED_ADDRESS_MAX_LENGTH :: nat where
  "COMPILED_ADDRESS_MAX_LENGTH = 2048"

definition lower_alnum :: "char \<Rightarrow> bool" where
  "lower_alnum c \<longleftrightarrow> CHR ''a'' \<le> c \<and> c \<le> CHR ''z'' \<or> CHR ''0'' \<le> c \<and> c \<le> CHR ''9''"

definition segment_char :: "char \<Rightarrow> bool" where
  "segment_char c \<longleftrightarrow> lower_alnum c \<or> c = CHR ''_'' \<or> c = CHR ''-''"

definition address_segment :: "string \<Rightarrow> bool" where
  "address_segment s \<longleftrightarrow>
     (case s of [] \<Rightarrow> False
      | c # cs \<Rightarrow> lower_alnum c \<and> length cs \<le> 63 \<and> list_all segment_char cs)
     \<or> s = ''__private''"

text \<open>Python's \<open>str.split(".")\<close>: never the empty list.\<close>

fun split_dots :: "string \<Rightarrow> string list" where
  "split_dots [] = [[]]"
| "split_dots (c # cs) =
     (if c = CHR ''.'' then [] # split_dots cs
      else (case split_dots cs of [] \<Rightarrow> [[c]] | w # ws \<Rightarrow> (c # w) # ws))"

text \<open>Python's \<open>".".join(parts)\<close>.\<close>

fun join_dots :: "string list \<Rightarrow> string" where
  "join_dots [] = []"
| "join_dots [w] = w"
| "join_dots (w # v # ws) = w @ CHR ''.'' # join_dots (v # ws)"

definition compiled_address :: "string \<Rightarrow> bool" where
  "compiled_address v \<longleftrightarrow>
     length v \<le> COMPILED_ADDRESS_MAX_LENGTH
     \<and> 2 \<le> length (split_dots v) \<and> list_all address_segment (split_dots v)"

definition require_compiled_address :: "string \<Rightarrow> address_error + address" where
  "require_compiled_address v = (if compiled_address v then Inr v else Inl NotCanonicalAddress)"

definition render_compiled_address :: "string list \<Rightarrow> address_error + address" where
  "render_compiled_address parts =
     require_compiled_address (join_dots (filter (\<lambda>p. p \<noteq> []) parts))"

definition starts_with :: "string \<Rightarrow> string \<Rightarrow> bool" where
  "starts_with s p \<longleftrightarrow> take (length p) s = p"

definition is_compiler_owned_temporal_subject_address :: "string \<Rightarrow> bool" where
  "is_compiler_owned_temporal_subject_address a =
     (let parts = split_dots a in
      starts_with a ''sdl.''
      \<or> (length parts = 5 \<and> list_all (\<lambda>p. p \<noteq> []) parts
         \<and> parts ! 0 = ''participant'' \<and> parts ! 1 = ''behavior-specification''
         \<and> parts ! 3 = ''inject-delivery''))"

section \<open>Splitting and joining\<close>

lemma split_dots_nonempty [simp]: "split_dots v \<noteq> []"
  by (induction v) (auto split: list.splits)

lemma split_dots_no_dot: "w \<in> set (split_dots v) \<Longrightarrow> CHR ''.'' \<notin> set w"
proof (induction v arbitrary: w)
  case Nil
  then show ?case by simp
next
  case (Cons c cs)
  obtain u us where us: "split_dots cs = u # us"
    using split_dots_nonempty by (metis list.exhaust)
  with Cons show ?case by (auto split: if_splits)
qed

lemma join_split [simp]: "join_dots (split_dots v) = v"
proof (induction v)
  case Nil
  then show ?case by simp
next
  case (Cons c cs)
  obtain u us where us: "split_dots cs = u # us"
    using split_dots_nonempty by (metis list.exhaust)
  with Cons show ?case by (cases us) auto
qed

lemma split_dots_append:
  assumes "CHR ''.'' \<notin> set w"
  shows "split_dots (w @ CHR ''.'' # v) = w # split_dots v"
  using assms by (induction w) auto

lemma split_dots_word: "CHR ''.'' \<notin> set w \<Longrightarrow> split_dots w = [w]"
  by (induction w) auto

lemma split_join:
  "ws \<noteq> [] \<Longrightarrow> (\<And>w. w \<in> set ws \<Longrightarrow> CHR ''.'' \<notin> set w) \<Longrightarrow> split_dots (join_dots ws) = ws"
  by (induction ws rule: join_dots.induct) (auto simp: split_dots_append split_dots_word)

lemma segment_no_dot: "address_segment s \<Longrightarrow> CHR ''.'' \<notin> set s"
  by (cases s) (auto simp: address_segment_def segment_char_def lower_alnum_def list_all_iff
      less_eq_char_def)

lemma segment_nonempty: "address_segment s \<Longrightarrow> s \<noteq> []"
  by (auto simp: address_segment_def)

lemma compiled_address_iff:
  "compiled_address v \<longleftrightarrow>
     length v \<le> COMPILED_ADDRESS_MAX_LENGTH
     \<and> (\<exists>ws. v = join_dots ws \<and> 2 \<le> length ws \<and> list_all address_segment ws)" (is "?L \<longleftrightarrow> ?R")
proof
  assume ?L
  then show ?R
    unfolding compiled_address_def by (metis join_split)
next
  assume r: ?R
  then obtain ws where ws: "v = join_dots ws" "2 \<le> length ws" "list_all address_segment ws"
    by blast
  then have "split_dots v = ws"
    by (auto intro!: split_join simp: list_all_iff dest: segment_no_dot)
  with r ws show ?L by (simp add: compiled_address_def)
qed

lemma compiled_address_nonempty: "compiled_address v \<Longrightarrow> v \<noteq> []"
  by (auto simp: compiled_address_def)

lemma require_compiled_address_Inr [errs]:
  "require_compiled_address v = Inr a \<longleftrightarrow> compiled_address v \<and> a = v"
  by (auto simp: require_compiled_address_def)

lemma render_split:
  assumes "2 \<le> length ws" and "list_all address_segment ws"
    and "length (join_dots ws) \<le> COMPILED_ADDRESS_MAX_LENGTH"
  shows "render_compiled_address ws = Inr (join_dots ws) \<and> split_dots (join_dots ws) = ws"
proof -
  have "filter (\<lambda>p. p \<noteq> []) ws = ws"
    using assms(2) by (auto simp: filter_id_conv list_all_iff dest: segment_nonempty)
  moreover have "split_dots (join_dots ws) = ws"
    using assms by (intro split_join) (auto simp: list_all_iff dest: segment_no_dot)
  ultimately show ?thesis
    using assms by (simp add: render_compiled_address_def require_compiled_address_def compiled_address_def)
qed

section \<open>Properties\<close>

text \<open>Rendering and splitting are inverse on compiled addresses: every rendered list of
  segments splits back into its segments, and every address the check admits renders from the
  segments it splits into.\<close>

theorem address_round_trip:
  "(2 \<le> length ws \<and> list_all address_segment ws \<and> length (join_dots ws) \<le> COMPILED_ADDRESS_MAX_LENGTH
     \<longrightarrow> ebind (render_compiled_address ws) (\<lambda>a. Inr (split_dots a)) = Inr ws)
   \<and> (require_compiled_address v = Inr a \<longrightarrow> render_compiled_address (split_dots v) = Inr v)"
proof (intro conjI impI)
  assume "2 \<le> length ws \<and> list_all address_segment ws \<and> length (join_dots ws) \<le> COMPILED_ADDRESS_MAX_LENGTH"
  then show "ebind (render_compiled_address ws) (\<lambda>a. Inr (split_dots a)) = Inr ws"
    using render_split [of ws] by simp
next
  assume "require_compiled_address v = Inr a"
  then have "compiled_address v" by (simp add: require_compiled_address_Inr)
  then show "render_compiled_address (split_dots v) = Inr v"
    using render_split [of "split_dots v"] by (simp add: compiled_address_def)
qed

theorem address_round_trip_witness:
  "ebind (render_compiled_address [''provision'', ''web-1'', ''__private'']) (\<lambda>a. Inr (split_dots a))
     = Inr [''provision'', ''web-1'', ''__private'']
   \<and> render_compiled_address (split_dots ''provision.web-1'') = Inr ''provision.web-1''"
proof
  have "2 \<le> length [''provision'', ''web-1'', ''__private'']
      \<and> list_all address_segment [''provision'', ''web-1'', ''__private'']
      \<and> length (join_dots [''provision'', ''web-1'', ''__private'']) \<le> COMPILED_ADDRESS_MAX_LENGTH"
    by code_simp
  then show "ebind (render_compiled_address [''provision'', ''web-1'', ''__private''])
      (\<lambda>a. Inr (split_dots a)) = Inr [''provision'', ''web-1'', ''__private'']"
    using address_round_trip by blast
  have "require_compiled_address ''provision.web-1'' = Inr ''provision.web-1''" by code_simp
  then show "render_compiled_address (split_dots ''provision.web-1'') = Inr ''provision.web-1''"
    using address_round_trip by blast
qed

end
