(* ===== verification/Graphs.thy ===== *)
theory Graphs
  imports Addressing
begin

text \<open>
  Directed-graph mechanics (raes_contracts/graphs.py): the stable dependency order.
  The code drives the standard library's \<open>graphlib.TopologicalSorter\<close>; the sorter is
  modelled here as far as the code uses it (add, prepare, get_ready, done).

  The sorter keeps a dictionary from each node to a mutable record of two attributes:
  \<open>node2info\<close> is its key order, \<open>npredecessors\<close> and \<open>successors\<close> the attributes.
  \<open>prepare\<close> raises CycleError after it has filled the ready list, and the code
  suppresses that exception, so only the effect on the state is modelled.
\<close>

datatype graph_error =
    NodesAddedAfterPrepare | PrepareNotCalled | NodeNotAdded | NodeNotPassedOut
  | NodeAlreadyDone | UnknownNodeKey | EmptyComponent

record 'n sorter =
  node2info :: "'n list"
  npredecessors :: "'n \<Rightarrow> int"
  successors :: "'n \<Rightarrow> 'n list"
  ready_nodes :: "'n list option"

definition NODE_OUT :: int where "NODE_OUT = -1"
definition NODE_DONE :: int where "NODE_DONE = -2"

definition new_sorter :: "'n sorter" where
  "new_sorter = \<lparr>node2info = [], npredecessors = (\<lambda>_. 0), successors = (\<lambda>_. []),
     ready_nodes = None\<rparr>"

definition sorter_nodeinfo :: "'n \<Rightarrow> 'n sorter \<Rightarrow> 'n sorter" where
  "sorter_nodeinfo n s =
     (if n \<in> set (node2info s) then s
      else s\<lparr>node2info := node2info s @ [n],
             npredecessors := (npredecessors s)(n := 0),
             successors := (successors s)(n := [])\<rparr>)"

definition sorter_add_successor :: "'n \<Rightarrow> 'n \<Rightarrow> 'n sorter \<Rightarrow> 'n sorter" where
  "sorter_add_successor n pred s =
     (let s' = sorter_nodeinfo pred s
      in s'\<lparr>successors := (successors s')(pred := successors s' pred @ [n])\<rparr>)"

definition sorter_add :: "'n \<Rightarrow> 'n list \<Rightarrow> 'n sorter \<Rightarrow> graph_error + 'n sorter" where
  "sorter_add n preds s =
     (if ready_nodes s \<noteq> None then Inl NodesAddedAfterPrepare
      else (let s' = sorter_nodeinfo n s;
                s'' = s'\<lparr>npredecessors := (npredecessors s')(n := npredecessors s' n + int (length preds))\<rparr>
            in Inr (fold (sorter_add_successor n) preds s'')))"

definition sorter_prepare :: "'n sorter \<Rightarrow> 'n sorter" where
  "sorter_prepare s =
     (case ready_nodes s of
        Some r \<Rightarrow> s
      | None \<Rightarrow> s\<lparr>ready_nodes := Some (filter (\<lambda>n. npredecessors s n = 0) (node2info s))\<rparr>)"

definition sorter_get_ready :: "'n sorter \<Rightarrow> graph_error + ('n list \<times> 'n sorter)" where
  "sorter_get_ready s =
     (case ready_nodes s of
        None \<Rightarrow> Inl PrepareNotCalled
      | Some r \<Rightarrow>
          Inr (r, s\<lparr>npredecessors := (\<lambda>n. if n \<in> set r then NODE_OUT else npredecessors s n),
                    ready_nodes := Some []\<rparr>))"

definition sorter_release :: "'n sorter \<Rightarrow> 'n \<Rightarrow> graph_error + 'n sorter" where
  "sorter_release s x =
     (if x \<notin> set (node2info s) then Inl UnknownNodeKey
      else (let k = npredecessors s x - 1;
                s' = s\<lparr>npredecessors := (npredecessors s)(x := k)\<rparr>
            in Inr (if k = 0 then s'\<lparr>ready_nodes := map_option (\<lambda>r. r @ [x]) (ready_nodes s)\<rparr>
                    else s')))"

definition sorter_done :: "'n \<Rightarrow> 'n sorter \<Rightarrow> graph_error + 'n sorter" where
  "sorter_done n s =
     (if ready_nodes s = None then Inl PrepareNotCalled
      else if n \<notin> set (node2info s) then Inl NodeNotAdded
      else if npredecessors s n \<noteq> NODE_OUT then
        Inl (if 0 \<le> npredecessors s n then NodeNotPassedOut else NodeAlreadyDone)
      else efold sorter_release (s\<lparr>npredecessors := (npredecessors s)(n := NODE_DONE)\<rparr>)
             (successors s n))"

text \<open>
  The loop of \<open>stable_topological_order\<close>. It stops for every sorter: a departure takes
  one node off the queue, and a node joins it only when its predecessor count reaches 0.
\<close>

definition waiting_count :: "('n \<Rightarrow> int) \<Rightarrow> 'n list \<Rightarrow> nat" where
  "waiting_count f ks = sum_list (map (\<lambda>n. nat (f n)) ks)"

definition sorter_potential :: "'n sorter \<Rightarrow> nat" where
  "sorter_potential s =
     waiting_count (npredecessors s) (node2info s)
     + (case ready_nodes s of None \<Rightarrow> 0 | Some r \<Rightarrow> length r)"

lemma waiting_count_mono: "(\<And>n. f n \<le> g n) \<Longrightarrow> waiting_count f ks \<le> waiting_count g ks"
  unfolding waiting_count_def by (intro sum_list_mono nat_mono) auto

lemma waiting_count_upd_less:
  assumes "x \<in> set ks" and "k < f x" and "0 < f x"
  shows "waiting_count (f(x := k)) ks < waiting_count f ks"
  using assms(1)
proof (induction ks)
  case Nil
  then show ?case by simp
next
  case (Cons n ks)
  have le: "waiting_count (f(x := k)) ks \<le> waiting_count f ks"
    using assms(2) by (intro waiting_count_mono) auto
  then show ?case
    using Cons assms(2,3) by (cases "n = x") (auto simp: waiting_count_def)
qed

lemma waiting_count_upd_same:
  "k \<le> 0 \<Longrightarrow> f x \<le> 0 \<Longrightarrow> waiting_count (f(x := k)) ks = waiting_count f ks"
  unfolding waiting_count_def by (intro arg_cong [where f = sum_list] map_cong) auto

lemma sorter_release_potential:
  assumes "sorter_release s x = Inr s'"
  shows "sorter_potential s' \<le> sorter_potential s"
proof -
  let ?f = "npredecessors s" and ?k = "npredecessors s x - 1"
  from assms have x: "x \<in> set (node2info s)"
    by (auto simp: sorter_release_def split: if_splits)
  have "0 < ?f x \<Longrightarrow> waiting_count (?f(x := ?k)) (node2info s) < waiting_count ?f (node2info s)"
    using x by (intro waiting_count_upd_less) auto
  moreover have "\<not> 0 < ?f x \<Longrightarrow> waiting_count (?f(x := ?k)) (node2info s) = waiting_count ?f (node2info s)"
    by (intro waiting_count_upd_same) auto
  ultimately show ?thesis
    using assms x
    by (cases "0 < ?f x"; cases "ready_nodes s")
       (auto simp: sorter_release_def sorter_potential_def Let_def split: if_splits)
qed

lemma sorter_done_potential:
  assumes "sorter_done n s = Inr s'"
  shows "sorter_potential s' \<le> sorter_potential s"
proof -
  let ?s = "s\<lparr>npredecessors := (npredecessors s)(n := NODE_DONE)\<rparr>"
  from assms have out: "npredecessors s n = NODE_OUT"
    and run: "efold sorter_release ?s (successors s n) = Inr s'"
    by (auto simp: sorter_done_def split: if_splits)
  have start: "sorter_potential ?s = sorter_potential s"
    using out by (simp add: sorter_potential_def waiting_count_upd_same NODE_OUT_def NODE_DONE_def)
  have "sorter_potential s' \<le> sorter_potential ?s"
    using run order_refl
    by (rule efold_invariant) (auto dest: sorter_release_potential)
  with start show ?thesis by simp
qed

lemma sorter_get_ready_potential:
  assumes "sorter_get_ready s = Inr (r, s')"
  shows "sorter_potential s' + length r \<le> sorter_potential s"
proof -
  have "waiting_count (\<lambda>n. if n \<in> set r then NODE_OUT else npredecessors s n) (node2info s)
        \<le> waiting_count (npredecessors s) (node2info s)"
    unfolding waiting_count_def by (intro sum_list_mono) (auto simp: NODE_OUT_def)
  with assms show ?thesis
    by (auto simp: sorter_get_ready_def sorter_potential_def split: option.splits)
qed

function drain :: "'n sorter \<Rightarrow> 'n list \<Rightarrow> 'n list \<Rightarrow> graph_error + 'n list" where
  "drain s [] order = Inr order"
| "drain s (n # rest) order =
     ebind (sorter_done n s) (\<lambda>s1.
       ebind (sorter_get_ready s1) (\<lambda>(r, s2). drain s2 (rest @ r) (order @ [n])))"
  by pat_completeness auto
termination
proof (relation "measure (\<lambda>(s, q, _). sorter_potential s + length q)", goal_cases)
  case 1
  show ?case by simp
next
  case (2 s n rest order s1 x r s2)
  then have "sorter_potential s1 \<le> sorter_potential s"
    and "sorter_potential s2 + length r \<le> sorter_potential s1"
    by (auto dest: sorter_done_potential sorter_get_ready_potential)
  then show ?case by simp
qed

definition stable_topological_order ::
    "('n \<Rightarrow> 'k::linorder) \<Rightarrow> ('n, 'n list) dict \<Rightarrow> graph_error + 'n list" where
  "stable_topological_order key graph =
     (let nodes = sort_key key (dkeys graph) in
      ebind (efold (\<lambda>s n. sorter_add n [] s) new_sorter nodes) (\<lambda>s1.
      ebind (efold (\<lambda>s n. case dget graph n of
                       None \<Rightarrow> Inl UnknownNodeKey
                     | Some deps \<Rightarrow> sorter_add n deps s) s1 nodes) (\<lambda>s2.
      ebind (sorter_get_ready (sorter_prepare s2)) (\<lambda>(ready, s3).
      ebind (drain s3 ready []) (\<lambda>order.
        Inr (if length order \<noteq> length nodes
             then order @ filter (\<lambda>n. n \<notin> set order) nodes else order))))))"

end
