(* ===== verification/GraphOrder.thy ===== *)
theory GraphOrder
  imports Graphs "HOL-Library.Multiset"
begin

text \<open>
  Correctness of \<open>stable_topological_order\<close>: it always returns, the result is a permutation
  of the nodes, every node that no cycle blocks comes after all its dependencies, and the
  nodes that a cycle blocks follow in key order.
\<close>

section \<open>The graph as the code reads it\<close>

definition deps :: "('n, 'n list) dict \<Rightarrow> 'n \<Rightarrow> 'n list" where
  "deps g n = (case dget g n of None \<Rightarrow> [] | Some ds \<Rightarrow> ds)"

text \<open>The caller's obligation: every dependency is a key.\<close>

definition graph_closed :: "('n, 'n list) dict \<Rightarrow> bool" where
  "graph_closed g \<longleftrightarrow> dict_ok g \<and> (\<forall>n \<in> set (dkeys g). set (deps g n) \<subseteq> set (dkeys g))"

definition depends :: "('n, 'n list) dict \<Rightarrow> ('n \<times> 'n) set" where
  "depends g = {(n, d). n \<in> set (dkeys g) \<and> d \<in> set (deps g n)}"

definition deps_first :: "('n, 'n list) dict \<Rightarrow> 'n list \<Rightarrow> bool" where
  "deps_first g xs \<longleftrightarrow> (\<forall>ys n zs. xs = ys @ n # zs \<longrightarrow> set (deps g n) \<subseteq> set ys)"

text \<open>A node is blocked when it reaches a cycle.\<close>

definition cycle_blocked :: "('n, 'n list) dict \<Rightarrow> 'n \<Rightarrow> bool" where
  "cycle_blocked g n \<longleftrightarrow> (\<exists>m. (n, m) \<in> (depends g)\<^sup>* \<and> (m, m) \<in> (depends g)\<^sup>+)"

lemma deps_first_Nil [simp]: "deps_first g []"
  by (simp add: deps_first_def)

lemma deps_first_snoc:
  "deps_first g (xs @ [n]) \<longleftrightarrow> deps_first g xs \<and> set (deps g n) \<subseteq> set xs"
proof
  assume l: "deps_first g (xs @ [n])"
  have "set (deps g m) \<subseteq> set ys" if "xs = ys @ m # zs" for ys m zs
    using l that unfolding deps_first_def by (metis append.assoc append_Cons)
  with l show "deps_first g xs \<and> set (deps g n) \<subseteq> set xs"
    unfolding deps_first_def by blast
next
  assume r: "deps_first g xs \<and> set (deps g n) \<subseteq> set xs"
  show "deps_first g (xs @ [n])"
    unfolding deps_first_def
  proof (intro allI impI)
    fix ys m zs
    assume "xs @ [n] = ys @ m # zs"
    then show "set (deps g m) \<subseteq> set ys"
      using r by (cases zs rule: rev_cases) (auto simp: deps_first_def)
  qed
qed

lemma finite_depends: "finite (depends g)"
proof (rule finite_subset)
  show "depends g \<subseteq> (\<Union>n \<in> set (dkeys g). {n} \<times> set (deps g n))"
    by (auto simp: depends_def)
qed simp

section \<open>Building the sorter\<close>

definition base_sorter :: "'n list \<Rightarrow> 'n sorter" where
  "base_sorter ks = \<lparr>node2info = ks, npredecessors = (\<lambda>_. 0), successors = (\<lambda>_. []), ready_nodes = None\<rparr>"

lemma add_no_predecessors:
  "ready_nodes s = None \<Longrightarrow> sorter_add n [] s = Inr (sorter_nodeinfo n s)"
  by (simp add: sorter_add_def Let_def sorter_nodeinfo_def)

lemma build_nodes:
  "distinct (ks @ ns) \<Longrightarrow>
     efold (\<lambda>s n. sorter_add n [] s) (base_sorter ks) ns = Inr (base_sorter (ks @ ns))"
proof (induction ns arbitrary: ks)
  case Nil
  then show ?case by simp
next
  case (Cons n ns)
  then have "sorter_add n [] (base_sorter ks) = Inr (base_sorter (ks @ [n]))"
    by (auto simp: add_no_predecessors base_sorter_def sorter_nodeinfo_def fun_eq_iff)
  with Cons.IH [of "ks @ [n]"] Cons.prems show ?case by simp
qed

lemma fold_add_successor:
  assumes "set ps \<subseteq> set (node2info s)"
  shows "fold (sorter_add_successor n) ps s =
    s\<lparr>successors := (\<lambda>d. successors s d @ replicate (count_list ps d) n)\<rparr>"
  using assms
proof (induction ps arbitrary: s)
  case Nil
  then show ?case by simp
next
  case (Cons p ps)
  then have "sorter_add_successor n p s =
      s\<lparr>successors := (successors s)(p := successors s p @ [n])\<rparr>"
    by (simp add: sorter_add_successor_def sorter_nodeinfo_def Let_def)
  with Cons show ?case
    by (auto simp: fun_eq_iff replicate_append_same [symmetric] intro!: sorter.equality)
qed

definition loaded_sorter :: "('n, 'n list) dict \<Rightarrow> 'n list \<Rightarrow> 'n list \<Rightarrow> 'n sorter" where
  "loaded_sorter g nodes ns =
     \<lparr>node2info = nodes,
      npredecessors = (\<lambda>n. if n \<in> set ns then int (length (deps g n)) else 0),
      successors = (\<lambda>d. concat (map (\<lambda>n. replicate (count_list (deps g n) d) n) ns)),
      ready_nodes = None\<rparr>"

lemma build_edges:
  assumes "graph_closed g" and "set nodes = set (dkeys g)"
    and "distinct (fin @ ns)" and "set (fin @ ns) \<subseteq> set nodes"
  shows "efold (\<lambda>s n. case dget g n of None \<Rightarrow> Inl UnknownNodeKey | Some ds \<Rightarrow> sorter_add n ds s)
           (loaded_sorter g nodes fin) ns = Inr (loaded_sorter g nodes (fin @ ns))"
  using assms(3,4)
proof (induction ns arbitrary: fin)
  case Nil
  then show ?case by simp
next
  case (Cons n ns)
  from Cons.prems assms(2) have n: "n \<in> set (dkeys g)" "n \<in> set nodes" "n \<notin> set fin" by auto
  then obtain ds where ds: "dget g n = Some ds"
    by (metis dget_None_iff not_None_eq)
  then have dn: "deps g n = ds" by (simp add: deps_def)
  with assms(1,2) n have sub: "set ds \<subseteq> set nodes"
    unfolding graph_closed_def by blast
  have "sorter_add n ds (loaded_sorter g nodes fin) = Inr (loaded_sorter g nodes (fin @ [n]))"
    using n sub dn
    by (simp add: sorter_add_def sorter_nodeinfo_def Let_def loaded_sorter_def fold_add_successor fun_eq_iff)
  with Cons.IH [of "fin @ [n]"] Cons.prems ds show ?case by simp
qed

section \<open>Releasing the successors of a finished node\<close>

definition became_ready :: "('n \<Rightarrow> int) \<Rightarrow> 'n list \<Rightarrow> 'n \<Rightarrow> bool" where
  "became_ready f L y \<longleftrightarrow> 0 < f y \<and> f y \<le> int (count_list L y)"

lemma became_ready_Cons:
  "became_ready f (x # L) y \<longleftrightarrow> (y = x \<and> f x = 1) \<or> became_ready (f(x := f x - 1)) L y"
  by (auto simp: became_ready_def)

lemma became_ready_first: "f x = 1 \<Longrightarrow> \<not> became_ready (f(x := f x - 1)) L x"
  by (simp add: became_ready_def)

lemma release_fold:
  assumes "set L \<subseteq> set (node2info s)" and "ready_nodes s = Some r0"
  shows "\<exists>R. efold sorter_release s L =
      Inr (s\<lparr>npredecessors := (\<lambda>x. npredecessors s x - int (count_list L x)),
            ready_nodes := Some (r0 @ R)\<rparr>)
    \<and> distinct R \<and> (\<forall>y. y \<in> set R \<longleftrightarrow> became_ready (npredecessors s) L y)"
  using assms
proof (induction L arbitrary: s r0)
  case Nil
  then show ?case by (cases s) (simp add: became_ready_def)
next
  case (Cons x L)
  define f where "f = npredecessors s"
  define r where "r = (if f x = 1 then [x] else [])"
  define t where "t = s\<lparr>npredecessors := f(x := f x - 1), ready_nodes := Some (r0 @ r)\<rparr>"
  have t: "npredecessors t = f(x := f x - 1)" "node2info t = node2info s"
    "ready_nodes t = Some (r0 @ r)"
    by (simp_all add: t_def)
  from Cons.prems have step: "sorter_release s x = Inr t"
    by (cases s) (simp add: sorter_release_def Let_def t_def f_def r_def)
  from Cons.prems t have "set L \<subseteq> set (node2info t)" by simp
  from Cons.IH [OF this t(3)] obtain R where
    run: "efold sorter_release t L =
      Inr (t\<lparr>npredecessors := (\<lambda>y. npredecessors t y - int (count_list L y)),
             ready_nodes := Some ((r0 @ r) @ R)\<rparr>)"
    and dist: "distinct R"
    and mem: "\<And>y. y \<in> set R \<longleftrightarrow> became_ready (f(x := f x - 1)) L y"
    unfolding t(1) by blast
  have "(\<lambda>y. npredecessors t y - int (count_list L y)) = (\<lambda>y. f y - int (count_list (x # L) y))"
    unfolding t(1) by (rule ext) simp
  then have "efold sorter_release s (x # L) =
      Inr (s\<lparr>npredecessors := (\<lambda>y. npredecessors s y - int (count_list (x # L) y)),
            ready_nodes := Some (r0 @ (r @ R))\<rparr>)"
    using run step by (simp add: t_def f_def)
  moreover have "distinct (r @ R)"
    using dist mem became_ready_first [of f x L] by (simp add: r_def)
  moreover have "\<forall>y. y \<in> set (r @ R) \<longleftrightarrow> became_ready (npredecessors s) (x # L) y"
    using mem unfolding became_ready_Cons f_def [symmetric] by (auto simp: r_def)
  ultimately show ?case by blast
qed

section \<open>The loop invariant\<close>

definition open_deps :: "('n, 'n list) dict \<Rightarrow> 'n list \<Rightarrow> 'n \<Rightarrow> 'n list" where
  "open_deps g order n = filter (\<lambda>d. d \<notin> set order) (deps g n)"

definition drain_inv :: "('n, 'n list) dict \<Rightarrow> 'n sorter \<Rightarrow> 'n list \<Rightarrow> 'n list \<Rightarrow> bool" where
  "drain_inv g s queue order \<longleftrightarrow>
     set (node2info s) = set (dkeys g) \<and> ready_nodes s = Some []
     \<and> distinct (order @ queue) \<and> set (order @ queue) \<subseteq> set (dkeys g)
     \<and> (\<forall>d n. count_list (successors s d) n = (if n \<in> set (dkeys g) then count_list (deps g n) d else 0))
     \<and> (\<forall>n \<in> set queue. npredecessors s n = NODE_OUT)
     \<and> (\<forall>n \<in> set (dkeys g) - set (order @ queue).
          npredecessors s n = int (length (open_deps g order n)) \<and> open_deps g order n \<noteq> [])
     \<and> (\<forall>n \<in> set queue. set (deps g n) \<subseteq> set order)
     \<and> deps_first g order"

definition drained :: "('n, 'n list) dict \<Rightarrow> 'n list \<Rightarrow> bool" where
  "drained g order \<longleftrightarrow>
     distinct order \<and> set order \<subseteq> set (dkeys g) \<and> deps_first g order
     \<and> (\<forall>n \<in> set (dkeys g) - set order. \<exists>d \<in> set (deps g n). d \<notin> set order)"

lemma filter_not_seen_snoc:
  "n \<notin> S \<Longrightarrow> length (filter (\<lambda>d. d \<notin> insert n S) ds) + count_list ds n = length (filter (\<lambda>d. d \<notin> S) ds)"
  by (induction ds) auto

lemma open_deps_snoc_length:
  "n \<notin> set order \<Longrightarrow>
     length (open_deps g (order @ [n]) m) + count_list (deps g m) n = length (open_deps g order m)"
  using filter_not_seen_snoc [of n "set order" "deps g m"] by (simp add: open_deps_def)

lemma drain_inv_step:
  assumes inv: "drain_inv g s (n # rest) order" and closed: "graph_closed g"
  shows "\<exists>s1 r s2. sorter_done n s = Inr s1 \<and> sorter_get_ready s1 = Inr (r, s2)
    \<and> drain_inv g s2 (rest @ r) (order @ [n])"
proof -
  have keys: "set (node2info s) = set (dkeys g)" and rdy: "ready_nodes s = Some []"
    and dist: "distinct (order @ n # rest)" and sub: "set (order @ n # rest) \<subseteq> set (dkeys g)"
    and succ: "\<And>d m. count_list (successors s d) m = (if m \<in> set (dkeys g) then count_list (deps g m) d else 0)"
    and out: "\<And>m. m \<in> set (n # rest) \<Longrightarrow> npredecessors s m = NODE_OUT"
    and wait: "\<And>m. m \<in> set (dkeys g) \<Longrightarrow> m \<notin> set (order @ n # rest) \<Longrightarrow>
        npredecessors s m = int (length (open_deps g order m)) \<and> open_deps g order m \<noteq> []"
    and placed: "\<And>m. m \<in> set (n # rest) \<Longrightarrow> set (deps g m) \<subseteq> set order"
    and first: "deps_first g order"
    using inv unfolding drain_inv_def by blast+
  define f where "f = (npredecessors s)(n := NODE_DONE)"
  define L where "L = successors s n"
  define t where "t = s\<lparr>npredecessors := f\<rparr>"
  have L: "set L \<subseteq> set (dkeys g)"
    using succ [of n] unfolding L_def by (metis count_list_0_iff subsetI)
  have t: "set L \<subseteq> set (node2info t)" "ready_nodes t = Some []" "npredecessors t = f"
    using L keys rdy by (simp_all add: t_def)
  obtain r where r: "efold sorter_release t L =
      Inr (t\<lparr>npredecessors := (\<lambda>x. f x - int (count_list L x)), ready_nodes := Some r\<rparr>)"
    "distinct r" "\<And>y. y \<in> set r \<longleftrightarrow> became_ready f L y"
    using release_fold [OF t(1,2)] unfolding t(3) by auto
  define s1 where "s1 = t\<lparr>npredecessors := (\<lambda>x. f x - int (count_list L x)), ready_nodes := Some r\<rparr>"
  define s2 where "s2 = s1\<lparr>npredecessors := (\<lambda>m. if m \<in> set r then NODE_OUT else npredecessors s1 m),
      ready_nodes := Some []\<rparr>"
  have "n \<in> set (node2info s)" using sub keys by simp
  then have "sorter_done n s = Inr s1"
    using rdy out [of n] r(1) by (simp add: sorter_done_def t_def f_def L_def s1_def)
  moreover have "ready_nodes s1 = Some r"
    by (simp add: s1_def)
  then have "sorter_get_ready s1 = Inr (r, s2)"
    by (simp add: sorter_get_ready_def s2_def)
  moreover have "drain_inv g s2 (rest @ r) (order @ [n])"
  proof -
    have nord: "n \<notin> set order" using dist by simp
    have cnt: "count_list L m = (if m \<in> set (dkeys g) then count_list (deps g m) n else 0)" for m
      using succ [of n m] by (simp add: L_def)
    have fwait: "f m = int (length (open_deps g order m))" "open_deps g order m \<noteq> []"
      if "m \<in> set (dkeys g)" "m \<notin> set (order @ n # rest)" for m
      using wait [OF that] that by (auto simp: f_def)
    have cnt0: "count_list L m = 0" if "set (deps g m) \<subseteq> set order" for m
      using cnt [of m] nord that by (auto simp: count_list_0_iff)
    have opn: "int (length (open_deps g (order @ [n]) m)) = f m - int (count_list L m)"
      if "m \<in> set (dkeys g)" "m \<notin> set (order @ n # rest)" for m
      using fwait(1) [OF that] cnt [of m] open_deps_snoc_length [OF nord, of g m] that(1) by simp
    have rnew: "m \<in> set (dkeys g) \<and> m \<notin> set (order @ n # rest) \<and> open_deps g (order @ [n]) m = []"
      if "m \<in> set r" for m
    proof -
      from that r(3) have b: "0 < f m" "f m \<le> int (count_list L m)"
        by (auto simp: became_ready_def)
      then have "count_list L m \<noteq> 0" by linarith
      then have k: "m \<in> set (dkeys g)" using cnt [of m] by (auto split: if_splits)
      have "m \<notin> set (n # rest)" using b(1) out [of m] by (auto simp: f_def NODE_OUT_def NODE_DONE_def split: if_splits)
      moreover have "m \<notin> set order"
      proof
        assume "m \<in> set order"
        then obtain xs ys where "order = xs @ m # ys" by (meson split_list)
        with first have "set (deps g m) \<subseteq> set order" by (auto simp: deps_first_def)
        then show False using cnt0 \<open>count_list L m \<noteq> 0\<close> by simp
      qed
      ultimately have new: "m \<notin> set (order @ n # rest)" by simp
      have "int (length (open_deps g (order @ [n]) m)) \<le> 0"
        using opn [OF k new] b(2) by linarith
      with k new show ?thesis by simp
    qed
    have still: "open_deps g (order @ [n]) m \<noteq> []"
      if "m \<in> set (dkeys g)" "m \<notin> set (order @ n # rest)" "m \<notin> set r" for m
    proof
      assume "open_deps g (order @ [n]) m = []"
      then have "f m = int (count_list L m)" using opn [OF that(1,2)] by simp
      moreover have "0 < f m" using fwait [OF that(1,2)] by simp
      ultimately have "became_ready f L m" by (simp add: became_ready_def)
      with r(3) that(3) show False by simp
    qed
    have rd: "set (deps g m) \<subseteq> set (order @ [n])" if "m \<in> set r" for m
      using rnew [OF that] by (auto simp: open_deps_def filter_empty_conv)
    show ?thesis
      unfolding drain_inv_def
    proof (intro conjI)
      show "distinct ((order @ [n]) @ rest @ r)"
        using dist r(2) rnew by auto
      show "set ((order @ [n]) @ rest @ r) \<subseteq> set (dkeys g)"
        using sub rnew by auto
      show "\<forall>m \<in> set (rest @ r). npredecessors s2 m = NODE_OUT"
        using out placed cnt0 dist by (auto simp: s2_def s1_def t_def f_def)
      show "\<forall>m \<in> set (dkeys g) - set ((order @ [n]) @ rest @ r).
          npredecessors s2 m = int (length (open_deps g (order @ [n]) m))
          \<and> open_deps g (order @ [n]) m \<noteq> []"
        using opn still by (auto simp: s2_def s1_def)
      show "\<forall>m \<in> set (rest @ r). set (deps g m) \<subseteq> set (order @ [n])"
        using placed rd by (fastforce simp: subset_iff)
      show "deps_first g (order @ [n])"
        using first placed by (simp add: deps_first_snoc)
    qed (use keys succ in \<open>simp_all add: s2_def s1_def t_def\<close>)
  qed
  ultimately show ?thesis by blast
qed

lemma drain_correct:
  assumes "drain_inv g s queue order" and "graph_closed g"
  shows "\<exists>order'. drain s queue order = Inr order' \<and> drained g order' \<and> prefix order order'"
  using assms(1)
proof (induction s queue order rule: drain.induct)
  case (1 s order)
  then show ?case
    by (auto simp: drain_inv_def drained_def open_deps_def filter_empty_conv)
next
  case (2 s n rest order)
  obtain s1 r s2 where step: "sorter_done n s = Inr s1" "sorter_get_ready s1 = Inr (r, s2)"
    and inv: "drain_inv g s2 (rest @ r) (order @ [n])"
    using drain_inv_step [OF "2.prems" assms(2)] by blast
  from "2.IH" [OF step(1) step(2) refl inv] obtain order' where
    "drain s2 (rest @ r) (order @ [n]) = Inr order'" "drained g order'" "prefix (order @ [n]) order'"
    by blast
  with step show ?case by (auto dest: append_prefixD)
qed

section \<open>What the loop leaves out\<close>

definition position :: "'n list \<Rightarrow> 'n \<Rightarrow> nat" where
  "position xs a = length (takeWhile (\<lambda>x. x \<noteq> a) xs)"

lemma deps_first_position:
  assumes "deps_first g order" and "(a, b) \<in> depends g" and "a \<in> set order"
  shows "b \<in> set order \<and> position order b < position order a"
proof -
  from assms(3) obtain ys zs where o: "order = ys @ a # zs" "a \<notin> set ys"
    by (meson split_list_first)
  with assms(1,2) have b: "b \<in> set ys"
    unfolding deps_first_def depends_def by blast
  have "takeWhile (\<lambda>x. x \<noteq> a) order = ys"
    using o by (simp add: takeWhile_append)
  moreover have "takeWhile (\<lambda>x. x \<noteq> b) order = takeWhile (\<lambda>x. x \<noteq> b) ys"
    unfolding o(1) using b by (intro takeWhile_append1) auto
  moreover have "length (takeWhile (\<lambda>x. x \<noteq> b) ys) < length ys"
    using b by (induction ys) auto
  ultimately show ?thesis using o b by (simp add: position_def)
qed

lemma trancl_position:
  assumes "(a, b) \<in> (depends g)\<^sup>+" and "deps_first g order" and "a \<in> set order"
  shows "b \<in> set order \<and> position order b < position order a"
  using assms(1)
proof (induction rule: trancl_induct)
  case (base b)
  then show ?case using assms(2,3) by (intro deps_first_position)
next
  case (step b c)
  then have "c \<in> set order \<and> position order c < position order b"
    using assms(2) by (intro deps_first_position) auto
  with step show ?case by simp
qed

lemma drained_not_blocked:
  assumes "drained g order" and "n \<in> set order"
  shows "\<not> cycle_blocked g n"
proof
  assume "cycle_blocked g n"
  then obtain m where m: "(n, m) \<in> (depends g)\<^sup>*" "(m, m) \<in> (depends g)\<^sup>+"
    by (auto simp: cycle_blocked_def)
  have first: "deps_first g order" using assms(1) by (simp add: drained_def)
  have "m \<in> set order"
    using m(1) assms(2) trancl_position [OF _ first] by (auto simp: rtrancl_eq_or_trancl)
  then have "position order m < position order m"
    using trancl_position [OF m(2) first] by simp
  then show False by simp
qed

lemma undrained_blocked:
  assumes "drained g order" and closed: "graph_closed g" and "n \<in> set (dkeys g)" and "n \<notin> set order"
  shows "cycle_blocked g n"
proof (rule ccontr)
  assume free: "\<not> cycle_blocked g n"
  define r where "r = {(a, b). (a, b) \<in> depends g \<and> (n, a) \<in> (depends g)\<^sup>*}"
  define U where "U = {m \<in> set (dkeys g). m \<notin> set order \<and> (n, m) \<in> (depends g)\<^sup>*}"
  have sub: "r \<subseteq> depends g" by (auto simp: r_def)
  have "acyclic r"
  proof (rule acyclicI, rule allI)
    fix m
    show "(m, m) \<notin> r\<^sup>+"
    proof
      assume c: "(m, m) \<in> r\<^sup>+"
      then obtain b where "(m, b) \<in> r" by (meson tranclD)
      then have "(n, m) \<in> (depends g)\<^sup>*" by (simp add: r_def)
      moreover have "(m, m) \<in> (depends g)\<^sup>+" using c sub by (rule trancl_mono)
      ultimately show False using free by (auto simp: cycle_blocked_def)
    qed
  qed
  then have "wf (r\<inverse>)"
    using finite_subset [OF sub finite_depends] by (intro finite_acyclic_wf_converse)
  moreover have "n \<in> U" using assms by (simp add: U_def)
  ultimately obtain z where z: "z \<in> U" "\<And>y. (y, z) \<in> r\<inverse> \<Longrightarrow> y \<notin> U"
    by (meson wfE_min)
  from z(1) have zk: "z \<in> set (dkeys g)" "z \<notin> set order" "(n, z) \<in> (depends g)\<^sup>*"
    unfolding U_def by blast+
  then obtain d where d: "d \<in> set (deps g z)" "d \<notin> set order"
    using assms(1) unfolding drained_def by blast
  have dk: "d \<in> set (dkeys g)"
    using closed zk(1) d(1) unfolding graph_closed_def by blast
  have zd: "(z, d) \<in> depends g" using zk(1) d(1) by (simp only: depends_def mem_Collect_eq case_prod_conv)
  then have "(n, d) \<in> (depends g)\<^sup>*" using zk(3) by simp
  then have "d \<in> U" using d(2) dk unfolding U_def by blast
  moreover have "(d, z) \<in> r\<inverse>" using zd zk(3) by (simp add: r_def)
  ultimately show False using z(2) by blast
qed

section \<open>The order as a whole\<close>

lemma count_list_replicate: "count_list (replicate k a) m = (if a = m then k else 0)"
  by (induction k) auto

lemma drain_inv_start:
  assumes closed: "graph_closed g" and nodes: "nodes = sort_key key (dkeys g)"
  defines "s \<equiv> sorter_prepare (loaded_sorter g nodes nodes)"
  shows "\<exists>r s'. sorter_get_ready s = Inr (r, s') \<and> drain_inv g s' r []"
proof -
  define r where "r = filter (\<lambda>n. npredecessors s n = 0) nodes"
  have set_nodes: "set nodes = set (dkeys g)" and dist: "distinct nodes"
    using closed by (simp_all add: nodes graph_closed_def)
  have s: "node2info s = nodes" "ready_nodes s = Some r"
    "npredecessors s = (\<lambda>n. if n \<in> set nodes then int (length (deps g n)) else 0)"
    "successors s = (\<lambda>d. concat (map (\<lambda>n. replicate (count_list (deps g n) d) n) nodes))"
    by (simp_all add: s_def sorter_prepare_def loaded_sorter_def r_def)
  define s' where "s' = s\<lparr>npredecessors := (\<lambda>n. if n \<in> set r then NODE_OUT else npredecessors s n),
      ready_nodes := Some []\<rparr>"
  have "sorter_get_ready s = Inr (r, s')"
    using s(2) by (simp add: sorter_get_ready_def s'_def)
  moreover have "drain_inv g s' r []"
  proof -
    have cnt: "count_list (concat (map (\<lambda>n. replicate (c n) n) ns)) m = (if m \<in> set ns then c m else 0)"
      if "distinct ns" for c :: "'a \<Rightarrow> nat" and ns m
      using that by (induction ns) (auto simp: count_list_replicate)
    have mem: "m \<in> set r \<longleftrightarrow> m \<in> set (dkeys g) \<and> deps g m = []" for m
      using set_nodes by (simp add: r_def s(3))
    show ?thesis
      unfolding drain_inv_def
    proof (intro conjI)
      show "\<forall>d n. count_list (successors s' d) n = (if n \<in> set (dkeys g) then count_list (deps g n) d else 0)"
        using cnt [OF dist] set_nodes by (simp add: s'_def s(4))
      show "distinct ([] @ r)" using dist by (simp add: r_def)
      show "set ([] @ r) \<subseteq> set (dkeys g)" using mem by auto
      show "\<forall>n \<in> set (dkeys g) - set ([] @ r). npredecessors s' n = int (length (open_deps g [] n))
          \<and> open_deps g [] n \<noteq> []"
        using mem set_nodes by (simp add: s'_def s(3) open_deps_def)
      show "\<forall>n \<in> set r. set (deps g n) \<subseteq> set []" using mem by simp
    qed (use set_nodes in \<open>simp_all add: s'_def s(1)\<close>)
  qed
  ultimately show ?thesis by blast
qed

lemma stable_topological_order_drained:
  assumes closed: "graph_closed g"
  shows "\<exists>order. drained g order
    \<and> stable_topological_order key g = Inr (order @ filter (cycle_blocked g) (sort_key key (dkeys g)))"
proof -
  define nodes where "nodes = sort_key key (dkeys g)"
  have set_nodes: "set nodes = set (dkeys g)" and dist: "distinct nodes"
    using closed by (simp_all add: nodes_def graph_closed_def)
  have "efold (\<lambda>s n. sorter_add n [] s) new_sorter nodes = Inr (base_sorter nodes)"
    using build_nodes [of "[]" nodes] dist by (simp add: base_sorter_def new_sorter_def)
  moreover have "base_sorter nodes = loaded_sorter g nodes []"
    by (simp add: base_sorter_def loaded_sorter_def)
  ultimately have b1: "efold (\<lambda>s n. sorter_add n [] s) new_sorter nodes = Inr (loaded_sorter g nodes [])"
    by simp
  have b2: "efold (\<lambda>s n. case dget g n of None \<Rightarrow> Inl UnknownNodeKey | Some ds \<Rightarrow> sorter_add n ds s)
      (loaded_sorter g nodes []) nodes = Inr (loaded_sorter g nodes nodes)"
    using build_edges [OF closed set_nodes, of "[]" nodes] dist by simp
  obtain r s where s: "sorter_get_ready (sorter_prepare (loaded_sorter g nodes nodes)) = Inr (r, s)"
    "drain_inv g s r []"
    using drain_inv_start [OF closed nodes_def] by blast
  then obtain order where order: "drain s r [] = Inr order" "drained g order"
    using drain_correct [OF s(2) closed] by blast
  have "filter (cycle_blocked g) nodes = filter (\<lambda>n. n \<notin> set order) nodes"
    using undrained_blocked [OF order(2) closed] drained_not_blocked [OF order(2)] set_nodes
    by (intro filter_cong) auto
  moreover have "filter (\<lambda>n. n \<notin> set order) nodes = []" if "length order = length nodes"
  proof -
    have "card (set order) = card (set nodes)"
      using that order(2) dist by (simp add: distinct_card drained_def)
    then have "set order = set nodes"
      using order(2) set_nodes by (intro card_subset_eq) (auto simp: drained_def)
    then show ?thesis by simp
  qed
  ultimately show ?thesis
    using b1 b2 s(1) order
    by (auto simp: stable_topological_order_def nodes_def [symmetric] Let_def)
qed

section \<open>The order as an interface\<close>

text \<open>
  What a client of a dependency order relies on: it returns for every admitted graph, the
  result lists every node once, and a node that no cycle blocks comes after each of its
  dependencies. \<open>precedes xs a b\<close> says that \<open>a\<close> stands before an occurrence of \<open>b\<close>.
\<close>

definition precedes :: "'n list \<Rightarrow> 'n \<Rightarrow> 'n \<Rightarrow> bool" where
  "precedes xs a b \<longleftrightarrow> (\<exists>ys zs. xs = ys @ b # zs \<and> a \<in> set ys)"

definition blocked_by :: "('n \<times> 'n) set \<Rightarrow> 'n \<Rightarrow> bool" where
  "blocked_by r n \<longleftrightarrow> (\<exists>m. (n, m) \<in> r\<^sup>* \<and> (m, m) \<in> r\<^sup>+)"

lemma blocked_by_acyclic: "acyclic r \<Longrightarrow> \<not> blocked_by r n"
  by (auto simp: blocked_by_def acyclic_def)

lemma blocked_by_step: "blocked_by r d \<Longrightarrow> (n, d) \<in> r \<Longrightarrow> blocked_by r n"
  unfolding blocked_by_def by (meson converse_rtrancl_into_rtrancl)

lemma precedesI: "xs = ys @ b # zs \<Longrightarrow> a \<in> set ys \<Longrightarrow> precedes xs a b"
  by (auto simp: precedes_def)

lemma precedes_appendI: "precedes xs a b \<Longrightarrow> precedes (xs @ ys) a b"
  unfolding precedes_def by (metis append.assoc append_Cons)

lemma precedes_trans:
  assumes "distinct xs" and "precedes xs a b" and "precedes xs b c"
  shows "precedes xs a c"
proof -
  from assms(3) obtain ys zs where o: "xs = ys @ c # zs" "b \<in> set ys"
    unfolding precedes_def by blast
  then obtain us vs where u: "ys = us @ b # vs" by (meson split_list)
  from assms(2) obtain us' vs' where u': "xs = us' @ b # vs'" "a \<in> set us'"
    unfolding precedes_def by blast
  have "us' = us"
    using assms(1) o u u'(1) by (auto simp: append_eq_append_conv2 append_eq_Cons_conv Cons_eq_append_conv)
  with o u u'(2) show ?thesis by (intro precedesI [of xs "us @ b # vs" c zs]) auto
qed

lemma precedes_rev: "precedes (rev xs) b a" if "precedes xs a b"
proof -
  from that obtain ys zs where o: "xs = ys @ b # zs" "a \<in> set ys"
    unfolding precedes_def by blast
  then obtain us vs where "ys = us @ a # vs" by (meson split_list)
  with o have "rev xs = (rev zs @ b # rev vs) @ a # rev us" by simp
  then show ?thesis unfolding precedes_def by (metis in_set_conv_decomp)
qed

locale dependency_order =
  fixes order_of :: "'g \<Rightarrow> 'e + 'n list"
    and admitted :: "'g \<Rightarrow> bool"
    and nodes_of :: "'g \<Rightarrow> 'n list"
    and depends_on :: "'g \<Rightarrow> ('n \<times> 'n) set"
  assumes order_total:
      "admitted g \<Longrightarrow> \<exists>xs. order_of g = Inr xs \<and> distinct xs \<and> set xs = set (nodes_of g)"
    and order_step:
      "admitted g \<Longrightarrow> order_of g = Inr xs \<Longrightarrow> (n, d) \<in> depends_on g \<Longrightarrow>
        \<not> blocked_by (depends_on g) n \<Longrightarrow> precedes xs d n"
begin

lemma order_nodes:
  "admitted g \<Longrightarrow> order_of g = Inr xs \<Longrightarrow> distinct xs \<and> set xs = set (nodes_of g)"
  using order_total by fastforce

lemma order_transitive:
  assumes "admitted g" and "order_of g = Inr xs" and "(n, d) \<in> (depends_on g)\<^sup>+"
    and "\<not> blocked_by (depends_on g) n"
  shows "precedes xs d n"
  using assms(3,4)
proof (induction rule: converse_trancl_induct)
  case (base n)
  then show ?case using assms(1,2) by (intro order_step)
next
  case (step n m)
  then have "precedes xs m n" using assms(1,2) by (intro order_step)
  moreover have "precedes xs d m" using step blocked_by_step by metis
  ultimately show ?case
    using order_nodes [OF assms(1,2)] by (intro precedes_trans [of xs d m n]) auto
qed

lemma teardown_transitive:
  assumes "admitted g" and "order_of g = Inr xs" and "(n, d) \<in> (depends_on g)\<^sup>+"
    and "\<not> blocked_by (depends_on g) n"
  shows "precedes (rev xs) n d"
  by (rule precedes_rev [OF order_transitive [OF assms]])

end

lemma cycle_blocked_blocked_by: "cycle_blocked g n \<longleftrightarrow> blocked_by (depends g) n"
  by (simp add: cycle_blocked_def blocked_by_def)

lemma stable_order_shape:
  assumes "graph_closed g" and "stable_topological_order key g = Inr xs"
  shows "\<exists>free. xs = free @ filter (cycle_blocked g) (sort_key key (dkeys g))
    \<and> set free = {n \<in> set (dkeys g). \<not> cycle_blocked g n} \<and> distinct free \<and> deps_first g free"
proof -
  obtain free where free: "drained g free"
    and xs: "xs = free @ filter (cycle_blocked g) (sort_key key (dkeys g))"
    using stable_topological_order_drained [OF assms(1), of key] assms(2) by auto
  have "set free = {n \<in> set (dkeys g). \<not> cycle_blocked g n}"
    using drained_not_blocked [OF free] undrained_blocked [OF free assms(1)] free
    unfolding drained_def by blast
  with free xs show ?thesis unfolding drained_def by blast
qed

lemma stable_order_total:
  assumes "graph_closed g"
  shows "\<exists>xs. stable_topological_order key g = Inr xs \<and> distinct xs \<and> set xs = set (dkeys g)"
proof -
  obtain xs where xs: "stable_topological_order key g = Inr xs"
    using stable_topological_order_drained [OF assms] by blast
  from stable_order_shape [OF assms xs] obtain free where
    f: "xs = free @ filter (cycle_blocked g) (sort_key key (dkeys g))"
    "set free = {n \<in> set (dkeys g). \<not> cycle_blocked g n}" "distinct free"
    by blast
  have "distinct (dkeys g)" using assms by (simp add: graph_closed_def)
  with f(3) have "distinct xs" unfolding f(1) distinct_append f(2) by auto
  moreover have "set xs = set (dkeys g)" unfolding f(1) set_append f(2) by auto
  ultimately show ?thesis using xs by blast
qed

lemma stable_order_step:
  assumes "graph_closed g" and "stable_topological_order key g = Inr xs"
    and "(n, d) \<in> depends g" and "\<not> blocked_by (depends g) n"
  shows "precedes xs d n"
proof -
  obtain free rest where f: "xs = free @ rest" "deps_first g free"
    "set free = {n \<in> set (dkeys g). \<not> cycle_blocked g n}"
    using stable_order_shape [OF assms(1,2)] by blast
  have n: "n \<in> set (dkeys g)" "d \<in> set (deps g n)"
    using assms(3) unfolding depends_def by blast+
  then have "n \<in> set free"
    using assms(4) unfolding f(3) cycle_blocked_blocked_by by blast
  then obtain ys zs where yz: "free = ys @ n # zs" by (meson split_list)
  then have "d \<in> set ys" using f(2) n(2) unfolding deps_first_def by blast
  with yz show ?thesis unfolding f(1) precedes_def by auto
qed

interpretation stable: dependency_order
  "stable_topological_order key" graph_closed dkeys depends for key
  by unfold_locales (auto intro: stable_order_step dest: stable_order_total simp del: set_map)

section \<open>Properties\<close>

text \<open>For every graph whose dependencies are keys, \<open>stable_topological_order\<close> returns, and
  its result lists every node of the graph exactly once.\<close>

theorem stable_order_is_permutation:
  assumes "graph_closed g"
  shows "\<exists>xs. stable_topological_order key g = Inr xs \<and> distinct xs \<and> set xs = set (dkeys g)"
  using assms by (rule stable.order_total)

definition example_graph :: "(string, string list) dict" where
  "example_graph = [(''web'', [''db'', ''net'']), (''db'', [''net'']), (''net'', []),
     (''a'', [''b'']), (''b'', [''a'', ''net'']), (''c'', [''a''])]"

lemma example_graph_closed: "graph_closed example_graph"
  by code_simp

theorem stable_order_is_permutation_witness:
  "\<exists>xs. stable_topological_order id example_graph = Inr xs \<and> distinct xs
     \<and> set xs = set (dkeys example_graph)"
  by (rule stable_order_is_permutation [OF example_graph_closed])

text \<open>The result is a dependencies-first order of the nodes that reach no cycle, followed by
  the nodes that reach one, in key order.\<close>

theorem stable_order_split:
  assumes "graph_closed g" and "stable_topological_order key g = Inr xs"
  shows "\<exists>free. xs = free @ filter (cycle_blocked g) (sort_key key (dkeys g))
    \<and> set free = {n \<in> set (dkeys g). \<not> cycle_blocked g n} \<and> distinct free \<and> deps_first g free"
  using assms by (rule stable_order_shape)

lemma example_order:
  "stable_topological_order id example_graph =
     Inr [''net'', ''db'', ''web'', ''a'', ''b'', ''c'']"
  by code_simp

theorem stable_order_split_witness:
  "\<exists>free. [''net'', ''db'', ''web'', ''a'', ''b'', ''c'']
      = free @ filter (cycle_blocked example_graph) (sort_key id (dkeys example_graph))
    \<and> set free = {n \<in> set (dkeys example_graph). \<not> cycle_blocked example_graph n}
    \<and> distinct free \<and> deps_first example_graph free"
  by (rule stable_order_split [OF example_graph_closed example_order])

text \<open>The order is a function of the graph and not of the insertion order of its dictionary:
  two dictionaries with the same entries give the same result, for a key that tells nodes apart.\<close>

theorem stable_order_insertion_independent:
  assumes "dict_ok g" and "dict_ok h" and "map_of g = map_of h" and "inj_on key (set (dkeys g))"
  shows "stable_topological_order key g = stable_topological_order key h"
proof -
  have keys: "set (dkeys g) = set (dkeys h)"
    using assms(3) by (metis dom_map_of_conv_image_fst list.set_map)
  have "sort_key key (dkeys g) = sort_key key (dkeys h)"
  proof (rule sort_key_inj_key_eq)
    show "mset (dkeys g) = mset (sort_key key (dkeys h))"
      using assms(1,2) keys set_eq_iff_mset_eq_distinct [of "dkeys g" "dkeys h"] by simp
  qed (use assms(4) in \<open>simp_all del: list.set_map\<close>)
  then show ?thesis
    unfolding stable_topological_order_def assms(3) by simp
qed

theorem stable_order_insertion_independent_witness:
  "stable_topological_order id [(''a'', [''b'']), (''b'', []), (''c'', [])]
     = stable_topological_order id [(''c'', []), (''b'', []), (''a'', [''b''])]"
  by (rule stable_order_insertion_independent) (auto simp: fun_eq_iff)

end
