(* ===== verification/Planner.thy ===== *)
theory Planner
  imports GraphOrder
begin

text \<open>
  The planner's dependency semantics (raes_processor/semantics/planner.py): typed dependency
  edges, the ordering and teardown orders of resources, the resources that must refresh when
  others change, and the create/update/delete/unchanged reconciliation of a desired model
  against a snapshot.

  A resource is any record that extends \<open>dependency_semantics\<close>, as the code duck-types it.
  A \<open>ValueError\<close> of the address check and a \<open>KeyError\<close> of a dictionary access are values of
  \<open>planner_error\<close>.
\<close>

section \<open>Data\<close>

datatype planner_error =
    AddressError address_error
  | GraphError graph_error
  | MissingKey

datatype dependency_kind = ORDERING | REFRESH

datatype reconciliation_action = CREATE | UPDATE | DELETE | UNCHANGED

record dependency_edge =
  edge_source :: address
  edge_target :: address
  edge_kind :: dependency_kind

record dependency_semantics =
  ordering_dependencies :: "address list"
  refresh_dependencies :: "address list"

section \<open>Graphs of resources\<close>

definition canonical_resource_identity :: "address \<Rightarrow> planner_error + address" where
  "canonical_resource_identity a = map_sum AddressError id (require_compiled_address a)"

text \<open>\<open>sorted(xs, key=canonical_resource_identity)\<close>: every key is computed, then the list is sorted.\<close>

definition canonical_sorted :: "address list \<Rightarrow> planner_error + address list" where
  "canonical_sorted xs =
     ebind (echeck (\<lambda>a. map_sum id (\<lambda>_. ()) (canonical_resource_identity a)) xs) (\<lambda>_. Inr (sort xs))"

definition dependency_graph :: "(address, address list) dict \<Rightarrow> (address, address list) dict" where
  "dependency_graph dependencies_by_node =
     map (\<lambda>(n, ds). (n, filter (\<lambda>d. d \<in> set (dkeys dependencies_by_node)) ds)) dependencies_by_node"

definition append_edge ::
    "(address, address list) dict \<Rightarrow> dependency_edge \<Rightarrow> (address, address list) dict" where
  "append_edge graph e =
     (case dget graph (edge_source e) of
        None \<Rightarrow> graph
      | Some ts \<Rightarrow> dput (edge_source e) (ts @ [edge_target e]) graph)"

definition dependency_graph_from_edges ::
    "dependency_edge list \<Rightarrow> address list \<Rightarrow> (address, address list) dict" where
  "dependency_graph_from_edges edges known_nodes =
     dependency_graph (foldl append_edge (map (\<lambda>n. (n, [])) (fromkeys known_nodes)) edges)"

definition kind_dependencies ::
    "dependency_kind \<Rightarrow> 'a dependency_semantics_scheme \<Rightarrow> address list" where
  "kind_dependencies kind r =
     (if kind = ORDERING then ordering_dependencies r else refresh_dependencies r)"

definition edges_of_source ::
    "(address, 'a dependency_semantics_scheme) dict \<Rightarrow> dependency_kind \<Rightarrow> address \<Rightarrow>
       planner_error + dependency_edge list" where
  "edges_of_source resources kind source =
     (case dget resources source of
        None \<Rightarrow> Inl MissingKey
      | Some r \<Rightarrow>
          Inr (map (\<lambda>t. \<lparr>edge_source = source, edge_target = t, edge_kind = kind\<rparr>)
                 (filter (\<lambda>t. t \<in> set (dkeys resources)) (kind_dependencies kind r))))"

definition dependency_edges ::
    "(address, 'a dependency_semantics_scheme) dict \<Rightarrow> dependency_kind \<Rightarrow>
       planner_error + dependency_edge list" where
  "dependency_edges resources kind =
     ebind (canonical_sorted (dkeys resources)) (\<lambda>sources.
       efold (\<lambda>edges source. ebind (edges_of_source resources kind source) (\<lambda>es. Inr (edges @ es)))
         [] sources)"

definition dependency_graph_for_resources ::
    "(address, 'a dependency_semantics_scheme) dict \<Rightarrow> dependency_kind \<Rightarrow>
       planner_error + (address, address list) dict" where
  "dependency_graph_for_resources resources kind =
     ebind (dependency_edges resources kind) (\<lambda>edges.
       Inr (dependency_graph_from_edges edges (dkeys resources)))"

definition topological_dependency_order ::
    "(address, address list) dict \<Rightarrow> planner_error + address list" where
  "topological_dependency_order dependencies_by_node =
     (let graph = dependency_graph dependencies_by_node in
      ebind (canonical_sorted (dkeys graph)) (\<lambda>_.
        map_sum GraphError id (stable_topological_order id graph)))"

definition reverse_delete_order ::
    "(address, address list) dict \<Rightarrow> planner_error + address list" where
  "reverse_delete_order dependencies_by_node =
     ebind (topological_dependency_order dependencies_by_node) (\<lambda>xs. Inr (rev xs))"

definition resource_topological_order ::
    "(address, 'a dependency_semantics_scheme) dict \<Rightarrow> planner_error + address list" where
  "resource_topological_order resources =
     ebind (dependency_graph_for_resources resources ORDERING) topological_dependency_order"

definition resource_delete_order ::
    "(address, 'a dependency_semantics_scheme) dict \<Rightarrow> planner_error + address list" where
  "resource_delete_order resources =
     ebind (resource_topological_order resources) (\<lambda>xs. Inr (rev xs))"

section \<open>Refresh\<close>

definition add_dependent ::
    "address \<Rightarrow> (address, address list) dict \<Rightarrow> address \<Rightarrow> (address, address list) dict" where
  "add_dependent a dependents dependency =
     (case dget dependents dependency of
        None \<Rightarrow> dput dependency [a] dependents
      | Some ds \<Rightarrow> dput dependency (ds @ [a]) dependents)"

definition dependents_of :: "(address, address list) dict \<Rightarrow> (address, address list) dict" where
  "dependents_of refresh_graph =
     foldl (\<lambda>dependents (a, ds). foldl (add_dependent a) dependents ds)
       (map (\<lambda>(a, _). (a, [])) refresh_graph) refresh_graph"

definition dependents_at :: "(address, address list) dict \<Rightarrow> address \<Rightarrow> address list" where
  "dependents_at dependents d = (case dget dependents d of None \<Rightarrow> [] | Some ds \<Rightarrow> ds)"

definition refresh_visit ::
    "address list \<Rightarrow> (address list \<times> address list) \<Rightarrow> address \<Rightarrow> (address list \<times> address list)" where
  "refresh_visit changed = (\<lambda>(impacted, queue) dependent.
     if dependent \<in> set changed \<or> dependent \<in> set impacted then (impacted, queue)
     else (impacted @ [dependent], queue @ [dependent]))"

lemma refresh_visit_fold:
  "\<exists>new. foldl (refresh_visit changed) (imp, q) ds = (imp @ new, q @ new)
     \<and> distinct new \<and> set new = set ds - set changed - set imp"
proof (induction ds arbitrary: imp q)
  case Nil
  then show ?case by simp
next
  case (Cons d ds)
  show ?case
  proof (cases "d \<in> set changed \<or> d \<in> set imp")
    case True
    then show ?thesis using Cons [of imp q] by (auto simp: refresh_visit_def)
  next
    case False
    obtain new where "foldl (refresh_visit changed) (imp @ [d], q @ [d]) ds = ((imp @ [d]) @ new, (q @ [d]) @ new)"
      "distinct new" "set new = set ds - set changed - set (imp @ [d])"
      using Cons by blast
    with False show ?thesis
      by (intro exI [of _ "d # new"]) (auto simp: refresh_visit_def)
  qed
qed

function refresh_loop ::
    "(address, address list) dict \<Rightarrow> address list \<Rightarrow> address list \<Rightarrow> address list \<Rightarrow>
       planner_error + address list" where
  "refresh_loop dependents changed [] impacted = Inr impacted"
| "refresh_loop dependents changed (dependency # queue) impacted =
     ebind (canonical_sorted (dependents_at dependents dependency)) (\<lambda>ds.
       (case foldl (refresh_visit changed) (impacted, queue) ds of
          (impacted', queue') \<Rightarrow> refresh_loop dependents changed queue' impacted'))"
  by pat_completeness auto
termination
proof (relation "measure (\<lambda>(dependents, _, queue, impacted).
     card (set (concat (dvals dependents)) - set impacted) + length queue)", goal_cases)
  case 1
  show ?case by simp
next
  case (2 dependents changed dependency queue impacted ds impacted' queue')
  let ?V = "set (concat (dvals dependents))"
  have ds: "set ds \<subseteq> ?V"
  proof
    fix d
    assume "d \<in> set ds"
    then have "d \<in> set (dependents_at dependents dependency)"
      using 2(1) by (auto simp: canonical_sorted_def errs)
    then show "d \<in> ?V"
      by (cases "dget dependents dependency") (force simp: dependents_at_def dest: map_of_SomeD)+
  qed
  obtain new where new: "impacted' = impacted @ new" "queue' = queue @ new" "distinct new"
    "set new = set ds - set changed - set impacted"
    using refresh_visit_fold [of changed impacted queue ds] 2(2) by auto
  have "?V - set impacted' = (?V - set impacted) - set new" using new(1) by auto
  moreover have "card (?V - set impacted - set new) = card (?V - set impacted) - length new"
    using new(4) ds distinct_card [OF new(3)] by (subst card_Diff_subset) auto
  moreover have "length new \<le> card (?V - set impacted)"
    using new(3,4) ds by (subst distinct_card [symmetric]) (auto intro!: card_mono)
  ultimately show ?case using new(2) by simp
qed

definition refresh_impacted_nodes ::
    "(address, 'a dependency_semantics_scheme) dict \<Rightarrow> address list \<Rightarrow> planner_error + address list" where
  "refresh_impacted_nodes resources changed_nodes =
     (let changed = fromkeys changed_nodes in
      ebind (dependency_graph_for_resources resources REFRESH) (\<lambda>refresh_graph.
      ebind (canonical_sorted changed) (\<lambda>queue.
      ebind (refresh_loop (dependents_of refresh_graph) changed queue []) (\<lambda>impacted.
      ebind (topological_dependency_order refresh_graph) (\<lambda>refresh_order.
        Inr (filter (\<lambda>a. a \<in> set impacted) refresh_order))))))"

section \<open>Reconciliation\<close>

definition desired_action ::
    "('s \<Rightarrow> 'r \<Rightarrow> bool) \<Rightarrow> (address, 's) dict \<Rightarrow> address \<Rightarrow> 'r \<Rightarrow> reconciliation_action" where
  "desired_action matches entries a r =
     (case dget entries a of
        None \<Rightarrow> CREATE
      | Some existing \<Rightarrow> if matches existing r then UNCHANGED else UPDATE)"

definition promote_unchanged ::
    "(address, reconciliation_action) dict \<Rightarrow> address \<Rightarrow>
       planner_error + (address, reconciliation_action) dict" where
  "promote_unchanged actions a =
     (case dget actions a of
        None \<Rightarrow> Inl MissingKey
      | Some act \<Rightarrow> Inr (if act = UNCHANGED then dput a UPDATE actions else actions))"

definition reconcile_resource_actions ::
    "(address, 'r) dict \<Rightarrow> (address, 's) dict \<Rightarrow> ('r \<Rightarrow> dependency_semantics) \<Rightarrow> ('s \<Rightarrow> 'r \<Rightarrow> bool) \<Rightarrow>
       planner_error + ((address, reconciliation_action) dict \<times> (address, 's) dict)" where
  "reconcile_resource_actions resources entries resource_dependencies matches =
     (let wanted = foldl (\<lambda>acts (a, r). dput a (desired_action matches entries a r) acts) [] resources;
          deleted = filter (\<lambda>(a, e). a \<notin> set (dkeys resources)) entries;
          actions = foldl (\<lambda>acts (a, e). dput a DELETE acts) wanted deleted;
          changed = map fst (filter (\<lambda>(a, act). act \<in> {CREATE, UPDATE}) actions)
      in ebind (refresh_impacted_nodes (map (\<lambda>(a, r). (a, resource_dependencies r)) resources) changed)
           (\<lambda>impacted. ebind (efold promote_unchanged actions impacted) (\<lambda>actions'.
              Inr (actions', deleted))))"

end
