(* ===== verification/PlannerProofs.thy ===== *)
theory PlannerProofs
  imports Planner
begin

text \<open>
  Correctness of the planner semantics: the normalized dependency graph of a resource map,
  the ordering and teardown orders as instances of the \<open>dependency_order\<close> interface, the
  refresh search as reachability, and the reconciliation against its specification.
\<close>

section \<open>Sorting by address\<close>

abbreviation canonical_keys :: "(address, 'v) dict \<Rightarrow> bool" where
  "canonical_keys d \<equiv> (\<forall>a \<in> set (dkeys d). compiled_address a)"

lemma canonical_sorted_Inr [errs]:
  "canonical_sorted xs = Inr ys \<longleftrightarrow> (\<forall>a \<in> set xs. compiled_address a) \<and> ys = sort xs"
proof -
  have "map_sum id (\<lambda>_. ()) (canonical_resource_identity a) = Inr () \<longleftrightarrow> compiled_address a" for a
    by (simp add: canonical_resource_identity_def require_compiled_address_def)
  then show ?thesis by (auto simp: canonical_sorted_def errs)
qed

lemma canonical_sorted_ok [simp]:
  "(\<And>a. a \<in> set xs \<Longrightarrow> compiled_address a) \<Longrightarrow> canonical_sorted xs = Inr (sort xs)"
  by (simp add: errs)

section \<open>The normalized graph\<close>

definition resource_graph ::
    "dependency_kind \<Rightarrow> (address, 'a dependency_semantics_scheme) dict \<Rightarrow> (address, address list) dict" where
  "resource_graph kind rs =
     map (\<lambda>(a, r). (a, filter (\<lambda>t. t \<in> set (dkeys rs)) (kind_dependencies kind r))) rs"

definition resource_depends ::
    "dependency_kind \<Rightarrow> (address, 'a dependency_semantics_scheme) dict \<Rightarrow> (address \<times> address) set" where
  "resource_depends kind rs =
     {(a, t). \<exists>r. dget rs a = Some r \<and> t \<in> set (dkeys rs)
        \<and> t \<in> set (case kind of ORDERING \<Rightarrow> ordering_dependencies r | REFRESH \<Rightarrow> refresh_dependencies r)}"

lemma resource_depends_kind:
  "resource_depends kind rs =
     {(a, t). \<exists>r. dget rs a = Some r \<and> t \<in> set (kind_dependencies kind r) \<and> t \<in> set (dkeys rs)}"
  by (cases kind) (auto simp: resource_depends_def kind_dependencies_def)

lemma dkeys_dependency_graph [simp]: "dkeys (dependency_graph g) = dkeys g"
  unfolding dependency_graph_def by (rule dkeys_map_value)

lemma dget_dependency_graph:
  "dget (dependency_graph g) n = map_option (filter (\<lambda>d. d \<in> set (dkeys g))) (dget g n)"
  unfolding dependency_graph_def by (rule dget_map_value)

lemma deps_dependency_graph: "deps (dependency_graph g) n = filter (\<lambda>d. d \<in> set (dkeys g)) (deps g n)"
  by (cases "dget g n") (simp_all add: deps_def dget_dependency_graph del: set_map)

lemma dependency_graph_closed: "dict_ok g \<Longrightarrow> graph_closed (dependency_graph g)"
  unfolding graph_closed_def deps_dependency_graph by auto

lemma dkeys_append_edges: "dkeys (foldl append_edge g es) = dkeys g"
proof (induction es arbitrary: g)
  case Nil
  then show ?case by simp
next
  case (Cons e es)
  have "dkeys (append_edge g e) = dkeys g"
    by (cases "dget g (edge_source e)") (simp_all add: append_edge_def dkeys_dput_present)
  with Cons show ?case by simp
qed

lemma dget_append_edges:
  "dget (foldl append_edge g es) n =
     map_option (\<lambda>ts. ts @ map edge_target (filter (\<lambda>e. edge_source e = n) es)) (dget g n)"
proof (induction es arbitrary: g)
  case Nil
  then show ?case by (simp add: option.map_ident)
next
  case (Cons e es)
  have "dget (append_edge g e) n =
      map_option (\<lambda>ts. ts @ (if edge_source e = n then [edge_target e] else [])) (dget g n)"
    by (cases "dget g (edge_source e)"; cases "dget g n") (auto simp: append_edge_def)
  with Cons show ?case by (cases "dget g n") auto
qed

lemma filter_edges_of_distinct:
  "distinct ss \<Longrightarrow>
     filter (\<lambda>e. edge_source e = n)
       (concat (map (\<lambda>s. map (\<lambda>t. \<lparr>edge_source = s, edge_target = t, edge_kind = k\<rparr>) (ts s)) ss))
     = (if n \<in> set ss then map (\<lambda>t. \<lparr>edge_source = n, edge_target = t, edge_kind = k\<rparr>) (ts n) else [])"
  by (induction ss) (auto simp: filter_map o_def filter_empty_conv)

lemma dkeys_resource_graph [simp]: "dkeys (resource_graph kind rs) = dkeys rs"
  unfolding resource_graph_def by (rule dkeys_map_value)

lemma dget_map_empty: "dget (map (\<lambda>n. (n, [])) xs) a = (if a \<in> set xs then Some [] else None)"
  by (induction xs) auto

lemma dependency_graph_for_resources_ok:
  fixes rs :: "(address, 'a dependency_semantics_scheme) dict"
  assumes "dict_ok rs" and "canonical_keys rs"
  shows "dependency_graph_for_resources rs kind = Inr (resource_graph kind rs)"
proof -
  define wanted where "wanted a = (case dget rs a of None \<Rightarrow> [] | Some r \<Rightarrow>
      filter (\<lambda>t. t \<in> set (dkeys rs)) (kind_dependencies kind r))" for a
  define es where "es = concat (map (\<lambda>s. map (\<lambda>t. \<lparr>edge_source = s, edge_target = t, edge_kind = kind\<rparr>)
      (wanted s)) (sort (dkeys rs)))"
  have edges: "edges_of_source rs kind s =
      Inr (map (\<lambda>t. \<lparr>edge_source = s, edge_target = t, edge_kind = kind\<rparr>) (wanted s))"
    if "s \<in> set (dkeys rs)" for s
    using that unfolding edges_of_source_def wanted_def
    by (cases "dget rs s") (auto simp only: dget_None_iff option.case)
  have "efold (\<lambda>edges source. ebind (edges_of_source rs kind source) (\<lambda>es. Inr (edges @ es)))
      [] (sort (dkeys rs)) = Inr ([] @ es)"
    unfolding es_def by (rule efold_concat) (use edges in \<open>simp only: set_sort\<close>)
  then have run: "dependency_edges rs kind = Inr es"
    using assms(2) by (simp add: dependency_edges_def del: set_map)
  define g where "g = foldl append_edge (map (\<lambda>n. (n, [])) (fromkeys (dkeys rs))) es"
  have keys: "dkeys g = dkeys rs"
    using assms(1) by (simp add: g_def dkeys_append_edges o_def)
  have look: "dget g a = (if a \<in> set (dkeys rs) then Some (wanted a) else None)" for a
    using assms(1)
    by (simp add: g_def dget_append_edges dget_map_empty es_def filter_edges_of_distinct o_def
        del: set_map fromkeys_distinct)
  have "dependency_graph g = resource_graph kind rs"
  proof (rule dict_eqI)
    show "dkeys (dependency_graph g) = dkeys (resource_graph kind rs)"
      unfolding dkeys_dependency_graph dkeys_resource_graph keys by (rule refl)
    show "dict_ok (dependency_graph g)" using assms(1) by (simp add: keys)
    show "dget (dependency_graph g) a = dget (resource_graph kind rs) a" for a
      using dget_None_iff [of rs a]
      by (cases "dget rs a")
         (simp_all add: dget_dependency_graph look keys resource_graph_def dget_map_value wanted_def
            del: set_map)
  qed
  with run show ?thesis
    by (simp add: dependency_graph_for_resources_def dependency_graph_from_edges_def g_def)
qed

lemma deps_resource_graph:
  "deps (resource_graph kind rs) a =
     (case dget rs a of None \<Rightarrow> [] | Some r \<Rightarrow> filter (\<lambda>t. t \<in> set (dkeys rs)) (kind_dependencies kind r))"
  by (cases "dget rs a") (simp_all add: deps_def resource_graph_def dget_map_value del: set_map)

lemma depends_resource_graph: "depends (resource_graph kind rs) = resource_depends kind rs"
proof -
  have "(a, t) \<in> depends (resource_graph kind rs) \<longleftrightarrow> (a, t) \<in> resource_depends kind rs" for a t
    using dget_None_iff [of rs a]
    by (cases "dget rs a")
       (auto simp: depends_def resource_depends_kind deps_resource_graph simp del: set_map)
  then show ?thesis by auto
qed

lemma resource_graph_closed: "dict_ok rs \<Longrightarrow> graph_closed (resource_graph kind rs)"
  unfolding graph_closed_def deps_resource_graph
  by (auto split: option.splits simp del: set_map)

lemma dependency_graph_closed_id:
  assumes "graph_closed g"
  shows "dependency_graph g = g"
proof (rule dict_eqI)
  show "dget (dependency_graph g) k = dget g k" for k
  proof (cases "dget g k")
    case (Some ds)
    then have "k \<in> set (dkeys g)" "deps g k = ds" by (rule dget_Some_key) (simp add: deps_def Some)
    with assms have "set ds \<subseteq> set (dkeys g)" unfolding graph_closed_def by blast
    then have "filter (\<lambda>d. d \<in> set (dkeys g)) ds = ds" by (intro filter_True) blast
    with Some show ?thesis by (simp add: dget_dependency_graph del: set_map)
  qed (simp add: dget_dependency_graph)
qed (use assms in \<open>simp_all add: graph_closed_def del: set_map\<close>)

section \<open>The orders\<close>

lemma topological_dependency_order_closed:
  assumes "graph_closed g" and "canonical_keys g"
  shows "topological_dependency_order g = map_sum GraphError id (stable_topological_order id g)"
  using assms
  by (simp add: topological_dependency_order_def dependency_graph_closed_id Let_def del: set_map)

lemma resource_order_is_stable:
  assumes "dict_ok rs" and "canonical_keys rs"
  shows "resource_topological_order rs =
    map_sum GraphError id (stable_topological_order id (resource_graph ORDERING rs))"
  using assms
  by (simp add: resource_topological_order_def dependency_graph_for_resources_ok
      topological_dependency_order_closed resource_graph_closed del: set_map)

definition resources_ok :: "(address, 'a dependency_semantics_scheme) dict \<Rightarrow> bool" where
  "resources_ok rs \<longleftrightarrow> dict_ok rs \<and> canonical_keys rs"

interpretation resource: dependency_order
  resource_topological_order resources_ok dkeys "resource_depends ORDERING"
proof unfold_locales
  fix rs :: "(address, 'a dependency_semantics_scheme) dict"
  assume "resources_ok rs"
  then have ok: "dict_ok rs" "canonical_keys rs" unfolding resources_ok_def by blast+
  note closed = resource_graph_closed [OF ok(1), of ORDERING]
  show "\<exists>xs. resource_topological_order rs = Inr xs \<and> distinct xs \<and> set xs = set (dkeys rs)"
    using stable.order_total [OF closed, of id] unfolding resource_order_is_stable [OF ok]
    by (auto simp del: set_map)
  fix xs n d
  assume "resource_topological_order rs = Inr xs" "(n, d) \<in> resource_depends ORDERING rs"
    "\<not> blocked_by (resource_depends ORDERING rs) n"
  then show "precedes xs d n"
    using stable.order_step [OF closed, of id] unfolding resource_order_is_stable [OF ok]
    by (cases "stable_topological_order id (resource_graph ORDERING rs)")
       (auto simp: depends_resource_graph)
qed

section \<open>The refresh search\<close>

lemma dependents_at_add:
  "dependents_at (add_dependent a D d) x = dependents_at D x @ (if x = d then [a] else [])"
  by (cases "dget D d"; cases "x = d") (simp_all add: add_dependent_def dependents_at_def)

lemma dependents_at_adds:
  "set (dependents_at (foldl (add_dependent a) D ds) x) =
     set (dependents_at D x) \<union> (if x \<in> set ds then {a} else {})"
proof (induction ds arbitrary: D)
  case Nil
  then show ?case by simp
next
  case (Cons d ds)
  show ?case
    using Cons [of "add_dependent a D d"] by (cases "x = d") (simp_all add: dependents_at_add)
qed

lemma dependents_at_fold:
  "set (dependents_at (foldl (\<lambda>D (a, ds). foldl (add_dependent a) D ds) D g) x) =
     set (dependents_at D x) \<union> {a. \<exists>ds. (a, ds) \<in> set g \<and> x \<in> set ds}"
proof (induction g arbitrary: D)
  case Nil
  then show ?case by simp
next
  case (Cons p g)
  obtain a ds where "p = (a, ds)" by (cases p)
  with Cons show ?case by (auto simp: dependents_at_adds split: if_splits)
qed

lemma dependents_of_dependents:
  assumes "dict_ok g"
  shows "set (dependents_at (dependents_of g) x) = {a. (a, x) \<in> depends g}"
proof -
  have "dget (map (\<lambda>(a, _). (a, [] :: address list)) g) x \<in> {None, Some []}"
    by (induction g) auto
  then have "dependents_at (map (\<lambda>(a, _). (a, [])) g) x = []"
    by (auto simp: dependents_at_def)
  moreover have "(\<exists>ds. (a, ds) \<in> set g \<and> x \<in> set ds) \<longleftrightarrow> (a, x) \<in> depends g" for a
    using assms by (force simp: depends_def deps_def split: option.splits)
  ultimately show ?thesis
    unfolding dependents_of_def by (simp add: dependents_at_fold)
qed

text \<open>The breadth-first loop: \<open>E\<close> relates a node to its dependents.\<close>

definition refresh_inv ::
    "(address \<times> address) set \<Rightarrow> address list \<Rightarrow> address list \<Rightarrow> address list \<Rightarrow> bool" where
  "refresh_inv E changed queue impacted \<longleftrightarrow>
     set impacted \<subseteq> E\<^sup>+ `` set changed - set changed
     \<and> set queue \<subseteq> set changed \<union> set impacted
     \<and> E `` (set changed \<union> set impacted - set queue) \<subseteq> set changed \<union> set impacted"

lemma refresh_inv_start: "set q = set changed \<Longrightarrow> refresh_inv E changed q []"
  by (auto simp: refresh_inv_def)

lemma refresh_inv_step:
  assumes inv: "refresh_inv E changed (d # queue) imp"
    and new: "set new = E `` {d} - set changed - set imp"
  shows "refresh_inv E changed (queue @ new) (imp @ new)"
proof -
  have imp: "set imp \<subseteq> E\<^sup>+ `` set changed - set changed"
    and q: "set (d # queue) \<subseteq> set changed \<union> set imp"
    and cl: "E `` (set changed \<union> set imp - set (d # queue)) \<subseteq> set changed \<union> set imp"
    using inv unfolding refresh_inv_def by blast+
  have d: "d \<in> set changed \<union> set imp" using q by simp
  have "E `` {d} \<subseteq> E\<^sup>+ `` set changed"
    using d imp by (auto intro: r_into_trancl trancl_into_trancl)
  then have "set (imp @ new) \<subseteq> E\<^sup>+ `` set changed - set changed"
    using imp new by auto
  moreover have "set (queue @ new) \<subseteq> set changed \<union> set (imp @ new)" using q by auto
  moreover have "E `` (set changed \<union> set (imp @ new) - set (queue @ new)) \<subseteq> set changed \<union> set (imp @ new)"
  proof
    fix y
    assume "y \<in> E `` (set changed \<union> set (imp @ new) - set (queue @ new))"
    then obtain x where x: "(x, y) \<in> E" "x \<in> set changed \<union> set imp" "x \<notin> set queue" by auto
    show "y \<in> set changed \<union> set (imp @ new)"
    proof (cases "x = d")
      case True
      with x(1) have "y \<in> E `` {d}" by blast
      then show ?thesis using new by auto
    next
      case False
      with x have "x \<in> set changed \<union> set imp - set (d # queue)" by auto
      with cl x(1) show ?thesis by auto
    qed
  qed
  ultimately show ?thesis unfolding refresh_inv_def by blast
qed

lemma refresh_inv_end:
  assumes "refresh_inv E changed [] imp"
  shows "set imp = E\<^sup>+ `` set changed - set changed"
proof -
  have cl: "E `` (set changed \<union> set imp) \<subseteq> set changed \<union> set imp"
    and sub: "set imp \<subseteq> E\<^sup>+ `` set changed - set changed"
    using assms by (auto simp: refresh_inv_def)
  have "y \<in> set changed \<union> set imp" if "(x, y) \<in> E\<^sup>+" "x \<in> set changed" for x y
    using that(1) by (induction rule: trancl_induct) (use cl that(2) in auto)
  with sub show ?thesis by blast
qed

lemma refresh_loop_reaches:
  assumes "\<And>x. set (dependents_at D x) = E `` {x}"
    and "\<And>x y. (x, y) \<in> E \<Longrightarrow> compiled_address y"
    and "refresh_inv E changed queue imp"
  shows "\<exists>imp'. refresh_loop D changed queue imp = Inr imp' \<and> set imp' = E\<^sup>+ `` set changed - set changed"
  using assms
proof (induction D changed queue imp rule: refresh_loop.induct)
  case (1 D changed imp)
  from "1.prems"(3) have "set imp = E\<^sup>+ `` set changed - set changed" by (rule refresh_inv_end)
  then show ?case by simp
next
  case (2 D changed d queue imp)
  define ds where "ds = sort (dependents_at D d)"
  have sorted: "canonical_sorted (dependents_at D d) = Inr ds"
    using 2(2,3) unfolding ds_def by (intro canonical_sorted_ok) auto
  obtain new where new: "foldl (refresh_visit changed) (imp, queue) ds = (imp @ new, queue @ new)"
    "set new = set ds - set changed - set imp"
    using refresh_visit_fold by blast
  have "set new = E `` {d} - set changed - set imp"
    using new(2) 2(2) by (simp add: ds_def)
  with 2(4) have inv: "refresh_inv E changed (queue @ new) (imp @ new)" by (rule refresh_inv_step)
  show ?case
    using "2.IH" [OF sorted new(1) [symmetric] 2(2,3) inv] sorted new(1) by simp
qed

lemma refresh_impacted_spec:
  assumes "resources_ok rs" and "\<And>a. a \<in> set changed \<Longrightarrow> compiled_address a"
  shows "\<exists>imp. refresh_impacted_nodes rs changed = Inr imp \<and> distinct imp
    \<and> set imp = {a. a \<notin> set changed \<and> (\<exists>c \<in> set changed. (a, c) \<in> (resource_depends REFRESH rs)\<^sup>+)}"
proof -
  have ok: "dict_ok rs" "canonical_keys rs" using assms(1) unfolding resources_ok_def by blast+
  let ?g = "resource_graph REFRESH rs"
  note closed = resource_graph_closed [OF ok(1), of REFRESH]
  have gok: "dict_ok ?g" "canonical_keys ?g"
    using ok unfolding dkeys_resource_graph by blast+
  define E where "E = (resource_depends REFRESH rs)\<inverse>"
  have D: "set (dependents_at (dependents_of ?g) x) = E `` {x}" for x
    unfolding dependents_of_dependents [OF gok(1)] depends_resource_graph E_def by blast
  have can: "compiled_address y" if "(x, y) \<in> E" for x y
  proof -
    from that obtain r where "dget rs y = Some r" unfolding E_def resource_depends_kind by blast
    then have "y \<in> set (dkeys rs)" by (rule dget_Some_key)
    with ok(2) show ?thesis by blast
  qed
  have q: "canonical_sorted (fromkeys changed) = Inr (sort (fromkeys changed))"
    using assms(2) by (intro canonical_sorted_ok) simp
  have "\<exists>imp. refresh_loop (dependents_of ?g) (fromkeys changed) (sort (fromkeys changed)) [] = Inr imp
      \<and> set imp = E\<^sup>+ `` set (fromkeys changed) - set (fromkeys changed)"
  proof (rule refresh_loop_reaches)
    show "refresh_inv E (fromkeys changed) (sort (fromkeys changed)) []"
      by (rule refresh_inv_start) (rule set_sort)
  qed (fact D can)+
  then obtain imp where imp:
    "refresh_loop (dependents_of ?g) (fromkeys changed) (sort (fromkeys changed)) [] = Inr imp"
    "set imp = E\<^sup>+ `` set changed - set changed"
    unfolding set_fromkeys by blast
  obtain xs where xs: "stable_topological_order id ?g = Inr xs" "distinct xs" "set xs = set (dkeys ?g)"
    using stable.order_total [OF closed] by blast
  have order: "topological_dependency_order ?g = Inr xs"
    unfolding topological_dependency_order_closed [OF closed gok(2)] xs(1) by simp
  have "set imp \<subseteq> set (dkeys rs)"
    unfolding imp(2)
  proof clarify
    fix c a assume "(c, a) \<in> E\<^sup>+"
    then obtain x where "(x, a) \<in> E" by (meson tranclD2)
    then obtain r where "dget rs a = Some r" unfolding E_def resource_depends_kind by blast
    then show "a \<in> set (dkeys rs)" by (rule dget_Some_key)
  qed
  then have "set (filter (\<lambda>a. a \<in> set imp) xs) = set imp"
    unfolding set_filter xs(3) dkeys_resource_graph by blast
  moreover have "E\<^sup>+ = ((resource_depends REFRESH rs)\<^sup>+)\<inverse>"
    unfolding E_def by (simp add: trancl_converse)
  ultimately have res: "set (filter (\<lambda>a. a \<in> set imp) xs)
      = {a. a \<notin> set changed \<and> (\<exists>c \<in> set changed. (a, c) \<in> (resource_depends REFRESH rs)\<^sup>+)}"
    using imp(2) by auto
  have "refresh_impacted_nodes rs changed = Inr (filter (\<lambda>a. a \<in> set imp) xs)"
    by (simp add: refresh_impacted_nodes_def dependency_graph_for_resources_ok [OF ok] q imp(1) order)
  with res xs(2) show ?thesis by (metis distinct_filter)
qed

section \<open>Reconciliation\<close>

lemma foldl_dput_fresh:
  "distinct (dkeys acc @ dkeys xs) \<Longrightarrow>
     foldl (\<lambda>d (a, r). dput a (f a r) d) acc xs = acc @ map (\<lambda>(a, r). (a, f a r)) xs"
  using foldl_dput_distinct [of acc fst xs "\<lambda>p. f (fst p) (snd p)"] by (simp add: split_def)

lemma promote_fold:
  assumes "\<And>a. a \<in> set imp \<Longrightarrow> dget acts a \<noteq> None"
  shows "\<exists>acts'. efold promote_unchanged acts imp = Inr acts' \<and> dkeys acts' = dkeys acts
    \<and> (\<forall>a. dget acts' a = (if a \<in> set imp \<and> dget acts a = Some UNCHANGED then Some UPDATE else dget acts a))"
  using assms
proof (induction imp arbitrary: acts)
  case Nil
  then show ?case by simp
next
  case (Cons b imp)
  from Cons.prems obtain act where act: "dget acts b = Some act" by fastforce
  define acts1 where "acts1 = (if act = UNCHANGED then dput b UPDATE acts else acts)"
  have step: "promote_unchanged acts b = Inr acts1"
    using act by (simp add: promote_unchanged_def acts1_def)
  have keys: "dkeys acts1 = dkeys acts"
    using act by (simp add: acts1_def dkeys_dput_present)
  have look: "dget acts1 a = (if a = b \<and> act = UNCHANGED then Some UPDATE else dget acts a)" for a
    by (simp add: acts1_def)
  have "dget acts1 a \<noteq> None" if "a \<in> set imp" for a
    using Cons.prems that by (simp add: look)
  from Cons.IH [OF this] obtain acts' where
    "efold promote_unchanged acts1 imp = Inr acts'" "dkeys acts' = dkeys acts1"
    "\<forall>a. dget acts' a = (if a \<in> set imp \<and> dget acts1 a = Some UNCHANGED then Some UPDATE else dget acts1 a)"
    by blast
  with step keys look act show ?case by auto
qed

text \<open>
  What reconciliation promises, over the model, the snapshot and the match alone: a resource that
  the snapshot lacks is created, an entry that the model lacks is deleted, a resource that has
  drifted from its entry, or that reaches a missing or drifted resource through refresh
  dependencies, is updated, and everything else is unchanged.
\<close>

definition drifted ::
    "(address, 'r) dict \<Rightarrow> (address, 's) dict \<Rightarrow> ('s \<Rightarrow> 'r \<Rightarrow> bool) \<Rightarrow> address \<Rightarrow> bool" where
  "drifted rs entries matches a \<longleftrightarrow>
     (\<exists>r. dget rs a = Some r \<and> (\<forall>e. dget entries a = Some e \<longrightarrow> \<not> matches e r))"

definition reconciled_action ::
    "(address, 'r) dict \<Rightarrow> (address, 's) dict \<Rightarrow> ('r \<Rightarrow> dependency_semantics) \<Rightarrow> ('s \<Rightarrow> 'r \<Rightarrow> bool) \<Rightarrow>
       address \<Rightarrow> reconciliation_action option" where
  "reconciled_action rs entries sem matches a =
     (if dget rs a = None then (if dget entries a = None then None else Some DELETE)
      else if dget entries a = None then Some CREATE
      else if drifted rs entries matches a
          \<or> (\<exists>c. drifted rs entries matches c
                \<and> (a, c) \<in> (resource_depends REFRESH (map (\<lambda>(a, r). (a, sem r)) rs))\<^sup>+)
        then Some UPDATE
      else Some UNCHANGED)"

lemma drifted_desired_action:
  "dget rs a = Some r \<Longrightarrow>
     drifted rs entries matches a \<longleftrightarrow> desired_action matches entries a r \<noteq> UNCHANGED"
  by (auto simp: drifted_def desired_action_def split: option.splits)

lemma drifted_iff:
  "drifted rs entries matches a \<longleftrightarrow>
     (\<exists>r. dget rs a = Some r \<and> desired_action matches entries a r \<noteq> UNCHANGED)"
  by (cases "dget rs a") (auto simp: drifted_desired_action, simp add: drifted_def)

lemma desired_action_not_delete: "desired_action matches entries a r \<noteq> DELETE"
  by (auto simp: desired_action_def split: option.splits)

lemma desired_action_create: "desired_action matches entries a r = CREATE \<longleftrightarrow> dget entries a = None"
  by (auto simp: desired_action_def split: option.splits)

lemma reconcile_spec:
  assumes "dict_ok rs" and "canonical_keys rs" and "dict_ok entries"
  shows "\<exists>acts. reconcile_resource_actions rs entries sem matches
      = Inr (acts, filter (\<lambda>(a, e). a \<notin> set (dkeys rs)) entries)
    \<and> dkeys acts = dkeys rs @ dkeys (filter (\<lambda>(a, e). a \<notin> set (dkeys rs)) entries)
    \<and> (\<forall>a. dget acts a = reconciled_action rs entries sem matches a)"
proof -
  define deleted where "deleted = filter (\<lambda>(a, e). a \<notin> set (dkeys rs)) entries"
  define want where "want = desired_action matches entries"
  define acts where "acts = map (\<lambda>(a, r). (a, want a r)) rs @ map (\<lambda>(a, e). (a, DELETE)) deleted"
  define srs where "srs = map (\<lambda>(a, r). (a, sem r)) rs"
  define changed where "changed = map fst (filter (\<lambda>(a, act). act \<in> {CREATE, UPDATE}) acts)"
  have dkd: "set (dkeys deleted) = set (dkeys entries) - set (dkeys rs)"
    by (auto simp: deleted_def rev_image_eqI)
  have dd: "dict_ok deleted"
    unfolding deleted_def by (intro distinct_map_filter assms(3))
  have w: "foldl (\<lambda>d (a, r). dput a (want a r) d) [] rs = map (\<lambda>(a, r). (a, want a r)) rs"
    using assms(1) by (subst foldl_dput_fresh) simp_all
  have "distinct (dkeys (map (\<lambda>(a, r). (a, want a r)) rs) @ dkeys deleted)"
    unfolding dkeys_map_value distinct_append dkd using assms(1) dd by blast
  from foldl_dput_fresh [OF this, of "\<lambda>_ _. DELETE"]
  have a: "foldl (\<lambda>d (a, e). dput a DELETE d) (map (\<lambda>(a, r). (a, want a r)) rs) deleted = acts"
    by (simp add: acts_def)
  have keys: "dkeys acts = dkeys rs @ dkeys deleted"
    by (auto simp: acts_def)
  have look: "dget acts a = (case dget rs a of None \<Rightarrow> map_option (\<lambda>_. DELETE) (dget deleted a)
      | Some r \<Rightarrow> Some (want a r))" for a
    by (simp add: acts_def map_of_append map_add_def dget_map_value [where f = "\<lambda>_ _. DELETE"]
        dget_map_value split: option.splits)
  have look': "dget acts a = (case dget rs a of
        None \<Rightarrow> (if dget entries a = None then None else Some DELETE) | Some r \<Rightarrow> Some (want a r))" for a
  proof -
    have "dget deleted a = None \<longleftrightarrow> dget entries a = None" if "dget rs a = None"
      using that dkd unfolding dget_None_iff by blast
    then show ?thesis unfolding look by (auto split: option.splits)
  qed
  have acts_ok: "dict_ok acts"
    unfolding keys distinct_append dkd using assms(1) dd by blast
  have changed: "a \<in> set changed \<longleftrightarrow> (\<exists>r. dget rs a = Some r \<and> want a r \<noteq> UNCHANGED)" for a
  proof -
    have "a \<in> set changed \<longleftrightarrow> (\<exists>act. dget acts a = Some act \<and> act \<in> {CREATE, UPDATE})"
      using acts_ok by (force simp: changed_def)
    then show ?thesis
      using desired_action_not_delete [of matches entries a]
      unfolding look' want_def by (auto split: option.splits) (metis reconciliation_action.exhaust)+
  qed
  have srs: "resources_ok srs"
    using assms(1,2) unfolding resources_ok_def srs_def dkeys_map_value by blast
  have "compiled_address a" if "a \<in> set changed" for a
  proof -
    from that obtain r where "dget rs a = Some r" unfolding changed by blast
    then have "a \<in> set (dkeys rs)" by (rule dget_Some_key)
    with assms(2) show ?thesis by blast
  qed
  from refresh_impacted_spec [OF srs this] obtain imp where
    imp: "refresh_impacted_nodes srs changed = Inr imp"
    "set imp = {a. a \<notin> set changed \<and> (\<exists>c \<in> set changed. (a, c) \<in> (resource_depends REFRESH srs)\<^sup>+)}"
    by blast
  have imp_rs: "\<exists>r. dget rs a = Some r" if "a \<in> set imp" for a
  proof -
    from that obtain c where "(a, c) \<in> (resource_depends REFRESH srs)\<^sup>+" unfolding imp(2) by blast
    then obtain b where "(a, b) \<in> resource_depends REFRESH srs" by (meson tranclD)
    then show ?thesis by (auto simp: resource_depends_kind srs_def dget_map_value)
  qed
  have "dget acts a \<noteq> None" if "a \<in> set imp" for a
    using imp_rs [OF that] by (auto simp: look')
  from promote_fold [OF this] obtain acts' where acts':
    "efold promote_unchanged acts imp = Inr acts'" "dkeys acts' = dkeys acts"
    "\<And>a. dget acts' a = (if a \<in> set imp \<and> dget acts a = Some UNCHANGED then Some UPDATE else dget acts a)"
    by blast
  have run: "reconcile_resource_actions rs entries sem matches = Inr (acts', deleted)"
    unfolding reconcile_resource_actions_def Let_def deleted_def [symmetric] want_def [symmetric] w a
      changed_def [symmetric] srs_def [symmetric] imp(1)
    by (simp add: acts'(1))
  have "dget acts' a = reconciled_action rs entries sem matches a" for a
  proof (cases "dget rs a")
    case None
    with imp_rs [of a] show ?thesis
      by (auto simp: acts'(3) look' reconciled_action_def)
  next
    case (Some r)
    let ?reach = "\<exists>c. drifted rs entries matches c \<and> (a, c) \<in> (resource_depends REFRESH srs)\<^sup>+"
    have drift: "c \<in> set changed \<longleftrightarrow> drifted rs entries matches c" for c
      unfolding changed drifted_iff want_def ..
    have w: "drifted rs entries matches a \<longleftrightarrow> want a r \<noteq> UNCHANGED"
      unfolding want_def using Some by (rule drifted_desired_action)
    have "a \<in> set imp \<longleftrightarrow> want a r = UNCHANGED \<and> ?reach"
      unfolding imp(2) mem_Collect_eq Bex_def drift w by simp
    then have "dget acts' a = Some (if want a r = UNCHANGED \<and> ?reach then UPDATE else want a r)"
      using Some by (auto simp: acts'(3) look')
    moreover have "want a r = CREATE \<longleftrightarrow> dget entries a = None"
      unfolding want_def by (rule desired_action_create)
    moreover have "want a r \<noteq> DELETE" unfolding want_def by (rule desired_action_not_delete)
    ultimately show ?thesis
      using Some unfolding reconciled_action_def srs_def [symmetric] w by (cases "want a r") auto
  qed
  with run acts'(2) keys show ?thesis unfolding deleted_def by auto
qed

end
