(* ===== verification/PlanOps.thy ===== *)
theory PlanOps
  imports PlannerProofs
begin

text \<open>
  From reconciliation to plans (raes_processor/planner/ordering.py and operations.py, with the
  plan data and its validation from raes_contracts/planning.py): apply operations in dependency
  order, delete operations in teardown order, and the startup order of a domain.

  Payloads and profile bindings are opaque to this code and are type variables here. The
  comparison of payloads through the registered realization projections is the argument
  \<open>payloads_match\<close> of \<open>entry_matches_resource\<close>. The planner builds operations without an
  execution policy; the phase that attaches policies is not modelled.
\<close>

section \<open>Data\<close>

datatype runtime_domain = PROVISIONING | ORCHESTRATION | EVALUATION | PARTICIPANT

record ('p, 'b) planned_resource = dependency_semantics +
  resource_address :: address
  resource_domain :: runtime_domain
  resource_kind :: string
  resource_payload :: 'p
  resource_bindings :: "'b list"

record ('p, 'b) snapshot_entry = dependency_semantics +
  entry_address :: address
  entry_domain :: runtime_domain
  entry_kind :: string
  entry_payload :: 'p
  entry_status :: string
  entry_bindings :: "'b list"

record ('p, 'b) plan_operation = dependency_semantics +
  op_action :: reconciliation_action
  op_address :: address
  op_kind :: string
  op_payload :: 'p
  op_bindings :: "'b list"

record ('p, 'b) phase_plan =
  plan_resources :: "(address, ('p, 'b) planned_resource) dict"
  plan_operations :: "('p, 'b) plan_operation list"
  plan_startup_order :: "address list"

datatype plan_error =
    PlannerError planner_error
  | MapKeyMismatch | ForeignDomain | ForeignAddress | ForeignResourceType
  | DuplicateOperation | DuplicateStartup | UnknownStartup

definition lift_planner :: "planner_error + 'a \<Rightarrow> plan_error + 'a" where
  "lift_planner m = map_sum PlannerError id m"

definition require_address :: "address \<Rightarrow> plan_error + unit" where
  "require_address a = map_sum (PlannerError \<circ> AddressError) (\<lambda>_. ()) (require_compiled_address a)"

section \<open>Construction and validation of plan data\<close>

definition require_dependencies :: "'a dependency_semantics_scheme \<Rightarrow> plan_error + unit" where
  "require_dependencies r = echeck require_address (ordering_dependencies r @ refresh_dependencies r)"

definition make_planned_resource ::
    "('p, 'b) planned_resource \<Rightarrow> plan_error + ('p, 'b) planned_resource" where
  "make_planned_resource r =
     ebind (require_address (resource_address r)) (\<lambda>_. ebind (require_dependencies r) (\<lambda>_. Inr r))"

definition make_snapshot_entry ::
    "('p, 'b) snapshot_entry \<Rightarrow> plan_error + ('p, 'b) snapshot_entry" where
  "make_snapshot_entry e =
     ebind (require_address (entry_address e)) (\<lambda>_. ebind (require_dependencies e) (\<lambda>_. Inr e))"

definition make_plan_operation ::
    "('p, 'b) plan_operation \<Rightarrow> plan_error + ('p, 'b) plan_operation" where
  "make_plan_operation p =
     ebind (require_address (op_address p)) (\<lambda>_. ebind (require_dependencies p) (\<lambda>_. Inr p))"

definition PLAN_ADDRESS_ROOT_BY_DOMAIN :: "runtime_domain \<Rightarrow> string option" where
  "PLAN_ADDRESS_ROOT_BY_DOMAIN d =
     (case d of PROVISIONING \<Rightarrow> Some ''provision'' | ORCHESTRATION \<Rightarrow> Some ''orchestration''
      | EVALUATION \<Rightarrow> Some ''evaluation'' | PARTICIPANT \<Rightarrow> None)"

definition PLAN_RESOURCE_TYPES_BY_DOMAIN :: "runtime_domain \<Rightarrow> string list" where
  "PLAN_RESOURCE_TYPES_BY_DOMAIN d =
     (case d of
        PROVISIONING \<Rightarrow> [''network'', ''node'', ''feature-binding'', ''content-placement'',
          ''account-placement'', ''domain-controller-placement'', ''generated-artifact'',
          ''persistent-volume'']
      | ORCHESTRATION \<Rightarrow> [''inject-binding'', ''inject'', ''event'', ''script'', ''story'', ''workflow'']
      | EVALUATION \<Rightarrow> [''condition-binding'', ''proposition'', ''assertion'', ''objective'']
      | PARTICIPANT \<Rightarrow> [])"

definition require_plan_operation_identity ::
    "runtime_domain \<Rightarrow> address \<Rightarrow> string \<Rightarrow> plan_error + unit" where
  "require_plan_operation_identity d a t =
     ebind (require_address a) (\<lambda>_.
     (case PLAN_ADDRESS_ROOT_BY_DOMAIN d of
        None \<Rightarrow> Inl ForeignAddress
      | Some root \<Rightarrow>
          ebind (require (starts_with a (root @ ''.'')) ForeignAddress) (\<lambda>_.
            require (t \<in> set (PLAN_RESOURCE_TYPES_BY_DOMAIN d)) ForeignResourceType)))"

definition validate_plan_resource ::
    "runtime_domain \<Rightarrow> (address \<times> ('p, 'b) planned_resource) \<Rightarrow> plan_error + unit" where
  "validate_plan_resource d = (\<lambda>(map_key, r).
     ebind (require_address map_key) (\<lambda>_.
     ebind (require (map_key = resource_address r) MapKeyMismatch) (\<lambda>_.
     ebind (require (resource_domain r = d) ForeignDomain) (\<lambda>_.
       require_plan_operation_identity d (resource_address r) (resource_kind r)))))"

definition validate_plan_addresses ::
    "runtime_domain \<Rightarrow> (address, ('p, 'b) planned_resource) dict \<Rightarrow> ('p, 'b) plan_operation list \<Rightarrow>
       address list option \<Rightarrow> plan_error + unit" where
  "validate_plan_addresses d resources operations startup_order =
     ebind (echeck (validate_plan_resource d) resources) (\<lambda>_.
     ebind (echeck (\<lambda>p. require_plan_operation_identity d (op_address p) (op_kind p)) operations) (\<lambda>_.
     ebind (require (distinct (map op_address operations)) DuplicateOperation) (\<lambda>_.
     (case startup_order of
        None \<Rightarrow> Inr ()
      | Some order \<Rightarrow>
          ebind (echeck require_address order) (\<lambda>_.
          ebind (require (distinct order) DuplicateStartup) (\<lambda>_.
            require (set order \<subseteq> set (map op_address operations)) UnknownStartup))))))"

section \<open>Ordering\<close>

definition entry_matches_resource ::
    "(address \<Rightarrow> 'p \<Rightarrow> 'p \<Rightarrow> bool) \<Rightarrow> ('p, 'b) snapshot_entry \<Rightarrow> ('p, 'b) planned_resource \<Rightarrow> bool" where
  "entry_matches_resource payloads_match e r \<longleftrightarrow>
     entry_domain e = resource_domain r
     \<and> entry_bindings e = resource_bindings r
     \<and> entry_kind e = resource_kind r
     \<and> payloads_match (entry_address e) (resource_payload r) (entry_payload e)
     \<and> ordering_dependencies e = ordering_dependencies r
     \<and> refresh_dependencies e = refresh_dependencies r"

definition resource_of_entry ::
    "('p, 'b) snapshot_entry \<Rightarrow> plan_error + ('p, 'b) planned_resource" where
  "resource_of_entry e = make_planned_resource
     \<lparr>ordering_dependencies = ordering_dependencies e,
      refresh_dependencies = refresh_dependencies e,
      resource_address = entry_address e, resource_domain = entry_domain e,
      resource_kind = entry_kind e, resource_payload = entry_payload e, resource_bindings = []\<rparr>"

definition delete_order ::
    "(address, ('p, 'b) snapshot_entry) dict \<Rightarrow> plan_error + address list" where
  "delete_order entries =
     ebind (efold (\<lambda>rs (a, e). ebind (resource_of_entry e) (\<lambda>r. Inr (rs @ [(a, r)]))) [] entries)
       (\<lambda>resources. lift_planner (resource_delete_order resources))"

section \<open>Operations\<close>

definition semantics_of :: "'a dependency_semantics_scheme \<Rightarrow> dependency_semantics" where
  "semantics_of r = \<lparr>ordering_dependencies = ordering_dependencies r,
     refresh_dependencies = refresh_dependencies r\<rparr>"

definition build_operations ::
    "(address \<Rightarrow> 'p \<Rightarrow> 'p \<Rightarrow> bool) \<Rightarrow> (address, ('p, 'b) planned_resource) dict \<Rightarrow>
       (address, ('p, 'b) snapshot_entry) dict \<Rightarrow>
       plan_error + ((address, reconciliation_action) dict \<times> (address, ('p, 'b) snapshot_entry) dict)" where
  "build_operations payloads_match resources entries =
     lift_planner (reconcile_resource_actions resources entries semantics_of
       (entry_matches_resource payloads_match))"

text \<open>One apply operation; only provisioning operations carry profile bindings.\<close>

definition apply_operation ::
    "bool \<Rightarrow> (address, ('p, 'b) planned_resource) dict \<Rightarrow> (address, reconciliation_action) dict \<Rightarrow>
       address \<Rightarrow> plan_error + ('p, 'b) plan_operation" where
  "apply_operation with_bindings resources actions a =
     (case (dget resources a, dget actions a) of
        (Some r, Some act) \<Rightarrow> make_plan_operation
          \<lparr>ordering_dependencies = ordering_dependencies r,
           refresh_dependencies = refresh_dependencies r,
           op_action = act, op_address = a, op_kind = resource_kind r,
           op_payload = resource_payload r,
           op_bindings = (if with_bindings then resource_bindings r else [])\<rparr>
      | _ \<Rightarrow> Inl (PlannerError MissingKey))"

definition delete_operation ::
    "(address, ('p, 'b) snapshot_entry) dict \<Rightarrow> address \<Rightarrow> plan_error + ('p, 'b) plan_operation" where
  "delete_operation deleted a =
     (case dget deleted a of
        None \<Rightarrow> Inl (PlannerError MissingKey)
      | Some e \<Rightarrow> make_plan_operation
          \<lparr>ordering_dependencies = ordering_dependencies e,
           refresh_dependencies = refresh_dependencies e,
           op_action = DELETE, op_address = a, op_kind = entry_kind e,
           op_payload = entry_payload e, op_bindings = []\<rparr>)"

definition domain_resources ::
    "runtime_domain \<Rightarrow> (address, ('p, 'b) planned_resource) dict \<Rightarrow>
       (address, ('p, 'b) planned_resource) dict" where
  "domain_resources d resources = filter (\<lambda>(a, r). resource_domain r = d) resources"

definition domain_entries ::
    "runtime_domain \<Rightarrow> (address, ('p, 'b) snapshot_entry) dict \<Rightarrow>
       (address, ('p, 'b) snapshot_entry) dict" where
  "domain_entries d entries = filter (\<lambda>(a, e). entry_domain e = d) entries"

definition ordered_apply_ops ::
    "(address, ('p, 'b) planned_resource) dict \<Rightarrow> (address, reconciliation_action) dict \<Rightarrow>
       plan_error + ('p, 'b) plan_operation list" where
  "ordered_apply_ops resources actions =
     ebind (lift_planner (resource_topological_order resources))
       (\<lambda>order. collect (apply_operation True resources actions) order)"

definition ordered_delete_ops ::
    "(address, ('p, 'b) snapshot_entry) dict \<Rightarrow> plan_error + ('p, 'b) plan_operation list" where
  "ordered_delete_ops deleted =
     ebind (delete_order (domain_entries PROVISIONING deleted)) (collect (delete_operation deleted))"

definition build_provisioning_operations ::
    "(address, ('p, 'b) planned_resource) dict \<Rightarrow> (address, reconciliation_action) dict \<Rightarrow>
       (address, ('p, 'b) snapshot_entry) dict \<Rightarrow> plan_error + ('p, 'b) phase_plan" where
  "build_provisioning_operations resources actions deleted =
     (let rs = domain_resources PROVISIONING resources in
      ebind (ordered_apply_ops rs actions) (\<lambda>applies.
      ebind (ordered_delete_ops deleted) (\<lambda>deletes.
      ebind (validate_plan_addresses PROVISIONING rs (applies @ deletes) None) (\<lambda>_.
        Inr \<lparr>plan_resources = rs, plan_operations = applies @ deletes, plan_startup_order = []\<rparr>))))"

definition build_phase ::
    "runtime_domain \<Rightarrow> (address, ('p, 'b) planned_resource) dict \<Rightarrow>
       (address, reconciliation_action) dict \<Rightarrow> (address, ('p, 'b) snapshot_entry) dict \<Rightarrow>
       plan_error + ('p, 'b) phase_plan" where
  "build_phase d resources actions deleted =
     (let rs = domain_resources d resources in
      ebind (lift_planner (resource_topological_order rs)) (\<lambda>startup_order.
      ebind (collect (apply_operation False rs actions) startup_order) (\<lambda>applies.
      ebind (delete_order (domain_entries d deleted)) (\<lambda>teardown.
      ebind (collect (delete_operation deleted) teardown) (\<lambda>deletes.
      ebind (validate_plan_addresses d rs (applies @ deletes) (Some startup_order)) (\<lambda>_.
        Inr \<lparr>plan_resources = rs, plan_operations = applies @ deletes,
             plan_startup_order = startup_order\<rparr>))))))"

definition build_orchestration_plan where
  "build_orchestration_plan = build_phase ORCHESTRATION"

definition build_evaluation_plan where
  "build_evaluation_plan = build_phase EVALUATION"

definition actionable_operations :: "('p, 'b) phase_plan \<Rightarrow> ('p, 'b) plan_operation list" where
  "actionable_operations plan = filter (\<lambda>p. op_action p \<noteq> UNCHANGED) (plan_operations plan)"

definition fresh_evaluation_actions ::
    "(address, ('p, 'b) planned_resource) dict \<Rightarrow> (address, reconciliation_action) dict \<Rightarrow>
       plan_error + (address, reconciliation_action) dict" where
  "fresh_evaluation_actions resources actions =
     efold (\<lambda>refreshed (a, r).
         if resource_domain r = EVALUATION then
           (case dget actions a of
              None \<Rightarrow> Inl (PlannerError MissingKey)
            | Some act \<Rightarrow> Inr (if act = UNCHANGED then dput a UPDATE refreshed else refreshed))
         else Inr refreshed)
       actions resources"

text \<open>The plan that tears down every live provisioning entry (raes_runtime/manager_destroy.py).\<close>

definition destroy_delete_plan ::
    "(address, ('p, 'b) snapshot_entry) dict \<Rightarrow> plan_error + ('p, 'b) phase_plan" where
  "destroy_delete_plan entries =
     (let live = domain_entries PROVISIONING entries in
      ebind (delete_order live) (\<lambda>order.
      ebind (collect (delete_operation live) order) (\<lambda>ops.
      ebind (validate_plan_addresses PROVISIONING ([] :: (address, ('p, 'b) planned_resource) dict) ops None)
        (\<lambda>_. Inr \<lparr>plan_resources = [], plan_operations = ops, plan_startup_order = []\<rparr>))))"

section \<open>Lemmas\<close>

lemma require_address_Inr [errs]: "require_address a = Inr u \<longleftrightarrow> compiled_address a"
  by (simp add: require_address_def require_compiled_address_def)

lemma require_dependencies_Inr [errs]:
  "require_dependencies r = Inr u \<longleftrightarrow>
     (\<forall>a \<in> set (ordering_dependencies r) \<union> set (refresh_dependencies r). compiled_address a)"
  by (auto simp: require_dependencies_def errs)

lemma make_plan_operation_Inr [errs]:
  "make_plan_operation p = Inr q \<longleftrightarrow>
     compiled_address (op_address p) \<and> require_dependencies p = Inr () \<and> q = p"
  by (auto simp: make_plan_operation_def require_address_Inr ebind_eq_Inr)

lemma make_planned_resource_Inr [errs]:
  "make_planned_resource r = Inr q \<longleftrightarrow>
     compiled_address (resource_address r) \<and> require_dependencies r = Inr () \<and> q = r"
  by (auto simp: make_planned_resource_def require_address_Inr ebind_eq_Inr)

lemma make_snapshot_entry_Inr [errs]:
  "make_snapshot_entry e = Inr q \<longleftrightarrow>
     compiled_address (entry_address e) \<and> require_dependencies e = Inr () \<and> q = e"
  by (auto simp: make_snapshot_entry_def require_address_Inr ebind_eq_Inr)

end
