(* ===== verification/PlanProofs.thy ===== *)
theory PlanProofs
  imports PlanOps
begin

text \<open>
  Correctness of plan construction: for a well-formed model and snapshot every phase plan is
  built, lists each resource of its domain once in dependency order with the reconciled
  action, and then deletes the stale entries of the domain, dependents first.
\<close>

section \<open>Well-formed inputs\<close>

definition placed_in :: "runtime_domain \<Rightarrow> address \<Rightarrow> string \<Rightarrow> bool" where
  "placed_in d a t \<longleftrightarrow> require_plan_operation_identity d a t = Inr ()"

definition model_ok :: "(address, ('p, 'b) planned_resource) dict \<Rightarrow> bool" where
  "model_ok rs \<longleftrightarrow> dict_ok rs \<and>
     (\<forall>(a, r) \<in> set rs. resource_address r = a \<and> compiled_address a \<and> require_dependencies r = Inr ()
       \<and> (resource_domain r = PARTICIPANT \<or> placed_in (resource_domain r) a (resource_kind r)))"

definition snapshot_ok :: "(address, ('p, 'b) snapshot_entry) dict \<Rightarrow> bool" where
  "snapshot_ok es \<longleftrightarrow> dict_ok es \<and>
     (\<forall>(a, e) \<in> set es. entry_address e = a \<and> compiled_address a \<and> require_dependencies e = Inr ()
       \<and> (entry_domain e = PARTICIPANT \<or> placed_in (entry_domain e) a (entry_kind e)))"

lemma model_okD:
  assumes "model_ok rs" and "dget rs a = Some r"
  shows "resource_address r = a" "require_dependencies r = Inr ()"
    "resource_domain r = PARTICIPANT \<or> placed_in (resource_domain r) a (resource_kind r)"
    "compiled_address a"
  using assms by (auto simp: model_ok_def dest!: map_of_SomeD)

lemma snapshot_okD:
  assumes "snapshot_ok es" and "dget es a = Some e"
  shows "entry_address e = a" "require_dependencies e = Inr ()"
    "entry_domain e = PARTICIPANT \<or> placed_in (entry_domain e) a (entry_kind e)"
    "compiled_address a"
  using assms by (auto simp: snapshot_ok_def dest!: map_of_SomeD)

lemma model_ok_filter: "model_ok rs \<Longrightarrow> model_ok (filter P rs)"
  by (auto simp: model_ok_def intro: distinct_map_filter)

lemma snapshot_ok_filter: "snapshot_ok es \<Longrightarrow> snapshot_ok (filter P es)"
  by (auto simp: snapshot_ok_def intro: distinct_map_filter)

lemma model_ok_resources: "model_ok rs \<Longrightarrow> resources_ok rs"
  by (auto simp: model_ok_def resources_ok_def)

lemma snapshot_ok_resources: "snapshot_ok es \<Longrightarrow> resources_ok es"
  by (auto simp: snapshot_ok_def resources_ok_def)

lemma domain_resources_domain: "dget (domain_resources d rs) a = Some r \<Longrightarrow> resource_domain r = d"
  by (auto simp: domain_resources_def dest: map_of_SomeD)

lemma domain_entries_domain: "dget (domain_entries d es) a = Some e \<Longrightarrow> entry_domain e = d"
  by (auto simp: domain_entries_def dest: map_of_SomeD)

lemma dget_filter_sub: "dict_ok d \<Longrightarrow> dget (filter P d) a = Some v \<Longrightarrow> dget d a = Some v"
  by (drule map_of_SomeD) (simp add: map_of_eq_Some_iff)

section \<open>Teardown order\<close>

definition entry_resource :: "('p, 'b) snapshot_entry \<Rightarrow> ('p, 'b) planned_resource" where
  "entry_resource e =
     \<lparr>ordering_dependencies = ordering_dependencies e,
      refresh_dependencies = refresh_dependencies e,
      resource_address = entry_address e, resource_domain = entry_domain e,
      resource_kind = entry_kind e, resource_payload = entry_payload e, resource_bindings = []\<rparr>"

lemma kind_dependencies_entry_resource [simp]:
  "kind_dependencies k (entry_resource e) = kind_dependencies k e"
  by (simp add: kind_dependencies_def entry_resource_def)

lemma resource_depends_entries:
  "resource_depends k (map (\<lambda>(a, e). (a, entry_resource e)) es) = resource_depends k es"
  unfolding resource_depends_kind dkeys_map_value by (auto simp: dget_map_value)

lemma resource_of_entry_ok:
  "compiled_address (entry_address e) \<Longrightarrow> require_dependencies e = Inr () \<Longrightarrow>
     resource_of_entry e = Inr (entry_resource e)"
  by (simp add: resource_of_entry_def errs entry_resource_def)

lemma delete_order_ok:
  fixes es :: "(address, ('p, 'b) snapshot_entry) dict"
  assumes "snapshot_ok es"
  shows "\<exists>xs. delete_order es = Inr xs \<and> distinct xs \<and> set xs = set (dkeys es)
    \<and> (\<forall>n d. (n, d) \<in> (resource_depends ORDERING es)\<^sup>+ \<longrightarrow> \<not> blocked_by (resource_depends ORDERING es) n
          \<longrightarrow> precedes xs n d)"
proof -
  define rs where "rs = map (\<lambda>(a, e). (a, entry_resource e)) es"
  have "efold (\<lambda>rs (a, e). ebind (resource_of_entry e) (\<lambda>r. Inr (rs @ [(a, r)]))) acc es =
      Inr (acc @ map (\<lambda>(a, e). (a, entry_resource e)) es)"
    if "\<forall>(a, e) \<in> set es. resource_of_entry e = Inr (entry_resource e)"
    for acc and es :: "(address, ('p, 'b) snapshot_entry) dict"
    using that by (induction es arbitrary: acc) auto
  moreover have "\<forall>(a, e) \<in> set es. resource_of_entry e = Inr (entry_resource e)"
    using assms by (auto simp: snapshot_ok_def intro!: resource_of_entry_ok)
  ultimately have run: "delete_order es = lift_planner (resource_delete_order rs)"
    by (simp add: delete_order_def rs_def)
  have ok: "resources_ok rs"
    using snapshot_ok_resources [OF assms] unfolding resources_ok_def rs_def dkeys_map_value .
  obtain xs where xs: "resource_topological_order rs = Inr xs" "distinct xs" "set xs = set (dkeys rs)"
    using resource.order_total [OF ok] by blast
  have "delete_order es = Inr (rev xs)"
    by (simp add: run resource_delete_order_def xs(1) lift_planner_def)
  moreover have "precedes (rev xs) n d"
    if "(n, d) \<in> (resource_depends ORDERING es)\<^sup>+" "\<not> blocked_by (resource_depends ORDERING es) n" for n d
    using resource.teardown_transitive [OF ok xs(1)] that
    unfolding rs_def resource_depends_entries by blast
  moreover have "set (rev xs) = set (dkeys es)"
    unfolding set_rev xs(3) rs_def dkeys_map_value ..
  ultimately show ?thesis using xs(2) by (metis distinct_rev)
qed





section \<open>Apply and delete operations\<close>

definition apply_op ::
    "bool \<Rightarrow> (address, ('p, 'b) planned_resource) dict \<Rightarrow> (address, reconciliation_action) dict \<Rightarrow>
       address \<Rightarrow> ('p, 'b) plan_operation" where
  "apply_op wb rs acts a =
     (let r = the (dget rs a) in
      \<lparr>ordering_dependencies = ordering_dependencies r, refresh_dependencies = refresh_dependencies r,
       op_action = the (dget acts a), op_address = a, op_kind = resource_kind r,
       op_payload = resource_payload r, op_bindings = (if wb then resource_bindings r else [])\<rparr>)"

definition delete_op :: "(address, ('p, 'b) snapshot_entry) dict \<Rightarrow> address \<Rightarrow> ('p, 'b) plan_operation" where
  "delete_op es a =
     (let e = the (dget es a) in
      \<lparr>ordering_dependencies = ordering_dependencies e, refresh_dependencies = refresh_dependencies e,
       op_action = DELETE, op_address = a, op_kind = entry_kind e,
       op_payload = entry_payload e, op_bindings = []\<rparr>)"

lemma op_fields [simp]:
  "op_address (apply_op wb rs acts a) = a" "op_address (delete_op es a) = a"
  "op_action (apply_op wb rs acts a) = the (dget acts a)" "op_action (delete_op es a) = DELETE"
  "op_kind (apply_op wb rs acts a) = resource_kind (the (dget rs a))"
  "op_kind (delete_op es a) = entry_kind (the (dget es a))"
  by (simp_all add: apply_op_def delete_op_def Let_def)

lemma map_op_address [simp]:
  "map (op_address \<circ> apply_op wb rs acts) xs = xs" "map (op_address \<circ> delete_op es) xs = xs"
  by (simp_all add: map_idI)

lemma require_dependencies_same:
  "ordering_dependencies r = ordering_dependencies s \<Longrightarrow> refresh_dependencies r = refresh_dependencies s \<Longrightarrow>
     require_dependencies r = require_dependencies s"
  by (simp add: require_dependencies_def)

lemma apply_operation_ok:
  assumes "model_ok rs" and "a \<in> set (dkeys rs)" and "dget acts a \<noteq> None"
  shows "apply_operation wb rs acts a = Inr (apply_op wb rs acts a)"
proof -
  from assms(2,3) obtain r act where ra: "dget rs a = Some r" "dget acts a = Some act"
    unfolding dkeys_iff_dget by blast
  note r = model_okD [OF assms(1) ra(1)]
  have "require_dependencies (apply_op wb rs acts a) = Inr ()"
    using r(2) by (subst require_dependencies_same [of _ r]) (simp_all add: apply_op_def Let_def ra)
  then show ?thesis
    using ra r(4) by (simp add: apply_operation_def make_plan_operation_Inr apply_op_def Let_def)
qed

lemma delete_operation_ok:
  assumes "snapshot_ok es" and "a \<in> set (dkeys es)"
  shows "delete_operation es a = Inr (delete_op es a)"
proof -
  from assms(2) obtain e where e: "dget es a = Some e" by (metis dget_None_iff not_None_eq)
  note ok = snapshot_okD [OF assms(1) e]
  have "require_dependencies (delete_op es a) = Inr ()"
    using ok(2) by (subst require_dependencies_same [of _ e]) (simp_all add: delete_op_def Let_def e)
  then show ?thesis
    using e ok(4) by (simp add: delete_operation_def make_plan_operation_Inr delete_op_def Let_def)
qed

section \<open>Phase plans\<close>

lemma validate_plan_ok:
  assumes "model_ok rs" and "\<And>a r. dget rs a = Some r \<Longrightarrow> resource_domain r = d" and "d \<noteq> PARTICIPANT"
    and "distinct (map op_address ops)" and "\<And>p. p \<in> set ops \<Longrightarrow> placed_in d (op_address p) (op_kind p)"
    and "\<And>xs. startup = Some xs \<Longrightarrow> distinct xs \<and> set xs \<subseteq> set (map op_address ops)
          \<and> (\<forall>a \<in> set xs. compiled_address a)"
  shows "validate_plan_addresses d rs ops startup = Inr ()"
proof -
  have "validate_plan_resource d p = Inr ()" if "p \<in> set rs" for p
  proof -
    obtain a r where p: "p = (a, r)" by (cases p)
    have "dget rs a = Some r" using assms(1) that p by (simp add: model_ok_def)
    from model_okD [OF assms(1) this] assms(2) [OF this] assms(3) show ?thesis
      by (simp add: p validate_plan_resource_def placed_in_def require_address_Inr ebind_eq_Inr require_eq_Inr)
  qed
  moreover have "require_plan_operation_identity d (op_address p) (op_kind p) = Inr ()" if "p \<in> set ops" for p
    using assms(5) [OF that] by (simp add: placed_in_def)
  ultimately show ?thesis
    using assms(4,6) by (cases startup) (simp_all add: validate_plan_addresses_def errs)
qed

lemma stale_entries_ok:
  "snapshot_ok es \<Longrightarrow> snapshot_ok (filter (\<lambda>(a, e). a \<notin> set (dkeys rs)) es)"
  by (rule snapshot_ok_filter)

lemma dkeys_domain_sub: "set (dkeys (domain_resources d rs)) \<subseteq> set (dkeys rs)"
  "set (dkeys (domain_entries d es)) \<subseteq> set (dkeys es)"
  by (auto simp: domain_resources_def domain_entries_def)

lemma apply_ops_placed:
  assumes "model_ok rs" and "d \<noteq> PARTICIPANT" and "a \<in> set (dkeys (domain_resources d rs))"
  shows "placed_in d a (op_kind (apply_op wb (domain_resources d rs) acts a))"
proof -
  have ok: "model_ok (domain_resources d rs)"
    unfolding domain_resources_def using assms(1) by (rule model_ok_filter)
  from assms(3) obtain r where r: "dget (domain_resources d rs) a = Some r"
    unfolding dkeys_iff_dget by blast
  with model_okD(3) [OF ok r] domain_resources_domain [OF r] assms(2) show ?thesis by simp
qed

lemma delete_ops_placed:
  assumes "snapshot_ok es" and "d \<noteq> PARTICIPANT" and "a \<in> set (dkeys (domain_entries d es))"
  shows "placed_in d a (op_kind (delete_op es a))"
proof -
  from assms(3) obtain e where e: "dget (domain_entries d es) a = Some e"
    unfolding dkeys_iff_dget by blast
  have "dict_ok es" using assms(1) by (simp only: snapshot_ok_def)
  then have "dget es a = Some e" using e unfolding domain_entries_def by (rule dget_filter_sub)
  with snapshot_okD(3) [OF assms(1) this] domain_entries_domain [OF e] assms(2) show ?thesis by simp
qed

lemma phase_operations_ok:
  fixes rs :: "(address, ('p, 'b) planned_resource) dict"
  assumes rs: "model_ok rs" and es: "snapshot_ok deleted" and d: "d \<noteq> PARTICIPANT"
    and sep: "set (dkeys rs) \<inter> set (dkeys deleted) = {}"
    and acts: "\<And>a. a \<in> set (dkeys rs) \<Longrightarrow> dget acts a \<noteq> None"
  obtains order teardown where
    "resource_topological_order (domain_resources d rs) = Inr order"
    "distinct order" "set order = set (dkeys (domain_resources d rs))"
    "delete_order (domain_entries d deleted) = Inr teardown"
    "distinct teardown" "set teardown = set (dkeys (domain_entries d deleted))"
    "collect (apply_operation wb (domain_resources d rs) acts) order
       = Inr (map (apply_op wb (domain_resources d rs) acts) order)"
    "collect (delete_operation deleted) teardown = Inr (map (delete_op deleted) teardown)"
    "\<And>startup. startup = None \<or> startup = Some order \<Longrightarrow>
       validate_plan_addresses d (domain_resources d rs)
        (map (apply_op wb (domain_resources d rs) acts) order @ map (delete_op deleted) teardown)
        startup = Inr ()"
proof -
  let ?rs = "domain_resources d rs" and ?es = "domain_entries d deleted"
  have rok: "model_ok ?rs" unfolding domain_resources_def using rs by (rule model_ok_filter)
  have eok: "snapshot_ok ?es" unfolding domain_entries_def using es by (rule snapshot_ok_filter)
  obtain order where order: "resource_topological_order ?rs = Inr order" "distinct order"
    "set order = set (dkeys ?rs)"
    using resource.order_total [OF model_ok_resources [OF rok]] by blast
  obtain teardown where td: "delete_order ?es = Inr teardown" "distinct teardown"
    "set teardown = set (dkeys ?es)"
    using delete_order_ok [OF eok] by blast
  have ap: "collect (apply_operation wb ?rs acts) order = Inr (map (apply_op wb ?rs acts) order)"
  proof (rule collect_ok)
    fix a assume "a \<in> set order"
    then have "a \<in> set (dkeys ?rs)" unfolding order(3) .
    moreover then have "dget acts a \<noteq> None" using dkeys_domain_sub(1) acts by blast
    ultimately show "apply_operation wb ?rs acts a = Inr (apply_op wb ?rs acts a)"
      using rok by (intro apply_operation_ok)
  qed
  have de: "collect (delete_operation deleted) teardown = Inr (map (delete_op deleted) teardown)"
  proof (rule collect_ok)
    fix a assume "a \<in> set teardown"
    then have "a \<in> set (dkeys deleted)" unfolding td(3) using dkeys_domain_sub(2) by blast
    then show "delete_operation deleted a = Inr (delete_op deleted a)"
      using es by (intro delete_operation_ok)
  qed
  let ?ops = "map (apply_op wb ?rs acts) order @ map (delete_op deleted) teardown"
  have addrs: "map op_address ?ops = order @ teardown" by simp
  have "set order \<inter> set teardown = {}"
    unfolding order(3) td(3) using sep dkeys_domain_sub by blast
  then have dist: "distinct (map op_address ?ops)"
    unfolding addrs using order(2) td(2) by simp
  have placed: "placed_in d (op_address p) (op_kind p)" if "p \<in> set ?ops" for p
  proof -
    from that consider a where "p = apply_op wb ?rs acts a" "a \<in> set (dkeys ?rs)"
      | a where "p = delete_op deleted a" "a \<in> set (dkeys ?es)"
      unfolding set_append set_map order(3) td(3) by blast
    then show ?thesis
      using apply_ops_placed [OF rs d] delete_ops_placed [OF es d] by cases (metis op_fields(1,2))+
  qed
  have can: "\<forall>a \<in> set order. compiled_address a"
    using model_ok_resources [OF rok] unfolding resources_ok_def order(3) by blast
  have "validate_plan_addresses d ?rs ?ops startup = Inr ()" if "startup = None \<or> startup = Some order" for startup
  proof (rule validate_plan_ok [OF rok domain_resources_domain d dist placed])
    fix xs assume "startup = Some xs"
    with that have "xs = order" by simp
    then show "distinct xs \<and> set xs \<subseteq> set (map op_address ?ops) \<and> (\<forall>a \<in> set xs. compiled_address a)"
      unfolding addrs using order(2) can by simp
  qed
  with that order td ap de show thesis by blast
qed

definition phase_of_plan where
  "phase_of_plan d rs acts deleted order teardown =
     \<lparr>plan_resources = domain_resources d rs,
      plan_operations = map (apply_op False (domain_resources d rs) acts) order
        @ map (delete_op deleted) teardown,
      plan_startup_order = order\<rparr>"

lemma build_phase_ok:
  assumes "model_ok rs" and "snapshot_ok es" and "d \<noteq> PARTICIPANT"
    and "build_operations pm rs es = Inr (acts, deleted)"
  shows "\<exists>order teardown. build_phase d rs acts deleted = Inr (phase_of_plan d rs acts deleted order teardown)
    \<and> resource_topological_order (domain_resources d rs) = Inr order
    \<and> delete_order (domain_entries d deleted) = Inr teardown
    \<and> snapshot_ok (domain_entries d deleted) \<and> model_ok (domain_resources d rs)"
proof -
  have rok: "dict_ok rs" "canonical_keys rs"
    using model_ok_resources [OF assms(1)] unfolding resources_ok_def by blast+
  have eok: "dict_ok es" using assms(2) by (simp add: snapshot_ok_def)
  obtain acts' where r: "reconcile_resource_actions rs es semantics_of (entry_matches_resource pm)
      = Inr (acts', filter (\<lambda>(a, e). a \<notin> set (dkeys rs)) es)"
    "dkeys acts' = dkeys rs @ dkeys (filter (\<lambda>(a, e). a \<notin> set (dkeys rs)) es)"
    using reconcile_spec [OF rok eok] by blast
  then have eq: "acts = acts'" "deleted = filter (\<lambda>(a, e). a \<notin> set (dkeys rs)) es"
    using assms(4) by (simp_all add: build_operations_def lift_planner_def)
  have sep: "set (dkeys rs) \<inter> set (dkeys deleted) = {}"
    unfolding eq(2) by force
  have cov: "dget acts a \<noteq> None" if "a \<in> set (dkeys rs)" for a
    using that r(2) unfolding eq(1) dget_None_iff by simp
  have dok: "snapshot_ok deleted" unfolding eq(2) using assms(2) by (rule snapshot_ok_filter)
  obtain order teardown where p:
    "resource_topological_order (domain_resources d rs) = Inr order"
    "delete_order (domain_entries d deleted) = Inr teardown"
    "collect (apply_operation False (domain_resources d rs) acts) order
       = Inr (map (apply_op False (domain_resources d rs) acts) order)"
    "collect (delete_operation deleted) teardown = Inr (map (delete_op deleted) teardown)"
    "validate_plan_addresses d (domain_resources d rs)
        (map (apply_op False (domain_resources d rs) acts) order @ map (delete_op deleted) teardown)
        (Some order) = Inr ()"
    by (rule phase_operations_ok [OF assms(1) dok assms(3) sep cov, where wb = False]) blast+
  have "build_phase d rs acts deleted = Inr (phase_of_plan d rs acts deleted order teardown)"
    using p by (simp add: build_phase_def phase_of_plan_def lift_planner_def Let_def)
  moreover have "snapshot_ok (domain_entries d deleted)" "model_ok (domain_resources d rs)"
    unfolding domain_entries_def domain_resources_def
    using dok assms(1) by (intro snapshot_ok_filter model_ok_filter; simp)+
  ultimately show ?thesis using p by blast
qed




lemma reconcile_all_matching:
  assumes "dict_ok rs" and "canonical_keys rs" and "dict_ok es"
    and "set (dkeys es) = set (dkeys rs)"
    and "\<And>a r e. dget rs a = Some r \<Longrightarrow> dget es a = Some e \<Longrightarrow> matches e r"
  shows "\<exists>acts. reconcile_resource_actions rs es sem matches = Inr (acts, [])
    \<and> (\<forall>a. dget acts a = map_option (\<lambda>_. UNCHANGED) (dget rs a))"
proof -
  obtain acts where acts: "reconcile_resource_actions rs es sem matches
      = Inr (acts, filter (\<lambda>(a, e). a \<notin> set (dkeys rs)) es)"
    "\<And>a. dget acts a = reconciled_action rs es sem matches a"
    using reconcile_spec [OF assms(1-3)] by blast
  have none: "filter (\<lambda>(a, e). a \<notin> set (dkeys rs)) es = []"
    using assms(4) by (force simp: filter_empty_conv)
  have un: "\<not> drifted rs es matches a" for a
  proof
    assume "drifted rs es matches a"
    then obtain r where r: "dget rs a = Some r" and e: "\<forall>e. dget es a = Some e \<longrightarrow> \<not> matches e r"
      unfolding drifted_def by blast
    have "a \<in> set (dkeys es)" using r unfolding assms(4) by (rule dget_Some_key)
    then obtain e' where "dget es a = Some e'" unfolding dkeys_iff_dget by blast
    with assms(5) [OF r this] e show False by blast
  qed
  have "reconciled_action rs es sem matches a = map_option (\<lambda>_. UNCHANGED) (dget rs a)" for a
    using un dget_None_iff [of es a] dget_None_iff [of rs a] unfolding assms(4)
    by (auto simp: reconciled_action_def)
  with acts none show ?thesis by simp
qed

section \<open>Properties\<close>

text \<open>A small model and a stale snapshot, for the witnesses.\<close>

definition example_resource ::
    "address \<Rightarrow> runtime_domain \<Rightarrow> string \<Rightarrow> nat \<Rightarrow> address list \<Rightarrow> address list \<Rightarrow> (nat, nat) planned_resource" where
  "example_resource a d t p os rs =
     \<lparr>ordering_dependencies = os, refresh_dependencies = rs, resource_address = a,
      resource_domain = d, resource_kind = t, resource_payload = p, resource_bindings = []\<rparr>"

definition example_entry ::
    "address \<Rightarrow> runtime_domain \<Rightarrow> string \<Rightarrow> nat \<Rightarrow> address list \<Rightarrow> address list \<Rightarrow> (nat, nat) snapshot_entry" where
  "example_entry a d t p os rs =
     \<lparr>ordering_dependencies = os, refresh_dependencies = rs, entry_address = a,
      entry_domain = d, entry_kind = t, entry_payload = p, entry_status = ''ready'', entry_bindings = []\<rparr>"

definition example_model :: "(address, (nat, nat) planned_resource) dict" where
  "example_model =
     map (\<lambda>r. (resource_address r, r))
      [example_resource ''orchestration.story'' ORCHESTRATION ''story'' 1
         [''orchestration.script''] [''orchestration.script''],
       example_resource ''orchestration.script'' ORCHESTRATION ''script'' 2
         [''orchestration.event''] [''orchestration.event''],
       example_resource ''orchestration.event'' ORCHESTRATION ''event'' 3 [] []]"

definition example_snapshot :: "(address, (nat, nat) snapshot_entry) dict" where
  "example_snapshot =
     map (\<lambda>e. (entry_address e, e))
      [example_entry ''orchestration.story'' ORCHESTRATION ''story'' 1
         [''orchestration.script''] [''orchestration.script''],
       example_entry ''orchestration.event'' ORCHESTRATION ''event'' 4 [] [],
       example_entry ''orchestration.base'' ORCHESTRATION ''event'' 5 [] [],
       example_entry ''orchestration.old'' ORCHESTRATION ''inject'' 6 [''orchestration.base''] []]"

lemma example_ok: "model_ok example_model" "snapshot_ok example_snapshot"
  "resources_ok example_model" "resources_ok example_snapshot"
  by code_simp+

text \<open>The ordering of resources succeeds for every map with canonical addresses, lists every
  resource once, and puts a resource after everything it transitively depends on, unless it
  depends on a cycle.\<close>

theorem resource_order_correct:
  assumes "resources_ok rs"
  shows "\<exists>xs. resource_topological_order rs = Inr xs \<and> distinct xs \<and> set xs = set (dkeys rs)
    \<and> (\<forall>n d. (n, d) \<in> (resource_depends ORDERING rs)\<^sup>+ \<and> \<not> blocked_by (resource_depends ORDERING rs) n
          \<longrightarrow> precedes xs d n)"
  using resource.order_total [OF assms] resource.order_transitive [OF assms] by blast

theorem resource_order_correct_witness:
  "\<exists>xs. resource_topological_order example_model = Inr xs \<and> distinct xs
    \<and> set xs = set (dkeys example_model)
    \<and> (\<forall>n d. (n, d) \<in> (resource_depends ORDERING example_model)\<^sup>+
          \<and> \<not> blocked_by (resource_depends ORDERING example_model) n \<longrightarrow> precedes xs d n)"
  by (rule resource_order_correct [OF example_ok(3)])

text \<open>The teardown order of snapshot entries lists every entry once and puts each entry before
  everything it transitively depends on, unless it depends on a cycle.\<close>

theorem teardown_order_correct:
  assumes "snapshot_ok es"
  shows "\<exists>xs. delete_order es = Inr xs \<and> distinct xs \<and> set xs = set (dkeys es)
    \<and> (\<forall>n d. (n, d) \<in> (resource_depends ORDERING es)\<^sup>+ \<longrightarrow> \<not> blocked_by (resource_depends ORDERING es) n
          \<longrightarrow> precedes xs n d)"
  using assms by (rule delete_order_ok)

theorem teardown_order_correct_witness:
  "\<exists>xs. delete_order example_snapshot = Inr xs \<and> distinct xs \<and> set xs = set (dkeys example_snapshot)
    \<and> (\<forall>n d. (n, d) \<in> (resource_depends ORDERING example_snapshot)\<^sup>+ \<longrightarrow>
          \<not> blocked_by (resource_depends ORDERING example_snapshot) n \<longrightarrow> precedes xs n d)"
  by (rule teardown_order_correct [OF example_ok(2)])

text \<open>C2: the resources that must refresh are exactly the unchanged ones that reach a changed
  resource through refresh dependencies, each listed once.\<close>

theorem refresh_impacted_exact:
  assumes "resources_ok rs" and "\<forall>a \<in> set changed. compiled_address a"
  shows "\<exists>imp. refresh_impacted_nodes rs changed = Inr imp \<and> distinct imp
    \<and> set imp = {a. a \<notin> set changed \<and> (\<exists>c \<in> set changed. (a, c) \<in> (resource_depends REFRESH rs)\<^sup>+)}"
  using refresh_impacted_spec [OF assms(1)] assms(2) by blast

theorem refresh_impacted_exact_witness:
  "(\<exists>imp. refresh_impacted_nodes example_model [''orchestration.event''] = Inr imp \<and> distinct imp
    \<and> set imp = {a. a \<notin> set [''orchestration.event''] \<and> (\<exists>c \<in> set [''orchestration.event''].
          (a, c) \<in> (resource_depends REFRESH example_model)\<^sup>+)})
    \<and> refresh_impacted_nodes example_model [''orchestration.event'']
        = Inr [''orchestration.script'', ''orchestration.story'']"
proof (rule conjI)
  have "\<forall>a \<in> set [''orchestration.event'']. compiled_address a" by code_simp
  then show "\<exists>imp. refresh_impacted_nodes example_model [''orchestration.event''] = Inr imp \<and> distinct imp
    \<and> set imp = {a. a \<notin> set [''orchestration.event''] \<and> (\<exists>c \<in> set [''orchestration.event''].
          (a, c) \<in> (resource_depends REFRESH example_model)\<^sup>+)}"
    by (rule refresh_impacted_exact [OF example_ok(3)])
qed code_simp

text \<open>C1: reconciliation meets its specification: it creates what the snapshot lacks, deletes what
  the model lacks, updates what differs or transitively refreshes, and leaves the rest; the
  stale entries it returns are those whose address the model does not have.\<close>

theorem reconcile_meets_specification:
  assumes "dict_ok rs" and "\<forall>a \<in> set (dkeys rs). compiled_address a" and "dict_ok es"
  shows "\<exists>acts. reconcile_resource_actions rs es sem matches
      = Inr (acts, filter (\<lambda>(a, e). a \<notin> set (dkeys rs)) es)
    \<and> (\<forall>a. dget acts a = reconciled_action rs es sem matches a)"
  using reconcile_spec [OF assms] by blast

theorem reconcile_meets_specification_witness:
  "\<exists>acts. reconcile_resource_actions example_model example_snapshot semantics_of
        (entry_matches_resource (\<lambda>_. (=)))
      = Inr (acts, filter (\<lambda>(a, e). a \<notin> set (dkeys example_model)) example_snapshot)
    \<and> (\<forall>a. dget acts a
        = reconciled_action example_model example_snapshot semantics_of (entry_matches_resource (\<lambda>_. (=))) a)"
  by (rule reconcile_meets_specification) code_simp+



lemma example_operations:
  "build_operations (\<lambda>_. (=)) example_model example_snapshot =
     Inr ([(''orchestration.story'', UPDATE), (''orchestration.script'', CREATE),
           (''orchestration.event'', UPDATE), (''orchestration.base'', DELETE),
           (''orchestration.old'', DELETE)], drop 2 example_snapshot)"
  by code_simp

text \<open>Planning is idempotent: when the snapshot holds exactly the resources of the model and
  each entry matches, the plan of every domain has no actionable operation.\<close>

theorem matching_snapshot_plans_nothing:
  assumes "model_ok rs" and "snapshot_ok es" and "d \<noteq> PARTICIPANT"
    and "set (dkeys es) = set (dkeys rs)"
    and "\<forall>a r e. dget rs a = Some r \<and> dget es a = Some e \<longrightarrow> entry_matches_resource pm e r"
  shows "\<exists>acts plan. build_operations pm rs es = Inr (acts, []) \<and> build_phase d rs acts [] = Inr plan
    \<and> actionable_operations plan = []"
proof -
  have ok: "dict_ok rs" "canonical_keys rs" "dict_ok es"
    using assms(1,2) model_ok_resources unfolding resources_ok_def snapshot_ok_def by blast+
  obtain acts where acts: "build_operations pm rs es = Inr (acts, [])"
    "\<And>a. dget acts a = map_option (\<lambda>_. UNCHANGED) (dget rs a)"
    using reconcile_all_matching [OF ok assms(4), of "entry_matches_resource pm" semantics_of] assms(5)
    by (auto simp: build_operations_def lift_planner_def)
  obtain order teardown where plan:
    "build_phase d rs acts [] = Inr (phase_of_plan d rs acts [] order teardown)"
    "resource_topological_order (domain_resources d rs) = Inr order"
    "delete_order (domain_entries d ([] :: (address, ('a, 'b) snapshot_entry) dict)) = Inr teardown"
    "snapshot_ok (domain_entries d ([] :: (address, ('a, 'b) snapshot_entry) dict))"
    "model_ok (domain_resources d rs)"
    using build_phase_ok [OF assms(1-3) acts(1)] by blast
  have "set teardown = {}"
    using delete_order_ok [OF plan(4)] plan(3) by (simp add: domain_entries_def)
  moreover have "the (dget acts a) = UNCHANGED" if "a \<in> set order" for a
  proof -
    have "a \<in> set (dkeys (domain_resources d rs))"
      using resource.order_nodes [OF model_ok_resources [OF plan(5)] plan(2)] that by blast
    then have "a \<in> set (dkeys rs)" using dkeys_domain_sub(1) by blast
    then show ?thesis unfolding dkeys_iff_dget acts(2) by auto
  qed
  ultimately have "actionable_operations (phase_of_plan d rs acts [] order teardown) = []"
    by (auto simp: actionable_operations_def phase_of_plan_def filter_empty_conv)
  with acts(1) plan(1) show ?thesis by blast
qed

definition example_settled :: "(address, (nat, nat) snapshot_entry) dict" where
  "example_settled = map (\<lambda>(a, r). (a, example_entry a (resource_domain r) (resource_kind r)
     (resource_payload r) (ordering_dependencies r) (refresh_dependencies r))) example_model"

theorem matching_snapshot_plans_nothing_witness:
  "\<exists>acts plan. build_operations (\<lambda>_. (=)) example_model example_settled = Inr (acts, [])
    \<and> build_phase ORCHESTRATION example_model acts [] = Inr plan \<and> actionable_operations plan = []"
proof (rule matching_snapshot_plans_nothing [OF example_ok(1)])
  show "snapshot_ok example_settled" by code_simp
  show "set (dkeys example_settled) = set (dkeys example_model)"
    unfolding example_settled_def dkeys_map_value ..
  show "\<forall>a r e. dget example_model a = Some r \<and> dget example_settled a = Some e
      \<longrightarrow> entry_matches_resource (\<lambda>_. (=)) e r"
  proof (intro allI impI, elim conjE)
    fix a r e assume "dget example_model a = Some r" "dget example_settled a = Some e"
    moreover from this(1) have "resource_bindings r = []"
      by (auto simp: example_model_def example_resource_def split: if_splits)
    ultimately show "entry_matches_resource (\<lambda>_. (=)) e r"
      by (auto simp: example_settled_def dget_map_value entry_matches_resource_def example_entry_def)
  qed
qed simp

text \<open>The destroy plan of a well-formed snapshot is built, deletes every live provisioning entry
  exactly once and nothing else, and deletes an entry before everything it transitively depends
  on, unless it depends on a cycle.\<close>

theorem destroy_plan_correct:
  assumes "snapshot_ok es"
  shows "\<exists>plan. destroy_delete_plan es = Inr plan
    \<and> (let as = map op_address (plan_operations plan) in
         distinct as \<and> set as = {a. \<exists>e. dget es a = Some e \<and> entry_domain e = PROVISIONING}
         \<and> (\<forall>p \<in> set (plan_operations plan). op_action p = DELETE)
         \<and> (\<forall>n d. (n, d) \<in> (resource_depends ORDERING (domain_entries PROVISIONING es))\<^sup>+
              \<and> \<not> blocked_by (resource_depends ORDERING (domain_entries PROVISIONING es)) n
              \<longrightarrow> precedes as n d))"
proof -
  let ?live = "domain_entries PROVISIONING es"
  have ok: "snapshot_ok ?live" unfolding domain_entries_def using assms by (rule snapshot_ok_filter)
  obtain xs where xs: "delete_order ?live = Inr xs" "distinct xs" "set xs = set (dkeys ?live)"
    "\<forall>n d. (n, d) \<in> (resource_depends ORDERING ?live)\<^sup>+ \<longrightarrow>
       \<not> blocked_by (resource_depends ORDERING ?live) n \<longrightarrow> precedes xs n d"
    using delete_order_ok [OF ok] by blast
  have ops: "collect (delete_operation ?live) xs = Inr (map (delete_op ?live) xs)"
    using xs(3) by (intro collect_ok delete_operation_ok [OF ok]) simp
  have "domain_entries PROVISIONING ?live = ?live" by (auto simp: domain_entries_def)
  then have "placed_in PROVISIONING a (op_kind (delete_op ?live a))" if "a \<in> set xs" for a
    using delete_ops_placed [OF ok] that xs(3) by auto
  then have v: "validate_plan_addresses PROVISIONING ([] :: (address, ('a, 'b) planned_resource) dict)
      (map (delete_op ?live) xs) None = Inr ()"
    using xs(2) by (intro validate_plan_ok) (auto simp: model_ok_def)
  have keys: "set (dkeys ?live) = {a. \<exists>e. dget es a = Some e \<and> entry_domain e = PROVISIONING}"
    using assms by (force simp: domain_entries_def snapshot_ok_def)
  have "destroy_delete_plan es =
      Inr \<lparr>plan_resources = [], plan_operations = map (delete_op ?live) xs, plan_startup_order = []\<rparr>"
    using xs(1) ops v by (simp add: destroy_delete_plan_def Let_def)
  then show ?thesis
    using xs(2,4) xs(3) [unfolded keys] by (simp add: Let_def image_image)
qed

definition example_provisioned :: "(address, (nat, nat) snapshot_entry) dict" where
  "example_provisioned =
     map (\<lambda>e. (entry_address e, e))
      [example_entry ''provision.lan'' PROVISIONING ''network'' 1 [] [],
       example_entry ''provision.web'' PROVISIONING ''node'' 2 [''provision.db'', ''provision.lan''] [],
       example_entry ''provision.db'' PROVISIONING ''node'' 3 [''provision.lan''] [],
       example_entry ''orchestration.event'' ORCHESTRATION ''event'' 4 [] []]"

lemma example_provisioned_ok: "snapshot_ok example_provisioned"
  by code_simp

lemma example_destroy:
  "map_sum id (\<lambda>p. map op_address (plan_operations p)) (destroy_delete_plan example_provisioned) =
     Inr [''provision.web'', ''provision.db'', ''provision.lan'']"
  by code_simp

theorem destroy_plan_correct_witness:
  "\<exists>plan. destroy_delete_plan example_provisioned = Inr plan
    \<and> (let as = map op_address (plan_operations plan) in
         distinct as \<and> set as = {a. \<exists>e. dget example_provisioned a = Some e \<and> entry_domain e = PROVISIONING}
         \<and> (\<forall>p \<in> set (plan_operations plan). op_action p = DELETE)
         \<and> (\<forall>n d. (n, d) \<in> (resource_depends ORDERING (domain_entries PROVISIONING example_provisioned))\<^sup>+
              \<and> \<not> blocked_by (resource_depends ORDERING (domain_entries PROVISIONING example_provisioned)) n
              \<longrightarrow> precedes as n d))"
  by (rule destroy_plan_correct [OF example_provisioned_ok])

end
