(* ===== verification/GraphComponents.thy ===== *)
theory GraphComponents
  imports GraphOrder
begin

text \<open>
  Directed-graph mechanics (raes_contracts/graphs.py): the cyclic components, by the iterative traversal
  of the class \<open>_Tarjan\<close>.

  The stack and the frames of the traversal are kept with their top first; a frame holds a node and what
  its iterator has left. A lookup that Python answers with KeyError is \<open>UnknownNodeKey\<close>.
\<close>

record 'n tarjan =
  tj_index :: nat
  tj_indices :: "'n \<Rightarrow> nat option"
  tj_lowlinks :: "'n \<Rightarrow> nat option"
  tj_stack :: "'n list"
  tj_on_stack :: "'n set"
  tj_components :: "'n list list"

definition new_tarjan :: "'n tarjan" where
  "new_tarjan =
     \<lparr>tj_index = 0, tj_indices = (\<lambda>_. None), tj_lowlinks = (\<lambda>_. None), tj_stack = [], tj_on_stack = {}, tj_components = []\<rparr>"

definition tj_visit :: "'n \<Rightarrow> 'n tarjan \<Rightarrow> 'n tarjan" where
  "tj_visit n s =
     s\<lparr>tj_indices := (tj_indices s)(n \<mapsto> tj_index s), tj_lowlinks := (tj_lowlinks s)(n \<mapsto> tj_index s),
       tj_index := tj_index s + 1, tj_stack := n # tj_stack s, tj_on_stack := insert n (tj_on_stack s)\<rparr>"

text \<open>\<open>lowlinks[node] = min(lowlinks[node], bound)\<close>\<close>

definition lower_link :: "'n \<Rightarrow> nat option \<Rightarrow> 'n tarjan \<Rightarrow> graph_error + 'n tarjan" where
  "lower_link n bound s =
     (case (tj_lowlinks s n, bound) of
        (Some low, Some b) \<Rightarrow> Inr (s\<lparr>tj_lowlinks := (tj_lowlinks s)(n \<mapsto> min low b)\<rparr>)
      | _ \<Rightarrow> Inl UnknownNodeKey)"

text \<open>The next unvisited successor with what the iterator has left.\<close>

fun unvisited_successor ::
    "'n \<Rightarrow> 'n list \<Rightarrow> 'n tarjan \<Rightarrow> graph_error + ('n \<times> 'n list) option \<times> 'n tarjan" where
  "unvisited_successor n [] s = Inr (None, s)"
| "unvisited_successor n (w # ws) s =
     (if tj_indices s w = None then Inr (Some (w, ws), s)
      else if w \<in> tj_on_stack s then ebind (lower_link n (tj_indices s w) s) (\<lambda>s'. unvisited_successor n ws s')
      else unvisited_successor n ws s)"

text \<open>The loop that pops the members of a component, down to its root: the members, the stack and the
  set of its elements.\<close>

fun pop_component :: "'n \<Rightarrow> 'n list \<Rightarrow> 'n set \<Rightarrow> 'n list \<Rightarrow> graph_error + 'n list \<times> 'n list \<times> 'n set" where
  "pop_component n [] on component = Inr (component, [], on)"
| "pop_component n (member # stack) on component =
     (if member \<notin> on then Inl UnknownNodeKey
      else if member = n then Inr (component @ [member], stack, on - {member})
      else pop_component n stack (on - {member}) (component @ [member]))"

definition self_loop :: "('n, 'n list) dict \<Rightarrow> 'n \<Rightarrow> graph_error + bool" where
  "self_loop g n = (case dget g n of None \<Rightarrow> Inl UnknownNodeKey | Some ws \<Rightarrow> Inr (n \<in> set ws))"

text \<open>A component counts when it has more than one member or a self-loop.\<close>

definition component_counts :: "('n, 'n list) dict \<Rightarrow> 'n list \<Rightarrow> graph_error + bool" where
  "component_counts g component =
     (case component of
        [] \<Rightarrow> Inl EmptyComponent
      | first # _ \<Rightarrow> if 1 < length component then Inr True else self_loop g first)"

definition close_component ::
    "('n \<Rightarrow> 'k::linorder) \<Rightarrow> ('n, 'n list) dict \<Rightarrow> 'n \<Rightarrow> 'n tarjan \<Rightarrow> graph_error + 'n tarjan" where
  "close_component key g n s =
     ebind (pop_component n (tj_stack s) (tj_on_stack s) []) (\<lambda>(members, stack, on).
     ebind (component_counts g (sort_key key members)) (\<lambda>counts.
       Inr (s\<lparr>tj_stack := stack, tj_on_stack := on,
              tj_components := tj_components s @ (if counts then [sort_key key members] else [])\<rparr>)))"

type_synonym 'n frames = "('n \<times> 'n list) list"

text \<open>What follows when the iterator of the top frame is exhausted; the frame itself is gone.\<close>

definition finish_node ::
    "('n \<Rightarrow> 'k::linorder) \<Rightarrow> ('n, 'n list) dict \<Rightarrow> 'n \<Rightarrow> 'n frames \<Rightarrow> 'n tarjan \<Rightarrow> graph_error + 'n tarjan" where
  "finish_node key g n frames s =
     ebind (case frames of [] \<Rightarrow> Inr s | (parent, _) # _ \<Rightarrow> lower_link parent (tj_lowlinks s n) s) (\<lambda>s1.
       if tj_lowlinks s1 n = tj_indices s1 n then close_component key g n s1 else Inr s1)"

text \<open>The loop over the frames ends: every round visits a key of the graph or takes a frame away.\<close>

lemma lower_link_indices: "lower_link n b s = Inr s' \<Longrightarrow> tj_indices s' = tj_indices s"
  by (auto simp: lower_link_def split: option.splits)

lemma unvisited_successor_indices:
  "unvisited_successor n ws s = Inr (found, s') \<Longrightarrow>
     tj_indices s' = tj_indices s \<and> (\<forall>w rest. found = Some (w, rest) \<longrightarrow> tj_indices s w = None)"
proof (induction n ws s rule: unvisited_successor.induct)
  case (2 n w ws s)
  show ?case
  proof (cases "tj_indices s w \<noteq> None \<and> w \<in> tj_on_stack s")
    case True
    with 2(3) obtain s1 where s1: "lower_link n (tj_indices s w) s = Inr s1" "unvisited_successor n ws s1 = Inr (found, s')"
      by (auto simp: ebind_eq_Inr)
    with 2(1) [OF _ _ s1] True lower_link_indices [OF s1(1)] show ?thesis by simp
  next
    case False
    with 2(2,3) show ?thesis by (cases "tj_indices s w") auto
  qed
qed simp

lemma close_component_indices: "close_component key g n s = Inr s' \<Longrightarrow> tj_indices s' = tj_indices s"
  by (auto simp: close_component_def ebind_eq_Inr)

lemma finish_node_indices: "finish_node key g n fs s = Inr s' \<Longrightarrow> tj_indices s' = tj_indices s"
  by (cases fs) (auto simp: finish_node_def ebind_eq_Inr split: if_splits
      dest!: lower_link_indices close_component_indices)

definition unvisited_keys :: "('n, 'n list) dict \<Rightarrow> 'n tarjan \<Rightarrow> nat" where
  "unvisited_keys g s = card {n \<in> set (dkeys g). tj_indices s n = None}"

lemma unvisited_keys_visit:
  assumes "dget g w = Some ws" and "tj_indices s w = None"
  shows "Suc (unvisited_keys g (tj_visit w s)) = unvisited_keys g s"
proof -
  let ?A = "{n \<in> set (dkeys g). tj_indices s n = None}"
  have "w \<in> ?A" using assms dget_Some_key [OF assms(1)] by simp
  moreover have "{n \<in> set (dkeys g). tj_indices (tj_visit w s) n = None} = ?A - {w}" by (auto simp: tj_visit_def)
  moreover have "finite ?A" by simp
  ultimately show ?thesis unfolding unvisited_keys_def using card_Suc_Diff1 [of ?A w] by presburger
qed

function connect ::
    "('n \<Rightarrow> 'k::linorder) \<Rightarrow> ('n, 'n list) dict \<Rightarrow> 'n frames \<Rightarrow> 'n tarjan \<Rightarrow> graph_error + 'n tarjan" where
  "connect key g [] s = Inr s"
| "connect key g ((n, ws) # frames) s =
     ebind (unvisited_successor n ws s) (\<lambda>(found, s1).
       case found of
         Some (w, rest) \<Rightarrow>
           (case dget g w of
              None \<Rightarrow> Inl UnknownNodeKey
            | Some us \<Rightarrow> connect key g ((w, us) # (n, rest) # frames) (tj_visit w s1))
       | None \<Rightarrow> ebind (finish_node key g n frames s1) (connect key g frames))"
  by pat_completeness auto
termination
proof (relation "measure (\<lambda>(key, g, frames, s). 2 * unvisited_keys g s + length frames)", goal_cases)
  case (3 key g n ws frames s x found s1 y w rest us)
  then have "tj_indices s1 = tj_indices s" "tj_indices s w = None"
    using unvisited_successor_indices [of n ws s] by auto
  then have "Suc (unvisited_keys g (tj_visit w s1)) = unvisited_keys g s1" "unvisited_keys g s1 = unvisited_keys g s"
    using 3 unvisited_keys_visit [of g w us s1] by (auto simp: unvisited_keys_def)
  then show ?case by simp
next
  case (2 key g n ws frames s x found s1 s2)
  then have "tj_indices s2 = tj_indices s"
    using unvisited_successor_indices [of n ws s] finish_node_indices [of key g n frames s1 s2] by auto
  then show ?case by (simp add: unvisited_keys_def)
qed simp

definition strongconnect ::
    "('n \<Rightarrow> 'k::linorder) \<Rightarrow> ('n, 'n list) dict \<Rightarrow> 'n \<Rightarrow> 'n tarjan \<Rightarrow> graph_error + 'n tarjan" where
  "strongconnect key g root s =
     (case dget g root of
        None \<Rightarrow> Inl UnknownNodeKey
      | Some ws \<Rightarrow> connect key g [(root, ws)] (tj_visit root s))"

definition cyclic_components ::
    "('n \<Rightarrow> 'k::linorder) \<Rightarrow> ('n, 'n list) dict \<Rightarrow> graph_error + 'n list list" where
  "cyclic_components key g =
     ebind (efold (\<lambda>s n. if tj_indices s n = None then strongconnect key g n s else Inr s) new_tarjan
       (sort_key key (dkeys g))) (\<lambda>s.
       Inr (sort_key (map key) (tj_components s)))"

end
