(* ===== verification/ComponentProofs.thy ===== *)
theory ComponentProofs
  imports GraphComponents
begin

text \<open>
  Correctness of the iterative traversal: \<open>cyclic_components\<close> returns, and it returns exactly the strongly
  connected components that contain a cycle, each once, in key order.

  The stack falls into one segment per frame: the node of the frame, and above it the visited nodes of
  its finished subtrees that still wait for their root.
\<close>

definition strong_component :: "('n \<times> 'n) set \<Rightarrow> 'n \<Rightarrow> 'n set" where
  "strong_component r n = {m. (n, m) \<in> r\<^sup>* \<and> (m, n) \<in> r\<^sup>*}"

lemma strong_component_self [simp]: "n \<in> strong_component r n"
  by (simp add: strong_component_def)

lemma strong_component_eq: "m \<in> strong_component r n \<Longrightarrow> strong_component r m = strong_component r n"
  by (auto simp: strong_component_def)

lemma strong_component_cyclic:
  assumes "m \<in> strong_component r n"
  shows "(m, m) \<in> r\<^sup>+ \<longleftrightarrow> (n, n) \<in> r\<^sup>+"
  using assms by (auto simp: strong_component_def intro: trancl_rtrancl_trancl rtrancl_trancl_trancl)

lemma rtrancl_closed: "(x, y) \<in> r\<^sup>* \<Longrightarrow> x \<in> A \<Longrightarrow> (\<And>a b. a \<in> A \<Longrightarrow> (a, b) \<in> r \<Longrightarrow> b \<in> A) \<Longrightarrow> y \<in> A"
  by (induction rule: rtrancl_induct) auto

section \<open>Segments of the stack\<close>

text \<open>The segment of a frame: the node \<open>n\<close>, the nodes \<open>xs\<close> above it, and the stack \<open>st\<close> below.\<close>

definition segment ::
    "('n \<times> 'n) set \<Rightarrow> ('n \<Rightarrow> nat) \<Rightarrow> ('n \<Rightarrow> nat) \<Rightarrow> 'n set \<Rightarrow> 'n \<Rightarrow> 'n list \<Rightarrow> 'n list \<Rightarrow> 'n list \<Rightarrow> bool" where
  "segment r idx low V n ws xs st \<longleftrightarrow>
     set ws \<subseteq> r `` {n}
     \<and> (\<forall>x \<in> set xs. (n, x) \<in> r\<^sup>* \<and> (\<exists>y \<in> insert n (set st). (x, y) \<in> r\<^sup>*))
     \<and> (\<exists>y \<in> insert n (set st). idx y = low n \<and> (n, y) \<in> r\<^sup>*)
     \<and> (\<forall>x \<in> insert n (set xs). \<forall>y. (x, y) \<in> r \<longrightarrow>
          x = n \<and> y \<in> set ws \<or> y \<in> V \<and> (y \<in> set st \<longrightarrow> low n \<le> idx y))"

lemma segmentD:
  assumes "segment r idx low V n ws xs st"
  shows "set ws \<subseteq> r `` {n}" "\<And>x. x \<in> set xs \<Longrightarrow> (n, x) \<in> r\<^sup>*"
    "\<And>x. x \<in> set xs \<Longrightarrow> \<exists>y \<in> insert n (set st). (x, y) \<in> r\<^sup>*"
    "\<exists>y \<in> insert n (set st). idx y = low n \<and> (n, y) \<in> r\<^sup>*"
    "\<And>x y. x \<in> insert n (set xs) \<Longrightarrow> (x, y) \<in> r \<Longrightarrow>
       x = n \<and> y \<in> set ws \<or> y \<in> V \<and> (y \<in> set st \<longrightarrow> low n \<le> idx y)"
  using assms unfolding segment_def by blast+

inductive frames_ok ::
    "('n \<times> 'n) set \<Rightarrow> ('n \<Rightarrow> nat) \<Rightarrow> ('n \<Rightarrow> nat) \<Rightarrow> 'n set \<Rightarrow> 'n frames \<Rightarrow> 'n list \<Rightarrow> bool"
  for r idx low V where
  no_frame: "frames_ok r idx low V [] []"
| frame: "frames_ok r idx low V ((n, ws) # fs) (xs @ n # st)"
    if "frames_ok r idx low V fs st" "segment r idx low V n ws xs st" "\<And>p us fs'. fs = (p, us) # fs' \<Longrightarrow> (p, n) \<in> r\<^sup>*"

inductive_cases frames_ok_Nil: "frames_ok r idx low V [] st"
inductive_cases frames_ok_Cons: "frames_ok r idx low V ((n, ws) # fs) st"

lemma segment_cong:
  assumes "segment r idx low V n ws xs st" and "\<forall>x \<in> insert n (set st). idx' x = idx x" and "low' n = low n" and "V \<subseteq> V'"
  shows "segment r idx' low' V' n ws xs st"
  using assms unfolding segment_def by (auto 0 4)

lemma frames_ok_cong:
  assumes "frames_ok r idx low V fs st" and "\<forall>x \<in> set st. idx' x = idx x \<and> low' x = low x" and "V \<subseteq> V'"
  shows "frames_ok r idx' low' V' fs st"
  using assms
proof induction
  case (frame fs st n ws xs)
  then show ?case by (intro frames_ok.frame segment_cong [OF frame(2)]) auto
qed (rule no_frame)

section \<open>The invariant\<close>

abbreviation tj_idx :: "'n tarjan \<Rightarrow> 'n \<Rightarrow> nat" where "tj_idx s n \<equiv> the (tj_indices s n)"
abbreviation tj_low :: "'n tarjan \<Rightarrow> 'n \<Rightarrow> nat" where "tj_low s n \<equiv> the (tj_lowlinks s n)"

text \<open>The nodes whose component is closed.\<close>

definition tj_closed :: "'n tarjan \<Rightarrow> 'n set" where
  "tj_closed s = dom (tj_indices s) - set (tj_stack s)"

definition components_ok :: "('n \<Rightarrow> 'k::linorder) \<Rightarrow> ('n \<times> 'n) set \<Rightarrow> 'n set \<Rightarrow> 'n list list \<Rightarrow> bool" where
  "components_ok key r A cs \<longleftrightarrow>
     distinct cs \<and> (\<forall>c \<in> set cs. distinct c \<and> sorted (map key c) \<and> c \<noteq> [] \<and> set c \<subseteq> A)
     \<and> set ` set cs = strong_component r ` {n \<in> A. (n, n) \<in> r\<^sup>+}"

definition stack_ok :: "('n, 'n list) dict \<Rightarrow> 'n tarjan \<Rightarrow> bool" where
  "stack_ok g s \<longleftrightarrow>
     sorted_wrt (\<lambda>x y. tj_idx s y < tj_idx s x) (tj_stack s)
     \<and> tj_on_stack s = set (tj_stack s) \<and> set (tj_stack s) \<subseteq> dom (tj_indices s)
     \<and> dom (tj_lowlinks s) = dom (tj_indices s) \<and> dom (tj_indices s) \<subseteq> set (dkeys g)
     \<and> (\<forall>x \<in> dom (tj_indices s). tj_idx s x < tj_index s)
     \<and> (\<forall>x y. (x, y) \<in> depends g \<longrightarrow> x \<in> tj_closed s \<longrightarrow> y \<in> tj_closed s)"

definition tarjan_inv :: "('n \<Rightarrow> 'k::linorder) \<Rightarrow> ('n, 'n list) dict \<Rightarrow> 'n tarjan \<Rightarrow> 'n frames \<Rightarrow> bool" where
  "tarjan_inv key g s fs \<longleftrightarrow>
     stack_ok g s \<and> components_ok key (depends g) (tj_closed s) (tj_components s)
     \<and> frames_ok (depends g) (tj_idx s) (tj_low s) (dom (tj_indices s)) fs (tj_stack s)"

lemma stack_split:
  assumes "stack_ok g s" and "tj_stack s = xs @ n # st"
  shows "\<forall>x \<in> set st. tj_idx s x < tj_idx s n" "\<forall>x \<in> set xs. tj_idx s n < tj_idx s x"
    "\<forall>x \<in> set xs. \<forall>y \<in> set st. tj_idx s y < tj_idx s x"
    "n \<notin> set xs" "n \<notin> set st" "set xs \<inter> set st = {}" "n \<in> dom (tj_indices s)"
    "set xs \<subseteq> dom (tj_indices s)" "set st \<subseteq> dom (tj_indices s)" "distinct xs"
proof -
  from assms have sorted: "sorted_wrt (\<lambda>x y. tj_idx s y < tj_idx s x) (xs @ n # st)" by (simp add: stack_ok_def)
  then show "\<forall>x \<in> set st. tj_idx s x < tj_idx s n" "\<forall>x \<in> set xs. tj_idx s n < tj_idx s x"
    "\<forall>x \<in> set xs. \<forall>y \<in> set st. tj_idx s y < tj_idx s x" "n \<notin> set xs" "n \<notin> set st" "set xs \<inter> set st = {}"
    by (auto simp: sorted_wrt_append)
  show "n \<in> dom (tj_indices s)" "set xs \<subseteq> dom (tj_indices s)" "set st \<subseteq> dom (tj_indices s)"
    using assms by (auto simp: stack_ok_def)
  have "sorted_wrt (\<lambda>x y. tj_idx s y < tj_idx s x) xs" using sorted by (simp add: sorted_wrt_append)
  then show "distinct xs" by (induction xs) auto
qed

section \<open>Visiting a node\<close>

lemma low_le_idx:
  assumes "stack_ok g s" and "tj_stack s = xs @ n # st" and "segment r (tj_idx s) low V n ws ys st"
  shows "low n \<le> tj_idx s n"
  using assms(3) stack_split(1) [OF assms(1,2)] unfolding segment_def by fastforce

lemma tj_visit_fields [simp]:
  "tj_indices (tj_visit n s) = (tj_indices s)(n \<mapsto> tj_index s)" "tj_lowlinks (tj_visit n s) = (tj_lowlinks s)(n \<mapsto> tj_index s)"
  "tj_index (tj_visit n s) = Suc (tj_index s)" "tj_stack (tj_visit n s) = n # tj_stack s"
  "tj_on_stack (tj_visit n s) = insert n (tj_on_stack s)" "tj_components (tj_visit n s) = tj_components s"
  by (simp_all add: tj_visit_def)

lemma stack_okD:
  assumes "stack_ok g s"
  shows "sorted_wrt (\<lambda>x y. tj_idx s y < tj_idx s x) (tj_stack s)" "tj_on_stack s = set (tj_stack s)"
    "set (tj_stack s) \<subseteq> dom (tj_indices s)" "dom (tj_lowlinks s) = dom (tj_indices s)"
    "dom (tj_indices s) \<subseteq> set (dkeys g)" "\<forall>x \<in> dom (tj_indices s). tj_idx s x < tj_index s"
    "\<And>x y. (x, y) \<in> depends g \<Longrightarrow> x \<in> tj_closed s \<Longrightarrow> y \<in> tj_closed s"
  using assms unfolding stack_ok_def by blast+

lemma stack_ok_visit:
  assumes "stack_ok g s" and "tj_indices s n = None" and "n \<in> set (dkeys g)"
  shows "stack_ok g (tj_visit n s)" "tj_closed (tj_visit n s) = tj_closed s"
proof -
  note ok = stack_okD [OF assms(1)]
  have new: "n \<notin> set (tj_stack s)" using ok(3) assms(2) by (auto simp: dom_def)
  then show closed: "tj_closed (tj_visit n s) = tj_closed s"
    using assms(2) by (auto simp: tj_closed_def dom_def)
  have "sorted_wrt (\<lambda>x y. tj_idx (tj_visit n s) y < tj_idx (tj_visit n s) x) (tj_stack s)"
    by (rule sorted_wrt_mono_rel [OF _ ok(1)]) (use new in auto)
  moreover have "\<forall>x \<in> set (tj_stack s). tj_idx s x < tj_index s" using ok(3,6) by blast
  ultimately have "sorted_wrt (\<lambda>x y. tj_idx (tj_visit n s) y < tj_idx (tj_visit n s) x) (tj_stack (tj_visit n s))"
    using new by auto
  moreover have "\<forall>x \<in> dom (tj_indices (tj_visit n s)). tj_idx (tj_visit n s) x < tj_index (tj_visit n s)"
    using ok(6) by (auto simp: less_Suc_eq)
  ultimately show "stack_ok g (tj_visit n s)"
    unfolding stack_ok_def closed using ok(2-5,7) assms(3) by auto
qed

lemma tarjan_inv_visit:
  assumes "stack_ok g s" and "components_ok key (depends g) (tj_closed s) (tj_components s)"
    and "tj_indices s n = None" and "n \<in> set (dkeys g)"
    and "frames_ok (depends g) (tj_idx s) (tj_low s) (insert n (dom (tj_indices s))) fs (tj_stack s)"
    and "\<And>p us fs'. fs = (p, us) # fs' \<Longrightarrow> (p, n) \<in> (depends g)\<^sup>*"
  shows "tarjan_inv key g (tj_visit n s) ((n, deps g n) # fs)"
proof -
  let ?s = "tj_visit n s"
  have new: "n \<notin> set (tj_stack s)" using stack_okD(3) [OF assms(1)] assms(3) by (auto simp: dom_def)
  have "frames_ok (depends g) (tj_idx ?s) (tj_low ?s) (dom (tj_indices ?s)) fs (tj_stack s)"
    using new by (intro frames_ok_cong [OF assms(5)]) auto
  moreover have "segment (depends g) (tj_idx ?s) (tj_low ?s) (dom (tj_indices ?s)) n (deps g n) [] (tj_stack s)"
    using assms(4) by (auto simp: segment_def depends_def)
  ultimately have "frames_ok (depends g) (tj_idx ?s) (tj_low ?s) (dom (tj_indices ?s)) ((n, deps g n) # fs) ([] @ n # tj_stack s)"
    using assms(6) by (intro frame)
  moreover have "tj_stack ?s = [] @ n # tj_stack s" "tj_components ?s = tj_components s" by simp_all
  ultimately show ?thesis
    unfolding tarjan_inv_def stack_ok_visit(2) [OF assms(1,3,4)] using stack_ok_visit(1) [OF assms(1,3,4)] assms(2) by simp
qed

section \<open>Following the successors\<close>

text \<open>A step of the iterator past a visited successor.\<close>

lemma segment_step:
  assumes seg: "segment r idx low V n (w # ws) xs st" and "w \<in> V" and "low' n \<le> low n"
    and "w \<in> set st \<Longrightarrow> low' n \<le> idx w"
    and "\<exists>y \<in> insert n (set st). idx y = low' n \<and> (n, y) \<in> r\<^sup>*"
  shows "segment r idx low' V n ws xs st"
proof -
  have "x = n \<and> y \<in> set ws \<or> y \<in> V \<and> (y \<in> set st \<longrightarrow> low' n \<le> idx y)"
    if "x \<in> insert n (set xs)" "(x, y) \<in> r" for x y
  proof (cases "y = w")
    case False
    with seg that have "x = n \<and> y \<in> set ws \<or> y \<in> V \<and> (y \<in> set st \<longrightarrow> low n \<le> idx y)"
      unfolding segment_def by (metis set_ConsD)
    with assms(3) show ?thesis by auto
  qed (use assms(2,4) in simp)
  then show ?thesis using seg assms(5) unfolding segment_def by simp
qed

lemma tarjan_inv_top:
  assumes "tarjan_inv key g s ((n, ws) # fs)"
  obtains xs st where "tj_stack s = xs @ n # st"
    "frames_ok (depends g) (tj_idx s) (tj_low s) (dom (tj_indices s)) fs st"
    "segment (depends g) (tj_idx s) (tj_low s) (dom (tj_indices s)) n ws xs st"
    "\<And>p us fs'. fs = (p, us) # fs' \<Longrightarrow> (p, n) \<in> (depends g)\<^sup>*"
  using assms by (auto simp: tarjan_inv_def elim!: frames_ok_Cons)

lemma tarjan_inv_skip:
  assumes inv: "tarjan_inv key g s ((n, w # ws) # fs)" and "w \<in> dom (tj_indices s)" and "w \<notin> tj_on_stack s"
  shows "tarjan_inv key g s ((n, ws) # fs)"
proof -
  from inv have stack: "stack_ok g s" by (simp add: tarjan_inv_def)
  from inv obtain xs st where split: "tj_stack s = xs @ n # st"
    and parts: "frames_ok (depends g) (tj_idx s) (tj_low s) (dom (tj_indices s)) fs st"
      "segment (depends g) (tj_idx s) (tj_low s) (dom (tj_indices s)) n (w # ws) xs st"
      "\<And>p us fs'. fs = (p, us) # fs' \<Longrightarrow> (p, n) \<in> (depends g)\<^sup>*"
    by (rule tarjan_inv_top) blast
  have "w \<notin> set st" using assms(3) split stack by (simp add: stack_ok_def)
  then have "segment (depends g) (tj_idx s) (tj_low s) (dom (tj_indices s)) n ws xs st"
    using parts(2) by (intro segment_step [OF parts(2) assms(2)]) (simp_all add: segment_def)
  from frame [OF parts(1) this parts(3)] show ?thesis using inv split by (simp add: tarjan_inv_def)
qed

lemma tarjan_inv_lower:
  assumes inv: "tarjan_inv key g s ((n, w # ws) # fs)" and w: "w \<in> tj_on_stack s"
  obtains s' where "lower_link n (tj_indices s w) s = Inr s'" "tarjan_inv key g s' ((n, ws) # fs)"
proof -
  from inv have stack: "stack_ok g s" by (simp add: tarjan_inv_def)
  from inv obtain xs st where split: "tj_stack s = xs @ n # st"
    and parts: "frames_ok (depends g) (tj_idx s) (tj_low s) (dom (tj_indices s)) fs st"
      "segment (depends g) (tj_idx s) (tj_low s) (dom (tj_indices s)) n (w # ws) xs st"
      "\<And>p us fs'. fs = (p, us) # fs' \<Longrightarrow> (p, n) \<in> (depends g)\<^sup>*"
    by (rule tarjan_inv_top) blast
  note below = stack_split [OF stack split]
  have visited: "w \<in> dom (tj_indices s)" "n \<in> dom (tj_lowlinks s)"
    using w stack below(7) by (auto simp: stack_ok_def)
  let ?low = "min (tj_low s n) (tj_idx s w)"
  let ?s = "s\<lparr>tj_lowlinks := (tj_lowlinks s)(n \<mapsto> ?low)\<rparr>"
  have run: "lower_link n (tj_indices s w) s = Inr ?s" using visited by (auto simp: lower_link_def)
  have "\<exists>y \<in> insert n (set st). tj_idx s y = ?low \<and> (n, y) \<in> (depends g)\<^sup>*"
  proof (cases "tj_low s n \<le> tj_idx s w")
    case False
    with low_le_idx [OF stack split parts(2)] have "tj_idx s w < tj_idx s n" by simp
    moreover have "w \<in> set xs \<union> insert n (set st)" using w split stack by (auto simp: stack_ok_def)
    ultimately have "w \<in> set st" using below(2) by fastforce
    moreover have "(n, w) \<in> depends g" using parts(2) by (simp add: segment_def)
    ultimately show ?thesis using False by auto
  qed (use parts(2) in \<open>simp add: segment_def min_def\<close>)
  then have "segment (depends g) (tj_idx ?s) (tj_low ?s) (dom (tj_indices ?s)) n ws xs st"
    using visited(1) by (simp, intro segment_step [OF parts(2)]) simp_all
  moreover have "frames_ok (depends g) (tj_idx ?s) (tj_low ?s) (dom (tj_indices ?s)) fs st"
    using below(5) by (intro frames_ok_cong [OF parts(1)]) auto
  ultimately have "frames_ok (depends g) (tj_idx ?s) (tj_low ?s) (dom (tj_indices ?s)) ((n, ws) # fs) (xs @ n # st)"
    using parts(3) by (intro frame)
  moreover have "stack_ok g ?s" "tj_closed ?s = tj_closed s"
    using stack visited(2) by (auto simp: stack_ok_def tj_closed_def)
  ultimately have "tarjan_inv key g ?s ((n, ws) # fs)" using inv split by (simp add: tarjan_inv_def)
  with run show thesis by (rule that)
qed

lemma unvisited_successor_inv:
  assumes "tarjan_inv key g s ((n, ws) # fs)"
  shows "\<exists>found s'. unvisited_successor n ws s = Inr (found, s')
    \<and> (case found of
         None \<Rightarrow> tarjan_inv key g s' ((n, []) # fs)
       | Some (w, rest) \<Rightarrow> tarjan_inv key g s' ((n, w # rest) # fs) \<and> tj_indices s' w = None)"
  using assms
proof (induction n ws s rule: unvisited_successor.induct)
  case (2 n w ws s)
  show ?case
  proof (cases "tj_indices s w")
    case None
    with 2(3) show ?thesis by simp
  next
    case (Some i)
    show ?thesis
    proof (cases "w \<in> tj_on_stack s")
      case True
      from tarjan_inv_lower [OF 2(3) True] obtain s' where
        "lower_link n (tj_indices s w) s = Inr s'" "tarjan_inv key g s' ((n, ws) # fs)" .
      with 2(1) True Some show ?thesis by auto
    next
      case False
      with tarjan_inv_skip [OF 2(3) _ False] Some have "tarjan_inv key g s ((n, ws) # fs)" by auto
      with 2(2) False Some show ?thesis by simp
    qed
  qed
qed simp

section \<open>Finishing a node\<close>

lemma pop_component_segment:
  assumes "distinct (xs @ [n])" and "insert n (set xs) \<subseteq> on"
  shows "pop_component n (xs @ n # st) on acc = Inr (acc @ xs @ [n], st, on - insert n (set xs))"
  using assms
proof (induction xs arbitrary: on acc)
  case (Cons x xs)
  then have "pop_component n (xs @ n # st) (on - {x}) (acc @ [x])
      = Inr ((acc @ [x]) @ xs @ [n], st, (on - {x}) - insert n (set xs))" by (intro Cons.IH) auto
  with Cons.prems show ?case by (auto simp: Diff_insert2 [symmetric] insert_commute)
qed auto

lemma component_counts_cyclic:
  assumes "distinct c" and "set c = strong_component (depends g) n" and "dget g n = Some ws"
  shows "component_counts g c = Inr ((n, n) \<in> (depends g)\<^sup>+)"
proof -
  have n: "n \<in> set c" using assms(2) by simp
  show ?thesis
  proof (cases "1 < length c")
    case True
    then have "card (set c) \<noteq> 1" using distinct_card [OF assms(1)] by simp
    then have "set c \<noteq> {n}" by auto
    with n obtain m where "m \<in> set c" "m \<noteq> n" by blast
    then have "(n, m) \<in> (depends g)\<^sup>+" "(m, n) \<in> (depends g)\<^sup>*"
      using assms(2) by (auto simp: strong_component_def rtrancl_eq_or_trancl)
    then have "(n, n) \<in> (depends g)\<^sup>+" by (rule trancl_rtrancl_trancl)
    with True show ?thesis by (cases c) (auto simp: component_counts_def)
  next
    case False
    with n have c: "c = [n]" by (cases c) (auto simp: length_Suc_conv)
    have "(n, n) \<in> (depends g)\<^sup>+ \<longleftrightarrow> (n, n) \<in> depends g"
    proof
      assume "(n, n) \<in> (depends g)\<^sup>+"
      then obtain z where z: "(n, z) \<in> depends g" "(z, n) \<in> (depends g)\<^sup>*" by (blast dest: tranclD)
      then have "z \<in> strong_component (depends g) n" by (auto simp: strong_component_def)
      then have "z = n" using assms(2) c by auto
      with z show "(n, n) \<in> depends g" by simp
    qed blast
    with assms(3) c dget_Some_key [OF assms(3)] show ?thesis
      by (simp add: component_counts_def self_loop_def depends_def deps_def)
  qed
qed

text \<open>A segment whose root has its own index as link is a strong component, and what it reaches is closed.\<close>

lemma root_segment:
  assumes stack: "stack_ok g s" and split: "tj_stack s = xs @ n # st"
    and seg: "segment (depends g) (tj_idx s) low (dom (tj_indices s)) n [] xs st" and root: "low n = tj_idx s n"
  shows "insert n (set xs) = strong_component (depends g) n"
    and "\<And>x y. x \<in> tj_closed s \<union> insert n (set xs) \<Longrightarrow> (x, y) \<in> depends g \<Longrightarrow> y \<in> tj_closed s \<union> insert n (set xs)"
proof -
  let ?r = "depends g" and ?C = "insert n (set xs)"
  note below = stack_split [OF stack split]
  have step: "y \<in> tj_closed s \<union> ?C" if "x \<in> ?C" "(x, y) \<in> ?r" for x y
  proof -
    from segmentD(5) [OF seg that] have y: "y \<in> dom (tj_indices s)" "y \<in> set st \<longrightarrow> low n \<le> tj_idx s y" by simp_all
    then have "y \<notin> set st" using below(1) root by auto
    with y(1) split show ?thesis by (auto simp: tj_closed_def)
  qed
  show closed: "y \<in> tj_closed s \<union> ?C" if "x \<in> tj_closed s \<union> ?C" "(x, y) \<in> ?r" for x y
    using stack_okD(7) [OF stack that(2)] step that by blast
  have returns: "(x, n) \<in> ?r\<^sup>*" if "x \<in> set xs" for x
  proof -
    from segmentD(3) [OF seg that] obtain y where y: "y \<in> insert n (set st)" "(x, y) \<in> ?r\<^sup>*" by blast
    have "y \<in> tj_closed s \<union> ?C" by (rule rtrancl_closed [OF y(2)]) (use that closed in blast)+
    moreover have "y \<notin> tj_closed s" using y(1) split by (auto simp: tj_closed_def)
    ultimately have "y = n" using y(1) below(5,6) by auto
    with y(2) show ?thesis by simp
  qed
  show "?C = strong_component ?r n"
  proof (intro equalityI subsetI)
    fix x assume "x \<in> ?C"
    with returns show "x \<in> strong_component ?r n" using segmentD(2) [OF seg] by (auto simp: strong_component_def)
  next
    fix x assume x: "x \<in> strong_component ?r n"
    then have path: "(n, x) \<in> ?r\<^sup>*" "(x, n) \<in> ?r\<^sup>*" by (auto simp: strong_component_def)
    have "x \<in> tj_closed s \<union> ?C" by (rule rtrancl_closed [OF path(1)]) (use closed in blast)+
    moreover have "x \<notin> tj_closed s"
    proof
      assume "x \<in> tj_closed s"
      then have "n \<in> tj_closed s" by (rule rtrancl_closed [OF path(2)]) (use stack_okD(7) [OF stack] in blast)
      with split show False by (simp add: tj_closed_def)
    qed
    ultimately show "x \<in> ?C" by blast
  qed
qed

lemma components_ok_close:
  assumes "components_ok key r A cs" and "set c = strong_component r n" and "distinct c" and "sorted (map key c)"
    and "A \<inter> set c = {}"
  shows "components_ok key r (A \<union> set c) (cs @ (if (n, n) \<in> r\<^sup>+ then [c] else []))"
proof -
  have n: "n \<in> set c" using assms(2) by simp
  have "(m, m) \<in> r\<^sup>+ \<longleftrightarrow> (n, n) \<in> r\<^sup>+" if "m \<in> set c" for m
    using that unfolding assms(2) by (rule strong_component_cyclic)
  then have cyc: "{m \<in> set c. (m, m) \<in> r\<^sup>+} = (if (n, n) \<in> r\<^sup>+ then set c else {})" by (cases "(n, n) \<in> r\<^sup>+") auto
  have "strong_component r m = set c" if "m \<in> set c" for m
    using strong_component_eq [of m r n] that unfolding assms(2) by simp
  then have same: "strong_component r ` set c = {set c}" using n by auto
  have "{m \<in> A \<union> set c. (m, m) \<in> r\<^sup>+} = {m \<in> A. (m, m) \<in> r\<^sup>+} \<union> {m \<in> set c. (m, m) \<in> r\<^sup>+}" by blast
  then have "strong_component r ` {m \<in> A \<union> set c. (m, m) \<in> r\<^sup>+}
      = set ` set cs \<union> (if (n, n) \<in> r\<^sup>+ then {set c} else {})"
    using assms(1) same by (simp add: cyc image_Un components_ok_def)
  moreover have "c \<notin> set cs" "c \<noteq> []" using assms(1,5) n by (auto simp: components_ok_def)
  ultimately show ?thesis using assms n by (auto simp: components_ok_def)
qed

lemma close_root:
  assumes inv: "tarjan_inv key g s ((n, []) # fs)" and root: "tj_low s n = tj_idx s n"
  obtains s' where "close_component key g n s = Inr s'" "tarjan_inv key g s' fs"
proof -
  from inv have stack: "stack_ok g s" by (simp add: tarjan_inv_def)
  from inv obtain xs st where split: "tj_stack s = xs @ n # st"
    and parts: "frames_ok (depends g) (tj_idx s) (tj_low s) (dom (tj_indices s)) fs st"
      "segment (depends g) (tj_idx s) (tj_low s) (dom (tj_indices s)) n [] xs st"
    by (rule tarjan_inv_top)
  note ok = stack_okD [OF stack] and below = stack_split [OF stack split]
  note seg = root_segment [OF stack split parts(2) root]
  let ?c = "sort_key key (xs @ [n])" and ?on = "set (tj_stack s) - insert n (set xs)"
  let ?s = "s\<lparr>tj_stack := st, tj_on_stack := ?on,
      tj_components := tj_components s @ (if (n, n) \<in> (depends g)\<^sup>+ then [?c] else [])\<rparr>"
  have pop: "pop_component n (tj_stack s) (tj_on_stack s) [] = Inr (xs @ [n], st, ?on)"
    using pop_component_segment [of xs n "tj_on_stack s" st "[]"] below(4,10) unfolding ok(2) split by auto
  have "n \<in> set (dkeys g)" using below(7) ok(5) by blast
  then obtain ws where "dget g n = Some ws" unfolding dkeys_iff_dget by blast
  then have "component_counts g ?c = Inr ((n, n) \<in> (depends g)\<^sup>+)"
    using below(4,10) seg(1) by (intro component_counts_cyclic) auto
  with pop have run: "close_component key g n s = Inr ?s" by (simp add: close_component_def)
  have on: "?on = set st" using split below(5,6) by auto
  have closed: "tj_closed ?s = tj_closed s \<union> set ?c" "tj_closed s \<inter> set ?c = {}"
    using split below(5-8) by (auto simp: tj_closed_def)
  have "\<forall>x y. (x, y) \<in> depends g \<longrightarrow> x \<in> tj_closed ?s \<longrightarrow> y \<in> tj_closed ?s" unfolding closed using seg(2) by auto
  moreover have "sorted_wrt (\<lambda>x y. tj_idx s y < tj_idx s x) st" using ok(1) split by (simp add: sorted_wrt_append)
  ultimately have "stack_ok g ?s" unfolding stack_ok_def using ok(4-6) on below(9) by simp
  moreover have "components_ok key (depends g) (tj_closed s \<union> set ?c)
      (tj_components s @ (if (n, n) \<in> (depends g)\<^sup>+ then [?c] else []))"
    using inv below(4,10) seg(1) closed(2) by (intro components_ok_close) (auto simp: tarjan_inv_def)
  ultimately have "tarjan_inv key g ?s fs" using parts(1) closed(1) by (simp add: tarjan_inv_def)
  with run show thesis by (rule that)
qed

text \<open>A node that is not a root hands its segment and its link on to its parent.\<close>

lemma segment_merge:
  assumes child: "segment r idx low V n [] xs (ys @ p # st)" and parent: "segment r idx low V p us ys st"
    and edge: "(p, n) \<in> r\<^sup>*" and below: "low n < idx n" "low p \<le> idx p"
    and order: "\<forall>y \<in> insert n (set ys). idx p < idx y"
    and low': "low' p = min (low p) (low n)"
  shows "segment r idx low' V p us (xs @ n # ys) st"
proof -
  obtain y where y: "y \<in> insert n (set (ys @ p # st))" "idx y = low n" "(n, y) \<in> r\<^sup>*" using segmentD(4) [OF child] by blast
  have down: "\<exists>z \<in> insert p (set st). (x, z) \<in> r\<^sup>*" if "x \<in> set ys \<union> insert p (set st)" for x
    using that segmentD(3) [OF parent] by blast
  have "y \<in> set ys \<union> insert p (set st)" using y(1,2) below(1) by auto
  then have n_down: "\<exists>z \<in> insert p (set st). (n, z) \<in> r\<^sup>*" using down y(3) by (blast intro: rtrancl_trans)
  have "\<exists>z \<in> insert p (set st). (x, z) \<in> r\<^sup>*" if "x \<in> set xs" for x
  proof -
    from segmentD(3) [OF child that] obtain z where z: "z \<in> insert n (set (ys @ p # st))" "(x, z) \<in> r\<^sup>*" by blast
    then have "\<exists>z' \<in> insert p (set st). (z, z') \<in> r\<^sup>*" using n_down down by auto
    with z(2) show ?thesis by (blast intro: rtrancl_trans)
  qed
  moreover have "(p, x) \<in> r\<^sup>*" if "x \<in> set xs" for x
    using segmentD(2) [OF child that] edge by (rule rtrancl_trans [rotated])
  ultimately have reach: "\<forall>x \<in> set (xs @ n # ys). (p, x) \<in> r\<^sup>* \<and> (\<exists>z \<in> insert p (set st). (x, z) \<in> r\<^sup>*)"
    using n_down down edge segmentD(2) [OF parent] by auto
  have link: "\<exists>z \<in> insert p (set st). idx z = low' p \<and> (p, z) \<in> r\<^sup>*"
  proof (cases "low p \<le> low n")
    case True
    with segmentD(4) [OF parent] show ?thesis by (simp add: low' min_def)
  next
    case False
    then have "idx y < idx p" using y(2) below(2) by simp
    then have "y \<in> set st" using y(1) order by auto
    with y(2,3) edge False show ?thesis by (auto simp: low' intro: rtrancl_trans)
  qed
  have "x = p \<and> y \<in> set us \<or> y \<in> V \<and> (y \<in> set st \<longrightarrow> low' p \<le> idx y)"
    if x: "x \<in> insert p (set (xs @ n # ys))" "(x, y) \<in> r" for x y
  proof (cases "x \<in> insert n (set xs)")
    case True
    with segmentD(5) [OF child True x(2)] show ?thesis by (auto simp: low')
  next
    case False
    with x(1) have "x \<in> insert p (set ys)" by auto
    from segmentD(5) [OF parent this x(2)] show ?thesis by (auto simp: low')
  qed
  with reach link segmentD(1) [OF parent] show ?thesis unfolding segment_def by blast
qed

lemma merge_child:
  assumes inv: "tarjan_inv key g s ((n, []) # (p, us) # fs)"
  obtains s' where "lower_link p (tj_lowlinks s n) s = Inr s'" "tj_indices s' = tj_indices s" "tj_lowlinks s' n = tj_lowlinks s n"
    "tj_low s n = tj_idx s n \<Longrightarrow> s' = s" "tj_low s n \<noteq> tj_idx s n \<Longrightarrow> tarjan_inv key g s' ((p, us) # fs)"
proof -
  from inv have stack: "stack_ok g s" by (simp add: tarjan_inv_def)
  note ok = stack_okD [OF stack]
  from inv obtain xs st where split: "tj_stack s = xs @ n # st"
    and rest: "frames_ok (depends g) (tj_idx s) (tj_low s) (dom (tj_indices s)) ((p, us) # fs) st"
    and child: "segment (depends g) (tj_idx s) (tj_low s) (dom (tj_indices s)) n [] xs st"
    and edge: "(p, n) \<in> (depends g)\<^sup>*"
    by (rule tarjan_inv_top) blast
  from rest obtain ys st' where st: "st = ys @ p # st'"
    and parts: "frames_ok (depends g) (tj_idx s) (tj_low s) (dom (tj_indices s)) fs st'"
      "segment (depends g) (tj_idx s) (tj_low s) (dom (tj_indices s)) p us ys st'"
      "\<And>q vs fs'. fs = (q, vs) # fs' \<Longrightarrow> (q, p) \<in> (depends g)\<^sup>*"
    by (auto elim!: frames_ok_Cons)
  have split': "tj_stack s = (xs @ n # ys) @ p # st'" using split st by simp
  note below = stack_split [OF stack split] and below' = stack_split [OF stack split']
  have low: "tj_low s n \<le> tj_idx s n" "tj_low s p \<le> tj_idx s p"
    by (rule low_le_idx [OF stack split child], rule low_le_idx [OF stack split' parts(2)])
  have dom: "p \<in> dom (tj_lowlinks s)" "n \<in> dom (tj_lowlinks s)" using below(7) below'(7) ok(4) by simp_all
  let ?s = "s\<lparr>tj_lowlinks := (tj_lowlinks s)(p \<mapsto> min (tj_low s p) (tj_low s n))\<rparr>"
  have run: "lower_link p (tj_lowlinks s n) s = Inr ?s" using dom by (auto simp: lower_link_def)
  have same: "?s = s" if "tj_low s n = tj_idx s n"
  proof -
    have "tj_idx s p < tj_idx s n" using below(1) st by simp
    then have "min (tj_low s p) (tj_low s n) = tj_low s p" using that low(2) by simp
    then show ?thesis using dom(1) by (auto simp: fun_upd_idem)
  qed
  have "tarjan_inv key g ?s ((p, us) # fs)" if "tj_low s n \<noteq> tj_idx s n"
  proof -
    have "segment (depends g) (tj_idx s) (tj_low ?s) (dom (tj_indices s)) p us (xs @ n # ys) st'"
      using child [unfolded st] parts(2) edge
      by (rule segment_merge) (use low that below'(2) in auto)
    moreover have "frames_ok (depends g) (tj_idx s) (tj_low ?s) (dom (tj_indices s)) fs st'"
      using below'(5) by (intro frames_ok_cong [OF parts(1)]) auto
    ultimately have "frames_ok (depends g) (tj_idx s) (tj_low ?s) (dom (tj_indices s)) ((p, us) # fs) ((xs @ n # ys) @ p # st')"
      using parts(3) by (intro frame)
    moreover have "stack_ok g ?s" "tj_closed ?s = tj_closed s"
      using stack dom(1) by (auto simp: stack_ok_def tj_closed_def)
    ultimately show ?thesis using inv split' by (simp add: tarjan_inv_def)
  qed
  moreover have "n \<noteq> p" using below(5) st by auto
  ultimately show thesis using that [OF run] same by simp
qed

lemma last_frame_root:
  assumes "tarjan_inv key g s [(n, ws)]"
  shows "tj_low s n = tj_idx s n"
proof -
  from assms obtain xs st where "frames_ok (depends g) (tj_idx s) (tj_low s) (dom (tj_indices s)) [] st"
    and seg: "segment (depends g) (tj_idx s) (tj_low s) (dom (tj_indices s)) n ws xs st" by (rule tarjan_inv_top)
  then have "st = []" by (elim frames_ok_Nil)
  with segmentD(4) [OF seg] show ?thesis by simp
qed

lemma links_known:
  assumes "tarjan_inv key g s ((n, ws) # fs)"
  shows "tj_lowlinks s n = tj_indices s n \<longleftrightarrow> tj_low s n = tj_idx s n"
proof -
  from assms have stack: "stack_ok g s" by (simp add: tarjan_inv_def)
  from assms obtain xs st where "tj_stack s = xs @ n # st" by (rule tarjan_inv_top)
  from stack_split(7) [OF stack this] have "n \<in> dom (tj_indices s)" "n \<in> dom (tj_lowlinks s)"
    using stack_okD(4) [OF stack] by auto
  then show ?thesis by auto
qed

lemma finish_node_inv:
  assumes inv: "tarjan_inv key g s ((n, []) # fs)"
  shows "\<exists>s'. finish_node key g n fs s = Inr s' \<and> tarjan_inv key g s' fs"
proof (cases fs)
  case Nil
  with inv have "tj_low s n = tj_idx s n" by (intro last_frame_root) simp
  with close_root [OF inv] links_known [OF inv] Nil show ?thesis by (auto simp: finish_node_def)
next
  case (Cons frame fs')
  obtain p us where frame: "frame = (p, us)" by (cases frame)
  from merge_child [of key g s n p us fs'] inv Cons frame obtain s' where
    lower: "lower_link p (tj_lowlinks s n) s = Inr s'" "tj_indices s' = tj_indices s" "tj_lowlinks s' n = tj_lowlinks s n"
    and same: "tj_low s n = tj_idx s n \<Longrightarrow> s' = s" and merged: "tj_low s n \<noteq> tj_idx s n \<Longrightarrow> tarjan_inv key g s' fs" by auto
  show ?thesis
  proof (cases "tj_low s n = tj_idx s n")
    case True
    with close_root [OF inv] links_known [OF inv] same lower Cons frame show ?thesis by (auto simp: finish_node_def)
  next
    case False
    with merged links_known [OF inv] lower Cons frame show ?thesis by (auto simp: finish_node_def)
  qed
qed

section \<open>The traversal\<close>

lemma connect_inv:
  assumes "graph_closed g" and "tarjan_inv key g s fs"
  shows "\<exists>s'. connect key g fs s = Inr s' \<and> tarjan_inv key g s' [] \<and> dom (tj_indices s) \<subseteq> dom (tj_indices s')"
  using assms
proof (induction key g fs s rule: connect.induct)
  case (2 key g n ws fs s)
  from unvisited_successor_inv [OF 2(4)] obtain found s1 where
    run: "unvisited_successor n ws s = Inr (found, s1)"
    and inv: "case found of None \<Rightarrow> tarjan_inv key g s1 ((n, []) # fs)
       | Some (w, rest) \<Rightarrow> tarjan_inv key g s1 ((n, w # rest) # fs) \<and> tj_indices s1 w = None" by blast
  note same = unvisited_successor_indices [OF run]
  show ?case
  proof (cases found)
    case None
    with inv obtain s2 where s2: "finish_node key g n fs s1 = Inr s2" "tarjan_inv key g s2 fs"
      using finish_node_inv [of key g s1 n fs] by auto
    from 2(1) [OF run refl None s2(1) 2(3) s2(2)] obtain s' where "connect key g fs s2 = Inr s'" "tarjan_inv key g s' []"
      "dom (tj_indices s2) \<subseteq> dom (tj_indices s')" by auto
    with run None s2 same finish_node_indices [OF s2(1)] show ?thesis by simp
  next
    case (Some pair)
    obtain w rest where pair: "pair = (w, rest)" by (cases pair)
    with inv Some have top: "tarjan_inv key g s1 ((n, w # rest) # fs)" and fresh: "tj_indices s1 w = None" by auto
    from top have stack: "stack_ok g s1" "components_ok key (depends g) (tj_closed s1) (tj_components s1)"
      by (simp_all add: tarjan_inv_def)
    from top obtain xs st where split: "tj_stack s1 = xs @ n # st"
      and parts: "frames_ok (depends g) (tj_idx s1) (tj_low s1) (dom (tj_indices s1)) fs st"
        "segment (depends g) (tj_idx s1) (tj_low s1) (dom (tj_indices s1)) n (w # rest) xs st"
        "\<And>p us fs'. fs = (p, us) # fs' \<Longrightarrow> (p, n) \<in> (depends g)\<^sup>*"
      by (rule tarjan_inv_top) blast
    have edge: "(n, w) \<in> depends g" using segmentD(1) [OF parts(2)] by simp
    then have w: "w \<in> set (dkeys g)" using 2(3) by (auto simp: depends_def graph_closed_def)
    then obtain us where us: "dget g w = Some us" unfolding dkeys_iff_dget by blast
    have "w \<notin> set st" using fresh stack_split(9) [OF stack(1) split] by auto
    then have "segment (depends g) (tj_idx s1) (tj_low s1) (insert w (dom (tj_indices s1))) n rest xs st"
      using segmentD(4) [OF parts(2)]
      by (intro segment_step [OF segment_cong [OF parts(2)]]) auto
    moreover have "frames_ok (depends g) (tj_idx s1) (tj_low s1) (insert w (dom (tj_indices s1))) fs st"
      by (intro frames_ok_cong [OF parts(1)]) auto
    ultimately have "frames_ok (depends g) (tj_idx s1) (tj_low s1) (insert w (dom (tj_indices s1))) ((n, rest) # fs) (tj_stack s1)"
      unfolding split using parts(3) by (intro frame)
    from tarjan_inv_visit [OF stack fresh w this] edge
    have "tarjan_inv key g (tj_visit w s1) ((w, us) # (n, rest) # fs)" using us by (auto simp: deps_def)
    from 2(2) [OF run refl Some pair [symmetric] us 2(3) this] obtain s' where
      "connect key g ((w, us) # (n, rest) # fs) (tj_visit w s1) = Inr s'" "tarjan_inv key g s' []"
      "dom (tj_indices (tj_visit w s1)) \<subseteq> dom (tj_indices s')" by blast
    moreover from this have "dom (tj_indices s1) \<subseteq> dom (tj_indices s')" by fastforce
    ultimately show ?thesis using run Some pair us same by simp
  qed
qed auto

lemma strongconnect_inv:
  assumes "graph_closed g" and inv: "tarjan_inv key g s []" and "tj_indices s n = None" and n: "n \<in> set (dkeys g)"
  shows "\<exists>s'. strongconnect key g n s = Inr s' \<and> tarjan_inv key g s' [] \<and> insert n (dom (tj_indices s)) \<subseteq> dom (tj_indices s')"
proof -
  obtain us where us: "dget g n = Some us" using n unfolding dkeys_iff_dget by blast
  from inv have "frames_ok (depends g) (tj_idx s) (tj_low s) (insert n (dom (tj_indices s))) [] (tj_stack s)"
    by (auto simp: tarjan_inv_def elim!: frames_ok_Nil intro: no_frame)
  then have "tarjan_inv key g (tj_visit n s) [(n, us)]"
    using tarjan_inv_visit [of g s key n "[]"] inv assms(3) n us by (auto simp: tarjan_inv_def deps_def)
  from connect_inv [OF assms(1) this] us show ?thesis by (auto simp: strongconnect_def)
qed

lemma new_tarjan_inv: "tarjan_inv key g new_tarjan []"
  by (auto simp: tarjan_inv_def stack_ok_def components_ok_def tj_closed_def new_tarjan_def intro: no_frame)

lemma traversal_inv:
  assumes "graph_closed g" and "set ns \<subseteq> set (dkeys g)" and "tarjan_inv key g s []"
  shows "\<exists>s'. efold (\<lambda>s n. if tj_indices s n = None then strongconnect key g n s else Inr s) s ns = Inr s'
    \<and> tarjan_inv key g s' [] \<and> dom (tj_indices s) \<union> set ns \<subseteq> dom (tj_indices s')"
  using assms(2,3)
proof (induction ns arbitrary: s)
  case (Cons n ns)
  show ?case
  proof (cases "tj_indices s n = None")
    case True
    from Cons.prems(1) have "n \<in> set (dkeys g)" by simp
    from strongconnect_inv [OF assms(1) Cons.prems(2) True this] obtain s1 where
      "strongconnect key g n s = Inr s1" "tarjan_inv key g s1 []" "insert n (dom (tj_indices s)) \<subseteq> dom (tj_indices s1)" by blast
    moreover from this Cons.IH [of s1] Cons.prems(1) obtain s2 where
      "efold (\<lambda>s n. if tj_indices s n = None then strongconnect key g n s else Inr s) s1 ns = Inr s2"
      "tarjan_inv key g s2 []" "dom (tj_indices s1) \<union> set ns \<subseteq> dom (tj_indices s2)" by auto
    ultimately show ?thesis using True by auto
  next
    case False
    from Cons.IH [OF _ Cons.prems(2)] Cons.prems(1) obtain s2 where
      "efold (\<lambda>s n. if tj_indices s n = None then strongconnect key g n s else Inr s) s ns = Inr s2"
      "tarjan_inv key g s2 []" "dom (tj_indices s) \<union> set ns \<subseteq> dom (tj_indices s2)" by auto
    moreover have "n \<in> dom (tj_indices s)" using False by auto
    ultimately show ?thesis using False by auto
  qed
qed simp

lemma cyclic_components_correct:
  assumes "graph_closed g"
  obtains cs where "cyclic_components key g = Inr cs" "distinct cs"
    "set ` set cs = {strong_component (depends g) n | n. (n, n) \<in> (depends g)\<^sup>+}"
    "\<forall>c \<in> set cs. distinct c \<and> sorted (map key c)" "sorted (map (map key) cs)"
proof -
  from traversal_inv [OF assms _ new_tarjan_inv, of "sort_key key (dkeys g)" key] obtain s where
    run: "efold (\<lambda>s n. if tj_indices s n = None then strongconnect key g n s else Inr s) new_tarjan (sort_key key (dkeys g)) = Inr s"
    and inv: "tarjan_inv key g s []" and all: "set (dkeys g) \<subseteq> dom (tj_indices s)" by auto
  from inv have "tj_stack s = []" by (auto simp: tarjan_inv_def elim: frames_ok_Nil)
  then have closed: "set (dkeys g) \<subseteq> tj_closed s" using all by (simp add: tj_closed_def)
  from inv have comps: "components_ok key (depends g) (tj_closed s) (tj_components s)" by (simp add: tarjan_inv_def)
  have "n \<in> tj_closed s" if "(n, n) \<in> (depends g)\<^sup>+" for n
  proof -
    from that obtain m where "(n, m) \<in> depends g" by (blast dest: tranclD)
    with closed show ?thesis by (auto simp: depends_def)
  qed
  then have "{n \<in> tj_closed s. (n, n) \<in> (depends g)\<^sup>+} = {n. (n, n) \<in> (depends g)\<^sup>+}" by blast
  with comps have exact: "set ` set (tj_components s) = {strong_component (depends g) n | n. (n, n) \<in> (depends g)\<^sup>+}"
    by (auto simp: components_ok_def)
  show thesis
    by (rule that [of "sort_key (map key) (tj_components s)"])
      (use run comps exact in \<open>simp_all add: cyclic_components_def components_ok_def\<close>)
qed

end
