(* ===== verification/GraphCycle.thy ===== *)
theory GraphCycle
  imports GraphOrder
begin

text \<open>
  Directed-graph mechanics (raes_contracts/graphs.py): the cycle check. \<open>TopologicalSorter.prepare\<close>
  raises CycleError when its depth-first search meets a node of the current path; the search is
  modelled with its path as frames (a node and what its iterator has left, the top first) and the set
  of the nodes it has seen.
\<close>

type_synonym 'n path_frames = "('n \<times> 'n list) list"

definition pending :: "'n path_frames \<Rightarrow> nat" where
  "pending fs = sum_list (map (\<lambda>(n, ws). Suc (length ws)) fs)"

function search_cycle :: "'n sorter \<Rightarrow> 'n path_frames \<Rightarrow> 'n set \<Rightarrow> graph_error + bool \<times> 'n set" where
  "search_cycle s [] seen = Inr (False, seen)"
| "search_cycle s ((n, []) # fs) seen = search_cycle s fs seen"
| "search_cycle s ((n, w # ws) # fs) seen =
     (if w \<in> seen
      then if w = n \<or> w \<in> set (map fst fs) then Inr (True, seen) else search_cycle s ((n, ws) # fs) seen
      else if w \<in> set (node2info s) then search_cycle s ((w, successors s w) # (n, ws) # fs) (insert w seen)
      else Inl UnknownNodeKey)"
  by pat_completeness auto
termination
proof (relation "measures [\<lambda>(s, fs, seen). card (set (node2info s) - seen), \<lambda>(s, fs, seen). pending fs]", goal_cases)
  case (4 s n w ws fs seen)
  then have "set (node2info s) - insert w seen \<subset> set (node2info s) - seen" by blast
  then have "card (set (node2info s) - insert w seen) < card (set (node2info s) - seen)" by (intro psubset_card_mono) auto
  then show ?case by simp
qed (simp_all add: pending_def)

definition find_cycle :: "'n sorter \<Rightarrow> graph_error + bool" where
  "find_cycle s =
     ebind (efold (\<lambda>(found, seen) n.
         if found \<or> n \<in> seen then Inr (found, seen) else search_cycle s [(n, successors s n)] (insert n seen))
       (False, {}) (node2info s)) (\<lambda>(found, seen).
       Inr found)"

definition sorter_of :: "('n, 'n list) dict \<Rightarrow> graph_error + 'n sorter" where
  "sorter_of g = efold (\<lambda>s (n, adjacent). sorter_add n adjacent s) new_sorter g"

definition has_cycle :: "('n, 'n list) dict \<Rightarrow> graph_error + bool" where
  "has_cycle g = ebind (sorter_of g) find_cycle"

section \<open>The search is exact\<close>

definition successor_edges :: "'n sorter \<Rightarrow> ('n \<times> 'n) set" where
  "successor_edges s = {(n, w). n \<in> set (node2info s) \<and> w \<in> set (successors s n)}"

text \<open>Every successor of a node on the path is pending, finished, or ahead on the path.\<close>

fun frames_done :: "('n \<times> 'n) set \<Rightarrow> 'n set \<Rightarrow> 'n path_frames \<Rightarrow> 'n set \<Rightarrow> bool" where
  "frames_done r B [] up \<longleftrightarrow> True"
| "frames_done r B ((n, ws) # fs) up \<longleftrightarrow>
     set ws \<subseteq> r `` {n} \<and> r `` {n} \<subseteq> set ws \<union> B \<union> up \<and> frames_done r B fs (insert n up)"

lemma frames_done_mono:
  "frames_done r B fs up \<Longrightarrow> B \<union> up \<subseteq> B' \<union> up' \<Longrightarrow> frames_done r B' fs up'"
proof (induction fs arbitrary: up up')
  case (Cons frame fs)
  obtain n ws where "frame = (n, ws)" by (cases frame)
  with Cons.prems Cons.IH [of "insert n up" "insert n up'"] show ?case by fastforce
qed simp

text \<open>A finished node has been seen and is no longer on the path.\<close>

definition finished :: "'n path_frames \<Rightarrow> 'n set \<Rightarrow> 'n set" where
  "finished fs seen = seen - set (map fst fs)"

definition search_inv :: "('n \<times> 'n) set \<Rightarrow> 'n path_frames \<Rightarrow> 'n set \<Rightarrow> bool" where
  "search_inv r fs seen \<longleftrightarrow>
     set (map fst fs) \<subseteq> seen \<and> distinct (map fst fs) \<and> sorted_wrt (\<lambda>m n. (n, m) \<in> r\<^sup>*) (map fst fs)
     \<and> (\<forall>x \<in> finished fs seen. (x, x) \<notin> r\<^sup>+ \<and> r `` {x} \<subseteq> finished fs seen)
     \<and> frames_done r (finished fs seen) fs {}"

lemma finished_closed:
  assumes "search_inv r fs seen" and "(x, y) \<in> r\<^sup>*" and "x \<in> finished fs seen"
  shows "y \<in> finished fs seen"
  using assms(2,3,1) by (induction rule: rtrancl_induct) (auto simp: search_inv_def)

lemma search_inv_pop:
  assumes inv: "search_inv r ((n, []) # fs) seen"
  shows "search_inv r fs seen"
proof -
  let ?B = "finished ((n, []) # fs) seen"
  have B: "finished fs seen = insert n ?B" using inv by (auto simp: finished_def search_inv_def)
  have succ: "r `` {n} \<subseteq> ?B" using inv by (simp add: search_inv_def)
  have "(n, n) \<notin> r\<^sup>+"
  proof
    assume "(n, n) \<in> r\<^sup>+"
    then obtain z where "(n, z) \<in> r" "(z, n) \<in> r\<^sup>*" by (blast dest: tranclD)
    then have "n \<in> ?B" using succ finished_closed [OF inv, of z n] by blast
    then show False by (simp add: finished_def)
  qed
  then have "\<forall>x \<in> finished fs seen. (x, x) \<notin> r\<^sup>+ \<and> r `` {x} \<subseteq> finished fs seen"
    using inv succ unfolding B search_inv_def by blast
  moreover have "frames_done r (finished fs seen) fs {}"
    by (rule frames_done_mono [of r ?B fs "{n}"]) (use inv in \<open>simp_all add: B search_inv_def\<close>)
  ultimately show ?thesis using inv by (simp add: search_inv_def)
qed

lemma search_inv_skip:
  assumes inv: "search_inv r ((n, w # ws) # fs) seen" and w: "w \<in> finished ((n, ws) # fs) seen"
  shows "search_inv r ((n, ws) # fs) seen"
proof -
  have "finished ((n, ws) # fs) seen = finished ((n, w # ws) # fs) seen" by (simp add: finished_def)
  with inv w show ?thesis by (auto simp: search_inv_def)
qed

lemma search_inv_push:
  assumes inv: "search_inv r ((n, w # ws) # fs) seen" and w: "w \<notin> seen" and us: "set us = r `` {w}"
  shows "search_inv r ((w, us) # (n, ws) # fs) (insert w seen)"
proof -
  let ?B = "finished ((n, w # ws) # fs) seen"
  have B: "finished ((w, us) # (n, ws) # fs) (insert w seen) = ?B" using w by (auto simp: finished_def)
  have edge: "(n, w) \<in> r" using inv by (simp add: search_inv_def)
  have "frames_done r ?B ((n, ws) # fs) {w}"
    using inv frames_done_mono [of r ?B fs "{n}" ?B "{n, w}"] by (auto simp: search_inv_def)
  moreover have "\<forall>m \<in> set (map fst fs). (m, w) \<in> r\<^sup>*"
    using inv edge by (auto simp: search_inv_def intro: rtrancl_into_rtrancl)
  ultimately show ?thesis using inv w us edge unfolding search_inv_def B by auto
qed

definition sorter_closed :: "'n sorter \<Rightarrow> bool" where
  "sorter_closed s \<longleftrightarrow> (\<forall>n \<in> set (node2info s). set (successors s n) \<subseteq> set (node2info s))"

definition verdict :: "('n \<times> 'n) set \<Rightarrow> bool \<Rightarrow> 'n set \<Rightarrow> bool" where
  "verdict r found seen \<longleftrightarrow> (if found then \<exists>x. (x, x) \<in> r\<^sup>+ else search_inv r [] seen)"

lemma search_cycle_exact:
  assumes "sorter_closed s" and "search_inv (successor_edges s) fs seen"
  shows "\<exists>found seen'. search_cycle s fs seen = Inr (found, seen') \<and> seen \<subseteq> seen'
    \<and> verdict (successor_edges s) found seen'"
  using assms
proof (induction s fs seen rule: search_cycle.induct)
  case (2 s n fs seen)
  from 2(1) [OF 2(2) search_inv_pop [OF 2(3)]] show ?case by simp
next
  case (3 s n w ws fs seen)
  let ?r = "successor_edges s"
  have edge: "(n, w) \<in> ?r" using 3(4) by (simp add: search_inv_def)
  show ?case
  proof (cases "w \<in> seen")
    case seen: True
    show ?thesis
    proof (cases "w = n \<or> w \<in> set (map fst fs)")
      case True
      then have "(w, n) \<in> ?r\<^sup>*" using 3(4) by (auto simp: search_inv_def)
      with edge have "(n, n) \<in> ?r\<^sup>+" by (rule rtrancl_into_trancl2)
      with True seen show ?thesis by (auto simp: verdict_def)
    next
      case False
      with seen have "w \<in> finished ((n, ws) # fs) seen" by (simp add: finished_def)
      from 3(1) [OF seen False 3(3) search_inv_skip [OF 3(4) this]] False seen show ?thesis by auto
    qed
  next
    case False
    have w: "w \<in> set (node2info s)" using edge 3(3) by (auto simp: successor_edges_def sorter_closed_def)
    then have "set (successors s w) = ?r `` {w}" by (auto simp: successor_edges_def)
    from 3(2) [OF False w 3(3) search_inv_push [OF 3(4) False this]] False w show ?thesis by auto
  qed
qed (simp add: verdict_def, blast)

lemma search_inv_root:
  assumes "search_inv r [] seen" and "n \<notin> seen" and "set us = r `` {n}"
  shows "search_inv r [(n, us)] (insert n seen)"
proof -
  have "finished [(n, us)] (insert n seen) = finished [] seen" using assms(2) by (auto simp: finished_def)
  with assms show ?thesis by (auto simp: search_inv_def)
qed

abbreviation search_node :: "'n sorter \<Rightarrow> bool \<times> 'n set \<Rightarrow> 'n \<Rightarrow> graph_error + bool \<times> 'n set" where
  "search_node s \<equiv> \<lambda>(found, seen) n.
     if found \<or> n \<in> seen then Inr (found, seen) else search_cycle s [(n, successors s n)] (insert n seen)"

lemma search_node_exact:
  assumes "sorter_closed s" and "n \<in> set (node2info s)" and "verdict (successor_edges s) found seen"
  shows "\<exists>found' seen'. search_node s (found, seen) n = Inr (found', seen') \<and> verdict (successor_edges s) found' seen'
    \<and> (found' \<or> \<not> found \<and> insert n seen \<subseteq> seen')"
proof (cases "found \<or> n \<in> seen")
  case False
  have "set (successors s n) = successor_edges s `` {n}" using assms(2) by (auto simp: successor_edges_def)
  moreover have "search_inv (successor_edges s) [] seen" using assms(3) False by (simp add: verdict_def)
  ultimately have "search_inv (successor_edges s) [(n, successors s n)] (insert n seen)"
    using False by (intro search_inv_root) auto
  from search_cycle_exact [OF assms(1) this] False show ?thesis by auto
qed (use assms(3) in auto)

lemma search_nodes:
  assumes "sorter_closed s" and "set ns \<subseteq> set (node2info s)" and "verdict (successor_edges s) found seen"
  shows "\<exists>found' seen'. efold (search_node s) (found, seen) ns = Inr (found', seen')
    \<and> verdict (successor_edges s) found' seen' \<and> (found' \<or> \<not> found \<and> set ns \<union> seen \<subseteq> seen')"
  using assms(2,3)
proof (induction ns arbitrary: found seen)
  case (Cons n ns)
  from search_node_exact [OF assms(1) _ Cons.prems(2), of n] Cons.prems(1) obtain found1 seen1 where
    one: "search_node s (found, seen) n = Inr (found1, seen1)" "verdict (successor_edges s) found1 seen1"
    "found1 \<or> \<not> found \<and> insert n seen \<subseteq> seen1" by auto
  from Cons.IH [OF _ one(2)] Cons.prems(1) obtain found2 seen2 where
    "efold (search_node s) (found1, seen1) ns = Inr (found2, seen2)" "verdict (successor_edges s) found2 seen2"
    "found2 \<or> \<not> found1 \<and> set ns \<union> seen1 \<subseteq> seen2" by auto
  with one(1,3) show ?case by (intro exI [of _ found2] exI [of _ seen2]) (auto simp del: case_prod_conv)
qed auto

lemma find_cycle_exact:
  assumes "sorter_closed s"
  shows "find_cycle s = Inr (\<exists>x. (x, x) \<in> (successor_edges s)\<^sup>+)"
proof -
  have "verdict (successor_edges s) False {}" by (simp add: verdict_def search_inv_def finished_def)
  from search_nodes [OF assms order_refl this] obtain found seen where
    run: "efold (search_node s) (False, {}) (node2info s) = Inr (found, seen)"
    and verdict: "verdict (successor_edges s) found seen" and all: "found \<or> set (node2info s) \<subseteq> seen" by auto
  have "found \<longleftrightarrow> (\<exists>x. (x, x) \<in> (successor_edges s)\<^sup>+)"
  proof (cases found)
    case False
    then have "\<forall>x \<in> seen. (x, x) \<notin> (successor_edges s)\<^sup>+" "set (node2info s) \<subseteq> seen"
      using verdict all by (auto simp: verdict_def search_inv_def finished_def)
    moreover have "x \<in> set (node2info s)" if "(x, x) \<in> (successor_edges s)\<^sup>+" for x
      using tranclD [OF that] by (auto simp: successor_edges_def)
    ultimately show ?thesis using False by blast
  qed (use verdict in \<open>simp add: verdict_def\<close>)
  with run show ?thesis by (simp add: find_cycle_def)
qed

section \<open>The sorter of a graph\<close>

text \<open>A node may occur only as an adjacent node.\<close>

definition graph_edges :: "('n, 'n list) dict \<Rightarrow> ('n \<times> 'n) set" where
  "graph_edges g = {(n, d). \<exists>ds. (n, ds) \<in> set g \<and> d \<in> set ds}"

lemma nodeinfo_edges:
  assumes "sorter_closed s"
  shows "sorter_closed (sorter_nodeinfo n s)" "successor_edges (sorter_nodeinfo n s) = successor_edges s"
    "set (node2info (sorter_nodeinfo n s)) = insert n (set (node2info s))" "ready_nodes (sorter_nodeinfo n s) = ready_nodes s"
  using assms by (auto simp: sorter_nodeinfo_def sorter_closed_def successor_edges_def split: if_splits)

lemma add_successor_edges:
  assumes "sorter_closed s" and "n \<in> set (node2info s)"
  shows "sorter_closed (sorter_add_successor n p s)"
    "successor_edges (sorter_add_successor n p s) = insert (p, n) (successor_edges s)"
    "n \<in> set (node2info (sorter_add_successor n p s))" "ready_nodes (sorter_add_successor n p s) = ready_nodes s"
proof -
  let ?s = "sorter_nodeinfo p s"
  have eq: "sorter_add_successor n p s = ?s\<lparr>successors := (successors ?s)(p := successors ?s p @ [n])\<rparr>"
    by (simp add: sorter_add_successor_def Let_def)
  note info = nodeinfo_edges [OF assms(1), of p]
  show "sorter_closed (sorter_add_successor n p s)" using info(1,3) assms(2) unfolding eq by (auto simp: sorter_closed_def)
  have "successor_edges (sorter_add_successor n p s) = insert (p, n) (successor_edges ?s)"
    using info(3) unfolding eq by (auto simp: successor_edges_def split: if_splits)
  then show "successor_edges (sorter_add_successor n p s) = insert (p, n) (successor_edges s)" by (simp add: info(2))
  show "n \<in> set (node2info (sorter_add_successor n p s))" "ready_nodes (sorter_add_successor n p s) = ready_nodes s"
    using info(3,4) assms(2) unfolding eq by simp_all
qed

lemma add_successors_edges:
  assumes "sorter_closed s" and "n \<in> set (node2info s)"
  shows "sorter_closed (fold (sorter_add_successor n) ps s)
    \<and> successor_edges (fold (sorter_add_successor n) ps s) = {(p, n) | p. p \<in> set ps} \<union> successor_edges s
    \<and> ready_nodes (fold (sorter_add_successor n) ps s) = ready_nodes s"
  using assms
proof (induction ps arbitrary: s)
  case (Cons p ps)
  note one = add_successor_edges [OF Cons.prems, of p]
  from Cons.IH [OF one(1,3)] one(2,4) show ?case by auto
qed auto

lemma sorter_add_edges:
  assumes "sorter_closed s" and "ready_nodes s = None"
  shows "\<exists>s'. sorter_add n ds s = Inr s' \<and> sorter_closed s' \<and> ready_nodes s' = None
    \<and> successor_edges s' = {(d, n) | d. d \<in> set ds} \<union> successor_edges s"
proof -
  note info = nodeinfo_edges [OF assms(1), of n]
  let ?s = "(sorter_nodeinfo n s)\<lparr>npredecessors := (npredecessors (sorter_nodeinfo n s))
      (n := npredecessors (sorter_nodeinfo n s) n + int (length ds))\<rparr>"
  have "sorter_closed ?s" "successor_edges ?s = successor_edges s" "n \<in> set (node2info ?s)" "ready_nodes ?s = None"
    using info assms(2) by (simp_all add: sorter_closed_def successor_edges_def)
  with add_successors_edges [of ?s n ds] assms(2) show ?thesis by (simp add: sorter_add_def Let_def)
qed

lemma sorter_of_edges:
  assumes "sorter_closed s" and "ready_nodes s = None"
  shows "\<exists>s'. efold (\<lambda>s (n, adjacent). sorter_add n adjacent s) s g = Inr s' \<and> sorter_closed s'
    \<and> successor_edges s' = (graph_edges g)\<inverse> \<union> successor_edges s"
  using assms
proof (induction g arbitrary: s)
  case Nil
  then show ?case by (simp add: graph_edges_def)
next
  case (Cons entry g)
  obtain n ds where entry: "entry = (n, ds)" by (cases entry)
  from sorter_add_edges [OF Cons.prems, of n ds] obtain s1 where s1: "sorter_add n ds s = Inr s1" "sorter_closed s1"
    "ready_nodes s1 = None" "successor_edges s1 = {(d, n) | d. d \<in> set ds} \<union> successor_edges s" by blast
  have "(graph_edges (entry # g))\<inverse> = {(d, n) | d. d \<in> set ds} \<union> (graph_edges g)\<inverse>"
    by (auto simp: graph_edges_def entry)
  with Cons.IH [OF s1(2,3)] s1(1,4) entry show ?case by auto
qed

section \<open>Property\<close>

text \<open>C5: the cycle check returns for every graph, and says exactly whether its edges are cyclic; a node that
  is only adjacent to others counts.\<close>

theorem has_cycle_exact: "has_cycle g = Inr (\<not> acyclic (graph_edges g))"
proof -
  have "sorter_closed new_sorter" "successor_edges new_sorter = {}" "ready_nodes new_sorter = None"
    by (simp_all add: new_sorter_def sorter_closed_def successor_edges_def)
  with sorter_of_edges [of new_sorter g] obtain s where
    s: "sorter_of g = Inr s" "sorter_closed s" "successor_edges s = (graph_edges g)\<inverse>"
    by (auto simp: sorter_of_def)
  have "(\<exists>x. (x, x) \<in> (successor_edges s)\<^sup>+) \<longleftrightarrow> \<not> acyclic (graph_edges g)"
    unfolding s(3) acyclic_def trancl_converse by simp
  with s(1) find_cycle_exact [OF s(2)] show ?thesis by (simp add: has_cycle_def)
qed

end
