(* ===== verification/PlanCycles.thy ===== *)
theory PlanCycles
  imports PlanProofs ComponentProofs GraphCycle
begin

text \<open>
  Cycle reports of the planner: \<open>dependency_cycles\<close> and \<open>resource_dependency_cycles\<close>
  (raes_processor/semantics/planner.py) and the diagnostics of ordering cycles per domain
  (raes_processor/planner/ordering.py), with their relation to the orders of a plan.
\<close>

section \<open>Operations\<close>

text \<open>The nodes of the graph are sorted first, with every key computed; from then on a key is the node.\<close>

definition dependency_cycles :: "(address, address list) dict \<Rightarrow> planner_error + address list list" where
  "dependency_cycles dependencies_by_node =
     (let graph = dependency_graph dependencies_by_node in
      ebind (canonical_sorted (dkeys graph)) (\<lambda>_.
        map_sum GraphError id (cyclic_components id graph)))"

definition resource_dependency_cycles ::
    "(address, 'a dependency_semantics_scheme) dict \<Rightarrow> planner_error + address list list" where
  "resource_dependency_cycles resources =
     ebind (dependency_graph_for_resources resources ORDERING) dependency_cycles"

record cycle_diagnostic =
  cd_code :: string
  cd_domain :: runtime_domain
  cd_address :: address
  cd_cycle :: "address list" \<comment> \<open>the message renders it\<close>

definition runtime_domain_text :: "runtime_domain \<Rightarrow> string" where
  "runtime_domain_text d =
     (case d of PROVISIONING \<Rightarrow> ''provisioning'' | ORCHESTRATION \<Rightarrow> ''orchestration''
      | EVALUATION \<Rightarrow> ''evaluation'' | PARTICIPANT \<Rightarrow> ''participant'')"

definition cycle_diagnostic_of :: "runtime_domain \<Rightarrow> address list \<Rightarrow> planner_error + cycle_diagnostic" where
  "cycle_diagnostic_of d cycle =
     (case cycle of
        [] \<Rightarrow> Inl (GraphError EmptyComponent)
      | a # _ \<Rightarrow> Inr \<lparr>cd_code = runtime_domain_text d @ ''.ordering-cycle'', cd_domain = d, cd_address = a, cd_cycle = cycle\<rparr>)"

definition ordering_cycle_diagnostics ::
    "(address, ('p, 'b) planned_resource) dict \<Rightarrow> planner_error + cycle_diagnostic list" where
  "ordering_cycle_diagnostics resources =
     efold (\<lambda>diagnostics d.
         ebind (resource_dependency_cycles (domain_resources d resources)) (\<lambda>cycles.
         ebind (collect (cycle_diagnostic_of d) cycles) (\<lambda>found.
           Inr (diagnostics @ found))))
       [] [PROVISIONING, ORCHESTRATION, EVALUATION, PARTICIPANT]"

section \<open>Reports and orders\<close>

lemma dependency_cycles_closed:
  assumes "graph_closed g" and "canonical_keys g"
  shows "dependency_cycles g = map_sum GraphError id (cyclic_components id g)"
  using assms by (simp add: dependency_cycles_def dependency_graph_closed_id Let_def del: set_map)

lemma resource_cycles_are_components:
  assumes "resources_ok rs"
  shows "resource_dependency_cycles rs = map_sum GraphError id (cyclic_components id (resource_graph ORDERING rs))"
  using assms
  by (simp add: resources_ok_def resource_dependency_cycles_def dependency_graph_for_resources_ok
      dependency_cycles_closed resource_graph_closed del: set_map)

lemma resource_cycles_correct:
  assumes "resources_ok rs"
  obtains cs where "resource_dependency_cycles rs = Inr cs" "distinct cs"
    "set ` set cs = {strong_component (resource_depends ORDERING rs) n | n. (n, n) \<in> (resource_depends ORDERING rs)\<^sup>+}"
    "\<forall>c \<in> set cs. sorted_unique c" "sorted cs"
proof -
  have closed: "graph_closed (resource_graph ORDERING rs)"
    using assms by (simp add: resources_ok_def resource_graph_closed)
  from cyclic_components_correct [OF closed, of id] obtain cs where
    "cyclic_components id (resource_graph ORDERING rs) = Inr cs" "distinct cs"
    "set ` set cs = {strong_component (depends (resource_graph ORDERING rs)) n | n.
       (n, n) \<in> (depends (resource_graph ORDERING rs))\<^sup>+}"
    "\<forall>c \<in> set cs. distinct c \<and> sorted (map id c)" "sorted (map (map id) cs)" .
  then show thesis
    by (intro that [of cs])
      (simp_all add: resource_cycles_are_components [OF assms] depends_resource_graph sorted_unique_iff)
qed

lemma no_cycles_iff_acyclic:
  assumes "resources_ok rs"
  shows "resource_dependency_cycles rs = Inr [] \<longleftrightarrow> acyclic (resource_depends ORDERING rs)"
proof -
  from resource_cycles_correct [OF assms] obtain cs where cs: "resource_dependency_cycles rs = Inr cs"
    "set ` set cs = {strong_component (resource_depends ORDERING rs) n | n. (n, n) \<in> (resource_depends ORDERING rs)\<^sup>+}" .
  have "cs = [] \<longleftrightarrow> set ` set cs = {}" by simp
  also have "\<dots> \<longleftrightarrow> acyclic (resource_depends ORDERING rs)" unfolding cs(2) acyclic_def by auto
  finally show ?thesis by (simp add: cs(1))
qed

lemma precedes_irrefl: "distinct xs \<Longrightarrow> \<not> precedes xs a a"
  by (auto simp: precedes_def)

lemma precedes_trancl:
  assumes "distinct xs" and "\<And>n d. (n, d) \<in> r \<Longrightarrow> precedes xs d n" and "(n, d) \<in> r\<^sup>+"
  shows "precedes xs d n"
  using assms(3)
proof (induction rule: trancl_induct)
  case (step d e)
  then show ?case using assms(1,2) by (blast intro: precedes_trans)
qed (rule assms(2))

lemma no_cycles_iff_ordered:
  assumes "resources_ok rs" and order: "resource_topological_order rs = Inr xs"
  shows "resource_dependency_cycles rs = Inr [] \<longleftrightarrow> (\<forall>(n, d) \<in> resource_depends ORDERING rs. precedes xs d n)"
  unfolding no_cycles_iff_acyclic [OF assms(1)]
proof
  assume "acyclic (resource_depends ORDERING rs)"
  then show "\<forall>(n, d) \<in> resource_depends ORDERING rs. precedes xs d n"
    using resource.order_step [OF assms] blocked_by_acyclic [of "resource_depends ORDERING rs"] by auto
next
  assume ordered: "\<forall>(n, d) \<in> resource_depends ORDERING rs. precedes xs d n"
  have "distinct xs" using resource.order_nodes [OF assms] by simp
  have "\<And>n d. (n, d) \<in> resource_depends ORDERING rs \<Longrightarrow> precedes xs d n" using ordered by blast
  from precedes_trancl [OF \<open>distinct xs\<close> this] precedes_irrefl [OF \<open>distinct xs\<close>]
  have "(n, n) \<notin> (resource_depends ORDERING rs)\<^sup>+" for n by metis
  then show "acyclic (resource_depends ORDERING rs)" by (simp add: acyclic_def)
qed

lemma domain_diagnostics:
  assumes "model_ok rs"
  shows "\<exists>cycles found. resource_dependency_cycles (domain_resources d rs) = Inr cycles
    \<and> collect (cycle_diagnostic_of d) cycles = Inr found
    \<and> (found = [] \<longleftrightarrow> resource_dependency_cycles (domain_resources d rs) = Inr [])"
proof -
  have "resources_ok (domain_resources d rs)"
    unfolding domain_resources_def by (intro model_ok_resources model_ok_filter assms)
  from resource_cycles_correct [OF this] obtain cycles where
    cycles: "resource_dependency_cycles (domain_resources d rs) = Inr cycles"
    "set ` set cycles = {strong_component (resource_depends ORDERING (domain_resources d rs)) n | n.
       (n, n) \<in> (resource_depends ORDERING (domain_resources d rs))\<^sup>+}" .
  have "c \<noteq> []" if "c \<in> set cycles" for c
  proof -
    have "set c \<in> set ` set cycles" using that by blast
    then obtain n where "set c = strong_component (resource_depends ORDERING (domain_resources d rs)) n"
      unfolding cycles(2) by blast
    then have "n \<in> set c" by simp
    then show ?thesis by auto
  qed
  then have "\<exists>v. cycle_diagnostic_of d c = Inr v" if "c \<in> set cycles" for c
    using that by (cases c) (auto simp: cycle_diagnostic_of_def)
  then obtain found where "collect (cycle_diagnostic_of d) cycles = Inr found" "length found = length cycles"
    using collect_ok [of cycles "cycle_diagnostic_of d"] by (metis collect_eq_Inr list_all2_lengthD)
  with cycles(1) show ?thesis by auto
qed

lemma no_diagnostics_iff:
  assumes "model_ok rs"
  shows "ordering_cycle_diagnostics rs = Inr [] \<longleftrightarrow> (\<forall>d. resource_dependency_cycles (domain_resources d rs) = Inr [])"
proof -
  obtain found where found: "\<And>d. \<exists>cycles. resource_dependency_cycles (domain_resources d rs) = Inr cycles
      \<and> collect (cycle_diagnostic_of d) cycles = Inr (found d)"
    and none: "\<And>d. found d = [] \<longleftrightarrow> resource_dependency_cycles (domain_resources d rs) = Inr []"
    using domain_diagnostics [OF assms] by metis
  have "ebind (resource_dependency_cycles (domain_resources d rs)) (\<lambda>cycles.
      ebind (collect (cycle_diagnostic_of d) cycles) (\<lambda>new. Inr (ds @ new))) = Inr (ds @ found d)" for d ds
    using found [of d] by auto
  then have "ordering_cycle_diagnostics rs = Inr (found PROVISIONING @ found ORCHESTRATION @ found EVALUATION @ found PARTICIPANT)"
    by (simp add: ordering_cycle_diagnostics_def)
  moreover have "(\<forall>d. found d = []) \<longleftrightarrow> found PROVISIONING = [] \<and> found ORCHESTRATION = [] \<and> found EVALUATION = [] \<and> found PARTICIPANT = []"
    by (metis runtime_domain.exhaust)
  ultimately show ?thesis unfolding none [symmetric] by simp
qed

section \<open>Properties\<close>

text \<open>C4: the cycle report of the resources lists exactly the strongly connected components of their ordering
  dependencies that contain a cycle, each once, with members and components sorted.\<close>

theorem resource_cycles_exact:
  assumes "dict_ok rs" and "canonical_keys rs"
  shows "\<exists>cs. resource_dependency_cycles rs = Inr cs \<and> distinct cs \<and> sorted cs \<and> (\<forall>c \<in> set cs. sorted_unique c)
    \<and> set ` set cs = {strong_component (resource_depends ORDERING rs) n | n. (n, n) \<in> (resource_depends ORDERING rs)\<^sup>+}"
proof -
  have "resources_ok rs" using assms by (simp add: resources_ok_def)
  from resource_cycles_correct [OF this] obtain cs where "resource_dependency_cycles rs = Inr cs" "distinct cs"
    "set ` set cs = {strong_component (resource_depends ORDERING rs) n | n. (n, n) \<in> (resource_depends ORDERING rs)\<^sup>+}"
    "\<forall>c \<in> set cs. sorted_unique c" "sorted cs" .
  then show ?thesis by (intro exI [of _ cs] conjI)
qed

text \<open>A model gets no cycle diagnostic exactly when, in every domain, the order in which its resources are
  applied puts each resource after everything that it depends on.\<close>

theorem no_diagnostic_iff_dependencies_first:
  assumes "model_ok rs"
  shows "ordering_cycle_diagnostics rs = Inr [] \<longleftrightarrow>
    (\<forall>d. \<exists>xs. resource_topological_order (domain_resources d rs) = Inr xs
       \<and> (\<forall>(n, e) \<in> resource_depends ORDERING (domain_resources d rs). precedes xs e n))"
proof -
  have "resource_dependency_cycles (domain_resources d rs) = Inr [] \<longleftrightarrow>
      (\<exists>xs. resource_topological_order (domain_resources d rs) = Inr xs
        \<and> (\<forall>(n, e) \<in> resource_depends ORDERING (domain_resources d rs). precedes xs e n))" for d
  proof -
    have ok: "resources_ok (domain_resources d rs)"
      unfolding domain_resources_def by (intro model_ok_resources model_ok_filter assms)
    from resource.order_total [OF ok] obtain xs where xs: "resource_topological_order (domain_resources d rs) = Inr xs" by blast
    from no_cycles_iff_ordered [OF ok xs] xs show ?thesis by auto
  qed
  then show ?thesis unfolding no_diagnostics_iff [OF assms] by blast
qed

text \<open>Two resources that depend on each other and one that depends on itself.\<close>

definition cyclic_resources :: "(address, dependency_semantics) dict" where
  "cyclic_resources =
     [(''provision.node.b'', \<lparr>ordering_dependencies = [''provision.node.a'', ''provision.node.d''], refresh_dependencies = []\<rparr>),
      (''provision.node.a'', \<lparr>ordering_dependencies = [''provision.node.b''], refresh_dependencies = []\<rparr>),
      (''provision.node.c'', \<lparr>ordering_dependencies = [''provision.node.c'', ''provision.node.a''], refresh_dependencies = []\<rparr>),
      (''provision.node.d'', \<lparr>ordering_dependencies = [], refresh_dependencies = []\<rparr>)]"

lemma cyclic_resources_report:
  "resource_dependency_cycles cyclic_resources =
     Inr [[''provision.node.a'', ''provision.node.b''], [''provision.node.c'']]"
  by code_simp

theorem resource_cycles_exact_witness:
  "{strong_component (resource_depends ORDERING cyclic_resources) n | n.
      (n, n) \<in> (resource_depends ORDERING cyclic_resources)\<^sup>+}
    = {{''provision.node.a'', ''provision.node.b''}, {''provision.node.c''}}"
proof -
  have "dict_ok cyclic_resources" "canonical_keys cyclic_resources" by code_simp+
  from resource_cycles_exact [OF this] cyclic_resources_report show ?thesis by auto
qed

theorem no_diagnostic_iff_dependencies_first_witness:
  "\<exists>xs. resource_topological_order (domain_resources ORCHESTRATION example_model) = Inr xs
     \<and> (\<forall>(n, e) \<in> resource_depends ORDERING (domain_resources ORCHESTRATION example_model). precedes xs e n)"
proof -
  have "ordering_cycle_diagnostics example_model = Inr []" by code_simp
  with no_diagnostic_iff_dependencies_first [OF example_ok(1)] show ?thesis by blast
qed

end
