(* ===== verification/TimeModel.thy ===== *)
theory TimeModel
  imports Addressing Complex_Main
begin

text \<open>
  The shared-time contracts (raes_contracts/contracts/time_model.py): declarations of time
  domains, clocks, mappings, progression policies and temporal constraints, the runtime state
  of the clocks with its append-only history, and the validators that bind them.

  Each model is a record, and \<open>check_X\<close> is the validation that constructing the model runs:
  the field constraints and then the validators of the class. \<open>Literal\<close> string types are
  datatypes. The digest of a declaration (SHA-256 over its JSON text) is the argument
  \<open>digest\<close> of the definitions that use it.
\<close>

section \<open>Data\<close>

datatype time_error =
    BadTimeAddress | BadNumber | EmptyString | RatioNotReduced
  | BadEpoch | BadJumpPolicy | BadProgressionPolicy | BadConstraintShape | StartAfterEnd
  | TimeMapKey | CyclicMappings | BadIdentityMapping | UnknownReference | SelfMapping
  | UnsupportedBehavior | DuplicatePolicy | EmptyCollection
  | BadHistoryStart | BadSequence | BadPrevious | BadTransition | BadFinalState | BadDigest
  | DigestMismatch | ClockSetMismatch | ClockBindingMismatch | StateRemoved | HistoryRewritten
  | BadProvenance
  | AlreadyInitialized | NotInitialized | UnknownClock | UnknownMapping | NotSupported
  | WrongClockState | NegativeAdvance | NoAdvance | WrongStep | NoPolicy | EmptyTimeModel
  | DuplicateTimeAddress

datatype time_domain_kind = WallClock | Monotonic | Simulated | Logical | ExternalTime
datatype time_visibility = RuntimeOnly | ParticipantVisible | EvidenceOnly
datatype time_epoch = Unix | ScenarioStart | RunStart | Unanchored | ExternalEpoch
datatype clock_authority = RuntimeAuthority | BackendAuthority | SystemAuthority | ExternalAuthority
datatype clock_monotonicity = StrictClock | NonDecreasing | MayJump
datatype time_mapping_kind = IdentityMapping | AffineRational
datatype advancement_mode = RealTime | Dilated | Stepped | EventDriven | ExternallyPaced
datatype synchronization_mode = NoSync | AuthoritySync | BarrierSync | ConservativeSync
datatype reset_behavior = ResetUnsupported | NewSegmentZero | NewSegmentPreserveValue
datatype replay_behavior = ReplayUnsupported | RestartFromAnchor | RestoreRecordedAdvances
datatype constraint_kind = Precedence | Duration | Window | Deadline | Cadence
datatype clock_lifecycle = RUNNING | PAUSED
datatype transition_kind = Initialize | Advance | Pause | Resume | Jump | Reset | Replay

datatype exact_ratio = Ratio (numerator: int) (denominator: int)

datatype time_coordinate = Coordinate (segment: int) (tick: int) (microstep: int)

text \<open>Coordinates are ordered as the code compares them, segment first.\<close>

instantiation time_coordinate :: linorder
begin

definition less_eq_time_coordinate :: "time_coordinate \<Rightarrow> time_coordinate \<Rightarrow> bool" where
  "c \<le> d \<longleftrightarrow> segment c < segment d \<or> segment c = segment d \<and>
     (tick c < tick d \<or> tick c = tick d \<and> microstep c \<le> microstep d)"

definition less_time_coordinate :: "time_coordinate \<Rightarrow> time_coordinate \<Rightarrow> bool" where
  "c < d \<longleftrightarrow> segment c < segment d \<or> segment c = segment d \<and>
     (tick c < tick d \<or> tick c = tick d \<and> microstep c < microstep d)"

instance
  by standard (auto simp: less_eq_time_coordinate_def less_time_coordinate_def
      intro: time_coordinate.expand)

end

record time_domain =
  domain_address :: address
  domain_kind :: time_domain_kind
  tick_period :: exact_ratio
  domain_epoch :: time_epoch
  domain_visibility :: time_visibility
  domain_description :: string

record clock_declaration =
  clock_address :: address
  clock_domain :: address
  clock_authority_kind :: clock_authority
  clock_authority_ref :: string
  monotonicity :: clock_monotonicity
  supports_pause :: bool
  supports_reset :: bool
  supports_jump :: bool
  clock_description :: string

record domain_mapping =
  mapping_address :: address
  source_domain :: address
  target_domain :: address
  mapping_kind :: time_mapping_kind
  scale :: exact_ratio
  offset_ticks :: int
  mapping_description :: string

record progression_policy =
  policy_address :: address
  policy_clock :: address
  policy_advancement :: advancement_mode
  pacing_ratio :: exact_ratio
  policy_synchronization :: synchronization_mode
  step_ticks :: "int option"
  drift_bound_ticks :: "int option"
  policy_reset :: reset_behavior
  policy_replay :: replay_behavior
  policy_description :: string

record temporal_constraint =
  constraint_address :: address
  constraint_kind :: constraint_kind
  constraint_clock :: address
  subject_addresses :: "address list"
  constraint_start :: "time_coordinate option"
  constraint_end :: "time_coordinate option"
  duration_ticks :: "int option"
  cadence_ticks :: "int option"
  constraint_description :: string

record time_model =
  domains :: "(address, time_domain) dict"
  clocks :: "(address, clock_declaration) dict"
  mappings :: "(address, domain_mapping) dict"
  progression_policies :: "(address, progression_policy) dict"
  temporal_constraints :: "(address, temporal_constraint) dict"

record clock_event =
  event_sequence :: int
  event_kind :: transition_kind
  event_previous :: "time_coordinate option"
  event_resulting :: time_coordinate
  event_state :: clock_lifecycle

record runtime_clock =
  rc_clock :: address
  rc_domain :: address
  rc_policy :: "address option"
  rc_authority_kind :: clock_authority
  rc_authority_ref :: string
  rc_state :: clock_lifecycle
  rc_coordinate :: time_coordinate
  rc_sequence :: int
  rc_history :: "clock_event list"

record time_runtime_state =
  declaration_digest :: string
  runtime_clocks :: "(address, runtime_clock) dict"

section \<open>Field and declaration validators\<close>

definition check_address :: "address \<Rightarrow> time_error + unit" where
  "check_address a = require (compiled_address a) BadTimeAddress"

definition check_text :: "string \<Rightarrow> time_error + unit" where
  "check_text s = require (s \<noteq> []) EmptyString"

definition check_ratio :: "exact_ratio \<Rightarrow> time_error + unit" where
  "check_ratio r =
     ebind (require (0 < numerator r \<and> 0 < denominator r) BadNumber) (\<lambda>_.
       require (gcd (numerator r) (denominator r) = 1) RatioNotReduced)"

definition check_coordinate :: "time_coordinate \<Rightarrow> time_error + unit" where
  "check_coordinate c = require (0 \<le> segment c \<and> 0 \<le> microstep c) BadNumber"

definition check_positive :: "int option \<Rightarrow> time_error + unit" where
  "check_positive m = require (case m of None \<Rightarrow> True | Some n \<Rightarrow> 0 < n) BadNumber"

definition check_domain :: "time_domain \<Rightarrow> time_error + unit" where
  "check_domain d =
     ebind (check_address (domain_address d)) (\<lambda>_.
     ebind (check_ratio (tick_period d)) (\<lambda>_.
     ebind (check_text (domain_description d)) (\<lambda>_.
     ebind (require (domain_kind d = WallClock \<longrightarrow> domain_epoch d = Unix) BadEpoch) (\<lambda>_.
       require (\<not> (domain_kind d = Monotonic \<and> domain_epoch d = Unix)) BadEpoch))))"

definition check_clock :: "clock_declaration \<Rightarrow> time_error + unit" where
  "check_clock c =
     ebind (check_address (clock_address c)) (\<lambda>_.
     ebind (check_address (clock_domain c)) (\<lambda>_.
     ebind (check_text (clock_authority_ref c)) (\<lambda>_.
     ebind (check_text (clock_description c)) (\<lambda>_.
     ebind (require (\<not> (monotonicity c = MayJump \<and> \<not> supports_jump c)) BadJumpPolicy) (\<lambda>_.
       require (\<not> (monotonicity c \<noteq> MayJump \<and> supports_jump c)) BadJumpPolicy)))))"

definition check_mapping :: "domain_mapping \<Rightarrow> time_error + unit" where
  "check_mapping m =
     ebind (check_address (mapping_address m)) (\<lambda>_.
     ebind (check_address (source_domain m)) (\<lambda>_.
     ebind (check_address (target_domain m)) (\<lambda>_.
     ebind (check_ratio (scale m)) (\<lambda>_. check_text (mapping_description m)))))"

definition check_policy :: "progression_policy \<Rightarrow> time_error + unit" where
  "check_policy p =
     ebind (check_address (policy_address p)) (\<lambda>_.
     ebind (check_address (policy_clock p)) (\<lambda>_.
     ebind (check_ratio (pacing_ratio p)) (\<lambda>_.
     ebind (check_positive (step_ticks p)) (\<lambda>_.
     ebind (require (case drift_bound_ticks p of None \<Rightarrow> True | Some n \<Rightarrow> 0 \<le> n) BadNumber) (\<lambda>_.
     ebind (check_text (policy_description p)) (\<lambda>_.
     ebind (require (\<not> (policy_advancement p = Stepped \<and> step_ticks p = None)) BadProgressionPolicy) (\<lambda>_.
     ebind (require (\<not> (policy_advancement p \<noteq> Stepped \<and> step_ticks p \<noteq> None)) BadProgressionPolicy) (\<lambda>_.
       require (\<not> (policy_advancement p \<notin> {RealTime, Dilated} \<and> pacing_ratio p \<noteq> Ratio 1 1))
         BadProgressionPolicy))))))))"

definition constraint_shape_ok :: "temporal_constraint \<Rightarrow> bool" where
  "constraint_shape_ok c =
     (case constraint_kind c of
        Precedence \<Rightarrow> length (subject_addresses c) = 2
      | Duration \<Rightarrow> duration_ticks c \<noteq> None
      | Window \<Rightarrow> constraint_start c \<noteq> None \<and> constraint_end c \<noteq> None
      | Deadline \<Rightarrow> constraint_end c \<noteq> None
      | Cadence \<Rightarrow> cadence_ticks c \<noteq> None)"

definition check_optional :: "('a \<Rightarrow> time_error + unit) \<Rightarrow> 'a option \<Rightarrow> time_error + unit" where
  "check_optional f m = (case m of None \<Rightarrow> Inr () | Some x \<Rightarrow> f x)"

definition check_constraint :: "temporal_constraint \<Rightarrow> time_error + unit" where
  "check_constraint c =
     ebind (check_address (constraint_address c)) (\<lambda>_.
     ebind (check_address (constraint_clock c)) (\<lambda>_.
     ebind (require (subject_addresses c \<noteq> []) EmptyCollection) (\<lambda>_.
     ebind (echeck check_address (subject_addresses c)) (\<lambda>_.
     ebind (check_optional check_coordinate (constraint_start c)) (\<lambda>_.
     ebind (check_optional check_coordinate (constraint_end c)) (\<lambda>_.
     ebind (check_positive (duration_ticks c)) (\<lambda>_.
     ebind (check_positive (cadence_ticks c)) (\<lambda>_.
     ebind (check_text (constraint_description c)) (\<lambda>_.
     ebind (require (distinct (subject_addresses c)) BadConstraintShape) (\<lambda>_.
     ebind (require (constraint_shape_ok c) BadConstraintShape) (\<lambda>_.
       require (case (constraint_start c, constraint_end c) of
                  (Some s, Some e) \<Rightarrow> \<not> s > e | _ \<Rightarrow> True) StartAfterEnd)))))))))))"

text \<open>\<open>_validate_address_map\<close>, for an embedded address read by \<open>addr\<close>.\<close>

definition validate_address_map :: "('v \<Rightarrow> address) \<Rightarrow> (address, 'v) dict \<Rightarrow> time_error + unit" where
  "validate_address_map addr values = echeck (\<lambda>(k, v). require (k = addr v) TimeMapKey) values"

section \<open>The mapping graph\<close>

definition add_mapping_edge ::
    "(address, address list) dict \<Rightarrow> domain_mapping \<Rightarrow> (address, address list) dict" where
  "add_mapping_edge graph m =
     (let ts = (case dget graph (source_domain m) of None \<Rightarrow> [] | Some ts \<Rightarrow> ts)
      in dput (source_domain m)
           (if target_domain m \<in> set ts then ts else ts @ [target_domain m]) graph)"

definition mapping_graph :: "(address, domain_mapping) dict \<Rightarrow> (address, address list) dict" where
  "mapping_graph ms = foldl add_mapping_edge [] (dvals ms)"

definition targets_of :: "(address, address list) dict \<Rightarrow> address \<Rightarrow> address list" where
  "targets_of graph d = (case dget graph d of None \<Rightarrow> [] | Some ts \<Rightarrow> ts)"

text \<open>
  The nested function \<open>visit\<close>, over a list of domains: \<open>visiting\<close> is the set of domains on the
  recursion stack, and the set \<open>visited\<close> is threaded through the calls.
\<close>

function visit_domains ::
    "(address, address list) dict \<Rightarrow> address list \<Rightarrow> address list \<Rightarrow> address list \<Rightarrow>
       time_error + address list" where
  "visit_domains graph visiting visited [] = Inr visited"
| "visit_domains graph visiting visited (d # ds) =
     (if d \<in> set visiting then Inl CyclicMappings
      else if d \<in> set visited then visit_domains graph visiting visited ds
      else ebind (visit_domains graph (d # visiting) visited (targets_of graph d))
             (\<lambda>visited'. visit_domains graph visiting (d # visited') ds))"
  by pat_completeness auto
termination
proof (relation "inv_image (less_than <*lex*> less_than)
    (\<lambda>(graph, visiting, _, ds). (card (set (dkeys graph) - set visiting), length ds))", goal_cases)
  case 1
  show ?case by auto
next
  case 2
  then show ?case by simp
next
  case (3 graph visiting visited d ds)
  show ?case
  proof (cases "d \<in> set (dkeys graph)")
    case True
    then have "set (dkeys graph) - set (d # visiting) \<subset> set (dkeys graph) - set visiting"
      using 3(1) by auto
    then have "card (set (dkeys graph) - set (d # visiting)) < card (set (dkeys graph) - set visiting)"
      by (intro psubset_card_mono) auto
    then show ?thesis by simp
  next
    case False
    then have "targets_of graph d = []" "set (dkeys graph) - set (d # visiting) = set (dkeys graph) - set visiting"
      using dget_Some_key [of graph d] by (auto simp: targets_of_def split: option.splits)
    then show ?thesis by (simp del: set_map list.set_map)
  qed
next
  case 4
  then show ?case by simp
qed

definition validate_acyclic_mappings :: "(address, domain_mapping) dict \<Rightarrow> time_error + unit" where
  "validate_acyclic_mappings ms =
     (let graph = mapping_graph ms in
      ebind (visit_domains graph [] [] (dkeys graph)) (\<lambda>_. Inr ()))"

section \<open>The declaration\<close>

definition validate_clock_references :: "time_model \<Rightarrow> time_error + unit" where
  "validate_clock_references tm =
     echeck (\<lambda>c. require (clock_domain c \<in> set (dkeys (domains tm))) UnknownReference) (dvals (clocks tm))"

definition validate_identity_mapping ::
    "domain_mapping \<Rightarrow> (address, time_domain) dict \<Rightarrow> time_error + unit" where
  "validate_identity_mapping m ds =
     (if mapping_kind m \<noteq> IdentityMapping then Inr ()
      else (case (dget ds (source_domain m), dget ds (target_domain m)) of
              (Some s, Some t) \<Rightarrow>
                ebind (require (tick_period s = tick_period t \<and> domain_epoch s = domain_epoch t)
                  BadIdentityMapping) (\<lambda>_.
                  require (scale m = Ratio 1 1 \<and> offset_ticks m = 0) BadIdentityMapping)
            | _ \<Rightarrow> Inl UnknownReference))"

definition validate_mapping_references :: "time_model \<Rightarrow> time_error + unit" where
  "validate_mapping_references tm =
     ebind (echeck (\<lambda>m.
       ebind (require (source_domain m \<in> set (dkeys (domains tm))
                \<and> target_domain m \<in> set (dkeys (domains tm))) UnknownReference) (\<lambda>_.
       ebind (require (source_domain m \<noteq> target_domain m) SelfMapping) (\<lambda>_.
         validate_identity_mapping m (domains tm)))) (dvals (mappings tm))) (\<lambda>_.
     validate_acyclic_mappings (mappings tm))"

definition validate_policy_references :: "time_model \<Rightarrow> time_error + unit" where
  "validate_policy_references tm =
     ebind (echeck (\<lambda>p.
       (case dget (clocks tm) (policy_clock p) of
          None \<Rightarrow> Inl UnknownReference
        | Some c \<Rightarrow>
            ebind (require (\<not> (policy_reset p \<noteq> ResetUnsupported \<and> \<not> supports_reset c))
              UnsupportedBehavior) (\<lambda>_.
              require (\<not> (policy_replay p \<noteq> ReplayUnsupported \<and> \<not> supports_reset c))
                UnsupportedBehavior))) (dvals (progression_policies tm))) (\<lambda>_.
     require (distinct (map policy_clock (dvals (progression_policies tm)))) DuplicatePolicy)"

definition validate_constraint_references :: "time_model \<Rightarrow> time_error + unit" where
  "validate_constraint_references tm =
     (let known = set (dkeys (domains tm)) \<union> set (dkeys (clocks tm)) \<union> set (dkeys (progression_policies tm)) in
      echeck (\<lambda>c.
        ebind (require (constraint_clock c \<in> set (dkeys (clocks tm))) UnknownReference) (\<lambda>_.
          require (list_all (\<lambda>s. is_compiler_owned_temporal_subject_address s \<or> s \<in> known)
            (subject_addresses c)) UnknownReference)) (dvals (temporal_constraints tm)))"

definition validate_references :: "time_model \<Rightarrow> time_error + unit" where
  "validate_references tm =
     ebind (validate_address_map domain_address (domains tm)) (\<lambda>_.
     ebind (validate_address_map clock_address (clocks tm)) (\<lambda>_.
     ebind (validate_address_map mapping_address (mappings tm)) (\<lambda>_.
     ebind (validate_address_map policy_address (progression_policies tm)) (\<lambda>_.
     ebind (validate_address_map constraint_address (temporal_constraints tm)) (\<lambda>_.
     ebind (validate_clock_references tm) (\<lambda>_.
     ebind (validate_mapping_references tm) (\<lambda>_.
     ebind (validate_policy_references tm) (\<lambda>_.
       validate_constraint_references tm))))))))"

definition check_time_model :: "time_model \<Rightarrow> time_error + unit" where
  "check_time_model tm =
     ebind (require (domains tm \<noteq> [] \<and> clocks tm \<noteq> []) EmptyCollection) (\<lambda>_.
     ebind (echeck check_address (dkeys (domains tm) @ dkeys (clocks tm) @ dkeys (mappings tm)
              @ dkeys (progression_policies tm) @ dkeys (temporal_constraints tm))) (\<lambda>_.
     ebind (echeck check_domain (dvals (domains tm))) (\<lambda>_.
     ebind (echeck check_clock (dvals (clocks tm))) (\<lambda>_.
     ebind (echeck check_mapping (dvals (mappings tm))) (\<lambda>_.
     ebind (echeck check_policy (dvals (progression_policies tm))) (\<lambda>_.
     ebind (echeck check_constraint (dvals (temporal_constraints tm))) (\<lambda>_.
       validate_references tm)))))))"

section \<open>Runtime clock state\<close>

definition check_event :: "clock_event \<Rightarrow> time_error + unit" where
  "check_event e =
     ebind (require (0 \<le> event_sequence e) BadNumber) (\<lambda>_.
     ebind (check_optional check_coordinate (event_previous e)) (\<lambda>_.
       check_coordinate (event_resulting e)))"

definition validate_transition :: "clock_event \<Rightarrow> clock_event \<Rightarrow> time_error + unit" where
  "validate_transition prev e =
     (let p = event_resulting prev; r = event_resulting e in
      (case event_kind e of
         Advance \<Rightarrow>
           ebind (require (segment r = segment p) BadTransition) (\<lambda>_.
             require (\<not> (tick r < tick p \<or> tick r = tick p \<and> microstep r \<le> microstep p)) BadTransition)
       | Pause \<Rightarrow> require (r = p) BadTransition
       | Resume \<Rightarrow> require (r = p) BadTransition
       | Jump \<Rightarrow> require (segment r = segment p + 1) BadTransition
       | Reset \<Rightarrow> require (segment r = segment p + 1) BadTransition
       | Replay \<Rightarrow> require (segment r = segment p + 1) BadTransition
       | Initialize \<Rightarrow> Inl BadTransition))"

text \<open>The loop of \<open>_validate_history\<close>: the expected sequence number and the prior event.\<close>

fun validate_events :: "int \<Rightarrow> clock_event option \<Rightarrow> clock_event list \<Rightarrow> time_error + unit" where
  "validate_events expected prior [] = Inr ()"
| "validate_events expected prior (e # es) =
     ebind (require (event_sequence e = expected) BadSequence) (\<lambda>_.
     ebind (case prior of
              None \<Rightarrow> Inr ()
            | Some p \<Rightarrow>
                ebind (require (event_previous e = Some (event_resulting p)) BadPrevious) (\<lambda>_.
                  validate_transition p e)) (\<lambda>_.
       validate_events (expected + 1) (Some e) es))"

definition validate_history :: "runtime_clock \<Rightarrow> time_error + unit" where
  "validate_history c =
     (case rc_history c of
        [] \<Rightarrow> Inl EmptyCollection
      | first # _ \<Rightarrow>
          ebind (require (event_kind first = Initialize \<and> event_previous first = None) BadHistoryStart) (\<lambda>_.
          ebind (validate_events 0 None (rc_history c)) (\<lambda>_.
            (let final = last (rc_history c) in
             require (rc_sequence c = event_sequence final \<and> rc_coordinate c = event_resulting final
               \<and> rc_state c = event_state final) BadFinalState))))"

text \<open>
  Constructing a model from already built parts checks its own fields and validators
  (\<open>construct_X\<close>); reading it from a payload checks the parts as well (\<open>check_X\<close>).
\<close>

definition construct_runtime_clock :: "runtime_clock \<Rightarrow> time_error + unit" where
  "construct_runtime_clock c =
     ebind (check_address (rc_clock c)) (\<lambda>_.
     ebind (check_address (rc_domain c)) (\<lambda>_.
     ebind (check_optional check_address (rc_policy c)) (\<lambda>_.
     ebind (check_text (rc_authority_ref c)) (\<lambda>_.
     ebind (require (0 \<le> rc_sequence c) BadNumber) (\<lambda>_. validate_history c)))))"

definition check_runtime_clock :: "runtime_clock \<Rightarrow> time_error + unit" where
  "check_runtime_clock c =
     ebind (check_coordinate (rc_coordinate c)) (\<lambda>_.
     ebind (echeck check_event (rc_history c)) (\<lambda>_. construct_runtime_clock c))"

definition hex_digit :: "char \<Rightarrow> bool" where
  "hex_digit c \<longleftrightarrow> CHR ''0'' \<le> c \<and> c \<le> CHR ''9'' \<or> CHR ''a'' \<le> c \<and> c \<le> CHR ''f''"

definition sha256_digest_text :: "string \<Rightarrow> bool" where
  "sha256_digest_text s \<longleftrightarrow>
     starts_with s ''sha256:'' \<and> length s = 71 \<and> list_all hex_digit (drop 7 s)"

definition construct_time_runtime_state :: "time_runtime_state \<Rightarrow> time_error + unit" where
  "construct_time_runtime_state st =
     ebind (require (sha256_digest_text (declaration_digest st)) BadDigest) (\<lambda>_.
     ebind (require (runtime_clocks st \<noteq> []) EmptyCollection) (\<lambda>_.
     ebind (echeck check_address (dkeys (runtime_clocks st))) (\<lambda>_.
       echeck (\<lambda>(k, c). require (k = rc_clock c) TimeMapKey) (runtime_clocks st))))"

definition check_time_runtime_state :: "time_runtime_state \<Rightarrow> time_error + unit" where
  "check_time_runtime_state st =
     ebind (echeck check_runtime_clock (dvals (runtime_clocks st))) (\<lambda>_.
       construct_time_runtime_state st)"

section \<open>Binding the runtime state to the declaration\<close>

definition policies_by_clock :: "time_model \<Rightarrow> (address, address) dict" where
  "policies_by_clock tm =
     foldl (\<lambda>d p. dput (policy_clock p) (policy_address p) d) [] (dvals (progression_policies tm))"

definition check_clock_binding ::
    "time_model \<Rightarrow> (address \<times> runtime_clock) \<Rightarrow> time_error + unit" where
  "check_clock_binding tm = (\<lambda>(a, rc).
     (case dget (clocks tm) a of
        None \<Rightarrow> Inl UnknownClock
      | Some c \<Rightarrow>
          ebind (require (rc_domain rc = clock_domain c) ClockBindingMismatch) (\<lambda>_.
          ebind (require (rc_authority_kind rc = clock_authority_kind c) ClockBindingMismatch) (\<lambda>_.
          ebind (require (rc_authority_ref rc = clock_authority_ref c) ClockBindingMismatch) (\<lambda>_.
            require (rc_policy rc = dget (policies_by_clock tm) a) ClockBindingMismatch)))))"

definition validate_time_runtime_state ::
    "(time_model \<Rightarrow> string) \<Rightarrow> time_model \<Rightarrow> time_runtime_state \<Rightarrow> time_error + unit" where
  "validate_time_runtime_state digest tm st =
     ebind (require (declaration_digest st = digest tm) DigestMismatch) (\<lambda>_.
     ebind (require (set (dkeys (runtime_clocks st)) = set (dkeys (clocks tm))) ClockSetMismatch) (\<lambda>_.
       echeck (check_clock_binding tm) (runtime_clocks st)))"

definition check_history_kept ::
    "time_runtime_state \<Rightarrow> (address \<times> runtime_clock) \<Rightarrow> time_error + unit" where
  "check_history_kept next_state = (\<lambda>(a, prior).
     (case dget (runtime_clocks next_state) a of
        None \<Rightarrow> Inl UnknownClock
      | Some nc \<Rightarrow>
          ebind (require (\<not> length (rc_history nc) < length (rc_history prior)) HistoryRewritten) (\<lambda>_.
            require (take (length (rc_history prior)) (rc_history nc) = rc_history prior) HistoryRewritten)))"

definition validate_time_runtime_transition ::
    "time_runtime_state option \<Rightarrow> time_runtime_state option \<Rightarrow> time_error + unit" where
  "validate_time_runtime_transition previous next_state =
     (case previous of
        None \<Rightarrow> Inr ()
      | Some p \<Rightarrow>
          (case next_state of
             None \<Rightarrow> Inl StateRemoved
           | Some n \<Rightarrow>
               ebind (require (declaration_digest p = declaration_digest n) DigestMismatch) (\<lambda>_.
               ebind (require (set (dkeys (runtime_clocks p)) = set (dkeys (runtime_clocks n)))
                 ClockSetMismatch) (\<lambda>_.
                 echeck (check_history_kept n) (runtime_clocks p)))))"

section \<open>Realized time provenance\<close>

datatype time_realization = RuntimeManaged | BackendNative | SystemRealized | ExternalRealized
datatype timing_limit_kind = Resolution | Drift | Jitter | Latency | Lookahead | OtherLimit

record apparatus_binding =
  binding_address :: address
  component_ref :: string
  realization_kind :: time_realization
  binding_evidence :: "string list"
  binding_limitations :: "string list"

record timing_limit =
  limit_id :: string
  limit_subject :: address
  limit_kind :: timing_limit_kind
  limit_value :: exact_ratio
  limit_unit :: string
  limit_evidence :: "string list"

record time_provenance =
  provenance_run :: string
  provenance_digest :: string
  declared_model :: time_model
  realized_model :: time_model
  apparatus_bindings :: "(address, apparatus_binding) dict"
  synchronization_assumptions :: "string list"
  timing_limits :: "timing_limit list"
  deviations :: "string list"
  provenance_evidence :: "string list"

definition check_apparatus_binding :: "apparatus_binding \<Rightarrow> time_error + unit" where
  "check_apparatus_binding b =
     ebind (check_address (binding_address b)) (\<lambda>_.
     ebind (check_text (component_ref b)) (\<lambda>_.
     ebind (require (binding_evidence b \<noteq> []) EmptyCollection) (\<lambda>_.
       echeck check_text (binding_evidence b @ binding_limitations b))))"

definition check_timing_limit :: "timing_limit \<Rightarrow> time_error + unit" where
  "check_timing_limit l =
     ebind (check_text (limit_id l)) (\<lambda>_.
     ebind (check_address (limit_subject l)) (\<lambda>_.
     ebind (check_ratio (limit_value l)) (\<lambda>_.
     ebind (check_text (limit_unit l)) (\<lambda>_.
     ebind (require (limit_evidence l \<noteq> []) EmptyCollection) (\<lambda>_.
       echeck check_text (limit_evidence l))))))"

definition time_addresses :: "time_model \<Rightarrow> address set list" where
  "time_addresses tm =
     [set (dkeys (domains tm)), set (dkeys (clocks tm)), set (dkeys (mappings tm)),
      set (dkeys (progression_policies tm)), set (dkeys (temporal_constraints tm))]"

text \<open>Equality of two declarations, as pydantic compares them: dictionaries by content.\<close>

definition same_dict :: "('k, 'v) dict \<Rightarrow> ('k, 'v) dict \<Rightarrow> bool" where
  "same_dict d e \<longleftrightarrow> set (dkeys d) = set (dkeys e) \<and> list_all (\<lambda>k. dget d k = dget e k) (dkeys d)"

definition same_time_model :: "time_model \<Rightarrow> time_model \<Rightarrow> bool" where
  "same_time_model a b \<longleftrightarrow>
     same_dict (domains a) (domains b) \<and> same_dict (clocks a) (clocks b)
     \<and> same_dict (mappings a) (mappings b)
     \<and> same_dict (progression_policies a) (progression_policies b)
     \<and> same_dict (temporal_constraints a) (temporal_constraints b)"

definition validate_provenance :: "time_provenance \<Rightarrow> time_error + unit" where
  "validate_provenance p =
     (let declared = time_addresses (declared_model p); known = \<Union> (set declared) in
      ebind (require (declared = time_addresses (realized_model p)) BadProvenance) (\<lambda>_.
      ebind (echeck (\<lambda>(k, b). require (k = binding_address b) TimeMapKey) (apparatus_bindings p)) (\<lambda>_.
      ebind (require (set (dkeys (clocks (declared_model p)))
               \<union> set (dkeys (progression_policies (declared_model p)))
             \<subseteq> set (dkeys (apparatus_bindings p))) BadProvenance) (\<lambda>_.
      ebind (require (list_all (\<lambda>b. binding_address b \<in> known) (dvals (apparatus_bindings p)))
        BadProvenance) (\<lambda>_.
      ebind (require (list_all (\<lambda>l. limit_subject l \<in> known) (timing_limits p)) BadProvenance) (\<lambda>_.
        require (same_time_model (declared_model p) (realized_model p) \<or> deviations p \<noteq> [])
          BadProvenance))))))"

definition check_time_provenance ::
    "(time_model \<Rightarrow> string) \<Rightarrow> bool \<Rightarrow> time_provenance \<Rightarrow> time_error + unit" where
  "check_time_provenance digest sealing p =
     ebind (check_text (provenance_run p)) (\<lambda>_.
     ebind (require (sha256_digest_text (provenance_digest p)) BadDigest) (\<lambda>_.
     ebind (check_time_model (declared_model p)) (\<lambda>_.
     ebind (check_time_model (realized_model p)) (\<lambda>_.
     ebind (require (apparatus_bindings p \<noteq> [] \<and> synchronization_assumptions p \<noteq> []
       \<and> provenance_evidence p \<noteq> []) EmptyCollection) (\<lambda>_.
     ebind (echeck check_address (dkeys (apparatus_bindings p))) (\<lambda>_.
     ebind (echeck check_apparatus_binding (dvals (apparatus_bindings p))) (\<lambda>_.
     ebind (echeck check_timing_limit (timing_limits p)) (\<lambda>_.
     ebind (echeck check_text (synchronization_assumptions p @ deviations p @ provenance_evidence p)) (\<lambda>_.
     ebind (require (sealing \<or> provenance_digest p = digest (declared_model p)) DigestMismatch) (\<lambda>_.
       validate_provenance p))))))))))"

definition validate_realized_time_model ::
    "(time_model \<Rightarrow> string) \<Rightarrow> time_model \<Rightarrow> time_provenance \<Rightarrow> string option \<Rightarrow> time_error + unit" where
  "validate_realized_time_model digest tm p run =
     ebind (require (same_time_model (declared_model p) tm) BadProvenance) (\<lambda>_.
     ebind (require (provenance_digest p = digest tm) DigestMismatch) (\<lambda>_.
       require (case run of None \<Rightarrow> True | Some r \<Rightarrow> provenance_run p = r) BadProvenance))"

end
