(* ===== verification/TimeModelProofs.thy ===== *)
theory TimeModelProofs
  imports TimeModel
begin

text \<open>
  Properties of the shared-time contracts: the depth-first check of the mapping graph accepts
  exactly the acyclic graphs, an accepted clock history only moves forward in coordinate order,
  and an accepted transition between runtime states extends every clock history.
\<close>

section \<open>The mapping graph\<close>

definition mapping_edges :: "(address, domain_mapping) dict \<Rightarrow> (address \<times> address) set" where
  "mapping_edges ms = {(source_domain m, target_domain m) | m. m \<in> set (dvals ms)}"

definition graph_edges :: "(address, address list) dict \<Rightarrow> (address \<times> address) set" where
  "graph_edges g = {(s, t). t \<in> set (targets_of g s)}"

lemma graph_edges_add: "graph_edges (add_mapping_edge g m) = insert (source_domain m, target_domain m) (graph_edges g)"
  by (cases "dget g (source_domain m)")
     (auto simp: graph_edges_def add_mapping_edge_def targets_of_def split: if_splits)

lemma graph_edges_foldl:
  "graph_edges (foldl add_mapping_edge g ms) =
     graph_edges g \<union> {(source_domain m, target_domain m) | m. m \<in> set ms}"
  by (induction ms arbitrary: g) (auto simp: graph_edges_add)

lemma graph_edges_mapping_graph: "graph_edges (mapping_graph ms) = mapping_edges ms"
  unfolding mapping_graph_def graph_edges_foldl
  by (auto simp: mapping_edges_def graph_edges_def targets_of_def)

lemma graph_edge_key: "(s, t) \<in> graph_edges g \<Longrightarrow> s \<in> set (dkeys g)"
  using dget_Some_key [of g s] by (cases "dget g s") (simp_all add: graph_edges_def targets_of_def)

text \<open>What a finished call has established: the visited set is closed, acyclic and off the stack.\<close>

definition visited_ok :: "(address \<times> address) set \<Rightarrow> address list \<Rightarrow> address list \<Rightarrow> bool" where
  "visited_ok E visiting visited \<longleftrightarrow>
     E `` set visited \<subseteq> set visited \<and> acyclic (E \<inter> set visited \<times> set visited)
     \<and> set visiting \<inter> set visited = {}"

lemma acyclic_insert_source:
  assumes "acyclic (E \<inter> V \<times> V)" and "E `` V \<subseteq> V" and "d \<notin> V" and "E `` {d} \<subseteq> V"
  shows "acyclic (E \<inter> insert d V \<times> insert d V)"
proof -
  let ?R = "E \<inter> insert d V \<times> insert d V"
  have into: "y \<in> V" if "(x, y) \<in> ?R" for x y using that assms(2,4) by auto
  have path: "y \<in> V \<and> (x \<in> V \<longrightarrow> (x, y) \<in> (E \<inter> V \<times> V)\<^sup>+)" if "(x, y) \<in> ?R\<^sup>+" for x y
    using that
  proof (induction rule: trancl_induct)
    case (base y)
    then show ?case using into by blast
  next
    case (step y z)
    then have "(y, z) \<in> E \<inter> V \<times> V" using into by blast
    with step show ?case by (meson IntD2 SigmaD2 trancl_into_trancl)
  qed
  show ?thesis
    using path assms(1,3) unfolding acyclic_def by blast
qed

lemma visit_domains_sound:
  assumes "visit_domains g visiting visited ds = Inr visited'"
    and "visited_ok (graph_edges g) visiting visited"
  shows "visited_ok (graph_edges g) visiting visited' \<and> set visited \<union> set ds \<subseteq> set visited'"
  using assms
proof (induction g visiting visited ds arbitrary: visited' rule: visit_domains.induct)
  case (1 g visiting visited)
  then show ?case by simp
next
  case (2 g visiting visited d ds)
  let ?E = "graph_edges g"
  from 2(4) have off: "d \<notin> set visiting" by (auto split: if_splits)
  show ?case
  proof (cases "d \<in> set visited")
    case True
    with 2(4) off have run: "visit_domains g visiting visited ds = Inr visited'" by simp
    have "visited_ok ?E visiting visited' \<and> set visited \<union> set ds \<subseteq> set visited'"
      by (rule 2(1) [OF off True run 2(5)])
    with True show ?thesis by auto
  next
    case False
    from 2(4) off False obtain v where
      v: "visit_domains g (d # visiting) visited (targets_of g d) = Inr v"
      and run: "visit_domains g visiting (d # v) ds = Inr visited'"
      by (auto simp: errs)
    have "visited_ok ?E (d # visiting) visited"
      using 2(5) False by (auto simp: visited_ok_def)
    from 2(2) [OF off False v this] have vok: "visited_ok ?E (d # visiting) v"
      and sub: "set visited \<union> set (targets_of g d) \<subseteq> set v" by blast+
    have succ: "?E `` {d} \<subseteq> set v"
      using sub by (auto simp: graph_edges_def)
    have "visited_ok ?E visiting (d # v)"
      using vok off succ acyclic_insert_source [of ?E "set v" d]
      unfolding visited_ok_def by auto
    from 2(3) [OF off False v run this] sub show ?thesis by auto
  qed
qed

lemma visit_domains_complete:
  assumes "visit_domains g visiting visited ds = Inl e" and "acyclic (graph_edges g)"
    and "\<And>u t. u \<in> set visiting \<Longrightarrow> t \<in> set ds \<Longrightarrow> (u, t) \<in> (graph_edges g)\<^sup>+"
  shows False
  using assms
proof (induction g visiting visited ds rule: visit_domains.induct)
  case (1 g visiting visited)
  then show ?case by simp
next
  case (2 g visiting visited d ds)
  let ?E = "graph_edges g"
  show ?case
  proof (cases "d \<in> set visiting")
    case True
    then have "(d, d) \<in> ?E\<^sup>+" using 2(6) by simp
    then show ?thesis using 2(5) unfolding acyclic_def by blast
  next
    case off: False
    show ?thesis
    proof (cases "d \<in> set visited")
      case True
      with 2(4) off have run: "visit_domains g visiting visited ds = Inl e" by simp
      show ?thesis by (rule 2(1) [OF off True run 2(5)]) (use 2(6) in simp)
    next
      case False
      have path: "(u, t) \<in> ?E\<^sup>+" if "u \<in> set (d # visiting)" "t \<in> set (targets_of g d)" for u t
      proof -
        have "(d, t) \<in> ?E" using that(2) by (simp add: graph_edges_def)
        with that(1) 2(6) [of u d] show ?thesis by (auto intro: trancl_into_trancl)
      qed
      show ?thesis
      proof (cases "visit_domains g (d # visiting) visited (targets_of g d)")
        case (Inl e')
        with 2(4) off False have run: "visit_domains g (d # visiting) visited (targets_of g d) = Inl e" by simp
        show ?thesis by (rule 2(2) [OF off False run 2(5) path])
      next
        case (Inr v)
        with 2(4) off False have run: "visit_domains g visiting (d # v) ds = Inl e" by simp
        show ?thesis by (rule 2(3) [OF off False Inr run 2(5)]) (use 2(6) in simp)
      qed
    qed
  qed
qed

lemma validate_acyclic_iff:
  "validate_acyclic_mappings ms = Inr () \<longleftrightarrow> acyclic (mapping_edges ms)"
proof -
  let ?g = "mapping_graph ms"
  have E: "graph_edges ?g = mapping_edges ms" by (rule graph_edges_mapping_graph)
  show ?thesis
  proof (cases "visit_domains ?g [] [] (dkeys ?g)")
    case (Inl e)
    then have "\<not> acyclic (graph_edges ?g)"
      using visit_domains_complete [OF Inl] by auto
    with Inl E show ?thesis by (simp add: validate_acyclic_mappings_def)
  next
    case (Inr v)
    have "visited_ok (graph_edges ?g) [] []"
      by (simp add: visited_ok_def acyclic_def)
    from visit_domains_sound [OF Inr this]
    have "visited_ok (graph_edges ?g) [] v" "set (dkeys ?g) \<subseteq> set v" by blast+
    moreover from this have "graph_edges ?g \<inter> set v \<times> set v = graph_edges ?g"
      using graph_edge_key unfolding visited_ok_def by fast
    ultimately have "acyclic (graph_edges ?g)" by (simp add: visited_ok_def)
    with Inr E show ?thesis by (simp add: validate_acyclic_mappings_def)
  qed
qed

section \<open>Clock histories\<close>

text \<open>The declarative reading of a history: contiguous, linked, and moving forward.\<close>

definition event_step :: "clock_event \<Rightarrow> clock_event \<Rightarrow> bool" where
  "event_step p e \<longleftrightarrow> event_previous e = Some (event_resulting p) \<and> validate_transition p e = Inr ()"

lemma all_nat_split:
  fixes Q :: "nat \<Rightarrow> bool"
  shows "(\<forall>k. Q k) = (Q 0 \<and> (\<forall>k. Q (Suc k)))"
  using nat.exhaust by metis

lemma validate_events_iff:
  "validate_events n prior es = Inr () \<longleftrightarrow>
     (\<forall>i < length es. event_sequence (es ! i) = n + int i)
     \<and> (\<forall>p. prior = Some p \<longrightarrow> es \<noteq> [] \<longrightarrow> event_step p (hd es))
     \<and> (\<forall>i. Suc i < length es \<longrightarrow> event_step (es ! i) (es ! Suc i))"
proof (induction n prior es rule: validate_events.induct)
  case (1 n prior)
  then show ?case by simp
next
  case (2 n prior e es)
  have seq: "(\<forall>i < length (e # es). event_sequence ((e # es) ! i) = n + int i) \<longleftrightarrow>
      event_sequence e = n \<and> (\<forall>i < length es. event_sequence (es ! i) = (n + 1) + int i)"
    by (auto simp: less_Suc_eq_0_disj nth_Cons' all_conj_distrib algebra_simps)
  have steps: "(\<forall>i. Suc i < length (e # es) \<longrightarrow> event_step ((e # es) ! i) ((e # es) ! Suc i)) \<longleftrightarrow>
      (es \<noteq> [] \<longrightarrow> event_step e (hd es)) \<and> (\<forall>i. Suc i < length es \<longrightarrow> event_step (es ! i) (es ! Suc i))"
    by (subst all_nat_split) (cases es; simp)
  show ?case
    unfolding seq steps using "2.IH"
    by (cases prior) (auto simp: errs event_step_def)
qed

lemma transition_forward:
  assumes "validate_transition p e = Inr ()"
  shows "event_resulting p \<le> event_resulting e"
    and "event_kind e \<notin> {Pause, Resume} \<Longrightarrow> event_resulting p < event_resulting e"
  using assms
  by (cases "event_kind e";
      auto simp: validate_transition_def Let_def errs less_eq_time_coordinate_def less_time_coordinate_def)+

lemma validate_history_iff:
  "validate_history c = Inr () \<longleftrightarrow>
     rc_history c \<noteq> [] \<and> event_kind (hd (rc_history c)) = Initialize
     \<and> event_previous (hd (rc_history c)) = None
     \<and> (\<forall>i < length (rc_history c). event_sequence (rc_history c ! i) = int i)
     \<and> (\<forall>i. Suc i < length (rc_history c) \<longrightarrow> event_step (rc_history c ! i) (rc_history c ! Suc i))
     \<and> rc_sequence c = event_sequence (last (rc_history c))
     \<and> rc_coordinate c = event_resulting (last (rc_history c))
     \<and> rc_state c = event_state (last (rc_history c))"
proof -
  have "validate_history c = Inr () \<longleftrightarrow>
     rc_history c \<noteq> [] \<and> event_kind (hd (rc_history c)) = Initialize
     \<and> event_previous (hd (rc_history c)) = None
     \<and> validate_events 0 None (rc_history c) = Inr ()
     \<and> rc_sequence c = event_sequence (last (rc_history c))
     \<and> rc_coordinate c = event_resulting (last (rc_history c))
     \<and> rc_state c = event_state (last (rc_history c))"
    by (cases "rc_history c")
       (auto simp: validate_history_def errs Let_def simp del: validate_events.simps)
  then show ?thesis by (simp add: validate_events_iff)
qed

lemma history_sorted:
  assumes "validate_history c = Inr ()"
  shows "sorted (map event_resulting (rc_history c))"
  using assms transition_forward(1)
  unfolding validate_history_iff sorted_iff_nth_Suc event_step_def by auto

lemma check_history_kept_Inr [errs]:
  "check_history_kept n (a, prior) = Inr () \<longleftrightarrow>
     (\<exists>nc. dget (runtime_clocks n) a = Some nc \<and> prefix (rc_history prior) (rc_history nc))"
proof (cases "dget (runtime_clocks n) a")
  case (Some nc)
  have "prefix xs ys \<longleftrightarrow> length xs \<le> length ys \<and> take (length xs) ys = xs" for xs ys :: "clock_event list"
    by (metis append_eq_conv_conj append_take_drop_id prefix_def prefix_length_le)
  with Some show ?thesis
    by (auto simp: check_history_kept_def errs not_less)
qed (simp add: check_history_kept_def)

lemma validate_transition_iff:
  "validate_time_runtime_transition (Some p) (Some n) = Inr () \<longleftrightarrow>
     declaration_digest p = declaration_digest n
     \<and> set (dkeys (runtime_clocks p)) = set (dkeys (runtime_clocks n))
     \<and> (\<forall>(a, prior) \<in> set (runtime_clocks p).
          \<exists>nc. dget (runtime_clocks n) a = Some nc \<and> prefix (rc_history prior) (rc_history nc))"
  by (auto simp: validate_time_runtime_transition_def errs simp del: set_map list.set_map)

lemma runtime_transition_trans:
  assumes "validate_time_runtime_transition p q = Inr ()" and "validate_time_runtime_transition q r = Inr ()"
  shows "validate_time_runtime_transition p r = Inr ()"
proof (cases p)
  case None
  then show ?thesis by (simp add: validate_time_runtime_transition_def)
next
  case (Some ps)
  with assms(1) obtain qs where q: "q = Some qs"
    by (cases q) (auto simp: validate_time_runtime_transition_def)
  with assms(2) obtain rs where r: "r = Some rs"
    by (cases r) (auto simp: validate_time_runtime_transition_def)
  note pq = assms(1) [unfolded Some q validate_transition_iff]
  note qr = assms(2) [unfolded q r validate_transition_iff]
  have "\<exists>nc. dget (runtime_clocks rs) a = Some nc \<and> prefix (rc_history prior) (rc_history nc)"
    if "(a, prior) \<in> set (runtime_clocks ps)" for a prior
  proof -
    from pq that obtain qc where qc: "dget (runtime_clocks qs) a = Some qc" "prefix (rc_history prior) (rc_history qc)"
      by blast
    then have "(a, qc) \<in> set (runtime_clocks qs)" by (blast dest: map_of_SomeD)
    with qr obtain rc where "dget (runtime_clocks rs) a = Some rc" "prefix (rc_history qc) (rc_history rc)"
      by blast
    with qc(2) show ?thesis by (blast intro: prefix_order.trans)
  qed
  with pq qr show ?thesis unfolding Some r validate_transition_iff by auto
qed

section \<open>Properties\<close>

text \<open>The depth-first check of the time-domain mappings accepts exactly the mapping sets whose
  source-to-target graph has no cycle; in particular it always returns.\<close>

theorem acyclic_mappings_decided:
  "validate_acyclic_mappings ms = Inr () \<longleftrightarrow> acyclic (mapping_edges ms)"
  by (rule validate_acyclic_iff)

definition example_event ::
    "int \<Rightarrow> transition_kind \<Rightarrow> time_coordinate option \<Rightarrow> time_coordinate \<Rightarrow> clock_lifecycle \<Rightarrow> clock_event" where
  "example_event n k p r s = \<lparr>event_sequence = n, event_kind = k, event_previous = p, event_resulting = r,
     event_state = s\<rparr>"

definition example_clock :: "clock_event list \<Rightarrow> runtime_clock" where
  "example_clock es =
     \<lparr>rc_clock = ''time.clock.main'', rc_domain = ''time.domain.sim'', rc_policy = Some ''time.policy.main'',
      rc_authority_kind = RuntimeAuthority, rc_authority_ref = ''runtime'', rc_state = event_state (last es),
      rc_coordinate = event_resulting (last es), rc_sequence = event_sequence (last es), rc_history = es\<rparr>"

definition example_history :: "clock_event list" where
  "example_history =
     [example_event 0 Initialize None (Coordinate 0 0 0) RUNNING,
      example_event 1 Advance (Some (Coordinate 0 0 0)) (Coordinate 0 5 0) RUNNING,
      example_event 2 Pause (Some (Coordinate 0 5 0)) (Coordinate 0 5 0) PAUSED,
      example_event 3 Resume (Some (Coordinate 0 5 0)) (Coordinate 0 5 0) RUNNING,
      example_event 4 Reset (Some (Coordinate 0 5 0)) (Coordinate 1 0 0) RUNNING]"

text \<open>An accepted clock state never moved back: its coordinates, segment first, are in
  ascending order over the history, every transition other than a pause or a resume moved strictly
  forward, and the current coordinate is the last one.\<close>

theorem clock_history_moves_forward:
  assumes "check_runtime_clock c = Inr ()"
  shows "sorted (map event_resulting (rc_history c))
    \<and> (\<forall>i. Suc i < length (rc_history c) \<longrightarrow> event_kind (rc_history c ! Suc i) \<notin> {Pause, Resume} \<longrightarrow>
         event_resulting (rc_history c ! i) < event_resulting (rc_history c ! Suc i))
    \<and> rc_coordinate c = event_resulting (last (rc_history c))"
proof -
  have h: "validate_history c = Inr ()"
    using assms by (simp add: check_runtime_clock_def construct_runtime_clock_def errs)
  then have "event_step (rc_history c ! i) (rc_history c ! Suc i)" if "Suc i < length (rc_history c)" for i
    using that unfolding validate_history_iff by blast
  then have "event_resulting (rc_history c ! i) < event_resulting (rc_history c ! Suc i)"
    if "Suc i < length (rc_history c)" "event_kind (rc_history c ! Suc i) \<notin> {Pause, Resume}" for i
    using that transition_forward(2) unfolding event_step_def by blast
  with history_sorted [OF h] h show ?thesis unfolding validate_history_iff by blast
qed

theorem clock_history_moves_forward_witness:
  "sorted (map event_resulting example_history)
    \<and> event_resulting (example_history ! 3) < event_resulting (example_history ! Suc 3)"
proof -
  have ok: "check_runtime_clock (example_clock example_history) = Inr ()" by code_simp
  have h: "rc_history (example_clock example_history) = example_history" by (simp add: example_clock_def)
  have four: "Suc 3 < length example_history" "event_kind (example_history ! Suc 3) \<notin> {Pause, Resume}"
    by code_simp+
  show ?thesis
    using clock_history_moves_forward [OF ok] four unfolding h by blast
qed

text \<open>The check between two runtime states composes: a run of admitted transitions is itself an
  admitted transition, so no step hides a truncated or rewritten clock history.\<close>

theorem runtime_transition_composes:
  assumes "validate_time_runtime_transition p q = Inr ()" and "validate_time_runtime_transition q r = Inr ()"
  shows "validate_time_runtime_transition p r = Inr ()"
  using assms by (rule runtime_transition_trans)

definition example_state :: "nat \<Rightarrow> time_runtime_state" where
  "example_state n = \<lparr>declaration_digest = ''sha256'',
     runtime_clocks = [(''time.clock.main'', example_clock (take n example_history))]\<rparr>"

theorem runtime_transition_composes_witness:
  "validate_time_runtime_transition (Some (example_state 1)) (Some (example_state 5)) = Inr ()"
proof (rule runtime_transition_composes)
  show "validate_time_runtime_transition (Some (example_state 1)) (Some (example_state 3)) = Inr ()"
    by code_simp
  show "validate_time_runtime_transition (Some (example_state 3)) (Some (example_state 5)) = Inr ()"
    by code_simp
qed

end
