(* ===== verification/TimeCoordinator.thy ===== *)
theory TimeCoordinator
  imports TimeModelProofs
begin

text \<open>
  The compiled time model (raes_processor/models/time_model.py), its conversion to and from the
  portable declaration (raes_processor/compiler/time_model.py), and the reference coordinator of
  the clocks (raes_runtime/time_coordinator.py).

  The coordinator reads and replaces only \<open>time_model_state\<close> of the runtime snapshot; the other
  fields are \<open>snapshot_rest\<close>, of any type. They are validated when a snapshot is constructed and
  are passed on unchanged. Participant resets are the argument \<open>reset_many\<close>, the protocol
  method that a backend provides.
\<close>

section \<open>The compiled model\<close>

record compiled_domain =
  cd_address :: address
  cd_kind :: time_domain_kind
  cd_period_numerator :: int
  cd_period_denominator :: int
  cd_epoch :: time_epoch
  cd_visibility :: time_visibility
  cd_description :: string

record compiled_clock =
  cc_address :: address
  cc_domain :: address
  cc_authority_kind :: clock_authority
  cc_authority_ref :: string
  cc_monotonicity :: clock_monotonicity
  cc_pause :: bool
  cc_reset :: bool
  cc_jump :: bool
  cc_description :: string

record compiled_mapping =
  cm_address :: address
  cm_source :: address
  cm_target :: address
  cm_kind :: time_mapping_kind
  cm_scale_numerator :: int
  cm_scale_denominator :: int
  cm_offset :: int
  cm_description :: string

record compiled_policy =
  cp_address :: address
  cp_clock :: address
  cp_advancement :: advancement_mode
  cp_pacing_numerator :: int
  cp_pacing_denominator :: int
  cp_synchronization :: synchronization_mode
  cp_step_ticks :: "int option"
  cp_drift_bound :: "int option"
  cp_reset :: reset_behavior
  cp_replay :: replay_behavior
  cp_description :: string

record compiled_constraint =
  ct_address :: address
  ct_kind :: constraint_kind
  ct_clock :: address
  ct_subjects :: "address list"
  ct_start_tick :: "int option"
  ct_start_microstep :: "int option"
  ct_end_tick :: "int option"
  ct_end_microstep :: "int option"
  ct_duration :: "int option"
  ct_cadence :: "int option"
  ct_description :: string

record compiled_time_model =
  compiled_domains :: "compiled_domain list"
  compiled_clocks :: "compiled_clock list"
  compiled_mappings :: "compiled_mapping list"
  compiled_policies :: "compiled_policy list"
  compiled_constraints :: "compiled_constraint list"

definition compiled_addresses :: "compiled_time_model \<Rightarrow> address list" where
  "compiled_addresses m =
     map cd_address (compiled_domains m) @ map cc_address (compiled_clocks m)
     @ map cm_address (compiled_mappings m) @ map cp_address (compiled_policies m)
     @ map ct_address (compiled_constraints m)"

definition make_compiled_time_model :: "compiled_time_model \<Rightarrow> time_error + compiled_time_model" where
  "make_compiled_time_model m =
     ebind (echeck check_address (concat (map (\<lambda>d. [cd_address d]) (compiled_domains m)))) (\<lambda>_.
     ebind (echeck check_address (concat (map (\<lambda>c. [cc_address c, cc_domain c]) (compiled_clocks m)))) (\<lambda>_.
     ebind (echeck check_address (concat (map (\<lambda>d. [cm_address d, cm_source d, cm_target d])
       (compiled_mappings m)))) (\<lambda>_.
     ebind (echeck check_address (concat (map (\<lambda>p. [cp_address p, cp_clock p]) (compiled_policies m)))) (\<lambda>_.
     ebind (echeck check_address (concat (map (\<lambda>c. ct_address c # ct_clock c # ct_subjects c)
       (compiled_constraints m)))) (\<lambda>_.
     ebind (require (distinct (compiled_addresses m)) DuplicateTimeAddress) (\<lambda>_. Inr m))))))"

section \<open>Conversions\<close>

definition dict_by :: "('v \<Rightarrow> 'k) \<Rightarrow> 'v list \<Rightarrow> ('k, 'v) dict" where
  "dict_by k xs = foldl (\<lambda>d x. dput (k x) x d) [] xs"

definition domain_contract :: "compiled_domain \<Rightarrow> time_domain" where
  "domain_contract d =
     \<lparr>domain_address = cd_address d, domain_kind = cd_kind d,
      tick_period = Ratio (cd_period_numerator d) (cd_period_denominator d),
      domain_epoch = cd_epoch d, domain_visibility = cd_visibility d,
      domain_description = cd_description d\<rparr>"

definition clock_contract :: "compiled_clock \<Rightarrow> clock_declaration" where
  "clock_contract c =
     \<lparr>clock_address = cc_address c, clock_domain = cc_domain c,
      clock_authority_kind = cc_authority_kind c, clock_authority_ref = cc_authority_ref c,
      monotonicity = cc_monotonicity c, supports_pause = cc_pause c, supports_reset = cc_reset c,
      supports_jump = cc_jump c, clock_description = cc_description c\<rparr>"

definition mapping_contract :: "compiled_mapping \<Rightarrow> domain_mapping" where
  "mapping_contract m =
     \<lparr>mapping_address = cm_address m, source_domain = cm_source m, target_domain = cm_target m,
      mapping_kind = cm_kind m, scale = Ratio (cm_scale_numerator m) (cm_scale_denominator m),
      offset_ticks = cm_offset m, mapping_description = cm_description m\<rparr>"

definition policy_contract :: "compiled_policy \<Rightarrow> progression_policy" where
  "policy_contract p =
     \<lparr>policy_address = cp_address p, policy_clock = cp_clock p, policy_advancement = cp_advancement p,
      pacing_ratio = Ratio (cp_pacing_numerator p) (cp_pacing_denominator p),
      policy_synchronization = cp_synchronization p, step_ticks = cp_step_ticks p,
      drift_bound_ticks = cp_drift_bound p, policy_reset = cp_reset p, policy_replay = cp_replay p,
      policy_description = cp_description p\<rparr>"

definition coordinate_contract :: "int option \<Rightarrow> int option \<Rightarrow> time_coordinate option" where
  "coordinate_contract t m =
     (case t of None \<Rightarrow> None
      | Some k \<Rightarrow> Some (Coordinate 0 k (case m of None \<Rightarrow> 0 | Some j \<Rightarrow> j)))"

definition constraint_contract :: "compiled_constraint \<Rightarrow> temporal_constraint" where
  "constraint_contract c =
     \<lparr>constraint_address = ct_address c, constraint_kind = ct_kind c, constraint_clock = ct_clock c,
      subject_addresses = ct_subjects c,
      constraint_start = coordinate_contract (ct_start_tick c) (ct_start_microstep c),
      constraint_end = coordinate_contract (ct_end_tick c) (ct_end_microstep c),
      duration_ticks = ct_duration c, cadence_ticks = ct_cadence c,
      constraint_description = ct_description c\<rparr>"

definition contract_of_compiled :: "compiled_time_model \<Rightarrow> time_model" where
  "contract_of_compiled m =
     \<lparr>domains = dict_by domain_address (map domain_contract (compiled_domains m)),
      clocks = dict_by clock_address (map clock_contract (compiled_clocks m)),
      mappings = dict_by mapping_address (map mapping_contract (compiled_mappings m)),
      progression_policies = dict_by policy_address (map policy_contract (compiled_policies m)),
      temporal_constraints = dict_by constraint_address (map constraint_contract (compiled_constraints m))\<rparr>"

definition time_model_contract_model :: "compiled_time_model \<Rightarrow> time_error + time_model option" where
  "time_model_contract_model m =
     (if compiled_domains m = [] \<and> compiled_clocks m = [] then Inr None
      else ebind (check_time_model (contract_of_compiled m)) (\<lambda>_. Inr (Some (contract_of_compiled m))))"

definition domain_compiled :: "time_domain \<Rightarrow> compiled_domain" where
  "domain_compiled d =
     \<lparr>cd_address = domain_address d, cd_kind = domain_kind d,
      cd_period_numerator = numerator (tick_period d), cd_period_denominator = denominator (tick_period d),
      cd_epoch = domain_epoch d, cd_visibility = domain_visibility d, cd_description = domain_description d\<rparr>"

definition clock_compiled :: "clock_declaration \<Rightarrow> compiled_clock" where
  "clock_compiled c =
     \<lparr>cc_address = clock_address c, cc_domain = clock_domain c,
      cc_authority_kind = clock_authority_kind c, cc_authority_ref = clock_authority_ref c,
      cc_monotonicity = monotonicity c, cc_pause = supports_pause c, cc_reset = supports_reset c,
      cc_jump = supports_jump c, cc_description = clock_description c\<rparr>"

definition mapping_compiled :: "domain_mapping \<Rightarrow> compiled_mapping" where
  "mapping_compiled m =
     \<lparr>cm_address = mapping_address m, cm_source = source_domain m, cm_target = target_domain m,
      cm_kind = mapping_kind m, cm_scale_numerator = numerator (scale m),
      cm_scale_denominator = denominator (scale m), cm_offset = offset_ticks m,
      cm_description = mapping_description m\<rparr>"

definition policy_compiled :: "progression_policy \<Rightarrow> compiled_policy" where
  "policy_compiled p =
     \<lparr>cp_address = policy_address p, cp_clock = policy_clock p, cp_advancement = policy_advancement p,
      cp_pacing_numerator = numerator (pacing_ratio p), cp_pacing_denominator = denominator (pacing_ratio p),
      cp_synchronization = policy_synchronization p, cp_step_ticks = step_ticks p,
      cp_drift_bound = drift_bound_ticks p, cp_reset = policy_reset p, cp_replay = policy_replay p,
      cp_description = policy_description p\<rparr>"

definition constraint_compiled :: "temporal_constraint \<Rightarrow> compiled_constraint" where
  "constraint_compiled c =
     \<lparr>ct_address = constraint_address c, ct_kind = constraint_kind c, ct_clock = constraint_clock c,
      ct_subjects = subject_addresses c,
      ct_start_tick = map_option tick (constraint_start c),
      ct_start_microstep = map_option microstep (constraint_start c),
      ct_end_tick = map_option tick (constraint_end c),
      ct_end_microstep = map_option microstep (constraint_end c),
      ct_duration = duration_ticks c, ct_cadence = cadence_ticks c,
      ct_description = constraint_description c\<rparr>"

definition compiled_time_model_from_contract :: "time_model \<Rightarrow> time_error + compiled_time_model" where
  "compiled_time_model_from_contract tm = make_compiled_time_model
     \<lparr>compiled_domains = map domain_compiled (dvals (domains tm)),
      compiled_clocks = map clock_compiled (dvals (clocks tm)),
      compiled_mappings = map mapping_compiled (dvals (mappings tm)),
      compiled_policies = map policy_compiled (dvals (progression_policies tm)),
      compiled_constraints = map constraint_compiled (dvals (temporal_constraints tm))\<rparr>"

section \<open>The coordinator\<close>

record 'r time_snapshot =
  time_model_state :: "time_runtime_state option"
  snapshot_rest :: 'r

record clock_reading =
  reading_clock :: address
  reading_segment :: int
  reading_tick :: int
  reading_microstep :: int

record coordinator =
  co_model :: compiled_time_model
  co_declaration :: time_model
  co_clocks :: "(address, compiled_clock) dict"
  co_policies :: "(address, compiled_policy) dict"

definition policy_by_clock :: "compiled_time_model \<Rightarrow> time_error + (address, compiled_policy) dict" where
  "policy_by_clock m =
     efold (\<lambda>d p. if cp_clock p \<in> set (dkeys d) then Inl DuplicatePolicy else Inr (dput (cp_clock p) p d))
       [] (compiled_policies m)"

definition clock_by_address :: "compiled_time_model \<Rightarrow> (address, compiled_clock) dict" where
  "clock_by_address m = dict_by cc_address (compiled_clocks m)"

definition make_coordinator :: "compiled_time_model \<Rightarrow> time_error + coordinator" where
  "make_coordinator m =
     ebind (time_model_contract_model m) (\<lambda>decl.
     (case decl of
        None \<Rightarrow> Inl EmptyTimeModel
      | Some d \<Rightarrow>
          ebind (policy_by_clock m) (\<lambda>ps.
            Inr \<lparr>co_model = m, co_declaration = d, co_clocks = clock_by_address m, co_policies = ps\<rparr>)))"

definition reading_coordinate :: "clock_reading \<Rightarrow> time_coordinate" where
  "reading_coordinate r = Coordinate (reading_segment r) (reading_tick r) (reading_microstep r)"

definition make_transition ::
    "int \<Rightarrow> transition_kind \<Rightarrow> clock_reading \<Rightarrow> clock_reading option \<Rightarrow> time_error + clock_event" where
  "make_transition sequence kind current previous =
     (let e = \<lparr>event_sequence = sequence, event_kind = kind,
               event_previous = map_option reading_coordinate previous,
               event_resulting = reading_coordinate current,
               event_state = (if kind = Pause then PAUSED else RUNNING)\<rparr>
      in ebind (check_event e) (\<lambda>_. Inr e))"

definition initial_clock :: "coordinator \<Rightarrow> address \<Rightarrow> compiled_clock \<Rightarrow> time_error + runtime_clock" where
  "initial_clock co a c =
     ebind (make_transition 0 Initialize
       \<lparr>reading_clock = a, reading_segment = 0, reading_tick = 0, reading_microstep = 0\<rparr> None) (\<lambda>e.
     (let rc = \<lparr>rc_clock = a, rc_domain = cc_domain c,
                rc_policy = map_option cp_address (dget (co_policies co) a),
                rc_authority_kind = cc_authority_kind c, rc_authority_ref = cc_authority_ref c,
                rc_state = RUNNING, rc_coordinate = event_resulting e, rc_sequence = 0, rc_history = [e]\<rparr>
      in ebind (construct_runtime_clock rc) (\<lambda>_. Inr rc)))"

definition coordinator_initialize ::
    "(time_model \<Rightarrow> string) \<Rightarrow> coordinator \<Rightarrow> 'r time_snapshot \<Rightarrow> time_error + 'r time_snapshot" where
  "coordinator_initialize digest co s =
     (if time_model_state s \<noteq> None then Inl AlreadyInitialized
      else ebind (efold (\<lambda>d (a, c). ebind (initial_clock co a c) (\<lambda>rc. Inr (dput a rc d))) [] (co_clocks co))
        (\<lambda>contexts.
          (let st = \<lparr>declaration_digest = digest (co_declaration co), runtime_clocks = contexts\<rparr>
           in ebind (construct_time_runtime_state st) (\<lambda>_.
                Inr (s\<lparr>time_model_state := Some st\<rparr>)))))"

definition co_clock :: "coordinator \<Rightarrow> address \<Rightarrow> time_error + compiled_clock" where
  "co_clock co a = (case dget (co_clocks co) a of None \<Rightarrow> Inl UnknownClock | Some c \<Rightarrow> Inr c)"

definition co_mapping :: "coordinator \<Rightarrow> address \<Rightarrow> time_error + compiled_mapping" where
  "co_mapping co a =
     (case find (\<lambda>m. cm_address m = a) (compiled_mappings (co_model co)) of
        None \<Rightarrow> Inl UnknownMapping | Some m \<Rightarrow> Inr m)"

definition co_context :: "coordinator \<Rightarrow> 'r time_snapshot \<Rightarrow> address \<Rightarrow> time_error + runtime_clock" where
  "co_context co s a =
     ebind (co_clock co a) (\<lambda>_.
     (case time_model_state s of
        None \<Rightarrow> Inl NotInitialized
      | Some st \<Rightarrow>
          (case dget (runtime_clocks st) a of
             None \<Rightarrow> Inl NotInitialized
           | Some rc \<Rightarrow> if rc_clock rc \<noteq> a then Inl ClockBindingMismatch else Inr rc)))"

definition co_reading :: "coordinator \<Rightarrow> 'r time_snapshot \<Rightarrow> address \<Rightarrow> time_error + clock_reading" where
  "co_reading co s a =
     ebind (co_context co s a) (\<lambda>rc.
       Inr \<lparr>reading_clock = a, reading_segment = segment (rc_coordinate rc),
            reading_tick = tick (rc_coordinate rc), reading_microstep = microstep (rc_coordinate rc)\<rparr>)"

definition replace_context ::
    "coordinator \<Rightarrow> 'r time_snapshot \<Rightarrow> runtime_clock \<Rightarrow> transition_kind \<Rightarrow> clock_reading \<Rightarrow>
       clock_lifecycle \<Rightarrow> time_error + 'r time_snapshot" where
  "replace_context co s context kind reading state =
     ebind (co_reading co s (reading_clock reading)) (\<lambda>previous.
     ebind (make_transition (rc_sequence context + 1) kind reading (Some previous)) (\<lambda>e.
     (let rc = context\<lparr>rc_state := state, rc_coordinate := reading_coordinate reading,
                       rc_sequence := rc_sequence context + 1,
                       rc_history := rc_history context @ [e]\<rparr>
      in ebind (check_coordinate (rc_coordinate rc)) (\<lambda>_.
         ebind (construct_runtime_clock rc) (\<lambda>_.
         (case time_model_state s of
            None \<Rightarrow> Inl NotInitialized
          | Some st \<Rightarrow>
              (let st' = st\<lparr>runtime_clocks := dput (reading_clock reading) rc (runtime_clocks st)\<rparr>
               in ebind (construct_time_runtime_state st') (\<lambda>_.
                    Inr (s\<lparr>time_model_state := Some st'\<rparr>)))))))))"

definition coordinator_advance ::
    "coordinator \<Rightarrow> 'r time_snapshot \<Rightarrow> address \<Rightarrow> int \<Rightarrow> int \<Rightarrow> time_error + 'r time_snapshot" where
  "coordinator_advance co s a ticks micro =
     ebind (require (\<not> (ticks < 0 \<or> micro < 0)) NegativeAdvance) (\<lambda>_.
     ebind (co_context co s a) (\<lambda>context.
     ebind (require (rc_state context = RUNNING) WrongClockState) (\<lambda>_.
     (case dget (co_policies co) a of
        None \<Rightarrow> Inl NoPolicy
      | Some p \<Rightarrow>
          ebind (require (\<not> (cp_advancement p = Stepped \<and> Some ticks \<noteq> cp_step_ticks p)) WrongStep) (\<lambda>_.
          ebind (co_reading co s a) (\<lambda>previous.
          ebind (require (\<not> (ticks = 0 \<and> micro = 0)) NoAdvance) (\<lambda>_.
            replace_context co s context Advance
              (previous\<lparr>reading_tick := reading_tick previous + ticks,
                        reading_microstep := (if ticks \<noteq> 0 then micro else reading_microstep previous + micro)\<rparr>)
              RUNNING)))))))"

definition coordinator_pause ::
    "coordinator \<Rightarrow> 'r time_snapshot \<Rightarrow> address \<Rightarrow> time_error + 'r time_snapshot" where
  "coordinator_pause co s a =
     ebind (co_clock co a) (\<lambda>c.
     ebind (require (cc_pause c) NotSupported) (\<lambda>_.
     ebind (co_context co s a) (\<lambda>context.
     ebind (require (rc_state context = RUNNING) WrongClockState) (\<lambda>_.
     ebind (co_reading co s a) (\<lambda>reading.
       replace_context co s context Pause reading PAUSED)))))"

definition coordinator_resume ::
    "coordinator \<Rightarrow> 'r time_snapshot \<Rightarrow> address \<Rightarrow> time_error + 'r time_snapshot" where
  "coordinator_resume co s a =
     ebind (co_context co s a) (\<lambda>context.
     ebind (require (rc_state context = PAUSED) WrongClockState) (\<lambda>_.
     ebind (co_reading co s a) (\<lambda>reading.
       replace_context co s context Resume reading RUNNING)))"

definition coordinator_jump ::
    "coordinator \<Rightarrow> 'r time_snapshot \<Rightarrow> address \<Rightarrow> int \<Rightarrow> int \<Rightarrow> time_error + 'r time_snapshot" where
  "coordinator_jump co s a t micro =
     ebind (co_clock co a) (\<lambda>c.
     ebind (require (cc_jump c) NotSupported) (\<lambda>_.
     ebind (co_context co s a) (\<lambda>context.
     ebind (co_reading co s a) (\<lambda>reading.
       replace_context co s context Jump
         (reading\<lparr>reading_segment := reading_segment reading + 1, reading_tick := t,
                  reading_microstep := micro\<rparr>)
         (rc_state context)))))"

definition coordinator_reset ::
    "coordinator \<Rightarrow> 'r time_snapshot \<Rightarrow> address \<Rightarrow> bool \<Rightarrow> time_error + 'r time_snapshot" where
  "coordinator_reset co s a replay =
     ebind (co_clock co a) (\<lambda>c.
     ebind (require (cc_reset c) NotSupported) (\<lambda>_.
     (case dget (co_policies co) a of
        None \<Rightarrow> Inl NoPolicy
      | Some p \<Rightarrow>
          ebind (require (if replay then cp_replay p \<noteq> ReplayUnsupported else cp_reset p \<noteq> ResetUnsupported)
            UnsupportedBehavior) (\<lambda>_.
          ebind (co_context co s a) (\<lambda>context.
          ebind (co_reading co s a) (\<lambda>reading.
          (let preserve = (\<not> replay \<and> cp_reset p = NewSegmentPreserveValue) in
            replace_context co s context (if replay then Replay else Reset)
              (reading\<lparr>reading_segment := reading_segment reading + 1,
                       reading_tick := (if preserve then reading_tick reading else 0),
                       reading_microstep := (if preserve then reading_microstep reading else 0)\<rparr>)
              RUNNING)))))))"

definition convert_tick :: "coordinator \<Rightarrow> address \<Rightarrow> int \<Rightarrow> time_error + rat" where
  "convert_tick co a t =
     ebind (co_mapping co a) (\<lambda>m.
       Inr (Fract (t * cm_scale_numerator m) (cm_scale_denominator m) + of_int (cm_offset m)))"

section \<open>Operations as the backend protocol issues them\<close>

datatype clock_op =
    OpAdvance address int int
  | OpPause address
  | OpResume address
  | OpJump address int int
  | OpReset address bool

fun clock_step :: "coordinator \<Rightarrow> clock_op \<Rightarrow> 'r time_snapshot \<Rightarrow> time_error + 'r time_snapshot" where
  "clock_step co (OpAdvance a ticks micro) s = coordinator_advance co s a ticks micro"
| "clock_step co (OpPause a) s = coordinator_pause co s a"
| "clock_step co (OpResume a) s = coordinator_resume co s a"
| "clock_step co (OpJump a t micro) s = coordinator_jump co s a t micro"
| "clock_step co (OpReset a replay) s = coordinator_reset co s a replay"

record 'r apply_result =
  result_success :: bool
  result_snapshot :: "'r time_snapshot"
  result_diagnostics :: "string list"
  result_changed :: "address list"

definition reference_initialize ::
    "(time_model \<Rightarrow> string) \<Rightarrow> time_model \<Rightarrow> 'r time_snapshot \<Rightarrow> time_error + (coordinator \<times> 'r apply_result)" where
  "reference_initialize digest tm s =
     ebind (compiled_time_model_from_contract tm) (\<lambda>m.
     ebind (make_coordinator m) (\<lambda>co.
     ebind (coordinator_initialize digest co s) (\<lambda>s'.
       Inr (co, \<lparr>result_success = True, result_snapshot = s', result_diagnostics = [],
                 result_changed = sort (dkeys (clocks tm))\<rparr>))))"

definition reference_reset ::
    "coordinator \<Rightarrow> address \<Rightarrow> bool \<Rightarrow> 'r time_snapshot \<Rightarrow> time_error + 'r apply_result" where
  "reference_reset co a replay s =
     ebind (coordinator_reset co s a replay) (\<lambda>s'.
       Inr \<lparr>result_success = True, result_snapshot = s', result_diagnostics = [], result_changed = [a]\<rparr>)"

definition reset_with_participants ::
    "('q list \<Rightarrow> 'r time_snapshot \<Rightarrow> time_error + 'r apply_result) \<Rightarrow> coordinator \<Rightarrow> address \<Rightarrow> bool \<Rightarrow>
       'q list \<Rightarrow> 'r time_snapshot \<Rightarrow> time_error + 'r apply_result" where
  "reset_with_participants reset_many co a replay requests s =
     ebind (reference_reset co a replay s) (\<lambda>time_result.
     ebind (reset_many requests (result_snapshot time_result)) (\<lambda>participant_result.
     (let diagnostics = result_diagnostics time_result @ result_diagnostics participant_result in
      Inr (if \<not> result_success participant_result then
             \<lparr>result_success = False, result_snapshot = s,
              result_diagnostics = diagnostics @ [''runtime.coordinated-reset-aborted''],
              result_changed = []\<rparr>
           else
             \<lparr>result_success = True, result_snapshot = result_snapshot participant_result,
              result_diagnostics = diagnostics,
              result_changed = fromkeys (result_changed time_result @ result_changed participant_result)\<rparr>))))"

end
