(* ===== verification/TimeCoordinatorProofs.thy ===== *)
theory TimeCoordinatorProofs
  imports TimeCoordinator
begin

text \<open>
  Correctness of the clock coordinator: every operation either raises or performs exactly the
  step of an abstract clock machine, keeps the runtime state valid and bound to its declaration,
  and only appends to the clock histories.
\<close>

section \<open>Valid snapshots\<close>

definition time_ok :: "(time_model \<Rightarrow> string) \<Rightarrow> coordinator \<Rightarrow> 'r time_snapshot \<Rightarrow> bool" where
  "time_ok digest co s \<longleftrightarrow>
     (\<exists>st. time_model_state s = Some st \<and> dict_ok (runtime_clocks st)
       \<and> check_time_runtime_state st = Inr ()
       \<and> validate_time_runtime_state digest (co_declaration co) st = Inr ()
       \<and> set (dkeys (runtime_clocks st)) = set (dkeys (co_clocks co)))"

definition clock_at :: "'r time_snapshot \<Rightarrow> address \<Rightarrow> runtime_clock option" where
  "clock_at s a = (case time_model_state s of None \<Rightarrow> None | Some st \<Rightarrow> dget (runtime_clocks st) a)"

lemma check_time_runtime_stateD:
  assumes "check_time_runtime_state st = Inr ()" and "dget (runtime_clocks st) a = Some rc"
  shows "check_runtime_clock rc = Inr ()" and "rc_clock rc = a" and "compiled_address a"
proof -
  from assms(2) have "(a, rc) \<in> set (runtime_clocks st)" by (rule map_of_SomeD)
  with assms(1) show "check_runtime_clock rc = Inr ()" "rc_clock rc = a" "compiled_address a"
    by (auto simp: check_time_runtime_state_def construct_time_runtime_state_def check_address_def errs)
qed

lemma co_context_Inr:
  assumes "time_ok digest co s"
  shows "co_context co s a = Inr rc \<longleftrightarrow> clock_at s a = Some rc"
proof -
  from assms obtain st where st: "time_model_state s = Some st" "check_time_runtime_state st = Inr ()"
    "set (dkeys (runtime_clocks st)) = set (dkeys (co_clocks co))"
    unfolding time_ok_def by blast
  show ?thesis
  proof (cases "dget (runtime_clocks st) a")
    case None
    then show ?thesis
      using st by (auto simp: co_context_def clock_at_def errs split: option.splits)
  next
    case (Some c)
    then have "a \<in> set (dkeys (co_clocks co))" unfolding st(3) [symmetric] by (rule dget_Some_key)
    then obtain cc where "dget (co_clocks co) a = Some cc" unfolding dkeys_iff_dget by blast
    then show ?thesis
      using st(1) Some check_time_runtime_stateD(2) [OF st(2) Some]
      by (auto simp: co_context_def clock_at_def co_clock_def)
  qed
qed

lemma co_reading_Inr:
  assumes "time_ok digest co s" and "clock_at s a = Some rc"
  shows "co_reading co s a =
    Inr \<lparr>reading_clock = a, reading_segment = segment (rc_coordinate rc),
         reading_tick = tick (rc_coordinate rc), reading_microstep = microstep (rc_coordinate rc)\<rparr>"
proof -
  have "co_context co s a = Inr rc"
    unfolding co_context_Inr [OF assms(1)] by (rule assms(2))
  then show ?thesis by (simp add: co_reading_def)
qed

section \<open>Appending one event\<close>

definition next_event :: "runtime_clock \<Rightarrow> transition_kind \<Rightarrow> time_coordinate \<Rightarrow> clock_event" where
  "next_event rc kind c =
     \<lparr>event_sequence = rc_sequence rc + 1, event_kind = kind, event_previous = Some (rc_coordinate rc),
      event_resulting = c, event_state = (if kind = Pause then PAUSED else RUNNING)\<rparr>"

definition next_clock :: "runtime_clock \<Rightarrow> transition_kind \<Rightarrow> time_coordinate \<Rightarrow> runtime_clock" where
  "next_clock rc kind c =
     rc\<lparr>rc_state := (if kind = Pause then PAUSED else RUNNING), rc_coordinate := c,
        rc_sequence := rc_sequence rc + 1, rc_history := rc_history rc @ [next_event rc kind c]\<rparr>"

definition with_clock :: "'r time_snapshot \<Rightarrow> address \<Rightarrow> runtime_clock \<Rightarrow> 'r time_snapshot" where
  "with_clock s a rc =
     s\<lparr>time_model_state :=
         map_option (\<lambda>st. st\<lparr>runtime_clocks := dput a rc (runtime_clocks st)\<rparr>) (time_model_state s)\<rparr>"

definition admissible :: "time_coordinate \<Rightarrow> transition_kind \<Rightarrow> time_coordinate \<Rightarrow> bool" where
  "admissible p kind c \<longleftrightarrow>
     0 \<le> segment c \<and> 0 \<le> microstep c \<and>
     (case kind of
        Initialize \<Rightarrow> False
      | Advance \<Rightarrow> segment c = segment p \<and> p < c
      | Pause \<Rightarrow> c = p
      | Resume \<Rightarrow> c = p
      | _ \<Rightarrow> segment c = segment p + 1)"

lemma validate_transition_next:
  assumes "validate_history rc = Inr ()" and "0 \<le> segment c \<and> 0 \<le> microstep c"
  shows "validate_transition (last (rc_history rc)) (next_event rc kind c) = Inr ()
    \<longleftrightarrow> admissible (rc_coordinate rc) kind c"
proof -
  have "event_resulting (last (rc_history rc)) = rc_coordinate rc"
    using assms(1) unfolding validate_history_iff by simp
  then show ?thesis
    using assms(2)
    by (cases kind; cases c; cases "rc_coordinate rc")
       (simp_all add: validate_transition_def next_event_def admissible_def errs less_time_coordinate_def,
         auto)
qed

lemma validate_history_next:
  assumes "validate_history rc = Inr ()" and "0 \<le> segment c \<and> 0 \<le> microstep c"
  shows "validate_history (next_clock rc kind c) = Inr () \<longleftrightarrow> admissible (rc_coordinate rc) kind c"
proof -
  let ?h = "rc_history rc" and ?e = "next_event rc kind c"
  note h = assms(1) [unfolded validate_history_iff]
  have ne: "?h \<noteq> []" using h by blast
  have len: "0 < length ?h" using ne by simp
  have seq: "rc_sequence rc = int (length ?h) - 1"
  proof -
    have "event_sequence (?h ! (length ?h - 1)) = int (length ?h - 1)"
      using h len by (metis diff_less zero_less_one)
    moreover have "last ?h = ?h ! (length ?h - 1)" using ne by (rule last_conv_nth)
    moreover have "rc_sequence rc = event_sequence (last ?h)" using h by blast
    ultimately show ?thesis using len by (simp add: of_nat_diff Suc_le_eq)
  qed
  have "(\<forall>i < length (?h @ [?e]). event_sequence ((?h @ [?e]) ! i) = int i)"
    using h seq by (auto simp: nth_append next_event_def less_Suc_eq)
  moreover have "(\<forall>i. Suc i < length (?h @ [?e]) \<longrightarrow> event_step ((?h @ [?e]) ! i) ((?h @ [?e]) ! Suc i))
      \<longleftrightarrow> event_step (last ?h) ?e"
  proof
    assume a: "\<forall>i. Suc i < length (?h @ [?e]) \<longrightarrow> event_step ((?h @ [?e]) ! i) ((?h @ [?e]) ! Suc i)"
    from a [rule_format, of "length ?h - 1"] show "event_step (last ?h) ?e"
      using ne len by (simp add: nth_append last_conv_nth)
  next
    assume s: "event_step (last ?h) ?e"
    show "\<forall>i. Suc i < length (?h @ [?e]) \<longrightarrow> event_step ((?h @ [?e]) ! i) ((?h @ [?e]) ! Suc i)"
    proof (intro allI impI)
      fix i assume i: "Suc i < length (?h @ [?e])"
      show "event_step ((?h @ [?e]) ! i) ((?h @ [?e]) ! Suc i)"
      proof (cases "Suc i < length ?h")
        case True
        with h show ?thesis by (simp add: nth_append)
      next
        case False
        with i have "i = length ?h - 1" using len by simp
        with s ne len show ?thesis by (simp add: nth_append last_conv_nth)
      qed
    qed
  qed
  moreover have "event_step (last ?h) ?e \<longleftrightarrow> admissible (rc_coordinate rc) kind c"
    using validate_transition_next [OF assms] h by (simp add: event_step_def) (simp add: next_event_def)
  ultimately show ?thesis
    using h ne unfolding validate_history_iff
    by (simp add: next_clock_def) (simp add: next_event_def)
qed

lemma construct_next_clock:
  assumes "check_runtime_clock rc = Inr ()" and "0 \<le> segment c \<and> 0 \<le> microstep c"
  shows "construct_runtime_clock (next_clock rc kind c) = Inr () \<longleftrightarrow> admissible (rc_coordinate rc) kind c"
proof -
  from assms(1) have "construct_runtime_clock rc = Inr ()" by (simp add: check_runtime_clock_def errs)
  then show ?thesis
    using validate_history_next [OF _ assms(2), of rc kind]
    by (auto simp: construct_runtime_clock_def errs) (auto simp: next_clock_def)
qed

lemma check_next_event:
  assumes "check_runtime_clock rc = Inr ()"
  shows "check_event (next_event rc kind c) = Inr () \<longleftrightarrow> 0 \<le> segment c \<and> 0 \<le> microstep c"
  using assms
  by (auto simp: check_runtime_clock_def construct_runtime_clock_def check_event_def next_event_def
      check_optional_def check_coordinate_def errs)

lemma check_next_clock:
  assumes "check_runtime_clock rc = Inr ()" and "admissible (rc_coordinate rc) kind c"
  shows "check_runtime_clock (next_clock rc kind c) = Inr ()"
proof -
  have c: "0 \<le> segment c \<and> 0 \<le> microstep c" using assms(2) by (simp add: admissible_def)
  then have "construct_runtime_clock (next_clock rc kind c) = Inr ()"
    using construct_next_clock [OF assms(1)] assms(2) by blast
  moreover have "check_event (next_event rc kind c) = Inr ()"
    using check_next_event [OF assms(1)] c by blast
  moreover have "echeck check_event (rc_history rc) = Inr ()"
    using assms(1) by (simp add: check_runtime_clock_def errs)
  ultimately show ?thesis
    using c by (auto simp: check_runtime_clock_def errs check_coordinate_def) (auto simp: next_clock_def)
qed

section \<open>Replacing one clock\<close>

lemma time_okD:
  assumes "time_ok digest co s" and "clock_at s a = Some rc"
  obtains st where "time_model_state s = Some st" "dget (runtime_clocks st) a = Some rc"
    "check_runtime_clock rc = Inr ()" "rc_clock rc = a" "compiled_address a"
    "dict_ok (runtime_clocks st)" "check_time_runtime_state st = Inr ()"
    "validate_time_runtime_state digest (co_declaration co) st = Inr ()"
    "set (dkeys (runtime_clocks st)) = set (dkeys (co_clocks co))"
proof -
  from assms(1) obtain st where st: "time_model_state s = Some st" "dict_ok (runtime_clocks st)"
    "check_time_runtime_state st = Inr ()"
    "validate_time_runtime_state digest (co_declaration co) st = Inr ()"
    "set (dkeys (runtime_clocks st)) = set (dkeys (co_clocks co))"
    unfolding time_ok_def by blast
  then have g: "dget (runtime_clocks st) a = Some rc"
    using assms(2) by (simp add: clock_at_def)
  show thesis
    by (rule that [OF st(1) g check_time_runtime_stateD [OF st(3) g] st(2-5)])
qed

lemma construct_state_put:
  assumes "check_time_runtime_state st = Inr ()" and "dict_ok (runtime_clocks st)"
    and "dget (runtime_clocks st) a = Some rc" and "rc_clock rc' = a"
  shows "construct_time_runtime_state (st\<lparr>runtime_clocks := dput a rc' (runtime_clocks st)\<rparr>) = Inr ()"
proof -
  have keys: "dkeys (dput a rc' (runtime_clocks st)) = dkeys (runtime_clocks st)"
    using assms(3) by (simp add: dkeys_dput_present)
  have "construct_time_runtime_state st = Inr ()"
    using assms(1) by (simp add: check_time_runtime_state_def errs)
  then have d: "sha256_digest_text (declaration_digest st)" "runtime_clocks st \<noteq> []"
    "\<forall>k \<in> set (dkeys (runtime_clocks st)). check_address k = Inr ()"
    "\<forall>(k, c) \<in> set (runtime_clocks st). k = rc_clock c"
    by (auto simp: construct_time_runtime_state_def errs)
  have "dput a rc' (runtime_clocks st) \<noteq> []" using keys d(2) by fastforce
  moreover have "\<forall>(k, c) \<in> set (dput a rc' (runtime_clocks st)). k = rc_clock c"
    using d(4) assms(4) set_dput_subset [of a rc' "runtime_clocks st"] by auto
  ultimately show ?thesis
    using d(1,3) by (auto simp: construct_time_runtime_state_def errs keys simp del: set_map list.set_map)
qed

lemma replace_context_run:
  assumes ok: "time_ok digest co s" and rc: "clock_at s a = Some rc" and "reading_clock r = a"
    and q: "q = (if kind = Pause then PAUSED else RUNNING)"
  shows "replace_context co s rc kind r q = Inr s' \<longleftrightarrow>
    admissible (rc_coordinate rc) kind (reading_coordinate r)
    \<and> s' = with_clock s a (next_clock rc kind (reading_coordinate r))"
proof -
  obtain st where st: "time_model_state s = Some st" "dget (runtime_clocks st) a = Some rc"
    "check_runtime_clock rc = Inr ()" "rc_clock rc = a" "dict_ok (runtime_clocks st)"
    "check_time_runtime_state st = Inr ()"
    using time_okD [OF ok rc] by blast
  let ?c = "reading_coordinate r"
  define e where "e = next_event rc kind ?c"
  have tr: "make_transition (rc_sequence rc + 1) kind r
      (Some \<lparr>reading_clock = a, reading_segment = segment (rc_coordinate rc),
         reading_tick = tick (rc_coordinate rc), reading_microstep = microstep (rc_coordinate rc)\<rparr>)
      = ebind (check_event e) (\<lambda>_. Inr e)"
    by (simp add: make_transition_def e_def next_event_def reading_coordinate_def Let_def)
  define N where "N = next_clock rc kind ?c"
  have nc: "rc\<lparr>rc_state := q, rc_coordinate := ?c, rc_sequence := rc_sequence rc + 1,
      rc_history := rc_history rc @ [e]\<rparr> = N"
    by (simp add: N_def next_clock_def e_def q)
  have N: "rc_clock N = a" "rc_coordinate N = ?c" using st(4) by (simp_all add: N_def next_clock_def)
  have put: "construct_time_runtime_state (st\<lparr>runtime_clocks := dput a N (runtime_clocks st)\<rparr>) = Inr ()"
    by (rule construct_state_put [OF st(6,5,2) N(1)])
  have wc: "s\<lparr>time_model_state := Some (st\<lparr>runtime_clocks := dput a N (runtime_clocks st)\<rparr>)\<rparr> = with_clock s a N"
    by (simp add: with_clock_def st(1))
  have run: "replace_context co s rc kind r q =
      ebind (check_event e) (\<lambda>_. ebind (check_coordinate ?c) (\<lambda>_.
        ebind (construct_runtime_clock N) (\<lambda>_. Inr (with_clock s a N))))"
    unfolding replace_context_def assms(3) co_reading_Inr [OF ok rc] ebind.simps tr
    by (cases "check_event e") (simp_all add: Let_def nc N st(1) put wc)
  have "check_event e = Inr () \<longleftrightarrow> 0 \<le> segment ?c \<and> 0 \<le> microstep ?c"
    unfolding e_def by (rule check_next_event [OF st(3)])
  moreover have "check_coordinate ?c = Inr () \<longleftrightarrow> 0 \<le> segment ?c \<and> 0 \<le> microstep ?c"
    by (simp add: check_coordinate_def errs)
  moreover have "construct_runtime_clock N = Inr () \<longleftrightarrow> admissible (rc_coordinate rc) kind ?c"
    if "0 \<le> segment ?c \<and> 0 \<le> microstep ?c"
    unfolding N_def by (rule construct_next_clock [OF st(3) that])
  moreover have "0 \<le> segment ?c \<and> 0 \<le> microstep ?c" if "admissible (rc_coordinate rc) kind ?c"
    using that by (simp add: admissible_def)
  ultimately show ?thesis
    unfolding run N_def [symmetric] by (auto simp: ebind_eq_Inr)
qed

lemma replace_context_state:
  assumes "replace_context co s rc kind r q = Inr s'"
  shows "q = (if kind = Pause then PAUSED else RUNNING)"
proof -
  from assms obtain prev e where e: "make_transition (rc_sequence rc + 1) kind r (Some prev) = Inr e"
    and c: "construct_runtime_clock (rc\<lparr>rc_state := q, rc_coordinate := reading_coordinate r,
      rc_sequence := rc_sequence rc + 1, rc_history := rc_history rc @ [e]\<rparr>) = Inr ()"
    unfolding replace_context_def Let_def ebind_eq_Inr by auto
  from c have "q = event_state e"
    by (simp add: construct_runtime_clock_def errs validate_history_iff)
  moreover have "event_state e = (if kind = Pause then PAUSED else RUNNING)"
    using e by (auto simp: make_transition_def Let_def ebind_eq_Inr)
  ultimately show ?thesis by simp
qed

section \<open>The abstract clock machine\<close>

text \<open>
  What an operation promises for the clock it addresses: \<open>clock_spec\<close> gives the kind of the
  transition and the coordinate after it, or \<open>None\<close> when the operation is refused.
\<close>

fun op_clock :: "clock_op \<Rightarrow> address" where
  "op_clock (OpAdvance a t m) = a"
| "op_clock (OpPause a) = a"
| "op_clock (OpResume a) = a"
| "op_clock (OpJump a t m) = a"
| "op_clock (OpReset a replay) = a"

fun clock_spec :: "coordinator \<Rightarrow> clock_op \<Rightarrow> clock_lifecycle \<Rightarrow> time_coordinate \<Rightarrow>
    (transition_kind \<times> time_coordinate) option" where
  "clock_spec co (OpAdvance a t m) q c =
     (case dget (co_policies co) a of
        None \<Rightarrow> None
      | Some p \<Rightarrow>
          if q = RUNNING \<and> 0 \<le> t \<and> 0 \<le> m \<and> \<not> (t = 0 \<and> m = 0)
             \<and> (cp_advancement p = Stepped \<longrightarrow> cp_step_ticks p = Some t)
          then Some (Advance, Coordinate (segment c) (tick c + t) (if t = 0 then microstep c + m else m))
          else None)"
| "clock_spec co (OpPause a) q c =
     (case dget (co_clocks co) a of
        None \<Rightarrow> None
      | Some cc \<Rightarrow> if cc_pause cc \<and> q = RUNNING then Some (Pause, c) else None)"
| "clock_spec co (OpResume a) q c = (if q = PAUSED then Some (Resume, c) else None)"
| "clock_spec co (OpJump a t m) q c =
     (case dget (co_clocks co) a of
        None \<Rightarrow> None
      | Some cc \<Rightarrow>
          if cc_jump cc \<and> q = RUNNING \<and> 0 \<le> m then Some (Jump, Coordinate (segment c + 1) t m) else None)"
| "clock_spec co (OpReset a replay) q c =
     (case (dget (co_clocks co) a, dget (co_policies co) a) of
        (Some cc, Some p) \<Rightarrow>
          if cc_reset cc \<and> (if replay then cp_replay p \<noteq> ReplayUnsupported else cp_reset p \<noteq> ResetUnsupported)
          then Some (if replay then Replay else Reset,
                 if \<not> replay \<and> cp_reset p = NewSegmentPreserveValue
                 then Coordinate (segment c + 1) (tick c) (microstep c) else Coordinate (segment c + 1) 0 0)
          else None
      | _ \<Rightarrow> None)"

lemma co_clock_of_context:
  assumes "time_ok digest co s" and "clock_at s a = Some rc"
  obtains cc where "dget (co_clocks co) a = Some cc" "co_clock co a = Inr cc"
proof -
  from assms(1) obtain st where ts: "time_model_state s = Some st"
    and keys: "set (dkeys (runtime_clocks st)) = set (dkeys (co_clocks co))"
    unfolding time_ok_def by blast
  have st: "dget (runtime_clocks st) a = Some rc"
    using assms(2) ts by (simp add: clock_at_def)
  have "a \<in> set (dkeys (co_clocks co))"
    unfolding keys [symmetric] using st by (rule dget_Some_key)
  then obtain cc where "dget (co_clocks co) a = Some cc" unfolding dkeys_iff_dget by blast
  then show thesis using that by (simp add: co_clock_def)
qed

lemma context_nonneg:
  assumes "time_ok digest co s" and "clock_at s a = Some rc"
  shows "0 \<le> segment (rc_coordinate rc)" and "0 \<le> microstep (rc_coordinate rc)"
proof -
  have "check_runtime_clock rc = Inr ()" by (rule time_okD [OF assms])
  then show "0 \<le> segment (rc_coordinate rc)" "0 \<le> microstep (rc_coordinate rc)"
    by (simp_all add: check_runtime_clock_def check_coordinate_def errs)
qed

lemma clock_step_unknown:
  assumes "time_ok digest co s" and "clock_at s (op_clock op) = None"
  shows "clock_step co op s \<noteq> Inr s'"
proof -
  have "co_context co s (op_clock op) \<noteq> Inr rc" for rc
    using assms(2) unfolding co_context_Inr [OF assms(1)] by simp
  then show ?thesis
    by (cases op)
       (simp_all add: coordinator_advance_def coordinator_pause_def coordinator_resume_def
          coordinator_jump_def coordinator_reset_def ebind_eq_Inr split: option.splits)
qed

lemma clock_step_run:
  assumes ok: "time_ok digest co s" and rc: "clock_at s (op_clock op) = Some rc"
  shows "clock_step co op s = Inr s' \<longleftrightarrow>
    (\<exists>k c. clock_spec co op (rc_state rc) (rc_coordinate rc) = Some (k, c)
       \<and> s' = with_clock s (op_clock op) (next_clock rc k c))"
proof -
  have ctx: "co_context co s (op_clock op) = Inr rc"
    unfolding co_context_Inr [OF ok] by (rule rc)
  note reading = co_reading_Inr [OF ok rc]
  have run: "replace_context co s rc k r RUNNING = Inr s' \<longleftrightarrow>
      admissible (rc_coordinate rc) k (reading_coordinate r)
      \<and> s' = with_clock s (op_clock op) (next_clock rc k (reading_coordinate r))"
    if "k \<noteq> Pause" "reading_clock r = op_clock op" for k r
    using replace_context_run [OF ok rc that(2), where q = RUNNING and kind = k and s' = s'] that(1) by simp
  have pause: "replace_context co s rc Pause r PAUSED = Inr s' \<longleftrightarrow>
      admissible (rc_coordinate rc) Pause (reading_coordinate r)
      \<and> s' = with_clock s (op_clock op) (next_clock rc Pause (reading_coordinate r))"
    if "reading_clock r = op_clock op" for r
    using replace_context_run [OF ok rc that, where q = PAUSED and kind = Pause and s' = s'] by simp
  obtain cc where cc: "dget (co_clocks co) (op_clock op) = Some cc" "co_clock co (op_clock op) = Inr cc"
    using co_clock_of_context [OF ok rc] by blast
  note nn = context_nonneg [OF ok rc]
  obtain g t m where g: "rc_coordinate rc = Coordinate g t m" by (cases "rc_coordinate rc")
  show ?thesis
  proof (cases op)
    case (OpAdvance a tk mi)
    with ctx reading run nn show ?thesis
      by (cases "dget (co_policies co) a")
         (auto simp: coordinator_advance_def errs reading_coordinate_def admissible_def g
            less_time_coordinate_def)
  next
    case (OpPause a)
    with ctx reading pause cc nn show ?thesis
      by (auto simp: coordinator_pause_def errs reading_coordinate_def admissible_def g)
  next
    case (OpResume a)
    with ctx reading run nn show ?thesis
      by (auto simp: coordinator_resume_def errs reading_coordinate_def admissible_def g)
  next
    case (OpJump a tk mi)
    with ctx reading run cc nn show ?thesis
      by (cases "rc_state rc")
         (auto simp: coordinator_jump_def errs reading_coordinate_def admissible_def g
            dest!: replace_context_state)
  next
    case (OpReset a replay)
    with ctx reading run cc nn show ?thesis
      by (cases "dget (co_policies co) a")
         (auto simp: coordinator_reset_def errs reading_coordinate_def admissible_def g Let_def)
  qed
qed

section \<open>Preservation\<close>

lemma clock_spec_admissible:
  assumes "clock_spec co op q c = Some (k, c')" and "0 \<le> segment c" and "0 \<le> microstep c"
  shows "admissible c k c'"
  using assms
  by (cases op; cases c)
     (auto simp: admissible_def less_time_coordinate_def split: option.splits if_splits)

lemma clock_at_with_clock:
  "clock_at s a \<noteq> None \<Longrightarrow> clock_at (with_clock s a rc) b = (if b = a then Some rc else clock_at s b)"
  by (cases "time_model_state s") (auto simp: clock_at_def with_clock_def)

lemma check_clock_binding_next:
  "check_clock_binding tm (a, next_clock rc k c) = check_clock_binding tm (a, rc)"
  by (simp add: check_clock_binding_def next_clock_def cong: option.case_cong)

lemma with_clock_ok:
  assumes ok: "time_ok digest co s" and rc: "clock_at s a = Some rc"
    and adm: "admissible (rc_coordinate rc) k c"
  shows "time_ok digest co (with_clock s a (next_clock rc k c))"
proof -
  let ?n = "next_clock rc k c"
  from ok obtain st where st: "time_model_state s = Some st" "dict_ok (runtime_clocks st)"
    "check_time_runtime_state st = Inr ()"
    "validate_time_runtime_state digest (co_declaration co) st = Inr ()"
    "set (dkeys (runtime_clocks st)) = set (dkeys (co_clocks co))"
    unfolding time_ok_def by blast
  have g: "dget (runtime_clocks st) a = Some rc"
    using rc st(1) by (simp add: clock_at_def)
  have mem: "(a, rc) \<in> set (runtime_clocks st)" using g by (rule map_of_SomeD)
  define st' where "st' = st\<lparr>runtime_clocks := dput a ?n (runtime_clocks st)\<rparr>"
  have keys: "dkeys (runtime_clocks st') = dkeys (runtime_clocks st)"
    using g by (simp add: st'_def dkeys_dput_present)
  have sub: "set (runtime_clocks st') \<subseteq> insert (a, ?n) (set (runtime_clocks st))"
    unfolding st'_def by (simp add: set_dput_subset)
  note rcok = check_time_runtime_stateD [OF st(3) g]
  have key: "rc_clock ?n = a" using rcok(2) by (simp add: next_clock_def)
  have "check_runtime_clock rc' = Inr ()" if "rc' \<in> set (dvals (runtime_clocks st'))" for rc'
  proof -
    from that sub have "rc' = ?n \<or> rc' \<in> set (dvals (runtime_clocks st))" by auto
    then show ?thesis
      using check_next_clock [OF rcok(1) adm] st(3)
      by (auto simp: check_time_runtime_state_def errs)
  qed
  moreover have "construct_time_runtime_state st' = Inr ()"
    unfolding st'_def by (rule construct_state_put [OF st(3,2) g key])
  ultimately have "check_time_runtime_state st' = Inr ()"
    by (simp add: check_time_runtime_state_def errs)
  moreover have "check_clock_binding (co_declaration co) p = Inr ()" if "p \<in> set (runtime_clocks st')" for p
    using that sub st(4) mem check_clock_binding_next [of "co_declaration co" a rc k c]
    by (auto simp: validate_time_runtime_state_def errs)
  then have "validate_time_runtime_state digest (co_declaration co) st' = Inr ()"
    using st(4) keys
    by (simp add: validate_time_runtime_state_def errs del: set_map list.set_map) (simp add: st'_def)
  moreover have "time_model_state (with_clock s a ?n) = Some st'"
    by (simp add: with_clock_def st(1) st'_def)
  ultimately show ?thesis
    using st(2,5) keys unfolding time_ok_def by metis
qed

definition clock_history :: "address \<Rightarrow> 'r time_snapshot \<Rightarrow> clock_event list" where
  "clock_history a s = (case clock_at s a of None \<Rightarrow> [] | Some rc \<Rightarrow> rc_history rc)"

lemma clock_step_preserves:
  assumes ok: "time_ok digest co s" and step: "clock_step co op s = Inr s'"
  shows "time_ok digest co s'" and "prefix (clock_history a s) (clock_history a s')"
proof -
  obtain rc where rc: "clock_at s (op_clock op) = Some rc"
    using clock_step_unknown [OF ok] step by fastforce
  obtain k c where spec: "clock_spec co op (rc_state rc) (rc_coordinate rc) = Some (k, c)"
    and s': "s' = with_clock s (op_clock op) (next_clock rc k c)"
    using step unfolding clock_step_run [OF ok rc] by blast
  have adm: "admissible (rc_coordinate rc) k c"
    by (rule clock_spec_admissible [OF spec context_nonneg [OF ok rc]])
  show "time_ok digest co s'"
    unfolding s' by (rule with_clock_ok [OF ok rc adm])
  show "prefix (clock_history a s) (clock_history a s')"
    using rc by (auto simp: clock_history_def s' clock_at_with_clock next_clock_def)
qed

interpretation clock: logged_machine
  "clock_step co" "time_ok digest co" "clock_history a" for co digest a
  by unfold_locales (auto intro: clock_step_preserves)

lemma transition_of_histories:
  assumes "time_ok digest co s" and "time_ok digest co s'"
    and "\<And>a. prefix (clock_history a s) (clock_history a s')"
  shows "validate_time_runtime_transition (time_model_state s) (time_model_state s') = Inr ()"
proof -
  from assms(1) obtain st where st: "time_model_state s = Some st" "dict_ok (runtime_clocks st)"
    "validate_time_runtime_state digest (co_declaration co) st = Inr ()"
    "set (dkeys (runtime_clocks st)) = set (dkeys (co_clocks co))"
    unfolding time_ok_def by blast
  from assms(2) obtain st' where st': "time_model_state s' = Some st'" "dict_ok (runtime_clocks st')"
    "validate_time_runtime_state digest (co_declaration co) st' = Inr ()"
    "set (dkeys (runtime_clocks st')) = set (dkeys (co_clocks co))"
    unfolding time_ok_def by blast
  have "\<exists>nc. dget (runtime_clocks st') a = Some nc \<and> prefix (rc_history rc) (rc_history nc)"
    if "(a, rc) \<in> set (runtime_clocks st)" for a rc
  proof -
    have g: "dget (runtime_clocks st) a = Some rc" using that st(2) by simp
    then have "a \<in> set (dkeys (runtime_clocks st'))"
      unfolding st'(4) st(4) [symmetric] by (rule dget_Some_key)
    then obtain nc where "dget (runtime_clocks st') a = Some nc" unfolding dkeys_iff_dget by blast
    with g assms(3) [of a] show ?thesis by (simp add: clock_history_def clock_at_def st(1) st'(1))
  qed
  moreover have "declaration_digest st = declaration_digest st'"
    using st(3) st'(3) by (simp add: validate_time_runtime_state_def errs)
  ultimately show ?thesis
    unfolding st(1) st'(1) validate_transition_iff using st(4) st'(4) by auto
qed

section \<open>The declaration and the compiled model\<close>

lemma dict_by_distinct: "distinct (map k xs) \<Longrightarrow> dict_by k xs = map (\<lambda>x. (k x, x)) xs"
  unfolding dict_by_def by (subst foldl_dput_distinct) simp_all

lemma dkeys_dict_by: "set (dkeys (dict_by k xs)) = k ` set xs"
proof -
  have "set (dkeys (foldl (\<lambda>d x. dput (k x) x d) acc xs)) = set (dkeys acc) \<union> k ` set xs" for acc
    by (induction xs arbitrary: acc) (simp_all add: dkeys_dput del: set_map list.set_map)
  then show ?thesis unfolding dict_by_def by simp
qed

lemma keyed_by_address:
  assumes "validate_address_map addr d = Inr ()" and "dict_ok d"
  shows "dict_by addr (dvals d) = d"
proof -
  have k: "map addr (dvals d) = dkeys d"
    using assms(1) by (auto simp: validate_address_map_def errs)
  have "dict_by addr (dvals d) = map (\<lambda>x. (addr x, x)) (dvals d)"
    by (rule dict_by_distinct) (unfold k, rule assms(2))
  also have "\<dots> = d"
    using k by (auto intro!: map_idI)
  finally show ?thesis .
qed

definition zero_segment :: "time_coordinate option \<Rightarrow> bool" where
  "zero_segment m \<longleftrightarrow> (case m of None \<Rightarrow> True | Some c \<Rightarrow> segment c = 0)"

definition segment_free :: "time_model \<Rightarrow> bool" where
  "segment_free tm \<longleftrightarrow>
     list_all (\<lambda>c. zero_segment (constraint_start c) \<and> zero_segment (constraint_end c))
       (dvals (temporal_constraints tm))"

definition time_model_keys :: "time_model \<Rightarrow> address list" where
  "time_model_keys tm =
     dkeys (domains tm) @ dkeys (clocks tm) @ dkeys (mappings tm)
     @ dkeys (progression_policies tm) @ dkeys (temporal_constraints tm)"

definition compiled_of_contract :: "time_model \<Rightarrow> compiled_time_model" where
  "compiled_of_contract tm =
     \<lparr>compiled_domains = map domain_compiled (dvals (domains tm)),
      compiled_clocks = map clock_compiled (dvals (clocks tm)),
      compiled_mappings = map mapping_compiled (dvals (mappings tm)),
      compiled_policies = map policy_compiled (dvals (progression_policies tm)),
      compiled_constraints = map constraint_compiled (dvals (temporal_constraints tm))\<rparr>"

lemma domain_contract_compiled [simp]: "domain_contract (domain_compiled d) = d"
  by (simp add: domain_contract_def domain_compiled_def)

lemma clock_contract_compiled [simp]: "clock_contract (clock_compiled c) = c"
  by (simp add: clock_contract_def clock_compiled_def)

lemma mapping_contract_compiled [simp]: "mapping_contract (mapping_compiled m) = m"
  by (simp add: mapping_contract_def mapping_compiled_def)

lemma policy_contract_compiled [simp]: "policy_contract (policy_compiled p) = p"
  by (simp add: policy_contract_def policy_compiled_def)

lemma coordinate_contract_compiled:
  "zero_segment m \<Longrightarrow> coordinate_contract (map_option tick m) (map_option microstep m) = m"
  by (cases m) (auto simp: coordinate_contract_def zero_segment_def intro: time_coordinate.expand)

lemma constraint_contract_compiled:
  "zero_segment (constraint_start c) \<Longrightarrow> zero_segment (constraint_end c) \<Longrightarrow>
     constraint_contract (constraint_compiled c) = c"
  by (cases c) (simp add: constraint_contract_def constraint_compiled_def coordinate_contract_compiled)

lemma check_time_modelD:
  assumes "check_time_model tm = Inr ()"
  shows "domains tm \<noteq> []" "clocks tm \<noteq> []"
    "validate_address_map domain_address (domains tm) = Inr ()"
    "validate_address_map clock_address (clocks tm) = Inr ()"
    "validate_address_map mapping_address (mappings tm) = Inr ()"
    "validate_address_map policy_address (progression_policies tm) = Inr ()"
    "validate_address_map constraint_address (temporal_constraints tm) = Inr ()"
    "\<And>d. d \<in> set (dvals (domains tm)) \<Longrightarrow> check_domain d = Inr ()"
    "\<And>c. c \<in> set (dvals (clocks tm)) \<Longrightarrow> check_clock c = Inr ()"
    "\<And>m. m \<in> set (dvals (mappings tm)) \<Longrightarrow> check_mapping m = Inr ()"
    "\<And>p. p \<in> set (dvals (progression_policies tm)) \<Longrightarrow> check_policy p = Inr ()"
    "\<And>c. c \<in> set (dvals (temporal_constraints tm)) \<Longrightarrow> check_constraint c = Inr ()"
    "validate_policy_references tm = Inr ()"
  using assms
  by (simp_all add: check_time_model_def validate_references_def ebind_eq_Inr require_eq_Inr echeck_eq_Inr
      del: set_map list.set_map)

lemma address_map_keys: "validate_address_map addr d = Inr () \<Longrightarrow> map addr (dvals d) = dkeys d"
  by (auto simp: validate_address_map_def errs)

lemma check_part_addresses:
  "check_domain d = Inr () \<Longrightarrow> check_address (domain_address d) = Inr ()"
  "check_clock c = Inr () \<Longrightarrow>
     check_address (clock_address c) = Inr () \<and> check_address (clock_domain c) = Inr ()"
  "check_mapping m = Inr () \<Longrightarrow> check_address (mapping_address m) = Inr ()
     \<and> check_address (source_domain m) = Inr () \<and> check_address (target_domain m) = Inr ()"
  "check_policy p = Inr () \<Longrightarrow>
     check_address (policy_address p) = Inr () \<and> check_address (policy_clock p) = Inr ()"
  "check_constraint k = Inr () \<Longrightarrow> check_address (constraint_address k) = Inr ()
     \<and> check_address (constraint_clock k) = Inr () \<and> (\<forall>a \<in> set (subject_addresses k). check_address a = Inr ())"
  by (simp_all add: check_domain_def check_clock_def check_mapping_def check_policy_def check_constraint_def
      ebind_eq_Inr echeck_eq_Inr)

lemma make_compiled_of_contract:
  assumes ok: "check_time_model tm = Inr ()" and dist: "distinct (time_model_keys tm)"
  shows "make_compiled_time_model (compiled_of_contract tm) = Inr (compiled_of_contract tm)"
proof -
  note d = check_time_modelD [OF ok]
  have "compiled_addresses (compiled_of_contract tm) = time_model_keys tm"
    using d(3-7) [THEN address_map_keys]
    by (simp add: compiled_addresses_def compiled_of_contract_def time_model_keys_def o_def
        domain_compiled_def clock_compiled_def mapping_compiled_def policy_compiled_def constraint_compiled_def)
  then have "distinct (compiled_addresses (compiled_of_contract tm))" using dist by simp
  moreover have "\<forall>x \<in> set (compiled_domains (compiled_of_contract tm)). check_address (cd_address x) = Inr ()"
    using d(8) unfolding compiled_of_contract_def
    by (auto simp: domain_compiled_def dest!: check_part_addresses(1))
  moreover have "\<forall>x \<in> set (compiled_clocks (compiled_of_contract tm)).
      check_address (cc_address x) = Inr () \<and> check_address (cc_domain x) = Inr ()"
    using d(9) unfolding compiled_of_contract_def
    by (auto simp: clock_compiled_def dest!: check_part_addresses(2))
  moreover have "\<forall>x \<in> set (compiled_mappings (compiled_of_contract tm)).
      check_address (cm_address x) = Inr () \<and> check_address (cm_source x) = Inr ()
      \<and> check_address (cm_target x) = Inr ()"
    using d(10) unfolding compiled_of_contract_def
    by (auto simp: mapping_compiled_def dest!: check_part_addresses(3))
  moreover have "\<forall>x \<in> set (compiled_policies (compiled_of_contract tm)).
      check_address (cp_address x) = Inr () \<and> check_address (cp_clock x) = Inr ()"
    using d(11) unfolding compiled_of_contract_def
    by (auto simp: policy_compiled_def dest!: check_part_addresses(4))
  moreover have "\<forall>x \<in> set (compiled_constraints (compiled_of_contract tm)).
      check_address (ct_address x) = Inr () \<and> check_address (ct_clock x) = Inr ()
      \<and> (\<forall>a \<in> set (ct_subjects x). check_address a = Inr ())"
    using d(12) unfolding compiled_of_contract_def
    by (auto simp: constraint_compiled_def dest!: check_part_addresses(5))
  ultimately show ?thesis
    unfolding make_compiled_time_model_def ebind_eq_Inr echeck_eq_Inr require_eq_Inr by auto
qed

lemma contract_of_compiled_of_contract:
  assumes ok: "check_time_model tm = Inr ()" and dist: "distinct (time_model_keys tm)" and seg: "segment_free tm"
  shows "contract_of_compiled (compiled_of_contract tm) = tm"
proof -
  note d = check_time_modelD [OF ok]
  have "dict_ok (domains tm)" "dict_ok (clocks tm)" "dict_ok (mappings tm)"
    "dict_ok (progression_policies tm)" "dict_ok (temporal_constraints tm)"
    using dist by (simp_all add: time_model_keys_def)
  note keyed = keyed_by_address [OF d(3) this(1)] keyed_by_address [OF d(4) this(2)]
    keyed_by_address [OF d(5) this(3)] keyed_by_address [OF d(6) this(4)] keyed_by_address [OF d(7) this(5)]
  have "map constraint_contract (map constraint_compiled (dvals (temporal_constraints tm)))
      = dvals (temporal_constraints tm)"
    using seg by (auto simp: segment_free_def list_all_iff constraint_contract_compiled intro!: map_idI)
  moreover have "map domain_contract (map domain_compiled xs) = xs" for xs by (simp add: map_idI)
  moreover have "map clock_contract (map clock_compiled xs) = xs" for xs by (simp add: map_idI)
  moreover have "map mapping_contract (map mapping_compiled xs) = xs" for xs by (simp add: map_idI)
  moreover have "map policy_contract (map policy_compiled xs) = xs" for xs by (simp add: map_idI)
  ultimately show ?thesis
    by (simp only: contract_of_compiled_def compiled_of_contract_def compiled_time_model.simps keyed) simp
qed

section \<open>Initialization\<close>

definition initial_event :: clock_event where
  "initial_event = \<lparr>event_sequence = 0, event_kind = Initialize, event_previous = None,
     event_resulting = Coordinate 0 0 0, event_state = RUNNING\<rparr>"

definition initial_runtime_clock :: "coordinator \<Rightarrow> address \<Rightarrow> compiled_clock \<Rightarrow> runtime_clock" where
  "initial_runtime_clock co a c =
     \<lparr>rc_clock = a, rc_domain = cc_domain c, rc_policy = map_option cp_address (dget (co_policies co) a),
      rc_authority_kind = cc_authority_kind c, rc_authority_ref = cc_authority_ref c,
      rc_state = RUNNING, rc_coordinate = Coordinate 0 0 0, rc_sequence = 0, rc_history = [initial_event]\<rparr>"

lemma initial_clock_run:
  "initial_clock co a c =
     ebind (construct_runtime_clock (initial_runtime_clock co a c)) (\<lambda>_. Inr (initial_runtime_clock co a c))"
  by (simp add: initial_clock_def make_transition_def initial_runtime_clock_def initial_event_def Let_def
      check_event_def check_optional_def check_coordinate_def reading_coordinate_def)

lemma policy_by_clock_fold:
  "efold (\<lambda>d p. if cp_clock p \<in> set (dkeys d) then Inl DuplicatePolicy else Inr (dput (cp_clock p) p d)) acc ps
     = Inr d \<Longrightarrow> d = acc @ map (\<lambda>p. (cp_clock p, p)) ps"
proof (induction ps arbitrary: acc)
  case Nil
  then show ?case by simp
next
  case (Cons p ps)
  from Cons.prems have new: "cp_clock p \<notin> set (dkeys acc)"
    and run: "efold (\<lambda>d p. if cp_clock p \<in> set (dkeys d) then Inl DuplicatePolicy
      else Inr (dput (cp_clock p) p d)) (dput (cp_clock p) p acc) ps = Inr d"
    by (auto simp del: set_map list.set_map split: if_splits)
  have "dput (cp_clock p) p acc = acc @ [(cp_clock p, p)]"
    using new unfolding dget_None_iff [symmetric] by (rule dput_absent)
  with Cons.IH [OF run] show ?case by simp
qed

lemma dget_map_pair: "dget (map (\<lambda>x. (k x, v x)) xs) a = map_option v (find (\<lambda>x. k x = a) xs)"
  by (induction xs) auto

lemma contract_fields [simp]:
  "clock_address (clock_contract c) = cc_address c" "policy_address (policy_contract p) = cp_address p"
  "policy_clock (policy_contract p) = cp_clock p"
  by (simp_all add: clock_contract_def policy_contract_def)

lemma make_coordinatorD:
  assumes "make_coordinator m = Inr co"
  shows "co_model co = m" "co_declaration co = contract_of_compiled m"
    "check_time_model (contract_of_compiled m) = Inr ()"
    "co_clocks co = dict_by cc_address (compiled_clocks m)"
    "co_policies co = map (\<lambda>p. (cp_clock p, p)) (compiled_policies m)"
  using assms
  by (auto simp: make_coordinator_def time_model_contract_model_def clock_by_address_def policy_by_clock_def
      ebind_eq_Inr split: if_splits dest!: policy_by_clock_fold simp del: set_map list.set_map)

lemma coordinator_parts:
  assumes co: "make_coordinator m = Inr co" and dist: "distinct (compiled_addresses m)"
  shows "co_clocks co = map (\<lambda>c. (cc_address c, c)) (compiled_clocks m)"
    and "clocks (co_declaration co) = map (\<lambda>c. (cc_address c, clock_contract c)) (compiled_clocks m)"
    and "progression_policies (co_declaration co) =
      map (\<lambda>p. (cp_address p, policy_contract p)) (compiled_policies m)"
    and "dget (policies_by_clock (co_declaration co)) a = map_option cp_address (dget (co_policies co) a)"
proof -
  note d = make_coordinatorD [OF co]
  have cd: "distinct (map cc_address (compiled_clocks m))" "distinct (map cp_address (compiled_policies m))"
    using dist by (simp_all add: compiled_addresses_def)
  show "co_clocks co = map (\<lambda>c. (cc_address c, c)) (compiled_clocks m)"
    unfolding d(4) using cd(1) by (rule dict_by_distinct)
  have "map clock_address (map clock_contract (compiled_clocks m)) = map cc_address (compiled_clocks m)"
    by (simp add: clock_contract_def)
  then show "clocks (co_declaration co) = map (\<lambda>c. (cc_address c, clock_contract c)) (compiled_clocks m)"
    unfolding d(2) contract_of_compiled_def
    using cd(1) by (simp add: dict_by_distinct o_def)
  have "map policy_address (map policy_contract (compiled_policies m)) = map cp_address (compiled_policies m)"
    by (simp add: policy_contract_def)
  then show ps: "progression_policies (co_declaration co) =
      map (\<lambda>p. (cp_address p, policy_contract p)) (compiled_policies m)"
    unfolding d(2) contract_of_compiled_def
    using cd(2) by (simp add: dict_by_distinct o_def)
  have "validate_policy_references (co_declaration co) = Inr ()"
    using check_time_modelD(13) [OF d(3)] unfolding d(2) .
  then have "distinct (map policy_clock (dvals (progression_policies (co_declaration co))))"
    by (simp add: validate_policy_references_def errs)
  then have "policies_by_clock (co_declaration co) =
      map (\<lambda>p. (policy_clock p, policy_address p)) (dvals (progression_policies (co_declaration co)))"
    unfolding policies_by_clock_def by (subst foldl_dput_distinct) simp_all
  then show "dget (policies_by_clock (co_declaration co)) a = map_option cp_address (dget (co_policies co) a)"
    unfolding d(5) ps
    by (simp add: o_def dget_map_pair option.map_comp)
qed

lemma coordinator_initialize_ok:
  assumes co: "make_coordinator m = Inr co" and dist: "distinct (compiled_addresses m)"
    and dig: "sha256_digest_text (digest (co_declaration co))" and fresh: "time_model_state s = None"
  shows "\<exists>s'. coordinator_initialize digest co s = Inr s' \<and> time_ok digest co s'
    \<and> (\<forall>a. clock_at s' a = map_option (initial_runtime_clock co a) (dget (co_clocks co) a))"
proof -
  note d = make_coordinatorD [OF co] and parts = coordinator_parts [OF co dist]
  note tm = check_time_modelD [OF d(3), folded d(2)]
  have cdist: "dict_ok (co_clocks co)"
    using dist by (simp add: parts(1) compiled_addresses_def o_def)
  have policy: "check_address (cp_address p) = Inr ()" if "dget (co_policies co) a = Some p" for a p
  proof -
    from that have "p \<in> set (compiled_policies m)" unfolding d(5) by (auto dest: map_of_SomeD)
    then have "policy_contract p \<in> set (dvals (progression_policies (co_declaration co)))"
      unfolding parts(3) by simp
    from check_part_addresses(4) [OF tm(11) [OF this]] show ?thesis by (simp add: policy_contract_def)
  qed
  have good: "construct_runtime_clock (initial_runtime_clock co a c) = Inr ()"
    "check_runtime_clock (initial_runtime_clock co a c) = Inr ()" "check_address a = Inr ()"
    if "(a, c) \<in> set (co_clocks co)" for a c
  proof -
    from that have c: "c \<in> set (compiled_clocks m)" "a = cc_address c" unfolding parts(1) by auto
    then have "clock_contract c \<in> set (dvals (clocks (co_declaration co)))" unfolding parts(2) by simp
    then have chk: "check_clock (clock_contract c) = Inr ()" by (rule tm(9))
    from check_part_addresses(2) [OF chk] show addr: "check_address a = Inr ()"
      unfolding c(2) by (simp add: clock_contract_def)
    from check_part_addresses(2) [OF chk] have dom: "check_address (cc_domain c) = Inr ()"
      by (simp add: clock_contract_def)
    from chk have ref: "check_text (cc_authority_ref c) = Inr ()"
      by (simp add: check_clock_def errs clock_contract_def)
    have pol: "check_optional check_address (map_option cp_address (dget (co_policies co) a)) = Inr ()"
      using policy [of a] by (cases "dget (co_policies co) a") (simp_all add: check_optional_def)
    have hist: "validate_history (initial_runtime_clock co a c) = Inr ()"
      by (simp add: validate_history_def initial_runtime_clock_def initial_event_def Let_def)
    show con: "construct_runtime_clock (initial_runtime_clock co a c) = Inr ()"
      unfolding construct_runtime_clock_def hist
      using addr dom ref pol by (simp add: initial_runtime_clock_def)
    show "check_runtime_clock (initial_runtime_clock co a c) = Inr ()"
      unfolding check_runtime_clock_def con
      by (simp add: initial_runtime_clock_def check_coordinate_def initial_event_def check_event_def
          check_optional_def errs)
  qed
  define ctx where "ctx = map (\<lambda>(a, c). (a, initial_runtime_clock co a c)) (co_clocks co)"
  have keys: "dkeys ctx = dkeys (co_clocks co)" unfolding ctx_def by (rule dkeys_map_value)
  have "efold (\<lambda>d (a, c). ebind (initial_clock co a c) (\<lambda>rc. Inr (dput a rc d))) [] (co_clocks co)
      = Inr (foldl (\<lambda>d x. dput (fst x) (initial_runtime_clock co (fst x) (snd x)) d) [] (co_clocks co))"
    by (rule efold_Inr) (auto simp: initial_clock_run good)
  also have "\<dots> = Inr ctx"
    using cdist by (subst foldl_dput_distinct) (simp_all add: ctx_def split_def)
  finally have run: "efold (\<lambda>d (a, c). ebind (initial_clock co a c) (\<lambda>rc. Inr (dput a rc d))) []
      (co_clocks co) = Inr ctx" .
  define st where "st = \<lparr>declaration_digest = digest (co_declaration co), runtime_clocks = ctx\<rparr>"
  have ne: "co_clocks co \<noteq> []" using tm(2) unfolding parts(1,2) by simp
  have con: "construct_time_runtime_state st = Inr ()"
    unfolding construct_time_runtime_state_def st_def
    using dig ne good(3) by (auto simp: errs ctx_def initial_runtime_clock_def)
  have chk: "check_time_runtime_state st = Inr ()"
    unfolding check_time_runtime_state_def con
    using good(2) by (auto simp: errs st_def ctx_def)
  have ckeys: "dkeys (clocks (co_declaration co)) = dkeys (co_clocks co)"
    unfolding parts(1,2) by simp
  have bind: "check_clock_binding (co_declaration co) (a, initial_runtime_clock co a c) = Inr ()"
    if "(a, c) \<in> set (co_clocks co)" for a c
  proof -
    have "dget (co_clocks co) a = Some c" using that cdist by simp
    then have "dget (clocks (co_declaration co)) a = Some (clock_contract c)"
      unfolding parts(1,2) by (auto simp: dget_map_pair)
    then show ?thesis
      by (simp add: check_clock_binding_def initial_runtime_clock_def clock_contract_def parts(4))
  qed
  have "\<forall>p \<in> set ctx. check_clock_binding (co_declaration co) p = Inr ()"
    by (auto simp: ctx_def bind)
  then have "validate_time_runtime_state digest (co_declaration co) st = Inr ()"
    unfolding validate_time_runtime_state_def
    by (simp add: ebind_eq_Inr require_eq_Inr echeck_eq_Inr st_def keys ckeys del: set_map list.set_map)
  then have "time_ok digest co (s\<lparr>time_model_state := Some st\<rparr>)"
    using cdist chk keys by (simp add: time_ok_def st_def del: set_map list.set_map)
  moreover have "coordinator_initialize digest co s = Inr (s\<lparr>time_model_state := Some st\<rparr>)"
    by (simp add: coordinator_initialize_def fresh run con st_def [symmetric])
  moreover have "clock_at (s\<lparr>time_model_state := Some st\<rparr>) a =
      map_option (initial_runtime_clock co a) (dget (co_clocks co) a)" for a
    by (simp add: clock_at_def st_def ctx_def dget_map_value)
  ultimately show ?thesis by blast
qed

end
