(* ===== verification/TimeProperties.thy ===== *)
theory TimeProperties
  imports TimeCoordinatorProofs
begin

text \<open>
  The properties of the shared-time subsystem, with a one-clock model for the witnesses.
\<close>

section \<open>A small time model\<close>

definition example_time_model :: time_model where
  "example_time_model =
     \<lparr>domains = [(''time.domain.sim'',
        \<lparr>domain_address = ''time.domain.sim'', domain_kind = Simulated, tick_period = Ratio 1 1000,
         domain_epoch = ScenarioStart, domain_visibility = ParticipantVisible, domain_description = ''sim''\<rparr>),
        (''time.domain.log'',
        \<lparr>domain_address = ''time.domain.log'', domain_kind = Logical, tick_period = Ratio 1 1000,
         domain_epoch = ScenarioStart, domain_visibility = EvidenceOnly, domain_description = ''log''\<rparr>)],
      clocks = [(''time.clock.main'',
        \<lparr>clock_address = ''time.clock.main'', clock_domain = ''time.domain.sim'',
         clock_authority_kind = RuntimeAuthority, clock_authority_ref = ''runtime'', monotonicity = MayJump,
         supports_pause = True, supports_reset = True, supports_jump = True, clock_description = ''main''\<rparr>)],
      mappings = [(''time.mapping.log'',
        \<lparr>mapping_address = ''time.mapping.log'', source_domain = ''time.domain.sim'',
         target_domain = ''time.domain.log'', mapping_kind = IdentityMapping, scale = Ratio 1 1,
         offset_ticks = 0, mapping_description = ''log''\<rparr>)],
      progression_policies = [(''time.policy.main'',
        \<lparr>policy_address = ''time.policy.main'', policy_clock = ''time.clock.main'',
         policy_advancement = Stepped, pacing_ratio = Ratio 1 1, policy_synchronization = NoSync,
         step_ticks = Some 5, drift_bound_ticks = None, policy_reset = NewSegmentPreserveValue,
         policy_replay = RestoreRecordedAdvances, policy_description = ''main''\<rparr>)],
      temporal_constraints = []\<rparr>"

definition example_digest :: "time_model \<Rightarrow> string" where
  "example_digest _ = ''sha256:'' @ replicate 64 CHR ''0''"

definition example_fresh :: "unit time_snapshot" where
  "example_fresh = \<lparr>time_model_state = None, snapshot_rest = ()\<rparr>"

definition example_coordinator :: coordinator where
  "example_coordinator =
     \<lparr>co_model = compiled_of_contract example_time_model, co_declaration = example_time_model,
      co_clocks = [(''time.clock.main'', hd (compiled_clocks (compiled_of_contract example_time_model)))],
      co_policies = [(''time.clock.main'', hd (compiled_policies (compiled_of_contract example_time_model)))]\<rparr>"

definition example_started :: "unit time_snapshot" where
  "example_started =
     \<lparr>time_model_state = Some
        \<lparr>declaration_digest = example_digest example_time_model,
         runtime_clocks = [(''time.clock.main'',
           initial_runtime_clock example_coordinator ''time.clock.main''
             (hd (compiled_clocks (compiled_of_contract example_time_model))))]\<rparr>,
      snapshot_rest = ()\<rparr>"

lemma example_time_model_ok: "check_time_model example_time_model = Inr ()"
  by code_simp

lemma example_time_model_keys: "distinct (time_model_keys example_time_model)" "segment_free example_time_model"
  by code_simp+

lemma example_coordinator_made: "make_coordinator (compiled_of_contract example_time_model) = Inr example_coordinator"
  by code_simp

lemma example_compiled_distinct: "distinct (compiled_addresses (compiled_of_contract example_time_model))"
  by code_simp

lemma example_digest_ok: "sha256_digest_text (example_digest (co_declaration example_coordinator))"
  by code_simp

lemma example_initialize:
  "coordinator_initialize example_digest example_coordinator example_fresh = Inr example_started"
  by code_simp

lemma example_started_ok: "time_ok example_digest example_coordinator example_started"
  using coordinator_initialize_ok [OF example_coordinator_made example_compiled_distinct, of example_digest,
      OF example_digest_ok, of example_fresh] example_initialize
  by (simp add: example_fresh_def)

section \<open>Properties\<close>

text \<open>Initialization: for every compiled model that the coordinator accepts, with distinct
  addresses and a fresh snapshot, the initial runtime state is built, is valid and bound to the
  declaration, and holds every clock running at the zero coordinate.\<close>

theorem initialization_binds_declaration:
  assumes "make_coordinator m = Inr co" and "make_compiled_time_model m = Inr m"
    and "sha256_digest_text (digest (co_declaration co))" and "time_model_state s = None"
  shows "\<exists>s'. coordinator_initialize digest co s = Inr s' \<and> time_ok digest co s'
    \<and> (\<forall>a c. dget (co_clocks co) a = Some c \<longrightarrow>
         (\<exists>rc. clock_at s' a = Some rc \<and> rc_state rc = RUNNING \<and> rc_coordinate rc = Coordinate 0 0 0))"
proof -
  have "distinct (compiled_addresses m)"
    using assms(2) by (simp add: make_compiled_time_model_def ebind_eq_Inr require_eq_Inr)
  with assms(1) obtain s' where "coordinator_initialize digest co s = Inr s'" "time_ok digest co s'"
    "\<And>a. clock_at s' a = map_option (initial_runtime_clock co a) (dget (co_clocks co) a)"
    using coordinator_initialize_ok [where digest = digest and co = co and s = s, OF _ _ assms(3,4)] by blast
  then show ?thesis by (auto simp: initial_runtime_clock_def)
qed

theorem initialization_binds_declaration_witness:
  "\<exists>s'. coordinator_initialize example_digest example_coordinator example_fresh = Inr s'
    \<and> time_ok example_digest example_coordinator s'
    \<and> (\<forall>a c. dget (co_clocks example_coordinator) a = Some c \<longrightarrow>
         (\<exists>rc. clock_at s' a = Some rc \<and> rc_state rc = RUNNING \<and> rc_coordinate rc = Coordinate 0 0 0))"
proof (rule initialization_binds_declaration [where m = "compiled_of_contract example_time_model"])
  show "make_coordinator (compiled_of_contract example_time_model) = Inr example_coordinator"
    by (rule example_coordinator_made)
  show "sha256_digest_text (example_digest (co_declaration example_coordinator))"
    by (rule example_digest_ok)
  show "make_compiled_time_model (compiled_of_contract example_time_model)
      = Inr (compiled_of_contract example_time_model)"
    by (rule make_compiled_of_contract [OF example_time_model_ok example_time_model_keys(1)])
qed (simp add: example_fresh_def)

text \<open>C6: each clock operation refines the abstract clock machine: on a valid snapshot it returns
  exactly when the machine has a step for the addressed clock, and then it appends that one
  transition to that clock and leaves everything else as it was.\<close>

theorem clock_operations_refine:
  assumes "time_ok digest co s"
  shows "clock_step co op s = Inr s' \<longleftrightarrow>
    (\<exists>rc k c. clock_at s (op_clock op) = Some rc
       \<and> clock_spec co op (rc_state rc) (rc_coordinate rc) = Some (k, c)
       \<and> s' = with_clock s (op_clock op) (next_clock rc k c))"
proof (cases "clock_at s (op_clock op)")
  case None
  then show ?thesis using clock_step_unknown [OF assms None] by simp
next
  case (Some rc)
  then show ?thesis using clock_step_run [OF assms Some] by simp
qed

theorem clock_operations_refine_witness:
  "\<forall>s'. clock_step example_coordinator (OpAdvance ''time.clock.main'' 5 0) example_started = Inr s' \<longleftrightarrow>
    (\<exists>rc k c. clock_at example_started ''time.clock.main'' = Some rc
       \<and> clock_spec example_coordinator (OpAdvance ''time.clock.main'' 5 0) (rc_state rc) (rc_coordinate rc) = Some (k, c)
       \<and> s' = with_clock example_started ''time.clock.main'' (next_clock rc k c))"
  using clock_operations_refine [OF example_started_ok, of "OpAdvance ''time.clock.main'' 5 0"] by simp

text \<open>C7: along every run of clock operations the runtime state stays valid and bound to its
  declaration, and the state at the end is an admitted transition of the state at the start:
  no clock history is ever truncated or rewritten.\<close>

theorem clock_runs_are_admitted:
  assumes "machine_run (clock_step co) s ops = Inr t" and "time_ok digest co s"
  shows "time_ok digest co t
    \<and> validate_time_runtime_transition (time_model_state s) (time_model_state t) = Inr ()"
proof
  show ok: "time_ok digest co t"
    by (rule clock.run_inv [OF assms])
  show "validate_time_runtime_transition (time_model_state s) (time_model_state t) = Inr ()"
    by (rule transition_of_histories [OF assms(2) ok clock.run_log [OF assms]])
qed

definition example_ops :: "clock_op list" where
  "example_ops = [OpAdvance ''time.clock.main'' 5 0, OpPause ''time.clock.main'', OpResume ''time.clock.main'',
     OpJump ''time.clock.main'' 40 2, OpReset ''time.clock.main'' False, OpReset ''time.clock.main'' True]"

theorem clock_runs_are_admitted_witness:
  "\<exists>t. machine_run (clock_step example_coordinator) example_started example_ops = Inr t
    \<and> time_ok example_digest example_coordinator t
    \<and> validate_time_runtime_transition (time_model_state example_started) (time_model_state t) = Inr ()"
proof -
  have "\<not> (case machine_run (clock_step example_coordinator) example_started example_ops of
      Inl e \<Rightarrow> True | Inr t \<Rightarrow> False)"
    by code_simp
  then obtain t where t: "machine_run (clock_step example_coordinator) example_started example_ops = Inr t"
    by (auto split: sum.splits)
  from clock_runs_are_admitted [OF t example_started_ok] t show ?thesis by blast
qed

text \<open>C8: the conversion of a declaration to the compiled model and back is the identity, for every
  valid declaration with distinct addresses whose constraints lie in segment zero.\<close>

theorem declaration_round_trip:
  assumes "check_time_model tm = Inr ()" and "distinct (time_model_keys tm)" and "segment_free tm"
  shows "ebind (compiled_time_model_from_contract tm) time_model_contract_model = Inr (Some tm)"
proof -
  have "compiled_time_model_from_contract tm = Inr (compiled_of_contract tm)"
    using make_compiled_of_contract [OF assms(1,2)]
    by (simp add: compiled_time_model_from_contract_def compiled_of_contract_def)
  moreover have "compiled_domains (compiled_of_contract tm) \<noteq> []"
    using check_time_modelD(1) [OF assms(1)] by (simp add: compiled_of_contract_def)
  ultimately show ?thesis
    using contract_of_compiled_of_contract [OF assms] assms(1)
    by (simp add: time_model_contract_model_def)
qed

theorem declaration_round_trip_witness:
  "ebind (compiled_time_model_from_contract example_time_model) time_model_contract_model
     = Inr (Some example_time_model)"
  by (rule declaration_round_trip [OF example_time_model_ok example_time_model_keys])

text \<open>The coordinated reset is all-or-nothing: when the participants refuse, the result is a
  failure that carries the snapshot of the caller and no changed address; when they accept, the
  snapshot is the one they return for the snapshot in which the clock has been reset.\<close>

theorem coordinated_reset_atomic:
  assumes "reset_with_participants reset_many co a replay requests s = Inr r"
  shows "\<exists>t p. coordinator_reset co s a replay = Inr t \<and> reset_many requests t = Inr p
    \<and> result_success r = result_success p
    \<and> (if result_success p then result_snapshot r = result_snapshot p
         \<and> set (result_changed r) = insert a (set (result_changed p))
       else result_snapshot r = s \<and> result_changed r = [])"
  using assms
  by (auto simp: reset_with_participants_def reference_reset_def errs Let_def)

definition refuse_all :: "unit list \<Rightarrow> unit time_snapshot \<Rightarrow> time_error + unit apply_result" where
  "refuse_all _ s = Inr \<lparr>result_success = False, result_snapshot = s, result_diagnostics = [], result_changed = []\<rparr>"

theorem coordinated_reset_atomic_witness:
  "\<exists>r. reset_with_participants refuse_all example_coordinator ''time.clock.main'' False [()] example_started = Inr r
    \<and> \<not> result_success r \<and> result_snapshot r = example_started \<and> result_changed r = []"
proof -
  have "\<not> (case reset_with_participants refuse_all example_coordinator ''time.clock.main'' False [()]
      example_started of Inl e \<Rightarrow> True | Inr t \<Rightarrow> False)"
    by code_simp
  then obtain r where r: "reset_with_participants refuse_all example_coordinator ''time.clock.main'' False [()]
      example_started = Inr r"
    by (auto split: sum.splits)
  from coordinated_reset_atomic [OF r] r show ?thesis
    by (auto simp: refuse_all_def)
qed

text \<open>C9: a paused clock cannot jump: the operation raises for every target, although the clock
  supports jumps and the code passes the paused state on, because the recorded transition says
  the clock is running.\<close>

theorem paused_clock_never_jumps:
  assumes "time_ok digest co s" and "clock_at s a = Some rc" and "rc_state rc = PAUSED"
  shows "\<exists>e. coordinator_jump co s a t m = Inl e"
proof -
  have "clock_step co (OpJump a t m) s \<noteq> Inr s'" for s'
    using clock_step_run [OF assms(1), of "OpJump a t m" rc s'] assms(2,3) by (auto split: option.splits)
  then show ?thesis by (cases "coordinator_jump co s a t m") auto
qed

theorem paused_clock_never_jumps_witness:
  "\<exists>s. coordinator_pause example_coordinator example_started ''time.clock.main'' = Inr s
    \<and> (\<exists>e. coordinator_jump example_coordinator s ''time.clock.main'' 7 0 = Inl e)"
proof -
  obtain s where s: "coordinator_pause example_coordinator example_started ''time.clock.main'' = Inr s"
    "(case clock_at s ''time.clock.main'' of None \<Rightarrow> False | Some rc \<Rightarrow> rc_state rc = PAUSED)"
  proof -
    have "(case coordinator_pause example_coordinator example_started ''time.clock.main'' of Inl e \<Rightarrow> False
      | Inr s \<Rightarrow> (case clock_at s ''time.clock.main'' of None \<Rightarrow> False | Some rc \<Rightarrow> rc_state rc = PAUSED))"
      by code_simp
    then show thesis using that by (auto split: sum.splits)
  qed
  have ok: "time_ok example_digest example_coordinator s"
    using clock_step_preserves(1) [OF example_started_ok, of "OpPause ''time.clock.main''" s] s(1) by simp
  from s(2) obtain rc where "clock_at s ''time.clock.main'' = Some rc" "rc_state rc = PAUSED"
    by (auto split: option.splits)
  from paused_clock_never_jumps [OF ok this] s(1) show ?thesis by blast
qed

text \<open>An admitted identity mapping converts every tick to itself, exactly.\<close>

theorem identity_mapping_preserves_ticks:
  assumes "make_coordinator m = Inr co" and "distinct (compiled_addresses m)"
    and "d \<in> set (compiled_mappings m)" and "cm_kind d = IdentityMapping"
  shows "convert_tick co (cm_address d) t = Inr (of_int t)"
proof -
  note co = make_coordinatorD [OF assms(1)]
  have dist: "distinct (map cm_address (compiled_mappings m))"
    using assms(2) by (simp add: compiled_addresses_def)
  then have "find (\<lambda>x. cm_address x = cm_address d) (compiled_mappings m) = Some d"
    using assms(3) by (rule find_distinct)
  then have f: "co_mapping co (cm_address d) = Inr d" by (simp add: co_mapping_def co(1))
  have addr: "mapping_address (mapping_contract x) = cm_address x" for x
    by (simp add: mapping_contract_def)
  have "mappings (contract_of_compiled m) =
      map (\<lambda>x. (cm_address x, mapping_contract x)) (compiled_mappings m)"
    using dist by (simp add: contract_of_compiled_def dict_by_distinct o_def addr)
  then have mem: "mapping_contract d \<in> set (dvals (mappings (contract_of_compiled m)))"
    using assms(3) by simp
  have "validate_mapping_references (contract_of_compiled m) = Inr ()"
    using co(3) by (simp add: check_time_model_def validate_references_def ebind_eq_Inr)
  then have "validate_identity_mapping (mapping_contract d) (domains (contract_of_compiled m)) = Inr ()"
    using mem by (auto simp: validate_mapping_references_def ebind_eq_Inr echeck_eq_Inr)
  then have "cm_scale_numerator d = 1 \<and> cm_scale_denominator d = 1 \<and> cm_offset d = 0"
    using assms(4) by (auto simp: validate_identity_mapping_def mapping_contract_def errs split: option.splits)
  then show ?thesis by (simp add: convert_tick_def f of_int_rat)
qed

theorem identity_mapping_preserves_ticks_witness:
  "convert_tick example_coordinator ''time.mapping.log'' 42 = Inr 42"
proof -
  have "hd (compiled_mappings (compiled_of_contract example_time_model))
      \<in> set (compiled_mappings (compiled_of_contract example_time_model))"
    by (simp add: compiled_of_contract_def example_time_model_def)
  moreover have "cm_kind (hd (compiled_mappings (compiled_of_contract example_time_model))) = IdentityMapping"
    "cm_address (hd (compiled_mappings (compiled_of_contract example_time_model))) = ''time.mapping.log''"
    by code_simp+
  ultimately show ?thesis
    using identity_mapping_preserves_ticks [OF example_coordinator_made example_compiled_distinct, of _ 42]
    by (metis of_int_numeral)
qed

definition example_segment_model :: time_model where
  "example_segment_model = example_time_model
     \<lparr>temporal_constraints := [(''time.constraint.late'',
        \<lparr>constraint_address = ''time.constraint.late'', constraint_kind = Deadline,
         constraint_clock = ''time.clock.main'', subject_addresses = [''time.clock.main''],
         constraint_start = None, constraint_end = Some (Coordinate 2 10 0), duration_ticks = None,
         cadence_ticks = None, constraint_description = ''late''\<rparr>)]\<rparr>"

text \<open>A declaration whose constraint lies in a later segment is valid, yet the conversion to the
  compiled model and back drops the segment and yields a different declaration.\<close>

theorem constraint_segment_is_lost:
  "\<exists>tm'. check_time_model example_segment_model = Inr ()
    \<and> ebind (compiled_time_model_from_contract example_segment_model) time_model_contract_model = Inr (Some tm')
    \<and> map (map_option segment \<circ> constraint_end) (dvals (temporal_constraints example_segment_model)) = [Some 2]
    \<and> map (map_option segment \<circ> constraint_end) (dvals (temporal_constraints tm')) = [Some 0]"
proof (intro exI conjI)
  show "check_time_model example_segment_model = Inr ()" by code_simp
  show "ebind (compiled_time_model_from_contract example_segment_model) time_model_contract_model
      = Inr (Some (contract_of_compiled (compiled_of_contract example_segment_model)))"
    by code_simp
  show "map (map_option segment \<circ> constraint_end) (dvals (temporal_constraints example_segment_model)) = [Some 2]"
    by (simp add: example_segment_model_def)
  show "map (map_option segment \<circ> constraint_end)
      (dvals (temporal_constraints (contract_of_compiled (compiled_of_contract example_segment_model)))) = [Some 0]"
    by (simp add: example_segment_model_def contract_of_compiled_def compiled_of_contract_def dict_by_def
        constraint_contract_def constraint_compiled_def coordinate_contract_def)
qed

end
