(* ===== verification/ResourceModel.thy ===== *)
theory ResourceModel
  imports Prelude
begin

text \<open>
  Participant resource budgets, the data model: raes_contracts/contracts/participant_resource_types.py,
  participant_resource_validation.py and participant_resource_budgets.py, and the profile check
  \<open>resource_measure_supported\<close> of raes_contracts/resource_measure_profiles.py.

  A model class is a record, and its validation is a function \<open>check_\<dots>\<close> that returns the
  exception or \<open>Inr ()\<close>. Literal fields are datatypes, so their membership checks hold by
  typing; \<open>schema_version\<close> fields with one admissible value are left out. A profile coordinate
  is a value that its own model has accepted. The SHA-256 digest of the canonical text of a pool
  identity is the argument \<open>dg\<close>.
\<close>

datatype owner_kind = ParticipantOwner | TenantOwner | SharedServiceOwner | FleetOwner
datatype accounting_mode = WindowedCounter | CumulativeCounter | ReservableGauge | GrowthCounter | Lease
datatype reset_mode = EpisodeReset | TimeSegmentReset | RunReset | ReconciledReset
datatype isolation = NoIsolation | Stateless | TenantPartitioned

record profile_coordinate =
  coordinate_namespace :: string
  coordinate_authority :: string
  coordinate_profile :: string
  coordinate_revision :: string
  coordinate_digest :: string

datatype resource_kind =
    ActionRate | ConcurrentActions | StorageGrowth | InferenceTokens | ImageGenerations | Accelerator
  | ProfileKind profile_coordinate

datatype resource_error =
    BlankText | NumberOutOfRange | EmptySequence | BadDigestText
  | WrongUnit | WrongMode
  | ReservationOverLimit | WindowMismatch | RepeatedRef | StorageReset
  | RepeatedOwner | RepeatedBudget | IncompleteVector | UnresolvedOwner | UnresolvedParent
  | CyclicParents | ParentMeterDiffers | ChildOverParent | SiblingsOverParent | AliasedPool
  | ProtectedOverCapacity | RepeatedClass | RepeatedEvidence
  | RepeatedSupport | RepeatedPool | UnresolvedPool | UnpartitionedPool | UndeclaredPool | UnsupportedProfile
  | NoncanonicalRef | UseOverLimit | UseOverCapacity
  | AllocationKey | UnknownClass | AuthorityDiffers | WeakerFairness | PoolOverCapacity
  | WrongDisposition | CommitUnmeasured | SnapshotKey
  | MissingKey \<comment> \<open>KeyError\<close>
  | PoolConflict \<comment> \<open>ConflictError(POOL_ALLOCATION_CONFLICT)\<close>
  | NegativeRequest | GenerationStuck
  | UncheckedReservation \<comment> \<open>RuntimeError\<close>

section \<open>Literals, identities and quantity rules\<close>

definition RESOURCE_UNIT :: "(resource_kind, string) dict" where
  "RESOURCE_UNIT =
     [(ActionRate, ''actions''), (ConcurrentActions, ''actions''), (StorageGrowth, ''bytes''),
      (InferenceTokens, ''tokens''), (ImageGenerations, ''images''),
      (Accelerator, ''accelerator_milliseconds'')]"

definition RESOURCE_ACCOUNTING :: "(resource_kind, accounting_mode list) dict" where
  "RESOURCE_ACCOUNTING =
     [(ActionRate, [WindowedCounter]), (ConcurrentActions, [ReservableGauge]),
      (StorageGrowth, [GrowthCounter]), (InferenceTokens, [WindowedCounter, CumulativeCounter]),
      (ImageGenerations, [WindowedCounter, CumulativeCounter]), (Accelerator, [Lease])]"

definition profile_kind :: "resource_kind \<Rightarrow> bool" where
  "profile_kind k = (case k of ProfileKind _ \<Rightarrow> True | _ \<Rightarrow> False)"

definition require_quantity_semantics ::
    "resource_kind \<Rightarrow> string \<Rightarrow> accounting_mode \<Rightarrow> resource_error + unit" where
  "require_quantity_semantics kind unit mode =
     (if profile_kind kind then Inr ()
      else (case (dget RESOURCE_UNIT kind, dget RESOURCE_ACCOUNTING kind) of
              (Some expected, Some modes) \<Rightarrow>
                ebind (require (unit = expected) WrongUnit) (\<lambda>_.
                  require (mode \<in> set modes) WrongMode)
            | _ \<Rightarrow> Inl MissingKey))"

definition participant_resource_budget_state_ref :: "string \<Rightarrow> string \<Rightarrow> string" where
  "participant_resource_budget_state_ref policy_address budget_id =
     policy_address @ ''.resource-budget-state.'' @ budget_id"

text \<open>The tuple whose canonical JSON text identifies one physical pool.\<close>

datatype pool_identity =
  PoolIdentity string owner_kind string resource_kind string accounting_mode string

definition participant_resource_pool_state_ref :: "(pool_identity \<Rightarrow> string) \<Rightarrow> pool_identity \<Rightarrow> string" where
  "participant_resource_pool_state_ref dg identity = ''participant-resource-pool:sha256:'' @ dg identity"

text \<open>
  The support of a profile kind is decided by the resolution context that the capabilities carry:
  the argument \<open>admitted\<close>. Every standard kind is supported.
\<close>

definition resource_measure_supported ::
    "(profile_coordinate \<Rightarrow> string \<Rightarrow> accounting_mode \<Rightarrow> string \<Rightarrow> reset_mode \<Rightarrow> bool) \<Rightarrow>
       resource_kind \<Rightarrow> string \<Rightarrow> accounting_mode \<Rightarrow> string \<Rightarrow> reset_mode \<Rightarrow> bool" where
  "resource_measure_supported admitted kind unit mode meter reset =
     (case kind of ProfileKind c \<Rightarrow> admitted c unit mode meter reset | _ \<Rightarrow> True)"

section \<open>Field constraints\<close>

definition nonblank :: "string \<Rightarrow> resource_error + unit" where
  "nonblank s = require (s \<noteq> []) BlankText"

definition within :: "int \<Rightarrow> int \<Rightarrow> int \<Rightarrow> resource_error + unit" where
  "within lo hi n = require (lo \<le> n \<and> n \<le> hi) NumberOutOfRange"

definition natural :: "int \<Rightarrow> resource_error + unit" where
  "natural n = require (0 \<le> n) NumberOutOfRange"

definition nonempty :: "'a list \<Rightarrow> resource_error + unit" where
  "nonempty xs = require (xs \<noteq> []) EmptySequence"

abbreviation quantity_max :: int where
  "quantity_max \<equiv> 10 ^ 18"

abbreviation tick_max :: int where
  "tick_max \<equiv> 10 ^ 9"

abbreviation weight_max :: int where
  "weight_max \<equiv> 10 ^ 6"

definition prefixed_digest :: "string \<Rightarrow> resource_error + unit" where
  "prefixed_digest s = require (digest_text s) BadDigestText"

section \<open>Budget policies\<close>

record resource_owner =
  ow_id :: string
  ow_kind :: owner_kind
  ow_ref :: string

definition check_owner :: "resource_owner \<Rightarrow> resource_error + unit" where
  "check_owner ow = ebind (nonblank (ow_id ow)) (\<lambda>_. nonblank (ow_ref ow))"

record resource_quantity =
  qu_kind :: resource_kind
  qu_unit :: string
  qu_mode :: accounting_mode
  qu_meter :: string
  qu_amount :: int

definition check_quantity :: "resource_quantity \<Rightarrow> resource_error + unit" where
  "check_quantity q =
     ebind (echeck nonblank [qu_unit q, qu_meter q]) (\<lambda>_.
     ebind (within 0 quantity_max (qu_amount q)) (\<lambda>_.
       require_quantity_semantics (qu_kind q) (qu_unit q) (qu_mode q)))"

record resource_fairness =
  rf_policy :: string
  rf_class :: string
  rf_weight :: int
  rf_protected :: bool
  rf_borrowing :: string
  rf_reclaim :: string
  rf_queue :: int
  rf_starvation :: int

definition check_fairness :: "resource_fairness \<Rightarrow> resource_error + unit" where
  "check_fairness f =
     ebind (echeck nonblank [rf_policy f, rf_class f, rf_borrowing f, rf_reclaim f]) (\<lambda>_.
     ebind (within 1 weight_max (rf_weight f)) (\<lambda>_.
     ebind (within 0 tick_max (rf_queue f)) (\<lambda>_.
       within 1 tick_max (rf_starvation f))))"

record budget_demand =
  bd_id :: string
  bd_owner :: resource_owner
  bd_pool :: string
  bd_quantity :: resource_quantity
  bd_limit :: int
  bd_reservation :: int
  bd_reset :: reset_mode
  bd_window :: "int option"
  bd_parent :: "string option"
  bd_evidence :: "string list"
  bd_legacy :: bool

definition check_demand :: "budget_demand \<Rightarrow> resource_error + unit" where
  "check_demand d =
     ebind (echeck nonblank ([bd_id d, bd_pool d] @ bd_evidence d)) (\<lambda>_.
     ebind (check_owner (bd_owner d)) (\<lambda>_.
     ebind (check_quantity (bd_quantity d)) (\<lambda>_.
     ebind (within 1 quantity_max (bd_limit d)) (\<lambda>_.
     ebind (within 1 quantity_max (bd_reservation d)) (\<lambda>_.
     ebind (case bd_window d of None \<Rightarrow> Inr () | Some w \<Rightarrow> within 1 tick_max w) (\<lambda>_.
     ebind (case bd_parent d of None \<Rightarrow> Inr () | Some p \<Rightarrow> nonblank p) (\<lambda>_.
     ebind (require (bd_reservation d \<le> bd_limit d) ReservationOverLimit) (\<lambda>_.
     ebind (require ((qu_mode (bd_quantity d) = WindowedCounter) = (bd_window d \<noteq> None)) WindowMismatch) (\<lambda>_.
     ebind (require (distinct (bd_evidence d)) RepeatedRef) (\<lambda>_.
       require (qu_kind (bd_quantity d) = StorageGrowth \<longrightarrow> bd_reset d = ReconciledReset) StorageReset))))))))))"

definition quantity_identity :: "resource_quantity \<Rightarrow> resource_kind \<times> string \<times> accounting_mode \<times> string" where
  "quantity_identity q = (qu_kind q, qu_unit q, qu_mode q, qu_meter q)"

text \<open>
  The depth-first visit of the parent graph. \<open>visiting\<close> is the path to the current demand; the
  code removes a demand from it on the way back, so only \<open>visited\<close> is returned.
\<close>

function visit_demand ::
    "(string, budget_demand) dict \<Rightarrow> string \<Rightarrow> string list \<Rightarrow> string list \<Rightarrow> resource_error + string list" where
  "visit_demand demands budget_id visiting visited =
     (if budget_id \<in> set visiting then Inl CyclicParents
      else if budget_id \<in> set visited then Inr visited
      else (case dget demands budget_id of
          None \<Rightarrow> Inl MissingKey
        | Some demand \<Rightarrow>
            ebind
              (case bd_parent demand of
                 None \<Rightarrow> Inr visited
               | Some parent_ref \<Rightarrow>
                   (case dget demands parent_ref of
                      None \<Rightarrow> Inl MissingKey
                    | Some parent \<Rightarrow>
                        ebind (require (quantity_identity (bd_quantity demand)
                          = quantity_identity (bd_quantity parent)) ParentMeterDiffers) (\<lambda>_.
                        ebind (require (bd_limit demand \<le> bd_limit parent) ChildOverParent) (\<lambda>_.
                          visit_demand demands parent_ref (budget_id # visiting) visited))))
              (\<lambda>visited'. Inr (budget_id # visited'))))"
  by pat_completeness auto
termination
proof (relation "measure (\<lambda>(demands, _, visiting, _). card (set (dkeys demands) - set visiting))", goal_cases)
  case 1
  show ?case by simp
next
  case (2 demands budget_id visiting visited demand parent_ref parent u v)
  then have "budget_id \<in> set (dkeys demands) - set visiting"
    using dget_Some_key [of demands budget_id] by blast
  then have "card (set (dkeys demands) - set (budget_id # visiting)) < card (set (dkeys demands) - set visiting)"
    by (intro psubset_card_mono) auto
  then show ?case by (simp del: set_map list.set_map)
qed

declare visit_demand.simps [simp del]

definition add_child :: "(string, int list) dict \<Rightarrow> budget_demand \<Rightarrow> (string, int list) dict" where
  "add_child children d =
     (case bd_parent d of
        None \<Rightarrow> children
      | Some p \<Rightarrow> dput p ((case dget children p of None \<Rightarrow> [] | Some ls \<Rightarrow> ls) @ [bd_limit d]) children)"

definition validate_parent_limits :: "(string, budget_demand) dict \<Rightarrow> resource_error + unit" where
  "validate_parent_limits demands =
     ebind (efold (\<lambda>visited budget_id. visit_demand demands budget_id [] visited) [] (dkeys demands)) (\<lambda>_.
       echeck (\<lambda>(parent_id, limits).
           (case dget demands parent_id of
              None \<Rightarrow> Inl MissingKey
            | Some parent \<Rightarrow> require (sum_list limits \<le> bd_limit parent) SiblingsOverParent))
         (foldl add_child [] (dvals demands)))"

definition demand_pool_key ::
    "budget_demand \<Rightarrow> string \<times> owner_kind \<times> string \<times> resource_kind \<times> string \<times> accounting_mode \<times> string" where
  "demand_pool_key d =
     (bd_pool d, ow_kind (bd_owner d), ow_ref (bd_owner d), quantity_identity (bd_quantity d))"

definition validate_budget_policy ::
    "resource_owner list \<Rightarrow> budget_demand list \<Rightarrow> resource_kind list \<Rightarrow> resource_error + unit" where
  "validate_budget_policy owners demands required =
     ebind (require (distinct (map ow_id owners)) RepeatedOwner) (\<lambda>_.
     ebind (require (distinct (map bd_id demands)) RepeatedBudget) (\<lambda>_.
     let owners_by_id = foldl (\<lambda>m ow. dput (ow_id ow) ow m) [] owners;
         demands_by_id = foldl (\<lambda>m d. dput (bd_id d) d m) [] demands in
     ebind (require (set required \<subseteq> set (map (\<lambda>d. qu_kind (bd_quantity d)) demands)) IncompleteVector) (\<lambda>_.
     ebind (echeck (\<lambda>d.
         ebind (require (dget owners_by_id (ow_id (bd_owner d)) = Some (bd_owner d)) UnresolvedOwner) (\<lambda>_.
           (case bd_parent d of
              None \<Rightarrow> Inr ()
            | Some p \<Rightarrow> require (p \<in> set (dkeys demands_by_id)) UnresolvedParent))) demands) (\<lambda>_.
     ebind (validate_parent_limits demands_by_id) (\<lambda>_.
       require (distinct (map demand_pool_key demands)) AliasedPool)))))"

record budget_policy =
  bp_id :: string
  bp_address :: string
  bp_digest :: string
  bp_owners :: "resource_owner list"
  bp_demands :: "budget_demand list"
  bp_fairness :: resource_fairness

definition check_budget_policy :: "budget_policy \<Rightarrow> resource_error + unit" where
  "check_budget_policy p =
     ebind (echeck nonblank [bp_id p, bp_address p]) (\<lambda>_.
     ebind (prefixed_digest (bp_digest p)) (\<lambda>_.
     ebind (nonempty (bp_owners p)) (\<lambda>_.
     ebind (echeck check_owner (bp_owners p)) (\<lambda>_.
     ebind (nonempty (bp_demands p)) (\<lambda>_.
     ebind (echeck check_demand (bp_demands p)) (\<lambda>_.
     ebind (check_fairness (bp_fairness p)) (\<lambda>_.
       validate_budget_policy (bp_owners p) (bp_demands p) (dkeys RESOURCE_UNIT))))))))"

section \<open>Pool capacity and capabilities\<close>

record pool_capacity =
  pc_pool :: string
  pc_owner_kind :: owner_kind
  pc_owner_ref :: string
  pc_kind :: resource_kind
  pc_unit :: string
  pc_mode :: accounting_mode
  pc_meter :: string
  pc_capacity :: int
  pc_isolation :: isolation
  pc_digest :: string
  pc_fairness :: string
  pc_classes :: "string list"
  pc_borrowing :: string
  pc_reclaim :: string
  pc_queue :: int
  pc_starvation :: int
  pc_protected :: int
  pc_evidence :: "string list"

definition check_pool_capacity :: "pool_capacity \<Rightarrow> resource_error + unit" where
  "check_pool_capacity p =
     ebind (echeck nonblank ([pc_pool p, pc_owner_ref p, pc_unit p, pc_meter p, pc_fairness p,
       pc_borrowing p, pc_reclaim p] @ pc_classes p @ pc_evidence p)) (\<lambda>_.
     ebind (within 1 quantity_max (pc_capacity p)) (\<lambda>_.
     ebind (prefixed_digest (pc_digest p)) (\<lambda>_.
     ebind (nonempty (pc_classes p)) (\<lambda>_.
     ebind (within 0 tick_max (pc_queue p)) (\<lambda>_.
     ebind (within 1 tick_max (pc_starvation p)) (\<lambda>_.
     ebind (within 0 quantity_max (pc_protected p)) (\<lambda>_.
     ebind (nonempty (pc_evidence p)) (\<lambda>_.
     ebind (require_quantity_semantics (pc_kind p) (pc_unit p) (pc_mode p)) (\<lambda>_.
     ebind (require (pc_protected p \<le> pc_capacity p) ProtectedOverCapacity) (\<lambda>_.
     ebind (require (distinct (pc_classes p)) RepeatedClass) (\<lambda>_.
       require (distinct (pc_evidence p)) RepeatedEvidence)))))))))))"

datatype support_strength = Unsupported | DisclosedWeak | Bounded | Exact

record budget_capabilities =
  bc_strength :: support_strength
  bc_owner_kinds :: "owner_kind list"
  bc_kinds :: "resource_kind list"
  bc_modes :: "accounting_mode list"
  bc_resets :: "reset_mode list"
  bc_fairness :: "string list"
  bc_isolation :: "isolation list"
  bc_pools :: "pool_capacity list"
  bc_contracts :: "string list"
  bc_cross_range :: "string list"

definition require_unique_fields :: "budget_capabilities \<Rightarrow> resource_error + unit" where
  "require_unique_fields c =
     require (distinct (bc_owner_kinds c) \<and> distinct (bc_kinds c) \<and> distinct (bc_modes c)
       \<and> distinct (bc_resets c) \<and> distinct (bc_fairness c) \<and> distinct (bc_isolation c)
       \<and> distinct (bc_contracts c) \<and> distinct (bc_cross_range c)) RepeatedSupport"

definition validate_cross_range_pools :: "budget_capabilities \<Rightarrow> resource_error + unit" where
  "validate_cross_range_pools c =
     echeck (\<lambda>ref.
       let pools = filter (\<lambda>p. pc_pool p = ref) (bc_pools c) in
       ebind (require (pools \<noteq> []) UnresolvedPool) (\<lambda>_.
         require (list_all (\<lambda>p. pc_isolation p = TenantPartitioned) pools) UnpartitionedPool)) (bc_cross_range c)"

definition validate_configured_pool :: "budget_capabilities \<Rightarrow> pool_capacity \<Rightarrow> resource_error + unit" where
  "validate_configured_pool c p =
     require (pc_owner_kind p \<in> set (bc_owner_kinds c) \<and> pc_kind p \<in> set (bc_kinds c)
       \<and> pc_mode p \<in> set (bc_modes c) \<and> pc_fairness p \<in> set (bc_fairness c)
       \<and> pc_isolation p \<in> set (bc_isolation c)) UndeclaredPool"

definition validate_budget_capabilities :: "budget_capabilities \<Rightarrow> resource_error + unit" where
  "validate_budget_capabilities c =
     ebind (require_unique_fields c) (\<lambda>_.
     ebind (require (distinct (map (\<lambda>p. (pc_pool p, pc_kind p, pc_meter p)) (bc_pools c))) RepeatedPool) (\<lambda>_.
     ebind (validate_cross_range_pools c) (\<lambda>_.
       echeck (validate_configured_pool c) (bc_pools c))))"

definition require_resource_pool_profiles ::
    "(profile_coordinate \<Rightarrow> string \<Rightarrow> accounting_mode \<Rightarrow> string \<Rightarrow> reset_mode \<Rightarrow> bool) \<Rightarrow>
       budget_capabilities \<Rightarrow> resource_error + unit" where
  "require_resource_pool_profiles admitted c =
     echeck (\<lambda>p.
       require (\<not> profile_kind (pc_kind p)
         \<or> list_ex (resource_measure_supported admitted (pc_kind p) (pc_unit p) (pc_mode p) (pc_meter p))
             (bc_resets c)) UnsupportedProfile) (bc_pools c)"

definition check_budget_capabilities ::
    "(profile_coordinate \<Rightarrow> string \<Rightarrow> accounting_mode \<Rightarrow> string \<Rightarrow> reset_mode \<Rightarrow> bool) \<Rightarrow>
       budget_capabilities \<Rightarrow> resource_error + unit" where
  "check_budget_capabilities admitted c =
     ebind (require (bc_owner_kinds c \<noteq> [] \<and> bc_kinds c \<noteq> [] \<and> bc_modes c \<noteq> [] \<and> bc_resets c \<noteq> []
       \<and> bc_fairness c \<noteq> [] \<and> bc_isolation c \<noteq> [] \<and> bc_pools c \<noteq> [] \<and> bc_contracts c \<noteq> []) EmptySequence) (\<lambda>_.
     ebind (echeck nonblank (bc_fairness c @ bc_contracts c @ bc_cross_range c)) (\<lambda>_.
     ebind (echeck check_pool_capacity (bc_pools c)) (\<lambda>_.
     ebind (validate_budget_capabilities c) (\<lambda>_.
       require_resource_pool_profiles admitted c))))"

section \<open>Runtime state\<close>

datatype reconciliation = Reconciled | Pending | Unreconciled

record budget_state =
  bs_ref :: string
  bs_budget :: string
  bs_policy :: string
  bs_owner_kind :: owner_kind
  bs_owner_ref :: string
  bs_pool :: string
  bs_kind :: resource_kind
  bs_unit :: string
  bs_mode :: accounting_mode
  bs_meter :: string
  bs_reset :: reset_mode
  bs_generation :: int
  bs_limit :: int
  bs_capacity :: int
  bs_reserved :: int
  bs_current :: int
  bs_cumulative :: int
  bs_throttled :: int
  bs_rejected :: int
  bs_reconciliation :: reconciliation
  bs_last_event :: string
  bs_evidence :: "string list"

definition check_budget_state :: "budget_state \<Rightarrow> resource_error + unit" where
  "check_budget_state s =
     ebind (echeck nonblank ([bs_ref s, bs_budget s, bs_policy s, bs_owner_ref s, bs_pool s, bs_unit s,
       bs_meter s, bs_last_event s] @ bs_evidence s)) (\<lambda>_.
     ebind (echeck natural [bs_generation s, bs_throttled s, bs_rejected s]) (\<lambda>_.
     ebind (echeck (within 1 quantity_max) [bs_limit s, bs_capacity s]) (\<lambda>_.
     ebind (echeck (within 0 quantity_max) [bs_reserved s, bs_current s, bs_cumulative s]) (\<lambda>_.
     ebind (require_quantity_semantics (bs_kind s) (bs_unit s) (bs_mode s)) (\<lambda>_.
     ebind (require (bs_ref s = participant_resource_budget_state_ref (bs_policy s) (bs_budget s)) NoncanonicalRef) (\<lambda>_.
     ebind (require (bs_reserved s + bs_current s \<le> bs_limit s) UseOverLimit) (\<lambda>_.
     ebind (require (bs_reserved s + bs_current s \<le> bs_capacity s) UseOverCapacity) (\<lambda>_.
       require (distinct (bs_evidence s)) RepeatedRef))))))))"

record measurement_requirement =
  mr_state :: string
  mr_kind :: resource_kind
  mr_unit :: string
  mr_meter :: string
  mr_reserved :: int

definition check_measurement_requirement :: "measurement_requirement \<Rightarrow> resource_error + unit" where
  "check_measurement_requirement m =
     ebind (echeck nonblank [mr_state m, mr_unit m, mr_meter m]) (\<lambda>_.
     ebind (within 0 quantity_max (mr_reserved m)) (\<lambda>_.
       require (profile_kind (mr_kind m) \<or> dget RESOURCE_UNIT (mr_kind m) = Some (mr_unit m)) WrongUnit))"

record resource_measurement =
  me_state :: string
  me_operation :: string
  me_generation :: int
  me_kind :: resource_kind
  me_unit :: string
  me_meter :: string
  me_measured :: int
  me_evidence :: "string list"

definition check_measurement :: "resource_measurement \<Rightarrow> resource_error + unit" where
  "check_measurement m =
     ebind (echeck nonblank ([me_state m, me_operation m, me_unit m, me_meter m] @ me_evidence m)) (\<lambda>_.
     ebind (natural (me_generation m)) (\<lambda>_.
     ebind (within 0 quantity_max (me_measured m)) (\<lambda>_.
     ebind (nonempty (me_evidence m)) (\<lambda>_.
     ebind (require (profile_kind (me_kind m) \<or> dget RESOURCE_UNIT (me_kind m) = Some (me_unit m)) WrongUnit) (\<lambda>_.
       require (distinct (me_evidence m)) RepeatedRef)))))"

record pool_allocation =
  pa_state :: string
  pa_policy :: string
  pa_budget :: string
  pa_generation :: int
  pa_class :: string
  pa_weight :: int
  pa_protected :: bool
  pa_borrowing :: string
  pa_reclaim :: string
  pa_queue :: int
  pa_starvation :: int
  pa_reserved :: int
  pa_current :: int
  pa_cumulative :: int

definition check_allocation :: "pool_allocation \<Rightarrow> resource_error + unit" where
  "check_allocation a =
     ebind (echeck nonblank [pa_state a, pa_policy a, pa_budget a, pa_class a, pa_borrowing a, pa_reclaim a]) (\<lambda>_.
     ebind (natural (pa_generation a)) (\<lambda>_.
     ebind (within 1 weight_max (pa_weight a)) (\<lambda>_.
     ebind (within 0 tick_max (pa_queue a)) (\<lambda>_.
     ebind (within 1 tick_max (pa_starvation a)) (\<lambda>_.
     ebind (echeck (within 0 quantity_max) [pa_reserved a, pa_current a, pa_cumulative a]) (\<lambda>_.
       require (pa_state a = participant_resource_budget_state_ref (pa_policy a) (pa_budget a)) NoncanonicalRef))))))"

record pool_state =
  ps_ref :: string
  ps_pool :: string
  ps_owner_kind :: owner_kind
  ps_owner_ref :: string
  ps_kind :: resource_kind
  ps_unit :: string
  ps_mode :: accounting_mode
  ps_meter :: string
  ps_capacity :: int
  ps_protected :: int
  ps_fairness :: string
  ps_classes :: "string list"
  ps_borrowing :: string
  ps_reclaim :: string
  ps_queue :: int
  ps_starvation :: int
  ps_allocations :: "(string, pool_allocation) dict"

definition validate_pool_allocations :: "pool_state \<Rightarrow> resource_error + unit" where
  "validate_pool_allocations p =
     echeck (\<lambda>(ref, a).
       ebind (require (ref = pa_state a) AllocationKey) (\<lambda>_.
       ebind (require (pa_class a \<in> set (ps_classes p)) UnknownClass) (\<lambda>_.
       ebind (require (pa_borrowing a = ps_borrowing p \<and> pa_reclaim a = ps_reclaim p) AuthorityDiffers) (\<lambda>_.
         require (ps_queue p \<le> pa_queue a \<and> ps_starvation p \<le> pa_starvation a) WeakerFairness))))
       (ps_allocations p)"

text \<open>
  Use of one allocation: a gauge or a lease counts what is held now, a counter what has been used
  since its last reset. \<open>pool_allocated_total\<close> of the contract and \<open>_allocation_use\<close> of the ledger
  contain the same expression.
\<close>

definition held_mode :: "accounting_mode \<Rightarrow> bool" where
  "held_mode m \<longleftrightarrow> m \<in> {ReservableGauge, Lease}"

definition allocation_use :: "pool_state \<Rightarrow> pool_allocation \<Rightarrow> int" where
  "allocation_use p a =
     (if held_mode (ps_mode p) then pa_current a + pa_reserved a else pa_cumulative a + pa_reserved a)"

definition pool_allocated_total :: "pool_state \<Rightarrow> int" where
  "pool_allocated_total p = sum_list (map (allocation_use p) (dvals (ps_allocations p)))"

definition pool_state_identity :: "pool_state \<Rightarrow> pool_identity" where
  "pool_state_identity p =
     PoolIdentity (ps_pool p) (ps_owner_kind p) (ps_owner_ref p) (ps_kind p) (ps_unit p) (ps_mode p) (ps_meter p)"

definition check_pool_state :: "(pool_identity \<Rightarrow> string) \<Rightarrow> pool_state \<Rightarrow> resource_error + unit" where
  "check_pool_state dg p =
     ebind (echeck nonblank ([ps_ref p, ps_pool p, ps_owner_ref p, ps_unit p, ps_meter p, ps_fairness p,
       ps_borrowing p, ps_reclaim p] @ ps_classes p @ dkeys (ps_allocations p))) (\<lambda>_.
     ebind (within 1 quantity_max (ps_capacity p)) (\<lambda>_.
     ebind (within 0 quantity_max (ps_protected p)) (\<lambda>_.
     ebind (nonempty (ps_classes p)) (\<lambda>_.
     ebind (within 0 tick_max (ps_queue p)) (\<lambda>_.
     ebind (within 1 tick_max (ps_starvation p)) (\<lambda>_.
     ebind (echeck check_allocation (dvals (ps_allocations p))) (\<lambda>_.
     ebind (require_quantity_semantics (ps_kind p) (ps_unit p) (ps_mode p)) (\<lambda>_.
     ebind (require (ps_ref p = participant_resource_pool_state_ref dg (pool_state_identity p)) NoncanonicalRef) (\<lambda>_.
     ebind (require (ps_protected p \<le> ps_capacity p) ProtectedOverCapacity) (\<lambda>_.
     ebind (validate_pool_allocations p) (\<lambda>_.
       require (pool_allocated_total p \<le> ps_capacity p) PoolOverCapacity)))))))))))"

datatype budget_transition =
  ReserveBudget | CommitBudget | ReleaseBudget | ThrottleBudget | RejectBudget | ReconcileBudget

datatype budget_disposition =
  ReservedUse | CommittedUse | ReleasedUse | ThrottledUse | RejectedUse | ReconciledUse

fun EVENT_DISPOSITION :: "budget_transition \<Rightarrow> budget_disposition" where
  "EVENT_DISPOSITION ReserveBudget = ReservedUse"
| "EVENT_DISPOSITION CommitBudget = CommittedUse"
| "EVENT_DISPOSITION ReleaseBudget = ReleasedUse"
| "EVENT_DISPOSITION ThrottleBudget = ThrottledUse"
| "EVENT_DISPOSITION RejectBudget = RejectedUse"
| "EVENT_DISPOSITION ReconcileBudget = ReconciledUse"

record budget_event =
  be_id :: string
  be_operation :: string
  be_state :: string
  be_budget :: string
  be_policy :: string
  be_owner :: string
  be_pool :: string
  be_generation :: int
  be_transition :: budget_transition
  be_disposition :: budget_disposition
  be_requested :: int
  be_measured :: "int option"
  be_kind :: resource_kind
  be_unit :: string
  be_meter :: string
  be_predecessor :: "string option"
  be_evidence :: "string list"

definition check_budget_event :: "budget_event \<Rightarrow> resource_error + unit" where
  "check_budget_event e =
     ebind (echeck nonblank ([be_id e, be_operation e, be_state e, be_budget e, be_policy e, be_owner e,
       be_pool e, be_unit e, be_meter e] @ be_evidence e)) (\<lambda>_.
     ebind (natural (be_generation e)) (\<lambda>_.
     ebind (within 0 quantity_max (be_requested e)) (\<lambda>_.
     ebind (case be_measured e of None \<Rightarrow> Inr () | Some n \<Rightarrow> within 0 quantity_max n) (\<lambda>_.
     ebind (case be_predecessor e of None \<Rightarrow> Inr () | Some r \<Rightarrow> nonblank r) (\<lambda>_.
     ebind (require (be_state e = participant_resource_budget_state_ref (be_policy e) (be_budget e)) NoncanonicalRef) (\<lambda>_.
     ebind (require (be_disposition e = EVENT_DISPOSITION (be_transition e)) WrongDisposition) (\<lambda>_.
     ebind (require (be_transition e = CommitBudget \<longrightarrow> be_measured e \<noteq> None) CommitUnmeasured) (\<lambda>_.
       require (distinct (be_evidence e)) RepeatedRef))))))))"

end
