(* ===== verification/ResourceLedger.thy ===== *)
theory ResourceLedger
  imports ResourceModel
begin

text \<open>
  Participant resource budgets, the operations: the pool ledger
  (raes_runtime/participant_resource_pool_ledger.py), initialization
  (participant_resource_budgets.py), the all-or-nothing reservation
  (participant_resource_reservation.py), and commit, release and reconciliation
  (participant_resource_accounting.py).

  The payload dictionaries of the runtime snapshot hold dumped models; here they hold the
  records, and \<open>_state\<close>, \<open>_pool_state\<close> and \<open>_event\<close> are the validations of those records.
  \<open>model_copy\<close> does not validate, as in the code; \<open>with_resources\<close> is \<open>with_entries\<close>, which
  validates the whole budget part of the new snapshot. The other fields of the snapshot are
  \<open>resource_rest\<close>, of any type, and are passed on unchanged.
\<close>

section \<open>The ledger of one physical pool\<close>

definition pool_state_ref :: "(pool_identity \<Rightarrow> string) \<Rightarrow> pool_capacity \<Rightarrow> string" where
  "pool_state_ref dg p =
     participant_resource_pool_state_ref dg
       (PoolIdentity (pc_pool p) (pc_owner_kind p) (pc_owner_ref p) (pc_kind p) (pc_unit p) (pc_mode p) (pc_meter p))"

definition new_pool_state :: "(pool_identity \<Rightarrow> string) \<Rightarrow> pool_capacity \<Rightarrow> resource_error + pool_state" where
  "new_pool_state dg p =
     (let ps = \<lparr>ps_ref = pool_state_ref dg p, ps_pool = pc_pool p, ps_owner_kind = pc_owner_kind p,
        ps_owner_ref = pc_owner_ref p, ps_kind = pc_kind p, ps_unit = pc_unit p, ps_mode = pc_mode p,
        ps_meter = pc_meter p, ps_capacity = pc_capacity p, ps_protected = pc_protected p,
        ps_fairness = pc_fairness p, ps_classes = pc_classes p, ps_borrowing = pc_borrowing p,
        ps_reclaim = pc_reclaim p, ps_queue = pc_queue p, ps_starvation = pc_starvation p,
        ps_allocations = []\<rparr> in
      ebind (check_pool_state dg ps) (\<lambda>_. Inr ps))"

definition new_allocation :: "budget_state \<Rightarrow> resource_fairness \<Rightarrow> pool_allocation" where
  "new_allocation b f =
     \<lparr>pa_state = bs_ref b, pa_policy = bs_policy b, pa_budget = bs_budget b, pa_generation = bs_generation b,
      pa_class = rf_class f, pa_weight = rf_weight f, pa_protected = rf_protected f,
      pa_borrowing = rf_borrowing f, pa_reclaim = rf_reclaim f, pa_queue = rf_queue f,
      pa_starvation = rf_starvation f, pa_reserved = 0, pa_current = 0, pa_cumulative = 0\<rparr>"

definition ensure_allocation ::
    "pool_state \<Rightarrow> budget_state \<Rightarrow> resource_fairness \<Rightarrow> resource_error + pool_state" where
  "ensure_allocation p b f =
     (case dget (ps_allocations p) (bs_ref b) of
        Some existing \<Rightarrow>
          if pa_policy existing \<noteq> bs_policy b \<or> pa_budget existing \<noteq> bs_budget b
            \<or> pa_protected existing \<noteq> rf_protected f
          then Inl PoolConflict else Inr p
      | None \<Rightarrow>
          let a = new_allocation b f in
          ebind (check_allocation a) (\<lambda>_.
            Inr (p\<lparr>ps_allocations := dput (bs_ref b) a (ps_allocations p)\<rparr>)))"

definition can_reserve :: "pool_state \<Rightarrow> string \<Rightarrow> int \<Rightarrow> resource_error + bool" where
  "can_reserve p ref amount =
     (case dget (ps_allocations p) ref of
        None \<Rightarrow> Inl MissingKey
      | Some a \<Rightarrow>
          let total = sum_list (map (allocation_use p) (dvals (ps_allocations p)));
              unprotected = sum_list (map (allocation_use p)
                (filter (\<lambda>item. \<not> pa_protected item) (dvals (ps_allocations p)))) in
          Inr (if total + amount > ps_capacity p then False
               else if pa_protected a then True
               else unprotected + amount \<le> ps_capacity p - ps_protected p))"

text \<open>The four updates of an allocation copy the dictionary and replace one entry.\<close>

definition update_allocation ::
    "pool_state \<Rightarrow> string \<Rightarrow> (pool_allocation \<Rightarrow> pool_allocation) \<Rightarrow> resource_error + pool_state" where
  "update_allocation p ref f =
     (case dget (ps_allocations p) ref of
        None \<Rightarrow> Inl MissingKey
      | Some a \<Rightarrow> Inr (p\<lparr>ps_allocations := dput ref (f a) (ps_allocations p)\<rparr>))"

definition ledger_reserve :: "pool_state \<Rightarrow> string \<Rightarrow> int \<Rightarrow> resource_error + pool_state" where
  "ledger_reserve p ref amount =
     update_allocation p ref (\<lambda>a. a\<lparr>pa_reserved := pa_reserved a + amount\<rparr>)"

definition ledger_commit :: "pool_state \<Rightarrow> string \<Rightarrow> int \<Rightarrow> int \<Rightarrow> resource_error + pool_state" where
  "ledger_commit p ref reserved measured =
     update_allocation p ref (\<lambda>a. a\<lparr>pa_reserved := max 0 (pa_reserved a - reserved),
       pa_cumulative := pa_cumulative a + measured\<rparr>)"

definition ledger_release :: "pool_state \<Rightarrow> string \<Rightarrow> int \<Rightarrow> resource_error + pool_state" where
  "ledger_release p ref amount =
     update_allocation p ref (\<lambda>a. a\<lparr>pa_reserved := max 0 (pa_reserved a - amount)\<rparr>)"

definition ledger_reconcile ::
    "pool_state \<Rightarrow> budget_state \<Rightarrow> int \<Rightarrow> bool \<Rightarrow> resource_error + pool_state" where
  "ledger_reconcile p b generation clears =
     update_allocation p (bs_ref b) (\<lambda>a. a\<lparr>pa_generation := generation, pa_reserved := 0,
       pa_current := if clears then 0 else pa_current a,
       pa_cumulative := if clears then 0 else pa_cumulative a\<rparr>)"

section \<open>Snapshots and results\<close>

record 'r resource_snapshot =
  budget_states :: "(string, budget_state) dict"
  pool_states :: "(string, pool_state) dict"
  budget_events :: "(string, budget_event) dict"
  resource_rest :: 'r

definition require_participant_resource_budget_snapshot ::
    "(pool_identity \<Rightarrow> string) \<Rightarrow> (string, budget_state) dict \<Rightarrow> (string, pool_state) dict \<Rightarrow>
       (string, budget_event) dict \<Rightarrow> resource_error + unit" where
  "require_participant_resource_budget_snapshot dg states pools events =
     ebind (echeck (\<lambda>(ref, st). ebind (check_budget_state st) (\<lambda>_. require (ref = bs_ref st) SnapshotKey)) states) (\<lambda>_.
     ebind (echeck (\<lambda>(ref, p). ebind (check_pool_state dg p) (\<lambda>_. require (ref = ps_ref p) SnapshotKey)) pools) (\<lambda>_.
       echeck (\<lambda>(ref, e). ebind (check_budget_event e) (\<lambda>_. require (ref = be_id e) SnapshotKey)) events))"

definition with_resources ::
    "(pool_identity \<Rightarrow> string) \<Rightarrow> 'r resource_snapshot \<Rightarrow> (string, budget_state) dict \<Rightarrow>
       (string, pool_state) dict \<Rightarrow> (string, budget_event) dict \<Rightarrow> resource_error + 'r resource_snapshot" where
  "with_resources dg s states pools events =
     ebind (require_participant_resource_budget_snapshot dg states pools events) (\<lambda>_.
       Inr (s\<lparr>budget_states := states, pool_states := pools, budget_events := events\<rparr>))"

datatype resource_code =
    StateConflict | PoolConflictCode | CapacityMissing | ProtectedCapacityMissing
  | StateMissing | StaleGeneration | PoolStateMissing | Throttled
  | ReservationMissing | MeasurementInvalid

text \<open>A diagnostic: its code, the policy its address ends in, and what its message names.\<close>

datatype resource_diagnostic = Diagnostic (diagnostic_code: resource_code) string string

record 'r apply_result =
  result_success :: bool
  result_snapshot :: "'r resource_snapshot"
  result_diagnostics :: "resource_diagnostic list"

definition failed :: "'r resource_snapshot \<Rightarrow> resource_code \<Rightarrow> string \<Rightarrow> string \<Rightarrow> 'r apply_result" where
  "failed s code policy subject =
     \<lparr>result_success = False, result_snapshot = s, result_diagnostics = [Diagnostic code policy subject]\<rparr>"

definition succeeded :: "'r resource_snapshot \<Rightarrow> 'r apply_result" where
  "succeeded s = \<lparr>result_success = True, result_snapshot = s, result_diagnostics = []\<rparr>"

section \<open>Initialization\<close>

record runtime_demand =
  rd_budget :: string
  rd_owner_kind :: owner_kind
  rd_owner :: string
  rd_pool :: string
  rd_kind :: resource_kind
  rd_unit :: string
  rd_mode :: accounting_mode
  rd_meter :: string
  rd_limit :: int
  rd_reservation :: int
  rd_reset :: reset_mode

record runtime_policy =
  rp_address :: string
  rp_demands :: "runtime_demand list"
  rp_fairness :: resource_fairness

definition demand_matches :: "runtime_demand \<Rightarrow> pool_capacity \<Rightarrow> bool" where
  "demand_matches d p \<longleftrightarrow>
     pc_pool p = rd_pool d \<and> pc_owner_kind p = rd_owner_kind d \<and> pc_owner_ref p = rd_owner d
     \<and> pc_kind p = rd_kind d \<and> pc_unit p = rd_unit d \<and> pc_mode p = rd_mode d \<and> pc_meter p = rd_meter d"

type_synonym admission = "profile_coordinate \<Rightarrow> string \<Rightarrow> accounting_mode \<Rightarrow> string \<Rightarrow> reset_mode \<Rightarrow> bool"

definition matching_pool :: "admission \<Rightarrow> pool_capacity list \<Rightarrow> runtime_demand \<Rightarrow> pool_capacity option" where
  "matching_pool admitted pools d =
     (if \<not> resource_measure_supported admitted (rd_kind d) (rd_unit d) (rd_mode d) (rd_meter d) (rd_reset d)
      then None else find (demand_matches d) pools)"

definition initial_budget_state :: "runtime_policy \<Rightarrow> runtime_demand \<Rightarrow> pool_capacity \<Rightarrow> int \<Rightarrow> budget_state" where
  "initial_budget_state policy d p generation =
     (let ref = participant_resource_budget_state_ref (rp_address policy) (rd_budget d) in
      \<lparr>bs_ref = ref, bs_budget = rd_budget d, bs_policy = rp_address policy, bs_owner_kind = rd_owner_kind d,
       bs_owner_ref = rd_owner d, bs_pool = rd_pool d, bs_kind = rd_kind d, bs_unit = rd_unit d,
       bs_mode = rd_mode d, bs_meter = rd_meter d, bs_reset = rd_reset d, bs_generation = generation,
       bs_limit = rd_limit d, bs_capacity = pc_capacity p, bs_reserved = 0, bs_current = 0, bs_cumulative = 0,
       bs_throttled = 0, bs_rejected = 0, bs_reconciliation = Reconciled,
       bs_last_event = ''initial:'' @ ref, bs_evidence = []\<rparr>)"

definition new_budget_state ::
    "runtime_policy \<Rightarrow> runtime_demand \<Rightarrow> pool_capacity \<Rightarrow> int \<Rightarrow> resource_error + budget_state" where
  "new_budget_state policy d p generation =
     (let b = initial_budget_state policy d p generation in ebind (check_budget_state b) (\<lambda>_. Inr b))"

type_synonym budget_books = "(string, budget_state) dict \<times> (string, pool_state) dict"

definition initialize_new_budget ::
    "(pool_identity \<Rightarrow> string) \<Rightarrow> 'r resource_snapshot \<Rightarrow> int \<Rightarrow> budget_books \<Rightarrow> runtime_policy \<Rightarrow>
       runtime_demand \<Rightarrow> pool_capacity \<Rightarrow> string \<Rightarrow> resource_error + ('r apply_result + budget_books)" where
  "initialize_new_budget dg s generation books policy d p ref =
     ebind (new_budget_state policy d p generation) (\<lambda>b.
     ebind (case dget (snd books) (pool_state_ref dg p) of
              None \<Rightarrow> new_pool_state dg p
            | Some existing \<Rightarrow> ebind (check_pool_state dg existing) (\<lambda>_. Inr existing)) (\<lambda>physical.
       (case ensure_allocation physical b (rp_fairness policy) of
          Inl PoolConflict \<Rightarrow> Inr (Inl (failed s PoolConflictCode (rp_address policy) []))
        | Inl e \<Rightarrow> Inl e
        | Inr physical' \<Rightarrow>
            Inr (Inr (dput ref b (fst books), dput (pool_state_ref dg p) physical' (snd books))))))"

definition initialize_demand ::
    "(pool_identity \<Rightarrow> string) \<Rightarrow> admission \<Rightarrow> pool_capacity list \<Rightarrow> 'r resource_snapshot \<Rightarrow> int \<Rightarrow>
       budget_books \<Rightarrow> runtime_policy \<times> runtime_demand \<Rightarrow> resource_error + ('r apply_result + budget_books)" where
  "initialize_demand dg admitted pools s generation books job =
     (case job of (policy, d) \<Rightarrow>
       (case matching_pool admitted pools d of
          None \<Rightarrow> Inr (Inl (failed s CapacityMissing (rp_address policy) (rd_budget d)))
        | Some p \<Rightarrow>
            if rf_protected (rp_fairness policy) \<and> pc_protected p < rd_reservation d
            then Inr (Inl (failed s ProtectedCapacityMissing (rp_address policy) (rd_budget d)))
            else
              let ref = participant_resource_budget_state_ref (rp_address policy) (rd_budget d) in
              (case dget (fst books) ref of
                 Some existing \<Rightarrow>
                   ebind (check_budget_state existing) (\<lambda>_.
                     if bs_generation existing \<noteq> generation
                     then Inr (Inl (failed s StateConflict (rp_address policy) (rd_budget d)))
                     else Inr (Inr books))
               | None \<Rightarrow> initialize_new_budget dg s generation books policy d p ref)))"

definition initialize_participant_resource_budgets ::
    "(pool_identity \<Rightarrow> string) \<Rightarrow> admission \<Rightarrow> pool_capacity list \<Rightarrow> 'r resource_snapshot \<Rightarrow>
       runtime_policy list \<Rightarrow> int \<Rightarrow> resource_error + 'r apply_result" where
  "initialize_participant_resource_budgets dg admitted pools s policies generation =
     ebind (floop (initialize_demand dg admitted pools s generation) (budget_states s, pool_states s)
       (concat (map (\<lambda>policy. map (Pair policy) (rp_demands policy)) policies))) (\<lambda>r.
     (case r of
        Inl failure \<Rightarrow> Inr failure
      | Inr (states, physical) \<Rightarrow>
          ebind (with_resources dg s states physical (budget_events s)) (\<lambda>s'. Inr (succeeded s'))))"

section \<open>Reservation\<close>

text \<open>The identifier of the event that an operation records for a budget state.\<close>

definition operation_event_id :: "string \<Rightarrow> string \<Rightarrow> string \<Rightarrow> string" where
  "operation_event_id operation ref transition = operation @ '':'' @ ref @ '':'' @ transition"

definition used_capacity :: "budget_state \<Rightarrow> int" where
  "used_capacity b =
     (if held_mode (bs_mode b) then bs_current b + bs_reserved b else bs_cumulative b + bs_reserved b)"

definition pool_ref_for_state :: "(pool_identity \<Rightarrow> string) \<Rightarrow> budget_state \<Rightarrow> string" where
  "pool_ref_for_state dg b =
     participant_resource_pool_state_ref dg
       (PoolIdentity (bs_pool b) (bs_owner_kind b) (bs_owner_ref b) (bs_kind b) (bs_unit b) (bs_mode b) (bs_meter b))"

definition make_budget_event :: "budget_event \<Rightarrow> resource_error + budget_event" where
  "make_budget_event e = ebind (check_budget_event e) (\<lambda>_. Inr e)"

record 'r reservation =
  rv_snapshot :: "'r resource_snapshot"
  rv_policy :: runtime_policy
  rv_operation :: string
  rv_generation :: int
  rv_states :: "(string, budget_state) dict"
  rv_pools :: "(string, pool_state) dict"
  rv_events :: "(string, budget_event) dict"

definition reservation_event ::
    "'r reservation \<Rightarrow> string \<Rightarrow> budget_state \<Rightarrow> string \<Rightarrow> budget_transition \<Rightarrow> budget_disposition \<Rightarrow> int \<Rightarrow> budget_event" where
  "reservation_event m budget b event_id tr disposition amount =
     \<lparr>be_id = event_id, be_operation = rv_operation m, be_state = bs_ref b, be_budget = budget,
      be_policy = rp_address (rv_policy m), be_owner = bs_owner_ref b, be_pool = bs_pool b,
      be_generation = rv_generation m, be_transition = tr, be_disposition = disposition,
      be_requested = amount, be_measured = None, be_kind = bs_kind b, be_unit = bs_unit b,
      be_meter = bs_meter b, be_predecessor = Some (bs_last_event b), be_evidence = []\<rparr>"

definition throttled_result ::
    "(pool_identity \<Rightarrow> string) \<Rightarrow> 'r reservation \<Rightarrow> runtime_demand \<Rightarrow> budget_state \<Rightarrow> int \<Rightarrow>
       resource_error + 'r apply_result" where
  "throttled_result dg m d b amount =
     (let event_id = operation_event_id (rv_operation m) (bs_ref b) ''throttle'' in
      ebind (make_budget_event (reservation_event m (rd_budget d) b event_id ThrottleBudget ThrottledUse amount)) (\<lambda>e.
      ebind (with_resources dg (rv_snapshot m)
          (dput (bs_ref b) (b\<lparr>bs_throttled := bs_throttled b + 1, bs_last_event := event_id\<rparr>) (rv_states m))
          (rv_pools m) (dput event_id e (rv_events m))) (\<lambda>s'.
        Inr (failed s' Throttled (rp_address (rv_policy m)) (rd_budget d)))))"

definition requested_amount :: "runtime_demand \<Rightarrow> (string, int) dict option \<Rightarrow> resource_error + int" where
  "requested_amount d requested =
     (let amount = (case requested of
            None \<Rightarrow> rd_reservation d
          | Some q \<Rightarrow> (case dget q (rd_budget d) of None \<Rightarrow> rd_reservation d | Some n \<Rightarrow> n)) in
      ebind (require (0 \<le> amount) NegativeRequest) (\<lambda>_. Inr amount))"

datatype reservation_check = Checked runtime_demand budget_state pool_state int

definition budget_state_check ::
    "'r reservation \<Rightarrow> runtime_demand \<Rightarrow> string \<Rightarrow> resource_error + ('r apply_result + budget_state)" where
  "budget_state_check m d ref =
     (case dget (rv_states m) ref of
        None \<Rightarrow> Inr (Inl (failed (rv_snapshot m) StateMissing (rp_address (rv_policy m)) (rd_budget d)))
      | Some b \<Rightarrow>
          ebind (check_budget_state b) (\<lambda>_.
            if bs_generation b \<noteq> rv_generation m
            then Inr (Inl (failed (rv_snapshot m) StaleGeneration (rp_address (rv_policy m)) (rd_budget d)))
            else Inr (Inr b)))"

definition pool_state_check ::
    "(pool_identity \<Rightarrow> string) \<Rightarrow> 'r reservation \<Rightarrow> runtime_demand \<Rightarrow> budget_state \<Rightarrow> (string, int) dict option \<Rightarrow>
       resource_error + ('r apply_result + pool_state \<times> int)" where
  "pool_state_check dg m d b requested =
     ebind (requested_amount d requested) (\<lambda>amount.
       (case dget (rv_pools m) (pool_ref_for_state dg b) of
          None \<Rightarrow> Inr (Inl (failed (rv_snapshot m) PoolStateMissing (rp_address (rv_policy m)) (rd_budget d)))
        | Some p \<Rightarrow> ebind (check_pool_state dg p) (\<lambda>_. Inr (Inr (p, amount)))))"

definition capacity_failure ::
    "(pool_identity \<Rightarrow> string) \<Rightarrow> 'r reservation \<Rightarrow> runtime_demand \<Rightarrow> budget_state \<Rightarrow> pool_state \<Rightarrow> string \<Rightarrow> int \<Rightarrow>
       resource_error + 'r apply_result option" where
  "capacity_failure dg m d b p ref amount =
     (if \<not> used_capacity b + amount \<le> min (bs_limit b) (bs_capacity b)
      then ebind (throttled_result dg m d b amount) (\<lambda>r. Inr (Some r))
      else ebind (can_reserve p ref amount) (\<lambda>available.
        if \<not> available then ebind (throttled_result dg m d b amount) (\<lambda>r. Inr (Some r)) else Inr None))"

definition check_reservation ::
    "(pool_identity \<Rightarrow> string) \<Rightarrow> 'r reservation \<Rightarrow> (string, int) dict option \<Rightarrow> reservation_check list \<Rightarrow>
       runtime_demand \<times> string \<Rightarrow> resource_error + ('r apply_result + reservation_check list)" where
  "check_reservation dg m requested checked job =
     (case job of (d, ref) \<Rightarrow>
       ebind (budget_state_check m d ref) (\<lambda>r. case r of Inl failure \<Rightarrow> Inr (Inl failure) | Inr b \<Rightarrow>
       ebind (pool_state_check dg m d b requested) (\<lambda>r. case r of Inl failure \<Rightarrow> Inr (Inl failure) | Inr (p, amount) \<Rightarrow>
       ebind (capacity_failure dg m d b p ref amount) (\<lambda>r. case r of
           Some failure \<Rightarrow> Inr (Inl failure)
         | None \<Rightarrow> Inr (Inr (checked @ [Checked d b p amount]))))))"

definition apply_reservation :: "'r reservation \<Rightarrow> reservation_check \<Rightarrow> resource_error + 'r reservation" where
  "apply_reservation m check =
     (case check of Checked d b p amount \<Rightarrow>
       let event_id = operation_event_id (rv_operation m) (bs_ref b) ''reserve'' in
       ebind (make_budget_event (reservation_event m (rd_budget d) b event_id ReserveBudget ReservedUse amount)) (\<lambda>e.
       ebind (ledger_reserve p (bs_ref b) amount) (\<lambda>p'.
         Inr (m\<lparr>rv_states := dput (bs_ref b) (b\<lparr>bs_reserved := bs_reserved b + amount, bs_last_event := event_id\<rparr>) (rv_states m),
                rv_pools := dput (ps_ref p) p' (rv_pools m),
                rv_events := dput event_id e (rv_events m)\<rparr>))))"

definition reserve_participant_resources ::
    "(pool_identity \<Rightarrow> string) \<Rightarrow> 'r resource_snapshot \<Rightarrow> runtime_policy \<Rightarrow> string \<Rightarrow> int \<Rightarrow>
       (string, int) dict option \<Rightarrow> resource_error + 'r apply_result" where
  "reserve_participant_resources dg s policy operation generation requested =
     (let refs = map (\<lambda>d. participant_resource_budget_state_ref (rp_address policy) (rd_budget d)) (rp_demands policy);
          event_ids = map (\<lambda>ref. operation_event_id operation ref ''reserve'') refs in
      if event_ids \<noteq> [] \<and> list_all (\<lambda>i. i \<in> set (dkeys (budget_events s))) event_ids then Inr (succeeded s)
      else
        let m = \<lparr>rv_snapshot = s, rv_policy = policy, rv_operation = operation, rv_generation = generation,
                 rv_states = budget_states s, rv_pools = pool_states s, rv_events = budget_events s\<rparr> in
        ebind (floop (check_reservation dg m requested) [] (zip (rp_demands policy) refs)) (\<lambda>r.
        (case r of
           Inl failure \<Rightarrow> Inr failure
         | Inr checked \<Rightarrow>
             ebind (efold apply_reservation m checked) (\<lambda>m'.
             ebind (with_resources dg (rv_snapshot m') (rv_states m') (rv_pools m') (rv_events m')) (\<lambda>s'.
               Inr (succeeded s'))))))"

section \<open>Commit and release\<close>

definition operation_reservations ::
    "(string, budget_event) dict \<Rightarrow> string \<Rightarrow> resource_error + budget_event list" where
  "operation_reservations events operation =
     (let selected = filter (\<lambda>e. be_operation e = operation \<and> be_transition e = ReserveBudget) (dvals events) in
      ebind (echeck check_budget_event selected) (\<lambda>_. Inr selected))"

definition missing_reservation_result ::
    "'r resource_snapshot \<Rightarrow> string \<Rightarrow> (string, budget_event) dict \<Rightarrow> 'r apply_result" where
  "missing_reservation_result s operation events =
     (if list_ex (\<lambda>e. be_operation e = operation \<and> be_transition e = CommitBudget) (dvals events)
      then succeeded s else failed s ReservationMissing ''unknown'' operation)"

definition valid_measurement_vector :: "budget_event list \<Rightarrow> (string, int) dict \<Rightarrow> string list \<Rightarrow> bool" where
  "valid_measurement_vector reservations measured evidence \<longleftrightarrow>
     set (dkeys measured) = set (map be_state reservations) \<and> evidence \<noteq> []
     \<and> list_all (\<lambda>r. case dget measured (be_state r) of
          None \<Rightarrow> False | Some n \<Rightarrow> 0 \<le> n \<and> n \<le> be_requested r) reservations"

text \<open>The books that commit, release and reconciliation update.\<close>

record resource_books =
  rb_states :: "(string, budget_state) dict"
  rb_pools :: "(string, pool_state) dict"
  rb_events :: "(string, budget_event) dict"

definition settlement_event ::
    "string \<Rightarrow> int \<Rightarrow> string list \<Rightarrow> budget_event \<Rightarrow> budget_state \<Rightarrow> string \<Rightarrow> budget_transition \<Rightarrow> budget_disposition \<Rightarrow>
       int option \<Rightarrow> budget_event" where
  "settlement_event operation generation evidence reservation b event_id tr disposition measured =
     \<lparr>be_id = event_id, be_operation = operation, be_state = be_state reservation,
      be_budget = be_budget reservation, be_policy = be_policy reservation, be_owner = bs_owner_ref b,
      be_pool = bs_pool b, be_generation = generation, be_transition = tr, be_disposition = disposition,
      be_requested = be_requested reservation, be_measured = measured, be_kind = bs_kind b,
      be_unit = bs_unit b, be_meter = bs_meter b, be_predecessor = Some (be_id reservation),
      be_evidence = evidence\<rparr>"

definition committed_state :: "budget_state \<Rightarrow> budget_event \<Rightarrow> int \<Rightarrow> string \<Rightarrow> string list \<Rightarrow> budget_state" where
  "committed_state b reservation measured event_id evidence =
     b\<lparr>bs_reserved := max 0 (bs_reserved b - be_requested reservation),
       bs_cumulative := bs_cumulative b + measured, bs_last_event := event_id,
       bs_evidence := fromkeys (bs_evidence b @ evidence)\<rparr>"

definition commit_reservation ::
    "(pool_identity \<Rightarrow> string) \<Rightarrow> 'r resource_snapshot \<Rightarrow> string \<Rightarrow> int \<Rightarrow> (string, int) dict \<Rightarrow> string list \<Rightarrow>
       resource_books \<Rightarrow> budget_event \<Rightarrow> resource_error + ('r apply_result + resource_books)" where
  "commit_reservation dg s operation generation measured evidence books reservation =
     (let event_id = operation_event_id operation (be_state reservation) ''commit'' in
      if event_id \<in> set (dkeys (rb_events books)) then Inr (Inr books)
      else (case (dget (rb_states books) (be_state reservation), dget measured (be_state reservation)) of
          (Some b, Some n) \<Rightarrow>
            ebind (check_budget_state b) (\<lambda>_.
            if bs_generation b \<noteq> generation
            then Inr (Inl (failed s StaleGeneration (be_policy reservation) operation))
            else
              ebind (make_budget_event (settlement_event operation generation evidence reservation b event_id
                CommitBudget CommittedUse (Some n))) (\<lambda>e.
              (case dget (rb_pools books) (pool_ref_for_state dg b) of
                 None \<Rightarrow> Inl MissingKey
               | Some p \<Rightarrow>
                   ebind (check_pool_state dg p) (\<lambda>_.
                   ebind (ledger_commit p (bs_ref b) (be_requested reservation) n) (\<lambda>p'.
                     Inr (Inr (books\<lparr>
                       rb_states := dput (be_state reservation) (committed_state b reservation n event_id evidence) (rb_states books),
                       rb_pools := dput (pool_ref_for_state dg b) p' (rb_pools books),
                       rb_events := dput event_id e (rb_events books)\<rparr>)))))))
        | _ \<Rightarrow> Inl MissingKey))"

definition books_of :: "'r resource_snapshot \<Rightarrow> resource_books" where
  "books_of s = \<lparr>rb_states = budget_states s, rb_pools = pool_states s, rb_events = budget_events s\<rparr>"

definition store_books ::
    "(pool_identity \<Rightarrow> string) \<Rightarrow> 'r resource_snapshot \<Rightarrow> resource_books \<Rightarrow> resource_error + 'r apply_result" where
  "store_books dg s books =
     ebind (with_resources dg s (rb_states books) (rb_pools books) (rb_events books)) (\<lambda>s'. Inr (succeeded s'))"

definition commit_participant_resource_reservation ::
    "(pool_identity \<Rightarrow> string) \<Rightarrow> 'r resource_snapshot \<Rightarrow> string \<Rightarrow> int \<Rightarrow> (string, int) dict \<Rightarrow> string list \<Rightarrow>
       resource_error + 'r apply_result" where
  "commit_participant_resource_reservation dg s operation generation measured evidence =
     ebind (operation_reservations (budget_events s) operation) (\<lambda>reservations.
       (case reservations of
          [] \<Rightarrow> Inr (missing_reservation_result s operation (budget_events s))
        | first # _ \<Rightarrow>
            if \<not> valid_measurement_vector reservations measured evidence
            then Inr (failed s MeasurementInvalid (be_policy first) [])
            else
              ebind (floop (commit_reservation dg s operation generation measured evidence) (books_of s) reservations)
                (\<lambda>r. case r of Inl failure \<Rightarrow> Inr failure | Inr books \<Rightarrow> store_books dg s books)))"

definition released_state :: "budget_state \<Rightarrow> budget_event \<Rightarrow> string \<Rightarrow> string list \<Rightarrow> budget_state" where
  "released_state b reservation event_id evidence =
     b\<lparr>bs_reserved := max 0 (bs_reserved b - be_requested reservation), bs_last_event := event_id,
       bs_evidence := fromkeys (bs_evidence b @ evidence)\<rparr>"

definition release_reservation ::
    "(pool_identity \<Rightarrow> string) \<Rightarrow> 'r resource_snapshot \<Rightarrow> string \<Rightarrow> int \<Rightarrow> string list \<Rightarrow>
       resource_books \<Rightarrow> budget_event \<Rightarrow> resource_error + ('r apply_result + resource_books)" where
  "release_reservation dg s operation generation evidence books reservation =
     (let event_id = operation_event_id operation (be_state reservation) ''release'' in
      if event_id \<in> set (dkeys (rb_events books)) then Inr (Inr books)
      else (case dget (rb_states books) (be_state reservation) of
          None \<Rightarrow> Inl MissingKey
        | Some b \<Rightarrow>
            ebind (check_budget_state b) (\<lambda>_.
            if bs_generation b \<noteq> generation
            then Inr (Inl (failed s StaleGeneration (be_policy reservation) operation))
            else
              ebind (make_budget_event (settlement_event operation generation evidence reservation b event_id
                ReleaseBudget ReleasedUse None)) (\<lambda>e.
              (case dget (rb_pools books) (pool_ref_for_state dg b) of
                 None \<Rightarrow> Inl MissingKey
               | Some p \<Rightarrow>
                   ebind (check_pool_state dg p) (\<lambda>_.
                   ebind (ledger_release p (bs_ref b) (be_requested reservation)) (\<lambda>p'.
                     Inr (Inr (books\<lparr>
                       rb_states := dput (bs_ref b) (released_state b reservation event_id evidence) (rb_states books),
                       rb_pools := dput (pool_ref_for_state dg b) p' (rb_pools books),
                       rb_events := dput event_id e (rb_events books)\<rparr>)))))))))"

definition release_participant_resource_reservation ::
    "(pool_identity \<Rightarrow> string) \<Rightarrow> 'r resource_snapshot \<Rightarrow> string \<Rightarrow> int \<Rightarrow> string list \<Rightarrow>
       resource_error + 'r apply_result" where
  "release_participant_resource_reservation dg s operation generation evidence =
     ebind (operation_reservations (budget_events s) operation) (\<lambda>reservations.
       if reservations = [] then Inr (succeeded s)
       else
         ebind (floop (release_reservation dg s operation generation evidence) (books_of s) reservations)
           (\<lambda>r. case r of Inl failure \<Rightarrow> Inr failure | Inr books \<Rightarrow> store_books dg s books))"

section \<open>Reconciliation\<close>

definition reconcile_operation_id :: "string \<Rightarrow> int \<Rightarrow> string" where
  "reconcile_operation_id policy generation = ''reconcile:'' @ policy @ '':'' @ int_text generation"

definition reconciled_state ::
    "budget_state \<Rightarrow> int \<Rightarrow> bool \<Rightarrow> string \<Rightarrow> string list \<Rightarrow> budget_state" where
  "reconciled_state b generation clears event_id evidence =
     b\<lparr>bs_generation := generation, bs_reserved := 0,
       bs_current := if clears then 0 else bs_current b,
       bs_cumulative := if clears then 0 else bs_cumulative b,
       bs_reconciliation := Reconciled, bs_last_event := event_id,
       bs_evidence := fromkeys (bs_evidence b @ evidence)\<rparr>"

definition reconciliation_event ::
    "string \<Rightarrow> int \<Rightarrow> string list \<Rightarrow> string \<Rightarrow> budget_state \<Rightarrow> budget_event" where
  "reconciliation_event policy generation evidence ref b =
     \<lparr>be_id = reconcile_operation_id policy generation @ '':'' @ ref,
      be_operation = reconcile_operation_id policy generation, be_state = ref, be_budget = bs_budget b,
      be_policy = policy, be_owner = bs_owner_ref b, be_pool = bs_pool b, be_generation = generation,
      be_transition = ReconcileBudget, be_disposition = ReconciledUse, be_requested = 0,
      be_measured = Some 0, be_kind = bs_kind b, be_unit = bs_unit b, be_meter = bs_meter b,
      be_predecessor = Some (bs_last_event b), be_evidence = evidence\<rparr>"

definition reconcile_state ::
    "(pool_identity \<Rightarrow> string) \<Rightarrow> string \<Rightarrow> int \<Rightarrow> reset_mode \<Rightarrow> string list \<Rightarrow>
       resource_books \<Rightarrow> string \<times> budget_state \<Rightarrow> resource_error + resource_books" where
  "reconcile_state dg policy generation boundary evidence books job =
     (case job of (ref, b) \<Rightarrow>
       let clears = (bs_reset b = boundary) in
       ebind (make_budget_event (reconciliation_event policy generation evidence ref b)) (\<lambda>e.
         (case dget (rb_pools books) (pool_ref_for_state dg b) of
            None \<Rightarrow> Inl MissingKey
          | Some p \<Rightarrow>
              ebind (check_pool_state dg p) (\<lambda>_.
              ebind (ledger_reconcile p b generation clears) (\<lambda>p'.
                Inr (books\<lparr>
                  rb_states := dput ref (reconciled_state b generation clears (be_id e) evidence) (rb_states books),
                  rb_pools := dput (pool_ref_for_state dg b) p' (rb_pools books),
                  rb_events := dput (be_id e) e (rb_events books)\<rparr>))))))"

definition reconcile_participant_resource_budgets ::
    "(pool_identity \<Rightarrow> string) \<Rightarrow> 'r resource_snapshot \<Rightarrow> string \<Rightarrow> int \<Rightarrow> int \<Rightarrow> reset_mode \<Rightarrow> string list \<Rightarrow>
       resource_error + 'r apply_result" where
  "reconcile_participant_resource_budgets dg s policy current next_generation boundary evidence =
     ebind (require (current < next_generation) GenerationStuck) (\<lambda>_.
     let selected = filter (\<lambda>(ref, b). bs_policy b = policy) (budget_states s) in
     ebind (echeck (\<lambda>(ref, b). check_budget_state b) selected) (\<lambda>_.
     (case find (\<lambda>(ref, b). bs_generation b \<noteq> current) selected of
        Some (ref, b) \<Rightarrow> Inr (failed s StaleGeneration policy ref)
      | None \<Rightarrow>
          ebind (efold (reconcile_state dg policy next_generation boundary evidence) (books_of s) selected)
            (store_books dg s))))"

end
