(* ===== verification/ResourceProofs.thy ===== *)
theory ResourceProofs
  imports ResourceLedger
begin

text \<open>
  Why the budget operations keep their books: what each operation does to a budget state and to
  the allocation of the physical pool, the agreement of the two, and the interpretation of the
  logged-machine interface on the budget operations.
\<close>

section \<open>Valid snapshots\<close>

lemma require_snapshot_iff:
  "require_participant_resource_budget_snapshot dg states pools events = Inr u \<longleftrightarrow>
     (\<forall>(ref, b) \<in> set states. check_budget_state b = Inr () \<and> ref = bs_ref b)
   \<and> (\<forall>(ref, p) \<in> set pools. check_pool_state dg p = Inr () \<and> ref = ps_ref p)
   \<and> (\<forall>(ref, e) \<in> set events. check_budget_event e = Inr () \<and> ref = be_id e)"
  unfolding require_participant_resource_budget_snapshot_def
  by (auto simp: ebind_eq_Inr echeck_eq_Inr require_eq_Inr split_def)

lemma with_resources_eq_Inr:
  "with_resources dg s states pools events = Inr s' \<longleftrightarrow>
     require_participant_resource_budget_snapshot dg states pools events = Inr ()
     \<and> s' = s\<lparr>budget_states := states, pool_states := pools, budget_events := events\<rparr>"
  unfolding with_resources_def by (auto simp: ebind_eq_Inr)

lemma store_books_eq_Inr:
  "store_books dg s books = Inr r \<longleftrightarrow>
     require_participant_resource_budget_snapshot dg (rb_states books) (rb_pools books) (rb_events books) = Inr ()
     \<and> r = succeeded (s\<lparr>budget_states := rb_states books, pool_states := rb_pools books,
                        budget_events := rb_events books\<rparr>)"
  unfolding store_books_def by (auto simp: ebind_eq_Inr with_resources_eq_Inr)

definition snapshot_valid :: "(pool_identity \<Rightarrow> string) \<Rightarrow> 'r resource_snapshot \<Rightarrow> bool" where
  "snapshot_valid dg s \<longleftrightarrow>
     require_participant_resource_budget_snapshot dg (budget_states s) (pool_states s) (budget_events s) = Inr ()"

lemma valid_state:
  assumes "snapshot_valid dg s" and "dget (budget_states s) ref = Some b"
  shows "check_budget_state b = Inr ()" and "bs_ref b = ref"
  using assms map_of_SomeD [OF assms(2)] unfolding snapshot_valid_def require_snapshot_iff by auto

lemma valid_pool:
  assumes "snapshot_valid dg s" and "dget (pool_states s) ref = Some p"
  shows "check_pool_state dg p = Inr ()" and "ps_ref p = ref"
  using assms map_of_SomeD [OF assms(2)] unfolding snapshot_valid_def require_snapshot_iff by auto

lemma valid_event:
  assumes "snapshot_valid dg s" and "dget (budget_events s) ref = Some e"
  shows "check_budget_event e = Inr ()" and "be_id e = ref"
  using assms map_of_SomeD [OF assms(2)] unfolding snapshot_valid_def require_snapshot_iff by auto

lemma check_budget_state_ref:
  "check_budget_state b = Inr u \<Longrightarrow> bs_ref b = participant_resource_budget_state_ref (bs_policy b) (bs_budget b)"
  by (auto simp: check_budget_state_def ebind_eq_Inr require_eq_Inr)

lemma check_budget_state_bounds:
  assumes "check_budget_state b = Inr u"
  shows "0 \<le> bs_reserved b" "0 \<le> bs_current b" "0 \<le> bs_cumulative b"
    and "bs_reserved b + bs_current b \<le> bs_limit b" "bs_reserved b + bs_current b \<le> bs_capacity b"
  using assms by (auto simp: check_budget_state_def within_def ebind_eq_Inr require_eq_Inr echeck_eq_Inr)

lemma check_pool_state_ref:
  "check_pool_state dg p = Inr u \<Longrightarrow> ps_ref p = participant_resource_pool_state_ref dg (pool_state_identity p)"
  by (auto simp: check_pool_state_def ebind_eq_Inr require_eq_Inr)

lemma check_pool_state_total: "check_pool_state dg p = Inr u \<Longrightarrow> pool_allocated_total p \<le> ps_capacity p"
  by (auto simp: check_pool_state_def ebind_eq_Inr require_eq_Inr)

lemma check_pool_state_allocation:
  assumes "check_pool_state dg p = Inr u" and "a \<in> set (dvals (ps_allocations p))"
  shows "0 \<le> pa_reserved a" "0 \<le> pa_current a" "0 \<le> pa_cumulative a"
proof -
  from assms have "check_allocation a = Inr ()"
    by (auto simp: check_pool_state_def ebind_eq_Inr echeck_eq_Inr)
  then show "0 \<le> pa_reserved a" "0 \<le> pa_current a" "0 \<le> pa_cumulative a"
    by (auto simp: check_allocation_def within_def ebind_eq_Inr require_eq_Inr echeck_eq_Inr)
qed

section \<open>Allocations agree with budget states\<close>

definition allocation_agrees :: "budget_state \<Rightarrow> pool_allocation \<Rightarrow> bool" where
  "allocation_agrees b a \<longleftrightarrow>
     pa_policy a = bs_policy b \<and> pa_budget a = bs_budget b \<and> pa_generation a = bs_generation b
     \<and> pa_reserved a = bs_reserved b \<and> pa_current a = bs_current b \<and> pa_cumulative a = bs_cumulative b"

definition demand_pool_ref :: "(pool_identity \<Rightarrow> string) \<Rightarrow> runtime_demand \<Rightarrow> string" where
  "demand_pool_ref dg d =
     participant_resource_pool_state_ref dg
       (PoolIdentity (rd_pool d) (rd_owner_kind d) (rd_owner d) (rd_kind d) (rd_unit d) (rd_mode d) (rd_meter d))"

definition demand_state_ref :: "runtime_policy \<Rightarrow> runtime_demand \<Rightarrow> string" where
  "demand_state_ref policy d = participant_resource_budget_state_ref (rp_address policy) (rd_budget d)"

definition policy_jobs :: "runtime_policy list \<Rightarrow> (runtime_policy \<times> runtime_demand) list" where
  "policy_jobs policies = concat (map (\<lambda>policy. map (Pair policy) (rp_demands policy)) policies)"

text \<open>
  The compiled policies have different budget states, and the demands of one policy have different
  physical pools: what \<open>validate_budget_policy\<close> promises, carried over the rendered references.
\<close>

definition separate_policies :: "(pool_identity \<Rightarrow> string) \<Rightarrow> runtime_policy list \<Rightarrow> bool" where
  "separate_policies dg policies \<longleftrightarrow>
     distinct (map (\<lambda>(policy, d). demand_state_ref policy d) (policy_jobs policies))
     \<and> list_all (\<lambda>policy. distinct (map (demand_pool_ref dg) (rp_demands policy))) policies"

definition state_from_policies ::
    "(pool_identity \<Rightarrow> string) \<Rightarrow> runtime_policy list \<Rightarrow> string \<Rightarrow> budget_state \<Rightarrow> bool" where
  "state_from_policies dg policies ref b \<longleftrightarrow>
     list_ex (\<lambda>(policy, d). ref = demand_state_ref policy d \<and> bs_policy b = rp_address policy
       \<and> bs_budget b = rd_budget d \<and> pool_ref_for_state dg b = demand_pool_ref dg d
       \<and> bs_limit b = rd_limit d) (policy_jobs policies)"

definition books_sound ::
    "(pool_identity \<Rightarrow> string) \<Rightarrow> runtime_policy list \<Rightarrow> (string, budget_state) dict \<Rightarrow> (string, pool_state) dict \<Rightarrow> bool" where
  "books_sound dg policies states pools \<longleftrightarrow>
     dict_ok states \<and> dict_ok pools
     \<and> (\<forall>ref p. dget pools ref = Some p \<longrightarrow> dict_ok (ps_allocations p) \<and> ps_ref p = ref)
     \<and> (\<forall>ref b. dget states ref = Some b \<longrightarrow> bs_ref b = ref \<and> state_from_policies dg policies ref b
          \<and> (\<exists>p a. dget pools (pool_ref_for_state dg b) = Some p \<and> dget (ps_allocations p) ref = Some a
               \<and> allocation_agrees b a))
     \<and> (\<forall>pref p ref a. dget pools pref = Some p \<longrightarrow> dget (ps_allocations p) ref = Some a \<longrightarrow>
          (\<exists>b. dget states ref = Some b \<and> pool_ref_for_state dg b = pref))"

lemma books_soundD:
  assumes "books_sound dg policies states pools"
  shows "dict_ok states" "dict_ok pools"
    and "dget pools ref = Some p \<Longrightarrow> dict_ok (ps_allocations p)"
    and "dget pools ref = Some p \<Longrightarrow> ps_ref p = ref"
    and "dget states ref = Some b \<Longrightarrow> bs_ref b = ref"
    and "dget states ref = Some b \<Longrightarrow> state_from_policies dg policies ref b"
  using assms unfolding books_sound_def by blast+

lemma books_sound_allocation:
  assumes "books_sound dg policies states pools" and "dget states ref = Some b"
  obtains p a where "dget pools (pool_ref_for_state dg b) = Some p" "dget (ps_allocations p) ref = Some a"
    "allocation_agrees b a"
  using assms unfolding books_sound_def by blast

lemma books_sound_owner:
  assumes "books_sound dg policies states pools" and "dget pools pref = Some p"
    and "dget (ps_allocations p) ref = Some a"
  obtains b where "dget states ref = Some b" "pool_ref_for_state dg b = pref"
  using assms unfolding books_sound_def by blast

text \<open>
  The one update that every operation makes: a budget state and its allocation are replaced by
  new ones that agree again.
\<close>

definition same_budget :: "(pool_identity \<Rightarrow> string) \<Rightarrow> budget_state \<Rightarrow> budget_state \<Rightarrow> bool" where
  "same_budget dg b b' \<longleftrightarrow>
     bs_ref b' = bs_ref b \<and> bs_policy b' = bs_policy b \<and> bs_budget b' = bs_budget b
     \<and> bs_limit b' = bs_limit b \<and> pool_ref_for_state dg b' = pool_ref_for_state dg b"

lemma same_budget_policies:
  "same_budget dg b b' \<Longrightarrow> state_from_policies dg policies ref b \<Longrightarrow> state_from_policies dg policies ref b'"
  unfolding same_budget_def state_from_policies_def by (auto simp: list_ex_iff)

lemma books_sound_update:
  assumes sound: "books_sound dg policies states pools"
    and b: "dget states ref = Some b" and p: "dget pools (pool_ref_for_state dg b) = Some p"
    and same: "same_budget dg b b'" and agrees: "allocation_agrees b' a'"
  shows "books_sound dg policies (dput ref b' states)
    (dput (pool_ref_for_state dg b) (p\<lparr>ps_allocations := dput ref a' (ps_allocations p)\<rparr>) pools)"
  (is "books_sound dg policies ?S ?P")
proof -
  note facts = books_soundD [OF sound]
  let ?p = "p\<lparr>ps_allocations := dput ref a' (ps_allocations p)\<rparr>"
  have b': "bs_ref b' = ref" "pool_ref_for_state dg b' = pool_ref_for_state dg b"
    using same facts(5) [OF b] by (simp_all add: same_budget_def)
  have keeps: "dict_ok (ps_allocations q) \<and> ps_ref q = pref" if "dget ?P pref = Some q" for pref q
    using that facts(3,4) p by (auto split: if_splits)
  have states_ok: "bs_ref c = r \<and> state_from_policies dg policies r c
      \<and> (\<exists>q a. dget ?P (pool_ref_for_state dg c) = Some q \<and> dget (ps_allocations q) r = Some a \<and> allocation_agrees c a)"
    if c: "dget ?S r = Some c" for r c
  proof (cases "r = ref")
    case True
    with c have "c = b'" by simp
    with True b' same_budget_policies [OF same] facts(6) [OF b] agrees show ?thesis by simp
  next
    case False
    with c have c: "dget states r = Some c" by simp
    obtain q a where "dget pools (pool_ref_for_state dg c) = Some q" "dget (ps_allocations q) r = Some a"
      "allocation_agrees c a" using books_sound_allocation [OF sound c] by blast
    with False p facts(5,6) [OF c] show ?thesis by auto
  qed
  have owners: "\<exists>c. dget ?S r = Some c \<and> pool_ref_for_state dg c = pref"
    if q: "dget ?P pref = Some q" "dget (ps_allocations q) r = Some a" for pref q r a
  proof (cases "r = ref \<and> pref = pool_ref_for_state dg b")
    case True
    then show ?thesis using b' by simp
  next
    case False
    have "\<exists>q' a'. dget pools pref = Some q' \<and> dget (ps_allocations q') r = Some a'"
      using q False p by (auto split: if_splits)
    then obtain c where c: "dget states r = Some c" "pool_ref_for_state dg c = pref"
      using books_sound_owner [OF sound] by blast
    then have "r \<noteq> ref" using False b by auto
    with c show ?thesis by simp
  qed
  show ?thesis
    unfolding books_sound_def using facts(1,2) keeps states_ok owners by (auto simp del: dget_dput)
qed

lemma books_sound_update_state:
  assumes sound: "books_sound dg policies states pools" and b: "dget states ref = Some b"
    and same: "same_budget dg b b'"
    and "bs_generation b' = bs_generation b" "bs_reserved b' = bs_reserved b"
    and "bs_current b' = bs_current b" "bs_cumulative b' = bs_cumulative b"
  shows "books_sound dg policies (dput ref b' states) pools"
proof -
  obtain p a where p: "dget pools (pool_ref_for_state dg b) = Some p" "dget (ps_allocations p) ref = Some a"
    "allocation_agrees b a" using books_sound_allocation [OF sound b] by blast
  then have "allocation_agrees b' a" using same assms(4-7) by (simp add: allocation_agrees_def same_budget_def)
  from books_sound_update [OF sound b p(1) same this] show ?thesis
    using p by (simp add: dput_same)
qed

lemma update_allocation_eq_Inr:
  "update_allocation p ref f = Inr p' \<longleftrightarrow>
     (\<exists>a. dget (ps_allocations p) ref = Some a \<and> p' = p\<lparr>ps_allocations := dput ref (f a) (ps_allocations p)\<rparr>)"
  unfolding update_allocation_def by (auto split: option.splits)

section \<open>Event identifiers\<close>

text \<open>An event of an operation carries the identifier of its operation, state and transition.\<close>

fun transition_word :: "budget_transition \<Rightarrow> string option" where
  "transition_word ReserveBudget = Some ''reserve''"
| "transition_word CommitBudget = Some ''commit''"
| "transition_word ReleaseBudget = Some ''release''"
| "transition_word ThrottleBudget = Some ''throttle''"
| "transition_word RejectBudget = None"
| "transition_word ReconcileBudget = None"

definition event_shaped :: "budget_event \<Rightarrow> bool" where
  "event_shaped e \<longleftrightarrow>
     (case transition_word (be_transition e) of
        None \<Rightarrow> True | Some w \<Rightarrow> be_id e = operation_event_id (be_operation e) (be_state e) w)"

definition events_shaped :: "(string, budget_event) dict \<Rightarrow> bool" where
  "events_shaped events \<longleftrightarrow> dict_ok events \<and> (\<forall>(i, e) \<in> set events. i = be_id e \<and> event_shaped e)"

lemma events_shaped_dput:
  "events_shaped events \<Longrightarrow> event_shaped e \<Longrightarrow> i = be_id e \<Longrightarrow> events_shaped (dput i e events)"
  unfolding events_shaped_def using set_dput_subset [of i e events] by (auto simp: dict_ok_dput)

lemma events_shapedD:
  assumes "events_shaped events"
  shows "dict_ok events" and "(i, e) \<in> set events \<Longrightarrow> i = be_id e" and "(i, e) \<in> set events \<Longrightarrow> event_shaped e"
  using assms unfolding events_shaped_def by blast+

section \<open>Initialization\<close>

lemma books_sound_insert:
  assumes sound: "books_sound dg policies states pools" and fresh: "dget states ref = None"
    and p: "dget pools pref = Some p \<or> dget pools pref = None \<and> ps_allocations p = [] \<and> ps_ref p = pref"
    and b: "bs_ref b = ref" "state_from_policies dg policies ref b" "pool_ref_for_state dg b = pref"
    and agrees: "allocation_agrees b a"
  shows "books_sound dg policies (dput ref b states)
    (dput pref (p\<lparr>ps_allocations := dput ref a (ps_allocations p)\<rparr>) pools)" (is "books_sound dg policies ?S ?P")
proof -
  note facts = books_soundD [OF sound]
  have p_ok: "dict_ok (ps_allocations p)" "ps_ref p = pref"
    using p facts(3,4) by auto
  have keeps: "dict_ok (ps_allocations q) \<and> ps_ref q = r" if "dget ?P r = Some q" for r q
    using that facts(3,4) p_ok by (auto split: if_splits)
  have states_ok: "bs_ref c = r \<and> state_from_policies dg policies r c
      \<and> (\<exists>q a. dget ?P (pool_ref_for_state dg c) = Some q \<and> dget (ps_allocations q) r = Some a \<and> allocation_agrees c a)"
    if c: "dget ?S r = Some c" for r c
  proof (cases "r = ref")
    case True
    with c b agrees show ?thesis by simp
  next
    case False
    with c have c: "dget states r = Some c" by simp
    obtain q a where "dget pools (pool_ref_for_state dg c) = Some q" "dget (ps_allocations q) r = Some a"
      "allocation_agrees c a" using books_sound_allocation [OF sound c] by blast
    with False p facts(5,6) [OF c] show ?thesis by auto
  qed
  have owners: "\<exists>c. dget ?S r = Some c \<and> pool_ref_for_state dg c = pr"
    if q: "dget ?P pr = Some q" "dget (ps_allocations q) r = Some x" for pr q r x
  proof (cases "r = ref \<and> pr = pref")
    case True
    then show ?thesis using b by simp
  next
    case False
    have "\<exists>q' a'. dget pools pr = Some q' \<and> dget (ps_allocations q') r = Some a'"
      using q False p by (auto split: if_splits)
    then obtain c where c: "dget states r = Some c" "pool_ref_for_state dg c = pr"
      using books_sound_owner [OF sound] by blast
    then have "r \<noteq> ref" using fresh by auto
    with c show ?thesis by simp
  qed
  show ?thesis
    unfolding books_sound_def using facts(1,2) keeps states_ok owners by (auto simp del: dget_dput)
qed

lemma demand_matches_ref:
  assumes "demand_matches d p"
  shows "pool_state_ref dg p = demand_pool_ref dg d"
    and "pool_ref_for_state dg (initial_budget_state policy d p g) = demand_pool_ref dg d"
  using assms
  by (simp_all add: demand_matches_def pool_state_ref_def demand_pool_ref_def pool_ref_for_state_def
      initial_budget_state_def Let_def)

lemma initial_budget_state_simps [simp]:
  "bs_ref (initial_budget_state policy d p g) = demand_state_ref policy d"
  "bs_policy (initial_budget_state policy d p g) = rp_address policy"
  "bs_budget (initial_budget_state policy d p g) = rd_budget d"
  "bs_limit (initial_budget_state policy d p g) = rd_limit d"
  "bs_generation (initial_budget_state policy d p g) = g"
  "bs_reserved (initial_budget_state policy d p g) = 0"
  "bs_current (initial_budget_state policy d p g) = 0"
  "bs_cumulative (initial_budget_state policy d p g) = 0"
  by (simp_all add: initial_budget_state_def demand_state_ref_def Let_def)

text \<open>What one iteration of the initialization does: the budget is there already, or it is added.\<close>

lemma initialize_demand_cases:
  assumes "initialize_demand dg admitted pools s g books (policy, d) = Inr (Inr books')"
  obtains (known) b where "dget (fst books) (demand_state_ref policy d) = Some b" "bs_generation b = g" "books' = books"
  | (added) c p p' where "dget (fst books) (demand_state_ref policy d) = None" "demand_matches d c"
      "dget (snd books) (demand_pool_ref dg d) = Some p
       \<or> dget (snd books) (demand_pool_ref dg d) = None \<and> ps_allocations p = [] \<and> ps_ref p = demand_pool_ref dg d"
      "ensure_allocation p (initial_budget_state policy d c g) (rp_fairness policy) = Inr p'"
      "books' = (dput (demand_state_ref policy d) (initial_budget_state policy d c g) (fst books),
                 dput (demand_pool_ref dg d) p' (snd books))"
proof -
  from assms obtain c where c: "matching_pool admitted pools d = Some c"
    by (auto simp: initialize_demand_def split: option.splits)
  then have match: "demand_matches d c"
    by (auto simp: matching_pool_def find_Some_iff split: if_splits)
  note refs = demand_matches_ref [OF match]
  show thesis
  proof (cases "dget (fst books) (demand_state_ref policy d)")
    case (Some b)
    with assms c have "bs_generation b = g" "books' = books"
      by (auto simp: initialize_demand_def demand_state_ref_def Let_def ebind_eq_Inr split: if_splits)
    with Some show thesis by (rule known)
  next
    case None
    with assms c have new: "initialize_new_budget dg s g books policy d c (demand_state_ref policy d) = Inr (Inr books')"
      by (auto simp: initialize_demand_def demand_state_ref_def Let_def split: if_splits)
    then obtain p where p: "(case dget (snd books) (demand_pool_ref dg d) of
              None \<Rightarrow> new_pool_state dg c
            | Some existing \<Rightarrow> ebind (check_pool_state dg existing) (\<lambda>_. Inr existing)) = Inr p"
      and r: "(case ensure_allocation p (initial_budget_state policy d c g) (rp_fairness policy) of
          Inl PoolConflict \<Rightarrow> Inr (Inl (failed s PoolConflictCode (rp_address policy) []))
        | Inl e \<Rightarrow> Inl e
        | Inr physical' \<Rightarrow> Inr (Inr (dput (demand_state_ref policy d) (initial_budget_state policy d c g) (fst books),
            dput (demand_pool_ref dg d) physical' (snd books)))) = Inr (Inr books')"
      unfolding initialize_new_budget_def new_budget_state_def Let_def ebind_eq_Inr refs(1) by blast
    from r obtain p' where p': "ensure_allocation p (initial_budget_state policy d c g) (rp_fairness policy) = Inr p'"
      "books' = (dput (demand_state_ref policy d) (initial_budget_state policy d c g) (fst books),
                 dput (demand_pool_ref dg d) p' (snd books))"
      by (auto split: sum.splits resource_error.splits)
    have "dget (snd books) (demand_pool_ref dg d) = Some p
       \<or> dget (snd books) (demand_pool_ref dg d) = None \<and> ps_allocations p = [] \<and> ps_ref p = demand_pool_ref dg d"
      using p refs(1) by (auto simp: new_pool_state_def Let_def ebind_eq_Inr split: option.splits)
    with None match p' show thesis by (intro added)
  qed
qed

lemma initialize_demand_sound:
  assumes "initialize_demand dg admitted pools s g books job = Inr (Inr books')"
    and "job \<in> set (policy_jobs policies)" and sound: "books_sound dg policies (fst books) (snd books)"
  shows "books_sound dg policies (fst books') (snd books')"
proof -
  obtain policy d where job: "job = (policy, d)" by (cases job)
  from assms(1) [unfolded job] show ?thesis
  proof (cases rule: initialize_demand_cases)
    case known
    with sound show ?thesis by simp
  next
    case (added c p p')
    let ?b = "initial_budget_state policy d c g"
    let ?ref = "demand_state_ref policy d"
    have "dget (ps_allocations p) ?ref = None"
    proof (rule ccontr)
      assume "dget (ps_allocations p) ?ref \<noteq> None"
      then obtain x where x: "dget (ps_allocations p) ?ref = Some x" by blast
      with added(3) have "dget (snd books) (demand_pool_ref dg d) = Some p" by auto
      with x obtain y where "dget (fst books) ?ref = Some y" using books_sound_owner [OF sound] by blast
      with added(1) show False by simp
    qed
    with added(4) have p': "p' = p\<lparr>ps_allocations := dput ?ref (new_allocation ?b (rp_fairness policy)) (ps_allocations p)\<rparr>"
      by (auto simp: ensure_allocation_def Let_def ebind_eq_Inr)
    have "state_from_policies dg policies ?ref ?b"
      using assms(2) job demand_matches_ref(2) [OF added(2), of dg policy g]
      unfolding state_from_policies_def list_ex_iff by force
    moreover have "allocation_agrees ?b (new_allocation ?b (rp_fairness policy))"
      by (simp add: allocation_agrees_def new_allocation_def)
    ultimately show ?thesis
      using books_sound_insert [OF sound added(1,3)] added(5) p' demand_matches_ref(2) [OF added(2)] by simp
  qed
qed

section \<open>Reservation\<close>

lemma budget_state_check_ok:
  "budget_state_check m d ref = Inr (Inr b) \<longleftrightarrow>
     dget (rv_states m) ref = Some b \<and> check_budget_state b = Inr () \<and> bs_generation b = rv_generation m"
  unfolding budget_state_check_def by (auto simp: ebind_eq_Inr split: option.splits)

lemma pool_state_check_ok:
  "pool_state_check dg m d b requested = Inr (Inr (p, n)) \<longleftrightarrow>
     requested_amount d requested = Inr n \<and> dget (rv_pools m) (pool_ref_for_state dg b) = Some p
     \<and> check_pool_state dg p = Inr ()"
  unfolding pool_state_check_def by (auto simp: ebind_eq_Inr split: option.splits)

lemma capacity_failure_None:
  "capacity_failure dg m d b p ref n = Inr None \<longleftrightarrow>
     used_capacity b + n \<le> min (bs_limit b) (bs_capacity b) \<and> can_reserve p ref n = Inr True"
  unfolding capacity_failure_def by (auto simp: ebind_eq_Inr)

lemma check_reservation_ok:
  assumes "check_reservation dg m requested acc (d, ref) = Inr (Inr checked)"
  obtains b p n where "checked = acc @ [Checked d b p n]" "budget_state_check m d ref = Inr (Inr b)"
    "pool_state_check dg m d b requested = Inr (Inr (p, n))" "capacity_failure dg m d b p ref n = Inr None"
proof -
  from assms obtain b where b: "budget_state_check m d ref = Inr (Inr b)"
    "ebind (pool_state_check dg m d b requested) (\<lambda>r. case r of Inl failure \<Rightarrow> Inr (Inl failure) | Inr (p, amount) \<Rightarrow>
       ebind (capacity_failure dg m d b p ref amount) (\<lambda>r. case r of
           Some failure \<Rightarrow> Inr (Inl failure)
         | None \<Rightarrow> Inr (Inr (acc @ [Checked d b p amount])))) = Inr (Inr checked)"
    unfolding check_reservation_def split_conv ebind_break_Inr by blast
  from b(2) obtain q where q: "pool_state_check dg m d b requested = Inr (Inr q)"
    "(case q of (p, amount) \<Rightarrow> ebind (capacity_failure dg m d b p ref amount) (\<lambda>r. case r of
           Some failure \<Rightarrow> Inr (Inl failure)
         | None \<Rightarrow> Inr (Inr (acc @ [Checked d b p amount])))) = Inr (Inr checked)"
    unfolding ebind_break_Inr by blast
  obtain p n where pn: "q = (p, n)" by (cases q)
  from q(2) pn have "capacity_failure dg m d b p ref n = Inr None" "checked = acc @ [Checked d b p n]"
    by (auto simp: ebind_eq_Inr split: option.splits)
  with b(1) q(1) pn show thesis by (intro that) simp_all
qed

definition check_holds ::
    "(pool_identity \<Rightarrow> string) \<Rightarrow> 'r reservation \<Rightarrow> (string, int) dict option \<Rightarrow> runtime_demand \<times> string \<Rightarrow>
       reservation_check \<Rightarrow> bool" where
  "check_holds dg m requested job c =
     (case (job, c) of ((d, ref), Checked d' b p n) \<Rightarrow> d' = d \<and> dget (rv_states m) ref = Some b
        \<and> bs_generation b = rv_generation m \<and> requested_amount d requested = Inr n
        \<and> dget (rv_pools m) (pool_ref_for_state dg b) = Some p
        \<and> used_capacity b + n \<le> min (bs_limit b) (bs_capacity b) \<and> can_reserve p ref n = Inr True)"

lemma checks_hold:
  "floop (check_reservation dg m requested) acc jobs = Inr (Inr checked) \<Longrightarrow>
     \<exists>cs. checked = acc @ cs \<and> list_all2 (check_holds dg m requested) jobs cs"
proof (induction jobs arbitrary: acc)
  case Nil
  then show ?case by simp
next
  case (Cons job jobs)
  obtain d ref where job: "job = (d, ref)" by (cases job)
  from Cons.prems obtain acc' where acc': "check_reservation dg m requested acc (d, ref) = Inr (Inr acc')"
    "floop (check_reservation dg m requested) acc' jobs = Inr (Inr checked)"
    unfolding floop_Cons_Inr job by blast
  from acc'(1) obtain b p n where first: "acc' = acc @ [Checked d b p n]" "check_holds dg m requested (d, ref) (Checked d b p n)"
    by (rule check_reservation_ok)
      (auto simp: check_holds_def budget_state_check_ok pool_state_check_ok capacity_failure_None)
  from Cons.IH [OF acc'(2)] obtain cs where "checked = acc' @ cs" "list_all2 (check_holds dg m requested) jobs cs" by blast
  with first job show ?case by (intro exI [of _ "Checked d b p n # cs"]) simp
qed

text \<open>Applying the checks: every checked budget and its allocation get the amount, nothing else changes.\<close>

fun check_ref :: "reservation_check \<Rightarrow> string" where
  "check_ref (Checked d b p n) = bs_ref b"

fun check_pool :: "(pool_identity \<Rightarrow> string) \<Rightarrow> reservation_check \<Rightarrow> string" where
  "check_pool dg (Checked d b p n) = pool_ref_for_state dg b"

fun check_ready :: "(pool_identity \<Rightarrow> string) \<Rightarrow> 'r reservation \<Rightarrow> reservation_check \<Rightarrow> bool" where
  "check_ready dg m (Checked d b p n) \<longleftrightarrow>
     dget (rv_states m) (bs_ref b) = Some b \<and> dget (rv_pools m) (pool_ref_for_state dg b) = Some p"

fun check_applied ::
    "(pool_identity \<Rightarrow> string) \<Rightarrow> string \<Rightarrow> (string, budget_state) dict \<Rightarrow> (string, pool_state) dict \<Rightarrow>
       reservation_check \<Rightarrow> bool" where
  "check_applied dg operation states pools (Checked d b p n) \<longleftrightarrow>
     dget states (bs_ref b) = Some (b\<lparr>bs_reserved := bs_reserved b + n,
       bs_last_event := operation_event_id operation (bs_ref b) ''reserve''\<rparr>)
     \<and> (\<exists>a. dget (ps_allocations p) (bs_ref b) = Some a
         \<and> dget pools (pool_ref_for_state dg b) = Some (p\<lparr>ps_allocations :=
              dput (bs_ref b) (a\<lparr>pa_reserved := pa_reserved a + n\<rparr>) (ps_allocations p)\<rparr>))"

lemma apply_reservation_ok:
  assumes "apply_reservation m (Checked d b p n) = Inr m'"
  obtains a e where "dget (ps_allocations p) (bs_ref b) = Some a"
    "e = reservation_event m (rd_budget d) b (operation_event_id (rv_operation m) (bs_ref b) ''reserve'')
       ReserveBudget ReservedUse n"
    "m' = m\<lparr>rv_states := dput (bs_ref b) (b\<lparr>bs_reserved := bs_reserved b + n,
              bs_last_event := operation_event_id (rv_operation m) (bs_ref b) ''reserve''\<rparr>) (rv_states m),
            rv_pools := dput (ps_ref p) (p\<lparr>ps_allocations := dput (bs_ref b) (a\<lparr>pa_reserved := pa_reserved a + n\<rparr>)
              (ps_allocations p)\<rparr>) (rv_pools m),
            rv_events := dput (operation_event_id (rv_operation m) (bs_ref b) ''reserve'') e (rv_events m)\<rparr>"
  using assms
  by (auto simp: apply_reservation_def make_budget_event_def ledger_reserve_def update_allocation_eq_Inr
      ebind_eq_Inr Let_def)

lemma same_budget_simps [simp]:
  "same_budget dg b (b\<lparr>bs_reserved := x, bs_last_event := y\<rparr>)"
  "same_budget dg b (b\<lparr>bs_throttled := x, bs_last_event := y\<rparr>)"
  "same_budget dg b (committed_state b r n y ev)"
  "same_budget dg b (released_state b r y ev)"
  "same_budget dg b (reconciled_state b g c y ev)"
  by (simp_all add: same_budget_def pool_ref_for_state_def committed_state_def released_state_def reconciled_state_def)

lemma apply_reservation_step:
  assumes step: "apply_reservation m c = Inr m'" and ready: "check_ready dg m c"
    and sound: "books_sound dg policies (rv_states m) (rv_pools m)"
  shows "books_sound dg policies (rv_states m') (rv_pools m')"
    and "check_applied dg (rv_operation m) (rv_states m') (rv_pools m') c"
    and "r \<noteq> check_ref c \<Longrightarrow> dget (rv_states m') r = dget (rv_states m) r"
    and "q \<noteq> check_pool dg c \<Longrightarrow> dget (rv_pools m') q = dget (rv_pools m) q"
    and "prefix (dkeys (rv_events m)) (dkeys (rv_events m'))"
    and "rv_snapshot m' = rv_snapshot m" "rv_operation m' = rv_operation m"
proof -
  obtain d b p n where c: "c = Checked d b p n" by (cases c)
  from ready c have b: "dget (rv_states m) (bs_ref b) = Some b"
    and p: "dget (rv_pools m) (pool_ref_for_state dg b) = Some p" by simp_all
  have ref: "ps_ref p = pool_ref_for_state dg b"
    using books_soundD(4) [OF sound p] .
  from step c obtain a e where a: "dget (ps_allocations p) (bs_ref b) = Some a"
    and m': "m' = m\<lparr>rv_states := dput (bs_ref b) (b\<lparr>bs_reserved := bs_reserved b + n,
              bs_last_event := operation_event_id (rv_operation m) (bs_ref b) ''reserve''\<rparr>) (rv_states m),
            rv_pools := dput (ps_ref p) (p\<lparr>ps_allocations := dput (bs_ref b) (a\<lparr>pa_reserved := pa_reserved a + n\<rparr>)
              (ps_allocations p)\<rparr>) (rv_pools m),
            rv_events := dput (operation_event_id (rv_operation m) (bs_ref b) ''reserve'') e (rv_events m)\<rparr>"
    using apply_reservation_ok by metis
  have "allocation_agrees b a"
    using books_sound_allocation [OF sound b] p a by (metis option.inject)
  then have "allocation_agrees (b\<lparr>bs_reserved := bs_reserved b + n,
      bs_last_event := operation_event_id (rv_operation m) (bs_ref b) ''reserve''\<rparr>) (a\<lparr>pa_reserved := pa_reserved a + n\<rparr>)"
    by (simp add: allocation_agrees_def)
  from books_sound_update [OF sound b p _ this] show "books_sound dg policies (rv_states m') (rv_pools m')"
    by (simp add: m' ref)
  show "check_applied dg (rv_operation m) (rv_states m') (rv_pools m') c"
    using a by (simp add: c m' ref)
  show "dget (rv_states m') r = dget (rv_states m) r" if "r \<noteq> check_ref c"
    using that by (simp add: c m')
  show "dget (rv_pools m') q = dget (rv_pools m) q" if "q \<noteq> check_pool dg c"
    using that by (simp add: c m' ref)
  show "prefix (dkeys (rv_events m)) (dkeys (rv_events m'))" by (simp add: m' prefix_dkeys_dput)
  show "rv_snapshot m' = rv_snapshot m" "rv_operation m' = rv_operation m" by (simp_all add: m')
qed

lemma check_ready_frame:
  assumes "check_ready dg m c" "check_ready dg m c'" "check_pool dg c' \<noteq> check_pool dg c"
    and "\<And>r. r \<noteq> check_ref c \<Longrightarrow> dget (rv_states m') r = dget (rv_states m) r"
    and "\<And>q. q \<noteq> check_pool dg c \<Longrightarrow> dget (rv_pools m') q = dget (rv_pools m) q"
  shows "check_ready dg m' c' \<and> check_ref c' \<noteq> check_ref c"
proof -
  obtain d b p n where c: "c = Checked d b p n" by (cases c)
  obtain d' b' p' n' where c': "c' = Checked d' b' p' n'" by (cases c')
  have "bs_ref b' \<noteq> bs_ref b" using assms(1-3) c c' by auto
  with assms(2-5) c c' show ?thesis by simp
qed

lemma check_applied_frame:
  assumes "check_applied dg op states pools c"
    and "dget states' (check_ref c) = dget states (check_ref c)"
    and "dget pools' (check_pool dg c) = dget pools (check_pool dg c)"
  shows "check_applied dg op states' pools' c"
  using assms by (cases c) auto

lemma apply_all:
  assumes "efold apply_reservation m cs = Inr m'" and "list_all (check_ready dg m) cs"
    and "distinct (map (check_pool dg) cs)" and "books_sound dg policies (rv_states m) (rv_pools m)"
  shows "books_sound dg policies (rv_states m') (rv_pools m')
    \<and> list_all (check_applied dg (rv_operation m) (rv_states m') (rv_pools m')) cs
    \<and> (\<forall>r. r \<notin> check_ref ` set cs \<longrightarrow> dget (rv_states m') r = dget (rv_states m) r)
    \<and> (\<forall>q. q \<notin> check_pool dg ` set cs \<longrightarrow> dget (rv_pools m') q = dget (rv_pools m) q)
    \<and> prefix (dkeys (rv_events m)) (dkeys (rv_events m')) \<and> rv_snapshot m' = rv_snapshot m"
  using assms
proof (induction cs arbitrary: m)
  case Nil
  then show ?case by simp
next
  case (Cons c cs)
  from Cons.prems(1) obtain t where t: "apply_reservation m c = Inr t" "efold apply_reservation t cs = Inr m'"
    by (auto simp: ebind_eq_Inr)
  have ready: "check_ready dg m c" using Cons.prems(2) by simp
  note first = apply_reservation_step [OF t(1) ready Cons.prems(4)]
  have others: "check_ready dg m c'" "check_pool dg c' \<noteq> check_pool dg c" if "c' \<in> set cs" for c'
    using Cons.prems(2,3) that by (auto simp: list_all_iff) (metis image_eqI)
  have rest: "check_ready dg t c'" "check_ref c' \<noteq> check_ref c" if "c' \<in> set cs" for c'
    using check_ready_frame [OF ready others [OF that] first(3,4)] by simp_all
  have "list_all (check_ready dg t) cs" using rest(1) by (simp add: list_all_iff)
  moreover have "distinct (map (check_pool dg) cs)" using Cons.prems(3) by simp
  ultimately have IH: "books_sound dg policies (rv_states m') (rv_pools m')"
    "list_all (check_applied dg (rv_operation t) (rv_states m') (rv_pools m')) cs"
    "\<And>r. r \<notin> check_ref ` set cs \<Longrightarrow> dget (rv_states m') r = dget (rv_states t) r"
    "\<And>q. q \<notin> check_pool dg ` set cs \<Longrightarrow> dget (rv_pools m') q = dget (rv_pools t) q"
    "prefix (dkeys (rv_events t)) (dkeys (rv_events m'))" "rv_snapshot m' = rv_snapshot t"
    using Cons.IH [OF t(2) _ _ first(1)] by blast+
  have apart: "check_ref c \<notin> check_ref ` set cs" "check_pool dg c \<notin> check_pool dg ` set cs"
    using rest(2) others(2) by (metis imageE)+
  have "check_applied dg (rv_operation m) (rv_states m') (rv_pools m') c"
    using IH(3) [OF apart(1)] IH(4) [OF apart(2)] by (rule check_applied_frame [OF first(2)])
  then have "list_all (check_applied dg (rv_operation m) (rv_states m') (rv_pools m')) (c # cs)"
    using IH(2) first(7) by simp
  moreover have "dget (rv_states m') r = dget (rv_states m) r" if "r \<notin> check_ref ` set (c # cs)" for r
    using IH(3) [of r] first(3) [of r] that by simp
  moreover have "dget (rv_pools m') q = dget (rv_pools m) q" if "q \<notin> check_pool dg ` set (c # cs)" for q
    using IH(4) [of q] first(4) [of q] that by simp
  moreover have "prefix (dkeys (rv_events m)) (dkeys (rv_events m'))"
    using first(5) IH(5) by (rule prefix_order.trans)
  moreover have "rv_snapshot m' = rv_snapshot m" using IH(6) first(6) by simp
  ultimately show ?case using IH(1) by blast
qed

definition budget_ok :: "(pool_identity \<Rightarrow> string) \<Rightarrow> runtime_policy list \<Rightarrow> 'r resource_snapshot \<Rightarrow> bool" where
  "budget_ok dg policies s \<longleftrightarrow>
     separate_policies dg policies \<and> snapshot_valid dg s \<and> events_shaped (budget_events s)
     \<and> books_sound dg policies (budget_states s) (pool_states s)"

lemma budget_okD:
  assumes "budget_ok dg policies s"
  shows "separate_policies dg policies" "snapshot_valid dg s" "events_shaped (budget_events s)"
    "books_sound dg policies (budget_states s) (pool_states s)"
  using assms by (simp_all add: budget_ok_def)

lemma policy_jobs_iff: "(policy, d) \<in> set (policy_jobs policies) \<longleftrightarrow> policy \<in> set policies \<and> d \<in> set (rp_demands policy)"
  by (auto simp: policy_jobs_def)

lemma policy_state_pool:
  assumes sep: "separate_policies dg policies" and job: "(policy, d) \<in> set (policy_jobs policies)"
    and b: "state_from_policies dg policies (demand_state_ref policy d) b"
  shows "pool_ref_for_state dg b = demand_pool_ref dg d" "bs_policy b = rp_address policy"
    "bs_budget b = rd_budget d" "bs_limit b = rd_limit d"
proof -
  from b obtain policy' d' where job': "(policy', d') \<in> set (policy_jobs policies)"
    and eq: "demand_state_ref policy d = demand_state_ref policy' d'" and facts: "bs_policy b = rp_address policy'"
      "bs_budget b = rd_budget d'" "pool_ref_for_state dg b = demand_pool_ref dg d'" "bs_limit b = rd_limit d'"
    unfolding state_from_policies_def list_ex_iff by auto
  have "inj_on (\<lambda>(policy, d). demand_state_ref policy d) (set (policy_jobs policies))"
    using sep by (simp add: separate_policies_def distinct_map)
  from inj_onD [OF this _ job job'] eq have "policy' = policy \<and> d' = d" by simp
  with facts show "pool_ref_for_state dg b = demand_pool_ref dg d" "bs_policy b = rp_address policy"
    "bs_budget b = rd_budget d" "bs_limit b = rd_limit d" by simp_all
qed

definition reservation_of ::
    "'r resource_snapshot \<Rightarrow> runtime_policy \<Rightarrow> string \<Rightarrow> int \<Rightarrow> 'r reservation" where
  "reservation_of s policy operation generation =
     \<lparr>rv_snapshot = s, rv_policy = policy, rv_operation = operation, rv_generation = generation,
      rv_states = budget_states s, rv_pools = pool_states s, rv_events = budget_events s\<rparr>"

lemma reservation_of_simps [simp]:
  "rv_snapshot (reservation_of s p op g) = s" "rv_policy (reservation_of s p op g) = p"
  "rv_operation (reservation_of s p op g) = op" "rv_generation (reservation_of s p op g) = g"
  "rv_states (reservation_of s p op g) = budget_states s" "rv_pools (reservation_of s p op g) = pool_states s"
  "rv_events (reservation_of s p op g) = budget_events s"
  by (simp_all add: reservation_of_def)

definition reserve_event_ids :: "runtime_policy \<Rightarrow> string \<Rightarrow> string list" where
  "reserve_event_ids policy operation =
     map (\<lambda>d. operation_event_id operation (demand_state_ref policy d) ''reserve'') (rp_demands policy)"

definition reservation_repeated :: "'r resource_snapshot \<Rightarrow> runtime_policy \<Rightarrow> string \<Rightarrow> bool" where
  "reservation_repeated s policy operation \<longleftrightarrow>
     rp_demands policy \<noteq> [] \<and> set (reserve_event_ids policy operation) \<subseteq> set (dkeys (budget_events s))"

lemma reserve_unfold:
  "reserve_participant_resources dg s policy operation generation requested =
     (if reservation_repeated s policy operation then Inr (succeeded s)
      else ebind (floop (check_reservation dg (reservation_of s policy operation generation) requested) []
          (map (\<lambda>d. (d, demand_state_ref policy d)) (rp_demands policy))) (\<lambda>r. case r of
             Inl failure \<Rightarrow> Inr failure
           | Inr checked \<Rightarrow>
               ebind (efold apply_reservation (reservation_of s policy operation generation) checked) (\<lambda>m'.
               ebind (with_resources dg (rv_snapshot m') (rv_states m') (rv_pools m') (rv_events m')) (\<lambda>s'.
                 Inr (succeeded s')))))"
proof -
  have ids: "map (\<lambda>ref. operation_event_id operation ref ''reserve'')
      (map (\<lambda>d. participant_resource_budget_state_ref (rp_address policy) (rd_budget d)) (rp_demands policy))
      = reserve_event_ids policy operation"
    by (simp add: reserve_event_ids_def demand_state_ref_def)
  have zips: "zip (rp_demands policy)
      (map (\<lambda>d. participant_resource_budget_state_ref (rp_address policy) (rd_budget d)) (rp_demands policy))
      = map (\<lambda>d. (d, demand_state_ref policy d)) (rp_demands policy)"
    by (simp add: zip_map2 zip_same_conv_map demand_state_ref_def)
  have "(reserve_event_ids policy operation \<noteq> []
      \<and> list_all (\<lambda>i. i \<in> set (dkeys (budget_events s))) (reserve_event_ids policy operation))
      = reservation_repeated s policy operation"
    unfolding reservation_repeated_def by (auto simp: reserve_event_ids_def list_all_iff)
  then show ?thesis
    unfolding reserve_participant_resources_def Let_def ids zips reservation_of_def [symmetric] by simp
qed

text \<open>
  A refusal leaves the snapshot as it is, or records one throttling: the counter of the budget
  that has no room, and its event.
\<close>

definition only_throttled ::
    "(pool_identity \<Rightarrow> string) \<Rightarrow> string \<Rightarrow> 'r resource_snapshot \<Rightarrow> 'r resource_snapshot \<Rightarrow> bool" where
  "only_throttled dg operation s s' \<longleftrightarrow>
     (\<exists>ref b e. dget (budget_states s) ref = Some b
        \<and> be_id e = operation_event_id operation ref ''throttle'' \<and> be_operation e = operation \<and> be_state e = ref
        \<and> be_transition e = ThrottleBudget \<and> be_predecessor e = Some (bs_last_event b)
        \<and> s' = s\<lparr>budget_states := dput ref (b\<lparr>bs_throttled := bs_throttled b + 1, bs_last_event := be_id e\<rparr>) (budget_states s),
                 budget_events := dput (be_id e) e (budget_events s)\<rparr>
        \<and> snapshot_valid dg s')"

definition reservation_refused ::
    "(pool_identity \<Rightarrow> string) \<Rightarrow> string \<Rightarrow> 'r resource_snapshot \<Rightarrow> 'r apply_result \<Rightarrow> bool" where
  "reservation_refused dg operation s r \<longleftrightarrow>
     \<not> result_success r \<and> (result_snapshot r = s \<or> only_throttled dg operation s (result_snapshot r))"

lemma failed_simps [simp]:
  "result_success (failed s code policy subject) = False" "result_snapshot (failed s code policy subject) = s"
  "result_success (succeeded s) = True" "result_snapshot (succeeded s) = s"
  by (simp_all add: failed_def succeeded_def)

lemma ebind_break_Inl:
  "ebind m (\<lambda>r. case r of Inl stop \<Rightarrow> Inr (Inl stop) | Inr x \<Rightarrow> g x) = Inr (Inl y)
     \<longleftrightarrow> m = Inr (Inl y) \<or> (\<exists>x. m = Inr (Inr x) \<and> g x = Inr (Inl y))"
proof (cases m)
  case (Inr v)
  then show ?thesis by (cases v) auto
qed simp

lemma throttled_result_refused:
  assumes "throttled_result dg m d b n = Inr r"
    and "dget (budget_states (rv_snapshot m)) (bs_ref b) = Some b"
    and "rv_states m = budget_states (rv_snapshot m)" "rv_pools m = pool_states (rv_snapshot m)"
    and "rv_events m = budget_events (rv_snapshot m)"
  shows "reservation_refused dg (rv_operation m) (rv_snapshot m) r"
proof -
  let ?s = "rv_snapshot m"
  let ?id = "operation_event_id (rv_operation m) (bs_ref b) ''throttle''"
  let ?e = "reservation_event m (rd_budget d) b ?id ThrottleBudget ThrottledUse n"
  let ?states = "dput (bs_ref b) (b\<lparr>bs_throttled := bs_throttled b + 1, bs_last_event := ?id\<rparr>) (rv_states m)"
  from assms(1) obtain s' where s': "with_resources dg ?s ?states (rv_pools m) (dput ?id ?e (rv_events m)) = Inr s'"
    and r: "r = failed s' Throttled (rp_address (rv_policy m)) (rd_budget d)"
    unfolding throttled_result_def Let_def make_budget_event_def by (auto simp: ebind_eq_Inr)
  from s' have valid: "require_participant_resource_budget_snapshot dg ?states (rv_pools m)
      (dput ?id ?e (rv_events m)) = Inr ()"
    and eq: "s' = ?s\<lparr>budget_states := ?states, pool_states := rv_pools m, budget_events := dput ?id ?e (rv_events m)\<rparr>"
    unfolding with_resources_eq_Inr by blast+
  have e: "be_id ?e = ?id" "be_operation ?e = rv_operation m" "be_state ?e = bs_ref b"
    "be_transition ?e = ThrottleBudget" "be_predecessor ?e = Some (bs_last_event b)"
    by (simp_all add: reservation_event_def)
  have "only_throttled dg (rv_operation m) ?s s'"
    unfolding only_throttled_def
  proof (intro exI conjI)
    show "dget (budget_states ?s) (bs_ref b) = Some b" by fact
    show "be_id ?e = ?id" "be_operation ?e = rv_operation m" "be_state ?e = bs_ref b"
      "be_transition ?e = ThrottleBudget" "be_predecessor ?e = Some (bs_last_event b)" by (fact e)+
    show "s' = ?s\<lparr>budget_states := dput (bs_ref b) (b\<lparr>bs_throttled := bs_throttled b + 1,
        bs_last_event := be_id ?e\<rparr>) (budget_states ?s), budget_events := dput (be_id ?e) ?e (budget_events ?s)\<rparr>"
      using eq assms(3-5) e(1) by simp
    show "snapshot_valid dg s'"
      unfolding snapshot_valid_def using valid by (simp add: eq)
  qed
  then show ?thesis by (simp add: reservation_refused_def r)
qed

lemma check_reservation_refused:
  assumes "check_reservation dg (reservation_of s policy operation generation) requested acc (d, ref) = Inr (Inl r)"
    and "snapshot_valid dg s"
  shows "reservation_refused dg operation s r"
proof -
  let ?m = "reservation_of s policy operation generation"
  have same: "reservation_refused dg operation s (failed s code p q)" for code p q
    by (simp add: reservation_refused_def)
  from assms(1) consider
      "budget_state_check ?m d ref = Inr (Inl r)"
    | b where "budget_state_check ?m d ref = Inr (Inr b)" "pool_state_check dg ?m d b requested = Inr (Inl r)"
    | b p n where "budget_state_check ?m d ref = Inr (Inr b)" "capacity_failure dg ?m d b p ref n = Inr (Some r)"
    unfolding check_reservation_def split_conv ebind_break_Inl
    by (auto simp: ebind_eq_Inr split: option.splits)
  then show ?thesis
  proof cases
    case 1
    then show ?thesis using same
      by (auto simp: budget_state_check_def ebind_eq_Inr split: option.splits if_splits)
  next
    case 2
    then show ?thesis using same
      by (auto simp: pool_state_check_def ebind_eq_Inr split: option.splits)
  next
    case 3
    then have b: "dget (budget_states s) ref = Some b" by (simp add: budget_state_check_ok)
    with valid_state(2) [OF assms(2)] have "dget (budget_states s) (bs_ref b) = Some b" by metis
    moreover from 3(2) have "throttled_result dg ?m d b n = Inr r"
      by (auto simp: capacity_failure_def ebind_eq_Inr split: if_splits)
    ultimately show ?thesis using throttled_result_refused [of dg ?m d b n r] by simp
  qed
qed

lemma reservation_loop_refused:
  assumes "floop (check_reservation dg (reservation_of s policy operation generation) requested) acc jobs = Inr (Inl r)"
    and "snapshot_valid dg s"
  shows "reservation_refused dg operation s r"
  using assms(1)
proof (rule floop_break [where P = "\<lambda>_. True"])
  fix acc job
  assume "check_reservation dg (reservation_of s policy operation generation) requested acc job = Inr (Inl r)"
  then show "reservation_refused dg operation s r"
    using check_reservation_refused [OF _ assms(2)] by (cases job) blast
qed simp_all

text \<open>The checks of a policy's demands, and what holds when they are applied.\<close>

fun demand_checked ::
    "(pool_identity \<Rightarrow> string) \<Rightarrow> 'r resource_snapshot \<Rightarrow> runtime_policy \<Rightarrow> int \<Rightarrow> (string, int) dict option \<Rightarrow>
       runtime_demand \<Rightarrow> reservation_check \<Rightarrow> bool" where
  "demand_checked dg s policy generation requested d (Checked d' b p n) \<longleftrightarrow>
     d' = d \<and> dget (budget_states s) (demand_state_ref policy d) = Some b
     \<and> bs_generation b = generation \<and> requested_amount d requested = Inr n
     \<and> dget (pool_states s) (demand_pool_ref dg d) = Some p \<and> pool_ref_for_state dg b = demand_pool_ref dg d
     \<and> bs_ref b = demand_state_ref policy d
     \<and> used_capacity b + n \<le> min (bs_limit b) (bs_capacity b)
     \<and> can_reserve p (demand_state_ref policy d) n = Inr True"

definition checks_of ::
    "(pool_identity \<Rightarrow> string) \<Rightarrow> 'r resource_snapshot \<Rightarrow> runtime_policy \<Rightarrow> int \<Rightarrow> (string, int) dict option \<Rightarrow>
       reservation_check list \<Rightarrow> bool" where
  "checks_of dg s policy generation requested cs \<longleftrightarrow>
     list_all2 (demand_checked dg s policy generation requested) (rp_demands policy) cs"

definition reservation_made ::
    "(pool_identity \<Rightarrow> string) \<Rightarrow> string \<Rightarrow> 'r resource_snapshot \<Rightarrow> 'r resource_snapshot \<Rightarrow> reservation_check list \<Rightarrow> bool" where
  "reservation_made dg operation s s' cs \<longleftrightarrow>
     list_all (check_applied dg operation (budget_states s') (pool_states s')) cs
     \<and> (\<forall>r. r \<notin> check_ref ` set cs \<longrightarrow> dget (budget_states s') r = dget (budget_states s) r)
     \<and> (\<forall>q. q \<notin> check_pool dg ` set cs \<longrightarrow> dget (pool_states s') q = dget (pool_states s) q)
     \<and> prefix (dkeys (budget_events s)) (dkeys (budget_events s'))
     \<and> resource_rest s' = resource_rest s"

text \<open>The events that the application of the checks records.\<close>

fun check_id :: "string \<Rightarrow> reservation_check \<Rightarrow> string" where
  "check_id operation (Checked d b p n) = operation_event_id operation (bs_ref b) ''reserve''"

fun check_event :: "'r reservation \<Rightarrow> reservation_check \<Rightarrow> budget_event" where
  "check_event m (Checked d b p n) =
     reservation_event m (rd_budget d) b (operation_event_id (rv_operation m) (bs_ref b) ''reserve'')
       ReserveBudget ReservedUse n"

lemma apply_events:
  "efold apply_reservation m cs = Inr m' \<Longrightarrow>
     rv_events m' = foldl (\<lambda>ev c. dput (check_id (rv_operation m) c) (check_event m c) ev) (rv_events m) cs"
proof (induction cs arbitrary: m)
  case Nil
  then show ?case by simp
next
  case (Cons c cs)
  from Cons.prems obtain t where t: "apply_reservation m c = Inr t" "efold apply_reservation t cs = Inr m'"
    by (auto simp: ebind_eq_Inr)
  have "rv_operation t = rv_operation m \<and> check_event t = check_event m
      \<and> rv_events t = dput (check_id (rv_operation m) c) (check_event m c) (rv_events m)"
  proof (cases c)
    case (Checked d b p n)
    from t(1) [unfolded Checked] show ?thesis
    proof (rule apply_reservation_ok)
      fix a e
      assume t: "t = m\<lparr>rv_states := dput (bs_ref b) (b\<lparr>bs_reserved := bs_reserved b + n,
              bs_last_event := operation_event_id (rv_operation m) (bs_ref b) ''reserve''\<rparr>) (rv_states m),
            rv_pools := dput (ps_ref p) (p\<lparr>ps_allocations := dput (bs_ref b) (a\<lparr>pa_reserved := pa_reserved a + n\<rparr>)
              (ps_allocations p)\<rparr>) (rv_pools m),
            rv_events := dput (operation_event_id (rv_operation m) (bs_ref b) ''reserve'') e (rv_events m)\<rparr>"
        and e: "e = reservation_event m (rd_budget d) b (operation_event_id (rv_operation m) (bs_ref b) ''reserve'')
       ReserveBudget ReservedUse n"
      have "check_event t c' = check_event m c'" for c'
        by (cases c') (simp add: t reservation_event_def)
      then show ?thesis using e by (auto simp: t Checked)
    qed
  qed
  with Cons.IH [OF t(2)] show ?case by simp
qed

lemma checks_of_loop:
  assumes ok: "budget_ok dg policies s" and policy: "policy \<in> set policies"
    and checks: "list_all2 (check_holds dg (reservation_of s policy operation generation) requested)
      (map (\<lambda>d. (d, demand_state_ref policy d)) (rp_demands policy)) cs"
  shows "checks_of dg s policy generation requested cs"
proof -
  have "demand_checked dg s policy generation requested d c"
    if d: "d \<in> set (rp_demands policy)"
      and holds: "check_holds dg (reservation_of s policy operation generation) requested (d, demand_state_ref policy d) c" for d c
  proof -
    obtain d' b p n where c: "c = Checked d' b p n" by (cases c)
    with holds have b: "dget (budget_states s) (demand_state_ref policy d) = Some b" by (simp add: check_holds_def)
    note sound = budget_okD(4) [OF ok]
    have "pool_ref_for_state dg b = demand_pool_ref dg d"
      using policy_state_pool(1) [OF budget_okD(1) [OF ok] _ books_soundD(6) [OF sound b]] policy d
      by (simp add: policy_jobs_iff)
    with holds c books_soundD(5) [OF sound b] show ?thesis by (simp add: check_holds_def)
  qed
  then show ?thesis
    using checks unfolding checks_of_def list_all2_map1 by (rule list.rel_mono_strong [rotated])
qed

lemma checks_of_ready:
  assumes "checks_of dg s policy generation requested cs"
  shows "list_all (check_ready dg (reservation_of s policy operation generation)) cs"
    and "map (check_pool dg) cs = map (demand_pool_ref dg) (rp_demands policy)"
    and "map check_ref cs = map (demand_state_ref policy) (rp_demands policy)"
proof -
  have *: "list_all (check_ready dg (reservation_of s policy operation generation)) cs
    \<and> map (check_pool dg) cs = map (demand_pool_ref dg) ds \<and> map check_ref cs = map (demand_state_ref policy) ds"
    if "list_all2 (demand_checked dg s policy generation requested) ds cs" for ds
    using that
  proof (induction rule: list_all2_induct)
    case (Cons d ds c cs)
    then show ?case by (cases c) auto
  qed simp
  from * [OF assms [unfolded checks_of_def]]
  show "list_all (check_ready dg (reservation_of s policy operation generation)) cs"
    "map (check_pool dg) cs = map (demand_pool_ref dg) (rp_demands policy)"
    "map check_ref cs = map (demand_state_ref policy) (rp_demands policy)" by blast+
qed

lemma reserve_cases:
  assumes run: "reserve_participant_resources dg s policy operation generation requested = Inr r"
    and ok: "budget_ok dg policies s" and policy: "policy \<in> set policies"
  obtains (repeated) "reservation_repeated s policy operation" "r = succeeded s"
  | (reserved) cs s' where "\<not> reservation_repeated s policy operation" "r = succeeded s'" "budget_ok dg policies s'"
      "checks_of dg s policy generation requested cs" "reservation_made dg operation s s' cs"
      "budget_events s' = foldl (\<lambda>ev c. dput (check_id operation c)
         (check_event (reservation_of s policy operation generation) c) ev) (budget_events s) cs"
  | (refused) "\<not> reservation_repeated s policy operation" "reservation_refused dg operation s r"
proof (cases "reservation_repeated s policy operation")
  case True
  with run have "r = succeeded s" by (simp add: reserve_unfold)
  with True show thesis by (rule repeated)
next
  case False
  let ?m = "reservation_of s policy operation generation"
  let ?jobs = "map (\<lambda>d. (d, demand_state_ref policy d)) (rp_demands policy)"
  from run False obtain v where v: "floop (check_reservation dg ?m requested) [] ?jobs = Inr v"
    and rest: "(case v of Inl failure \<Rightarrow> Inr failure
       | Inr checked \<Rightarrow> ebind (efold apply_reservation ?m checked) (\<lambda>m'.
           ebind (with_resources dg (rv_snapshot m') (rv_states m') (rv_pools m') (rv_events m')) (\<lambda>s'.
             Inr (succeeded s')))) = Inr r"
    by (auto simp: reserve_unfold ebind_eq_Inr)
  show thesis
  proof (cases v)
    case (Inl failure)
    with rest v have "floop (check_reservation dg ?m requested) [] ?jobs = Inr (Inl r)" by simp
    from reservation_loop_refused [OF this budget_okD(2) [OF ok]] False show thesis by (intro refused)
  next
    case (Inr cs)
    from checks_hold [OF v [unfolded Inr]] have "list_all2 (check_holds dg ?m requested) ?jobs cs" by auto
    from checks_of_loop [OF ok policy this] have cs: "checks_of dg s policy generation requested cs" .
    from rest Inr obtain m' where m': "efold apply_reservation ?m cs = Inr m'"
      and stored: "ebind (with_resources dg (rv_snapshot m') (rv_states m') (rv_pools m') (rv_events m')) (\<lambda>s'.
             Inr (succeeded s')) = Inr r" by (auto simp: ebind_eq_Inr)
    have "distinct (map (check_pool dg) cs)"
      using budget_okD(1) [OF ok] policy checks_of_ready(2) [OF cs]
      by (simp add: separate_policies_def list_all_iff)
    note all = apply_all [OF m' checks_of_ready(1) [OF cs] this, of policies]
    have sound: "books_sound dg policies (rv_states ?m) (rv_pools ?m)"
      using budget_okD(4) [OF ok] by simp
    from stored obtain s' where s': "r = succeeded s'"
      "require_participant_resource_budget_snapshot dg (rv_states m') (rv_pools m') (rv_events m') = Inr ()"
      "s' = (rv_snapshot m')\<lparr>budget_states := rv_states m', pool_states := rv_pools m', budget_events := rv_events m'\<rparr>"
      by (auto simp: ebind_eq_Inr with_resources_eq_Inr)
    have made: "reservation_made dg operation s s' cs"
      unfolding reservation_made_def using all [OF sound] by (simp add: s'(3))
    have events: "events_shaped (rv_events m')"
    proof (rule efold_invariant [OF m', where P = "\<lambda>m. events_shaped (rv_events m)"])
      show "events_shaped (rv_events ?m)" using budget_okD(3) [OF ok] by simp
      show "events_shaped (rv_events u)" if "events_shaped (rv_events t)" "apply_reservation t c = Inr u" for t c u
      proof (cases c)
        case (Checked d b p n)
        with that show ?thesis
          by (auto elim!: apply_reservation_ok intro!: events_shaped_dput simp: event_shaped_def reservation_event_def)
      qed
    qed
    have "budget_ok dg policies s'"
      unfolding budget_ok_def snapshot_valid_def
      using budget_okD(1) [OF ok] s'(2) events all [OF sound] by (simp add: s'(3))
    moreover have "budget_events s' = foldl (\<lambda>ev c. dput (check_id operation c) (check_event ?m c) ev) (budget_events s) cs"
      using apply_events [OF m'] by (simp add: s'(3))
    ultimately show thesis using False s'(1) cs made by (intro reserved)
  qed
qed

lemma only_throttled_ok:
  assumes ok: "budget_ok dg policies s" and thr: "only_throttled dg operation s s'"
  shows "budget_ok dg policies s'" and "prefix (dkeys (budget_events s)) (dkeys (budget_events s'))"
    and "pool_states s' = pool_states s"
    and "map_option bs_reserved (dget (budget_states s') r) = map_option bs_reserved (dget (budget_states s) r)"
proof -
  from thr obtain ref b e where b: "dget (budget_states s) ref = Some b" and valid: "snapshot_valid dg s'"
    and e: "be_id e = operation_event_id operation ref ''throttle''" "be_operation e = operation" "be_state e = ref"
      "be_transition e = ThrottleBudget"
    and s': "s' = s\<lparr>budget_states := dput ref (b\<lparr>bs_throttled := bs_throttled b + 1, bs_last_event := be_id e\<rparr>) (budget_states s),
       budget_events := dput (be_id e) e (budget_events s)\<rparr>"
    unfolding only_throttled_def by blast
  have "books_sound dg policies (budget_states s') (pool_states s')"
    using books_sound_update_state [OF budget_okD(4) [OF ok] b] by (simp add: s')
  moreover have "events_shaped (budget_events s')"
    using events_shaped_dput [OF budget_okD(3) [OF ok], of e "be_id e"] e by (simp add: s' event_shaped_def)
  ultimately show "budget_ok dg policies s'"
    using budget_okD(1) [OF ok] valid by (simp add: budget_ok_def)
  show "prefix (dkeys (budget_events s)) (dkeys (budget_events s'))" by (simp add: s' prefix_dkeys_dput)
  show "pool_states s' = pool_states s" by (simp add: s')
  show "map_option bs_reserved (dget (budget_states s') r) = map_option bs_reserved (dget (budget_states s) r)"
    by (simp add: s' b)
qed

section \<open>Commit, release and reconciliation\<close>

definition books_ok :: "(pool_identity \<Rightarrow> string) \<Rightarrow> runtime_policy list \<Rightarrow> resource_books \<Rightarrow> bool" where
  "books_ok dg policies books \<longleftrightarrow>
     books_sound dg policies (rb_states books) (rb_pools books) \<and> events_shaped (rb_events books)"

lemma books_of_simps [simp]:
  "rb_states (books_of s) = budget_states s" "rb_pools (books_of s) = pool_states s"
  "rb_events (books_of s) = budget_events s"
  by (simp_all add: books_of_def)

lemma books_of_ok: "budget_ok dg policies s \<Longrightarrow> books_ok dg policies (books_of s)"
  by (simp add: books_ok_def budget_ok_def)

lemma store_books_ok:
  assumes "store_books dg s books = Inr r" and "books_ok dg policies books" and "separate_policies dg policies"
  obtains s' where "r = succeeded s'" "budget_ok dg policies s'" "budget_states s' = rb_states books"
    "pool_states s' = rb_pools books" "budget_events s' = rb_events books" "resource_rest s' = resource_rest s"
  using assms by (auto simp: store_books_eq_Inr budget_ok_def books_ok_def snapshot_valid_def)

text \<open>The entry of one budget in the books, after a settlement \<open>f\<close> of its state and \<open>h\<close> of its allocation.\<close>

definition settle_books ::
    "(pool_identity \<Rightarrow> string) \<Rightarrow> string \<Rightarrow> budget_state \<Rightarrow> pool_state \<Rightarrow> budget_state \<Rightarrow> pool_allocation \<Rightarrow> budget_event \<Rightarrow>
       resource_books \<Rightarrow> resource_books" where
  "settle_books dg ref b p b' a' e books =
     books\<lparr>rb_states := dput ref b' (rb_states books),
           rb_pools := dput (pool_ref_for_state dg b) (p\<lparr>ps_allocations := dput ref a' (ps_allocations p)\<rparr>) (rb_pools books),
           rb_events := dput (be_id e) e (rb_events books)\<rparr>"

lemma settle_books_simps [simp]:
  "rb_states (settle_books dg ref b p b' a' e books) = dput ref b' (rb_states books)"
  "rb_pools (settle_books dg ref b p b' a' e books)
     = dput (pool_ref_for_state dg b) (p\<lparr>ps_allocations := dput ref a' (ps_allocations p)\<rparr>) (rb_pools books)"
  "rb_events (settle_books dg ref b p b' a' e books) = dput (be_id e) e (rb_events books)"
  by (simp_all add: settle_books_def)

lemma settle_books_ok:
  assumes "books_ok dg policies books" and "dget (rb_states books) ref = Some b"
    and "dget (rb_pools books) (pool_ref_for_state dg b) = Some p"
    and "same_budget dg b b'" and "allocation_agrees b' a'" and "event_shaped e"
  shows "books_ok dg policies (settle_books dg ref b p b' a' e books)"
  using assms books_sound_update [of dg policies "rb_states books" "rb_pools books" ref b p b' a']
  by (simp add: books_ok_def events_shaped_dput)

lemma books_ok_allocation:
  assumes "books_ok dg policies books" and "dget (rb_states books) ref = Some b"
    and "dget (rb_pools books) (pool_ref_for_state dg b) = Some p" and "dget (ps_allocations p) ref = Some a"
  shows "allocation_agrees b a" and "bs_ref b = ref"
proof -
  from assms(1) have sound: "books_sound dg policies (rb_states books) (rb_pools books)" by (simp add: books_ok_def)
  show "allocation_agrees b a"
    using books_sound_allocation [OF sound assms(2)] assms(3,4) by (metis option.inject)
  show "bs_ref b = ref" by (rule books_soundD(5) [OF sound assms(2)])
qed

subsection \<open>Commit\<close>

definition commit_event :: "string \<Rightarrow> int \<Rightarrow> string list \<Rightarrow> budget_event \<Rightarrow> budget_state \<Rightarrow> int \<Rightarrow> budget_event" where
  "commit_event operation g evidence r b n =
     settlement_event operation g evidence r b (operation_event_id operation (be_state r) ''commit'')
       CommitBudget CommittedUse (Some n)"

definition committed_allocation :: "pool_allocation \<Rightarrow> int \<Rightarrow> int \<Rightarrow> pool_allocation" where
  "committed_allocation a requested n =
     a\<lparr>pa_reserved := max 0 (pa_reserved a - requested), pa_cumulative := pa_cumulative a + n\<rparr>"

lemma commit_reservation_cases:
  assumes "commit_reservation dg s operation g measured evidence books r = Inr (Inr books')"
    and ok: "books_ok dg policies books"
  obtains (again) "operation_event_id operation (be_state r) ''commit'' \<in> set (dkeys (rb_events books))" "books' = books"
  | (settled) b n p a where "operation_event_id operation (be_state r) ''commit'' \<notin> set (dkeys (rb_events books))"
      "dget (rb_states books) (be_state r) = Some b" "bs_generation b = g" "dget measured (be_state r) = Some n"
      "dget (rb_pools books) (pool_ref_for_state dg b) = Some p" "dget (ps_allocations p) (be_state r) = Some a"
      "books' = settle_books dg (be_state r) b p
         (committed_state b r n (operation_event_id operation (be_state r) ''commit'') evidence)
         (committed_allocation a (be_requested r) n) (commit_event operation g evidence r b n) books"
proof (cases "operation_event_id operation (be_state r) ''commit'' \<in> set (dkeys (rb_events books))")
  case True
  with assms have "books' = books" by (simp add: commit_reservation_def Let_def)
  with True show thesis by (rule again)
next
  case False
  with assms(1) obtain b n where b: "dget (rb_states books) (be_state r) = Some b" and n: "dget measured (be_state r) = Some n"
    by (auto simp: commit_reservation_def Let_def split: option.splits)
  have ref: "bs_ref b = be_state r"
    using ok b by (auto simp: books_ok_def dest: books_soundD(5))
  from assms(1) False b n have gen: "bs_generation b = g"
    by (auto simp: commit_reservation_def Let_def ebind_eq_Inr split: if_splits)
  from assms(1) False b n obtain p where p: "dget (rb_pools books) (pool_ref_for_state dg b) = Some p"
    by (auto simp: commit_reservation_def Let_def ebind_eq_Inr split: if_splits option.splits)
  from assms(1) False b n p gen obtain a where a: "dget (ps_allocations p) (be_state r) = Some a"
    and books': "books' = books\<lparr>
        rb_states := dput (be_state r) (committed_state b r n (operation_event_id operation (be_state r) ''commit'') evidence)
          (rb_states books),
        rb_pools := dput (pool_ref_for_state dg b) (p\<lparr>ps_allocations := dput (be_state r)
          (committed_allocation a (be_requested r) n) (ps_allocations p)\<rparr>) (rb_pools books),
        rb_events := dput (operation_event_id operation (be_state r) ''commit'')
          (commit_event operation g evidence r b n) (rb_events books)\<rparr>"
    by (auto simp: commit_reservation_def Let_def ebind_eq_Inr make_budget_event_def ledger_commit_def
        update_allocation_eq_Inr ref commit_event_def committed_allocation_def)
  have "books' = settle_books dg (be_state r) b p
         (committed_state b r n (operation_event_id operation (be_state r) ''commit'') evidence)
         (committed_allocation a (be_requested r) n) (commit_event operation g evidence r b n) books"
    unfolding books' settle_books_def by (simp add: commit_event_def settlement_event_def)
  with False b gen n p a show thesis by (intro settled)
qed

lemma committed_agrees:
  "allocation_agrees b a \<Longrightarrow> allocation_agrees (committed_state b r n i evidence) (committed_allocation a (be_requested r) n)"
  by (simp add: allocation_agrees_def committed_state_def committed_allocation_def)

lemma settlement_shaped [simp]:
  "event_shaped (commit_event operation g evidence r b n)"
  "event_shaped (reconciliation_event policy g evidence ref b)"
  by (simp_all add: event_shaped_def commit_event_def settlement_event_def reconciliation_event_def)

lemma commit_reservation_ok:
  assumes "commit_reservation dg s operation g measured evidence books r = Inr (Inr books')"
    and ok: "books_ok dg policies books"
  shows "books_ok dg policies books' \<and> prefix (dkeys (rb_events books)) (dkeys (rb_events books'))"
  using assms
proof (cases rule: commit_reservation_cases)
  case again
  with ok show ?thesis by simp
next
  case (settled b n p a)
  note agrees = committed_agrees [OF books_ok_allocation(1) [OF ok settled(2,5,6)]]
  from settle_books_ok [OF ok settled(2,5) _ agrees] settled(7) show ?thesis
    by (simp add: prefix_dkeys_dput)
qed

lemma commit_reservation_failure:
  assumes "commit_reservation dg s operation g measured evidence books r = Inr (Inl result)"
  shows "result = failed s StaleGeneration (be_policy r) operation"
  using assms unfolding commit_reservation_def Let_def
  by (auto simp: ebind_eq_Inr split: if_splits option.splits)

subsection \<open>Release\<close>

definition release_event :: "string \<Rightarrow> int \<Rightarrow> string list \<Rightarrow> budget_event \<Rightarrow> budget_state \<Rightarrow> budget_event" where
  "release_event operation g evidence r b =
     settlement_event operation g evidence r b (operation_event_id operation (be_state r) ''release'')
       ReleaseBudget ReleasedUse None"

definition released_allocation :: "pool_allocation \<Rightarrow> int \<Rightarrow> pool_allocation" where
  "released_allocation a requested = a\<lparr>pa_reserved := max 0 (pa_reserved a - requested)\<rparr>"

lemma release_reservation_cases:
  assumes "release_reservation dg s operation g evidence books r = Inr (Inr books')"
    and ok: "books_ok dg policies books"
  obtains (again) "operation_event_id operation (be_state r) ''release'' \<in> set (dkeys (rb_events books))" "books' = books"
  | (settled) b p a where "operation_event_id operation (be_state r) ''release'' \<notin> set (dkeys (rb_events books))"
      "dget (rb_states books) (be_state r) = Some b" "bs_generation b = g"
      "dget (rb_pools books) (pool_ref_for_state dg b) = Some p" "dget (ps_allocations p) (be_state r) = Some a"
      "books' = settle_books dg (be_state r) b p
         (released_state b r (operation_event_id operation (be_state r) ''release'') evidence)
         (released_allocation a (be_requested r)) (release_event operation g evidence r b) books"
proof (cases "operation_event_id operation (be_state r) ''release'' \<in> set (dkeys (rb_events books))")
  case True
  with assms have "books' = books" by (simp add: release_reservation_def Let_def)
  with True show thesis by (rule again)
next
  case False
  with assms(1) obtain b where b: "dget (rb_states books) (be_state r) = Some b"
    by (auto simp: release_reservation_def Let_def split: option.splits)
  have ref: "bs_ref b = be_state r"
    using ok b by (auto simp: books_ok_def dest: books_soundD(5))
  from assms(1) False b have gen: "bs_generation b = g"
    by (auto simp: release_reservation_def Let_def ebind_eq_Inr split: if_splits)
  from assms(1) False b obtain p where p: "dget (rb_pools books) (pool_ref_for_state dg b) = Some p"
    by (auto simp: release_reservation_def Let_def ebind_eq_Inr split: if_splits option.splits)
  from assms(1) False b p gen obtain a where a: "dget (ps_allocations p) (be_state r) = Some a"
    and books': "books' = books\<lparr>
        rb_states := dput (be_state r) (released_state b r (operation_event_id operation (be_state r) ''release'') evidence)
          (rb_states books),
        rb_pools := dput (pool_ref_for_state dg b) (p\<lparr>ps_allocations := dput (be_state r)
          (released_allocation a (be_requested r)) (ps_allocations p)\<rparr>) (rb_pools books),
        rb_events := dput (operation_event_id operation (be_state r) ''release'')
          (release_event operation g evidence r b) (rb_events books)\<rparr>"
    by (auto simp: release_reservation_def Let_def ebind_eq_Inr make_budget_event_def ledger_release_def
        update_allocation_eq_Inr ref release_event_def released_allocation_def)
  have "books' = settle_books dg (be_state r) b p
         (released_state b r (operation_event_id operation (be_state r) ''release'') evidence)
         (released_allocation a (be_requested r)) (release_event operation g evidence r b) books"
    unfolding books' settle_books_def by (simp add: release_event_def settlement_event_def)
  with False b gen p a show thesis by (intro settled)
qed

lemma released_agrees:
  "allocation_agrees b a \<Longrightarrow> allocation_agrees (released_state b r i evidence) (released_allocation a (be_requested r))"
  by (simp add: allocation_agrees_def released_state_def released_allocation_def)

lemma release_shaped [simp]: "event_shaped (release_event operation g evidence r b)"
  by (simp add: event_shaped_def release_event_def settlement_event_def)

lemma release_reservation_ok:
  assumes "release_reservation dg s operation g evidence books r = Inr (Inr books')"
    and ok: "books_ok dg policies books"
  shows "books_ok dg policies books' \<and> prefix (dkeys (rb_events books)) (dkeys (rb_events books'))"
  using assms
proof (cases rule: release_reservation_cases)
  case again
  with ok show ?thesis by simp
next
  case (settled b p a)
  note agrees = released_agrees [OF books_ok_allocation(1) [OF ok settled(2,4,5)]]
  from settle_books_ok [OF ok settled(2,4) _ agrees] settled(6) show ?thesis
    by (simp add: prefix_dkeys_dput)
qed

lemma release_reservation_failure:
  assumes "release_reservation dg s operation g evidence books r = Inr (Inl result)"
  shows "result = failed s StaleGeneration (be_policy r) operation"
  using assms unfolding release_reservation_def Let_def
  by (auto simp: ebind_eq_Inr split: if_splits option.splits)

end
