(* ===== verification/ResourceMachine.thy ===== *)
theory ResourceMachine
  imports ResourceProofs
begin

text \<open>
  The budget operations as one machine: what commit, release and reconciliation do to the books,
  and the interpretation of the logged-machine interface, whose log is the sequence of event
  identifiers of the snapshot.
\<close>

section \<open>Whole operations\<close>

definition reservations_of :: "'r resource_snapshot \<Rightarrow> string \<Rightarrow> budget_event list" where
  "reservations_of s operation =
     filter (\<lambda>e. be_operation e = operation \<and> be_transition e = ReserveBudget) (dvals (budget_events s))"

lemma valid_reservations:
  assumes "snapshot_valid dg s"
  shows "operation_reservations (budget_events s) operation = Inr (reservations_of s operation)"
proof -
  have "echeck check_budget_event (reservations_of s operation) = Inr ()"
    using assms unfolding snapshot_valid_def require_snapshot_iff
    by (auto simp: echeck_eq_Inr reservations_of_def)
  then show ?thesis
    by (simp add: operation_reservations_def reservations_of_def Let_def)
qed

lemma commit_unfold:
  assumes "snapshot_valid dg s"
  shows "commit_participant_resource_reservation dg s operation g measured evidence =
    (if reservations_of s operation = [] then Inr (missing_reservation_result s operation (budget_events s))
     else if \<not> valid_measurement_vector (reservations_of s operation) measured evidence
     then Inr (failed s MeasurementInvalid (be_policy (hd (reservations_of s operation))) [])
     else ebind (floop (commit_reservation dg s operation g measured evidence) (books_of s) (reservations_of s operation))
       (\<lambda>r. case r of Inl failure \<Rightarrow> Inr failure | Inr books \<Rightarrow> store_books dg s books))"
  unfolding commit_participant_resource_reservation_def valid_reservations [OF assms]
  by (cases "reservations_of s operation") auto

lemma release_unfold:
  assumes "snapshot_valid dg s"
  shows "release_participant_resource_reservation dg s operation g evidence =
    (if reservations_of s operation = [] then Inr (succeeded s)
     else ebind (floop (release_reservation dg s operation g evidence) (books_of s) (reservations_of s operation))
       (\<lambda>r. case r of Inl failure \<Rightarrow> Inr failure | Inr books \<Rightarrow> store_books dg s books))"
  unfolding release_participant_resource_reservation_def valid_reservations [OF assms] by simp

definition snapshot_extends ::
    "(pool_identity \<Rightarrow> string) \<Rightarrow> runtime_policy list \<Rightarrow> 'r resource_snapshot \<Rightarrow> 'r resource_snapshot \<Rightarrow> bool" where
  "snapshot_extends dg policies s s' \<longleftrightarrow>
     budget_ok dg policies s' \<and> prefix (dkeys (budget_events s)) (dkeys (budget_events s'))
     \<and> resource_rest s' = resource_rest s"

lemma snapshot_extends_refl: "budget_ok dg policies s \<Longrightarrow> snapshot_extends dg policies s s"
  by (simp add: snapshot_extends_def)

lemma stored_extends:
  assumes "store_books dg s books = Inr r" and "books_ok dg policies books" and "separate_policies dg policies"
    and "prefix (dkeys (budget_events s)) (dkeys (rb_events books))"
  shows "snapshot_extends dg policies s (result_snapshot r)"
  using assms(1-3) by (rule store_books_ok) (use assms(4) in \<open>simp add: snapshot_extends_def\<close>)

lemma settlement_loop_extends:
  assumes run: "ebind (floop f (books_of s) rs) (\<lambda>r. case r of Inl failure \<Rightarrow> Inr failure | Inr books \<Rightarrow> store_books dg s books) = Inr r"
    and ok: "budget_ok dg policies s"
    and step: "\<And>books e books'. f books e = Inr (Inr books') \<Longrightarrow> books_ok dg policies books \<Longrightarrow>
      books_ok dg policies books' \<and> prefix (dkeys (rb_events books)) (dkeys (rb_events books'))"
    and failure: "\<And>books e result. f books e = Inr (Inl result) \<Longrightarrow> result_snapshot result = s"
  shows "snapshot_extends dg policies s (result_snapshot r)"
proof -
  let ?P = "\<lambda>books. books_ok dg policies books \<and> prefix (dkeys (budget_events s)) (dkeys (rb_events books))"
  have start: "?P (books_of s)" using books_of_ok [OF ok] by simp
  have keep: "?P books'" if "?P books" "f books e = Inr (Inr books')" for books e books'
    using step [OF that(2)] that(1) by (blast intro: prefix_order.trans)
  from run obtain v where v: "floop f (books_of s) rs = Inr v"
    and rest: "(case v of Inl failure \<Rightarrow> Inr failure | Inr books \<Rightarrow> store_books dg s books) = Inr r"
    by (auto simp: ebind_eq_Inr)
  show ?thesis
  proof (cases v)
    case (Inl failure')
    with v rest have "floop f (books_of s) rs = Inr (Inl r)" by simp
    then have "result_snapshot r = s"
      by (rule floop_break [where P = "\<lambda>_. True"]) (use failure in auto)
    with snapshot_extends_refl [OF ok] show ?thesis by simp
  next
    case (Inr books)
    with v have "floop f (books_of s) rs = Inr (Inr books)" by simp
    then have books: "?P books" using start by (rule floop_invariant) (use keep in blast)
    have "store_books dg s books = Inr r" using rest Inr by simp
    then show ?thesis
      by (rule stored_extends [OF _ conjunct1 [OF books] budget_okD(1) [OF ok] conjunct2 [OF books]])
  qed
qed

lemma commit_extends:
  assumes "commit_participant_resource_reservation dg s operation g measured evidence = Inr r"
    and ok: "budget_ok dg policies s"
  shows "snapshot_extends dg policies s (result_snapshot r)"
proof (cases "reservations_of s operation = [] \<or> \<not> valid_measurement_vector (reservations_of s operation) measured evidence")
  case True
  with assms have "result_snapshot r = s"
    by (auto simp: commit_unfold [OF budget_okD(2) [OF ok]] missing_reservation_result_def split: if_splits)
  with snapshot_extends_refl [OF ok] show ?thesis by simp
next
  case False
  with assms(1) show ?thesis
    by (intro settlement_loop_extends [where f = "commit_reservation dg s operation g measured evidence", OF _ ok
          commit_reservation_ok])
      (auto simp: commit_unfold [OF budget_okD(2) [OF ok]] dest: commit_reservation_failure)
qed

lemma release_extends:
  assumes "release_participant_resource_reservation dg s operation g evidence = Inr r"
    and ok: "budget_ok dg policies s"
  shows "snapshot_extends dg policies s (result_snapshot r)"
proof (cases "reservations_of s operation = []")
  case True
  with assms have "result_snapshot r = s"
    by (auto simp: release_unfold [OF budget_okD(2) [OF ok]])
  with snapshot_extends_refl [OF ok] show ?thesis by simp
next
  case False
  with assms(1) show ?thesis
    by (intro settlement_loop_extends [where f = "release_reservation dg s operation g evidence", OF _ ok
          release_reservation_ok])
      (auto simp: release_unfold [OF budget_okD(2) [OF ok]] dest: release_reservation_failure)
qed

section \<open>Reconciliation\<close>

definition reconciled_allocation :: "pool_allocation \<Rightarrow> int \<Rightarrow> bool \<Rightarrow> pool_allocation" where
  "reconciled_allocation a g clears =
     a\<lparr>pa_generation := g, pa_reserved := 0, pa_current := if clears then 0 else pa_current a,
       pa_cumulative := if clears then 0 else pa_cumulative a\<rparr>"

lemma reconcile_state_cases:
  assumes "reconcile_state dg policy g boundary evidence books (ref, b) = Inr books'" and "bs_ref b = ref"
  obtains p a where "dget (rb_pools books) (pool_ref_for_state dg b) = Some p" "dget (ps_allocations p) ref = Some a"
    "books' = settle_books dg ref b p
       (reconciled_state b g (bs_reset b = boundary) (be_id (reconciliation_event policy g evidence ref b)) evidence)
       (reconciled_allocation a g (bs_reset b = boundary)) (reconciliation_event policy g evidence ref b) books"
  using assms
  by (auto simp: reconcile_state_def Let_def ebind_eq_Inr make_budget_event_def ledger_reconcile_def
      update_allocation_eq_Inr settle_books_def reconciled_allocation_def split: option.splits)

lemma reconciled_agrees:
  "allocation_agrees b a \<Longrightarrow> allocation_agrees (reconciled_state b g c i evidence) (reconciled_allocation a g c)"
  by (simp add: allocation_agrees_def reconciled_state_def reconciled_allocation_def)

lemma reconcile_loop:
  assumes "efold (reconcile_state dg policy g boundary evidence) books jobs = Inr books'"
    and "books_ok dg policies books" and "distinct (map fst jobs)"
    and "\<forall>(ref, b) \<in> set jobs. dget (rb_states books) ref = Some b"
  shows "books_ok dg policies books' \<and> prefix (dkeys (rb_events books)) (dkeys (rb_events books'))
    \<and> (\<forall>(ref, b) \<in> set jobs. dget (rb_states books') ref = Some (reconciled_state b g (bs_reset b = boundary)
          (be_id (reconciliation_event policy g evidence ref b)) evidence))
    \<and> (\<forall>ref. ref \<notin> fst ` set jobs \<longrightarrow> dget (rb_states books') ref = dget (rb_states books) ref)"
  using assms
proof (induction jobs arbitrary: books)
  case Nil
  then show ?case by simp
next
  case (Cons job jobs)
  obtain ref b where job: "job = (ref, b)" by (cases job)
  from Cons.prems(1) job obtain t where t: "reconcile_state dg policy g boundary evidence books (ref, b) = Inr t"
    "efold (reconcile_state dg policy g boundary evidence) t jobs = Inr books'"
    by (auto simp: ebind_eq_Inr)
  from Cons.prems(4) job have b: "dget (rb_states books) ref = Some b" by simp
  from Cons.prems(2) b have "bs_ref b = ref"
    by (auto simp: books_ok_def dest: books_soundD(5))
  from reconcile_state_cases [OF t(1) this] obtain p a where
    p: "dget (rb_pools books) (pool_ref_for_state dg b) = Some p" "dget (ps_allocations p) ref = Some a"
    and t_def: "t = settle_books dg ref b p
       (reconciled_state b g (bs_reset b = boundary) (be_id (reconciliation_event policy g evidence ref b)) evidence)
       (reconciled_allocation a g (bs_reset b = boundary)) (reconciliation_event policy g evidence ref b) books"
    by blast
  have ok: "books_ok dg policies t"
    unfolding t_def
    using settle_books_ok [OF Cons.prems(2) b p(1) _ reconciled_agrees [OF books_ok_allocation(1) [OF Cons.prems(2) b p]]]
    by simp
  have out: "ref \<notin> fst ` set jobs" using Cons.prems(3) job by simp
  have frame: "dget (rb_states t) r = dget (rb_states books) r" if "r \<noteq> ref" for r
    using that by (simp add: t_def)
  have ready: "\<forall>(r, c) \<in> set jobs. dget (rb_states t) r = Some c"
  proof clarify
    fix r c assume rc: "(r, c) \<in> set jobs"
    then have "r \<noteq> ref" using out by force
    with rc Cons.prems(4) frame show "dget (rb_states t) r = Some c" by fastforce
  qed
  have "distinct (map fst jobs)" using Cons.prems(3) by simp
  note IH = Cons.IH [OF t(2) ok this ready]
  have first: "dget (rb_states books') ref = Some (reconciled_state b g (bs_reset b = boundary)
          (be_id (reconciliation_event policy g evidence ref b)) evidence)"
    using IH out by (auto simp: t_def)
  have "prefix (dkeys (rb_events books)) (dkeys (rb_events t))"
    by (simp add: t_def prefix_dkeys_dput)
  then have "prefix (dkeys (rb_events books)) (dkeys (rb_events books'))"
    using IH by (blast intro: prefix_order.trans)
  moreover have "dget (rb_states books') r = dget (rb_states books) r" if "r \<notin> fst ` set (job # jobs)" for r
    using IH frame that job by auto
  ultimately show ?case
    using IH first job by (auto simp: split_def)
qed

lemma reconcile_events:
  assumes "efold (reconcile_state dg policy g boundary evidence) books jobs = Inr books'"
  shows "rb_events books' = foldl (\<lambda>ev (ref, b). dput (be_id (reconciliation_event policy g evidence ref b))
     (reconciliation_event policy g evidence ref b) ev) (rb_events books) jobs"
  using assms
proof (induction jobs arbitrary: books)
  case Nil
  then show ?case by simp
next
  case (Cons job jobs)
  from Cons.prems obtain t where t: "reconcile_state dg policy g boundary evidence books job = Inr t"
    "efold (reconcile_state dg policy g boundary evidence) t jobs = Inr books'"
    by (auto simp: ebind_eq_Inr)
  have "rb_events t = (case job of (ref, b) \<Rightarrow> dput (be_id (reconciliation_event policy g evidence ref b))
     (reconciliation_event policy g evidence ref b) (rb_events books))"
    using t(1) by (auto simp: reconcile_state_def Let_def ebind_eq_Inr make_budget_event_def split: prod.splits option.splits)
  with Cons.IH [OF t(2)] show ?case by (simp add: split_def)
qed

definition policy_states :: "'r resource_snapshot \<Rightarrow> string \<Rightarrow> (string, budget_state) dict" where
  "policy_states s policy = filter (\<lambda>(ref, b). bs_policy b = policy) (budget_states s)"

lemma policy_states_facts:
  assumes "budget_ok dg policies s"
  shows "distinct (map fst (policy_states s policy))"
    and "\<forall>(ref, b) \<in> set (policy_states s policy). dget (budget_states s) ref = Some b"
    and "echeck (\<lambda>(ref, b). check_budget_state b) (policy_states s policy) = Inr ()"
proof -
  have ok: "dict_ok (budget_states s)"
    using books_soundD(1) [OF budget_okD(4) [OF assms]] .
  then show "distinct (map fst (policy_states s policy))"
    by (simp add: policy_states_def distinct_map_filter)
  show "\<forall>(ref, b) \<in> set (policy_states s policy). dget (budget_states s) ref = Some b"
    using ok by (auto simp: policy_states_def)
  show "echeck (\<lambda>(ref, b). check_budget_state b) (policy_states s policy) = Inr ()"
    using budget_okD(2) [OF assms]
    by (auto simp: echeck_eq_Inr policy_states_def snapshot_valid_def require_snapshot_iff)
qed

lemma reconcile_cases:
  assumes run: "reconcile_participant_resource_budgets dg s policy current next boundary evidence = Inr r"
    and ok: "budget_ok dg policies s"
  obtains (stale) ref b where "(ref, b) \<in> set (policy_states s policy)" "bs_generation b \<noteq> current"
      "r = failed s StaleGeneration policy ref"
  | (reconciled) books where "current < next" "\<forall>(ref, b) \<in> set (policy_states s policy). bs_generation b = current"
      "efold (reconcile_state dg policy next boundary evidence) (books_of s) (policy_states s policy) = Inr books"
      "store_books dg s books = Inr r"
proof -
  from run have forward: "current < next"
    and rest: "(case find (\<lambda>(ref, b). bs_generation b \<noteq> current) (policy_states s policy) of
        Some (ref, b) \<Rightarrow> Inr (failed s StaleGeneration policy ref)
      | None \<Rightarrow> ebind (efold (reconcile_state dg policy next boundary evidence) (books_of s) (policy_states s policy))
            (store_books dg s)) = Inr r"
    unfolding reconcile_participant_resource_budgets_def Let_def policy_states_def [symmetric]
      policy_states_facts(3) [OF ok]
    by (auto simp: ebind_eq_Inr require_eq_Inr)
  show thesis
  proof (cases "find (\<lambda>(ref, b). bs_generation b \<noteq> current) (policy_states s policy)")
    case None
    then have "\<forall>(ref, b) \<in> set (policy_states s policy). bs_generation b = current"
      by (auto simp: find_None_iff)
    with forward rest None show thesis by (auto simp: ebind_eq_Inr intro: reconciled)
  next
    case (Some job)
    obtain ref b where job: "job = (ref, b)" by (cases job)
    with Some have "(ref, b) \<in> set (policy_states s policy)" "bs_generation b \<noteq> current"
      by (auto simp: find_Some_iff) (metis nth_mem)
    moreover have "r = failed s StaleGeneration policy ref" using rest Some job by simp
    ultimately show thesis by (rule stale)
  qed
qed

lemma reconcile_extends:
  assumes "reconcile_participant_resource_budgets dg s policy current next boundary evidence = Inr r"
    and ok: "budget_ok dg policies s"
  shows "snapshot_extends dg policies s (result_snapshot r)"
  using assms
proof (cases rule: reconcile_cases)
  case stale
  with snapshot_extends_refl [OF ok] show ?thesis by simp
next
  case (reconciled books)
  have "books_ok dg policies books \<and> prefix (dkeys (budget_events s)) (dkeys (rb_events books))"
    using reconcile_loop [OF reconciled(3) books_of_ok [OF ok] policy_states_facts(1) [OF ok]] policy_states_facts(2) [OF ok]
    by auto
  with stored_extends [OF reconciled(4) _ budget_okD(1) [OF ok]] show ?thesis by blast
qed

section \<open>Initialization and reservation\<close>

lemma initialize_demand_failure:
  assumes "initialize_demand dg admitted pools s g books job = Inr (Inl r)"
  shows "result_success r = False" and "result_snapshot r = s"
proof -
  have "r = failed s (diagnostic_code (hd (result_diagnostics r))) (rp_address (fst job))
      (case hd (result_diagnostics r) of Diagnostic _ _ subject \<Rightarrow> subject)"
    using assms unfolding initialize_demand_def initialize_new_budget_def new_budget_state_def new_pool_state_def
    by (auto simp: Let_def ebind_eq_Inr failed_def split: prod.splits option.splits if_splits sum.splits resource_error.splits)
  then show "result_success r = False" and "result_snapshot r = s" by (metis failed_simps(1), metis failed_simps(2))
qed

lemma initialize_extends:
  assumes run: "initialize_participant_resource_budgets dg admitted pools s policies g = Inr r"
    and ok: "budget_ok dg policies s"
  shows "snapshot_extends dg policies s (result_snapshot r)"
proof -
  from run obtain v where v: "floop (initialize_demand dg admitted pools s g) (budget_states s, pool_states s)
      (policy_jobs policies) = Inr v"
    and rest: "(case v of Inl failure \<Rightarrow> Inr failure | Inr (states, physical) \<Rightarrow>
          ebind (with_resources dg s states physical (budget_events s)) (\<lambda>s'. Inr (succeeded s'))) = Inr r"
    unfolding initialize_participant_resource_budgets_def policy_jobs_def [symmetric] by (auto simp: ebind_eq_Inr)
  show ?thesis
  proof (cases v)
    case (Inl failure)
    with v rest have "floop (initialize_demand dg admitted pools s g) (budget_states s, pool_states s)
      (policy_jobs policies) = Inr (Inl r)" by simp
    then have "result_snapshot r = s"
      by (rule floop_break [where P = "\<lambda>_. True"]) (use initialize_demand_failure in auto)
    with snapshot_extends_refl [OF ok] show ?thesis by simp
  next
    case (Inr books)
    obtain states physical where books: "books = (states, physical)" by (cases books)
    with Inr v have "floop (initialize_demand dg admitted pools s g) (budget_states s, pool_states s)
      (policy_jobs policies) = Inr (Inr books)" by simp
    then have sound: "books_sound dg policies (fst books) (snd books)"
      using budget_okD(4) [OF ok]
      by (rule_tac floop_invariant [where P = "\<lambda>books. books_sound dg policies (fst books) (snd books)"])
        (auto intro: initialize_demand_sound)
    from rest Inr books obtain s' where s': "r = succeeded s'"
      "require_participant_resource_budget_snapshot dg states physical (budget_events s) = Inr ()"
      "s' = s\<lparr>budget_states := states, pool_states := physical, budget_events := budget_events s\<rparr>"
      by (auto simp: ebind_eq_Inr with_resources_eq_Inr)
    with sound books budget_okD(1,3) [OF ok] show ?thesis
      by (simp add: snapshot_extends_def budget_ok_def snapshot_valid_def)
  qed
qed

lemma reserve_extends:
  assumes "reserve_participant_resources dg s policy operation g requested = Inr r"
    and ok: "budget_ok dg policies s" and "policy \<in> set policies"
  shows "snapshot_extends dg policies s (result_snapshot r)"
  using assms
proof (cases rule: reserve_cases)
  case repeated
  with snapshot_extends_refl [OF ok] show ?thesis by simp
next
  case reserved
  then show ?thesis by (simp add: snapshot_extends_def reservation_made_def)
next
  case refused
  then consider "result_snapshot r = s" | "only_throttled dg operation s (result_snapshot r)"
    by (auto simp: reservation_refused_def)
  then show ?thesis
  proof cases
    case 1
    with snapshot_extends_refl [OF ok] show ?thesis by simp
  next
    case 2
    then have "resource_rest (result_snapshot r) = resource_rest s" by (auto simp: only_throttled_def)
    with only_throttled_ok(1,2) [OF ok 2] show ?thesis by (simp add: snapshot_extends_def)
  qed
qed

section \<open>The machine\<close>

text \<open>
  The operations as the scheduler issues them: it initializes all its policies together and
  reserves for one of them (\<open>policies ! i\<close>). A failed result still hands its snapshot on.
\<close>

datatype budget_op =
    InitializeBudgets int
  | ReserveBudgets nat string int "(string, int) dict option"
  | CommitBudgets string int "(string, int) dict" "string list"
  | ReleaseBudgets string int "string list"
  | ReconcileBudgets string int int reset_mode "string list"

fun budget_result ::
    "(pool_identity \<Rightarrow> string) \<Rightarrow> admission \<Rightarrow> pool_capacity list \<Rightarrow> runtime_policy list \<Rightarrow> budget_op \<Rightarrow>
       'r resource_snapshot \<Rightarrow> resource_error + 'r apply_result" where
  "budget_result dg admitted pools policies (InitializeBudgets g) s =
     initialize_participant_resource_budgets dg admitted pools s policies g"
| "budget_result dg admitted pools policies (ReserveBudgets i operation g requested) s =
     (if i < length policies
      then reserve_participant_resources dg s (policies ! i) operation g requested else Inl MissingKey)"
| "budget_result dg admitted pools policies (CommitBudgets operation g measured evidence) s =
     commit_participant_resource_reservation dg s operation g measured evidence"
| "budget_result dg admitted pools policies (ReleaseBudgets operation g evidence) s =
     release_participant_resource_reservation dg s operation g evidence"
| "budget_result dg admitted pools policies (ReconcileBudgets policy current next boundary evidence) s =
     reconcile_participant_resource_budgets dg s policy current next boundary evidence"

definition budget_step ::
    "(pool_identity \<Rightarrow> string) \<Rightarrow> admission \<Rightarrow> pool_capacity list \<Rightarrow> runtime_policy list \<Rightarrow> budget_op \<Rightarrow>
       'r resource_snapshot \<Rightarrow> resource_error + 'r resource_snapshot" where
  "budget_step dg admitted pools policies op s =
     ebind (budget_result dg admitted pools policies op s) (\<lambda>r. Inr (result_snapshot r))"

lemma budget_result_extends:
  assumes "budget_result dg admitted pools policies op s = Inr r" and "budget_ok dg policies s"
  shows "snapshot_extends dg policies s (result_snapshot r)"
  using assms
proof (cases op)
  case (ReserveBudgets i operation g requested)
  with assms show ?thesis by (auto split: if_splits intro: reserve_extends)
qed (auto intro: initialize_extends commit_extends release_extends reconcile_extends)

lemma budget_step_extends:
  assumes "budget_step dg admitted pools policies op s = Inr s'" and "budget_ok dg policies s"
  shows "snapshot_extends dg policies s s'"
  using assms budget_result_extends by (auto simp: budget_step_def ebind_eq_Inr)

interpretation budget: logged_machine "budget_step dg admitted pools policies" "budget_ok dg policies"
  "\<lambda>s. dkeys (budget_events s)" for dg admitted pools policies
  by unfold_locales (auto simp: snapshot_extends_def dest: budget_step_extends)

end
