(* ===== verification/ResourceSettlement.thy ===== *)
theory ResourceSettlement
  imports ResourceMachine
begin

text \<open>
  What a whole commit does: each reservation of the operation is settled exactly once, in the
  current generation of its budget; and what a successful initialization establishes.
\<close>

section \<open>The loop over the reservations of an operation\<close>

lemma operation_event_id_inj:
  "operation_event_id operation ref w = operation_event_id operation ref' w \<longleftrightarrow> ref = ref'"
  by (auto simp: operation_event_id_def)

lemma reservations_distinct:
  assumes "events_shaped (budget_events s)"
  shows "distinct (map be_state (reservations_of s operation))"
proof -
  let ?rs = "filter (\<lambda>(i, e). be_operation e = operation \<and> be_transition e = ReserveBudget) (budget_events s)"
  have rs: "reservations_of s operation = map snd ?rs"
    by (simp add: reservations_of_def filter_map comp_def split_def)
  have ids: "i = operation_event_id operation (be_state e) ''reserve''" if "(i, e) \<in> set ?rs" for i e
    using that events_shapedD(2,3) [OF assms, of i e] by (auto simp: event_shaped_def)
  have "inj_on (be_state \<circ> snd) (set ?rs)"
  proof (rule inj_onI)
    fix x y assume x: "x \<in> set ?rs" and y: "y \<in> set ?rs" and eq: "(be_state \<circ> snd) x = (be_state \<circ> snd) y"
    obtain i e where xe: "x = (i, e)" by (cases x)
    obtain j f where yf: "y = (j, f)" by (cases y)
    have "i = j" using ids [of i e] ids [of j f] x y eq by (simp add: xe yf)
    moreover have "(i, e) \<in> set (budget_events s)" "(j, f) \<in> set (budget_events s)"
      using x y by (auto simp: xe yf)
    ultimately show "x = y"
      using dget_Some_iff [OF events_shapedD(1) [OF assms]] by (metis option.inject xe yf)
  qed
  moreover have "distinct ?rs"
    using events_shapedD(1) [OF assms] by (simp add: distinct_map)
  ultimately show ?thesis
    unfolding rs map_map by (simp add: distinct_map)
qed

text \<open>
  Commit and release settle the reservations of an operation one after the other. They share a
  contract: a reservation whose settlement event is there is passed over; otherwise its budget
  state is replaced, and an event that is not a reservation is appended under the settlement
  identifier.
\<close>

abbreviation reserves :: "(string, budget_event) dict \<Rightarrow> budget_event list" where
  "reserves events \<equiv> filter (\<lambda>e. be_transition e = ReserveBudget) (dvals events)"

definition settles ::
    "(budget_event \<Rightarrow> string) \<Rightarrow> (budget_event \<Rightarrow> budget_state \<Rightarrow> budget_state \<Rightarrow> bool) \<Rightarrow>
       resource_books \<Rightarrow> resource_books \<Rightarrow> budget_event \<Rightarrow> bool" where
  "settles ident effect books books' r \<longleftrightarrow>
     ident r \<in> set (dkeys (rb_events books'))
     \<and> (if ident r \<in> set (dkeys (rb_events books))
        then dget (rb_states books') (be_state r) = dget (rb_states books) (be_state r)
        else (\<exists>b b'. dget (rb_states books) (be_state r) = Some b \<and> effect r b b'
           \<and> dget (rb_states books') (be_state r) = Some b'))"

locale settlement =
  fixes settle :: "resource_books \<Rightarrow> budget_event \<Rightarrow> resource_error + ('res + resource_books)"
    and ident :: "budget_event \<Rightarrow> string"
    and effect :: "budget_event \<Rightarrow> budget_state \<Rightarrow> budget_state \<Rightarrow> bool"
    and ok :: "resource_books \<Rightarrow> bool"
  assumes settle_ok: "settle books r = Inr (Inr books') \<Longrightarrow> ok books \<Longrightarrow> ok books'"
    and settle_again: "ident r \<in> set (dkeys (rb_events books)) \<Longrightarrow> settle books r = Inr (Inr books)"
    and settle_new: "settle books r = Inr (Inr books') \<Longrightarrow> ok books \<Longrightarrow> ident r \<notin> set (dkeys (rb_events books)) \<Longrightarrow>
      \<exists>b b' e. dget (rb_states books) (be_state r) = Some b \<and> effect r b b'
        \<and> rb_states books' = dput (be_state r) b' (rb_states books)
        \<and> rb_events books' = rb_events books @ [(ident r, e)] \<and> be_transition e \<noteq> ReserveBudget"
    and ident_inj: "ident r = ident r' \<longleftrightarrow> be_state r = be_state r'"
begin

lemma step_effect:
  assumes "settle books r = Inr (Inr books')" and "ok books"
  shows "settles ident effect books books' r"
    and "ref \<noteq> be_state r \<Longrightarrow> dget (rb_states books') ref = dget (rb_states books) ref"
    and "set (dkeys (rb_events books')) = insert (ident r) (set (dkeys (rb_events books)))"
    and "reserves (rb_events books') = reserves (rb_events books)"
proof -
  have "settles ident effect books books' r
    \<and> (ref \<noteq> be_state r \<longrightarrow> dget (rb_states books') ref = dget (rb_states books) ref)
    \<and> set (dkeys (rb_events books')) = insert (ident r) (set (dkeys (rb_events books)))
    \<and> reserves (rb_events books') = reserves (rb_events books)"
  proof (cases "ident r \<in> set (dkeys (rb_events books))")
    case True
    with assms(1) have "books' = books" by (simp add: settle_again del: set_map list.set_map)
    with True show ?thesis by (simp add: settles_def insert_absorb del: set_map list.set_map)
  next
    case False
    from settle_new [OF assms False] obtain b b' e where
      new: "dget (rb_states books) (be_state r) = Some b" "effect r b b'"
        "rb_states books' = dput (be_state r) b' (rb_states books)"
        "rb_events books' = rb_events books @ [(ident r, e)]" "be_transition e \<noteq> ReserveBudget" by blast
    have "settles ident effect books books' r"
      using False new(1,2) unfolding settles_def new(3,4) by simp
    with new(3-5) show ?thesis by simp
  qed
  then show "settles ident effect books books' r"
    "ref \<noteq> be_state r \<Longrightarrow> dget (rb_states books') ref = dget (rb_states books) ref"
    "set (dkeys (rb_events books')) = insert (ident r) (set (dkeys (rb_events books)))"
    "reserves (rb_events books') = reserves (rb_events books)" by blast+
qed

lemma loop_effect:
  assumes "floop settle books rs = Inr (Inr books')" and "ok books" and "distinct (map be_state rs)"
  shows "ok books' \<and> (\<forall>r \<in> set rs. settles ident effect books books' r)
    \<and> (\<forall>ref. ref \<notin> be_state ` set rs \<longrightarrow> dget (rb_states books') ref = dget (rb_states books) ref)
    \<and> set (dkeys (rb_events books')) = ident ` set rs \<union> set (dkeys (rb_events books))
    \<and> reserves (rb_events books') = reserves (rb_events books)"
  using assms
proof (induction rs arbitrary: books)
  case Nil
  then show ?case by simp
next
  case (Cons r rs)
  from Cons.prems(1) obtain t where t: "settle books r = Inr (Inr t)" "floop settle t rs = Inr (Inr books')"
    unfolding floop_Cons_Inr by blast
  note first = step_effect [OF t(1) Cons.prems(2)]
  have out: "be_state r \<notin> be_state ` set rs" and "distinct (map be_state rs)" using Cons.prems(3) by simp_all
  note IH = Cons.IH [OF t(2) settle_ok [OF t(1) Cons.prems(2)] \<open>distinct (map be_state rs)\<close>]
  have keys: "set (dkeys (rb_events books')) = ident ` set (r # rs) \<union> set (dkeys (rb_events books))"
    using IH first(3) by (simp del: set_map list.set_map)
  have "settles ident effect books books' r"
  proof -
    have "dget (rb_states books') (be_state r) = dget (rb_states t) (be_state r)" using IH out by blast
    moreover have "ident r \<in> set (dkeys (rb_events books'))" unfolding keys by simp
    ultimately show ?thesis
      using first(1) unfolding settles_def by (simp only: simp_thms) (elim conjE, assumption)
  qed
  moreover have "settles ident effect books books' q" if q: "q \<in> set rs" for q
  proof -
    have other: "be_state q \<noteq> be_state r" using out q by (metis image_eqI)
    then have key: "(ident q \<in> set (dkeys (rb_events t))) = (ident q \<in> set (dkeys (rb_events books)))"
      unfolding first(3) by (simp add: ident_inj del: set_map list.set_map)
    have "settles ident effect t books' q = settles ident effect books books' q"
      unfolding settles_def by (simp only: key first(2) [OF other])
    with IH q show ?thesis by blast
  qed
  moreover have "dget (rb_states books') ref = dget (rb_states books) ref" if "ref \<notin> be_state ` set (r # rs)" for ref
    using IH first(2) [of ref] that by simp
  ultimately show ?case using IH keys first(4) by simp
qed

lemma loop_settled:
  "\<forall>r \<in> set rs. ident r \<in> set (dkeys (rb_events books)) \<Longrightarrow> floop settle books rs = Inr (Inr books)"
  by (induction rs) (simp_all add: settle_again del: set_map list.set_map)

end

definition commit_effect_of ::
    "string \<Rightarrow> int \<Rightarrow> (string, int) dict \<Rightarrow> string list \<Rightarrow> budget_event \<Rightarrow> budget_state \<Rightarrow> budget_state \<Rightarrow> bool" where
  "commit_effect_of operation g measured evidence r b b' \<longleftrightarrow>
     bs_generation b = g \<and> (\<exists>n. dget measured (be_state r) = Some n
       \<and> b' = committed_state b r n (operation_event_id operation (be_state r) ''commit'') evidence)"

definition release_effect_of ::
    "string \<Rightarrow> int \<Rightarrow> string list \<Rightarrow> budget_event \<Rightarrow> budget_state \<Rightarrow> budget_state \<Rightarrow> bool" where
  "release_effect_of operation g evidence r b b' \<longleftrightarrow>
     bs_generation b = g
     \<and> b' = released_state b r (operation_event_id operation (be_state r) ''release'') evidence"

lemma commit_event_facts [simp]:
  "be_id (commit_event operation g evidence r b n) = operation_event_id operation (be_state r) ''commit''"
  "be_transition (commit_event operation g evidence r b n) = CommitBudget"
  "be_id (release_event operation g evidence r b) = operation_event_id operation (be_state r) ''release''"
  "be_transition (release_event operation g evidence r b) = ReleaseBudget"
  by (simp_all add: commit_event_def release_event_def settlement_event_def)

interpretation committing: settlement
  "commit_reservation dg s operation g measured evidence" "\<lambda>r. operation_event_id operation (be_state r) ''commit''"
  "commit_effect_of operation g measured evidence" "books_ok dg policies"
  for dg s operation g measured evidence policies
proof
  fix books books' r
  assume run: "commit_reservation dg s operation g measured evidence books r = Inr (Inr books')" and ok: "books_ok dg policies books"
  from commit_reservation_ok [OF this] show "books_ok dg policies books'" by blast
  assume new: "operation_event_id operation (be_state r) ''commit'' \<notin> set (dkeys (rb_events books))"
  from run ok show "\<exists>b b' e. dget (rb_states books) (be_state r) = Some b
      \<and> commit_effect_of operation g measured evidence r b b'
      \<and> rb_states books' = dput (be_state r) b' (rb_states books)
      \<and> rb_events books' = rb_events books @ [(operation_event_id operation (be_state r) ''commit'', e)]
      \<and> be_transition e \<noteq> ReserveBudget"
  proof (cases rule: commit_reservation_cases)
    case (settled b n p a)
    with dput_absent [OF new [folded dget_None_iff]] show ?thesis
      by (intro exI [of _ b] exI [of _ "commit_event operation g evidence r b n"] exI) (auto simp: commit_effect_of_def)
  qed (use new in blast)
qed (simp_all add: commit_reservation_def operation_event_id_inj del: set_map list.set_map)

interpretation releasing: settlement
  "release_reservation dg s operation g evidence" "\<lambda>r. operation_event_id operation (be_state r) ''release''"
  "release_effect_of operation g evidence" "books_ok dg policies"
  for dg s operation g evidence policies
proof
  fix books books' r
  assume run: "release_reservation dg s operation g evidence books r = Inr (Inr books')" and ok: "books_ok dg policies books"
  from release_reservation_ok [OF this] show "books_ok dg policies books'" by blast
  assume new: "operation_event_id operation (be_state r) ''release'' \<notin> set (dkeys (rb_events books))"
  from run ok show "\<exists>b b' e. dget (rb_states books) (be_state r) = Some b
      \<and> release_effect_of operation g evidence r b b'
      \<and> rb_states books' = dput (be_state r) b' (rb_states books)
      \<and> rb_events books' = rb_events books @ [(operation_event_id operation (be_state r) ''release'', e)]
      \<and> be_transition e \<noteq> ReserveBudget"
  proof (cases rule: release_reservation_cases)
    case (settled b p a)
    with dput_absent [OF new [folded dget_None_iff]] show ?thesis
      by (intro exI [of _ b] exI [of _ "release_event operation g evidence r b"] exI) (auto simp: release_effect_of_def)
  qed (use new in blast)
qed (simp_all add: release_reservation_def operation_event_id_inj del: set_map list.set_map)

section \<open>A whole commit\<close>

lemma commit_success_cases:
  assumes run: "commit_participant_resource_reservation dg s operation g measured evidence = Inr r"
    and ok: "budget_ok dg policies s" and success: "result_success r" and some: "reservations_of s operation \<noteq> []"
  obtains books where "valid_measurement_vector (reservations_of s operation) measured evidence"
    "floop (commit_reservation dg s operation g measured evidence) (books_of s) (reservations_of s operation) = Inr (Inr books)"
    "store_books dg s books = Inr r"
proof -
  from run success some have valid: "valid_measurement_vector (reservations_of s operation) measured evidence"
    by (auto simp: commit_unfold [OF budget_okD(2) [OF ok]] split: if_splits)
  with run some obtain v where v: "floop (commit_reservation dg s operation g measured evidence) (books_of s)
      (reservations_of s operation) = Inr v"
    and rest: "(case v of Inl failure \<Rightarrow> Inr failure | Inr books \<Rightarrow> store_books dg s books) = Inr r"
    by (auto simp: commit_unfold [OF budget_okD(2) [OF ok]] ebind_eq_Inr)
  show thesis
  proof (cases v)
    case (Inl failure')
    with v rest have "floop (commit_reservation dg s operation g measured evidence) (books_of s)
      (reservations_of s operation) = Inr (Inl r)" by simp
    then have "\<not> result_success r"
      by (rule floop_break [where P = "\<lambda>_. True"]) (auto dest: commit_reservation_failure)
    with success show thesis by simp
  next
    case (Inr books)
    with v rest valid that show thesis by simp
  qed
qed

text \<open>
  The successful commit or release as a relation on the snapshots: every reservation of the
  operation is settled, no other budget changes, and the reservations themselves stay.
\<close>

definition operation_settled ::
    "(pool_identity \<Rightarrow> string) \<Rightarrow> runtime_policy list \<Rightarrow> (budget_event \<Rightarrow> string) \<Rightarrow>
       (budget_event \<Rightarrow> budget_state \<Rightarrow> budget_state \<Rightarrow> bool) \<Rightarrow> string \<Rightarrow>
       'r resource_snapshot \<Rightarrow> 'r resource_snapshot \<Rightarrow> bool" where
  "operation_settled dg policies ident effect operation s s' \<longleftrightarrow>
     budget_ok dg policies s'
     \<and> (\<forall>e \<in> set (reservations_of s operation). settles ident effect (books_of s) (books_of s') e)
     \<and> (\<forall>ref. ref \<notin> be_state ` set (reservations_of s operation) \<longrightarrow>
          dget (budget_states s') ref = dget (budget_states s) ref)
     \<and> set (dkeys (budget_events s')) = ident ` set (reservations_of s operation) \<union> set (dkeys (budget_events s))
     \<and> reserves (budget_events s') = reserves (budget_events s)"

lemma reservations_of_reserves:
  "reservations_of s operation = filter (\<lambda>e. be_operation e = operation) (reserves (budget_events s))"
  by (simp add: reservations_of_def conj_commute)

lemma stored_settlement:
  assumes "settlement settle ident effect (books_ok dg policies)"
    and loop: "floop settle (books_of s) (reservations_of s operation) = Inr (Inr books)"
    and stored: "store_books dg s books = Inr r" and ok: "budget_ok dg policies s"
  shows "operation_settled dg policies ident effect operation s (result_snapshot r)"
proof -
  note all = settlement.loop_effect [OF assms(1) loop books_of_ok [OF ok] reservations_distinct [OF budget_okD(3) [OF ok]]]
  obtain s' where s': "r = succeeded s'" "budget_ok dg policies s'" "budget_states s' = rb_states books"
    "pool_states s' = rb_pools books" "budget_events s' = rb_events books"
    using store_books_ok [OF stored conjunct1 [OF all] budget_okD(1) [OF ok]] by blast
  have books: "books_of s' = books" using s'(3-5) by (simp add: books_of_def)
  show ?thesis
    using all s'(1,2) unfolding operation_settled_def books s'(3,5) [symmetric]
    by (simp add: books s'(3,5) del: set_map list.set_map)
qed

lemma commit_settled:
  assumes run: "commit_participant_resource_reservation dg s operation g measured evidence = Inr r"
    and ok: "budget_ok dg policies s" and success: "result_success r" and some: "reservations_of s operation \<noteq> []"
  shows "operation_settled dg policies (\<lambda>r. operation_event_id operation (be_state r) ''commit'')
    (commit_effect_of operation g measured evidence) operation s (result_snapshot r)"
proof -
  obtain books where loop: "floop (commit_reservation dg s operation g measured evidence) (books_of s)
      (reservations_of s operation) = Inr (Inr books)" and stored: "store_books dg s books = Inr r"
    using commit_success_cases [OF run ok success some] by blast
  show ?thesis
    using committing.settlement_axioms loop stored ok by (rule stored_settlement)
qed

lemma release_settled:
  assumes run: "release_participant_resource_reservation dg s operation g evidence = Inr r"
    and ok: "budget_ok dg policies s" and success: "result_success r" and some: "reservations_of s operation \<noteq> []"
  shows "operation_settled dg policies (\<lambda>r. operation_event_id operation (be_state r) ''release'')
    (release_effect_of operation g evidence) operation s (result_snapshot r)"
proof -
  from run some obtain v where v: "floop (release_reservation dg s operation g evidence) (books_of s)
      (reservations_of s operation) = Inr v"
    and rest: "(case v of Inl failure \<Rightarrow> Inr failure | Inr books \<Rightarrow> store_books dg s books) = Inr r"
    by (auto simp: release_unfold [OF budget_okD(2) [OF ok]] ebind_eq_Inr)
  show ?thesis
  proof (cases v)
    case (Inl failure')
    with v rest have "floop (release_reservation dg s operation g evidence) (books_of s)
      (reservations_of s operation) = Inr (Inl r)" by simp
    then have "\<not> result_success r"
      by (rule floop_break [where P = "\<lambda>_. True"]) (auto dest: release_reservation_failure)
    with success show ?thesis by simp
  next
    case (Inr books)
    show ?thesis
      by (rule stored_settlement [OF releasing.settlement_axioms _ _ ok]) (use v rest Inr in simp_all)
  qed
qed

lemma settled_reservations:
  "operation_settled dg policies ident effect operation s s' \<Longrightarrow> reservations_of s' operation = reservations_of s operation"
  by (simp add: operation_settled_def reservations_of_reserves)

lemma commit_success_generation:
  assumes "commit_participant_resource_reservation dg s operation g measured evidence = Inr r"
    and "budget_ok dg policies s" and "result_success r" and "e \<in> set (reservations_of s operation)"
    and "operation_event_id operation (be_state e) ''commit'' \<notin> set (dkeys (budget_events s))"
  shows "\<exists>b. dget (budget_states s) (be_state e) = Some b \<and> bs_generation b = g"
proof -
  have "reservations_of s operation \<noteq> []" using assms(4) by auto
  from commit_settled [OF assms(1-3) this] assms(4)
  have "settles (\<lambda>r. operation_event_id operation (be_state r) ''commit'')
      (commit_effect_of operation g measured evidence) (books_of s) (books_of (result_snapshot r)) e"
    by (simp add: operation_settled_def)
  with assms(5) show ?thesis
    unfolding settles_def commit_effect_of_def by (auto simp del: set_map list.set_map)
qed

lemma commit_again:
  assumes "commit_participant_resource_reservation dg s operation g measured evidence = Inr r"
    and ok: "budget_ok dg policies s" and "result_success r" and some: "reservations_of s operation \<noteq> []"
  shows "commit_participant_resource_reservation dg (result_snapshot r) operation g' measured evidence
    = Inr (succeeded (result_snapshot r))"
proof -
  let ?s = "result_snapshot r"
  note all = commit_settled [OF assms]
  then have ok': "budget_ok dg policies ?s" by (simp add: operation_settled_def)
  note same = settled_reservations [OF all]
  have valid: "valid_measurement_vector (reservations_of s operation) measured evidence"
    using commit_success_cases [OF assms] by blast
  have "\<forall>e \<in> set (reservations_of s operation).
      operation_event_id operation (be_state e) ''commit'' \<in> set (dkeys (rb_events (books_of ?s)))"
    using all by (simp add: operation_settled_def settles_def del: set_map list.set_map)
  note loop = committing.loop_settled [OF this, of dg ?s g' measured evidence]
  have "store_books dg ?s (books_of ?s) = Inr (succeeded ?s)"
    using budget_okD(2) [OF ok'] by (simp add: store_books_eq_Inr snapshot_valid_def)
  then show ?thesis
    using some valid loop by (simp add: commit_unfold [OF budget_okD(2) [OF ok']] same)
qed

section \<open>Initialization\<close>

lemma initialize_loop_effect:
  assumes "floop (initialize_demand dg admitted pools s g) books jobs = Inr (Inr books')"
  shows "(\<forall>ref b. dget (fst books) ref = Some b \<longrightarrow> dget (fst books') ref = Some b)
    \<and> (\<forall>(policy, d) \<in> set jobs. \<exists>b. dget (fst books') (demand_state_ref policy d) = Some b \<and> bs_generation b = g
         \<and> (dget (fst books) (demand_state_ref policy d) = None \<longrightarrow>
              bs_reserved b = 0 \<and> bs_current b = 0 \<and> bs_cumulative b = 0))"
  using assms
proof (induction jobs arbitrary: books)
  case Nil
  then show ?case by simp
next
  case (Cons job jobs)
  obtain policy d where job: "job = (policy, d)" by (cases job)
  from Cons.prems obtain t where t: "initialize_demand dg admitted pools s g books (policy, d) = Inr (Inr t)"
    "floop (initialize_demand dg admitted pools s g) t jobs = Inr (Inr books')"
    unfolding job floop_Cons_Inr by blast
  let ?ref = "demand_state_ref policy d"
  have first: "(\<forall>ref b. dget (fst books) ref = Some b \<longrightarrow> dget (fst t) ref = Some b)
     \<and> (\<exists>b. dget (fst t) ?ref = Some b \<and> bs_generation b = g
         \<and> (dget (fst books) ?ref = None \<longrightarrow> bs_reserved b = 0 \<and> bs_current b = 0 \<and> bs_cumulative b = 0))
     \<and> (\<forall>ref b. dget (fst books) ref = None \<longrightarrow> dget (fst t) ref = Some b \<longrightarrow>
           bs_reserved b = 0 \<and> bs_current b = 0 \<and> bs_cumulative b = 0)"
    using t(1)
  proof (cases rule: initialize_demand_cases)
    case known
    then show ?thesis by simp
  next
    case (added c p p')
    then show ?thesis by auto
  qed
  note IH = Cons.IH [OF t(2)]
  have "\<exists>b. dget (fst books') (demand_state_ref q e) = Some b \<and> bs_generation b = g
         \<and> (dget (fst books) (demand_state_ref q e) = None \<longrightarrow>
              bs_reserved b = 0 \<and> bs_current b = 0 \<and> bs_cumulative b = 0)" if "(q, e) \<in> set jobs" for q e
  proof -
    from IH that obtain b where b: "dget (fst books') (demand_state_ref q e) = Some b" "bs_generation b = g"
      "dget (fst t) (demand_state_ref q e) = None \<longrightarrow> bs_reserved b = 0 \<and> bs_current b = 0 \<and> bs_cumulative b = 0"
      by auto
    show ?thesis
    proof (cases "dget (fst t) (demand_state_ref q e)")
      case None
      with b show ?thesis by blast
    next
      case (Some b')
      then have "b' = b" using IH b(1) by auto
      with Some first b show ?thesis by blast
    qed
  qed
  moreover have "\<exists>b. dget (fst books') ?ref = Some b \<and> bs_generation b = g
         \<and> (dget (fst books) ?ref = None \<longrightarrow> bs_reserved b = 0 \<and> bs_current b = 0 \<and> bs_cumulative b = 0)"
    using first IH by blast
  ultimately show ?case using first IH job by auto
qed

lemma initialize_success:
  assumes run: "initialize_participant_resource_budgets dg admitted pools s policies g = Inr r" and "result_success r"
  shows "\<exists>books. floop (initialize_demand dg admitted pools s g) (budget_states s, pool_states s)
      (policy_jobs policies) = Inr (Inr books) \<and> budget_states (result_snapshot r) = fst books"
proof -
  from run obtain v where v: "floop (initialize_demand dg admitted pools s g) (budget_states s, pool_states s)
      (policy_jobs policies) = Inr v"
    and rest: "(case v of Inl failure \<Rightarrow> Inr failure | Inr (states, physical) \<Rightarrow>
          ebind (with_resources dg s states physical (budget_events s)) (\<lambda>s'. Inr (succeeded s'))) = Inr r"
    unfolding initialize_participant_resource_budgets_def policy_jobs_def [symmetric] by (auto simp: ebind_eq_Inr)
  show ?thesis
  proof (cases v)
    case (Inl failure)
    with v rest have "floop (initialize_demand dg admitted pools s g) (budget_states s, pool_states s)
      (policy_jobs policies) = Inr (Inl r)" by simp
    then have "\<not> result_success r"
    proof (rule floop_break [where P = "\<lambda>_. True"])
      show "\<not> result_success r" if "initialize_demand dg admitted pools s g books job = Inr (Inl r)" for books job
        using initialize_demand_failure(1) [OF that] by simp
    qed simp_all
    with assms(2) show ?thesis by simp
  next
    case (Inr books)
    with v rest show ?thesis
      by (cases books) (auto simp: ebind_eq_Inr with_resources_eq_Inr)
  qed
qed

section \<open>Capacity\<close>

definition unprotected_total :: "pool_state \<Rightarrow> int" where
  "unprotected_total p =
     sum_list (map (allocation_use p) (filter (\<lambda>a. \<not> pa_protected a) (dvals (ps_allocations p))))"

lemma can_reserve_True:
  assumes "can_reserve p ref n = Inr True" and "dget (ps_allocations p) ref = Some a"
  shows "pool_allocated_total p + n \<le> ps_capacity p"
    and "\<not> pa_protected a \<Longrightarrow> unprotected_total p + n \<le> ps_capacity p - ps_protected p"
  using assms
  by (auto simp: can_reserve_def Let_def pool_allocated_total_def unprotected_total_def split: if_splits)

lemma reserve_totals:
  assumes "dict_ok (ps_allocations p)" and "dget (ps_allocations p) ref = Some a"
    and p': "p' = p\<lparr>ps_allocations := dput ref (a\<lparr>pa_reserved := pa_reserved a + n\<rparr>) (ps_allocations p)\<rparr>"
  shows "pool_allocated_total p' = pool_allocated_total p + n"
    and "\<not> pa_protected a \<Longrightarrow> unprotected_total p' = unprotected_total p + n"
proof -
  have use: "allocation_use p' = allocation_use p" by (auto simp: allocation_use_def p')
  have one: "allocation_use p (a\<lparr>pa_reserved := pa_reserved a + n\<rparr>) = allocation_use p a + n"
    by (simp add: allocation_use_def)
  show "pool_allocated_total p' = pool_allocated_total p + n"
    using sum_dput_present [OF assms(1,2), of "allocation_use p"] one
    by (simp add: pool_allocated_total_def use) (simp add: p')
  let ?f = "\<lambda>a. if \<not> pa_protected a then allocation_use p a else 0"
  have un: "unprotected_total q = sum_list (map ?f (dvals (ps_allocations q)))" if "allocation_use q = allocation_use p" for q
    unfolding unprotected_total_def that sum_list_map_filter' ..
  show "unprotected_total p' = unprotected_total p + n" if "\<not> pa_protected a"
    using sum_dput_present [OF assms(1,2), of ?f] one that un [OF use] un [of p]
    by (simp add: p')
qed

end
