(* ===== verification/ResourceAccounts.thy ===== *)
theory ResourceAccounts
  imports ResourceSettlement
begin

text \<open>
  What the reserved amount of a budget stands for: the requests of the reservations of its
  generation that no commit or release has settled. The agreement holds along the runs of clients
  that settle an operation one way only and in the generation that reserved it; with it, the use of
  a budget never passes its limit.
\<close>

section \<open>Reading event identifiers\<close>

definition colon_free :: "string \<Rightarrow> bool" where
  "colon_free s \<longleftrightarrow> CHR '':'' \<notin> set s"

lemma last_colon:
  assumes "colon_free w" and "colon_free w'"
  shows "a @ CHR '':'' # w = b @ CHR '':'' # w' \<longleftrightarrow> a = b \<and> w = w'"
proof
  assume eq: "a @ CHR '':'' # w = b @ CHR '':'' # w'"
  have last: "takeWhile (\<lambda>c. c \<noteq> CHR '':'') (rev (x @ CHR '':'' # v)) = rev v" if "colon_free v" for x v
  proof -
    have "\<forall>c \<in> set (rev v). c \<noteq> CHR '':''" using that by (auto simp: colon_free_def)
    then have "takeWhile (\<lambda>c. c \<noteq> CHR '':'') (rev v @ CHR '':'' # rev x) = rev v"
      by (subst takeWhile_append2) auto
    then show ?thesis by simp
  qed
  have "rev w = rev w'" using last [OF assms(1), of a] last [OF assms(2), of b] eq by simp
  with eq show "a = b \<and> w = w'" by simp
qed simp

lemma event_id_eq:
  assumes "colon_free w" "colon_free w'" "colon_free ref" "colon_free ref'"
  shows "operation_event_id operation ref w = operation_event_id operation' ref' w'
    \<longleftrightarrow> operation = operation' \<and> ref = ref' \<and> w = w'"
proof -
  have "operation_event_id operation ref w = operation_event_id operation' ref' w'
      \<longleftrightarrow> (operation @ CHR '':'' # ref) @ CHR '':'' # w = (operation' @ CHR '':'' # ref') @ CHR '':'' # w'"
    by (simp add: operation_event_id_def)
  also have "\<dots> \<longleftrightarrow> operation @ CHR '':'' # ref = operation' @ CHR '':'' # ref' \<and> w = w'"
    by (rule last_colon [OF assms(1,2)])
  also have "\<dots> \<longleftrightarrow> operation = operation' \<and> ref = ref' \<and> w = w'"
    unfolding last_colon [OF assms(3,4)] by blast
  finally show ?thesis .
qed

lemma event_id_words:
  assumes "colon_free w" "colon_free w'" "w \<noteq> w'"
  shows "operation_event_id operation ref w \<noteq> operation_event_id operation' ref' w'"
proof
  assume "operation_event_id operation ref w = operation_event_id operation' ref' w'"
  then have "(operation @ CHR '':'' # ref) @ CHR '':'' # w = (operation' @ CHR '':'' # ref') @ CHR '':'' # w'"
    by (simp add: operation_event_id_def)
  with last_colon [OF assms(1,2)] assms(3) show False by blast
qed

lemma words_plain [simp]:
  "colon_free ''commit''" "colon_free ''release''" "colon_free ''reserve''" "colon_free ''throttle''"
  by (simp_all add: colon_free_def)

definition refs_plain :: "runtime_policy list \<Rightarrow> bool" where
  "refs_plain policies \<longleftrightarrow> list_all (\<lambda>(policy, d). colon_free (demand_state_ref policy d)) (policy_jobs policies)"

lemma state_ref_dot: "CHR ''.'' \<in> set (demand_state_ref policy d)"
  by (simp add: demand_state_ref_def participant_resource_budget_state_ref_def)

lemma state_ref_plain:
  assumes "refs_plain policies" and "state_from_policies dg policies ref b"
  shows "colon_free ref" and "CHR ''.'' \<in> set ref"
  using assms state_ref_dot unfolding refs_plain_def state_from_policies_def list_ex_iff list_all_iff by auto

text \<open>Identifiers that no reservation, commit or release has.\<close>

definition inert :: "string \<Rightarrow> bool" where
  "inert i \<longleftrightarrow> (\<forall>operation ref. \<forall>w \<in> {''reserve'', ''commit'', ''release''}. i \<noteq> operation_event_id operation ref w)"

lemma throttle_inert: "inert (operation_event_id operation ref ''throttle'')"
  unfolding inert_def using event_id_words [of "''throttle''"] by auto

lemma reconcile_inert:
  assumes "colon_free ref" and "CHR ''.'' \<in> set ref"
  shows "inert (reconcile_operation_id policy g @ '':'' @ ref)"
  unfolding inert_def
proof (intro allI ballI notI)
  fix operation ref' and w :: string
  assume w: "w \<in> {''reserve'', ''commit'', ''release''}"
    and "reconcile_operation_id policy g @ '':'' @ ref = operation_event_id operation ref' w"
  then have "reconcile_operation_id policy g @ CHR '':'' # ref = (operation @ CHR '':'' # ref') @ CHR '':'' # w"
    by (simp add: operation_event_id_def)
  moreover have "colon_free w" using w by auto
  ultimately have "ref = w" using last_colon [OF assms(1)] by blast
  with w assms(2) show False by auto
qed

section \<open>Outstanding reservations\<close>

definition settled_in :: "string set \<Rightarrow> budget_event \<Rightarrow> bool" where
  "settled_in keys e \<longleftrightarrow>
     operation_event_id (be_operation e) (be_state e) ''commit'' \<in> keys
     \<or> operation_event_id (be_operation e) (be_state e) ''release'' \<in> keys"

definition outstanding :: "string set \<Rightarrow> budget_event list \<Rightarrow> string \<Rightarrow> int \<Rightarrow> int" where
  "outstanding keys rs ref g =
     sum_list (map be_requested (filter (\<lambda>e. be_state e = ref \<and> be_generation e = g \<and> \<not> settled_in keys e) rs))"

lemma inert_keys:
  assumes "\<forall>i \<in> K. inert i"
  shows "settled_in (keys \<union> K) e = settled_in keys e" and "outstanding (keys \<union> K) rs ref g = outstanding keys rs ref g"
    and "operation_event_id operation ref ''reserve'' \<in> keys \<union> K \<longleftrightarrow> operation_event_id operation ref ''reserve'' \<in> keys"
    and "operation_event_id operation ref ''commit'' \<in> keys \<union> K \<longleftrightarrow> operation_event_id operation ref ''commit'' \<in> keys"
    and "operation_event_id operation ref ''release'' \<in> keys \<union> K \<longleftrightarrow> operation_event_id operation ref ''release'' \<in> keys"
proof -
  have no: "operation_event_id o' r' w \<notin> K" if "w \<in> {''reserve'', ''commit'', ''release''}" for o' r' w
    using assms that unfolding inert_def by blast
  show s: "settled_in (keys \<union> K) e = settled_in keys e" for e
    unfolding settled_in_def using no by auto
  show "outstanding (keys \<union> K) rs ref g = outstanding keys rs ref g"
    unfolding outstanding_def s ..
  show "operation_event_id operation ref ''reserve'' \<in> keys \<union> K \<longleftrightarrow> operation_event_id operation ref ''reserve'' \<in> keys"
    "operation_event_id operation ref ''commit'' \<in> keys \<union> K \<longleftrightarrow> operation_event_id operation ref ''commit'' \<in> keys"
    "operation_event_id operation ref ''release'' \<in> keys \<union> K \<longleftrightarrow> operation_event_id operation ref ''release'' \<in> keys"
    using no by auto
qed

text \<open>
  The accounts of the budget states against the event identifiers and the reservations: every
  reservation belongs to a state and is not newer than it; what is settled was reserved; a policy's
  reservations are all there or none; the reserved amounts are the outstanding requests, and the use
  is within the limit and the configured capacity.
\<close>

definition accounts ::
    "runtime_policy list \<Rightarrow> (string, budget_state) dict \<Rightarrow> string set \<Rightarrow> budget_event list \<Rightarrow> bool" where
  "accounts policies states keys rs \<longleftrightarrow>
     (\<forall>e \<in> set rs. \<exists>b. dget states (be_state e) = Some b \<and> be_generation e \<le> bs_generation b)
   \<and> (\<forall>operation ref. colon_free ref \<longrightarrow>
        operation_event_id operation ref ''commit'' \<in> keys \<or> operation_event_id operation ref ''release'' \<in> keys \<longrightarrow>
        operation_event_id operation ref ''reserve'' \<in> keys)
   \<and> (\<forall>policy \<in> set policies. \<forall>operation. set (reserve_event_ids policy operation) \<inter> keys = {}
        \<or> set (reserve_event_ids policy operation) \<subseteq> keys)
   \<and> (\<forall>ref b. dget states ref = Some b \<longrightarrow>
        bs_reserved b = outstanding keys rs ref (bs_generation b)
        \<and> used_capacity b \<le> bs_limit b \<and> used_capacity b \<le> bs_capacity b)"

lemma accountsD:
  assumes "accounts policies states keys rs"
  shows "e \<in> set rs \<Longrightarrow> \<exists>b. dget states (be_state e) = Some b \<and> be_generation e \<le> bs_generation b"
    and "colon_free ref \<Longrightarrow> operation_event_id operation ref ''commit'' \<in> keys \<Longrightarrow> operation_event_id operation ref ''reserve'' \<in> keys"
    and "colon_free ref \<Longrightarrow> operation_event_id operation ref ''release'' \<in> keys \<Longrightarrow> operation_event_id operation ref ''reserve'' \<in> keys"
    and "policy \<in> set policies \<Longrightarrow> set (reserve_event_ids policy operation) \<inter> keys = {}
        \<or> set (reserve_event_ids policy operation) \<subseteq> keys"
    and "dget states ref = Some b \<Longrightarrow> bs_reserved b = outstanding keys rs ref (bs_generation b)"
    and "dget states ref = Some b \<Longrightarrow> used_capacity b \<le> bs_limit b"
    and "dget states ref = Some b \<Longrightarrow> used_capacity b \<le> bs_capacity b"
  using assms unfolding accounts_def by blast+

definition accounts_ok ::
    "(pool_identity \<Rightarrow> string) \<Rightarrow> runtime_policy list \<Rightarrow> 'r resource_snapshot \<Rightarrow> bool" where
  "accounts_ok dg policies s \<longleftrightarrow>
     budget_ok dg policies s \<and> refs_plain policies
     \<and> accounts policies (budget_states s) (set (dkeys (budget_events s))) (reserves (budget_events s))"

lemma accounts_inert:
  assumes "accounts policies states keys rs" and "\<forall>i \<in> K. inert i"
  shows "accounts policies states (keys \<union> K) rs"
proof -
  have ids: "set (reserve_event_ids policy operation) \<inter> K = {}" for policy operation
    using assms(2) unfolding inert_def reserve_event_ids_def by auto
  then have "set (reserve_event_ids policy operation) \<inter> (keys \<union> K) = set (reserve_event_ids policy operation) \<inter> keys"
    "set (reserve_event_ids policy operation) \<subseteq> keys \<union> K \<longleftrightarrow> set (reserve_event_ids policy operation) \<subseteq> keys"
    for policy operation by blast+
  then show ?thesis
    using assms(1) unfolding accounts_def inert_keys [OF assms(2)] by simp
qed

text \<open>Replacing states by ones with the same generation, reservation and smaller use.\<close>

lemma accounts_states:
  assumes acc: "accounts policies states keys rs"
    and kept: "\<And>ref b. dget states ref = Some b \<Longrightarrow> \<exists>b'. dget states' ref = Some b' \<and> bs_generation b \<le> bs_generation b'"
    and each: "\<And>ref b'. dget states' ref = Some b' \<Longrightarrow> bs_reserved b' = outstanding keys rs ref (bs_generation b')
        \<and> used_capacity b' \<le> bs_limit b' \<and> used_capacity b' \<le> bs_capacity b'"
  shows "accounts policies states' keys rs"
proof -
  have "\<exists>b'. dget states' (be_state e) = Some b' \<and> be_generation e \<le> bs_generation b'" if "e \<in> set rs" for e
    using accountsD(1) [OF acc that] kept by (meson order_trans)
  then show ?thesis
    using acc each unfolding accounts_def by blast
qed

lemma outstanding_newer:
  assumes "\<And>e. e \<in> set rs \<Longrightarrow> be_state e = ref \<Longrightarrow> be_generation e < g"
  shows "outstanding keys rs ref g = 0"
proof -
  have "filter (\<lambda>e. be_state e = ref \<and> be_generation e = g \<and> \<not> settled_in keys e) rs = []"
    using assms by (auto simp: filter_empty_conv)
  then show ?thesis by (simp add: outstanding_def)
qed

section \<open>Settling one operation\<close>

lemma sum_filter_remove:
  fixes f :: "'a \<Rightarrow> int"
  assumes "distinct xs" and "x \<in> set xs" and "P x"
  shows "sum_list (map f (filter P xs)) = f x + sum_list (map f (filter (\<lambda>y. P y \<and> y \<noteq> x) xs))"
  using assms
proof (induction xs)
  case Nil
  then show ?case by simp
next
  case (Cons y xs)
  show ?case
  proof (cases "y = x")
    case True
    with Cons.prems have "filter (\<lambda>z. P z \<and> z \<noteq> x) xs = filter P xs" by (intro filter_cong) auto
    with True Cons.prems show ?thesis by simp
  next
    case False
    with Cons show ?thesis by auto
  qed
qed

lemma sum_filter_nonneg:
  fixes f :: "'a \<Rightarrow> int"
  assumes "\<And>x. x \<in> set xs \<Longrightarrow> 0 \<le> f x"
  shows "0 \<le> sum_list (map f (filter P xs))"
  using assms by (intro sum_list_nonneg_map) auto

text \<open>One more settled reservation takes its request out of the sum of its state, and of no other.\<close>

lemma outstanding_settle:
  assumes distinct: "distinct rs" and r: "r \<in> set rs" and open_r: "\<not> settled_in keys r"
    and alone: "\<And>e. e \<in> set rs \<Longrightarrow> be_state e = be_state r \<Longrightarrow> settled_in keys' e \<longleftrightarrow> settled_in keys e \<or> e = r"
    and nonneg: "\<And>e. e \<in> set rs \<Longrightarrow> 0 \<le> be_requested e"
  shows "outstanding keys rs (be_state r) (be_generation r)
       = be_requested r + outstanding keys' rs (be_state r) (be_generation r)"
    and "be_requested r \<le> outstanding keys rs (be_state r) (be_generation r)"
proof -
  let ?P = "\<lambda>e. be_state e = be_state r \<and> be_generation e = be_generation r \<and> \<not> settled_in keys e"
  have "filter (\<lambda>e. ?P e \<and> e \<noteq> r) rs
      = filter (\<lambda>e. be_state e = be_state r \<and> be_generation e = be_generation r \<and> \<not> settled_in keys' e) rs"
    using alone by (intro filter_cong) auto
  then show eq: "outstanding keys rs (be_state r) (be_generation r)
       = be_requested r + outstanding keys' rs (be_state r) (be_generation r)"
    using sum_filter_remove [OF distinct r, of ?P be_requested] open_r by (simp add: outstanding_def)
  have "0 \<le> outstanding keys' rs (be_state r) (be_generation r)"
    unfolding outstanding_def by (rule sum_filter_nonneg) (rule nonneg)
  with eq show "be_requested r \<le> outstanding keys rs (be_state r) (be_generation r)" by simp
qed

section \<open>Inert events\<close>

lemma filter_dput:
  assumes "\<And>v. dget d k = Some v \<Longrightarrow> \<not> P v" and "\<not> P w"
  shows "filter P (dvals (dput k w d)) = filter P (dvals d)"
  using assms
proof (induction d)
  case Nil
  then show ?case by simp
next
  case (Cons x d)
  obtain i v where x: "x = (i, v)" by (cases x)
  show ?case
  proof (cases "i = k")
    case True
    with Cons.prems x show ?thesis by simp
  next
    case False
    with Cons x show ?thesis by simp
  qed
qed

lemma reserves_dput:
  assumes "events_shaped ev" and "inert (be_id e)" and "be_transition e \<noteq> ReserveBudget"
  shows "reserves (dput (be_id e) e ev) = reserves ev"
proof (rule filter_dput)
  fix v assume "dget ev (be_id e) = Some v"
  then have "(be_id e, v) \<in> set ev" by (rule map_of_SomeD)
  then have "be_id e = be_id v" "event_shaped v" using events_shapedD(2,3) [OF assms(1)] by blast+
  with assms(2) show "be_transition v \<noteq> ReserveBudget"
    by (auto simp: inert_def event_shaped_def)
qed (use assms(3) in simp)

lemma inert_events:
  assumes "events_shaped ev" and "\<forall>e \<in> set es. inert (be_id e) \<and> be_transition e \<noteq> ReserveBudget \<and> event_shaped e"
  shows "reserves (foldl (\<lambda>ev e. dput (be_id e) e ev) ev es) = reserves ev"
    and "set (dkeys (foldl (\<lambda>ev e. dput (be_id e) e ev) ev es)) = set (dkeys ev) \<union> be_id ` set es"
proof -
  have "reserves (foldl (\<lambda>ev e. dput (be_id e) e ev) ev es) = reserves ev
    \<and> set (dkeys (foldl (\<lambda>ev e. dput (be_id e) e ev) ev es)) = set (dkeys ev) \<union> be_id ` set es"
    using assms
  proof (induction es arbitrary: ev)
    case Nil
    then show ?case by simp
  next
    case (Cons e es)
    have "events_shaped (dput (be_id e) e ev)"
      using Cons.prems by (intro events_shaped_dput) auto
    note IH = Cons.IH [OF this]
    have "reserves (dput (be_id e) e ev) = reserves ev"
      using Cons.prems by (intro reserves_dput) auto
    moreover have "set (dkeys (dput (be_id e) e ev)) = insert (be_id e) (set (dkeys ev))" by (rule dkeys_dput)
    ultimately show ?case using IH Cons.prems(2) by (simp del: set_map list.set_map)
  qed
  then show "reserves (foldl (\<lambda>ev e. dput (be_id e) e ev) ev es) = reserves ev"
    "set (dkeys (foldl (\<lambda>ev e. dput (be_id e) e ev) ev es)) = set (dkeys ev) \<union> be_id ` set es" by blast+
qed

section \<open>The reservations of a snapshot\<close>

lemma reserves_facts:
  assumes "budget_ok dg policies s" and "e \<in> set (reserves (budget_events s))"
  shows "be_id e = operation_event_id (be_operation e) (be_state e) ''reserve''"
    and "be_id e \<in> set (dkeys (budget_events s))" and "0 \<le> be_requested e" and "(be_id e, e) \<in> set (budget_events s)"
proof -
  from assms(2) obtain i where i: "(i, e) \<in> set (budget_events s)" and tr: "be_transition e = ReserveBudget" by auto
  note shaped = budget_okD(3) [OF assms(1)]
  from events_shapedD(2,3) [OF shaped i] i tr
  show "be_id e = operation_event_id (be_operation e) (be_state e) ''reserve''"
    "be_id e \<in> set (dkeys (budget_events s))" "(be_id e, e) \<in> set (budget_events s)"
    by (auto simp: event_shaped_def rev_image_eqI)
  have "check_budget_event e = Inr ()"
    using budget_okD(2) [OF assms(1)] i by (auto simp: snapshot_valid_def require_snapshot_iff)
  then show "0 \<le> be_requested e"
    by (auto simp: check_budget_event_def within_def ebind_eq_Inr require_eq_Inr)
qed

lemma reserves_distinct:
  assumes "budget_ok dg policies s"
  shows "distinct (reserves (budget_events s))"
    and "e \<in> set (reserves (budget_events s)) \<Longrightarrow> e' \<in> set (reserves (budget_events s)) \<Longrightarrow>
      be_operation e = be_operation e' \<Longrightarrow> be_state e = be_state e' \<Longrightarrow> e = e'"
proof -
  note ok = events_shapedD(1) [OF budget_okD(3) [OF assms]]
  show "e = e'" if "e \<in> set (reserves (budget_events s))" "e' \<in> set (reserves (budget_events s))"
    "be_operation e = be_operation e'" "be_state e = be_state e'"
  proof -
    have "be_id e = be_id e'" using reserves_facts(1) [OF assms that(1)] reserves_facts(1) [OF assms that(2)] that(3,4) by simp
    with reserves_facts(4) [OF assms that(1)] reserves_facts(4) [OF assms that(2)]
    show ?thesis using dget_Some_iff [OF ok] by (metis option.inject)
  qed
  have "inj_on snd (set (budget_events s))"
  proof (rule inj_onI)
    fix x y assume "x \<in> set (budget_events s)" "y \<in> set (budget_events s)" "snd x = snd y"
    then show "x = y"
      using events_shapedD(2) [OF budget_okD(3) [OF assms]] by (metis prod.collapse)
  qed
  moreover have "distinct (budget_events s)" using ok by (simp add: distinct_map)
  ultimately show "distinct (reserves (budget_events s))" by (simp add: distinct_map)
qed

end
