(* ===== verification/ResourceGoverned.thy ===== *)
theory ResourceGoverned
  imports ResourceAccounts
begin

text \<open>
  Every operation keeps the accounts, for the clients that settle an operation one way only and in
  its own generation: the step relation of such clients, and its invariant by rule induction.
\<close>

lemma accounts_okD:
  assumes "accounts_ok dg policies s"
  shows "budget_ok dg policies s" "refs_plain policies"
    "accounts policies (budget_states s) (set (dkeys (budget_events s))) (reserves (budget_events s))"
  using assms by (simp_all add: accounts_ok_def)

lemma reservation_plain:
  assumes "accounts_ok dg policies s" and "e \<in> set (reserves (budget_events s))"
  shows "colon_free (be_state e)"
proof -
  note ok = accounts_okD [OF assms(1)]
  from accountsD(1) [OF ok(3) assms(2)] obtain b where "dget (budget_states s) (be_state e) = Some b" by blast
  from books_soundD(6) [OF budget_okD(4) [OF ok(1)] this] state_ref_plain(1) [OF ok(2)] show ?thesis by blast
qed

section \<open>Throttling\<close>

lemma throttled_accounts:
  assumes ok: "accounts_ok dg policies s" and thr: "only_throttled dg operation s s'"
  shows "accounts_ok dg policies s'"
proof -
  note facts = accounts_okD [OF ok]
  from thr obtain ref b e where b: "dget (budget_states s) ref = Some b"
    and e: "be_id e = operation_event_id operation ref ''throttle''" "be_transition e = ThrottleBudget"
    and s': "s' = s\<lparr>budget_states := dput ref (b\<lparr>bs_throttled := bs_throttled b + 1, bs_last_event := be_id e\<rparr>) (budget_states s),
       budget_events := dput (be_id e) e (budget_events s)\<rparr>"
    unfolding only_throttled_def by blast
  have inert: "inert (be_id e)" unfolding e(1) by (rule throttle_inert)
  have same: "reserves (budget_events s') = reserves (budget_events s)"
    using reserves_dput [OF budget_okD(3) [OF facts(1)] inert] e(2) by (simp add: s')
  have keys: "set (dkeys (budget_events s')) = set (dkeys (budget_events s)) \<union> {be_id e}"
    using dkeys_dput [of "be_id e" e "budget_events s"] by (simp add: s' del: set_map list.set_map)
  have "accounts policies (budget_states s') (set (dkeys (budget_events s))) (reserves (budget_events s))"
  proof (rule accounts_states [OF facts(3)])
    fix r c assume "dget (budget_states s) r = Some c"
    with b show "\<exists>c'. dget (budget_states s') r = Some c' \<and> bs_generation c \<le> bs_generation c'"
      by (auto simp: s')
  next
    fix r c' assume c': "dget (budget_states s') r = Some c'"
    then obtain c where c: "dget (budget_states s) r = Some c"
      and same: "bs_reserved c' = bs_reserved c" "bs_generation c' = bs_generation c" "bs_limit c' = bs_limit c"
        "bs_capacity c' = bs_capacity c" "used_capacity c' = used_capacity c"
    proof (cases "r = ref")
      case True
      with c' have "c' = b\<lparr>bs_throttled := bs_throttled b + 1, bs_last_event := be_id e\<rparr>" by (simp add: s')
      with b True that show thesis by (simp add: used_capacity_def)
    next
      case False
      with c' that show thesis by (simp add: s')
    qed
    show "bs_reserved c' = outstanding (set (dkeys (budget_events s))) (reserves (budget_events s)) r (bs_generation c')
        \<and> used_capacity c' \<le> bs_limit c' \<and> used_capacity c' \<le> bs_capacity c'"
      using accountsD(5-7) [OF facts(3) c] unfolding same by blast
  qed
  then have "accounts policies (budget_states s') (set (dkeys (budget_events s'))) (reserves (budget_events s'))"
    unfolding keys same by (rule accounts_inert) (use inert in simp)
  with only_throttled_ok(1) [OF facts(1) thr] facts(2) show ?thesis
    by (simp add: accounts_ok_def)
qed

section \<open>Commit and release\<close>

text \<open>The operation was reserved in generation \<open>g\<close> and has not been settled the other way.\<close>

definition in_flight :: "'r resource_snapshot \<Rightarrow> string \<Rightarrow> int \<Rightarrow> string \<Rightarrow> bool" where
  "in_flight s operation g other \<longleftrightarrow>
     list_all (\<lambda>r. be_generation r = g
        \<and> operation_event_id operation (be_state r) other \<notin> set (dkeys (budget_events s))) (reservations_of s operation)"

lemma settled_accounts:
  assumes ok: "accounts_ok dg policies s"
    and settled: "operation_settled dg policies (\<lambda>r. operation_event_id operation (be_state r) w) effect operation s s'"
    and words: "w = ''commit'' \<and> other = ''release'' \<or> w = ''release'' \<and> other = ''commit''"
    and flight: "in_flight s operation g other"
    and effect: "\<And>r b b'. r \<in> set (reservations_of s operation) \<Longrightarrow> effect r b b' \<Longrightarrow> bs_generation b = g \<and> bs_generation b' = g
      \<and> bs_reserved b' = max 0 (bs_reserved b - be_requested r) \<and> bs_limit b' = bs_limit b \<and> bs_capacity b' = bs_capacity b
      \<and> (be_requested r \<le> bs_reserved b \<longrightarrow> used_capacity b' \<le> used_capacity b)"
  shows "accounts_ok dg policies s'"
proof -
  note facts = accounts_okD [OF ok]
  let ?keys = "set (dkeys (budget_events s))"
  let ?rs = "reserves (budget_events s)"
  let ?ids = "(\<lambda>r. operation_event_id operation (be_state r) w) ` set (reservations_of s operation)"
  have plain: "colon_free w" "colon_free other" "w \<noteq> other" using words by auto
  from settled have ok': "budget_ok dg policies s'"
    and each: "\<And>r. r \<in> set (reservations_of s operation) \<Longrightarrow>
      settles (\<lambda>r. operation_event_id operation (be_state r) w) effect (books_of s) (books_of s') r"
    and frame: "\<And>ref. ref \<notin> be_state ` set (reservations_of s operation) \<Longrightarrow>
      dget (budget_states s') ref = dget (budget_states s) ref"
    and keys: "set (dkeys (budget_events s')) = ?ids \<union> ?keys" and same: "reserves (budget_events s') = ?rs"
    unfolding operation_settled_def by blast+
  have mem: "r \<in> set ?rs \<and> be_operation r = operation" if "r \<in> set (reservations_of s operation)" for r
    using that by (auto simp: reservations_of_def)
  have new_id: "operation_event_id o' ref' v \<in> ?ids \<longleftrightarrow>
      v = w \<and> o' = operation \<and> ref' \<in> be_state ` set (reservations_of s operation)"
    if "colon_free ref'" "colon_free v" for o' ref' v
  proof -
    have "operation_event_id o' ref' v = operation_event_id operation (be_state r) w \<longleftrightarrow>
        o' = operation \<and> ref' = be_state r \<and> v = w" if "r \<in> set (reservations_of s operation)" for r
      using event_id_eq [OF \<open>colon_free v\<close> plain(1) \<open>colon_free ref'\<close>] reservation_plain [OF ok] mem [OF that] by blast
    then show ?thesis by auto
  qed
  have step: "settled_in (?ids \<union> ?keys) e \<longleftrightarrow> settled_in ?keys e
      \<or> be_operation e = operation \<and> be_state e \<in> be_state ` set (reservations_of s operation)" if "e \<in> set ?rs" for e
    unfolding settled_in_def using new_id [OF reservation_plain [OF ok that]] words by auto
  have only: "settled_in (?ids \<union> ?keys) e \<longleftrightarrow> settled_in ?keys e \<or> e = r"
    if "e \<in> set ?rs" "r \<in> set (reservations_of s operation)" "be_state e = be_state r" for e r
    using step [OF that(1)] reserves_distinct(2) [OF facts(1) that(1)] mem [OF that(2)] that(2,3) by auto
  have state: "bs_reserved b' = outstanding (?ids \<union> ?keys) ?rs ref (bs_generation b')
      \<and> used_capacity b' \<le> bs_limit b' \<and> used_capacity b' \<le> bs_capacity b'
      \<and> (\<exists>b. dget (budget_states s) ref = Some b \<and> bs_generation b' = bs_generation b)"
    if b': "dget (budget_states s') ref = Some b'" for ref b'
  proof (cases "\<exists>r \<in> set (reservations_of s operation). be_state r = ref
      \<and> operation_event_id operation (be_state r) w \<notin> ?keys")
    case True
    then obtain r where r: "r \<in> set (reservations_of s operation)" "be_state r = ref"
      and new: "operation_event_id operation (be_state r) w \<notin> ?keys" by blast
    from each [OF r(1)] new b' r(2) obtain b where b: "dget (budget_states s) ref = Some b" and eff: "effect r b b'"
      unfolding settles_def by (auto simp del: set_map list.set_map)
    note eff = effect [OF r(1) eff]
    have gen: "be_generation r = g" and free: "operation_event_id operation (be_state r) other \<notin> ?keys"
      using flight r(1) by (auto simp: in_flight_def list_all_iff simp del: set_map list.set_map)
    have "\<not> settled_in ?keys r"
      using new free words mem [OF r(1)] unfolding settled_in_def by auto
    from outstanding_settle [OF reserves_distinct(1) [OF facts(1)] _ this only [OF _ r(1)] reserves_facts(3) [OF facts(1)]]
    have sum: "outstanding ?keys ?rs ref g = be_requested r + outstanding (?ids \<union> ?keys) ?rs ref g"
      "be_requested r \<le> outstanding ?keys ?rs ref g"
      using mem [OF r(1)] r(2) gen by auto
    have "bs_reserved b = outstanding ?keys ?rs ref g"
      using accountsD(5) [OF facts(3) b] eff by simp
    with sum eff have "bs_reserved b' = outstanding (?ids \<union> ?keys) ?rs ref g" "be_requested r \<le> bs_reserved b" by auto
    with eff accountsD(6,7) [OF facts(3) b] b show ?thesis by auto
  next
    case False
    have b: "dget (budget_states s) ref = Some b'"
    proof (cases "ref \<in> be_state ` set (reservations_of s operation)")
      case True
      then obtain r where r: "r \<in> set (reservations_of s operation)" "be_state r = ref" by blast
      with False have "operation_event_id operation (be_state r) w \<in> ?keys" by blast
      with each [OF r(1)] b' r(2) show ?thesis unfolding settles_def by (simp del: set_map list.set_map)
    next
      case False
      with frame b' show ?thesis by simp
    qed
    have "settled_in (?ids \<union> ?keys) e = settled_in ?keys e" if e: "e \<in> set ?rs" "be_state e = ref" for e
    proof (cases "be_operation e = operation \<and> be_state e \<in> be_state ` set (reservations_of s operation)")
      case True
      then have "e \<in> set (reservations_of s operation)" using e(1) by (auto simp: reservations_of_def)
      with False e(2) True have "settled_in ?keys e" unfolding settled_in_def using words by auto
      with step [OF e(1)] show ?thesis by blast
    qed (use step [OF e(1)] in blast)
    then have "outstanding (?ids \<union> ?keys) ?rs ref h = outstanding ?keys ?rs ref h" for h
      unfolding outstanding_def by (intro arg_cong [where f = sum_list] arg_cong [where f = "map be_requested"] filter_cong) auto
    with accountsD(5-7) [OF facts(3) b] b show ?thesis by simp
  qed
  have reserved: "operation_event_id operation (be_state r) ''reserve'' \<in> ?keys" if "r \<in> set (reservations_of s operation)" for r
    using reserves_facts(1,2) [OF facts(1)] mem [OF that] by metis
  have "accounts policies (budget_states s') (?ids \<union> ?keys) ?rs"
    unfolding accounts_def
  proof (intro conjI allI ballI impI)
    fix e assume e: "e \<in> set ?rs"
    from accountsD(1) [OF facts(3) e] obtain b where b: "dget (budget_states s) (be_state e) = Some b"
      "be_generation e \<le> bs_generation b" by blast
    have "\<exists>b'. dget (budget_states s') (be_state e) = Some b'"
    proof (cases "be_state e \<in> be_state ` set (reservations_of s operation)")
      case True
      then obtain r where r: "r \<in> set (reservations_of s operation)" "be_state r = be_state e" by auto
      from each [OF r(1)] b(1) r(2) show ?thesis
        by (cases "operation_event_id operation (be_state e) w \<in> ?keys") (auto simp: settles_def simp del: set_map list.set_map)
    qed (use frame b in simp)
    then obtain b' where b': "dget (budget_states s') (be_state e) = Some b'" by blast
    with state [OF b'] b show "\<exists>b. dget (budget_states s') (be_state e) = Some b \<and> be_generation e \<le> bs_generation b" by auto
  next
    fix o' ref
    assume plain_ref: "colon_free ref" and "operation_event_id o' ref ''commit'' \<in> ?ids \<union> ?keys
        \<or> operation_event_id o' ref ''release'' \<in> ?ids \<union> ?keys"
    then consider "operation_event_id o' ref ''commit'' \<in> ?keys" | "operation_event_id o' ref ''release'' \<in> ?keys"
      | "operation_event_id o' ref ''commit'' \<in> ?ids" | "operation_event_id o' ref ''release'' \<in> ?ids" by blast
    then show "operation_event_id o' ref ''reserve'' \<in> ?ids \<union> ?keys"
      using accountsD(2,3) [OF facts(3) plain_ref] new_id [OF plain_ref] reserved by cases auto
  next
    fix policy o' assume policy: "policy \<in> set policies"
    have "set (reserve_event_ids policy o') \<inter> ?ids = {}"
      unfolding reserve_event_ids_def using event_id_words [of "''reserve''" w] plain(1) words by auto
    with accountsD(4) [OF facts(3) policy, of o']
    show "set (reserve_event_ids policy o') \<inter> (?ids \<union> ?keys) = {} \<or> set (reserve_event_ids policy o') \<subseteq> ?ids \<union> ?keys" by blast
  qed (use state in blast)+
  then show ?thesis
    using ok' facts(2) unfolding accounts_ok_def keys same by blast
qed

section \<open>Reservation\<close>

lemma filter_single: "distinct (map k xs) \<Longrightarrow> x \<in> set xs \<Longrightarrow> filter (\<lambda>y. k y = k x) xs = [x]"
proof (induction xs)
  case Nil
  then show ?case by simp
next
  case (Cons y xs)
  show ?case
  proof (cases "y = x")
    case True
    with Cons.prems have "filter (\<lambda>z. k z = k x) xs = []" by (auto simp: filter_empty_conv) (metis image_eqI)
    with True show ?thesis by simp
  next
    case False
    with Cons.prems have "x \<in> set xs" "k y \<noteq> k x" by auto
    with Cons show ?thesis by simp
  qed
qed

lemma outstanding_append:
  "outstanding keys (rs @ es) ref g = outstanding keys rs ref g + outstanding keys es ref g"
  by (simp add: outstanding_def)

lemma check_event_facts [simp]:
  "be_transition (check_event m c) = ReserveBudget" "be_state (check_event m c) = check_ref c"
  "be_generation (check_event m c) = rv_generation m" "be_operation (check_event m c) = rv_operation m"
  by (cases c; simp add: reservation_event_def)+

lemma check_id_ref: "check_id operation c = operation_event_id operation (check_ref c) ''reserve''"
  by (cases c) simp

fun check_amount :: "reservation_check \<Rightarrow> int" where
  "check_amount (Checked d b p n) = n"

fun check_state :: "reservation_check \<Rightarrow> budget_state" where
  "check_state (Checked d b p n) = b"

lemma check_event_amount [simp]: "be_requested (check_event m c) = check_amount c"
  by (cases c) (simp add: reservation_event_def)

lemma checks_of_states:
  assumes "checks_of dg s policy generation requested cs" and "c \<in> set cs"
  shows "dget (budget_states s) (check_ref c) = Some (check_state c)"
    and "bs_generation (check_state c) = generation"
    and "used_capacity (check_state c) + check_amount c \<le> min (bs_limit (check_state c)) (bs_capacity (check_state c))"
proof -
  from assms obtain d where "demand_checked dg s policy generation requested d c"
    unfolding checks_of_def by (metis in_set_conv_nth list_all2_conv_all_nth)
  then show "dget (budget_states s) (check_ref c) = Some (check_state c)"
    "bs_generation (check_state c) = generation"
    "used_capacity (check_state c) + check_amount c \<le> min (bs_limit (check_state c)) (bs_capacity (check_state c))"
    by (cases c; simp)+
qed

lemma state_refs_distinct:
  assumes "separate_policies dg policies" and "policy \<in> set policies"
  shows "distinct (map (demand_state_ref policy) (rp_demands policy))"
    and "policy' \<in> set policies \<Longrightarrow> d \<in> set (rp_demands policy) \<Longrightarrow> d' \<in> set (rp_demands policy') \<Longrightarrow>
      demand_state_ref policy d = demand_state_ref policy' d' \<Longrightarrow> policy' = policy"
proof -
  have inj: "inj_on (\<lambda>(policy, d). demand_state_ref policy d) (set (policy_jobs policies))"
    using assms(1) by (simp add: separate_policies_def distinct_map)
  have "distinct (map (demand_pool_ref dg) (rp_demands policy))"
    using assms by (simp add: separate_policies_def list_all_iff)
  then have "distinct (rp_demands policy)" by (simp add: distinct_map)
  moreover have "inj_on (demand_state_ref policy) (set (rp_demands policy))"
  proof (rule inj_onI)
    fix d d' assume "d \<in> set (rp_demands policy)" "d' \<in> set (rp_demands policy)"
      "demand_state_ref policy d = demand_state_ref policy d'"
    with inj_onD [OF inj, of "(policy, d)" "(policy, d')"] assms(2) show "d = d'" by (simp add: policy_jobs_iff)
  qed
  ultimately show "distinct (map (demand_state_ref policy) (rp_demands policy))" by (simp add: distinct_map)
  show "policy' \<in> set policies \<Longrightarrow> d \<in> set (rp_demands policy) \<Longrightarrow> d' \<in> set (rp_demands policy') \<Longrightarrow>
      demand_state_ref policy d = demand_state_ref policy' d' \<Longrightarrow> policy' = policy"
    using inj_onD [OF inj, of "(policy, d)" "(policy', d')"] assms(2) by (simp add: policy_jobs_iff)
qed

lemma ids_of_checks:
  assumes "checks_of dg s policy generation requested cs"
  shows "map (check_id operation) cs = reserve_event_ids policy operation"
proof -
  have "map (check_id operation) cs = map (\<lambda>r. operation_event_id operation r ''reserve'') (map check_ref cs)"
    by (simp add: check_id_ref)
  also have "\<dots> = reserve_event_ids policy operation"
    unfolding checks_of_ready(3) [OF assms] by (simp add: reserve_event_ids_def)
  finally show ?thesis .
qed

lemma reservation_events:
  assumes ok: "accounts_ok dg policies s" and policy: "policy \<in> set policies"
    and new: "\<not> reservation_repeated s policy operation"
    and cs: "checks_of dg s policy generation requested cs"
    and ev: "ev = foldl (\<lambda>ev c. dput (check_id operation c) (check_event m c) ev) (budget_events s) cs"
  shows "ev = budget_events s @ map (\<lambda>c. (check_id operation c, check_event m c)) cs"
    and "set (reserve_event_ids policy operation) \<inter> set (dkeys (budget_events s)) = {}"
proof -
  note facts = accounts_okD [OF ok]
  show fresh: "set (reserve_event_ids policy operation) \<inter> set (dkeys (budget_events s)) = {}"
    using accountsD(4) [OF facts(3) policy, of operation] new
    by (cases "rp_demands policy = []") (auto simp: reservation_repeated_def reserve_event_ids_def simp del: set_map)
  have "distinct (map check_ref cs)"
    unfolding checks_of_ready(3) [OF cs] by (rule state_refs_distinct(1) [OF budget_okD(1) [OF facts(1)] policy])
  then have "distinct (map (check_id operation) cs)"
    by (simp add: distinct_map inj_on_def check_id_ref operation_event_id_inj)
  moreover have "dict_ok (budget_events s)" by (rule events_shapedD(1) [OF budget_okD(3) [OF facts(1)]])
  ultimately have "distinct (dkeys (budget_events s) @ map (check_id operation) cs)"
    using fresh unfolding ids_of_checks [OF cs, of operation, symmetric] by auto
  then show "ev = budget_events s @ map (\<lambda>c. (check_id operation c, check_event m c)) cs"
    unfolding ev by (rule foldl_dput_distinct)
qed

lemma outstanding_checks:
  assumes "distinct (map check_ref cs)" and "rv_generation m = g"
    and "\<And>c. c \<in> set cs \<Longrightarrow> \<not> settled_in keys (check_event m c)"
  shows "c \<in> set cs \<Longrightarrow> outstanding keys (map (check_event m) cs) (check_ref c) g = check_amount c"
    and "ref \<notin> check_ref ` set cs \<Longrightarrow> outstanding keys (map (check_event m) cs) ref h = 0"
proof -
  show "outstanding keys (map (check_event m) cs) (check_ref c) g = check_amount c" if c: "c \<in> set cs"
  proof -
    have "filter (\<lambda>e. be_state e = check_ref c \<and> be_generation e = g \<and> \<not> settled_in keys e) (map (check_event m) cs)
        = map (check_event m) (filter (\<lambda>c'. check_ref c' = check_ref c) cs)"
      using assms(2,3) by (simp add: filter_map comp_def cong: filter_cong)
    also have "\<dots> = [check_event m c]" using filter_single [OF assms(1) c] by simp
    finally show ?thesis by (simp add: outstanding_def)
  qed
  show "outstanding keys (map (check_event m) cs) ref h = 0" if "ref \<notin> check_ref ` set cs"
  proof -
    have "filter (\<lambda>e. be_state e = ref \<and> be_generation e = h \<and> \<not> settled_in keys e) (map (check_event m) cs) = []"
      using that by (auto simp: filter_empty_conv)
    then show ?thesis by (simp only: outstanding_def) simp
  qed
qed

text \<open>The new keys are those of a reservation; no settlement and no other reservation has them.\<close>

lemma reserve_keys:
  assumes ids: "K = (\<lambda>ref. operation_event_id operation ref ''reserve'') ` R" and plain: "\<forall>ref \<in> R. colon_free ref"
  shows "operation_event_id o' ref' ''commit'' \<in> keys \<union> K \<longleftrightarrow> operation_event_id o' ref' ''commit'' \<in> keys"
    and "operation_event_id o' ref' ''release'' \<in> keys \<union> K \<longleftrightarrow> operation_event_id o' ref' ''release'' \<in> keys"
    and "colon_free ref' \<Longrightarrow> operation_event_id o' ref' ''reserve'' \<in> K \<longleftrightarrow> o' = operation \<and> ref' \<in> R"
    and "settled_in (keys \<union> K) e = settled_in keys e"
    and "outstanding (keys \<union> K) rs ref g = outstanding keys rs ref g"
proof -
  show c: "operation_event_id o' ref' ''commit'' \<in> keys \<union> K \<longleftrightarrow> operation_event_id o' ref' ''commit'' \<in> keys" for o' ref'
    using event_id_words [of "''commit''" "''reserve''"] unfolding ids by auto
  show r: "operation_event_id o' ref' ''release'' \<in> keys \<union> K \<longleftrightarrow> operation_event_id o' ref' ''release'' \<in> keys" for o' ref'
    using event_id_words [of "''release''" "''reserve''"] unfolding ids by auto
  show "operation_event_id o' ref' ''reserve'' \<in> K \<longleftrightarrow> o' = operation \<and> ref' \<in> R" if "colon_free ref'"
    using event_id_eq [of "''reserve''" "''reserve''" ref'] plain that unfolding ids by auto
  show "settled_in (keys \<union> K) e = settled_in keys e" for e
    unfolding settled_in_def c r ..
  then show "outstanding (keys \<union> K) rs ref g = outstanding keys rs ref g"
    unfolding outstanding_def by simp
qed

lemma reserved_accounts:
  assumes ok: "accounts_ok dg policies s" and policy: "policy \<in> set policies"
    and new: "\<not> reservation_repeated s policy operation" and ok': "budget_ok dg policies s'"
    and cs: "checks_of dg s policy generation requested cs" and made: "reservation_made dg operation s s' cs"
    and ev: "budget_events s' = foldl (\<lambda>ev c. dput (check_id operation c)
         (check_event (reservation_of s policy operation generation) c) ev) (budget_events s) cs"
  shows "accounts_ok dg policies s'"
proof -
  note facts = accounts_okD [OF ok]
  let ?m = "reservation_of s policy operation generation"
  let ?keys = "set (dkeys (budget_events s))"
  let ?rs = "reserves (budget_events s)"
  let ?R = "demand_state_ref policy ` set (rp_demands policy)"
  let ?K = "set (reserve_event_ids policy operation)"
  note events = reservation_events [OF ok policy new cs ev]
  have R: "check_ref ` set cs = ?R"
    using arg_cong [OF checks_of_ready(3) [OF cs], of set] by simp
  have K: "?K = (\<lambda>ref. operation_event_id operation ref ''reserve'') ` ?R"
    by (auto simp: reserve_event_ids_def)
  have plain: "\<forall>ref \<in> ?R. colon_free ref"
    using facts(2) policy by (auto simp: refs_plain_def list_all_iff policy_jobs_iff)
  note rk = reserve_keys [OF K plain]
  have keys': "set (dkeys (budget_events s')) = ?keys \<union> ?K"
    unfolding events(1) ids_of_checks [OF cs, symmetric] by (simp add: comp_def)
  have rs': "reserves (budget_events s') = ?rs @ map (check_event ?m) cs"
    unfolding events(1) by (simp add: comp_def filter_map)
  have states: "dget (budget_states s') (check_ref c) = Some ((check_state c)\<lparr>bs_reserved := bs_reserved (check_state c) + check_amount c,
      bs_last_event := operation_event_id operation (check_ref c) ''reserve''\<rparr>)" if "c \<in> set cs" for c
    using made that by (cases c) (auto simp: reservation_made_def list_all_iff)
  have frame: "dget (budget_states s') ref = dget (budget_states s) ref" if "ref \<notin> ?R" for ref
    using made that by (simp add: reservation_made_def R)
  have open_new: "\<not> settled_in ?keys (check_event ?m c)" if "c \<in> set cs" for c
  proof
    assume "settled_in ?keys (check_event ?m c)"
    moreover have ref: "check_ref c \<in> ?R" using that R by blast
    ultimately have "operation_event_id operation (check_ref c) ''reserve'' \<in> ?keys"
      using accountsD(2,3) [OF facts(3)] bspec [OF plain ref]
      unfolding settled_in_def check_event_facts reservation_of_simps by blast
    with ref events(2) K show False by blast
  qed
  have dist: "distinct (map check_ref cs)"
    unfolding checks_of_ready(3) [OF cs] by (rule state_refs_distinct(1) [OF budget_okD(1) [OF facts(1)] policy])
  note sums = outstanding_checks [OF dist, of ?m generation, OF _ open_new]
  have "accounts policies (budget_states s') (?keys \<union> ?K) (?rs @ map (check_event ?m) cs)"
    unfolding accounts_def
  proof (intro conjI allI ballI impI)
    fix e assume e: "e \<in> set (?rs @ map (check_event ?m) cs)"
    show "\<exists>b. dget (budget_states s') (be_state e) = Some b \<and> be_generation e \<le> bs_generation b"
    proof (cases "be_state e \<in> ?R")
      case True
      then obtain c where c: "c \<in> set cs" "check_ref c = be_state e" using R by (metis imageE)
      have "be_generation e \<le> bs_generation (check_state c)"
      proof (cases "e \<in> set ?rs")
        case True
        with accountsD(1) [OF facts(3) True] checks_of_states(1) [OF cs c(1)] c(2) show ?thesis by auto
      next
        case False
        with e checks_of_states(2) [OF cs c(1)] show ?thesis by auto
      qed
      with states [OF c(1)] c(2) show ?thesis by simp
    next
      case False
      with e R have "e \<in> set ?rs" by auto
      from accountsD(1) [OF facts(3) this] frame [OF False] show ?thesis by simp
    qed
  next
    fix o' ref
    assume plain_ref: "colon_free ref" and "operation_event_id o' ref ''commit'' \<in> ?keys \<union> ?K
        \<or> operation_event_id o' ref ''release'' \<in> ?keys \<union> ?K"
    then show "operation_event_id o' ref ''reserve'' \<in> ?keys \<union> ?K"
      unfolding rk(1,2) using accountsD(2,3) [OF facts(3) plain_ref] by blast
  next
    fix policy' o' assume policy': "policy' \<in> set policies"
    let ?K' = "set (reserve_event_ids policy' o')"
    show "?K' \<inter> (?keys \<union> ?K) = {} \<or> ?K' \<subseteq> ?keys \<union> ?K"
    proof (cases "o' = operation \<and> policy' = policy")
      case False
      have "?K' \<inter> ?K = {}"
      proof (rule ccontr)
        assume "?K' \<inter> ?K \<noteq> {}"
        then obtain d where d: "d \<in> set (rp_demands policy')"
          and "operation_event_id o' (demand_state_ref policy' d) ''reserve'' \<in> ?K"
          by (auto simp: reserve_event_ids_def)
        moreover have "colon_free (demand_state_ref policy' d)"
          using facts(2) policy' d by (auto simp: refs_plain_def list_all_iff policy_jobs_iff)
        ultimately have "o' = operation" "demand_state_ref policy' d \<in> ?R" using rk(3) by blast+
        then obtain d' where "d' \<in> set (rp_demands policy)" "demand_state_ref policy d' = demand_state_ref policy' d" by auto
        from state_refs_distinct(2) [OF budget_okD(1) [OF facts(1)] policy policy' this(1) d this(2)]
        show False using False \<open>o' = operation\<close> by simp
      qed
      with accountsD(4) [OF facts(3) policy', of o'] show ?thesis by blast
    qed blast
  next
    fix ref b' assume b': "dget (budget_states s') ref = Some b'"
    have "bs_reserved b' = outstanding (?keys \<union> ?K) (?rs @ map (check_event ?m) cs) ref (bs_generation b')
        \<and> used_capacity b' \<le> bs_limit b' \<and> used_capacity b' \<le> bs_capacity b'"
    proof (cases "ref \<in> ?R")
      case True
      then obtain c where c: "c \<in> set cs" "check_ref c = ref" using R by (metis imageE)
      note old = checks_of_states [OF cs c(1)]
      have "b' = (check_state c)\<lparr>bs_reserved := bs_reserved (check_state c) + check_amount c,
          bs_last_event := operation_event_id operation (check_ref c) ''reserve''\<rparr>"
        using states [OF c(1)] b' c(2) by simp
      then have same: "bs_reserved b' = bs_reserved (check_state c) + check_amount c"
        "bs_generation b' = generation" "bs_limit b' = bs_limit (check_state c)" "bs_capacity b' = bs_capacity (check_state c)"
        "used_capacity b' = used_capacity (check_state c) + check_amount c"
        using old(2) by (simp_all add: used_capacity_def)
      have "bs_reserved (check_state c) = outstanding ?keys ?rs ref generation"
        using accountsD(5) [OF facts(3) old(1)] old(2) c(2) by simp
      moreover have "outstanding ?keys (map (check_event ?m) cs) ref generation = check_amount c"
        using sums(1) [OF _ _ c(1)] c(2) by simp
      ultimately show ?thesis
        unfolding same outstanding_append rk(5) using old(3) by simp
    next
      case False
      with b' frame have b: "dget (budget_states s) ref = Some b'" by simp
      have "outstanding ?keys (map (check_event ?m) cs) ref (bs_generation b') = 0"
        using sums(2) False R by simp
      with accountsD(5-7) [OF facts(3) b] show ?thesis
        unfolding outstanding_append rk(5) by simp
    qed
    then show "bs_reserved b' = outstanding (?keys \<union> ?K) (?rs @ map (check_event ?m) cs) ref (bs_generation b')"
      "used_capacity b' \<le> bs_limit b'" "used_capacity b' \<le> bs_capacity b'" by blast+
  qed
  with ok' facts(2) show ?thesis
    unfolding accounts_ok_def keys' rs' by blast
qed

section \<open>Reconciliation and initialization\<close>

lemma valid_amounts:
  assumes "budget_ok dg policies s" and "dget (budget_states s) ref = Some b"
  shows "0 \<le> bs_limit b" "0 \<le> bs_capacity b" "0 \<le> bs_reserved b"
proof -
  from assms(2) have "(ref, b) \<in> set (budget_states s)" by (rule map_of_SomeD)
  then have "check_budget_state b = Inr ()"
    using budget_okD(2) [OF assms(1)] by (auto simp: snapshot_valid_def require_snapshot_iff)
  then show "0 \<le> bs_limit b" "0 \<le> bs_capacity b" "0 \<le> bs_reserved b"
    by (auto simp: check_budget_state_def within_def ebind_eq_Inr require_eq_Inr echeck_eq_Inr)
qed

lemma reconciled_accounts:
  assumes ok: "accounts_ok dg policies s" and ok': "budget_ok dg policies s'" and newer: "current < next"
    and all: "\<forall>(ref, b) \<in> set (policy_states s policy). bs_generation b = current"
    and run: "efold (reconcile_state dg policy next boundary evidence) (books_of s) (policy_states s policy) = Inr books"
    and s': "budget_states s' = rb_states books" "budget_events s' = rb_events books"
  shows "accounts_ok dg policies s'"
proof -
  note facts = accounts_okD [OF ok]
  let ?keys = "set (dkeys (budget_events s))"
  let ?rs = "reserves (budget_events s)"
  let ?jobs = "policy_states s policy"
  let ?event = "\<lambda>(ref, b). reconciliation_event policy next evidence ref b"
  note jobs = policy_states_facts(1,2) [OF facts(1), of policy]
  have loop: "\<forall>(ref, b) \<in> set ?jobs. dget (budget_states s') ref = Some (reconciled_state b next (bs_reset b = boundary)
          (be_id (reconciliation_event policy next evidence ref b)) evidence)"
    and frame: "\<And>ref. ref \<notin> fst ` set ?jobs \<Longrightarrow> dget (budget_states s') ref = dget (budget_states s) ref"
    using reconcile_loop [OF run books_of_ok [OF facts(1)] jobs(1)] jobs(2) by (simp_all add: s')
  have ev: "budget_events s' = foldl (\<lambda>ev e. dput (be_id e) e ev) (budget_events s) (map ?event ?jobs)"
    unfolding s' reconcile_events [OF run] foldl_map by (simp add: split_def)
  have es: "\<forall>e \<in> set (map ?event ?jobs). inert (be_id e) \<and> be_transition e \<noteq> ReserveBudget \<and> event_shaped e"
  proof
    fix e assume "e \<in> set (map ?event ?jobs)"
    then obtain ref b where e: "e = reconciliation_event policy next evidence ref b" and job: "(ref, b) \<in> set ?jobs" by auto
    from job jobs(2) have "dget (budget_states s) ref = Some b" by blast
    from state_ref_plain [OF facts(2) books_soundD(6) [OF budget_okD(4) [OF facts(1)] this]]
    have "inert (be_id e)" using reconcile_inert [of ref policy "next"] by (simp add: e reconciliation_event_def)
    moreover have "event_shaped e" unfolding e by simp
    ultimately show "inert (be_id e) \<and> be_transition e \<noteq> ReserveBudget \<and> event_shaped e"
      by (simp add: e reconciliation_event_def)
  qed
  note events = inert_events [OF budget_okD(3) [OF facts(1)] es, folded ev]
  have "accounts policies (budget_states s') ?keys ?rs"
  proof (rule accounts_states [OF facts(3)])
    fix ref b assume b: "dget (budget_states s) ref = Some b"
    show "\<exists>b'. dget (budget_states s') ref = Some b' \<and> bs_generation b \<le> bs_generation b'"
    proof (cases "ref \<in> fst ` set ?jobs")
      case True
      then obtain c where c: "(ref, c) \<in> set ?jobs" by auto
      then have "c = b" using jobs(2) b by auto
      with c loop all newer show ?thesis by (fastforce simp: reconciled_state_def)
    qed (use frame b in simp)
  next
    fix ref b' assume b': "dget (budget_states s') ref = Some b'"
    show "bs_reserved b' = outstanding ?keys ?rs ref (bs_generation b')
        \<and> used_capacity b' \<le> bs_limit b' \<and> used_capacity b' \<le> bs_capacity b'"
    proof (cases "ref \<in> fst ` set ?jobs")
      case True
      then obtain b where job: "(ref, b) \<in> set ?jobs" by auto
      have b: "dget (budget_states s) ref = Some b" using job jobs(2) by blast
      obtain i where b'_def: "b' = reconciled_state b next (bs_reset b = boundary) i evidence"
      proof
        show "b' = reconciled_state b next (bs_reset b = boundary)
            (be_id (reconciliation_event policy next evidence ref b)) evidence"
          using bspec [OF loop job] b' by simp
      qed
      have "be_generation e < next" if e: "e \<in> set ?rs" "be_state e = ref" for e
        using accountsD(1) [OF facts(3) e(1)] e(2) b job all newer by auto
      then have "outstanding ?keys ?rs ref next = 0" by (rule outstanding_newer)
      moreover have "bs_reserved b' = 0" "bs_generation b' = next" "bs_limit b' = bs_limit b" "bs_capacity b' = bs_capacity b"
        by (simp_all add: b'_def reconciled_state_def)
      moreover have "used_capacity b' \<le> max 0 (used_capacity b)"
        using valid_amounts(3) [OF facts(1) b] by (simp add: b'_def reconciled_state_def used_capacity_def max_def)
      ultimately show ?thesis
        using accountsD(6,7) [OF facts(3) b] valid_amounts(1,2) [OF facts(1) b]
        by (simp add: max_def split: if_splits)
    next
      case False
      with b' frame have "dget (budget_states s) ref = Some b'" by simp
      from accountsD(5-7) [OF facts(3) this] show ?thesis by blast
    qed
  qed
  then have "accounts policies (budget_states s') (set (dkeys (budget_events s'))) (reserves (budget_events s'))"
    unfolding events by (rule accounts_inert) (use es in auto)
  with ok' facts(2) show ?thesis by (simp add: accounts_ok_def)
qed

lemma initialize_loop_new:
  assumes "floop (initialize_demand dg admitted pools s g) books jobs = Inr (Inr books')"
  shows "dget (fst books') ref = Some b \<Longrightarrow> dget (fst books) ref = Some b
    \<or> bs_reserved b = 0 \<and> bs_current b = 0 \<and> bs_cumulative b = 0 \<and> dget (fst books) ref = None"
proof -
  let ?P = "\<lambda>t. \<forall>ref. dget (fst t) ref = dget (fst books) ref \<or> dget (fst books) ref = None
    \<and> (\<exists>b. dget (fst t) ref = Some b \<and> bs_reserved b = 0 \<and> bs_current b = 0 \<and> bs_cumulative b = 0)"
  have "?P books'"
    using assms
  proof (rule floop_invariant)
    fix t t' job assume t: "?P t" and "initialize_demand dg admitted pools s g t job = Inr (Inr t')"
    then obtain policy d where "initialize_demand dg admitted pools s g t (policy, d) = Inr (Inr t')" by (cases job) auto
    then show "?P t'"
    proof (cases rule: initialize_demand_cases)
      case known
      with t show ?thesis by simp
    next
      case (added c p p')
      have "dget (fst books) (demand_state_ref policy d) = None" using t added(1) by (metis option.distinct(1))
      with t show ?thesis unfolding added(5) by auto
    qed
  qed simp
  then show "dget (fst books') ref = Some b \<Longrightarrow> dget (fst books) ref = Some b
    \<or> bs_reserved b = 0 \<and> bs_current b = 0 \<and> bs_cumulative b = 0 \<and> dget (fst books) ref = None"
    by (metis option.inject)
qed

lemma initialized_accounts:
  assumes ok: "accounts_ok dg policies s" and ok': "budget_ok dg policies s'"
    and run: "floop (initialize_demand dg admitted pools s g) (budget_states s, pool_states s) jobs = Inr (Inr books)"
    and s': "budget_states s' = fst books" "budget_events s' = budget_events s"
  shows "accounts_ok dg policies s'"
proof -
  note facts = accounts_okD [OF ok]
  have "accounts policies (budget_states s') (set (dkeys (budget_events s))) (reserves (budget_events s))"
  proof (rule accounts_states [OF facts(3)])
    show "\<exists>b'. dget (budget_states s') ref = Some b' \<and> bs_generation b \<le> bs_generation b'"
      if "dget (budget_states s) ref = Some b" for ref b
      using initialize_loop_effect [OF run] that by (simp add: s')
  next
    fix ref b assume b: "dget (budget_states s') ref = Some b"
    then consider "dget (budget_states s) ref = Some b"
      | "bs_reserved b = 0" "bs_current b = 0" "bs_cumulative b = 0" "dget (budget_states s) ref = None"
      using initialize_loop_new [OF run, of ref b] by (auto simp: s')
    then show "bs_reserved b = outstanding (set (dkeys (budget_events s))) (reserves (budget_events s)) ref (bs_generation b)
        \<and> used_capacity b \<le> bs_limit b \<and> used_capacity b \<le> bs_capacity b"
    proof cases
      case 1
      from accountsD(5-7) [OF facts(3) this] show ?thesis by blast
    next
      case 2
      have "outstanding (set (dkeys (budget_events s))) (reserves (budget_events s)) ref (bs_generation b) = 0"
        by (rule outstanding_newer) (use accountsD(1) [OF facts(3)] 2(4) in force)
      with 2 valid_amounts(1,2) [OF ok' b] show ?thesis by (simp add: used_capacity_def)
    qed
  qed
  with ok' facts(2) show ?thesis by (simp add: accounts_ok_def s')
qed

section \<open>Governed runs\<close>

text \<open>The failed commits and releases hand the snapshot back; the empty ones too.\<close>

lemma commit_keeps:
  assumes "commit_participant_resource_reservation dg s operation g measured evidence = Inr r"
    and ok: "budget_ok dg policies s" and "\<not> result_success r \<or> reservations_of s operation = []"
  shows "result_snapshot r = s"
proof (cases "reservations_of s operation = [] \<or> \<not> valid_measurement_vector (reservations_of s operation) measured evidence")
  case True
  with assms(1) show ?thesis
    by (auto simp: commit_unfold [OF budget_okD(2) [OF ok]] missing_reservation_result_def split: if_splits)
next
  case False
  with assms(1) obtain v where v: "floop (commit_reservation dg s operation g measured evidence) (books_of s)
      (reservations_of s operation) = Inr v"
    and rest: "(case v of Inl failure \<Rightarrow> Inr failure | Inr books \<Rightarrow> store_books dg s books) = Inr r"
    by (auto simp: commit_unfold [OF budget_okD(2) [OF ok]] ebind_eq_Inr)
  have "\<not> result_success r" using False assms(3) by blast
  with rest have "v = Inl r" by (cases v) (auto simp: store_books_eq_Inr)
  with v have "floop (commit_reservation dg s operation g measured evidence) (books_of s)
      (reservations_of s operation) = Inr (Inl r)" by simp
  then show ?thesis
    by (rule floop_break [where P = "\<lambda>_. True"]) (auto dest: commit_reservation_failure)
qed

lemma release_keeps:
  assumes "release_participant_resource_reservation dg s operation g evidence = Inr r"
    and ok: "budget_ok dg policies s" and "\<not> result_success r \<or> reservations_of s operation = []"
  shows "result_snapshot r = s"
proof (cases "reservations_of s operation = []")
  case True
  with assms(1) show ?thesis by (auto simp: release_unfold [OF budget_okD(2) [OF ok]])
next
  case False
  with assms(1) obtain v where v: "floop (release_reservation dg s operation g evidence) (books_of s)
      (reservations_of s operation) = Inr v"
    and rest: "(case v of Inl failure \<Rightarrow> Inr failure | Inr books \<Rightarrow> store_books dg s books) = Inr r"
    by (auto simp: release_unfold [OF budget_okD(2) [OF ok]] ebind_eq_Inr)
  have "\<not> result_success r" using False assms(3) by blast
  with rest have "v = Inl r" by (cases v) (auto simp: store_books_eq_Inr)
  with v have "floop (release_reservation dg s operation g evidence) (books_of s)
      (reservations_of s operation) = Inr (Inl r)" by simp
  then show ?thesis
    by (rule floop_break [where P = "\<lambda>_. True"]) (auto dest: release_reservation_failure)
qed

lemma commit_accounts:
  assumes run: "commit_participant_resource_reservation dg s operation g measured evidence = Inr r"
    and ok: "accounts_ok dg policies s" and flight: "in_flight s operation g ''release''"
  shows "accounts_ok dg policies (result_snapshot r)"
proof (cases "result_success r \<and> reservations_of s operation \<noteq> []")
  case False
  with commit_keeps [OF run accounts_okD(1) [OF ok]] ok show ?thesis by fastforce
next
  case True
  then have success: "result_success r" "reservations_of s operation \<noteq> []" by blast+
  note settled = commit_settled [OF run accounts_okD(1) [OF ok] success]
  have valid: "valid_measurement_vector (reservations_of s operation) measured evidence"
    using commit_success_cases [OF run accounts_okD(1) [OF ok] success] by blast
  show ?thesis
  proof (rule settled_accounts [OF ok settled _ flight])
    fix r b b' assume r: "r \<in> set (reservations_of s operation)"
      and "commit_effect_of operation g measured evidence r b b'"
    then obtain n where n: "bs_generation b = g" "dget measured (be_state r) = Some n"
      "b' = committed_state b r n (operation_event_id operation (be_state r) ''commit'') evidence"
      by (auto simp: commit_effect_of_def)
    with valid r have "0 \<le> n" "n \<le> be_requested r"
      by (auto simp: valid_measurement_vector_def list_all_iff)
    with n(1,3) show "bs_generation b = g \<and> bs_generation b' = g
      \<and> bs_reserved b' = max 0 (bs_reserved b - be_requested r) \<and> bs_limit b' = bs_limit b \<and> bs_capacity b' = bs_capacity b
      \<and> (be_requested r \<le> bs_reserved b \<longrightarrow> used_capacity b' \<le> used_capacity b)"
      by (simp add: committed_state_def used_capacity_def)
  qed simp
qed

lemma release_accounts:
  assumes run: "release_participant_resource_reservation dg s operation g evidence = Inr r"
    and ok: "accounts_ok dg policies s" and flight: "in_flight s operation g ''commit''"
  shows "accounts_ok dg policies (result_snapshot r)"
proof (cases "result_success r \<and> reservations_of s operation \<noteq> []")
  case False
  with release_keeps [OF run accounts_okD(1) [OF ok]] ok show ?thesis by fastforce
next
  case True
  then have success: "result_success r" "reservations_of s operation \<noteq> []" by blast+
  note settled = release_settled [OF run accounts_okD(1) [OF ok] success]
  show ?thesis
  proof (rule settled_accounts [OF ok settled _ flight])
    fix r b b' assume r: "r \<in> set (reservations_of s operation)"
      and "release_effect_of operation g evidence r b b'"
    moreover have "0 \<le> be_requested r"
      using reserves_facts(3) [OF accounts_okD(1) [OF ok]] r by (simp add: reservations_of_def)
    ultimately show "bs_generation b = g \<and> bs_generation b' = g
      \<and> bs_reserved b' = max 0 (bs_reserved b - be_requested r) \<and> bs_limit b' = bs_limit b \<and> bs_capacity b' = bs_capacity b
      \<and> (be_requested r \<le> bs_reserved b \<longrightarrow> used_capacity b' \<le> used_capacity b)"
      by (auto simp: release_effect_of_def released_state_def used_capacity_def)
  qed simp
qed

lemma reserve_accounts:
  assumes run: "reserve_participant_resources dg s policy operation g requested = Inr r"
    and ok: "accounts_ok dg policies s" and policy: "policy \<in> set policies"
  shows "accounts_ok dg policies (result_snapshot r)"
  using run accounts_okD(1) [OF ok] policy
proof (cases rule: reserve_cases)
  case repeated
  with ok show ?thesis by simp
next
  case (reserved cs s')
  with reserved_accounts [OF ok policy reserved(1,3-6)] show ?thesis by simp
next
  case refused
  with ok throttled_accounts [OF ok] show ?thesis by (auto simp: reservation_refused_def)
qed

lemma reconcile_accounts:
  assumes run: "reconcile_participant_resource_budgets dg s policy current next boundary evidence = Inr r"
    and ok: "accounts_ok dg policies s"
  shows "accounts_ok dg policies (result_snapshot r)"
  using run accounts_okD(1) [OF ok]
proof (cases rule: reconcile_cases)
  case stale
  with ok show ?thesis by simp
next
  case (reconciled books)
  from reconcile_extends [OF run accounts_okD(1) [OF ok]] have "budget_ok dg policies (result_snapshot r)"
    by (simp add: snapshot_extends_def)
  moreover have "budget_states (result_snapshot r) = rb_states books" "budget_events (result_snapshot r) = rb_events books"
    using reconciled(4) by (auto simp: store_books_eq_Inr)
  ultimately show ?thesis using reconciled_accounts [OF ok _ reconciled(1-3)] by blast
qed

lemma initialize_accounts:
  assumes run: "initialize_participant_resource_budgets dg admitted pools s policies g = Inr r"
    and ok: "accounts_ok dg policies s"
  shows "accounts_ok dg policies (result_snapshot r)"
proof -
  from initialize_extends [OF run accounts_okD(1) [OF ok]] have ok': "budget_ok dg policies (result_snapshot r)"
    by (simp add: snapshot_extends_def)
  from run obtain v where v: "floop (initialize_demand dg admitted pools s g) (budget_states s, pool_states s)
      (policy_jobs policies) = Inr v"
    and rest: "(case v of Inl failure \<Rightarrow> Inr failure | Inr (states, physical) \<Rightarrow>
          ebind (with_resources dg s states physical (budget_events s)) (\<lambda>s'. Inr (succeeded s'))) = Inr r"
    unfolding initialize_participant_resource_budgets_def policy_jobs_def [symmetric] by (auto simp: ebind_eq_Inr)
  show ?thesis
  proof (cases v)
    case (Inl failure)
    with v rest have "floop (initialize_demand dg admitted pools s g) (budget_states s, pool_states s)
      (policy_jobs policies) = Inr (Inl r)" by simp
    then have "result_snapshot r = s"
      by (rule floop_break [where P = "\<lambda>_. True"]) (use initialize_demand_failure in auto)
    with ok show ?thesis by simp
  next
    case (Inr books)
    with rest have "budget_states (result_snapshot r) = fst books" "budget_events (result_snapshot r) = budget_events s"
      by (cases books; auto simp: ebind_eq_Inr with_resources_eq_Inr)+
    with initialized_accounts [OF ok ok' v [unfolded Inr]] show ?thesis by blast
  qed
qed

text \<open>
  A client that settles an operation in the generation that reserved it, and not both ways. Every
  other operation of the machine it may issue at any time.
\<close>

fun governs :: "'r resource_snapshot \<Rightarrow> budget_op \<Rightarrow> bool" where
  "governs s (CommitBudgets operation g measured evidence) \<longleftrightarrow> in_flight s operation g ''release''"
| "governs s (ReleaseBudgets operation g evidence) \<longleftrightarrow> in_flight s operation g ''commit''"
| "governs s op \<longleftrightarrow> True"

inductive governed_run ::
    "(pool_identity \<Rightarrow> string) \<Rightarrow> admission \<Rightarrow> pool_capacity list \<Rightarrow> runtime_policy list \<Rightarrow>
       'r resource_snapshot \<Rightarrow> budget_op list \<Rightarrow> 'r resource_snapshot \<Rightarrow> bool"
  for dg admitted pools policies where
  governed_start: "governed_run dg admitted pools policies s [] s"
| governed_step: "governs s op \<Longrightarrow> budget_step dg admitted pools policies op s = Inr t \<Longrightarrow>
    governed_run dg admitted pools policies t ops u \<Longrightarrow> governed_run dg admitted pools policies s (op # ops) u"

inductive_cases governed_ConsE: "governed_run dg admitted pools policies s (op # ops) u"

inductive_simps governed_simps:
  "governed_run dg admitted pools policies s [] u"
  "governed_run dg admitted pools policies s (op # ops) u"

lemma governed_step_accounts:
  assumes step: "budget_step dg admitted pools policies op s = Inr t" and "governs s op" and ok: "accounts_ok dg policies s"
  shows "accounts_ok dg policies t"
proof -
  from step obtain r where r: "budget_result dg admitted pools policies op s = Inr r" and t: "t = result_snapshot r"
    by (auto simp: budget_step_def ebind_eq_Inr)
  show ?thesis
    using r assms(2) unfolding t
    by (cases op) (auto split: if_splits intro: ok commit_accounts release_accounts reserve_accounts
        reconcile_accounts initialize_accounts)
qed

lemma governed_accounts:
  assumes "governed_run dg admitted pools policies s ops t" and "accounts_ok dg policies s"
  shows "accounts_ok dg policies t"
  using assms by (induction rule: governed_run.induct) (auto dest: governed_step_accounts)

end
