(* ===== verification/ResourcePolicyProofs.thy ===== *)
theory ResourcePolicyProofs
  imports ResourceModel
begin

text \<open>
  The admission of a budget policy: the depth-first visit of the parent graph ends, and it accepts
  a policy exactly when the parents form a forest with compatible quantities and limits.
\<close>

section \<open>The parent graph\<close>

definition parent_edge :: "(string, budget_demand) dict \<Rightarrow> string \<Rightarrow> string \<Rightarrow> bool" where
  "parent_edge ds b p \<longleftrightarrow> (\<exists>d. dget ds b = Some d \<and> bd_parent d = Some p)"

definition parent_rel :: "(string, budget_demand) dict \<Rightarrow> (string \<times> string) set" where
  "parent_rel ds = {(b, p). parent_edge ds b p}"

text \<open>What the visit checks on the edge out of one demand.\<close>

definition edge_ok :: "(string, budget_demand) dict \<Rightarrow> string \<Rightarrow> bool" where
  "edge_ok ds b \<longleftrightarrow> (\<forall>d p. dget ds b = Some d \<longrightarrow> bd_parent d = Some p \<longrightarrow>
     (\<exists>pd. dget ds p = Some pd \<and> quantity_identity (bd_quantity d) = quantity_identity (bd_quantity pd)
        \<and> bd_limit d \<le> bd_limit pd))"

fun parents_later :: "(string, budget_demand) dict \<Rightarrow> string list \<Rightarrow> bool" where
  "parents_later ds [] \<longleftrightarrow> True"
| "parents_later ds (b # vs) \<longleftrightarrow>
     edge_ok ds b \<and> b \<notin> set vs \<and> (\<forall>p. parent_edge ds b p \<longrightarrow> p \<in> set vs) \<and> parents_later ds vs"

lemma visit_demand_sound:
  assumes "visit_demand ds b visiting visited = Inr v"
    and "parents_later ds visited" and "set visited \<inter> set visiting = {}"
  shows "parents_later ds v \<and> b \<in> set v \<and> set visited \<subseteq> set v \<and> set v \<inter> set visiting = {}"
  using assms
proof (induction ds b visiting visited arbitrary: v rule: visit_demand.induct)
  case (1 ds b visiting visited)
  show ?case
  proof (cases "b \<in> set visited")
    case True
    with 1(2-4) show ?thesis by (auto simp: visit_demand.simps [of ds b] split: if_splits)
  next
    case False
    with 1(2) have out: "b \<notin> set visiting" by (auto simp: visit_demand.simps [of ds b] split: if_splits)
    from 1(2) False out obtain d where d: "dget ds b = Some d"
      by (auto simp: visit_demand.simps [of ds b] split: option.splits)
    show ?thesis
    proof (cases "bd_parent d")
      case None
      with 1(2) False out d have "v = b # visited" by (simp add: visit_demand.simps [of ds b])
      with 1(3,4) False out None d show ?thesis by (auto simp: edge_ok_def parent_edge_def)
    next
      case (Some p)
      with 1(2) False out d obtain pd where pd: "dget ds p = Some pd"
        by (auto simp: visit_demand.simps [of ds b] split: option.splits)
      with 1(2) False out d Some obtain w where
        eq: "quantity_identity (bd_quantity d) = quantity_identity (bd_quantity pd)" "bd_limit d \<le> bd_limit pd"
        and w: "visit_demand ds p (b # visiting) visited = Inr w" and v: "v = b # w"
        by (auto simp: visit_demand.simps [of ds b] ebind_eq_Inr require_eq_Inr)
      have "set visited \<inter> set (b # visiting) = {}" using 1(4) False by auto
      from 1(1) [OF out False d Some pd _ _ w 1(3) this]
      have IH: "parents_later ds w \<and> p \<in> set w \<and> set visited \<subseteq> set w \<and> set w \<inter> set (b # visiting) = {}"
        using eq by (simp add: require_eq_Inr)
      have "edge_ok ds b" "\<forall>q. parent_edge ds b q \<longrightarrow> q = p"
        using d Some pd eq by (auto simp: edge_ok_def parent_edge_def)
      with IH v out show ?thesis by auto
    qed
  qed
qed

lemma parent_rank:
  assumes "parents_later ds vs" and "b \<in> set vs" and "parent_edge ds b p"
  shows "length (dropWhile (\<lambda>x. x \<noteq> p) vs) < length (dropWhile (\<lambda>x. x \<noteq> b) vs)"
  using assms
proof (induction vs)
  case Nil
  then show ?case by simp
next
  case (Cons x vs)
  show ?case
  proof (cases "x = b")
    case True
    with Cons.prems have "p \<in> set vs" "b \<notin> set vs" by auto
    with True have "x \<noteq> p" by auto
    moreover have "length (dropWhile (\<lambda>x. x \<noteq> p) vs) \<le> length vs" by (rule length_dropWhile_le)
    ultimately show ?thesis using True by simp
  next
    case False
    with Cons.prems(1,2) have "parents_later ds vs" "b \<in> set vs" "x \<notin> set vs" by auto
    note IH = Cons.IH [OF this(1,2) Cons.prems(3)]
    have "p \<in> set vs"
      using \<open>parents_later ds vs\<close> \<open>b \<in> set vs\<close> Cons.prems(3) by (induction vs) auto
    with \<open>x \<notin> set vs\<close> have "x \<noteq> p" by auto
    with False IH show ?thesis by simp
  qed
qed

lemma parents_later_edges: "parents_later ds vs \<Longrightarrow> b \<in> set vs \<Longrightarrow> edge_ok ds b"
  by (induction vs) auto

lemma parents_later_acyclic:
  assumes "parents_later ds vs" and "set (dkeys ds) \<subseteq> set vs"
  shows "acyclic (parent_rel ds)"
proof -
  let ?rank = "\<lambda>b. length (dropWhile (\<lambda>x. x \<noteq> b) vs)"
  have "(parent_rel ds)\<inverse> \<subseteq> measure ?rank"
  proof
    fix e assume "e \<in> (parent_rel ds)\<inverse>"
    then obtain b p where e: "e = (p, b)" "parent_edge ds b p" by (auto simp: parent_rel_def)
    then have "b \<in> set (dkeys ds)" unfolding parent_edge_def using dget_Some_key [of ds b] by blast
    with assms parent_rank [OF assms(1) _ e(2)] e(1) show "e \<in> measure ?rank" by auto
  qed
  then have "wf ((parent_rel ds)\<inverse>)" by (rule wf_subset [OF wf_measure])
  then have "acyclic ((parent_rel ds)\<inverse>)" by (rule wf_acyclic)
  then show ?thesis by simp
qed

lemma visit_demand_complete:
  assumes "b \<in> set (dkeys ds)" and "\<forall>x. edge_ok ds x" and "acyclic (parent_rel ds)"
    and "\<forall>x \<in> set visiting. (x, b) \<in> (parent_rel ds)\<^sup>+"
  shows "\<exists>v. visit_demand ds b visiting visited = Inr v"
  using assms
proof (induction ds b visiting visited rule: visit_demand.induct)
  case (1 ds b visiting visited)
  from 1(2) obtain d where d: "dget ds b = Some d" unfolding dkeys_iff_dget by blast
  have out: "b \<notin> set visiting" using 1(4,5) by (auto simp: acyclic_def)
  show ?case
  proof (cases "b \<in> set visited \<or> bd_parent d = None")
    case True
    with out d show ?thesis by (auto simp: visit_demand.simps [of ds b])
  next
    case False
    then obtain p where p: "bd_parent d = Some p" and new: "b \<notin> set visited" by blast
    from 1(3) d p obtain pd where pd: "dget ds p = Some pd"
      "quantity_identity (bd_quantity d) = quantity_identity (bd_quantity pd)" "bd_limit d \<le> bd_limit pd"
      unfolding edge_ok_def by blast
    have edge: "(b, p) \<in> parent_rel ds" using d p by (simp add: parent_rel_def parent_edge_def)
    have path: "\<forall>x \<in> set (b # visiting). (x, p) \<in> (parent_rel ds)\<^sup>+"
      using 1(5) edge by (auto intro: trancl_into_trancl)
    have "p \<in> set (dkeys ds)" using pd(1) by (rule dget_Some_key)
    from 1(1) [OF out new d p pd(1) _ _ this 1(3,4) path] pd(2,3)
    obtain w where "visit_demand ds p (b # visiting) visited = Inr w" by (auto simp: require_eq_Inr)
    with out new d p pd show ?thesis by (simp add: visit_demand.simps [of ds b])
  qed
qed

section \<open>The loop over all demands\<close>

lemma visit_all_sound:
  assumes "efold (\<lambda>visited b. visit_demand ds b [] visited) v bs = Inr w" and "parents_later ds v"
  shows "parents_later ds w \<and> set v \<subseteq> set w \<and> set bs \<subseteq> set w"
  using assms
proof (induction bs arbitrary: v)
  case Nil
  then show ?case by simp
next
  case (Cons b bs)
  from Cons.prems(1) obtain u where u: "visit_demand ds b [] v = Inr u"
    "efold (\<lambda>visited b. visit_demand ds b [] visited) u bs = Inr w" by (auto simp: ebind_eq_Inr)
  have "parents_later ds u \<and> b \<in> set u \<and> set v \<subseteq> set u"
    using visit_demand_sound [OF u(1) Cons.prems(2)] by simp
  with Cons.IH [OF u(2)] show ?case by auto
qed

lemma visit_all_complete:
  assumes "set bs \<subseteq> set (dkeys ds)" and "\<forall>x. edge_ok ds x" and "acyclic (parent_rel ds)"
  shows "\<exists>w. efold (\<lambda>visited b. visit_demand ds b [] visited) v bs = Inr w"
  using assms(1)
proof (induction bs arbitrary: v)
  case Nil
  then show ?case by simp
next
  case (Cons b bs)
  then obtain u where "visit_demand ds b [] v = Inr u"
    using visit_demand_complete [OF _ assms(2,3), of b "[]" v] by auto
  with Cons show ?case by simp
qed

lemma visit_all_iff:
  "(\<exists>w. efold (\<lambda>visited b. visit_demand ds b [] visited) [] (dkeys ds) = Inr w)
     \<longleftrightarrow> (\<forall>b. edge_ok ds b) \<and> acyclic (parent_rel ds)"
proof
  assume "\<exists>w. efold (\<lambda>visited b. visit_demand ds b [] visited) [] (dkeys ds) = Inr w"
  then obtain w where w: "efold (\<lambda>visited b. visit_demand ds b [] visited) [] (dkeys ds) = Inr w" by blast
  have later: "parents_later ds w" and all: "set (dkeys ds) \<subseteq> set w"
    using visit_all_sound [OF w] by simp_all
  have "edge_ok ds b" for b
  proof (cases "dget ds b")
    case None
    then show ?thesis by (simp add: edge_ok_def)
  next
    case (Some d)
    then have "b \<in> set w" using all dget_Some_key [of ds b] by blast
    with later show ?thesis by (rule parents_later_edges)
  qed
  with parents_later_acyclic [OF later all] show "(\<forall>b. edge_ok ds b) \<and> acyclic (parent_rel ds)" by blast
next
  assume "(\<forall>b. edge_ok ds b) \<and> acyclic (parent_rel ds)"
  then show "\<exists>w. efold (\<lambda>visited b. visit_demand ds b [] visited) [] (dkeys ds) = Inr w"
    using visit_all_complete [OF order_refl] by blast
qed

section \<open>Siblings\<close>

definition child_limits :: "budget_demand list \<Rightarrow> string \<Rightarrow> int list" where
  "child_limits demands p = map bd_limit (filter (\<lambda>d. bd_parent d = Some p) demands)"

lemma child_limits_Cons:
  "child_limits (d # ds) p = (if bd_parent d = Some p then bd_limit d # child_limits ds p else child_limits ds p)"
  by (simp add: child_limits_def)

lemma add_children:
  "dget (foldl add_child acc demands) p =
     (case dget acc p of
        None \<Rightarrow> if child_limits demands p = [] then None else Some (child_limits demands p)
      | Some ls \<Rightarrow> Some (ls @ child_limits demands p))"
proof (induction demands arbitrary: acc)
  case Nil
  then show ?case by (simp add: child_limits_def split: option.splits)
next
  case (Cons d demands)
  have "dget (add_child acc d) p =
      (if bd_parent d = Some p then Some ((case dget acc p of None \<Rightarrow> [] | Some ls \<Rightarrow> ls) @ [bd_limit d])
       else dget acc p)"
    by (auto simp: add_child_def split: option.splits)
  then show ?case
    by (auto simp: Cons.IH child_limits_Cons split: option.splits)
qed

lemma dict_ok_add_children: "dict_ok acc \<Longrightarrow> dict_ok (foldl add_child acc demands)"
  by (induction demands arbitrary: acc) (auto simp: add_child_def dict_ok_dput split: option.splits)

lemma sibling_check_iff:
  assumes "\<forall>d \<in> set demands. \<forall>p. bd_parent d = Some p \<longrightarrow> dget ds p \<noteq> None"
  shows "echeck (\<lambda>(parent_id, limits).
           (case dget ds parent_id of
              None \<Rightarrow> Inl MissingKey
            | Some parent \<Rightarrow> require (sum_list limits \<le> bd_limit parent) SiblingsOverParent))
         (foldl add_child [] demands) = Inr ()
     \<longleftrightarrow> (\<forall>p pd. dget ds p = Some pd \<longrightarrow> child_limits demands p \<noteq> [] \<longrightarrow>
           sum_list (child_limits demands p) \<le> bd_limit pd)" (is "?check = Inr () \<longleftrightarrow> ?ok")
proof -
  have ok: "dict_ok (foldl add_child [] demands)" by (rule dict_ok_add_children) simp
  have entry: "(p, ls) \<in> set (foldl add_child [] demands) \<longleftrightarrow> child_limits demands p = ls \<and> ls \<noteq> []" for p ls
    unfolding dget_Some_iff [OF ok, of p ls, symmetric] add_children [of "[]" demands p] by auto
  have known: "dget ds p \<noteq> None" if "child_limits demands p \<noteq> []" for p
  proof -
    from that obtain d where "d \<in> set demands" "bd_parent d = Some p"
      unfolding child_limits_def by (auto simp: filter_empty_conv)
    with assms show ?thesis by blast
  qed
  have one: "(case dget ds p of None \<Rightarrow> Inl MissingKey
        | Some parent \<Rightarrow> require (sum_list ls \<le> bd_limit parent) SiblingsOverParent) = Inr ()
      \<longleftrightarrow> (\<exists>pd. dget ds p = Some pd \<and> sum_list ls \<le> bd_limit pd)" for p and ls :: "int list"
    by (cases "dget ds p") (simp_all add: require_eq_Inr)
  have "?check = Inr () \<longleftrightarrow> (\<forall>p ls. (p, ls) \<in> set (foldl add_child [] demands) \<longrightarrow>
      (\<exists>pd. dget ds p = Some pd \<and> sum_list ls \<le> bd_limit pd))"
    unfolding echeck_eq_Inr Ball_def split_paired_All split_conv one ..
  also have "\<dots> \<longleftrightarrow> (\<forall>p. child_limits demands p \<noteq> [] \<longrightarrow>
      (\<exists>pd. dget ds p = Some pd \<and> sum_list (child_limits demands p) \<le> bd_limit pd))"
    unfolding entry by blast
  also have "\<dots> \<longleftrightarrow> ?ok"
    using known by (metis option.exhaust option.inject)
  finally show ?thesis .
qed

lemma parent_limits_iff:
  assumes "\<forall>d \<in> set (dvals ds). \<forall>p. bd_parent d = Some p \<longrightarrow> dget ds p \<noteq> None"
  shows "validate_parent_limits ds = Inr () \<longleftrightarrow>
    (\<forall>b. edge_ok ds b) \<and> acyclic (parent_rel ds)
    \<and> (\<forall>p pd. dget ds p = Some pd \<longrightarrow> child_limits (dvals ds) p \<noteq> [] \<longrightarrow>
         sum_list (child_limits (dvals ds) p) \<le> bd_limit pd)"
proof -
  have "validate_parent_limits ds = Inr () \<longleftrightarrow>
     (\<exists>w. efold (\<lambda>visited b. visit_demand ds b [] visited) [] (dkeys ds) = Inr w)
     \<and> echeck (\<lambda>(parent_id, limits).
           (case dget ds parent_id of
              None \<Rightarrow> Inl MissingKey
            | Some parent \<Rightarrow> require (sum_list limits \<le> bd_limit parent) SiblingsOverParent))
         (foldl add_child [] (dvals ds)) = Inr ()"
    unfolding validate_parent_limits_def ebind_eq_Inr by blast
  moreover note sibling_check_iff [of "dvals ds" ds, OF assms]
  ultimately show ?thesis
    unfolding visit_all_iff by argo
qed

section \<open>Policies\<close>

text \<open>The dictionary of a list of demands with different identifiers.\<close>

lemma demands_by_id:
  assumes "distinct (map bd_id demands)"
  shows "foldl (\<lambda>m d. dput (bd_id d) d m) [] demands = map (\<lambda>d. (bd_id d, d)) demands"
    and "dget (map (\<lambda>d. (bd_id d, d)) demands) b = Some d \<longleftrightarrow> d \<in> set demands \<and> bd_id d = b"
proof -
  show "foldl (\<lambda>m d. dput (bd_id d) d m) [] demands = map (\<lambda>d. (bd_id d, d)) demands"
    using foldl_dput_distinct [of "[]" bd_id demands "\<lambda>d. d"] assms by simp
  have "dict_ok (map (\<lambda>d. (bd_id d, d)) demands)" using assms by (simp add: comp_def)
  then show "dget (map (\<lambda>d. (bd_id d, d)) demands) b = Some d \<longleftrightarrow> d \<in> set demands \<and> bd_id d = b"
    by (auto simp: dget_Some_iff)
qed

lemma owners_by_id:
  assumes "distinct (map ow_id owners)"
  shows "dget (foldl (\<lambda>m ow. dput (ow_id ow) ow m) [] owners) i = Some ow \<longleftrightarrow> ow \<in> set owners \<and> ow_id ow = i"
proof -
  have "foldl (\<lambda>m ow. dput (ow_id ow) ow m) [] owners = map (\<lambda>ow. (ow_id ow, ow)) owners"
    using foldl_dput_distinct [of "[]" ow_id owners "\<lambda>ow. ow"] assms by simp
  moreover have "dict_ok (map (\<lambda>ow. (ow_id ow, ow)) owners)" using assms by (simp add: comp_def)
  ultimately show ?thesis by (auto simp: dget_Some_iff)
qed

definition child_relation :: "budget_demand list \<Rightarrow> (string \<times> string) set" where
  "child_relation demands = {(bd_id c, bd_id p) |c p. c \<in> set demands \<and> p \<in> set demands \<and> bd_parent c = Some (bd_id p)}"

text \<open>What a budget policy promises, without the traversal.\<close>

definition policy_hierarchy_ok :: "budget_demand list \<Rightarrow> bool" where
  "policy_hierarchy_ok demands \<longleftrightarrow>
     acyclic (child_relation demands)
     \<and> (\<forall>c \<in> set demands. \<forall>p \<in> set demands. bd_parent c = Some (bd_id p) \<longrightarrow>
          quantity_identity (bd_quantity c) = quantity_identity (bd_quantity p) \<and> bd_limit c \<le> bd_limit p)
     \<and> (\<forall>p \<in> set demands. child_limits demands (bd_id p) \<noteq> [] \<longrightarrow>
          sum_list (child_limits demands (bd_id p)) \<le> bd_limit p)"

lemma hierarchy_of_dict:
  assumes distinct: "distinct (map bd_id demands)"
    and resolved: "\<forall>d \<in> set demands. \<forall>p. bd_parent d = Some p \<longrightarrow> p \<in> bd_id ` set demands"
  shows "validate_parent_limits (map (\<lambda>d. (bd_id d, d)) demands) = Inr () \<longleftrightarrow> policy_hierarchy_ok demands"
proof -
  let ?ds = "map (\<lambda>d. (bd_id d, d)) demands"
  note get = demands_by_id(2) [OF distinct]
  have vals: "dvals ?ds = demands" by (simp add: comp_def)
  have known: "\<forall>d \<in> set (dvals ?ds). \<forall>p. bd_parent d = Some p \<longrightarrow> dget ?ds p \<noteq> None"
    unfolding vals
  proof (intro ballI allI impI)
    fix d p assume "d \<in> set demands" "bd_parent d = Some p"
    with resolved obtain pd where "pd \<in> set demands" "bd_id pd = p" by blast
    then have "dget ?ds p = Some pd" unfolding get by blast
    then show "dget ?ds p \<noteq> None" by simp
  qed
  have rel: "parent_rel ?ds = child_relation demands"
  proof (intro subset_antisym subrelI)
    fix b p assume "(b, p) \<in> parent_rel ?ds"
    then obtain d where d: "d \<in> set demands" "bd_id d = b" "bd_parent d = Some p"
      unfolding parent_rel_def parent_edge_def get by blast
    with resolved obtain pd where "pd \<in> set demands" "bd_id pd = p" by blast
    with d show "(b, p) \<in> child_relation demands" unfolding child_relation_def by blast
  next
    fix b p assume "(b, p) \<in> child_relation demands"
    then show "(b, p) \<in> parent_rel ?ds"
      unfolding child_relation_def parent_rel_def parent_edge_def get by blast
  qed
  have unique: "d = d'" if "d \<in> set demands" "d' \<in> set demands" "bd_id d = bd_id d'" for d d'
    using distinct that by (auto simp: distinct_map dest: inj_onD)
  have edges: "(\<forall>b. edge_ok ?ds b) \<longleftrightarrow>
      (\<forall>c \<in> set demands. \<forall>p \<in> set demands. bd_parent c = Some (bd_id p) \<longrightarrow>
        quantity_identity (bd_quantity c) = quantity_identity (bd_quantity p) \<and> bd_limit c \<le> bd_limit p)"
    unfolding edge_ok_def get
  proof (intro iffI allI ballI impI)
    fix c p
    assume "\<forall>b d p. d \<in> set demands \<and> bd_id d = b \<longrightarrow> bd_parent d = Some p \<longrightarrow>
      (\<exists>pd. (pd \<in> set demands \<and> bd_id pd = p) \<and> quantity_identity (bd_quantity d) = quantity_identity (bd_quantity pd)
        \<and> bd_limit d \<le> bd_limit pd)" "c \<in> set demands" "p \<in> set demands" "bd_parent c = Some (bd_id p)"
    then obtain pd where "pd \<in> set demands" "bd_id pd = bd_id p"
      "quantity_identity (bd_quantity c) = quantity_identity (bd_quantity pd)" "bd_limit c \<le> bd_limit pd" by blast
    with unique \<open>p \<in> set demands\<close>
    show "quantity_identity (bd_quantity c) = quantity_identity (bd_quantity p) \<and> bd_limit c \<le> bd_limit p" by blast
  next
    fix b d p
    assume all: "\<forall>c \<in> set demands. \<forall>p \<in> set demands. bd_parent c = Some (bd_id p) \<longrightarrow>
        quantity_identity (bd_quantity c) = quantity_identity (bd_quantity p) \<and> bd_limit c \<le> bd_limit p"
      and d: "d \<in> set demands \<and> bd_id d = b" "bd_parent d = Some p"
    then obtain pd where "pd \<in> set demands" "bd_id pd = p" using resolved by (metis image_iff)
    with all d show "\<exists>pd. (pd \<in> set demands \<and> bd_id pd = p)
        \<and> quantity_identity (bd_quantity d) = quantity_identity (bd_quantity pd) \<and> bd_limit d \<le> bd_limit pd" by blast
  qed
  have "(\<forall>p pd. dget ?ds p = Some pd \<longrightarrow> child_limits demands p \<noteq> [] \<longrightarrow> sum_list (child_limits demands p) \<le> bd_limit pd)
      \<longleftrightarrow> (\<forall>p \<in> set demands. child_limits demands (bd_id p) \<noteq> [] \<longrightarrow> sum_list (child_limits demands (bd_id p)) \<le> bd_limit p)"
    unfolding get by blast
  then show ?thesis
    unfolding parent_limits_iff [OF known] vals rel edges policy_hierarchy_ok_def by blast
qed

end
