(* ===== verification/ResourceProperties.thy ===== *)
theory ResourceProperties
  imports ResourceGoverned ResourcePolicyProofs
begin

text \<open>
  The properties of participant resource budgets, with a two-demand policy for the witnesses.
\<close>

section \<open>A small configuration\<close>

definition example_fairness :: resource_fairness where
  "example_fairness =
     \<lparr>rf_policy = ''weighted'', rf_class = ''background'', rf_weight = 1, rf_protected = False,
      rf_borrowing = ''lend'', rf_reclaim = ''yield'', rf_queue = 20, rf_starvation = 100\<rparr>"

definition example_demand :: "string \<Rightarrow> string \<Rightarrow> resource_kind \<Rightarrow> string \<Rightarrow> accounting_mode \<Rightarrow> reset_mode \<Rightarrow> runtime_demand" where
  "example_demand budget pool kind unit mode reset =
     \<lparr>rd_budget = budget, rd_owner_kind = ParticipantOwner, rd_owner = ''participant.main'', rd_pool = pool,
      rd_kind = kind, rd_unit = unit, rd_mode = mode, rd_meter = ''meter'', rd_limit = 10,
      rd_reservation = 5, rd_reset = reset\<rparr>"

definition example_policy :: runtime_policy where
  "example_policy =
     \<lparr>rp_address = ''policy.main'',
      rp_demands = [example_demand ''actions'' ''pool.a'' ActionRate ''actions'' WindowedCounter TimeSegmentReset,
                    example_demand ''tokens'' ''pool.t'' InferenceTokens ''tokens'' CumulativeCounter RunReset],
      rp_fairness = example_fairness\<rparr>"

definition example_capacity :: "string \<Rightarrow> resource_kind \<Rightarrow> string \<Rightarrow> accounting_mode \<Rightarrow> pool_capacity" where
  "example_capacity pool kind unit mode =
     \<lparr>pc_pool = pool, pc_owner_kind = ParticipantOwner, pc_owner_ref = ''participant.main'', pc_kind = kind,
      pc_unit = unit, pc_mode = mode, pc_meter = ''meter'', pc_capacity = 100, pc_isolation = NoIsolation,
      pc_digest = ''sha256:'' @ replicate 64 CHR ''0'', pc_fairness = ''weighted'', pc_classes = [''background''],
      pc_borrowing = ''lend'', pc_reclaim = ''yield'', pc_queue = 20, pc_starvation = 100, pc_protected = 20,
      pc_evidence = [''evidence'']\<rparr>"

definition example_pools :: "pool_capacity list" where
  "example_pools =
     [example_capacity ''pool.a'' ActionRate ''actions'' WindowedCounter,
      example_capacity ''pool.t'' InferenceTokens ''tokens'' CumulativeCounter]"

fun example_dg :: "pool_identity \<Rightarrow> string" where
  "example_dg (PoolIdentity pool _ _ _ _ _ _) = pool"

abbreviation example_admitted :: admission where
  "example_admitted \<equiv> \<lambda>_ _ _ _ _. False"

definition example_empty :: "unit resource_snapshot" where
  "example_empty = \<lparr>budget_states = [], pool_states = [], budget_events = [], resource_rest = ()\<rparr>"

definition example_run :: "budget_op list \<Rightarrow> resource_error + unit resource_snapshot" where
  "example_run ops =
     machine_run (budget_step example_dg example_admitted example_pools [example_policy]) example_empty ops"

definition actions_ref :: string where
  "actions_ref = ''policy.main.resource-budget-state.actions''"

definition tokens_ref :: string where
  "tokens_ref = ''policy.main.resource-budget-state.tokens''"

definition example_measured :: "(string, int) dict" where
  "example_measured = [(actions_ref, 5), (tokens_ref, 4)]"

lemma example_separate: "separate_policies example_dg [example_policy]"
  by code_simp

lemma example_empty_sound:
  assumes "separate_policies example_dg policies"
  shows "budget_ok example_dg policies example_empty"
proof -
  have "snapshot_valid example_dg example_empty" by code_simp
  moreover have "books_sound example_dg policies (budget_states example_empty) (pool_states example_empty)"
    by (simp add: books_sound_def example_empty_def)
  moreover have "events_shaped (budget_events example_empty)"
    by (simp add: events_shaped_def example_empty_def)
  ultimately show ?thesis using assms by (simp add: budget_ok_def)
qed

lemma example_empty_ok: "budget_ok example_dg [example_policy] example_empty"
  using example_separate by (rule example_empty_sound)

definition budgets_started :: "unit resource_snapshot" where
  "budgets_started = (case example_run [InitializeBudgets 0] of Inr s \<Rightarrow> s | Inl _ \<Rightarrow> example_empty)"

lemma budgets_started_run: "example_run [InitializeBudgets 0] = Inr budgets_started"
proof -
  have "example_run [InitializeBudgets 0] \<noteq> Inl e" for e
  proof -
    have "(case example_run [InitializeBudgets 0] of Inl _ \<Rightarrow> False | Inr _ \<Rightarrow> True)" by code_simp
    then show ?thesis by (auto split: sum.splits)
  qed
  then show ?thesis by (auto simp: budgets_started_def split: sum.splits)
qed

lemma budgets_started_ok: "budget_ok example_dg [example_policy] budgets_started"
  using budget.run_inv [OF budgets_started_run [unfolded example_run_def] example_empty_ok] .

text \<open>The amount that a budget holds reserved, if the budget exists.\<close>

definition reserved_at :: "'r resource_snapshot \<Rightarrow> string \<Rightarrow> int option" where
  "reserved_at s ref = map_option bs_reserved (dget (budget_states s) ref)"

lemma success_exists:
  "(case m of Inl _ \<Rightarrow> False | Inr r \<Rightarrow> P r) \<Longrightarrow> \<exists>r. m = Inr r \<and> P r"
  by (cases m) auto

lemma example_reservation:
  "\<exists>r. reserve_participant_resources example_dg budgets_started example_policy ''op1'' 0 None = Inr r \<and> result_success r"
  by (rule success_exists) code_simp

lemma example_not_repeated: "\<not> reservation_repeated budgets_started example_policy ''op1''"
  by code_simp

section \<open>Properties\<close>

text \<open>C10: along every run of budget operations, from any sound snapshot, the books stay sound: each
  budget has its allocation in its physical pool with the same generation, reservation and use, no
  pool is allocated beyond its capacity, and event identifiers are only appended.\<close>

theorem budget_runs_keep_books:
  assumes "machine_run (budget_step dg admitted pools policies) s ops = Inr t" and "budget_ok dg policies s"
  shows "budget_ok dg policies t \<and> prefix (dkeys (budget_events s)) (dkeys (budget_events t))
    \<and> (\<forall>ref b. dget (budget_states t) ref = Some b \<longrightarrow>
         bs_reserved b + bs_current b \<le> bs_limit b
         \<and> (\<exists>p a. dget (pool_states t) (pool_ref_for_state dg b) = Some p \<and> dget (ps_allocations p) ref = Some a
              \<and> allocation_agrees b a \<and> pool_allocated_total p \<le> ps_capacity p))"
proof -
  have ok: "budget_ok dg policies t" using assms by (rule budget.run_inv)
  have "prefix (dkeys (budget_events s)) (dkeys (budget_events t))" using assms by (rule budget.run_log)
  moreover have "bs_reserved b + bs_current b \<le> bs_limit b
      \<and> (\<exists>p a. dget (pool_states t) (pool_ref_for_state dg b) = Some p \<and> dget (ps_allocations p) ref = Some a
           \<and> allocation_agrees b a \<and> pool_allocated_total p \<le> ps_capacity p)"
    if b: "dget (budget_states t) ref = Some b" for ref b
    using books_sound_allocation [OF budget_okD(4) [OF ok] b]
      check_pool_state_total [OF valid_pool(1) [OF budget_okD(2) [OF ok]]]
      check_budget_state_bounds(4) [OF valid_state(1) [OF budget_okD(2) [OF ok] b]] by metis
  ultimately show ?thesis using ok by blast
qed

theorem budget_runs_keep_books_witness:
  "budget_ok example_dg [example_policy] budgets_started"
  using budget_runs_keep_books [OF budgets_started_run [unfolded example_run_def] example_empty_ok] by blast

text \<open>C11: a reservation takes a policy's complete resource vector or none of it: on success every
  demand's budget holds its requested amount more and no other budget changes; a refusal changes
  no reservation and no physical pool.\<close>

theorem reserve_all_or_nothing:
  assumes "reserve_participant_resources dg s policy operation g requested = Inr r"
    and "budget_ok dg policies s" and "policy \<in> set policies" and "\<not> reservation_repeated s policy operation"
  shows "if result_success r
    then (\<forall>d \<in> set (rp_demands policy). \<exists>n held. requested_amount d requested = Inr n
            \<and> reserved_at s (demand_state_ref policy d) = Some held
            \<and> reserved_at (result_snapshot r) (demand_state_ref policy d) = Some (held + n))
         \<and> (\<forall>ref. ref \<notin> demand_state_ref policy ` set (rp_demands policy) \<longrightarrow>
              dget (budget_states (result_snapshot r)) ref = dget (budget_states s) ref)
    else (\<forall>ref. reserved_at (result_snapshot r) ref = reserved_at s ref)
         \<and> pool_states (result_snapshot r) = pool_states s"
  using assms(1-3)
proof (cases rule: reserve_cases)
  case repeated
  with assms(4) show ?thesis by blast
next
  case (reserved cs s')
  have "\<exists>n held. requested_amount d requested = Inr n \<and> reserved_at s (demand_state_ref policy d) = Some held
      \<and> reserved_at s' (demand_state_ref policy d) = Some (held + n)" if d: "d \<in> set (rp_demands policy)" for d
  proof -
    from reserved(4) d obtain c where c: "c \<in> set cs" "demand_checked dg s policy g requested d c"
      unfolding checks_of_def list_all2_conv_all_nth in_set_conv_nth by metis
    obtain d' b p n where "c = Checked d' b p n" by (cases c)
    with c reserved(5) show ?thesis
      by (auto simp: reservation_made_def list_all_iff reserved_at_def dest!: bspec)
  qed
  moreover have "check_ref ` set cs = demand_state_ref policy ` set (rp_demands policy)"
    using checks_of_ready(3) [OF reserved(4)] by (metis list.set_map)
  ultimately show ?thesis using reserved(2,5) by (simp add: reservation_made_def)
next
  case refused
  then show ?thesis
    using only_throttled_ok(3,4) [OF assms(2)] by (auto simp: reservation_refused_def reserved_at_def)
qed

theorem reserve_all_or_nothing_witness:
  "\<exists>r. reserve_participant_resources example_dg budgets_started example_policy ''op1'' 0 None = Inr r
    \<and> (\<forall>d \<in> set (rp_demands example_policy). \<exists>n held. requested_amount d None = Inr n
         \<and> reserved_at budgets_started (demand_state_ref example_policy d) = Some held
         \<and> reserved_at (result_snapshot r) (demand_state_ref example_policy d) = Some (held + n))"
proof -
  obtain r where r: "reserve_participant_resources example_dg budgets_started example_policy ''op1'' 0 None = Inr r"
    "result_success r" using example_reservation by blast
  show ?thesis
    using reserve_all_or_nothing [OF r(1) budgets_started_ok _ example_not_repeated] r by auto
qed

text \<open>A successful reservation keeps every bound: each budget of the policy stays within its
  limit and configured capacity, its physical pool within its capacity, and a policy without
  protected standing leaves the protected capacity of the pool untouched.\<close>

theorem reserve_within_capacity:
  assumes "reserve_participant_resources dg s policy operation g requested = Inr r"
    and "budget_ok dg policies s" and "policy \<in> set policies" and "\<not> reservation_repeated s policy operation"
    and "result_success r" and "d \<in> set (rp_demands policy)"
  shows "\<exists>b p a. dget (budget_states (result_snapshot r)) (demand_state_ref policy d) = Some b \<and> bs_generation b = g
    \<and> used_capacity b \<le> bs_limit b \<and> used_capacity b \<le> bs_capacity b
    \<and> dget (pool_states (result_snapshot r)) (demand_pool_ref dg d) = Some p
    \<and> dget (ps_allocations p) (demand_state_ref policy d) = Some a
    \<and> pool_allocated_total p \<le> ps_capacity p
    \<and> (\<not> pa_protected a \<longrightarrow> unprotected_total p \<le> ps_capacity p - ps_protected p)"
  using assms(1-3)
proof (cases rule: reserve_cases)
  case (reserved cs s')
  from reserved(4) assms(6) obtain c where c: "c \<in> set cs" "demand_checked dg s policy g requested d c"
    unfolding checks_of_def list_all2_conv_all_nth in_set_conv_nth by metis
  obtain d' b p n where C: "c = Checked d' b p n" by (cases c)
  from reserved(5) c(1) have "check_applied dg operation (budget_states s') (pool_states s') c"
    by (auto simp: reservation_made_def list_all_iff)
  with c(2) C obtain a where a: "dget (ps_allocations p) (demand_state_ref policy d) = Some a"
    and after: "dget (budget_states s') (demand_state_ref policy d) = Some (b\<lparr>bs_reserved := bs_reserved b + n,
       bs_last_event := operation_event_id operation (bs_ref b) ''reserve''\<rparr>)"
      "dget (pool_states s') (demand_pool_ref dg d) = Some (p\<lparr>ps_allocations :=
              dput (demand_state_ref policy d) (a\<lparr>pa_reserved := pa_reserved a + n\<rparr>) (ps_allocations p)\<rparr>)"
    by auto
  have p: "dget (pool_states s) (demand_pool_ref dg d) = Some p" using c(2) C by simp
  note totals = reserve_totals [OF books_soundD(3) [OF budget_okD(4) [OF assms(2)] p] a refl]
  note room = can_reserve_True [OF _ a]
  from c(2) C a after totals room reserved(2) show ?thesis
    by (auto simp: used_capacity_def split: if_splits)
qed (use assms(4,5) in \<open>auto simp: reservation_refused_def\<close>)

theorem reserve_within_capacity_witness:
  "\<exists>r. reserve_participant_resources example_dg budgets_started example_policy ''op1'' 0 None = Inr r
    \<and> (\<exists>b. dget (budget_states (result_snapshot r)) (demand_state_ref example_policy (hd (rp_demands example_policy))) = Some b
         \<and> used_capacity b \<le> bs_limit b)"
proof -
  obtain r where r: "reserve_participant_resources example_dg budgets_started example_policy ''op1'' 0 None = Inr r"
    "result_success r" using example_reservation by blast
  have "hd (rp_demands example_policy) \<in> set (rp_demands example_policy)" by (simp add: example_policy_def)
  from reserve_within_capacity [OF r(1) budgets_started_ok _ example_not_repeated r(2) this] r(1)
  show ?thesis by auto
qed

text \<open>C12: a commit settles each reservation of its operation once, and only when the generation of the
  call is the current generation of its budget: a reservation without a commit event is subtracted from
  what its budget holds and its measured quantity, at most what was requested, is added to the use; one
  with a commit event changes nothing; no other budget changes; and committing again changes nothing at
  all. The generation in which the reservation was made plays no part.\<close>

theorem commit_settles_once:
  assumes "commit_participant_resource_reservation dg s operation g measured evidence = Inr r"
    and "budget_ok dg policies s" and "result_success r" and "reservations_of s operation \<noteq> []"
  shows "(\<forall>e \<in> set (reservations_of s operation). \<exists>n. dget measured (be_state e) = Some n \<and> 0 \<le> n \<and> n \<le> be_requested e
      \<and> (if operation_event_id operation (be_state e) ''commit'' \<in> set (dkeys (budget_events s))
         then dget (budget_states (result_snapshot r)) (be_state e) = dget (budget_states s) (be_state e)
         else (\<exists>b b'. dget (budget_states s) (be_state e) = Some b \<and> bs_generation b = g
            \<and> dget (budget_states (result_snapshot r)) (be_state e) = Some b'
            \<and> bs_reserved b' = max 0 (bs_reserved b - be_requested e)
            \<and> bs_cumulative b' = bs_cumulative b + n \<and> bs_current b' = bs_current b)))
    \<and> (\<forall>ref. ref \<notin> be_state ` set (reservations_of s operation) \<longrightarrow>
         dget (budget_states (result_snapshot r)) ref = dget (budget_states s) ref)
    \<and> commit_participant_resource_reservation dg (result_snapshot r) operation g' measured evidence
      = Inr (succeeded (result_snapshot r))"
proof -
  note all = commit_settled [OF assms]
  have valid: "valid_measurement_vector (reservations_of s operation) measured evidence"
    using commit_success_cases [OF assms] by blast
  have "\<exists>n. dget measured (be_state e) = Some n \<and> 0 \<le> n \<and> n \<le> be_requested e
      \<and> (if operation_event_id operation (be_state e) ''commit'' \<in> set (dkeys (budget_events s))
         then dget (budget_states (result_snapshot r)) (be_state e) = dget (budget_states s) (be_state e)
         else (\<exists>b b'. dget (budget_states s) (be_state e) = Some b \<and> bs_generation b = g
            \<and> dget (budget_states (result_snapshot r)) (be_state e) = Some b'
            \<and> bs_reserved b' = max 0 (bs_reserved b - be_requested e)
            \<and> bs_cumulative b' = bs_cumulative b + n \<and> bs_current b' = bs_current b))"
    if e: "e \<in> set (reservations_of s operation)" for e
  proof -
    from valid e obtain n where n: "dget measured (be_state e) = Some n" "0 \<le> n" "n \<le> be_requested e"
      by (auto simp: valid_measurement_vector_def list_all_iff split: option.splits)
    have "settles (\<lambda>r. operation_event_id operation (be_state r) ''commit'')
        (commit_effect_of operation g measured evidence) (books_of s) (books_of (result_snapshot r)) e"
      using all e by (simp add: operation_settled_def)
    with n show ?thesis
      by (intro exI [of _ n]) (auto simp: settles_def commit_effect_of_def committed_state_def split: if_splits)
  qed
  moreover have "dget (budget_states (result_snapshot r)) ref = dget (budget_states s) ref"
    if "ref \<notin> be_state ` set (reservations_of s operation)" for ref
    using all that by (simp add: operation_settled_def)
  ultimately show ?thesis using commit_again [OF assms] by blast
qed

definition example_reserved :: "unit resource_snapshot" where
  "example_reserved =
     (case reserve_participant_resources example_dg budgets_started example_policy ''op1'' 0 None of
        Inr r \<Rightarrow> result_snapshot r | Inl _ \<Rightarrow> example_empty)"

lemma example_reserved_ok: "budget_ok example_dg [example_policy] example_reserved"
proof -
  obtain r where r: "reserve_participant_resources example_dg budgets_started example_policy ''op1'' 0 None = Inr r"
    using example_reservation by blast
  then have "snapshot_extends example_dg [example_policy] budgets_started (result_snapshot r)"
    using budgets_started_ok by (rule reserve_extends) simp
  with r show ?thesis by (simp add: example_reserved_def snapshot_extends_def)
qed

lemma example_commit:
  "\<exists>r. commit_participant_resource_reservation example_dg example_reserved ''op1'' 0 example_measured [''e1''] = Inr r
     \<and> result_success r \<and> reservations_of example_reserved ''op1'' \<noteq> []"
  by (rule success_exists) code_simp

theorem commit_settles_once_witness:
  "\<exists>r. commit_participant_resource_reservation example_dg example_reserved ''op1'' 0 example_measured [''e1''] = Inr r
    \<and> commit_participant_resource_reservation example_dg (result_snapshot r) ''op1'' 7 example_measured [''e1'']
      = Inr (succeeded (result_snapshot r))"
proof -
  obtain r where r: "commit_participant_resource_reservation example_dg example_reserved ''op1'' 0 example_measured [''e1''] = Inr r"
    "result_success r" "reservations_of example_reserved ''op1'' \<noteq> []" using example_commit by blast
  from commit_settles_once [OF r(1) example_reserved_ok r(2,3), of 7] r(1) show ?thesis by blast
qed

text \<open>Reconciliation advances every budget of the policy to the next generation, drops its
  reservations, clears the use of exactly the budgets that reset at this boundary and leaves the
  other policies alone; a reservation from before the boundary can no longer be committed in the
  old generation.\<close>

theorem reconcile_fences_generation:
  assumes "reconcile_participant_resource_budgets dg s policy current next boundary evidence = Inr r"
    and "budget_ok dg policies s" and "result_success r"
  shows "current < next
    \<and> (\<forall>ref b. dget (budget_states s) ref = Some b \<longrightarrow>
         (if bs_policy b = policy
          then bs_generation b = current
            \<and> (\<exists>b'. dget (budget_states (result_snapshot r)) ref = Some b' \<and> bs_generation b' = next \<and> bs_reserved b' = 0
                 \<and> bs_limit b' = bs_limit b
                 \<and> bs_current b' = (if bs_reset b = boundary then 0 else bs_current b)
                 \<and> bs_cumulative b' = (if bs_reset b = boundary then 0 else bs_cumulative b))
          else dget (budget_states (result_snapshot r)) ref = Some b))
    \<and> (\<forall>operation measured refs r' e. e \<in> set (reservations_of (result_snapshot r) operation) \<longrightarrow>
         (\<exists>b. dget (budget_states s) (be_state e) = Some b \<and> bs_policy b = policy) \<longrightarrow>
         operation_event_id operation (be_state e) ''commit'' \<notin> set (dkeys (budget_events (result_snapshot r))) \<longrightarrow>
         commit_participant_resource_reservation dg (result_snapshot r) operation current measured refs = Inr r' \<longrightarrow>
         \<not> result_success r')"
  using assms(1,2)
proof (cases rule: reconcile_cases)
  case stale
  with assms(3) show ?thesis by simp
next
  case (reconciled books)
  note sound = budget_okD(4) [OF assms(2)]
  have start: "\<forall>(ref, b) \<in> set (policy_states s policy). dget (rb_states (books_of s)) ref = Some b"
    using policy_states_facts(2) [OF assms(2)] by simp
  from reconcile_loop [OF reconciled(3) books_of_ok [OF assms(2)] policy_states_facts(1) [OF assms(2)] start]
  have effect: "\<forall>(ref, b) \<in> set (policy_states s policy). dget (rb_states books) ref
      = Some (reconciled_state b next (bs_reset b = boundary) (be_id (reconciliation_event policy next evidence ref b)) evidence)"
    "\<forall>ref. ref \<notin> fst ` set (policy_states s policy) \<longrightarrow> dget (rb_states books) ref = dget (budget_states s) ref"
    and ok: "books_ok dg policies books"
    by simp_all
  obtain s' where s': "r = succeeded s'" "budget_ok dg policies s'" "budget_states s' = rb_states books"
    using store_books_ok [OF reconciled(4) ok budget_okD(1) [OF assms(2)]] by blast
  have selected: "(ref, b) \<in> set (policy_states s policy) \<longleftrightarrow> dget (budget_states s) ref = Some b \<and> bs_policy b = policy" for ref b
    using dget_Some_iff [OF books_soundD(1) [OF sound], of ref b] by (auto simp: policy_states_def)
  have mine: "\<exists>b'. dget (budget_states s') ref = Some b' \<and> bs_generation b' = next \<and> bs_reserved b' = 0
      \<and> bs_limit b' = bs_limit b \<and> bs_current b' = (if bs_reset b = boundary then 0 else bs_current b)
      \<and> bs_cumulative b' = (if bs_reset b = boundary then 0 else bs_cumulative b)"
    if "dget (budget_states s) ref = Some b" "bs_policy b = policy" for ref b
    using effect(1) selected [of ref b] that by (auto simp: s'(3) reconciled_state_def)
  have others: "dget (budget_states s') ref = Some b" if b: "dget (budget_states s) ref = Some b" "bs_policy b \<noteq> policy" for ref b
  proof -
    have "ref \<notin> fst ` set (policy_states s policy)" using selected b by force
    with effect(2) b(1) show ?thesis by (simp add: s'(3))
  qed
  have stale: "bs_generation b = current" if "dget (budget_states s) ref = Some b" "bs_policy b = policy" for ref b
    using reconciled(2) selected [of ref b] that by auto
  have fenced: "\<not> result_success r'"
    if "e \<in> set (reservations_of s' operation)" "dget (budget_states s) (be_state e) = Some b" "bs_policy b = policy"
      "operation_event_id operation (be_state e) ''commit'' \<notin> set (dkeys (budget_events s'))"
      "commit_participant_resource_reservation dg s' operation current measured refs = Inr r'"
    for operation measured refs r' e b
    using commit_success_generation [OF that(5) s'(2) _ that(1,4)] mine [OF that(2,3)] reconciled(1) by auto
  show ?thesis
    using reconciled(1) mine others stale fenced s'(1) by (simp del: set_map list.set_map) blast
qed

theorem reconcile_fences_generation_witness:
  "\<exists>r. reconcile_participant_resource_budgets example_dg example_reserved ''policy.main'' 0 1 TimeSegmentReset [''e''] = Inr r
    \<and> (\<forall>ref b. dget (budget_states example_reserved) ref = Some b \<longrightarrow> bs_policy b = ''policy.main'' \<longrightarrow>
         (\<exists>b'. dget (budget_states (result_snapshot r)) ref = Some b' \<and> bs_generation b' = 1 \<and> bs_reserved b' = 0))"
proof -
  have "\<exists>r. reconcile_participant_resource_budgets example_dg example_reserved ''policy.main'' 0 1 TimeSegmentReset [''e''] = Inr r
      \<and> result_success r" by (rule success_exists) code_simp
  then obtain r where r: "reconcile_participant_resource_budgets example_dg example_reserved ''policy.main'' 0 1 TimeSegmentReset [''e''] = Inr r"
    "result_success r" by blast
  have "\<exists>b'. dget (budget_states (result_snapshot r)) ref = Some b' \<and> bs_generation b' = 1 \<and> bs_reserved b' = 0"
    if "dget (budget_states example_reserved) ref = Some b" "bs_policy b = ''policy.main''" for ref b
    using reconcile_fences_generation [OF r(1) example_reserved_ok r(2)] that by meson
  with r(1) show ?thesis by blast
qed

text \<open>C13: a budget policy is admitted exactly when its owner and budget identifiers are unique, every
  required kind has a demand, owners and parents resolve, the parents form an acyclic hierarchy in
  which a child has its parent's quantity identity and at most its limit and siblings together fit
  under it, and no two demands name the same pool.\<close>

theorem budget_policy_admission:
  "validate_budget_policy owners demands required = Inr () \<longleftrightarrow>
     distinct (map ow_id owners) \<and> distinct (map bd_id demands)
     \<and> set required \<subseteq> (\<lambda>d. qu_kind (bd_quantity d)) ` set demands
     \<and> bd_owner ` set demands \<subseteq> set owners
     \<and> (\<forall>d \<in> set demands. \<forall>p. bd_parent d = Some p \<longrightarrow> p \<in> bd_id ` set demands)
     \<and> policy_hierarchy_ok demands \<and> distinct (map demand_pool_key demands)"
proof (cases "distinct (map ow_id owners) \<and> distinct (map bd_id demands)")
  case True
  then have ow: "distinct (map ow_id owners)" and bd: "distinct (map bd_id demands)" by blast+
  let ?owners = "foldl (\<lambda>m ow. dput (ow_id ow) ow m) [] owners"
  let ?ds = "map (\<lambda>d. (bd_id d, d)) demands"
  have refs: "(echeck (\<lambda>d. ebind (require (dget ?owners (ow_id (bd_owner d)) = Some (bd_owner d)) UnresolvedOwner) (\<lambda>_.
           (case bd_parent d of None \<Rightarrow> Inr () | Some p \<Rightarrow> require (p \<in> set (dkeys ?ds)) UnresolvedParent))) demands
       = Inr ()) \<longleftrightarrow> bd_owner ` set demands \<subseteq> set owners
         \<and> (\<forall>d \<in> set demands. \<forall>p. bd_parent d = Some p \<longrightarrow> p \<in> bd_id ` set demands)"
    unfolding echeck_eq_Inr owners_by_id [OF ow]
    by (auto simp: ebind_eq_Inr require_eq_Inr owners_by_id [OF ow] image_image split: option.splits)
  have "validate_budget_policy owners demands required = Inr () \<longleftrightarrow>
     set required \<subseteq> (\<lambda>d. qu_kind (bd_quantity d)) ` set demands
     \<and> (bd_owner ` set demands \<subseteq> set owners
         \<and> (\<forall>d \<in> set demands. \<forall>p. bd_parent d = Some p \<longrightarrow> p \<in> bd_id ` set demands))
     \<and> validate_parent_limits ?ds = Inr () \<and> distinct (map demand_pool_key demands)"
    unfolding validate_budget_policy_def Let_def demands_by_id(1) [OF bd]
    using ow bd refs by (simp add: ebind_eq_Inr require_eq_Inr del: set_map list.set_map) (auto simp: image_def)
  then show ?thesis
    using True hierarchy_of_dict [OF bd] by blast
next
  case False
  then show ?thesis by (auto simp: validate_budget_policy_def ebind_eq_Inr require_eq_Inr)
qed

definition example_owner :: resource_owner where
  "example_owner = \<lparr>ow_id = ''o'', ow_kind = ParticipantOwner, ow_ref = ''participant.main''\<rparr>"

definition example_budget :: "string \<Rightarrow> string \<Rightarrow> int \<Rightarrow> string option \<Rightarrow> budget_demand" where
  "example_budget i pool limit parent =
     \<lparr>bd_id = i, bd_owner = example_owner, bd_pool = pool,
      bd_quantity = \<lparr>qu_kind = ActionRate, qu_unit = ''actions'', qu_mode = WindowedCounter, qu_meter = ''meter'', qu_amount = 1\<rparr>,
      bd_limit = limit, bd_reservation = 1, bd_reset = TimeSegmentReset, bd_window = Some 100,
      bd_parent = parent, bd_evidence = [], bd_legacy = False\<rparr>"

definition example_demands :: "budget_demand list" where
  "example_demands = [example_budget ''child'' ''pool.a'' 4 (Some ''parent''), example_budget ''parent'' ''pool.b'' 10 None]"

theorem budget_policy_admission_witness:
  "validate_budget_policy [example_owner] example_demands [ActionRate] = Inr () \<and> policy_hierarchy_ok example_demands"
proof -
  have "validate_budget_policy [example_owner] example_demands [ActionRate] = Inr ()" by code_simp
  then show ?thesis
    using budget_policy_admission [of "[example_owner]" example_demands "[ActionRate]"] by blast
qed

text \<open>A successful initialization gives every demand of every policy a budget of the requested
  generation with the demand's limit: a new one holds and has used nothing, one that is there
  already is kept as it is.\<close>

theorem initialize_establishes_budgets:
  assumes "initialize_participant_resource_budgets dg admitted pools s policies g = Inr r"
    and "budget_ok dg policies s" and "result_success r"
  shows "\<forall>policy \<in> set policies. \<forall>d \<in> set (rp_demands policy).
    \<exists>b. dget (budget_states (result_snapshot r)) (demand_state_ref policy d) = Some b
      \<and> bs_generation b = g \<and> bs_limit b = rd_limit d
      \<and> (case dget (budget_states s) (demand_state_ref policy d) of
           None \<Rightarrow> bs_reserved b = 0 \<and> bs_current b = 0 \<and> bs_cumulative b = 0
         | Some old \<Rightarrow> b = old)"
proof -
  from initialize_extends [OF assms(1,2)] have ok: "budget_ok dg policies (result_snapshot r)"
    by (simp add: snapshot_extends_def)
  from assms(1,3) obtain books where loop: "floop (initialize_demand dg admitted pools s g) (budget_states s, pool_states s)
      (policy_jobs policies) = Inr (Inr books)" and after: "budget_states (result_snapshot r) = fst books"
    using initialize_success [of dg admitted pools s policies g r] by blast
  note effect = initialize_loop_effect [OF loop]
  show ?thesis
  proof (intro ballI)
    fix policy d assume "policy \<in> set policies" "d \<in> set (rp_demands policy)"
    then have job: "(policy, d) \<in> set (policy_jobs policies)" by (simp add: policy_jobs_iff)
    with effect obtain b where b: "dget (fst books) (demand_state_ref policy d) = Some b" "bs_generation b = g"
      "dget (budget_states s) (demand_state_ref policy d) = None \<longrightarrow>
         bs_reserved b = 0 \<and> bs_current b = 0 \<and> bs_cumulative b = 0" by auto
    have "bs_limit b = rd_limit d"
      using policy_state_pool(4) [OF budget_okD(1) [OF ok] job]
        books_soundD(6) [OF budget_okD(4) [OF ok]] b(1) after by simp
    moreover have "b = old" if "dget (budget_states s) (demand_state_ref policy d) = Some old" for old
      using effect that b(1) by auto
    ultimately show "\<exists>b. dget (budget_states (result_snapshot r)) (demand_state_ref policy d) = Some b
      \<and> bs_generation b = g \<and> bs_limit b = rd_limit d
      \<and> (case dget (budget_states s) (demand_state_ref policy d) of
           None \<Rightarrow> bs_reserved b = 0 \<and> bs_current b = 0 \<and> bs_cumulative b = 0 | Some old \<Rightarrow> b = old)"
      using b after by (auto split: option.splits)
  qed
qed

theorem initialize_establishes_budgets_witness:
  "\<exists>r. initialize_participant_resource_budgets example_dg example_admitted example_pools example_empty [example_policy] 0 = Inr r
    \<and> (\<exists>b. dget (budget_states (result_snapshot r)) (demand_state_ref example_policy (hd (rp_demands example_policy))) = Some b
         \<and> bs_limit b = 10)"
proof -
  have "\<exists>r. initialize_participant_resource_budgets example_dg example_admitted example_pools example_empty [example_policy] 0
      = Inr r \<and> result_success r" by (rule success_exists) code_simp
  then obtain r where r: "initialize_participant_resource_budgets example_dg example_admitted example_pools example_empty
      [example_policy] 0 = Inr r" "result_success r" by blast
  have d: "hd (rp_demands example_policy) \<in> set (rp_demands example_policy)" "rd_limit (hd (rp_demands example_policy)) = 10"
    by (simp_all add: example_policy_def example_demand_def)
  from initialize_establishes_budgets [OF r(1) example_empty_ok r(2)] d r(1) show ?thesis by auto
qed

text \<open>C14: along the runs of a client that commits or releases an operation in the generation that
  reserved it, and never both ways, what a budget holds is the sum of the requests of its
  generation that are neither committed nor released, and what it holds and has used together
  stays within its limit and its configured capacity.\<close>

theorem governed_budgets_never_overrun:
  assumes "governed_run dg admitted pools policies s ops t" and "accounts_ok dg policies s"
  shows "\<forall>ref b. dget (budget_states t) ref = Some b \<longrightarrow>
    bs_reserved b = outstanding (set (dkeys (budget_events t))) (reserves (budget_events t)) ref (bs_generation b)
    \<and> used_capacity b \<le> bs_limit b \<and> used_capacity b \<le> bs_capacity b"
  using accountsD(5-7) [OF accounts_okD(3) [OF governed_accounts [OF assms]]] by blast

lemma example_empty_accounts:
  assumes "separate_policies example_dg policies" and "refs_plain policies"
  shows "accounts_ok example_dg policies example_empty"
proof -
  have "accounts policies (budget_states example_empty) (set (dkeys (budget_events example_empty)))
      (reserves (budget_events example_empty))"
    by (simp add: accounts_def example_empty_def)
  with assms example_empty_sound show ?thesis by (simp add: accounts_ok_def)
qed

theorem governed_budgets_never_overrun_witness:
  "\<exists>t. governed_run example_dg example_admitted example_pools [example_policy] example_empty
      [InitializeBudgets 0, ReserveBudgets 0 ''op1'' 0 None, CommitBudgets ''op1'' 0 example_measured [''e1'']] t
    \<and> (\<forall>ref b. dget (budget_states t) ref = Some b \<longrightarrow> used_capacity b \<le> bs_limit b)"
proof -
  let ?step = "budget_step example_dg example_admitted example_pools [example_policy]"
  have start: "?step (InitializeBudgets 0) example_empty = Inr budgets_started"
    using budgets_started_run by (simp add: example_run_def ebind_eq_Inr)
  have "?step (ReserveBudgets 0 ''op1'' 0 None) budgets_started = Inr example_reserved"
    using example_reservation by (auto simp: budget_step_def example_reserved_def)
  moreover obtain u where "?step (CommitBudgets ''op1'' 0 example_measured [''e1'']) example_reserved = Inr u"
    using example_commit by (auto simp: budget_step_def)
  moreover have "governs example_reserved (CommitBudgets ''op1'' 0 example_measured [''e1''])" by code_simp
  ultimately have "governed_run example_dg example_admitted example_pools [example_policy] example_empty
      [InitializeBudgets 0, ReserveBudgets 0 ''op1'' 0 None, CommitBudgets ''op1'' 0 example_measured [''e1'']] u"
    using start by (auto simp: governed_simps)
  moreover have "refs_plain [example_policy]" by code_simp
  ultimately show ?thesis
    using governed_budgets_never_overrun [OF _ example_empty_accounts [OF example_separate]] by blast
qed

section \<open>Where the operations do not keep their promise\<close>

definition example_single :: runtime_policy where
  "example_single =
     \<lparr>rp_address = ''policy.main'',
      rp_demands = [example_demand ''actions'' ''pool.a'' ActionRate ''actions'' WindowedCounter TimeSegmentReset],
      rp_fairness = example_fairness\<rparr>"

definition single_run :: "budget_op list \<Rightarrow> resource_error + unit resource_snapshot" where
  "single_run ops =
     machine_run (budget_step example_dg example_admitted example_pools [example_single]) example_empty ops"

text \<open>
  The generation in which an operation was reserved is not compared: a reservation whose budget has
  been reconciled since, and holds nothing any more, is committed in the new generation.
\<close>

lemma reservation_committed_after_boundary:
  "\<exists>s b. single_run [InitializeBudgets 0, ReserveBudgets 0 ''op1'' 0 None,
       ReconcileBudgets ''policy.main'' 0 1 TimeSegmentReset [''e''],
       CommitBudgets ''op1'' 1 [(actions_ref, 5)] [''e1'']] = Inr s
     \<and> list_all (\<lambda>e. be_generation e = 0) (reservations_of s ''op1'')
     \<and> dget (budget_states s) actions_ref = Some b \<and> bs_generation b = 1 \<and> bs_cumulative b = 5"
proof -
  have "case single_run [InitializeBudgets 0, ReserveBudgets 0 ''op1'' 0 None,
       ReconcileBudgets ''policy.main'' 0 1 TimeSegmentReset [''e''],
       CommitBudgets ''op1'' 1 [(actions_ref, 5)] [''e1'']] of
     Inl _ \<Rightarrow> False
   | Inr s \<Rightarrow> list_all (\<lambda>e. be_generation e = 0) (reservations_of s ''op1'')
     \<and> map_option (\<lambda>b. (bs_generation b, bs_cumulative b)) (dget (budget_states s) actions_ref) = Some (1, 5)"
    by code_simp
  then show ?thesis by (auto split: sum.splits)
qed



text \<open>What this can lead to: a further reservation takes the place, and when all operations commit the
  budget has used more than its limit.\<close>

lemma release_after_commit_overruns_limit:
  "\<exists>s b. single_run [InitializeBudgets 0, ReserveBudgets 0 ''op1'' 0 None, ReserveBudgets 0 ''op2'' 0 None,
       CommitBudgets ''op1'' 0 [(actions_ref, 5)] [''e1''], ReleaseBudgets ''op1'' 0 [''e2''],
       ReserveBudgets 0 ''op3'' 0 None, CommitBudgets ''op2'' 0 [(actions_ref, 5)] [''e3''],
       CommitBudgets ''op3'' 0 [(actions_ref, 5)] [''e4'']] = Inr s
     \<and> dget (budget_states s) actions_ref = Some b \<and> bs_limit b = 10 \<and> bs_cumulative b = 15"
proof -
  have "case single_run [InitializeBudgets 0, ReserveBudgets 0 ''op1'' 0 None, ReserveBudgets 0 ''op2'' 0 None,
       CommitBudgets ''op1'' 0 [(actions_ref, 5)] [''e1''], ReleaseBudgets ''op1'' 0 [''e2''],
       ReserveBudgets 0 ''op3'' 0 None, CommitBudgets ''op2'' 0 [(actions_ref, 5)] [''e3''],
       CommitBudgets ''op3'' 0 [(actions_ref, 5)] [''e4'']] of
     Inl _ \<Rightarrow> False
   | Inr s \<Rightarrow> map_option (\<lambda>b. (bs_limit b, bs_cumulative b)) (dget (budget_states s) actions_ref) = Some (10, 15)"
    by code_simp
  then show ?thesis by (auto split: sum.splits)
qed










text \<open>The second throttling of an operation replaces the event of the first one, and the event
  that stands in the log names itself as its predecessor.\<close>

theorem throttle_event_overwritten:
  "\<exists>s e b. single_run [InitializeBudgets 0, ReserveBudgets 0 ''op1'' 0 (Some [(''actions'', 20)]),
       ReserveBudgets 0 ''op1'' 0 (Some [(''actions'', 20)])] = Inr s
     \<and> budget_events s = [(operation_event_id ''op1'' actions_ref ''throttle'', e)]
     \<and> be_predecessor e = Some (be_id e)
     \<and> dget (budget_states s) actions_ref = Some b \<and> bs_throttled b = 2"
proof -
  have "case single_run [InitializeBudgets 0, ReserveBudgets 0 ''op1'' 0 (Some [(''actions'', 20)]),
       ReserveBudgets 0 ''op1'' 0 (Some [(''actions'', 20)])] of
     Inl _ \<Rightarrow> False
   | Inr s \<Rightarrow> map (\<lambda>(i, e). (i, be_predecessor e = Some (be_id e))) (budget_events s)
        = [(operation_event_id ''op1'' actions_ref ''throttle'', True)]
     \<and> map_option bs_throttled (dget (budget_states s) actions_ref) = Some 2"
    by code_simp
  then show ?thesis by (auto simp: map_eq_Cons_conv split: sum.splits)
qed

end
