(* ===== verification/JsonPointer.thy ===== *)
theory JsonPointer
  imports Prelude
begin

text \<open>
  JSON Pointer reference tokens and array indices (raes_contracts/json_pointer.py), with the
  \<open>str\<close> methods they use: \<open>replace\<close> for a non-empty pattern and \<open>split\<close> at one character.
\<close>

section \<open>String methods\<close>

text \<open>\<open>s.replace(old, new)\<close>: the occurrences of \<open>old\<close>, from left to right without overlap.\<close>

function py_replace :: "string \<Rightarrow> string \<Rightarrow> string \<Rightarrow> string" where
  "py_replace old new [] = []"
| "py_replace old new (c # cs) =
     (if old \<noteq> [] \<and> prefix old (c # cs) then new @ py_replace old new (drop (length old) (c # cs))
      else c # py_replace old new cs)"
  by pat_completeness auto
termination by (relation "measure (\<lambda>(old, new, s). length s)") auto

fun py_split :: "char \<Rightarrow> string \<Rightarrow> string list" where
  "py_split sep [] = [[]]"
| "py_split sep (c # cs) =
     (if c = sep then [] # py_split sep cs
      else (case py_split sep cs of [] \<Rightarrow> [[c]] | w # ws \<Rightarrow> (c # w) # ws))"

lemma py_split_not_Nil [simp]: "py_split sep s \<noteq> []"
  by (induction s) (auto split: list.splits)

lemma py_split_word: "sep \<notin> set w \<Longrightarrow> py_split sep w = [w]"
  by (induction w) auto

lemma py_split_append: "sep \<notin> set w \<Longrightarrow> py_split sep (w @ sep # s) = w # py_split sep s"
  by (induction w) auto

text \<open>Replacing one character replaces it everywhere.\<close>

lemma py_replace_char: "py_replace [a] new s = concat (map (\<lambda>c. if c = a then new else [c]) s)"
  by (induction "[a]" new s rule: py_replace.induct) auto

section \<open>Tokens\<close>

definition escape_token :: "string \<Rightarrow> string" where
  "escape_token token = py_replace ''/'' ''~1'' (py_replace ''~'' ''~0'' token)"

definition unescape_token :: "string \<Rightarrow> string" where
  "unescape_token token = py_replace ''~0'' ''~'' (py_replace ''~1'' ''/'' token)"

definition pointer_from_tokens :: "string list \<Rightarrow> string" where
  "pointer_from_tokens tokens = concat (map (\<lambda>token. CHR ''/'' # escape_token token) tokens)"

definition pointer_tokens :: "string \<Rightarrow> string list" where
  "pointer_tokens pointer = map unescape_token (tl (py_split CHR ''/'' pointer))"

definition escape_char :: "char \<Rightarrow> string" where
  "escape_char c = (if c = CHR ''~'' then ''~0'' else if c = CHR ''/'' then ''~1'' else [c])"

lemma escape_token_chars: "escape_token token = concat (map escape_char token)"
proof -
  have "concat (map (\<lambda>c. if c = CHR ''/'' then ''~1'' else [c]) (concat (map (\<lambda>c. if c = CHR ''~'' then ''~0'' else [c]) token)))
      = concat (map escape_char token)"
    by (induction token) (auto simp: escape_char_def)
  then show ?thesis
    by (simp add: escape_token_def py_replace_char)
qed

lemma escape_token_no_slash: "CHR ''/'' \<notin> set (escape_token token)"
  unfolding escape_token_chars by (induction token) (auto simp: escape_char_def)

lemma escape_token_plain:
  "CHR ''~'' \<notin> set token \<Longrightarrow> CHR ''/'' \<notin> set token \<Longrightarrow> escape_token token = token"
  unfolding escape_token_chars by (induction token) (auto simp: escape_char_def)

lemma unescape_first:
  "py_replace ''~1'' ''/'' (concat (map escape_char token))
     = concat (map (\<lambda>c. if c = CHR ''~'' then ''~0'' else [c]) token)"
  by (induction token) (auto simp: escape_char_def)

lemma unescape_second:
  "py_replace ''~0'' ''~'' (concat (map (\<lambda>c. if c = CHR ''~'' then ''~0'' else [c]) token)) = token"
  by (induction token) auto

lemma unescape_escape: "unescape_token (escape_token token) = token"
  unfolding unescape_token_def escape_token_chars unescape_first unescape_second ..

lemma split_pointer:
  "py_split CHR ''/'' (pointer_from_tokens tokens) = [] # map escape_token tokens"
proof -
  have joined: "py_split CHR ''/'' (w @ pointer_from_tokens ts) = w # map escape_token ts"
    if "CHR ''/'' \<notin> set w" for w ts
    using that
  proof (induction ts arbitrary: w)
    case Nil
    then show ?case by (simp add: pointer_from_tokens_def py_split_word)
  next
    case (Cons t ts)
    have "w @ pointer_from_tokens (t # ts) = w @ CHR ''/'' # escape_token t @ pointer_from_tokens ts"
      by (simp add: pointer_from_tokens_def)
    with Cons.IH [OF escape_token_no_slash] Cons.prems show ?case by (simp add: py_split_append)
  qed
  from joined [of "[]"] show ?thesis by simp
qed

section \<open>Array indices\<close>

definition is_digit :: "char \<Rightarrow> bool" where
  "is_digit c \<longleftrightarrow> CHR ''0'' \<le> c \<and> c \<le> CHR ''9''"

definition is_array_index_token :: "string \<Rightarrow> bool" where
  "is_array_index_token token \<longleftrightarrow>
     token \<noteq> [] \<and> list_all is_digit token \<and> (length token = 1 \<or> hd token \<noteq> CHR ''0'')"

text \<open>\<open>int(token)\<close> of a string of ASCII digits.\<close>

definition digits_value :: "string \<Rightarrow> nat" where
  "digits_value s = foldl (\<lambda>n c. 10 * n + (of_char c - 48)) 0 s"

definition array_index :: "string \<Rightarrow> nat \<Rightarrow> nat option" where
  "array_index token len =
     (if \<not> is_array_index_token token then None
      else if length token > length (digits_of len) \<or> digits_value token \<ge> len then None
      else Some (digits_value token))"

lemma digits_value_snoc: "digits_value (s @ [c]) = 10 * digits_value s + (of_char c - 48)"
  by (simp add: digits_value_def)

lemma is_digit_iff: "is_digit c \<longleftrightarrow> (48 :: nat) \<le> of_char c \<and> of_char c \<le> (57 :: nat)"
  by (simp add: is_digit_def less_eq_char_def)

lemma char_of_digit:
  assumes "d < 10"
  shows "is_digit (char_of (48 + d :: nat))" and "of_char (char_of (48 + d :: nat)) = 48 + d"
    and "char_of (48 + d :: nat) = CHR ''0'' \<longleftrightarrow> d = 0"
proof -
  show v: "of_char (char_of (48 + d :: nat)) = 48 + d" using assms by simp
  then show "is_digit (char_of (48 + d :: nat))"
    using assms by (simp add: is_digit_iff)
  have "of_char (CHR ''0'') = (48 :: nat)" by simp
  with v show "char_of (48 + d :: nat) = CHR ''0'' \<longleftrightarrow> d = 0"
    by (metis add_cancel_right_right char_of_char)
qed

lemma char_of_48 [simp]: "char_of (48 :: nat) = CHR ''0''"
  using char_of_digit(3) [of 0] by simp

lemma digits_of_step: "\<not> n < 10 \<Longrightarrow> digits_of n = digits_of (n div 10) @ [char_of (48 + n mod 10)]"
  by (subst digits_of.simps) simp

lemma digits_of_value:
  "digits_of n \<noteq> [] \<and> list_all is_digit (digits_of n) \<and> digits_value (digits_of n) = n
     \<and> (hd (digits_of n) = CHR ''0'' \<longleftrightarrow> n = 0)"
proof (induction n rule: digits_of.induct)
  case (1 n)
  show ?case
  proof (cases "n < 10")
    case True
    then have "digits_of n = [char_of (48 + n)]" by (simp add: digits_of.simps)
    then show ?thesis
      using char_of_digit [OF True] by (simp add: digits_value_def)
  next
    case False
    note digit = char_of_digit [of "n mod 10"]
    from 1 [OF False] False digit show ?thesis
      unfolding digits_of_step [OF False] by (simp add: digits_value_snoc)
  qed
qed

lemma digits_of_canonical: "is_array_index_token (digits_of n)"
proof (cases "n = 0")
  case True
  with digits_of_value [of n] show ?thesis by (simp add: is_array_index_token_def digits_of.simps)
next
  case False
  with digits_of_value [of n] show ?thesis by (simp add: is_array_index_token_def)
qed

lemma digits_of_digits_value:
  "is_array_index_token token \<Longrightarrow> digits_of (digits_value token) = token
     \<and> (digits_value token = 0 \<longrightarrow> token = ''0'')"
proof (induction token rule: rev_induct)
  case Nil
  then show ?case by (simp add: is_array_index_token_def)
next
  case (snoc c s)
  have "(48 :: nat) \<le> of_char c" "of_char c \<le> (57 :: nat)"
    using snoc.prems by (simp_all add: is_array_index_token_def is_digit_iff)
  then have digit: "of_char c - (48 :: nat) < 10" "char_of (48 + (of_char c - 48 :: nat)) = c" by simp_all
  show ?case
  proof (cases "s = []")
    case True
    have "digits_value [c] = of_char c - 48" by (simp add: digits_value_def)
    with True digit show ?thesis by (auto simp: digits_of.simps)
  next
    case False
    with snoc.prems have s: "is_array_index_token s" "hd s \<noteq> CHR ''0''"
      by (auto simp: is_array_index_token_def)
    with snoc.IH have IH: "digits_of (digits_value s) = s" "digits_value s \<noteq> 0" by auto
    then have "\<not> 10 * digits_value s + (of_char c - 48) < 10" by simp
    from digits_of_step [OF this] IH digit show ?thesis
      unfolding digits_value_snoc by simp
  qed
qed

lemma length_digits_of_mono: "m \<le> n \<Longrightarrow> length (digits_of m) \<le> length (digits_of n)"
proof (induction n arbitrary: m rule: digits_of.induct)
  case (1 n)
  show ?case
  proof (cases "n < 10")
    case True
    with 1(2) show ?thesis by (simp add: digits_of.simps)
  next
    case False
    show ?thesis
    proof (cases "m < 10")
      case True
      then show ?thesis by (simp add: digits_of.simps [of m] digits_of_step [OF False])
    next
      case m: False
      have "m div 10 \<le> n div 10" using 1(2) by (rule div_le_mono)
      from 1(1) [OF False this] show ?thesis
        unfolding digits_of_step [OF False] digits_of_step [OF m] by simp
    qed
  qed
qed

text \<open>Decoding the tokens of a pointer gives back the tokens it was built from, and an array
  index has one spelling: a token names the position \<open>n\<close> of a list exactly when it is the decimal
  numeral of \<open>n\<close> and the list has that position.\<close>

theorem pointer_tokens_round_trip:
  "pointer_tokens (pointer_from_tokens tokens) = tokens
   \<and> (array_index token len = Some n \<longleftrightarrow> n < len \<and> token = digits_of n)"
proof -
  have "pointer_tokens (pointer_from_tokens tokens) = tokens"
    by (simp add: pointer_tokens_def split_pointer unescape_escape map_idI)
  moreover have "array_index token len = Some n \<longleftrightarrow> n < len \<and> token = digits_of n"
    using digits_of_value [of n] digits_of_canonical [of n] digits_of_digits_value [of token]
      length_digits_of_mono [of n len]
    by (auto simp: array_index_def not_less)
  ultimately show ?thesis ..
qed

end
