(* ===== verification/ExploitModel.thy ===== *)
theory ExploitModel
  imports JsonPointer "HOL-Library.Product_Lexorder"
begin

text \<open>
  Exploit-path analysis, the contracts (raes_processor/exploit_path/evidence.py): the attack graph,
  the query, the admitted input and the evidence, each with its validator, and the diagnostics
  (_diagnostics.py). A validator returns \<open>Inl\<close> for the \<open>ValidationError\<close> of pydantic. Fields with a
  single literal value and the texts of messages are left out.

  Digests of canonical documents are a parameter: a function from the document to its text.
\<close>

definition MAX_EXPLOIT_PATH_BLOCKED_TRANSITIONS :: nat where
  "MAX_EXPLOIT_PATH_BLOCKED_TRANSITIONS = 256"

definition MAX_EXPLOIT_PATH_DIAGNOSTICS :: nat where
  "MAX_EXPLOIT_PATH_DIAGNOSTICS = 64"

definition MAX_EXPLOIT_PATH_EXPLORED_STATES :: nat where
  "MAX_EXPLOIT_PATH_EXPLORED_STATES = 4096"

definition MAX_EXPLOIT_PATH_IMPOSSIBLE_TRANSITIONS :: nat where
  "MAX_EXPLOIT_PATH_IMPOSSIBLE_TRANSITIONS = 512"

datatype exploit_error =
    BadField \<comment> \<open>a field does not match its pattern, length or range\<close>
  | NotSortedUnique
  | UndeclaredFact
  | SnapshotUnbound
  | DigestUnbound
  | GoalUnsatisfied
  | PayloadMismatch
  | ReasonMismatch
  | SourceMismatch \<comment> \<open>ExploitPathEvidenceError: source digest does not match the evidence\<close>
  | NotReproduced \<comment> \<open>ExploitPathEvidenceError: evidence replay did not reproduce\<close>

section \<open>Field patterns\<close>

definition lower_letter :: "char \<Rightarrow> bool" where
  "lower_letter c \<longleftrightarrow> CHR ''a'' \<le> c \<and> c \<le> CHR ''z''"

definition id_char :: "char \<Rightarrow> bool" where
  "id_char c \<longleftrightarrow> lower_letter c \<or> is_digit c \<or> c \<in> {CHR ''.'', CHR ''_'', CHR '':'', CHR ''-''}"

definition exploit_path_id :: "string \<Rightarrow> bool" where
  "exploit_path_id s \<longleftrightarrow> length s \<le> 256 \<and> s \<noteq> [] \<and> lower_letter (hd s) \<and> list_all id_char (tl s)"

fun pointer_body :: "string \<Rightarrow> bool" where
  "pointer_body [] \<longleftrightarrow> True"
| "pointer_body (c # cs) \<longleftrightarrow>
     (if c = CHR ''~'' then (case cs of [] \<Rightarrow> False | d # ds \<Rightarrow> d \<in> {CHR ''0'', CHR ''1''} \<and> pointer_body cs)
      else pointer_body cs)"

definition json_pointer :: "string \<Rightarrow> bool" where
  "json_pointer s \<longleftrightarrow> length s \<le> 4096 \<and> (s = [] \<or> hd s = CHR ''/'') \<and> pointer_body s"

definition one_line :: "string \<Rightarrow> bool" where
  "one_line s \<longleftrightarrow> s \<noteq> [] \<and> length s \<le> 256 \<and> list_all (\<lambda>c. c \<noteq> CHR 0x0A \<and> c \<noteq> CHR 0x0D) s"

definition kebab :: "string \<Rightarrow> bool" where
  "kebab s \<longleftrightarrow> s \<noteq> [] \<and> lower_letter (hd s) \<and> list_all (\<lambda>c. lower_letter c \<or> is_digit c \<or> c = CHR ''-'') (tl s)"

definition kind_text :: "string \<Rightarrow> bool" where
  "kind_text s \<longleftrightarrow> length s \<le> 128 \<and> kebab s"

definition semantics_text :: "string \<Rightarrow> bool" where
  "semantics_text s \<longleftrightarrow> length s \<le> 128 \<and>
     (case py_split CHR ''/'' s of
        [name, version] \<Rightarrow> kebab name \<and> 2 \<le> length version \<and> hd version = CHR ''v'' \<and> list_all is_digit (tl version)
      | _ \<Rightarrow> False)"

definition field :: "bool \<Rightarrow> exploit_error + unit" where
  "field b = require b BadField"

definition id_list :: "nat \<Rightarrow> nat \<Rightarrow> string list \<Rightarrow> exploit_error + unit" where
  "id_list lo hi xs = field (lo \<le> length xs \<and> length xs \<le> hi \<and> list_all exploit_path_id xs)"

definition require_sorted_unique :: "string list \<Rightarrow> exploit_error + unit" where
  "require_sorted_unique values = require (sorted_unique values) NotSortedUnique"

section \<open>Attack graphs and queries\<close>

datatype fact_kind = AccessFact | CapabilityFact | DataStateFact | ExecutionFact | ObservationFact | ObjectiveStateFact

datatype transition_family = ExploitStep | ObservationStep | PostconditionStep

record attack_fact =
  af_id :: string
  af_kind :: fact_kind
  af_subject :: string
  af_object :: string

definition check_attack_fact :: "attack_fact \<Rightarrow> exploit_error + unit" where
  "check_attack_fact f = field (exploit_path_id (af_id f) \<and> one_line (af_subject f) \<and> json_pointer (af_object f))"

record attack_observation =
  ao_id :: string
  ao_kind :: string
  ao_source :: string

definition check_attack_observation :: "attack_observation \<Rightarrow> exploit_error + unit" where
  "check_attack_observation ob = field (exploit_path_id (ao_id ob) \<and> kind_text (ao_kind ob) \<and> json_pointer (ao_source ob))"

record attack_transition =
  at_id :: string
  at_kind :: transition_family
  at_semantics :: string
  at_prerequisites :: "string list"
  at_effects :: "string list"
  at_observations :: "attack_observation list"

definition check_attack_transition :: "attack_transition \<Rightarrow> exploit_error + unit" where
  "check_attack_transition t =
     ebind (field (exploit_path_id (at_id t) \<and> semantics_text (at_semantics t) \<and> length (at_observations t) \<le> 64)) (\<lambda>_.
     ebind (id_list 0 64 (at_prerequisites t)) (\<lambda>_.
     ebind (id_list 0 64 (at_effects t)) (\<lambda>_.
     ebind (echeck check_attack_observation (at_observations t)) (\<lambda>_.
     ebind (require_sorted_unique (at_prerequisites t)) (\<lambda>_.
     ebind (require_sorted_unique (at_effects t)) (\<lambda>_.
       require_sorted_unique (map ao_id (at_observations t))))))))"

record attack_binding =
  ab_id :: string
  ab_concept :: string
  ab_address :: string
  ab_target_kind :: string
  ab_target :: string

definition check_attack_binding :: "attack_binding \<Rightarrow> exploit_error + unit" where
  "check_attack_binding b =
     field (exploit_path_id (ab_id b) \<and> kind_text (ab_concept b) \<and> json_pointer (ab_address b)
       \<and> ab_target_kind b \<in> {''state-fact'', ''transition''} \<and> exploit_path_id (ab_target b))"

record attack_graph =
  ag_snapshot :: string
  ag_facts :: "attack_fact list"
  ag_transitions :: "attack_transition list"
  ag_bindings :: "attack_binding list"

definition check_attack_graph :: "attack_graph \<Rightarrow> exploit_error + unit" where
  "check_attack_graph g =
     ebind (field (digest_text (ag_snapshot g) \<and> 1 \<le> length (ag_facts g) \<and> length (ag_facts g) \<le> 512
       \<and> length (ag_transitions g) \<le> 512 \<and> length (ag_bindings g) \<le> 1024)) (\<lambda>_.
     ebind (echeck check_attack_fact (ag_facts g)) (\<lambda>_.
     ebind (echeck check_attack_transition (ag_transitions g)) (\<lambda>_.
     ebind (echeck check_attack_binding (ag_bindings g)) (\<lambda>_.
     ebind (require_sorted_unique (map af_id (ag_facts g))) (\<lambda>_.
     ebind (require_sorted_unique (map at_id (ag_transitions g))) (\<lambda>_.
     ebind (require_sorted_unique (map ab_id (ag_bindings g))) (\<lambda>_.
       require (list_all (\<lambda>t. set (at_prerequisites t) \<union> set (at_effects t) \<subseteq> set (map af_id (ag_facts g)))
         (ag_transitions g)) UndeclaredFact)))))))"

record path_query =
  pq_id :: string
  pq_perspective :: string
  pq_start :: "string list"
  pq_goal :: "string list"
  pq_allowed :: "string list"
  pq_depth :: int

definition check_path_query :: "path_query \<Rightarrow> exploit_error + unit" where
  "check_path_query q =
     ebind (field (exploit_path_id (pq_id q) \<and> one_line (pq_perspective q) \<and> 0 \<le> pq_depth q \<and> pq_depth q \<le> 64
       \<and> 1 \<le> length (pq_allowed q) \<and> length (pq_allowed q) \<le> 16)) (\<lambda>_.
     ebind (id_list 1 64 (pq_start q)) (\<lambda>_.
     ebind (id_list 1 64 (pq_goal q)) (\<lambda>_.
     ebind (require_sorted_unique (pq_start q)) (\<lambda>_.
     ebind (require_sorted_unique (pq_goal q)) (\<lambda>_.
       require_sorted_unique (pq_allowed q))))))"

text \<open>
  The admitted input. The scenario of the snapshot is its JSON dump; the digest of that scenario is
  the parameter \<open>sdl\<close>, and its authored digest comes with it. Scalars keep their JSON text.
\<close>

datatype json = JScalar string | JList "json list" | JObject "(string \<times> json) list"

record analysis_input =
  ai_scenario :: json
  ai_authored :: string
  ai_snapshot :: string
  ai_graph :: attack_graph
  ai_query :: path_query

definition check_analysis_input :: "(json \<Rightarrow> string) \<Rightarrow> analysis_input \<Rightarrow> exploit_error + unit" where
  "check_analysis_input sdl r =
     ebind (field (digest_text (ai_snapshot r))) (\<lambda>_.
     ebind (check_attack_graph (ai_graph r)) (\<lambda>_.
     ebind (check_path_query (ai_query r)) (\<lambda>_.
     ebind (require (ai_snapshot r = sdl (ai_scenario r)) SnapshotUnbound) (\<lambda>_.
       require (ag_snapshot (ai_graph r) = ai_snapshot r) SnapshotUnbound))))"

section \<open>Evidence\<close>

datatype exploit_outcome = ValidPath | InvalidPath | UnsupportedPath

record search_configuration =
  sc_depth :: int

definition check_search_configuration :: "search_configuration \<Rightarrow> exploit_error + unit" where
  "check_search_configuration c = field (0 \<le> sc_depth c \<and> sc_depth c \<le> 64)"

record path_step =
  es_index :: nat
  es_transition :: string
  es_before :: string
  es_prerequisites :: "string list"
  es_effects :: "string list"
  es_observations :: "string list"
  es_after :: string

definition check_path_step :: "path_step \<Rightarrow> exploit_error + unit" where
  "check_path_step s =
     ebind (field (es_index s \<le> 64 \<and> exploit_path_id (es_transition s) \<and> digest_text (es_before s) \<and> digest_text (es_after s))) (\<lambda>_.
     ebind (id_list 0 64 (es_prerequisites s)) (\<lambda>_.
     ebind (id_list 0 64 (es_effects s)) (\<lambda>_.
     ebind (id_list 0 64 (es_observations s)) (\<lambda>_.
     ebind (require_sorted_unique (es_prerequisites s)) (\<lambda>_.
     ebind (require_sorted_unique (es_effects s)) (\<lambda>_.
       require_sorted_unique (es_observations s)))))))"

record path_witness =
  pw_initial :: "string list"
  pw_goal :: "string list"
  pw_steps :: "path_step list"
  pw_final :: "string list"
  pw_digest :: string

record blocked_transition =
  bt_transition :: string
  bt_state :: string
  bt_missing :: "string list"

definition check_blocked_transition :: "blocked_transition \<Rightarrow> exploit_error + unit" where
  "check_blocked_transition b =
     ebind (field (exploit_path_id (bt_transition b) \<and> digest_text (bt_state b))) (\<lambda>_.
     ebind (id_list 1 64 (bt_missing b)) (\<lambda>_. require_sorted_unique (bt_missing b)))"

record path_failure =
  pf_explored :: nat
  pf_exhausted :: bool
  pf_blocked :: "blocked_transition list"
  pf_impossible :: "string list"
  pf_unsatisfied :: "string list"

definition check_path_failure :: "path_failure \<Rightarrow> exploit_error + unit" where
  "check_path_failure f =
     ebind (field (1 \<le> pf_explored f \<and> pf_explored f \<le> MAX_EXPLOIT_PATH_EXPLORED_STATES
       \<and> length (pf_blocked f) \<le> MAX_EXPLOIT_PATH_BLOCKED_TRANSITIONS)) (\<lambda>_.
     ebind (echeck check_blocked_transition (pf_blocked f)) (\<lambda>_.
     ebind (id_list 0 MAX_EXPLOIT_PATH_IMPOSSIBLE_TRANSITIONS (pf_impossible f)) (\<lambda>_.
     ebind (id_list 1 64 (pf_unsatisfied f)) (\<lambda>_.
     ebind (require_sorted_unique (pf_impossible f)) (\<lambda>_.
       require_sorted_unique (pf_unsatisfied f))))))"

record path_unsupported =
  pu_codes :: "string list"

definition check_path_unsupported :: "path_unsupported \<Rightarrow> exploit_error + unit" where
  "check_path_unsupported u =
     ebind (field (1 \<le> length (pu_codes u) \<and> length (pu_codes u) \<le> 64)) (\<lambda>_. require_sorted_unique (pu_codes u))"

text \<open>The address of a diagnostic is a JSON pointer; its code is one of the constants below.\<close>

record exploit_diagnostic =
  xd_code :: string
  xd_address :: string

definition check_exploit_diagnostic :: "exploit_diagnostic \<Rightarrow> exploit_error + unit" where
  "check_exploit_diagnostic d = field (json_pointer (xd_address d))"

record path_evidence =
  pe_source :: string
  pe_source_digest :: string
  pe_authored :: string
  pe_snapshot :: string
  pe_graph :: attack_graph
  pe_graph_digest :: string
  pe_query :: path_query
  pe_query_digest :: string
  pe_configuration :: search_configuration
  pe_configuration_digest :: string
  pe_outcome :: exploit_outcome
  pe_diagnostics :: "exploit_diagnostic list"
  pe_witness :: "path_witness option"
  pe_failure :: "path_failure option"
  pe_unsupported :: "path_unsupported option"

text \<open>The documents whose canonical digests the analysis takes.\<close>

datatype exploit_document =
    GraphDocument attack_graph
  | QueryDocument path_query
  | ConfigurationDocument search_configuration
  | StateDocument "string list"
  | EvidenceDocument path_evidence

definition canonical_state_digest :: "(exploit_document \<Rightarrow> string) \<Rightarrow> string list \<Rightarrow> string" where
  "canonical_state_digest dg state = dg (StateDocument state)"

definition check_path_witness :: "(exploit_document \<Rightarrow> string) \<Rightarrow> path_witness \<Rightarrow> exploit_error + unit" where
  "check_path_witness dg w =
     ebind (field (length (pw_steps w) \<le> 64 \<and> digest_text (pw_digest w))) (\<lambda>_.
     ebind (id_list 1 512 (pw_initial w)) (\<lambda>_.
     ebind (id_list 1 64 (pw_goal w)) (\<lambda>_.
     ebind (echeck check_path_step (pw_steps w)) (\<lambda>_.
     ebind (id_list 1 512 (pw_final w)) (\<lambda>_.
     ebind (require_sorted_unique (pw_initial w)) (\<lambda>_.
     ebind (require_sorted_unique (pw_goal w)) (\<lambda>_.
     ebind (require_sorted_unique (pw_final w)) (\<lambda>_.
     ebind (require (pw_digest w = canonical_state_digest dg (pw_final w)) DigestUnbound) (\<lambda>_.
       require (set (pw_goal w) \<subseteq> set (pw_final w)) GoalUnsatisfied)))))))))"

definition payload_selected :: "path_evidence \<Rightarrow> bool" where
  "payload_selected e =
     (case pe_outcome e of
        ValidPath \<Rightarrow> pe_witness e \<noteq> None | InvalidPath \<Rightarrow> pe_failure e \<noteq> None
      | UnsupportedPath \<Rightarrow> pe_unsupported e \<noteq> None)"

definition validate_outcome_payload :: "path_evidence \<Rightarrow> exploit_error + unit" where
  "validate_outcome_payload e =
     require (payload_selected e
       \<and> length (filter id [pe_witness e \<noteq> None, pe_failure e \<noteq> None, pe_unsupported e \<noteq> None]) = 1) PayloadMismatch"

definition validate_unsupported_reasons :: "path_evidence \<Rightarrow> exploit_error + unit" where
  "validate_unsupported_reasons e =
     (case pe_unsupported e of
        None \<Rightarrow> Inr ()
      | Some u \<Rightarrow> require (pu_codes u = sort (remdups (map xd_code (pe_diagnostics e)))) ReasonMismatch)"

text \<open>The portable identity of the source (raes_contracts/source_identity.py).\<close>

definition portable_source :: "string \<Rightarrow> bool" where
  "portable_source s \<longleftrightarrow>
     hd s \<noteq> CHR ''/'' \<and> hd s \<noteq> CHR 0x5C
     \<and> \<not> (3 \<le> length s \<and> (lower_letter (s ! 0) \<or> CHR ''A'' \<le> s ! 0 \<and> s ! 0 \<le> CHR ''Z'')
          \<and> s ! 1 = CHR '':'' \<and> (s ! 2 = CHR 0x5C \<or> s ! 2 = CHR ''/''))
     \<and> ''..'' \<notin> set (py_split CHR ''/'' (py_replace [CHR 0x5C] ''/'' s))"

definition check_source_identity :: "string \<Rightarrow> string \<Rightarrow> exploit_error + unit" where
  "check_source_identity source_id digest =
     ebind (field (one_line source_id \<and> digest_text digest)) (\<lambda>_. field (portable_source source_id))"

definition option_check :: "('a \<Rightarrow> exploit_error + unit) \<Rightarrow> 'a option \<Rightarrow> exploit_error + unit" where
  "option_check f v = (case v of None \<Rightarrow> Inr () | Some x \<Rightarrow> f x)"

definition check_path_evidence :: "(exploit_document \<Rightarrow> string) \<Rightarrow> path_evidence \<Rightarrow> exploit_error + unit" where
  "check_path_evidence dg e =
     ebind (check_source_identity (pe_source e) (pe_source_digest e)) (\<lambda>_.
     ebind (field (digest_text (pe_snapshot e) \<and> digest_text (pe_graph_digest e) \<and> digest_text (pe_query_digest e)
       \<and> digest_text (pe_configuration_digest e) \<and> length (pe_diagnostics e) \<le> MAX_EXPLOIT_PATH_DIAGNOSTICS)) (\<lambda>_.
     ebind (check_attack_graph (pe_graph e)) (\<lambda>_.
     ebind (check_path_query (pe_query e)) (\<lambda>_.
     ebind (check_search_configuration (pe_configuration e)) (\<lambda>_.
     ebind (echeck check_exploit_diagnostic (pe_diagnostics e)) (\<lambda>_.
     ebind (option_check (check_path_witness dg) (pe_witness e)) (\<lambda>_.
     ebind (option_check check_path_failure (pe_failure e)) (\<lambda>_.
     ebind (option_check check_path_unsupported (pe_unsupported e)) (\<lambda>_.
     ebind (require (pe_snapshot e = ag_snapshot (pe_graph e)) SnapshotUnbound) (\<lambda>_.
     ebind (require (pe_graph_digest e = dg (GraphDocument (pe_graph e))) DigestUnbound) (\<lambda>_.
     ebind (require (pe_query_digest e = dg (QueryDocument (pe_query e))) DigestUnbound) (\<lambda>_.
     ebind (require (pe_configuration_digest e = dg (ConfigurationDocument (pe_configuration e))) DigestUnbound) (\<lambda>_.
     ebind (validate_outcome_payload e) (\<lambda>_.
       validate_unsupported_reasons e))))))))))))))"

section \<open>Diagnostics\<close>

definition SUPPORTED_TRANSITION_SEMANTICS :: string where
  "SUPPORTED_TRANSITION_SEMANTICS = ''monotonic-additive/v1''"

definition BOUND_EXCEEDED_CODE :: string where
  "BOUND_EXCEEDED_CODE = ''exploit-path.analysis-bound-exceeded''"

definition BINDING_AMBIGUOUS_CODE :: string where
  "BINDING_AMBIGUOUS_CODE = ''exploit-path.binding-ambiguous''"

definition BINDING_MISSING_CODE :: string where
  "BINDING_MISSING_CODE = ''exploit-path.binding-missing''"

definition BINDING_TARGET_DANGLING_CODE :: string where
  "BINDING_TARGET_DANGLING_CODE = ''exploit-path.binding-target-dangling''"

definition MISSING_PREREQUISITE_CODE :: string where
  "MISSING_PREREQUISITE_CODE = ''exploit-path.missing-prerequisite''"

definition IMPOSSIBLE_TRANSITION_CODE :: string where
  "IMPOSSIBLE_TRANSITION_CODE = ''exploit-path.impossible-transition''"

definition QUERY_DANGLING_FACT_CODE :: string where
  "QUERY_DANGLING_FACT_CODE = ''exploit-path.query-dangling-fact''"

definition UNSATISFIED_GOAL_CODE :: string where
  "UNSATISFIED_GOAL_CODE = ''exploit-path.unsatisfied-goal''"

definition UNSUPPORTED_SEMANTICS_CODE :: string where
  "UNSUPPORTED_SEMANTICS_CODE = ''exploit-path.unsupported-semantics''"

definition FAIL_CLOSED_CODES :: "string list" where
  "FAIL_CLOSED_CODES =
     [BOUND_EXCEEDED_CODE, BINDING_AMBIGUOUS_CODE, BINDING_MISSING_CODE, BINDING_TARGET_DANGLING_CODE,
      QUERY_DANGLING_FACT_CODE, UNSUPPORTED_SEMANTICS_CODE]"

definition exploit_diagnostic_of :: "string \<Rightarrow> string \<Rightarrow> exploit_error + exploit_diagnostic" where
  "exploit_diagnostic_of code address =
     (let d = \<lparr>xd_code = code, xd_address = address\<rparr> in ebind (check_exploit_diagnostic d) (\<lambda>_. Inr d))"

definition diagnostic_key :: "exploit_diagnostic \<Rightarrow> string \<times> string" where
  "diagnostic_key d = (xd_address d, xd_code d)"

definition dedupe_diagnostics :: "exploit_diagnostic list \<Rightarrow> exploit_diagnostic list" where
  "dedupe_diagnostics items =
     sort_key diagnostic_key (dvals (foldl (\<lambda>keyed item. dput (diagnostic_key item) item keyed) [] items))"

definition bounded_fail_closed_diagnostics ::
    "exploit_diagnostic list \<Rightarrow> exploit_error + exploit_diagnostic list" where
  "bounded_fail_closed_diagnostics items =
     (let diagnostics = dedupe_diagnostics items in
      if length diagnostics \<le> MAX_EXPLOIT_PATH_DIAGNOSTICS then Inr diagnostics
      else ebind (exploit_diagnostic_of BOUND_EXCEEDED_CODE ''/diagnostics'') (\<lambda>d. Inr [d]))"

end
