(* ===== verification/ExploitSearch.thy ===== *)
theory ExploitSearch
  imports ExploitModel
begin

text \<open>
  Exploit-path analysis, the algorithms: the fail-closed preflight (_preflight.py), the
  breadth-first search over attack states (_search.py), and the analysis and replay that wrap them
  (_service.py). A frozen set of facts is a HOL set. Python iterates a set of frozen sets in the order
  of their hashes, which differ between processes; that order is the parameter \<open>iteration\<close>.
\<close>

section \<open>Preflight\<close>

text \<open>
  \<open>int(part)\<close> over characters up to U+00FF: surrounding white space, a sign, and decimal digits in
  groups that single underscores separate; more than 4300 digits are refused.
\<close>

definition py_space :: "char \<Rightarrow> bool" where
  "py_space c \<longleftrightarrow> (of_char c :: nat) \<in> {9, 10, 11, 12, 13, 28, 29, 30, 31, 32, 133, 160}"

definition py_strip :: "string \<Rightarrow> string" where
  "py_strip s = rev (dropWhile py_space (rev (dropWhile py_space s)))"

definition py_int :: "string \<Rightarrow> int option" where
  "py_int s =
     (let t = py_strip s;
          signed = (t \<noteq> [] \<and> (hd t = CHR ''-'' \<or> hd t = CHR ''+''));
          groups = py_split CHR ''_'' (if signed then tl t else t) in
      if list_all (\<lambda>g. g \<noteq> [] \<and> list_all is_digit g) groups \<and> length (concat groups) \<le> 4300
      then Some ((if signed \<and> hd t = CHR ''-'' then - 1 else 1) * int (digits_value (concat groups)))
      else None)"

definition list_index :: "string \<Rightarrow> nat \<Rightarrow> int option" where
  "list_index part len =
     (case py_int part of
        None \<Rightarrow> None
      | Some i \<Rightarrow> if - int len \<le> i \<and> i < int len then Some i else None)"

fun resolve_tokens :: "json \<Rightarrow> string list \<Rightarrow> bool" where
  "resolve_tokens current [] \<longleftrightarrow> True"
| "resolve_tokens current (part # parts) \<longleftrightarrow>
     (case current of
        JScalar _ \<Rightarrow> False
      | JObject members \<Rightarrow> (case dget members part of None \<Rightarrow> False | Some v \<Rightarrow> resolve_tokens v parts)
      | JList items \<Rightarrow>
          (case list_index part (length items) of
             None \<Rightarrow> False
           | Some i \<Rightarrow> resolve_tokens (items ! nat (if i < 0 then i + int (length items) else i)) parts))"

definition pointer_resolves :: "json \<Rightarrow> string \<Rightarrow> bool" where
  "pointer_resolves payload pointer = resolve_tokens payload (pointer_tokens pointer)"

type_synonym graph_target = "string \<times> string"

definition fact_ids :: "attack_graph \<Rightarrow> string set" where
  "fact_ids g = set (map af_id (ag_facts g))"

definition expected_targets :: "attack_graph \<Rightarrow> graph_target list" where
  "expected_targets g =
     map (Pair ''state-fact'') (map af_id (ag_facts g)) @ map (Pair ''transition'') (map at_id (ag_transitions g))"

type_synonym binding_targets = "(graph_target, string list) dict"

definition binding_diagnostics ::
    "attack_graph \<Rightarrow> json \<Rightarrow> exploit_error + (binding_targets \<times> exploit_diagnostic list)" where
  "binding_diagnostics g payload =
     efold (\<lambda>(targets, ds) b.
       let target = (ab_target_kind b, ab_target b);
           targets' = dput target ((case dget targets target of None \<Rightarrow> [] | Some ids \<Rightarrow> ids) @ [ab_id b]) targets;
           place = ''/normalized_graph/bindings/'' @ escape_token (ab_id b) in
       ebind (if target \<notin> set (expected_targets g)
              then ebind (exploit_diagnostic_of BINDING_TARGET_DANGLING_CODE (place @ ''/target_id'')) (\<lambda>d. Inr (ds @ [d]))
              else Inr ds) (\<lambda>ds1.
       ebind (if \<not> pointer_resolves payload (ab_address b)
              then ebind (exploit_diagnostic_of BINDING_MISSING_CODE (place @ ''/raes_address'')) (\<lambda>d. Inr (ds1 @ [d]))
              else Inr ds1) (\<lambda>ds2.
         Inr (targets', ds2)))) ([], []) (ag_bindings g)"

definition required_binding_diagnostics ::
    "attack_graph \<Rightarrow> binding_targets \<Rightarrow> exploit_error + exploit_diagnostic list" where
  "required_binding_diagnostics g targets =
     efold (\<lambda>ds (kind, target).
       (case dget targets (kind, target) of
          None \<Rightarrow> ebind (exploit_diagnostic_of BINDING_MISSING_CODE
            (''/normalized_graph/'' @ kind @ ''s/'' @ escape_token target)) (\<lambda>d. Inr (ds @ [d]))
        | Some ids \<Rightarrow>
            if 1 < length ids
            then ebind (exploit_diagnostic_of BINDING_AMBIGUOUS_CODE
              (''/normalized_graph/bindings/'' @ escape_token (hd ids))) (\<lambda>d. Inr (ds @ [d]))
            else Inr ds)) [] (sort (remdups (expected_targets g)))"

definition semantics_diagnostics ::
    "path_query \<Rightarrow> attack_transition list \<Rightarrow> exploit_error + exploit_diagnostic list" where
  "semantics_diagnostics q transitions =
     ebind (if list_ex (\<lambda>s. s \<noteq> SUPPORTED_TRANSITION_SEMANTICS) (pq_allowed q)
            then ebind (exploit_diagnostic_of UNSUPPORTED_SEMANTICS_CODE ''/query/allowed_transition_semantics'') (\<lambda>d. Inr [d])
            else Inr []) (\<lambda>first.
     ebind (collect (\<lambda>t. exploit_diagnostic_of UNSUPPORTED_SEMANTICS_CODE
         (''/normalized_graph/transitions/'' @ escape_token (at_id t) @ ''/semantics''))
         (filter (\<lambda>t. at_semantics t \<noteq> SUPPORTED_TRANSITION_SEMANTICS) transitions)) (\<lambda>rest.
       Inr (first @ rest)))"

definition query_fact_diagnostics :: "path_query \<Rightarrow> string set \<Rightarrow> exploit_error + exploit_diagnostic list" where
  "query_fact_diagnostics q facts =
     collect (\<lambda>f. exploit_diagnostic_of QUERY_DANGLING_FACT_CODE (''/query/facts/'' @ escape_token f))
       (filter (\<lambda>f. f \<notin> facts) (pq_start q @ pq_goal q))"

definition preflight_diagnostics :: "analysis_input \<Rightarrow> exploit_error + exploit_diagnostic list" where
  "preflight_diagnostics r =
     ebind (binding_diagnostics (ai_graph r) (ai_scenario r)) (\<lambda>(targets, bindings).
     ebind (required_binding_diagnostics (ai_graph r) targets) (\<lambda>required.
     ebind (semantics_diagnostics (ai_query r) (ag_transitions (ai_graph r))) (\<lambda>semantics.
     ebind (query_fact_diagnostics (ai_query r) (fact_ids (ai_graph r))) (\<lambda>facts.
       Inr (dedupe_diagnostics (bindings @ required @ semantics @ facts))))))"

section \<open>Search\<close>

record search_result =
  sr_outcome :: exploit_outcome
  sr_witness :: "path_witness option"
  sr_failure :: "path_failure option"
  sr_unsupported :: "path_unsupported option"
  sr_diagnostics :: "exploit_diagnostic list"

text \<open>The visited states in the order in which they were added.\<close>

record search_accumulator =
  sa_visited :: "string set list"
  sa_queue :: "(string set \<times> path_step list) list"
  sa_blocked :: "(string \<times> string, blocked_transition) dict"
  sa_impossible :: "string list"
  sa_exhausted :: bool

record search_context =
  sx_query :: path_query
  sx_transitions :: "attack_transition list"
  sx_goal :: "string set"
  sx_initial :: "string set"

definition allowed_transitions :: "analysis_input \<Rightarrow> attack_transition list" where
  "allowed_transitions r =
     filter (\<lambda>t. at_semantics t \<in> set (pq_allowed (ai_query r))) (ag_transitions (ai_graph r))"

definition search_context_of :: "analysis_input \<Rightarrow> search_context" where
  "search_context_of r =
     \<lparr>sx_query = ai_query r, sx_transitions = allowed_transitions r,
      sx_goal = set (pq_goal (ai_query r)), sx_initial = set (pq_start (ai_query r))\<rparr>"

definition unsupported_search_result :: "string \<Rightarrow> exploit_error + search_result" where
  "unsupported_search_result address =
     ebind (exploit_diagnostic_of BOUND_EXCEEDED_CODE address) (\<lambda>d.
     let u = \<lparr>pu_codes = [BOUND_EXCEEDED_CODE]\<rparr> in
     ebind (check_path_unsupported u) (\<lambda>_.
       Inr \<lparr>sr_outcome = UnsupportedPath, sr_witness = None, sr_failure = None,
            sr_unsupported = Some u, sr_diagnostics = [d]\<rparr>))"

definition path_witness_of ::
    "(exploit_document \<Rightarrow> string) \<Rightarrow> string list \<Rightarrow> string set \<Rightarrow> path_step list \<Rightarrow> string set \<Rightarrow>
       exploit_error + path_witness" where
  "path_witness_of dg goal_facts initial steps final =
     (let state = sorted_list_of_set final;
          w = \<lparr>pw_initial = sorted_list_of_set initial, pw_goal = sort goal_facts, pw_steps = steps,
               pw_final = state, pw_digest = canonical_state_digest dg state\<rparr> in
      ebind (check_path_witness dg w) (\<lambda>_. Inr w))"

definition valid_search_result ::
    "(exploit_document \<Rightarrow> string) \<Rightarrow> path_query \<Rightarrow> string set \<Rightarrow> path_step list \<Rightarrow> string set \<Rightarrow>
       exploit_error + search_result" where
  "valid_search_result dg q initial steps final =
     ebind (path_witness_of dg (pq_goal q) initial steps final) (\<lambda>w.
       Inr \<lparr>sr_outcome = ValidPath, sr_witness = Some w, sr_failure = None, sr_unsupported = None,
            sr_diagnostics = []\<rparr>)"

definition path_step_of ::
    "(exploit_document \<Rightarrow> string) \<Rightarrow> attack_transition \<Rightarrow> nat \<Rightarrow> string \<Rightarrow> string set \<Rightarrow> string list \<Rightarrow>
       exploit_error + path_step" where
  "path_step_of dg t index before after applied =
     (let s = \<lparr>es_index = index, es_transition = at_id t, es_before = before,
               es_prerequisites = sort (at_prerequisites t), es_effects = applied,
               es_observations = sort (map ao_id (at_observations t)),
               es_after = canonical_state_digest dg (sorted_list_of_set after)\<rparr> in
      ebind (check_path_step s) (\<lambda>_. Inr s))"

definition record_blocked_transition ::
    "search_accumulator \<Rightarrow> attack_transition \<Rightarrow> string \<Rightarrow> string list \<Rightarrow>
       exploit_error + (search_result + search_accumulator)" where
  "record_blocked_transition acc t before missing =
     (if (at_id t, before) \<in> set (dkeys (sa_blocked acc)) then Inr (Inr acc)
      else if MAX_EXPLOIT_PATH_BLOCKED_TRANSITIONS \<le> length (sa_blocked acc)
      then ebind (unsupported_search_result ''/search/blocked_transitions'') (\<lambda>r. Inr (Inl r))
      else
        let b = \<lparr>bt_transition = at_id t, bt_state = before, bt_missing = missing\<rparr> in
        ebind (check_blocked_transition b) (\<lambda>_.
          Inr (Inr (acc\<lparr>sa_blocked := dput (at_id t, before) b (sa_blocked acc)\<rparr>))))"

definition record_impossible_transition ::
    "search_accumulator \<Rightarrow> string \<Rightarrow> exploit_error + (search_result + search_accumulator)" where
  "record_impossible_transition acc tid =
     (if tid \<in> set (sa_impossible acc) then Inr (Inr acc)
      else if MAX_EXPLOIT_PATH_IMPOSSIBLE_TRANSITIONS \<le> length (sa_impossible acc)
      then ebind (unsupported_search_result ''/search/impossible_transitions'') (\<lambda>r. Inr (Inl r))
      else Inr (Inr (acc\<lparr>sa_impossible := sa_impossible acc @ [tid]\<rparr>)))"

definition queue_next_state ::
    "search_accumulator \<Rightarrow> string set \<Rightarrow> path_step list \<Rightarrow> exploit_error + (search_result + search_accumulator)" where
  "queue_next_state acc state steps =
     (if MAX_EXPLOIT_PATH_EXPLORED_STATES \<le> length (sa_visited acc)
      then ebind (unsupported_search_result ''/search/explored_state_count'') (\<lambda>r. Inr (Inl r))
      else Inr (Inr (acc\<lparr>sa_visited := sa_visited acc @ [state], sa_queue := sa_queue acc @ [(state, steps)]\<rparr>)))"

definition record_transition_progress ::
    "(exploit_document \<Rightarrow> string) \<Rightarrow> search_context \<Rightarrow> attack_transition \<Rightarrow> search_accumulator \<Rightarrow> string set \<Rightarrow>
       path_step list \<Rightarrow> string \<Rightarrow> string list \<Rightarrow> exploit_error + (search_result + search_accumulator)" where
  "record_transition_progress dg ctx t acc state steps before applied =
     (let next_state = state \<union> set (at_effects t) in
      ebind (path_step_of dg t (length steps) before next_state applied) (\<lambda>s.
      let next_steps = steps @ [s] in
      if sx_goal ctx \<subseteq> next_state
      then ebind (valid_search_result dg (sx_query ctx) (sx_initial ctx) next_steps next_state) (\<lambda>r. Inr (Inl r))
      else if next_state \<notin> set (sa_visited acc) then queue_next_state acc next_state next_steps
      else Inr (Inr acc)))"

definition advance_transition ::
    "(exploit_document \<Rightarrow> string) \<Rightarrow> search_context \<Rightarrow> string set \<Rightarrow> path_step list \<Rightarrow> search_accumulator \<Rightarrow>
       attack_transition \<Rightarrow> exploit_error + (search_result + search_accumulator)" where
  "advance_transition dg ctx state steps acc t =
     (let before = canonical_state_digest dg (sorted_list_of_set state);
          missing = sorted_list_of_set (set (at_prerequisites t) - state);
          applied = sorted_list_of_set (set (at_effects t) - state) in
      if missing \<noteq> [] then record_blocked_transition acc t before missing
      else if applied = [] then record_impossible_transition acc (at_id t)
      else record_transition_progress dg ctx t acc state steps before applied)"

definition advance_from_state ::
    "(exploit_document \<Rightarrow> string) \<Rightarrow> search_context \<Rightarrow> search_accumulator \<Rightarrow> string set \<Rightarrow> path_step list \<Rightarrow>
       exploit_error + (search_result + search_accumulator)" where
  "advance_from_state dg ctx acc state steps =
     floop (advance_transition dg ctx state steps) acc (sx_transitions ctx)"

definition diagnostic_cap_result :: "search_accumulator \<Rightarrow> exploit_error + search_result option" where
  "diagnostic_cap_result acc =
     (if MAX_EXPLOIT_PATH_DIAGNOSTICS < length (sa_blocked acc) + length (sa_impossible acc) + 1
      then ebind (unsupported_search_result ''/diagnostics'') (\<lambda>r. Inr (Some r))
      else Inr None)"

text \<open>
  The loop over the queue ends because a state that enters the queue is new, and there is room for
  4096 states: the length of the queue and the room left together fall with every iteration.
\<close>

definition search_room :: "search_accumulator \<Rightarrow> nat" where
  "search_room acc = length (sa_queue acc) + (MAX_EXPLOIT_PATH_EXPLORED_STATES - length (sa_visited acc))"

lemma advance_room:
  assumes "advance_transition dg ctx state steps acc t = Inr (Inr acc')"
  shows "search_room acc' = search_room acc"
  using assms
  unfolding advance_transition_def Let_def record_blocked_transition_def record_impossible_transition_def
    record_transition_progress_def queue_next_state_def
  by (auto simp: ebind_eq_Inr search_room_def split: if_splits)

lemma advance_from_room:
  assumes "advance_from_state dg ctx acc state steps = Inr (Inr acc')"
  shows "search_room acc' = search_room acc"
  using assms unfolding advance_from_state_def
  by (rule floop_invariant [where P = "\<lambda>a. search_room a = search_room acc"]) (auto dest: advance_room)

function run_bounded_search ::
    "(exploit_document \<Rightarrow> string) \<Rightarrow> search_context \<Rightarrow> search_accumulator \<Rightarrow>
       exploit_error + (search_result + search_accumulator)" where
  "run_bounded_search dg ctx acc =
     (case sa_queue acc of
        [] \<Rightarrow> ebind (diagnostic_cap_result acc) (\<lambda>r. case r of Some u \<Rightarrow> Inr (Inl u) | None \<Rightarrow> Inr (Inr acc))
      | (state, steps) # queue \<Rightarrow>
          let acc1 = acc\<lparr>sa_queue := queue\<rparr> in
          if pq_depth (sx_query ctx) \<le> int (length steps) then run_bounded_search dg ctx (acc1\<lparr>sa_exhausted := True\<rparr>)
          else ebind (advance_from_state dg ctx acc1 state steps) (\<lambda>r. case r of
              Inl result \<Rightarrow> Inr (Inl result)
            | Inr acc2 \<Rightarrow> run_bounded_search dg ctx acc2))"
  by pat_completeness auto
termination
proof (relation "measure (\<lambda>(dg, ctx, acc). search_room acc)", goal_cases)
  case (3 dg ctx acc job queue state steps acc1 r acc2)
  then have "search_room acc2 = search_room (acc\<lparr>sa_queue := queue\<rparr>)"
    by (auto dest: advance_from_room)
  with 3 show ?case by (simp add: search_room_def)
qed (auto simp: search_room_def)

text \<open>The first longest element: \<open>max(xs, key=len)\<close>.\<close>

definition max_by_size :: "string set list \<Rightarrow> string set" where
  "max_by_size xs = foldl (\<lambda>best x. if card best < card x then x else best) (hd xs) (tl xs)"

definition unsatisfied_goal ::
    "(string set list \<Rightarrow> string set list) \<Rightarrow> string set \<Rightarrow> string set list \<Rightarrow> string list" where
  "unsatisfied_goal iteration goal visited =
     (let never = sorted_list_of_set (goal - \<Union> (set visited)) in
      if never = [] then sorted_list_of_set (goal - max_by_size (iteration visited)) else never)"

definition invalid_path_diagnostics :: "search_accumulator \<Rightarrow> exploit_error + exploit_diagnostic list" where
  "invalid_path_diagnostics acc =
     ebind (collect (\<lambda>b. exploit_diagnostic_of MISSING_PREREQUISITE_CODE
       (''/normalized_graph/transitions/'' @ escape_token (bt_transition b))) (dvals (sa_blocked acc))) (\<lambda>blocked.
     ebind (collect (\<lambda>tid. exploit_diagnostic_of IMPOSSIBLE_TRANSITION_CODE
       (''/normalized_graph/transitions/'' @ escape_token tid)) (sort (sa_impossible acc))) (\<lambda>impossible.
     ebind (exploit_diagnostic_of UNSATISFIED_GOAL_CODE ''/query/goal_facts'') (\<lambda>goal.
       Inr (blocked @ impossible @ [goal]))))"

definition invalid_search_result ::
    "(string set list \<Rightarrow> string set list) \<Rightarrow> string set \<Rightarrow> search_accumulator \<Rightarrow> exploit_error + search_result" where
  "invalid_search_result iteration goal acc =
     ebind (invalid_path_diagnostics acc) (\<lambda>ds.
     let f = \<lparr>pf_explored = length (sa_visited acc), pf_exhausted = sa_exhausted acc,
              pf_blocked = sort_key (\<lambda>b. (bt_transition b, bt_state b)) (dvals (sa_blocked acc)),
              pf_impossible = sort (sa_impossible acc),
              pf_unsatisfied = unsatisfied_goal iteration goal (sa_visited acc)\<rparr> in
     ebind (check_path_failure f) (\<lambda>_.
       Inr \<lparr>sr_outcome = InvalidPath, sr_witness = None, sr_failure = Some f, sr_unsupported = None,
            sr_diagnostics = dedupe_diagnostics ds\<rparr>))"

definition initial_accumulator :: "search_context \<Rightarrow> search_accumulator" where
  "initial_accumulator ctx =
     \<lparr>sa_visited = [sx_initial ctx], sa_queue = [(sx_initial ctx, [])], sa_blocked = [], sa_impossible = [],
      sa_exhausted = False\<rparr>"

definition exploit_search ::
    "(string set list \<Rightarrow> string set list) \<Rightarrow> (exploit_document \<Rightarrow> string) \<Rightarrow> analysis_input \<Rightarrow>
       exploit_error + search_result" where
  "exploit_search iteration dg r =
     (let ctx = search_context_of r in
      if sx_goal ctx \<subseteq> sx_initial ctx
      then valid_search_result dg (sx_query ctx) (sx_initial ctx) [] (sx_initial ctx)
      else ebind (run_bounded_search dg ctx (initial_accumulator ctx)) (\<lambda>v. case v of
          Inl result \<Rightarrow> Inr result
        | Inr acc \<Rightarrow> invalid_search_result iteration (sx_goal ctx) acc))"

section \<open>Analysis and replay\<close>

definition make_path_evidence ::
    "(exploit_document \<Rightarrow> string) \<Rightarrow> path_evidence \<Rightarrow> exploit_error + path_evidence" where
  "make_path_evidence dg e = ebind (check_path_evidence dg e) (\<lambda>_. Inr e)"

definition evidence_of ::
    "(exploit_document \<Rightarrow> string) \<Rightarrow> analysis_input \<Rightarrow> string \<Rightarrow> string \<Rightarrow> search_result \<Rightarrow> path_evidence" where
  "evidence_of dg r source_id source_digest result =
     (let c = \<lparr>sc_depth = pq_depth (ai_query r)\<rparr> in
      \<lparr>pe_source = source_id, pe_source_digest = source_digest, pe_authored = ai_authored r,
       pe_snapshot = ai_snapshot r, pe_graph = ai_graph r, pe_graph_digest = dg (GraphDocument (ai_graph r)),
       pe_query = ai_query r, pe_query_digest = dg (QueryDocument (ai_query r)),
       pe_configuration = c, pe_configuration_digest = dg (ConfigurationDocument c),
       pe_outcome = sr_outcome result, pe_diagnostics = sr_diagnostics result, pe_witness = sr_witness result,
       pe_failure = sr_failure result, pe_unsupported = sr_unsupported result\<rparr>)"

definition analyze_exploit_path_input ::
    "(string set list \<Rightarrow> string set list) \<Rightarrow> (exploit_document \<Rightarrow> string) \<Rightarrow> analysis_input \<Rightarrow>
       string \<Rightarrow> string \<Rightarrow> exploit_error + path_evidence" where
  "analyze_exploit_path_input iteration dg r source_id source_digest =
     ebind (preflight_diagnostics r) (\<lambda>diagnostics.
     ebind (check_search_configuration \<lparr>sc_depth = pq_depth (ai_query r)\<rparr>) (\<lambda>_.
     ebind (check_source_identity source_id source_digest) (\<lambda>_.
     ebind (bounded_fail_closed_diagnostics
       (filter (\<lambda>d. xd_code d \<in> set FAIL_CLOSED_CODES) diagnostics)) (\<lambda>fail_closed.
       if fail_closed \<noteq> [] then
         let u = \<lparr>pu_codes = sort (remdups (map xd_code fail_closed))\<rparr> in
         ebind (check_path_unsupported u) (\<lambda>_.
           make_path_evidence dg (evidence_of dg r source_id source_digest
             \<lparr>sr_outcome = UnsupportedPath, sr_witness = None, sr_failure = None, sr_unsupported = Some u,
              sr_diagnostics = sort_key diagnostic_key fail_closed\<rparr>))
       else
         ebind (exploit_search iteration dg r) (\<lambda>result.
           make_path_evidence dg (evidence_of dg r source_id source_digest result))))))"

text \<open>
  Replay recomputes the evidence from the source. Reading and parsing the file are outside: the
  replay is given the admitted input that the file holds and the digest of its bytes.
\<close>

definition replay_exploit_path_evidence ::
    "(string set list \<Rightarrow> string set list) \<Rightarrow> (exploit_document \<Rightarrow> string) \<Rightarrow> analysis_input \<Rightarrow>
       string \<Rightarrow> string \<Rightarrow> path_evidence \<Rightarrow> exploit_error + path_evidence" where
  "replay_exploit_path_evidence iteration dg r source_id source_digest evidence =
     ebind (require (source_digest = pe_source_digest evidence) SourceMismatch) (\<lambda>_.
     ebind (analyze_exploit_path_input iteration dg r source_id source_digest) (\<lambda>replayed.
     ebind (require (dg (EvidenceDocument replayed) = dg (EvidenceDocument evidence)) NotReproduced) (\<lambda>_.
       Inr replayed)))"

end
