(* ===== verification/ExploitProofs.thy ===== *)
theory ExploitProofs
  imports ExploitSearch
begin

text \<open>
  The search against the runs of the attack graph: the invariant of the breadth-first loop, from
  which a returned path is a shortest run to the goal and a refusal excludes every run in the bound.
\<close>

section \<open>Runs of an attack graph\<close>

inductive attack_run :: "attack_transition list \<Rightarrow> string set \<Rightarrow> attack_transition list \<Rightarrow> string set \<Rightarrow> bool"
  for ts :: "attack_transition list" and s :: "string set" where
  run_stop: "attack_run ts s [] s"
| run_step: "attack_run ts s path u \<Longrightarrow> t \<in> set ts \<Longrightarrow> set (at_prerequisites t) \<subseteq> u \<Longrightarrow>
    attack_run ts s (path @ [t]) (u \<union> set (at_effects t))"

inductive_cases run_stopE: "attack_run ts s [] u"

lemma attack_run_mono:
  "attack_run ts s path u \<Longrightarrow> set ts \<subseteq> set ts' \<Longrightarrow> attack_run ts' s path u"
  by (induction rule: attack_run.induct) (auto intro: attack_run.intros)

lemma attack_run_within:
  assumes "attack_run ts s path u" and "s \<subseteq> F" and "\<forall>t \<in> set ts. set (at_effects t) \<subseteq> F"
  shows "u \<subseteq> F"
  using assms by (induction rule: attack_run.induct) auto

text \<open>The steps that a witness records along a run.\<close>

definition step_at :: "(exploit_document \<Rightarrow> string) \<Rightarrow> nat \<Rightarrow> string set \<Rightarrow> attack_transition \<Rightarrow> path_step" where
  "step_at dg i s t =
     \<lparr>es_index = i, es_transition = at_id t, es_before = canonical_state_digest dg (sorted_list_of_set s),
      es_prerequisites = sort (at_prerequisites t), es_effects = sorted_list_of_set (set (at_effects t) - s),
      es_observations = sort (map ao_id (at_observations t)),
      es_after = canonical_state_digest dg (sorted_list_of_set (s \<union> set (at_effects t)))\<rparr>"

inductive recorded_run ::
    "(exploit_document \<Rightarrow> string) \<Rightarrow> attack_transition list \<Rightarrow> string set \<Rightarrow> path_step list \<Rightarrow> attack_transition list \<Rightarrow>
       string set \<Rightarrow> bool"
  for dg :: "exploit_document \<Rightarrow> string" and ts :: "attack_transition list" and s :: "string set" where
  recorded_stop: "recorded_run dg ts s [] [] s"
| recorded_step: "recorded_run dg ts s steps path u \<Longrightarrow> t \<in> set ts \<Longrightarrow> set (at_prerequisites t) \<subseteq> u \<Longrightarrow>
    \<not> set (at_effects t) \<subseteq> u \<Longrightarrow>
    recorded_run dg ts s (steps @ [step_at dg (length steps) u t]) (path @ [t]) (u \<union> set (at_effects t))"

lemma recorded_run_facts:
  assumes "recorded_run dg ts s steps path u"
  shows "attack_run ts s path u" and "length steps = length path"
  using assms by (induction rule: recorded_run.induct) (auto intro: attack_run.intros)

section \<open>One expansion\<close>

text \<open>What the transitions do to the accumulator, when the search goes on.\<close>

lemma advance_cases:
  assumes "advance_transition dg ctx x steps acc t = Inr (Inr acc')" and "finite x"
  obtains (blocked) "\<not> set (at_prerequisites t) \<subseteq> x" "sa_visited acc' = sa_visited acc" "sa_queue acc' = sa_queue acc"
      "sa_exhausted acc' = sa_exhausted acc"
  | (known) "set (at_prerequisites t) \<subseteq> x" "x \<union> set (at_effects t) = x \<or> x \<union> set (at_effects t) \<in> set (sa_visited acc)"
      "sa_visited acc' = sa_visited acc" "sa_queue acc' = sa_queue acc" "sa_exhausted acc' = sa_exhausted acc"
  | (new) "set (at_prerequisites t) \<subseteq> x" "\<not> set (at_effects t) \<subseteq> x" "\<not> sx_goal ctx \<subseteq> x \<union> set (at_effects t)"
      "x \<union> set (at_effects t) \<notin> set (sa_visited acc)"
      "sa_visited acc' = sa_visited acc @ [x \<union> set (at_effects t)]"
      "sa_queue acc' = sa_queue acc @ [(x \<union> set (at_effects t), steps @ [step_at dg (length steps) x t])]"
      "sa_exhausted acc' = sa_exhausted acc"
proof (cases "set (at_prerequisites t) \<subseteq> x")
  case False
  then have "sorted_list_of_set (set (at_prerequisites t) - x) \<noteq> []" by simp
  with assms(1) have "record_blocked_transition acc t (canonical_state_digest dg (sorted_list_of_set x))
      (sorted_list_of_set (set (at_prerequisites t) - x)) = Inr (Inr acc')"
    by (simp add: advance_transition_def Let_def)
  with False show thesis
    by (intro blocked) (auto simp: record_blocked_transition_def Let_def ebind_eq_Inr split: if_splits)
next
  case True
  then have missing: "sorted_list_of_set (set (at_prerequisites t) - x) = []" by (simp add: Diff_eq_empty_iff)
  show thesis
  proof (cases "set (at_effects t) \<subseteq> x")
    case eff: True
    then have "record_impossible_transition acc (at_id t) = Inr (Inr acc')"
      using assms(1) missing by (simp add: advance_transition_def Let_def Diff_eq_empty_iff)
    with True eff show thesis
      by (intro known) (auto simp: record_impossible_transition_def ebind_eq_Inr split: if_splits)
  next
    case False
    then have run: "record_transition_progress dg ctx t acc x steps (canonical_state_digest dg (sorted_list_of_set x))
        (sorted_list_of_set (set (at_effects t) - x)) = Inr (Inr acc')"
      using assms(1) missing by (simp add: advance_transition_def Let_def)
    show thesis
    proof (cases "x \<union> set (at_effects t) \<in> set (sa_visited acc)")
      case in_visited: True
      with run have "acc' = acc"
        by (auto simp: record_transition_progress_def Let_def ebind_eq_Inr split: if_splits)
      with True in_visited show thesis by (intro known) auto
    next
      case fresh: False
      from run fresh obtain s where "path_step_of dg t (length steps) (canonical_state_digest dg (sorted_list_of_set x))
          (x \<union> set (at_effects t)) (sorted_list_of_set (set (at_effects t) - x)) = Inr s"
        and goal: "\<not> sx_goal ctx \<subseteq> x \<union> set (at_effects t)"
        and queue: "queue_next_state acc (x \<union> set (at_effects t)) (steps @ [s]) = Inr (Inr acc')"
        by (auto simp: record_transition_progress_def Let_def ebind_eq_Inr split: if_splits)
      then have "s = step_at dg (length steps) x t"
        by (auto simp: path_step_of_def Let_def ebind_eq_Inr step_at_def)
      with queue True False goal fresh show thesis
        by (intro new) (auto simp: queue_next_state_def ebind_eq_Inr split: if_splits)
    qed
  qed
qed

text \<open>The results with which an expansion ends the search.\<close>

definition refused_result :: "search_result \<Rightarrow> bool" where
  "refused_result r \<longleftrightarrow> sr_outcome r = UnsupportedPath"

lemma unsupported_result_outcome:
  "unsupported_search_result address = Inr r \<Longrightarrow> refused_result r"
  by (auto simp: unsupported_search_result_def Let_def ebind_eq_Inr refused_result_def)

definition found_result ::
    "(exploit_document \<Rightarrow> string) \<Rightarrow> search_context \<Rightarrow> path_step list \<Rightarrow> string set \<Rightarrow> search_result \<Rightarrow> bool" where
  "found_result dg ctx steps final r \<longleftrightarrow>
     sr_outcome r = ValidPath \<and> sx_goal ctx \<subseteq> final
     \<and> (\<exists>w. sr_witness r = Some w \<and> pw_steps w = steps \<and> pw_final w = sorted_list_of_set final
          \<and> pw_initial w = sorted_list_of_set (sx_initial ctx) \<and> check_path_witness dg w = Inr ())"

lemma valid_result_found:
  assumes "valid_search_result dg (sx_query ctx) (sx_initial ctx) steps final = Inr r" and "sx_goal ctx \<subseteq> final"
  shows "found_result dg ctx steps final r"
  using assms by (auto simp: valid_search_result_def path_witness_of_def Let_def ebind_eq_Inr found_result_def)

lemma advance_result:
  assumes "advance_transition dg ctx x steps acc t = Inr (Inl r)" and "finite x"
  shows "refused_result r
    \<or> set (at_prerequisites t) \<subseteq> x \<and> \<not> set (at_effects t) \<subseteq> x
      \<and> found_result dg ctx (steps @ [step_at dg (length steps) x t]) (x \<union> set (at_effects t)) r"
proof (cases "set (at_prerequisites t) \<subseteq> x \<and> \<not> set (at_effects t) \<subseteq> x")
  case False
  with assms(1) show ?thesis
    by (auto simp: advance_transition_def Let_def record_blocked_transition_def record_impossible_transition_def
        ebind_eq_Inr Diff_eq_empty_iff dest: unsupported_result_outcome split: if_splits)
next
  case True
  then have run: "record_transition_progress dg ctx t acc x steps (canonical_state_digest dg (sorted_list_of_set x))
        (sorted_list_of_set (set (at_effects t) - x)) = Inr (Inl r)"
    using assms(1) by (simp add: advance_transition_def Let_def Diff_eq_empty_iff)
  then obtain s where s: "path_step_of dg t (length steps) (canonical_state_digest dg (sorted_list_of_set x))
          (x \<union> set (at_effects t)) (sorted_list_of_set (set (at_effects t) - x)) = Inr s"
    and rest: "(if sx_goal ctx \<subseteq> x \<union> set (at_effects t)
      then ebind (valid_search_result dg (sx_query ctx) (sx_initial ctx) (steps @ [s]) (x \<union> set (at_effects t))) (\<lambda>r. Inr (Inl r))
      else if x \<union> set (at_effects t) \<notin> set (sa_visited acc) then queue_next_state acc (x \<union> set (at_effects t)) (steps @ [s])
      else Inr (Inr acc)) = Inr (Inl r)"
    by (auto simp: record_transition_progress_def Let_def ebind_eq_Inr)
  from s have "s = step_at dg (length steps) x t"
    by (auto simp: path_step_of_def Let_def ebind_eq_Inr step_at_def)
  with rest True show ?thesis
    by (auto simp: queue_next_state_def ebind_eq_Inr dest: valid_result_found unsupported_result_outcome split: if_splits)
qed

section \<open>The invariant of the loop\<close>

text \<open>
  \<open>D\<close> gives each visited state the length of the path with which it entered the queue. A visited
  state that has left the queue is expanded: its successors are visited, at most one step further, or
  it lies at the bound and the accumulator says so.
\<close>

definition expanded :: "search_context \<Rightarrow> (string set \<Rightarrow> nat) \<Rightarrow> search_accumulator \<Rightarrow> string set \<Rightarrow> bool" where
  "expanded ctx D acc x \<longleftrightarrow>
     (if int (D x) < pq_depth (sx_query ctx)
      then \<forall>t \<in> set (sx_transitions ctx). set (at_prerequisites t) \<subseteq> x \<longrightarrow>
         x \<union> set (at_effects t) \<in> set (sa_visited acc) \<and> D (x \<union> set (at_effects t)) \<le> Suc (D x)
      else sa_exhausted acc)"

definition search_base ::
    "(exploit_document \<Rightarrow> string) \<Rightarrow> search_context \<Rightarrow> (string set \<Rightarrow> nat) \<Rightarrow> search_accumulator \<Rightarrow> bool" where
  "search_base dg ctx D acc \<longleftrightarrow>
     sx_initial ctx \<in> set (sa_visited acc) \<and> D (sx_initial ctx) = 0
     \<and> (\<forall>(x, steps) \<in> set (sa_queue acc). x \<in> set (sa_visited acc) \<and> D x = length steps
          \<and> (\<exists>path. recorded_run dg (sx_transitions ctx) (sx_initial ctx) steps path x))
     \<and> (\<forall>x \<in> set (sa_visited acc). finite x \<and> \<not> sx_goal ctx \<subseteq> x)
     \<and> sorted (map (\<lambda>(x, steps). D x) (sa_queue acc))"

definition search_inv ::
    "(exploit_document \<Rightarrow> string) \<Rightarrow> search_context \<Rightarrow> (string set \<Rightarrow> nat) \<Rightarrow> search_accumulator \<Rightarrow> bool" where
  "search_inv dg ctx D acc \<longleftrightarrow>
     search_base dg ctx D acc
     \<and> (\<forall>x \<in> set (sa_visited acc). sa_queue acc \<noteq> [] \<longrightarrow> D x \<le> Suc (D (fst (hd (sa_queue acc)))))
     \<and> (\<forall>x \<in> set (sa_visited acc). x \<notin> fst ` set (sa_queue acc) \<longrightarrow> expanded ctx D acc x)"

text \<open>While \<open>x\<close> is expanded.\<close>

definition expanding ::
    "(exploit_document \<Rightarrow> string) \<Rightarrow> search_context \<Rightarrow> string set \<Rightarrow> path_step list \<Rightarrow> (string set \<Rightarrow> nat) \<Rightarrow>
       search_accumulator \<Rightarrow> bool" where
  "expanding dg ctx x steps D acc \<longleftrightarrow>
     search_base dg ctx D acc \<and> x \<in> set (sa_visited acc) \<and> D x = length steps
     \<and> (\<exists>path. recorded_run dg (sx_transitions ctx) (sx_initial ctx) steps path x)
     \<and> (\<forall>y \<in> set (sa_visited acc). D y \<le> Suc (D x))
     \<and> (\<forall>(y, ys) \<in> set (sa_queue acc). D x \<le> D y)
     \<and> (\<forall>y \<in> set (sa_visited acc). y \<noteq> x \<longrightarrow> y \<notin> fst ` set (sa_queue acc) \<longrightarrow> expanded ctx D acc y)"

lemma expandingD:
  assumes "expanding dg ctx x steps D acc"
  shows "sx_initial ctx \<in> set (sa_visited acc)" "D (sx_initial ctx) = 0"
    and "(y, ys) \<in> set (sa_queue acc) \<Longrightarrow> y \<in> set (sa_visited acc) \<and> D y = length ys
      \<and> (\<exists>path. recorded_run dg (sx_transitions ctx) (sx_initial ctx) ys path y)"
    and "y \<in> set (sa_visited acc) \<Longrightarrow> finite y \<and> \<not> sx_goal ctx \<subseteq> y"
    and "sorted (map (\<lambda>(x, steps). D x) (sa_queue acc))"
    and "x \<in> set (sa_visited acc)" "D x = length steps"
    and "\<exists>path. recorded_run dg (sx_transitions ctx) (sx_initial ctx) steps path x"
    and "y \<in> set (sa_visited acc) \<Longrightarrow> D y \<le> Suc (D x)"
    and "(y, ys) \<in> set (sa_queue acc) \<Longrightarrow> D x \<le> D y"
    and "y \<in> set (sa_visited acc) \<Longrightarrow> y \<noteq> x \<Longrightarrow> y \<notin> fst ` set (sa_queue acc) \<Longrightarrow> expanded ctx D acc y"
proof -
  note parts = assms [unfolded expanding_def search_base_def]
  show "sx_initial ctx \<in> set (sa_visited acc)" "D (sx_initial ctx) = 0"
    "sorted (map (\<lambda>(x, steps). D x) (sa_queue acc))" "x \<in> set (sa_visited acc)" "D x = length steps"
    "\<exists>path. recorded_run dg (sx_transitions ctx) (sx_initial ctx) steps path x"
    using parts by - (elim conjE, assumption)+
  show "y \<in> set (sa_visited acc) \<and> D y = length ys
      \<and> (\<exists>path. recorded_run dg (sx_transitions ctx) (sx_initial ctx) ys path y)" if "(y, ys) \<in> set (sa_queue acc)"
    using parts that by (elim conjE) (drule (1) bspec, simp)
  show "finite y \<and> \<not> sx_goal ctx \<subseteq> y" if "y \<in> set (sa_visited acc)"
    using parts that by (elim conjE) (drule (1) bspec, simp)
  show "D y \<le> Suc (D x)" if "y \<in> set (sa_visited acc)"
    using parts that by (elim conjE) metis
  show "D x \<le> D y" if "(y, ys) \<in> set (sa_queue acc)"
    using parts that by (elim conjE) fast
  show "expanded ctx D acc y" if "y \<in> set (sa_visited acc)" "y \<noteq> x" "y \<notin> fst ` set (sa_queue acc)"
    using parts that by (elim conjE) metis
qed

lemma expanding_finite: "expanding dg ctx x steps D acc \<Longrightarrow> finite x"
  by (auto simp: expanding_def search_base_def)

lemma expanded_more:
  assumes "expanded ctx D acc y" and "y \<in> set (sa_visited acc)"
    and "set (sa_visited acc) \<subseteq> set (sa_visited acc')" and "sa_exhausted acc \<longrightarrow> sa_exhausted acc'"
    and "\<And>z. z \<in> set (sa_visited acc) \<Longrightarrow> D' z = D z"
  shows "expanded ctx D' acc' y"
  using assms unfolding expanded_def by (metis (no_types, lifting) subsetD)

lemma expanding_new:
  assumes inv: "expanding dg ctx x steps D acc" and fresh: "z \<notin> set (sa_visited acc)" and z: "finite z" "\<not> sx_goal ctx \<subseteq> z"
    and rec: "recorded_run dg (sx_transitions ctx) (sx_initial ctx) zs path z" and len: "length zs = Suc (length steps)"
    and acc': "sa_visited acc' = sa_visited acc @ [z]" "sa_queue acc' = sa_queue acc @ [(z, zs)]"
      "sa_exhausted acc' = sa_exhausted acc"
  shows "expanding dg ctx x steps (D(z := Suc (D x))) acc'"
proof -
  let ?D = "D(z := Suc (D x))"
  note old = expandingD [OF inv]
  have same: "?D y = D y" if "y \<in> set (sa_visited acc)" for y using that fresh by auto
  have entry: "y \<in> set (sa_visited acc') \<and> ?D y = length ys
      \<and> (\<exists>path. recorded_run dg (sx_transitions ctx) (sx_initial ctx) ys path y)"
    if "(y, ys) \<in> set (sa_queue acc')" for y ys
  proof (cases "(y, ys) \<in> set (sa_queue acc)")
    case True
    with old(3) [OF True] same show ?thesis by (simp add: acc'(1))
  next
    case False
    with that have "y = z" "ys = zs" by (auto simp: acc'(2))
    with rec len old(7) show ?thesis by (auto simp: acc'(1))
  qed
  have queue: "map (\<lambda>(y, ys). ?D y) (sa_queue acc) = map (\<lambda>(y, ys). D y) (sa_queue acc)"
    using same old(3) by (intro map_cong refl) fastforce
  have "D y \<le> Suc (D x)" if "(y, ys) \<in> set (sa_queue acc)" for y ys
    using old(9) old(3) [OF that] by blast
  then have sorted: "sorted (map (\<lambda>(y, ys). ?D y) (sa_queue acc'))"
    using old(5) unfolding acc'(2) map_append sorted_append queue by auto
  have Dx: "?D x = D x" using same old(6) by simp
  have more: "expanded ctx ?D acc' y"
    if "y \<in> set (sa_visited acc')" "y \<noteq> x" "y \<notin> fst ` set (sa_queue acc')" for y
  proof -
    have y: "y \<in> set (sa_visited acc)" "y \<notin> fst ` set (sa_queue acc)" using that by (auto simp: acc'(1,2))
    from old(11) [OF y(1) that(2) y(2)] show ?thesis
      by (rule expanded_more) (use y(1) same acc' in auto)
  qed
  show ?thesis
    unfolding expanding_def search_base_def Dx
  proof (intro conjI)
    show "sx_initial ctx \<in> set (sa_visited acc')" using old(1) by (simp add: acc'(1))
    show "?D (sx_initial ctx) = 0" using old(2) same [OF old(1)] by simp
    show "\<forall>(y, ys) \<in> set (sa_queue acc'). y \<in> set (sa_visited acc') \<and> ?D y = length ys
        \<and> (\<exists>path. recorded_run dg (sx_transitions ctx) (sx_initial ctx) ys path y)"
      using entry by fast
    show "\<forall>y \<in> set (sa_visited acc'). finite y \<and> \<not> sx_goal ctx \<subseteq> y" using old(4) z by (simp add: acc'(1))
    show "sorted (map (\<lambda>(y, ys). ?D y) (sa_queue acc'))" by (rule sorted)
    show "x \<in> set (sa_visited acc')" using old(6) by (simp add: acc'(1))
    show "\<forall>y \<in> set (sa_visited acc'). ?D y \<le> Suc (D x)" using old(9) by (simp add: acc'(1))
    show "\<forall>(y, ys) \<in> set (sa_queue acc'). D x \<le> ?D y" using old(10) by (auto simp: acc'(2))
    show "\<forall>y \<in> set (sa_visited acc'). y \<noteq> x \<longrightarrow> y \<notin> fst ` set (sa_queue acc') \<longrightarrow> expanded ctx ?D acc' y"
      using more by blast
  qed (rule old(7), rule old(8))
qed

lemma expanding_frame:
  assumes "expanding dg ctx x steps D acc" and "sa_visited acc' = sa_visited acc" "sa_queue acc' = sa_queue acc"
      "sa_exhausted acc' = sa_exhausted acc"
  shows "expanding dg ctx x steps D acc'"
  using assms(1) unfolding expanding_def search_base_def expanded_def assms(2-4) by assumption

lemma advance_expanding:
  assumes step: "advance_transition dg ctx x steps acc t = Inr (Inr acc')" and inv: "expanding dg ctx x steps D acc"
    and t: "t \<in> set (sx_transitions ctx)"
  shows "\<exists>D'. expanding dg ctx x steps D' acc'"
    and "set (at_prerequisites t) \<subseteq> x \<longrightarrow> x \<union> set (at_effects t) \<in> set (sa_visited acc')"
    and "set (sa_visited acc) \<subseteq> set (sa_visited acc')"
proof -
  have x: "x \<in> set (sa_visited acc)" "finite x" using inv expanding_finite [OF inv] by (auto simp: expanding_def)
  have "(\<exists>D'. expanding dg ctx x steps D' acc')
      \<and> (set (at_prerequisites t) \<subseteq> x \<longrightarrow> x \<union> set (at_effects t) \<in> set (sa_visited acc'))
      \<and> set (sa_visited acc) \<subseteq> set (sa_visited acc')"
    using step x(2)
  proof (cases rule: advance_cases)
    case blocked
    with expanding_frame [OF inv blocked(2-4)] show ?thesis by auto
  next
    case known
    have "x \<union> set (at_effects t) \<in> set (sa_visited acc')" using known(2,3) x(1) by auto
    with expanding_frame [OF inv known(3-5)] known(3) show ?thesis by auto
  next
    case new
    let ?z = "x \<union> set (at_effects t)"
    let ?zs = "steps @ [step_at dg (length steps) x t]"
    from inv obtain path where "recorded_run dg (sx_transitions ctx) (sx_initial ctx) steps path x"
      by (auto simp: expanding_def)
    from recorded_run.recorded_step [OF this t new(1,2)]
    have "recorded_run dg (sx_transitions ctx) (sx_initial ctx) ?zs (path @ [t]) ?z" .
    from expanding_new [OF inv new(4) _ new(3) this _ new(5-7)] x(2)
    have "expanding dg ctx x steps (D(?z := Suc (D x))) acc'" by simp
    then show ?thesis using new(5) by auto
  qed
  then show "\<exists>D'. expanding dg ctx x steps D' acc'"
    "set (at_prerequisites t) \<subseteq> x \<longrightarrow> x \<union> set (at_effects t) \<in> set (sa_visited acc')"
    "set (sa_visited acc) \<subseteq> set (sa_visited acc')" by blast+
qed

lemma advance_all:
  assumes "advance_from_state dg ctx acc x steps = Inr (Inr acc')" and "expanding dg ctx x steps D acc"
  shows "(\<exists>D'. expanding dg ctx x steps D' acc')
    \<and> (\<forall>t \<in> set (sx_transitions ctx). set (at_prerequisites t) \<subseteq> x \<longrightarrow> x \<union> set (at_effects t) \<in> set (sa_visited acc'))"
  using assms(1) unfolding advance_from_state_def
proof (rule floop_each [where P = "\<lambda>a. \<exists>D. expanding dg ctx x steps D a"])
  show "\<exists>D. expanding dg ctx x steps D acc" using assms(2) by blast
next
  fix a t a' assume "t \<in> set (sx_transitions ctx)" "\<exists>D. expanding dg ctx x steps D a"
    "advance_transition dg ctx x steps a t = Inr (Inr a')"
  then show "(\<exists>D. expanding dg ctx x steps D a')
    \<and> (set (at_prerequisites t) \<subseteq> x \<longrightarrow> x \<union> set (at_effects t) \<in> set (sa_visited a'))"
    using advance_expanding(1,2) by blast
next
  fix a t a' u
  assume "t \<in> set (sx_transitions ctx)" "\<exists>D. expanding dg ctx x steps D a"
    "set (at_prerequisites u) \<subseteq> x \<longrightarrow> x \<union> set (at_effects u) \<in> set (sa_visited a)"
    "advance_transition dg ctx x steps a t = Inr (Inr a')"
  then show "set (at_prerequisites u) \<subseteq> x \<longrightarrow> x \<union> set (at_effects u) \<in> set (sa_visited a')"
    using advance_expanding(3) by blast
qed

lemma pop_expanding:
  assumes "search_inv dg ctx D acc" and "sa_queue acc = (x, steps) # queue"
  shows "expanding dg ctx x steps D (acc\<lparr>sa_queue := queue\<rparr>)"
  using assms by (auto simp: search_inv_def search_base_def expanding_def expanded_def split: if_splits)

lemma expanding_done:
  assumes inv: "expanding dg ctx x steps D acc"
    and succs: "\<forall>t \<in> set (sx_transitions ctx). set (at_prerequisites t) \<subseteq> x \<longrightarrow> x \<union> set (at_effects t) \<in> set (sa_visited acc)"
    and depth: "int (length steps) < pq_depth (sx_query ctx) \<or> sa_exhausted acc"
  shows "search_inv dg ctx D acc"
proof -
  note parts = inv [unfolded expanding_def]
  have "expanded ctx D acc x" using parts succs depth by (auto simp: expanded_def)
  then have "\<forall>y \<in> set (sa_visited acc). y \<notin> fst ` set (sa_queue acc) \<longrightarrow> expanded ctx D acc y" using parts by metis
  moreover have "D y \<le> Suc (D (fst (hd (sa_queue acc))))" if "y \<in> set (sa_visited acc)" "sa_queue acc \<noteq> []" for y
  proof -
    have "D x \<le> D (fst (hd (sa_queue acc)))" using parts that(2) by (cases "sa_queue acc") auto
    moreover have "D y \<le> Suc (D x)" using parts that(1) by blast
    ultimately show ?thesis by simp
  qed
  ultimately show ?thesis using parts by (simp add: search_inv_def)
qed

lemma pop_at_bound:
  assumes inv: "search_inv dg ctx D acc" and "sa_queue acc = (x, steps) # queue"
    and "pq_depth (sx_query ctx) \<le> int (length steps)"
  shows "search_inv dg ctx D (acc\<lparr>sa_queue := queue, sa_exhausted := True\<rparr>)"
proof -
  have e: "expanding dg ctx x steps D (acc\<lparr>sa_queue := queue\<rparr>)" using inv assms(2) by (rule pop_expanding)
  then have parts: "expanding dg ctx x steps D (acc\<lparr>sa_queue := queue, sa_exhausted := True\<rparr>)"
    by (auto simp: expanding_def search_base_def expanded_def)
  have "D x = length steps" using parts by (simp add: expanding_def)
  then have "expanded ctx D (acc\<lparr>sa_queue := queue, sa_exhausted := True\<rparr>) x" using assms(3) by (simp add: expanded_def)
  with parts show ?thesis
    unfolding search_inv_def expanding_def by (cases queue) (auto split: if_splits)
qed

section \<open>What the invariant excludes\<close>

lemma runs_visited:
  assumes inv: "search_inv dg ctx D acc" and empty: "sa_queue acc = []"
    and "attack_run (sx_transitions ctx) (sx_initial ctx) path u"
    and "int (length path) \<le> pq_depth (sx_query ctx) \<or> \<not> sa_exhausted acc"
  shows "u \<in> set (sa_visited acc) \<and> D u \<le> length path"
  using assms(3,4)
proof (induction rule: attack_run.induct)
  case run_stop
  then show ?case using inv by (simp add: search_inv_def search_base_def)
next
  case (run_step path u t)
  then have u: "u \<in> set (sa_visited acc)" "D u \<le> length path" by auto
  then have e: "expanded ctx D acc u" using inv empty by (simp add: search_inv_def)
  have "int (D u) < pq_depth (sx_query ctx)"
    using e u(2) run_step.prems by (auto simp: expanded_def split: if_splits)
  with e run_step.hyps u(2) show ?case by (force simp: expanded_def)
qed

lemma shorter_runs_visited:
  assumes inv: "expanding dg ctx x steps D acc" and depth: "int (length steps) < pq_depth (sx_query ctx)"
    and "attack_run (sx_transitions ctx) (sx_initial ctx) path u" and "length path \<le> length steps"
  shows "u \<in> set (sa_visited acc) \<and> D u \<le> length path"
  using assms(3,4)
proof (induction rule: attack_run.induct)
  case run_stop
  then show ?case using inv by (simp add: expanding_def search_base_def)
next
  case (run_step path u t)
  then have u: "u \<in> set (sa_visited acc)" "D u \<le> length path" by auto
  have less: "D u < D x" using u(2) run_step.prems inv by (simp add: expanding_def)
  then have "u \<noteq> x" "u \<notin> fst ` set (sa_queue acc)" using inv by (auto simp: expanding_def)
  then have "expanded ctx D acc u" using inv u(1) by (simp add: expanding_def)
  moreover have "int (D u) < pq_depth (sx_query ctx)" using less inv depth by (simp add: expanding_def)
  ultimately show ?case using run_step.hyps u(2) by (force simp: expanded_def)
qed

section \<open>The loop\<close>

text \<open>A result of the loop: a recorded run to the goal than which no other is shorter, or a refusal.\<close>

definition shortest_result :: "(exploit_document \<Rightarrow> string) \<Rightarrow> search_context \<Rightarrow> search_result \<Rightarrow> bool" where
  "shortest_result dg ctx r \<longleftrightarrow>
     (\<exists>steps path final. recorded_run dg (sx_transitions ctx) (sx_initial ctx) steps path final
        \<and> found_result dg ctx steps final r \<and> int (length path) \<le> pq_depth (sx_query ctx)
        \<and> (\<forall>path' final'. attack_run (sx_transitions ctx) (sx_initial ctx) path' final' \<longrightarrow>
             sx_goal ctx \<subseteq> final' \<longrightarrow> length path \<le> length path'))"

lemma advance_shortest:
  assumes step: "advance_transition dg ctx x steps acc t = Inr (Inl r)" and inv: "expanding dg ctx x steps D acc"
    and t: "t \<in> set (sx_transitions ctx)" and depth: "int (length steps) < pq_depth (sx_query ctx)"
  shows "refused_result r \<or> shortest_result dg ctx r"
proof (rule disjCI, rule ccontr)
  assume "\<not> shortest_result dg ctx r" "\<not> refused_result r"
  with advance_result [OF step expanding_finite [OF inv]]
  have new: "set (at_prerequisites t) \<subseteq> x" "\<not> set (at_effects t) \<subseteq> x"
    and found: "found_result dg ctx (steps @ [step_at dg (length steps) x t]) (x \<union> set (at_effects t)) r" by blast+
  from inv obtain path where path: "recorded_run dg (sx_transitions ctx) (sx_initial ctx) steps path x"
    by (auto simp: expanding_def)
  have len: "length path = length steps" using recorded_run_facts(2) [OF path] by simp
  have "length (path @ [t]) \<le> length path'"
    if "attack_run (sx_transitions ctx) (sx_initial ctx) path' final'" "sx_goal ctx \<subseteq> final'" for path' final'
  proof (rule ccontr)
    assume "\<not> length (path @ [t]) \<le> length path'"
    with len have "length path' \<le> length steps" by simp
    from shorter_runs_visited [OF inv depth that(1) this] inv that(2) show False
      by (auto simp: expanding_def search_base_def)
  qed
  moreover have "int (length (path @ [t])) \<le> pq_depth (sx_query ctx)" using depth len by simp
  ultimately have "shortest_result dg ctx r"
    unfolding shortest_result_def using recorded_run.recorded_step [OF path t new] found by blast
  with \<open>\<not> shortest_result dg ctx r\<close> show False ..
qed

lemma advance_all_result:
  assumes "advance_from_state dg ctx acc x steps = Inr (Inl r)" and "expanding dg ctx x steps D acc"
    and "int (length steps) < pq_depth (sx_query ctx)"
  shows "refused_result r \<or> shortest_result dg ctx r"
  using assms(1) unfolding advance_from_state_def
proof (rule floop_break [where P = "\<lambda>a. \<exists>D. expanding dg ctx x steps D a"])
  show "\<exists>D. expanding dg ctx x steps D acc" using assms(2) by blast
next
  fix a t a' assume "t \<in> set (sx_transitions ctx)" "\<exists>D. expanding dg ctx x steps D a"
    "advance_transition dg ctx x steps a t = Inr (Inr a')"
  then show "\<exists>D. expanding dg ctx x steps D a'" using advance_expanding(1) by blast
next
  fix a t assume "t \<in> set (sx_transitions ctx)" "\<exists>D. expanding dg ctx x steps D a"
    "advance_transition dg ctx x steps a t = Inr (Inl r)"
  then show "refused_result r \<or> shortest_result dg ctx r" using advance_shortest assms(3) by blast
qed

declare run_bounded_search.simps [simp del]

lemma run_bounded_correct:
  assumes "run_bounded_search dg ctx acc = Inr v" and "search_inv dg ctx D acc"
  shows "case v of
      Inl r \<Rightarrow> refused_result r \<or> shortest_result dg ctx r
    | Inr acc' \<Rightarrow> (\<exists>D'. search_inv dg ctx D' acc') \<and> sa_queue acc' = []"
  using assms
proof (induction dg ctx acc arbitrary: D rule: run_bounded_search.induct)
  case (1 dg ctx acc)
  show ?case
  proof (cases "sa_queue acc")
    case Nil
    with "1.prems" show ?thesis
      by (subst (asm) run_bounded_search.simps)
        (auto simp: ebind_eq_Inr diagnostic_cap_result_def dest!: unsupported_result_outcome split: if_splits)
  next
    case (Cons job queue)
    obtain x steps where job: "job = (x, steps)" by (cases job)
    note q = Cons [unfolded job]
    show ?thesis
    proof (cases "pq_depth (sx_query ctx) \<le> int (length steps)")
      case True
      have "run_bounded_search dg ctx (acc\<lparr>sa_queue := queue, sa_exhausted := True\<rparr>) = Inr v"
        using "1.prems"(1) q True by (subst (asm) run_bounded_search.simps) (simp add: Let_def)
      with "1.IH"(1) [OF q refl refl True] pop_at_bound [OF "1.prems"(2) q True] show ?thesis by simp
    next
      case False
      have e: "expanding dg ctx x steps D (acc\<lparr>sa_queue := queue\<rparr>)" using "1.prems"(2) q by (rule pop_expanding)
      from "1.prems"(1) q False obtain r where r: "advance_from_state dg ctx (acc\<lparr>sa_queue := queue\<rparr>) x steps = Inr r"
        and rest: "(case r of Inl result \<Rightarrow> Inr (Inl result) | Inr acc2 \<Rightarrow> run_bounded_search dg ctx acc2) = Inr v"
        by (subst (asm) run_bounded_search.simps) (auto simp: Let_def ebind_eq_Inr)
      show ?thesis
      proof (cases r)
        case (Inl result)
        with r rest advance_all_result [OF _ e] False show ?thesis by auto
      next
        case (Inr acc2)
        with r advance_all [OF _ e] obtain D' where e': "expanding dg ctx x steps D' acc2"
          and "\<forall>t \<in> set (sx_transitions ctx). set (at_prerequisites t) \<subseteq> x \<longrightarrow> x \<union> set (at_effects t) \<in> set (sa_visited acc2)"
          by blast
        from expanding_done [OF this] False have "search_inv dg ctx D' acc2" by simp
        with "1.IH"(2) [OF q refl refl False r Inr] rest Inr show ?thesis by simp
      qed
    qed
  qed
qed

end
