(* ===== verification/ExploitSafety.thy ===== *)
theory ExploitSafety
  imports ExploitProofs
begin

text \<open>
  The result of the search as a whole: a shortest run, a refusal, or the exclusion of the runs
  within the bound; and what an input guarantees when the preflight has no fail-closed diagnostic.
\<close>

section \<open>The search as a whole\<close>

lemma initial_search_inv:
  assumes "\<not> sx_goal ctx \<subseteq> sx_initial ctx" and "finite (sx_initial ctx)"
  shows "search_inv dg ctx (\<lambda>_. 0) (initial_accumulator ctx)"
  using assms
  by (auto simp: search_inv_def search_base_def initial_accumulator_def intro: recorded_run.recorded_stop)

definition excludes_runs :: "search_context \<Rightarrow> bool \<Rightarrow> bool" where
  "excludes_runs ctx exhausted \<longleftrightarrow>
     (\<forall>path final. attack_run (sx_transitions ctx) (sx_initial ctx) path final \<longrightarrow>
        int (length path) \<le> pq_depth (sx_query ctx) \<or> \<not> exhausted \<longrightarrow> \<not> sx_goal ctx \<subseteq> final)"

lemma invalid_result_fields:
  assumes "invalid_search_result iteration goal acc = Inr res"
  shows "sr_outcome res = InvalidPath" "sr_failure res \<noteq> None" "pf_exhausted (the (sr_failure res)) = sa_exhausted acc"
    and "check_path_failure (the (sr_failure res)) = Inr ()"
    and "pf_unsatisfied (the (sr_failure res)) = unsatisfied_goal iteration goal (sa_visited acc)"
  using assms by (auto simp: invalid_search_result_def Let_def ebind_eq_Inr)

lemma search_inv_excludes:
  assumes "search_inv dg ctx D acc" and "sa_queue acc = []"
  shows "excludes_runs ctx (sa_exhausted acc)"
  unfolding excludes_runs_def
proof (intro allI impI)
  fix path final
  assume "attack_run (sx_transitions ctx) (sx_initial ctx) path final"
    and "int (length path) \<le> pq_depth (sx_query ctx) \<or> \<not> sa_exhausted acc"
  from runs_visited [OF assms this] assms(1) show "\<not> sx_goal ctx \<subseteq> final"
    by (auto simp: search_inv_def search_base_def)
qed

lemma exploit_search_correct:
  assumes "exploit_search iteration dg r = Inr res" and "0 \<le> pq_depth (ai_query r)"
  shows "refused_result res \<or> shortest_result dg (search_context_of r) res
    \<or> sr_outcome res = InvalidPath \<and> sr_failure res \<noteq> None
      \<and> check_path_failure (the (sr_failure res)) = Inr ()
      \<and> excludes_runs (search_context_of r) (pf_exhausted (the (sr_failure res)))"
proof (cases "sx_goal (search_context_of r) \<subseteq> sx_initial (search_context_of r)")
  case True
  with assms(1) have "found_result dg (search_context_of r) [] (sx_initial (search_context_of r)) res"
    by (intro valid_result_found) (simp_all add: exploit_search_def Let_def)
  then have "shortest_result dg (search_context_of r) res"
    unfolding shortest_result_def using recorded_run.recorded_stop assms(2)
    by (fastforce simp: search_context_of_def)
  then show ?thesis by simp
next
  case False
  let ?ctx = "search_context_of r"
  have inv: "search_inv dg ?ctx (\<lambda>_. 0) (initial_accumulator ?ctx)"
    by (rule initial_search_inv [OF False]) (simp add: search_context_of_def)
  from assms(1) False obtain v where v: "run_bounded_search dg ?ctx (initial_accumulator ?ctx) = Inr v"
    and rest: "(case v of Inl result \<Rightarrow> Inr result | Inr acc \<Rightarrow> invalid_search_result iteration (sx_goal ?ctx) acc) = Inr res"
    by (auto simp: exploit_search_def Let_def ebind_eq_Inr)
  show ?thesis
  proof (cases v)
    case (Inl x)
    with run_bounded_correct [OF v inv] rest show ?thesis by auto
  next
    case (Inr acc)
    with run_bounded_correct [OF v inv] obtain D where "search_inv dg ?ctx D acc" "sa_queue acc = []" by auto
    moreover from rest Inr have res: "invalid_search_result iteration (sx_goal ?ctx) acc = Inr res" by simp
    ultimately show ?thesis using search_inv_excludes invalid_result_fields(1-4) [OF res] by simp
  qed
qed

section \<open>What the preflight guarantees\<close>

lemma diagnostic_key_inj: "diagnostic_key d = diagnostic_key e \<longleftrightarrow> d = e"
  by (cases d; cases e) (auto simp: diagnostic_key_def)

lemma keyed_diagnostics:
  assumes "dict_ok acc" and "\<forall>(k, d) \<in> set acc. k = diagnostic_key d"
  shows "set (dvals (foldl (\<lambda>keyed item. dput (diagnostic_key item) item keyed) acc items)) = set (dvals acc) \<union> set items
    \<and> length (foldl (\<lambda>keyed item. dput (diagnostic_key item) item keyed) acc items) \<le> length acc + length items"
  using assms
proof (induction items arbitrary: acc)
  case (Cons item items)
  let ?acc = "dput (diagnostic_key item) item acc"
  have ok: "dict_ok ?acc" using Cons.prems(1) by simp
  have keys: "\<forall>(k, d) \<in> set ?acc. k = diagnostic_key d"
    using Cons.prems by (auto simp: in_set_dput)
  have "set (dvals ?acc) = insert item (set (dvals acc))"
  proof (intro set_eqI iffI)
    fix d assume "d \<in> set (dvals ?acc)"
    then show "d \<in> insert item (set (dvals acc))" using Cons.prems(1) by (auto simp: in_set_dput)
  next
    fix d assume d: "d \<in> insert item (set (dvals acc))"
    show "d \<in> set (dvals ?acc)"
    proof (cases "d = item")
      case False
      with d obtain k where "(k, d) \<in> set acc" by auto
      moreover from this Cons.prems(2) have "k = diagnostic_key d" by auto
      ultimately have "(k, d) \<in> set ?acc" using Cons.prems(1) False by (simp add: in_set_dput diagnostic_key_inj)
      then show ?thesis by force
    qed (use Cons.prems(1) in \<open>force simp: in_set_dput\<close>)
  qed
  moreover have "length ?acc \<le> Suc (length acc)"
    by (cases "dget acc (diagnostic_key item)")
      (metis dput_absent le_refl length_append_singleton, metis dkeys_dput_present le_Suc_eq length_map option.distinct(1) order_refl)
  ultimately show ?case using Cons.IH [OF ok keys] by simp
qed simp

lemma dedupe_diagnostics_facts [simp]:
  "set (dedupe_diagnostics items) = set items" "length (dedupe_diagnostics items) \<le> length items"
  using keyed_diagnostics [of "[]" items] by (auto simp: dedupe_diagnostics_def)

lemma exploit_diagnostic_code: "exploit_diagnostic_of code address = Inr d \<Longrightarrow> xd_code d = code"
  by (auto simp: exploit_diagnostic_of_def Let_def ebind_eq_Inr)

lemma collected_codes:
  assumes "collect (\<lambda>x. exploit_diagnostic_of code (f x)) xs = Inr ds" and "\<forall>d \<in> set ds. xd_code d \<noteq> code"
  shows "xs = []"
proof (cases xs)
  case (Cons x xs')
  with assms(1) obtain d ds' where "ds = d # ds'" "exploit_diagnostic_of code (f x) = Inr d"
    by (auto simp: collect_eq_Inr list_all2_Cons1)
  with assms(2) exploit_diagnostic_code show ?thesis by auto
qed

lemma supported_semantics:
  assumes "semantics_diagnostics q ts = Inr ds" and "\<forall>d \<in> set ds. xd_code d \<noteq> UNSUPPORTED_SEMANTICS_CODE"
  shows "\<forall>s \<in> set (pq_allowed q). s = SUPPORTED_TRANSITION_SEMANTICS"
    and "\<forall>t \<in> set ts. at_semantics t = SUPPORTED_TRANSITION_SEMANTICS"
proof -
  from assms(1) obtain first rest where first: "(if list_ex (\<lambda>s. s \<noteq> SUPPORTED_TRANSITION_SEMANTICS) (pq_allowed q)
        then ebind (exploit_diagnostic_of UNSUPPORTED_SEMANTICS_CODE ''/query/allowed_transition_semantics'') (\<lambda>d. Inr [d])
        else Inr []) = Inr first"
    and rest: "collect (\<lambda>t. exploit_diagnostic_of UNSUPPORTED_SEMANTICS_CODE
         (''/normalized_graph/transitions/'' @ escape_token (at_id t) @ ''/semantics''))
         (filter (\<lambda>t. at_semantics t \<noteq> SUPPORTED_TRANSITION_SEMANTICS) ts) = Inr rest"
    and ds: "ds = first @ rest"
    unfolding semantics_diagnostics_def ebind_eq_Inr by blast
  show "\<forall>s \<in> set (pq_allowed q). s = SUPPORTED_TRANSITION_SEMANTICS"
  proof (rule ccontr)
    assume "\<not> (\<forall>s \<in> set (pq_allowed q). s = SUPPORTED_TRANSITION_SEMANTICS)"
    then have "list_ex (\<lambda>s. s \<noteq> SUPPORTED_TRANSITION_SEMANTICS) (pq_allowed q)" by (auto simp: list_ex_iff)
    with first obtain d where "first = [d]"
        "exploit_diagnostic_of UNSUPPORTED_SEMANTICS_CODE ''/query/allowed_transition_semantics'' = Inr d"
      by (auto simp: ebind_eq_Inr)
    with ds assms(2) exploit_diagnostic_code show False by auto
  qed
  have "filter (\<lambda>t. at_semantics t \<noteq> SUPPORTED_TRANSITION_SEMANTICS) ts = []"
    by (rule collected_codes [OF rest]) (use ds assms(2) in auto)
  then show "\<forall>t \<in> set ts. at_semantics t = SUPPORTED_TRANSITION_SEMANTICS" by (simp add: filter_empty_conv)
qed

lemma preflight_supported:
  assumes "preflight_diagnostics r = Inr ds" and "\<forall>d \<in> set ds. xd_code d \<notin> set FAIL_CLOSED_CODES"
    and "pq_allowed (ai_query r) \<noteq> []"
  shows "allowed_transitions r = ag_transitions (ai_graph r)"
    and "set (pq_start (ai_query r)) \<union> set (pq_goal (ai_query r)) \<subseteq> fact_ids (ai_graph r)"
proof -
  from assms(1) obtain semantics facts where
    sem: "semantics_diagnostics (ai_query r) (ag_transitions (ai_graph r)) = Inr semantics" "set semantics \<subseteq> set ds"
    and facts: "query_fact_diagnostics (ai_query r) (fact_ids (ai_graph r)) = Inr facts" "set facts \<subseteq> set ds"
    by (force simp: preflight_diagnostics_def ebind_eq_Inr split: prod.splits)
  have none: "\<forall>d \<in> set semantics. xd_code d \<noteq> UNSUPPORTED_SEMANTICS_CODE"
    "\<forall>d \<in> set facts. xd_code d \<noteq> QUERY_DANGLING_FACT_CODE"
  proof -
    have "{UNSUPPORTED_SEMANTICS_CODE, QUERY_DANGLING_FACT_CODE} \<subseteq> set FAIL_CLOSED_CODES" by (simp add: FAIL_CLOSED_CODES_def)
    then show "\<forall>d \<in> set semantics. xd_code d \<noteq> UNSUPPORTED_SEMANTICS_CODE"
      "\<forall>d \<in> set facts. xd_code d \<noteq> QUERY_DANGLING_FACT_CODE"
      using assms(2) sem(2) facts(2) by fastforce+
  qed
  have "SUPPORTED_TRANSITION_SEMANTICS \<in> set (pq_allowed (ai_query r))"
    using supported_semantics(1) [OF sem(1) none(1)] assms(3) by (cases "pq_allowed (ai_query r)") auto
  with supported_semantics(2) [OF sem(1) none(1)]
  show "allowed_transitions r = ag_transitions (ai_graph r)"
    by (simp add: allowed_transitions_def filter_id_conv)
  have "filter (\<lambda>f. f \<notin> fact_ids (ai_graph r)) (pq_start (ai_query r) @ pq_goal (ai_query r)) = []"
    by (rule collected_codes [OF facts(1) [unfolded query_fact_diagnostics_def] none(2)])
  then show "set (pq_start (ai_query r)) \<union> set (pq_goal (ai_query r)) \<subseteq> fact_ids (ai_graph r)"
    by (auto simp: filter_empty_conv)
qed

end
