(* ===== verification/ExploitReturns.thy ===== *)
theory ExploitReturns
  imports ExploitSafety
begin

text \<open>
  The analysis of an admitted input returns: every diagnostic, step, witness, failure and piece of
  evidence that it builds passes the validator of its contract.
\<close>

section \<open>Addresses of diagnostics\<close>

lemma pointer_body_plain: "CHR ''~'' \<notin> set s \<Longrightarrow> pointer_body s"
  by (induction s) auto

definition plain_pointer :: "string \<Rightarrow> bool" where
  "plain_pointer s \<longleftrightarrow> s \<noteq> [] \<and> hd s = CHR ''/'' \<and> length s \<le> 512 \<and> CHR ''~'' \<notin> set s"

lemma plain_pointer_ok: "plain_pointer s \<Longrightarrow> exploit_diagnostic_of code s = Inr \<lparr>xd_code = code, xd_address = s\<rparr>"
  by (auto simp: exploit_diagnostic_of_def Let_def check_exploit_diagnostic_def field_def json_pointer_def
      plain_pointer_def pointer_body_plain)

lemma exploit_path_id_chars: "exploit_path_id s \<Longrightarrow> c \<in> set s \<Longrightarrow> id_char c"
  by (cases s) (auto simp: exploit_path_id_def id_char_def list_all_iff)

lemma exploit_path_id_plain:
  assumes "exploit_path_id s"
  shows "escape_token s = s" "CHR ''~'' \<notin> set s" "length s \<le> 256"
proof -
  have "\<not> id_char CHR ''~''" "\<not> id_char CHR ''/''" by (simp_all add: id_char_def lower_letter_def is_digit_def)
  with exploit_path_id_chars [OF assms] have "CHR ''~'' \<notin> set s" "CHR ''/'' \<notin> set s" by blast+
  then show "escape_token s = s" "CHR ''~'' \<notin> set s" by (simp_all add: escape_token_plain)
  show "length s \<le> 256" using assms by (simp add: exploit_path_id_def)
qed

lemma id_address_plain:
  assumes "exploit_path_id s" and "hd front = CHR ''/''" "front \<noteq> []" "length front \<le> 64" "CHR ''~'' \<notin> set front"
    and "length back \<le> 64" "CHR ''~'' \<notin> set back"
  shows "plain_pointer (front @ escape_token s @ back)" "plain_pointer (front @ escape_token s)"
  using assms exploit_path_id_plain [OF assms(1)] by (auto simp: plain_pointer_def)

section \<open>Admitted inputs\<close>

lemma field_Inr [simp]: "field b = Inr u \<longleftrightarrow> b"
  by (simp add: field_def require_eq_Inr)

lemma returns_field [simp]: "returns (field b) P \<longleftrightarrow> b \<and> P ()"
  by (simp add: field_def)

definition admitted_context :: "search_context \<Rightarrow> string set \<Rightarrow> bool" where
  "admitted_context ctx F \<longleftrightarrow>
     finite F \<and> card F \<le> 512 \<and> (\<forall>f \<in> F. exploit_path_id f)
     \<and> (\<forall>t \<in> set (sx_transitions ctx). check_attack_transition t = Inr ()
          \<and> set (at_prerequisites t) \<subseteq> F \<and> set (at_effects t) \<subseteq> F)
     \<and> check_path_query (sx_query ctx) = Inr ()
     \<and> sx_initial ctx = set (pq_start (sx_query ctx)) \<and> sx_goal ctx = set (pq_goal (sx_query ctx))
     \<and> sx_initial ctx \<subseteq> F"

lemma id_list_Inr [simp]: "id_list lo hi xs = Inr u \<longleftrightarrow> lo \<le> length xs \<and> length xs \<le> hi \<and> (\<forall>x \<in> set xs. exploit_path_id x)"
  by (simp add: id_list_def list_all_iff)

lemma require_sorted_unique_Inr [simp]: "require_sorted_unique xs = Inr u \<longleftrightarrow> sorted xs \<and> distinct xs"
  by (simp add: require_sorted_unique_def require_eq_Inr sorted_unique_iff)

lemma returns_sorted_unique [simp]: "returns (require_sorted_unique xs) P \<longleftrightarrow> sorted xs \<and> distinct xs \<and> P ()"
  by (simp add: require_sorted_unique_def sorted_unique_iff)

lemmas admitted_transition = check_attack_transition_def [unfolded check_attack_observation_def]

lemma checked_transition:
  assumes "check_attack_transition t = Inr ()"
  shows "exploit_path_id (at_id t)"
    and "length (at_prerequisites t) \<le> 64" "\<forall>x \<in> set (at_prerequisites t). exploit_path_id x"
      "sorted (at_prerequisites t)" "distinct (at_prerequisites t)"
    and "length (at_effects t) \<le> 64" "\<forall>x \<in> set (at_effects t). exploit_path_id x"
      "sorted (at_effects t)" "distinct (at_effects t)"
    and "length (at_observations t) \<le> 64" "\<forall>x \<in> set (at_observations t). exploit_path_id (ao_id x)"
      "sorted (map ao_id (at_observations t))" "distinct (map ao_id (at_observations t))"
  using assms by (auto simp: admitted_transition ebind_eq_Inr echeck_eq_Inr)

lemma checked_query:
  assumes "check_path_query q = Inr ()"
  shows "0 \<le> pq_depth q" "pq_depth q \<le> 64" "pq_allowed q \<noteq> []"
    and "1 \<le> length (pq_start q)" "length (pq_start q) \<le> 64" "\<forall>x \<in> set (pq_start q). exploit_path_id x"
      "sorted (pq_start q)" "distinct (pq_start q)"
    and "1 \<le> length (pq_goal q)" "length (pq_goal q) \<le> 64" "\<forall>x \<in> set (pq_goal q). exploit_path_id x"
      "sorted (pq_goal q)" "distinct (pq_goal q)"
  using assms by (auto simp: check_path_query_def ebind_eq_Inr)

lemma listed_facts:
  assumes "X \<subseteq> F" "finite F" "card F \<le> n" "\<forall>f \<in> F. exploit_path_id f"
  shows "length (sorted_list_of_set X) \<le> n" "\<forall>x \<in> set (sorted_list_of_set X). exploit_path_id x" "finite X"
proof -
  show X: "finite X" using assms(1,2) finite_subset by blast
  have "card X \<le> n" using card_mono [OF assms(2,1)] assms(3) by simp
  then show "length (sorted_list_of_set X) \<le> n" by simp
  show "\<forall>x \<in> set (sorted_list_of_set X). exploit_path_id x" using X assms(1,4) by auto
qed

lemma listed_part:
  assumes "distinct xs" "length xs \<le> n" "\<forall>x \<in> set xs. exploit_path_id x"
  shows "length (sorted_list_of_set (set xs - Y)) \<le> n" "\<forall>x \<in> set (sorted_list_of_set (set xs - Y)). exploit_path_id x"
proof -
  have "card (set xs) \<le> n" using assms(1,2) by (simp add: distinct_card)
  with listed_facts [of "set xs - Y" "set xs" n] assms(3)
  show "length (sorted_list_of_set (set xs - Y)) \<le> n" "\<forall>x \<in> set (sorted_list_of_set (set xs - Y)). exploit_path_id x"
    by blast+
qed

section \<open>The search returns\<close>

definition result_ok :: "(exploit_document \<Rightarrow> string) \<Rightarrow> search_result \<Rightarrow> bool" where
  "result_ok dg res \<longleftrightarrow>
     (\<forall>d \<in> set (sr_diagnostics res). check_exploit_diagnostic d = Inr ())
     \<and> length (sr_diagnostics res) \<le> MAX_EXPLOIT_PATH_DIAGNOSTICS
     \<and> (case sr_outcome res of
          ValidPath \<Rightarrow> (\<exists>w. sr_witness res = Some w \<and> check_path_witness dg w = Inr ())
            \<and> sr_failure res = None \<and> sr_unsupported res = None
        | InvalidPath \<Rightarrow> (\<exists>f. sr_failure res = Some f \<and> check_path_failure f = Inr ())
            \<and> sr_witness res = None \<and> sr_unsupported res = None
        | UnsupportedPath \<Rightarrow> (\<exists>u. sr_unsupported res = Some u \<and> check_path_unsupported u = Inr ()
              \<and> pu_codes u = sort (remdups (map xd_code (sr_diagnostics res))))
            \<and> sr_witness res = None \<and> sr_failure res = None)"

abbreviation search_returns ::
    "(exploit_document \<Rightarrow> string) \<Rightarrow> exploit_error + (search_result + search_accumulator) \<Rightarrow>
       (search_accumulator \<Rightarrow> bool) \<Rightarrow> bool" where
  "search_returns dg m P \<equiv> returns m (\<lambda>v. case v of Inl res \<Rightarrow> result_ok dg res | Inr acc \<Rightarrow> P acc)"

lemma unsupported_result_returns:
  "plain_pointer address \<Longrightarrow> returns (unsupported_search_result address) (result_ok dg)"
  by (simp add: unsupported_search_result_def plain_pointer_ok Let_def check_path_unsupported_def)
    (auto simp: result_ok_def check_exploit_diagnostic_def MAX_EXPLOIT_PATH_DIAGNOSTICS_def json_pointer_def
      plain_pointer_def pointer_body_plain check_path_unsupported_def ebind_eq_Inr)

lemma constant_addresses:
  "plain_pointer ''/search/blocked_transitions''" "plain_pointer ''/search/impossible_transitions''"
  "plain_pointer ''/search/explored_state_count''" "plain_pointer ''/diagnostics''" "plain_pointer ''/query/goal_facts''"
  "plain_pointer ''/query/allowed_transition_semantics''"
  by (simp_all add: plain_pointer_def)

text \<open>A state and the steps to it, as the queue holds them.\<close>

definition job_ok :: "search_context \<Rightarrow> string set \<Rightarrow> string set \<times> path_step list \<Rightarrow> bool" where
  "job_ok ctx F job \<longleftrightarrow>
     sx_initial ctx \<subseteq> fst job \<and> fst job \<subseteq> F \<and> int (length (snd job)) \<le> pq_depth (sx_query ctx)
     \<and> (\<forall>s \<in> set (snd job). check_path_step s = Inr ())"

definition accumulator_ok :: "search_context \<Rightarrow> string set \<Rightarrow> search_accumulator \<Rightarrow> bool" where
  "accumulator_ok ctx F acc \<longleftrightarrow>
     (\<forall>job \<in> set (sa_queue acc). job_ok ctx F job)
     \<and> sa_visited acc \<noteq> [] \<and> length (sa_visited acc) \<le> MAX_EXPLOIT_PATH_EXPLORED_STATES
     \<and> (\<forall>x \<in> set (sa_visited acc). \<not> sx_goal ctx \<subseteq> x)
     \<and> (\<forall>b \<in> set (dvals (sa_blocked acc)). check_blocked_transition b = Inr ())
     \<and> length (sa_blocked acc) \<le> MAX_EXPLOIT_PATH_BLOCKED_TRANSITIONS
     \<and> (\<forall>tid \<in> set (sa_impossible acc). exploit_path_id tid) \<and> distinct (sa_impossible acc)
     \<and> length (sa_impossible acc) \<le> MAX_EXPLOIT_PATH_IMPOSSIBLE_TRANSITIONS"

lemma path_step_returns:
  assumes "check_attack_transition t = Inr ()" and "\<forall>doc. digest_text (dg doc)" and "digest_text before" and "index \<le> 64"
  shows "returns (path_step_of dg t index before after (sorted_list_of_set (set (at_effects t) - x)))
    (\<lambda>s. check_path_step s = Inr ())"
proof -
  note t = checked_transition [OF assms(1)]
  note applied = listed_part [OF t(9,6,7), of x]
  show ?thesis
    using t applied assms(2-4)
    by (auto simp: path_step_of_def Let_def check_path_step_def canonical_state_digest_def returns_iff ebind_eq_Inr)
qed

lemma valid_search_returns:
  assumes ctx: "admitted_context ctx F" and job: "job_ok ctx F (final, steps)" and goal: "sx_goal ctx \<subseteq> final"
    and dg: "\<forall>doc. digest_text (dg doc)"
  shows "returns (valid_search_result dg (sx_query ctx) (sx_initial ctx) steps final) (result_ok dg)"
proof -
  have F: "finite F" "card F \<le> 512" "\<forall>f \<in> F. exploit_path_id f"
    and init: "sx_initial ctx = set (pq_start (sx_query ctx))" "sx_initial ctx \<subseteq> F"
    and goals: "sx_goal ctx = set (pq_goal (sx_query ctx))"
    and q: "check_path_query (sx_query ctx) = Inr ()"
    using ctx unfolding admitted_context_def by blast+
  note q = checked_query [OF q]
  have final: "final \<subseteq> F" "sx_initial ctx \<subseteq> final" "length steps \<le> 64" "\<forall>s \<in> set steps. check_path_step s = Inr ()"
    using job q(2) by (simp_all add: job_ok_def)
  note listed = listed_facts [OF final(1) F] listed_facts [OF init(2) F]
  have "sx_initial ctx \<noteq> {}" using init q(4) by auto
  then have nonempty: "1 \<le> length (sorted_list_of_set final)" "1 \<le> length (sorted_list_of_set (sx_initial ctx))"
    using listed(3,6) final(2) by (auto simp: Suc_le_eq card_gt_0_iff)
  have "check_path_witness dg \<lparr>pw_initial = sorted_list_of_set (sx_initial ctx), pw_goal = sort (pq_goal (sx_query ctx)),
      pw_steps = steps, pw_final = sorted_list_of_set final,
      pw_digest = canonical_state_digest dg (sorted_list_of_set final)\<rparr> = Inr ()"
    using nonempty listed final q(9-13) goal goals dg
    by (simp add: check_path_witness_def ebind_eq_Inr echeck_eq_Inr require_eq_Inr canonical_state_digest_def)
  then show ?thesis
    by (simp add: valid_search_result_def path_witness_of_def Let_def result_ok_def)
qed

lemma advance_returns:
  assumes ctx: "admitted_context ctx F" and acc: "accumulator_ok ctx F acc" and job: "job_ok ctx F (x, steps)"
    and depth: "int (length steps) < pq_depth (sx_query ctx)" and t: "t \<in> set (sx_transitions ctx)"
    and dg: "\<forall>doc. digest_text (dg doc)"
  shows "search_returns dg (advance_transition dg ctx x steps acc t) (accumulator_ok ctx F)"
proof -
  have tr: "check_attack_transition t = Inr ()" "set (at_prerequisites t) \<subseteq> F" "set (at_effects t) \<subseteq> F"
    and F: "finite F" and q: "check_path_query (sx_query ctx) = Inr ()"
    using ctx t unfolding admitted_context_def by blast+
  note t = checked_transition [OF tr(1)]
  note missing = listed_part [OF t(5,2,3), of x]
  let ?before = "canonical_state_digest dg (sorted_list_of_set x)"
  consider (blocked) "\<not> set (at_prerequisites t) \<subseteq> x"
    | (impossible) "set (at_prerequisites t) \<subseteq> x" "set (at_effects t) \<subseteq> x"
    | (progress) "set (at_prerequisites t) \<subseteq> x" "\<not> set (at_effects t) \<subseteq> x"
    by blast
  then show ?thesis
  proof cases
    case blocked
    let ?missing = "sorted_list_of_set (set (at_prerequisites t) - x)"
    have some: "?missing \<noteq> []" using blocked by simp
    then have "check_blocked_transition \<lparr>bt_transition = at_id t, bt_state = ?before, bt_missing = ?missing\<rparr> = Inr ()"
      using missing t(1) dg by (simp add: check_blocked_transition_def ebind_eq_Inr canonical_state_digest_def Suc_le_eq card_gt_0_iff)
    then have "search_returns dg (record_blocked_transition acc t ?before ?missing) (accumulator_ok ctx F)"
      using acc unfolding record_blocked_transition_def
      by (auto simp: accumulator_ok_def dput_absent dget_None_iff intro!: returns_mono [OF unsupported_result_returns]
          constant_addresses)
    with some show ?thesis by (simp add: advance_transition_def Let_def)
  next
    case impossible
    have "search_returns dg (record_impossible_transition acc (at_id t)) (accumulator_ok ctx F)"
      using acc t(1) unfolding record_impossible_transition_def
      by (auto simp: accumulator_ok_def intro!: returns_mono [OF unsupported_result_returns] constant_addresses)
    with impossible show ?thesis by (simp add: advance_transition_def Let_def Diff_eq_empty_iff)
  next
    case progress
    let ?z = "x \<union> set (at_effects t)"
    have index: "length steps \<le> 64" using depth checked_query(2) [OF q] by simp
    have next_job: "job_ok ctx F (?z, steps @ [s])" if "check_path_step s = Inr ()" for s
      using that job depth tr(3) by (auto simp: job_ok_def)
    have "search_returns dg (queue_next_state acc ?z (steps @ [s])) (accumulator_ok ctx F)"
      if "check_path_step s = Inr ()" "\<not> sx_goal ctx \<subseteq> ?z" for s
      using acc next_job [OF that(1)] that(2) unfolding queue_next_state_def
      by (auto simp: accumulator_ok_def intro!: returns_mono [OF unsupported_result_returns] constant_addresses)
    moreover have "returns (valid_search_result dg (sx_query ctx) (sx_initial ctx) (steps @ [s]) ?z) (result_ok dg)"
      if "check_path_step s = Inr ()" "sx_goal ctx \<subseteq> ?z" for s
      using valid_search_returns [OF ctx next_job [OF that(1)] that(2) dg] .
    ultimately have "search_returns dg (record_transition_progress dg ctx t acc x steps ?before
        (sorted_list_of_set (set (at_effects t) - x))) (accumulator_ok ctx F)"
      unfolding record_transition_progress_def Let_def returns_simps
      by (intro returns_mono [OF path_step_returns [OF tr(1) dg _ index]])
        (use acc dg in \<open>auto simp: canonical_state_digest_def\<close>)
    with progress show ?thesis by (simp add: advance_transition_def Let_def Diff_eq_empty_iff)
  qed
qed

lemma advance_from_state_returns:
  assumes "admitted_context ctx F" and "accumulator_ok ctx F acc" and "job_ok ctx F (x, steps)"
    and "int (length steps) < pq_depth (sx_query ctx)" and "\<forall>doc. digest_text (dg doc)"
  shows "search_returns dg (advance_from_state dg ctx acc x steps) (accumulator_ok ctx F)"
  unfolding advance_from_state_def by (rule returns_floop) (use assms advance_returns in blast)+

lemma run_bounded_returns:
  assumes "admitted_context ctx F" and "accumulator_ok ctx F acc" and "\<forall>doc. digest_text (dg doc)"
  shows "search_returns dg (run_bounded_search dg ctx acc)
    (\<lambda>acc. accumulator_ok ctx F acc \<and> length (sa_blocked acc) + length (sa_impossible acc) < MAX_EXPLOIT_PATH_DIAGNOSTICS)"
  using assms
proof (induction dg ctx acc rule: run_bounded_search.induct)
  case (1 dg ctx acc)
  show ?case
  proof (cases "sa_queue acc")
    case Nil
    have "returns (diagnostic_cap_result acc) (\<lambda>r. case r of Some u \<Rightarrow> result_ok dg u
        | None \<Rightarrow> length (sa_blocked acc) + length (sa_impossible acc) < MAX_EXPLOIT_PATH_DIAGNOSTICS)"
      unfolding diagnostic_cap_result_def
      by (auto intro!: returns_mono [OF unsupported_result_returns] constant_addresses)
    then show ?thesis
      unfolding run_bounded_search.simps [of dg ctx acc] Nil list.case returns_simps
      by (rule returns_mono) (use "1.prems" in \<open>auto split: option.splits\<close>)
  next
    case (Cons job queue)
    obtain x steps where job: "job = (x, steps)" by (cases job)
    note q = Cons [unfolded job]
    have acc1: "accumulator_ok ctx F (acc\<lparr>sa_queue := queue\<rparr>)" "job_ok ctx F (x, steps)"
      using "1.prems"(2) by (auto simp: accumulator_ok_def q)
    show ?thesis
    proof (cases "pq_depth (sx_query ctx) \<le> int (length steps)")
      case True
      have "accumulator_ok ctx F (acc\<lparr>sa_queue := queue, sa_exhausted := True\<rparr>)"
        using acc1(1) by (simp add: accumulator_ok_def)
      with "1.IH"(1) [OF q refl refl True] "1.prems"(1,3) True q show ?thesis
        by (subst run_bounded_search.simps) (simp add: Let_def)
    next
      case False
      have step: "search_returns dg (advance_from_state dg ctx (acc\<lparr>sa_queue := queue\<rparr>) x steps) (accumulator_ok ctx F)"
        using advance_from_state_returns [OF "1.prems"(1) acc1 _ "1.prems"(3)] False by simp
      have "search_returns dg (ebind (advance_from_state dg ctx (acc\<lparr>sa_queue := queue\<rparr>) x steps)
          (\<lambda>r. case r of Inl result \<Rightarrow> Inr (Inl result) | Inr acc2 \<Rightarrow> run_bounded_search dg ctx acc2))
        (\<lambda>acc. accumulator_ok ctx F acc \<and> length (sa_blocked acc) + length (sa_impossible acc) < MAX_EXPLOIT_PATH_DIAGNOSTICS)"
        unfolding returns_simps
        by (rule returns_mono [OF step])
          (use "1.IH"(2) [OF q refl refl False] "1.prems"(1,3) in \<open>auto split: sum.splits\<close>)
      with q False show ?thesis by (subst run_bounded_search.simps) (simp add: Let_def)
    qed
  qed
qed

section \<open>The result of an exhausted search\<close>

text \<open>An iteration order of a set of states: it lists the elements, each once.\<close>

definition iteration_order :: "(string set list \<Rightarrow> string set list) \<Rightarrow> bool" where
  "iteration_order iteration \<longleftrightarrow> (\<forall>xs. set (iteration xs) = set xs)"

lemma max_by_size_in:
  assumes "xs \<noteq> []"
  shows "max_by_size xs \<in> set xs"
proof -
  have "foldl (\<lambda>best x. if card best < card x then x else best) b ys \<in> insert b (set ys)" for b ys
    by (induction ys arbitrary: b) auto
  from this [of "hd xs" "tl xs"] have "max_by_size xs \<in> set (hd xs # tl xs)" by (simp only: max_by_size_def list.set)
  with assms show ?thesis by simp
qed

lemma unsatisfied_goal_facts:
  assumes "visited \<noteq> []" and "\<forall>x \<in> set visited. \<not> goal \<subseteq> x" and "finite goal" and "iteration_order iteration"
  shows "set (unsatisfied_goal iteration goal visited) \<subseteq> goal" and "unsatisfied_goal iteration goal visited \<noteq> []"
    and "sorted (unsatisfied_goal iteration goal visited)" "distinct (unsatisfied_goal iteration goal visited)"
    and "length (unsatisfied_goal iteration goal visited) \<le> card goal"
proof -
  have same: "set (iteration visited) = set visited" using assms(4) by (simp add: iteration_order_def)
  then have "iteration visited \<noteq> []" using assms(1) by (metis set_empty)
  then have "max_by_size (iteration visited) \<in> set visited" using max_by_size_in same by blast
  with assms(2) have miss: "\<not> goal \<subseteq> max_by_size (iteration visited)" by blast
  obtain A where A: "unsatisfied_goal iteration goal visited = sorted_list_of_set (goal - A)" "\<not> goal \<subseteq> A"
  proof (cases "goal \<subseteq> \<Union> (set visited)")
    case True
    then have "goal - \<Union> (set visited) = {}" by blast
    then have "sorted_list_of_set (goal - \<Union> (set visited)) = []" by (metis sorted_list_of_set_empty)
    then have "unsatisfied_goal iteration goal visited = sorted_list_of_set (goal - max_by_size (iteration visited))"
      unfolding unsatisfied_goal_def Let_def by (simp only: simp_thms if_True)
    then show ?thesis using miss by (rule that)
  next
    case False
    then show ?thesis using that [of "\<Union> (set visited)"] assms(3)
      by (simp add: unsatisfied_goal_def Let_def Diff_eq_empty_iff)
  qed
  then show "set (unsatisfied_goal iteration goal visited) \<subseteq> goal" "unsatisfied_goal iteration goal visited \<noteq> []"
    "sorted (unsatisfied_goal iteration goal visited)" "distinct (unsatisfied_goal iteration goal visited)"
    using assms(3) by auto
  show "length (unsatisfied_goal iteration goal visited) \<le> card goal"
    using A assms(3) by (simp add: card_mono)
qed

lemma collect_pointers:
  assumes "\<forall>x \<in> set xs. plain_pointer (f x)"
  shows "collect (\<lambda>x. exploit_diagnostic_of code (f x)) xs = Inr (map (\<lambda>x. \<lparr>xd_code = code, xd_address = f x\<rparr>) xs)"
  using assms by (intro collect_ok plain_pointer_ok) blast

lemma exploit_diagnostic_checked: "exploit_diagnostic_of code address = Inr d \<Longrightarrow> check_exploit_diagnostic d = Inr ()"
  by (auto simp: exploit_diagnostic_of_def Let_def ebind_eq_Inr)

lemma collect_diagnostics_checked:
  "collect (\<lambda>x. exploit_diagnostic_of code (f x)) xs = Inr ds \<Longrightarrow> d \<in> set ds \<Longrightarrow> check_exploit_diagnostic d = Inr ()"
  by (auto simp: collect_eq_Inr list_all2_conv_all_nth in_set_conv_nth dest: exploit_diagnostic_checked)

lemma pointer_of_id:
  assumes "exploit_path_id s"
  shows "plain_pointer (''/normalized_graph/transitions/'' @ escape_token s)"
    and "plain_pointer (''/normalized_graph/transitions/'' @ escape_token s @ ''/semantics'')"
    and "plain_pointer (''/normalized_graph/bindings/'' @ escape_token s)"
    and "plain_pointer ((''/normalized_graph/bindings/'' @ escape_token s) @ ''/target_id'')"
    and "plain_pointer ((''/normalized_graph/bindings/'' @ escape_token s) @ ''/raes_address'')"
    and "plain_pointer (''/normalized_graph/'' @ ''state-fact'' @ ''s/'' @ escape_token s)"
    and "plain_pointer (''/normalized_graph/'' @ ''transition'' @ ''s/'' @ escape_token s)"
    and "plain_pointer (''/query/facts/'' @ escape_token s)"
  using exploit_path_id_plain [OF assms] by (simp_all add: plain_pointer_def)

lemma invalid_result_returns:
  assumes ctx: "admitted_context ctx F" and acc: "accumulator_ok ctx F acc" and iteration: "iteration_order iteration"
    and cap: "length (sa_blocked acc) + length (sa_impossible acc) < MAX_EXPLOIT_PATH_DIAGNOSTICS"
  shows "returns (invalid_search_result iteration (sx_goal ctx) acc) (result_ok dg)"
proof -
  have q: "check_path_query (sx_query ctx) = Inr ()" and goal: "sx_goal ctx = set (pq_goal (sx_query ctx))"
    using ctx unfolding admitted_context_def by blast+
  note q = checked_query [OF q]
  have card: "card (sx_goal ctx) \<le> 64" using q(10,13) goal by (simp add: distinct_card)
  have vis: "sa_visited acc \<noteq> []" "\<forall>x \<in> set (sa_visited acc). \<not> sx_goal ctx \<subseteq> x" "finite (sx_goal ctx)"
    and ids: "\<forall>b \<in> set (dvals (sa_blocked acc)). check_blocked_transition b = Inr ()"
      "\<forall>tid \<in> set (sa_impossible acc). exploit_path_id tid" "distinct (sa_impossible acc)"
    and len: "length (sa_visited acc) \<le> MAX_EXPLOIT_PATH_EXPLORED_STATES"
      "length (sa_blocked acc) \<le> MAX_EXPLOIT_PATH_BLOCKED_TRANSITIONS"
      "length (sa_impossible acc) \<le> MAX_EXPLOIT_PATH_IMPOSSIBLE_TRANSITIONS"
    using acc goal by (simp_all add: accumulator_ok_def)
  note unsat = unsatisfied_goal_facts [OF vis iteration]
  have bid: "exploit_path_id (bt_transition b)" if "b \<in> set (dvals (sa_blocked acc))" for b
    using bspec [OF ids(1) that] by (simp add: check_blocked_transition_def ebind_eq_Inr)
  have collected: "collect (\<lambda>b. exploit_diagnostic_of MISSING_PREREQUISITE_CODE
       (''/normalized_graph/transitions/'' @ escape_token (bt_transition b))) (dvals (sa_blocked acc))
     = Inr (map (\<lambda>b. \<lparr>xd_code = MISSING_PREREQUISITE_CODE,
         xd_address = ''/normalized_graph/transitions/'' @ escape_token (bt_transition b)\<rparr>) (dvals (sa_blocked acc)))"
    "collect (\<lambda>tid. exploit_diagnostic_of IMPOSSIBLE_TRANSITION_CODE
       (''/normalized_graph/transitions/'' @ escape_token tid)) (sort (sa_impossible acc))
     = Inr (map (\<lambda>tid. \<lparr>xd_code = IMPOSSIBLE_TRANSITION_CODE,
         xd_address = ''/normalized_graph/transitions/'' @ escape_token tid\<rparr>) (sort (sa_impossible acc)))"
    using bid ids(2) pointer_of_id(1) by - (rule collect_pointers; (simp only: set_sort)?; blast)+
  obtain ds where ds: "invalid_path_diagnostics acc = Inr ds"
    "length ds = length (sa_blocked acc) + length (sa_impossible acc) + 1"
    unfolding invalid_path_diagnostics_def collected
    by (simp add: plain_pointer_ok [OF constant_addresses(5)])
  have good: "\<forall>d \<in> set ds. check_exploit_diagnostic d = Inr ()"
  proof -
    from ds(1) obtain xs ys d where parts: "collect (\<lambda>b. exploit_diagnostic_of MISSING_PREREQUISITE_CODE
         (''/normalized_graph/transitions/'' @ escape_token (bt_transition b))) (dvals (sa_blocked acc)) = Inr xs"
      "collect (\<lambda>tid. exploit_diagnostic_of IMPOSSIBLE_TRANSITION_CODE
         (''/normalized_graph/transitions/'' @ escape_token tid)) (sort (sa_impossible acc)) = Inr ys"
      "exploit_diagnostic_of UNSATISFIED_GOAL_CODE ''/query/goal_facts'' = Inr d" "ds = xs @ ys @ [d]"
      unfolding invalid_path_diagnostics_def ebind_eq_Inr by blast
    show ?thesis
      unfolding parts(4) using collect_diagnostics_checked [OF parts(1)] collect_diagnostics_checked [OF parts(2)]
        exploit_diagnostic_checked [OF parts(3)] by auto
  qed
  let ?f = "\<lparr>pf_explored = length (sa_visited acc), pf_exhausted = sa_exhausted acc,
      pf_blocked = sort_key (\<lambda>b. (bt_transition b, bt_state b)) (dvals (sa_blocked acc)),
      pf_impossible = sort (sa_impossible acc),
      pf_unsatisfied = unsatisfied_goal iteration (sx_goal ctx) (sa_visited acc)\<rparr>"
  have "check_path_failure ?f = Inr ()"
    using len ids unsat card vis(1) q(11) goal
    by (auto simp: check_path_failure_def ebind_eq_Inr echeck_eq_Inr Suc_le_eq)
  then show ?thesis
    using good cap ds(2) dedupe_diagnostics_facts(2) [of ds]
    by (simp add: invalid_search_result_def ds Let_def result_ok_def)
qed

section \<open>The analysis returns\<close>

lemma exploit_search_returns:
  assumes ctx: "admitted_context (search_context_of r) F" and dg: "\<forall>doc. digest_text (dg doc)"
    and iteration: "iteration_order iteration"
  shows "returns (exploit_search iteration dg r) (result_ok dg)"
proof (cases "sx_goal (search_context_of r) \<subseteq> sx_initial (search_context_of r)")
  case True
  have "sx_initial (search_context_of r) \<subseteq> F" "check_path_query (sx_query (search_context_of r)) = Inr ()"
    using ctx unfolding admitted_context_def by blast+
  then have "job_ok (search_context_of r) F (sx_initial (search_context_of r), [])"
    using checked_query(1) [of "sx_query (search_context_of r)"] by (simp add: job_ok_def)
  from valid_search_returns [OF ctx this True dg] True show ?thesis by (simp add: exploit_search_def Let_def)
next
  case False
  let ?ctx = "search_context_of r"
  have "accumulator_ok ?ctx F (initial_accumulator ?ctx)"
    using False ctx checked_query(1) [of "sx_query ?ctx"]
    by (auto simp: accumulator_ok_def initial_accumulator_def job_ok_def admitted_context_def MAX_EXPLOIT_PATH_EXPLORED_STATES_def)
  from run_bounded_returns [OF ctx this dg]
  have "returns (ebind (run_bounded_search dg ?ctx (initial_accumulator ?ctx)) (\<lambda>v. case v of
      Inl result \<Rightarrow> Inr result | Inr acc \<Rightarrow> invalid_search_result iteration (sx_goal ?ctx) acc)) (result_ok dg)"
    unfolding returns_simps
    by (rule returns_mono) (auto intro: invalid_result_returns [OF ctx _ iteration] split: sum.splits)
  with False show ?thesis by (simp add: exploit_search_def Let_def)
qed

text \<open>What the validator of the input guarantees.\<close>

lemma checked_input:
  assumes "check_analysis_input sdl r = Inr ()"
  shows "check_attack_graph (ai_graph r) = Inr ()" "check_path_query (ai_query r) = Inr ()"
    "digest_text (ai_snapshot r)" "ag_snapshot (ai_graph r) = ai_snapshot r"
  using assms by (auto simp: check_analysis_input_def ebind_eq_Inr require_eq_Inr)

lemma checked_graph:
  assumes "check_attack_graph g = Inr ()"
  shows "\<forall>t \<in> set (ag_transitions g). check_attack_transition t = Inr ()"
    and "\<forall>t \<in> set (ag_transitions g). set (at_prerequisites t) \<union> set (at_effects t) \<subseteq> fact_ids g"
    and "finite (fact_ids g)" "card (fact_ids g) \<le> 512" "\<forall>f \<in> fact_ids g. exploit_path_id f"
    and "\<forall>b \<in> set (ag_bindings g). exploit_path_id (ab_id b)"
proof -
  note g = assms [unfolded check_attack_graph_def ebind_eq_Inr echeck_eq_Inr require_eq_Inr field_Inr]
  show "\<forall>t \<in> set (ag_transitions g). check_attack_transition t = Inr ()" using g by blast
  show "\<forall>t \<in> set (ag_transitions g). set (at_prerequisites t) \<union> set (at_effects t) \<subseteq> fact_ids g"
    using g unfolding fact_ids_def set_map list_all_iff by blast
  show "finite (fact_ids g)" by (simp add: fact_ids_def)
  show "card (fact_ids g) \<le> 512"
    unfolding fact_ids_def by (rule order_trans [OF card_length]) (use g in simp)
  show "\<forall>f \<in> fact_ids g. exploit_path_id f"
    using g by (auto simp: fact_ids_def check_attack_fact_def)
  show "\<forall>b \<in> set (ag_bindings g). exploit_path_id (ab_id b)"
    using g by (auto simp: check_attack_binding_def)
qed

lemma input_context:
  assumes "check_analysis_input sdl r = Inr ()" and "set (pq_start (ai_query r)) \<subseteq> fact_ids (ai_graph r)"
  shows "admitted_context (search_context_of r) (fact_ids (ai_graph r))"
  using checked_graph [OF checked_input(1) [OF assms(1)]] checked_input(2) [OF assms(1)] assms(2)
  unfolding admitted_context_def search_context_of_def allowed_transitions_def by simp

text \<open>The diagnostics of the preflight.\<close>

abbreviation checked_diagnostics :: "exploit_diagnostic list \<Rightarrow> bool" where
  "checked_diagnostics ds \<equiv> \<forall>d \<in> set ds. check_exploit_diagnostic d = Inr ()"

lemma diagnostic_returns:
  "plain_pointer address \<Longrightarrow> returns (exploit_diagnostic_of code address) (\<lambda>d. check_exploit_diagnostic d = Inr ())"
  using plain_pointer_ok exploit_diagnostic_checked unfolding returns_iff by blast

lemma collect_returns:
  assumes "\<forall>x \<in> set xs. plain_pointer (f x)"
  shows "returns (collect (\<lambda>x. exploit_diagnostic_of code (f x)) xs) checked_diagnostics"
  using collect_pointers [OF assms] collect_diagnostics_checked unfolding returns_iff by blast

definition targets_ok :: "binding_targets \<Rightarrow> bool" where
  "targets_ok targets \<longleftrightarrow> (\<forall>(k, ids) \<in> set targets. ids \<noteq> [] \<and> (\<forall>i \<in> set ids. exploit_path_id i))"

lemma targets_ok_put:
  assumes "targets_ok targets" and "exploit_path_id i"
  shows "targets_ok (dput k ((case dget targets k of None \<Rightarrow> [] | Some ids \<Rightarrow> ids) @ [i]) targets)"
    (is "targets_ok (dput k (?old @ [i]) targets)")
proof -
  have "\<forall>j \<in> set ?old. exploit_path_id j"
  proof (cases "dget targets k")
    case (Some ids)
    then have "(k, ids) \<in> set targets" by (rule map_of_SomeD)
    with assms(1) Some show ?thesis by (auto simp: targets_ok_def)
  qed simp
  then have new: "\<forall>j \<in> set (?old @ [i]). exploit_path_id j" using assms(2) by simp
  show ?thesis
    unfolding targets_ok_def
  proof (rule ballI)
    fix p assume "p \<in> set (dput k (?old @ [i]) targets)"
    then have "p = (k, ?old @ [i]) \<or> p \<in> set targets" using set_dput_subset by fast
    then show "case p of (k, ids) \<Rightarrow> ids \<noteq> [] \<and> (\<forall>i \<in> set ids. exploit_path_id i)"
      using new assms(1) unfolding targets_ok_def by blast
  qed
qed

lemma binding_diagnostics_returns:
  assumes "\<forall>b \<in> set (ag_bindings g). exploit_path_id (ab_id b)"
  shows "returns (binding_diagnostics g payload) (\<lambda>(targets, ds). targets_ok targets \<and> checked_diagnostics ds)"
  unfolding binding_diagnostics_def
proof (rule returns_efold)
  show "case ([], []) of (targets, ds) \<Rightarrow> targets_ok targets \<and> checked_diagnostics ds" by (simp add: targets_ok_def)
next
  fix s :: "binding_targets \<times> exploit_diagnostic list" and b
  assume "b \<in> set (ag_bindings g)" and s: "case s of (targets, ds) \<Rightarrow> targets_ok targets \<and> checked_diagnostics ds"
  then have b: "exploit_path_id (ab_id b)" using assms by blast
  have optional: "returns (if p then ebind (exploit_diagnostic_of code place) (\<lambda>d. Inr (ds @ [d])) else Inr ds) checked_diagnostics"
    if "checked_diagnostics ds" "plain_pointer place" for p code place ds
    using that by (auto intro!: returns_mono [OF diagnostic_returns])
  obtain targets ds where sd: "s = (targets, ds)" by (cases s)
  with s have old: "targets_ok targets" "checked_diagnostics ds" by simp_all
  show "returns ((\<lambda>(targets, ds) b.
       let target = (ab_target_kind b, ab_target b);
           targets' = dput target ((case dget targets target of None \<Rightarrow> [] | Some ids \<Rightarrow> ids) @ [ab_id b]) targets;
           place = ''/normalized_graph/bindings/'' @ escape_token (ab_id b) in
       ebind (if target \<notin> set (expected_targets g)
              then ebind (exploit_diagnostic_of BINDING_TARGET_DANGLING_CODE (place @ ''/target_id'')) (\<lambda>d. Inr (ds @ [d]))
              else Inr ds) (\<lambda>ds1.
       ebind (if \<not> pointer_resolves payload (ab_address b)
              then ebind (exploit_diagnostic_of BINDING_MISSING_CODE (place @ ''/raes_address'')) (\<lambda>d. Inr (ds1 @ [d]))
              else Inr ds1) (\<lambda>ds2.
         Inr (targets', ds2)))) s b) (\<lambda>(targets, ds). targets_ok targets \<and> checked_diagnostics ds)"
    unfolding sd prod.case Let_def returns_simps
    by (rule returns_mono [OF optional [OF old(2) pointer_of_id(4) [OF b]]],
        rule returns_mono [OF optional [OF _ pointer_of_id(5) [OF b]]])
      (use targets_ok_put [OF old(1) b] in auto)
qed

lemma required_binding_diagnostics_returns:
  assumes "check_attack_graph g = Inr ()" and "targets_ok targets"
  shows "returns (required_binding_diagnostics g targets) checked_diagnostics"
  unfolding required_binding_diagnostics_def
proof (rule returns_efold)
  fix ds and kt
  assume "kt \<in> set (sort (remdups (expected_targets g)))" and ds: "checked_diagnostics ds"
  moreover obtain kind target where kt: "kt = (kind, target)" by (cases kt)
  ultimately have "kind = ''state-fact'' \<and> target \<in> fact_ids g \<or> kind = ''transition'' \<and> target \<in> at_id ` set (ag_transitions g)"
    by (auto simp: expected_targets_def fact_ids_def)
  then have place: "plain_pointer (''/normalized_graph/'' @ kind @ ''s/'' @ escape_token target)"
    using checked_graph(1,5) [OF assms(1)] checked_transition(1) pointer_of_id(6,7) by blast
  have binding: "plain_pointer (''/normalized_graph/bindings/'' @ escape_token (hd ids))" if "dget targets (kind, target) = Some ids" for ids
    using that assms(2) pointer_of_id(3) [of "hd ids"] by (force simp: targets_ok_def dest: map_of_SomeD)
  show "returns (case kt of (kind, target) \<Rightarrow> (case dget targets (kind, target) of
          None \<Rightarrow> ebind (exploit_diagnostic_of BINDING_MISSING_CODE
            (''/normalized_graph/'' @ kind @ ''s/'' @ escape_token target)) (\<lambda>d. Inr (ds @ [d]))
        | Some ids \<Rightarrow>
            if 1 < length ids
            then ebind (exploit_diagnostic_of BINDING_AMBIGUOUS_CODE
              (''/normalized_graph/bindings/'' @ escape_token (hd ids))) (\<lambda>d. Inr (ds @ [d]))
            else Inr ds)) checked_diagnostics"
  proof (cases "dget targets (kind, target)")
    case None
    then show ?thesis
      unfolding kt prod.case None option.case returns_simps
      by (intro returns_mono [OF diagnostic_returns [OF place]]) (use ds in auto)
  next
    case (Some ids)
    then show ?thesis
      unfolding kt prod.case Some option.case
      by (cases "1 < length ids")
        (use ds in \<open>auto intro!: returns_mono [OF diagnostic_returns [OF binding [OF Some]]] simp del: append.simps\<close>)
  qed
qed simp

lemma semantics_diagnostics_returns:
  assumes "\<forall>t \<in> set ts. check_attack_transition t = Inr ()"
  shows "returns (semantics_diagnostics q ts) checked_diagnostics"
proof -
  have "\<forall>t \<in> set (filter (\<lambda>t. at_semantics t \<noteq> SUPPORTED_TRANSITION_SEMANTICS) ts).
      plain_pointer (''/normalized_graph/transitions/'' @ escape_token (at_id t) @ ''/semantics'')"
    using assms checked_transition(1) pointer_of_id(2) unfolding set_filter by blast
  note rest = collect_returns [OF this, of UNSUPPORTED_SEMANTICS_CODE]
  have "returns (if list_ex (\<lambda>s. s \<noteq> SUPPORTED_TRANSITION_SEMANTICS) (pq_allowed q)
            then ebind (exploit_diagnostic_of UNSUPPORTED_SEMANTICS_CODE ''/query/allowed_transition_semantics'') (\<lambda>d. Inr [d])
            else Inr []) checked_diagnostics"
    by (auto intro!: returns_mono [OF diagnostic_returns [OF constant_addresses(6)]])
  then show ?thesis
    unfolding semantics_diagnostics_def returns_simps
    by (rule returns_mono) (rule returns_mono [OF rest], auto)
qed

lemma preflight_returns:
  assumes "check_analysis_input sdl r = Inr ()"
  shows "returns (preflight_diagnostics r) checked_diagnostics"
proof -
  note g = checked_graph [OF checked_input(1) [OF assms]]
  have "\<forall>f \<in> set (filter (\<lambda>f. f \<notin> fact_ids (ai_graph r)) (pq_start (ai_query r) @ pq_goal (ai_query r))).
      plain_pointer (''/query/facts/'' @ escape_token f)"
    using checked_query(6,11) [OF checked_input(2) [OF assms]] pointer_of_id(8) by auto
  note facts = collect_returns [OF this, of QUERY_DANGLING_FACT_CODE, folded query_fact_diagnostics_def]
  show ?thesis
    unfolding preflight_diagnostics_def returns_simps case_prod_unfold
    by (rule returns_mono [OF binding_diagnostics_returns [OF g(6)]],
        rule returns_mono [OF required_binding_diagnostics_returns [OF checked_input(1) [OF assms]]],
        (simp add: case_prod_unfold),
        rule returns_mono [OF semantics_diagnostics_returns [OF g(1)]],
        rule returns_mono [OF facts])
      (auto simp: case_prod_unfold)
qed

lemma evidence_returns:
  assumes input: "check_analysis_input sdl r = Inr ()" and dg: "\<forall>doc. digest_text (dg doc)"
    and source: "check_source_identity source_id source_digest = Inr ()" and res: "result_ok dg res"
  shows "returns (make_path_evidence dg (evidence_of dg r source_id source_digest res)) (\<lambda>_. True)"
proof -
  note i = checked_input [OF input]
  have "check_search_configuration \<lparr>sc_depth = pq_depth (ai_query r)\<rparr> = Inr ()"
    using checked_query(1,2) [OF i(2)] by (simp add: check_search_configuration_def)
  then have "check_path_evidence dg (evidence_of dg r source_id source_digest res) = Inr ()"
    using i source res dg
    by (cases "sr_outcome res")
      (auto simp: check_path_evidence_def evidence_of_def Let_def ebind_eq_Inr echeck_eq_Inr require_eq_Inr result_ok_def
        validate_outcome_payload_def payload_selected_def validate_unsupported_reasons_def option_check_def)
  then show ?thesis by (simp add: make_path_evidence_def)
qed

lemma fail_closed_returns:
  assumes "checked_diagnostics items" and "items \<noteq> []"
  shows "returns (bounded_fail_closed_diagnostics items)
    (\<lambda>ds. checked_diagnostics ds \<and> ds \<noteq> [] \<and> length ds \<le> MAX_EXPLOIT_PATH_DIAGNOSTICS)"
proof -
  have "dedupe_diagnostics items \<noteq> []" using assms(2) dedupe_diagnostics_facts(1) [of items] by (metis set_empty)
  with assms(1) show ?thesis
    by (auto simp: bounded_fail_closed_diagnostics_def Let_def MAX_EXPLOIT_PATH_DIAGNOSTICS_def
        intro!: returns_mono [OF diagnostic_returns] constant_addresses)
qed

lemma analysis_returns:
  assumes input: "check_analysis_input sdl r = Inr ()" and dg: "\<forall>doc. digest_text (dg doc)"
    and source: "check_source_identity source_id source_digest = Inr ()" and iteration: "iteration_order iteration"
  shows "returns (analyze_exploit_path_input iteration dg r source_id source_digest) (\<lambda>_. True)"
proof -
  note q = checked_query [OF checked_input(2) [OF input]]
  obtain ds where pre: "preflight_diagnostics r = Inr ds" "checked_diagnostics ds"
    using preflight_returns [OF input] unfolding returns_iff by blast
  let ?closed = "filter (\<lambda>d. xd_code d \<in> set FAIL_CLOSED_CODES) ds"
  have config: "check_search_configuration \<lparr>sc_depth = pq_depth (ai_query r)\<rparr> = Inr ()"
    using q(1,2) by (simp add: check_search_configuration_def)
  show ?thesis
  proof (cases "?closed = []")
    case True
    then have none: "bounded_fail_closed_diagnostics ?closed = Inr []"
      by (simp add: bounded_fail_closed_diagnostics_def Let_def dedupe_diagnostics_def)
    have "\<forall>d \<in> set ds. xd_code d \<notin> set FAIL_CLOSED_CODES" using True by (simp add: filter_empty_conv)
    from preflight_supported(2) [OF pre(1) this q(3)] have "set (pq_start (ai_query r)) \<subseteq> fact_ids (ai_graph r)" by blast
    from exploit_search_returns [OF input_context [OF input this] dg iteration]
    have "returns (ebind (exploit_search iteration dg r) (\<lambda>result.
         make_path_evidence dg (evidence_of dg r source_id source_digest result))) (\<lambda>_. True)"
      unfolding returns_simps by (rule returns_mono) (rule evidence_returns [OF input dg source])
    with none show ?thesis
      unfolding analyze_exploit_path_input_def pre(1) config source by simp
  next
    case False
    have "checked_diagnostics ?closed" using pre(2) by simp
    from fail_closed_returns [OF this False] obtain cs where cs: "bounded_fail_closed_diagnostics ?closed = Inr cs"
      "checked_diagnostics cs" "cs \<noteq> []" "length cs \<le> MAX_EXPLOIT_PATH_DIAGNOSTICS"
      unfolding returns_iff by blast
    let ?u = "\<lparr>pu_codes = sort (remdups (map xd_code cs))\<rparr>"
    have "length (remdups (map xd_code cs)) \<le> 64" "remdups (map xd_code cs) \<noteq> []"
      using cs(3,4) length_remdups_leq [of "map xd_code cs"] by (auto simp: MAX_EXPLOIT_PATH_DIAGNOSTICS_def)
    then have u: "check_path_unsupported ?u = Inr ()"
      by (auto simp: check_path_unsupported_def ebind_eq_Inr Suc_le_eq)
    have "sort (remdups (map xd_code (sort_key diagnostic_key cs))) = sort (remdups (map xd_code cs))"
      by (rule sorted_distinct_set_unique) (auto simp: distinct_sort)
    then have "result_ok dg \<lparr>sr_outcome = UnsupportedPath, sr_witness = None, sr_failure = None, sr_unsupported = Some ?u,
              sr_diagnostics = sort_key diagnostic_key cs\<rparr>"
      using cs u by (simp add: result_ok_def)
    from evidence_returns [OF input dg source this] cs u show ?thesis
      unfolding analyze_exploit_path_input_def pre(1) config source by (simp add: Let_def)
  qed
qed

end
