(* ===== verification/ExploitProperties.thy ===== *)
theory ExploitProperties
  imports ExploitReturns
begin

text \<open>
  The properties of exploit-path analysis (raes_processor/exploit_path), each with a witness on one
  small attack graph.
\<close>

section \<open>The analysis in terms of the search\<close>

lemma analysis_cases:
  assumes "analyze_exploit_path_input iteration dg r source_id source_digest = Inr e"
  obtains (closed) res where "e = evidence_of dg r source_id source_digest res" "sr_outcome res = UnsupportedPath"
      "\<And>iteration'. analyze_exploit_path_input iteration' dg r source_id source_digest = Inr e"
  | (searched) res where "e = evidence_of dg r source_id source_digest res" "exploit_search iteration dg r = Inr res"
      "pq_allowed (ai_query r) \<noteq> [] \<Longrightarrow> allowed_transitions r = ag_transitions (ai_graph r)"
      "\<And>iteration'. exploit_search iteration' dg r = Inr res \<Longrightarrow>
         analyze_exploit_path_input iteration' dg r source_id source_digest = Inr e"
proof -
  let ?closed = "filter (\<lambda>d. xd_code d \<in> set FAIL_CLOSED_CODES)"
  from assms obtain ds cs where pre: "preflight_diagnostics r = Inr ds"
    and config: "check_search_configuration \<lparr>sc_depth = pq_depth (ai_query r)\<rparr> = Inr ()"
    and source: "check_source_identity source_id source_digest = Inr ()"
    and cs: "bounded_fail_closed_diagnostics (?closed ds) = Inr cs"
    unfolding analyze_exploit_path_input_def ebind_eq_Inr by auto
  note run = analyze_exploit_path_input_def [of _ dg r source_id source_digest, unfolded pre ebind.simps config source cs]
  show thesis
  proof (cases "cs = []")
    case False
    then obtain res where "e = evidence_of dg r source_id source_digest res" "sr_outcome res = UnsupportedPath"
      using assms unfolding run by (auto simp: Let_def ebind_eq_Inr make_path_evidence_def)
    moreover have "analyze_exploit_path_input iteration' dg r source_id source_digest = Inr e" for iteration'
      using assms False unfolding run by simp
    ultimately show thesis by (rule closed)
  next
    case True
    then obtain res where res: "exploit_search iteration dg r = Inr res" "e = evidence_of dg r source_id source_digest res"
      using assms unfolding run by (auto simp: ebind_eq_Inr make_path_evidence_def)
    have "set (?closed ds) = {}"
    proof (rule ccontr)
      assume "set (?closed ds) \<noteq> {}"
      then have "dedupe_diagnostics (?closed ds) \<noteq> []" using dedupe_diagnostics_facts(1) by (metis set_empty)
      with cs True show False
        by (auto simp: bounded_fail_closed_diagnostics_def Let_def ebind_eq_Inr split: if_splits)
    qed
    then have "\<forall>d \<in> set ds. xd_code d \<notin> set FAIL_CLOSED_CODES" by auto
    from preflight_supported(1) [OF pre this]
    have "pq_allowed (ai_query r) \<noteq> [] \<Longrightarrow> allowed_transitions r = ag_transitions (ai_graph r)" .
    moreover have "analyze_exploit_path_input iteration' dg r source_id source_digest = Inr e"
      if "exploit_search iteration' dg r = Inr res" for iteration'
      using assms res(1) that True unfolding run by simp
    ultimately show thesis using res by (intro searched)
  qed
qed

lemma search_without_iteration:
  assumes "exploit_search iteration dg r = Inr res" and "sr_outcome res \<noteq> InvalidPath"
  shows "exploit_search iteration' dg r = Inr res"
proof (cases "sx_goal (search_context_of r) \<subseteq> sx_initial (search_context_of r)")
  case True
  then show ?thesis using assms(1) by (simp add: exploit_search_def Let_def)
next
  case False
  with assms(1) obtain v where v: "run_bounded_search dg (search_context_of r) (initial_accumulator (search_context_of r)) = Inr v"
    and rest: "(case v of Inl result \<Rightarrow> Inr result
      | Inr acc \<Rightarrow> invalid_search_result iteration (sx_goal (search_context_of r)) acc) = Inr res"
    by (auto simp: exploit_search_def Let_def ebind_eq_Inr)
  with assms(2) invalid_result_fields(1) have "v = Inl res" by (cases v) auto
  with False v show ?thesis by (simp add: exploit_search_def Let_def)
qed

lemma evidence_fields [simp]:
  "pe_outcome (evidence_of dg r source_id source_digest res) = sr_outcome res"
  "pe_witness (evidence_of dg r source_id source_digest res) = sr_witness res"
  "pe_failure (evidence_of dg r source_id source_digest res) = sr_failure res"
  "pe_source_digest (evidence_of dg r source_id source_digest res) = source_digest"
  by (simp_all add: evidence_of_def Let_def)

lemma analyzed_evidence_checked:
  assumes "analyze_exploit_path_input iteration dg r source_id source_digest = Inr e"
  shows "check_path_evidence dg e = Inr ()"
proof -
  have made: "make_path_evidence dg x = Inr y \<Longrightarrow> check_path_evidence dg y = Inr ()" for x y
    by (auto simp: make_path_evidence_def ebind_eq_Inr)
  show ?thesis
    using assms unfolding analyze_exploit_path_input_def
    by (auto simp: ebind_eq_Inr Let_def dest!: made split: if_splits)
qed

section \<open>A small attack graph\<close>

definition sample_digest :: "char \<Rightarrow> string" where
  "sample_digest c = ''sha256:'' @ replicate 64 c"

text \<open>A digest that tells two pieces of evidence apart by what they leave unsatisfied.\<close>

definition sample_dg :: "exploit_document \<Rightarrow> string" where
  "sample_dg doc =
     (case doc of
        EvidenceDocument e \<Rightarrow>
          (case pe_failure e of
             Some f \<Rightarrow> sample_digest (if pf_unsatisfied f = [''b''] then CHR ''1'' else CHR ''0'')
           | None \<Rightarrow> sample_digest CHR ''0'')
      | _ \<Rightarrow> sample_digest CHR ''0'')"

definition sample_transition :: "string \<Rightarrow> string \<Rightarrow> attack_transition" where
  "sample_transition tid effect =
     \<lparr>at_id = tid, at_kind = ExploitStep, at_semantics = SUPPORTED_TRANSITION_SEMANTICS, at_prerequisites = [''s''],
      at_effects = [effect], at_observations = []\<rparr>"

definition sample_fact :: "string \<Rightarrow> attack_fact" where
  "sample_fact i = \<lparr>af_id = i, af_kind = AccessFact, af_subject = ''host'', af_object = ''''\<rparr>"

definition sample_binding :: "string \<Rightarrow> string \<Rightarrow> string \<Rightarrow> attack_binding" where
  "sample_binding i kind target =
     \<lparr>ab_id = i, ab_concept = ''node'', ab_address = '''', ab_target_kind = kind, ab_target = target\<rparr>"

definition sample_graph :: attack_graph where
  "sample_graph =
     \<lparr>ag_snapshot = sample_digest CHR ''2'', ag_facts = map sample_fact [''a'', ''b'', ''s''],
      ag_transitions = [sample_transition ''t1'' ''a'', sample_transition ''t2'' ''b''],
      ag_bindings = [sample_binding ''k1'' ''state-fact'' ''a'', sample_binding ''k2'' ''state-fact'' ''b'',
        sample_binding ''k3'' ''state-fact'' ''s'', sample_binding ''k4'' ''transition'' ''t1'',
        sample_binding ''k5'' ''transition'' ''t2'']\<rparr>"

definition sample_input :: "int \<Rightarrow> analysis_input" where
  "sample_input depth =
     \<lparr>ai_scenario = JScalar ''1'', ai_authored = sample_digest CHR ''3'', ai_snapshot = sample_digest CHR ''2'',
      ai_graph = sample_graph,
      ai_query = \<lparr>pq_id = ''q'', pq_perspective = ''attacker'', pq_start = [''s''], pq_goal = [''a'', ''b''],
        pq_allowed = [SUPPORTED_TRANSITION_SEMANTICS], pq_depth = depth\<rparr>\<rparr>"

definition sample_sdl :: "json \<Rightarrow> string" where
  "sample_sdl scenario = sample_digest CHR ''2''"

abbreviation sample_analysis ::
    "(string set list \<Rightarrow> string set list) \<Rightarrow> int \<Rightarrow> exploit_error + path_evidence" where
  "sample_analysis iteration depth \<equiv>
     analyze_exploit_path_input iteration sample_dg (sample_input depth) ''scenario.yaml'' (sample_digest CHR ''4'')"

lemma sample_digest_ok: "digest_text (sample_dg doc)"
  by (cases doc) (auto simp: sample_dg_def sample_digest_def digest_text_def hex_char_def list_all_iff split: option.splits)

section \<open>Properties\<close>

text \<open>C16: the evidence of a valid path records a run of the attack graph from the start facts to a state
  with every goal fact; the run is no longer than the bound, and no run to the goal is shorter.\<close>

theorem valid_path_is_shortest:
  assumes "check_analysis_input sdl r = Inr ()"
    and "analyze_exploit_path_input iteration dg r source_id source_digest = Inr e"
    and "pe_outcome e = ValidPath"
  shows "\<exists>w path final. pe_witness e = Some w
    \<and> recorded_run dg (ag_transitions (ai_graph r)) (set (pq_start (ai_query r))) (pw_steps w) path final
    \<and> pw_initial w = pq_start (ai_query r) \<and> pw_final w = sorted_list_of_set final
    \<and> set (pq_goal (ai_query r)) \<subseteq> final
    \<and> int (length path) \<le> pq_depth (ai_query r)
    \<and> (\<forall>path' final'. attack_run (ag_transitions (ai_graph r)) (set (pq_start (ai_query r))) path' final' \<longrightarrow>
         set (pq_goal (ai_query r)) \<subseteq> final' \<longrightarrow> length path \<le> length path')"
proof -
  note q = checked_query [OF checked_input(2) [OF assms(1)]]
  from assms(2) show ?thesis
  proof (cases rule: analysis_cases)
    case (searched res)
    then have ctx: "sx_transitions (search_context_of r) = ag_transitions (ai_graph r)"
      using q(3) by (simp add: search_context_of_def)
    from exploit_search_correct [OF searched(2) q(1)] assms(3) searched(1)
    have "shortest_result dg (search_context_of r) res" by (auto simp: refused_result_def)
    moreover have "sorted_list_of_set (set (pq_start (ai_query r))) = pq_start (ai_query r)"
      using q(7,8) by (simp add: sorted_list_of_set.idem_if_sorted_distinct)
    ultimately show ?thesis
      unfolding shortest_result_def found_result_def ctx searched(1) evidence_fields
      by (auto simp: search_context_of_def)
  qed (use assms(3) in simp)
qed

theorem valid_path_is_shortest_witness:
  "\<exists>w path final. (\<exists>e. sample_analysis id 2 = Inr e \<and> pe_witness e = Some w)
    \<and> recorded_run sample_dg (ag_transitions sample_graph) {''s''} (pw_steps w) path final \<and> length path \<le> 2"
proof -
  have "check_analysis_input sample_sdl (sample_input 2) = Inr ()" by code_simp
  moreover have "map_sum id pe_outcome (sample_analysis id 2) = Inr ValidPath" by code_simp
  then obtain e where "sample_analysis id 2 = Inr e" "pe_outcome e = ValidPath"
    by (cases "sample_analysis id 2") auto
  ultimately show ?thesis
    using valid_path_is_shortest [of sample_sdl "sample_input 2" id sample_dg "''scenario.yaml''" "sample_digest CHR ''4''" e]
    by (fastforce simp: sample_input_def)
qed

text \<open>C17: the evidence of an invalid path excludes every run within the bound to the goal, and, when it does
  not say that the bound ended the search, every run of any length; and it names a goal fact that is missing.\<close>

theorem invalid_path_excludes_runs:
  assumes "check_analysis_input sdl r = Inr ()"
    and "analyze_exploit_path_input iteration dg r source_id source_digest = Inr e"
    and "pe_outcome e = InvalidPath"
  shows "\<exists>f. pe_failure e = Some f \<and> pf_unsatisfied f \<noteq> []
    \<and> (\<forall>path final. attack_run (ag_transitions (ai_graph r)) (set (pq_start (ai_query r))) path final \<longrightarrow>
         int (length path) \<le> pq_depth (ai_query r) \<or> \<not> pf_exhausted f \<longrightarrow>
         \<not> set (pq_goal (ai_query r)) \<subseteq> final)"
proof -
  note q = checked_query [OF checked_input(2) [OF assms(1)]]
  from assms(2) show ?thesis
  proof (cases rule: analysis_cases)
    case (searched res)
    then have ctx: "sx_transitions (search_context_of r) = ag_transitions (ai_graph r)"
      using q(3) by (simp add: search_context_of_def)
    from exploit_search_correct [OF searched(2) q(1)] assms(3) searched(1)
    have "sr_failure res \<noteq> None" "excludes_runs (search_context_of r) (pf_exhausted (the (sr_failure res)))"
      "check_path_failure (the (sr_failure res)) = Inr ()"
      by (auto simp: refused_result_def shortest_result_def found_result_def)
    then show ?thesis
      unfolding excludes_runs_def ctx searched(1) evidence_fields
      by (auto simp: search_context_of_def check_path_failure_def ebind_eq_Inr)
  qed (use assms(3) in simp)
qed

theorem invalid_path_excludes_runs_witness:
  "\<exists>e f. sample_analysis id 1 = Inr e \<and> pe_failure e = Some f \<and> pf_exhausted f
    \<and> (\<forall>path final. attack_run (ag_transitions sample_graph) {''s''} path final \<longrightarrow> length path \<le> 1 \<longrightarrow>
         \<not> {''a'', ''b''} \<subseteq> final)"
proof -
  have "check_analysis_input sample_sdl (sample_input 1) = Inr ()" by code_simp
  moreover have "map_sum id (\<lambda>e. (pe_outcome e, map_option pf_exhausted (pe_failure e))) (sample_analysis id 1)
      = Inr (InvalidPath, Some True)" by code_simp
  then obtain e where "sample_analysis id 1 = Inr e" "pe_outcome e = InvalidPath" "map_option pf_exhausted (pe_failure e) = Some True"
    by (cases "sample_analysis id 1") auto
  ultimately show ?thesis
    using invalid_path_excludes_runs [of sample_sdl "sample_input 1" id sample_dg "''scenario.yaml''" "sample_digest CHR ''4''" e]
    by (fastforce simp: sample_input_def)
qed

text \<open>C18: the analysis of an admitted input never raises: for a portable source it returns evidence, and the
  evidence passes every check of its own contract (field patterns, sizes, digests, payload and reasons).\<close>

theorem analysis_always_returns_evidence:
  assumes "check_analysis_input sdl r = Inr ()" and "\<forall>doc. digest_text (dg doc)"
    and "check_source_identity source_id source_digest = Inr ()" and "iteration_order iteration"
  shows "\<exists>e. analyze_exploit_path_input iteration dg r source_id source_digest = Inr e \<and> check_path_evidence dg e = Inr ()"
proof -
  obtain e where e: "analyze_exploit_path_input iteration dg r source_id source_digest = Inr e"
    using analysis_returns [OF assms] by (auto simp: returns_iff)
  moreover from e have "check_path_evidence dg e = Inr ()"
    by (rule analyzed_evidence_checked)
  ultimately show ?thesis by blast
qed

theorem analysis_always_returns_evidence_witness:
  "\<exists>e. sample_analysis rev 1 = Inr e \<and> check_path_evidence sample_dg e = Inr ()"
proof (rule analysis_always_returns_evidence)
  show "check_analysis_input sample_sdl (sample_input 1) = Inr ()" by code_simp
  show "\<forall>doc. digest_text (sample_dg doc)" using sample_digest_ok by blast
  show "check_source_identity ''scenario.yaml'' (sample_digest CHR ''4'') = Inr ()" by code_simp
  show "iteration_order rev" by (simp add: iteration_order_def)
qed

text \<open>C19: when the outcome is not an invalid path, replay accepts exactly the evidence whose digest is that of
  the analysis, in any process, whatever the order in which that process iterates a set.\<close>

theorem replay_accepts_exactly_the_analysis:
  assumes "analyze_exploit_path_input iteration dg r source_id source_digest = Inr e" and "pe_outcome e \<noteq> InvalidPath"
  shows "replay_exploit_path_evidence iteration' dg r source_id source_digest evidence = Inr replayed \<longleftrightarrow>
    pe_source_digest evidence = source_digest \<and> dg (EvidenceDocument evidence) = dg (EvidenceDocument e) \<and> replayed = e"
proof -
  from assms(1) have "analyze_exploit_path_input iteration' dg r source_id source_digest = Inr e"
  proof (cases rule: analysis_cases)
    case (closed res)
    show ?thesis by (rule closed(3))
  next
    case (searched res)
    have "sr_outcome res \<noteq> InvalidPath" using assms(2) searched(1) by simp
    from search_without_iteration [OF searched(2) this] show ?thesis by (rule searched(4))
  qed
  then show ?thesis
    by (auto simp: replay_exploit_path_evidence_def ebind_eq_Inr require_eq_Inr)
qed

theorem replay_accepts_exactly_the_analysis_witness:
  "\<exists>e. sample_analysis id 2 = Inr e
    \<and> replay_exploit_path_evidence rev sample_dg (sample_input 2) ''scenario.yaml'' (sample_digest CHR ''4'') e = Inr e"
proof -
  have "map_sum id (\<lambda>e. (pe_outcome e, pe_source_digest e)) (sample_analysis id 2) = Inr (ValidPath, sample_digest CHR ''4'')"
    by code_simp
  then obtain e where e: "sample_analysis id 2 = Inr e" "pe_outcome e = ValidPath" "pe_source_digest e = sample_digest CHR ''4''"
    by (cases "sample_analysis id 2") auto
  with replay_accepts_exactly_the_analysis [OF e(1), of rev e e] show ?thesis by simp
qed

text \<open>C20: for an invalid path the unsatisfied goal depends on the order in which Python iterates the set of
  visited states: two iteration orders exist under which the evidence of one is refused by the replay of the other.\<close>

theorem replay_can_refuse_genuine_evidence:
  "\<exists>iteration iteration' sdl dg r source_id source_digest e.
     iteration_order iteration \<and> iteration_order iteration' \<and> check_analysis_input sdl r = Inr ()
     \<and> (\<forall>doc. digest_text (dg doc)) \<and> check_source_identity source_id source_digest = Inr ()
     \<and> analyze_exploit_path_input iteration dg r source_id source_digest = Inr e
     \<and> replay_exploit_path_evidence iteration' dg r source_id source_digest e = Inl NotReproduced"
proof -
  have "iteration_order id" "iteration_order rev" by (simp_all add: iteration_order_def)
  moreover have "check_analysis_input sample_sdl (sample_input 1) = Inr ()"
    "check_source_identity ''scenario.yaml'' (sample_digest CHR ''4'') = Inr ()" by code_simp+
  moreover have "ebind (sample_analysis id 1) (replay_exploit_path_evidence rev sample_dg (sample_input 1)
      ''scenario.yaml'' (sample_digest CHR ''4'')) = Inl NotReproduced" by code_simp
  then have "\<exists>e. sample_analysis id 1 = Inr e \<and> replay_exploit_path_evidence rev sample_dg (sample_input 1)
      ''scenario.yaml'' (sample_digest CHR ''4'') e = Inl NotReproduced"
  proof -
    have "map_sum id (\<lambda>_. ()) (sample_analysis id 1) = Inr ()" by code_simp
    with \<open>ebind _ _ = Inl NotReproduced\<close> show ?thesis by (cases "sample_analysis id 1") auto
  qed
  ultimately show ?thesis using sample_digest_ok by blast
qed

end
