(* ===== verification/OpacityContracts.thy ===== *)
theory OpacityContracts
  imports ExploitModel
begin

text \<open>
  Participant opacity, the contracts that the analyses consume: bounded claims
  (raes_contracts/behavioral_claims.py), the opacity parameters of a relation profile
  (behavioral_relation_profiles.py), the binding of a claim to a catalog and a profile
  (behavioral_relations.py), the finite transition model (_participant_opacity_model.py) and the
  finite carrier of points (participant_opacity.py).

  A validator of pydantic is a predicate: it holds for the values that the contract admits. Every
  function that constructs a contract value requires it and raises \<open>ContractViolation\<close>
  (\<open>ValidationError\<close>) otherwise. Texts that no check reads are kept as one text per document.
\<close>

datatype opacity_error =
    ContractViolation \<comment> \<open>pydantic ValidationError\<close>
  | OperationalRefusal \<comment> \<open>ParticipantOpacityOperationalError\<close>
  | EvidenceMismatch \<comment> \<open>ParticipantOpacityEvidenceError\<close>
  | MissingAttribute \<comment> \<open>AttributeError: an attribute of None is read\<close>
  | MissingKey \<comment> \<open>KeyError\<close>
  | PathUnbounded \<comment> \<open>the walk along the parents has taken more steps than there are parents\<close>

section \<open>Constrained values\<close>

definition MAX_OPACITY_POINTS :: nat where "MAX_OPACITY_POINTS = 100000"

definition MAX_OPACITY_DIAGNOSTICS :: nat where "MAX_OPACITY_DIAGNOSTICS = 64"

definition MAX_OPACITY_MODEL_STATES :: nat where "MAX_OPACITY_MODEL_STATES = 100000"

definition MAX_OPACITY_MODEL_TRANSITIONS :: nat where "MAX_OPACITY_MODEL_TRANSITIONS = 200000"

definition NORMALIZED_INPUT_PROVENANCE_NONCLAIM :: string where
  "NORMALIZED_INPUT_PROVENANCE_NONCLAIM =
     ''No source or materializer authenticity is established by this normalized-input evidence.''"

definition MODEL_CHECK_PROVENANCE_NONCLAIM :: string where
  "MODEL_CHECK_PROVENANCE_NONCLAIM =
     ''No source or materializer authenticity is established by this normalized-model evidence.''"

definition ref_char :: "char \<Rightarrow> bool" where
  "ref_char c \<longleftrightarrow> lower_letter c \<or> is_digit c \<or> c \<in> {CHR ''.'', CHR ''_'', CHR '':'', CHR ''/'', CHR ''-''}"

definition safe_ref :: "string \<Rightarrow> bool" where
  "safe_ref s \<longleftrightarrow> length s \<le> 256 \<and> s \<noteq> [] \<and> lower_letter (hd s) \<and> list_all ref_char (tl s)"

definition safe_key :: "string \<Rightarrow> bool" where
  "safe_key s \<longleftrightarrow>
     length s \<le> 256 \<and> s \<noteq> [] \<and> lower_letter (hd s) \<and> list_all (\<lambda>c. ref_char c \<or> c = CHR ''|'') (tl s)"

definition revision_text :: "string \<Rightarrow> bool" where
  "revision_text s \<longleftrightarrow>
     length s \<le> 128 \<and> s \<noteq> [] \<and> (lower_letter (hd s) \<or> is_digit (hd s))
     \<and> list_all (\<lambda>c. lower_letter c \<or> is_digit c \<or> c \<in> {CHR ''.'', CHR ''_'', CHR ''/'', CHR ''-''}) (tl s)"

definition revision_name :: "string \<Rightarrow> bool" where
  "revision_name s \<longleftrightarrow>
     s \<noteq> [] \<and> (lower_letter (hd s) \<or> is_digit (hd s))
     \<and> list_all (\<lambda>c. lower_letter c \<or> is_digit c \<or> c \<in> {CHR ''.'', CHR ''-''}) (tl s)"

definition profile_name :: "string \<Rightarrow> bool" where
  "profile_name s \<longleftrightarrow>
     length s \<le> 64 \<and> list_all (\<lambda>part. part \<noteq> [] \<and> list_all (\<lambda>c. lower_letter c \<or> is_digit c) part) (py_split CHR ''-'' s)"

definition sized :: "nat \<Rightarrow> nat \<Rightarrow> 'a list \<Rightarrow> bool" where
  "sized lo hi xs \<longleftrightarrow> lo \<le> length xs \<and> length xs \<le> hi"

definition ref_list :: "nat \<Rightarrow> nat \<Rightarrow> string list \<Rightarrow> bool" where
  "ref_list lo hi xs \<longleftrightarrow> sized lo hi xs \<and> list_all safe_ref xs"

definition source_valid :: "string \<Rightarrow> string \<Rightarrow> bool" where
  "source_valid source_id digest \<longleftrightarrow> check_source_identity source_id digest = Inr ()"

section \<open>Claims\<close>

datatype quantifier_scope =
  SingleArtifact | FiniteCases | SampledPopulation | AllAdmittedInputs | AllTraces | AllStrategies

datatype evidence_scope = StructuralEvidence | FiniteEvidence | StatisticalEvidence | ModelCheckEvidence | ProofEvidence

datatype assurance_axis =
    DefinitionAxis | CheckerAxis | BoundedTestAxis | ModelCheckAxis | ProofAxis | RuntimeEnforcementAxis
  | BackendDeclarationAxis | BackendRealizationAxis | BackendConformanceAxis

datatype assurance_status =
  Defined | Implemented | Tested | ModelChecked | Proved | DeliberatelyUnproved | Future | Enforced | Declared | Realized | Conformant

record behavioral_claim =
  cl_taxonomy :: string
  cl_taxonomy_revision :: string
  cl_relation :: string
  cl_subject :: string
  cl_left :: "string option"
  cl_right :: "string option"
  cl_projection :: "string option"
  cl_projection_revision :: "string option"
  cl_profile :: "string option"
  cl_profile_revision :: "string option"
  cl_quantifier :: quantifier_scope
  cl_evidence :: evidence_scope
  cl_axis :: "assurance_axis option"
  cl_boundary :: string
  cl_status :: assurance_status
  cl_evidence_refs :: "string list"
  cl_limitations :: "string list"
  cl_non_claims :: "string list"

fun ASSURANCE_AXIS_RULES :: "assurance_axis \<Rightarrow> assurance_status \<times> evidence_scope list" where
  "ASSURANCE_AXIS_RULES DefinitionAxis = (Defined, [StructuralEvidence])"
| "ASSURANCE_AXIS_RULES CheckerAxis = (Implemented, [StructuralEvidence, FiniteEvidence])"
| "ASSURANCE_AXIS_RULES BoundedTestAxis = (Tested, [FiniteEvidence])"
| "ASSURANCE_AXIS_RULES ModelCheckAxis = (ModelChecked, [ModelCheckEvidence])"
| "ASSURANCE_AXIS_RULES ProofAxis = (Proved, [ProofEvidence])"
| "ASSURANCE_AXIS_RULES RuntimeEnforcementAxis = (Enforced, [StructuralEvidence, FiniteEvidence])"
| "ASSURANCE_AXIS_RULES BackendDeclarationAxis = (Declared, [StructuralEvidence])"
| "ASSURANCE_AXIS_RULES BackendRealizationAxis = (Realized, [StructuralEvidence, FiniteEvidence])"
| "ASSURANCE_AXIS_RULES BackendConformanceAxis = (Conformant, [FiniteEvidence, StatisticalEvidence])"

definition quantifier_evidence_valid :: "behavioral_claim \<Rightarrow> bool" where
  "quantifier_evidence_valid c \<longleftrightarrow>
     (cl_quantifier c \<in> {AllAdmittedInputs, AllTraces, AllStrategies} \<longrightarrow> cl_evidence c \<in> {ModelCheckEvidence, ProofEvidence})"

definition explicit_axis_valid :: "behavioral_claim \<Rightarrow> bool" where
  "explicit_axis_valid c \<longleftrightarrow>
     (case cl_axis c of
        None \<Rightarrow> True
      | Some axis \<Rightarrow>
          (case ASSURANCE_AXIS_RULES axis of (status, allowed) \<Rightarrow>
             if cl_status c = Future \<or> axis = ProofAxis \<and> cl_status c = DeliberatelyUnproved
             then cl_evidence c = StructuralEvidence
             else cl_status c = status \<and> cl_evidence c \<in> set allowed))"

definition unscoped_assurance_valid :: "behavioral_claim \<Rightarrow> bool" where
  "unscoped_assurance_valid c \<longleftrightarrow>
     cl_axis c \<noteq> None
     \<or> cl_status c \<notin> {Enforced, Declared, Realized, Conformant}
       \<and> (cl_status c = Proved \<longrightarrow> cl_evidence c = ProofEvidence)
       \<and> (cl_status c = ModelChecked \<longrightarrow> cl_evidence c = ModelCheckEvidence)"

definition coordinate_pair_valid :: "string option \<Rightarrow> string option \<Rightarrow> bool" where
  "coordinate_pair_valid ref revision \<longleftrightarrow> (ref = None) = (revision = None)"

definition optional_text :: "string option \<Rightarrow> bool" where
  "optional_text v \<longleftrightarrow> v \<noteq> Some []"

definition claim_valid :: "behavioral_claim \<Rightarrow> bool" where
  "claim_valid c \<longleftrightarrow>
     cl_taxonomy c \<noteq> [] \<and> revision_name (cl_taxonomy_revision c) \<and> kebab (cl_relation c) \<and> cl_subject c \<noteq> []
     \<and> list_all optional_text [cl_left c, cl_right c, cl_projection c, cl_projection_revision c, cl_profile c, cl_profile_revision c]
     \<and> cl_boundary c \<noteq> [] \<and> list_all (\<lambda>t. t \<noteq> []) (cl_evidence_refs c @ cl_limitations c @ cl_non_claims c)
     \<and> cl_limitations c \<noteq> [] \<and> cl_non_claims c \<noteq> []
     \<and> quantifier_evidence_valid c \<and> explicit_axis_valid c \<and> unscoped_assurance_valid c
     \<and> coordinate_pair_valid (cl_projection c) (cl_projection_revision c)
     \<and> coordinate_pair_valid (cl_profile c) (cl_profile_revision c)"

section \<open>Opacity parameters of a relation profile\<close>

definition canonical_refs :: "string list \<Rightarrow> bool" where
  "canonical_refs values \<longleftrightarrow> sorted_unique values"

datatype opacity_observer =
    IndividualObserver string string \<comment> \<open>participant and audience\<close>
  | CoalitionObserver "string list" string string string \<comment> \<open>members, audience, fusion rule and its revision\<close>

fun observer_valid :: "opacity_observer \<Rightarrow> bool" where
  "observer_valid (IndividualObserver participant audience) \<longleftrightarrow> safe_ref participant \<and> safe_ref audience"
| "observer_valid (CoalitionObserver members audience fusion revision) \<longleftrightarrow>
     ref_list 2 32 members \<and> safe_ref audience \<and> safe_ref fusion \<and> revision_text revision \<and> canonical_refs members"

datatype opacity_carrier =
    FiniteCarrier string string \<comment> \<open>reachability and its revision\<close>
  | AbstractCarrier string string string string string string
      \<comment> \<open>reachability, eligibility and correspondence, each with its revision\<close>

fun carrier_valid :: "opacity_carrier \<Rightarrow> bool" where
  "carrier_valid (FiniteCarrier ref revision) \<longleftrightarrow> safe_ref ref \<and> revision_text revision"
| "carrier_valid (AbstractCarrier ref revision eligibility e_revision correspondence c_revision) \<longleftrightarrow>
     safe_ref ref \<and> revision_text revision \<and> safe_ref eligibility \<and> revision_text e_revision
     \<and> safe_ref correspondence \<and> revision_text c_revision"

datatype observable_channel =
    ParticipantStateChannel | PayloadChannel | DecisionChannel | ActionAvailabilityChannel | DeliveryChannel
  | RetryChannel | LatencyChannel | OrderChannel | PolicyReleaseChannel

fun channel_text :: "observable_channel \<Rightarrow> string" where
  "channel_text ParticipantStateChannel = ''participant-state''"
| "channel_text PayloadChannel = ''payload''"
| "channel_text DecisionChannel = ''decision''"
| "channel_text ActionAvailabilityChannel = ''action-availability''"
| "channel_text DeliveryChannel = ''delivery''"
| "channel_text RetryChannel = ''retry''"
| "channel_text LatencyChannel = ''latency''"
| "channel_text OrderChannel = ''order''"
| "channel_text PolicyReleaseChannel = ''policy-release''"

datatype supervisor_decisions = FullyKnown | PublicContractHiddenRealization | OnlineLearned | SelectivelyDisclosed

record opacity_observation =
  ob_projection :: string
  ob_revision :: string
  ob_channels :: "observable_channel list"
  ob_supervisor :: supervisor_decisions

definition observation_valid :: "opacity_observation \<Rightarrow> bool" where
  "observation_valid ob \<longleftrightarrow>
     safe_ref (ob_projection ob) \<and> revision_text (ob_revision ob) \<and> sized 1 16 (ob_channels ob)
     \<and> canonical_refs (map channel_text (ob_channels ob))"

datatype horizon_scope = CurrentHorizon | InitialHorizon | HistoricalHorizon | LanguageHorizon

record opacity_horizon =
  hz_scope :: horizon_scope
  hz_cut :: string
  hz_cut_revision :: string
  hz_steps :: "int option"

definition horizon_valid :: "opacity_horizon \<Rightarrow> bool" where
  "horizon_valid h \<longleftrightarrow>
     safe_ref (hz_cut h) \<and> revision_text (hz_cut_revision h)
     \<and> (case hz_steps h of None \<Rightarrow> True | Some n \<Rightarrow> 1 \<le> n \<and> n \<le> 1024)
     \<and> (hz_scope h = HistoricalHorizon) = (hz_steps h \<noteq> None)"

datatype memory_retention = PerfectMemory | CrossEpisodeMemory | EpisodeLocalMemory | CutLocalMemory

record opacity_memory =
  my_retention :: memory_retention
  my_ref :: string
  my_revision :: string
  my_reset :: "string option"
  my_reset_revision :: "string option"

definition optional_ref :: "(string \<Rightarrow> bool) \<Rightarrow> string option \<Rightarrow> bool" where
  "optional_ref valid v \<longleftrightarrow> (case v of None \<Rightarrow> True | Some s \<Rightarrow> valid s)"

definition memory_valid :: "opacity_memory \<Rightarrow> bool" where
  "memory_valid m \<longleftrightarrow>
     safe_ref (my_ref m) \<and> revision_text (my_revision m) \<and> optional_ref safe_ref (my_reset m)
     \<and> optional_ref revision_text (my_reset_revision m) \<and> (my_reset m = None) = (my_reset_revision m = None)"

datatype opacity_strategy = PassiveStrategy | ActiveStrategy "string list"

fun strategy_valid :: "opacity_strategy \<Rightarrow> bool" where
  "strategy_valid PassiveStrategy \<longleftrightarrow> True"
| "strategy_valid (ActiveStrategy refs) \<longleftrightarrow> ref_list 1 64 refs \<and> canonical_refs refs"

record opacity_release =
  rl_schedule :: string
  rl_revision :: string
  rl_exact :: bool

datatype order_treatment = TotalOrder | NamedLinearization | AllLinearizations | PartialOrder | CausalFrontier

record opacity_order =
  od_treatment :: order_treatment
  od_refs :: "string list"

record opacity_time =
  tm_absence :: bool
  tm_basis :: "string option"
  tm_basis_revision :: "string option"

definition opacity_time_valid :: "opacity_time \<Rightarrow> bool" where
  "opacity_time_valid t \<longleftrightarrow>
     optional_ref safe_ref (tm_basis t) \<and> optional_ref revision_text (tm_basis_revision t)
     \<and> (tm_basis t = None) = (tm_basis_revision t = None)
     \<and> \<not> (tm_absence t \<and> tm_basis t = None) \<and> \<not> (\<not> tm_absence t \<and> tm_basis t \<noteq> None)"

record opacity_bounds =
  bn_points :: int
  bn_runs :: int
  bn_cuts :: int
  bn_strategies :: int
  bn_pairs :: int
  bn_orders :: int

definition bounds_valid :: "opacity_bounds \<Rightarrow> bool" where
  "bounds_valid b \<longleftrightarrow>
     1 \<le> bn_points b \<and> bn_points b \<le> 100000 \<and> 1 \<le> bn_runs b \<and> bn_runs b \<le> 10000
     \<and> 1 \<le> bn_cuts b \<and> bn_cuts b \<le> 10000 \<and> 1 \<le> bn_strategies b \<and> bn_strategies b \<le> 1000
     \<and> 1 \<le> bn_pairs b \<and> bn_pairs b \<le> 10000 \<and> 1 \<le> bn_orders b \<and> bn_orders b \<le> 1000"

record opacity_parameters =
  op_observer :: opacity_observer
  op_secret :: "string \<times> string" \<comment> \<open>predicate and revision\<close>
  op_carrier :: opacity_carrier
  op_initial :: "string \<times> string" \<comment> \<open>projection and revision\<close>
  op_observation :: opacity_observation
  op_horizon :: opacity_horizon
  op_memory :: opacity_memory
  op_strategy :: opacity_strategy
  op_release :: opacity_release
  op_schedulers :: "string list"
  op_environments :: "string list"
  op_order :: opacity_order
  op_time :: opacity_time
  op_bounds :: "opacity_bounds option"

definition finite_carrier :: "opacity_carrier \<Rightarrow> bool" where
  "finite_carrier c \<longleftrightarrow> (case c of FiniteCarrier _ _ \<Rightarrow> True | _ \<Rightarrow> False)"

definition strategy_count :: "opacity_strategy \<Rightarrow> nat" where
  "strategy_count s = (case s of ActiveStrategy refs \<Rightarrow> length refs | PassiveStrategy \<Rightarrow> 1)"

definition parameter_domains_valid :: "opacity_parameters \<Rightarrow> bool" where
  "parameter_domains_valid p \<longleftrightarrow>
     canonical_refs (op_schedulers p) \<and> canonical_refs (op_environments p)
     \<and> \<not> (finite_carrier (op_carrier p) \<and> op_bounds p = None)
     \<and> \<not> (\<not> finite_carrier (op_carrier p) \<and> op_bounds p \<noteq> None)
     \<and> (case op_bounds p of
          None \<Rightarrow> True
        | Some b \<Rightarrow>
            int (strategy_count (op_strategy p)) \<le> bn_strategies b
            \<and> int (length (od_refs (op_order p))) \<le> bn_orders b
            \<and> int (length (op_schedulers p) * length (op_environments p)) \<le> bn_pairs b)"

definition parameters_valid :: "opacity_parameters \<Rightarrow> bool" where
  "parameters_valid p \<longleftrightarrow>
     observer_valid (op_observer p)
     \<and> safe_ref (fst (op_secret p)) \<and> revision_text (snd (op_secret p)) \<and> carrier_valid (op_carrier p)
     \<and> safe_ref (fst (op_initial p)) \<and> revision_text (snd (op_initial p)) \<and> observation_valid (op_observation p)
     \<and> horizon_valid (op_horizon p) \<and> memory_valid (op_memory p) \<and> strategy_valid (op_strategy p)
     \<and> safe_ref (rl_schedule (op_release p)) \<and> revision_text (rl_revision (op_release p))
     \<and> ref_list 1 64 (op_schedulers p) \<and> ref_list 1 64 (op_environments p)
     \<and> ref_list 1 64 (od_refs (op_order p)) \<and> canonical_refs (od_refs (op_order p))
     \<and> opacity_time_valid (op_time p)
     \<and> (case op_bounds p of None \<Rightarrow> True | Some b \<Rightarrow> bounds_valid b)
     \<and> parameter_domains_valid p"

text \<open>A profile of a crossing relation is known here only by its right model.\<close>

datatype profile_parameters =
  OpacityParameters opacity_parameters | CrossingParameters string | MultiCrossingParameters string

record relation_profile =
  pr_id :: string
  pr_revision :: string
  pr_taxonomy :: string
  pr_taxonomy_revision :: string
  pr_relation :: string
  pr_left :: string
  pr_projection :: string
  pr_projection_revision :: string
  pr_declared_finite :: bool \<comment> \<open>the analysis scope is declared-complete-finite-carrier\<close>
  pr_parameters :: profile_parameters
  pr_sources :: "(string \<times> string option) list"
  pr_limitations :: "string list"
  pr_non_claims :: "string list"

definition OPACITY_RELATION :: string where "OPACITY_RELATION = ''participant-predicate-opacity''"

definition TAXONOMY_ID :: string where "TAXONOMY_ID = ''raes-behavioral-relations''"

text \<open>The contract of a profile with opacity parameters.\<close>

definition opacity_profile_valid :: "relation_profile \<Rightarrow> opacity_parameters \<Rightarrow> bool" where
  "opacity_profile_valid pr p \<longleftrightarrow>
     pr_parameters pr = OpacityParameters p \<and> parameters_valid p
     \<and> profile_name (pr_id pr) \<and> revision_text (pr_revision pr) \<and> pr_taxonomy pr = TAXONOMY_ID
     \<and> revision_name (pr_taxonomy_revision pr) \<and> safe_ref (pr_left pr) \<and> safe_ref (pr_projection pr)
     \<and> revision_text (pr_projection_revision pr)
     \<and> sized 1 16 (pr_sources pr)
     \<and> list_all (\<lambda>(ref, digest). safe_ref ref \<and> optional_ref digest_text digest) (pr_sources pr)
     \<and> sized 1 32 (pr_limitations pr) \<and> sized 1 32 (pr_non_claims pr)
     \<and> list_all (\<lambda>t. t \<noteq> []) (pr_limitations pr @ pr_non_claims pr)
     \<and> canonical_refs (map fst (pr_sources pr))
     \<and> pr_relation pr = OPACITY_RELATION
     \<and> ob_projection (op_observation p) = pr_projection pr \<and> ob_revision (op_observation p) = pr_projection_revision pr
     \<and> finite_carrier (op_carrier p) = pr_declared_finite pr"

section \<open>Binding a claim to a catalog and a profile\<close>

text \<open>Of a relation of the catalog, what the binding reads; the rest of the catalog is one text.\<close>

record relation_definition =
  rd_projection_required :: bool
  rd_profile_required :: bool

record relation_catalog =
  ct_taxonomy :: string
  ct_revision :: string
  ct_relations :: "(string, relation_definition) dict"
  ct_body :: string

definition resolve_binding_relation :: "behavioral_claim \<Rightarrow> relation_catalog \<Rightarrow> opacity_error + relation_definition" where
  "resolve_binding_relation c catalog =
     ebind (require (cl_taxonomy c = ct_taxonomy catalog) ContractViolation) (\<lambda>_.
     ebind (require (cl_taxonomy_revision c = ct_revision catalog) ContractViolation) (\<lambda>_.
       case dget (ct_relations catalog) (cl_relation c) of
         None \<Rightarrow> Inl ContractViolation
       | Some relation \<Rightarrow> Inr relation))"

definition check_binding_requirements :: "behavioral_claim \<Rightarrow> relation_definition \<Rightarrow> opacity_error + unit" where
  "check_binding_requirements c relation =
     ebind (require (\<not> (rd_projection_required relation \<and> cl_projection c = None)) ContractViolation) (\<lambda>_.
     ebind (require (\<not> (rd_profile_required relation \<and> cl_profile c = None)) ContractViolation) (\<lambda>_.
       require (\<not> (rd_profile_required relation \<and> cl_axis c = None)) ContractViolation))"

definition check_binding_profile ::
    "behavioral_claim \<Rightarrow> relation_catalog \<Rightarrow> relation_profile \<Rightarrow> opacity_error + unit" where
  "check_binding_profile c catalog pr =
     ebind (case pr_parameters pr of
        OpacityParameters _ \<Rightarrow> Inr ()
      | CrossingParameters right \<Rightarrow> require (cl_right c = Some right) ContractViolation
      | MultiCrossingParameters right \<Rightarrow> require (cl_right c = Some right) ContractViolation) (\<lambda>_.
     echeck (\<lambda>(profile_value, binding_value). require (profile_value = binding_value) ContractViolation)
       [(Some (pr_id pr), cl_profile c), (Some (pr_revision pr), cl_profile_revision c),
        (Some (pr_taxonomy pr), Some (cl_taxonomy c)), (Some (pr_taxonomy_revision pr), Some (cl_taxonomy_revision c)),
        (Some (pr_taxonomy pr), Some (ct_taxonomy catalog)), (Some (pr_taxonomy_revision pr), Some (ct_revision catalog)),
        (Some (pr_relation pr), Some (cl_relation c)), (Some (pr_left pr), cl_left c),
        (Some (pr_projection pr), cl_projection c), (Some (pr_projection_revision pr), cl_projection_revision c)])"

text \<open>With the catalog and the profile given, as both analyses call it; the loading of a packaged
  revision is the caller's.\<close>

definition check_claim_binding ::
    "behavioral_claim \<Rightarrow> relation_catalog \<Rightarrow> relation_profile \<Rightarrow> opacity_error + unit" where
  "check_claim_binding c catalog pr =
     ebind (resolve_binding_relation c catalog) (\<lambda>relation.
     ebind (check_binding_requirements c relation) (\<lambda>_.
       if rd_profile_required relation then check_binding_profile c catalog pr else Inl ContractViolation))"

section \<open>The finite transition model\<close>

record model_state =
  ms_ordinal :: nat
  ms_ref :: string
  ms_run :: string
  ms_cut :: string
  ms_strategy :: string
  ms_scheduler :: string
  ms_environment :: string
  ms_order :: string
  ms_evaluation :: bool
  ms_secret :: bool
  ms_initial_key :: string
  ms_observation_key :: string
  ms_memory_key :: string
  ms_release_key :: string
  ms_coalition_key :: "string option"

definition model_state_valid :: "model_state \<Rightarrow> bool" where
  "model_state_valid s \<longleftrightarrow>
     ms_ordinal s < MAX_OPACITY_MODEL_STATES
     \<and> list_all safe_ref [ms_ref s, ms_run s, ms_cut s, ms_strategy s, ms_scheduler s, ms_environment s, ms_order s]
     \<and> list_all safe_key [ms_initial_key s, ms_observation_key s, ms_memory_key s, ms_release_key s]
     \<and> optional_ref safe_key (ms_coalition_key s)"

record model_transition =
  mt_ordinal :: nat
  mt_ref :: string
  mt_source :: nat
  mt_target :: nat
  mt_action :: string
  mt_event :: string

definition model_transition_valid :: "model_transition \<Rightarrow> bool" where
  "model_transition_valid t \<longleftrightarrow>
     mt_ordinal t < MAX_OPACITY_MODEL_TRANSITIONS \<and> safe_ref (mt_ref t)
     \<and> mt_source t < MAX_OPACITY_MODEL_STATES \<and> mt_target t < MAX_OPACITY_MODEL_STATES
     \<and> safe_ref (mt_action t) \<and> safe_key (mt_event t)"

record model_assumptions =
  as_active :: bool
  as_strategies :: "string list"
  as_schedulers :: "string list"
  as_environments :: "string list"
  as_treatment :: order_treatment
  as_orders :: "string list"
  as_cut :: string

definition assumptions_valid :: "model_assumptions \<Rightarrow> bool" where
  "assumptions_valid a \<longleftrightarrow>
     list_all (\<lambda>refs. ref_list 1 64 refs \<and> canonical_refs refs)
       [as_strategies a, as_schedulers a, as_environments a, as_orders a]
     \<and> safe_ref (as_cut a)"

record model_counts =
  mc_states :: nat
  mc_transitions :: nat
  mc_initial :: nat
  mc_evaluation :: nat
  mc_runs :: nat
  mc_cuts :: nat
  mc_strategies :: nat
  mc_pairs :: nat
  mc_orders :: nat

definition model_counts_valid :: "model_counts \<Rightarrow> bool" where
  "model_counts_valid n \<longleftrightarrow>
     1 \<le> mc_states n \<and> mc_states n \<le> MAX_OPACITY_MODEL_STATES \<and> mc_transitions n \<le> MAX_OPACITY_MODEL_TRANSITIONS
     \<and> 1 \<le> mc_initial n \<and> mc_initial n \<le> MAX_OPACITY_MODEL_STATES
     \<and> 1 \<le> mc_evaluation n \<and> mc_evaluation n \<le> MAX_OPACITY_MODEL_STATES
     \<and> 1 \<le> mc_runs n \<and> mc_runs n \<le> MAX_OPACITY_MODEL_STATES \<and> 1 \<le> mc_cuts n \<and> mc_cuts n \<le> MAX_OPACITY_MODEL_STATES
     \<and> 1 \<le> mc_strategies n \<and> mc_strategies n \<le> 1000 \<and> 1 \<le> mc_pairs n \<and> mc_pairs n \<le> 10000
     \<and> 1 \<le> mc_orders n \<and> mc_orders n \<le> 1000"

record model_input =
  mi_source :: string
  mi_source_digest :: string
  mi_catalog_digest :: string
  mi_profile :: string
  mi_profile_revision :: string
  mi_profile_digest :: string
  mi_ref :: string
  mi_revision :: string
  mi_materializer :: string
  mi_materializer_version :: string
  mi_materializer_digest :: string
  mi_complete :: bool
  mi_assumptions :: model_assumptions
  mi_counts :: model_counts
  mi_initial :: "int list"
  mi_states :: "model_state list"
  mi_transitions :: "model_transition list"
  mi_claim :: behavioral_claim

definition model_identities_valid :: "model_input \<Rightarrow> bool" where
  "model_identities_valid r \<longleftrightarrow>
     map ms_ordinal (mi_states r) = [0..<length (mi_states r)]
     \<and> map mt_ordinal (mi_transitions r) = [0..<length (mi_transitions r)]
     \<and> distinct (map ms_ref (mi_states r)) \<and> distinct (map mt_ref (mi_transitions r))
     \<and> sorted_unique (mi_initial r)
     \<and> list_all (\<lambda>i. 0 \<le> i \<and> i < int (length (mi_states r))) (mi_initial r)"

type_synonym model_domain = "string \<times> string \<times> string \<times> string"

definition state_domain :: "model_state \<Rightarrow> model_domain" where
  "state_domain s = (ms_strategy s, ms_scheduler s, ms_environment s, ms_order s)"

definition model_transitions_valid :: "model_input \<Rightarrow> bool" where
  "model_transitions_valid r \<longleftrightarrow>
     list_all (\<lambda>t. mt_source t < length (mi_states r) \<and> mt_target t < length (mi_states r)
       \<and> state_domain (mi_states r ! mt_source t) = state_domain (mi_states r ! mt_target t)) (mi_transitions r)"

definition distinct_values :: "('a \<Rightarrow> 'b) \<Rightarrow> 'a list \<Rightarrow> nat" where
  "distinct_values f xs = length (remdups (map f xs))"

definition realized_counts :: "model_input \<Rightarrow> model_counts" where
  "realized_counts r =
     \<lparr>mc_states = length (mi_states r), mc_transitions = length (mi_transitions r), mc_initial = length (mi_initial r),
      mc_evaluation = length (filter ms_evaluation (mi_states r)), mc_runs = distinct_values ms_run (mi_states r),
      mc_cuts = distinct_values ms_cut (mi_states r), mc_strategies = distinct_values ms_strategy (mi_states r),
      mc_pairs = distinct_values (\<lambda>s. (ms_scheduler s, ms_environment s)) (mi_states r),
      mc_orders = distinct_values ms_order (mi_states r)\<rparr>"

definition declared_domains_valid :: "model_assumptions \<Rightarrow> model_state list \<Rightarrow> bool" where
  "declared_domains_valid a states \<longleftrightarrow>
     set (map ms_strategy states) = set (as_strategies a) \<and> set (map ms_scheduler states) = set (as_schedulers a)
     \<and> set (map ms_environment states) = set (as_environments a)
     \<and> set (map (\<lambda>s. (ms_scheduler s, ms_environment s)) states) = set (as_schedulers a) \<times> set (as_environments a)
     \<and> set (map ms_order states) = set (as_orders a) \<and> set (map ms_cut states) = {as_cut a}"

definition initial_domain_valid :: "model_input \<Rightarrow> bool" where
  "initial_domain_valid r \<longleftrightarrow>
     (let a = mi_assumptions r in
      set (map (\<lambda>i. state_domain (mi_states r ! nat i)) (mi_initial r))
        = set (as_strategies a) \<times> set (as_schedulers a) \<times> set (as_environments a) \<times> set (as_orders a))"

definition model_claim_scope_valid :: "behavioral_claim \<Rightarrow> model_assumptions \<Rightarrow> bool" where
  "model_claim_scope_valid c a \<longleftrightarrow>
     cl_axis c = Some ModelCheckAxis \<and> cl_status c = ModelChecked \<and> cl_evidence c = ModelCheckEvidence
     \<and> cl_quantifier c = (if as_active a then AllStrategies else AllTraces)
     \<and> MODEL_CHECK_PROVENANCE_NONCLAIM \<in> set (cl_non_claims c)"

definition model_input_valid :: "model_input \<Rightarrow> bool" where
  "model_input_valid r \<longleftrightarrow>
     source_valid (mi_source r) (mi_source_digest r)
     \<and> list_all digest_text [mi_catalog_digest r, mi_profile_digest r, mi_materializer_digest r]
     \<and> list_all safe_ref [mi_profile r, mi_ref r, mi_materializer r]
     \<and> list_all revision_text [mi_profile_revision r, mi_revision r, mi_materializer_version r]
     \<and> assumptions_valid (mi_assumptions r) \<and> model_counts_valid (mi_counts r)
     \<and> sized 1 MAX_OPACITY_MODEL_STATES (mi_initial r)
     \<and> sized 1 MAX_OPACITY_MODEL_STATES (mi_states r) \<and> list_all model_state_valid (mi_states r)
     \<and> length (mi_transitions r) \<le> MAX_OPACITY_MODEL_TRANSITIONS \<and> list_all model_transition_valid (mi_transitions r)
     \<and> claim_valid (mi_claim r)
     \<and> model_identities_valid r \<and> model_transitions_valid r \<and> mi_counts r = realized_counts r
     \<and> declared_domains_valid (mi_assumptions r) (mi_states r) \<and> initial_domain_valid r
     \<and> model_claim_scope_valid (mi_claim r) (mi_assumptions r)"

end
