(* ===== verification/OpacityEvidence.thy ===== *)
theory OpacityEvidence
  imports OpacityContracts
begin

text \<open>
  Participant opacity, the contracts that the analyses produce: the evidence of a model check
  (raes_contracts/_participant_opacity_model_check.py), and the input and the evidence of the bounded
  analysis of a finite carrier (raes_contracts/participant_opacity.py). Digests of canonical documents
  are a parameter; the seal engine, which alone constructs evidence without comparing its digests, is
  outside.
\<close>

section \<open>Evidence of a model check\<close>

datatype model_check_outcome = Holds | CounterexampleFound | VacuousSecret | UnsupportedCheck

text \<open>Of the checker configuration only the version of the package is not a literal.\<close>

record checker_configuration =
  ck_package_version :: string

definition MAX_CHECKED_STATES :: nat where "MAX_CHECKED_STATES = 4096"

definition MAX_CHECKED_TRANSITIONS :: nat where "MAX_CHECKED_TRANSITIONS = 65536"

definition checker_configuration_valid :: "checker_configuration \<Rightarrow> bool" where
  "checker_configuration_valid c \<longleftrightarrow> revision_text (ck_package_version c)"

record strategy_coverage =
  sv_strategy :: string
  sv_states :: nat
  sv_transitions :: nat
  sv_points :: nat
  sv_secret :: nat

definition strategy_coverage_valid :: "strategy_coverage \<Rightarrow> bool" where
  "strategy_coverage_valid c \<longleftrightarrow>
     safe_ref (sv_strategy c) \<and> 1 \<le> sv_states c \<and> sv_states c \<le> MAX_OPACITY_MODEL_STATES
     \<and> sv_transitions c \<le> MAX_OPACITY_MODEL_TRANSITIONS \<and> sv_points c \<le> MAX_OPACITY_MODEL_STATES
     \<and> sv_secret c \<le> MAX_OPACITY_MODEL_STATES"

record model_coverage =
  cv_declared :: model_counts
  cv_states :: nat
  cv_transitions :: nat
  cv_points :: nat
  cv_secret :: nat
  cv_strategies :: "strategy_coverage list"
  cv_pairs :: nat
  cv_orders :: nat
  cv_complete :: bool

definition coverage_valid :: "model_coverage \<Rightarrow> bool" where
  "coverage_valid c \<longleftrightarrow>
     model_counts_valid (cv_declared c) \<and> cv_states c \<le> MAX_OPACITY_MODEL_STATES
     \<and> cv_transitions c \<le> MAX_OPACITY_MODEL_TRANSITIONS \<and> cv_points c \<le> MAX_OPACITY_MODEL_STATES
     \<and> cv_secret c \<le> MAX_OPACITY_MODEL_STATES \<and> length (cv_strategies c) \<le> 1000
     \<and> list_all strategy_coverage_valid (cv_strategies c) \<and> cv_pairs c \<le> 10000 \<and> cv_orders c \<le> 1000
     \<and> cv_states c \<le> mc_states (cv_declared c) \<and> cv_transitions c \<le> mc_transitions (cv_declared c)
     \<and> cv_points c \<le> cv_states c \<and> cv_secret c \<le> cv_points c
     \<and> sorted_unique (map sv_strategy (cv_strategies c))
     \<and> sum_list (map sv_states (cv_strategies c)) = cv_states c
     \<and> sum_list (map sv_transitions (cv_strategies c)) = cv_transitions c
     \<and> sum_list (map sv_points (cv_strategies c)) = cv_points c
     \<and> sum_list (map sv_secret (cv_strategies c)) = cv_secret c"

text \<open>The reference \<open>participant-opacity-model-check-counterexample:\<close> with the ordinal in six digits.\<close>

definition six_digits :: "nat \<Rightarrow> string" where
  "six_digits n = replicate (6 - length (digits_of n)) CHR ''0'' @ digits_of n"

definition counterexample_ref :: "string \<Rightarrow> nat \<Rightarrow> string" where
  "counterexample_ref name n = name @ six_digits n"

definition counterexample_ref_valid :: "string \<Rightarrow> string \<Rightarrow> bool" where
  "counterexample_ref_valid name s \<longleftrightarrow>
     take (length name) s = name \<and> length (drop (length name) s) = 6 \<and> list_all is_digit (drop (length name) s)"

definition MODEL_CHECK_COUNTEREXAMPLE :: string where
  "MODEL_CHECK_COUNTEREXAMPLE = ''participant-opacity-model-check-counterexample:''"

record path_counterexample =
  xc_ref :: string
  xc_digest :: string
  xc_state :: nat
  xc_path :: "nat list"
  xc_strategy :: string
  xc_cell :: nat

definition counterexample_valid :: "path_counterexample \<Rightarrow> bool" where
  "counterexample_valid x \<longleftrightarrow>
     counterexample_ref_valid MODEL_CHECK_COUNTEREXAMPLE (xc_ref x) \<and> digest_text (xc_digest x)
     \<and> xc_state x < MAX_OPACITY_MODEL_STATES \<and> length (xc_path x) \<le> MAX_OPACITY_MODEL_STATES
     \<and> safe_ref (xc_strategy x) \<and> 1 \<le> xc_cell x \<and> xc_cell x \<le> MAX_OPACITY_MODEL_STATES"

text \<open>The reason codes of a check that is not supported.\<close>

definition reason_codes_valid :: "string list \<Rightarrow> bool" where
  "reason_codes_valid codes \<longleftrightarrow> sized 1 64 codes \<and> sorted_unique codes"

record model_evidence =
  me_taxonomy_revision :: string
  me_catalog_digest :: string
  me_profile :: string
  me_profile_revision :: string
  me_profile_digest :: string
  me_source :: string
  me_source_digest :: string
  me_model :: string
  me_model_revision :: string
  me_model_digest :: string
  me_materializer :: string
  me_materializer_version :: string
  me_materializer_digest :: string
  me_assumptions :: model_assumptions
  me_assumptions_digest :: string
  me_checker :: checker_configuration
  me_checker_digest :: string
  me_carrier_digest :: string
  me_claim :: behavioral_claim
  me_coverage :: model_coverage
  me_outcome :: model_check_outcome
  me_diagnostics :: "exploit_diagnostic list"
  me_counterexample :: "path_counterexample option"
  me_unsupported :: "string list option"

section \<open>The bounded analysis\<close>

record possible_point =
  pp_ordinal :: nat
  pp_ref :: string
  pp_run :: string
  pp_cut :: string
  pp_strategy :: string
  pp_scheduler :: string
  pp_environment :: string
  pp_order :: string
  pp_reachable :: bool
  pp_secret :: bool
  pp_initial_key :: string
  pp_observation_key :: string
  pp_memory_key :: string
  pp_release_key :: string
  pp_coalition_key :: "string option"

definition possible_point_valid :: "possible_point \<Rightarrow> bool" where
  "possible_point_valid p \<longleftrightarrow>
     pp_ordinal p < MAX_OPACITY_POINTS
     \<and> list_all safe_ref [pp_ref p, pp_run p, pp_cut p, pp_strategy p, pp_scheduler p, pp_environment p, pp_order p]
     \<and> list_all safe_key [pp_initial_key p, pp_observation_key p, pp_memory_key p, pp_release_key p]
     \<and> optional_ref safe_key (pp_coalition_key p)"

record point_counts =
  pn_points :: nat
  pn_runs :: nat
  pn_cuts :: nat
  pn_strategies :: nat
  pn_pairs :: nat
  pn_orders :: nat

definition point_counts_valid :: "point_counts \<Rightarrow> bool" where
  "point_counts_valid n \<longleftrightarrow>
     list_all (\<lambda>k. 1 \<le> k \<and> k \<le> MAX_OPACITY_POINTS)
       [pn_points n, pn_runs n, pn_cuts n, pn_strategies n, pn_pairs n, pn_orders n]"

record carrier_input =
  ci_source :: string
  ci_source_digest :: string
  ci_profile :: string
  ci_profile_revision :: string
  ci_profile_digest :: string
  ci_model :: string
  ci_materializer :: string
  ci_materializer_version :: string
  ci_materializer_digest :: string
  ci_complete :: bool
  ci_counts :: point_counts
  ci_claim :: behavioral_claim
  ci_points :: "possible_point list"

definition finite_carrier_valid :: "carrier_input \<Rightarrow> bool" where
  "finite_carrier_valid r \<longleftrightarrow>
     distinct (map pp_ordinal (ci_points r)) \<and> set (map pp_ordinal (ci_points r)) = {0..<length (ci_points r)}
     \<and> distinct (map pp_ref (ci_points r))
     \<and> ci_counts r =
         \<lparr>pn_points = length (ci_points r), pn_runs = distinct_values pp_run (ci_points r),
          pn_cuts = distinct_values pp_cut (ci_points r), pn_strategies = distinct_values pp_strategy (ci_points r),
          pn_pairs = distinct_values (\<lambda>p. (pp_scheduler p, pp_environment p)) (ci_points r),
          pn_orders = distinct_values pp_order (ci_points r)\<rparr>"

definition carrier_input_valid :: "carrier_input \<Rightarrow> bool" where
  "carrier_input_valid r \<longleftrightarrow>
     source_valid (ci_source r) (ci_source_digest r)
     \<and> list_all digest_text [ci_profile_digest r, ci_materializer_digest r]
     \<and> list_all safe_ref [ci_profile r, ci_model r, ci_materializer r]
     \<and> list_all revision_text [ci_profile_revision r, ci_materializer_version r]
     \<and> point_counts_valid (ci_counts r) \<and> claim_valid (ci_claim r)
     \<and> sized 1 MAX_OPACITY_POINTS (ci_points r) \<and> list_all possible_point_valid (ci_points r)
     \<and> finite_carrier_valid r"

definition canonicalized :: "carrier_input \<Rightarrow> carrier_input" where
  "canonicalized r = r\<lparr>ci_points := sort_key pp_ordinal (ci_points r)\<rparr>"

datatype analysis_outcome = NoCounterexample | PointCounterexample | VacuousCarrier | UnsupportedAnalysis

definition MAX_CHECKED_POINTS :: nat where "MAX_CHECKED_POINTS = 4096"

definition POINT_COUNTEREXAMPLE :: string where
  "POINT_COUNTEREXAMPLE = ''participant-opacity-counterexample:''"

record point_counterexample =
  xp_ref :: string
  xp_digest :: string
  xp_point :: nat
  xp_cell :: nat

definition point_counterexample_valid :: "point_counterexample \<Rightarrow> bool" where
  "point_counterexample_valid x \<longleftrightarrow>
     counterexample_ref_valid POINT_COUNTEREXAMPLE (xp_ref x) \<and> digest_text (xp_digest x)
     \<and> xp_point x < MAX_OPACITY_POINTS \<and> 1 \<le> xp_cell x \<and> xp_cell x \<le> MAX_OPACITY_POINTS"

record analysis_evidence =
  ae_taxonomy_revision :: string
  ae_profile :: string
  ae_profile_revision :: string
  ae_profile_digest :: string
  ae_model :: string
  ae_model_digest :: string
  ae_checker_digest :: string
  ae_claim :: behavioral_claim
  ae_outcome :: analysis_outcome
  ae_points :: nat
  ae_secret :: nat
  ae_diagnostics :: "exploit_diagnostic list"
  ae_counterexample :: "point_counterexample option"
  ae_unsupported :: "string list option"

section \<open>Documents and the validators of evidence\<close>

text \<open>The documents whose canonical digests are taken.\<close>

datatype opacity_document =
    AssumptionsDocument model_assumptions
  | CheckerDocument checker_configuration
  | ModelDocument model_input
  | ProfileDocument relation_profile
  | CatalogDocument relation_catalog
  | StatesDocument "model_state list"
  | PathCounterexampleDocument string nat "nat list" string nat string string string
  | ModelEvidenceDocument model_evidence
  | CarrierDocument carrier_input
  | PointCheckerDocument
  | PointCounterexampleDocument string nat nat string
  | AnalysisEvidenceDocument analysis_evidence

type_synonym opacity_digest = "opacity_document \<Rightarrow> string"

definition path_counterexample_digest ::
    "opacity_digest \<Rightarrow> string \<Rightarrow> nat \<Rightarrow> nat list \<Rightarrow> string \<Rightarrow> nat \<Rightarrow> string \<Rightarrow> string \<Rightarrow> string \<Rightarrow> string" where
  "path_counterexample_digest dg ref state path strategy cell model_digest profile_digest carrier_digest =
     dg (PathCounterexampleDocument ref state path strategy cell model_digest profile_digest carrier_digest)"

definition coverage_join_valid :: "model_evidence \<Rightarrow> bool" where
  "coverage_join_valid e \<longleftrightarrow>
     (let a = me_assumptions e; c = me_coverage e; declared = cv_declared c in
      mc_strategies declared = length (as_strategies a)
      \<and> mc_pairs declared = length (as_schedulers a) * length (as_environments a)
      \<and> mc_orders declared = length (as_orders a)
      \<and> (cv_complete c \<longrightarrow>
           map sv_strategy (cv_strategies c) = as_strategies a \<and> cv_pairs c = mc_pairs declared
           \<and> cv_orders c = mc_orders declared))"

definition payload_presence_valid :: "model_evidence \<Rightarrow> bool" where
  "payload_presence_valid e \<longleftrightarrow>
     (me_counterexample e \<noteq> None) = (me_outcome e = CounterexampleFound)
     \<and> (me_unsupported e \<noteq> None) = (me_outcome e \<in> {VacuousSecret, UnsupportedCheck})"

definition decided_outcome_valid :: "model_evidence \<Rightarrow> bool" where
  "decided_outcome_valid e \<longleftrightarrow>
     (me_outcome e \<in> {Holds, CounterexampleFound} \<longrightarrow>
        cv_complete (me_coverage e) \<and> me_diagnostics e = []
        \<and> cv_points (me_coverage e) \<noteq> 0 \<and> cv_secret (me_coverage e) \<noteq> 0)"

definition nonpositive_outcome_valid :: "model_evidence \<Rightarrow> bool" where
  "nonpositive_outcome_valid e \<longleftrightarrow>
     \<not> (me_outcome e = VacuousSecret \<and> cv_secret (me_coverage e) \<noteq> 0)
     \<and> (case me_unsupported e of
          None \<Rightarrow> True
        | Some codes \<Rightarrow> codes = sort (remdups (map xd_code (me_diagnostics e))))"

definition counterexample_join_valid :: "opacity_digest \<Rightarrow> model_evidence \<Rightarrow> bool" where
  "counterexample_join_valid dg e \<longleftrightarrow>
     (case me_counterexample e of
        None \<Rightarrow> True
      | Some x \<Rightarrow>
          xc_state x < mc_states (cv_declared (me_coverage e))
          \<and> list_all (\<lambda>i. i < mc_transitions (cv_declared (me_coverage e))) (xc_path x)
          \<and> xc_digest x = path_counterexample_digest dg (xc_ref x) (xc_state x) (xc_path x) (xc_strategy x) (xc_cell x)
              (me_model_digest e) (me_profile_digest e) (me_carrier_digest e))"

definition diagnostic_valid :: "exploit_diagnostic \<Rightarrow> bool" where
  "diagnostic_valid d \<longleftrightarrow> json_pointer (xd_address d)"

definition model_evidence_valid :: "opacity_digest \<Rightarrow> model_evidence \<Rightarrow> bool" where
  "model_evidence_valid dg e \<longleftrightarrow>
     list_all revision_text
       [me_taxonomy_revision e, me_profile_revision e, me_model_revision e, me_materializer_version e]
     \<and> list_all digest_text
         [me_catalog_digest e, me_profile_digest e, me_model_digest e, me_materializer_digest e, me_assumptions_digest e,
          me_checker_digest e, me_carrier_digest e]
     \<and> list_all safe_ref [me_profile e, me_model e, me_materializer e]
     \<and> source_valid (me_source e) (me_source_digest e)
     \<and> assumptions_valid (me_assumptions e) \<and> checker_configuration_valid (me_checker e) \<and> claim_valid (me_claim e)
     \<and> coverage_valid (me_coverage e)
     \<and> length (me_diagnostics e) \<le> MAX_OPACITY_DIAGNOSTICS \<and> list_all diagnostic_valid (me_diagnostics e)
     \<and> (case me_counterexample e of None \<Rightarrow> True | Some x \<Rightarrow> counterexample_valid x)
     \<and> (case me_unsupported e of None \<Rightarrow> True | Some codes \<Rightarrow> reason_codes_valid codes)
     \<and> me_assumptions_digest e = dg (AssumptionsDocument (me_assumptions e))
     \<and> me_checker_digest e = dg (CheckerDocument (me_checker e))
     \<and> cl_taxonomy (me_claim e) = TAXONOMY_ID \<and> cl_taxonomy_revision (me_claim e) = me_taxonomy_revision e
     \<and> cl_relation (me_claim e) = OPACITY_RELATION
     \<and> cl_profile (me_claim e) = Some (me_profile e) \<and> cl_profile_revision (me_claim e) = Some (me_profile_revision e)
     \<and> model_claim_scope_valid (me_claim e) (me_assumptions e)
     \<and> coverage_join_valid e \<and> payload_presence_valid e \<and> decided_outcome_valid e \<and> nonpositive_outcome_valid e
     \<and> counterexample_join_valid dg e"

definition evidence_counts_valid :: "analysis_evidence \<Rightarrow> bool" where
  "evidence_counts_valid e \<longleftrightarrow>
     ae_secret e \<le> ae_points e
     \<and> (ae_outcome e \<in> {NoCounterexample, PointCounterexample} \<longrightarrow>
          ae_points e \<noteq> 0 \<and> ae_secret e \<noteq> 0 \<and> ae_diagnostics e = [])
     \<and> \<not> (ae_outcome e = VacuousCarrier \<and> ae_secret e \<noteq> 0)"

definition outcome_payloads_valid :: "opacity_digest \<Rightarrow> analysis_evidence \<Rightarrow> bool" where
  "outcome_payloads_valid dg e \<longleftrightarrow>
     (ae_counterexample e \<noteq> None) = (ae_outcome e = PointCounterexample)
     \<and> (case ae_counterexample e of
          None \<Rightarrow> True
        | Some x \<Rightarrow> xp_digest x = dg (PointCounterexampleDocument (xp_ref x) (xp_point x) (xp_cell x) (ae_model_digest e)))
     \<and> (ae_unsupported e \<noteq> None) = (ae_outcome e \<in> {VacuousCarrier, UnsupportedAnalysis})
     \<and> (case ae_unsupported e of
          None \<Rightarrow> True
        | Some codes \<Rightarrow> codes = sort (remdups (map xd_code (ae_diagnostics e))))"

definition analysis_claim_scope_valid :: "behavioral_claim \<Rightarrow> bool" where
  "analysis_claim_scope_valid c \<longleftrightarrow>
     cl_axis c = Some BoundedTestAxis \<and> cl_status c = Tested \<and> cl_evidence c = FiniteEvidence
     \<and> cl_quantifier c = FiniteCases \<and> NORMALIZED_INPUT_PROVENANCE_NONCLAIM \<in> set (cl_non_claims c)"

definition claim_join_valid :: "analysis_evidence \<Rightarrow> bool" where
  "claim_join_valid e \<longleftrightarrow>
     cl_taxonomy (ae_claim e) = TAXONOMY_ID \<and> cl_taxonomy_revision (ae_claim e) = ae_taxonomy_revision e
     \<and> cl_relation (ae_claim e) = OPACITY_RELATION
     \<and> cl_profile (ae_claim e) = Some (ae_profile e) \<and> cl_profile_revision (ae_claim e) = Some (ae_profile_revision e)
     \<and> analysis_claim_scope_valid (ae_claim e)"

definition analysis_evidence_valid :: "opacity_digest \<Rightarrow> analysis_evidence \<Rightarrow> bool" where
  "analysis_evidence_valid dg e \<longleftrightarrow>
     list_all revision_text [ae_taxonomy_revision e, ae_profile_revision e]
     \<and> list_all digest_text [ae_profile_digest e, ae_model_digest e, ae_checker_digest e]
     \<and> list_all safe_ref [ae_profile e, ae_model e] \<and> claim_valid (ae_claim e)
     \<and> ae_points e \<le> MAX_OPACITY_POINTS \<and> ae_secret e \<le> MAX_OPACITY_POINTS
     \<and> length (ae_diagnostics e) \<le> MAX_OPACITY_DIAGNOSTICS \<and> list_all diagnostic_valid (ae_diagnostics e)
     \<and> (case ae_counterexample e of None \<Rightarrow> True | Some x \<Rightarrow> point_counterexample_valid x)
     \<and> (case ae_unsupported e of None \<Rightarrow> True | Some codes \<Rightarrow> reason_codes_valid codes)
     \<and> evidence_counts_valid e \<and> ae_checker_digest e = dg PointCheckerDocument
     \<and> outcome_payloads_valid dg e \<and> claim_join_valid e"

end
