(* ===== verification/OpacityCheck.thy ===== *)
theory OpacityCheck
  imports OpacityEvidence
begin

text \<open>
  Participant opacity, the analyses: the information-cell kernel (participant_opacity/_kernel.py), the
  model check of a finite transition system with its admission (_model_check.py,
  _model_check_admission.py), and the bounded analysis of a finite carrier (_service.py). The packaged
  profile and catalog are arguments; reading files and parsing JSON are outside.
\<close>

section \<open>The kernel\<close>

record kernel_point =
  kp_ordinal :: nat
  kp_strategy :: string
  kp_order :: string
  kp_secret :: bool
  kp_initial_key :: string
  kp_observation_key :: string
  kp_memory_key :: string
  kp_release_key :: string
  kp_coalition_key :: "string option"

record kernel_result =
  kr_points :: nat
  kr_secret :: nat
  kr_counterexample :: "nat option"
  kr_cell :: "nat option"

type_synonym cell_key = "string \<times> string \<times> string \<times> string \<times> string option \<times> string \<times> string"

definition information_cell_key :: "kernel_point \<Rightarrow> cell_key" where
  "information_cell_key p =
     (kp_initial_key p, kp_observation_key p, kp_memory_key p, kp_release_key p, kp_coalition_key p, kp_strategy p, kp_order p)"

definition dget_list :: "('k, 'v list) dict \<Rightarrow> 'k \<Rightarrow> 'v list" where
  "dget_list d k = (case dget d k of None \<Rightarrow> [] | Some xs \<Rightarrow> xs)"

definition grouped :: "('a \<Rightarrow> 'k) \<Rightarrow> 'a list \<Rightarrow> ('k, 'a list) dict" where
  "grouped key xs = foldl (\<lambda>d x. dput (key x) (dget_list d (key x) @ [x]) d) [] xs"

text \<open>The scan keeps the first counterexample that it meets. The cell of a point always exists.\<close>

definition scan_secret_point ::
    "(cell_key, kernel_point list) dict \<Rightarrow> nat option \<times> nat option \<Rightarrow> kernel_point \<Rightarrow> nat option \<times> nat option" where
  "scan_secret_point cells found actual =
     (let cell = dget_list cells (information_cell_key actual) in
      if list_ex (\<lambda>candidate. \<not> kp_secret candidate) cell then found
      else if fst found = None then (Some (kp_ordinal actual), Some (length cell))
      else found)"

definition evaluate_opacity_kernel :: "kernel_point list \<Rightarrow> kernel_result" where
  "evaluate_opacity_kernel points =
     (let canonical = sort_key kp_ordinal points;
          cells = grouped information_cell_key canonical;
          secret = filter kp_secret canonical;
          found = foldl (scan_secret_point cells) (None, None) secret in
      \<lparr>kr_points = length canonical, kr_secret = length secret, kr_counterexample = fst found, kr_cell = snd found\<rparr>)"

definition kernel_state :: "model_state \<Rightarrow> kernel_point" where
  "kernel_state s =
     \<lparr>kp_ordinal = ms_ordinal s, kp_strategy = ms_strategy s, kp_order = ms_order s, kp_secret = ms_secret s,
      kp_initial_key = ms_initial_key s, kp_observation_key = ms_observation_key s, kp_memory_key = ms_memory_key s,
      kp_release_key = ms_release_key s, kp_coalition_key = ms_coalition_key s\<rparr>"

definition kernel_possible_point :: "possible_point \<Rightarrow> kernel_point" where
  "kernel_possible_point p =
     \<lparr>kp_ordinal = pp_ordinal p, kp_strategy = pp_strategy p, kp_order = pp_order p, kp_secret = pp_secret p,
      kp_initial_key = pp_initial_key p, kp_observation_key = pp_observation_key p, kp_memory_key = pp_memory_key p,
      kp_release_key = pp_release_key p, kp_coalition_key = pp_coalition_key p\<rparr>"

section \<open>Admission of a transition model\<close>

definition INCOMPLETE_CODE :: string where "INCOMPLETE_CODE = ''participant-opacity-model-check.incomplete-model''"

definition BOUND_CODE :: string where "BOUND_CODE = ''participant-opacity-model-check.bound-exceeded''"

definition SCHEDULER_CODE :: string where
  "SCHEDULER_CODE = ''participant-opacity-model-check.unsupported-scheduler-quantification''"

definition ORDER_CODE :: string where
  "ORDER_CODE = ''participant-opacity-model-check.unsupported-order-treatment''"

definition VACUOUS_CODE :: string where "VACUOUS_CODE = ''participant-opacity-model-check.vacuous-secret-domain''"

definition opacity_diagnostic :: "string \<Rightarrow> string \<Rightarrow> exploit_diagnostic" where
  "opacity_diagnostic code address = \<lparr>xd_code = code, xd_address = address\<rparr>"

definition operational :: "bool \<Rightarrow> opacity_error + unit" where
  "operational b = require b OperationalRefusal"

text \<open>The version of the installed package is an argument.\<close>

definition checker_configuration_of :: "string \<Rightarrow> opacity_error + checker_configuration" where
  "checker_configuration_of package_version =
     (let c = \<lparr>ck_package_version = package_version\<rparr> in
      ebind (operational (checker_configuration_valid c)) (\<lambda>_. Inr c))"

definition expected_assumptions :: "model_input \<Rightarrow> opacity_parameters \<Rightarrow> opacity_error + model_assumptions" where
  "expected_assumptions r p =
     ebind (case op_strategy p of
        ActiveStrategy refs \<Rightarrow> Inr refs
      | PassiveStrategy \<Rightarrow>
          ebind (operational (length (as_strategies (mi_assumptions r)) = 1)) (\<lambda>_. Inr (as_strategies (mi_assumptions r))))
       (\<lambda>strategies.
     let a = \<lparr>as_active = (op_strategy p \<noteq> PassiveStrategy), as_strategies = strategies, as_schedulers = op_schedulers p,
              as_environments = op_environments p, as_treatment = od_treatment (op_order p),
              as_orders = od_refs (op_order p), as_cut = hz_cut (op_horizon p)\<rparr> in
     ebind (require (assumptions_valid a) ContractViolation) (\<lambda>_. Inr a))"

definition check_profile_bounds :: "model_input \<Rightarrow> opacity_parameters \<Rightarrow> opacity_error + unit" where
  "check_profile_bounds r p =
     (case op_bounds p of
        None \<Rightarrow> Inl MissingAttribute
      | Some b \<Rightarrow>
          let n = mi_counts r in
          operational (\<not> (bn_points b < int (mc_states n) \<or> bn_runs b < int (mc_runs n) \<or> bn_cuts b < int (mc_cuts n)
            \<or> bn_strategies b < int (mc_strategies n) \<or> bn_pairs b < int (mc_pairs n) \<or> bn_orders b < int (mc_orders n))))"

definition is_coalition :: "opacity_parameters \<Rightarrow> bool" where
  "is_coalition p \<longleftrightarrow> (case op_observer p of CoalitionObserver _ _ _ _ \<Rightarrow> True | _ \<Rightarrow> False)"

definition check_state_domains :: "model_input \<Rightarrow> opacity_parameters \<Rightarrow> opacity_error + unit" where
  "check_state_domains r p =
     ebind (operational (declared_domains_valid (mi_assumptions r) (mi_states r))) (\<lambda>_.
       operational (list_all (\<lambda>s. (ms_coalition_key s \<noteq> None) = is_coalition p) (mi_states r)))"

definition check_initial_domain_coverage :: "model_input \<Rightarrow> opacity_error + unit" where
  "check_initial_domain_coverage r = operational (initial_domain_valid r)"

text \<open>A \<open>ValueError\<close> of the binding becomes an operational error.\<close>

definition resolved :: "opacity_error + unit \<Rightarrow> opacity_error + unit" where
  "resolved m = (case m of Inl ContractViolation \<Rightarrow> Inl OperationalRefusal | v \<Rightarrow> v)"

definition opacity_parameters_of :: "relation_profile \<Rightarrow> opacity_error + opacity_parameters" where
  "opacity_parameters_of pr = (case pr_parameters pr of OpacityParameters p \<Rightarrow> Inr p | _ \<Rightarrow> Inl OperationalRefusal)"

definition validate_admission ::
    "opacity_digest \<Rightarrow> model_input \<Rightarrow> relation_profile \<Rightarrow> relation_catalog \<Rightarrow> opacity_error + unit" where
  "validate_admission dg r pr catalog =
     ebind (opacity_parameters_of pr) (\<lambda>p.
     ebind (operational (mi_catalog_digest r = dg (CatalogDocument catalog))) (\<lambda>_.
     ebind (operational (mi_profile r = pr_id pr \<and> mi_profile_revision r = pr_revision pr
       \<and> mi_profile_digest r = dg (ProfileDocument pr))) (\<lambda>_.
     ebind (expected_assumptions r p) (\<lambda>expected.
     ebind (operational (mi_assumptions r = expected)) (\<lambda>_.
     ebind (resolved (check_claim_binding (mi_claim r) catalog pr)) (\<lambda>_.
     ebind (check_profile_bounds r p) (\<lambda>_.
     ebind (check_state_domains r p) (\<lambda>_.
       check_initial_domain_coverage r))))))))"

definition unsupported_diagnostics :: "model_input \<Rightarrow> exploit_diagnostic list" where
  "unsupported_diagnostics r =
     (let a = mi_assumptions r; n = mi_counts r in
      sort_key diagnostic_key
        ((if \<not> mi_complete r then [opacity_diagnostic INCOMPLETE_CODE ''/complete_model''] else [])
         @ (if MAX_CHECKED_STATES < mc_states n \<or> MAX_CHECKED_TRANSITIONS < mc_transitions n
            then [opacity_diagnostic BOUND_CODE ''/declared_counts''] else [])
         @ (if length (as_schedulers a) \<noteq> 1 \<or> length (as_environments a) \<noteq> 1
            then [opacity_diagnostic SCHEDULER_CODE ''/assumptions''] else [])
         @ (if as_treatment a \<noteq> TotalOrder then [opacity_diagnostic ORDER_CODE ''/assumptions/order_treatment''] else [])))"

section \<open>The reachable fixed point\<close>

record fixed_point =
  fx_visited :: "nat list" \<comment> \<open>a set, in the order in which its elements were added\<close>
  fx_parents :: "(nat, model_transition option) dict"
  fx_queue :: "nat list"
  fx_explored :: "model_transition list"

definition follow_transition :: "fixed_point \<Rightarrow> model_transition \<Rightarrow> fixed_point" where
  "follow_transition fx t =
     (let fx1 = fx\<lparr>fx_explored := fx_explored fx @ [t]\<rparr>; target = mt_target t in
      if target \<in> set (fx_visited fx1) then fx1
      else fx1\<lparr>fx_visited := fx_visited fx1 @ [target], fx_parents := dput target (Some t) (fx_parents fx1),
               fx_queue := fx_queue fx1 @ [target]\<rparr>)"

type_synonym adjacency = "(nat, model_transition list) dict"

definition unvisited_targets :: "adjacency \<Rightarrow> fixed_point \<Rightarrow> nat" where
  "unvisited_targets adj fx = card (set (map mt_target (concat (dvals adj))) - set (fx_visited fx))"

lemma follow_transition_measure:
  assumes "mt_target t \<in> set (map mt_target (concat (dvals adj)))"
  shows "length (fx_queue (follow_transition fx t)) + unvisited_targets adj (follow_transition fx t)
    = length (fx_queue fx) + unvisited_targets adj fx"
proof (cases "mt_target t \<in> set (fx_visited fx)")
  case False
  let ?A = "set (map mt_target (concat (dvals adj)))"
  have "?A - set (fx_visited fx) = insert (mt_target t) (?A - insert (mt_target t) (set (fx_visited fx)))"
    using assms False by blast
  then have "card (?A - set (fx_visited fx)) = Suc (card (?A - insert (mt_target t) (set (fx_visited fx))))"
    by (metis Diff_iff card.insert finite_Diff finite_set insertI1)
  with False show ?thesis by (simp add: follow_transition_def unvisited_targets_def Let_def)
qed (simp add: follow_transition_def unvisited_targets_def Let_def)

lemma follow_transitions_measure:
  assumes "set ts \<subseteq> set (concat (dvals adj))"
  shows "length (fx_queue (foldl follow_transition fx ts)) + unvisited_targets adj (foldl follow_transition fx ts)
    = length (fx_queue fx) + unvisited_targets adj fx"
  using assms
proof (induction ts arbitrary: fx)
  case (Cons t ts)
  then have "mt_target t \<in> set (map mt_target (concat (dvals adj)))" by auto
  with Cons show ?case by (simp add: follow_transition_measure)
qed simp

lemma dget_list_subset: "set (dget_list adj s) \<subseteq> set (concat (dvals adj))"
proof (cases "dget adj s")
  case (Some ts)
  then have "(s, ts) \<in> set adj" by (rule map_of_SomeD)
  with Some show ?thesis by (force simp: dget_list_def)
qed (simp add: dget_list_def)

function explore :: "adjacency \<Rightarrow> fixed_point \<Rightarrow> fixed_point" where
  "explore adj fx =
     (case fx_queue fx of
        [] \<Rightarrow> fx
      | source # queue \<Rightarrow> explore adj (foldl follow_transition (fx\<lparr>fx_queue := queue\<rparr>) (dget_list adj source)))"
  by pat_completeness auto
termination
proof (relation "measure (\<lambda>(adj, fx). length (fx_queue fx) + unvisited_targets adj fx)", goal_cases)
  case (2 adj fx source queue)
  have "unvisited_targets adj (fx\<lparr>fx_queue := queue\<rparr>) = unvisited_targets adj fx" by (simp add: unvisited_targets_def)
  with 2 show ?case by (simp add: follow_transitions_measure [OF dget_list_subset])
qed simp

declare explore.simps [simp del]

definition initial_fixed_point :: "model_input \<Rightarrow> fixed_point" where
  "initial_fixed_point r =
     \<lparr>fx_visited = map nat (mi_initial r), fx_parents = map (\<lambda>i. (i, None)) (map nat (mi_initial r)),
      fx_queue = map nat (mi_initial r), fx_explored = []\<rparr>"

definition reachable_fixed_point :: "model_input \<Rightarrow> fixed_point" where
  "reachable_fixed_point r = explore (grouped mt_source (mi_transitions r)) (initial_fixed_point r)"

definition reachable_states :: "model_input \<Rightarrow> fixed_point \<Rightarrow> model_state list" where
  "reachable_states r fx = map (\<lambda>i. mi_states r ! i) (sort (fx_visited fx))"

section \<open>Coverage and evidence\<close>

definition strategy_coverage_of ::
    "model_input \<Rightarrow> model_state list \<Rightarrow> model_transition list \<Rightarrow> string \<Rightarrow> strategy_coverage" where
  "strategy_coverage_of r states transitions strategy =
     (let mine = filter (\<lambda>s. ms_strategy s = strategy) states;
          points = filter ms_evaluation mine in
      \<lparr>sv_strategy = strategy, sv_states = length mine,
       sv_transitions = length (filter (\<lambda>t. ms_strategy (mi_states r ! mt_source t) = strategy) transitions),
       sv_points = length points, sv_secret = length (filter ms_secret points)\<rparr>)"

definition coverage_of :: "model_input \<Rightarrow> model_state list \<Rightarrow> model_transition list \<Rightarrow> model_coverage" where
  "coverage_of r states transitions =
     (let points = filter ms_evaluation states in
      \<lparr>cv_declared = mi_counts r, cv_states = length states, cv_transitions = length transitions,
       cv_points = length points, cv_secret = length (filter ms_secret points),
       cv_strategies = map (strategy_coverage_of r states transitions) (as_strategies (mi_assumptions r)),
       cv_pairs = distinct_values (\<lambda>s. (ms_scheduler s, ms_environment s)) states,
       cv_orders = distinct_values ms_order states, cv_complete = True\<rparr>)"

definition empty_coverage :: "model_input \<Rightarrow> model_coverage" where
  "empty_coverage r =
     \<lparr>cv_declared = mi_counts r, cv_states = 0, cv_transitions = 0, cv_points = 0, cv_secret = 0, cv_strategies = [],
      cv_pairs = 0, cv_orders = 0, cv_complete = False\<rparr>"

definition make_coverage :: "model_coverage \<Rightarrow> opacity_error + model_coverage" where
  "make_coverage c = ebind (require (coverage_valid c) ContractViolation) (\<lambda>_. Inr c)"

definition model_evidence_of ::
    "opacity_digest \<Rightarrow> model_input \<Rightarrow> checker_configuration \<Rightarrow> string \<Rightarrow> model_coverage \<Rightarrow> model_check_outcome \<Rightarrow>
       exploit_diagnostic list \<Rightarrow> path_counterexample option \<Rightarrow> string list option \<Rightarrow> opacity_error + model_evidence" where
  "model_evidence_of dg r checker carrier_digest coverage outcome diagnostics counterexample unsupported =
     (let e = \<lparr>me_taxonomy_revision = cl_taxonomy_revision (mi_claim r), me_catalog_digest = mi_catalog_digest r,
          me_profile = mi_profile r, me_profile_revision = mi_profile_revision r, me_profile_digest = mi_profile_digest r,
          me_source = mi_source r, me_source_digest = mi_source_digest r, me_model = mi_ref r,
          me_model_revision = mi_revision r, me_model_digest = dg (ModelDocument r),
          me_materializer = mi_materializer r, me_materializer_version = mi_materializer_version r,
          me_materializer_digest = mi_materializer_digest r, me_assumptions = mi_assumptions r,
          me_assumptions_digest = dg (AssumptionsDocument (mi_assumptions r)), me_checker = checker,
          me_checker_digest = dg (CheckerDocument checker), me_carrier_digest = carrier_digest, me_claim = mi_claim r,
          me_coverage = coverage, me_outcome = outcome, me_diagnostics = diagnostics,
          me_counterexample = counterexample, me_unsupported = unsupported\<rparr> in
      ebind (require (model_evidence_valid dg e) ContractViolation) (\<lambda>_. Inr e))"

definition unsupported_evidence ::
    "opacity_digest \<Rightarrow> model_input \<Rightarrow> checker_configuration \<Rightarrow> exploit_diagnostic list \<Rightarrow> opacity_error + model_evidence" where
  "unsupported_evidence dg r checker diagnostics =
     ebind (make_coverage (empty_coverage r)) (\<lambda>coverage.
       model_evidence_of dg r checker (dg (StatesDocument [])) coverage UnsupportedCheck diagnostics None
         (Some (sort (remdups (map xd_code diagnostics)))))"

text \<open>The walk from a state along the parents; a walk that is longer than the parents never ends.\<close>

fun walk_parents ::
    "(nat, model_transition option) dict \<Rightarrow> nat \<Rightarrow> nat \<Rightarrow> nat list \<Rightarrow> opacity_error + nat list" where
  "walk_parents parents 0 state path = Inl PathUnbounded"
| "walk_parents parents (Suc fuel) state path =
     (case dget parents state of
        None \<Rightarrow> Inl MissingKey
      | Some None \<Rightarrow> Inr (rev path)
      | Some (Some t) \<Rightarrow> walk_parents parents fuel (mt_source t) (path @ [mt_ordinal t]))"

definition counterexample_path :: "nat \<Rightarrow> (nat, model_transition option) dict \<Rightarrow> opacity_error + nat list" where
  "counterexample_path actual parents = walk_parents parents (length parents) actual []"

definition path_counterexample_of ::
    "opacity_digest \<Rightarrow> model_input \<Rightarrow> string \<Rightarrow> nat \<Rightarrow> nat list \<Rightarrow> nat \<Rightarrow> opacity_error + path_counterexample" where
  "path_counterexample_of dg r carrier_digest actual path cell =
     (let ref = counterexample_ref MODEL_CHECK_COUNTEREXAMPLE actual;
          strategy = ms_strategy (mi_states r ! actual);
          x = \<lparr>xc_ref = ref,
               xc_digest = path_counterexample_digest dg ref actual path strategy cell (dg (ModelDocument r))
                 (mi_profile_digest r) carrier_digest,
               xc_state = actual, xc_path = path, xc_strategy = strategy, xc_cell = cell\<rparr> in
      ebind (require (counterexample_valid x) ContractViolation) (\<lambda>_. Inr x))"

definition reachable_evidence ::
    "opacity_digest \<Rightarrow> model_input \<Rightarrow> checker_configuration \<Rightarrow> opacity_error + model_evidence" where
  "reachable_evidence dg r checker =
     (let fx = reachable_fixed_point r; states = reachable_states r fx; points = filter ms_evaluation states in
      ebind (make_coverage (coverage_of r states (fx_explored fx))) (\<lambda>coverage.
      let carrier_digest = dg (StatesDocument points); result = evaluate_opacity_kernel (map kernel_state points) in
      if kr_secret result = 0 then
        model_evidence_of dg r checker carrier_digest coverage VacuousSecret [opacity_diagnostic VACUOUS_CODE ''/states'']
          None (Some [VACUOUS_CODE])
      else (case (kr_counterexample result, kr_cell result) of
          (Some actual, Some cell) \<Rightarrow>
            ebind (counterexample_path actual (fx_parents fx)) (\<lambda>path.
            ebind (path_counterexample_of dg r carrier_digest actual path cell) (\<lambda>x.
              model_evidence_of dg r checker carrier_digest coverage CounterexampleFound [] (Some x) None))
        | _ \<Rightarrow> model_evidence_of dg r checker carrier_digest coverage Holds [] None None)))"

definition model_check_participant_opacity_input ::
    "opacity_digest \<Rightarrow> string \<Rightarrow> model_input \<Rightarrow> relation_profile \<Rightarrow> relation_catalog \<Rightarrow> opacity_error + model_evidence" where
  "model_check_participant_opacity_input dg package_version r pr catalog =
     ebind (validate_admission dg r pr catalog) (\<lambda>_.
     ebind (checker_configuration_of package_version) (\<lambda>checker.
       if unsupported_diagnostics r \<noteq> [] then unsupported_evidence dg r checker (unsupported_diagnostics r)
       else reachable_evidence dg r checker))"

definition replay_model_check_evidence ::
    "opacity_digest \<Rightarrow> string \<Rightarrow> model_input \<Rightarrow> relation_profile \<Rightarrow> relation_catalog \<Rightarrow> model_evidence \<Rightarrow>
       opacity_error + model_evidence" where
  "replay_model_check_evidence dg package_version r pr catalog evidence =
     ebind (model_check_participant_opacity_input dg package_version r pr catalog) (\<lambda>replayed.
     ebind (require (dg (ModelEvidenceDocument replayed) = dg (ModelEvidenceDocument evidence)) EvidenceMismatch) (\<lambda>_.
       Inr replayed))"

section \<open>The bounded analysis of a finite carrier\<close>

definition CARRIER_INCOMPLETE_CODE :: string where
  "CARRIER_INCOMPLETE_CODE = ''participant-opacity.incomplete-enumeration''"

definition CARRIER_VACUOUS_CODE :: string where
  "CARRIER_VACUOUS_CODE = ''participant-opacity.vacuous-secret-domain''"

definition CARRIER_BOUND_CODE :: string where
  "CARRIER_BOUND_CODE = ''participant-opacity.analysis-bound-exceeded''"

text \<open>The packaged catalog of a revision, where there is one.\<close>

type_synonym catalog_loader = "string \<Rightarrow> relation_catalog option"

definition validate_profile_admission ::
    "opacity_digest \<Rightarrow> catalog_loader \<Rightarrow> carrier_input \<Rightarrow> relation_profile \<Rightarrow> opacity_error + opacity_parameters" where
  "validate_profile_admission dg load r pr =
     ebind (opacity_parameters_of pr) (\<lambda>p.
     ebind (operational (ci_profile r = pr_id pr \<and> ci_profile_revision r = pr_revision pr
       \<and> ci_profile_digest r = dg (ProfileDocument pr))) (\<lambda>_.
     ebind (case load (cl_taxonomy_revision (ci_claim r)) of
          None \<Rightarrow> Inl OperationalRefusal
        | Some catalog \<Rightarrow> resolved (check_claim_binding (ci_claim r) catalog pr)) (\<lambda>_.
       Inr p)))"

definition check_declared_bounds :: "carrier_input \<Rightarrow> opacity_parameters \<Rightarrow> opacity_error + unit" where
  "check_declared_bounds r p =
     (case op_bounds p of
        None \<Rightarrow> Inl MissingAttribute
      | Some b \<Rightarrow>
          let n = ci_counts r in
          operational (\<not> (bn_points b < int (pn_points n) \<or> bn_runs b < int (pn_runs n) \<or> bn_cuts b < int (pn_cuts n)
            \<or> bn_strategies b < int (pn_strategies n) \<or> bn_pairs b < int (pn_pairs n) \<or> bn_orders b < int (pn_orders n))))"

definition check_scheduler_environment_domain :: "carrier_input \<Rightarrow> opacity_parameters \<Rightarrow> opacity_error + unit" where
  "check_scheduler_environment_domain r p =
     operational (set (map pp_scheduler (ci_points r)) = set (op_schedulers p)
       \<and> set (map pp_environment (ci_points r)) = set (op_environments p)
       \<and> set (map (\<lambda>x. (pp_scheduler x, pp_environment x)) (ci_points r)) = set (op_schedulers p) \<times> set (op_environments p))"

definition check_order_and_cut_domains :: "carrier_input \<Rightarrow> opacity_parameters \<Rightarrow> opacity_error + unit" where
  "check_order_and_cut_domains r p =
     operational (set (map pp_order (ci_points r)) = set (od_refs (op_order p))
       \<and> set (map pp_cut (ci_points r)) = {hz_cut (op_horizon p)})"

definition check_strategy_domain :: "carrier_input \<Rightarrow> opacity_parameters \<Rightarrow> opacity_error + unit" where
  "check_strategy_domain r p =
     (case op_strategy p of
        ActiveStrategy refs \<Rightarrow> operational (set (map pp_strategy (ci_points r)) = set refs)
      | PassiveStrategy \<Rightarrow> operational (distinct_values pp_strategy (ci_points r) = 1))"

definition check_coalition_domain :: "carrier_input \<Rightarrow> opacity_parameters \<Rightarrow> opacity_error + unit" where
  "check_coalition_domain r p =
     operational (list_all (\<lambda>x. (pp_coalition_key x \<noteq> None) = is_coalition p) (ci_points r))"

definition validate_profile_domains :: "carrier_input \<Rightarrow> opacity_parameters \<Rightarrow> opacity_error + unit" where
  "validate_profile_domains r p =
     ebind (check_declared_bounds r p) (\<lambda>_.
     ebind (check_scheduler_environment_domain r p) (\<lambda>_.
     ebind (check_order_and_cut_domains r p) (\<lambda>_.
     ebind (check_strategy_domain r p) (\<lambda>_.
       check_coalition_domain r p))))"

definition analysis_evidence_of ::
    "opacity_digest \<Rightarrow> carrier_input \<Rightarrow> relation_profile \<Rightarrow> analysis_outcome \<Rightarrow> nat \<Rightarrow> nat \<Rightarrow> exploit_diagnostic list \<Rightarrow>
       point_counterexample option \<Rightarrow> string list option \<Rightarrow> opacity_error + analysis_evidence" where
  "analysis_evidence_of dg r pr outcome points secret diagnostics counterexample unsupported =
     (let normalized = canonicalized r;
          e = \<lparr>ae_taxonomy_revision = cl_taxonomy_revision (ci_claim normalized), ae_profile = pr_id pr,
               ae_profile_revision = pr_revision pr, ae_profile_digest = dg (ProfileDocument pr),
               ae_model = ci_model normalized, ae_model_digest = dg (CarrierDocument normalized),
               ae_checker_digest = dg PointCheckerDocument, ae_claim = ci_claim normalized, ae_outcome = outcome,
               ae_points = points, ae_secret = secret, ae_diagnostics = diagnostics,
               ae_counterexample = counterexample, ae_unsupported = unsupported\<rparr> in
      ebind (require (analysis_evidence_valid dg e) ContractViolation) (\<lambda>_. Inr e))"

definition unsupported_analysis ::
    "opacity_digest \<Rightarrow> carrier_input \<Rightarrow> relation_profile \<Rightarrow> analysis_outcome \<Rightarrow> exploit_diagnostic \<Rightarrow> nat \<Rightarrow> nat \<Rightarrow>
       opacity_error + analysis_evidence" where
  "unsupported_analysis dg r pr outcome diagnostic points secret =
     analysis_evidence_of dg r pr outcome points secret [diagnostic] None (Some [xd_code diagnostic])"

definition analysis_precondition_evidence ::
    "opacity_digest \<Rightarrow> carrier_input \<Rightarrow> relation_profile \<Rightarrow> opacity_error + analysis_evidence option" where
  "analysis_precondition_evidence dg r pr =
     (if \<not> ci_complete r
      then ebind (unsupported_analysis dg r pr UnsupportedAnalysis
        (opacity_diagnostic CARRIER_INCOMPLETE_CODE ''/complete_enumeration'') 0 0) (\<lambda>e. Inr (Some e))
      else if MAX_CHECKED_POINTS < length (ci_points r)
      then ebind (unsupported_analysis dg r pr UnsupportedAnalysis (opacity_diagnostic CARRIER_BOUND_CODE ''/points'') 0 0)
        (\<lambda>e. Inr (Some e))
      else Inr None)"

definition analyze_nonvacuous_carrier ::
    "opacity_digest \<Rightarrow> carrier_input \<Rightarrow> relation_profile \<Rightarrow> possible_point list \<Rightarrow> opacity_error + analysis_evidence" where
  "analyze_nonvacuous_carrier dg r pr reachable =
     (let result = evaluate_opacity_kernel (map kernel_possible_point reachable) in
      case (kr_counterexample result, kr_cell result) of
        (Some actual, Some cell) \<Rightarrow>
          let ref = counterexample_ref POINT_COUNTEREXAMPLE actual;
              x = \<lparr>xp_ref = ref,
                   xp_digest = dg (PointCounterexampleDocument ref actual cell (dg (CarrierDocument (canonicalized r)))),
                   xp_point = actual, xp_cell = cell\<rparr> in
          ebind (require (point_counterexample_valid x) ContractViolation) (\<lambda>_.
            analysis_evidence_of dg r pr PointCounterexample (kr_points result) (kr_secret result) [] (Some x) None)
      | _ \<Rightarrow> analysis_evidence_of dg r pr NoCounterexample (kr_points result) (kr_secret result) [] None None)"

definition analyze_participant_opacity_input ::
    "opacity_digest \<Rightarrow> catalog_loader \<Rightarrow> carrier_input \<Rightarrow> relation_profile \<Rightarrow> opacity_error + analysis_evidence" where
  "analyze_participant_opacity_input dg load r pr =
     ebind (validate_profile_admission dg load r pr) (\<lambda>p.
     ebind (validate_profile_domains r p) (\<lambda>_.
     ebind (analysis_precondition_evidence dg r pr) (\<lambda>early.
       case early of
         Some e \<Rightarrow> Inr e
       | None \<Rightarrow>
           let reachable = sort_key pp_ordinal (filter pp_reachable (ci_points r)) in
           if filter pp_secret reachable = []
           then unsupported_analysis dg r pr VacuousCarrier (opacity_diagnostic CARRIER_VACUOUS_CODE ''/points'')
             (length reachable) 0
           else analyze_nonvacuous_carrier dg r pr reachable)))"

definition replay_participant_opacity_evidence ::
    "opacity_digest \<Rightarrow> catalog_loader \<Rightarrow> carrier_input \<Rightarrow> relation_profile \<Rightarrow> analysis_evidence \<Rightarrow>
       opacity_error + analysis_evidence" where
  "replay_participant_opacity_evidence dg load r pr evidence =
     ebind (analyze_participant_opacity_input dg load r pr) (\<lambda>replayed.
     ebind (require (dg (AnalysisEvidenceDocument replayed) = dg (AnalysisEvidenceDocument evidence)) EvidenceMismatch) (\<lambda>_.
       Inr replayed))"

end
