(* ===== verification/OpacityProofs.thy ===== *)
theory OpacityProofs
  imports OpacityCheck
begin

text \<open>
  The kernel against its specification, and the fixed point against the runs of the transition model:
  it visits exactly the reachable states, explores exactly the transitions that leave them, and the
  walk along the parents is a shortest run.
\<close>

section \<open>The kernel\<close>

lemma dget_list_dput: "dget_list (dput k v d) k' = (if k' = k then v else dget_list d k')"
  by (simp add: dget_list_def)

lemma grouped_from:
  "dget_list (foldl (\<lambda>d x. dput (key x) (dget_list d (key x) @ [x]) d) d xs) k = dget_list d k @ filter (\<lambda>x. key x = k) xs"
  by (induction xs arbitrary: d) (auto simp: dget_list_dput)

lemma dget_list_grouped: "dget_list (grouped key xs) k = filter (\<lambda>x. key x = k) xs"
  unfolding grouped_def grouped_from by (simp add: dget_list_def)

text \<open>A secret point is exposed when every point of its information cell is secret.\<close>

definition exposed :: "kernel_point list \<Rightarrow> kernel_point \<Rightarrow> bool" where
  "exposed points p \<longleftrightarrow>
     kp_secret p \<and> (\<forall>q \<in> set points. information_cell_key q = information_cell_key p \<longrightarrow> kp_secret q)"

definition information_cell :: "kernel_point list \<Rightarrow> kernel_point \<Rightarrow> kernel_point list" where
  "information_cell points p = filter (\<lambda>q. information_cell_key q = information_cell_key p) points"

lemma scan_step:
  assumes "kp_secret p"
  shows "scan_secret_point (grouped information_cell_key points) found p =
    (if exposed points p \<and> fst found = None then (Some (kp_ordinal p), Some (length (information_cell points p))) else found)"
proof -
  have "list_ex (\<lambda>candidate. \<not> kp_secret candidate) (filter (\<lambda>q. information_cell_key q = information_cell_key p) points)
      \<longleftrightarrow> \<not> exposed points p"
    using assms by (auto simp: exposed_def list_ex_iff)
  then show ?thesis by (simp add: scan_secret_point_def dget_list_grouped Let_def information_cell_def)
qed

lemma scan_found:
  "fst found \<noteq> None \<Longrightarrow> \<forall>p \<in> set secret. kp_secret p \<Longrightarrow>
     foldl (scan_secret_point (grouped information_cell_key points)) found secret = found"
  by (induction secret) (auto simp: scan_step)

lemma scan_from:
  assumes "\<forall>p \<in> set secret. kp_secret p"
  shows "foldl (scan_secret_point (grouped information_cell_key points)) (None, None) secret =
    (case find (exposed points) secret of
       None \<Rightarrow> (None, None)
     | Some p \<Rightarrow> (Some (kp_ordinal p), Some (length (information_cell points p))))"
  using assms by (induction secret) (simp_all add: scan_step scan_found)

lemma find_first:
  assumes "find P xs = Some p" and "sorted (map f xs)"
  shows "p \<in> set xs" "P p" "q \<in> set xs \<Longrightarrow> P q \<Longrightarrow> f p \<le> f q"
proof -
  from assms(1) obtain i where i: "i < length xs" "P (xs ! i)" "p = xs ! i" "\<forall>j < i. \<not> P (xs ! j)"
    by (auto simp: find_Some_iff)
  then show "p \<in> set xs" "P p" by auto
  assume q: "q \<in> set xs" "P q"
  then obtain j where j: "j < length xs" "q = xs ! j" by (auto simp: in_set_conv_nth)
  with i q have "i \<le> j" by (metis leI)
  with sorted_nth_mono [OF assms(2)] i j show "f p \<le> f q" by simp
qed

lemma exposed_sort [simp]: "exposed (sort_key f points) = exposed points"
  by (simp add: exposed_def fun_eq_iff)

lemma evaluate_opacity_kernel_facts:
  "kr_points (evaluate_opacity_kernel points) = length points"
  "kr_secret (evaluate_opacity_kernel points) = length (filter kp_secret points)"
  "kr_counterexample (evaluate_opacity_kernel points) = None \<longleftrightarrow> (\<forall>p \<in> set points. \<not> exposed points p)"
  "kr_cell (evaluate_opacity_kernel points) = None \<longleftrightarrow> kr_counterexample (evaluate_opacity_kernel points) = None"
  "kr_counterexample (evaluate_opacity_kernel points) = Some n \<Longrightarrow>
     \<exists>p \<in> set points. exposed points p \<and> kp_ordinal p = n \<and> (\<forall>q \<in> set points. exposed points q \<longrightarrow> n \<le> kp_ordinal q)
       \<and> kr_cell (evaluate_opacity_kernel points) = Some (length (information_cell points p))"
proof -
  let ?sorted = "sort_key kp_ordinal points" and ?secret = "filter kp_secret (sort_key kp_ordinal points)"
  have sorted: "sorted (map kp_ordinal ?secret)" by (simp add: sorted_filter)
  have cell: "length (information_cell ?sorted p) = length (information_cell points p)" for p
    by (simp add: information_cell_def filter_sort)
  have result: "evaluate_opacity_kernel points =
      \<lparr>kr_points = length points, kr_secret = length ?secret,
       kr_counterexample = map_option kp_ordinal (find (exposed points) ?secret),
       kr_cell = map_option (\<lambda>p. length (information_cell points p)) (find (exposed points) ?secret)\<rparr>"
    by (simp add: evaluate_opacity_kernel_def Let_def scan_from cell split: option.splits)
  show "kr_points (evaluate_opacity_kernel points) = length points"
    and "kr_secret (evaluate_opacity_kernel points) = length (filter kp_secret points)"
    and "kr_cell (evaluate_opacity_kernel points) = None \<longleftrightarrow> kr_counterexample (evaluate_opacity_kernel points) = None"
    by (simp_all add: result filter_sort)
  show "kr_counterexample (evaluate_opacity_kernel points) = None \<longleftrightarrow> (\<forall>p \<in> set points. \<not> exposed points p)"
    by (auto simp: result find_None_iff exposed_def)
  assume "kr_counterexample (evaluate_opacity_kernel points) = Some n"
  then obtain p where p: "find (exposed points) ?secret = Some p" "kp_ordinal p = n" by (auto simp: result)
  note first = find_first [OF p(1) sorted]
  have "n \<le> kp_ordinal q" if "q \<in> set points" "exposed points q" for q
    using first(3) [of q] that p(2) by (simp add: exposed_def)
  with first(1,2) p show "\<exists>p \<in> set points. exposed points p \<and> kp_ordinal p = n
      \<and> (\<forall>q \<in> set points. exposed points q \<longrightarrow> n \<le> kp_ordinal q)
      \<and> kr_cell (evaluate_opacity_kernel points) = Some (length (information_cell points p))"
    by (auto simp: result)
qed

section \<open>Runs of the transition model\<close>

inductive model_run :: "model_transition list \<Rightarrow> nat set \<Rightarrow> model_transition list \<Rightarrow> nat \<Rightarrow> bool"
  for ts :: "model_transition list" and I :: "nat set" where
  run_start: "i \<in> I \<Longrightarrow> model_run ts I [] i"
| run_next: "model_run ts I path s \<Longrightarrow> t \<in> set ts \<Longrightarrow> mt_source t = s \<Longrightarrow> model_run ts I (path @ [t]) (mt_target t)"

definition leaving :: "model_transition list \<Rightarrow> nat \<Rightarrow> model_transition list" where
  "leaving ts s = filter (\<lambda>t. mt_source t = s) ts"

lemma set_leaving [simp]: "set (leaving ts s) = {t \<in> set ts. mt_source t = s}"
  by (auto simp: leaving_def)

text \<open>A parent entry: the state is initial, or a transition enters it from an expanded state.\<close>

definition parent_ok :: "model_transition list \<Rightarrow> nat set \<Rightarrow> (nat \<Rightarrow> nat) \<Rightarrow> nat set \<Rightarrow> fixed_point \<Rightarrow> nat \<Rightarrow> bool" where
  "parent_ok ts I D finished fx s \<longleftrightarrow>
     (case dget (fx_parents fx) s of
        None \<Rightarrow> False
      | Some None \<Rightarrow> s \<in> I \<and> D s = 0
      | Some (Some t) \<Rightarrow> t \<in> set ts \<and> mt_target t = s \<and> mt_source t \<in> finished \<and> D s = Suc (D (mt_source t)))"

definition bfs_base :: "model_transition list \<Rightarrow> nat set \<Rightarrow> (nat \<Rightarrow> nat) \<Rightarrow> nat list \<Rightarrow> fixed_point \<Rightarrow> bool" where
  "bfs_base ts I D finished fx \<longleftrightarrow>
     fx_visited fx = finished @ fx_queue fx \<and> distinct (fx_visited fx) \<and> dkeys (fx_parents fx) = fx_visited fx
     \<and> I \<subseteq> set (fx_visited fx) \<and> (\<forall>i \<in> I. D i = 0)
     \<and> (\<forall>s \<in> set (fx_visited fx). parent_ok ts I D (set finished) fx s \<and> (\<exists>path. model_run ts I path s \<and> length path = D s))
     \<and> sorted (map D (fx_queue fx))"

definition reaches_on :: "(nat \<Rightarrow> nat) \<Rightarrow> fixed_point \<Rightarrow> nat \<Rightarrow> model_transition \<Rightarrow> bool" where
  "reaches_on D fx d t \<longleftrightarrow> mt_target t \<in> set (fx_visited fx) \<and> D (mt_target t) \<le> Suc d"

definition bfs_inv :: "model_transition list \<Rightarrow> nat set \<Rightarrow> (nat \<Rightarrow> nat) \<Rightarrow> nat list \<Rightarrow> fixed_point \<Rightarrow> bool" where
  "bfs_inv ts I D finished fx \<longleftrightarrow>
     bfs_base ts I D finished fx \<and> fx_explored fx = concat (map (leaving ts) finished)
     \<and> (\<forall>s \<in> set finished. \<forall>t \<in> set (leaving ts s). reaches_on D fx (D s) t)
     \<and> (fx_queue fx \<noteq> [] \<longrightarrow> (\<forall>s \<in> set (fx_visited fx). D s \<le> Suc (D (hd (fx_queue fx)))))"

text \<open>While the transitions that leave \<open>s\<close> are followed; \<open>pre\<close> are those already followed.\<close>

definition following ::
    "model_transition list \<Rightarrow> nat set \<Rightarrow> (nat \<Rightarrow> nat) \<Rightarrow> nat list \<Rightarrow> nat \<Rightarrow> model_transition list \<Rightarrow> fixed_point \<Rightarrow> bool" where
  "following ts I D finished s pre fx \<longleftrightarrow>
     bfs_base ts I D (finished @ [s]) fx \<and> fx_explored fx = concat (map (leaving ts) finished) @ pre
     \<and> (\<forall>u \<in> set finished. \<forall>t \<in> set (leaving ts u). reaches_on D fx (D u) t) \<and> (\<forall>t \<in> set pre. reaches_on D fx (D s) t)
     \<and> (\<forall>u \<in> set (fx_visited fx). D u \<le> Suc (D s)) \<and> (\<forall>u \<in> set (fx_queue fx). D s \<le> D u)"

lemma reaches_on_cong:
  "reaches_on D fx d t \<Longrightarrow> set (fx_visited fx) \<subseteq> set (fx_visited fx') \<Longrightarrow> (\<And>u. u \<in> set (fx_visited fx) \<Longrightarrow> D' u = D u) \<Longrightarrow>
     reaches_on D' fx' d t"
  by (auto simp: reaches_on_def)

lemma parent_ok_cong:
  assumes "parent_ok ts I D finished fx s" and "dget (fx_parents fx') s = dget (fx_parents fx) s" and "finished \<subseteq> finished'"
    and "D' s = D s" and "\<And>u. u \<in> finished \<Longrightarrow> D' u = D u"
  shows "parent_ok ts I D' finished' fx' s"
  using assms unfolding parent_ok_def by (auto split: option.splits)

lemma bfs_baseD:
  assumes "bfs_base ts I D finished fx"
  shows "fx_visited fx = finished @ fx_queue fx" "distinct (fx_visited fx)" "dkeys (fx_parents fx) = fx_visited fx"
    and "I \<subseteq> set (fx_visited fx)" "i \<in> I \<Longrightarrow> D i = 0" "sorted (map D (fx_queue fx))"
    and "s \<in> set (fx_visited fx) \<Longrightarrow> parent_ok ts I D (set finished) fx s"
    and "s \<in> set (fx_visited fx) \<Longrightarrow> \<exists>path. model_run ts I path s \<and> length path = D s"
  using assms unfolding bfs_base_def by blast+

text \<open>A transition to a new state: the state is one step further than \<open>s\<close>.\<close>

lemma follow_new:
  assumes inv: "following ts I D finished s pre fx" and t: "t \<in> set (leaving ts s)" and fresh: "mt_target t \<notin> set (fx_visited fx)"
  shows "following ts I (D(mt_target t := Suc (D s))) finished s (pre @ [t]) (follow_transition fx t)"
proof -
  let ?z = "mt_target t" and ?fx = "follow_transition fx t"
  let ?D = "D(?z := Suc (D s))"
  have base: "bfs_base ts I D (finished @ [s]) fx" and expl: "fx_explored fx = concat (map (leaving ts) finished) @ pre"
    and full: "\<forall>u \<in> set finished. \<forall>t \<in> set (leaving ts u). reaches_on D fx (D u) t"
    and pre: "\<forall>t \<in> set pre. reaches_on D fx (D s) t"
    and near: "\<forall>u \<in> set (fx_visited fx). D u \<le> Suc (D s)" "\<forall>u \<in> set (fx_queue fx). D s \<le> D u"
    using inv unfolding following_def by blast+
  note b = bfs_baseD [OF base]
  have fx: "fx_visited ?fx = fx_visited fx @ [?z]" "fx_queue ?fx = fx_queue fx @ [?z]"
    "fx_parents ?fx = dput ?z (Some t) (fx_parents fx)" "fx_explored ?fx = fx_explored fx @ [t]"
    using fresh by (simp_all add: follow_transition_def Let_def)
  have same: "?D u = D u" if "u \<in> set (fx_visited fx)" for u using that fresh by auto
  have s: "s \<in> set (fx_visited fx)" using b(1) by simp
  have sD: "?D s = D s" using same [OF s] .
  have inner: "u \<in> set (fx_visited fx)" if "u \<in> set (finished @ [s])" for u using that b(1) by auto
  have queued: "u \<in> set (fx_visited fx)" if "u \<in> set (fx_queue fx)" for u using that b(1) by simp
  have keys: "dkeys (fx_parents ?fx) = fx_visited ?fx"
    using b(3) fresh by (simp add: fx dput_absent dget_None_iff)
  have entry: "parent_ok ts I ?D (set (finished @ [s])) ?fx u \<and> (\<exists>path. model_run ts I path u \<and> length path = ?D u)"
    if u: "u \<in> set (fx_visited ?fx)" for u
  proof (cases "u = ?z")
    case True
    have "parent_ok ts I ?D (set (finished @ [s])) ?fx ?z" using t sD by (simp add: parent_ok_def fx)
    moreover from b(8) [OF s] obtain path where "model_run ts I path s" "length path = D s" by blast
    then have "model_run ts I (path @ [t]) ?z" "length (path @ [t]) = ?D ?z" using t by (auto intro: model_run.run_next)
    ultimately show ?thesis using True by blast
  next
    case False
    with u have old: "u \<in> set (fx_visited fx)" by (simp add: fx)
    have "parent_ok ts I ?D (set (finished @ [s])) ?fx u"
      by (rule parent_ok_cong [OF b(7) [OF old] _ subset_refl same [OF old] same [OF inner]]) (simp add: fx False)
    with b(8) [OF old] same [OF old] show ?thesis by simp
  qed
  have queue: "map ?D (fx_queue fx) = map D (fx_queue fx)" by (rule map_cong) (use same queued in blast)+
  have sorted: "sorted (map ?D (fx_queue ?fx))"
    unfolding fx(2) map_append queue sorted_append using b(6) near(1) queued by auto
  have base': "bfs_base ts I ?D (finished @ [s]) ?fx"
    unfolding bfs_base_def
  proof (intro conjI)
    show "fx_visited ?fx = (finished @ [s]) @ fx_queue ?fx" using b(1) by (simp add: fx)
    show "distinct (fx_visited ?fx)" using b(2) fresh by (simp add: fx)
    show "I \<subseteq> set (fx_visited ?fx)" using b(4) by (auto simp: fx)
    show "\<forall>i \<in> I. ?D i = 0" using b(4,5) fresh by auto
  qed (use keys entry sorted in blast)+
  have keep: "reaches_on ?D ?fx d u" if "reaches_on D fx d u" for d u
    by (rule reaches_on_cong [OF that _ same]) (auto simp: fx)
  show ?thesis
    unfolding following_def sD
  proof (intro conjI)
    show "fx_explored ?fx = concat (map (leaving ts) finished) @ pre @ [t]" by (simp add: fx expl)
    show "\<forall>u \<in> set finished. \<forall>t \<in> set (leaving ts u). reaches_on ?D ?fx (?D u) t"
      using full keep same [OF inner] by simp
    show "\<forall>t \<in> set (pre @ [t]). reaches_on ?D ?fx (D s) t"
      using pre keep by (auto simp: reaches_on_def fx)
    show "\<forall>u \<in> set (fx_visited ?fx). ?D u \<le> Suc (D s)" using near(1) by (auto simp: fx)
    show "\<forall>u \<in> set (fx_queue ?fx). D s \<le> ?D u" using near(2) by (auto simp: fx)
  qed (rule base')
qed

lemma explored_only:
  "bfs_base ts I D finished (fx\<lparr>fx_explored := e\<rparr>) \<longleftrightarrow> bfs_base ts I D finished fx"
  "reaches_on D (fx\<lparr>fx_explored := e\<rparr>) d t \<longleftrightarrow> reaches_on D fx d t"
  by (simp_all add: bfs_base_def parent_ok_def reaches_on_def)

lemma follow_known:
  assumes "following ts I D finished s pre fx" and "mt_target t \<in> set (fx_visited fx)"
  shows "following ts I D finished s (pre @ [t]) (follow_transition fx t)"
proof -
  have fx: "follow_transition fx t = fx\<lparr>fx_explored := fx_explored fx @ [t]\<rparr>"
    using assms(2) by (simp add: follow_transition_def)
  have "reaches_on D fx (D s) t" using assms unfolding following_def reaches_on_def by blast
  with assms(1) show ?thesis
    unfolding fx following_def explored_only by simp
qed

lemma follow_all:
  assumes "following ts I D finished s pre fx" and "set rest \<subseteq> set (leaving ts s)"
  shows "\<exists>D'. following ts I D' finished s (pre @ rest) (foldl follow_transition fx rest)"
  using assms
proof (induction rest arbitrary: D pre fx)
  case Nil
  then show ?case by auto
next
  case (Cons t rest)
  obtain D' where "following ts I D' finished s (pre @ [t]) (follow_transition fx t)"
    using Cons.prems follow_new follow_known by (metis list.set_intros(1) subsetD)
  from Cons.IH [OF this] Cons.prems(2) show ?case by simp
qed

lemma pop_following:
  assumes "bfs_inv ts I D finished fx" and "fx_queue fx = s # queue"
  shows "following ts I D finished s [] (fx\<lparr>fx_queue := queue\<rparr>)"
proof -
  let ?fx = "fx\<lparr>fx_queue := queue\<rparr>"
  have base: "bfs_base ts I D finished fx" and rest: "fx_explored fx = concat (map (leaving ts) finished)"
    "\<forall>s \<in> set finished. \<forall>t \<in> set (leaving ts s). reaches_on D fx (D s) t"
    "\<forall>u \<in> set (fx_visited fx). D u \<le> Suc (D s)"
    using assms unfolding bfs_inv_def by auto
  note b = bfs_baseD [OF base]
  have "parent_ok ts I D (set (finished @ [s])) ?fx u" if "u \<in> set (fx_visited fx)" for u
    by (rule parent_ok_cong [OF b(7) [OF that]]) auto
  then have "bfs_base ts I D (finished @ [s]) ?fx"
    using b assms(2) unfolding bfs_base_def by (simp add: sorted_wrt_append)
  moreover have "\<forall>u \<in> set queue. D s \<le> D u" using b(6) assms(2) by simp
  ultimately show ?thesis
    unfolding following_def using rest by (auto simp: reaches_on_def)
qed

lemma following_complete:
  assumes "following ts I D finished s (leaving ts s) fx"
  shows "bfs_inv ts I D (finished @ [s]) fx"
proof -
  have queue: "D u \<le> Suc (D (hd (fx_queue fx)))" if "fx_queue fx \<noteq> []" "u \<in> set (fx_visited fx)" for u
  proof -
    have "D u \<le> Suc (D s)" "D s \<le> D (hd (fx_queue fx))"
      using assms that unfolding following_def by (blast, metis hd_in_set)
    then show ?thesis by simp
  qed
  with assms show ?thesis unfolding bfs_inv_def following_def by auto
qed

lemma explore_complete:
  assumes "bfs_inv ts I D finished fx" and "\<And>s. dget_list adj s = leaving ts s"
  shows "\<exists>D' all. bfs_inv ts I D' all (explore adj fx) \<and> fx_queue (explore adj fx) = []"
  using assms
proof (induction adj fx arbitrary: D finished rule: explore.induct)
  case (1 adj fx)
  show ?case
  proof (cases "fx_queue fx")
    case Nil
    with "1.prems"(1) show ?thesis by (subst (1 2) explore.simps) auto
  next
    case (Cons s queue)
    have "following ts I D finished s [] (fx\<lparr>fx_queue := queue\<rparr>)" by (rule pop_following [OF "1.prems"(1) Cons])
    from follow_all [OF this, of "leaving ts s"] obtain D' where
      "following ts I D' finished s (leaving ts s) (foldl follow_transition (fx\<lparr>fx_queue := queue\<rparr>) (leaving ts s))" by auto
    from "1.IH" [OF Cons, unfolded "1.prems"(2), OF following_complete [OF this] refl] Cons show ?thesis
      by (subst (1 2) explore.simps) (simp add: "1.prems"(2))
  qed
qed

section \<open>What the fixed point has found\<close>

lemma dget_constant: "dget (map (\<lambda>i. (i, v)) xs) s = (if s \<in> set xs then Some v else None)"
  by (induction xs) auto

lemma initial_bfs_inv:
  assumes "distinct (map nat (mi_initial r))"
  shows "bfs_inv ts (set (map nat (mi_initial r))) (\<lambda>_. 0) [] (initial_fixed_point r)"
proof -
  have "parent_ok ts (set (map nat (mi_initial r))) (\<lambda>_. 0) {} (initial_fixed_point r) s"
    if "s \<in> set (map nat (mi_initial r))" for s
    using that unfolding parent_ok_def initial_fixed_point_def fixed_point.simps dget_constant by simp
  then show ?thesis
    unfolding bfs_inv_def bfs_base_def using assms
    by (auto simp: initial_fixed_point_def comp_def map_replicate_const intro!: exI [of _ "[]"] model_run.run_start)
qed

lemma explored_distance:
  assumes inv: "bfs_inv ts I D finished fx" and empty: "fx_queue fx = []" and run: "model_run ts I path s"
  shows "s \<in> set (fx_visited fx) \<and> D s \<le> length path"
  using run
proof (induction rule: model_run.induct)
  case (run_start i)
  then show ?case using inv unfolding bfs_inv_def bfs_base_def by auto
next
  case (run_next path s t)
  have base: "bfs_base ts I D finished fx" using inv unfolding bfs_inv_def by blast
  have "s \<in> set finished" using run_next.IH bfs_baseD(1) [OF base] empty by simp
  then have "reaches_on D fx (D s) t" using inv run_next.hyps unfolding bfs_inv_def by auto
  with run_next.IH show ?case by (auto simp: reaches_on_def)
qed

lemma parent_cases:
  assumes "parent_ok ts I D finished fx s"
  obtains (initial) "dget (fx_parents fx) s = Some None" "s \<in> I" "D s = 0"
  | (entered) t where "dget (fx_parents fx) s = Some (Some t)" "t \<in> set ts" "mt_target t = s" "mt_source t \<in> finished"
      "D s = Suc (D (mt_source t))"
  using assms unfolding parent_ok_def by (auto split: option.splits)

lemma distances_filled:
  assumes base: "bfs_base ts I D finished fx" and "s \<in> set (fx_visited fx)" and "k \<le> D s"
  shows "\<exists>u \<in> set (fx_visited fx). D u = k"
  using assms(2,3)
proof (induction "D s" arbitrary: s)
  case 0
  then show ?case by auto
next
  case (Suc d)
  show ?case
  proof (cases "k = Suc d")
    case True
    with Suc show ?thesis by auto
  next
    case False
    from bfs_baseD(7) [OF base Suc.prems(1)] show ?thesis
    proof (cases rule: parent_cases)
      case initial
      with Suc.hyps(2) show ?thesis by simp
    next
      case (entered t)
      then have "mt_source t \<in> set (fx_visited fx)" using bfs_baseD(1) [OF base] by simp
      moreover have "d = D (mt_source t)" "k \<le> D (mt_source t)" using entered(5) Suc False by simp_all
      ultimately show ?thesis using Suc.hyps(1) by blast
    qed
  qed
qed

lemma distance_bound:
  assumes "bfs_base ts I D finished fx" and "s \<in> set (fx_visited fx)"
  shows "D s < length (fx_parents fx)"
proof -
  have "{0..D s} \<subseteq> D ` set (fx_visited fx)" using distances_filled [OF assms] by force
  then have "Suc (D s) \<le> card (set (fx_visited fx))"
    by (metis card_atLeastAtMost card_image_le card_mono diff_zero finite_imageI finite_set le_trans)
  also have "\<dots> \<le> length (fx_visited fx)" by (rule card_length)
  also have "\<dots> = length (fx_parents fx)" using bfs_baseD(3) [OF assms(1)] by (metis length_map)
  finally show ?thesis by simp
qed

lemma walk_finds_run:
  assumes base: "bfs_base ts I D finished fx" and "s \<in> set (fx_visited fx)" and "D s < fuel"
  shows "\<exists>path. model_run ts I path s \<and> length path = D s
    \<and> walk_parents (fx_parents fx) fuel s acc = Inr (map mt_ordinal path @ rev acc)"
  using assms(2,3)
proof (induction "D s" arbitrary: s fuel acc)
  case 0
  then obtain n where fuel: "fuel = Suc n" by (cases fuel) auto
  from bfs_baseD(7) [OF base 0(2)] show ?case
  proof (cases rule: parent_cases)
    case initial
    then show ?thesis using fuel by (intro exI [of _ "[]"]) (auto intro: model_run.run_start)
  qed (use 0 in simp)
next
  case (Suc d)
  then obtain n where fuel: "fuel = Suc n" by (cases fuel) auto
  from bfs_baseD(7) [OF base Suc.prems(1)] show ?case
  proof (cases rule: parent_cases)
    case (entered t)
    then have "mt_source t \<in> set (fx_visited fx)" "d = D (mt_source t)" "D (mt_source t) < n"
      using bfs_baseD(1) [OF base] Suc fuel by simp_all
    from Suc.hyps(1) [OF this(2,1,3), of "acc @ [mt_ordinal t]"] obtain path where
      "model_run ts I path (mt_source t)" "length path = D (mt_source t)"
      "walk_parents (fx_parents fx) n (mt_source t) (acc @ [mt_ordinal t]) = Inr (map mt_ordinal path @ rev (acc @ [mt_ordinal t]))"
      by blast
    then show ?thesis
      using model_run.run_next [of ts I path "mt_source t" t] entered fuel by (intro exI [of _ "path @ [t]"]) simp
  qed (use Suc in simp)
qed

text \<open>The fixed point: reachable states, explored transitions and shortest runs.\<close>

abbreviation initial_states :: "model_input \<Rightarrow> nat set" where
  "initial_states r \<equiv> set (map nat (mi_initial r))"

lemma fixed_point_facts:
  assumes "distinct (map nat (mi_initial r))"
  shows "set (fx_visited (reachable_fixed_point r)) = {s. \<exists>path. model_run (mi_transitions r) (initial_states r) path s}"
    and "distinct (fx_visited (reachable_fixed_point r))"
    and "fx_explored (reachable_fixed_point r)
      = concat (map (leaving (mi_transitions r)) (fx_visited (reachable_fixed_point r)))"
    and "length (fx_parents (reachable_fixed_point r)) = length (fx_visited (reachable_fixed_point r))"
    and "model_run (mi_transitions r) (initial_states r) path0 s \<Longrightarrow>
      \<exists>path. counterexample_path s (fx_parents (reachable_fixed_point r)) = Inr (map mt_ordinal path)
        \<and> model_run (mi_transitions r) (initial_states r) path s
        \<and> (\<forall>path'. model_run (mi_transitions r) (initial_states r) path' s \<longrightarrow> length path \<le> length path')"
proof -
  let ?ts = "mi_transitions r" and ?I = "initial_states r" and ?fx = "reachable_fixed_point r"
  have adj: "dget_list (grouped mt_source ?ts) s = leaving ?ts s" for s by (simp add: dget_list_grouped leaving_def)
  from explore_complete [OF initial_bfs_inv [OF assms] adj] obtain D finished where
    inv: "bfs_inv ?ts ?I D finished ?fx" and empty: "fx_queue ?fx = []"
    unfolding reachable_fixed_point_def by blast
  have base: "bfs_base ?ts ?I D finished ?fx" using inv unfolding bfs_inv_def by blast
  note b = bfs_baseD [OF base]
  show visited: "set (fx_visited ?fx) = {s. \<exists>path. model_run ?ts ?I path s}"
    using b(8) explored_distance [OF inv empty] by blast
  show "distinct (fx_visited ?fx)" by (rule b(2))
  show "fx_explored ?fx = concat (map (leaving ?ts) (fx_visited ?fx))"
    using inv b(1) empty unfolding bfs_inv_def by simp
  show "length (fx_parents ?fx) = length (fx_visited ?fx)" using b(3) by (metis length_map)
  assume "model_run ?ts ?I path0 s"
  then have s: "s \<in> set (fx_visited ?fx)" using visited by blast
  from walk_finds_run [OF base s distance_bound [OF base s], of "[]"] obtain path where
    "model_run ?ts ?I path s" "length path = D s" "counterexample_path s (fx_parents ?fx) = Inr (map mt_ordinal path)"
    by (auto simp: counterexample_path_def)
  with explored_distance [OF inv empty] show "\<exists>path. counterexample_path s (fx_parents ?fx) = Inr (map mt_ordinal path)
      \<and> model_run ?ts ?I path s \<and> (\<forall>path'. model_run ?ts ?I path' s \<longrightarrow> length path \<le> length path')"
    by (metis)
qed

end
