(* ===== verification/OpacityCoverage.thy ===== *)
theory OpacityCoverage
  imports OpacityProofs "HOL-Library.Multiset"
begin

text \<open>
  An admitted transition model: what its validator guarantees about the reachable states, and that
  the coverage counted by the model check satisfies the coverage contract.
\<close>

section \<open>Counting by classes\<close>

lemma sum_of_classes:
  assumes "distinct ks" and "\<forall>x \<in> set xs. f x \<in> set ks"
  shows "sum_list (map (\<lambda>k. length (filter (\<lambda>x. f x = k) xs)) ks) = length xs"
proof -
  have "sum_list (map (\<lambda>k. length (filter (\<lambda>x. f x = k) xs)) ks) = length (filter (\<lambda>x. f x \<in> set ks) xs)"
    using assms(1)
  proof (induction ks)
    case (Cons k ks)
    then have "k \<notin> set ks" by simp
    then have "length (filter (\<lambda>x. f x \<in> set (k # ks)) xs) = length (filter (\<lambda>x. f x = k) xs) + length (filter (\<lambda>x. f x \<in> set ks) xs)"
      by (induction xs) auto
    with Cons show ?case by simp
  qed simp
  also have "\<dots> = length xs" using assms(2) by (simp add: filter_id_conv)
  finally show ?thesis .
qed

lemma leaving_visited:
  assumes "distinct vs"
  shows "mset (concat (map (leaving ts) vs)) = mset (filter (\<lambda>t. mt_source t \<in> set vs) ts)"
  using assms
proof (induction vs)
  case (Cons v vs)
  then have "v \<notin> set vs" by simp
  then have "mset (filter (\<lambda>t. mt_source t \<in> set (v # vs)) ts) = mset (leaving ts v) + mset (filter (\<lambda>t. mt_source t \<in> set vs) ts)"
    unfolding leaving_def by (induction ts) auto
  with Cons show ?case by simp
qed simp

lemma distinct_values_card: "distinct_values f xs = card (f ` set xs)"
  by (simp add: distinct_values_def length_remdups_card_conv)

section \<open>Admitted models\<close>

lemma ref_list_Inr: "ref_list lo hi xs \<longleftrightarrow> lo \<le> length xs \<and> length xs \<le> hi \<and> (\<forall>x \<in> set xs. safe_ref x)"
  by (simp add: ref_list_def sized_def list_all_iff)

lemma assumptions_facts:
  assumes "assumptions_valid a"
  shows "distinct (as_strategies a)" "sorted (as_strategies a)" "length (as_strategies a) \<le> 64" "as_strategies a \<noteq> []"
      "\<forall>x \<in> set (as_strategies a). safe_ref x"
    and "distinct (as_schedulers a)" "length (as_schedulers a) \<le> 64" "as_schedulers a \<noteq> []"
    and "distinct (as_environments a)" "length (as_environments a) \<le> 64" "as_environments a \<noteq> []"
    and "distinct (as_orders a)" "length (as_orders a) \<le> 64" "as_orders a \<noteq> []"
  using assms by (auto simp: assumptions_valid_def ref_list_Inr canonical_refs_def sorted_unique_iff)

lemma model_facts:
  assumes "model_input_valid r"
  shows "assumptions_valid (mi_assumptions r)" "model_counts_valid (mi_counts r)" "mi_counts r = realized_counts r"
    and "declared_domains_valid (mi_assumptions r) (mi_states r)" "initial_domain_valid r"
    and "\<forall>i \<in> set (mi_initial r). 0 \<le> i \<and> i < int (length (mi_states r))" "distinct (mi_initial r)"
    and "\<forall>t \<in> set (mi_transitions r). mt_source t < length (mi_states r) \<and> mt_target t < length (mi_states r)"
    and "map ms_ordinal (mi_states r) = [0..<length (mi_states r)]"
    and "map mt_ordinal (mi_transitions r) = [0..<length (mi_transitions r)]"
    and "\<forall>s \<in> set (mi_states r). model_state_valid s" "length (mi_states r) \<le> MAX_OPACITY_MODEL_STATES"
    and "length (mi_transitions r) \<le> MAX_OPACITY_MODEL_TRANSITIONS"
    and "model_claim_scope_valid (mi_claim r) (mi_assumptions r)" "claim_valid (mi_claim r)"
  using assms
  by (auto simp: model_input_valid_def model_identities_valid_def model_transitions_valid_def sorted_unique_iff
      list_all_iff sized_def)

lemma initial_distinct:
  assumes "model_input_valid r"
  shows "distinct (map nat (mi_initial r))"
  using model_facts(6,7) [OF assms] by (auto simp: distinct_map inj_on_def eq_nat_nat_iff)

lemma state_at:
  assumes "model_input_valid r" and "i < length (mi_states r)"
  shows "ms_ordinal (mi_states r ! i) = i"
  using arg_cong [OF model_facts(9) [OF assms(1)], of "\<lambda>xs. xs ! i"] assms(2) by simp

lemma transition_at:
  assumes "model_input_valid r" and "t \<in> set (mi_transitions r)"
  shows "mi_transitions r ! mt_ordinal t = t" "mt_ordinal t < length (mi_transitions r)"
proof -
  obtain i where i: "i < length (mi_transitions r)" "t = mi_transitions r ! i" using assms(2) by (auto simp: in_set_conv_nth)
  have "mt_ordinal t = i" using arg_cong [OF model_facts(10) [OF assms(1)], of "\<lambda>xs. xs ! i"] i by simp
  with i show "mi_transitions r ! mt_ordinal t = t" "mt_ordinal t < length (mi_transitions r)" by simp_all
qed

lemma run_in_range:
  assumes "model_input_valid r" and "model_run (mi_transitions r) (initial_states r) path s"
  shows "s < length (mi_states r)"
  using assms(2)
proof (cases rule: model_run.cases)
  case run_start
  then show ?thesis using model_facts(6) [OF assms(1)] by auto
qed (use model_facts(8) [OF assms(1)] in auto)

section \<open>The reachable part\<close>

definition reached :: "model_input \<Rightarrow> nat list" where
  "reached r = fx_visited (reachable_fixed_point r)"

lemma reached_facts:
  assumes "model_input_valid r"
  shows "set (reached r) = {s. \<exists>path. model_run (mi_transitions r) (initial_states r) path s}"
    and "distinct (reached r)" "set (reached r) \<subseteq> {0..<length (mi_states r)}" "initial_states r \<subseteq> set (reached r)"
  using fixed_point_facts(1,2) [OF initial_distinct [OF assms]] run_in_range [OF assms]
  by (auto simp: reached_def intro: model_run.run_start)

abbreviation reached_states :: "model_input \<Rightarrow> model_state list" where
  "reached_states r \<equiv> reachable_states r (reachable_fixed_point r)"

lemma set_reached_states: "set (reached_states r) = (\<lambda>i. mi_states r ! i) ` set (reached r)"
  by (simp add: reachable_states_def reached_def)

lemma reached_states_declared:
  assumes "model_input_valid r" and "s \<in> set (reached_states r)"
  shows "s \<in> set (mi_states r)"
  using reached_facts(3) [OF assms(1)] assms(2) by (auto simp: set_reached_states)

lemma reached_domains:
  assumes "model_input_valid r"
  shows "ms_strategy ` set (reached_states r) = set (as_strategies (mi_assumptions r))"
    and "(\<lambda>s. (ms_scheduler s, ms_environment s)) ` set (reached_states r)
      = set (as_schedulers (mi_assumptions r)) \<times> set (as_environments (mi_assumptions r))"
    and "ms_order ` set (reached_states r) = set (as_orders (mi_assumptions r))"
proof -
  let ?a = "mi_assumptions r"
  note a = assumptions_facts [OF model_facts(1) [OF assms]]
  have declared: "ms_strategy ` set (mi_states r) = set (as_strategies ?a)" "ms_order ` set (mi_states r) = set (as_orders ?a)"
    "(\<lambda>s. (ms_scheduler s, ms_environment s)) ` set (mi_states r) = set (as_schedulers ?a) \<times> set (as_environments ?a)"
    using model_facts(4) [OF assms] by (simp_all add: declared_domains_valid_def)
  have subset: "set (reached_states r) \<subseteq> set (mi_states r)" using reached_states_declared [OF assms] by blast
  have cover: "\<exists>s \<in> set (reached_states r). state_domain s = d"
    if "d \<in> set (as_strategies ?a) \<times> set (as_schedulers ?a) \<times> set (as_environments ?a) \<times> set (as_orders ?a)" for d
  proof -
    have "d \<in> set (map (\<lambda>i. state_domain (mi_states r ! nat i)) (mi_initial r))"
      using model_facts(5) [OF assms] that unfolding initial_domain_valid_def Let_def by simp
    then obtain i where "i \<in> set (mi_initial r)" "d = state_domain (mi_states r ! nat i)" by auto
    moreover have "nat i \<in> set (reached r)" using reached_facts(4) [OF assms] \<open>i \<in> set (mi_initial r)\<close> by auto
    ultimately show ?thesis by (auto simp: set_reached_states)
  qed
  obtain w x y z where some: "w \<in> set (as_strategies ?a)" "x \<in> set (as_schedulers ?a)" "y \<in> set (as_environments ?a)" "z \<in> set (as_orders ?a)"
    using a(4,8,11,14) by (meson last_in_set)
  show "ms_strategy ` set (reached_states r) = set (as_strategies ?a)"
  proof (intro equalityI)
    show "ms_strategy ` set (reached_states r) \<subseteq> set (as_strategies ?a)" using declared(1) subset by blast
    show "set (as_strategies ?a) \<subseteq> ms_strategy ` set (reached_states r)"
      using cover [of "(v, x, y, z)" for v] some by (force simp: state_domain_def)
  qed
  show "(\<lambda>s. (ms_scheduler s, ms_environment s)) ` set (reached_states r) = set (as_schedulers ?a) \<times> set (as_environments ?a)"
  proof (intro equalityI)
    show "(\<lambda>s. (ms_scheduler s, ms_environment s)) ` set (reached_states r) \<subseteq> set (as_schedulers ?a) \<times> set (as_environments ?a)"
      using declared(3) subset by blast
    show "set (as_schedulers ?a) \<times> set (as_environments ?a) \<subseteq> (\<lambda>s. (ms_scheduler s, ms_environment s)) ` set (reached_states r)"
      using cover [of "(w, fst v, snd v, z)" for v] some by (force simp: state_domain_def)
  qed
  show "ms_order ` set (reached_states r) = set (as_orders ?a)"
  proof (intro equalityI)
    show "ms_order ` set (reached_states r) \<subseteq> set (as_orders ?a)" using declared(2) subset by blast
    show "set (as_orders ?a) \<subseteq> ms_order ` set (reached_states r)"
      using cover [of "(w, x, y, v)" for v] some by (force simp: state_domain_def)
  qed
qed

section \<open>The coverage contract\<close>

lemma reached_count:
  assumes "model_input_valid r"
  shows "length (reached_states r) = card (set (reached r))" "length (reached_states r) \<le> length (mi_states r)"
proof -
  note reached = reached_facts [OF assms]
  show "length (reached_states r) = card (set (reached r))"
    using distinct_card [OF reached(2)] by (simp add: reachable_states_def reached_def)
  also have "\<dots> \<le> card {0..<length (mi_states r)}" using reached(3) by (intro card_mono) auto
  finally show "length (reached_states r) \<le> length (mi_states r)" by simp
qed

lemma explored_facts:
  assumes "model_input_valid r"
  shows "mset (fx_explored (reachable_fixed_point r)) = mset (filter (\<lambda>t. mt_source t \<in> set (reached r)) (mi_transitions r))"
    and "set (fx_explored (reachable_fixed_point r)) \<subseteq> set (mi_transitions r)"
    and "length (fx_explored (reachable_fixed_point r)) \<le> length (mi_transitions r)"
proof -
  show m: "mset (fx_explored (reachable_fixed_point r)) = mset (filter (\<lambda>t. mt_source t \<in> set (reached r)) (mi_transitions r))"
    using fixed_point_facts(2,3) [OF initial_distinct [OF assms]] leaving_visited by (simp add: reached_def)
  show "set (fx_explored (reachable_fixed_point r)) \<subseteq> set (mi_transitions r)"
    using mset_eq_setD [OF m] by auto
  show "length (fx_explored (reachable_fixed_point r)) \<le> length (mi_transitions r)"
    using mset_eq_length [OF m] by simp
qed

lemma card_pairs: "distinct xs \<Longrightarrow> distinct ys \<Longrightarrow> card (set xs \<times> set ys) = length xs * length ys"
  by (simp add: card_cartesian_product distinct_card)

lemma declared_counts:
  assumes "model_input_valid r"
  shows "mc_states (mi_counts r) = length (mi_states r)" "mc_transitions (mi_counts r) = length (mi_transitions r)"
    and "mc_strategies (mi_counts r) = length (as_strategies (mi_assumptions r))"
    and "mc_pairs (mi_counts r) = length (as_schedulers (mi_assumptions r)) * length (as_environments (mi_assumptions r))"
    and "mc_orders (mi_counts r) = length (as_orders (mi_assumptions r))"
proof -
  note a = assumptions_facts [OF model_facts(1) [OF assms]]
  note d = model_facts(4) [OF assms, unfolded declared_domains_valid_def set_map]
  show "mc_states (mi_counts r) = length (mi_states r)" "mc_transitions (mi_counts r) = length (mi_transitions r)"
    by (simp_all add: model_facts(3) [OF assms] realized_counts_def)
  show "mc_strategies (mi_counts r) = length (as_strategies (mi_assumptions r))"
    "mc_pairs (mi_counts r) = length (as_schedulers (mi_assumptions r)) * length (as_environments (mi_assumptions r))"
    "mc_orders (mi_counts r) = length (as_orders (mi_assumptions r))"
    using d distinct_card [OF a(1)] distinct_card [OF a(12)] card_pairs [OF a(6,9)]
    by (simp_all add: model_facts(3) [OF assms] realized_counts_def distinct_values_card)
qed

lemma coverage_strategies:
  assumes "model_input_valid r"
  defines "c \<equiv> coverage_of r (reached_states r) (fx_explored (reachable_fixed_point r))"
  shows "sum_list (map sv_states (cv_strategies c)) = cv_states c" "sum_list (map sv_points (cv_strategies c)) = cv_points c"
    and "sum_list (map sv_transitions (cv_strategies c)) = cv_transitions c" "sum_list (map sv_secret (cv_strategies c)) = cv_secret c"
    and "list_all strategy_coverage_valid (cv_strategies c)"
proof -
  let ?ks = "as_strategies (mi_assumptions r)" and ?S = "reached_states r" and ?E = "fx_explored (reachable_fixed_point r)"
  note a = assumptions_facts [OF model_facts(1) [OF assms(1)]]
  note reached = reached_domains(1) [OF assms(1)]
  have in_ks: "\<forall>s \<in> set (filter P ?S). ms_strategy s \<in> set ?ks" for P using reached by auto
  have source: "mi_states r ! mt_source t \<in> set ?S" if "t \<in> set ?E" for t
    using that mset_eq_setD [OF explored_facts(1) [OF assms(1)]] by (auto simp: set_reached_states)
  have "\<forall>t \<in> set ?E. ms_strategy (mi_states r ! mt_source t) \<in> set ?ks"
    using source reached by blast
  note sums = sum_of_classes [OF a(1) in_ks] sum_of_classes [OF a(1) this]
  show "sum_list (map sv_states (cv_strategies c)) = cv_states c"
    using sums(1) [of "\<lambda>_. True"] by (simp add: c_def coverage_of_def strategy_coverage_of_def Let_def comp_def)
  show "sum_list (map sv_points (cv_strategies c)) = cv_points c"
    using sums(1) [of ms_evaluation] by (simp add: c_def coverage_of_def strategy_coverage_of_def Let_def comp_def conj_comms)
  show "sum_list (map sv_transitions (cv_strategies c)) = cv_transitions c"
    using sums(2) by (simp add: c_def coverage_of_def strategy_coverage_of_def Let_def comp_def)
  show "sum_list (map sv_secret (cv_strategies c)) = cv_secret c"
    using sums(1) [of "\<lambda>s. ms_evaluation s \<and> ms_secret s"]
    by (simp add: c_def coverage_of_def strategy_coverage_of_def Let_def comp_def conj_comms)
  show "list_all strategy_coverage_valid (cv_strategies c)"
    unfolding list_all_iff
  proof
    fix v assume "v \<in> set (cv_strategies c)"
    then obtain k where k: "k \<in> set ?ks" "v = strategy_coverage_of r ?S ?E k" by (auto simp: c_def coverage_of_def Let_def)
    have "k \<in> ms_strategy ` set ?S" using k(1) reached by simp
    then have "filter (\<lambda>s. ms_strategy s = k) ?S \<noteq> []" by (auto simp: filter_empty_conv)
    moreover have "length (filter P ?S) \<le> MAX_OPACITY_MODEL_STATES" for P
      using length_filter_le [of P ?S] reached_count(2) [OF assms(1)] model_facts(12) [OF assms(1)] by linarith
    moreover have "length (filter P ?E) \<le> MAX_OPACITY_MODEL_TRANSITIONS" for P
      using length_filter_le [of P ?E] explored_facts(3) [OF assms(1)] model_facts(13) [OF assms(1)] by linarith
    ultimately show "strategy_coverage_valid v"
      using a(5) k by (auto simp: strategy_coverage_valid_def strategy_coverage_of_def Let_def Suc_le_eq)
  qed
qed

lemma coverage_valid_reached:
  assumes "model_input_valid r"
  shows "coverage_valid (coverage_of r (reached_states r) (fx_explored (reachable_fixed_point r)))"
proof -
  let ?a = "mi_assumptions r" and ?c = "coverage_of r (reached_states r) (fx_explored (reachable_fixed_point r))"
  note a = assumptions_facts [OF model_facts(1) [OF assms]]
  have states: "cv_states ?c = length (reached_states r)" "cv_transitions ?c = length (fx_explored (reachable_fixed_point r))"
    "cv_declared ?c = mi_counts r" "cv_points ?c = length (filter ms_evaluation (reached_states r))"
    "cv_secret ?c = length (filter ms_secret (filter ms_evaluation (reached_states r)))"
    "map sv_strategy (cv_strategies ?c) = as_strategies ?a" "length (cv_strategies ?c) = length (as_strategies ?a)"
    by (simp_all add: coverage_of_def strategy_coverage_of_def Let_def comp_def)
  have points: "cv_points ?c \<le> cv_states ?c" "cv_secret ?c \<le> cv_points ?c"
    unfolding states by (rule length_filter_le)+
  have pairs: "cv_pairs ?c = length (as_schedulers ?a) * length (as_environments ?a)" "cv_orders ?c = length (as_orders ?a)"
    using reached_domains(2,3) [OF assms] card_pairs [OF a(6,9)] distinct_card [OF a(12)]
    by (simp_all add: coverage_of_def Let_def distinct_values_card)
  have "cv_pairs ?c \<le> 64 * 64" unfolding pairs using a(7,10) by (intro mult_le_mono)
  moreover have "cv_states ?c \<le> mc_states (cv_declared ?c)" "cv_transitions ?c \<le> mc_transitions (cv_declared ?c)"
    using reached_count(2) [OF assms] explored_facts(3) [OF assms] by (simp_all add: states declared_counts [OF assms])
  moreover have "mc_states (cv_declared ?c) \<le> MAX_OPACITY_MODEL_STATES" "mc_transitions (cv_declared ?c) \<le> MAX_OPACITY_MODEL_TRANSITIONS"
    "model_counts_valid (cv_declared ?c)"
    using model_facts(2) [OF assms] by (simp_all add: states model_counts_valid_def)
  ultimately show ?thesis
    unfolding coverage_valid_def sorted_unique_iff
    using points pairs(2) states(6,7) a(1,2,3,13) coverage_strategies [OF assms] by auto
qed

end
