(* ===== verification/OpacityProperties.thy ===== *)
theory OpacityProperties
  imports OpacityCoverage
begin

text \<open>
  The properties of participant opacity: the model check decides opacity over the reachable
  evaluation points and returns after admission, unless the taxonomy revision is too long; the bounded analysis decides it over a carrier.
\<close>

section \<open>Reachable evaluation points\<close>

definition evaluation_points :: "model_input \<Rightarrow> model_state set" where
  "evaluation_points r =
     {mi_states r ! s | s path. model_run (mi_transitions r) (initial_states r) path s \<and> ms_evaluation (mi_states r ! s)}"

text \<open>Two states that a participant cannot tell apart.\<close>

definition indistinguishable :: "model_state \<Rightarrow> model_state \<Rightarrow> bool" where
  "indistinguishable s u \<longleftrightarrow> information_cell_key (kernel_state s) = information_cell_key (kernel_state u)"

definition exposed_state :: "model_input \<Rightarrow> model_state \<Rightarrow> bool" where
  "exposed_state r s \<longleftrightarrow>
     s \<in> evaluation_points r \<and> ms_secret s \<and> (\<forall>u \<in> evaluation_points r. indistinguishable s u \<longrightarrow> ms_secret u)"

abbreviation reached_points :: "model_input \<Rightarrow> model_state list" where
  "reached_points r \<equiv> filter ms_evaluation (reached_states r)"

lemma set_reached_points:
  assumes "model_input_valid r"
  shows "set (reached_points r) = evaluation_points r"
  using reached_facts(1) [OF assms] by (auto simp: evaluation_points_def set_reached_states)

lemma kernel_state_fields [simp]:
  "kp_secret (kernel_state s) = ms_secret s" "kp_ordinal (kernel_state s) = ms_ordinal s"
  by (simp_all add: kernel_state_def)

lemma exposed_kernel_state:
  assumes "model_input_valid r" and "s \<in> evaluation_points r"
  shows "exposed (map kernel_state (reached_points r)) (kernel_state s) \<longleftrightarrow> exposed_state r s"
  unfolding exposed_def exposed_state_def list.set_map set_reached_points [OF assms(1)] indistinguishable_def
  using assms(2) by auto

lemma evaluation_point_at:
  assumes "model_input_valid r" and "s \<in> evaluation_points r"
  shows "mi_states r ! ms_ordinal s = s" "ms_ordinal s < length (mi_states r)"
    and "\<exists>path. model_run (mi_transitions r) (initial_states r) path (ms_ordinal s)"
proof -
  obtain i path where i: "s = mi_states r ! i" "model_run (mi_transitions r) (initial_states r) path i"
    using assms(2) by (auto simp: evaluation_points_def)
  then have "ms_ordinal s = i" using state_at [OF assms(1)] run_in_range [OF assms(1)] by blast
  with i run_in_range [OF assms(1)] show "mi_states r ! ms_ordinal s = s" "ms_ordinal s < length (mi_states r)"
    "\<exists>path. model_run (mi_transitions r) (initial_states r) path (ms_ordinal s)" by auto
qed

text \<open>The kernel on the reached points.\<close>

lemma kernel_on_reached:
  assumes "model_input_valid r"
  shows "kr_secret (evaluate_opacity_kernel (map kernel_state (reached_points r))) = 0
      \<longleftrightarrow> (\<forall>s \<in> evaluation_points r. \<not> ms_secret s)"
    and "kr_counterexample (evaluate_opacity_kernel (map kernel_state (reached_points r))) = None
      \<longleftrightarrow> (\<forall>s \<in> evaluation_points r. \<not> exposed_state r s)"
    and "kr_counterexample (evaluate_opacity_kernel (map kernel_state (reached_points r))) = Some n \<Longrightarrow>
      n < length (mi_states r) \<and> exposed_state r (mi_states r ! n)
      \<and> (\<forall>s \<in> evaluation_points r. exposed_state r s \<longrightarrow> n \<le> ms_ordinal s)
      \<and> (\<exists>cell. kr_cell (evaluate_opacity_kernel (map kernel_state (reached_points r))) = Some cell
           \<and> 1 \<le> cell \<and> cell \<le> length (reached_points r))"
proof -
  let ?P = "map kernel_state (reached_points r)"
  note kernel = evaluate_opacity_kernel_facts [of ?P]
  have points: "set ?P = kernel_state ` evaluation_points r" unfolding set_map set_reached_points [OF assms] ..
  show "kr_secret (evaluate_opacity_kernel ?P) = 0 \<longleftrightarrow> (\<forall>s \<in> evaluation_points r. \<not> ms_secret s)"
    unfolding kernel(2) length_0_conv filter_empty_conv points by auto
  show "kr_counterexample (evaluate_opacity_kernel ?P) = None \<longleftrightarrow> (\<forall>s \<in> evaluation_points r. \<not> exposed_state r s)"
    unfolding kernel(3) points using exposed_kernel_state [OF assms] by auto
  assume n: "kr_counterexample (evaluate_opacity_kernel ?P) = Some n"
  from kernel(5) [OF n] obtain p where p: "p \<in> set ?P" "exposed ?P p" "kp_ordinal p = n"
    "\<forall>q \<in> set ?P. exposed ?P q \<longrightarrow> n \<le> kp_ordinal q"
    "kr_cell (evaluate_opacity_kernel ?P) = Some (length (information_cell ?P p))" by blast
  then obtain s where s: "s \<in> evaluation_points r" "p = kernel_state s" unfolding points by blast
  have "ms_ordinal s = n" using p(3) s(2) by simp
  moreover have "exposed_state r s" using exposed_kernel_state [OF assms s(1)] p(2) s(2) by simp
  moreover have "n \<le> ms_ordinal u" if "u \<in> evaluation_points r" "exposed_state r u" for u
    using p(4) exposed_kernel_state [OF assms that(1)] that unfolding points by auto
  moreover have "p \<in> set (information_cell ?P p)" using p(1) by (simp add: information_cell_def)
  then have "1 \<le> length (information_cell ?P p)" by (cases "information_cell ?P p") auto
  moreover have "length (information_cell ?P p) \<le> length (reached_points r)"
    using length_filter_le [of _ ?P] by (simp add: information_cell_def)
  ultimately show "n < length (mi_states r) \<and> exposed_state r (mi_states r ! n)
      \<and> (\<forall>s \<in> evaluation_points r. exposed_state r s \<longrightarrow> n \<le> ms_ordinal s)
      \<and> (\<exists>cell. kr_cell (evaluate_opacity_kernel ?P) = Some cell \<and> 1 \<le> cell \<and> cell \<le> length (reached_points r))"
    using evaluation_point_at(1,2) [OF assms s(1)] p(5) by auto
qed

section \<open>The evidence of a model check\<close>

lemma model_evidence_fields:
  assumes "model_evidence_of dg r checker carrier_digest coverage outcome diagnostics counterexample unsupported = Inr e"
  shows "me_outcome e = outcome" "me_counterexample e = counterexample" "model_evidence_valid dg e"
    and "me_taxonomy_revision e = cl_taxonomy_revision (mi_claim r)"
  using assms by (auto simp: model_evidence_of_def Let_def ebind_eq_Inr require_eq_Inr)

lemma model_check_cases:
  assumes "model_check_participant_opacity_input dg package_version r pr catalog = Inr e"
  obtains (unsupported) "me_outcome e = UnsupportedCheck" "unsupported_diagnostics r \<noteq> []" "model_evidence_valid dg e"
  | (checked) checker where "reachable_evidence dg r checker = Inr e" "unsupported_diagnostics r = []"
  using assms
  by (auto simp: model_check_participant_opacity_input_def unsupported_evidence_def ebind_eq_Inr split: if_splits
      dest: model_evidence_fields)

lemma reachable_evidence_cases:
  assumes "reachable_evidence dg r checker = Inr e"
  obtains (vacuous) "kr_secret (evaluate_opacity_kernel (map kernel_state (reached_points r))) = 0" "me_outcome e = VacuousSecret"
  | (counterexample) n path x where
      "kr_counterexample (evaluate_opacity_kernel (map kernel_state (reached_points r))) = Some n"
      "counterexample_path n (fx_parents (reachable_fixed_point r)) = Inr path"
      "me_outcome e = CounterexampleFound" "me_counterexample e = Some x" "xc_state x = n" "xc_path x = path"
  | (holds) "kr_secret (evaluate_opacity_kernel (map kernel_state (reached_points r))) \<noteq> 0"
      "kr_counterexample (evaluate_opacity_kernel (map kernel_state (reached_points r))) = None" "me_outcome e = Holds"
proof -
  let ?result = "evaluate_opacity_kernel (map kernel_state (reached_points r))"
  note cell = evaluate_opacity_kernel_facts(4) [of "map kernel_state (reached_points r)"]
  show thesis
  proof (cases "kr_secret ?result = 0")
    case True
    with assms have "me_outcome e = VacuousSecret"
      by (auto simp: reachable_evidence_def Let_def ebind_eq_Inr dest: model_evidence_fields(1))
    with True show thesis by (rule vacuous)
  next
    case secret: False
    show thesis
    proof (cases "kr_counterexample ?result")
      case None
      with assms secret have "me_outcome e = Holds"
        by (auto simp: reachable_evidence_def Let_def ebind_eq_Inr dest: model_evidence_fields(1))
      with None secret show thesis by (intro holds)
    next
      case (Some n)
      with cell obtain k where "kr_cell ?result = Some k" by auto
      with Some assms secret obtain path x carrier coverage where
        "counterexample_path n (fx_parents (reachable_fixed_point r)) = Inr path"
        "path_counterexample_of dg r carrier n path k = Inr x"
        "model_evidence_of dg r checker carrier coverage CounterexampleFound [] (Some x) None = Inr e"
        by (auto simp: reachable_evidence_def Let_def ebind_eq_Inr)
      with Some show thesis
        by (intro counterexample)
          (auto simp: path_counterexample_of_def Let_def ebind_eq_Inr dest: model_evidence_fields)
    qed
  qed
qed

lemma reachable_evidence_valid: "reachable_evidence dg r checker = Inr e \<Longrightarrow> model_evidence_valid dg e"
  by (auto simp: reachable_evidence_def Let_def ebind_eq_Inr split: if_splits option.splits dest: model_evidence_fields(3))

lemma checked_payload: "reachable_evidence dg r checker = Inr e \<Longrightarrow> payload_presence_valid e"
  using reachable_evidence_valid by (auto simp: model_evidence_valid_def)

lemma run_transitions:
  assumes "model_run ts I path s"
  shows "set path \<subseteq> set ts"
  using assms by (induction rule: model_run.induct) auto

text \<open>C21: the outcome of a model check is the truth about opacity over the reachable evaluation points: it
  holds exactly when there is a secret point and every secret point has an indistinguishable point that is
  not secret; a counterexample is the secret point with the lowest ordinal whose whole cell is secret.\<close>

theorem model_check_decides_opacity:
  assumes "model_input_valid r" and "model_check_participant_opacity_input dg package_version r pr catalog = Inr e"
  shows "case me_outcome e of
      Holds \<Rightarrow> (\<exists>s \<in> evaluation_points r. ms_secret s)
        \<and> (\<forall>s \<in> evaluation_points r. ms_secret s \<longrightarrow> (\<exists>u \<in> evaluation_points r. indistinguishable s u \<and> \<not> ms_secret u))
    | CounterexampleFound \<Rightarrow> (\<exists>x. me_counterexample e = Some x \<and> exposed_state r (mi_states r ! xc_state x)
        \<and> (\<forall>s. exposed_state r s \<longrightarrow> xc_state x \<le> ms_ordinal s))
    | VacuousSecret \<Rightarrow> \<forall>s \<in> evaluation_points r. \<not> ms_secret s
    | UnsupportedCheck \<Rightarrow> unsupported_diagnostics r \<noteq> []"
  using assms(2)
proof (cases rule: model_check_cases)
  case (checked checker)
  note kernel = kernel_on_reached [OF assms(1)]
  from checked(1) show ?thesis
  proof (cases rule: reachable_evidence_cases)
    case vacuous
    with kernel(1) show ?thesis by simp
  next
    case (counterexample n path x)
    have "exposed_state r s \<longrightarrow> n \<le> ms_ordinal s" for s
      using kernel(3) [OF counterexample(1)] by (auto simp: exposed_state_def)
    with kernel(3) [OF counterexample(1)] counterexample(3-5) show ?thesis by auto
  next
    case holds
    have "\<exists>s \<in> evaluation_points r. ms_secret s" using holds(1) unfolding kernel(1) by blast
    moreover have "\<forall>s \<in> evaluation_points r. ms_secret s \<longrightarrow> (\<exists>u \<in> evaluation_points r. indistinguishable s u \<and> \<not> ms_secret u)"
      using holds(2) kernel(2) by (auto simp: exposed_state_def)
    ultimately show ?thesis by (simp add: holds(3))
  qed
qed simp

text \<open>C22: the counterexample of a model check carries a path of the transition model: the transitions that it
  names lead from an initial state to the reported state, and no run to that state is shorter.\<close>

theorem counterexample_is_shortest_run:
  assumes "model_input_valid r" and "model_check_participant_opacity_input dg package_version r pr catalog = Inr e"
    and "me_counterexample e = Some x"
  shows "model_run (mi_transitions r) (initial_states r) (map (\<lambda>i. mi_transitions r ! i) (xc_path x)) (xc_state x)
    \<and> (\<forall>path. model_run (mi_transitions r) (initial_states r) path (xc_state x) \<longrightarrow> length (xc_path x) \<le> length path)"
  using assms(2)
proof (cases rule: model_check_cases)
  case unsupported
  then show ?thesis using assms(3) by (simp add: model_evidence_valid_def payload_presence_valid_def)
next
  case (checked checker)
  from checked(1) show ?thesis
  proof (cases rule: reachable_evidence_cases)
    case (counterexample n path y)
    then have x: "xc_state x = n" "xc_path x = path" using assms(3) by simp_all
    have "exposed_state r (mi_states r ! n)" "n < length (mi_states r)"
      using kernel_on_reached(3) [OF assms(1) counterexample(1)] by blast+
    then obtain path0 where "model_run (mi_transitions r) (initial_states r) path0 n"
      using evaluation_point_at(3) [OF assms(1)] state_at [OF assms(1)] unfolding exposed_state_def by metis
    from fixed_point_facts(5) [OF initial_distinct [OF assms(1)] this] counterexample(2) obtain ts where
      ts: "path = map mt_ordinal ts" "model_run (mi_transitions r) (initial_states r) ts n"
      "\<forall>path'. model_run (mi_transitions r) (initial_states r) path' n \<longrightarrow> length ts \<le> length path'" by auto
    have "map (\<lambda>i. mi_transitions r ! i) path = ts"
      using run_transitions [OF ts(2)] transition_at(1) [OF assms(1)] unfolding ts(1) map_map by (intro map_idI) auto
    with ts x show ?thesis by simp
  qed (use assms(3) checked_payload [OF checked(1)] in \<open>auto simp: payload_presence_valid_def\<close>)
qed

section \<open>After admission nothing fails\<close>

lemma six_digits_valid:
  assumes "n < 4096"
  shows "counterexample_ref_valid name (counterexample_ref name n)"
proof -
  have "length (digits_of n) \<le> length (digits_of 4095)" using assms by (intro length_digits_of_mono) simp
  moreover have "length (digits_of 4095) = 4" by code_simp
  moreover have "list_all is_digit (digits_of n)"
    using digits_of_canonical [of n] by (auto simp: is_array_index_token_def split: if_splits)
  ultimately show ?thesis
    by (auto simp: counterexample_ref_valid_def counterexample_ref_def six_digits_def list_all_iff is_digit_def)
qed

lemma walk_length: "walk_parents parents fuel s acc = Inr path \<Longrightarrow> length path \<le> fuel + length acc"
  by (induction parents fuel s acc rule: walk_parents.induct) (auto split: option.splits)

text \<open>What the admission establishes about the claim.\<close>

lemma admitted_claim:
  assumes "validate_admission dg r pr catalog = Inr ()"
  shows "mi_profile r = pr_id pr" "mi_profile_revision r = pr_revision pr"
    and "cl_taxonomy (mi_claim r) = pr_taxonomy pr" "cl_relation (mi_claim r) = pr_relation pr"
    and "cl_profile (mi_claim r) = Some (pr_id pr)" "cl_profile_revision (mi_claim r) = Some (pr_revision pr)"
proof -
  have binding: "check_claim_binding (mi_claim r) catalog pr = Inr ()"
    and ids: "mi_profile r = pr_id pr" "mi_profile_revision r = pr_revision pr"
    using assms
    by (auto simp: validate_admission_def ebind_eq_Inr operational_def require_eq_Inr resolved_def
        split: sum.splits opacity_error.splits)
  then have "check_binding_profile (mi_claim r) catalog pr = Inr ()"
    by (auto simp: check_claim_binding_def ebind_eq_Inr split: if_splits)
  then show "cl_taxonomy (mi_claim r) = pr_taxonomy pr" "cl_relation (mi_claim r) = pr_relation pr"
    "cl_profile (mi_claim r) = Some (pr_id pr)" "cl_profile_revision (mi_claim r) = Some (pr_revision pr)"
    by (auto simp: check_binding_profile_def ebind_eq_Inr echeck_eq_Inr require_eq_Inr)
  show "mi_profile r = pr_id pr" "mi_profile_revision r = pr_revision pr" by (fact ids)+
qed

text \<open>Everything of the evidence that does not depend on the outcome.\<close>

definition common_ready :: "opacity_digest \<Rightarrow> model_input \<Rightarrow> checker_configuration \<Rightarrow> bool" where
  "common_ready dg r checker \<longleftrightarrow>
     model_input_valid r \<and> (\<forall>doc. digest_text (dg doc)) \<and> checker_configuration_valid checker
     \<and> length (cl_taxonomy_revision (mi_claim r)) \<le> 128
     \<and> cl_taxonomy (mi_claim r) = TAXONOMY_ID \<and> cl_relation (mi_claim r) = OPACITY_RELATION
     \<and> cl_profile (mi_claim r) = Some (mi_profile r) \<and> cl_profile_revision (mi_claim r) = Some (mi_profile_revision r)"

lemma revision_name_text: "revision_name s \<Longrightarrow> length s \<le> 128 \<Longrightarrow> revision_text s"
  by (auto simp: revision_name_def revision_text_def list_all_iff)

lemma model_evidence_returns:
  assumes "common_ready dg r checker" and "coverage_valid coverage" and "cv_declared coverage = mi_counts r"
    and "digest_text carrier_digest" and "length ds \<le> MAX_OPACITY_DIAGNOSTICS" "list_all diagnostic_valid ds"
    and "case x of None \<Rightarrow> True | Some x \<Rightarrow> counterexample_valid x \<and> xc_state x < length (mi_states r)
      \<and> (\<forall>i \<in> set (xc_path x). i < length (mi_transitions r))
      \<and> xc_digest x = path_counterexample_digest dg (xc_ref x) (xc_state x) (xc_path x) (xc_strategy x) (xc_cell x)
          (dg (ModelDocument r)) (mi_profile_digest r) carrier_digest"
    and "case u of None \<Rightarrow> True | Some codes \<Rightarrow> reason_codes_valid codes \<and> codes = sort (remdups (map xd_code ds))"
    and "cv_complete coverage \<longrightarrow> map sv_strategy (cv_strategies coverage) = as_strategies (mi_assumptions r)
      \<and> cv_pairs coverage = mc_pairs (mi_counts r) \<and> cv_orders coverage = mc_orders (mi_counts r)"
    and "(x \<noteq> None) = (outcome = CounterexampleFound)" "(u \<noteq> None) = (outcome \<in> {VacuousSecret, UnsupportedCheck})"
    and "outcome \<in> {Holds, CounterexampleFound} \<longrightarrow> cv_complete coverage \<and> ds = [] \<and> cv_points coverage \<noteq> 0 \<and> cv_secret coverage \<noteq> 0"
    and "outcome = VacuousSecret \<longrightarrow> cv_secret coverage = 0"
  shows "\<exists>e. model_evidence_of dg r checker carrier_digest coverage outcome ds x u = Inr e"
proof -
  have ready: "model_input_valid r" "\<forall>doc. digest_text (dg doc)" "checker_configuration_valid checker"
    "length (cl_taxonomy_revision (mi_claim r)) \<le> 128"
    "cl_taxonomy (mi_claim r) = TAXONOMY_ID" "cl_relation (mi_claim r) = OPACITY_RELATION"
    "cl_profile (mi_claim r) = Some (mi_profile r)" "cl_profile_revision (mi_claim r) = Some (mi_profile_revision r)"
    using assms(1) unfolding common_ready_def by blast+
  note counts = declared_counts [OF ready(1)]
  have claim: "revision_text (cl_taxonomy_revision (mi_claim r))"
    using ready(4) model_facts(15) [OF ready(1)] by (intro revision_name_text) (simp_all add: claim_valid_def)
  have input: "list_all digest_text [mi_catalog_digest r, mi_profile_digest r, mi_materializer_digest r]"
    "list_all safe_ref [mi_profile r, mi_ref r, mi_materializer r]" "source_valid (mi_source r) (mi_source_digest r)"
    "list_all revision_text [mi_profile_revision r, mi_revision r, mi_materializer_version r]"
    using ready(1) unfolding model_input_valid_def by blast+
  let ?e = "\<lparr>me_taxonomy_revision = cl_taxonomy_revision (mi_claim r), me_catalog_digest = mi_catalog_digest r,
          me_profile = mi_profile r, me_profile_revision = mi_profile_revision r, me_profile_digest = mi_profile_digest r,
          me_source = mi_source r, me_source_digest = mi_source_digest r, me_model = mi_ref r,
          me_model_revision = mi_revision r, me_model_digest = dg (ModelDocument r),
          me_materializer = mi_materializer r, me_materializer_version = mi_materializer_version r,
          me_materializer_digest = mi_materializer_digest r, me_assumptions = mi_assumptions r,
          me_assumptions_digest = dg (AssumptionsDocument (mi_assumptions r)), me_checker = checker,
          me_checker_digest = dg (CheckerDocument checker), me_carrier_digest = carrier_digest, me_claim = mi_claim r,
          me_coverage = coverage, me_outcome = outcome, me_diagnostics = ds,
          me_counterexample = x, me_unsupported = u\<rparr>"
  have joins: "coverage_join_valid ?e" "payload_presence_valid ?e" "decided_outcome_valid ?e" "nonpositive_outcome_valid ?e"
    "counterexample_join_valid dg ?e"
    using assms(3,7-13) counts
    by (auto simp: coverage_join_valid_def payload_presence_valid_def decided_outcome_valid_def nonpositive_outcome_valid_def
        counterexample_join_valid_def Let_def list_all_iff split: option.splits)
  have "model_evidence_valid dg ?e"
    unfolding model_evidence_valid_def
    using joins input claim ready assms(2,4-8) model_facts(1,14,15) [OF ready(1)]
    by (auto split: option.splits)
  then show ?thesis by (simp add: model_evidence_of_def Let_def)
qed

lemma unsupported_returns:
  assumes "common_ready dg r checker" and "unsupported_diagnostics r \<noteq> []"
  shows "\<exists>e. unsupported_evidence dg r checker (unsupported_diagnostics r) = Inr e"
proof -
  let ?ds = "unsupported_diagnostics r"
  have r: "model_input_valid r" "digest_text (dg (StatesDocument []))" using assms(1) unfolding common_ready_def by blast+
  have empty: "coverage_valid (empty_coverage r)"
    using model_facts(2) [OF r(1)] by (simp add: coverage_valid_def empty_coverage_def sorted_unique_iff)
  have ds: "length ?ds \<le> 4" "list_all diagnostic_valid ?ds"
    by (auto simp: unsupported_diagnostics_def Let_def list_all_iff diagnostic_valid_def opacity_diagnostic_def json_pointer_def)
  have "remdups (map xd_code ?ds) \<noteq> []" "length (remdups (map xd_code ?ds)) \<le> 64"
    using assms(2) ds(1) length_remdups_leq [of "map xd_code ?ds"] by simp_all
  then have "reason_codes_valid (sort (remdups (map xd_code ?ds)))"
    by (simp add: reason_codes_valid_def sized_def sorted_unique_iff Suc_le_eq)
  then have "\<exists>e. model_evidence_of dg r checker (dg (StatesDocument [])) (empty_coverage r) UnsupportedCheck ?ds None
      (Some (sort (remdups (map xd_code ?ds)))) = Inr e"
    by (intro model_evidence_returns [OF assms(1) empty _ r(2)])
      (use ds in \<open>auto simp: empty_coverage_def MAX_OPACITY_DIAGNOSTICS_def\<close>)
  then show ?thesis by (simp add: unsupported_evidence_def make_coverage_def empty)
qed

lemma path_counterexample_valid:
  assumes r: "model_input_valid r" and dg: "\<forall>doc. digest_text (dg doc)" and n: "n < length (mi_states r)" "n < 4096"
    and path: "counterexample_path n (fx_parents (reachable_fixed_point r)) = Inr path"
    and cell: "1 \<le> cell" "cell \<le> length (reached_points r)"
  shows "\<exists>x. path_counterexample_of dg r carrier n path cell = Inr x \<and> counterexample_valid x
    \<and> xc_state x = n \<and> xc_path x = path
    \<and> xc_digest x = path_counterexample_digest dg (xc_ref x) (xc_state x) (xc_path x) (xc_strategy x) (xc_cell x)
          (dg (ModelDocument r)) (mi_profile_digest r) carrier"
proof -
  note reached = reached_facts [OF r]
  have "length (reached r) \<le> length (mi_states r)"
    using card_mono [OF _ reached(3)] distinct_card [OF reached(2)] by simp
  then have "length path \<le> MAX_OPACITY_MODEL_STATES"
    using walk_length [OF path [unfolded counterexample_path_def]] fixed_point_facts(4) [OF initial_distinct [OF r]]
      model_facts(12) [OF r] by (simp add: reached_def)
  moreover have "length (reached_points r) \<le> MAX_OPACITY_MODEL_STATES"
    using length_filter_le [of ms_evaluation "reached_states r"] reached_count(2) [OF r] model_facts(12) [OF r] by linarith
  moreover have "model_state_valid (mi_states r ! n)" using model_facts(11) [OF r] n(1) by simp
  then have "safe_ref (ms_strategy (mi_states r ! n))" by (simp add: model_state_valid_def)
  ultimately show ?thesis
    using n cell dg six_digits_valid [OF n(2)] model_facts(12) [OF r]
    by (simp add: path_counterexample_of_def Let_def counterexample_valid_def path_counterexample_digest_def)
qed

lemma reachable_returns:
  assumes "common_ready dg r checker" and "unsupported_diagnostics r = []"
  shows "\<exists>e. reachable_evidence dg r checker = Inr e"
proof -
  have r: "model_input_valid r" and dg: "\<forall>doc. digest_text (dg doc)" using assms(1) unfolding common_ready_def by blast+
  let ?fx = "reachable_fixed_point r" and ?result = "evaluate_opacity_kernel (map kernel_state (reached_points r))"
  let ?c = "coverage_of r (reached_states r) (fx_explored ?fx)" and ?carrier = "dg (StatesDocument (reached_points r))"
  have cover: "coverage_valid ?c" by (rule coverage_valid_reached [OF r])
  have secret: "cv_secret ?c = kr_secret ?result"
    by (simp add: coverage_of_def Let_def evaluate_opacity_kernel_facts(2) comp_def filter_map)
  have complete: "cv_complete ?c" "cv_declared ?c = mi_counts r" "map sv_strategy (cv_strategies ?c) = as_strategies (mi_assumptions r)"
    by (simp_all add: coverage_of_def strategy_coverage_of_def Let_def comp_def)
  have pairs: "cv_pairs ?c = mc_pairs (mi_counts r)" "cv_orders ?c = mc_orders (mi_counts r)"
    using reached_domains(2,3) [OF r] assumptions_facts [OF model_facts(1) [OF r]] declared_counts(4,5) [OF r]
      card_pairs [of "as_schedulers (mi_assumptions r)" "as_environments (mi_assumptions r)"]
      distinct_card [of "as_orders (mi_assumptions r)"]
    by (simp_all add: coverage_of_def Let_def distinct_values_card)
  have points: "cv_secret ?c \<noteq> 0 \<Longrightarrow> cv_points ?c \<noteq> 0" using cover by (auto simp: coverage_valid_def)
  note ready = model_evidence_returns [OF assms(1) cover complete(2) spec [OF dg]]
  show ?thesis
  proof (cases "kr_secret ?result = 0")
    case True
    have "\<exists>e. model_evidence_of dg r checker ?carrier ?c VacuousSecret [opacity_diagnostic VACUOUS_CODE ''/states''] None
        (Some [VACUOUS_CODE]) = Inr e"
      by (rule ready) (use complete pairs secret True in
          \<open>simp_all add: MAX_OPACITY_DIAGNOSTICS_def diagnostic_valid_def opacity_diagnostic_def json_pointer_def
             reason_codes_valid_def sized_def sorted_unique_iff\<close>)
    with True show ?thesis by (simp add: reachable_evidence_def Let_def make_coverage_def cover)
  next
    case False
    show ?thesis
    proof (cases "kr_counterexample ?result")
      case None
      have "\<exists>e. model_evidence_of dg r checker ?carrier ?c Holds [] None None = Inr e"
        by (rule ready) (use complete pairs secret False points in \<open>simp_all add: MAX_OPACITY_DIAGNOSTICS_def\<close>)
      with None False show ?thesis by (simp add: reachable_evidence_def Let_def make_coverage_def cover)
    next
      case (Some n)
      from kernel_on_reached(3) [OF r Some] obtain cell where n: "n < length (mi_states r)" "exposed_state r (mi_states r ! n)"
        and cell: "kr_cell ?result = Some cell" "1 \<le> cell" "cell \<le> length (reached_points r)" by blast
      have "mc_states (mi_counts r) \<le> MAX_CHECKED_STATES"
        using assms(2) by (auto simp: unsupported_diagnostics_def Let_def split: if_splits)
      then have small: "n < 4096" using n(1) by (simp add: declared_counts [OF r] MAX_CHECKED_STATES_def)
      obtain path0 where "model_run (mi_transitions r) (initial_states r) path0 n"
        using n evaluation_point_at(3) [OF r] state_at [OF r] unfolding exposed_state_def by metis
      from fixed_point_facts(5) [OF initial_distinct [OF r] this] obtain ts where
        path: "counterexample_path n (fx_parents ?fx) = Inr (map mt_ordinal ts)"
        and run: "model_run (mi_transitions r) (initial_states r) ts n" by blast
      from path_counterexample_valid [OF r dg n(1) small path cell(2,3), of ?carrier] obtain x where
        x: "path_counterexample_of dg r ?carrier n (map mt_ordinal ts) cell = Inr x" "counterexample_valid x"
          "xc_state x = n" "xc_path x = map mt_ordinal ts"
          "xc_digest x = path_counterexample_digest dg (xc_ref x) (xc_state x) (xc_path x) (xc_strategy x) (xc_cell x)
            (dg (ModelDocument r)) (mi_profile_digest r) ?carrier" by blast
      have "\<forall>i \<in> set (xc_path x). i < length (mi_transitions r)"
        using run_transitions [OF run] transition_at(2) [OF r] by (auto simp: x(4))
      then have "\<exists>e. model_evidence_of dg r checker ?carrier ?c CounterexampleFound [] (Some x) None = Inr e"
        by (intro ready) (use complete pairs secret False points x(2,3,5) n(1) in \<open>simp_all add: MAX_OPACITY_DIAGNOSTICS_def\<close>)
      with Some cell(1) False path x(1) show ?thesis
        by (simp add: reachable_evidence_def Let_def make_coverage_def cover)
    qed
  qed
qed

text \<open>Evidence copies the taxonomy revision of the claim into a field of at most 128 characters.\<close>

lemma reachable_evidence_taxonomy:
  "reachable_evidence dg r checker = Inr e \<Longrightarrow> me_taxonomy_revision e = cl_taxonomy_revision (mi_claim r)"
  by (auto simp: reachable_evidence_def Let_def ebind_eq_Inr split: if_splits option.splits dest: model_evidence_fields(4))

lemma checked_evidence:
  assumes "model_check_participant_opacity_input dg package_version r pr catalog = Inr e"
  shows "model_evidence_valid dg e" "length (cl_taxonomy_revision (mi_claim r)) \<le> 128"
proof -
  have "model_evidence_valid dg e \<and> me_taxonomy_revision e = cl_taxonomy_revision (mi_claim r)"
    using assms
    by (auto simp: model_check_participant_opacity_input_def unsupported_evidence_def ebind_eq_Inr split: if_splits
        dest: model_evidence_fields(3,4) reachable_evidence_valid reachable_evidence_taxonomy)
  then show "model_evidence_valid dg e" "length (cl_taxonomy_revision (mi_claim r)) \<le> 128"
    by (auto simp: model_evidence_valid_def revision_text_def)
qed

lemma short_taxonomy_returns:
  assumes "model_input_valid r" and "opacity_profile_valid pr p" and "validate_admission dg r pr catalog = Inr ()"
    and "\<forall>doc. digest_text (dg doc)" and "revision_text package_version"
    and "length (cl_taxonomy_revision (mi_claim r)) \<le> 128"
  shows "\<exists>e. model_check_participant_opacity_input dg package_version r pr catalog = Inr e"
proof -
  let ?checker = "\<lparr>ck_package_version = package_version\<rparr>"
  have checker: "checker_configuration_of package_version = Inr ?checker"
    using assms(5) by (simp add: checker_configuration_of_def checker_configuration_valid_def operational_def Let_def)
  have "common_ready dg r ?checker"
    using assms admitted_claim [OF assms(3)]
    by (simp add: common_ready_def checker_configuration_valid_def opacity_profile_valid_def)
  note returns = unsupported_returns [OF this] reachable_returns [OF this]
  then show ?thesis
    by (cases "unsupported_diagnostics r = []") (auto simp: model_check_participant_opacity_input_def assms(3) checker)
qed

text \<open>C23: for a valid transition model, a profile that meets its contract, digests that are digest texts and a
  package version that is a revision, the check of an admitted model returns evidence exactly when the taxonomy revision
  of its claim has at most 128 characters, and the evidence passes every check of its own contract. With a longer
  revision, which a claim and the admission allow, the check fails.\<close>

theorem admitted_model_check_returns:
  assumes "model_input_valid r" and "opacity_profile_valid pr p" and "validate_admission dg r pr catalog = Inr ()"
    and "\<forall>doc. digest_text (dg doc)" and "revision_text package_version"
  shows "case model_check_participant_opacity_input dg package_version r pr catalog of
      Inr e \<Rightarrow> model_evidence_valid dg e \<and> length (cl_taxonomy_revision (mi_claim r)) \<le> 128
    | Inl failure \<Rightarrow> 128 < length (cl_taxonomy_revision (mi_claim r))"
proof (cases "model_check_participant_opacity_input dg package_version r pr catalog")
  case (Inl failure)
  with short_taxonomy_returns [OF assms] show ?thesis by fastforce
next
  case (Inr e)
  with checked_evidence [OF Inr] show ?thesis by simp
qed

end
