(* ===== verification/OpacityCarrier.thy ===== *)
theory OpacityCarrier
  imports OpacityProperties
begin

text \<open>
  The bounded analysis of a finite carrier against the same specification of opacity, and a small
  model, carrier and profile on which the properties are applied.
\<close>

section \<open>The bounded analysis\<close>

definition carrier_points :: "carrier_input \<Rightarrow> possible_point set" where
  "carrier_points r = {p \<in> set (ci_points r). pp_reachable p}"

definition same_cell :: "possible_point \<Rightarrow> possible_point \<Rightarrow> bool" where
  "same_cell p q \<longleftrightarrow> information_cell_key (kernel_possible_point p) = information_cell_key (kernel_possible_point q)"

definition exposed_point :: "carrier_input \<Rightarrow> possible_point \<Rightarrow> bool" where
  "exposed_point r p \<longleftrightarrow> p \<in> carrier_points r \<and> pp_secret p \<and> (\<forall>q \<in> carrier_points r. same_cell p q \<longrightarrow> pp_secret q)"

lemma kernel_possible_point_fields [simp]:
  "kp_secret (kernel_possible_point p) = pp_secret p" "kp_ordinal (kernel_possible_point p) = pp_ordinal p"
  by (simp_all add: kernel_possible_point_def)

lemma analysis_evidence_fields:
  assumes "analysis_evidence_of dg r pr outcome points secret ds x u = Inr e"
  shows "ae_outcome e = outcome" "ae_counterexample e = x"
  using assms by (auto simp: analysis_evidence_of_def Let_def ebind_eq_Inr)

lemma exposed_possible_point:
  assumes "set points = carrier_points r" and "p \<in> carrier_points r"
  shows "exposed (map kernel_possible_point points) (kernel_possible_point p) \<longleftrightarrow> exposed_point r p"
  unfolding exposed_def exposed_point_def list.set_map assms(1) same_cell_def using assms(2) by auto

lemma nonvacuous_decides:
  assumes run: "analyze_nonvacuous_carrier dg r pr points = Inr e" and points: "set points = carrier_points r"
  shows "ae_outcome e = NoCounterexample \<and> (\<forall>p \<in> carrier_points r. \<not> exposed_point r p)
    \<or> ae_outcome e = PointCounterexample
      \<and> (\<exists>x p. ae_counterexample e = Some x \<and> exposed_point r p \<and> pp_ordinal p = xp_point x
           \<and> (\<forall>q. exposed_point r q \<longrightarrow> xp_point x \<le> pp_ordinal q))"
proof -
  let ?P = "map kernel_possible_point points"
  let ?result = "evaluate_opacity_kernel ?P"
  note kernel = evaluate_opacity_kernel_facts [of ?P]
  have P: "set ?P = kernel_possible_point ` carrier_points r" unfolding set_map points ..
  note exposed = exposed_possible_point [OF points]
  show ?thesis
  proof (cases "kr_counterexample ?result")
    case None
    then have "\<forall>k \<in> kernel_possible_point ` carrier_points r. \<not> exposed ?P k" using kernel(3) unfolding P by simp
    then have "\<forall>p \<in> carrier_points r. \<not> exposed_point r p" using exposed by blast
    moreover have "ae_outcome e = NoCounterexample"
      using run None by (auto simp: analyze_nonvacuous_carrier_def Let_def dest: analysis_evidence_fields(1))
    ultimately show ?thesis by blast
  next
    case (Some n)
    with kernel(4) obtain k where k: "kr_cell ?result = Some k" by auto
    from kernel(5) [OF Some] obtain p where p: "p \<in> carrier_points r" "exposed ?P (kernel_possible_point p)" "pp_ordinal p = n"
      and low: "\<forall>q \<in> carrier_points r. exposed ?P (kernel_possible_point q) \<longrightarrow> n \<le> pp_ordinal q"
      unfolding P by auto
    have "\<forall>q. exposed_point r q \<longrightarrow> n \<le> pp_ordinal q" using low exposed by (auto simp: exposed_point_def)
    moreover have "\<exists>x. ae_outcome e = PointCounterexample \<and> ae_counterexample e = Some x \<and> xp_point x = n"
      using run Some k
      by (auto simp: analyze_nonvacuous_carrier_def Let_def ebind_eq_Inr dest: analysis_evidence_fields)
    ultimately show ?thesis using p exposed [OF p(1)] by auto
  qed
qed

text \<open>C24: the outcome of the bounded analysis is the truth about opacity over the reachable points of the
  carrier; a counterexample is the exposed point with the lowest ordinal.\<close>

theorem carrier_analysis_decides_opacity:
  assumes "analyze_participant_opacity_input dg load r pr = Inr e"
  shows "case ae_outcome e of
      NoCounterexample \<Rightarrow> (\<exists>p \<in> carrier_points r. pp_secret p)
        \<and> (\<forall>p \<in> carrier_points r. pp_secret p \<longrightarrow> (\<exists>q \<in> carrier_points r. same_cell p q \<and> \<not> pp_secret q))
    | PointCounterexample \<Rightarrow> (\<exists>x p. ae_counterexample e = Some x \<and> exposed_point r p \<and> pp_ordinal p = xp_point x
        \<and> (\<forall>q. exposed_point r q \<longrightarrow> xp_point x \<le> pp_ordinal q))
    | VacuousCarrier \<Rightarrow> \<forall>p \<in> carrier_points r. \<not> pp_secret p
    | UnsupportedAnalysis \<Rightarrow> \<not> ci_complete r \<or> MAX_CHECKED_POINTS < length (ci_points r)"
proof -
  let ?reachable = "sort_key pp_ordinal (filter pp_reachable (ci_points r))"
  have points: "set ?reachable = carrier_points r" by (auto simp: carrier_points_def)
  from assms obtain early where early: "analysis_precondition_evidence dg r pr = Inr early"
    and rest: "(case early of Some e \<Rightarrow> Inr e
       | None \<Rightarrow>
           if filter pp_secret ?reachable = []
           then unsupported_analysis dg r pr VacuousCarrier (opacity_diagnostic CARRIER_VACUOUS_CODE ''/points'')
             (length ?reachable) 0
           else analyze_nonvacuous_carrier dg r pr ?reachable) = Inr e"
    unfolding analyze_participant_opacity_input_def Let_def ebind_eq_Inr by auto
  show ?thesis
  proof (cases early)
    case (Some e')
    with early rest have "ae_outcome e = UnsupportedAnalysis" "\<not> ci_complete r \<or> MAX_CHECKED_POINTS < length (ci_points r)"
      by (auto simp: analysis_precondition_evidence_def unsupported_analysis_def ebind_eq_Inr split: if_splits
          dest: analysis_evidence_fields(1))
    then show ?thesis by simp
  next
    case None
    show ?thesis
    proof (cases "filter pp_secret ?reachable = []")
      case True
      then have "\<forall>p \<in> carrier_points r. \<not> pp_secret p" unfolding filter_empty_conv points .
      moreover have "ae_outcome e = VacuousCarrier"
        using rest None True by (auto simp: unsupported_analysis_def dest: analysis_evidence_fields(1))
      ultimately show ?thesis by simp
    next
      case False
      then have secret: "\<exists>p \<in> carrier_points r. pp_secret p" unfolding filter_empty_conv points by blast
      have "analyze_nonvacuous_carrier dg r pr ?reachable = Inr e" using rest None False by simp
      from nonvacuous_decides [OF this points] secret show ?thesis
        by (auto simp: exposed_point_def)
    qed
  qed
qed

section \<open>Where an exception escapes\<close>

text \<open>A profile with an abstract carrier has no bounds, and both analyses read them unguarded.\<close>

lemma abstract_carrier_without_bounds:
  assumes "opacity_profile_valid pr p" and "\<not> finite_carrier (op_carrier p)"
  shows "op_bounds p = None"
  using assms by (simp add: opacity_profile_valid_def parameters_valid_def parameter_domains_valid_def)

lemma abstract_profile_escapes:
  assumes "validate_profile_admission dg load r pr = Inr p" and "op_bounds p = None"
  shows "analyze_participant_opacity_input dg load r pr = Inl MissingAttribute"
  using assms by (simp add: analyze_participant_opacity_input_def validate_profile_domains_def check_declared_bounds_def)

text \<open>The scope of the claim is first checked by the contract of the evidence.\<close>

lemma evidence_of_claim_out_of_scope:
  assumes "\<not> analysis_claim_scope_valid (ci_claim r)"
  shows "analysis_evidence_of dg r pr outcome points secret ds x u = Inl ContractViolation"
  using assms
  by (simp add: analysis_evidence_of_def Let_def analysis_evidence_valid_def claim_join_valid_def canonicalized_def require_def)

lemma claim_out_of_scope_escapes:
  assumes "validate_profile_admission dg load r pr = Inr p" and "validate_profile_domains r p = Inr ()"
    and "\<not> analysis_claim_scope_valid (ci_claim r)"
  shows "analyze_participant_opacity_input dg load r pr = Inl ContractViolation"
  using assms
  by (simp add: analyze_participant_opacity_input_def analysis_precondition_evidence_def unsupported_analysis_def
      analyze_nonvacuous_carrier_def evidence_of_claim_out_of_scope Let_def require_def split: option.splits)

end
