(* ===== verification/OpacityWitness.thy ===== *)
theory OpacityWitness
  imports OpacityCarrier "HOL-Library.Code_Target_Nat"
begin

text \<open>
  A profile with a finite carrier, two transition models and two carriers of points on which the
  properties of participant opacity are applied: in the leaky ones the secret point has a cell of its
  own, in the opaque ones it shares its cell with a point that is not secret.
\<close>

section \<open>The profile, the catalog and the claims\<close>

definition opacity_dg :: "opacity_document \<Rightarrow> string" where
  "opacity_dg doc = ''sha256:'' @ replicate 64 CHR ''0''"

lemma opacity_dg_ok: "digest_text (opacity_dg doc)"
  by (simp add: opacity_dg_def) code_simp

definition opacity_sample_parameters :: opacity_parameters where
  "opacity_sample_parameters =
     \<lparr>op_observer = IndividualObserver ''alice'' ''audience'', op_secret = (''secret'', ''1''),
      op_carrier = FiniteCarrier ''reachability'' ''1'', op_initial = (''initial'', ''1''),
      op_observation = \<lparr>ob_projection = ''projection'', ob_revision = ''1'', ob_channels = [PayloadChannel],
        ob_supervisor = FullyKnown\<rparr>,
      op_horizon = \<lparr>hz_scope = CurrentHorizon, hz_cut = ''cut'', hz_cut_revision = ''1'', hz_steps = None\<rparr>,
      op_memory = \<lparr>my_retention = PerfectMemory, my_ref = ''memory'', my_revision = ''1'', my_reset = None,
        my_reset_revision = None\<rparr>,
      op_strategy = PassiveStrategy,
      op_release = \<lparr>rl_schedule = ''release'', rl_revision = ''1'', rl_exact = True\<rparr>,
      op_schedulers = [''scheduler''], op_environments = [''environment''],
      op_order = \<lparr>od_treatment = TotalOrder, od_refs = [''order'']\<rparr>,
      op_time = \<lparr>tm_absence = False, tm_basis = None, tm_basis_revision = None\<rparr>,
      op_bounds = Some \<lparr>bn_points = 8, bn_runs = 8, bn_cuts = 1, bn_strategies = 1, bn_pairs = 1, bn_orders = 1\<rparr>\<rparr>"

definition opacity_sample_profile :: relation_profile where
  "opacity_sample_profile =
     \<lparr>pr_id = ''participant-opacity'', pr_revision = ''1'', pr_taxonomy = TAXONOMY_ID, pr_taxonomy_revision = ''1'',
      pr_relation = OPACITY_RELATION, pr_left = ''carrier'', pr_projection = ''projection'', pr_projection_revision = ''1'',
      pr_declared_finite = True, pr_parameters = OpacityParameters opacity_sample_parameters,
      pr_sources = [(''source'', None)], pr_limitations = [''limited''], pr_non_claims = [''none'']\<rparr>"

definition opacity_sample_catalog :: relation_catalog where
  "opacity_sample_catalog =
     \<lparr>ct_taxonomy = TAXONOMY_ID, ct_revision = ''1'',
      ct_relations = [(OPACITY_RELATION, \<lparr>rd_projection_required = True, rd_profile_required = True\<rparr>)], ct_body = ''''\<rparr>"

definition opacity_sample_claim ::
    "quantifier_scope \<Rightarrow> evidence_scope \<Rightarrow> assurance_axis \<Rightarrow> assurance_status \<Rightarrow> string \<Rightarrow> behavioral_claim" where
  "opacity_sample_claim quantifier evidence axis status non_claim =
     \<lparr>cl_taxonomy = TAXONOMY_ID, cl_taxonomy_revision = ''1'', cl_relation = OPACITY_RELATION, cl_subject = ''system'',
      cl_left = Some ''carrier'', cl_right = None, cl_projection = Some ''projection'', cl_projection_revision = Some ''1'',
      cl_profile = Some ''participant-opacity'', cl_profile_revision = Some ''1'', cl_quantifier = quantifier,
      cl_evidence = evidence, cl_axis = Some axis, cl_boundary = ''model'', cl_status = status, cl_evidence_refs = [],
      cl_limitations = [''limited''], cl_non_claims = [non_claim]\<rparr>"

section \<open>Transition models\<close>

definition opacity_sample_state :: "nat \<Rightarrow> string \<Rightarrow> bool \<Rightarrow> bool \<Rightarrow> string \<Rightarrow> model_state" where
  "opacity_sample_state i ref evaluation secret key =
     \<lparr>ms_ordinal = i, ms_ref = ref, ms_run = ''run'', ms_cut = ''cut'', ms_strategy = ''strategy'',
      ms_scheduler = ''scheduler'', ms_environment = ''environment'', ms_order = ''order'', ms_evaluation = evaluation,
      ms_secret = secret, ms_initial_key = ''start'', ms_observation_key = key, ms_memory_key = ''memory'',
      ms_release_key = ''release'', ms_coalition_key = None\<rparr>"

definition opacity_sample_transition :: "nat \<Rightarrow> string \<Rightarrow> nat \<Rightarrow> nat \<Rightarrow> model_transition" where
  "opacity_sample_transition i ref source target =
     \<lparr>mt_ordinal = i, mt_ref = ref, mt_source = source, mt_target = target, mt_action = ''act'', mt_event = ''event''\<rparr>"

text \<open>The observation of the state that is not secret is the argument.\<close>

definition sample_model :: "string \<Rightarrow> model_input" where
  "sample_model key =
     \<lparr>mi_source = ''model.json'', mi_source_digest = ''sha256:'' @ replicate 64 CHR ''0'',
      mi_catalog_digest = opacity_dg (CatalogDocument opacity_sample_catalog), mi_profile = ''participant-opacity'',
      mi_profile_revision = ''1'', mi_profile_digest = opacity_dg (ProfileDocument opacity_sample_profile), mi_ref = ''model'',
      mi_revision = ''1'', mi_materializer = ''materializer'', mi_materializer_version = ''1'',
      mi_materializer_digest = ''sha256:'' @ replicate 64 CHR ''0'', mi_complete = True,
      mi_assumptions = \<lparr>as_active = False, as_strategies = [''strategy''], as_schedulers = [''scheduler''],
        as_environments = [''environment''], as_treatment = TotalOrder, as_orders = [''order''], as_cut = ''cut''\<rparr>,
      mi_counts = \<lparr>mc_states = 3, mc_transitions = 2, mc_initial = 1, mc_evaluation = 2, mc_runs = 1, mc_cuts = 1,
        mc_strategies = 1, mc_pairs = 1, mc_orders = 1\<rparr>,
      mi_initial = [0],
      mi_states = [opacity_sample_state 0 ''s0'' False False ''idle'', opacity_sample_state 1 ''s1'' True True ''low'',
        opacity_sample_state 2 ''s2'' True False key],
      mi_transitions = [opacity_sample_transition 0 ''t0'' 0 1, opacity_sample_transition 1 ''t1'' 0 2],
      mi_claim = opacity_sample_claim AllTraces ModelCheckEvidence ModelCheckAxis ModelChecked MODEL_CHECK_PROVENANCE_NONCLAIM\<rparr>"

abbreviation sample_check :: "string \<Rightarrow> opacity_error + model_evidence" where
  "sample_check key \<equiv>
     model_check_participant_opacity_input opacity_dg ''1'' (sample_model key) opacity_sample_profile opacity_sample_catalog"

lemma sample_models_valid:
  "model_input_valid (sample_model ''low'')" "model_input_valid (sample_model ''high'')"
  by code_simp+

lemma sample_admission:
  "validate_admission opacity_dg (sample_model ''low'') opacity_sample_profile opacity_sample_catalog = Inr ()"
  by code_simp

lemma sample_profile_valid: "opacity_profile_valid opacity_sample_profile opacity_sample_parameters"
  by code_simp

lemma sample_check_opaque: "map_sum id me_outcome (sample_check ''low'') = Inr Holds"
  by code_simp

lemma sample_check_leaky:
  "map_sum id (\<lambda>e. (me_outcome e, map_option (\<lambda>x. (xc_state x, xc_path x)) (me_counterexample e))) (sample_check ''high'')
     = Inr (CounterexampleFound, Some (1, [0]))"
  by code_simp

text \<open>The witnesses.\<close>

theorem model_check_decides_opacity_witness:
  "exposed_state (sample_model ''high'') (mi_states (sample_model ''high'') ! 1)
   \<and> (\<exists>s \<in> evaluation_points (sample_model ''low''). ms_secret s)"
proof
  obtain e where e: "sample_check ''high'' = Inr e" "me_outcome e = CounterexampleFound"
    and "map_option (\<lambda>x. (xc_state x, xc_path x)) (me_counterexample e) = Some (1, [0])"
    using sample_check_leaky by (cases "sample_check ''high''") auto
  then obtain x where "me_counterexample e = Some x" "xc_state x = 1" by auto
  with e model_check_decides_opacity [OF sample_models_valid(2) e(1)]
  show "exposed_state (sample_model ''high'') (mi_states (sample_model ''high'') ! 1)" by auto
next
  obtain e where e: "sample_check ''low'' = Inr e" "me_outcome e = Holds"
    using sample_check_opaque by (cases "sample_check ''low''") auto
  with model_check_decides_opacity [OF sample_models_valid(1) e(1)]
  show "\<exists>s \<in> evaluation_points (sample_model ''low''). ms_secret s" by simp
qed

theorem counterexample_is_shortest_run_witness:
  "model_run (mi_transitions (sample_model ''high'')) (initial_states (sample_model ''high''))
     [opacity_sample_transition 0 ''t0'' 0 1] 1"
proof -
  obtain e where e: "sample_check ''high'' = Inr e"
    and "map_option (\<lambda>x. (xc_state x, xc_path x)) (me_counterexample e) = Some (1, [0])"
    using sample_check_leaky by (cases "sample_check ''high''") auto
  then obtain x where x: "me_counterexample e = Some x" "xc_state x = 1" "xc_path x = [0]" by auto
  have "mi_transitions (sample_model ''high'') ! 0 = opacity_sample_transition 0 ''t0'' 0 1"
    by (simp add: sample_model_def)
  with counterexample_is_shortest_run [OF sample_models_valid(2) e x(1)] x(2,3) show ?thesis by simp
qed

text \<open>The same model with a taxonomy revision of 129 characters, as the claim, the profile and the catalog allow.\<close>

definition long_revision :: string where
  "long_revision = replicate 129 CHR ''1''"

definition long_taxonomy_profile :: relation_profile where
  "long_taxonomy_profile = opacity_sample_profile\<lparr>pr_taxonomy_revision := long_revision\<rparr>"

definition long_taxonomy_catalog :: relation_catalog where
  "long_taxonomy_catalog = opacity_sample_catalog\<lparr>ct_revision := long_revision\<rparr>"

definition long_taxonomy_model :: model_input where
  "long_taxonomy_model = sample_model ''low''\<lparr>mi_claim := (mi_claim (sample_model ''low''))\<lparr>cl_taxonomy_revision := long_revision\<rparr>\<rparr>"

lemma long_taxonomy_admitted:
  "model_input_valid long_taxonomy_model" "opacity_profile_valid long_taxonomy_profile opacity_sample_parameters"
  "validate_admission opacity_dg long_taxonomy_model long_taxonomy_profile long_taxonomy_catalog = Inr ()"
  by code_simp+

theorem admitted_model_check_returns_witness:
  "(\<exists>e. sample_check ''low'' = Inr e \<and> model_evidence_valid opacity_dg e)
   \<and> (\<exists>failure. model_check_participant_opacity_input opacity_dg ''1'' long_taxonomy_model long_taxonomy_profile
        long_taxonomy_catalog = Inl failure)"
proof -
  have dg: "\<forall>doc. digest_text (opacity_dg doc)" by (simp add: opacity_dg_ok)
  have version: "revision_text ''1''" by code_simp
  have short: "length (cl_taxonomy_revision (mi_claim (sample_model ''low''))) \<le> 128"
    by (simp add: sample_model_def opacity_sample_claim_def)
  have long: "128 < length (cl_taxonomy_revision (mi_claim long_taxonomy_model))"
    by (simp add: long_taxonomy_model_def long_revision_def)
  have "\<exists>e. sample_check ''low'' = Inr e \<and> model_evidence_valid opacity_dg e"
    using admitted_model_check_returns [OF sample_models_valid(1) sample_profile_valid sample_admission dg version] short
    by (simp split: sum.splits)
  moreover have "\<exists>failure. model_check_participant_opacity_input opacity_dg ''1'' long_taxonomy_model long_taxonomy_profile
        long_taxonomy_catalog = Inl failure"
    using admitted_model_check_returns [OF long_taxonomy_admitted dg version] long by (simp split: sum.splits)
  ultimately show ?thesis by blast
qed

section \<open>Carriers\<close>

definition opacity_sample_point :: "nat \<Rightarrow> string \<Rightarrow> bool \<Rightarrow> bool \<Rightarrow> string \<Rightarrow> possible_point" where
  "opacity_sample_point i ref reachable secret key =
     \<lparr>pp_ordinal = i, pp_ref = ref, pp_run = ''run'', pp_cut = ''cut'', pp_strategy = ''strategy'',
      pp_scheduler = ''scheduler'', pp_environment = ''environment'', pp_order = ''order'', pp_reachable = reachable,
      pp_secret = secret, pp_initial_key = ''start'', pp_observation_key = key, pp_memory_key = ''memory'',
      pp_release_key = ''release'', pp_coalition_key = None\<rparr>"

definition sample_carrier :: "string \<Rightarrow> carrier_input" where
  "sample_carrier key =
     \<lparr>ci_source = ''carrier.json'', ci_source_digest = ''sha256:'' @ replicate 64 CHR ''0'', ci_profile = ''participant-opacity'',
      ci_profile_revision = ''1'', ci_profile_digest = opacity_dg (ProfileDocument opacity_sample_profile),
      ci_model = ''model'', ci_materializer = ''materializer'', ci_materializer_version = ''1'',
      ci_materializer_digest = ''sha256:'' @ replicate 64 CHR ''0'', ci_complete = True,
      ci_counts = \<lparr>pn_points = 3, pn_runs = 1, pn_cuts = 1, pn_strategies = 1, pn_pairs = 1, pn_orders = 1\<rparr>,
      ci_claim = opacity_sample_claim FiniteCases FiniteEvidence BoundedTestAxis Tested NORMALIZED_INPUT_PROVENANCE_NONCLAIM,
      ci_points = [opacity_sample_point 2 ''p2'' True False key, opacity_sample_point 0 ''p0'' False True ''low'',
        opacity_sample_point 1 ''p1'' True True ''low'']\<rparr>"

definition opacity_sample_loader :: catalog_loader where
  "opacity_sample_loader revision = (if revision = ''1'' then Some opacity_sample_catalog else None)"

abbreviation sample_carrier_analysis :: "string \<Rightarrow> opacity_error + analysis_evidence" where
  "sample_carrier_analysis key \<equiv>
     analyze_participant_opacity_input opacity_dg opacity_sample_loader (sample_carrier key) opacity_sample_profile"

lemma sample_carrier_outcomes:
  "map_sum id (\<lambda>e. (ae_outcome e, map_option xp_point (ae_counterexample e))) (sample_carrier_analysis ''high'')
     = Inr (PointCounterexample, Some 1)"
  "map_sum id (\<lambda>e. (ae_outcome e, map_option xp_point (ae_counterexample e))) (sample_carrier_analysis ''low'')
     = Inr (NoCounterexample, None)"
  by code_simp+

theorem carrier_analysis_decides_opacity_witness:
  "(\<exists>p. exposed_point (sample_carrier ''high'') p \<and> pp_ordinal p = 1)
   \<and> (\<exists>p \<in> carrier_points (sample_carrier ''low''). pp_secret p)"
proof
  obtain e where e: "sample_carrier_analysis ''high'' = Inr e" "ae_outcome e = PointCounterexample"
    and "map_option xp_point (ae_counterexample e) = Some 1"
    using sample_carrier_outcomes(1) by (cases "sample_carrier_analysis ''high''") auto
  with carrier_analysis_decides_opacity [OF e(1)]
  show "\<exists>p. exposed_point (sample_carrier ''high'') p \<and> pp_ordinal p = 1" by auto
next
  obtain e where e: "sample_carrier_analysis ''low'' = Inr e" "ae_outcome e = NoCounterexample"
    using sample_carrier_outcomes(2) by (cases "sample_carrier_analysis ''low''") auto
  with carrier_analysis_decides_opacity [OF e(1)]
  show "\<exists>p \<in> carrier_points (sample_carrier ''low''). pp_secret p" by simp
qed

end
