(* ===== verification/EpisodeModel.thy ===== *)
theory EpisodeModel
  imports Addressing
begin

text \<open>
  The participant episode contracts (raes_contracts/participant_episode.py), the checker of the
  episode fields of a runtime snapshot (participant_episode_snapshot.py) and the closure records
  that relate a step signal of a backend to a realized terminal reason
  (participant_episode_closure.py).

  A payload is the record that its fields form: the translation between a record and a mapping
  of JSON values, and the rejection of mappings with missing or ill-typed fields, are not
  modelled. \<open>from_payload\<close> then runs the validators of the constructor, as the code does. The
  text of a violation is a constructor with the values the text repeats.
\<close>

section \<open>States and events\<close>

datatype episode_status = INITIALIZING | RUNNING | TERMINATED

datatype terminal_reason = COMPLETED | TIMED_OUT | TRUNCATED | INTERRUPTED

datatype control_action = INITIALIZE | RESET | RESTART

datatype episode_event_type =
  EPISODE_INITIALIZED | EPISODE_RUNNING | EPISODE_COMPLETED | EPISODE_TIMED_OUT
| EPISODE_TRUNCATED | EPISODE_INTERRUPTED | EPISODE_RESET | EPISODE_RESTARTED

fun terminal_events :: "episode_event_type \<Rightarrow> terminal_reason option" where
  "terminal_events EPISODE_COMPLETED = Some COMPLETED"
| "terminal_events EPISODE_TIMED_OUT = Some TIMED_OUT"
| "terminal_events EPISODE_TRUNCATED = Some TRUNCATED"
| "terminal_events EPISODE_INTERRUPTED = Some INTERRUPTED"
| "terminal_events _ = None"

fun control_events :: "episode_event_type \<Rightarrow> control_action option" where
  "control_events EPISODE_INITIALIZED = Some INITIALIZE"
| "control_events EPISODE_RESET = Some RESET"
| "control_events EPISODE_RESTARTED = Some RESTART"
| "control_events _ = None"

record initialize_request =
  initialize_participant :: address
  initialize_episode :: "string option"

text \<open>Reset and restart requests have the same fields.\<close>

record new_episode_request =
  request_participant :: address
  request_episode :: "string option"
  request_reason :: string

record terminate_request =
  terminate_participant :: address
  terminate_reason :: terminal_reason
  terminate_detail :: string

record episode_state =
  state_schema_version :: string
  state_participant :: address
  state_episode :: string
  state_sequence :: int
  state_status :: episode_status
  state_reason :: "terminal_reason option"
  initialized_at :: string
  updated_at :: string
  terminated_at :: "string option"
  last_control_action :: control_action
  previous_episode :: "string option"

record episode_event =
  event_type :: episode_event_type
  event_timestamp :: string
  event_participant :: address
  event_episode :: string
  event_sequence :: int
  event_reason :: "terminal_reason option"
  event_action :: "control_action option"
  event_details :: "(string, string) dict"

datatype episode_error =
  EmptyEpisodeField \<comment> \<open>TypeError: must be a non-empty string\<close>
| NegativeSequence \<comment> \<open>ValueError: must be >= 0\<close>
| LiveTerminalReason
| LiveTerminatedAt
| MissingTerminalReason
| MissingTerminatedAt
| FirstEpisodeAction
| FirstEpisodeLinked
| LaterEpisodeInitialized
| LaterEpisodeUnlinked
| SamePreviousEpisode
| UnexpectedTerminalReason
| WrongTerminalReason
| UnexpectedControlAction
| WrongControlAction
| InitializedLater
| NewEpisodeFirst
| NoEvidenceRefs
| UngovernedClosure
| NotCompiledAddress
| RepeatedAddress

definition require_text :: "string \<Rightarrow> episode_error + unit" where
  "require_text s = require (s \<noteq> []) EmptyEpisodeField"

definition require_optional_text :: "string option \<Rightarrow> episode_error + unit" where
  "require_optional_text s = require (s \<noteq> Some []) EmptyEpisodeField"

definition validate_episode_state_types :: "episode_state \<Rightarrow> episode_error + unit" where
  "validate_episode_state_types st =
     ebind (require_text (state_schema_version st)) (\<lambda>_.
     ebind (require_text (state_participant st)) (\<lambda>_.
     ebind (require_text (state_episode st)) (\<lambda>_.
     ebind (require (0 \<le> state_sequence st) NegativeSequence) (\<lambda>_.
     ebind (require_text (initialized_at st)) (\<lambda>_.
     ebind (require_text (updated_at st)) (\<lambda>_.
     ebind (require_optional_text (terminated_at st)) (\<lambda>_.
       require_optional_text (previous_episode st))))))))"

definition validate_episode_state_status :: "episode_state \<Rightarrow> episode_error + unit" where
  "validate_episode_state_status st =
     (case state_status st of
        TERMINATED \<Rightarrow>
          ebind (require (state_reason st \<noteq> None) MissingTerminalReason) (\<lambda>_.
            require (terminated_at st \<noteq> None) MissingTerminatedAt)
      | _ \<Rightarrow>
          ebind (require (state_reason st = None) LiveTerminalReason) (\<lambda>_.
            require (terminated_at st = None) LiveTerminatedAt))"

definition validate_episode_state_sequence :: "episode_state \<Rightarrow> episode_error + unit" where
  "validate_episode_state_sequence st =
     (if state_sequence st = 0 then
        ebind (require (last_control_action st = INITIALIZE) FirstEpisodeAction) (\<lambda>_.
          require (previous_episode st = None) FirstEpisodeLinked)
      else
        ebind (require (last_control_action st \<noteq> INITIALIZE) LaterEpisodeInitialized) (\<lambda>_.
        ebind (require (previous_episode st \<noteq> None) LaterEpisodeUnlinked) (\<lambda>_.
          require (previous_episode st \<noteq> Some (state_episode st)) SamePreviousEpisode)))"

definition make_episode_state :: "episode_state \<Rightarrow> episode_error + episode_state" where
  "make_episode_state st =
     ebind (validate_episode_state_types st) (\<lambda>_.
     ebind (validate_episode_state_status st) (\<lambda>_.
     ebind (validate_episode_state_sequence st) (\<lambda>_. Inr st)))"

definition validate_episode_history_types :: "episode_event \<Rightarrow> episode_error + unit" where
  "validate_episode_history_types ev =
     ebind (require_text (event_timestamp ev)) (\<lambda>_.
     ebind (require_text (event_participant ev)) (\<lambda>_.
     ebind (require_text (event_episode ev)) (\<lambda>_.
       require (0 \<le> event_sequence ev) NegativeSequence)))"

definition validate_episode_history_terminal_reason :: "episode_event \<Rightarrow> episode_error + unit" where
  "validate_episode_history_terminal_reason ev =
     (case terminal_events (event_type ev) of
        None \<Rightarrow> require (event_reason ev = None) UnexpectedTerminalReason
      | Some expected \<Rightarrow> require (event_reason ev = Some expected) WrongTerminalReason)"

definition validate_episode_history_control_action :: "episode_event \<Rightarrow> episode_error + unit" where
  "validate_episode_history_control_action ev =
     (case control_events (event_type ev) of
        None \<Rightarrow> require (event_action ev = None) UnexpectedControlAction
      | Some expected \<Rightarrow> require (event_action ev = Some expected) WrongControlAction)"

definition validate_episode_history_sequence :: "episode_event \<Rightarrow> episode_error + unit" where
  "validate_episode_history_sequence ev =
     ebind (require (\<not> (event_type ev = EPISODE_INITIALIZED \<and> event_sequence ev \<noteq> 0)) InitializedLater) (\<lambda>_.
       require (\<not> (event_type ev \<in> {EPISODE_RESET, EPISODE_RESTARTED} \<and> event_sequence ev = 0)) NewEpisodeFirst)"

definition make_episode_event :: "episode_event \<Rightarrow> episode_error + episode_event" where
  "make_episode_event ev =
     ebind (validate_episode_history_types ev) (\<lambda>_.
     ebind (validate_episode_history_terminal_reason ev) (\<lambda>_.
     ebind (validate_episode_history_control_action ev) (\<lambda>_.
     ebind (validate_episode_history_sequence ev) (\<lambda>_. Inr ev))))"

section \<open>Violations of a snapshot\<close>

datatype episode_violation =
  EmptyResultKey
| InvalidResult episode_error
| ResultKeyMismatch address address
| EmptyHistoryKey
| InvalidEvent episode_error
| EventKeyMismatch address address
| SequenceBackward int int
| AdvanceWithoutReset int episode_event_type
| EpisodeChanged int string string
| HeadMismatch "string \<times> int" "string \<times> int"
| LiveAtTerminalHead episode_status episode_event_type
| TerminatedAtLiveHead episode_event_type
| HeadReasonMismatch "terminal_reason option" "terminal_reason option"
| EmptyClosureKey
| InvalidClosure episode_error
| ClosureKeyMismatch address address
| NoRealizedTerminal string int
| ClosureReasonMismatch terminal_reason terminal_reason

type_synonym located_violation = "string \<times> episode_violation"

type_synonym episode_results = "(address, episode_state) dict"
type_synonym episode_histories = "(address, episode_event list) dict"

definition results_key :: string where
  "results_key = ''runtime.snapshot.participant-episode-results''"

definition history_key :: string where
  "history_key = ''runtime.snapshot.participant-episode-history''"

definition locator :: "string \<Rightarrow> nat \<Rightarrow> string" where
  "locator key index = key @ ''['' @ digits_of index @ '']''"

definition result_payload_violations :: "address \<Rightarrow> episode_state \<Rightarrow> located_violation list" where
  "result_payload_violations key result =
     (case make_episode_state result of
        Inl e \<Rightarrow> [(key, InvalidResult e)]
      | Inr st \<Rightarrow>
          if state_participant st \<noteq> key then [(key, ResultKeyMismatch key (state_participant st))] else [])"

definition episode_result_violations :: "episode_results \<Rightarrow> located_violation list" where
  "episode_result_violations results =
     concat (map (\<lambda>(key, result).
       if key = [] then [(results_key, EmptyResultKey)] else result_payload_violations key result) results)"

text \<open>The body of the loop of \<open>_normalize_participant_episode_history\<close>: an event or a violation.\<close>

definition normalize_history_entry ::
    "address \<Rightarrow> nat \<times> episode_event \<Rightarrow> located_violation + episode_event" where
  "normalize_history_entry key = (\<lambda>(index, ev).
     (case make_episode_event ev of
        Inl e \<Rightarrow> Inl (locator key index, InvalidEvent e)
      | Inr ev' \<Rightarrow>
          if event_participant ev' \<noteq> key
          then Inl (locator key index, EventKeyMismatch key (event_participant ev'))
          else Inr ev'))"

definition normalize_episode_history ::
    "address \<Rightarrow> episode_event list \<Rightarrow> episode_event list \<times> located_violation list" where
  "normalize_episode_history key history =
     foldl (\<lambda>(events, violations) entry.
         case normalize_history_entry key entry of
           Inl violation \<Rightarrow> (events, violations @ [violation])
         | Inr ev \<Rightarrow> (events @ [ev], violations))
       ([], []) (enumerate 0 history)"

definition is_invalid_sequence_advance :: "episode_event \<Rightarrow> int \<Rightarrow> bool" where
  "is_invalid_sequence_advance ev last_sequence \<longleftrightarrow>
     event_sequence ev > last_sequence \<and> last_sequence \<noteq> -1
     \<and> event_type ev \<notin> {EPISODE_RESET, EPISODE_RESTARTED}"

definition sequence_transition_violations ::
    "string \<Rightarrow> episode_event \<Rightarrow> int \<Rightarrow> (int, string) dict \<Rightarrow> located_violation list" where
  "sequence_transition_violations loc ev last_sequence sequence_to_episode =
     (if is_invalid_sequence_advance ev last_sequence
      then [(loc, AdvanceWithoutReset (event_sequence ev) (event_type ev))] else [])
     @ (case dget sequence_to_episode (event_sequence ev) of
          None \<Rightarrow> []
        | Some expected \<Rightarrow>
            if expected \<noteq> event_episode ev
            then [(loc, EpisodeChanged (event_sequence ev) expected (event_episode ev))] else [])"

fun sequence_violations_from ::
    "address \<Rightarrow> int \<Rightarrow> (int, string) dict \<Rightarrow> (nat \<times> episode_event) list \<Rightarrow> located_violation list" where
  "sequence_violations_from key last_sequence sequence_to_episode [] = []"
| "sequence_violations_from key last_sequence sequence_to_episode ((index, ev) # events) =
     (if event_sequence ev < last_sequence then
        (locator key index, SequenceBackward last_sequence (event_sequence ev))
        # sequence_violations_from key last_sequence sequence_to_episode events
      else
        sequence_transition_violations (locator key index) ev last_sequence sequence_to_episode
        @ sequence_violations_from key (event_sequence ev)
            (dput (event_sequence ev) (event_episode ev) sequence_to_episode) events)"

definition episode_sequence_violations :: "address \<Rightarrow> episode_event list \<Rightarrow> located_violation list" where
  "episode_sequence_violations key events = sequence_violations_from key (-1) [] (enumerate 0 events)"

definition episode_history_violations :: "episode_histories \<Rightarrow> located_violation list" where
  "episode_history_violations histories =
     concat (map (\<lambda>(key, history).
       if key = [] then [(history_key, EmptyHistoryKey)]
       else (case normalize_episode_history key history of
               (events, []) \<Rightarrow> episode_sequence_violations key events
             | (_, violations) \<Rightarrow> violations)) histories)"

definition last_matching_event :: "address \<Rightarrow> episode_event list \<Rightarrow> episode_event option" where
  "last_matching_event key history =
     foldl (\<lambda>found ev.
         case make_episode_event ev of
           Inl e \<Rightarrow> found
         | Inr candidate \<Rightarrow> if event_participant candidate = key then Some candidate else found)
       None history"

definition result_history_context ::
    "address \<Rightarrow> episode_state \<Rightarrow> episode_histories \<Rightarrow> (episode_state \<times> episode_event) option" where
  "result_history_context key result histories =
     (if key = [] then None
      else (case dget histories key of
              None \<Rightarrow> None
            | Some [] \<Rightarrow> None
            | Some history \<Rightarrow>
                (case (make_episode_state result, last_matching_event key history) of
                   (Inr st, Some ev) \<Rightarrow> Some (st, ev)
                 | _ \<Rightarrow> None)))"

definition result_differs_from_head :: "episode_state \<Rightarrow> episode_event \<Rightarrow> bool" where
  "result_differs_from_head st ev \<longleftrightarrow>
     state_episode st \<noteq> event_episode ev \<or> state_sequence st \<noteq> event_sequence ev"

definition terminated_head_violations :: "address \<Rightarrow> episode_state \<Rightarrow> episode_event \<Rightarrow> located_violation list" where
  "terminated_head_violations key st ev =
     (if terminal_events (event_type ev) = None then [(key, TerminatedAtLiveHead (event_type ev))]
      else if state_reason st \<noteq> event_reason ev
      then [(key, HeadReasonMismatch (state_reason st) (event_reason ev))] else [])"

definition status_head_violations :: "address \<Rightarrow> episode_state \<Rightarrow> episode_event \<Rightarrow> located_violation list" where
  "status_head_violations key st ev =
     (if state_status st = TERMINATED then terminated_head_violations key st ev
      else if state_status st \<in> {INITIALIZING, RUNNING} \<and> terminal_events (event_type ev) \<noteq> None
      then [(key, LiveAtTerminalHead (state_status st) (event_type ev))] else [])"

definition episode_head_violations ::
    "episode_results \<Rightarrow> episode_histories \<Rightarrow> located_violation list" where
  "episode_head_violations results histories =
     concat (map (\<lambda>(key, result).
       case result_history_context key result histories of
         None \<Rightarrow> []
       | Some (st, ev) \<Rightarrow>
           if result_differs_from_head st ev
           then [(key, HeadMismatch (state_episode st, state_sequence st) (event_episode ev, event_sequence ev))]
           else status_head_violations key st ev) results)"

definition episode_snapshot_violations ::
    "episode_results \<Rightarrow> episode_histories \<Rightarrow> located_violation list" where
  "episode_snapshot_violations results histories =
     episode_result_violations results @ episode_history_violations histories
     @ episode_head_violations results histories"

section \<open>Closure records\<close>

datatype closure_signal = RL_TERMINATION | RL_TRUNCATION

fun closure_signal_reasons :: "closure_signal \<Rightarrow> terminal_reason set" where
  "closure_signal_reasons RL_TERMINATION = {COMPLETED}"
| "closure_signal_reasons RL_TRUNCATION = {TRUNCATED, TIMED_OUT}"

record closure_record =
  closure_participant :: address
  closure_episode :: string
  closure_sequence :: int
  source_signal :: closure_signal
  mapped_reason :: terminal_reason
  deriving_authority :: string
  evidence_refs :: "string list"
  derived_at :: string
  closure_schema_version :: string

type_synonym closure_records = "(address, closure_record list) dict"

definition normalize_evidence_refs :: "string list \<Rightarrow> episode_error + string list" where
  "normalize_evidence_refs refs =
     ebind (require (refs \<noteq> []) NoEvidenceRefs) (\<lambda>_.
     ebind (echeck require_text refs) (\<lambda>_. Inr refs))"

definition validate_closure_types :: "closure_record \<Rightarrow> episode_error + unit" where
  "validate_closure_types c =
     ebind (require_text (closure_schema_version c)) (\<lambda>_.
     ebind (require_text (closure_participant c)) (\<lambda>_.
     ebind (require_text (closure_episode c)) (\<lambda>_.
     ebind (require (0 \<le> closure_sequence c) NegativeSequence) (\<lambda>_.
     ebind (require_text (deriving_authority c)) (\<lambda>_.
     ebind (require_text (derived_at c)) (\<lambda>_.
     ebind (normalize_evidence_refs (evidence_refs c)) (\<lambda>_. Inr ())))))))"

definition validate_closure_mapping :: "closure_record \<Rightarrow> episode_error + unit" where
  "validate_closure_mapping c =
     require (mapped_reason c \<in> closure_signal_reasons (source_signal c)) UngovernedClosure"

definition make_closure_record :: "closure_record \<Rightarrow> episode_error + closure_record" where
  "make_closure_record c =
     ebind (validate_closure_types c) (\<lambda>_. ebind (validate_closure_mapping c) (\<lambda>_. Inr c))"

text \<open>\<open>from_payload\<close> normalizes the evidence references before it calls the constructor.\<close>

definition closure_from_payload :: "closure_record \<Rightarrow> episode_error + closure_record" where
  "closure_from_payload c =
     ebind (normalize_evidence_refs (evidence_refs c)) (\<lambda>refs.
       make_closure_record (c\<lparr>evidence_refs := refs\<rparr>))"

type_synonym terminal_index = "(string \<times> int, terminal_reason) dict"

definition address_terminal_reasons :: "address \<Rightarrow> episode_event list \<Rightarrow> terminal_index" where
  "address_terminal_reasons key history =
     foldl (\<lambda>terminals ev.
         case make_episode_event ev of
           Inl e \<Rightarrow> terminals
         | Inr ev' \<Rightarrow>
             (if event_participant ev' = key \<and> terminal_events (event_type ev') \<noteq> None then
                (case event_reason ev' of
                   None \<Rightarrow> terminals
                 | Some reason \<Rightarrow> dput (event_episode ev', event_sequence ev') reason terminals)
              else terminals))
       [] history"

definition episode_terminal_index :: "episode_histories \<Rightarrow> (address, terminal_index) dict" where
  "episode_terminal_index histories =
     foldl (\<lambda>index (key, history).
         if key = [] then index else dput key (address_terminal_reasons key history) index)
       [] histories"

definition closure_head_violations ::
    "string \<Rightarrow> closure_record \<Rightarrow> terminal_index \<Rightarrow> located_violation list" where
  "closure_head_violations loc c address_terminals =
     (case dget address_terminals (closure_episode c, closure_sequence c) of
        None \<Rightarrow> [(loc, NoRealizedTerminal (closure_episode c) (closure_sequence c))]
      | Some realized \<Rightarrow>
          if mapped_reason c \<noteq> realized then [(loc, ClosureReasonMismatch (mapped_reason c) realized)] else [])"

definition address_closure_violations ::
    "address \<Rightarrow> closure_record list \<Rightarrow> (address, terminal_index) dict \<Rightarrow> located_violation list" where
  "address_closure_violations key records terminal_index =
     (let address_terminals = (case dget terminal_index key of None \<Rightarrow> [] | Some t \<Rightarrow> t) in
      concat (map (\<lambda>(index, payload).
        case closure_from_payload payload of
          Inl e \<Rightarrow> [(locator key index, InvalidClosure e)]
        | Inr c \<Rightarrow>
            if closure_participant c \<noteq> key
            then [(locator key index, ClosureKeyMismatch key (closure_participant c))]
            else closure_head_violations (locator key index) c address_terminals)
        (enumerate 0 records)))"

definition closures_key :: string where
  "closures_key = ''runtime.snapshot.participant-episode-closure-records''"

definition episode_closure_violations ::
    "closure_records \<Rightarrow> episode_histories \<Rightarrow> located_violation list" where
  "episode_closure_violations closures histories =
     (let terminal_index = episode_terminal_index histories in
      concat (map (\<lambda>(key, records).
        if key = [] then [(closures_key, EmptyClosureKey)]
        else address_closure_violations key records terminal_index) closures))"

end
