(* ===== verification/EpisodeRuntime.thy ===== *)
theory EpisodeRuntime
  imports EpisodeModel
begin

text \<open>
  The reference participant runtime (raes_backend_protocols/participant_runtime_base.py,
  participant_reset.py). The runtime object keeps a copy of the last episode fields it published
  and a counter per participant, from which it allocates episode ids; the state of an episode is
  read from the snapshot that the caller passes.

  An operation that raises keeps what it has already stored in the object, so an operation
  returns the object besides the exception or result. \<open>now\<close> is the reading of the wall clock
  as text. The other fields of a snapshot are \<open>episode_rest\<close>, of any type, and are passed on
  unchanged. The message of a diagnostic is a constructor.
\<close>

section \<open>The runtime object and its results\<close>

record 'r episode_snapshot =
  episode_results :: episode_results
  episode_history :: episode_histories
  episode_closures :: closure_records
  episode_rest :: 'r

record episode_runtime =
  runtime_results :: episode_results
  runtime_history :: episode_histories
  episode_counter :: "(address, nat) dict"

definition fresh_runtime :: episode_runtime where
  "fresh_runtime = \<lparr>runtime_results = [], runtime_history = [], episode_counter = []\<rparr>"

datatype episode_message =
  EmptyAddress
| AlreadyLive
| NoLiveEpisode
| CurrentStateInvalid
| CannotResetTerminated
| CannotRestartLive
| AlreadyTerminated
| DuplicateResetAddresses
| NativeResetBehavior

record episode_diagnostic =
  diagnostic_code :: string
  diagnostic_domain :: string
  diagnostic_address :: string
  diagnostic_message :: episode_message

record 'r episode_outcome =
  outcome_success :: bool
  outcome_snapshot :: "'r episode_snapshot"
  outcome_diagnostics :: "episode_diagnostic list"
  outcome_changed :: "address list"

type_synonym 'r episode_result = "episode_error + 'r episode_outcome"

definition episode_reject :: "'r episode_snapshot \<Rightarrow> episode_message \<Rightarrow> address \<Rightarrow> 'r episode_outcome" where
  "episode_reject s message a =
     \<lparr>outcome_success = False, outcome_snapshot = s,
      outcome_diagnostics =
        [\<lparr>diagnostic_code = ''runtime.participant-runtime.rejected'', diagnostic_domain = ''runtime'',
          diagnostic_address = (if a = [] then ''runtime.participant-runtime'' else a),
          diagnostic_message = message\<rparr>],
      outcome_changed = []\<rparr>"

definition allocate_episode_id :: "address \<Rightarrow> episode_runtime \<Rightarrow> string \<times> episode_runtime" where
  "allocate_episode_id a rt =
     (let next_index = (case dget (episode_counter rt) a of None \<Rightarrow> 0 | Some n \<Rightarrow> n) + 1 in
      (a @ ''-episode-'' @ digits_of next_index,
       rt\<lparr>episode_counter := dput a next_index (episode_counter rt)\<rparr>))"

text \<open>\<open>request.episode_id or self._allocate_episode_id(address)\<close>.\<close>

definition chosen_episode_id ::
    "string option \<Rightarrow> address \<Rightarrow> episode_runtime \<Rightarrow> string \<times> episode_runtime" where
  "chosen_episode_id requested a rt =
     (case requested of
        Some (c # cs) \<Rightarrow> (c # cs, rt)
      | _ \<Rightarrow> allocate_episode_id a rt)"

definition validate_changed_addresses :: "address list \<Rightarrow> episode_error + unit" where
  "validate_changed_addresses addresses =
     ebind (echeck (\<lambda>a. require (compiled_address a) NotCompiledAddress) addresses) (\<lambda>_.
       require (distinct addresses) RepeatedAddress)"

definition episode_apply ::
    "episode_runtime \<Rightarrow> 'r episode_snapshot \<Rightarrow> address \<Rightarrow> episode_state \<Rightarrow> episode_event list \<Rightarrow> bool \<Rightarrow>
       episode_runtime \<times> 'r episode_result" where
  "episode_apply rt s a st events replace_history =
     (let results = dput a st (episode_results s);
          old = (case dget (episode_history s) a of None \<Rightarrow> [] | Some evs \<Rightarrow> evs);
          history = dput a (if replace_history then events else old @ events) (episode_history s) in
      (rt\<lparr>runtime_results := results, runtime_history := history\<rparr>,
       ebind (validate_changed_addresses [a]) (\<lambda>_.
         Inr \<lparr>outcome_success = True,
              outcome_snapshot = s\<lparr>episode_results := results, episode_history := history\<rparr>,
              outcome_diagnostics = [], outcome_changed = [a]\<rparr>)))"

text \<open>The construction of a state and its events, each of which may raise, before \<open>_apply\<close>.\<close>

definition publish_episode ::
    "episode_runtime \<Rightarrow> 'r episode_snapshot \<Rightarrow> address \<Rightarrow> episode_state \<Rightarrow> episode_event list \<Rightarrow> bool \<Rightarrow>
       episode_runtime \<times> 'r episode_result" where
  "publish_episode rt s a st events replace_history =
     (case ebind (make_episode_state st) (\<lambda>st'.
           ebind (collect make_episode_event events) (\<lambda>events'. Inr (st', events'))) of
        Inl e \<Rightarrow> (rt, Inl e)
      | Inr (st', events') \<Rightarrow> episode_apply rt s a st' events' replace_history)"

section \<open>Operations\<close>

definition STATE_SCHEMA_VERSION :: string where
  "STATE_SCHEMA_VERSION = ''participant-episode-state/v1''"

definition episode_initialize ::
    "string \<Rightarrow> initialize_request \<Rightarrow> episode_runtime \<Rightarrow> 'r episode_snapshot \<Rightarrow>
       episode_runtime \<times> 'r episode_result" where
  "episode_initialize now req rt s =
     (let a = initialize_participant req in
      if a = [] then (rt, Inr (episode_reject s EmptyAddress a))
      else if dget (episode_results s) a \<noteq> None then (rt, Inr (episode_reject s AlreadyLive a))
      else (case chosen_episode_id (initialize_episode req) a rt of
              (episode_id, rt') \<Rightarrow>
                publish_episode rt' s a
                  \<lparr>state_schema_version = STATE_SCHEMA_VERSION, state_participant = a,
                   state_episode = episode_id, state_sequence = 0, state_status = RUNNING,
                   state_reason = None, initialized_at = now, updated_at = now, terminated_at = None,
                   last_control_action = INITIALIZE, previous_episode = None\<rparr>
                  [\<lparr>event_type = EPISODE_INITIALIZED, event_timestamp = now, event_participant = a,
                    event_episode = episode_id, event_sequence = 0, event_reason = None,
                    event_action = Some INITIALIZE, event_details = []\<rparr>,
                   \<lparr>event_type = EPISODE_RUNNING, event_timestamp = now, event_participant = a,
                    event_episode = episode_id, event_sequence = 0, event_reason = None,
                    event_action = None, event_details = []\<rparr>]
                  True))"

definition live_predecessor ::
    "'r episode_snapshot \<Rightarrow> address \<Rightarrow> 'r episode_outcome + episode_state" where
  "live_predecessor s a =
     (case (if a = [] then None else dget (episode_results s) a) of
        None \<Rightarrow> Inl (episode_reject s (if a = [] then EmptyAddress else NoLiveEpisode) a)
      | Some current \<Rightarrow>
          (case make_episode_state current of
             Inl e \<Rightarrow> Inl (episode_reject s CurrentStateInvalid a)
           | Inr st \<Rightarrow> Inr st))"

definition new_episode ::
    "control_action \<Rightarrow> episode_event_type \<Rightarrow> bool \<Rightarrow> episode_message \<Rightarrow> string \<Rightarrow> new_episode_request \<Rightarrow>
       episode_runtime \<Rightarrow> 'r episode_snapshot \<Rightarrow> episode_runtime \<times> 'r episode_result" where
  "new_episode action reset_event require_terminated wrong_state now req rt s =
     (let a = request_participant req in
      case live_predecessor s a of
        Inl rejected \<Rightarrow> (rt, Inr rejected)
      | Inr current \<Rightarrow>
          if (state_status current = TERMINATED) \<noteq> require_terminated
          then (rt, Inr (episode_reject s wrong_state a))
          else (case chosen_episode_id (request_episode req) a rt of
                  (episode_id, rt') \<Rightarrow>
                    (let new_sequence = state_sequence current + 1 in
                     publish_episode rt' s a
                       \<lparr>state_schema_version = STATE_SCHEMA_VERSION, state_participant = a,
                        state_episode = episode_id, state_sequence = new_sequence,
                        state_status = RUNNING, state_reason = None, initialized_at = now,
                        updated_at = now, terminated_at = None, last_control_action = action,
                        previous_episode = Some (state_episode current)\<rparr>
                       [\<lparr>event_type = reset_event, event_timestamp = now, event_participant = a,
                         event_episode = episode_id, event_sequence = new_sequence,
                         event_reason = None, event_action = Some action,
                         event_details = [(''previous_episode_id'', state_episode current),
                                          (''reason'', request_reason req)]\<rparr>,
                        \<lparr>event_type = EPISODE_RUNNING, event_timestamp = now, event_participant = a,
                         event_episode = episode_id, event_sequence = new_sequence,
                         event_reason = None, event_action = None, event_details = []\<rparr>]
                       False)))"

definition episode_reset ::
    "string \<Rightarrow> new_episode_request \<Rightarrow> episode_runtime \<Rightarrow> 'r episode_snapshot \<Rightarrow>
       episode_runtime \<times> 'r episode_result" where
  "episode_reset = new_episode RESET EPISODE_RESET False CannotResetTerminated"

definition episode_restart ::
    "string \<Rightarrow> new_episode_request \<Rightarrow> episode_runtime \<Rightarrow> 'r episode_snapshot \<Rightarrow>
       episode_runtime \<times> 'r episode_result" where
  "episode_restart = new_episode RESTART EPISODE_RESTARTED True CannotRestartLive"

fun terminal_event_for :: "terminal_reason \<Rightarrow> episode_event_type" where
  "terminal_event_for COMPLETED = EPISODE_COMPLETED"
| "terminal_event_for TIMED_OUT = EPISODE_TIMED_OUT"
| "terminal_event_for TRUNCATED = EPISODE_TRUNCATED"
| "terminal_event_for INTERRUPTED = EPISODE_INTERRUPTED"

definition episode_terminate ::
    "string \<Rightarrow> terminate_request \<Rightarrow> episode_runtime \<Rightarrow> 'r episode_snapshot \<Rightarrow>
       episode_runtime \<times> 'r episode_result" where
  "episode_terminate now req rt s =
     (let a = terminate_participant req in
      case live_predecessor s a of
        Inl rejected \<Rightarrow> (rt, Inr rejected)
      | Inr current \<Rightarrow>
          if state_status current = TERMINATED then (rt, Inr (episode_reject s AlreadyTerminated a))
          else
            publish_episode rt s a
              \<lparr>state_schema_version = STATE_SCHEMA_VERSION, state_participant = a,
               state_episode = state_episode current, state_sequence = state_sequence current,
               state_status = TERMINATED, state_reason = Some (terminate_reason req),
               initialized_at = initialized_at current, updated_at = now, terminated_at = Some now,
               last_control_action = last_control_action current,
               previous_episode = previous_episode current\<rparr>
              [\<lparr>event_type = terminal_event_for (terminate_reason req), event_timestamp = now,
                event_participant = a, event_episode = state_episode current,
                event_sequence = state_sequence current, event_reason = Some (terminate_reason req),
                event_action = None, event_details = [(''detail'', terminate_detail req)]\<rparr>]
              False)"

text \<open>The batch reset: each request comes with the clock reading of its turn.\<close>

fun reset_each ::
    "(string \<times> new_episode_request) list \<Rightarrow> episode_runtime \<Rightarrow> 'r episode_snapshot \<Rightarrow>
       episode_diagnostic list \<Rightarrow> address list \<Rightarrow> episode_runtime \<times> 'r episode_result" where
  "reset_each [] rt working diagnostics changed =
     (rt, Inr \<lparr>outcome_success = True, outcome_snapshot = working, outcome_diagnostics = diagnostics,
               outcome_changed = fromkeys changed\<rparr>)"
| "reset_each ((now, req) # requests) rt working diagnostics changed =
     (case episode_reset now req rt working of
        (rt', Inl e) \<Rightarrow> (rt', Inl e)
      | (rt', Inr result) \<Rightarrow>
          if \<not> outcome_success result then
            (rt', Inr \<lparr>outcome_success = False, outcome_snapshot = working,
                       outcome_diagnostics = diagnostics @ outcome_diagnostics result,
                       outcome_changed = []\<rparr>)
          else reset_each requests rt' (outcome_snapshot result)
                 (diagnostics @ outcome_diagnostics result) (changed @ outcome_changed result))"

text \<open>
  \<open>reset_many_atomically\<close>: the runtime object is put back to the checkpoint when a reset is
  rejected or raises, and the rejected batch returns the snapshot it was given.
\<close>

definition reset_many_atomically ::
    "(string \<times> new_episode_request) list \<Rightarrow> episode_runtime \<Rightarrow> 'r episode_snapshot \<Rightarrow>
       episode_runtime \<times> 'r episode_result" where
  "reset_many_atomically requests rt s =
     (if \<not> distinct (map (request_participant \<circ> snd) requests)
      then (rt, Inr (episode_reject s DuplicateResetAddresses []))
      else (case reset_each requests rt s [] [] of
              (rt', Inl e) \<Rightarrow> (rt, Inl e)
            | (rt', Inr result) \<Rightarrow>
                if \<not> outcome_success result then (rt, Inr (result\<lparr>outcome_snapshot := s\<rparr>))
                else (rt', Inr result)))"

text \<open>\<open>reset_many\<close>: a subclass that overrides \<open>reset\<close> has to provide its own.\<close>

definition reset_many ::
    "bool \<Rightarrow> (string \<times> new_episode_request) list \<Rightarrow> episode_runtime \<Rightarrow> 'r episode_snapshot \<Rightarrow>
       episode_runtime \<times> 'r episode_result" where
  "reset_many native_reset requests rt s =
     (if native_reset then (rt, Inr (episode_reject s NativeResetBehavior []))
      else reset_many_atomically requests rt s)"

definition runtime_status :: "episode_runtime \<Rightarrow> nat \<times> nat" where
  "runtime_status rt =
     (length (runtime_results rt),
      length (filter (\<lambda>st. state_status st = RUNNING) (dvals (runtime_results rt))))"

section \<open>Sequences of operations\<close>

datatype episode_op =
  Initialize string initialize_request
| Reset string new_episode_request
| Restart string new_episode_request
| Terminate string terminate_request
| ResetMany "(string \<times> new_episode_request) list"
| NewRuntime \<comment> \<open>the process is started again over the stored snapshot\<close>

fun episode_call ::
    "episode_op \<Rightarrow> episode_runtime \<Rightarrow> 'r episode_snapshot \<Rightarrow> episode_runtime \<times> 'r episode_result" where
  "episode_call (Initialize now req) rt s = episode_initialize now req rt s"
| "episode_call (Reset now req) rt s = episode_reset now req rt s"
| "episode_call (Restart now req) rt s = episode_restart now req rt s"
| "episode_call (Terminate now req) rt s = episode_terminate now req rt s"
| "episode_call (ResetMany requests) rt s = reset_many False requests rt s"
| "episode_call NewRuntime rt s =
     (fresh_runtime, Inr \<lparr>outcome_success = True, outcome_snapshot = s, outcome_diagnostics = [],
                          outcome_changed = []\<rparr>)"

text \<open>
  The caller keeps the snapshot of the result, also of a rejected operation; after an exception
  it keeps the snapshot it had.
\<close>

type_synonym 'r episode_world = "episode_runtime \<times> 'r episode_snapshot"

definition episode_step :: "episode_op \<Rightarrow> 'r episode_world \<Rightarrow> episode_error + 'r episode_world" where
  "episode_step op = (\<lambda>(rt, s).
     (case episode_call op rt s of
        (rt', Inl e) \<Rightarrow> Inr (rt', s)
      | (rt', Inr result) \<Rightarrow> Inr (rt', outcome_snapshot result)))"

definition empty_episodes :: "'r \<Rightarrow> 'r episode_world" where
  "empty_episodes rest =
     (fresh_runtime,
      \<lparr>episode_results = [], episode_history = [], episode_closures = [], episode_rest = rest\<rparr>)"

end
