(* ===== verification/EpisodeProofs.thy ===== *)
theory EpisodeProofs
  imports EpisodeRuntime JsonPointer
begin

text \<open>
  What the validators and the checkers decide: the well-formedness of a state and of an event,
  the empty list of violations as a declarative condition on a snapshot, and the realized
  terminal reasons that a closure record may refer to.
\<close>

section \<open>Well-formed states and events\<close>

definition state_ok :: "episode_state \<Rightarrow> bool" where
  "state_ok st \<longleftrightarrow>
     state_schema_version st \<noteq> [] \<and> state_participant st \<noteq> [] \<and> state_episode st \<noteq> []
     \<and> 0 \<le> state_sequence st \<and> initialized_at st \<noteq> [] \<and> updated_at st \<noteq> []
     \<and> terminated_at st \<noteq> Some [] \<and> previous_episode st \<noteq> Some []
     \<and> (state_status st = TERMINATED \<longleftrightarrow> state_reason st \<noteq> None)
     \<and> (state_status st = TERMINATED \<longleftrightarrow> terminated_at st \<noteq> None)
     \<and> (state_sequence st = 0 \<longleftrightarrow> last_control_action st = INITIALIZE)
     \<and> (state_sequence st = 0 \<longleftrightarrow> previous_episode st = None)
     \<and> previous_episode st \<noteq> Some (state_episode st)"

lemma require_text_Inr [errs]: "require_text s = Inr u \<longleftrightarrow> s \<noteq> []"
  by (simp add: require_text_def require_eq_Inr)

lemma require_optional_text_Inr [errs]: "require_optional_text s = Inr u \<longleftrightarrow> s \<noteq> Some []"
  by (simp add: require_optional_text_def require_eq_Inr)

lemma validate_episode_state_types_Inr:
  "validate_episode_state_types st = Inr u \<longleftrightarrow>
     state_schema_version st \<noteq> [] \<and> state_participant st \<noteq> [] \<and> state_episode st \<noteq> []
     \<and> 0 \<le> state_sequence st \<and> initialized_at st \<noteq> [] \<and> updated_at st \<noteq> []
     \<and> terminated_at st \<noteq> Some [] \<and> previous_episode st \<noteq> Some []"
  by (simp add: validate_episode_state_types_def errs)

lemma validate_episode_state_status_Inr:
  "validate_episode_state_status st = Inr u \<longleftrightarrow>
     (state_status st = TERMINATED \<longleftrightarrow> state_reason st \<noteq> None)
     \<and> (state_status st = TERMINATED \<longleftrightarrow> terminated_at st \<noteq> None)"
  by (cases "state_status st") (simp_all add: validate_episode_state_status_def errs)

lemma validate_episode_state_sequence_Inr:
  "validate_episode_state_sequence st = Inr u \<longleftrightarrow>
     (state_sequence st = 0 \<longleftrightarrow> last_control_action st = INITIALIZE)
     \<and> (state_sequence st = 0 \<longleftrightarrow> previous_episode st = None)
     \<and> previous_episode st \<noteq> Some (state_episode st)"
  by (cases "state_sequence st = 0") (auto simp add: validate_episode_state_sequence_def errs)

lemma ebind_ignored_Inr: "ebind m (\<lambda>_. k) = Inr y \<longleftrightarrow> (\<exists>u. m = Inr u) \<and> k = Inr y"
  by (cases m) auto

lemma make_episode_state_Inr [errs]: "make_episode_state st = Inr st' \<longleftrightarrow> st' = st \<and> state_ok st"
proof -
  have "state_ok st \<longleftrightarrow> (\<exists>u. validate_episode_state_types st = Inr u)
      \<and> (\<exists>u. validate_episode_state_status st = Inr u) \<and> (\<exists>u. validate_episode_state_sequence st = Inr u)"
    unfolding state_ok_def validate_episode_state_types_Inr validate_episode_state_status_Inr
      validate_episode_state_sequence_Inr by (simp only: simp_thms conj_assoc)
  then show ?thesis
    unfolding make_episode_state_def ebind_ignored_Inr by (simp only: sum.inject) blast
qed

lemma make_episode_state_ok: "state_ok st \<Longrightarrow> make_episode_state st = Inr st"
  by (simp add: make_episode_state_Inr)

lemma make_episode_state_bad: "\<not> state_ok st \<Longrightarrow> \<exists>e. make_episode_state st = Inl e"
  using make_episode_state_Inr [of st] by (cases "make_episode_state st") auto

definition event_ok :: "episode_event \<Rightarrow> bool" where
  "event_ok ev \<longleftrightarrow>
     event_timestamp ev \<noteq> [] \<and> event_participant ev \<noteq> [] \<and> event_episode ev \<noteq> []
     \<and> 0 \<le> event_sequence ev
     \<and> event_reason ev = terminal_events (event_type ev)
     \<and> event_action ev = control_events (event_type ev)
     \<and> (event_type ev = EPISODE_INITIALIZED \<longrightarrow> event_sequence ev = 0)
     \<and> (event_type ev \<in> {EPISODE_RESET, EPISODE_RESTARTED} \<longrightarrow> event_sequence ev \<noteq> 0)"

lemma validate_episode_history_types_Inr:
  "validate_episode_history_types ev = Inr u \<longleftrightarrow>
     event_timestamp ev \<noteq> [] \<and> event_participant ev \<noteq> [] \<and> event_episode ev \<noteq> []
     \<and> 0 \<le> event_sequence ev"
  by (simp add: validate_episode_history_types_def errs)

lemma validate_episode_history_terminal_reason_Inr:
  "validate_episode_history_terminal_reason ev = Inr u \<longleftrightarrow> event_reason ev = terminal_events (event_type ev)"
  by (simp add: validate_episode_history_terminal_reason_def errs split: option.splits)

lemma validate_episode_history_control_action_Inr:
  "validate_episode_history_control_action ev = Inr u \<longleftrightarrow> event_action ev = control_events (event_type ev)"
  by (simp add: validate_episode_history_control_action_def errs split: option.splits)

lemma validate_episode_history_sequence_Inr:
  "validate_episode_history_sequence ev = Inr u \<longleftrightarrow>
     (event_type ev = EPISODE_INITIALIZED \<longrightarrow> event_sequence ev = 0)
     \<and> (event_type ev \<in> {EPISODE_RESET, EPISODE_RESTARTED} \<longrightarrow> event_sequence ev \<noteq> 0)"
  by (auto simp: validate_episode_history_sequence_def errs)

lemma make_episode_event_Inr [errs]: "make_episode_event ev = Inr ev' \<longleftrightarrow> ev' = ev \<and> event_ok ev"
proof -
  have "event_ok ev \<longleftrightarrow> (\<exists>u. validate_episode_history_types ev = Inr u)
      \<and> (\<exists>u. validate_episode_history_terminal_reason ev = Inr u)
      \<and> (\<exists>u. validate_episode_history_control_action ev = Inr u)
      \<and> (\<exists>u. validate_episode_history_sequence ev = Inr u)"
    unfolding event_ok_def validate_episode_history_types_Inr validate_episode_history_terminal_reason_Inr
      validate_episode_history_control_action_Inr validate_episode_history_sequence_Inr
    by (simp only: simp_thms conj_assoc)
  then show ?thesis
    unfolding make_episode_event_def ebind_ignored_Inr by (simp only: sum.inject) blast
qed

lemma make_episode_event_ok: "event_ok ev \<Longrightarrow> make_episode_event ev = Inr ev"
  by (simp add: make_episode_event_Inr)

lemma make_episode_event_bad: "\<not> event_ok ev \<Longrightarrow> \<exists>e. make_episode_event ev = Inl e"
  using make_episode_event_Inr [of ev] by (cases "make_episode_event ev") auto

section \<open>Results and histories without violations\<close>

lemma episode_result_violations_Nil:
  "episode_result_violations results = [] \<longleftrightarrow>
     (\<forall>(key, st) \<in> set results. key \<noteq> [] \<and> state_ok st \<and> state_participant st = key)"
proof -
  have "result_payload_violations key st = [] \<longleftrightarrow> state_ok st \<and> state_participant st = key" for key st
    by (cases "state_ok st")
      (auto simp: result_payload_violations_def make_episode_state_ok dest: make_episode_state_bad)
  then show ?thesis
    by (simp add: episode_result_violations_def split: prod.splits) blast
qed

lemma normalize_history_entry_Inr:
  "normalize_history_entry key (index, ev) = Inr ev' \<longleftrightarrow>
     ev' = ev \<and> event_ok ev \<and> event_participant ev = key"
  by (cases "event_ok ev")
    (auto simp: normalize_history_entry_def make_episode_event_ok dest: make_episode_event_bad)

lemma normalize_episode_history_Nil:
  "snd (normalize_episode_history key history) = [] \<longleftrightarrow>
     (\<forall>ev \<in> set history. event_ok ev \<and> event_participant ev = key)"
  "(\<forall>ev \<in> set history. event_ok ev \<and> event_participant ev = key) \<Longrightarrow>
     normalize_episode_history key history = (history, [])"
proof -
  define step where "step = (\<lambda>(events, violations) entry.
         case normalize_history_entry key entry of
           Inl violation \<Rightarrow> (events, violations @ [violation])
         | Inr ev \<Rightarrow> (events @ [ev], violations))"
  have good: "step acc (n, e) = (fst acc @ [e], snd acc)"
    if "event_ok e" "event_participant e = key" for acc n e
    using that normalize_history_entry_Inr [of key n e e] by (cases acc) (simp add: step_def)
  have bad: "snd (step acc (n, e)) \<noteq> []" if "\<not> (event_ok e \<and> event_participant e = key)" for acc n e
  proof (cases "normalize_history_entry key (n, e)")
    case (Inl v)
    then show ?thesis by (cases acc) (simp add: step_def)
  next
    case (Inr e')
    with that show ?thesis by (simp add: normalize_history_entry_Inr)
  qed
  have keep: "snd (step acc entry) \<noteq> []" if "snd acc \<noteq> []" for acc entry
    using that by (cases acc; cases "normalize_history_entry key entry") (simp_all add: step_def)
  have stays: "snd (foldl step acc entries) \<noteq> []" if "snd acc \<noteq> []" for acc entries
    using that by (induction entries arbitrary: acc) (simp_all add: keep)
  have "snd (foldl step acc (enumerate n es)) = [] \<longleftrightarrow>
      snd acc = [] \<and> (\<forall>ev \<in> set es. event_ok ev \<and> event_participant ev = key)" for acc es n
  proof (induction es arbitrary: acc n)
    case (Cons e es)
    show ?case
    proof (cases "event_ok e \<and> event_participant e = key")
      case True
      then show ?thesis by (simp add: Cons.IH good)
    next
      case False
      with bad [OF False, of acc n] stays show ?thesis by auto
    qed
  qed simp
  then show "snd (normalize_episode_history key history) = [] \<longleftrightarrow>
     (\<forall>ev \<in> set history. event_ok ev \<and> event_participant ev = key)"
    unfolding normalize_episode_history_def step_def [symmetric] by simp
  have "\<forall>ev \<in> set es. event_ok ev \<and> event_participant ev = key \<Longrightarrow>
      foldl step acc (enumerate n es) = (fst acc @ es, snd acc)" for acc es n
    by (induction es arbitrary: acc n) (auto simp: good)
  then show "normalize_episode_history key history = (history, [])"
    if "\<forall>ev \<in> set history. event_ok ev \<and> event_participant ev = key"
    using that unfolding normalize_episode_history_def step_def [symmetric] by simp
qed

text \<open>
  A chain of episodes: sequence numbers never go back, a new one starts with a reset or a
  restart, and one sequence number belongs to one episode.
\<close>

definition event_follows :: "episode_event \<Rightarrow> episode_event \<Rightarrow> bool" where
  "event_follows e e' \<longleftrightarrow>
     event_sequence e \<le> event_sequence e'
     \<and> (event_sequence e < event_sequence e' \<longrightarrow> event_type e' \<in> {EPISODE_RESET, EPISODE_RESTARTED})"

definition sequence_ids :: "episode_event list \<Rightarrow> (int \<times> string) set" where
  "sequence_ids evs = set (map (\<lambda>e. (event_sequence e, event_episode e)) evs)"

definition one_episode_each :: "episode_event list \<Rightarrow> bool" where
  "one_episode_each evs \<longleftrightarrow> single_valued (sequence_ids evs)"

definition episode_chain :: "episode_event list \<Rightarrow> bool" where
  "episode_chain evs \<longleftrightarrow> successively event_follows evs \<and> one_episode_each evs"

lemma one_episode_each_Nil [simp]: "one_episode_each []"
  by (simp add: one_episode_each_def sequence_ids_def)

lemma sequence_ids_Cons [simp]:
  "sequence_ids (e # evs) = insert (event_sequence e, event_episode e) (sequence_ids evs)"
  by (simp add: sequence_ids_def)

lemma sequence_ids_Nil [simp]: "sequence_ids [] = {}"
  by (simp add: sequence_ids_def)

lemma sequence_ids_append: "sequence_ids (xs @ ys) = sequence_ids xs \<union> sequence_ids ys"
  by (simp add: sequence_ids_def)

definition recorded_ids :: "(int, string) dict \<Rightarrow> (int \<times> string) set \<Rightarrow> bool" where
  "recorded_ids m ids \<longleftrightarrow> (\<forall>n i j. (n, i) \<in> ids \<longrightarrow> dget m n = Some j \<longrightarrow> j = i)"

lemma single_valued_insert:
  "single_valued (insert (a, b) R) \<longleftrightarrow> single_valued R \<and> (\<forall>c. (a, c) \<in> R \<longrightarrow> c = b)"
  unfolding single_valued_def by blast

lemma recorded_ids_insert:
  "recorded_ids m (insert (n, i) ids) \<and> single_valued (insert (n, i) ids) \<longleftrightarrow>
     (\<forall>j. dget m n = Some j \<longrightarrow> j = i) \<and> recorded_ids (dput n i m) ids \<and> single_valued ids" (is "?L \<longleftrightarrow> ?R")
proof
  assume ?L
  then show ?R by (auto simp: recorded_ids_def single_valued_insert)
next
  assume r: ?R
  have "c = i" if "(n, c) \<in> ids" for c
    using r that unfolding recorded_ids_def by (metis dget_dput)
  moreover have "recorded_ids m (insert (n, i) ids)"
    unfolding recorded_ids_def
  proof (intro allI impI)
    fix a b j assume ab: "(a, b) \<in> insert (n, i) ids" "dget m a = Some j"
    show "j = b"
    proof (cases "a = n")
      case True
      with ab r calculation show ?thesis by auto
    next
      case False
      with ab have "(a, b) \<in> ids" "dget (dput n i m) a = Some j" by simp_all
      with r show ?thesis unfolding recorded_ids_def by blast
    qed
  qed
  ultimately show ?L using r by (simp add: single_valued_insert)
qed

lemma sequence_violations_from_Nil:
  assumes "\<forall>ev \<in> set evs. 0 \<le> event_sequence ev" and "0 \<le> event_sequence e"
  shows "sequence_violations_from key (event_sequence e) m (enumerate n evs) = [] \<longleftrightarrow>
     successively event_follows (e # evs) \<and> recorded_ids m (sequence_ids evs) \<and> one_episode_each evs"
  using assms
proof (induction evs arbitrary: e m n)
  case Nil
  then show ?case by (simp add: recorded_ids_def)
next
  case (Cons f evs)
  let ?m = "dput (event_sequence f) (event_episode f) m"
  show ?case
  proof (cases "event_follows e f")
    case False
    have "\<not> (\<not> event_sequence f < event_sequence e
        \<and> sequence_transition_violations (locator key n) f (event_sequence e) m = [])"
      using False Cons.prems(2)
      by (auto simp: event_follows_def sequence_transition_violations_def is_invalid_sequence_advance_def)
    then have "sequence_violations_from key (event_sequence e) m (enumerate n (f # evs)) \<noteq> []" by auto
    with False show ?thesis by simp
  next
    case True
    then have le: "\<not> event_sequence f < event_sequence e" by (simp add: event_follows_def)
    have here: "sequence_transition_violations (locator key n) f (event_sequence e) m = [] \<longleftrightarrow>
        (\<forall>j. dget m (event_sequence f) = Some j \<longrightarrow> j = event_episode f)"
      using True by (auto simp: event_follows_def sequence_transition_violations_def
          is_invalid_sequence_advance_def split: option.splits)
    have IH: "sequence_violations_from key (event_sequence f) ?m (enumerate (Suc n) evs) = [] \<longleftrightarrow>
        successively event_follows (f # evs) \<and> recorded_ids ?m (sequence_ids evs) \<and> one_episode_each evs"
      using Cons.prems(1) by (intro Cons.IH) simp_all
    have "sequence_violations_from key (event_sequence e) m (enumerate n (f # evs)) = [] \<longleftrightarrow>
        sequence_transition_violations (locator key n) f (event_sequence e) m = []
        \<and> sequence_violations_from key (event_sequence f) ?m (enumerate (Suc n) evs) = []"
      using le by simp
    also have "\<dots> \<longleftrightarrow> successively event_follows (f # evs) \<and> recorded_ids m (sequence_ids (f # evs)) \<and> one_episode_each (f # evs)"
      unfolding here IH one_episode_each_def sequence_ids_Cons recorded_ids_insert by blast
    also have "\<dots> \<longleftrightarrow> successively event_follows (e # f # evs) \<and> recorded_ids m (sequence_ids (f # evs))
        \<and> one_episode_each (f # evs)"
      using True by simp
    finally show ?thesis .
  qed
qed

lemma episode_sequence_violations_Nil:
  assumes "\<forall>ev \<in> set evs. 0 \<le> event_sequence ev"
  shows "episode_sequence_violations key evs = [] \<longleftrightarrow> episode_chain evs"
proof (cases evs)
  case Nil
  then show ?thesis by (simp add: episode_sequence_violations_def episode_chain_def)
next
  case (Cons e es)
  let ?m = "dput (event_sequence e) (event_episode e) []"
  have "episode_sequence_violations key evs = [] \<longleftrightarrow>
      sequence_violations_from key (event_sequence e) ?m (enumerate 1 es) = []"
    using assms Cons by (simp add: episode_sequence_violations_def sequence_transition_violations_def
        is_invalid_sequence_advance_def)
  also have "\<dots> \<longleftrightarrow> successively event_follows (e # es) \<and> recorded_ids ?m (sequence_ids es) \<and> one_episode_each es"
    using assms Cons by (intro sequence_violations_from_Nil) simp_all
  also have "\<dots> \<longleftrightarrow> successively event_follows (e # es) \<and> recorded_ids [] (sequence_ids (e # es)) \<and> one_episode_each (e # es)"
    unfolding one_episode_each_def sequence_ids_Cons recorded_ids_insert by simp
  also have "\<dots> \<longleftrightarrow> episode_chain evs"
    using Cons by (auto simp: episode_chain_def recorded_ids_def)
  finally show ?thesis .
qed

definition history_ok :: "address \<Rightarrow> episode_event list \<Rightarrow> bool" where
  "history_ok key history \<longleftrightarrow>
     (\<forall>ev \<in> set history. event_ok ev \<and> event_participant ev = key) \<and> episode_chain history"

lemma event_ok_sequence: "event_ok ev \<Longrightarrow> 0 \<le> event_sequence ev"
  by (simp add: event_ok_def)

lemma episode_history_violations_Nil:
  "episode_history_violations histories = [] \<longleftrightarrow>
     (\<forall>(key, history) \<in> set histories. key \<noteq> [] \<and> history_ok key history)"
proof -
  have "(case normalize_episode_history key history of
           (events, []) \<Rightarrow> episode_sequence_violations key events
         | (_, violations) \<Rightarrow> violations) = [] \<longleftrightarrow> history_ok key history" for key history
  proof (cases "\<forall>ev \<in> set history. event_ok ev \<and> event_participant ev = key")
    case True
    then show ?thesis
      by (simp add: normalize_episode_history_Nil(2) history_ok_def episode_sequence_violations_Nil event_ok_sequence)
  next
    case False
    then have "snd (normalize_episode_history key history) \<noteq> []"
      using normalize_episode_history_Nil(1) by blast
    then show ?thesis
      using False by (auto simp: history_ok_def split: prod.splits list.splits)
  qed
  then show ?thesis
    by (simp add: episode_history_violations_def split: prod.splits) blast
qed

lemma last_matching_event_last:
  assumes "\<forall>ev \<in> set history. event_ok ev \<and> event_participant ev = key" and "history \<noteq> []"
  shows "last_matching_event key history = Some (last history)"
proof -
  have "foldl (\<lambda>found ev. case make_episode_event ev of Inl e \<Rightarrow> found
      | Inr candidate \<Rightarrow> if event_participant candidate = key then Some candidate else found) acc history
    = (if history = [] then acc else Some (last history))" for acc
    using assms(1) by (induction history arbitrary: acc) (simp_all add: make_episode_event_ok)
  with assms(2) show ?thesis by (simp add: last_matching_event_def)
qed

text \<open>The last event of a history agrees with the state that is published as current.\<close>

definition head_agrees :: "episode_state \<Rightarrow> episode_event \<Rightarrow> bool" where
  "head_agrees st ev \<longleftrightarrow>
     state_episode st = event_episode ev \<and> state_sequence st = event_sequence ev
     \<and> (state_status st = TERMINATED \<longleftrightarrow> terminal_events (event_type ev) \<noteq> None)
     \<and> state_reason st = event_reason ev"

lemma status_head_violations_Nil:
  assumes "state_ok st" and "event_ok ev"
  shows "\<not> result_differs_from_head st ev \<and> status_head_violations key st ev = [] \<longleftrightarrow> head_agrees st ev"
proof -
  have st: "state_status st = TERMINATED \<longleftrightarrow> state_reason st \<noteq> None"
    using assms(1) by (simp add: state_ok_def)
  have ev: "event_reason ev = terminal_events (event_type ev)"
    using assms(2) by (simp add: event_ok_def)
  show ?thesis
  proof (cases "state_status st = TERMINATED")
    case True
    then show ?thesis
      by (auto simp: result_differs_from_head_def status_head_violations_def
          terminated_head_violations_def head_agrees_def)
  next
    case False
    then have "state_status st \<in> {INITIALIZING, RUNNING}" "state_reason st = None"
      using st by (cases "state_status st"; simp)+
    with False ev show ?thesis
      by (auto simp: result_differs_from_head_def status_head_violations_def head_agrees_def)
  qed
qed

definition snapshot_clean :: "episode_results \<Rightarrow> episode_histories \<Rightarrow> bool" where
  "snapshot_clean results histories \<longleftrightarrow>
     (\<forall>(key, st) \<in> set results. key \<noteq> [] \<and> state_ok st \<and> state_participant st = key)
     \<and> (\<forall>(key, history) \<in> set histories. key \<noteq> [] \<and> history_ok key history)
     \<and> (\<forall>(key, st) \<in> set results. \<forall>history. dget histories key = Some history \<longrightarrow> history \<noteq> [] \<longrightarrow>
          head_agrees st (last history))"

definition head_violations :: "address \<Rightarrow> episode_state \<Rightarrow> episode_histories \<Rightarrow> located_violation list" where
  "head_violations key result histories =
     (case result_history_context key result histories of
         None \<Rightarrow> []
       | Some (st, ev) \<Rightarrow>
           if result_differs_from_head st ev
           then [(key, HeadMismatch (state_episode st, state_sequence st) (event_episode ev, event_sequence ev))]
           else status_head_violations key st ev)"

lemma head_violations_Nil:
  assumes "key \<noteq> []" and "state_ok st" and "\<forall>(key, history) \<in> set histories. history_ok key history"
  shows "head_violations key st histories = [] \<longleftrightarrow>
     (\<forall>history. dget histories key = Some history \<longrightarrow> history \<noteq> [] \<longrightarrow> head_agrees st (last history))"
proof (cases "dget histories key")
  case None
  then show ?thesis by (simp add: head_violations_def result_history_context_def)
next
  case (Some history)
  show ?thesis
  proof (cases history)
    case Nil
    with Some show ?thesis by (simp add: head_violations_def result_history_context_def)
  next
    case (Cons e es)
    from Some have "(key, history) \<in> set histories" by (rule map_of_SomeD)
    with assms(3) have evs: "\<forall>ev \<in> set history. event_ok ev \<and> event_participant ev = key"
      by (auto simp: history_ok_def)
    have "last_matching_event key history = Some (last history)"
      using evs Cons by (intro last_matching_event_last) simp_all
    then have "result_history_context key st histories = Some (st, last history)"
      using assms(1,2) Some Cons by (simp add: result_history_context_def make_episode_state_ok)
    then have "head_violations key st histories = [] \<longleftrightarrow>
        \<not> result_differs_from_head st (last history) \<and> status_head_violations key st (last history) = []"
      by (simp add: head_violations_def)
    also have "\<dots> \<longleftrightarrow> head_agrees st (last history)"
      using assms(2) evs Cons by (intro status_head_violations_Nil) simp_all
    finally show ?thesis using Some Cons by simp
  qed
qed

lemma episode_snapshot_violations_Nil:
  "episode_snapshot_violations results histories = [] \<longleftrightarrow> snapshot_clean results histories"
proof -
  have heads: "episode_head_violations results histories = [] \<longleftrightarrow>
      (\<forall>(key, st) \<in> set results. head_violations key st histories = [])"
    unfolding episode_head_violations_def head_violations_def [symmetric] by auto
  show ?thesis
  proof (cases "episode_result_violations results = [] \<and> episode_history_violations histories = []")
    case True
    then have r: "\<forall>(key, st) \<in> set results. key \<noteq> [] \<and> state_ok st \<and> state_participant st = key"
      and h: "\<forall>(key, history) \<in> set histories. key \<noteq> [] \<and> history_ok key history"
      by (simp_all add: episode_result_violations_Nil episode_history_violations_Nil)
    have "head_violations key st histories = [] \<longleftrightarrow>
        (\<forall>history. dget histories key = Some history \<longrightarrow> history \<noteq> [] \<longrightarrow> head_agrees st (last history))"
      if "(key, st) \<in> set results" for key st
      using r h that by (intro head_violations_Nil) auto
    then have "episode_head_violations results histories = [] \<longleftrightarrow>
        (\<forall>(key, st) \<in> set results. \<forall>history. dget histories key = Some history \<longrightarrow> history \<noteq> [] \<longrightarrow>
          head_agrees st (last history))"
      unfolding heads by blast
    with True r h show ?thesis
      by (simp add: episode_snapshot_violations_def snapshot_clean_def)
  next
    case False
    then show ?thesis
      unfolding episode_snapshot_violations_def snapshot_clean_def
        episode_result_violations_Nil [symmetric] episode_history_violations_Nil [symmetric] by auto
  qed
qed

section \<open>Closure records\<close>

definition closure_ok :: "closure_record \<Rightarrow> bool" where
  "closure_ok c \<longleftrightarrow>
     closure_schema_version c \<noteq> [] \<and> closure_participant c \<noteq> [] \<and> closure_episode c \<noteq> []
     \<and> 0 \<le> closure_sequence c \<and> deriving_authority c \<noteq> [] \<and> derived_at c \<noteq> []
     \<and> evidence_refs c \<noteq> [] \<and> [] \<notin> set (evidence_refs c)
     \<and> mapped_reason c \<in> closure_signal_reasons (source_signal c)"

lemma normalize_evidence_refs_Inr [errs]:
  "normalize_evidence_refs refs = Inr refs' \<longleftrightarrow> refs' = refs \<and> refs \<noteq> [] \<and> [] \<notin> set refs"
  by (auto simp: normalize_evidence_refs_def errs)

lemma closure_from_payload_Inr:
  "closure_from_payload c = Inr c' \<longleftrightarrow> c' = c \<and> closure_ok c"
  by (auto simp: closure_from_payload_def make_closure_record_def validate_closure_types_def
      validate_closure_mapping_def closure_ok_def errs)

text \<open>The reason of the last terminal event of an episode in the history of a participant.\<close>

definition realizes :: "address \<Rightarrow> string \<Rightarrow> int \<Rightarrow> episode_event \<Rightarrow> bool" where
  "realizes key i n ev \<longleftrightarrow>
     event_ok ev \<and> event_participant ev = key \<and> event_episode ev = i \<and> event_sequence ev = n
     \<and> terminal_events (event_type ev) \<noteq> None"

definition realized_reason :: "address \<Rightarrow> episode_event list \<Rightarrow> string \<Rightarrow> int \<Rightarrow> terminal_reason option" where
  "realized_reason key history i n =
     (case find (realizes key i n) (rev history) of None \<Rightarrow> None | Some ev \<Rightarrow> event_reason ev)"

lemma realized_reason_snoc:
  "realized_reason key (history @ [ev]) i n =
     (if realizes key i n ev then event_reason ev else realized_reason key history i n)"
  by (simp add: realized_reason_def)

lemma realized_reason_Nil [simp]: "realized_reason key [] i n = None"
  by (simp add: realized_reason_def)

lemma address_terminal_reasons_realized:
  "dget (address_terminal_reasons key history) (i, n) = realized_reason key history i n"
proof (induction history rule: rev_induct)
  case Nil
  then show ?case by (simp add: address_terminal_reasons_def)
next
  case (snoc ev history)
  let ?t = "address_terminal_reasons key history"
  define terminals where "terminals = ?t"
  have step: "address_terminal_reasons key (history @ [ev]) =
      (case make_episode_event ev of
         Inl e \<Rightarrow> terminals
       | Inr ev' \<Rightarrow>
           (if event_participant ev' = key \<and> terminal_events (event_type ev') \<noteq> None then
              (case event_reason ev' of
                 None \<Rightarrow> terminals
               | Some reason \<Rightarrow> dput (event_episode ev', event_sequence ev') reason terminals)
            else terminals))"
    unfolding terminals_def address_terminal_reasons_def by simp
  have IH: "dget terminals (i, n) = realized_reason key history i n"
    using snoc.IH by (simp add: terminals_def)
  show ?case
  proof (cases "event_ok ev")
    case True
    then have "event_reason ev = terminal_events (event_type ev)" by (simp add: event_ok_def)
    with True show ?thesis
      unfolding step realized_reason_snoc realizes_def
      by (cases "event_reason ev") (auto simp: make_episode_event_ok IH)
  next
    case False
    with make_episode_event_bad [OF False] show ?thesis
      unfolding step realized_reason_snoc realizes_def by (auto simp: IH)
  qed
qed

lemma episode_terminal_index_get:
  assumes "dict_ok histories"
  shows "dget (episode_terminal_index histories) key =
     (if key = [] then None else map_option (address_terminal_reasons key) (dget histories key))"
proof -
  have "dict_ok hs \<Longrightarrow> (\<forall>k \<in> set (dkeys hs). dget acc k = None) \<Longrightarrow>
      dget (foldl (\<lambda>index (key, history).
         if key = [] then index else dput key (address_terminal_reasons key history) index) acc hs) key =
      (if key \<noteq> [] \<and> key \<in> set (dkeys hs)
       then map_option (address_terminal_reasons key) (dget hs key) else dget acc key)" for acc hs
  proof (induction hs arbitrary: acc)
    case (Cons p hs)
    obtain k h where p: "p = (k, h)" by (cases p)
    let ?acc = "if k = [] then acc else dput k (address_terminal_reasons k h) acc"
    have "\<forall>k' \<in> set (dkeys hs). dget ?acc k' = None"
      using Cons.prems p by (auto simp: dget_dput)
    with Cons.IH [of ?acc] Cons.prems p show ?case by (auto simp: dget_dput)
  qed simp
  from this [of histories "[]"] assms show ?thesis
    by (auto simp: episode_terminal_index_def map_of_eq_None_iff)
qed

text \<open>What a closure record refers to in the histories of a snapshot.\<close>

definition realized_in :: "episode_histories \<Rightarrow> address \<Rightarrow> string \<Rightarrow> int \<Rightarrow> terminal_reason option" where
  "realized_in histories key i n =
     (case dget histories key of None \<Rightarrow> None | Some history \<Rightarrow> realized_reason key history i n)"

definition closures_realized :: "closure_records \<Rightarrow> episode_histories \<Rightarrow> bool" where
  "closures_realized closures histories \<longleftrightarrow>
     (\<forall>(key, records) \<in> set closures. key \<noteq> [] \<and> (\<forall>c \<in> set records.
        closure_ok c \<and> closure_participant c = key
        \<and> realized_in histories key (closure_episode c) (closure_sequence c) = Some (mapped_reason c)))"

lemma closure_from_payload_bad: "\<not> closure_ok c \<Longrightarrow> \<exists>e. closure_from_payload c = Inl e"
  using closure_from_payload_Inr [of c] by (cases "closure_from_payload c") auto

lemma address_closure_violations_Nil:
  assumes "dict_ok histories" and "key \<noteq> []"
  shows "address_closure_violations key records (episode_terminal_index histories) = [] \<longleftrightarrow>
     (\<forall>c \<in> set records. closure_ok c \<and> closure_participant c = key
        \<and> realized_in histories key (closure_episode c) (closure_sequence c) = Some (mapped_reason c))"
proof -
  define terminals where "terminals =
    (case dget (episode_terminal_index histories) key of None \<Rightarrow> [] | Some t \<Rightarrow> t)"
  have realized: "dget terminals (i, n) = realized_in histories key i n" for i n
    using assms by (simp add: terminals_def episode_terminal_index_get realized_in_def
        address_terminal_reasons_realized split: option.splits)
  have one: "(case closure_from_payload c of
          Inl e \<Rightarrow> [(loc, InvalidClosure e)]
        | Inr c \<Rightarrow>
            if closure_participant c \<noteq> key
            then [(loc, ClosureKeyMismatch key (closure_participant c))]
            else closure_head_violations loc c terminals) = [] \<longleftrightarrow>
      closure_ok c \<and> closure_participant c = key
        \<and> realized_in histories key (closure_episode c) (closure_sequence c) = Some (mapped_reason c)" for loc c
  proof (cases "closure_ok c")
    case True
    then have "closure_from_payload c = Inr c" by (simp add: closure_from_payload_Inr)
    with True show ?thesis by (auto simp: closure_head_violations_def realized split: option.splits)
  next
    case False
    then show ?thesis using closure_from_payload_bad [OF False] by auto
  qed
  have "address_closure_violations key records (episode_terminal_index histories) = [] \<longleftrightarrow>
      (\<forall>(index, c) \<in> set (enumerate 0 records). closure_ok c \<and> closure_participant c = key
        \<and> realized_in histories key (closure_episode c) (closure_sequence c) = Some (mapped_reason c))"
    unfolding address_closure_violations_def Let_def terminals_def [symmetric] concat_eq_Nil_conv
    using one by fastforce
  also have "\<dots> \<longleftrightarrow> (\<forall>c \<in> snd ` set (enumerate 0 records). closure_ok c \<and> closure_participant c = key
        \<and> realized_in histories key (closure_episode c) (closure_sequence c) = Some (mapped_reason c))"
    by (auto simp: split_beta)
  also have "snd ` set (enumerate 0 records) = set records"
    by (metis list.set_map map_snd_enumerate)
  finally show ?thesis .
qed

lemma episode_closure_violations_Nil:
  assumes "dict_ok histories"
  shows "episode_closure_violations closures histories = [] \<longleftrightarrow> closures_realized closures histories"
proof -
  have "episode_closure_violations closures histories = [] \<longleftrightarrow>
      (\<forall>(key, records) \<in> set closures. key \<noteq> []
        \<and> address_closure_violations key records (episode_terminal_index histories) = [])"
    unfolding episode_closure_violations_def Let_def concat_eq_Nil_conv by (fastforce split: if_splits)
  also have "\<dots> \<longleftrightarrow> closures_realized closures histories"
    unfolding closures_realized_def using address_closure_violations_Nil [OF assms]
    by (intro ball_cong) auto
  finally show ?thesis .
qed

end
