(* ===== verification/EpisodeRefinement.thy ===== *)
theory EpisodeRefinement
  imports EpisodeProofs
begin

text \<open>
  The operations of the participant runtime keep a snapshot free of violations, and they are the
  steps of an abstract log: for every participant the list of its episodes, each with its id, the
  action that opened it and, when it is terminated, its reason.
\<close>

section \<open>Operations on a snapshot without violations\<close>

definition snapshot_ok :: "'r episode_snapshot \<Rightarrow> bool" where
  "snapshot_ok s \<longleftrightarrow>
     dict_ok (episode_results s) \<and> dict_ok (episode_history s)
     \<and> snapshot_clean (episode_results s) (episode_history s)"

definition history_of :: "'r episode_snapshot \<Rightarrow> address \<Rightarrow> episode_event list" where
  "history_of s a = (case dget (episode_history s) a of None \<Rightarrow> [] | Some evs \<Rightarrow> evs)"

lemma snapshot_ok_result:
  assumes "snapshot_ok s" and "dget (episode_results s) a = Some st"
  shows "a \<noteq> []" "state_ok st" "state_participant st = a"
    "history_of s a \<noteq> [] \<Longrightarrow> head_agrees st (last (history_of s a))"
proof -
  from assms(2) have "(a, st) \<in> set (episode_results s)" by (rule map_of_SomeD)
  with assms(1) show "a \<noteq> []" "state_ok st" "state_participant st = a"
    by (auto simp: snapshot_ok_def snapshot_clean_def)
  have heads: "\<forall>(key, st) \<in> set (episode_results s). \<forall>history. dget (episode_history s) key = Some history
      \<longrightarrow> history \<noteq> [] \<longrightarrow> head_agrees st (last history)"
    using assms(1) unfolding snapshot_ok_def snapshot_clean_def by blast
  show "head_agrees st (last (history_of s a))" if "history_of s a \<noteq> []"
  proof (cases "dget (episode_history s) a")
    case None
    with that show ?thesis by (simp add: history_of_def)
  next
    case (Some h)
    with that have "h \<noteq> []" "history_of s a = h" by (simp_all add: history_of_def)
    with heads \<open>(a, st) \<in> _\<close> Some show ?thesis by auto
  qed
qed

lemma snapshot_ok_history:
  assumes "snapshot_ok s"
  shows "history_ok a (history_of s a)"
proof (cases "dget (episode_history s) a")
  case None
  then show ?thesis by (simp add: history_of_def history_ok_def episode_chain_def)
next
  case (Some h)
  then have "(a, h) \<in> set (episode_history s)" by (rule map_of_SomeD)
  with assms Some show ?thesis by (auto simp: snapshot_ok_def snapshot_clean_def history_of_def)
qed

text \<open>What a published episode changes.\<close>

definition published ::
    "'r episode_snapshot \<Rightarrow> address \<Rightarrow> episode_state \<Rightarrow> episode_event list \<Rightarrow> 'r episode_snapshot" where
  "published s a st evs =
     s\<lparr>episode_results := dput a st (episode_results s), episode_history := dput a evs (episode_history s)\<rparr>"

lemma set_dput: "dict_ok d \<Longrightarrow> set (dput k v d) = insert (k, v) {p \<in> set d. fst p \<noteq> k}"
  by (induction d) (auto simp: image_iff)

lemma published_ok:
  assumes "snapshot_ok s" and "a \<noteq> []" and "state_ok st" and "state_participant st = a"
    and "history_ok a evs" and "evs \<noteq> []" and "head_agrees st (last evs)"
  shows "snapshot_ok (published s a st evs)"
  using assms by (auto simp: snapshot_ok_def published_def snapshot_clean_def set_dput distinct_update)

lemma published_simps [simp]:
  "dget (episode_results (published s a st evs)) b = (if b = a then Some st else dget (episode_results s) b)"
  "history_of (published s a st evs) b = (if b = a then evs else history_of s b)"
  "episode_closures (published s a st evs) = episode_closures s"
  "episode_rest (published s a st evs) = episode_rest s"
  by (simp_all add: published_def history_of_def)

lemma publish_episode_cases:
  assumes "publish_episode rt s a st evs replace_history = (rt', r)"
  obtains (raised) e where "r = Inl e" "episode_counter rt' = episode_counter rt"
    "\<not> (compiled_address a \<and> state_ok st \<and> (\<forall>ev \<in> set evs. event_ok ev))"
  | (done_) result where "r = Inr result" "episode_counter rt' = episode_counter rt"
    "compiled_address a" "state_ok st" "\<forall>ev \<in> set evs. event_ok ev" "outcome_success result"
    "outcome_snapshot result = published s a st ((if replace_history then [] else history_of s a) @ evs)"
    "outcome_diagnostics result = []" "outcome_changed result = [a]"
proof (cases "state_ok st \<and> (\<forall>ev \<in> set evs. event_ok ev)")
  case False
  have "\<exists>e. r = Inl e \<and> rt' = rt"
  proof (cases "ebind (make_episode_state st) (\<lambda>st'.
           ebind (collect make_episode_event evs) (\<lambda>events'. Inr (st', events')))")
    case (Inl e)
    with assms show ?thesis by (auto simp: publish_episode_def)
  next
    case (Inr p)
    then have "state_ok st" "list_all2 (\<lambda>x y. make_episode_event x = Inr y) evs (snd p)"
      by (auto simp: errs collect_eq_Inr)
    then have "\<forall>ev \<in> set evs. event_ok ev"
      by (auto simp: list_all2_conv_all_nth make_episode_event_Inr in_set_conv_nth)
    with False \<open>state_ok st\<close> show ?thesis by blast
  qed
  with False raised show thesis by blast
next
  case True
  then have "collect make_episode_event evs = Inr (map id evs)"
    by (intro collect_ok) (simp add: make_episode_event_ok)
  with True assms have run: "episode_apply rt s a st evs replace_history = (rt', r)"
    by (simp add: publish_episode_def make_episode_state_ok)
  then have counter: "episode_counter rt' = episode_counter rt"
    by (auto simp: episode_apply_def Let_def)
  show thesis
  proof (cases "compiled_address a")
    case True
    with run \<open>state_ok st \<and> _\<close> counter show thesis
      by (intro done_ [of "projr r"])
        (auto simp: episode_apply_def Let_def validate_changed_addresses_def echeck_Cons published_def history_of_def)
  next
    case False
    with run counter show thesis
      by (intro raised [of "projl r"])
        (auto simp: episode_apply_def Let_def validate_changed_addresses_def echeck_Cons)
  qed
qed

text \<open>What each operation does: it raises, it is rejected, or it publishes an episode.\<close>

definition opening_event :: "control_action \<Rightarrow> episode_event_type" where
  "opening_event action =
     (case action of INITIALIZE \<Rightarrow> EPISODE_INITIALIZED | RESET \<Rightarrow> EPISODE_RESET | RESTART \<Rightarrow> EPISODE_RESTARTED)"

definition opened_state :: "address \<Rightarrow> string \<Rightarrow> int \<Rightarrow> control_action \<Rightarrow> string option \<Rightarrow> episode_state \<Rightarrow> bool" where
  "opened_state a i n action previous st \<longleftrightarrow>
     state_ok st \<and> state_participant st = a \<and> state_episode st = i \<and> state_sequence st = n
     \<and> state_status st = RUNNING \<and> last_control_action st = action \<and> previous_episode st = previous"

definition opened_events :: "address \<Rightarrow> string \<Rightarrow> int \<Rightarrow> control_action \<Rightarrow> episode_event list \<Rightarrow> bool" where
  "opened_events a i n action evs \<longleftrightarrow>
     (\<forall>ev \<in> set evs. event_ok ev \<and> event_participant ev = a \<and> event_episode ev = i \<and> event_sequence ev = n)
     \<and> map event_type evs = [opening_event action, EPISODE_RUNNING]"

definition opens ::
    "'r episode_snapshot \<Rightarrow> 'r episode_outcome \<Rightarrow> address \<Rightarrow> string \<Rightarrow> int \<Rightarrow> control_action \<Rightarrow> string option \<Rightarrow> bool" where
  "opens s result a i n action previous \<longleftrightarrow>
     compiled_address a \<and> outcome_success result \<and> outcome_changed result = [a] \<and> outcome_diagnostics result = []
     \<and> (\<exists>st evs. opened_state a i n action previous st \<and> opened_events a i n action evs
          \<and> outcome_snapshot result =
              published s a st ((if action = INITIALIZE then [] else history_of s a) @ evs))"

definition refused :: "'r episode_snapshot \<Rightarrow> 'r episode_result \<Rightarrow> bool" where
  "refused s r \<longleftrightarrow> (\<exists>e. r = Inl e) \<or> (\<exists>result. r = Inr result \<and> \<not> outcome_success result \<and> outcome_snapshot result = s)"

lemma refused_reject [simp]: "refused s (Inr (episode_reject s m a))"
  by (simp add: refused_def episode_reject_def)

lemma refused_Inl [simp]: "refused s (Inl e)"
  by (simp add: refused_def)

lemma initialize_result:
  assumes "episode_initialize now req rt s = (rt', r)"
  shows "refused s r \<or> (\<exists>result. r = Inr result \<and> dget (episode_results s) (initialize_participant req) = None
     \<and> opens s result (initialize_participant req)
         (fst (chosen_episode_id (initialize_episode req) (initialize_participant req) rt)) 0 INITIALIZE None)"
proof -
  define a where "a = initialize_participant req"
  obtain i rt1 where i: "chosen_episode_id (initialize_episode req) a rt = (i, rt1)" by fastforce
  consider (rejected) "refused s r"
    | (published) st evs where "publish_episode rt1 s a st evs True = (rt', r)"
      "dget (episode_results s) a = None" "state_participant st = a" "state_episode st = i"
      "state_sequence st = 0" "state_status st = RUNNING" "last_control_action st = INITIALIZE"
      "previous_episode st = None"
      "\<forall>ev \<in> set evs. event_participant ev = a \<and> event_episode ev = i \<and> event_sequence ev = 0"
      "map event_type evs = [EPISODE_INITIALIZED, EPISODE_RUNNING]"
  proof (cases "a = [] \<or> dget (episode_results s) a \<noteq> None")
    case True
    with assms show thesis
      by (intro rejected) (auto simp: episode_initialize_def Let_def a_def split: if_splits)
  next
    case False
    with assms i show thesis
      by (intro published) (auto simp: episode_initialize_def Let_def a_def)
  qed
  then show ?thesis
  proof cases
    case rejected
    then show ?thesis by simp
  next
    case published
    from published(1) show ?thesis
    proof (cases rule: publish_episode_cases)
      case (raised e)
      then show ?thesis by simp
    next
      case (done_ result)
      with published(2-) have "opened_state a i 0 INITIALIZE None st" "opened_events a i 0 INITIALIZE evs"
        by (simp_all add: opened_state_def opened_events_def opening_event_def)
      with done_ published(2) have "opens s result a i 0 INITIALIZE None"
        unfolding opens_def by auto
      with done_(1) published(2) i show ?thesis by (simp add: a_def)
    qed
  qed
qed

lemma live_predecessor_Inr:
  "live_predecessor s a = Inr st \<longleftrightarrow> a \<noteq> [] \<and> dget (episode_results s) a = Some st \<and> state_ok st"
proof (cases "a = [] \<or> dget (episode_results s) a = None")
  case True
  then show ?thesis by (auto simp: live_predecessor_def)
next
  case False
  then obtain st' where "dget (episode_results s) a = Some st'" by blast
  with False show ?thesis
    by (cases "state_ok st'")
      (auto simp: live_predecessor_def make_episode_state_ok dest: make_episode_state_bad)
qed

lemma live_predecessor_Inl: "live_predecessor s a = Inl result \<Longrightarrow> refused s (Inr result)"
  by (auto simp: live_predecessor_def split: option.splits sum.splits if_splits)

lemma new_episode_result:
  assumes "new_episode action (opening_event action) terminated wrong now req rt s = (rt', r)"
    and "action \<noteq> INITIALIZE"
  shows "refused s r \<or> (\<exists>result current. r = Inr result
     \<and> dget (episode_results s) (request_participant req) = Some current \<and> state_ok current
     \<and> (state_status current = TERMINATED) = terminated
     \<and> opens s result (request_participant req)
         (fst (chosen_episode_id (request_episode req) (request_participant req) rt))
         (state_sequence current + 1) action (Some (state_episode current)))"
proof -
  define a where "a = request_participant req"
  obtain i rt1 where i: "chosen_episode_id (request_episode req) a rt = (i, rt1)" by fastforce
  show ?thesis
  proof (cases "live_predecessor s a")
    case (Inl result)
    with assms have "r = Inr result" by (simp add: new_episode_def Let_def a_def)
    with live_predecessor_Inl [OF Inl] show ?thesis by simp
  next
    case (Inr current)
    show ?thesis
    proof (cases "(state_status current = TERMINATED) = terminated")
      case False
      with assms Inr show ?thesis by (auto simp: new_episode_def Let_def a_def)
    next
      case True
      let ?n = "state_sequence current + 1"
      from assms Inr True i obtain st evs where run: "publish_episode rt1 s a st evs False = (rt', r)"
        and st: "state_participant st = a" "state_episode st = i" "state_sequence st = ?n"
          "state_status st = RUNNING" "last_control_action st = action"
          "previous_episode st = Some (state_episode current)"
        and evs: "\<forall>ev \<in> set evs. event_participant ev = a \<and> event_episode ev = i \<and> event_sequence ev = ?n"
          "map event_type evs = [opening_event action, EPISODE_RUNNING]"
        unfolding new_episode_def Let_def a_def [symmetric] by (auto simp: Let_def)
      from run show ?thesis
      proof (cases rule: publish_episode_cases)
        case (raised e)
        then show ?thesis by simp
      next
        case (done_ result)
        with st evs have "opened_state a i ?n action (Some (state_episode current)) st"
          "opened_events a i ?n action evs"
          by (simp_all add: opened_state_def opened_events_def)
        with done_ assms(2) have "opens s result a i ?n action (Some (state_episode current))"
          unfolding opens_def by auto
        with done_(1) Inr True i show ?thesis by (simp add: a_def live_predecessor_Inr)
      qed
    qed
  qed
qed

definition closed_state :: "episode_state \<Rightarrow> terminal_reason \<Rightarrow> episode_state \<Rightarrow> bool" where
  "closed_state current reason st \<longleftrightarrow>
     state_ok st \<and> state_participant st = state_participant current \<and> state_episode st = state_episode current
     \<and> state_sequence st = state_sequence current \<and> state_status st = TERMINATED
     \<and> state_reason st = Some reason \<and> initialized_at st = initialized_at current
     \<and> last_control_action st = last_control_action current \<and> previous_episode st = previous_episode current"

definition closing_event :: "episode_state \<Rightarrow> terminal_reason \<Rightarrow> episode_event \<Rightarrow> bool" where
  "closing_event current reason ev \<longleftrightarrow>
     event_ok ev \<and> event_participant ev = state_participant current
     \<and> event_episode ev = state_episode current \<and> event_sequence ev = state_sequence current
     \<and> event_type ev = terminal_event_for reason"

definition closes :: "'r episode_snapshot \<Rightarrow> 'r episode_outcome \<Rightarrow> episode_state \<Rightarrow> terminal_reason \<Rightarrow> bool" where
  "closes s result current reason \<longleftrightarrow>
     outcome_success result \<and> outcome_diagnostics result = []
     \<and> outcome_changed result = [state_participant current] \<and> compiled_address (state_participant current)
     \<and> (\<exists>st ev. closed_state current reason st \<and> closing_event current reason ev
          \<and> outcome_snapshot result = published s (state_participant current) st
              (history_of s (state_participant current) @ [ev]))"

lemma terminal_events_for [simp]: "terminal_events (terminal_event_for reason) = Some reason"
  by (cases reason) simp_all

lemma terminate_result:
  assumes "episode_terminate now req rt s = (rt', r)" and "snapshot_ok s"
  shows "refused s r \<or> (\<exists>result current. r = Inr result
     \<and> dget (episode_results s) (terminate_participant req) = Some current \<and> state_ok current
     \<and> state_participant current = terminate_participant req
     \<and> state_status current \<noteq> TERMINATED \<and> closes s result current (terminate_reason req))"
proof -
  define a where "a = terminate_participant req"
  show ?thesis
  proof (cases "live_predecessor s a")
    case (Inl result)
    with assms have "r = Inr result" by (simp add: episode_terminate_def Let_def a_def)
    with live_predecessor_Inl [OF Inl] show ?thesis by simp
  next
    case (Inr current)
    then have current: "dget (episode_results s) a = Some current" "state_ok current"
      by (simp_all add: live_predecessor_Inr)
    from assms(2) current(1) have "state_participant current = a" by (rule snapshot_ok_result)
    show ?thesis
    proof (cases "state_status current = TERMINATED")
      case True
      with assms Inr show ?thesis by (auto simp: episode_terminate_def Let_def a_def)
    next
      case False
      with assms Inr obtain st ev where run: "publish_episode rt s a st [ev] False = (rt', r)"
        and st: "state_participant st = a" "state_episode st = state_episode current"
          "state_sequence st = state_sequence current" "state_status st = TERMINATED"
          "state_reason st = Some (terminate_reason req)" "initialized_at st = initialized_at current"
          "last_control_action st = last_control_action current" "previous_episode st = previous_episode current"
        and ev: "event_participant ev = a" "event_episode ev = state_episode current"
          "event_sequence ev = state_sequence current" "event_type ev = terminal_event_for (terminate_reason req)"
        unfolding episode_terminate_def Let_def a_def [symmetric] by auto
      from run show ?thesis
      proof (cases rule: publish_episode_cases)
        case (raised e)
        then show ?thesis by simp
      next
        case (done_ result)
        have "closes s result current (terminate_reason req)"
          using done_ st ev \<open>state_participant current = a\<close>
          by (auto simp: closes_def closed_state_def closing_event_def)
        with done_(1) current False \<open>state_participant current = a\<close> show ?thesis by (simp add: a_def)
      qed
    qed
  qed
qed

section \<open>The snapshot stays free of violations\<close>

lemma chain_bound: "successively event_follows h \<Longrightarrow> e \<in> set h \<Longrightarrow> event_sequence e \<le> event_sequence (last h)"
proof (induction h arbitrary: e rule: rev_induct)
  case (snoc x h)
  show ?case
  proof (cases "e \<in> set h")
    case True
    with snoc have "event_sequence e \<le> event_sequence (last h)" "event_follows (last h) x"
      by (auto simp: successively_append_iff)
    then show ?thesis by (simp add: event_follows_def)
  next
    case False
    with snoc.prems show ?thesis by simp
  qed
qed simp

lemma history_append:
  assumes "history_ok a h" and "\<forall>ev \<in> set evs. event_ok ev \<and> event_participant ev = a"
    and "evs \<noteq> []" and "h \<noteq> [] \<Longrightarrow> event_follows (last h) (hd evs)"
    and "successively event_follows evs"
    and "\<forall>ev \<in> set evs. event_episode ev = i \<and> event_sequence ev = n"
    and "\<forall>e \<in> set h. event_sequence e = n \<longrightarrow> event_episode e = i"
  shows "history_ok a (h @ evs)"
proof -
  have "single_valued (sequence_ids h)" using assms(1) by (simp add: history_ok_def episode_chain_def one_episode_each_def)
  then have "single_valued (sequence_ids (h @ evs))"
    using assms(6,7) by (auto simp: single_valued_def sequence_ids_def)
  with assms show ?thesis
    by (auto simp: history_ok_def episode_chain_def one_episode_each_def successively_append_iff)
qed

lemma opened_events_follow:
  assumes "opened_events a i n action evs"
  obtains e e' where "evs = [e, e']" "event_type e = opening_event action" "event_type e' = EPISODE_RUNNING"
    "event_ok e" "event_ok e'" "event_participant e = a" "event_participant e' = a"
    "event_episode e = i" "event_episode e' = i" "event_sequence e = n" "event_sequence e' = n"
  using assms unfolding opened_events_def by (auto simp: map_eq_Cons_conv)

lemma opened_agrees:
  assumes "opened_state a i n action previous st" and "opened_events a i n action evs"
  shows "head_agrees st (last (h @ evs))"
proof -
  from assms(2) obtain e e' where evs: "evs = [e, e']" "event_type e' = EPISODE_RUNNING" "event_ok e'"
    "event_episode e' = i" "event_sequence e' = n" by (rule opened_events_follow)
  with assms(1) show ?thesis
    by (auto simp: head_agrees_def opened_state_def state_ok_def event_ok_def)
qed

lemma opens_first_ok:
  assumes "snapshot_ok s" and "opens s result a i 0 INITIALIZE None"
  shows "snapshot_ok (outcome_snapshot result)"
proof -
  from assms(2) obtain st evs where p: "opened_state a i 0 INITIALIZE None st" "opened_events a i 0 INITIALIZE evs"
    "outcome_snapshot result = published s a st ([] @ evs)" "compiled_address a"
    unfolding opens_def by auto
  from p(2) obtain e e' where evs: "evs = [e, e']" "event_type e = opening_event INITIALIZE"
    "event_type e' = EPISODE_RUNNING" "event_ok e" "event_ok e'" "event_participant e = a"
    "event_participant e' = a" "event_episode e = i" "event_episode e' = i" "event_sequence e = 0"
    "event_sequence e' = 0" by (rule opened_events_follow)
  have "history_ok a ([] @ evs)"
    by (rule history_append [of a "[]" evs i 0])
      (use evs in \<open>auto simp: history_ok_def episode_chain_def event_follows_def\<close>)
  moreover have "head_agrees st (last ([] @ evs))" using p by (intro opened_agrees)
  ultimately show ?thesis
    unfolding p(3) using assms(1) p evs compiled_address_nonempty [OF p(4)]
    by (intro published_ok) (auto simp: opened_state_def)
qed

lemma opens_later_ok:
  assumes "snapshot_ok s" and "dget (episode_results s) a = Some current" and "action \<noteq> INITIALIZE"
    and "opens s result a i (state_sequence current + 1) action (Some (state_episode current))"
  shows "snapshot_ok (outcome_snapshot result)"
proof -
  let ?n = "state_sequence current + 1" and ?h = "history_of s a"
  from assms(3,4) obtain st evs where p: "opened_state a i ?n action (Some (state_episode current)) st"
    "opened_events a i ?n action evs" "outcome_snapshot result = published s a st (?h @ evs)" "compiled_address a"
    unfolding opens_def by auto
  from p(2) obtain e e' where evs: "evs = [e, e']" "event_type e = opening_event action"
    "event_type e' = EPISODE_RUNNING" "event_ok e" "event_ok e'" "event_participant e = a"
    "event_participant e' = a" "event_episode e = i" "event_episode e' = i" "event_sequence e = ?n"
    "event_sequence e' = ?n" by (rule opened_events_follow)
  have h: "history_ok a ?h" by (rule snapshot_ok_history [OF assms(1)])
  have head: "event_sequence (last ?h) = state_sequence current" if "?h \<noteq> []"
    using snapshot_ok_result(4) [OF assms(1,2) that] by (simp add: head_agrees_def)
  have below: "event_sequence ev < ?n" if "ev \<in> set ?h" for ev
  proof -
    have "event_sequence ev \<le> event_sequence (last ?h)"
      using h that by (intro chain_bound) (simp_all add: history_ok_def episode_chain_def)
    moreover from that have "?h \<noteq> []" by auto
    ultimately show ?thesis using head by simp
  qed
  have "history_ok a (?h @ evs)"
  proof (rule history_append [OF h])
    show "event_follows (last ?h) (hd evs)" if "?h \<noteq> []"
      using head [OF that] evs(1,2,10) assms(3) by (cases action) (auto simp: event_follows_def opening_event_def)
    show "\<forall>ev \<in> set ?h. event_sequence ev = ?n \<longrightarrow> event_episode ev = i" using below by (metis less_irrefl)
  qed (use evs in \<open>auto simp: event_follows_def\<close>)
  moreover have "head_agrees st (last (?h @ evs))" using p(1,2) by (rule opened_agrees)
  ultimately show ?thesis
    unfolding p(3) using assms(1) p evs compiled_address_nonempty [OF p(4)]
    by (intro published_ok) (auto simp: opened_state_def)
qed

lemma closes_ok:
  assumes "snapshot_ok s" and "dget (episode_results s) (state_participant current) = Some current"
    and "closes s result current reason"
  shows "snapshot_ok (outcome_snapshot result)"
proof -
  define a where "a = state_participant current"
  let ?h = "history_of s a"
  from assms(3) obtain st ev where p: "closed_state current reason st" "closing_event current reason ev"
    "outcome_snapshot result = published s a st (?h @ [ev])" "compiled_address a"
    unfolding closes_def a_def by auto
  have h: "history_ok a ?h" by (rule snapshot_ok_history [OF assms(1)])
  have head: "event_sequence (last ?h) = state_sequence current" "event_episode (last ?h) = state_episode current"
    if "?h \<noteq> []"
    using snapshot_ok_result(4) [OF assms(1), of a current] that assms(2) by (simp_all add: head_agrees_def a_def)
  have ids: "event_episode e = state_episode current"
    if "e \<in> set ?h" "event_sequence e = state_sequence current" for e
  proof -
    from that have "?h \<noteq> []" by auto
    then have "last ?h \<in> set ?h" by simp
    with that(1) have "(event_sequence (last ?h), event_episode (last ?h)) \<in> sequence_ids ?h"
      "(event_sequence e, event_episode e) \<in> sequence_ids ?h" by (auto simp: sequence_ids_def)
    moreover have "single_valued (sequence_ids ?h)"
      using h by (simp add: history_ok_def episode_chain_def one_episode_each_def)
    ultimately show ?thesis
      using head [OF \<open>?h \<noteq> []\<close>] that(2) by (metis single_valuedD)
  qed
  have "history_ok a (?h @ [ev])"
  proof (rule history_append [OF h])
    show "event_follows (last ?h) (hd [ev])" if "?h \<noteq> []"
      using head [OF that] p(2) by (auto simp: event_follows_def closing_event_def)
    show "\<forall>e \<in> set ?h. event_sequence e = state_sequence current \<longrightarrow> event_episode e = state_episode current"
      using ids by blast
  qed (use p(2) in \<open>auto simp: closing_event_def a_def\<close>)
  moreover have "head_agrees st (last (?h @ [ev]))"
    using p(1,2) by (auto simp: head_agrees_def closed_state_def closing_event_def event_ok_def)
  ultimately show ?thesis
    unfolding p(3) using assms(1) p compiled_address_nonempty [OF p(4)]
    by (intro published_ok) (auto simp: closed_state_def a_def)
qed

section \<open>The abstract log\<close>

datatype episode_entry =
  Entry (entry_id: string) (entry_action: control_action) (entry_end: "terminal_reason option")

type_synonym episode_logs = "address \<Rightarrow> episode_entry list"

definition close_last :: "terminal_reason \<Rightarrow> episode_entry list \<Rightarrow> episode_entry list" where
  "close_last reason l = butlast l @ [Entry (entry_id (last l)) (entry_action (last l)) (Some reason)]"

text \<open>The log that a history records.\<close>

definition note_event :: "episode_entry list \<Rightarrow> episode_event \<Rightarrow> episode_entry list" where
  "note_event l ev =
     (case event_action ev of
        Some action \<Rightarrow> l @ [Entry (event_episode ev) action None]
      | None \<Rightarrow> (case event_reason ev of None \<Rightarrow> l | Some reason \<Rightarrow> close_last reason l))"

definition episode_log :: "episode_event list \<Rightarrow> episode_entry list" where
  "episode_log history = foldl note_event [] history"

definition logs_of :: "'r episode_snapshot \<Rightarrow> episode_logs" where
  "logs_of s a = episode_log (history_of s a)"

text \<open>The history that a log calls for: the type, the episode and the sequence number of its events.\<close>

type_synonym event_view = "episode_event_type \<times> string \<times> int"

definition event_view :: "episode_event \<Rightarrow> event_view" where
  "event_view ev = (event_type ev, event_episode ev, event_sequence ev)"

definition entry_trace :: "nat \<Rightarrow> episode_entry \<Rightarrow> event_view list" where
  "entry_trace n en =
     [(opening_event (entry_action en), entry_id en, int n), (EPISODE_RUNNING, entry_id en, int n)]
     @ (case entry_end en of None \<Rightarrow> [] | Some reason \<Rightarrow> [(terminal_event_for reason, entry_id en, int n)])"

definition log_trace :: "episode_entry list \<Rightarrow> event_view list" where
  "log_trace l = concat (map (\<lambda>(n, en). entry_trace n en) (enumerate 0 l))"

lemma log_trace_snoc: "log_trace (l @ [en]) = log_trace l @ entry_trace (length l) en"
  by (simp add: log_trace_def enumerate_append_eq)

lemma log_trace_close:
  assumes "l \<noteq> []" and "entry_end (last l) = None"
  shows "log_trace (close_last reason l) =
     log_trace l @ [(terminal_event_for reason, entry_id (last l), int (length l) - 1)]"
proof -
  obtain k en where l: "l = k @ [en]" using assms(1) by (metis append_butlast_last_id)
  with assms(2) show ?thesis by (simp add: close_last_def log_trace_snoc entry_trace_def)
qed

definition entry_state :: "episode_entry list \<Rightarrow> episode_state \<Rightarrow> bool" where
  "entry_state l st \<longleftrightarrow>
     l \<noteq> [] \<and> state_episode st = entry_id (last l) \<and> state_sequence st = int (length l) - 1
     \<and> state_reason st = entry_end (last l) \<and> last_control_action st = entry_action (last l)
     \<and> previous_episode st = (if length l = 1 then None else Some (entry_id (last (butlast l))))
     \<and> state_status st \<noteq> INITIALIZING"

definition tracked :: "'r episode_snapshot \<Rightarrow> bool" where
  "tracked s \<longleftrightarrow>
     snapshot_ok s
     \<and> (\<forall>a. case dget (episode_results s) a of
              None \<Rightarrow> history_of s a = []
            | Some st \<Rightarrow> entry_state (logs_of s a) st
                \<and> map event_view (history_of s a) = log_trace (logs_of s a) \<and> compiled_address a)"

lemma tracked_some:
  assumes "tracked s" and "dget (episode_results s) a = Some st"
  shows "entry_state (logs_of s a) st" "map event_view (history_of s a) = log_trace (logs_of s a)"
    "compiled_address a"
  using assms unfolding tracked_def by (metis (mono_tags, lifting) option.case(2))+

lemma tracked_none:
  assumes "tracked s" and "dget (episode_results s) a = None"
  shows "history_of s a = []" "logs_of s a = []"
proof -
  from assms show "history_of s a = []"
    unfolding tracked_def by (metis (mono_tags, lifting) option.case(1))
  then show "logs_of s a = []" by (simp add: logs_of_def episode_log_def)
qed

lemma logs_of_published: "logs_of (published s a st evs) = (logs_of s)(a := episode_log evs)"
  by (auto simp: logs_of_def)

lemma episode_log_append: "episode_log (h @ evs) = foldl note_event (episode_log h) evs"
  by (simp add: episode_log_def)

lemma control_events_opening [simp]: "control_events (opening_event action) = Some action"
  by (cases action) (simp_all add: opening_event_def)

lemma opened_log:
  assumes "opened_events a i n action evs"
  shows "episode_log (h @ evs) = episode_log h @ [Entry i action None]"
    "map event_view evs = [(opening_event action, i, n), (EPISODE_RUNNING, i, n)]"
proof -
  from assms obtain e e' where evs: "evs = [e, e']" "event_type e = opening_event action"
    "event_type e' = EPISODE_RUNNING" "event_ok e" "event_ok e'" "event_episode e = i" "event_episode e' = i"
    "event_sequence e = n" "event_sequence e' = n" by (rule opened_events_follow)
  then show "episode_log (h @ evs) = episode_log h @ [Entry i action None]"
    by (simp add: episode_log_append note_event_def event_ok_def)
  show "map event_view evs = [(opening_event action, i, n), (EPISODE_RUNNING, i, n)]"
    using evs by (simp add: event_view_def)
qed

lemma tracked_published:
  assumes "tracked s" and "snapshot_ok (published s a st evs)" and "compiled_address a"
    and "entry_state (episode_log evs) st" and "map event_view evs = log_trace (episode_log evs)"
  shows "tracked (published s a st evs)"
  unfolding tracked_def
proof (intro conjI allI)
  fix b
  show "case dget (episode_results (published s a st evs)) b of
           None \<Rightarrow> history_of (published s a st evs) b = []
         | Some st' \<Rightarrow> entry_state (logs_of (published s a st evs) b) st'
             \<and> map event_view (history_of (published s a st evs) b) = log_trace (logs_of (published s a st evs) b)
             \<and> compiled_address b"
  proof (cases "b = a")
    case True
    with assms(3,4,5) show ?thesis by (simp add: logs_of_published)
  next
    case False
    then have same: "history_of (published s a st evs) b = history_of s b"
      "logs_of (published s a st evs) b = logs_of s b"
      "dget (episode_results (published s a st evs)) b = dget (episode_results s) b"
      by (simp_all add: logs_of_published)
    show ?thesis unfolding same using assms(1) by (simp add: tracked_def)
  qed
qed (rule assms(2))

text \<open>A successful operation is a step of the log.\<close>

lemma opens_first_tracked:
  assumes "tracked s" and "dget (episode_results s) a = None" and "opens s result a i 0 INITIALIZE None"
  shows "tracked (outcome_snapshot result)"
    "logs_of (outcome_snapshot result) = (logs_of s)(a := [Entry i INITIALIZE None])"
proof -
  from assms(3) obtain st evs where p: "opened_state a i 0 INITIALIZE None st" "opened_events a i 0 INITIALIZE evs"
    "outcome_snapshot result = published s a st evs" "compiled_address a"
    unfolding opens_def by auto
  have log: "episode_log evs = [Entry i INITIALIZE None]"
    using opened_log(1) [OF p(2), of "[]"] by (simp add: episode_log_def)
  have ok: "snapshot_ok (outcome_snapshot result)"
    using assms(1,3) by (intro opens_first_ok) (auto simp: tracked_def)
  show "tracked (outcome_snapshot result)"
    unfolding p(3)
  proof (rule tracked_published [OF assms(1)])
    show "snapshot_ok (published s a st evs)" using ok p(3) by simp
    show "compiled_address a" by (rule p(4))
    show "entry_state (episode_log evs) st"
      using p(1) by (auto simp: log entry_state_def opened_state_def state_ok_def)
    show "map event_view evs = log_trace (episode_log evs)"
      using opened_log(2) [OF p(2)] log_trace_snoc [of "[]"]
      by (simp add: log entry_trace_def log_trace_def)
  qed
  show "logs_of (outcome_snapshot result) = (logs_of s)(a := [Entry i INITIALIZE None])"
    unfolding p(3) logs_of_published log ..
qed

lemma opens_later_tracked:
  assumes "tracked s" and "dget (episode_results s) a = Some current" and "action \<noteq> INITIALIZE"
    and "opens s result a i (state_sequence current + 1) action (Some (state_episode current))"
  shows "tracked (outcome_snapshot result)"
    "logs_of (outcome_snapshot result) = (logs_of s)(a := logs_of s a @ [Entry i action None])"
    "i \<noteq> entry_id (last (logs_of s a))"
proof -
  let ?n = "state_sequence current + 1" and ?h = "history_of s a"
  from assms(3,4) obtain st evs where p: "opened_state a i ?n action (Some (state_episode current)) st"
    "opened_events a i ?n action evs" "outcome_snapshot result = published s a st (?h @ evs)" "compiled_address a"
    unfolding opens_def by auto
  have log: "episode_log (?h @ evs) = logs_of s a @ [Entry i action None]"
    using opened_log(1) [OF p(2)] by (simp add: logs_of_def)
  have cur: "logs_of s a \<noteq> []" "state_episode current = entry_id (last (logs_of s a))"
    "state_sequence current = int (length (logs_of s a)) - 1"
    using tracked_some [OF assms(1,2)] by (simp_all add: entry_state_def)
  have ok: "snapshot_ok (outcome_snapshot result)"
    using assms by (intro opens_later_ok) (auto simp: tracked_def)
  show "tracked (outcome_snapshot result)"
    unfolding p(3)
  proof (rule tracked_published [OF assms(1)])
    show "snapshot_ok (published s a st (?h @ evs))" using ok p(3) by simp
    show "compiled_address a" by (rule p(4))
    show "entry_state (episode_log (?h @ evs)) st"
      using p(1) cur by (auto simp: log entry_state_def opened_state_def state_ok_def)
    show "map event_view (?h @ evs) = log_trace (episode_log (?h @ evs))"
      using opened_log(2) [OF p(2)] tracked_some(2) [OF assms(1,2)] cur
      unfolding log log_trace_snoc by (simp add: entry_trace_def)
  qed
  show "logs_of (outcome_snapshot result) = (logs_of s)(a := logs_of s a @ [Entry i action None])"
    unfolding p(3) logs_of_published log ..
  show "i \<noteq> entry_id (last (logs_of s a))"
    using p(1) cur(2) by (auto simp: opened_state_def state_ok_def)
qed

lemma tracked_status:
  assumes "tracked s" and "dget (episode_results s) a = Some st"
  shows "state_status st = TERMINATED \<longleftrightarrow> entry_end (last (logs_of s a)) \<noteq> None"
proof -
  have "state_ok st"
    using assms by (intro snapshot_ok_result(2)) (auto simp: tracked_def)
  then show ?thesis
    using tracked_some(1) [OF assms] by (simp add: state_ok_def entry_state_def)
qed

lemma closes_tracked:
  assumes "tracked s" and "dget (episode_results s) (state_participant current) = Some current"
    and "state_status current \<noteq> TERMINATED" and "closes s result current reason"
  shows "tracked (outcome_snapshot result)"
    "logs_of (outcome_snapshot result) =
       (logs_of s)(state_participant current := close_last reason (logs_of s (state_participant current)))"
proof -
  define a where "a = state_participant current"
  let ?h = "history_of s a" and ?l = "logs_of s a"
  from assms(4) obtain st ev where p: "closed_state current reason st" "closing_event current reason ev"
    "outcome_snapshot result = published s a st (?h @ [ev])" "compiled_address a"
    unfolding closes_def a_def by auto
  have ev: "event_action ev = None" "event_reason ev = Some reason"
    using p(2) by (cases reason; simp add: closing_event_def event_ok_def)+
  have log: "episode_log (?h @ [ev]) = close_last reason ?l"
    using ev by (simp add: episode_log_append note_event_def logs_of_def)
  have a: "dget (episode_results s) a = Some current" using assms(2) by (simp add: a_def)
  have cur: "?l \<noteq> []" "state_episode current = entry_id (last ?l)"
    "state_sequence current = int (length ?l) - 1" "last_control_action current = entry_action (last ?l)"
    "previous_episode current = (if length ?l = 1 then None else Some (entry_id (last (butlast ?l))))"
    using tracked_some(1) [OF assms(1) a] by (auto simp: entry_state_def)
  have len: "length (close_last reason ?l) = length ?l" using cur(1) by (simp add: close_last_def)
  have ok: "snapshot_ok (outcome_snapshot result)"
    using assms by (intro closes_ok) (auto simp: tracked_def)
  have live: "entry_end (last ?l) = None"
    using tracked_status [OF assms(1) a] assms(3) by simp
  show "tracked (outcome_snapshot result)"
    unfolding p(3)
  proof (rule tracked_published [OF assms(1)])
    show "snapshot_ok (published s a st (?h @ [ev]))" using ok p(3) by simp
    show "compiled_address a" by (rule p(4))
    show "entry_state (episode_log (?h @ [ev])) st"
      using p(1) cur unfolding log entry_state_def len by (simp add: close_last_def closed_state_def)
    show "map event_view (?h @ [ev]) = log_trace (episode_log (?h @ [ev]))"
      using tracked_some(2) [OF assms(1) a] p(2) cur
      unfolding log log_trace_close [OF cur(1) live] by (simp add: event_view_def closing_event_def)
  qed
  show "logs_of (outcome_snapshot result) =
       (logs_of s)(state_participant current := close_last reason (logs_of s (state_participant current)))"
    using log unfolding p(3) logs_of_published a_def by simp
qed

section \<open>Operations as steps of the log\<close>

text \<open>The id of an episode: the one the request names, or an allocated one.\<close>

definition names_episode :: "string option \<Rightarrow> address \<Rightarrow> string \<Rightarrow> bool" where
  "names_episode requested a i \<longleftrightarrow>
     (case requested of
        Some (c # cs) \<Rightarrow> i = c # cs
      | _ \<Rightarrow> \<exists>n. i = a @ ''-episode-'' @ digits_of (Suc n))"

lemma chosen_names: "names_episode requested a (fst (chosen_episode_id requested a rt))"
  by (auto simp: names_episode_def chosen_episode_id_def allocate_episode_id_def Let_def
      split: option.splits list.splits)

inductive log_call :: "episode_op \<Rightarrow> episode_logs \<Rightarrow> episode_logs \<Rightarrow> bool" where
  log_initialize:
    "logs (initialize_participant req) = [] \<Longrightarrow>
     names_episode (initialize_episode req) (initialize_participant req) i \<Longrightarrow>
     log_call (Initialize now req) logs (logs(initialize_participant req := [Entry i INITIALIZE None]))"
| log_reset:
    "logs (request_participant req) = l \<Longrightarrow> l \<noteq> [] \<Longrightarrow> entry_end (last l) = None \<Longrightarrow>
     names_episode (request_episode req) (request_participant req) i \<Longrightarrow> i \<noteq> entry_id (last l) \<Longrightarrow>
     log_call (Reset now req) logs (logs(request_participant req := l @ [Entry i RESET None]))"
| log_restart:
    "logs (request_participant req) = l \<Longrightarrow> l \<noteq> [] \<Longrightarrow> entry_end (last l) \<noteq> None \<Longrightarrow>
     names_episode (request_episode req) (request_participant req) i \<Longrightarrow> i \<noteq> entry_id (last l) \<Longrightarrow>
     log_call (Restart now req) logs (logs(request_participant req := l @ [Entry i RESTART None]))"
| log_terminate:
    "logs (terminate_participant req) = l \<Longrightarrow> l \<noteq> [] \<Longrightarrow> entry_end (last l) = None \<Longrightarrow>
     log_call (Terminate now req) logs (logs(terminate_participant req := close_last (terminate_reason req) l))"
| log_reset_none: "log_call (ResetMany []) logs logs"
| log_reset_more:
    "log_call (Reset now req) logs logs' \<Longrightarrow> log_call (ResetMany requests) logs' logs'' \<Longrightarrow>
     log_call (ResetMany ((now, req) # requests)) logs logs''"
| log_new_runtime: "log_call NewRuntime logs logs"

inductive_cases log_reset_manyE: "log_call (ResetMany requests) logs logs'"
inductive_cases log_resetE: "log_call (Reset now req) logs logs'"

text \<open>Histories only grow, and the closure records and all other fields are passed on.\<close>

definition extends :: "'r episode_snapshot \<Rightarrow> 'r episode_snapshot \<Rightarrow> bool" where
  "extends s s' \<longleftrightarrow>
     episode_closures s' = episode_closures s \<and> episode_rest s' = episode_rest s
     \<and> (\<forall>a. prefix (history_of s a) (history_of s' a))"

lemma extends_refl [simp]: "extends s s"
  by (simp add: extends_def)

lemma extends_trans: "extends s t \<Longrightarrow> extends t u \<Longrightarrow> extends s u"
  by (auto simp: extends_def intro: prefix_order.trans)

definition simulated :: "episode_op \<Rightarrow> 'r episode_snapshot \<Rightarrow> 'r episode_result \<Rightarrow> bool" where
  "simulated op s r \<longleftrightarrow> refused s r \<or> (\<exists>result. r = Inr result \<and> outcome_success result
     \<and> tracked (outcome_snapshot result) \<and> log_call op (logs_of s) (logs_of (outcome_snapshot result))
     \<and> extends s (outcome_snapshot result))"

lemma opens_frame:
  "opens s result a i n action previous \<Longrightarrow> action = INITIALIZE \<longrightarrow> history_of s a = [] \<Longrightarrow>
     outcome_success result \<and> extends s (outcome_snapshot result)"
  by (auto simp: opens_def extends_def)

lemma closes_frame:
  "closes s result current reason \<Longrightarrow> outcome_success result \<and> extends s (outcome_snapshot result)"
  by (auto simp: closes_def extends_def)

lemma initialize_simulated:
  assumes "tracked s" and "episode_initialize now req rt s = (rt', r)"
  shows "simulated (Initialize now req) s r"
proof -
  consider "refused s r" | result where "r = Inr result"
    "dget (episode_results s) (initialize_participant req) = None"
    "opens s result (initialize_participant req)
       (fst (chosen_episode_id (initialize_episode req) (initialize_participant req) rt)) 0 INITIALIZE None"
    using initialize_result [OF assms(2)] by blast
  then show ?thesis
  proof cases
    case 1
    then show ?thesis by (simp add: simulated_def)
  next
    case (2 result)
    note step = opens_first_tracked [OF assms(1) 2(2,3)]
    have "log_call (Initialize now req) (logs_of s) (logs_of (outcome_snapshot result))"
      unfolding step(2) using tracked_none(2) [OF assms(1) 2(2)] chosen_names by (rule log_initialize)
    with step(1) 2(1) opens_frame [OF 2(3)] tracked_none(1) [OF assms(1) 2(2)] show ?thesis by (simp add: simulated_def)
  qed
qed

lemma new_episode_simulated:
  assumes "tracked s"
    and "new_episode action (opening_event action) terminated wrong now req rt s = (rt', r)" and "action \<noteq> INITIALIZE"
  shows "refused s r \<or> (\<exists>result i. r = Inr result \<and> outcome_success result \<and> tracked (outcome_snapshot result)
     \<and> logs_of s (request_participant req) \<noteq> []
     \<and> (entry_end (last (logs_of s (request_participant req))) \<noteq> None) = terminated
     \<and> names_episode (request_episode req) (request_participant req) i
     \<and> i \<noteq> entry_id (last (logs_of s (request_participant req)))
     \<and> logs_of (outcome_snapshot result) =
         (logs_of s)(request_participant req := logs_of s (request_participant req) @ [Entry i action None])
     \<and> extends s (outcome_snapshot result))"
proof -
  define a where "a = request_participant req"
  consider "refused s r" | result current where "r = Inr result" "dget (episode_results s) a = Some current"
    "(state_status current = TERMINATED) = terminated"
    "opens s result a (fst (chosen_episode_id (request_episode req) a rt))
         (state_sequence current + 1) action (Some (state_episode current))"
    using new_episode_result [OF assms(2,3)] unfolding a_def by blast
  then show ?thesis
  proof cases
    case 1
    then show ?thesis by simp
  next
    case (2 result current)
    note step = opens_later_tracked [OF assms(1) 2(2) assms(3) 2(4)]
    have "logs_of s a \<noteq> []" using tracked_some(1) [OF assms(1) 2(2)] by (simp add: entry_state_def)
    moreover have "(entry_end (last (logs_of s a)) \<noteq> None) = terminated"
      using tracked_status [OF assms(1) 2(2)] 2(3) by simp
    ultimately show ?thesis
      using 2(1) step opens_frame [OF 2(4)] assms(3) chosen_names unfolding a_def by blast
  qed
qed

lemma opening_event_simps: "opening_event RESET = EPISODE_RESET" "opening_event RESTART = EPISODE_RESTARTED"
  by (simp_all add: opening_event_def)

lemma reset_simulated:
  assumes "tracked s" and "episode_reset now req rt s = (rt', r)"
  shows "simulated (Reset now req) s r"
  using new_episode_simulated [OF assms(1), of RESET False CannotResetTerminated now req rt rt' r] assms(2)
  unfolding episode_reset_def opening_event_simps simulated_def
  by (metis control_action.distinct(1) log_reset)

lemma restart_simulated:
  assumes "tracked s" and "episode_restart now req rt s = (rt', r)"
  shows "simulated (Restart now req) s r"
  using new_episode_simulated [OF assms(1), of RESTART True CannotRestartLive now req rt rt' r] assms(2)
  unfolding episode_restart_def opening_event_simps simulated_def
  by (metis control_action.distinct(3) log_restart)

lemma terminate_simulated:
  assumes "tracked s" and "episode_terminate now req rt s = (rt', r)"
  shows "simulated (Terminate now req) s r"
proof -
  have ok: "snapshot_ok s" using assms(1) by (simp add: tracked_def)
  consider "refused s r" | result current where "r = Inr result"
    "dget (episode_results s) (terminate_participant req) = Some current"
    "state_participant current = terminate_participant req"
    "state_status current \<noteq> TERMINATED" "closes s result current (terminate_reason req)"
    using terminate_result [OF assms(2) ok] by blast
  then show ?thesis
  proof cases
    case 1
    then show ?thesis by (simp add: simulated_def)
  next
    case (2 result current)
    have cur: "dget (episode_results s) (state_participant current) = Some current" using 2 by simp
    note step = closes_tracked [OF assms(1) cur 2(4,5)]
    have "logs_of s (terminate_participant req) \<noteq> []"
      "entry_end (last (logs_of s (terminate_participant req))) = None"
      using tracked_some(1) [OF assms(1) 2(2)] tracked_status [OF assms(1) 2(2)] 2(4)
      by (simp_all add: entry_state_def)
    then have "log_call (Terminate now req) (logs_of s) (logs_of (outcome_snapshot result))"
      unfolding step(2) 2(3) by (intro log_terminate refl)
    with step(1) 2(1) closes_frame [OF 2(5)] show ?thesis by (simp add: simulated_def)
  qed
qed

end
