(* ===== verification/EpisodeProperties.thy ===== *)
theory EpisodeProperties
  imports EpisodeRefinement
begin

text \<open>
  Runs of the participant runtime: they keep the snapshot free of violations and closure records
  realized, batches are atomic, and a live episode can always be followed by a fresh one.
\<close>

section \<open>Batches\<close>

lemma reset_each_result:
  assumes "reset_each requests rt s diagnostics changed = (rt', r)" and "tracked s"
  shows "(\<exists>e. r = Inl e) \<or> (\<exists>result. r = Inr result \<and> (outcome_success result \<longrightarrow>
     tracked (outcome_snapshot result)
     \<and> log_call (ResetMany requests) (logs_of s) (logs_of (outcome_snapshot result))
     \<and> extends s (outcome_snapshot result)))"
  using assms
proof (induction requests arbitrary: rt s diagnostics changed)
  case Nil
  then show ?case by (auto intro: log_reset_none)
next
  case (Cons p requests)
  obtain now req where p: "p = (now, req)" by (cases p)
  obtain rt1 r1 where one: "episode_reset now req rt s = (rt1, r1)" by (cases "episode_reset now req rt s")
  show ?case
  proof (cases r1)
    case (Inl e)
    with Cons.prems(1) p one show ?thesis by auto
  next
    case (Inr result)
    show ?thesis
    proof (cases "outcome_success result")
      case False
      with Cons.prems(1) p one Inr show ?thesis by auto
    next
      case True
      from reset_simulated [OF Cons.prems(2) one] Inr True
      have step: "tracked (outcome_snapshot result)"
        "log_call (Reset now req) (logs_of s) (logs_of (outcome_snapshot result))"
        "extends s (outcome_snapshot result)"
        by (auto simp: simulated_def refused_def)
      have rest: "reset_each requests rt1 (outcome_snapshot result) (diagnostics @ outcome_diagnostics result)
          (changed @ outcome_changed result) = (rt', r)"
        using Cons.prems(1) p one Inr True by simp
      from Cons.IH [OF rest step(1)] show ?thesis
        using step p by (metis extends_trans log_reset_more)
    qed
  qed
qed

lemma reset_many_result:
  assumes "reset_many native requests rt s = (rt', r)"
  shows "rt' = rt \<and> refused s r \<or> (\<exists>result. r = Inr result \<and> outcome_success result)"
  using assms
  by (auto simp: reset_many_def reset_many_atomically_def refused_def episode_reject_def
      split: if_splits prod.splits sum.splits)

lemma reset_many_simulated:
  assumes "tracked s" and "reset_many native requests rt s = (rt', r)"
  shows "simulated (ResetMany requests) s r"
proof (cases "refused s r")
  case True
  then show ?thesis by (simp add: simulated_def)
next
  case False
  with reset_many_result [OF assms(2)] obtain result where r: "r = Inr result" "outcome_success result" by blast
  have "reset_each requests rt s [] [] = (rt', r)"
    using assms(2) r False
    by (auto simp: reset_many_def reset_many_atomically_def refused_def episode_reject_def
        split: if_splits prod.splits sum.splits)
  from reset_each_result [OF this assms(1)] r show ?thesis by (simp add: simulated_def)
qed

lemma call_simulated:
  assumes "tracked s" and "episode_call op rt s = (rt', r)"
  shows "simulated op s r"
proof (cases op)
  case NewRuntime
  with assms have "r = Inr \<lparr>outcome_success = True, outcome_snapshot = s, outcome_diagnostics = [],
      outcome_changed = []\<rparr>" by auto
  with NewRuntime assms(1) show ?thesis by (simp add: simulated_def log_new_runtime)
qed (use assms in \<open>simp_all add: initialize_simulated reset_simulated restart_simulated
    terminate_simulated reset_many_simulated\<close>)

section \<open>Runs\<close>

lemma step_simulated:
  assumes "tracked s" and "episode_step op (rt, s) = Inr (rt', s')"
  shows "s' = s \<or> (tracked s' \<and> log_call op (logs_of s) (logs_of s') \<and> extends s s')"
proof -
  obtain rt1 r where call: "episode_call op rt s = (rt1, r)" by (cases "episode_call op rt s")
  from call_simulated [OF assms(1) call] show ?thesis
    using assms(2) call by (auto simp: episode_step_def simulated_def refused_def)
qed

definition tracked_world :: "'r episode_world \<Rightarrow> bool" where
  "tracked_world w \<longleftrightarrow> tracked (snd w)"

lemma step_tracked:
  assumes "tracked_world w" and "episode_step op w = Inr w'"
  shows "tracked_world w'" "extends (snd w) (snd w')"
  using step_simulated [of "snd w" op "fst w" "fst w'" "snd w'"] assms
  by (auto simp: tracked_world_def)

interpretation episodes: checked_machine episode_step tracked_world
  by unfold_locales (rule step_tracked)

interpretation episode_log_of: logged_machine episode_step tracked_world "\<lambda>w. history_of (snd w) a" for a
  by unfold_locales (blast dest: step_tracked(2) [unfolded extends_def])

lemma empty_tracked: "tracked_world (empty_episodes rest)"
  by (simp add: tracked_world_def empty_episodes_def tracked_def snapshot_ok_def snapshot_clean_def history_of_def)

lemma reachable_tracked:
  "machine_reach episode_step (empty_episodes rest) (rt, s) \<Longrightarrow> tracked s"
  using episodes.reach_inv [OF _ empty_tracked] by (force simp: tracked_world_def)

section \<open>Realized reasons are final\<close>

definition view_reason :: "event_view list \<Rightarrow> string \<Rightarrow> int \<Rightarrow> terminal_reason option" where
  "view_reason views i n =
     foldl (\<lambda>found (t, j, m). if j = i \<and> m = n \<and> terminal_events t \<noteq> None then terminal_events t else found)
       None views"

lemma view_reason_snoc:
  "view_reason (views @ [(t, j, m)]) i n =
     (if j = i \<and> m = n \<and> terminal_events t \<noteq> None then terminal_events t else view_reason views i n)"
  by (auto simp: view_reason_def)

lemma view_reason_Nil [simp]: "view_reason [] i n = None"
  by (simp add: view_reason_def)

lemma realized_reason_view:
  assumes "\<forall>ev \<in> set h. event_ok ev \<and> event_participant ev = a"
  shows "realized_reason a h i n = view_reason (map event_view h) i n"
  using assms
proof (induction h rule: rev_induct)
  case (snoc ev h)
  then have ok: "event_ok ev" "event_participant ev = a" by simp_all
  then have reason: "event_reason ev = terminal_events (event_type ev)" by (simp add: event_ok_def)
  have view: "map event_view (h @ [ev]) =
      map event_view h @ [(event_type ev, event_episode ev, event_sequence ev)]"
    by (simp add: event_view_def)
  show ?case
    using snoc ok unfolding view view_reason_snoc realized_reason_snoc by (auto simp: realizes_def reason)
qed simp

lemma view_reason_append:
  "view_reason (xs @ ys) i n = (case view_reason ys i n of None \<Rightarrow> view_reason xs i n | Some r \<Rightarrow> Some r)"
proof (induction ys rule: rev_induct)
  case (snoc v ys)
  obtain t j m where v: "v = (t, j, m)" by (cases v)
  have "view_reason (xs @ ys @ [v]) i n = view_reason ((xs @ ys) @ [v]) i n" by simp
  then show ?case unfolding v view_reason_snoc using snoc.IH by (auto split: option.splits)
qed simp

lemma view_reason_entry:
  "view_reason (entry_trace m en) i n = (if n = int m \<and> entry_id en = i then entry_end en else None)"
  by (cases "entry_end en"; cases "entry_action en")
    (simp_all add: view_reason_def entry_trace_def opening_event_def terminal_events_for)

lemma view_reason_trace:
  "view_reason (log_trace l) i n =
     (if 0 \<le> n \<and> n < int (length l) \<and> entry_id (l ! nat n) = i then entry_end (l ! nat n) else None)"
proof (induction l rule: rev_induct)
  case Nil
  then show ?case by (auto simp: log_trace_def)
next
  case (snoc en l)
  show ?case
  proof (cases "n = int (length l)")
    case True
    with snoc.IH show ?thesis
      by (auto simp: log_trace_snoc view_reason_append view_reason_entry split: option.splits)
  next
    case False
    then have "view_reason (entry_trace (length l) en) i n = None"
      by (simp add: view_reason_entry)
    with False snoc.IH show ?thesis
      by (auto simp: log_trace_snoc view_reason_append nth_append)
  qed
qed

lemma realized_log:
  assumes "tracked s"
  shows "realized_reason a (history_of s a) i n =
     (if 0 \<le> n \<and> n < int (length (logs_of s a)) \<and> entry_id (logs_of s a ! nat n) = i
      then entry_end (logs_of s a ! nat n) else None)"
proof -
  have ok: "snapshot_ok s" using assms by (simp add: tracked_def)
  have h: "\<forall>ev \<in> set (history_of s a). event_ok ev \<and> event_participant ev = a"
    using snapshot_ok_history [OF ok] by (simp add: history_ok_def)
  have "map event_view (history_of s a) = log_trace (logs_of s a)"
  proof (cases "dget (episode_results s) a")
    case None
    from tracked_none [OF assms None] show ?thesis by (simp add: log_trace_def)
  next
    case (Some st)
    then show ?thesis by (rule tracked_some(2) [OF assms])
  qed
  then show ?thesis unfolding realized_reason_view [OF h] by (simp add: view_reason_trace)
qed

text \<open>Episodes that are closed stay closed, and no episode is ever renamed.\<close>

definition log_grows :: "episode_entry list \<Rightarrow> episode_entry list \<Rightarrow> bool" where
  "log_grows l l' \<longleftrightarrow>
     length l \<le> length l'
     \<and> (\<forall>n < length l. entry_id (l' ! n) = entry_id (l ! n) \<and> entry_action (l' ! n) = entry_action (l ! n)
          \<and> (entry_end (l ! n) \<noteq> None \<longrightarrow> entry_end (l' ! n) = entry_end (l ! n)))"

lemma log_grows_refl [simp]: "log_grows l l"
  by (simp add: log_grows_def)

lemma log_grows_trans: "log_grows l m \<Longrightarrow> log_grows m k \<Longrightarrow> log_grows l k"
  unfolding log_grows_def by (metis order.trans order.strict_trans2)

lemma log_grows_snoc: "log_grows l (l @ [en])"
  by (simp add: log_grows_def nth_append)

lemma log_grows_close:
  assumes "l \<noteq> []" and "entry_end (last l) = None"
  shows "log_grows l (close_last reason l)"
proof -
  obtain k en where l: "l = k @ [en]" using assms(1) by (metis append_butlast_last_id)
  with assms(2) show ?thesis by (auto simp: log_grows_def close_last_def nth_append less_Suc_eq)
qed

lemma log_call_grows: "log_call op logs logs' \<Longrightarrow> log_grows (logs a) (logs' a)"
proof (induction rule: log_call.induct)
  case (log_reset_more now req logs logs' requests logs'')
  then show ?case by (blast intro: log_grows_trans)
next
  case (log_terminate logs req l now)
  then show ?case by (auto intro: log_grows_close)
next
  case (log_initialize logs req i now)
  then show ?case by (auto simp: log_grows_def)
qed (auto intro: log_grows_snoc)

lemma reach_grows:
  assumes "machine_reach episode_step w w'" and "tracked_world w"
  shows "(\<forall>a. log_grows (logs_of (snd w) a) (logs_of (snd w') a)) \<and> extends (snd w) (snd w')"
  using assms
proof (induction rule: machine_reach.induct)
  case (reach_step w1 op w2)
  then have t: "tracked_world w1" by (blast intro: episodes.reach_inv)
  from step_simulated [of "snd w1" op "fst w1" "fst w2" "snd w2"] t reach_step.hyps(2)
  have "snd w2 = snd w1 \<or> log_call op (logs_of (snd w1)) (logs_of (snd w2))"
    by (auto simp: tracked_world_def)
  then have "log_grows (logs_of (snd w1) a) (logs_of (snd w2) a)" for a
    using log_call_grows by auto
  with reach_step t step_tracked(2) show ?case
    by (meson extends_trans log_grows_trans)
qed simp

lemma realized_in_history:
  "realized_in (episode_history s) a i n = realized_reason a (history_of s a) i n"
  by (simp add: realized_in_def history_of_def split: option.splits)

lemma realized_persists:
  assumes "machine_reach episode_step w w'" and "tracked_world w"
    and "realized_in (episode_history (snd w)) a i n = Some reason"
  shows "realized_in (episode_history (snd w')) a i n = Some reason"
proof -
  have t: "tracked (snd w)" "tracked (snd w')"
    using assms(2) episodes.reach_inv [OF assms(1,2)] by (simp_all add: tracked_world_def)
  have n: "0 \<le> n" "n < int (length (logs_of (snd w) a))" "entry_id (logs_of (snd w) a ! nat n) = i"
    "entry_end (logs_of (snd w) a ! nat n) = Some reason"
    using assms(3) by (simp_all add: realized_in_history realized_log [OF t(1)] split: if_splits)
  moreover have "log_grows (logs_of (snd w) a) (logs_of (snd w') a)"
    using reach_grows [OF assms(1,2)] by blast
  moreover have "nat n < length (logs_of (snd w) a)" using n by linarith
  ultimately show ?thesis
    unfolding realized_in_history realized_log [OF t(2)] by (auto simp: log_grows_def)
qed

section \<open>A live episode can be followed by a fresh one\<close>

lemma digits_of_inject: "digits_of m = digits_of n \<Longrightarrow> m = n"
  using digits_of_value [of m] digits_of_value [of n] by metis

lemma allocated_id:
  "fst (allocate_episode_id a rt) =
     a @ ''-episode-'' @ digits_of (Suc (case dget (episode_counter rt) a of None \<Rightarrow> 0 | Some n \<Rightarrow> n))"
  "dget (episode_counter (snd (allocate_episode_id a rt))) a =
     Some (Suc (case dget (episode_counter rt) a of None \<Rightarrow> 0 | Some n \<Rightarrow> n))"
  by (simp_all add: allocate_episode_id_def Let_def)

lemma publish_episode_success:
  assumes "compiled_address a" and "state_ok st" and "\<forall>ev \<in> set evs. event_ok ev"
  shows "\<exists>rt' result. publish_episode rt s a st evs replace_history = (rt', Inr result)
     \<and> outcome_snapshot result = published s a st ((if replace_history then [] else history_of s a) @ evs)"
proof -
  obtain rt' r where run: "publish_episode rt s a st evs replace_history = (rt', r)" by fastforce
  then show ?thesis
    by (cases rule: publish_episode_cases) (use assms run in auto)
qed

definition follow_up :: "episode_state \<Rightarrow> 'r episode_world \<Rightarrow> bool" where
  "follow_up st w \<longleftrightarrow>
     (\<exists>st'. dget (episode_results (snd w)) (state_participant st) = Some st' \<and> state_status st' = RUNNING
        \<and> state_sequence st' = state_sequence st + 1 \<and> previous_episode st' = Some (state_episode st)
        \<and> state_episode st' \<noteq> state_episode st)"

lemma restart_attempt:
  assumes "compiled_address a" and "dget (episode_results s) a = Some st" and "state_ok st"
    and "state_participant st = a" and "state_status st = TERMINATED" and "now \<noteq> []"
  shows "\<exists>w. episode_step (Restart now \<lparr>request_participant = a, request_episode = None, request_reason = why\<rparr>)
       (rt, s) = Inr w
     \<and> (if fst (allocate_episode_id a rt) = state_episode st
         then snd w = s \<and> episode_counter (fst w) = episode_counter (snd (allocate_episode_id a rt))
         else follow_up st w)"
proof -
  obtain i rt1 where i: "allocate_episode_id a rt = (i, rt1)" by fastforce
  have "i \<noteq> []" using allocated_id(1) [of a rt] i by simp
  define new where "new = \<lparr>state_schema_version = STATE_SCHEMA_VERSION, state_participant = a,
      state_episode = i, state_sequence = state_sequence st + 1, state_status = RUNNING,
      state_reason = None, initialized_at = now, updated_at = now, terminated_at = None,
      last_control_action = RESTART, previous_episode = Some (state_episode st)\<rparr>"
  define evs where "evs = [\<lparr>event_type = EPISODE_RESTARTED, event_timestamp = now, event_participant = a,
       event_episode = i, event_sequence = state_sequence st + 1, event_reason = None,
       event_action = Some RESTART,
       event_details = [(''previous_episode_id'', state_episode st), (''reason'', why)]\<rparr>,
      \<lparr>event_type = EPISODE_RUNNING, event_timestamp = now, event_participant = a,
       event_episode = i, event_sequence = state_sequence st + 1,
       event_reason = None, event_action = None, event_details = []\<rparr>]"
  have a: "a \<noteq> []" using assms(1) by (rule compiled_address_nonempty)
  then have pred: "live_predecessor s a = Inr st"
    using assms by (simp add: live_predecessor_Inr)
  have call: "episode_restart now \<lparr>request_participant = a, request_episode = None, request_reason = why\<rparr> rt s
      = publish_episode rt1 s a new evs False"
    using pred assms(5) i
    by (simp add: episode_restart_def new_episode_def Let_def chosen_episode_id_def new_def evs_def)
  have evs: "\<forall>ev \<in> set evs. event_ok ev"
    using a \<open>i \<noteq> []\<close> assms(3,6) by (auto simp: evs_def event_ok_def state_ok_def)
  have new: "state_ok new \<longleftrightarrow> i \<noteq> state_episode st"
    using a \<open>i \<noteq> []\<close> assms(3,6) by (auto simp: new_def state_ok_def STATE_SCHEMA_VERSION_def)
  show ?thesis
  proof (cases "i = state_episode st")
    case True
    then have "publish_episode rt1 s a new evs False = (rt1, Inl (projl (make_episode_state new)))"
      using new make_episode_state_bad [of new] by (auto simp: publish_episode_def)
    with call True i show ?thesis by (simp add: episode_step_def)
  next
    case False
    with new have "state_ok new" by simp
    from publish_episode_success [OF assms(1) this evs, of rt1 s False]
    obtain rt2 result where run: "publish_episode rt1 s a new evs False = (rt2, Inr result)"
      "outcome_snapshot result = published s a new (history_of s a @ evs)" by auto
    then have "follow_up st (rt2, outcome_snapshot result)"
      using False assms(4) by (simp add: follow_up_def new_def)
    with call run False i show ?thesis by (simp add: episode_step_def)
  qed
qed

lemma restart_within_two:
  assumes "compiled_address a" and "dget (episode_results s) a = Some st" and "state_ok st"
    and "state_participant st = a" and "state_status st = TERMINATED" and "now \<noteq> []"
  shows "\<exists>k w. k \<le> 2 \<and> machine_run episode_step (rt, s) (replicate k (Restart now
       \<lparr>request_participant = a, request_episode = None, request_reason = why\<rparr>)) = Inr w \<and> follow_up st w"
proof -
  let ?op = "Restart now \<lparr>request_participant = a, request_episode = None, request_reason = why\<rparr>"
  obtain w where w: "episode_step ?op (rt, s) = Inr w"
    "if fst (allocate_episode_id a rt) = state_episode st
       then snd w = s \<and> episode_counter (fst w) = episode_counter (snd (allocate_episode_id a rt))
       else follow_up st w"
    using restart_attempt [OF assms] by blast
  show ?thesis
  proof (cases "fst (allocate_episode_id a rt) = state_episode st")
    case False
    with w show ?thesis by (intro exI [of _ 1] exI [of _ w]) simp
  next
    case True
    with w(2) obtain rt1 where rt1: "w = (rt1, s)"
      "episode_counter rt1 = episode_counter (snd (allocate_episode_id a rt))" by (cases w) auto
    have "fst (allocate_episode_id a rt1) \<noteq> state_episode st"
      unfolding True [symmetric] allocated_id(1) rt1(2) allocated_id(2) by (auto dest: digits_of_inject)
    then obtain w' where "episode_step ?op (rt1, s) = Inr w'" "follow_up st w'"
      using restart_attempt [OF assms, of why rt1] by auto
    with w(1) rt1(1) show ?thesis
      by (intro exI [of _ 2] exI [of _ w']) (simp add: numeral_2_eq_2)
  qed
qed

lemma terminate_success:
  assumes "tracked s" and "dget (episode_results s) a = Some st" and "state_status st \<noteq> TERMINATED"
    and "now \<noteq> []"
  shows "\<exists>rt' s' st'. episode_step (Terminate now
       \<lparr>terminate_participant = a, terminate_reason = reason, terminate_detail = detail\<rparr>) (rt, s) = Inr (rt', s')
     \<and> dget (episode_results s') a = Some st' \<and> state_ok st' \<and> state_participant st' = a
     \<and> state_status st' = TERMINATED \<and> state_reason st' = Some reason
     \<and> state_episode st' = state_episode st \<and> state_sequence st' = state_sequence st"
proof -
  have ok: "snapshot_ok s" using assms(1) by (simp add: tracked_def)
  have a: "compiled_address a" using assms(1,2) by (rule tracked_some(3))
  note st = snapshot_ok_result [OF ok assms(2)]
  define new where "new = \<lparr>state_schema_version = STATE_SCHEMA_VERSION, state_participant = a,
      state_episode = state_episode st, state_sequence = state_sequence st, state_status = TERMINATED,
      state_reason = Some reason, initialized_at = initialized_at st, updated_at = now,
      terminated_at = Some now, last_control_action = last_control_action st,
      previous_episode = previous_episode st\<rparr>"
  define ev where "ev = \<lparr>event_type = terminal_event_for reason, event_timestamp = now,
      event_participant = a, event_episode = state_episode st, event_sequence = state_sequence st,
      event_reason = Some reason, event_action = None, event_details = [(''detail'', detail)]\<rparr>"
  have pred: "live_predecessor s a = Inr st" using st assms(2) by (simp add: live_predecessor_Inr)
  then have call: "episode_terminate now
      \<lparr>terminate_participant = a, terminate_reason = reason, terminate_detail = detail\<rparr> rt s
      = publish_episode rt s a new [ev] False"
    using assms(3) by (simp add: episode_terminate_def Let_def new_def ev_def)
  have new: "state_ok new"
    using st assms(4) by (auto simp: new_def state_ok_def STATE_SCHEMA_VERSION_def)
  have ev: "\<forall>ev \<in> set [ev]. event_ok ev"
    using st assms(4) by (cases reason) (auto simp: ev_def event_ok_def state_ok_def)
  from publish_episode_success [OF a new ev, of rt s False]
  obtain rt' result where run: "publish_episode rt s a new [ev] False = (rt', Inr result)"
    "outcome_snapshot result = published s a new (history_of s a @ [ev])" by auto
  have "episode_step (Terminate now
      \<lparr>terminate_participant = a, terminate_reason = reason, terminate_detail = detail\<rparr>) (rt, s)
      = Inr (rt', outcome_snapshot result)"
    using call run by (simp add: episode_step_def)
  moreover have "dget (episode_results (outcome_snapshot result)) a = Some new" using run(2) by simp
  ultimately show ?thesis using new by (auto simp: new_def)
qed

section \<open>Batch resets over a recovered snapshot\<close>

text \<open>
  A reset that allocates the id the participant's current episode already has cannot succeed: the
  new state would name itself as its predecessor. It stays that way while other participants are reset.
\<close>

lemma reallocating_reset_fails:
  assumes "episode_reset now req rt s = (rt', r)" and "dget (episode_results s) (request_participant req) = Some st"
    and "fst (chosen_episode_id (request_episode req) (request_participant req) rt) = state_episode st"
  shows "refused s r"
proof -
  from assms(1) new_episode_result [of RESET False CannotResetTerminated now req rt s rt' r]
  show ?thesis using assms(2,3)
    by (auto simp: episode_reset_def opening_event_def opens_def opened_state_def state_ok_def)
qed

lemma reset_keeps_counter:
  assumes "episode_reset now req rt s = (rt', r)" and "request_participant req \<noteq> a"
  shows "dget (episode_counter rt') a = dget (episode_counter rt) a"
proof -
  have chosen: "dget (episode_counter rt1) a = dget (episode_counter rt) a"
    if "chosen_episode_id requested (request_participant req) rt = (i, rt1)" for requested i rt1
    using that assms(2) by (auto simp: chosen_episode_id_def allocate_episode_id_def Let_def split: option.splits list.splits)
  have "episode_counter rt' = episode_counter rt1"
    if "publish_episode rt1 s b st evs replace_history = (rt', r)" for rt1 b st evs replace_history
    using that by (cases rule: publish_episode_cases)
  with assms(1) chosen show ?thesis
    by (auto simp: episode_reset_def new_episode_def Let_def split: sum.splits if_splits prod.splits)
qed

lemma reset_keeps_others:
  assumes "episode_reset now req rt s = (rt', Inr result)" and "outcome_success result" and "request_participant req \<noteq> a"
  shows "dget (episode_results (outcome_snapshot result)) a = dget (episode_results s) a"
  using assms new_episode_result [of RESET False CannotResetTerminated now req rt s rt' "Inr result"]
  by (auto simp: episode_reset_def opening_event_def opens_def refused_def)

definition reallocates :: "address \<Rightarrow> string \<times> new_episode_request \<Rightarrow> bool" where
  "reallocates a = (\<lambda>(now, req). request_participant req = a \<and> request_episode req \<in> {None, Some []})"

lemma recovered_batch_fails:
  assumes "reset_each requests rt s diagnostics changed = (rt', r)"
    and "distinct (map (request_participant \<circ> snd) requests)" and "\<exists>p \<in> set requests. reallocates a p"
    and "dget (episode_results s) a = Some st" and "state_episode st = a @ ''-episode-'' @ digits_of 1"
    and "dget (episode_counter rt) a = None"
  shows "\<not> (\<exists>result. r = Inr result \<and> outcome_success result)"
  using assms(1-4,6)
proof (induction requests arbitrary: rt s diagnostics changed)
  case (Cons p requests)
  obtain now req where p: "p = (now, req)" by (cases p)
  obtain rt1 r1 where one: "episode_reset now req rt s = (rt1, r1)" by fastforce
  show ?case
  proof (cases "\<exists>result. r1 = Inr result \<and> outcome_success result")
    case False
    with Cons.prems(1) p one show ?thesis by (cases r1) auto
  next
    case True
    then obtain result where result: "r1 = Inr result" "outcome_success result" by blast
    have rest: "reset_each requests rt1 (outcome_snapshot result) (diagnostics @ outcome_diagnostics result)
        (changed @ outcome_changed result) = (rt', r)"
      using Cons.prems(1) p one result by simp
    show ?thesis
    proof (cases "request_participant req = a")
      case other: False
      then have "\<exists>p \<in> set requests. reallocates a p" using Cons.prems(3) p by (auto simp: reallocates_def)
      with Cons.IH [OF rest] Cons.prems(2,4,5) other result reset_keeps_others [OF one [unfolded result(1)]]
        reset_keeps_counter [OF one] show ?thesis by simp
    next
      case same: True
      have "q = p" if "q \<in> set (p # requests)" "reallocates a q" for q
        using that Cons.prems(2) same p by (force simp: reallocates_def)
      with Cons.prems(3) have "reallocates a p" by blast
      then have "fst (chosen_episode_id (request_episode req) a rt) = state_episode st"
        using Cons.prems(5) assms(5) p allocated_id(1) [of a rt]
        by (auto simp: reallocates_def chosen_episode_id_def)
      with reallocating_reset_fails [OF one] Cons.prems(4) same result show ?thesis by (simp add: refused_def)
    qed
  qed
qed simp

lemma recovered_batch_refused:
  assumes "dget (episode_results s) a = Some st" and "state_episode st = a @ ''-episode-'' @ digits_of 1"
    and "\<exists>p \<in> set requests. reallocates a p"
  shows "\<exists>r. episode_call (ResetMany requests) fresh_runtime s = (fresh_runtime, r) \<and> refused s r"
proof -
  obtain rt' r where call: "reset_many False requests fresh_runtime s = (rt', r)" by fastforce
  have "\<not> (\<exists>result. r = Inr result \<and> outcome_success result)"
  proof (cases "distinct (map (request_participant \<circ> snd) requests)")
    case False
    with call show ?thesis by (auto simp: reset_many_def reset_many_atomically_def episode_reject_def)
  next
    case True
    obtain rt1 r1 where each: "reset_each requests fresh_runtime s [] [] = (rt1, r1)" by fastforce
    have "\<not> (\<exists>result. r1 = Inr result \<and> outcome_success result)"
      by (rule recovered_batch_fails [OF each True assms(3,1,2)]) (simp add: fresh_runtime_def)
    with call each True show ?thesis
      by (cases r1) (auto simp: reset_many_def reset_many_atomically_def split: if_splits)
  qed
  with reset_many_result [OF call] call show ?thesis by auto
qed

lemma log_reset_many_each:
  assumes "log_call (ResetMany requests) logs logs'" and "distinct (map (request_participant \<circ> snd) requests)"
  shows "if a \<in> request_participant ` snd ` set requests
     then \<exists>i. logs' a = logs a @ [Entry i RESET None] else logs' a = logs a"
  using assms
proof (induction requests arbitrary: logs)
  case Nil
  then show ?case by (auto elim: log_reset_manyE)
next
  case (Cons p requests)
  obtain now req where p: "p = (now, req)" by (cases p)
  from Cons.prems(1) p obtain logs1 where one: "log_call (Reset now req) logs logs1"
    and rest: "log_call (ResetMany requests) logs1 logs'" by (auto elim: log_reset_manyE)
  from one obtain i where logs1: "logs1 = logs(request_participant req := logs (request_participant req) @ [Entry i RESET None])"
    by (auto elim: log_resetE)
  have IH: "if a \<in> request_participant ` snd ` set requests
     then \<exists>i. logs' a = logs1 a @ [Entry i RESET None] else logs' a = logs1 a"
    using rest Cons.prems(2) by (intro Cons.IH) simp_all
  show ?case
  proof (cases "a = request_participant req")
    case True
    then have "a \<notin> request_participant ` snd ` set requests" using Cons.prems(2) p by (auto simp: image_image)
    with IH True logs1 p show ?thesis by auto
  next
    case False
    then have eqs: "a \<in> request_participant ` snd ` set (p # requests) \<longleftrightarrow> a \<in> request_participant ` snd ` set requests"
      "logs1 a = logs a" using p logs1 by auto
    from IH show ?thesis unfolding eqs .
  qed
qed

section \<open>Properties\<close>

text \<open>C26: whatever operations the participants' runtime performs, also when it is started again over
  the stored snapshot, the checker finds no violation, and every history is exactly the one its log of
  episodes calls for.\<close>

theorem episode_runs_stay_clean:
  assumes "machine_reach episode_step (empty_episodes rest) (rt, s)"
  shows "episode_snapshot_violations (episode_results s) (episode_history s) = []
     \<and> (\<forall>a. map event_view (history_of s a) = log_trace (logs_of s a))"
proof -
  have t: "tracked s" using assms by (rule reachable_tracked)
  have "map event_view (history_of s a) = log_trace (logs_of s a)" for a
    using tracked_some(2) [OF t, of a] tracked_none [OF t, of a]
    by (cases "dget (episode_results s) a") (simp_all add: log_trace_def)
  with t show ?thesis by (simp add: tracked_def snapshot_ok_def episode_snapshot_violations_Nil)
qed

text \<open>C25: an operation that succeeds performs its step of the abstract episode log, one that is
  rejected returns the snapshot it was given, and the only other outcome is an exception.\<close>

theorem episode_operations_refine:
  assumes "machine_reach episode_step (empty_episodes rest) (rt, s)" and "episode_call op rt s = (rt', r)"
  shows "(\<exists>e. r = Inl e) \<or> (\<exists>result. r = Inr result \<and>
     (if outcome_success result then log_call op (logs_of s) (logs_of (outcome_snapshot result))
      else outcome_snapshot result = s))"
  using call_simulated [OF reachable_tracked [OF assms(1)] assms(2)]
  by (auto simp: simulated_def refused_def)

text \<open>Closure records that agree with the realized terminal reasons of a snapshot keep agreeing
  with them, whatever operations follow.\<close>

theorem closure_records_stay_realized:
  assumes "machine_reach episode_step (empty_episodes rest) (rt, s)"
    and "machine_reach episode_step (rt, s) (rt', s')"
    and "episode_closure_violations closures (episode_history s) = []"
  shows "episode_closure_violations closures (episode_history s') = []"
proof -
  have t: "tracked_world (rt, s)" using reachable_tracked [OF assms(1)] by (simp add: tracked_world_def)
  have t': "tracked s'" using episodes.reach_inv [OF assms(2) t] by (simp add: tracked_world_def)
  have d: "dict_ok (episode_history s)" "dict_ok (episode_history s')"
    using t t' by (simp_all add: tracked_world_def tracked_def snapshot_ok_def)
  have "realized_in (episode_history s') a i n = Some reason"
    if "realized_in (episode_history s) a i n = Some reason" for a i n reason
    using realized_persists [OF assms(2) t] that by simp
  with assms(3) show ?thesis
    unfolding episode_closure_violations_Nil [OF d(1)] episode_closure_violations_Nil [OF d(2)]
      closures_realized_def by blast
qed

text \<open>C27: a live episode can be terminated, and after at most two calls of restart the participant runs
  a fresh episode that links to it.\<close>

theorem live_episode_can_be_renewed:
  assumes "machine_reach episode_step (empty_episodes rest) (rt, s)"
    and "dget (episode_results s) a = Some st" and "state_status st \<noteq> TERMINATED"
    and "now \<noteq> []" and "later \<noteq> []"
  shows "\<exists>k w. k \<le> 2 \<and> machine_run episode_step (rt, s)
       (Terminate now \<lparr>terminate_participant = a, terminate_reason = reason, terminate_detail = detail\<rparr>
        # replicate k (Restart later
            \<lparr>request_participant = a, request_episode = None, request_reason = why\<rparr>)) = Inr w
     \<and> follow_up st w"
proof -
  have t: "tracked s" using assms(1) by (rule reachable_tracked)
  from terminate_success [OF t assms(2,3,4), of reason detail rt] obtain rt1 s1 st1 where
    one: "episode_step (Terminate now
       \<lparr>terminate_participant = a, terminate_reason = reason, terminate_detail = detail\<rparr>) (rt, s) = Inr (rt1, s1)"
    and st1: "dget (episode_results s1) a = Some st1" "state_ok st1" "state_participant st1 = a"
      "state_status st1 = TERMINATED" "state_episode st1 = state_episode st" "state_sequence st1 = state_sequence st"
    by blast
  have "state_participant st = a"
    using t assms(2) by (intro snapshot_ok_result(3)) (simp_all add: tracked_def)
  then have same: "follow_up st1 w \<longleftrightarrow> follow_up st w" for w :: "'a episode_world"
    using st1 by (simp add: follow_up_def)
  from restart_within_two [OF tracked_some(3) [OF t assms(2)] st1(1-4) assms(5), of rt1 why]
  obtain k w where "k \<le> 2" "machine_run episode_step (rt1, s1) (replicate k (Restart later
      \<lparr>request_participant = a, request_episode = None, request_reason = why\<rparr>)) = Inr w" "follow_up st1 w"
    by blast
  with one same show ?thesis by (intro exI [of _ k] exI [of _ w]) simp
qed

text \<open>C28: a batch reset is atomic. Either every participant it names gets one reset episode and no
  other log changes, or neither the snapshot nor the runtime object changes.\<close>

theorem reset_many_is_atomic:
  assumes "machine_reach episode_step (empty_episodes rest) (rt, s)"
    and "reset_many native requests rt s = (rt', r)"
  shows "rt' = rt \<and> ((\<exists>e. r = Inl e) \<or> (\<exists>result. r = Inr result \<and> \<not> outcome_success result \<and> outcome_snapshot result = s))
     \<or> (\<exists>result. r = Inr result \<and> outcome_success result \<and> distinct (map (request_participant \<circ> snd) requests)
          \<and> (\<forall>a. if a \<in> request_participant ` snd ` set requests
                 then \<exists>i. logs_of (outcome_snapshot result) a = logs_of s a @ [Entry i RESET None]
                 else logs_of (outcome_snapshot result) a = logs_of s a))"
proof -
  have t: "tracked s" using assms(1) by (rule reachable_tracked)
  consider "rt' = rt \<and> refused s r" | result where "r = Inr result" "outcome_success result"
    using reset_many_result [OF assms(2)] by blast
  then show ?thesis
  proof cases
    case 1
    then show ?thesis by (simp add: refused_def)
  next
    case (2 result)
    have d: "distinct (map (request_participant \<circ> snd) requests)"
      using assms(2) 2 by (auto simp: reset_many_def reset_many_atomically_def episode_reject_def split: if_splits)
    have "log_call (ResetMany requests) (logs_of s) (logs_of (outcome_snapshot result))"
      using reset_many_simulated [OF t assms(2)] 2 by (auto simp: simulated_def refused_def)
    from log_reset_many_each [OF this d] 2 d show ?thesis by blast
  qed
qed

text \<open>C29: the counter of episode ids is part of the runtime object only. When the object is created
  again over any snapshot in which the current episode of a participant has the id the participant was
  allocated first, every batch reset that names the participant without an episode id raises or is
  rejected, whoever else it names; and since a batch that fails puts the counter back, this stays so
  through any sequence of such batches, which changes neither the snapshot nor the object.\<close>

theorem recovered_batch_reset_never_succeeds:
  assumes "dget (episode_results s) a = Some st" and "state_episode st = a @ ''-episode-'' @ digits_of 1"
    and "\<forall>requests \<in> set batches. \<exists>p \<in> set requests. reallocates a p"
  shows "(\<forall>requests \<in> set batches. \<exists>r. episode_call (ResetMany requests) fresh_runtime s = (fresh_runtime, r)
        \<and> (case r of Inl e \<Rightarrow> True | Inr result \<Rightarrow> \<not> outcome_success result \<and> outcome_snapshot result = s))
     \<and> machine_run episode_step (rt, s) (NewRuntime # map ResetMany batches) = Inr (fresh_runtime, s)"
proof -
  have refused: "\<exists>r. episode_call (ResetMany requests) fresh_runtime s = (fresh_runtime, r) \<and> refused s r"
    if "requests \<in> set batches" for requests
    using recovered_batch_refused [OF assms(1,2)] assms(3) that by blast
  then have "episode_step (ResetMany requests) (fresh_runtime, s) = Inr (fresh_runtime, s)" if "requests \<in> set batches" for requests
    using that by (fastforce simp: episode_step_def refused_def)
  then have "machine_run episode_step (fresh_runtime, s) (map ResetMany batches) = Inr (fresh_runtime, s)"
    by (induction batches) simp_all
  moreover have "episode_step NewRuntime (rt, s) = Inr (fresh_runtime, s)" by (simp add: episode_step_def)
  ultimately show ?thesis using refused by (fastforce simp: refused_def split: sum.splits)
qed

section \<open>Witnesses\<close>

definition sample_initialize :: episode_op where
  "sample_initialize =
     Initialize ''2026-01-01T00:00:00Z'' \<lparr>initialize_participant = ''participant.red'', initialize_episode = None\<rparr>"

definition sample_terminate :: episode_op where
  "sample_terminate =
     Terminate ''2026-01-01T00:00:01Z''
       \<lparr>terminate_participant = ''participant.red'', terminate_reason = COMPLETED, terminate_detail = ''done''\<rparr>"

definition sample_episode_world :: "unit episode_world" where
  "sample_episode_world = projr (machine_run episode_step (empty_episodes ()) [sample_initialize])"

definition sample_closed_world :: "unit episode_world" where
  "sample_closed_world = projr (machine_run episode_step (empty_episodes ()) [sample_initialize, sample_terminate])"

lemma sample_runs:
  "machine_run episode_step (empty_episodes ()) [sample_initialize] = Inr sample_episode_world"
  "machine_run episode_step (empty_episodes ()) [sample_initialize, sample_terminate] = Inr sample_closed_world"
  by code_simp+

lemma sample_reached:
  "machine_reach episode_step (empty_episodes ()) (fst sample_episode_world, snd sample_episode_world)"
  "machine_reach episode_step (empty_episodes ()) (fst sample_closed_world, snd sample_closed_world)"
  using sample_runs [THEN machine_run_reach] by simp_all

theorem episode_runs_stay_clean_witness:
  "episode_snapshot_violations (episode_results (snd sample_closed_world)) (episode_history (snd sample_closed_world)) = []
   \<and> map event_view (history_of (snd sample_closed_world) ''participant.red'')
       = [(EPISODE_INITIALIZED, ''participant.red-episode-1'', 0), (EPISODE_RUNNING, ''participant.red-episode-1'', 0),
          (EPISODE_COMPLETED, ''participant.red-episode-1'', 0)]"
proof -
  have "map event_view (history_of (snd sample_closed_world) ''participant.red'')
       = [(EPISODE_INITIALIZED, ''participant.red-episode-1'', 0), (EPISODE_RUNNING, ''participant.red-episode-1'', 0),
          (EPISODE_COMPLETED, ''participant.red-episode-1'', 0)]"
    by code_simp
  with episode_runs_stay_clean [OF sample_reached(2)] show ?thesis by blast
qed

theorem episode_operations_refine_witness:
  "\<exists>rt' result. episode_call sample_terminate (fst sample_episode_world) (snd sample_episode_world) = (rt', Inr result)
     \<and> log_call sample_terminate (logs_of (snd sample_episode_world)) (logs_of (outcome_snapshot result))"
proof -
  have run: "(case episode_call sample_terminate (fst sample_episode_world) (snd sample_episode_world) of
      (rt', Inr result) \<Rightarrow> outcome_success result | _ \<Rightarrow> False)"
    by code_simp
  obtain rt' r where call: "episode_call sample_terminate (fst sample_episode_world) (snd sample_episode_world) = (rt', r)"
    by fastforce
  with run obtain result where r: "r = Inr result" "outcome_success result" by (cases r) auto
  from episode_operations_refine [OF sample_reached(1) call] r call show ?thesis by auto
qed

definition sample_closures :: closure_records where
  "sample_closures =
     [(''participant.red'', [\<lparr>closure_participant = ''participant.red'',
        closure_episode = ''participant.red-episode-1'', closure_sequence = 0, source_signal = RL_TERMINATION,
        mapped_reason = COMPLETED, deriving_authority = ''backend'', evidence_refs = [''step-7''],
        derived_at = ''2026-01-01T00:00:02Z'', closure_schema_version = ''participant-episode-closure-record/v1''\<rparr>])]"

definition sample_restart :: episode_op where
  "sample_restart =
     Restart ''2026-01-01T00:00:03Z'' \<lparr>request_participant = ''participant.red'', request_episode = None,
       request_reason = ''again''\<rparr>"

definition sample_restarted_world :: "unit episode_world" where
  "sample_restarted_world = projr (machine_run episode_step sample_closed_world [sample_restart])"

theorem closure_records_stay_realized_witness:
  "episode_closure_violations sample_closures (episode_history (snd sample_restarted_world)) = []
   \<and> length (history_of (snd sample_restarted_world) ''participant.red'') = 5"
proof -
  have "machine_run episode_step sample_closed_world [sample_restart] = Inr sample_restarted_world" by code_simp
  then have "machine_reach episode_step (fst sample_closed_world, snd sample_closed_world)
      (fst sample_restarted_world, snd sample_restarted_world)" by (simp only: prod.collapse machine_run_reach)
  moreover have "episode_closure_violations sample_closures (episode_history (snd sample_closed_world)) = []"
    by code_simp
  moreover have "length (history_of (snd sample_restarted_world) ''participant.red'') = 5" by code_simp
  ultimately show ?thesis using closure_records_stay_realized [OF sample_reached(2)] by blast
qed

definition sample_live_state :: episode_state where
  "sample_live_state = the (dget (episode_results (snd sample_episode_world)) ''participant.red'')"

theorem live_episode_can_be_renewed_witness:
  "\<exists>k w. k \<le> 2 \<and> machine_run episode_step (fst sample_episode_world, snd sample_episode_world)
     (Terminate ''t1'' \<lparr>terminate_participant = ''participant.red'', terminate_reason = TRUNCATED, terminate_detail = []\<rparr>
      # replicate k (Restart ''t2'' \<lparr>request_participant = ''participant.red'', request_episode = None,
          request_reason = []\<rparr>)) = Inr w \<and> follow_up sample_live_state w"
proof -
  have "dget (episode_results (snd sample_episode_world)) ''participant.red'' = Some sample_live_state"
    "state_status sample_live_state \<noteq> TERMINATED" by code_simp+
  then show ?thesis by (intro live_episode_can_be_renewed [OF sample_reached(1)]) simp_all
qed

definition sample_batch :: "(string \<times> new_episode_request) list" where
  "sample_batch =
     [(''t1'', \<lparr>request_participant = ''participant.red'', request_episode = None, request_reason = []\<rparr>),
      (''t1'', \<lparr>request_participant = ''participant.blue'', request_episode = None, request_reason = []\<rparr>)]"

theorem reset_many_is_atomic_witness:
  "fst (reset_many False sample_batch (fst sample_episode_world) (snd sample_episode_world)) = fst sample_episode_world"
proof -
  obtain rt' r where run: "reset_many False sample_batch (fst sample_episode_world) (snd sample_episode_world) = (rt', r)"
    by fastforce
  have "\<not> (case snd (reset_many False sample_batch (fst sample_episode_world) (snd sample_episode_world)) of
      Inl e \<Rightarrow> False | Inr result \<Rightarrow> outcome_success result)"
    by code_simp
  with run have "\<nexists>result. r = Inr result \<and> outcome_success result" by auto
  with reset_many_is_atomic [OF sample_reached(1) run] have "rt' = fst sample_episode_world" by blast
  with run show ?thesis by simp
qed

definition sample_late_batch :: "(string \<times> new_episode_request) list" where
  "sample_late_batch =
     [(''t1'', \<lparr>request_participant = ''participant.blue'', request_episode = Some ''blue-2'', request_reason = []\<rparr>),
      (''t1'', \<lparr>request_participant = ''participant.red'', request_episode = None, request_reason = []\<rparr>)]"

definition sample_two_world :: "unit episode_world" where
  "sample_two_world = projr (machine_run episode_step sample_episode_world
     [Initialize ''t0'' \<lparr>initialize_participant = ''participant.blue'', initialize_episode = None\<rparr>])"

theorem recovered_batch_reset_never_succeeds_witness:
  "machine_run episode_step sample_two_world
     (NewRuntime # map ResetMany [sample_late_batch, tl sample_late_batch, sample_late_batch])
     = Inr (fresh_runtime, snd sample_two_world)"
proof -
  have "dget (episode_results (snd sample_two_world)) ''participant.red'' = Some sample_live_state"
    "state_episode sample_live_state = ''participant.red'' @ ''-episode-'' @ digits_of 1" by code_simp+
  from recovered_batch_reset_never_succeeds [OF this, of "[sample_late_batch, tl sample_late_batch, sample_late_batch]"
      "fst sample_two_world"]
  show ?thesis by (simp add: sample_late_batch_def reallocates_def)
qed

end
