(* ===== verification/OperationLifecycle.thy ===== *)
theory OperationLifecycle
  imports Addressing JsonPointer
begin

text \<open>
  The lifecycle of a control-plane operation (raes_contracts/operation_lifecycle.py), portable
  diagnostics (raes_contracts/diagnostics.py) and the receipt and status of an operation
  (raes_contracts/runtime_state.py). The constructor of a status completes and checks its
  diagnostics, so a status exists only with the diagnostic that its state reserves.
\<close>

section \<open>States and transitions\<close>

datatype operation_state = ACCEPTED | RUNNING | SUCCEEDED | FAILED | CANCELLED | INDETERMINATE

datatype operation_kind =
  PROVISIONING | ORCHESTRATION | EVALUATION | WORKFLOW_CANCELLATION | WORKFLOW_TIMEOUT_RECONCILIATION
| PARTICIPANT_ACTION | PARTICIPANT_CONTROL | PARTICIPANT_CROSSING | COMPOSITION_PHASE
| INDETERMINATE_RESOLUTION

datatype operation_domain = DOMAIN_PROVISIONING | DOMAIN_ORCHESTRATION | DOMAIN_EVALUATION | DOMAIN_PARTICIPANT

fun operation_state_value :: "operation_state \<Rightarrow> string" where
  "operation_state_value ACCEPTED = ''accepted''"
| "operation_state_value RUNNING = ''running''"
| "operation_state_value SUCCEEDED = ''succeeded''"
| "operation_state_value FAILED = ''failed''"
| "operation_state_value CANCELLED = ''cancelled''"
| "operation_state_value INDETERMINATE = ''indeterminate''"

fun operation_kind_value :: "operation_kind \<Rightarrow> string" where
  "operation_kind_value PROVISIONING = ''provisioning''"
| "operation_kind_value ORCHESTRATION = ''orchestration''"
| "operation_kind_value EVALUATION = ''evaluation''"
| "operation_kind_value WORKFLOW_CANCELLATION = ''workflow-cancellation''"
| "operation_kind_value WORKFLOW_TIMEOUT_RECONCILIATION = ''workflow-timeout-reconciliation''"
| "operation_kind_value PARTICIPANT_ACTION = ''participant-action''"
| "operation_kind_value PARTICIPANT_CONTROL = ''participant-control''"
| "operation_kind_value PARTICIPANT_CROSSING = ''participant-crossing''"
| "operation_kind_value COMPOSITION_PHASE = ''composition-phase''"
| "operation_kind_value INDETERMINATE_RESOLUTION = ''indeterminate-resolution''"

definition LEGAL_OPERATION_TRANSITIONS :: "(operation_state \<times> operation_state) set" where
  "LEGAL_OPERATION_TRANSITIONS =
     {(ACCEPTED, RUNNING), (ACCEPTED, CANCELLED), (ACCEPTED, INDETERMINATE), (RUNNING, SUCCEEDED),
      (RUNNING, FAILED), (RUNNING, CANCELLED), (RUNNING, INDETERMINATE)}"

definition is_operation_transition_allowed :: "operation_state \<Rightarrow> operation_state \<Rightarrow> bool" where
  "is_operation_transition_allowed source target \<longleftrightarrow> (source, target) \<in> LEGAL_OPERATION_TRANSITIONS"

section \<open>Errors\<close>

datatype operation_error =
  InvalidContext
| InvalidDiagnostic
| LegalTransitionHasNoDiagnostic
| NoTerminalDiagnostic
| NotCanonicalDiagnostic
| MissingTerminalDiagnostic
| InvalidChangedAddress
| RepeatedChangedAddress

section \<open>Diagnostics\<close>

datatype severity = SEVERITY_ERROR | SEVERITY_WARNING | SEVERITY_INFO

record op_diagnostic =
  op_code :: string
  op_domain :: string
  op_address :: string
  op_message :: string
  op_severity :: severity

text \<open>Words of lower-case letters and digits with single separators between them.\<close>

fun separated_words :: "(char \<Rightarrow> bool) \<Rightarrow> bool \<Rightarrow> string \<Rightarrow> bool" where
  "separated_words separator word [] = word"
| "separated_words separator word (c # cs) =
     (if lower_alnum c then separated_words separator True cs
      else word \<and> separator c \<and> separated_words separator False cs)"

text \<open>\<open>^(?:/(?:[^~/]|~[01])*)*$\<close>.\<close>

fun pointer_tail :: "string \<Rightarrow> bool" where
  "pointer_tail [] = True"
| "pointer_tail (c # cs) =
     (if c = CHR ''~'' then (case cs of [] \<Rightarrow> False | d # ds \<Rightarrow> d \<in> {CHR ''0'', CHR ''1''} \<and> pointer_tail ds)
      else pointer_tail cs)"

definition pointer_text :: "string \<Rightarrow> bool" where
  "pointer_text s \<longleftrightarrow> (case s of [] \<Rightarrow> True | c # cs \<Rightarrow> c = CHR ''/'' \<and> pointer_tail cs)"

definition diagnostic_model_valid :: "op_diagnostic \<Rightarrow> bool" where
  "diagnostic_model_valid d \<longleftrightarrow>
     separated_words (\<lambda>c. c = CHR ''.'' \<or> c = CHR ''-'') False (op_code d) \<and> length (op_code d) \<le> 128
     \<and> separated_words (\<lambda>c. c = CHR ''-'') False (op_domain d) \<and> length (op_domain d) \<le> 64
     \<and> pointer_text (op_address d) \<and> length (op_address d) \<le> 4096
     \<and> op_message d \<noteq> [] \<and> length (op_message d) \<le> 512"

definition portable_diagnostic :: "op_diagnostic \<Rightarrow> operation_error + op_diagnostic" where
  "portable_diagnostic d =
     (if diagnostic_model_valid d then Inr d
      else (let pointer = (if op_address d = [] then [] else CHR ''/'' # escape_token (op_address d));
                d' = d\<lparr>op_address := pointer\<rparr> in
            ebind (require (diagnostic_model_valid d') InvalidDiagnostic) (\<lambda>_. Inr d')))"

definition portable_operation_diagnostics ::
    "op_diagnostic list \<Rightarrow> operation_error + op_diagnostic list" where
  "portable_operation_diagnostics ds = collect portable_diagnostic ds"

definition lifecycle_diagnostic :: "string \<Rightarrow> string \<Rightarrow> op_diagnostic" where
  "lifecycle_diagnostic code message =
     \<lparr>op_code = code, op_domain = ''runtime'', op_address = ''/state'', op_message = message,
      op_severity = SEVERITY_ERROR\<rparr>"

definition operation_transition_diagnostic ::
    "operation_state \<Rightarrow> operation_state \<Rightarrow> operation_error + op_diagnostic" where
  "operation_transition_diagnostic source target =
     (if is_operation_transition_allowed source target then Inl LegalTransitionHasNoDiagnostic
      else Inr (lifecycle_diagnostic ''runtime.control-plane.operation-transition-invalid''
             ''Operation lifecycle transition is not permitted.''))"

definition TERMINAL_OPERATION_DIAGNOSTICS :: "(operation_state, string \<times> string) dict" where
  "TERMINAL_OPERATION_DIAGNOSTICS =
     [(FAILED, ''runtime.control-plane.operation-failed'', ''Operation completed with a known failure.''),
      (CANCELLED, ''runtime.control-plane.operation-cancelled'',
         ''Operation was cancelled without an unclassified backend effect.''),
      (INDETERMINATE, ''runtime.control-plane.operation-indeterminate'',
         ''Operation outcome could not be established; explicit resolution is required.'')]"

definition terminal_state_of_code :: "string \<Rightarrow> operation_state option" where
  "terminal_state_of_code code = dget (map (\<lambda>(state, c, m). (c, state)) TERMINAL_OPERATION_DIAGNOSTICS) code"

definition operation_terminal_diagnostic :: "operation_state \<Rightarrow> operation_error + op_diagnostic" where
  "operation_terminal_diagnostic state =
     (case dget TERMINAL_OPERATION_DIAGNOSTICS state of
        None \<Rightarrow> Inl NoTerminalDiagnostic
      | Some (code, message) \<Rightarrow> Inr (lifecycle_diagnostic code message))"

text \<open>The check of one diagnostic whose code may be reserved for a terminal state.\<close>

definition check_reserved_diagnostic :: "operation_state \<Rightarrow> op_diagnostic \<Rightarrow> operation_error + unit" where
  "check_reserved_diagnostic state d =
     (case terminal_state_of_code (op_code d) of
        None \<Rightarrow> Inr ()
      | Some reserved \<Rightarrow>
          if reserved \<noteq> state then Inl NotCanonicalDiagnostic
          else ebind (operation_terminal_diagnostic reserved) (\<lambda>stable.
                 require (d = stable) NotCanonicalDiagnostic))"

definition require_operation_terminal_diagnostics ::
    "operation_state \<Rightarrow> op_diagnostic list \<Rightarrow> operation_error + op_diagnostic list" where
  "require_operation_terminal_diagnostics state ds =
     ebind (echeck (check_reserved_diagnostic state) ds) (\<lambda>_.
       (if dget TERMINAL_OPERATION_DIAGNOSTICS state \<noteq> None then
          ebind (operation_terminal_diagnostic state) (\<lambda>stable.
          ebind (require (count_list ds stable = 1) MissingTerminalDiagnostic) (\<lambda>_. Inr ds))
        else Inr ds))"

definition operation_terminal_diagnostics ::
    "operation_state \<Rightarrow> op_diagnostic list \<Rightarrow> operation_error + op_diagnostic list" where
  "operation_terminal_diagnostics state ds =
     (if state = SUCCEEDED then require_operation_terminal_diagnostics state ds
      else ebind (operation_terminal_diagnostic state) (\<lambda>stable.
             require_operation_terminal_diagnostics state (if stable \<in> set ds then ds else ds @ [stable])))"

section \<open>Contexts, receipts and statuses\<close>

record admission_context =
  actor_id :: string
  authorization_scope :: "string list"
  target_scope :: string
  run_scope :: string
  op_kind :: operation_kind
  request_commitment :: string
  parent_operation_id :: "string option"

definition context_string :: "string \<Rightarrow> bool" where
  "context_string s \<longleftrightarrow> s \<noteq> [] \<and> length s \<le> 256"

definition lower_hex :: "char \<Rightarrow> bool" where
  "lower_hex c \<longleftrightarrow> CHR ''0'' \<le> c \<and> c \<le> CHR ''9'' \<or> CHR ''a'' \<le> c \<and> c \<le> CHR ''f''"

definition commitment_text :: "string \<Rightarrow> bool" where
  "commitment_text s \<longleftrightarrow> take 7 s = ''sha256:'' \<and> length s = 71 \<and> list_all lower_hex (drop 7 s)"

definition make_admission_context :: "admission_context \<Rightarrow> operation_error + admission_context" where
  "make_admission_context c =
     ebind (require (context_string (actor_id c) \<and> list_all context_string (authorization_scope c)
         \<and> 1 \<le> length (authorization_scope c) \<and> length (authorization_scope c) \<le> 64
         \<and> context_string (target_scope c) \<and> context_string (run_scope c)
         \<and> commitment_text (request_commitment c)
         \<and> (case parent_operation_id c of None \<Rightarrow> True | Some p \<Rightarrow> context_string p)) InvalidContext) (\<lambda>_.
     ebind (require (distinct (authorization_scope c)) InvalidContext) (\<lambda>_. Inr c))"

record operation_receipt =
  receipt_operation_id :: string
  receipt_domain :: operation_domain
  receipt_submitted_at :: string
  receipt_accepted :: bool
  receipt_context :: admission_context
  receipt_schema_version :: string
  receipt_diagnostics :: "op_diagnostic list"

record operation_status =
  status_operation_id :: string
  status_domain :: operation_domain
  status_state :: operation_state
  status_submitted_at :: string
  status_updated_at :: string
  status_context :: admission_context
  status_schema_version :: string
  status_diagnostics :: "op_diagnostic list"
  status_changed_addresses :: "address list"

definition make_operation_receipt :: "operation_receipt \<Rightarrow> operation_error + operation_receipt" where
  "make_operation_receipt r =
     ebind (portable_operation_diagnostics (receipt_diagnostics r)) (\<lambda>ds.
       Inr (r\<lparr>receipt_diagnostics := ds\<rparr>))"

definition check_changed_addresses :: "address list \<Rightarrow> operation_error + unit" where
  "check_changed_addresses addresses =
     ebind (echeck (\<lambda>a. require (compiled_address a) InvalidChangedAddress) addresses) (\<lambda>_.
       require (distinct addresses) RepeatedChangedAddress)"

definition make_operation_status :: "operation_status \<Rightarrow> operation_error + operation_status" where
  "make_operation_status st =
     ebind (portable_operation_diagnostics (status_diagnostics st)) (\<lambda>ds.
     ebind (if status_state st \<in> {SUCCEEDED, FAILED, CANCELLED, INDETERMINATE}
            then operation_terminal_diagnostics (status_state st) ds
            else require_operation_terminal_diagnostics (status_state st) ds) (\<lambda>ds'.
     ebind (check_changed_addresses (status_changed_addresses st)) (\<lambda>_.
       Inr (st\<lparr>status_diagnostics := ds'\<rparr>))))"

end
