(* ===== verification/OperationStore.thy ===== *)
theory OperationStore
  imports OperationLifecycle
begin

text \<open>
  The in-memory operation store of the control plane (raes_runtime/control_plane_store_memory.py)
  with the rules every store provider applies (control_plane_store.py,
  control_plane_store_transitions.py, control_plane_store_revision.py, control_plane_store_history.py).

  The records are those of plain operations: they carry no invocation ledger, no reconciliation, no
  inject or delivery record, and neither their key nor their payload declares a control effect, a
  cancellation or a delivered tool call. For such a record the checks of those facts return at once,
  no claim is supervisory, and a claim is guarded exactly while its operation is active. The result
  payload of a record and the fields of a snapshot other than its histories are of any type. A
  snapshot passed to the store has passed the checks of autonomous participants' state. Every method
  of the store runs under its lock, so an operation is one step; one that raises changes nothing.
\<close>

section \<open>Revisions, snapshots and histories\<close>

datatype store_error =
  RevisionOutOfRange
| SnapshotRevisionConflict
| StoreHasOwner
| ScopeMismatch
| OwnershipEnded
| IdentityMismatch \<comment> \<open>receipt and status of a record disagree\<close>
| DeniedReceipt
| ImmutableReceipt
| ImmutableIdentity
| NewRecordNotActive
| IllegalTransition
| TerminalStatusRequired
| TerminalRewritten
| InvalidIdempotencyKey
| IdempotencyClaimConflict
| IdempotencyKeyConflict
| NewClaimRejected
| IndeterminateClaimBlocked
| StaleBaseSnapshot
| TerminalAuditMismatch
| AuditNotBound
| AuditText
| RetryModeMismatch
| RetrySnapshotMismatch
| RetryAuditMismatch
| OperationOnlyChangesSnapshot
| UnsupportedHistoryKey
| StaleHistoryHead
| StaleControlHead
| AmbiguousIdempotencyLookup
| SupervisionRewritesState
| NoInvocationAuthority
| ChangeCutLost

definition MAX_SNAPSHOT_REVISION :: int where
  "MAX_SNAPSHOT_REVISION = 2 ^ 63 - 1"

definition require_snapshot_revision :: "int \<Rightarrow> store_error + int" where
  "require_snapshot_revision n =
     (if n < 0 \<or> n > MAX_SNAPSHOT_REVISION then Inl RevisionOutOfRange else Inr n)"

definition next_snapshot_revision :: "int \<Rightarrow> store_error + int" where
  "next_snapshot_revision n =
     ebind (require_snapshot_revision n) (\<lambda>current.
       if current = MAX_SNAPSHOT_REVISION then Inl RevisionOutOfRange else Inr (current + 1))"

record history_record =
  history_event_id :: "string option"
  history_evaluation_id :: "string option"
  history_body :: string

text \<open>The histories of a snapshot by the name of their field, and its other fields.\<close>

record 'r store_snapshot =
  snapshot_histories :: "(string, (string, history_record list) dict) dict"
  snapshot_fields :: 'r

definition HISTORY_NAMES :: "string list" where
  "HISTORY_NAMES =
     [''participant_episode_history'', ''participant_behavior_history'', ''participant_control_history'',
      ''participant_crossing_history'', ''participant_control_evaluation_history'',
      ''mixed_composition_history'', ''information_state_history'', ''participant_outcome_history'']"

definition history_events :: "'r store_snapshot \<Rightarrow> string \<Rightarrow> string \<Rightarrow> history_record list" where
  "history_events s name participant =
     (case dget (snapshot_histories s) name of
        None \<Rightarrow> []
      | Some histories \<Rightarrow> (case dget histories participant of None \<Rightarrow> [] | Some evs \<Rightarrow> evs))"

definition named_identity :: "string option \<Rightarrow> string option" where
  "named_identity v = (case v of Some [] \<Rightarrow> None | _ \<Rightarrow> v)"

definition history_record_identity :: "history_record \<Rightarrow> string option" where
  "history_record_identity r =
     (case named_identity (history_event_id r) of
        Some i \<Rightarrow> Some i
      | None \<Rightarrow> named_identity (history_evaluation_id r))"

text \<open>\<open>str.partition(":")\<close>: the part before the first colon, whether there is one, and the rest.\<close>

fun partition_colon :: "string \<Rightarrow> string \<times> bool \<times> string" where
  "partition_colon [] = ([], False, [])"
| "partition_colon (c # cs) =
     (if c = CHR '':'' then ([], True, cs)
      else (case partition_colon cs of (before, found, after) \<Rightarrow> (c # before, found, after)))"

definition participant_history_head ::
    "(history_record \<Rightarrow> string) \<Rightarrow> 'r store_snapshot \<Rightarrow> string \<Rightarrow> store_error + string option" where
  "participant_history_head dg s key =
     (case partition_colon key of (name, found, participant) \<Rightarrow>
        if \<not> found \<or> participant = [] \<or> name \<notin> set HISTORY_NAMES then Inl UnsupportedHistoryKey
        else (let events = history_events s name participant in
              Inr (if events = [] then None
                   else (case history_record_identity (last events) of
                           Some i \<Rightarrow> Some i
                         | None \<Rightarrow> Some (dg (last events))))))"

definition require_expected_history_heads ::
    "(history_record \<Rightarrow> string) \<Rightarrow> 'r store_snapshot \<Rightarrow> (string, string option) dict \<Rightarrow> store_error + unit" where
  "require_expected_history_heads dg s heads =
     echeck (\<lambda>(key, expected). ebind (participant_history_head dg s key) (\<lambda>head.
       require (head = expected) StaleHistoryHead)) heads"

definition require_expected_control_head ::
    "'r store_snapshot \<Rightarrow> string \<Rightarrow> string option \<Rightarrow> store_error + unit" where
  "require_expected_control_head s participant expected =
     (let events = history_events s ''participant_control_history'' participant;
          head = (if events = [] then None else named_identity (history_event_id (last events))) in
      require (head = expected) StaleControlHead)"

section \<open>Operation records\<close>

record 'p operation_record =
  op_receipt :: operation_receipt
  op_status :: operation_status
  op_fingerprint :: string
  op_key :: string
  op_payload :: "'p option"
  op_decision_heads :: "(string, string option) dict"
  op_result_heads :: "(string, string option) dict"
  op_legacy_commitment :: bool

abbreviation op_id :: "'p operation_record \<Rightarrow> string" where
  "op_id r \<equiv> receipt_operation_id (op_receipt r)"

abbreviation op_state :: "'p operation_record \<Rightarrow> operation_state" where
  "op_state r \<equiv> status_state (op_status r)"

text \<open>Python compares the head mappings of two records without regard to their order.\<close>

definition same_mapping :: "('k, 'v) dict \<Rightarrow> ('k, 'v) dict \<Rightarrow> bool" where
  "same_mapping d e \<longleftrightarrow> list_all (\<lambda>k. dget d k = dget e k) (dkeys d @ dkeys e)"

definition same_record :: "'p operation_record \<Rightarrow> 'p operation_record \<Rightarrow> bool" where
  "same_record r r' \<longleftrightarrow>
     op_receipt r = op_receipt r' \<and> op_status r = op_status r' \<and> op_fingerprint r = op_fingerprint r'
     \<and> op_key r = op_key r' \<and> op_payload r = op_payload r'
     \<and> same_mapping (op_decision_heads r) (op_decision_heads r')
     \<and> same_mapping (op_result_heads r) (op_result_heads r')
     \<and> op_legacy_commitment r = op_legacy_commitment r'"

definition same_snapshot :: "'r store_snapshot \<Rightarrow> 'r store_snapshot \<Rightarrow> bool" where
  "same_snapshot s s' \<longleftrightarrow>
     snapshot_fields s = snapshot_fields s'
     \<and> list_all (\<lambda>name. case (dget (snapshot_histories s) name, dget (snapshot_histories s') name) of
            (Some histories, Some histories') \<Rightarrow> same_mapping histories histories'
          | (None, None) \<Rightarrow> True
          | _ \<Rightarrow> False) (dkeys (snapshot_histories s) @ dkeys (snapshot_histories s'))"

definition require_operation_record_identity :: "'p operation_record \<Rightarrow> store_error + unit" where
  "require_operation_record_identity r =
     ebind (require (op_id r = status_operation_id (op_status r)) IdentityMismatch) (\<lambda>_.
     ebind (require (receipt_domain (op_receipt r) = status_domain (op_status r)) IdentityMismatch) (\<lambda>_.
     ebind (require (receipt_submitted_at (op_receipt r) = status_submitted_at (op_status r)) IdentityMismatch) (\<lambda>_.
     ebind (require (receipt_context (op_receipt r) = status_context (op_status r)) IdentityMismatch) (\<lambda>_.
       require (receipt_accepted (op_receipt r)) DeniedReceipt))))"

definition require_same_operation_identity ::
    "'p operation_record \<Rightarrow> 'p operation_record \<Rightarrow> store_error + unit" where
  "require_same_operation_identity existing replacement =
     ebind (require_operation_record_identity existing) (\<lambda>_.
     ebind (require_operation_record_identity replacement) (\<lambda>_.
     ebind (require (op_receipt existing = op_receipt replacement) ImmutableReceipt) (\<lambda>_.
       require
         (status_schema_version (op_status existing) = status_schema_version (op_status replacement)
          \<and> status_operation_id (op_status existing) = status_operation_id (op_status replacement)
          \<and> status_domain (op_status existing) = status_domain (op_status replacement)
          \<and> status_submitted_at (op_status existing) = status_submitted_at (op_status replacement)
          \<and> status_context (op_status existing) = status_context (op_status replacement)
          \<and> op_key existing = op_key replacement \<and> op_fingerprint existing = op_fingerprint replacement
          \<and> op_legacy_commitment existing = op_legacy_commitment replacement) ImmutableIdentity)))"

definition require_operation_record_transition ::
    "'p operation_record option \<Rightarrow> 'p operation_record \<Rightarrow> store_error + bool" where
  "require_operation_record_transition existing replacement =
     ebind (require_operation_record_identity replacement) (\<lambda>_.
     (case existing of
        None \<Rightarrow> ebind (require (op_state replacement \<in> {ACCEPTED, RUNNING}) NewRecordNotActive) (\<lambda>_. Inr True)
      | Some e \<Rightarrow>
          ebind (require_same_operation_identity e replacement) (\<lambda>_.
            if same_record e replacement then Inr False
            else ebind (require (is_operation_transition_allowed (op_state e) (op_state replacement)) IllegalTransition)
                   (\<lambda>_. Inr True))))"

definition require_terminal_operation_transition ::
    "'p operation_record option \<Rightarrow> 'p operation_record \<Rightarrow> store_error + bool" where
  "require_terminal_operation_transition existing replacement =
     ebind (require (op_state replacement \<notin> {ACCEPTED, RUNNING}) TerminalStatusRequired) (\<lambda>_.
     (case require_operation_record_transition existing replacement of
        Inr changed \<Rightarrow> Inr changed
      | Inl e \<Rightarrow>
          if e \<in> {ImmutableReceipt, ImmutableIdentity} then Inl e
          else (case existing of
                  None \<Rightarrow> Inl e
                | Some old \<Rightarrow> if op_state old \<notin> {ACCEPTED, RUNNING} then Inl TerminalRewritten else Inl e)))"

section \<open>Claims\<close>

type_synonym claim_identity = "string \<times> operation_kind \<times> string"

definition idempotency_claim_identity :: "admission_context \<Rightarrow> string \<Rightarrow> claim_identity" where
  "idempotency_claim_identity c key = (actor_id c, op_kind c, key)"

definition require_idempotency_key :: "string \<Rightarrow> store_error + string" where
  "require_idempotency_key key =
     (if key \<noteq> [] \<and> (length key > 256 \<or> list_ex (\<lambda>c. c < CHR ''!'' \<or> CHR ''~'' < c) key)
      then Inl InvalidIdempotencyKey else Inr key)"

definition require_same_idempotency_replay ::
    "'p operation_record \<Rightarrow> 'p operation_record \<Rightarrow> string \<Rightarrow> store_error + unit" where
  "require_same_idempotency_replay existing candidate legacy_fingerprint =
     (let existing_context = receipt_context (op_receipt existing);
          candidate_context = receipt_context (op_receipt candidate);
          legacy = op_legacy_commitment existing \<and> legacy_fingerprint \<noteq> [];
          context_matches =
            (if legacy
             then existing_context\<lparr>request_commitment := request_commitment candidate_context\<rparr> = candidate_context
             else existing_context = candidate_context);
          fingerprint_matches =
            (if legacy then op_fingerprint existing = legacy_fingerprint
             else op_fingerprint existing = op_fingerprint candidate) in
      require (context_matches \<and> fingerprint_matches
        \<and> (same_mapping (op_decision_heads candidate) (op_decision_heads existing)
           \<or> same_mapping (op_decision_heads candidate) (op_result_heads existing))) IdempotencyClaimConflict)"

datatype new_claim_block = BLOCK_CURRENT_STATE | BLOCK_INDETERMINATE | BLOCK_STALE_BASE_SNAPSHOT

fun raise_new_claim_block :: "new_claim_block \<Rightarrow> store_error" where
  "raise_new_claim_block BLOCK_CURRENT_STATE = NewClaimRejected"
| "raise_new_claim_block BLOCK_INDETERMINATE = IndeterminateClaimBlocked"
| "raise_new_claim_block BLOCK_STALE_BASE_SNAPSHOT = StaleBaseSnapshot"

definition MIXED_CLAIM_KINDS :: "operation_kind set" where
  "MIXED_CLAIM_KINDS = {COMPOSITION_PHASE, PARTICIPANT_ACTION, PARTICIPANT_CROSSING}"

definition ACTIVE_CLAIM_STATES :: "operation_state set" where
  "ACTIVE_CLAIM_STATES = {ACCEPTED, RUNNING, INDETERMINATE}"

definition mixed_keys :: "'p operation_record \<Rightarrow> string set" where
  "mixed_keys r =
     {key \<in> set (dkeys (op_decision_heads r) @ dkeys (op_result_heads r)).
        starts_with key ''mixed_composition_history:''}"

definition active_mixed_claim_overlaps ::
    "admission_context \<Rightarrow> string set \<Rightarrow> 'p operation_record \<Rightarrow> bool" where
  "active_mixed_claim_overlaps c keys existing \<longleftrightarrow>
     (let prior = status_context (op_status existing) in
      (target_scope prior, run_scope prior) = (target_scope c, run_scope c)
      \<and> op_kind prior \<in> MIXED_CLAIM_KINDS \<and> op_state existing \<in> ACTIVE_CLAIM_STATES
      \<and> keys \<inter> set (dkeys (op_decision_heads existing) @ dkeys (op_result_heads existing)) \<noteq> {})"

definition mixed_claim_conflicts :: "'p operation_record \<Rightarrow> 'p operation_record list \<Rightarrow> bool" where
  "mixed_claim_conflicts new existing_records \<longleftrightarrow>
     (let c = status_context (op_status new) in
      op_kind c \<in> MIXED_CLAIM_KINDS \<and> mixed_keys new \<noteq> {}
      \<and> list_ex (active_mixed_claim_overlaps c (mixed_keys new)) existing_records)"

section \<open>Audit events\<close>

record audit_event =
  audit_timestamp :: string
  audit_action :: string
  audit_identity :: string
  audit_allowed :: bool
  audit_target :: string
  audit_operation_id :: string
  audit_reason :: string
  audit_details :: "(string, string) dict"

definition require_audit_string :: "string \<Rightarrow> bool \<Rightarrow> store_error + unit" where
  "require_audit_string s allow_empty =
     ebind (require ((allow_empty \<or> s \<noteq> []) \<and> length s \<le> 512) AuditText) (\<lambda>_.
       require (\<not> list_ex (\<lambda>c. c < CHR '' '' \<or> c = CHR 0x7F) s) AuditText)"

text \<open>
  The audit of a terminal operation. Its action ends in \<open>_terminal\<close>, for which the details admit
  exactly the value of a state, so only the texts of the event can be refused.
\<close>

definition terminal_operation_audit :: "'p operation_record \<Rightarrow> store_error + audit_event" where
  "terminal_operation_audit r =
     (let c = status_context (op_status r); state = operation_state_value (op_state r);
          event = \<lparr>audit_timestamp = status_updated_at (op_status r),
            audit_action = operation_kind_value (op_kind c) @ ''_terminal'', audit_identity = actor_id c,
            audit_allowed = True, audit_target = target_scope c, audit_operation_id = op_id r,
            audit_reason = ''operation-'' @ state, audit_details = [(''state'', state)]\<rparr> in
      ebind (require_audit_string (audit_timestamp event) False) (\<lambda>_.
      ebind (require_audit_string (audit_action event) False) (\<lambda>_.
      ebind (require_audit_string (audit_identity event) False) (\<lambda>_.
      ebind (require_audit_string (audit_target event) False) (\<lambda>_.
      ebind (require_audit_string (audit_operation_id event) True) (\<lambda>_.
      ebind (require_audit_string (audit_reason event) True) (\<lambda>_. Inr event)))))))"

definition require_terminal_operation_audit :: "'p operation_record \<Rightarrow> audit_event \<Rightarrow> store_error + unit" where
  "require_terminal_operation_audit r event =
     ebind (terminal_operation_audit r) (\<lambda>expected. require (event = expected) TerminalAuditMismatch)"

definition require_operation_audit_binding :: "'p operation_record \<Rightarrow> audit_event \<Rightarrow> store_error + unit" where
  "require_operation_audit_binding r event =
     require (\<not> (audit_operation_id event \<noteq> op_id r
                 \<or> audit_identity event \<noteq> actor_id (status_context (op_status r))
                 \<or> audit_timestamp event \<noteq> status_updated_at (op_status r))) AuditNotBound"

section \<open>The store\<close>

datatype commit_mode = SNAPSHOT_BEARING | OPERATION_ONLY

definition require_terminal_retry_mode :: "int \<Rightarrow> int \<Rightarrow> commit_mode \<Rightarrow> store_error + unit" where
  "require_terminal_retry_mode current_revision expected_revision mode =
     (let committed_revision = (if mode = SNAPSHOT_BEARING then expected_revision + 1 else expected_revision) in
      require (current_revision = committed_revision) RetryModeMismatch)"

record ('p, 'r) operation_store =
  store_snapshot :: "'r store_snapshot"
  store_revision :: int
  store_records :: "(string, 'p operation_record) dict"
  store_guards :: "(string, 'p operation_record) dict"
  store_changes :: "string list"
  store_idempotency :: "(claim_identity, string) dict"
  store_audit :: "audit_event list"
  bound_scope :: "(string \<times> string) option"
  owner_token :: "nat option"
  next_token :: nat \<comment> \<open>\<open>object()\<close> is never identical to an earlier token\<close>
  execution_generation :: int
  effect_admission_stopped :: bool

definition empty_store :: "'r store_snapshot \<Rightarrow> ('p, 'r) operation_store" where
  "empty_store s =
     \<lparr>store_snapshot = s, store_revision = 0, store_records = [], store_guards = [], store_changes = [],
      store_idempotency = [], store_audit = [], bound_scope = None, owner_token = None, next_token = 0,
      execution_generation = 0, effect_admission_stopped = False\<rparr>"

definition bind_scope ::
    "string \<Rightarrow> string \<Rightarrow> ('p, 'r) operation_store \<Rightarrow> store_error + (nat \<times> ('p, 'r) operation_store)" where
  "bind_scope target run m =
     ebind (require (owner_token m = None) StoreHasOwner) (\<lambda>_.
     ebind (require (bound_scope m = None \<or> bound_scope m = Some (target, run)) ScopeMismatch) (\<lambda>_.
       Inr (next_token m,
            m\<lparr>bound_scope := Some (target, run), owner_token := Some (next_token m),
              next_token := next_token m + 1\<rparr>)))"

definition assert_runtime_owner :: "nat \<Rightarrow> ('p, 'r) operation_store \<Rightarrow> store_error + unit" where
  "assert_runtime_owner token m = require (owner_token m = Some token) OwnershipEnded"

definition release_runtime_owner :: "nat \<Rightarrow> ('p, 'r) operation_store \<Rightarrow> ('p, 'r) operation_store" where
  "release_runtime_owner token m =
     (if owner_token m = Some token then m\<lparr>owner_token := None\<rparr> else m)"

definition require_expected_revision :: "int \<Rightarrow> ('p, 'r) operation_store \<Rightarrow> store_error + unit" where
  "require_expected_revision expected m =
     ebind (require_snapshot_revision expected) (\<lambda>_.
       require (store_revision m = expected) SnapshotRevisionConflict)"

definition save_snapshot ::
    "'r store_snapshot \<Rightarrow> int \<Rightarrow> ('p, 'r) operation_store \<Rightarrow> store_error + ('p, 'r) operation_store" where
  "save_snapshot s expected m =
     ebind (require_expected_revision expected m) (\<lambda>_.
     ebind (next_snapshot_revision expected) (\<lambda>revision.
       Inr (m\<lparr>store_snapshot := s, store_revision := revision\<rparr>)))"

text \<open>The guard index: a plain record is guarded while its operation is active.\<close>

definition apply_guard ::
    "'p operation_record \<Rightarrow> (string, 'p operation_record) dict \<Rightarrow> (string, 'p operation_record) dict" where
  "apply_guard r guards =
     (if op_state r \<in> {ACCEPTED, RUNNING, INDETERMINATE} then dput (op_id r) r guards
      else AList.delete (op_id r) guards)"

definition updated_idempotency ::
    "'p operation_record \<Rightarrow> ('p, 'r) operation_store \<Rightarrow> store_error + (claim_identity, string) dict" where
  "updated_idempotency r m =
     (if op_key r = [] then Inr (store_idempotency m)
      else (let claim = idempotency_claim_identity (receipt_context (op_receipt r)) (op_key r) in
            (case dget (store_idempotency m) claim of
               None \<Rightarrow> Inr (dput claim (op_id r) (store_idempotency m))
             | Some owner \<Rightarrow>
                 if owner \<noteq> op_id r then Inl IdempotencyKeyConflict
                 else Inr (dput claim (op_id r) (store_idempotency m)))))"

definition save_record ::
    "'p operation_record \<Rightarrow> ('p, 'r) operation_store \<Rightarrow> store_error + ('p, 'r) operation_store" where
  "save_record r m =
     ebind (require_operation_record_transition (dget (store_records m) (op_id r)) r) (\<lambda>changed.
       if \<not> changed then Inr m
       else ebind (updated_idempotency r m) (\<lambda>idempotency.
         Inr (m\<lparr>store_idempotency := idempotency, store_records := dput (op_id r) r (store_records m),
                store_changes := store_changes m @ [op_id r],
                store_guards := apply_guard r (store_guards m)\<rparr>)))"

definition incumbent_claim ::
    "'p operation_record \<Rightarrow> ('p, 'r) operation_store \<Rightarrow> 'p operation_record option" where
  "incumbent_claim r m =
     (case dget (store_idempotency m) (idempotency_claim_identity (receipt_context (op_receipt r)) (op_key r)) of
        None \<Rightarrow> None
      | Some operation_id \<Rightarrow> dget (store_records m) operation_id)"

definition new_claim ::
    "'p operation_record \<Rightarrow> new_claim_block option \<Rightarrow> ('p, 'r) operation_store \<Rightarrow>
       store_error + ('p operation_record \<times> ('p, 'r) operation_store)" where
  "new_claim r blocked m =
     (case blocked of
        Some block \<Rightarrow> Inl (raise_new_claim_block block)
      | None \<Rightarrow>
          ebind (require (\<not> (effect_admission_stopped m
                   \<and> op_kind (status_context (op_status r)) \<noteq> INDETERMINATE_RESOLUTION)) NewClaimRejected) (\<lambda>_.
          ebind (require (\<not> mixed_claim_conflicts r (dvals (store_guards m))) NewClaimRejected) (\<lambda>_.
          ebind (save_record r m) (\<lambda>m'. Inr (r, m')))))"

definition claim_record ::
    "'p operation_record \<Rightarrow> string \<Rightarrow> new_claim_block option \<Rightarrow> ('p, 'r) operation_store \<Rightarrow>
       store_error + ('p operation_record \<times> ('p, 'r) operation_store)" where
  "claim_record r legacy_fingerprint blocked m =
     (if op_key r = [] then new_claim r blocked m
      else ebind (require_idempotency_key (op_key r)) (\<lambda>_.
        (case incumbent_claim r m of
           Some existing \<Rightarrow>
             ebind (require_same_idempotency_replay existing r legacy_fingerprint) (\<lambda>_. Inr (existing, m))
         | None \<Rightarrow> new_claim r blocked m)))"

definition admit_execution_generation ::
    "('p, 'r) operation_store \<Rightarrow> store_error + (int \<times> ('p, 'r) operation_store)" where
  "admit_execution_generation m =
     ebind (next_snapshot_revision (execution_generation m)) (\<lambda>n. Inr (n, m\<lparr>execution_generation := n\<rparr>))"

definition stop_effect_admission :: "audit_event \<Rightarrow> ('p, 'r) operation_store \<Rightarrow> ('p, 'r) operation_store" where
  "stop_effect_admission event m =
     (if effect_admission_stopped m then m
      else m\<lparr>effect_admission_stopped := True, store_audit := store_audit m @ [event]\<rparr>)"

definition append_audit :: "audit_event \<Rightarrow> ('p, 'r) operation_store \<Rightarrow> ('p, 'r) operation_store" where
  "append_audit event m = m\<lparr>store_audit := store_audit m @ [event]\<rparr>"

definition publish_record ::
    "'p operation_record \<Rightarrow> audit_event \<Rightarrow> 'r store_snapshot \<Rightarrow> int \<Rightarrow> ('p, 'r) operation_store \<Rightarrow>
       store_error + ('p, 'r) operation_store" where
  "publish_record r event s revision m =
     ebind (updated_idempotency r m) (\<lambda>idempotency.
       Inr (m\<lparr>store_snapshot := s, store_revision := revision,
              store_records := dput (op_id r) r (store_records m),
              store_changes := store_changes m @ [op_id r],
              store_guards := apply_guard r (store_guards m),
              store_idempotency := idempotency, store_audit := store_audit m @ [event]\<rparr>))"

definition validate_retry ::
    "'r store_snapshot \<Rightarrow> 'p operation_record \<Rightarrow> audit_event \<Rightarrow> commit_mode \<Rightarrow> int \<Rightarrow>
       ('p, 'r) operation_store \<Rightarrow> store_error + ('p, 'r) operation_store" where
  "validate_retry s r event mode expected m =
     ebind (require_terminal_retry_mode (store_revision m) expected mode) (\<lambda>_.
     ebind (require (same_snapshot (store_snapshot m) s) RetrySnapshotMismatch) (\<lambda>_.
     ebind (require (filter (\<lambda>item. audit_operation_id item = op_id r \<and> audit_action item = audit_action event)
              (store_audit m) = [event]) RetryAuditMismatch) (\<lambda>_. Inr m)))"

definition commit_terminal_operation ::
    "'r store_snapshot \<Rightarrow> 'p operation_record \<Rightarrow> audit_event option \<Rightarrow> commit_mode \<Rightarrow> int \<Rightarrow>
       ('p, 'r) operation_store \<Rightarrow> store_error + ('p, 'r) operation_store" where
  "commit_terminal_operation s r audit mode expected m =
     ebind (case audit of Some event \<Rightarrow> Inr event | None \<Rightarrow> terminal_operation_audit r) (\<lambda>event.
     ebind (require_terminal_operation_audit r event) (\<lambda>_.
     ebind (require_terminal_operation_transition (dget (store_records m) (op_id r)) r) (\<lambda>changed.
       if \<not> changed then validate_retry s r event mode expected m
       else
         ebind (require_expected_revision expected m) (\<lambda>_.
         ebind (require (\<not> (mode = OPERATION_ONLY \<and> \<not> same_snapshot (store_snapshot m) s)) OperationOnlyChangesSnapshot) (\<lambda>_.
           if mode = OPERATION_ONLY then publish_record r event (store_snapshot m) (store_revision m) m
           else ebind (next_snapshot_revision expected) (\<lambda>revision. publish_record r event s revision m))))))"

definition commit_participant_transition_at ::
    "('r store_snapshot \<Rightarrow> store_error + unit) \<Rightarrow> int \<Rightarrow> 'r store_snapshot \<Rightarrow> 'p operation_record \<Rightarrow>
       audit_event \<Rightarrow> ('p, 'r) operation_store \<Rightarrow> store_error + ('p, 'r) operation_store" where
  "commit_participant_transition_at require_heads expected s r event m =
     (let existing = dget (store_records m) (op_id r) in
      if (case existing of None \<Rightarrow> False | Some e \<Rightarrow> same_record e r) then
        ebind (require_operation_audit_binding r event) (\<lambda>_.
          validate_retry s r event SNAPSHOT_BEARING expected m)
      else
        ebind (require_expected_revision expected m) (\<lambda>_.
        ebind (require_heads (store_snapshot m)) (\<lambda>_.
        ebind (require_operation_record_transition existing r) (\<lambda>_.
        ebind (require_operation_audit_binding r event) (\<lambda>_.
        ebind (next_snapshot_revision expected) (\<lambda>revision.
          publish_record r event s revision m))))))"

definition commit_participant_transition ::
    "(history_record \<Rightarrow> string) \<Rightarrow> (string, string option) dict \<Rightarrow> int \<Rightarrow> 'r store_snapshot \<Rightarrow>
       'p operation_record \<Rightarrow> audit_event \<Rightarrow> ('p, 'r) operation_store \<Rightarrow> store_error + ('p, 'r) operation_store" where
  "commit_participant_transition dg heads expected s r event m =
     commit_participant_transition_at (\<lambda>current. require_expected_history_heads dg current heads) expected s r event m"

definition commit_control_transition ::
    "string \<Rightarrow> string option \<Rightarrow> int \<Rightarrow> 'r store_snapshot \<Rightarrow> 'p operation_record \<Rightarrow> audit_event \<Rightarrow>
       ('p, 'r) operation_store \<Rightarrow> store_error + ('p, 'r) operation_store" where
  "commit_control_transition participant head expected s r event m =
     commit_participant_transition_at (\<lambda>current. require_expected_control_head current participant head)
       expected s r event m"

text \<open>A plain record has no invocation authority, so no supervision cut is ever admitted for it.\<close>

definition commit_invocation_transition ::
    "'p operation_record \<Rightarrow> 'p operation_record \<Rightarrow> ('p, 'r) operation_store \<Rightarrow> store_error + ('p, 'r) operation_store" where
  "commit_invocation_transition expected r m =
     ebind (require_same_operation_identity expected r) (\<lambda>_.
     ebind (require (op_status expected = op_status r) SupervisionRewritesState) (\<lambda>_. Inl NoInvocationAuthority))"

section \<open>Reads\<close>

definition find_by_idempotency ::
    "string \<Rightarrow> admission_context option \<Rightarrow> ('p, 'r) operation_store \<Rightarrow> store_error + 'p operation_record option" where
  "find_by_idempotency key context m =
     ebind (require_idempotency_key key) (\<lambda>_.
       if key = [] then Inr None
       else (case context of
               Some c \<Rightarrow>
                 (case dget (store_idempotency m) (idempotency_claim_identity c key) of
                    None \<Rightarrow> Inr None
                  | Some operation_id \<Rightarrow> Inr (dget (store_records m) operation_id))
             | None \<Rightarrow>
                 (let found = concat (map (\<lambda>((actor, kind, claim_key), operation_id).
                        if claim_key = key
                        then (case dget (store_records m) operation_id of None \<Rightarrow> [] | Some r \<Rightarrow> [r]) else [])
                        (store_idempotency m)) in
                  ebind (require (length found \<le> 1) AmbiguousIdempotencyLookup) (\<lambda>_.
                    Inr (case found of [] \<Rightarrow> None | r # _ \<Rightarrow> Some r)))))"

record 'p operation_changes =
  changes_cursor :: nat
  changes_records :: "(string, 'p operation_record) dict"
  changes_reset :: bool

definition load_operation_changes ::
    "nat option \<Rightarrow> ('p, 'r) operation_store \<Rightarrow> 'p operation_changes" where
  "load_operation_changes cursor m =
     (let reset = (case cursor of None \<Rightarrow> True | Some n \<Rightarrow> n > length (store_changes m));
          identities = (case cursor of
              Some n \<Rightarrow> if reset then dkeys (store_records m) else fromkeys (drop n (store_changes m))
            | None \<Rightarrow> dkeys (store_records m)) in
      \<lparr>changes_cursor = length (store_changes m),
       changes_records = map (\<lambda>key. (key, the (dget (store_records m) key))) identities,
       changes_reset = reset\<rparr>)"

text \<open>
  The control plane's view of the records, which it refreshes from the changes of the store
  (raes_runtime/control_plane_durability.py); its index of control effects is not modelled.
\<close>

record 'p operation_view =
  view_operations :: "(string, 'p operation_record) dict"
  view_cursor :: "nat option"

definition require_operation_changes ::
    "'p operation_changes \<Rightarrow> nat option \<Rightarrow> store_error + 'p operation_changes" where
  "require_operation_changes changes cursor =
     ebind (require (changes_reset changes \<or> (case cursor of None \<Rightarrow> False | Some n \<Rightarrow> n \<le> changes_cursor changes))
       ChangeCutLost) (\<lambda>_. Inr changes)"

definition refresh_operation_records ::
    "'p operation_view \<Rightarrow> ('p, 'r) operation_store \<Rightarrow> store_error + 'p operation_view" where
  "refresh_operation_records view m =
     ebind (require_operation_changes (load_operation_changes (view_cursor view) m) (view_cursor view)) (\<lambda>changes.
       Inr \<lparr>view_operations =
              (if changes_reset changes then changes_records changes
               else foldl (\<lambda>d (key, r). dput key r d) (view_operations view) (changes_records changes)),
            view_cursor = Some (changes_cursor changes)\<rparr>)"

section \<open>Sequences of operations\<close>

datatype ('p, 'r) store_op =
  BindScope string string
| ReleaseOwner nat
| SaveSnapshot "'r store_snapshot" int
| SaveRecord "'p operation_record"
| ClaimRecord "'p operation_record" string "new_claim_block option"
| AdmitGeneration
| StopEffects audit_event
| AppendAudit audit_event
| CommitInvocation "'p operation_record" "'p operation_record"
| CommitTerminal "'r store_snapshot" "'p operation_record" "audit_event option" commit_mode int
| CommitControl string "string option" int "'r store_snapshot" "'p operation_record" audit_event
| CommitParticipant "(string, string option) dict" int "'r store_snapshot" "'p operation_record" audit_event

fun store_step ::
    "(history_record \<Rightarrow> string) \<Rightarrow> ('p, 'r) store_op \<Rightarrow> ('p, 'r) operation_store \<Rightarrow>
       store_error + ('p, 'r) operation_store" where
  "store_step dg (BindScope target run) m = ebind (bind_scope target run m) (\<lambda>(token, m'). Inr m')"
| "store_step dg (ReleaseOwner token) m = Inr (release_runtime_owner token m)"
| "store_step dg (SaveSnapshot s expected) m = save_snapshot s expected m"
| "store_step dg (SaveRecord r) m = save_record r m"
| "store_step dg (ClaimRecord r legacy blocked) m = ebind (claim_record r legacy blocked m) (\<lambda>(found, m'). Inr m')"
| "store_step dg AdmitGeneration m = ebind (admit_execution_generation m) (\<lambda>(n, m'). Inr m')"
| "store_step dg (StopEffects event) m = Inr (stop_effect_admission event m)"
| "store_step dg (AppendAudit event) m = Inr (append_audit event m)"
| "store_step dg (CommitInvocation expected r) m = commit_invocation_transition expected r m"
| "store_step dg (CommitTerminal s r audit mode expected) m = commit_terminal_operation s r audit mode expected m"
| "store_step dg (CommitControl participant head expected s r event) m =
     commit_control_transition participant head expected s r event m"
| "store_step dg (CommitParticipant heads expected s r event) m =
     commit_participant_transition dg heads expected s r event m"

end
