(* ===== verification/OperationStoreProofs.thy ===== *)
theory OperationStoreProofs
  imports OperationStore
begin

text \<open>
  What one operation of the store does to its records, its claims and its snapshot, and the
  invariant that ties the indexes of the store to its records.
\<close>

section \<open>One operation\<close>

definition record_ok :: "'p operation_record \<Rightarrow> bool" where
  "record_ok r \<longleftrightarrow>
     op_id r = status_operation_id (op_status r) \<and> receipt_domain (op_receipt r) = status_domain (op_status r)
     \<and> receipt_submitted_at (op_receipt r) = status_submitted_at (op_status r)
     \<and> receipt_context (op_receipt r) = status_context (op_status r) \<and> receipt_accepted (op_receipt r)"

lemma require_operation_record_identity_Inr [errs]:
  "require_operation_record_identity r = Inr u \<longleftrightarrow> record_ok r"
  by (simp add: require_operation_record_identity_def record_ok_def errs)

definition same_identity :: "'p operation_record \<Rightarrow> 'p operation_record \<Rightarrow> bool" where
  "same_identity r r' \<longleftrightarrow>
     op_receipt r = op_receipt r' \<and> op_key r = op_key r' \<and> op_fingerprint r = op_fingerprint r'
     \<and> op_legacy_commitment r = op_legacy_commitment r'"

lemma same_identity_refl [simp]: "same_identity r r"
  by (simp add: same_identity_def)

lemma same_identity_trans: "same_identity r s \<Longrightarrow> same_identity s t \<Longrightarrow> same_identity r t"
  by (simp add: same_identity_def)

definition record_moves :: "'p operation_record option \<Rightarrow> 'p operation_record \<Rightarrow> bool" where
  "record_moves existing r \<longleftrightarrow>
     record_ok r
     \<and> (case existing of
          None \<Rightarrow> op_state r \<in> {ACCEPTED, RUNNING}
        | Some e \<Rightarrow> same_identity e r \<and> (op_state e, op_state r) \<in> LEGAL_OPERATION_TRANSITIONS)"

lemma require_operation_record_transition_True:
  assumes "require_operation_record_transition existing r = Inr True"
  shows "record_moves existing r"
proof (cases existing)
  case None
  with assms show ?thesis
    by (auto simp: require_operation_record_transition_def record_moves_def errs)
next
  case (Some e)
  with assms show ?thesis
    by (auto simp: require_operation_record_transition_def record_moves_def errs
        require_same_operation_identity_def same_identity_def is_operation_transition_allowed_def
        split: if_splits)
qed

lemma require_terminal_operation_transition_Inr:
  assumes "require_terminal_operation_transition existing r = Inr changed"
  shows "require_operation_record_transition existing r = Inr changed"
  using assms
  by (auto simp: require_terminal_operation_transition_def errs split: sum.splits if_splits option.splits)

definition claims_of :: "('p, 'r) operation_store \<Rightarrow> 'p operation_record \<Rightarrow> (claim_identity, string) dict \<Rightarrow> bool" where
  "claims_of m r idempotency \<longleftrightarrow>
     (if op_key r = [] then idempotency = store_idempotency m
      else (let claim = idempotency_claim_identity (receipt_context (op_receipt r)) (op_key r) in
            dget (store_idempotency m) claim \<in> {None, Some (op_id r)}
            \<and> idempotency = dput claim (op_id r) (store_idempotency m)))"

lemma updated_idempotency_Inr [errs]: "updated_idempotency r m = Inr idempotency \<longleftrightarrow> claims_of m r idempotency"
  by (auto simp: updated_idempotency_def claims_of_def Let_def split: option.splits if_splits)

text \<open>A record is stored: created, or moved along a legal transition.\<close>

definition stores_record ::
    "'p operation_record \<Rightarrow> ('p, 'r) operation_store \<Rightarrow> ('p, 'r) operation_store \<Rightarrow> bool" where
  "stores_record r m m' \<longleftrightarrow>
     record_moves (dget (store_records m) (op_id r)) r \<and> claims_of m r (store_idempotency m')
     \<and> store_records m' = dput (op_id r) r (store_records m)
     \<and> store_changes m' = store_changes m @ [op_id r]
     \<and> store_guards m' = apply_guard r (store_guards m)"

definition keeps_records :: "('p, 'r) operation_store \<Rightarrow> ('p, 'r) operation_store \<Rightarrow> bool" where
  "keeps_records m m' \<longleftrightarrow>
     store_records m' = store_records m \<and> store_idempotency m' = store_idempotency m
     \<and> store_changes m' = store_changes m \<and> store_guards m' = store_guards m"

lemma keeps_records_refl [simp]: "keeps_records m m"
  by (simp add: keeps_records_def)

text \<open>The snapshot is left alone, or replaced at exactly the revision the operation names.\<close>

definition expected_revision_of :: "('p, 'r) store_op \<Rightarrow> int option" where
  "expected_revision_of op =
     (case op of
        SaveSnapshot s expected \<Rightarrow> Some expected
      | CommitTerminal s r audit mode expected \<Rightarrow> Some expected
      | CommitControl participant head expected s r event \<Rightarrow> Some expected
      | CommitParticipant heads expected s r event \<Rightarrow> Some expected
      | _ \<Rightarrow> None)"

definition keeps_snapshot :: "('p, 'r) operation_store \<Rightarrow> ('p, 'r) operation_store \<Rightarrow> bool" where
  "keeps_snapshot m m' \<longleftrightarrow> store_snapshot m' = store_snapshot m \<and> store_revision m' = store_revision m"

lemma keeps_snapshot_refl [simp]: "keeps_snapshot m m"
  by (simp add: keeps_snapshot_def)

definition at_revision :: "int \<Rightarrow> ('p, 'r) operation_store \<Rightarrow> ('p, 'r) operation_store \<Rightarrow> bool" where
  "at_revision expected m m' \<longleftrightarrow>
     store_revision m = expected \<and> 0 \<le> expected \<and> expected \<le> MAX_SNAPSHOT_REVISION
     \<and> (keeps_snapshot m m' \<or> (store_revision m' = expected + 1 \<and> expected < MAX_SNAPSHOT_REVISION))"

lemma require_snapshot_revision_Inr [errs]:
  "require_snapshot_revision n = Inr k \<longleftrightarrow> k = n \<and> 0 \<le> n \<and> n \<le> MAX_SNAPSHOT_REVISION"
  by (auto simp: require_snapshot_revision_def)

lemma next_snapshot_revision_Inr [errs]:
  "next_snapshot_revision n = Inr k \<longleftrightarrow> k = n + 1 \<and> 0 \<le> n \<and> n < MAX_SNAPSHOT_REVISION"
  by (auto simp: next_snapshot_revision_def errs)

lemma require_expected_revision_Inr [errs]:
  "require_expected_revision expected m = Inr u \<longleftrightarrow>
     store_revision m = expected \<and> 0 \<le> expected \<and> expected \<le> MAX_SNAPSHOT_REVISION"
  by (auto simp: require_expected_revision_def errs)

lemma save_record_step:
  assumes "save_record r m = Inr m'"
  shows "(keeps_records m m' \<or> stores_record r m m') \<and> keeps_snapshot m m'"
proof -
  obtain changed where t: "require_operation_record_transition (dget (store_records m) (op_id r)) r = Inr changed"
    using assms by (auto simp: save_record_def errs)
  show ?thesis
  proof (cases changed)
    case False
    with t assms show ?thesis by (simp add: save_record_def)
  next
    case True
    with t have "record_moves (dget (store_records m) (op_id r)) r"
      by (simp add: require_operation_record_transition_True)
    with t True assms show ?thesis
      by (auto simp: save_record_def errs stores_record_def keeps_snapshot_def)
  qed
qed

lemma new_claim_step:
  assumes "new_claim r blocked m = Inr (found, m')"
  shows "found = r \<and> save_record r m = Inr m'"
  using assms by (auto simp: new_claim_def errs split: option.splits)

lemma claim_record_step:
  assumes "claim_record r legacy blocked m = Inr (found, m')"
  shows "(m' = m \<and> op_key r \<noteq> [] \<and> incumbent_claim r m = Some found) \<or> (found = r \<and> save_record r m = Inr m')"
proof (cases "op_key r = []")
  case True
  with assms show ?thesis by (auto simp: claim_record_def dest: new_claim_step)
next
  case False
  show ?thesis
  proof (cases "incumbent_claim r m")
    case None
    with assms False show ?thesis by (auto simp: claim_record_def errs dest: new_claim_step)
  next
    case (Some existing)
    with assms False show ?thesis by (auto simp: claim_record_def errs)
  qed
qed

lemma publish_record_step:
  assumes "publish_record r event s revision m = Inr m'" and "record_moves (dget (store_records m) (op_id r)) r"
  shows "stores_record r m m' \<and> store_snapshot m' = s \<and> store_revision m' = revision"
  using assms by (auto simp: publish_record_def errs stores_record_def)

lemma validate_retry_step: "validate_retry s r event mode expected m = Inr m' \<Longrightarrow> m' = m"
  by (auto simp: validate_retry_def errs)

lemma commit_terminal_step:
  assumes "commit_terminal_operation s r audit mode expected m = Inr m'"
  shows "m' = m \<or> (stores_record r m m' \<and> at_revision expected m m')"
proof -
  obtain event changed where t: "require_terminal_operation_transition (dget (store_records m) (op_id r)) r = Inr changed"
    and rest: "(if \<not> changed then validate_retry s r event mode expected m
       else
         ebind (require_expected_revision expected m) (\<lambda>_.
         ebind (require (\<not> (mode = OPERATION_ONLY \<and> \<not> same_snapshot (store_snapshot m) s)) OperationOnlyChangesSnapshot) (\<lambda>_.
           if mode = OPERATION_ONLY then publish_record r event (store_snapshot m) (store_revision m) m
           else ebind (next_snapshot_revision expected) (\<lambda>revision. publish_record r event s revision m)))) = Inr m'"
    using assms unfolding commit_terminal_operation_def ebind_eq_Inr by blast
  show ?thesis
  proof (cases changed)
    case False
    with rest show ?thesis by (auto dest: validate_retry_step)
  next
    case True
    have moves: "record_moves (dget (store_records m) (op_id r)) r"
      using require_operation_record_transition_True [OF require_terminal_operation_transition_Inr] t True by simp
    show ?thesis
    proof (cases "mode = OPERATION_ONLY")
      case True
      with rest \<open>changed\<close> have e: "store_revision m = expected" "0 \<le> expected" "expected \<le> MAX_SNAPSHOT_REVISION"
        and p: "publish_record r event (store_snapshot m) (store_revision m) m = Inr m'"
        by (auto simp: errs)
      from publish_record_step [OF p moves] e show ?thesis by (simp add: at_revision_def keeps_snapshot_def)
    next
      case False
      with rest \<open>changed\<close> have e: "store_revision m = expected" "0 \<le> expected" "expected < MAX_SNAPSHOT_REVISION"
        and p: "publish_record r event s (expected + 1) m = Inr m'"
        by (auto simp: errs)
      from publish_record_step [OF p moves] e show ?thesis by (simp add: at_revision_def)
    qed
  qed
qed

lemma commit_participant_step:
  assumes "commit_participant_transition_at heads expected s r event m = Inr m'"
  shows "m' = m \<or> (at_revision expected m m' \<and> stores_record r m m')"
proof (cases "case dget (store_records m) (op_id r) of None \<Rightarrow> False | Some e \<Rightarrow> same_record e r")
  case True
  with assms show ?thesis
    by (auto simp: commit_participant_transition_at_def Let_def errs dest: validate_retry_step)
next
  case False
  with assms obtain changed where
    e: "store_revision m = expected" "0 \<le> expected" "expected < MAX_SNAPSHOT_REVISION"
    and t: "require_operation_record_transition (dget (store_records m) (op_id r)) r = Inr changed"
    and p: "publish_record r event s (expected + 1) m = Inr m'"
    by (auto simp: commit_participant_transition_at_def Let_def errs)
  have "changed"
  proof (cases "dget (store_records m) (op_id r)")
    case None
    with t show ?thesis by (auto simp: require_operation_record_transition_def errs)
  next
    case (Some old)
    with False have "\<not> same_record old r" by simp
    with Some t show ?thesis by (auto simp: require_operation_record_transition_def errs)
  qed
  with t have "record_moves (dget (store_records m) (op_id r)) r"
    by (simp add: require_operation_record_transition_True)
  from publish_record_step [OF p this] e show ?thesis by (simp add: at_revision_def)
qed

text \<open>Every operation of the store, by what it does.\<close>

definition other_fields_only :: "('p, 'r) operation_store \<Rightarrow> ('p, 'r) operation_store \<Rightarrow> bool" where
  "other_fields_only m m' \<longleftrightarrow> keeps_records m m' \<and> keeps_snapshot m m'"

lemma store_step_cases:
  assumes "store_step dg op m = Inr m'"
  shows "other_fields_only m m'
     \<or> (\<exists>r. stores_record r m m' \<and> (case expected_revision_of op of
           None \<Rightarrow> keeps_snapshot m m' | Some expected \<Rightarrow> at_revision expected m m'))
     \<or> (\<exists>expected. expected_revision_of op = Some expected \<and> keeps_records m m' \<and> at_revision expected m m')"
proof (cases op)
  case (SaveSnapshot s expected)
  with assms have "keeps_records m m' \<and> at_revision expected m m'"
    by (auto simp: save_snapshot_def errs keeps_records_def at_revision_def)
  with SaveSnapshot show ?thesis by (simp add: expected_revision_of_def)
next
  case (SaveRecord r)
  with assms have "save_record r m = Inr m'" by simp
  from save_record_step [OF this] SaveRecord show ?thesis
    by (auto simp: expected_revision_of_def other_fields_only_def)
next
  case (ClaimRecord r legacy blocked)
  with assms obtain found where "claim_record r legacy blocked m = Inr (found, m')" by (auto simp: errs)
  then have "m' = m \<or> save_record r m = Inr m'" by (auto dest: claim_record_step)
  then show ?thesis
  proof
    assume "save_record r m = Inr m'"
    from save_record_step [OF this] ClaimRecord show ?thesis
      by (auto simp: expected_revision_of_def other_fields_only_def)
  qed (simp add: other_fields_only_def)
next
  case (CommitTerminal s r audit mode expected)
  with assms have "commit_terminal_operation s r audit mode expected m = Inr m'" by simp
  from commit_terminal_step [OF this] CommitTerminal show ?thesis
    by (auto simp: expected_revision_of_def other_fields_only_def)
next
  case (CommitControl participant head expected s r event)
  with assms have "commit_participant_transition_at
      (\<lambda>current. require_expected_control_head current participant head) expected s r event m = Inr m'"
    by (simp add: commit_control_transition_def)
  from commit_participant_step [OF this] CommitControl show ?thesis
    by (auto simp: expected_revision_of_def other_fields_only_def)
next
  case (CommitParticipant heads expected s r event)
  with assms have "commit_participant_transition_at
      (\<lambda>current. require_expected_history_heads dg current heads) expected s r event m = Inr m'"
    by (simp add: commit_participant_transition_def)
  from commit_participant_step [OF this] CommitParticipant show ?thesis
    by (auto simp: expected_revision_of_def other_fields_only_def)
next
  case (CommitInvocation expected r)
  with assms show ?thesis by (simp add: commit_invocation_transition_def errs)
qed (use assms in \<open>auto simp: other_fields_only_def keeps_records_def keeps_snapshot_def bind_scope_def
    release_runtime_owner_def admit_execution_generation_def stop_effect_admission_def append_audit_def errs\<close>)

end
