(* ===== verification/OperationStoreProperties.thy ===== *)
theory OperationStoreProperties
  imports OperationStoreProofs
begin

text \<open>
  Runs of the operation store: its indexes agree with its records, operations follow their
  lifecycle, a claim is granted once, a stale commit changes nothing, and the control plane's view
  of the changes is the store's records.
\<close>

section \<open>The indexes of the store\<close>

definition claim_of :: "'p operation_record \<Rightarrow> claim_identity" where
  "claim_of r = idempotency_claim_identity (receipt_context (op_receipt r)) (op_key r)"

definition guarded :: "'p operation_record option \<Rightarrow> 'p operation_record option" where
  "guarded r = (case r of None \<Rightarrow> None
     | Some r \<Rightarrow> if op_state r \<in> {ACCEPTED, RUNNING, INDETERMINATE} then Some r else None)"

definition store_inv :: "('p, 'r) operation_store \<Rightarrow> bool" where
  "store_inv m \<longleftrightarrow>
     dict_ok (store_records m)
     \<and> (\<forall>k r. dget (store_records m) k = Some r \<longrightarrow> op_id r = k \<and> record_ok r)
     \<and> (\<forall>claim k. dget (store_idempotency m) claim = Some k \<longrightarrow>
          (\<exists>r. dget (store_records m) k = Some r \<and> op_key r \<noteq> [] \<and> claim_of r = claim))
     \<and> (\<forall>k r. dget (store_records m) k = Some r \<longrightarrow> op_key r \<noteq> [] \<longrightarrow>
          dget (store_idempotency m) (claim_of r) = Some k)
     \<and> (\<forall>k. dget (store_guards m) k = guarded (dget (store_records m) k))
     \<and> set (store_changes m) = set (dkeys (store_records m))"

lemma store_invD:
  assumes "store_inv m"
  shows "dict_ok (store_records m)"
    "dget (store_records m) k = Some r \<Longrightarrow> op_id r = k"
    "dget (store_records m) k = Some r \<Longrightarrow> record_ok r"
    "dget (store_idempotency m) claim = Some k \<Longrightarrow>
       \<exists>r. dget (store_records m) k = Some r \<and> op_key r \<noteq> [] \<and> claim_of r = claim"
    "dget (store_records m) k = Some r \<Longrightarrow> op_key r \<noteq> [] \<Longrightarrow> dget (store_idempotency m) (claim_of r) = Some k"
    "dget (store_guards m) k = guarded (dget (store_records m) k)"
    "set (store_changes m) = set (dkeys (store_records m))"
  using assms unfolding store_inv_def by blast+

lemma keeps_records_inv:
  assumes "keeps_records m m'" and "store_inv m"
  shows "store_inv m'"
proof -
  have kept: "store_records m' = store_records m" "store_idempotency m' = store_idempotency m"
    "store_changes m' = store_changes m" "store_guards m' = store_guards m"
    using assms(1) by (simp_all add: keeps_records_def)
  show ?thesis unfolding store_inv_def kept by (rule assms(2) [unfolded store_inv_def])
qed

lemma apply_guard_get:
  "dget (apply_guard r guards) k = (if k = op_id r then guarded (Some r) else dget guards k)"
  by (simp add: apply_guard_def guarded_def delete_conv')

lemma stored_claims:
  assumes "store_inv m" and "stores_record r m m'"
  shows "dget (store_idempotency m') claim =
     (if op_key r \<noteq> [] \<and> claim = claim_of r then Some (op_id r) else dget (store_idempotency m) claim)"
    "op_key r \<noteq> [] \<Longrightarrow> dget (store_idempotency m) (claim_of r) \<in> {None, Some (op_id r)}"
  using assms(2) by (auto simp: stores_record_def claims_of_def Let_def claim_of_def split: if_splits)

lemma stored_same_claim:
  assumes "stores_record r m m'" and "dget (store_records m) (op_id r) = Some old"
  shows "op_key old = op_key r" "claim_of old = claim_of r" "op_receipt old = op_receipt r"
  using assms by (auto simp: stores_record_def record_moves_def same_identity_def claim_of_def)

lemma stores_record_inv:
  assumes "store_inv m" and "stores_record r m m'"
  shows "store_inv m'"
proof -
  have r: "record_ok r" "store_records m' = dput (op_id r) r (store_records m)"
    "store_changes m' = store_changes m @ [op_id r]" "store_guards m' = apply_guard r (store_guards m)"
    using assms(2) by (auto simp: stores_record_def record_moves_def)
  note inv = store_invD [OF assms(1)]
  have claimed: "\<exists>r'. dget (store_records m') k = Some r' \<and> op_key r' \<noteq> [] \<and> claim_of r' = claim"
    if "dget (store_idempotency m') claim = Some k" for claim k
  proof (cases "op_key r \<noteq> [] \<and> claim = claim_of r")
    case True
    with that stored_claims(1) [OF assms] r(2) show ?thesis by auto
  next
    case False
    then have "dget (store_idempotency m) claim = Some k"
      using that stored_claims(1) [OF assms, of claim] by (simp split: if_splits)
    from inv(4) [OF this] obtain r' where r': "dget (store_records m) k = Some r'" "op_key r' \<noteq> []" "claim_of r' = claim"
      by blast
    show ?thesis
    proof (cases "k = op_id r")
      case True
      with r' stored_same_claim [OF assms(2), of r'] r(2) show ?thesis by auto
    next
      case False
      with r' r(2) show ?thesis by auto
    qed
  qed
  have forth: "dget (store_idempotency m') (claim_of r') = Some k"
    if "dget (store_records m') k = Some r'" "op_key r' \<noteq> []" for k r'
  proof (cases "k = op_id r")
    case True
    with that r(2) stored_claims(1) [OF assms, of "claim_of r"] show ?thesis by simp
  next
    case False
    with that r(2) have old: "dget (store_records m) k = Some r'" by simp
    from inv(5) [OF old that(2)] have claim: "dget (store_idempotency m) (claim_of r') = Some k" .
    moreover have "\<not> (op_key r \<noteq> [] \<and> claim_of r' = claim_of r)"
      using stored_claims(2) [OF assms] claim False by auto
    ultimately show ?thesis using stored_claims(1) [OF assms, of "claim_of r'"] by auto
  qed
  have guards: "dget (store_guards m') k = guarded (dget (store_records m') k)" for k
    using inv(6) by (simp add: r apply_guard_get)
  have changes: "set (store_changes m') = set (dkeys (store_records m'))"
    using inv(7) by (simp add: r dom_update)
  show ?thesis
    unfolding store_inv_def
  proof (intro conjI)
    show "dict_ok (store_records m')" using inv(1) r(2) by (simp add: distinct_update)
    show "\<forall>k r. dget (store_records m') k = Some r \<longrightarrow> op_id r = k \<and> record_ok r"
      using inv(2,3) r(1,2) by auto
    show "\<forall>claim k. dget (store_idempotency m') claim = Some k \<longrightarrow>
        (\<exists>r. dget (store_records m') k = Some r \<and> op_key r \<noteq> [] \<and> claim_of r = claim)"
      using claimed by blast
    show "\<forall>k r. dget (store_records m') k = Some r \<longrightarrow> op_key r \<noteq> [] \<longrightarrow>
        dget (store_idempotency m') (claim_of r) = Some k"
      using forth by blast
    show "\<forall>k. dget (store_guards m') k = guarded (dget (store_records m') k)" using guards by blast
  qed (rule changes)
qed

lemma store_step_inv: "store_inv m \<Longrightarrow> store_step dg op m = Inr m' \<Longrightarrow> store_inv m'"
  using store_step_cases keeps_records_inv stores_record_inv unfolding other_fields_only_def by metis

lemma store_step_changes: "store_step dg op m = Inr m' \<Longrightarrow> prefix (store_changes m) (store_changes m')"
  using store_step_cases [of dg op m m'] unfolding other_fields_only_def keeps_records_def stores_record_def by auto

lemma empty_store_inv: "store_inv (empty_store s)"
  by (simp add: store_inv_def empty_store_def guarded_def)

interpretation stores: logged_machine "store_step dg" store_inv store_changes for dg
  by unfold_locales (auto intro: store_step_inv store_step_changes)

lemma reachable_store_inv: "machine_reach (store_step dg) (empty_store s) m \<Longrightarrow> store_inv m"
  by (rule stores.reach_inv [OF _ empty_store_inv])

section \<open>The life of one operation\<close>

text \<open>What the later records of an operation keep of an earlier one.\<close>

definition record_follows :: "'p operation_record \<Rightarrow> 'p operation_record \<Rightarrow> bool" where
  "record_follows r r' \<longleftrightarrow>
     same_identity r r' \<and> (op_state r, op_state r') \<in> LEGAL_OPERATION_TRANSITIONS\<^sup>*
     \<and> (op_state r \<notin> {ACCEPTED, RUNNING} \<longrightarrow> r' = r)"

lemma record_follows_refl [simp]: "record_follows r r"
  by (simp add: record_follows_def)

lemma record_follows_trans: "record_follows r s \<Longrightarrow> record_follows s t \<Longrightarrow> record_follows r t"
  by (auto simp: record_follows_def intro: same_identity_trans rtrancl_trans)

lemma legal_from_active: "(s, t) \<in> LEGAL_OPERATION_TRANSITIONS \<Longrightarrow> s \<in> {ACCEPTED, RUNNING}"
  by (auto simp: LEGAL_OPERATION_TRANSITIONS_def)

lemma stores_record_follows:
  assumes "stores_record r m m'" and "dget (store_records m) k = Some old"
  shows "\<exists>new. dget (store_records m') k = Some new \<and> record_follows old new"
proof (cases "k = op_id r")
  case True
  with assms have "same_identity old r" "(op_state old, op_state r) \<in> LEGAL_OPERATION_TRANSITIONS"
    "dget (store_records m') k = Some r"
    by (auto simp: stores_record_def record_moves_def)
  then show ?thesis using legal_from_active by (auto simp: record_follows_def)
next
  case False
  with assms show ?thesis by (simp add: stores_record_def)
qed

lemma store_step_follows:
  assumes "store_step dg op m = Inr m'" and "dget (store_records m) k = Some old"
  shows "\<exists>new. dget (store_records m') k = Some new \<and> record_follows old new"
proof -
  consider "keeps_records m m'" | r where "stores_record r m m'"
    using store_step_cases [OF assms(1)] unfolding other_fields_only_def by blast
  then show ?thesis
  proof cases
    case 1
    with assms(2) show ?thesis by (simp add: keeps_records_def)
  next
    case 2
    from stores_record_follows [OF this assms(2)] show ?thesis .
  qed
qed

lemma reach_follows:
  assumes "machine_reach (store_step dg) m m'" and "dget (store_records m) k = Some old"
  shows "\<exists>new. dget (store_records m') k = Some new \<and> record_follows old new"
  using assms
proof (induction rule: machine_reach.induct)
  case (reach_step m1 op m2)
  then obtain mid where mid: "dget (store_records m1) k = Some mid" "record_follows old mid" by blast
  from store_step_follows [OF reach_step.hyps(2) mid(1)] mid(2) show ?case
    by (blast intro: record_follows_trans)
qed auto

section \<open>Claims\<close>

lemma save_record_kept:
  assumes "save_record r m = Inr m'"
  shows "\<exists>r'. dget (store_records m') (op_id r) = Some r' \<and> same_identity r' r"
proof -
  obtain changed where t: "require_operation_record_transition (dget (store_records m) (op_id r)) r = Inr changed"
    using assms by (auto simp: save_record_def errs)
  show ?thesis
  proof (cases changed)
    case True
    with t assms show ?thesis by (auto simp: save_record_def errs)
  next
    case False
    with t assms show ?thesis
      by (auto simp: save_record_def require_operation_record_transition_def require_same_operation_identity_def
          same_identity_def errs split: option.splits if_splits)
  qed
qed

lemma claim_inv:
  assumes "store_inv m" and "claim_record r legacy blocked m = Inr (found, m')"
  shows "store_inv m'"
  using claim_record_step [OF assms(2)] save_record_step assms(1) keeps_records_inv stores_record_inv by blast

lemma granted_claim:
  assumes "store_inv m" and "claim_record r legacy blocked m = Inr (found, m')" and "op_key r \<noteq> []"
  shows "dget (store_idempotency m') (claim_of r) = Some (op_id found)"
    and "\<exists>r'. dget (store_records m') (op_id found) = Some r' \<and> op_key r' = op_key r \<and> claim_of r' = claim_of r"
proof -
  have both: "dget (store_idempotency m') (claim_of r) = Some (op_id found)
      \<and> (\<exists>r'. dget (store_records m') (op_id found) = Some r' \<and> op_key r' = op_key r \<and> claim_of r' = claim_of r)"
  proof -
    consider "m' = m" "incumbent_claim r m = Some found" | "found = r" "save_record r m = Inr m'"
      using claim_record_step [OF assms(2)] by blast
    then show ?thesis
    proof cases
      case 1
      then obtain k where k: "dget (store_idempotency m) (claim_of r) = Some k" "dget (store_records m) k = Some found"
        by (auto simp: incumbent_claim_def claim_of_def split: option.splits)
      from store_invD(4) [OF assms(1) k(1)] k(2) have "claim_of found = claim_of r" by auto
      with store_invD(2) [OF assms(1) k(2)] 1(1) k show ?thesis
        by (auto simp: claim_of_def idempotency_claim_identity_def)
    next
      case 2
      from save_record_kept [OF 2(2)] obtain r' where r': "dget (store_records m') (op_id r) = Some r'"
        "same_identity r' r" by blast
      then have "op_key r' = op_key r" "claim_of r' = claim_of r"
        by (simp_all add: same_identity_def claim_of_def)
      with store_invD(5) [OF claim_inv [OF assms(1,2)] r'(1)] assms(3) r'(1) 2(1) show ?thesis by auto
    qed
  qed
  then show "dget (store_idempotency m') (claim_of r) = Some (op_id found)"
    and "\<exists>r'. dget (store_records m') (op_id found) = Some r' \<and> op_key r' = op_key r \<and> claim_of r' = claim_of r"
    by blast+
qed

text \<open>A claim of the same actor, kind and key, at any later time.\<close>

lemma repeated_claim:
  assumes "store_inv m" and "claim_record r legacy blocked m = Inr (found, m1)" and "op_key r \<noteq> []"
    and "machine_reach (store_step dg) m1 m2" and "op_key c \<noteq> []" and "claim_of c = claim_of r"
  shows "\<exists>current. dget (store_records m2) (op_id found) = Some current
     \<and> claim_record c legacy' blocked' m2 =
         (if require_same_idempotency_replay current c legacy' = Inr () then Inr (current, m2)
          else Inl IdempotencyClaimConflict)"
proof -
  have inv1: "store_inv m1" using assms(1,2) by (rule claim_inv)
  have inv2: "store_inv m2" using assms(4) inv1 by (rule stores.reach_inv)
  from granted_claim(2) [OF assms(1-3)] obtain r' where r': "dget (store_records m1) (op_id found) = Some r'"
    "op_key r' = op_key r" "claim_of r' = claim_of r" by blast
  from reach_follows [OF assms(4) r'(1)] obtain current where
    current: "dget (store_records m2) (op_id found) = Some current" "record_follows r' current" by blast
  then have "op_key current = op_key r'" "claim_of current = claim_of r'"
    by (auto simp: record_follows_def same_identity_def claim_of_def)
  with r' assms(3) store_invD(5) [OF inv2 current(1)]
  have idem: "dget (store_idempotency m2) (claim_of c) = Some (op_id found)" by (simp add: assms(6))
  have key: "require_idempotency_key (op_key c) = Inr (op_key c)"
  proof -
    have "op_key c = op_key r" using assms(6) by (simp add: claim_of_def idempotency_claim_identity_def)
    moreover have "\<exists>k. require_idempotency_key (op_key r) = Inr k"
      using assms(2,3) by (auto simp: claim_record_def errs)
    ultimately show ?thesis by (auto simp: require_idempotency_key_def split: if_splits)
  qed
  have "incumbent_claim c m2 = Some current"
    using idem current(1) by (simp add: incumbent_claim_def claim_of_def)
  then have "claim_record c legacy' blocked' m2 =
      ebind (require_same_idempotency_replay current c legacy') (\<lambda>_. Inr (current, m2))"
    using assms(5) key by (simp add: claim_record_def)
  also have "\<dots> = (if require_same_idempotency_replay current c legacy' = Inr () then Inr (current, m2)
      else Inl IdempotencyClaimConflict)"
    by (simp add: require_same_idempotency_replay_def Let_def require_def)
  finally show ?thesis using current(1) by blast
qed

lemma found_by_claim:
  assumes "store_inv m"
  shows "find_by_idempotency key (Some c) m = Inr (Some r) \<longleftrightarrow>
      require_idempotency_key key = Inr key \<and> key \<noteq> [] \<and> op_key r = key
      \<and> dget (store_records m) (op_id r) = Some r
      \<and> actor_id (receipt_context (op_receipt r)) = actor_id c \<and> op_kind (receipt_context (op_receipt r)) = op_kind c"
    (is "?found \<longleftrightarrow> ?stored")
proof
  assume ?found
  then obtain k where key: "require_idempotency_key key = Inr key" "key \<noteq> []"
    and k: "dget (store_idempotency m) (idempotency_claim_identity c key) = Some k" "dget (store_records m) k = Some r"
    by (auto simp: find_by_idempotency_def require_idempotency_key_def split: if_splits option.splits)
  from store_invD(4) [OF assms k(1)] k(2) have "claim_of r = idempotency_claim_identity c key" by auto
  with key k store_invD(2) [OF assms k(2)] show ?stored
    by (simp add: claim_of_def idempotency_claim_identity_def)
next
  assume stored: ?stored
  then have "dget (store_idempotency m) (claim_of r) = Some (op_id r)"
    using store_invD(5) [OF assms] by blast
  moreover have "claim_of r = idempotency_claim_identity c key"
    using stored by (simp add: claim_of_def idempotency_claim_identity_def)
  ultimately show ?found using stored by (simp add: find_by_idempotency_def)
qed

section \<open>The view of the changes\<close>

definition view_current :: "'p operation_view \<Rightarrow> ('p, 'r) operation_store \<Rightarrow> bool" where
  "view_current view m \<longleftrightarrow>
     view_cursor view = Some (length (store_changes m))
     \<and> (\<forall>k. dget (view_operations view) k = dget (store_records m) k)"

lemma merged_changes:
  "dget (foldl (\<lambda>d (key, r). dput key r d) d (map (\<lambda>key. (key, f key)) ks)) k =
     (if k \<in> set ks then Some (f k) else dget d k)"
  by (induction ks arbitrary: d) auto

text \<open>Records that do not appear among the new changes are the ones the older store had.\<close>

lemma unchanged_records:
  assumes "machine_reach (store_step dg) m m'" and "store_inv m"
  shows "\<exists>new. store_changes m' = store_changes m @ new
     \<and> (\<forall>k. k \<notin> set new \<longrightarrow> dget (store_records m') k = dget (store_records m) k)"
  using assms
proof (induction rule: machine_reach.induct)
  case (reach_step m1 op m2)
  then obtain new where new: "store_changes m1 = store_changes m @ new"
    "\<forall>k. k \<notin> set new \<longrightarrow> dget (store_records m1) k = dget (store_records m) k" by blast
  consider "keeps_records m1 m2" | r where "stores_record r m1 m2"
    using store_step_cases [OF reach_step.hyps(2)] unfolding other_fields_only_def by blast
  then show ?case
  proof cases
    case 1
    with new show ?thesis by (auto simp: keeps_records_def)
  next
    case 2
    with new show ?thesis by (intro exI [of _ "new @ [op_id r]"]) (auto simp: stores_record_def)
  qed
qed auto

lemma refresh_current:
  assumes "store_inv m" and "machine_reach (store_step dg) m m'" and "view_current view m"
  shows "\<exists>view'. refresh_operation_records view m' = Inr view' \<and> view_current view' m'"
proof -
  have inv': "store_inv m'" using assms(2,1) by (rule stores.reach_inv)
  from unchanged_records [OF assms(2,1)] obtain new where new: "store_changes m' = store_changes m @ new"
    "\<forall>k. k \<notin> set new \<longrightarrow> dget (store_records m') k = dget (store_records m) k" by blast
  have cursor: "view_cursor view = Some (length (store_changes m))" using assms(3) by (simp add: view_current_def)
  have load: "load_operation_changes (view_cursor view) m' =
      \<lparr>changes_cursor = length (store_changes m'),
       changes_records = map (\<lambda>key. (key, the (dget (store_records m') key))) (fromkeys new), changes_reset = False\<rparr>"
    using new(1) by (simp add: load_operation_changes_def Let_def cursor)
  have known: "dget (store_records m') k \<noteq> None" if "k \<in> set new" for k
  proof -
    have "k \<in> set (dkeys (store_records m'))" using that new(1) store_invD(7) [OF inv'] by auto
    then show ?thesis by (auto simp: map_of_eq_None_iff)
  qed
  define view' where "view' = \<lparr>view_operations = foldl (\<lambda>d (key, r). dput key r d) (view_operations view)
      (map (\<lambda>key. (key, the (dget (store_records m') key))) (fromkeys new)),
      view_cursor = Some (length (store_changes m'))\<rparr>"
  have "refresh_operation_records view m' = Inr view'"
    using new(1) unfolding refresh_operation_records_def load
    by (simp add: require_operation_changes_def cursor view'_def)
  moreover have "dget (view_operations view') k = dget (store_records m') k" for k
    using known [of k] new(2) assms(3) by (auto simp: view'_def merged_changes view_current_def)
  ultimately show ?thesis by (auto simp: view_current_def view'_def)
qed

lemma refresh_first:
  assumes "store_inv m" and "view_cursor view = None"
  shows "\<exists>view'. refresh_operation_records view m = Inr view' \<and> view_current view' m"
proof -
  have "map (\<lambda>key. (key, the (dget (store_records m) key))) (dkeys (store_records m)) = store_records m"
    using store_invD(1) [OF assms(1)] by (induction "store_records m") (auto intro!: map_idI)
  then show ?thesis
    using assms(2) by (simp add: refresh_operation_records_def load_operation_changes_def Let_def
        require_operation_changes_def view_current_def)
qed

section \<open>Commits\<close>

lemma same_mapping_refl [simp]: "same_mapping d d"
  by (simp add: same_mapping_def list_all_iff)

lemma same_record_refl [simp]: "same_record r r"
  by (simp add: same_record_def)

lemma same_snapshot_refl [simp]: "same_snapshot s s"
  by (auto simp: same_snapshot_def list_all_iff split: option.split)

lemma step_revision:
  assumes "store_step dg op m = Inr m'"
  shows "store_revision m \<le> store_revision m'"
    and "store_revision m' = store_revision m \<Longrightarrow> store_snapshot m' = store_snapshot m"
  using store_step_cases [OF assms]
  by (auto simp: other_fields_only_def keeps_snapshot_def at_revision_def split: option.splits)

lemma reach_revision: "machine_reach (store_step dg) m m' \<Longrightarrow> store_revision m \<le> store_revision m'"
proof (induction rule: machine_reach.induct)
  case (reach_step m1 op m2)
  then show ?case using step_revision(1) by fastforce
qed simp

text \<open>An operation that names a revision the store has left is refused or changes nothing.\<close>

lemma stale_step:
  assumes "store_step dg op m = Inr m'" and "expected_revision_of op = Some expected"
    and "store_revision m \<noteq> expected"
  shows "m' = m"
proof (cases op)
  case (SaveSnapshot s e)
  with assms show ?thesis by (auto simp: save_snapshot_def errs expected_revision_of_def)
next
  case (CommitTerminal s r audit mode e)
  with assms(2) have "e = expected" by (simp add: expected_revision_of_def)
  moreover from CommitTerminal assms(1) have "commit_terminal_operation s r audit mode e m = Inr m'" by simp
  ultimately show ?thesis using commit_terminal_step assms(3) by (fastforce simp: at_revision_def)
next
  case (CommitControl participant head e s r event)
  with assms(2) have "e = expected" by (simp add: expected_revision_of_def)
  moreover from CommitControl assms(1) have "commit_participant_transition_at
      (\<lambda>current. require_expected_control_head current participant head) e s r event m = Inr m'"
    by (simp add: commit_control_transition_def)
  ultimately show ?thesis using commit_participant_step assms(3) by (fastforce simp: at_revision_def)
next
  case (CommitParticipant heads e s r event)
  with assms(2) have "e = expected" by (simp add: expected_revision_of_def)
  moreover from CommitParticipant assms(1) have "commit_participant_transition_at
      (\<lambda>current. require_expected_history_heads dg current heads) e s r event m = Inr m'"
    by (simp add: commit_participant_transition_def)
  ultimately show ?thesis using commit_participant_step assms(3) by (fastforce simp: at_revision_def)
qed (use assms(2) in \<open>simp_all add: expected_revision_of_def\<close>)

text \<open>A record of any state was first stored with its operation active.\<close>

lemma recorded_from_active:
  assumes "machine_reach (store_step dg) (empty_store s) m" and "dget (store_records m) k = Some r"
  shows "\<exists>m0 r0. machine_reach (store_step dg) (empty_store s) m0 \<and> machine_reach (store_step dg) m0 m
     \<and> dget (store_records m0) k = Some r0 \<and> op_state r0 \<in> {ACCEPTED, RUNNING} \<and> record_follows r0 r"
  using assms
proof (induction arbitrary: r rule: machine_reach.induct)
  case reach_start
  then show ?case by (simp add: empty_store_def)
next
  case (reach_step m1 op m2)
  have m2: "machine_reach (store_step dg) (empty_store s) m2"
    using reach_step.hyps by (rule machine_reach.reach_step)
  show ?case
  proof (cases "dget (store_records m1) k")
    case (Some old)
    from store_step_follows [OF reach_step.hyps(2) Some] reach_step.prems
    have follows: "record_follows old r" by auto
    from reach_step.IH [OF Some] obtain m0 r0 where first:
      "machine_reach (store_step dg) (empty_store s) m0" "machine_reach (store_step dg) m0 m1"
      "dget (store_records m0) k = Some r0" "op_state r0 \<in> {ACCEPTED, RUNNING}" "record_follows r0 old" by blast
    have "machine_reach (store_step dg) m0 m2" using first(2) reach_step.hyps(2) by (rule machine_reach.reach_step)
    with first record_follows_trans [OF first(5) follows] show ?thesis by blast
  next
    case None
    with reach_step.prems have "\<not> keeps_records m1 m2" by (auto simp: keeps_records_def)
    with store_step_cases [OF reach_step.hyps(2)] obtain q where q: "stores_record q m1 m2"
      unfolding other_fields_only_def by blast
    with None reach_step.prems have "q = r" "op_id q = k"
      by (auto simp: stores_record_def split: if_splits)
    with q None have "op_state r \<in> {ACCEPTED, RUNNING}" by (simp add: stores_record_def record_moves_def)
    with m2 reach_step.prems show ?thesis
      by (intro exI [of _ m2] exI [of _ r]) (simp add: machine_reach.reach_start)
  qed
qed

text \<open>The commit of a terminal record that changes the store, and the same commit once more.\<close>

lemma terminal_transition_again:
  assumes "require_terminal_operation_transition existing r = Inr changed"
  shows "require_terminal_operation_transition (Some r) r = Inr False"
proof -
  have "op_state r \<notin> {ACCEPTED, RUNNING}"
    using assms by (auto simp: require_terminal_operation_transition_def errs)
  moreover have "record_ok r"
    using require_terminal_operation_transition_Inr [OF assms] by (simp add: require_operation_record_transition_def errs)
  then have "require_operation_record_identity r = Inr ()" by (simp add: errs)
  ultimately show ?thesis
    by (simp add: require_terminal_operation_transition_def require_operation_record_transition_def
        require_same_operation_identity_def)
qed

definition same_audits :: "'p operation_record \<Rightarrow> audit_event \<Rightarrow> audit_event list \<Rightarrow> audit_event list" where
  "same_audits r event audits =
     filter (\<lambda>item. audit_operation_id item = op_id r \<and> audit_action item = audit_action event) audits"

lemma validate_retry_eq:
  "validate_retry s r event mode expected m =
     ebind (require_terminal_retry_mode (store_revision m) expected mode) (\<lambda>_.
     ebind (require (same_snapshot (store_snapshot m) s) RetrySnapshotMismatch) (\<lambda>_.
     ebind (require (same_audits r event (store_audit m) = [event]) RetryAuditMismatch) (\<lambda>_. Inr m)))"
  by (simp add: validate_retry_def same_audits_def)

lemma published_store:
  assumes "publish_record r event s revision m = Inr m'"
  shows "dget (store_records m') (op_id r) = Some r" "store_snapshot m' = s" "store_revision m' = revision"
    "store_audit m' = store_audit m @ [event]"
  using assms by (auto simp: publish_record_def errs)

lemma terminal_commit_again:
  assumes "commit_terminal_operation s r audit mode expected m = Inr m'" and "m' \<noteq> m"
  shows "\<exists>event. store_audit m' = store_audit m @ [event] \<and> dget (store_records m') (op_id r) = Some r
    \<and> same_audits r event [event] = [event]
    \<and> commit_terminal_operation s r audit mode expected m' =
        (if same_audits r event (store_audit m) = [] then Inr m' else Inl RetryAuditMismatch)"
proof -
  obtain event u changed where
    ev: "(case audit of Some event \<Rightarrow> Inr event | None \<Rightarrow> terminal_operation_audit r) = Inr event"
    and "require_terminal_operation_audit r event = Inr u"
    and t: "require_terminal_operation_transition (dget (store_records m) (op_id r)) r = Inr changed"
    and rest: "(if \<not> changed then validate_retry s r event mode expected m
       else
         ebind (require_expected_revision expected m) (\<lambda>_.
         ebind (require (\<not> (mode = OPERATION_ONLY \<and> \<not> same_snapshot (store_snapshot m) s)) OperationOnlyChangesSnapshot) (\<lambda>_.
           if mode = OPERATION_ONLY then publish_record r event (store_snapshot m) (store_revision m) m
           else ebind (next_snapshot_revision expected) (\<lambda>revision. publish_record r event s revision m)))) = Inr m'"
    using assms(1) unfolding commit_terminal_operation_def ebind_eq_Inr by blast
  then have au: "require_terminal_operation_audit r event = Inr ()" by simp
  have changed
  proof (rule ccontr)
    assume "\<not> changed"
    with rest have "validate_retry s r event mode expected m = Inr m'" by simp
    with assms(2) show False by (simp add: validate_retry_step)
  qed
  obtain revision s' where p: "publish_record r event s' revision m = Inr m'"
    and mode: "require_terminal_retry_mode revision expected mode = Inr ()" "same_snapshot s' s"
    using rest \<open>changed\<close> by (cases mode) (auto simp: require_terminal_retry_mode_def errs)
  note m' = published_store [OF p]
  have id: "audit_operation_id event = op_id r"
    using au by (auto simp: require_terminal_operation_audit_def terminal_operation_audit_def Let_def errs)
  have again: "commit_terminal_operation s r audit mode expected m' = validate_retry s r event mode expected m'"
    unfolding commit_terminal_operation_def m'(1) ev terminal_transition_again [OF t] by (simp add: au)
  also have "\<dots> = (if same_audits r event (store_audit m) = [] then Inr m' else Inl RetryAuditMismatch)"
    using mode id by (simp add: validate_retry_eq m' require_def same_audits_def)
  finally show ?thesis using m' id by (auto simp: same_audits_def)
qed

end
