(* ===== verification/OperationStoreRuns.thy ===== *)
theory OperationStoreRuns
  imports OperationStoreProperties
begin

text \<open>
  What holds along every run of the operation store, with runs of a small store that show the
  hypotheses can be met.
\<close>

section \<open>Properties\<close>

text \<open>C30: However the operation store is driven from its empty state, its indexes are those of its
  records. Every record is kept under its operation id and its receipt agrees with its status; the
  lookup of an idempotency key finds exactly the stored record that claimed the key for the actor
  and kind of the context; and the guard index holds exactly the records whose operation is active
  or indeterminate.\<close>

theorem store_runs_stay_consistent:
  assumes "machine_reach (store_step dg) (empty_store s) m"
  shows "(dget (store_records m) k = Some r \<longrightarrow>
        receipt_operation_id (op_receipt r) = k \<and> status_operation_id (op_status r) = k
        \<and> receipt_context (op_receipt r) = status_context (op_status r) \<and> receipt_accepted (op_receipt r))
    \<and> (find_by_idempotency key (Some c) m = Inr (Some r) \<longleftrightarrow>
        require_idempotency_key key = Inr key \<and> key \<noteq> [] \<and> op_key r = key
        \<and> dget (store_records m) (op_id r) = Some r
        \<and> actor_id (receipt_context (op_receipt r)) = actor_id c
        \<and> op_kind (receipt_context (op_receipt r)) = op_kind c)
    \<and> (dget (store_guards m) k = Some r \<longleftrightarrow>
        dget (store_records m) k = Some r \<and> op_state r \<in> {ACCEPTED, RUNNING, INDETERMINATE})"
proof (intro conjI)
  have inv: "store_inv m" using assms by (rule reachable_store_inv)
  show "dget (store_records m) k = Some r \<longrightarrow>
      receipt_operation_id (op_receipt r) = k \<and> status_operation_id (op_status r) = k
      \<and> receipt_context (op_receipt r) = status_context (op_status r) \<and> receipt_accepted (op_receipt r)"
    using store_invD(2,3) [OF inv] by (fastforce simp: record_ok_def)
  show "find_by_idempotency key (Some c) m = Inr (Some r) \<longleftrightarrow>
      require_idempotency_key key = Inr key \<and> key \<noteq> [] \<and> op_key r = key
      \<and> dget (store_records m) (op_id r) = Some r
      \<and> actor_id (receipt_context (op_receipt r)) = actor_id c \<and> op_kind (receipt_context (op_receipt r)) = op_kind c"
    by (rule found_by_claim [OF inv])
  show "dget (store_guards m) k = Some r \<longleftrightarrow>
      dget (store_records m) k = Some r \<and> op_state r \<in> {ACCEPTED, RUNNING, INDETERMINATE}"
    using store_invD(6) [OF inv, of k] by (auto simp: guarded_def split: option.splits if_splits)
qed

text \<open>C31: Whatever operations follow, a stored operation keeps its receipt, its idempotency key and
  its request fingerprint, its state moves along legal transitions only, and once it has left the
  accepted and running states its record never changes again. Every stored operation was first
  stored in one of these two states.\<close>

theorem operations_follow_lifecycle:
  assumes "machine_reach (store_step dg) (empty_store s) m" and "dget (store_records m) k = Some r"
    and "machine_reach (store_step dg) m m'"
  shows "(\<exists>r'. dget (store_records m') k = Some r'
      \<and> op_receipt r' = op_receipt r \<and> op_key r' = op_key r \<and> op_fingerprint r' = op_fingerprint r
      \<and> (op_state r, op_state r') \<in> LEGAL_OPERATION_TRANSITIONS\<^sup>*
      \<and> (op_state r \<in> {SUCCEEDED, FAILED, CANCELLED, INDETERMINATE} \<longrightarrow> r' = r))
    \<and> (\<exists>m0 r0. machine_reach (store_step dg) (empty_store s) m0 \<and> machine_reach (store_step dg) m0 m
      \<and> dget (store_records m0) k = Some r0 \<and> op_state r0 \<in> {ACCEPTED, RUNNING} \<and> (op_state r0, op_state r) \<in> LEGAL_OPERATION_TRANSITIONS\<^sup>*)"
proof
  from reach_follows [OF assms(3,2)] obtain r' where
    "dget (store_records m') k = Some r'" "record_follows r r'" by blast
  then show "\<exists>r'. dget (store_records m') k = Some r'
      \<and> op_receipt r' = op_receipt r \<and> op_key r' = op_key r \<and> op_fingerprint r' = op_fingerprint r
      \<and> (op_state r, op_state r') \<in> LEGAL_OPERATION_TRANSITIONS\<^sup>*
      \<and> (op_state r \<in> {SUCCEEDED, FAILED, CANCELLED, INDETERMINATE} \<longrightarrow> r' = r)"
    by (intro exI [of _ r']) (auto simp: record_follows_def same_identity_def)
  from recorded_from_active [OF assms(1,2)] obtain m0 r0 where
    "machine_reach (store_step dg) (empty_store s) m0" "machine_reach (store_step dg) m0 m" "dget (store_records m0) k = Some r0"
    "op_state r0 \<in> {ACCEPTED, RUNNING}" "record_follows r0 r" by blast
  then show "\<exists>m0 r0. machine_reach (store_step dg) (empty_store s) m0 \<and> machine_reach (store_step dg) m0 m
      \<and> dget (store_records m0) k = Some r0 \<and> op_state r0 \<in> {ACCEPTED, RUNNING} \<and> (op_state r0, op_state r) \<in> LEGAL_OPERATION_TRANSITIONS\<^sup>*"
    by (intro exI [of _ m0] exI [of _ r0]) (simp add: record_follows_def)
qed

text \<open>C32: Once a claim with an idempotency key was granted, a claim of the same actor, kind and key
  never starts a second operation: it returns the current record of the first one and changes
  nothing when it repeats the request, and is refused as a conflict otherwise.\<close>

theorem claims_are_granted_once:
  assumes "machine_reach (store_step dg) (empty_store s) m"
    and "claim_record r legacy blocked m = Inr (found, m1)" and "op_key r \<noteq> []"
    and "machine_reach (store_step dg) m1 m2"
    and "actor_id (receipt_context (op_receipt c)) = actor_id (receipt_context (op_receipt r))"
    and "op_kind (receipt_context (op_receipt c)) = op_kind (receipt_context (op_receipt r))"
    and "op_key c = op_key r"
  shows "\<exists>current. dget (store_records m2) (op_id found) = Some current
     \<and> claim_record c legacy' blocked' m2 =
         (if require_same_idempotency_replay current c legacy' = Inr () then Inr (current, m2)
          else Inl IdempotencyClaimConflict)"
  using assms(3,5-7)
  by (intro repeated_claim [OF reachable_store_inv [OF assms(1)] assms(2,3,4)])
     (simp_all add: claim_of_def idempotency_claim_identity_def)

text \<open>C33: No update of the snapshot is lost. Once an operation has replaced the snapshot, every other
  operation that names the revision it replaced is refused or leaves the whole store as it is,
  however much later it comes.\<close>

theorem snapshot_updates_are_never_lost:
  assumes "store_step dg op m = Inr m1" and "store_snapshot m1 \<noteq> store_snapshot m"
    and "machine_reach (store_step dg) m1 m2"
    and "expected_revision_of stale = Some (store_revision m)" and "store_step dg stale m2 = Inr m3"
  shows "store_revision m1 = store_revision m + 1 \<and> m3 = m2"
proof -
  have moved: "store_revision m1 \<noteq> store_revision m" using assms(1,2) step_revision(2) by blast
  then have next_rev: "store_revision m1 = store_revision m + 1"
    using store_step_cases [OF assms(1)]
    by (auto simp: other_fields_only_def keeps_snapshot_def at_revision_def split: option.splits)
  moreover have "store_revision m1 \<le> store_revision m2" using assms(3) by (rule reach_revision)
  ultimately show ?thesis using stale_step [OF assms(5,4)] by auto
qed

text \<open>A terminal commit can be repeated. A commit that changed the store has stored the record
  with one audit event, and the same call made again returns without changing anything, unless the
  log already held an event of the same action for that operation.\<close>

theorem terminal_commits_can_be_repeated:
  assumes "commit_terminal_operation s r audit mode expected m = Inr m'" and "m' \<noteq> m"
  shows "\<exists>event. store_audit m' = store_audit m @ [event] \<and> audit_operation_id event = op_id r
    \<and> dget (store_records m') (op_id r) = Some r
    \<and> commit_terminal_operation s r audit mode expected m' =
        (if \<exists>e \<in> set (store_audit m). audit_operation_id e = op_id r \<and> audit_action e = audit_action event
         then Inl RetryAuditMismatch else Inr m')"
proof -
  from terminal_commit_again [OF assms] obtain event where
    event: "store_audit m' = store_audit m @ [event]" "dget (store_records m') (op_id r) = Some r"
      "same_audits r event [event] = [event]"
      "commit_terminal_operation s r audit mode expected m' =
        (if same_audits r event (store_audit m) = [] then Inr m' else Inl RetryAuditMismatch)" by blast
  then show ?thesis
    by (intro exI [of _ event]) (auto simp: same_audits_def filter_empty_conv split: if_splits)
qed

text \<open>C34: The control plane's view of the operations is the store's. A view refreshed for the first
  time has every record, and refreshed again at any later time, from the changes since its cursor
  only, it again maps every operation id to the record the store has, and to none where the store
  has none.\<close>

theorem refreshed_views_are_complete:
  assumes "machine_reach (store_step dg) (empty_store s) m" and "machine_reach (store_step dg) m m'"
    and "view_cursor view = None"
  shows "\<exists>view1 view2. refresh_operation_records view m = Inr view1
      \<and> refresh_operation_records view1 m' = Inr view2
      \<and> (\<forall>k. dget (view_operations view1) k = dget (store_records m) k)
      \<and> (\<forall>k. dget (view_operations view2) k = dget (store_records m') k)"
proof -
  have inv: "store_inv m" using assms(1) by (rule reachable_store_inv)
  from refresh_first [OF inv assms(3)] obtain view1 where
    view1: "refresh_operation_records view m = Inr view1" "view_current view1 m" by blast
  from refresh_current [OF inv assms(2) view1(2)] obtain view2 where
    "refresh_operation_records view1 m' = Inr view2" "view_current view2 m'" by blast
  with view1 show ?thesis by (auto simp: view_current_def)
qed

section \<open>A run\<close>

definition sample_context :: admission_context where
  "sample_context =
     \<lparr>actor_id = ''operator-1'', authorization_scope = [''apply''], target_scope = ''lab'', run_scope = ''run-1'',
      op_kind = PROVISIONING, request_commitment = ''sha256:'' @ replicate 64 (CHR ''a''),
      parent_operation_id = None\<rparr>"

definition sample_receipt :: operation_receipt where
  "sample_receipt =
     \<lparr>receipt_operation_id = ''op-1'', receipt_domain = DOMAIN_PROVISIONING, receipt_submitted_at = ''t0'',
      receipt_accepted = True, receipt_context = sample_context, receipt_schema_version = ''runtime-operation/v1'',
      receipt_diagnostics = []\<rparr>"

definition sample_status :: "operation_state \<Rightarrow> operation_status" where
  "sample_status state =
     projr (make_operation_status
       \<lparr>status_operation_id = ''op-1'', status_domain = DOMAIN_PROVISIONING, status_state = state,
        status_submitted_at = ''t0'', status_updated_at = ''t1'', status_context = sample_context,
        status_schema_version = ''runtime-operation/v1'', status_diagnostics = [],
        status_changed_addresses = []\<rparr>)"

definition sample_record :: "operation_state \<Rightarrow> unit operation_record" where
  "sample_record state =
     \<lparr>op_receipt = sample_receipt, op_status = sample_status state, op_fingerprint = ''f'', op_key = ''key-1'',
      op_payload = None, op_decision_heads = [], op_result_heads = [], op_legacy_commitment = False\<rparr>"

definition sample_fields :: "nat \<Rightarrow> nat store_snapshot" where
  "sample_fields n = \<lparr>snapshot_histories = [], snapshot_fields = n\<rparr>"

abbreviation sample_store_step :: "(unit, nat) store_op \<Rightarrow> (unit, nat) operation_store \<Rightarrow>
    store_error + (unit, nat) operation_store" where
  "sample_store_step \<equiv> store_step history_body"

definition sample_claimed_store :: "(unit, nat) operation_store" where
  "sample_claimed_store = projr (machine_run sample_store_step (empty_store (sample_fields 0))
     [BindScope ''lab'' ''run-1'', ClaimRecord (sample_record ACCEPTED) [] None])"

definition sample_running_store :: "(unit, nat) operation_store" where
  "sample_running_store = projr (machine_run sample_store_step sample_claimed_store [SaveRecord (sample_record RUNNING)])"

definition sample_commit :: "(unit, nat) store_op" where
  "sample_commit = CommitTerminal (sample_fields 1) (sample_record SUCCEEDED) None SNAPSHOT_BEARING 0"

definition sample_final_store :: "(unit, nat) operation_store" where
  "sample_final_store = projr (machine_run sample_store_step sample_running_store [sample_commit])"

lemma sample_store_runs:
  "machine_run sample_store_step (empty_store (sample_fields 0))
     [BindScope ''lab'' ''run-1'', ClaimRecord (sample_record ACCEPTED) [] None] = Inr sample_claimed_store"
  "machine_run sample_store_step sample_claimed_store [SaveRecord (sample_record RUNNING)] = Inr sample_running_store"
  "machine_run sample_store_step sample_running_store [sample_commit] = Inr sample_final_store"
  by code_simp+

lemmas sample_store_reach = sample_store_runs [THEN machine_run_reach]

lemma sample_records_kept:
  "dget (store_records sample_claimed_store) ''op-1'' = Some (sample_record ACCEPTED)"
  "dget (store_records sample_running_store) ''op-1'' = Some (sample_record RUNNING)"
  "dget (store_records sample_final_store) ''op-1'' = Some (sample_record SUCCEEDED)"
  by code_simp+

lemma sample_states:
  "op_state (sample_record ACCEPTED) = ACCEPTED" "op_state (sample_record SUCCEEDED) = SUCCEEDED"
  "op_state (sample_record RUNNING) = RUNNING"
  by code_simp+

section \<open>Witnesses\<close>

theorem store_runs_stay_consistent_witness:
  "find_by_idempotency ''key-1'' (Some sample_context) sample_claimed_store = Inr (Some (sample_record ACCEPTED))
   \<and> dget (store_guards sample_claimed_store) ''op-1'' = Some (sample_record ACCEPTED)"
proof -
  have "require_idempotency_key ''key-1'' = Inr ''key-1'' \<and> op_key (sample_record ACCEPTED) = ''key-1''
      \<and> op_id (sample_record ACCEPTED) = ''op-1''
      \<and> receipt_context (op_receipt (sample_record ACCEPTED)) = sample_context"
    by code_simp
  with store_runs_stay_consistent [OF sample_store_reach(1), of "''op-1''" "sample_record ACCEPTED" "''key-1''" sample_context]
    sample_records_kept(1) sample_states(1)
  show ?thesis by simp
qed

theorem operations_follow_lifecycle_witness:
  "\<exists>r'. dget (store_records sample_final_store) ''op-1'' = Some r' \<and> op_key r' = ''key-1''
     \<and> (ACCEPTED, op_state r') \<in> LEGAL_OPERATION_TRANSITIONS\<^sup>*"
proof -
  have "machine_reach sample_store_step sample_claimed_store sample_final_store"
    using sample_store_reach(2,3) by (blast intro: machine_reach_trans)
  moreover have "op_key (sample_record ACCEPTED) = ''key-1''" by code_simp
  ultimately show ?thesis
    using operations_follow_lifecycle [OF sample_store_reach(1) sample_records_kept(1)] sample_states(1) by metis
qed

theorem claims_are_granted_once_witness:
  "\<exists>current. dget (store_records sample_running_store) ''op-1'' = Some current
     \<and> claim_record (sample_record ACCEPTED) [] None sample_running_store =
         (if require_same_idempotency_replay current (sample_record ACCEPTED) [] = Inr ()
          then Inr (current, sample_running_store) else Inl IdempotencyClaimConflict)"
proof -
  have claim: "claim_record (sample_record ACCEPTED) [] None sample_claimed_store
      = Inr (sample_record ACCEPTED, sample_claimed_store)"
    by code_simp
  have "op_key (sample_record ACCEPTED) \<noteq> [] \<and> op_id (sample_record ACCEPTED) = ''op-1''" by code_simp
  with claims_are_granted_once [OF sample_store_reach(1) claim _ sample_store_reach(2), of "sample_record ACCEPTED"]
  show ?thesis by simp
qed

theorem snapshot_updates_are_never_lost_witness:
  "store_revision sample_final_store = 1
   \<and> store_step history_body sample_commit sample_final_store = Inr sample_final_store"
proof -
  have step: "store_step history_body sample_commit sample_running_store = Inr sample_final_store"
    using sample_store_runs(3) by (simp add: errs)
  have facts: "store_snapshot sample_final_store \<noteq> store_snapshot sample_running_store"
    "expected_revision_of sample_commit = Some (store_revision sample_running_store)"
    "store_revision sample_running_store = 0"
    by code_simp+
  have "\<not> isl (store_step history_body sample_commit sample_final_store)" by code_simp
  then obtain m3 where m3: "store_step history_body sample_commit sample_final_store = Inr m3"
    by (cases "store_step history_body sample_commit sample_final_store") simp_all
  from snapshot_updates_are_never_lost [OF step facts(1) machine_reach.reach_start facts(2) m3] m3 facts(3)
  show ?thesis by simp
qed

theorem terminal_commits_can_be_repeated_witness:
  "\<exists>event. store_audit sample_final_store = store_audit sample_running_store @ [event]
     \<and> audit_operation_id event = ''op-1''"
proof -
  have "commit_terminal_operation (sample_fields 1) (sample_record SUCCEEDED) None SNAPSHOT_BEARING 0 sample_running_store
      = Inr sample_final_store"
    using sample_store_runs(3) by (simp add: sample_commit_def errs)
  moreover have "sample_final_store \<noteq> sample_running_store" by code_simp
  moreover have "op_id (sample_record SUCCEEDED) = ''op-1''" by code_simp
  ultimately show ?thesis using terminal_commits_can_be_repeated by metis
qed

theorem refreshed_views_are_complete_witness:
  "\<exists>view1 view2. refresh_operation_records \<lparr>view_operations = [], view_cursor = None\<rparr> sample_claimed_store = Inr view1
     \<and> refresh_operation_records view1 sample_running_store = Inr view2
     \<and> dget (view_operations view2) ''op-1'' = Some (sample_record RUNNING)"
proof -
  have "view_cursor \<lparr>view_operations = [] :: (string, unit operation_record) dict, view_cursor = None\<rparr> = None" by simp
  from refreshed_views_are_complete [OF sample_store_reach(1,2) this] show ?thesis
    using sample_records_kept(2) by metis
qed

end
