(* ===== verification/PyValues.thy ===== *)
theory PyValues
  imports Prelude
begin

text \<open>
  Python values as the admission of runtime values sees them, and the immutable histories that are
  kept among them (raes_contracts/immutable_history.py).
\<close>

section \<open>Values\<close>

text \<open>A string is the list of its code points.\<close>

type_synonym py_text = "nat list"

definition text_of :: "string \<Rightarrow> py_text" where
  "text_of s = map of_char s"

text \<open>\<open>len(s.encode("utf-8"))\<close>; a surrogate code point raises.\<close>

fun utf8_size :: "py_text \<Rightarrow> nat option" where
  "utf8_size [] = Some 0"
| "utf8_size (c # cs) =
     (if 0xD800 \<le> c \<and> c \<le> 0xDFFF then None
      else map_option ((+) (if c < 0x80 then 1 else if c < 0x800 then 2 else if c < 0x10000 then 3 else 4))
             (utf8_size cs))"

fun nat_bits :: "nat \<Rightarrow> nat" where
  "nat_bits n = (if n = 0 then 0 else Suc (nat_bits (n div 2)))"

declare nat_bits.simps [simp del]

definition bit_length :: "int \<Rightarrow> nat" where
  "bit_length n = nat_bits (nat \<bar>n\<bar>)"

datatype py_float = Finite_Float int int | Infinite_Float bool | Not_A_Number

fun is_finite :: "py_float \<Rightarrow> bool" where
  "is_finite (Finite_Float m e) = True"
| "is_finite _ = False"

datatype py_key = KText py_text | KInt int

record value_costs =
  cost_nodes :: nat
  cost_scalar_bytes :: nat
  cost_max_scalar :: nat
  cost_depth :: nat
  cost_members :: nat
  cost_valid :: bool

datatype ('v, 'i) event_history =
  EventHistory (history_entries: "('v \<times> string) list") (history_costs: value_costs) (history_index: "'i option")

datatype 'i py_value =
  PNone
| PBool bool
| PInt int
| PFloat py_float
| PStr py_text
| PDocument py_text
| PDict "(py_key \<times> 'i py_value) list"
| PList "'i py_value list"
| PTuple "'i py_value list"
| PEnum bool "'i py_value"
| PRecord "(py_text \<times> bool \<times> 'i py_value) list" "(py_text \<times> 'i py_value) list"
| PHistory "('i py_value, 'i) event_history"
| PHistoryMap "(py_text \<times> ('i py_value, 'i) event_history) list"
| POther

lemma entries_size: "Suc (size_list (\<lambda>e. size (fst e)) (history_entries h)) \<le> size_event_history size f h"
proof (cases h)
  case (EventHistory es costs idx)
  have "size_list (\<lambda>e. size (fst e)) es \<le> size_list (size_prod size (\<lambda>_. 0)) es"
    by (intro size_list_pointwise) (simp add: size_prod_simp)
  with EventHistory show ?thesis by simp
qed

lemma entry_size [termination_simp]:
  assumes "(v, d) \<in> set (history_entries h)"
  shows "size v < Suc (size_event_history size f h)"
proof -
  have "size v \<le> size_list (\<lambda>e. size (fst e)) (history_entries h)"
    by (intro size_list_estimation' [OF assms]) simp
  also have "\<dots> < size_event_history size f h" using entries_size [of h f] by simp
  finally show ?thesis by simp
qed

lemma map_entry_size [termination_simp]:
  assumes "(p, h) \<in> set hs" and "(v, d) \<in> set (history_entries h)"
  shows "size v < Suc (size_list (\<lambda>x. Suc (size_event_history size f (snd x))) hs)"
proof -
  have "size v \<le> size_list (\<lambda>x. Suc (size_event_history size f (snd x))) hs"
    using entry_size [OF assms(2), of f] by (intro size_list_estimation' [OF assms(1)]) simp
  then show ?thesis by simp
qed

fun mutable_value :: "'i py_value \<Rightarrow> 'i py_value" where
  "mutable_value (PDict kvs) = PDict (map (\<lambda>(k, v). (k, mutable_value v)) kvs)"
| "mutable_value (PList vs) = PList (map mutable_value vs)"
| "mutable_value (PTuple vs) = PList (map mutable_value vs)"
| "mutable_value (PHistory h) = PList (map (\<lambda>(v, d). mutable_value v) (history_entries h))"
| "mutable_value (PHistoryMap hs) =
     PDict (map (\<lambda>(p, h). (KText p, PList (map (\<lambda>(v, d). mutable_value v) (history_entries h)))) hs)"
| "mutable_value v = v"

lemma size_mutable: "size (mutable_value (v :: 'i py_value)) \<le> size v"
proof (induction v rule: mutable_value.induct)
  case (1 kvs)
  have "size_list (size_prod (\<lambda>x. 0) size \<circ> (\<lambda>(k, v). (k, mutable_value v))) kvs
      \<le> size_list (size_prod (\<lambda>x. 0) size) kvs"
    by (intro size_list_pointwise) (auto simp: size_prod_simp intro: "1.IH")
  then show ?case by simp
next
  case (4 h)
  have "size_list (size \<circ> (\<lambda>(v, d). mutable_value v)) (history_entries h)
      \<le> size_list (\<lambda>e. size (fst e)) (history_entries h)"
    by (intro size_list_pointwise) (auto intro: "4.IH")
  also have "\<dots> < size_event_history size (\<lambda>x. 0) h" using entries_size [of h "\<lambda>x. 0"] by simp
  finally show ?case by simp
next
  case (5 hs)
  have "size_list (size \<circ> (\<lambda>(v, d). mutable_value v)) (history_entries h) < size_event_history size (\<lambda>x. 0) h"
    if "(p, h) \<in> set hs" for p h
  proof -
    have "size_list (size \<circ> (\<lambda>(v, d). mutable_value v)) (history_entries h)
        \<le> size_list (\<lambda>e. size (fst e)) (history_entries h)"
      by (intro size_list_pointwise) (auto intro: "5.IH" [OF that refl])
    also have "\<dots> < size_event_history size (\<lambda>x. 0) h" using entries_size [of h "\<lambda>x. 0"] by simp
    finally show ?thesis .
  qed
  then have "size_list (size_prod (\<lambda>x. 0) size \<circ>
        (\<lambda>(p, h). (KText p, PList (map (\<lambda>(v, d). mutable_value v) (history_entries h))))) hs
      \<le> size_list (size_prod (\<lambda>x. 0) (size_event_history size (\<lambda>x. 0))) hs"
    by (intro size_list_pointwise) (auto simp: size_prod_simp Suc_le_eq)
  then show ?case by simp
qed (auto intro: size_list_pointwise)

section \<open>The members of a container\<close>

text \<open>The iteration over a mapping gives its items, over a sequence its enumerated elements.\<close>

fun index_from :: "nat \<Rightarrow> 'a list \<Rightarrow> (py_key \<times> 'a) list" where
  "index_from n [] = []"
| "index_from n (v # vs) = (KInt (int n), v) # index_from (Suc n) vs"

fun children :: "'i py_value \<Rightarrow> (py_key \<times> 'i py_value) list" where
  "children (PDict kvs) = kvs"
| "children (PList vs) = index_from 0 vs"
| "children (PTuple vs) = index_from 0 vs"
| "children (PHistory h) = index_from 0 (map (\<lambda>(v, d). mutable_value v) (history_entries h))"
| "children (PHistoryMap hs) = map (\<lambda>(p, h). (KText p, PHistory h)) hs"
| "children v = []"

fun is_mapping :: "'i py_value \<Rightarrow> bool" where
  "is_mapping (PDict kvs) = True"
| "is_mapping (PHistoryMap hs) = True"
| "is_mapping v = False"

fun is_container :: "'i py_value \<Rightarrow> bool" where
  "is_container (PDict kvs) = True"
| "is_container (PList vs) = True"
| "is_container (PTuple vs) = True"
| "is_container (PHistory h) = True"
| "is_container (PHistoryMap hs) = True"
| "is_container v = False"

lemma snd_index_from [simp]: "map snd (index_from n vs) = vs"
  by (induction vs arbitrary: n) auto

lemma in_index_from: "(k, v) \<in> set (index_from n vs) \<Longrightarrow> v \<in> set vs"
  by (induction vs arbitrary: n) auto

lemma size_in_list: "x \<in> set xs \<Longrightarrow> f x < Suc (size_list f xs)"
  using size_list_estimation' [of x xs "f x" f] by simp

lemma child_size:
  assumes "(k, c) \<in> set (children v)"
  shows "size c < size v"
proof (cases v)
  case (PDict kvs)
  with assms size_in_list [of "(k, c)" kvs "\<lambda>x. Suc (size (snd x))"] show ?thesis by (simp add: size_prod_simp)
next
  case (PList vs)
  with assms show ?thesis by (auto dest!: in_index_from intro: size_in_list)
next
  case (PTuple vs)
  with assms show ?thesis by (auto dest!: in_index_from intro: size_in_list)
next
  case (PHistory h)
  with assms obtain v' d where e: "(v', d) \<in> set (history_entries h)" "c = mutable_value v'"
    by (auto dest!: in_index_from)
  have "size c \<le> size v'" unfolding e(2) by (rule size_mutable)
  also have "size v' < size v" using entry_size [OF e(1), of "\<lambda>x. 0"] PHistory by simp
  finally show ?thesis .
next
  case (PHistoryMap hs)
  with assms obtain p h where e: "(p, h) \<in> set hs" "c = PHistory h" by auto
  with size_in_list [OF e(1), of "\<lambda>x. Suc (size_event_history size (\<lambda>x. 0) (snd x))"] PHistoryMap
  show ?thesis by (simp add: size_prod_simp)
qed (use assms in auto)

section \<open>Costs\<close>

datatype history_error =
  NotJson \<comment> \<open>TypeError: history records must contain JSON values\<close>
| NotSerializable \<comment> \<open>json.dumps refuses a number that is not finite, or keys it cannot sort\<close>
| InvalidText \<comment> \<open>UnicodeEncodeError\<close>
| RecordNotObject
| RejectedRecord \<comment> \<open>raised by the record policy\<close>
| RepeatedIdentity
| UnhashableIdentity
| EmptyHistoryKey
| InvalidRetainedHistory
| PrefixOutOfRange
| IndexOutOfRange

definition unit_costs :: value_costs where
  "unit_costs = \<lparr>cost_nodes = 1, cost_scalar_bytes = 0, cost_max_scalar = 0, cost_depth = 0, cost_members = 0,
     cost_valid = True\<rparr>"

definition extend_costs :: "value_costs \<Rightarrow> value_costs \<Rightarrow> nat \<Rightarrow> nat \<Rightarrow> value_costs" where
  "extend_costs costs child key_bytes members =
     \<lparr>cost_nodes = cost_nodes costs + cost_nodes child,
      cost_scalar_bytes = cost_scalar_bytes costs + cost_scalar_bytes child + key_bytes,
      cost_max_scalar = max (max (cost_max_scalar costs) (cost_max_scalar child)) key_bytes,
      cost_depth = max (cost_depth costs) (cost_depth child + 1),
      cost_members = max (max (cost_members costs) (cost_members child)) members,
      cost_valid = (cost_valid costs \<and> cost_valid child)\<rparr>"

definition invalid_costs :: value_costs where
  "invalid_costs = unit_costs\<lparr>cost_valid := False\<rparr>"

definition sized_costs :: "nat \<Rightarrow> bool \<Rightarrow> value_costs" where
  "sized_costs n valid = unit_costs\<lparr>cost_scalar_bytes := n, cost_max_scalar := n, cost_valid := valid\<rparr>"

text \<open>The text of a value that is an instance of \<open>str\<close>.\<close>

fun str_text :: "'i py_value \<Rightarrow> py_text option" where
  "str_text (PStr t) = Some t"
| "str_text (PDocument t) = Some t"
| "str_text (PEnum True (PStr t)) = Some t"
| "str_text v = None"

definition encoded_size :: "py_text \<Rightarrow> history_error + nat" where
  "encoded_size t = (case utf8_size t of None \<Rightarrow> Inl InvalidText | Some n \<Rightarrow> Inr n)"

definition int_size :: "int \<Rightarrow> nat" where
  "int_size n = max 1 ((bit_length n + 7) div 8)"

definition scalar_costs :: "'i py_value \<Rightarrow> history_error + value_costs" where
  "scalar_costs v =
     (case str_text v of
        Some t \<Rightarrow> ebind (encoded_size t) (\<lambda>n. Inr (sized_costs n True))
      | None \<Rightarrow> (case v of
            PInt n \<Rightarrow> Inr (sized_costs (int_size n) True)
          | PBool b \<Rightarrow> Inr (sized_costs 8 True)
          | PFloat f \<Rightarrow> Inr (sized_costs 8 (is_finite f))
          | PNone \<Rightarrow> Inr (sized_costs 8 True)
          | _ \<Rightarrow> Inr invalid_costs))"

text \<open>The bytes that the key of a member costs; a mapping whose keys are not all strings has none.\<close>

definition key_bytes :: "bool \<Rightarrow> py_key \<Rightarrow> history_error + nat option" where
  "key_bytes mapping k =
     (if \<not> mapping then Inr (Some 0)
      else (case k of
              KInt n \<Rightarrow> Inr None
            | KText t \<Rightarrow> ebind (encoded_size t) (\<lambda>n. Inr (Some n))))"

definition largest :: "(py_key \<times> 'i py_value) list \<Rightarrow> nat" where
  "largest members = foldr max (map (size \<circ> snd) members) 0"

lemma largest_simps [simp]:
  "largest [] = 0" "largest ((k, c) # members) = max (size c) (largest members)"
  by (simp_all add: largest_def)

lemma largest_less: "\<forall>m \<in> set members. size (snd m) < n \<Longrightarrow> 0 < n \<Longrightarrow> largest members < n"
  by (induction members) auto

lemma container_size: "is_container v \<Longrightarrow> 0 < size v"
  by (cases v) auto

lemma largest_child: "is_container v \<Longrightarrow> largest (children v) < size v"
  using child_size container_size by (intro largest_less) auto

text \<open>A history keeps the costs of its records.\<close>

fun retained_costs :: "'i py_value \<Rightarrow> value_costs option" where
  "retained_costs (PHistory h) = Some (history_costs h)"
| "retained_costs v = None"

function costs_of :: "'i py_value \<Rightarrow> history_error + value_costs"
  and member_costs :: "bool \<Rightarrow> (py_key \<times> 'i py_value) list \<Rightarrow> value_costs \<Rightarrow> history_error + value_costs" where
  "costs_of v =
     (case retained_costs v of
        Some costs \<Rightarrow> Inr costs
      | None \<Rightarrow>
          if is_container v
          then member_costs (is_mapping v) (children v) (unit_costs\<lparr>cost_members := length (children v)\<rparr>)
          else scalar_costs v)"
| "member_costs mapping [] result = Inr result"
| "member_costs mapping ((k, c) # members) result =
     ebind (key_bytes mapping k) (\<lambda>n. case n of
         None \<Rightarrow> Inr invalid_costs
       | Some n \<Rightarrow> ebind (costs_of c) (\<lambda>child. member_costs mapping members (extend_costs result child n 0)))"
  by pat_completeness auto
termination
proof (relation "measures [\<lambda>x. case x of Inl v \<Rightarrow> 2 * size v | Inr (mapping, members, result) \<Rightarrow> 2 * largest members + 1,
    \<lambda>x. case x of Inl v \<Rightarrow> 0 | Inr (mapping, members, result) \<Rightarrow> length members]", goal_cases)
qed (auto dest: largest_child)

declare costs_of.simps [simp del]

end
