(* ===== verification/ImmutableHistory.thy ===== *)
theory ImmutableHistory
  imports PyValues
begin

text \<open>
  Immutable histories (raes_contracts/immutable_history.py): a history of one participant with the
  digest of each of its prefixes and its costs, and the map of the histories of all participants
  with the identities of their records; and the check of participant_crossing_history.py that a
  history still has its earlier prefix.

  A record that is not a mapping is refused where the code passes it to \<open>dict\<close>. Slices of a history
  are not modelled. The persistent maps and sets are those of the library that the code imports:
  they are HOL sets and maps here.
\<close>

section \<open>Freezing a record\<close>

lemma collect_cong [fundef_cong]:
  "xs = ys \<Longrightarrow> (\<And>x. x \<in> set ys \<Longrightarrow> f x = g x) \<Longrightarrow> collect f xs = collect g ys"
proof -
  have "(\<And>x. x \<in> set zs \<Longrightarrow> f x = g x) \<Longrightarrow> efold (\<lambda>ys x. ebind (f x) (\<lambda>y. Inr (ys @ [y]))) acc zs
      = efold (\<lambda>ys x. ebind (g x) (\<lambda>y. Inr (ys @ [y]))) acc zs" for zs acc
    by (induction zs arbitrary: acc) (auto intro: ebind_cong)
  then show "xs = ys \<Longrightarrow> (\<And>x. x \<in> set ys \<Longrightarrow> f x = g x) \<Longrightarrow> collect f xs = collect g ys"
    by (simp add: collect_def)
qed

fun freeze :: "'i py_value \<Rightarrow> history_error + 'i py_value" where
  "freeze (PDict kvs) =
     ebind (collect (\<lambda>(k, v). ebind (freeze v) (\<lambda>w. Inr (k, w))) kvs) (\<lambda>items. Inr (PDict items))"
| "freeze (PHistoryMap hs) = (if hs = [] then Inr (PDict []) else Inl NotJson)"
| "freeze (PList vs) = ebind (collect freeze vs) (\<lambda>ws. Inr (PTuple ws))"
| "freeze (PTuple vs) = ebind (collect freeze vs) (\<lambda>ws. Inr (PTuple ws))"
| "freeze PNone = Inr PNone"
| "freeze (PStr t) = Inr (PStr t)"
| "freeze (PBool b) = Inr (PBool b)"
| "freeze (PInt n) = Inr (PInt n)"
| "freeze (PFloat f) = Inr (PFloat f)"
| "freeze v = Inl NotJson"

text \<open>
  The text of a frozen record refuses numbers that are not finite, and sorts the keys of every
  mapping, which raises when strings and integers are among them.
\<close>

definition sortable_keys :: "py_key list \<Rightarrow> bool" where
  "sortable_keys ks \<longleftrightarrow>
     list_all (\<lambda>k. case k of KText t \<Rightarrow> True | KInt n \<Rightarrow> False) ks
     \<or> list_all (\<lambda>k. case k of KText t \<Rightarrow> False | KInt n \<Rightarrow> True) ks"

fun serializable :: "'i py_value \<Rightarrow> bool" where
  "serializable (PDict kvs) \<longleftrightarrow> sortable_keys (map fst kvs) \<and> list_all (\<lambda>(k, v). serializable v) kvs"
| "serializable (PList vs) \<longleftrightarrow> list_all serializable vs"
| "serializable (PTuple vs) \<longleftrightarrow> list_all serializable vs"
| "serializable (PFloat f) \<longleftrightarrow> is_finite f"
| "serializable v \<longleftrightarrow> True"

section \<open>The history of one participant\<close>

text \<open>
  The digest of no record, the sorted text of a record, and the digest of the bytes of an earlier
  digest with a text behind them.
\<close>

record 'i digest_chain =
  empty_digest :: string
  record_text :: "'i py_value \<Rightarrow> string"
  link_digest :: "string \<Rightarrow> string \<Rightarrow> string"

datatype history_identity = SingleIdentity py_text | PairIdentity py_text py_text

record 'i history_policy =
  policy_identity :: "py_text \<Rightarrow> 'i py_value \<Rightarrow> nat \<Rightarrow> history_error + history_identity option"
  retains_invalid :: bool
  policy_index :: "('i \<times> (nat \<Rightarrow> 'i py_value \<Rightarrow> 'i \<Rightarrow> 'i)) option"

definition DEFAULT_HISTORY_POLICY :: "'i history_policy" where
  "DEFAULT_HISTORY_POLICY =
     \<lparr>policy_identity = \<lambda>participant record position. Inr None, retains_invalid = False, policy_index = None\<rparr>"

type_synonym 'i history = "('i py_value, 'i) event_history"

definition empty_history :: "'i history" where
  "empty_history = EventHistory [] unit_costs None"

definition history_length :: "'i history \<Rightarrow> nat" where
  "history_length h = length (history_entries h)"

definition prefix_digest :: "'i digest_chain \<Rightarrow> 'i history \<Rightarrow> int \<Rightarrow> history_error + string" where
  "prefix_digest ch h n =
     (if \<not> (0 \<le> n \<and> n \<le> int (history_length h)) then Inl PrefixOutOfRange
      else Inr (if n = 0 then empty_digest ch else snd (history_entries h ! nat (n - 1))))"

definition history_item :: "'i history \<Rightarrow> int \<Rightarrow> history_error + 'i py_value" where
  "history_item h position =
     (let n = int (history_length h); p = (if position < 0 then position + n else position) in
      if 0 \<le> p \<and> p < n then Inr (mutable_value (fst (history_entries h ! nat p))) else Inl IndexOutOfRange)"

definition same_history :: "'i digest_chain \<Rightarrow> 'i history \<Rightarrow> 'i history \<Rightarrow> bool" where
  "same_history ch h h' \<longleftrightarrow>
     history_length h = history_length h'
     \<and> prefix_digest ch h (int (history_length h)) = prefix_digest ch h' (int (history_length h'))"

definition next_index :: "'i history_policy \<Rightarrow> nat \<Rightarrow> 'i py_value \<Rightarrow> 'i option \<Rightarrow> 'i option" where
  "next_index policy position v index =
     (case policy_index policy of
        None \<Rightarrow> index
      | Some (initial, grow) \<Rightarrow> Some (grow position v (case index of None \<Rightarrow> initial | Some i \<Rightarrow> i)))"

definition mapping_items :: "'i py_value \<Rightarrow> history_error + (py_key \<times> 'i py_value) list" where
  "mapping_items v = (if is_mapping v then Inr (children v) else Inl RecordNotObject)"

definition appended ::
    "'i digest_chain \<Rightarrow> 'i history_policy \<Rightarrow> 'i py_value \<Rightarrow> 'i history \<Rightarrow> history_error + 'i history" where
  "appended ch policy payload h =
     ebind (mapping_items payload) (\<lambda>items.
     ebind (freeze (PDict items)) (\<lambda>frozen.
     ebind (require (serializable (mutable_value frozen)) NotSerializable) (\<lambda>_.
     ebind (prefix_digest ch h (int (history_length h))) (\<lambda>previous.
     ebind (costs_of frozen) (\<lambda>costs.
       Inr (EventHistory
         (history_entries h @ [(frozen, link_digest ch previous (record_text ch (mutable_value frozen)))])
         (extend_costs (history_costs h) costs 0 (history_length h + 1))
         (next_index policy (history_length h) frozen (history_index h))))))))"

section \<open>The histories of all participants\<close>

definition record_identity ::
    "'i history_policy \<Rightarrow> py_text \<Rightarrow> 'i py_value \<Rightarrow> nat \<Rightarrow> history_identity set \<Rightarrow>
       history_error + history_identity option" where
  "record_identity policy participant v position identities =
     ebind (require (is_mapping v) RecordNotObject) (\<lambda>_.
     ebind (policy_identity policy participant v position) (\<lambda>identity.
     ebind (require (case identity of None \<Rightarrow> True | Some i \<Rightarrow> i \<notin> identities) RepeatedIdentity) (\<lambda>_.
       Inr identity)))"

definition retained_identity ::
    "'i history_policy \<Rightarrow> py_text \<Rightarrow> 'i py_value \<Rightarrow> nat \<Rightarrow> history_identity set \<Rightarrow>
       history_error + (history_identity option \<times> bool)" where
  "retained_identity policy participant v position identities =
     (case record_identity policy participant v position identities of
        Inr identity \<Rightarrow> Inr (identity, True)
      | Inl e \<Rightarrow> if \<not> retains_invalid policy then Inl e else Inr (None, False))"

text \<open>The values that Python counts as true, and those that can be a key.\<close>

fun truthy :: "'i py_value \<Rightarrow> bool" where
  "truthy PNone = False"
| "truthy (PBool b) = b"
| "truthy (PInt n) = (n \<noteq> 0)"
| "truthy (PFloat f) = (case f of Finite_Float m e \<Rightarrow> m \<noteq> 0 | _ \<Rightarrow> True)"
| "truthy (PStr t) = (t \<noteq> [])"
| "truthy (PDocument t) = (t \<noteq> [])"
| "truthy (PEnum is_str v) = (if is_str then truthy v else True)"
| "truthy (PRecord names extra) = True"
| "truthy POther = True"
| "truthy v = (children v \<noteq> [])"

fun hashable :: "'i py_value \<Rightarrow> bool" where
  "hashable (PTuple vs) = list_all hashable vs"
| "hashable (PDict kvs) = False"
| "hashable (PList vs) = False"
| "hashable (PHistory h) = False"
| "hashable (PHistoryMap hs) = False"
| "hashable v = True"

definition member_value :: "'i py_value \<Rightarrow> string \<Rightarrow> 'i py_value" where
  "member_value v name = (case dget (children v) (KText (text_of name)) of None \<Rightarrow> PNone | Some w \<Rightarrow> w)"

definition record_id :: "'i py_value \<Rightarrow> history_error + 'i py_value" where
  "record_id v =
     (let e = member_value v ''evaluation_id'';
          i = (if truthy e then e else member_value v ''event_id'') in
      ebind (require (hashable i) UnhashableIdentity) (\<lambda>_. Inr i))"

type_synonym 'i record_positions = "py_text \<times> 'i py_value \<Rightarrow> nat option"

definition absorb_record ::
    "'i digest_chain \<Rightarrow> 'i history_policy \<Rightarrow> py_text \<Rightarrow> history_identity option \<Rightarrow> 'i py_value \<Rightarrow>
       history_identity set \<times> 'i record_positions \<times> 'i history \<Rightarrow>
       history_error + (history_identity set \<times> 'i record_positions \<times> 'i history)" where
  "absorb_record ch policy participant identity v state =
     (case state of (identities, positions, sequence) \<Rightarrow>
        ebind (case identity of
                 None \<Rightarrow> Inr (identities, positions)
               | Some i \<Rightarrow> ebind (record_id v) (\<lambda>r.
                   Inr (insert i identities, positions((participant, r) \<mapsto> history_length sequence)))) (\<lambda>(identities', positions').
        ebind (appended ch policy v sequence) (\<lambda>sequence'. Inr (identities', positions', sequence'))))"

record 'i history_map =
  hm_field :: string
  hm_policy :: "'i history_policy"
  hm_values :: "(py_text, 'i history) dict"
  hm_keys :: "py_text list"
  hm_identities :: "history_identity set"
  hm_positions :: "'i record_positions"
  shape_valid :: bool

definition retain_record ::
    "'i digest_chain \<Rightarrow> 'i history_policy \<Rightarrow> py_text \<Rightarrow>
       (history_identity set \<times> 'i record_positions \<times> 'i history) \<times> bool \<Rightarrow> 'i py_value \<Rightarrow>
       history_error + ((history_identity set \<times> 'i record_positions \<times> 'i history) \<times> bool)" where
  "retain_record ch policy participant state v =
     (case state of ((identities, positions, sequence), ok) \<Rightarrow>
        ebind (retained_identity policy participant v (history_length sequence + 1) identities) (\<lambda>(identity, accepted).
        ebind (absorb_record ch policy participant identity v (identities, positions, sequence)) (\<lambda>state'.
          Inr (state', ok \<and> accepted))))"

definition retain_history ::
    "'i digest_chain \<Rightarrow> 'i history_policy \<Rightarrow>
       (py_text, 'i history) dict \<times> history_identity set \<times> 'i record_positions \<times> bool \<Rightarrow>
       py_text \<times> 'i py_value list \<Rightarrow>
       history_error + ((py_text, 'i history) dict \<times> history_identity set \<times> 'i record_positions \<times> bool)" where
  "retain_history ch policy state item =
     (case (state, item) of ((vals, identities, positions, ok), (participant, vs)) \<Rightarrow>
        ebind (require (participant \<noteq> []) EmptyHistoryKey) (\<lambda>_.
        ebind (efold (retain_record ch policy participant) ((identities, positions, empty_history), ok) vs)
          (\<lambda>((identities', positions', sequence), ok').
            Inr (dput participant sequence vals, identities', positions', ok'))))"

definition make_history_map ::
    "'i digest_chain \<Rightarrow> string \<Rightarrow> (py_text, 'i py_value list) dict \<Rightarrow> 'i history_policy \<Rightarrow>
       history_error + 'i history_map" where
  "make_history_map ch field histories policy =
     ebind (efold (retain_history ch policy) ([], {}, Map.empty, True) histories) (\<lambda>(vals, identities, positions, ok).
       Inr \<lparr>hm_field = field, hm_policy = policy, hm_values = vals, hm_keys = dkeys vals,
            hm_identities = identities, hm_positions = positions, shape_valid = ok\<rparr>)"

definition append_record ::
    "'i digest_chain \<Rightarrow> 'i history_policy \<Rightarrow> py_text \<Rightarrow>
       history_identity set \<times> 'i record_positions \<times> 'i history \<Rightarrow> 'i py_value \<Rightarrow>
       history_error + (history_identity set \<times> 'i record_positions \<times> 'i history)" where
  "append_record ch policy participant state v =
     (case state of (identities, positions, sequence) \<Rightarrow>
        ebind (record_identity policy participant v (history_length sequence + 1) identities) (\<lambda>identity.
          absorb_record ch policy participant identity v state))"

definition append_records ::
    "'i digest_chain \<Rightarrow> py_text \<Rightarrow> 'i py_value list \<Rightarrow> 'i history_map \<Rightarrow> history_error + 'i history_map" where
  "append_records ch participant vs m =
     ebind (require (shape_valid m) InvalidRetainedHistory) (\<lambda>_.
     ebind (require (participant \<noteq> []) EmptyHistoryKey) (\<lambda>_.
     (let sequence = (case dget (hm_values m) participant of None \<Rightarrow> empty_history | Some h \<Rightarrow> h) in
      ebind (efold (append_record ch (hm_policy m) participant) (hm_identities m, hm_positions m, sequence) vs)
        (\<lambda>(identities, positions, sequence').
          Inr (m\<lparr>hm_values := dput participant sequence' (hm_values m),
                 hm_keys := (if participant \<in> set (hm_keys m) then hm_keys m else hm_keys m @ [participant]),
                 hm_identities := identities, hm_positions := positions, shape_valid := True\<rparr>)))))"

definition find_record :: "'i history_map \<Rightarrow> py_text \<Rightarrow> py_text \<Rightarrow> history_error + 'i py_value option" where
  "find_record m participant identity =
     (case hm_positions m (participant, PStr identity) of
        None \<Rightarrow> Inr None
      | Some position \<Rightarrow>
          ebind (history_item (the (dget (hm_values m) participant)) (int position)) (\<lambda>v. Inr (Some v)))"

text \<open>A history map as a value.\<close>

definition map_value :: "'i history_map \<Rightarrow> 'i py_value" where
  "map_value m = PHistoryMap (map (\<lambda>p. (p, the (dget (hm_values m) p))) (hm_keys m))"

section \<open>Transitions between histories\<close>

definition preserves_prefix :: "'i digest_chain \<Rightarrow> 'i history \<Rightarrow> 'i history option \<Rightarrow> bool" where
  "preserves_prefix ch previous current \<longleftrightarrow>
     (case current of
        None \<Rightarrow> False
      | Some h \<Rightarrow>
          history_length h \<ge> history_length previous
          \<and> prefix_digest ch h (int (history_length previous)) = prefix_digest ch previous (int (history_length previous)))"

text \<open>The participants whose stream lost its prefix, in the order they are reported in.\<close>

definition crossing_transition_violations :: "'i digest_chain \<Rightarrow> 'i history_map \<Rightarrow> 'i history_map \<Rightarrow> py_text list" where
  "crossing_transition_violations ch previous current =
     filter (\<lambda>p. \<not> preserves_prefix ch (the (dget (hm_values previous) p)) (dget (hm_values current) p)) (hm_keys previous)"

end
