(* ===== verification/BoundedValues.thy ===== *)
theory BoundedValues
  imports ImmutableHistory
begin

text \<open>
  The bounded admission of a runtime value (raes_contracts/realization_structure/_common.py, with the
  limits of _models.py), and the shortcut that charges an immutable history from its stored costs
  (\<open>charge_immutable_history\<close> of raes_contracts/immutable_history.py).

  A failure keeps its status, the tokens of the path it names and its reason.
\<close>

section \<open>Limits and budgets\<close>

record constraint_limits =
  max_depth :: nat
  max_nodes :: nat
  max_operations :: nat
  max_members :: nat
  max_identity_checks :: nat
  max_scalar_bytes :: nat
  max_total_scalar_bytes :: nat
  max_document_scalar_bytes :: "nat option"

definition limits_valid :: "constraint_limits \<Rightarrow> bool" where
  "limits_valid l \<longleftrightarrow>
     1 \<le> max_depth l \<and> max_depth l \<le> 1024 \<and> 1 \<le> max_nodes l \<and> max_nodes l \<le> 1000000
     \<and> 1 \<le> max_operations l \<and> max_operations l \<le> 4000000 \<and> 1 \<le> max_members l \<and> max_members l \<le> 100000
     \<and> 1 \<le> max_identity_checks l \<and> max_identity_checks l \<le> 1000000
     \<and> 1 \<le> max_scalar_bytes l \<and> max_scalar_bytes l \<le> 8 * 1024 * 1024
     \<and> 1 \<le> max_total_scalar_bytes l \<and> max_total_scalar_bytes l \<le> 64 * 1024 * 1024
     \<and> (case max_document_scalar_bytes l of
          None \<Rightarrow> True
        | Some ceiling \<Rightarrow> 1 \<le> ceiling \<and> ceiling \<le> 8 * 1024 * 1024
            \<and> max_scalar_bytes l \<le> ceiling \<and> ceiling \<le> max_total_scalar_bytes l)"

datatype exhausted =
  EXHAUSTED_DEPTH | EXHAUSTED_NODES | EXHAUSTED_OPERATIONS | EXHAUSTED_IDENTITY_CHECKS | EXHAUSTED_SCALAR
| EXHAUSTED_DOCUMENT_SCALAR | EXHAUSTED_TOTAL_SCALAR | INVALID_UTF8

record relation_budget =
  budget_limits :: constraint_limits
  python_carriers :: bool
  spent_nodes :: nat
  spent_operations :: nat
  spent_identity_checks :: nat
  spent_scalar_bytes :: nat

definition fresh_budget :: "constraint_limits \<Rightarrow> bool \<Rightarrow> relation_budget" where
  "fresh_budget l carriers =
     \<lparr>budget_limits = l, python_carriers = carriers, spent_nodes = 0, spent_operations = 0,
      spent_identity_checks = 0, spent_scalar_bytes = 0\<rparr>"

definition spend_operation :: "relation_budget \<Rightarrow> relation_budget \<times> exhausted option" where
  "spend_operation b =
     (let b' = b\<lparr>spent_operations := spent_operations b + 1\<rparr> in
      (b', if spent_operations b' > max_operations (budget_limits b) then Some EXHAUSTED_OPERATIONS else None))"

definition spend_node :: "nat \<Rightarrow> relation_budget \<Rightarrow> relation_budget \<times> exhausted option" where
  "spend_node depth b =
     (let b' = b\<lparr>spent_nodes := spent_nodes b + 1\<rparr> in
      if depth > max_depth (budget_limits b) then (b', Some EXHAUSTED_DEPTH)
      else if spent_nodes b' > max_nodes (budget_limits b) then (b', Some EXHAUSTED_NODES)
      else spend_operation b')"

definition spend_identity :: "relation_budget \<Rightarrow> relation_budget \<times> exhausted option" where
  "spend_identity b =
     (let b' = b\<lparr>spent_identity_checks := spent_identity_checks b + 1\<rparr> in
      (b', if spent_identity_checks b' > max_identity_checks (budget_limits b)
           then Some EXHAUSTED_IDENTITY_CHECKS else None))"

definition scalar_size :: "'i py_value \<Rightarrow> nat option" where
  "scalar_size v =
     (case str_text v of
        Some t \<Rightarrow> utf8_size t
      | None \<Rightarrow> (case v of
            PInt n \<Rightarrow> Some (int_size n)
          | PFloat f \<Rightarrow> Some 8
          | PBool x \<Rightarrow> Some 8
          | PNone \<Rightarrow> Some 8
          | _ \<Rightarrow> Some 0))"

definition scalar_ceiling :: "'i py_value \<Rightarrow> relation_budget \<Rightarrow> nat \<times> exhausted" where
  "scalar_ceiling v b =
     (case (v, max_document_scalar_bytes (budget_limits b)) of
        (PDocument t, Some ceiling) \<Rightarrow> (ceiling, EXHAUSTED_DOCUMENT_SCALAR)
      | _ \<Rightarrow> (max_scalar_bytes (budget_limits b), EXHAUSTED_SCALAR))"

definition spend_scalar_size :: "nat \<Rightarrow> relation_budget \<Rightarrow> relation_budget \<times> exhausted option" where
  "spend_scalar_size n b =
     (let b' = b\<lparr>spent_scalar_bytes := spent_scalar_bytes b + n\<rparr> in
      (b', if spent_scalar_bytes b' > max_total_scalar_bytes (budget_limits b)
           then Some EXHAUSTED_TOTAL_SCALAR else None))"

definition spend_scalar :: "'i py_value \<Rightarrow> relation_budget \<Rightarrow> relation_budget \<times> exhausted option" where
  "spend_scalar v b =
     (case scalar_ceiling v b of (ceiling, limit_name) \<Rightarrow>
        if (case str_text v of None \<Rightarrow> False | Some t \<Rightarrow> length t > ceiling) then (b, Some limit_name)
        else (case scalar_size v of
                None \<Rightarrow> (b, Some INVALID_UTF8)
              | Some n \<Rightarrow> if n > ceiling then (b, Some limit_name) else spend_scalar_size n b))"

section \<open>Failures\<close>

datatype failure_status = LIMIT_EXCEEDED | INVALID

datatype failure_reason =
  Exhausted exhausted
| TooManyMembers
| NotFiniteNumber
| IntegerTooLarge
| NotJsonCompatible
| KeyNotString

record bounded_failure =
  bounded_status :: failure_status
  bounded_path :: "py_text list"
  bounded_reason :: failure_reason

definition bounded_fail :: "failure_status \<Rightarrow> py_text list \<Rightarrow> failure_reason \<Rightarrow> bounded_failure" where
  "bounded_fail status path reason = \<lparr>bounded_status = status, bounded_path = path, bounded_reason = reason\<rparr>"

definition json_type :: "bool \<Rightarrow> 'i py_value \<Rightarrow> bool" where
  "json_type carriers v \<longleftrightarrow>
     (case v of
        PStr t \<Rightarrow> True | PDocument t \<Rightarrow> True | PInt n \<Rightarrow> True | PFloat f \<Rightarrow> True | PBool x \<Rightarrow> True
      | PNone \<Rightarrow> True | PDict kvs \<Rightarrow> True | PList vs \<Rightarrow> True
      | PTuple vs \<Rightarrow> carriers | PHistory h \<Rightarrow> carriers | PHistoryMap hs \<Rightarrow> carriers
      | _ \<Rightarrow> False)"

definition bounded_scalar_failure ::
    "'i py_value \<Rightarrow> py_text list \<Rightarrow> relation_budget \<Rightarrow> relation_budget \<times> bounded_failure option" where
  "bounded_scalar_failure v path b =
     (case spend_scalar v b of (b', exhausted) \<Rightarrow>
        (b', case exhausted of
               Some e \<Rightarrow> Some (bounded_fail (if e = INVALID_UTF8 then INVALID else LIMIT_EXCEEDED) path (Exhausted e))
             | None \<Rightarrow>
                 if (case v of PFloat f \<Rightarrow> \<not> is_finite f | _ \<Rightarrow> False) then Some (bounded_fail INVALID path NotFiniteNumber)
                 else if (case v of PInt n \<Rightarrow> bit_length n > max_scalar_bytes (budget_limits b) * 8 | _ \<Rightarrow> False)
                 then Some (bounded_fail LIMIT_EXCEEDED path IntegerTooLarge)
                 else if \<not> json_type (python_carriers b) v then Some (bounded_fail INVALID path NotJsonCompatible)
                 else None))"

definition node_budget_failure ::
    "nat \<Rightarrow> py_text list \<Rightarrow> relation_budget \<Rightarrow> relation_budget \<times> bounded_failure option" where
  "node_budget_failure depth path b =
     (case spend_node depth b of (b', exhausted) \<Rightarrow>
        (b', map_option (\<lambda>e. bounded_fail LIMIT_EXCEEDED path (Exhausted e)) exhausted))"

text \<open>The decimal digits of a list index, for the token \<open>str(key)\<close>.\<close>

fun nat_digits :: "nat \<Rightarrow> py_text" where
  "nat_digits n = (if n < 10 then [48 + n] else nat_digits (n div 10) @ [48 + n mod 10])"

declare nat_digits.simps [simp del]

fun key_token :: "py_key \<Rightarrow> py_text" where
  "key_token (KText t) = t"
| "key_token (KInt n) = (if n < 0 then 45 # nat_digits (nat (- n)) else nat_digits (nat n))"

text \<open>The fields of a data transfer object as a mapping; a declared document field of type \<open>str\<close> is marked.\<close>

definition record_items :: "(py_text \<times> bool \<times> 'i py_value) list \<Rightarrow> (py_text \<times> 'i py_value) list \<Rightarrow> 'i py_value" where
  "record_items names extra =
     PDict (foldl (\<lambda>d (name, v). dput (KText name) v d)
       (map (\<lambda>(name, document, v). (KText name, case (document, v) of (True, PStr t) \<Rightarrow> PDocument t | _ \<Rightarrow> v)) names)
       extra)"

definition python_record_values ::
    "'i py_value \<Rightarrow> py_text list \<Rightarrow> relation_budget \<Rightarrow> 'i py_value \<times> bounded_failure option" where
  "python_record_values v path b =
     (case v of
        PRecord names extra \<Rightarrow>
          if length names + length extra > max_members (budget_limits b)
          then (v, Some (bounded_fail LIMIT_EXCEEDED path TooManyMembers))
          else (record_items names extra, None)
      | _ \<Rightarrow> (v, None))"

definition is_bounded_container :: "'i py_value \<Rightarrow> bool \<Rightarrow> bool" where
  "is_bounded_container v carriers \<longleftrightarrow>
     (case v of PDict kvs \<Rightarrow> True | PList vs \<Rightarrow> True
      | PTuple vs \<Rightarrow> carriers | PHistory h \<Rightarrow> carriers | PHistoryMap hs \<Rightarrow> carriers | _ \<Rightarrow> False)"

section \<open>The shortcut\<close>

definition charge_immutable_history ::
    "'i py_value \<Rightarrow> nat \<Rightarrow> relation_budget \<Rightarrow> history_error + relation_budget option" where
  "charge_immutable_history v depth b =
     (if \<not> (case v of PHistory h \<Rightarrow> True | PHistoryMap hs \<Rightarrow> True | _ \<Rightarrow> False) then Inr None
      else ebind (costs_of v) (\<lambda>costs.
        let limits = budget_limits b in
        if \<not> cost_valid costs
           \<or> depth + cost_depth costs > max_depth limits
           \<or> cost_members costs > max_members limits
           \<or> cost_max_scalar costs > max_scalar_bytes limits
           \<or> spent_nodes b + cost_nodes costs > max_nodes limits
           \<or> spent_operations b + cost_nodes costs > max_operations limits
           \<or> spent_scalar_bytes b + cost_scalar_bytes costs > max_total_scalar_bytes limits
        then Inr None
        else Inr (Some (b\<lparr>spent_nodes := spent_nodes b + cost_nodes costs,
                          spent_operations := spent_operations b + cost_nodes costs,
                          spent_scalar_bytes := spent_scalar_bytes b + cost_scalar_bytes costs\<rparr>))))"

section \<open>Admission\<close>

definition enum_value :: "'i py_value \<Rightarrow> 'i py_value" where
  "enum_value v = (case v of PEnum is_str w \<Rightarrow> w | _ \<Rightarrow> v)"

text \<open>The checks of a value before its members: the value that its members are read from, the budget, and a failure.\<close>

definition admit_value ::
    "'i py_value \<Rightarrow> py_text list \<Rightarrow> nat \<Rightarrow> relation_budget \<Rightarrow>
       'i py_value \<times> relation_budget \<times> bounded_failure option" where
  "admit_value v path depth b =
     (let v1 = (if python_carriers b then enum_value v else v) in
      case node_budget_failure depth path b of
        (b1, Some failure) \<Rightarrow> (v1, b1, Some failure)
      | (b1, None) \<Rightarrow>
          (case (if python_carriers b then python_record_values v1 path b1 else (v1, None)) of
             (v2, Some failure) \<Rightarrow> (v2, b1, Some failure)
           | (v2, None) \<Rightarrow> (v2, bounded_scalar_failure v2 path b1)))"

definition key_failure ::
    "bool \<Rightarrow> py_key \<Rightarrow> py_text list \<Rightarrow> relation_budget \<Rightarrow> relation_budget \<times> bounded_failure option" where
  "key_failure mapping k path b =
     (if \<not> mapping then (b, None)
      else (case k of
              KInt n \<Rightarrow> (b, Some (bounded_fail INVALID path KeyNotString))
            | KText t \<Rightarrow> bounded_scalar_failure (PStr t :: unit py_value) path b))"

definition charged_history :: "'i py_value \<Rightarrow> nat \<Rightarrow> relation_budget \<Rightarrow> history_error + relation_budget option" where
  "charged_history v depth b = (if python_carriers b then charge_immutable_history v depth b else Inr None)"

lemma item_size:
  assumes "(k, c) \<in> set (children (record_items names extra))"
  shows "size c < size (PRecord names extra)"
proof -
  define marked where "marked = map (\<lambda>(name, document, v :: 'a py_value).
      (KText name, case (document, v) of (True, PStr t) \<Rightarrow> PDocument t | _ \<Rightarrow> v)) names"
  have put: "set (foldl (\<lambda>d (name, v :: 'a py_value). dput (KText name) v d) d es)
      \<subseteq> set d \<union> (\<lambda>(name, v). (KText name, v)) ` set es" for d es
  proof (induction es arbitrary: d)
    case (Cons e es)
    obtain name v where e: "e = (name, v)" by (cases e)
    have "set (dput (KText name) v d) \<subseteq> insert (KText name, v) (set d)" by (induction d) auto
    with Cons [of "dput (KText name) v d"] e show ?case by auto
  qed simp
  from assms have "(k, c) \<in> set (foldl (\<lambda>d (name, v). dput (KText name) v d) marked extra)"
    by (simp add: record_items_def marked_def)
  with put have "(k, c) \<in> set marked \<or> (\<exists>name. (name, c) \<in> set extra)" by fastforce
  then show ?thesis
  proof
    assume "(k, c) \<in> set marked"
    then obtain name document v where v: "(name, document, v) \<in> set names"
      "c = (case (document, v) of (True, PStr t) \<Rightarrow> PDocument t | _ \<Rightarrow> v)"
      by (auto simp: marked_def)
    have "size c \<le> size v" unfolding v(2) by (auto split: py_value.split bool.split)
    also have "size v < Suc (size_list (\<lambda>x. Suc (Suc (size (snd (snd x))))) names)"
      using size_list_estimation' [OF v(1), of "size v" "\<lambda>x. Suc (Suc (size (snd (snd x))))"] by simp
    finally show ?thesis by (simp add: size_prod_simp)
  next
    assume "\<exists>name. (name, c) \<in> set extra"
    then obtain name where "(name, c) \<in> set extra" ..
    from size_list_estimation' [OF this, of "size c" "\<lambda>x. Suc (size (snd x))"]
    show ?thesis by (simp add: size_prod_simp)
  qed
qed

lemma admitted_value:
  assumes "admit_value v path depth b = (w, b', failure)"
  obtains u where "size u \<le> size v"
    "w = u \<or> (\<exists>names extra. u = PRecord names extra \<and> w = record_items names extra)"
proof (rule that [of "if python_carriers b then enum_value v else v"])
  show "size (if python_carriers b then enum_value v else v) \<le> size v"
    by (cases v) (auto simp: enum_value_def)
  show "w = (if python_carriers b then enum_value v else v)
      \<or> (\<exists>names extra. (if python_carriers b then enum_value v else v) = PRecord names extra \<and> w = record_items names extra)"
    using assms
    by (auto simp: admit_value_def Let_def python_record_values_def
        split: prod.splits option.splits if_splits py_value.splits)
qed

lemma admitted_child:
  assumes "admit_value v path depth b = (w, b', failure)" and "(k, c) \<in> set (children w)"
  shows "size c < size v"
proof -
  obtain u where "size u \<le> size v"
    "w = u \<or> (\<exists>names extra. u = PRecord names extra \<and> w = record_items names extra)"
    by (rule admitted_value [OF assms(1)])
  moreover from this(2) have "size c < size u" using assms(2) child_size item_size by metis
  ultimately show ?thesis by simp
qed

lemma bounded_is_container: "is_bounded_container v carriers \<Longrightarrow> is_container v"
  by (cases v) (auto simp: is_bounded_container_def)

lemma admitted_largest:
  assumes "admit_value v path depth b = (w, b', failure)" and "is_bounded_container w carriers"
  shows "largest (children w) < size v"
proof (rule largest_less)
  show "\<forall>m \<in> set (children w). size (snd m) < size v" using admitted_child [OF assms(1)] by auto
  obtain u where u: "size u \<le> size v"
    "w = u \<or> (\<exists>names extra. u = PRecord names extra \<and> w = record_items names extra)"
    by (rule admitted_value [OF assms(1)])
  from u(2) have "0 < size u"
    using container_size [OF bounded_is_container [OF assms(2)]] by auto
  with u(1) show "0 < size v" by simp
qed

function validate_bounded_value ::
    "'i py_value \<Rightarrow> py_text list \<Rightarrow> nat \<Rightarrow> relation_budget \<Rightarrow>
       history_error + (relation_budget \<times> bounded_failure option)"
  and members_failure ::
    "bool \<Rightarrow> (py_key \<times> 'i py_value) list \<Rightarrow> py_text list \<Rightarrow> nat \<Rightarrow> relation_budget \<Rightarrow>
       history_error + (relation_budget \<times> bounded_failure option)" where
  "validate_bounded_value v path depth b =
     ebind (charged_history v depth b) (\<lambda>charged. case charged of
         Some b' \<Rightarrow> Inr (b', None)
       | None \<Rightarrow>
           (case admit_value v path depth b of
              (w, b', Some failure) \<Rightarrow> Inr (b', Some failure)
            | (w, b', None) \<Rightarrow>
                if \<not> is_bounded_container w (python_carriers b) then Inr (b', None)
                else if length (children w) > max_members (budget_limits b)
                then Inr (b', Some (bounded_fail LIMIT_EXCEEDED path TooManyMembers))
                else members_failure (is_mapping w) (children w) path depth b'))"
| "members_failure mapping [] path depth b = Inr (b, None)"
| "members_failure mapping ((k, c) # members) path depth b =
     (case key_failure mapping k path b of
        (b', Some failure) \<Rightarrow> Inr (b', Some failure)
      | (b', None) \<Rightarrow>
          ebind (validate_bounded_value c (path @ [key_token k]) (depth + 1) b') (\<lambda>(b'', failure).
            case failure of
              Some f \<Rightarrow> Inr (b'', Some f)
            | None \<Rightarrow> members_failure mapping members path depth b''))"
  by pat_completeness auto
termination
proof (relation "measures
    [\<lambda>x. case x of Inl (v, path, depth, b) \<Rightarrow> 2 * size v
       | Inr (mapping, members, path, depth, b) \<Rightarrow> 2 * largest members + 1,
     \<lambda>x. case x of Inl (v, path, depth, b) \<Rightarrow> 0
       | Inr (mapping, members, path, depth, b) \<Rightarrow> length members]", goal_cases)
qed (auto dest: admitted_largest [OF sym])

declare validate_bounded_value.simps [simp del]

definition validate_realization_value ::
    "'i py_value \<Rightarrow> constraint_limits \<Rightarrow> bool \<Rightarrow> history_error + bounded_failure option" where
  "validate_realization_value v limits carriers =
     ebind (validate_bounded_value v [] 0 (fresh_budget limits carriers)) (\<lambda>(b, failure). Inr failure)"

end
