(* ===== verification/HistoryCosts.thy ===== *)
theory HistoryCosts
  imports BoundedValues
begin

text \<open>
  The bounded admission of a value is decided by its costs; the costs that a history keeps are those
  of its records.
\<close>

section \<open>Costs against limits\<close>

definition fits :: "value_costs \<Rightarrow> nat \<Rightarrow> relation_budget \<Rightarrow> bool" where
  "fits costs depth b \<longleftrightarrow>
     cost_valid costs
     \<and> depth + cost_depth costs \<le> max_depth (budget_limits b)
     \<and> cost_members costs \<le> max_members (budget_limits b)
     \<and> cost_max_scalar costs \<le> max_scalar_bytes (budget_limits b)
     \<and> spent_nodes b + cost_nodes costs \<le> max_nodes (budget_limits b)
     \<and> spent_operations b + cost_nodes costs \<le> max_operations (budget_limits b)
     \<and> spent_scalar_bytes b + cost_scalar_bytes costs \<le> max_total_scalar_bytes (budget_limits b)"

definition charged :: "value_costs \<Rightarrow> relation_budget \<Rightarrow> relation_budget" where
  "charged costs b =
     b\<lparr>spent_nodes := spent_nodes b + cost_nodes costs,
       spent_operations := spent_operations b + cost_nodes costs,
       spent_scalar_bytes := spent_scalar_bytes b + cost_scalar_bytes costs\<rparr>"

lemma charge_history:
  "charge_immutable_history (PHistory h) depth b =
     Inr (if fits (history_costs h) depth b then Some (charged (history_costs h) b) else None)"
  "charge_immutable_history (PHistoryMap hs) depth b =
     ebind (costs_of (PHistoryMap hs)) (\<lambda>c. Inr (if fits c depth b then Some (charged c b) else None))"
  by (auto simp: charge_immutable_history_def costs_of.simps [of "PHistory h"] fits_def charged_def Let_def
      not_less intro!: ebind_cong)

lemma charged_simps [simp]:
  "budget_limits (charged c b) = budget_limits b" "python_carriers (charged c b) = python_carriers b"
  by (simp_all add: charged_def)

definition costs_le :: "value_costs \<Rightarrow> value_costs \<Rightarrow> bool" where
  "costs_le c d \<longleftrightarrow>
     (cost_valid d \<longrightarrow> cost_valid c) \<and> cost_nodes c \<le> cost_nodes d
     \<and> cost_scalar_bytes c \<le> cost_scalar_bytes d \<and> cost_max_scalar c \<le> cost_max_scalar d
     \<and> cost_depth c \<le> cost_depth d \<and> cost_members c \<le> cost_members d"

lemma costs_le_refl [simp]: "costs_le c c"
  by (simp add: costs_le_def)

lemma costs_le_trans: "costs_le c d \<Longrightarrow> costs_le d e \<Longrightarrow> costs_le c e"
  by (auto simp: costs_le_def)

lemma costs_le_extend [simp]: "costs_le c (extend_costs c d n k)"
  by (auto simp: costs_le_def extend_costs_def)

lemma fits_mono: "fits d depth b \<Longrightarrow> costs_le c d \<Longrightarrow> fits c depth b"
  by (auto simp: fits_def costs_le_def)

lemma member_costs_le:
  "member_costs mapping ms c = Inr d \<Longrightarrow> cost_valid d \<Longrightarrow> costs_le c d"
proof (induction ms arbitrary: c)
  case (Cons m ms)
  obtain k v where m: "m = (k, v)" by (cases m)
  from Cons.prems m obtain n cv where "member_costs mapping ms (extend_costs c cv n 0) = Inr d"
    by (auto simp: errs invalid_costs_def split: option.splits)
  from Cons.IH [OF this Cons.prems(2)] show ?case by (rule costs_le_trans [OF costs_le_extend])
qed simp

text \<open>The budget after a key, and what is left for the value behind it.\<close>

definition with_key :: "nat \<Rightarrow> relation_budget \<Rightarrow> relation_budget" where
  "with_key n b = b\<lparr>spent_scalar_bytes := spent_scalar_bytes b + n\<rparr>"

lemma with_key_simps [simp]:
  "budget_limits (with_key n b) = budget_limits b" "python_carriers (with_key n b) = python_carriers b"
  "with_key 0 b = b"
  by (simp_all add: with_key_def)

lemma fits_extend:
  "fits (extend_costs c d n 0) depth b \<longleftrightarrow>
     fits c depth b \<and> n \<le> max_scalar_bytes (budget_limits b)
     \<and> spent_scalar_bytes (charged c b) + n \<le> max_total_scalar_bytes (budget_limits b)
     \<and> fits d (depth + 1) (with_key n (charged c b))"
  by (auto simp: fits_def extend_costs_def charged_def with_key_def)

lemma charged_extend: "charged (extend_costs c d n 0) b = charged d (with_key n (charged c b))"
  by (simp add: charged_def extend_costs_def with_key_def)

section \<open>Scalars and keys\<close>

lemma utf8_length: "utf8_size t = Some n \<Longrightarrow> length t \<le> n"
proof (induction t arbitrary: n)
  case (Cons c t)
  then show ?case by (fastforce split: if_splits)
qed simp

lemma int_size_bits: "int_size n \<le> k \<Longrightarrow> bit_length n \<le> k * 8"
  by (simp add: int_size_def) presburger

lemma spend_plain_text:
  "spend_scalar (PStr t) b =
     (case utf8_size t of
        Some n \<Rightarrow> if n > max_scalar_bytes (budget_limits b) then (b, Some EXHAUSTED_SCALAR) else spend_scalar_size n b
      | None \<Rightarrow> (b, Some (if length t > max_scalar_bytes (budget_limits b) then EXHAUSTED_SCALAR else INVALID_UTF8)))"
  using utf8_length [of t]
  by (auto simp: spend_scalar_def scalar_ceiling_def scalar_size_def split: option.splits)

lemma text_failure_None:
  "bounded_scalar_failure (PStr t :: 'i py_value) path b = (b', None) \<longleftrightarrow>
     (\<exists>n. utf8_size t = Some n \<and> n \<le> max_scalar_bytes (budget_limits b)
        \<and> spent_scalar_bytes b + n \<le> max_total_scalar_bytes (budget_limits b) \<and> b' = with_key n b)"
  by (auto simp: bounded_scalar_failure_def spend_plain_text spend_scalar_size_def with_key_def json_type_def Let_def
      split: option.splits)

lemma key_failure_None:
  "key_failure mapping k path b = (b', None) \<longleftrightarrow>
     (\<exists>n. key_bytes mapping k = Inr (Some n) \<and> b' = with_key n b
        \<and> (mapping \<longrightarrow> n \<le> max_scalar_bytes (budget_limits b)
             \<and> spent_scalar_bytes b + n \<le> max_total_scalar_bytes (budget_limits b)))"
  by (cases k) (auto simp: key_failure_def key_bytes_def encoded_size_def text_failure_None split: option.splits)

lemma key_bytes_sequence: "key_bytes False k = Inr (Some n) \<longleftrightarrow> n = 0"
  by (auto simp: key_bytes_def)

section \<open>Values without carriers of their own\<close>

text \<open>
  The costs of a history are those of the sequence of its records. A value is plain when it has no
  data transfer object, no enumeration member and no declared document in it, and the costs of every
  history in it are exact.
\<close>

definition sequence_costs :: "'i py_value \<Rightarrow> history_error + value_costs" where
  "sequence_costs v = member_costs (is_mapping v) (children v) (unit_costs\<lparr>cost_members := length (children v)\<rparr>)"

definition exact_costs :: "'i history \<Rightarrow> bool" where
  "exact_costs h \<longleftrightarrow> sequence_costs (PHistory h) = Inr (history_costs h)"

fun plain :: "'i py_value \<Rightarrow> bool" where
  "plain (PDict kvs) \<longleftrightarrow> list_all (\<lambda>(k, v). plain v) kvs"
| "plain (PList vs) \<longleftrightarrow> list_all plain vs"
| "plain (PTuple vs) \<longleftrightarrow> list_all plain vs"
| "plain (PHistory h) \<longleftrightarrow> exact_costs h \<and> list_all (\<lambda>(v, d). plain v) (history_entries h)"
| "plain (PHistoryMap hs) \<longleftrightarrow>
     list_all (\<lambda>(p, h). exact_costs h \<and> list_all (\<lambda>(v, d). plain v) (history_entries h)) hs"
| "plain (PDocument t) \<longleftrightarrow> False"
| "plain (PEnum is_str v) \<longleftrightarrow> False"
| "plain (PRecord names extra) \<longleftrightarrow> False"
| "plain v \<longleftrightarrow> True"

lemma plain_mutable: "plain v \<Longrightarrow> plain (mutable_value v)"
  by (induction v rule: mutable_value.induct) (fastforce simp: list_all_iff)+

lemma plain_child:
  assumes "plain v" and "(k, c) \<in> set (children v)"
  shows "plain c"
proof (cases v)
  case (PHistory h)
  with assms obtain u d where "(u, d) \<in> set (history_entries h)" "c = mutable_value u"
    by (auto dest!: in_index_from)
  with assms(1) PHistory show ?thesis by (auto simp: list_all_iff intro!: plain_mutable)
qed (use assms in \<open>auto simp: list_all_iff dest!: in_index_from\<close>)

lemma costs_of_container: "is_container v \<Longrightarrow> plain v \<Longrightarrow> costs_of v = sequence_costs v"
  unfolding costs_of.simps [of v] by (cases v) (auto simp: sequence_costs_def exact_costs_def)

section \<open>The traversal\<close>

definition decided :: "'i py_value \<Rightarrow> bool" where
  "decided v \<longleftrightarrow>
     (\<forall>path depth b b'. python_carriers b \<longrightarrow>
        (validate_bounded_value v path depth b = Inr (b', None) \<longleftrightarrow>
           (\<exists>c. costs_of v = Inr c \<and> fits c depth b \<and> b' = charged c b)))"

lemma members_decided:
  assumes "\<forall>(k, c) \<in> set ms. decided c" and "python_carriers b" and "fits acc depth b"
  shows "members_failure mapping ms path depth (charged acc b) = Inr (b', None) \<longleftrightarrow>
     (\<exists>c. member_costs mapping ms acc = Inr c \<and> fits c depth b \<and> b' = charged c b)"
  using assms
proof (induction ms arbitrary: acc)
  case Nil
  then show ?case by auto
next
  case (Cons m ms)
  obtain k v where m: "m = (k, v)" by (cases m)
  have v: "validate_bounded_value v path' depth' b1 = Inr (b2, None) \<longleftrightarrow>
      (\<exists>c. costs_of v = Inr c \<and> fits c depth' b1 \<and> b2 = charged c b1)"
    if "python_carriers b1" for path' depth' b1 b2
    using Cons.prems(1) m that by (auto simp: decided_def)
  have total: "spent_scalar_bytes (charged acc b) \<le> max_total_scalar_bytes (budget_limits b)"
    using Cons.prems(3) by (simp add: fits_def charged_def)
  show ?case
  proof
    assume "members_failure mapping (m # ms) path depth (charged acc b) = Inr (b', None)"
    then obtain b1 b2 where b1: "key_failure mapping k path (charged acc b) = (b1, None)"
      and b2: "validate_bounded_value v (path @ [key_token k]) (depth + 1) b1 = Inr (b2, None)"
      and rest: "members_failure mapping ms path depth b2 = Inr (b', None)"
      unfolding m by (auto simp: errs split: prod.splits option.splits)
    from b1 obtain n where n: "key_bytes mapping k = Inr (Some n)" "b1 = with_key n (charged acc b)"
      "mapping \<longrightarrow> n \<le> max_scalar_bytes (budget_limits b)
         \<and> spent_scalar_bytes (charged acc b) + n \<le> max_total_scalar_bytes (budget_limits b)"
      by (auto simp: key_failure_None)
    have "python_carriers b1" using Cons.prems(2) n(2) by simp
    from v [OF this] b2 obtain c where c: "costs_of v = Inr c" "fits c (depth + 1) b1" "b2 = charged c b1" by blast
    have "mapping \<or> n = 0" using n(1) by (cases mapping) (simp_all add: key_bytes_sequence)
    then have fits: "fits (extend_costs acc c n 0) depth b"
      using Cons.prems(3) n c(2) total by (auto simp: fits_extend)
    have b2': "b2 = charged (extend_costs acc c n 0) b" using c(3) n(2) by (simp add: charged_extend)
    from Cons.IH [OF _ Cons.prems(2) fits] Cons.prems(1) rest b2' n(1) c(1)
    show "\<exists>c. member_costs mapping (m # ms) acc = Inr c \<and> fits c depth b \<and> b' = charged c b"
      unfolding m by auto
  next
    assume "\<exists>c. member_costs mapping (m # ms) acc = Inr c \<and> fits c depth b \<and> b' = charged c b"
    then obtain e where e: "member_costs mapping (m # ms) acc = Inr e" "fits e depth b" "b' = charged e b" by blast
    have valid: "cost_valid e" using e(2) by (simp add: fits_def)
    from e(1) valid obtain n c where n: "key_bytes mapping k = Inr (Some n)" and c: "costs_of v = Inr c"
      and rest: "member_costs mapping ms (extend_costs acc c n 0) = Inr e"
      unfolding m by (auto simp: errs invalid_costs_def split: option.splits)
    have fits: "fits (extend_costs acc c n 0) depth b"
      using e(2) member_costs_le [OF rest valid] by (rule fits_mono)
    then have parts: "n \<le> max_scalar_bytes (budget_limits b)"
      "spent_scalar_bytes (charged acc b) + n \<le> max_total_scalar_bytes (budget_limits b)"
      "fits c (depth + 1) (with_key n (charged acc b))"
      by (simp_all add: fits_extend)
    have key: "key_failure mapping k path (charged acc b) = (with_key n (charged acc b), None)"
      using n parts(1,2) by (auto simp: key_failure_None)
    have "validate_bounded_value v (path @ [key_token k]) (depth + 1) (with_key n (charged acc b))
        = Inr (charged (extend_costs acc c n 0) b, None)"
      using v c parts(3) Cons.prems(2) by (simp add: charged_extend)
    moreover have "members_failure mapping ms path depth (charged (extend_costs acc c n 0) b) = Inr (b', None)"
      using Cons.IH [OF _ Cons.prems(2) fits] Cons.prems(1) rest e(2,3) by auto
    ultimately show "members_failure mapping (m # ms) path depth (charged acc b) = Inr (b', None)"
      unfolding m using key by simp
  qed
qed

text \<open>The visit of a value and its members, without the shortcut.\<close>

definition traversed ::
    "'i py_value \<Rightarrow> py_text list \<Rightarrow> nat \<Rightarrow> relation_budget \<Rightarrow>
       history_error + (relation_budget \<times> bounded_failure option)" where
  "traversed v path depth b =
     (case admit_value v path depth b of
        (w, b', Some failure) \<Rightarrow> Inr (b', Some failure)
      | (w, b', None) \<Rightarrow>
          if \<not> is_bounded_container w (python_carriers b) then Inr (b', None)
          else if length (children w) > max_members (budget_limits b)
          then Inr (b', Some (bounded_fail LIMIT_EXCEEDED path TooManyMembers))
          else members_failure (is_mapping w) (children w) path depth b')"

lemma validate_traversed:
  "validate_bounded_value v path depth b =
     ebind (charged_history v depth b) (\<lambda>c. case c of Some b' \<Rightarrow> Inr (b', None) | None \<Rightarrow> traversed v path depth b)"
  unfolding traversed_def by (rule validate_bounded_value.simps)

lemma admit_plain:
  assumes "plain v"
  shows "admit_value v path depth b =
     (case node_budget_failure depth path b of
        (b1, Some failure) \<Rightarrow> (v, b1, Some failure)
      | (b1, None) \<Rightarrow> (v, bounded_scalar_failure v path b1))"
  using assms
  by (cases v) (auto simp: admit_value_def enum_value_def python_record_values_def Let_def split: prod.split option.split)

lemma node_budget_None:
  "node_budget_failure depth path b = (b', None) \<longleftrightarrow>
     depth \<le> max_depth (budget_limits b) \<and> spent_nodes b + 1 \<le> max_nodes (budget_limits b)
     \<and> spent_operations b + 1 \<le> max_operations (budget_limits b) \<and> b' = charged unit_costs b"
  by (auto simp: node_budget_failure_def spend_node_def spend_operation_def Let_def charged_def unit_costs_def)

lemma container_scalar_None:
  assumes "is_container v" and "python_carriers b"
  shows "bounded_scalar_failure v path b = (b', None) \<longleftrightarrow>
     spent_scalar_bytes b \<le> max_total_scalar_bytes (budget_limits b) \<and> b' = b"
  using assms
  by (cases v) (auto simp: bounded_scalar_failure_def spend_scalar_def scalar_ceiling_def scalar_size_def
      spend_scalar_size_def json_type_def Let_def)

lemma scalar_None:
  assumes "plain v" and "\<not> is_container v" and "python_carriers b"
  shows "bounded_scalar_failure v path b = (b', None) \<longleftrightarrow>
     (\<exists>c. scalar_costs v = Inr c \<and> cost_valid c \<and> cost_max_scalar c \<le> max_scalar_bytes (budget_limits b)
        \<and> spent_scalar_bytes b + cost_scalar_bytes c \<le> max_total_scalar_bytes (budget_limits b)
        \<and> b' = with_key (cost_scalar_bytes c) b)"
proof (cases v)
  case (PStr t)
  then show ?thesis
    by (auto simp: text_failure_None scalar_costs_def encoded_size_def sized_costs_def unit_costs_def split: option.splits)
qed (use assms in \<open>auto simp: bounded_scalar_failure_def spend_scalar_def scalar_ceiling_def scalar_size_def
      spend_scalar_size_def json_type_def Let_def scalar_costs_def sized_costs_def unit_costs_def invalid_costs_def
      with_key_def not_less dest: int_size_bits\<close>)

lemma traversed_None:
  assumes "plain v"
  shows "traversed v path depth b = Inr (b', None) \<longleftrightarrow>
     (\<exists>b1 b2. node_budget_failure depth path b = (b1, None) \<and> bounded_scalar_failure v path b1 = (b2, None)
        \<and> (if is_bounded_container v (python_carriers b)
             then length (children v) \<le> max_members (budget_limits b)
               \<and> members_failure (is_mapping v) (children v) path depth b2 = Inr (b', None)
             else b' = b2))"
proof -
  obtain b1 f1 where f1: "node_budget_failure depth path b = (b1, f1)" by fastforce
  obtain b2 f2 where f2: "bounded_scalar_failure v path b1 = (b2, f2)" by fastforce
  show ?thesis
    unfolding traversed_def admit_plain [OF assms] f1 by (cases f1; cases f2) (auto simp: f2)
qed

lemma scalar_cost_shape:
  assumes "scalar_costs v = Inr c"
  shows "cost_nodes c = 1" "cost_depth c = 0" "cost_members c = 0"
  using assms
  by (auto simp: scalar_costs_def sized_costs_def unit_costs_def invalid_costs_def errs
      split: option.splits py_value.splits)

lemma scalar_traversed:
  assumes "plain v" and "\<not> is_container v" and "python_carriers b"
  shows "traversed v path depth b = Inr (b', None) \<longleftrightarrow>
     (\<exists>c. scalar_costs v = Inr c \<and> fits c depth b \<and> b' = charged c b)"
proof -
  have not_bounded: "\<not> is_bounded_container v carriers" for carriers
    using assms(2) bounded_is_container by blast
  have "traversed v path depth b = Inr (b', None) \<longleftrightarrow>
      depth \<le> max_depth (budget_limits b) \<and> spent_nodes b + 1 \<le> max_nodes (budget_limits b)
      \<and> spent_operations b + 1 \<le> max_operations (budget_limits b)
      \<and> bounded_scalar_failure v path (charged unit_costs b) = (b', None)"
    by (simp add: traversed_None [OF assms(1)] node_budget_None not_bounded)
  also have "\<dots> \<longleftrightarrow> (\<exists>c. scalar_costs v = Inr c \<and> fits c depth b \<and> b' = charged c b)"
    using scalar_cost_shape [of v] assms
    by (fastforce simp: scalar_None fits_def charged_def with_key_def unit_costs_def)
  finally show ?thesis .
qed

lemma container_traversed:
  assumes "plain v" and "is_container v" and "python_carriers b"
    and "\<forall>(k, c) \<in> set (children v). decided c"
  shows "traversed v path depth b = Inr (b', None) \<longleftrightarrow>
     (\<exists>c. sequence_costs v = Inr c \<and> fits c depth b \<and> b' = charged c b)"
proof -
  define start where "start = unit_costs\<lparr>cost_members := length (children v)\<rparr>"
  have bounded: "is_bounded_container v True"
    using assms(2) by (cases v) (auto simp: is_bounded_container_def)
  have same: "charged start b = charged unit_costs b"
    by (simp add: charged_def start_def unit_costs_def)
  have start: "fits start depth b \<longleftrightarrow>
      depth \<le> max_depth (budget_limits b) \<and> spent_nodes b + 1 \<le> max_nodes (budget_limits b)
      \<and> spent_operations b + 1 \<le> max_operations (budget_limits b)
      \<and> spent_scalar_bytes b \<le> max_total_scalar_bytes (budget_limits b)
      \<and> length (children v) \<le> max_members (budget_limits b)"
    by (auto simp: fits_def start_def unit_costs_def)
  have scalar: "bounded_scalar_failure v path (charged unit_costs b) = (b1, None) \<longleftrightarrow>
      spent_scalar_bytes b \<le> max_total_scalar_bytes (budget_limits b) \<and> b1 = charged unit_costs b" for b1
    using container_scalar_None [OF assms(2), of "charged unit_costs b"] assms(3)
    by (simp add: charged_def unit_costs_def)
  have "traversed v path depth b = Inr (b', None) \<longleftrightarrow>
      fits start depth b
      \<and> members_failure (is_mapping v) (children v) path depth (charged start b) = Inr (b', None)"
    unfolding start same by (auto simp: traversed_None [OF assms(1)] node_budget_None bounded assms(3) scalar)
  also have "\<dots> \<longleftrightarrow> (\<exists>c. sequence_costs v = Inr c \<and> fits c depth b \<and> b' = charged c b)"
  proof (cases "fits start depth b")
    case True
    with members_decided [OF assms(4,3) True] show ?thesis
      by (simp add: sequence_costs_def start_def)
  next
    case False
    have "\<not> fits c depth b" if "sequence_costs v = Inr c" for c
    proof
      assume "fits c depth b"
      moreover from this have "cost_valid c" by (simp add: fits_def)
      moreover from this that have "costs_le start c"
        unfolding sequence_costs_def start_def by (rule member_costs_le [rotated])
      ultimately show False using False fits_mono by blast
    qed
    with False show ?thesis by blast
  qed
  finally show ?thesis .
qed

end
