(* ===== verification/HistoryProofs.thy ===== *)
theory HistoryProofs
  imports HistoryCosts
begin

text \<open>
  Histories as they grow: their costs and digests, and the shortcut of the admission against the
  visit of their records.
\<close>

section \<open>Admission is decided by costs\<close>

lemma costs_of_history [simp]: "costs_of (PHistory h) = Inr (history_costs h)"
  by (subst costs_of.simps) simp

lemma plain_decided: "plain v \<Longrightarrow> decided v"
proof (induction v rule: measure_induct_rule [of size])
  case (less v)
  have members: "\<forall>(k, c) \<in> set (children v). decided c"
    using less.IH child_size plain_child [OF less.prems] by fastforce
  have visit: "traversed v path depth b = Inr (b', None) \<longleftrightarrow>
      (\<exists>c. costs_of v = Inr c \<and> fits c depth b \<and> b' = charged c b)"
    if "python_carriers b" for path depth b b'
  proof (cases "is_container v")
    case True
    with container_traversed [OF less.prems True that members] show ?thesis
      by (simp add: costs_of_container [OF True less.prems])
  next
    case False
    then have "costs_of v = scalar_costs v" unfolding costs_of.simps [of v] by (cases v) auto
    with scalar_traversed [OF less.prems False that] show ?thesis by simp
  qed
  show ?case
    unfolding decided_def
  proof (intro allI impI)
    fix path depth b' and b :: relation_budget
    assume b: "python_carriers b"
    have unretained: "charge_immutable_history v depth b = Inr None"
      if "\<not> (case v of PHistory h \<Rightarrow> True | PHistoryMap hs \<Rightarrow> True | _ \<Rightarrow> False)"
      using that by (simp add: charge_immutable_history_def)
    show "validate_bounded_value v path depth b = Inr (b', None) \<longleftrightarrow>
        (\<exists>c. costs_of v = Inr c \<and> fits c depth b \<and> b' = charged c b)"
    proof (cases v)
      case (PHistory h)
      with b visit [OF b] show ?thesis
        by (auto simp: validate_traversed charged_history_def charge_history)
    next
      case (PHistoryMap hs)
      with b visit [OF b] show ?thesis
        by (cases "costs_of v") (auto simp: validate_traversed charged_history_def charge_history)
    qed (use b visit [OF b] unretained in \<open>simp_all add: validate_traversed charged_history_def\<close>)
  qed
qed

text \<open>A history and the list of its records are admitted alike.\<close>

definition history_list :: "'i history \<Rightarrow> 'i py_value" where
  "history_list h = PList (map (\<lambda>(v, d). mutable_value v) (history_entries h))"

lemma history_list_children: "children (history_list h) = children (PHistory h)"
  by (simp add: history_list_def)

lemma plain_history_list: "plain (PHistory h) \<Longrightarrow> plain (history_list h)"
  by (auto simp: history_list_def list_all_iff intro: plain_mutable)

lemma history_list_costs: "plain (PHistory h) \<Longrightarrow> costs_of (history_list h) = Inr (history_costs h)"
  using costs_of_container [of "history_list h"] plain_history_list [of h]
  by (simp add: history_list_def exact_costs_def sequence_costs_def)

lemma traversed_alike:
  assumes "plain v" and "plain w" and "python_carriers b" and "is_bounded_container v True" and "is_bounded_container w True"
    and "children v = children w" and "is_mapping v = is_mapping w"
  shows "traversed v path depth b = traversed w path depth b"
proof -
  have scalar: "bounded_scalar_failure v path b1 = bounded_scalar_failure w path b1" if "python_carriers b1" for b1
    using assms(4,5) that
    by (cases v; cases w) (simp_all add: is_bounded_container_def bounded_scalar_failure_def spend_scalar_def
        scalar_ceiling_def scalar_size_def json_type_def spend_scalar_size_def Let_def)
  obtain b1 f1 where f1: "node_budget_failure depth path b = (b1, f1)" by fastforce
  have "python_carriers b1"
    using f1 assms(3) by (auto simp: node_budget_failure_def spend_node_def spend_operation_def Let_def split: prod.splits if_splits)
  from scalar [OF this] show ?thesis
    unfolding traversed_def admit_plain [OF assms(1)] admit_plain [OF assms(2)] f1
    using assms(3-7) by (simp split: option.split prod.split)
qed

lemma history_admitted_as_list:
  assumes "plain (PHistory h)" and "python_carriers b"
  shows "validate_bounded_value (PHistory h) path depth b = validate_bounded_value (history_list h) path depth b"
proof (cases "fits (history_costs h) depth b")
  case True
  then have "validate_bounded_value (PHistory h) path depth b = Inr (charged (history_costs h) b, None)"
    using assms(2) by (simp add: validate_traversed charged_history_def charge_history)
  moreover have "validate_bounded_value (history_list h) path depth b = Inr (charged (history_costs h) b, None)"
    using plain_decided [OF plain_history_list [OF assms(1)]] history_list_costs [OF assms(1)] True assms(2)
    by (auto simp: decided_def)
  ultimately show ?thesis by simp
next
  case False
  then have "validate_bounded_value (PHistory h) path depth b = traversed (PHistory h) path depth b"
    using assms(2) by (simp add: validate_traversed charged_history_def charge_history)
  also have "\<dots> = traversed (history_list h) path depth b"
    using assms plain_history_list
    by (intro traversed_alike) (auto simp: history_list_def is_bounded_container_def)
  also have "\<dots> = validate_bounded_value (history_list h) path depth b"
    by (simp add: validate_traversed charged_history_def charge_immutable_history_def history_list_def)
  finally show ?thesis .
qed

section \<open>Growing histories\<close>

inductive grown :: "'i digest_chain \<Rightarrow> 'i history_policy \<Rightarrow> 'i history \<Rightarrow> bool" for ch policy where
  grown_empty: "grown ch policy empty_history"
| grown_append: "grown ch policy h \<Longrightarrow> appended ch policy v h = Inr h' \<Longrightarrow> grown ch policy h'"

text \<open>A frozen value has mappings, tuples and scalars only.\<close>

fun frozen :: "'i py_value \<Rightarrow> bool" where
  "frozen (PDict kvs) \<longleftrightarrow> list_all (\<lambda>(k, v). frozen v) kvs"
| "frozen (PTuple vs) \<longleftrightarrow> list_all frozen vs"
| "frozen PNone \<longleftrightarrow> True"
| "frozen (PStr t) \<longleftrightarrow> True"
| "frozen (PBool b) \<longleftrightarrow> True"
| "frozen (PInt n) \<longleftrightarrow> True"
| "frozen (PFloat f) \<longleftrightarrow> True"
| "frozen v \<longleftrightarrow> False"

lemma freeze_frozen: "freeze v = Inr w \<Longrightarrow> frozen w"
proof (induction v arbitrary: w rule: freeze.induct)
  case (1 kvs)
  then obtain items where
    items: "list_all2 (\<lambda>x y. (case x of (k, v) \<Rightarrow> ebind (freeze v) (\<lambda>w. Inr (k, w))) = Inr y) kvs items"
    and w: "w = PDict items"
    by (auto simp: ebind_eq_Inr collect_eq_Inr)
  have "frozen u" if "(k, u) \<in> set items" for k u
  proof -
    from that obtain i where i: "i < length items" "items ! i = (k, u)" by (auto simp: in_set_conv_nth)
    with items have "length kvs = length items"
      "(case kvs ! i of (k, v) \<Rightarrow> ebind (freeze v) (\<lambda>w. Inr (k, w))) = Inr (k, u)"
      by (auto simp: list_all2_conv_all_nth)
    with i(1) obtain k' v where "(k', v) \<in> set kvs" "freeze v = Inr u"
      by (cases "kvs ! i") (auto simp: ebind_eq_Inr, metis nth_mem)
    with 1 show ?thesis by blast
  qed
  with w show ?case by (auto simp: list_all_iff)
next
  case (3 vs)
  then obtain ws where ws: "list_all2 (\<lambda>v w. freeze v = Inr w) vs ws" "w = PTuple ws"
    by (auto simp: errs collect_eq_Inr)
  then show ?case using 3 by (fastforce simp: list_all2_conv_all_nth list_all_iff in_set_conv_nth)
next
  case (4 vs)
  then obtain ws where ws: "list_all2 (\<lambda>v w. freeze v = Inr w) vs ws" "w = PTuple ws"
    by (auto simp: errs collect_eq_Inr)
  then show ?case using 4 by (fastforce simp: list_all2_conv_all_nth list_all_iff in_set_conv_nth)
qed (auto split: if_splits)

lemma frozen_plain: "frozen v \<Longrightarrow> plain v"
  by (induction v rule: frozen.induct) (auto simp: list_all_iff)

section \<open>The costs of a growing history\<close>

definition more_members :: "nat \<Rightarrow> value_costs \<Rightarrow> value_costs" where
  "more_members n c = c\<lparr>cost_members := max (cost_members c) n\<rparr>"

lemma member_costs_append:
  "member_costs False (ms @ [(k, v)]) c =
     ebind (member_costs False ms c) (\<lambda>d. ebind (costs_of v) (\<lambda>e. Inr (extend_costs d e 0 0)))"
proof (induction ms arbitrary: c)
  case (Cons m ms)
  obtain k' u where "m = (k', u)" by (cases m)
  then show ?case by (cases "costs_of u") (simp_all add: Cons.IH key_bytes_def)
qed (simp add: key_bytes_def)

lemma member_costs_more:
  "member_costs False ms (more_members n c) = ebind (member_costs False ms c) (\<lambda>d. Inr (more_members n d))"
proof (induction ms arbitrary: c)
  case (Cons m ms)
  obtain k v where m: "m = (k, v)" by (cases m)
  have "extend_costs (more_members n c) d 0 0 = more_members n (extend_costs c d 0 0)" for d
    by (simp add: extend_costs_def more_members_def)
  with m show ?case by (cases "costs_of v") (simp_all add: Cons.IH key_bytes_def)
qed simp

lemma index_from_append: "index_from n (vs @ [v]) = index_from n vs @ [(KInt (int (n + length vs)), v)]"
  by (induction vs arbitrary: n) auto

lemma index_from_length [simp]: "length (index_from n vs) = length vs"
  by (induction vs arbitrary: n) auto

lemma list_member_costs:
  "member_costs False (index_from n vs) c = member_costs False (index_from k ws) c"
  if "list_all2 (\<lambda>v w. costs_of v = costs_of w) vs ws"
  using that
proof (induction vs ws arbitrary: n k c rule: list_all2_induct)
  case (Cons v vs w ws)
  then show ?case by (cases "costs_of w") (simp_all add: key_bytes_def)
qed simp

lemma dict_member_costs:
  assumes "list_all2 (\<lambda>(k, v) (k', w). k = k' \<and> costs_of v = costs_of w) ms ns"
  shows "member_costs mapping ms c = member_costs mapping ns c"
  using assms
proof (induction ms ns arbitrary: c rule: list_all2_induct)
  case (Cons m ms n ns)
  then obtain k v w where "m = (k, v)" "n = (k, w)" "costs_of v = costs_of w" by (cases m; cases n) auto
  with Cons.IH show ?case by (auto intro!: ebind_cong split: option.splits)
qed simp

lemma costs_of_mutable: "frozen v \<Longrightarrow> costs_of (mutable_value v) = costs_of v"
proof (induction v rule: frozen.induct)
  case (1 kvs)
  then have "list_all2 (\<lambda>(k, v) (k', w). k = k' \<and> costs_of v = costs_of w)
      (map (\<lambda>(k, v). (k, mutable_value v)) kvs) kvs"
    by (auto simp: list_all2_conv_all_nth list_all_iff case_prod_unfold) (metis nth_mem prod.collapse)
  from dict_member_costs [OF this] show ?case by (subst (1 2) costs_of.simps) simp
next
  case (2 vs)
  then have "list_all2 (\<lambda>v w. costs_of v = costs_of w) (map mutable_value vs) vs"
    by (auto simp: list_all2_conv_all_nth list_all_iff)
  from list_member_costs [OF this] show ?case by (subst (1 2) costs_of.simps) simp
qed simp_all

lemma appended_Inr:
  assumes "appended ch policy v h = Inr h'"
  obtains f previous c where "frozen f" "is_mapping v" "freeze (PDict (children v)) = Inr f"
    "prefix_digest ch h (int (history_length h)) = Inr previous" "costs_of f = Inr c"
    "history_entries h' = history_entries h @ [(f, link_digest ch previous (record_text ch (mutable_value f)))]"
    "history_costs h' = extend_costs (history_costs h) c 0 (history_length h + 1)"
    "history_index h' = next_index policy (history_length h) f (history_index h)"
proof -
  from assms obtain f previous c where f: "is_mapping v" "freeze (PDict (children v)) = Inr f"
    "prefix_digest ch h (int (history_length h)) = Inr previous" "costs_of f = Inr c"
    "h' = EventHistory (history_entries h @ [(f, link_digest ch previous (record_text ch (mutable_value f)))])
       (extend_costs (history_costs h) c 0 (history_length h + 1)) (next_index policy (history_length h) f (history_index h))"
    by (auto simp: appended_def mapping_items_def ebind_eq_Inr require_eq_Inr split: if_splits)
  from f(2) have "frozen f" by (rule freeze_frozen)
  with f show thesis by (intro that [of f previous c]) simp_all
qed

lemma exact_appended:
  assumes "exact_costs h" and "appended ch policy v h = Inr h'"
  shows "exact_costs h'"
proof -
  obtain f previous c where f: "frozen f" "costs_of f = Inr c"
    "history_entries h' = history_entries h @ [(f, link_digest ch previous (record_text ch (mutable_value f)))]"
    "history_costs h' = extend_costs (history_costs h) c 0 (history_length h + 1)"
    using assms(2) by (rule appended_Inr)
  define n where "n = history_length h"
  define vs where "vs = map (\<lambda>(v, d). mutable_value v) (history_entries h)"
  have old: "member_costs False (index_from 0 vs) (unit_costs\<lparr>cost_members := n\<rparr>) = Inr (history_costs h)"
    using assms(1) by (simp add: exact_costs_def sequence_costs_def vs_def n_def history_length_def)
  have bump: "unit_costs\<lparr>cost_members := n + 1\<rparr> = more_members (n + 1) (unit_costs\<lparr>cost_members := n\<rparr>)"
    by (simp add: more_members_def unit_costs_def)
  have "sequence_costs (PHistory h') = member_costs False (index_from 0 vs @ [(KInt (int n), mutable_value f)])
      (unit_costs\<lparr>cost_members := n + 1\<rparr>)"
    by (simp add: sequence_costs_def f(3) vs_def n_def history_length_def index_from_append del: index_from.simps)
  also have "\<dots> = Inr (more_members (n + 1) (extend_costs (history_costs h) c 0 0))"
    by (simp only: member_costs_append bump member_costs_more old ebind.simps costs_of_mutable [OF f(1)] f(2))
  also have "\<dots> = Inr (history_costs h')"
    by (auto simp: f(4) n_def extend_costs_def more_members_def)
  finally show ?thesis by (simp add: exact_costs_def)
qed

lemma grown_frozen: "grown ch policy h \<Longrightarrow> (v, d) \<in> set (history_entries h) \<Longrightarrow> frozen v"
proof (induction rule: grown.induct)
  case (grown_append h u h')
  from grown_append.hyps(2) obtain f d' where "frozen f" "history_entries h' = history_entries h @ [(f, d')]"
    by (rule appended_Inr) blast
  with grown_append show ?case by auto
qed (simp add: empty_history_def)

lemma grown_exact: "grown ch policy h \<Longrightarrow> exact_costs h"
proof (induction rule: grown.induct)
  case grown_empty
  then show ?case by (simp add: exact_costs_def sequence_costs_def empty_history_def unit_costs_def)
next
  case (grown_append h v h')
  then show ?case by (blast intro: exact_appended)
qed

lemma grown_plain: "grown ch policy h \<Longrightarrow> plain (PHistory h)"
  using grown_exact grown_frozen frozen_plain by (fastforce simp: list_all_iff)

section \<open>Digests of prefixes\<close>

text \<open>The texts of the records of a history, and the digest of a list of texts.\<close>

definition history_texts :: "'i digest_chain \<Rightarrow> 'i history \<Rightarrow> string list" where
  "history_texts ch h = map (\<lambda>(v, d). record_text ch (mutable_value v)) (history_entries h)"

definition text_digest :: "'i digest_chain \<Rightarrow> string list \<Rightarrow> string" where
  "text_digest ch ts = foldl (link_digest ch) (empty_digest ch) ts"

lemma text_digest_snoc: "text_digest ch (ts @ [t]) = link_digest ch (text_digest ch ts) t"
  by (simp add: text_digest_def)

lemma history_texts_length [simp]: "length (history_texts ch h) = history_length h"
  by (simp add: history_texts_def history_length_def)

lemma appended_texts:
  assumes "appended ch policy v h = Inr h'"
  shows "\<exists>t. history_texts ch h' = history_texts ch h @ [t]"
    and "history_length h' = history_length h + 1"
  using assms by (auto elim!: appended_Inr simp: history_texts_def history_length_def)

lemma grown_digest:
  "grown ch policy h \<Longrightarrow> n \<le> history_length h \<Longrightarrow>
     prefix_digest ch h (int n) = Inr (text_digest ch (take n (history_texts ch h)))"
proof (induction arbitrary: n rule: grown.induct)
  case grown_empty
  then show ?case by (simp add: prefix_digest_def text_digest_def empty_history_def history_length_def)
next
  case (grown_append h v h')
  from grown_append.hyps(2) obtain f previous where
    previous: "prefix_digest ch h (int (history_length h)) = Inr previous" and
    entries: "history_entries h' = history_entries h @ [(f, link_digest ch previous (record_text ch (mutable_value f)))]"
    by (rule appended_Inr) blast
  from previous grown_append.IH [of "history_length h"]
  have previous': "previous = text_digest ch (history_texts ch h)" by (simp add: history_texts_def history_length_def)
  have texts: "history_texts ch h' = history_texts ch h @ [record_text ch (mutable_value f)]"
    by (simp add: history_texts_def entries)
  have len: "history_length h' = history_length h + 1" by (simp add: history_length_def entries)
  show ?case
  proof (cases "n = history_length h'")
    case True
    have "prefix_digest ch h' (int n) = Inr (link_digest ch previous (record_text ch (mutable_value f)))"
      using True len by (simp add: prefix_digest_def entries nth_append history_length_def)
    then show ?thesis using True by (simp add: previous' texts len text_digest_snoc)
  next
    case False
    with grown_append.prems len have n: "n \<le> history_length h" by simp
    have "prefix_digest ch h' (int n) = prefix_digest ch h (int n)"
      using n len by (auto simp: prefix_digest_def entries nth_append history_length_def)
    with grown_append.IH [OF n] n show ?thesis by (simp add: texts)
  qed
qed

text \<open>
  The pairs of a digest and a text that were linked for a history. A set of such pairs is free of
  collisions when their links differ from each other and from the digest of no record.
\<close>

definition text_links :: "'i digest_chain \<Rightarrow> string list \<Rightarrow> (string \<times> string) set" where
  "text_links ch ts = (\<lambda>i. (text_digest ch (take i ts), ts ! i)) ` {..<length ts}"

definition collision_free :: "'i digest_chain \<Rightarrow> (string \<times> string) set \<Rightarrow> bool" where
  "collision_free ch pairs \<longleftrightarrow>
     inj_on (\<lambda>(d, t). link_digest ch d t) pairs \<and> (\<forall>(d, t) \<in> pairs. link_digest ch d t \<noteq> empty_digest ch)"

lemma text_links_snoc: "text_links ch (ts @ [t]) = insert (text_digest ch ts, t) (text_links ch ts)"
proof -
  have "(\<lambda>i. (text_digest ch (take i (ts @ [t])), (ts @ [t]) ! i)) ` {..<length ts} = text_links ch ts"
    unfolding text_links_def by (intro image_cong) (auto simp: nth_append)
  then show ?thesis by (simp add: text_links_def lessThan_Suc)
qed

lemma text_links_take: "text_links ch (take n ts) \<subseteq> text_links ch ts"
  by (auto simp: text_links_def)

lemma text_digest_eq:
  assumes "collision_free ch pairs" and "text_links ch ts \<subseteq> pairs" and "text_links ch us \<subseteq> pairs"
  shows "text_digest ch ts = text_digest ch us \<longleftrightarrow> ts = us"
  using assms(2,3)
proof (induction ts arbitrary: us rule: rev_induct)
  case Nil
  have "text_digest ch [] = empty_digest ch" by (simp add: text_digest_def)
  with Nil assms(1) show ?case
    by (cases us rule: rev_cases) (fastforce simp: text_digest_snoc text_links_snoc collision_free_def)+
next
  case (snoc t ts)
  show ?case
  proof (cases us rule: rev_cases)
    case Nil
    have "text_digest ch [] = empty_digest ch" by (simp add: text_digest_def)
    with Nil snoc.prems assms(1) show ?thesis
      by (fastforce simp: text_digest_snoc text_links_snoc collision_free_def)
  next
    case (snoc ys y)
    then have sub: "(text_digest ch ts, t) \<in> pairs" "(text_digest ch ys, y) \<in> pairs"
      "text_links ch ts \<subseteq> pairs" "text_links ch ys \<subseteq> pairs"
      using snoc.prems by (simp_all add: text_links_snoc)
    have "link_digest ch (text_digest ch ts) t = link_digest ch (text_digest ch ys) y \<longleftrightarrow>
        text_digest ch ts = text_digest ch ys \<and> t = y"
      using assms(1) inj_onD [of "\<lambda>(d, t). link_digest ch d t" pairs, OF _ _ sub(1,2)]
      by (auto simp: collision_free_def)
    then show ?thesis using snoc.IH [OF sub(3,4)] snoc by (simp add: text_digest_snoc)
  qed
qed

lemma preserved_prefix:
  assumes "collision_free ch pairs" and "grown ch policy previous" and "grown ch policy' h"
    and "text_links ch (history_texts ch previous) \<subseteq> pairs" and "text_links ch (history_texts ch h) \<subseteq> pairs"
  shows "preserves_prefix ch previous (Some h) \<longleftrightarrow> prefix (history_texts ch previous) (history_texts ch h)"
proof (cases "history_length previous \<le> history_length h")
  case True
  have "text_links ch (take (history_length previous) (history_texts ch h)) \<subseteq> pairs"
    using assms(5) text_links_take by blast
  then have "preserves_prefix ch previous (Some h) \<longleftrightarrow>
      take (history_length previous) (history_texts ch h) = history_texts ch previous"
    using True grown_digest [OF assms(3) True] grown_digest [OF assms(2) order_refl]
    by (simp add: preserves_prefix_def text_digest_eq [OF assms(1) _ assms(4)])
  also have "\<dots> \<longleftrightarrow> prefix (history_texts ch previous) (history_texts ch h)"
    by (metis append_take_drop_id history_texts_length prefix_def append_eq_conv_conj)
  finally show ?thesis .
next
  case False
  then show ?thesis using prefix_length_le [of "history_texts ch previous" "history_texts ch h"]
    by (auto simp: preserves_prefix_def)
qed

end
