(* ===== verification/HistoryMaps.thy ===== *)
theory HistoryMaps
  imports HistoryProofs
begin

text \<open>
  Maps of histories: what the records of one participant contribute is independent of those of the
  others, so that a map extended by an append is the map rebuilt from the extended records.
\<close>

section \<open>The contribution of one participant\<close>

text \<open>The identities, the positions and the history that records add to an empty map.\<close>

definition contribution ::
    "'i digest_chain \<Rightarrow> 'i history_policy \<Rightarrow> py_text \<Rightarrow> 'i history \<Rightarrow> 'i py_value list \<Rightarrow>
       history_error + (history_identity set \<times> 'i record_positions \<times> 'i history)" where
  "contribution ch policy p h vs = efold (append_record ch policy p) ({}, Map.empty, h) vs"

text \<open>One record, from any state of the map.\<close>

lemma append_record_Inr:
  "append_record ch policy p (ids, pos, h) v = Inr (ids', pos', h') \<longleftrightarrow>
     (\<exists>identity. is_mapping v \<and> policy_identity policy p v (history_length h + 1) = Inr identity
        \<and> appended ch policy v h = Inr h'
        \<and> (case identity of
             None \<Rightarrow> ids' = ids \<and> pos' = pos
           | Some i \<Rightarrow> i \<notin> ids \<and> ids' = insert i ids
               \<and> (\<exists>r. record_id v = Inr r \<and> pos' = pos((p, r) \<mapsto> history_length h))))"
proof (cases "is_mapping v")
  case True
  show ?thesis
  proof (cases "policy_identity policy p v (history_length h + 1)")
    case (Inr identity)
    with True show ?thesis
      by (cases identity) (auto simp: append_record_def record_identity_def absorb_record_def errs)
  qed (simp add: append_record_def record_identity_def True)
qed (simp add: append_record_def record_identity_def)

lemma append_record_frame:
  "append_record ch policy p (ids, pos, h) v = Inr (ids', pos', h') \<longleftrightarrow>
     (\<exists>I P. append_record ch policy p ({}, Map.empty, h) v = Inr (I, P, h')
        \<and> ids \<inter> I = {} \<and> ids' = ids \<union> I \<and> pos' = pos ++ P)"
    (is "?l \<longleftrightarrow> ?r")
proof
  assume ?l
  then obtain identity where i: "is_mapping v" "policy_identity policy p v (history_length h + 1) = Inr identity"
    "appended ch policy v h = Inr h'"
    "case identity of
       None \<Rightarrow> ids' = ids \<and> pos' = pos
     | Some i \<Rightarrow> i \<notin> ids \<and> ids' = insert i ids
         \<and> (\<exists>r. record_id v = Inr r \<and> pos' = pos((p, r) \<mapsto> history_length h))"
    unfolding append_record_Inr by blast
  show ?r
  proof (cases identity)
    case None
    with i show ?thesis by (intro exI [of _ "{}"] exI [of _ Map.empty]) (simp add: append_record_Inr)
  next
    case (Some j)
    with i(4) obtain r where r: "j \<notin> ids" "ids' = insert j ids" "record_id v = Inr r"
      "pos' = pos((p, r) \<mapsto> history_length h)" by auto
    with i Some show ?thesis
      by (intro exI [of _ "{j}"] exI [of _ "[(p, r) \<mapsto> history_length h]"]) (simp add: append_record_Inr)
  qed
next
  assume ?r
  then obtain I P where e: "append_record ch policy p ({}, Map.empty, h) v = Inr (I, P, h')"
    and ids: "ids \<inter> I = {}" "ids' = ids \<union> I" "pos' = pos ++ P" by blast
  from e obtain identity where i: "is_mapping v" "policy_identity policy p v (history_length h + 1) = Inr identity"
    "appended ch policy v h = Inr h'"
    "case identity of
       None \<Rightarrow> I = {} \<and> P = Map.empty
     | Some i \<Rightarrow> I = {i} \<and> (\<exists>r. record_id v = Inr r \<and> P = [(p, r) \<mapsto> history_length h])"
    unfolding append_record_Inr by (auto split: option.splits)
  then show ?l unfolding append_record_Inr using ids by (intro exI [of _ identity]) (auto split: option.splits)
qed

lemma append_frame:
  "efold (append_record ch policy p) (ids, pos, h) vs = Inr (ids', pos', h') \<longleftrightarrow>
     (\<exists>I P. contribution ch policy p h vs = Inr (I, P, h') \<and> ids \<inter> I = {} \<and> ids' = ids \<union> I \<and> pos' = pos ++ P)"
proof (induction vs arbitrary: ids pos h ids' pos')
  case Nil
  then show ?case by (auto simp: contribution_def)
next
  case (Cons v vs)
  define one where "one I P h1 \<longleftrightarrow> append_record ch policy p ({}, Map.empty, h) v = Inr (I, P, h1)" for I P h1
  define rest where "rest h1 I P \<longleftrightarrow> contribution ch policy p h1 vs = Inr (I, P, h')" for h1 I P
  have run: "efold (append_record ch policy p) (ids, pos, h) (v # vs) = Inr (ids', pos', h') \<longleftrightarrow>
      (\<exists>I P h1 J Q. one I P h1 \<and> rest h1 J Q \<and> ids \<inter> I = {} \<and> (ids \<union> I) \<inter> J = {}
        \<and> ids' = ids \<union> I \<union> J \<and> pos' = pos ++ P ++ Q)" for ids pos ids' pos'
  proof -
    have "efold (append_record ch policy p) (ids, pos, h) (v # vs) = Inr (ids', pos', h') \<longleftrightarrow>
        (\<exists>ids1 pos1 h1. append_record ch policy p (ids, pos, h) v = Inr (ids1, pos1, h1)
          \<and> efold (append_record ch policy p) (ids1, pos1, h1) vs = Inr (ids', pos', h'))"
      by (auto simp: ebind_eq_Inr)
    then show ?thesis unfolding Cons.IH append_record_frame [of ch policy p ids pos] one_def rest_def by blast
  qed
  have cont: "contribution ch policy p h (v # vs) = Inr (K, R, h') \<longleftrightarrow>
      (\<exists>I P h1 J Q. one I P h1 \<and> rest h1 J Q \<and> I \<inter> J = {} \<and> K = I \<union> J \<and> R = P ++ Q)" for K R
    using run [of "{}" Map.empty K R] by (simp add: contribution_def)
  show ?case
    unfolding run cont
  proof (intro iffI; elim exE conjE)
    fix I P h1 J Q
    assume "one I P h1" "rest h1 J Q" "ids \<inter> I = {}" "(ids \<union> I) \<inter> J = {}" "ids' = ids \<union> I \<union> J" "pos' = pos ++ P ++ Q"
    note facts = this
    have "\<exists>I' P' h1' J' Q'. one I' P' h1' \<and> rest h1' J' Q' \<and> I' \<inter> J' = {} \<and> I \<union> J = I' \<union> J' \<and> P ++ Q = P' ++ Q'"
      using facts(1,2,4) by blast
    moreover have "ids \<inter> (I \<union> J) = {}" "ids' = ids \<union> (I \<union> J)" using facts(3-5) by blast+
    moreover have "pos' = pos ++ (P ++ Q)" using facts(6) by (simp only: map_add_assoc)
    ultimately show "\<exists>K R. (\<exists>I P h1 J Q. one I P h1 \<and> rest h1 J Q \<and> I \<inter> J = {} \<and> K = I \<union> J \<and> R = P ++ Q)
        \<and> ids \<inter> K = {} \<and> ids' = ids \<union> K \<and> pos' = pos ++ R"
      by blast
  next
    fix K R I P h1 J Q
    assume "ids \<inter> K = {}" "ids' = ids \<union> K" "pos' = pos ++ R" "one I P h1" "rest h1 J Q" "I \<inter> J = {}" "K = I \<union> J" "R = P ++ Q"
    note facts = this
    have "ids \<inter> I = {}" "(ids \<union> I) \<inter> J = {}" "ids' = ids \<union> I \<union> J" using facts(1,2,6,7) by blast+
    moreover have "pos' = pos ++ P ++ Q" using facts(3,8) by (simp only: map_add_assoc)
    ultimately show "\<exists>I P h1 J Q. one I P h1 \<and> rest h1 J Q \<and> ids \<inter> I = {} \<and> (ids \<union> I) \<inter> J = {}
        \<and> ids' = ids \<union> I \<union> J \<and> pos' = pos ++ P ++ Q"
      using facts(4,5) by blast
  qed
qed

lemma contribution_append:
  "contribution ch policy p h (us @ vs) = Inr (J, Q, h') \<longleftrightarrow>
     (\<exists>I P h1 K R. contribution ch policy p h us = Inr (I, P, h1) \<and> contribution ch policy p h1 vs = Inr (K, R, h')
        \<and> I \<inter> K = {} \<and> J = I \<union> K \<and> Q = P ++ R)"
proof -
  have "contribution ch policy p h (us @ vs) = Inr (J, Q, h') \<longleftrightarrow>
      (\<exists>I P h1. contribution ch policy p h us = Inr (I, P, h1)
         \<and> efold (append_record ch policy p) (I, P, h1) vs = Inr (J, Q, h'))"
    by (auto simp: contribution_def efold_append errs)
  also have "\<dots> \<longleftrightarrow> (\<exists>I P h1 K R. contribution ch policy p h us = Inr (I, P, h1)
      \<and> contribution ch policy p h1 vs = Inr (K, R, h') \<and> I \<inter> K = {} \<and> J = I \<union> K \<and> Q = P ++ R)"
    unfolding append_frame by blast
  finally show ?thesis .
qed

lemma contribution_positions:
  "contribution ch policy p h vs = Inr (I, P, h') \<Longrightarrow> dom P \<subseteq> {p} \<times> UNIV"
proof (induction vs arbitrary: h I P)
  case (Cons v vs)
  from Cons.prems have "contribution ch policy p h ([v] @ vs) = Inr (I, P, h')" by simp
  then obtain I1 P1 h1 K R where a: "contribution ch policy p h [v] = Inr (I1, P1, h1)"
    and rest: "contribution ch policy p h1 vs = Inr (K, R, h')" "P = P1 ++ R"
    unfolding contribution_append by blast
  from a have "dom P1 \<subseteq> {p} \<times> UNIV"
    by (auto simp: contribution_def errs append_record_Inr split: option.splits if_splits)
  with Cons.IH [OF rest(1)] rest(2) show ?case by auto
qed (simp add: contribution_def)

text \<open>Records that are all accepted are appended.\<close>

lemma retain_all:
  "efold (retain_record ch policy p) (state, ok) vs = Inr (state', True) \<longleftrightarrow>
     ok \<and> efold (append_record ch policy p) state vs = Inr state'"
proof (induction vs arbitrary: state ok)
  case (Cons v vs)
  obtain ids pos h where state: "state = (ids, pos, h)" by (cases state)
  have "retain_record ch policy p (state, ok) v =
      (case record_identity policy p v (history_length h + 1) ids of
         Inr identity \<Rightarrow> ebind (absorb_record ch policy p identity v state) (\<lambda>st. Inr (st, ok))
       | Inl e \<Rightarrow> if \<not> retains_invalid policy then Inl e
           else ebind (absorb_record ch policy p None v state) (\<lambda>st. Inr (st, False)))"
    by (auto simp: retain_record_def retained_identity_def state split: sum.split)
  moreover have "append_record ch policy p state v =
      ebind (record_identity policy p v (history_length h + 1) ids) (\<lambda>identity. absorb_record ch policy p identity v state)"
    by (simp add: append_record_def state)
  ultimately show ?case
    by (cases "record_identity policy p v (history_length h + 1) ids") (auto simp: errs Cons.IH)
qed auto

section \<open>The contributions of all participants\<close>

type_synonym 'i contributed_history = "py_text \<times> history_identity set \<times> 'i record_positions \<times> 'i history"

definition contributed ::
    "'i digest_chain \<Rightarrow> 'i history_policy \<Rightarrow> py_text \<times> 'i py_value list \<Rightarrow> 'i contributed_history \<Rightarrow> bool" where
  "contributed ch policy item e \<longleftrightarrow>
     fst e = fst item \<and> fst item \<noteq> [] \<and> contribution ch policy (fst item) empty_history (snd item) = Inr (snd e)"

definition ids_of :: "'i contributed_history list \<Rightarrow> history_identity set" where
  "ids_of es = (\<Union>(p, I, P, h) \<in> set es. I)"

fun positions_of :: "'i contributed_history list \<Rightarrow> 'i record_positions" where
  "positions_of [] = Map.empty"
| "positions_of ((p, I, P, h) # es) = P ++ positions_of es"

fun separate :: "history_identity set \<Rightarrow> 'i contributed_history list \<Rightarrow> bool" where
  "separate ids [] \<longleftrightarrow> True"
| "separate ids ((p, I, P, h) # es) \<longleftrightarrow> ids \<inter> I = {} \<and> separate (ids \<union> I) es"

definition histories_of :: "'i contributed_history list \<Rightarrow> (py_text, 'i history) dict" where
  "histories_of es = map (\<lambda>(p, I, P, h). (p, h)) es"

lemma contributed_simps [simp]:
  "ids_of [] = {}" "ids_of ((p, I, P, h) # es) = I \<union> ids_of es" "ids_of (es @ fs) = ids_of es \<union> ids_of fs"
  "histories_of [] = []" "histories_of ((p, I, P, h) # es) = (p, h) # histories_of es"
  "histories_of (es @ fs) = histories_of es @ histories_of fs"
  by (auto simp: ids_of_def histories_of_def)

lemma positions_of_append: "positions_of (es @ fs) = positions_of es ++ positions_of fs"
  by (induction es rule: positions_of.induct) (simp_all add: map_add_assoc)

lemma separate_append: "separate ids (es @ fs) \<longleftrightarrow> separate ids es \<and> separate (ids \<union> ids_of es) fs"
  by (induction es arbitrary: ids rule: positions_of.induct) (auto simp: Un_assoc)

lemma separate_ids: "separate ids es \<longleftrightarrow> ids \<inter> ids_of es = {} \<and> separate {} es"
proof (induction es arbitrary: ids rule: positions_of.induct)
  case (2 p I P h es)
  show ?case using "2.IH" [of "ids \<union> I"] "2.IH" [of "I"] by auto
qed simp

lemma histories_of_keys: "dkeys (histories_of es) = map fst es"
  by (auto simp: histories_of_def)

lemma contributed_keys: "list_all2 (contributed ch policy) H es \<Longrightarrow> map fst es = dkeys H"
  by (induction rule: list_all2_induct) (auto simp: contributed_def)

lemma contributed_positions:
  "list_all2 (contributed ch policy) H es \<Longrightarrow> dom (positions_of es) \<subseteq> set (dkeys H) \<times> UNIV"
proof (induction rule: list_all2_induct)
  case (Cons item H e es)
  obtain p I P h where e: "e = (p, I, P, h)" by (cases e)
  with Cons.hyps(1) have p: "fst item = p" and c: "contribution ch policy p empty_history (snd item) = Inr (I, P, h)"
    by (auto simp: contributed_def)
  from contribution_positions [OF c] have "dom P \<subseteq> {p} \<times> UNIV" .
  with p have "dom P \<subseteq> {p} \<times> UNIV" "fst item = p" by blast+
  with e Cons.IH show ?case by auto
qed simp

lemma retain_history_accepted:
  "retain_history ch policy (vals, ids, pos, ok) (p, vs) = Inr (vals', ids', pos', True) \<longleftrightarrow>
     ok \<and> (\<exists>e. contributed ch policy (p, vs) e \<and> separate ids [e] \<and> ids' = ids \<union> ids_of [e]
        \<and> pos' = pos ++ positions_of [e] \<and> vals' = dput p (snd (snd (snd e))) vals)"
proof -
  have "retain_history ch policy (vals, ids, pos, ok) (p, vs) = Inr (vals', ids', pos', True) \<longleftrightarrow>
      p \<noteq> [] \<and> (\<exists>h. efold (retain_record ch policy p) ((ids, pos, empty_history), ok) vs = Inr ((ids', pos', h), True)
        \<and> vals' = dput p h vals)"
    by (auto simp: retain_history_def ebind_eq_Inr require_eq_Inr)
  also have "\<dots> \<longleftrightarrow> ok \<and> p \<noteq> [] \<and> (\<exists>h I P. contribution ch policy p empty_history vs = Inr (I, P, h) \<and> ids \<inter> I = {}
      \<and> ids' = ids \<union> I \<and> pos' = pos ++ P \<and> vals' = dput p h vals)"
    unfolding retain_all append_frame by blast
  finally show ?thesis by (auto simp: contributed_def)
qed

lemma retain_history_ok:
  "retain_history ch policy (vals, ids, pos, False) item = Inr (vals', ids', pos', ok) \<Longrightarrow> \<not> ok"
  using retain_history_accepted [of ch policy vals ids pos False "fst item" "snd item"] by (cases ok) auto

lemma make_history_map_accepted:
  "efold (retain_history ch policy) (vals, ids, pos, ok) H = Inr (vals', ids', pos', True) \<longleftrightarrow>
     ok \<and> (\<exists>es. list_all2 (contributed ch policy) H es \<and> separate ids es \<and> ids' = ids \<union> ids_of es
        \<and> pos' = pos ++ positions_of es \<and> vals' = foldl (\<lambda>d (p, h). dput p h d) vals (histories_of es))"
proof (induction H arbitrary: vals ids pos ok)
  case Nil
  then show ?case by auto
next
  case (Cons item H)
  obtain p vs where item: "item = (p, vs)" by (cases item)
  have "efold (retain_history ch policy) (vals, ids, pos, ok) (item # H) = Inr (vals', ids', pos', True) \<longleftrightarrow>
      (\<exists>vals1 ids1 pos1. retain_history ch policy (vals, ids, pos, ok) item = Inr (vals1, ids1, pos1, True)
        \<and> (\<exists>es. list_all2 (contributed ch policy) H es \<and> separate ids1 es \<and> ids' = ids1 \<union> ids_of es
        \<and> pos' = pos1 ++ positions_of es \<and> vals' = foldl (\<lambda>d (p, h). dput p h d) vals1 (histories_of es)))"
    by (auto simp: ebind_eq_Inr Cons.IH)
  also have "\<dots> \<longleftrightarrow> ok \<and> (\<exists>e es. contributed ch policy item e \<and> separate ids [e]
      \<and> list_all2 (contributed ch policy) H es \<and> separate (ids \<union> ids_of [e]) es
      \<and> ids' = ids \<union> ids_of [e] \<union> ids_of es \<and> pos' = pos ++ positions_of [e] ++ positions_of es
      \<and> vals' = foldl (\<lambda>d (p, h). dput p h d) (dput p (snd (snd (snd e))) vals) (histories_of es))"
    unfolding item retain_history_accepted by blast
  also have "\<dots> \<longleftrightarrow> ok \<and> (\<exists>es. list_all2 (contributed ch policy) (item # H) es \<and> separate ids es \<and> ids' = ids \<union> ids_of es
        \<and> pos' = pos ++ positions_of es \<and> vals' = foldl (\<lambda>d (p, h). dput p h d) vals (histories_of es))"
  proof -
    have parts: "separate ids (e # es) \<longleftrightarrow> separate ids [e] \<and> separate (ids \<union> ids_of [e]) es"
      "ids_of (e # es) = ids_of [e] \<union> ids_of es" "positions_of (e # es) = positions_of [e] ++ positions_of es"
      "histories_of (e # es) = (fst e, snd (snd (snd e))) # histories_of es" for e es
      by (cases e; simp)+
    have fst: "fst e = p" if "contributed ch policy item e" for e using that item by (simp add: contributed_def)
    show ?thesis
    proof (intro iffI; elim exE conjE)
      fix e es
      assume e: "contributed ch policy item e" and rest: ok "separate ids [e]" "list_all2 (contributed ch policy) H es"
        "separate (ids \<union> ids_of [e]) es" "ids' = ids \<union> ids_of [e] \<union> ids_of es"
        "pos' = pos ++ positions_of [e] ++ positions_of es"
        "vals' = foldl (\<lambda>d (p, h). dput p h d) (dput p (snd (snd (snd e))) vals) (histories_of es)"
      show "ok \<and> (\<exists>es. list_all2 (contributed ch policy) (item # H) es \<and> separate ids es \<and> ids' = ids \<union> ids_of es
          \<and> pos' = pos ++ positions_of es \<and> vals' = foldl (\<lambda>d (p, h). dput p h d) vals (histories_of es))"
      proof (intro conjI)
        have "list_all2 (contributed ch policy) (item # H) (e # es)" using e rest(3) by simp
        moreover have "separate ids (e # es)" using rest(2,4) unfolding parts [of e es] by blast
        moreover have "ids' = ids \<union> ids_of (e # es)" using rest(5) unfolding parts [of e es] by blast
        moreover have "pos' = pos ++ positions_of (e # es)" using rest(6) unfolding parts [of e es] map_add_assoc .
        moreover have "vals' = foldl (\<lambda>d (p, h). dput p h d) vals (histories_of (e # es))"
          using rest(7) unfolding parts [of e es] fst [OF e] by simp
        ultimately show "\<exists>es. list_all2 (contributed ch policy) (item # H) es \<and> separate ids es \<and> ids' = ids \<union> ids_of es
          \<and> pos' = pos ++ positions_of es \<and> vals' = foldl (\<lambda>d (p, h). dput p h d) vals (histories_of es)"
          by blast
      qed (rule rest(1))
    next
      fix fs
      assume ok: ok and all: "list_all2 (contributed ch policy) (item # H) fs" and rest: "separate ids fs"
        "ids' = ids \<union> ids_of fs" "pos' = pos ++ positions_of fs"
        "vals' = foldl (\<lambda>d (p, h). dput p h d) vals (histories_of fs)"
      from all obtain e es where fs: "fs = e # es" and e: "contributed ch policy item e"
        and es: "list_all2 (contributed ch policy) H es" unfolding list_all2_Cons1 by blast
      show "ok \<and> (\<exists>e es. contributed ch policy item e \<and> separate ids [e]
          \<and> list_all2 (contributed ch policy) H es \<and> separate (ids \<union> ids_of [e]) es
          \<and> ids' = ids \<union> ids_of [e] \<union> ids_of es \<and> pos' = pos ++ positions_of [e] ++ positions_of es
          \<and> vals' = foldl (\<lambda>d (p, h). dput p h d) (dput p (snd (snd (snd e))) vals) (histories_of es))"
      proof (intro conjI)
        have "separate ids [e]" "separate (ids \<union> ids_of [e]) es" "ids' = ids \<union> ids_of [e] \<union> ids_of es"
          using rest(1,2) unfolding fs parts [of e es] by blast+
        moreover have "pos' = pos ++ positions_of [e] ++ positions_of es" using rest(3) unfolding fs parts [of e es] map_add_assoc .
        moreover have "vals' = foldl (\<lambda>d (p, h). dput p h d) (dput p (snd (snd (snd e))) vals) (histories_of es)"
          using rest(4) unfolding fs parts [of e es] fst [OF e] by simp
        ultimately show "\<exists>e es. contributed ch policy item e \<and> separate ids [e]
          \<and> list_all2 (contributed ch policy) H es \<and> separate (ids \<union> ids_of [e]) es
          \<and> ids' = ids \<union> ids_of [e] \<union> ids_of es \<and> pos' = pos ++ positions_of [e] ++ positions_of es
          \<and> vals' = foldl (\<lambda>d (p, h). dput p h d) (dput p (snd (snd (snd e))) vals) (histories_of es)"
          using e es by blast
      qed (rule ok)
    qed
  qed
  finally show ?case .
qed

lemma foldl_put_distinct:
  "distinct (dkeys d @ dkeys es) \<Longrightarrow> foldl (\<lambda>d (p, h). dput p h d) d es = d @ es"
proof (induction es arbitrary: d)
  case (Cons e es)
  obtain p h where e: "e = (p, h)" by (cases e)
  with Cons.prems have "dput p h d = d @ [(p, h)]" by (intro dput_absent) (auto simp: map_of_eq_None_iff)
  with e Cons.prems Cons.IH [of "d @ [(p, h)]"] show ?case by auto
qed simp

section \<open>Maps of accepted records\<close>

definition map_of_contributions ::
    "string \<Rightarrow> 'i history_policy \<Rightarrow> 'i contributed_history list \<Rightarrow> 'i history_map" where
  "map_of_contributions field policy es =
     \<lparr>hm_field = field, hm_policy = policy, hm_values = histories_of es, hm_keys = map fst es,
      hm_identities = ids_of es, hm_positions = positions_of es, shape_valid = True\<rparr>"

lemma made_map:
  assumes "dict_ok H"
  shows "make_history_map ch field H policy = Inr m \<and> shape_valid m \<longleftrightarrow>
     (\<exists>es. list_all2 (contributed ch policy) H es \<and> separate {} es \<and> m = map_of_contributions field policy es)"
proof -
  have "make_history_map ch field H policy = Inr m \<and> shape_valid m \<longleftrightarrow>
      (\<exists>vals ids pos. efold (retain_history ch policy) ([], {}, Map.empty, True) H = Inr (vals, ids, pos, True)
         \<and> m = \<lparr>hm_field = field, hm_policy = policy, hm_values = vals, hm_keys = dkeys vals,
            hm_identities = ids, hm_positions = pos, shape_valid = True\<rparr>)"
    by (auto simp: make_history_map_def ebind_eq_Inr)
  also have "\<dots> \<longleftrightarrow> (\<exists>es. list_all2 (contributed ch policy) H es \<and> separate {} es \<and> m = map_of_contributions field policy es)"
    (is "?l \<longleftrightarrow> ?r")
  proof -
    have vals: "foldl (\<lambda>d (p, h). dput p h d) [] (histories_of es) = histories_of es"
      and keys: "dkeys (histories_of es) = map fst es" if "list_all2 (contributed ch policy) H es" for es
      using foldl_put_distinct [of "[]" "histories_of es"] contributed_keys [OF that] assms
      by (simp_all add: histories_of_keys)
    note run = make_history_map_accepted [where vals = "[]" and ids = "{}" and pos = Map.empty and ok = True]
    show ?thesis
    proof
      assume ?l
      then obtain vals ids pos where efold: "efold (retain_history ch policy) ([], {}, Map.empty, True) H = Inr (vals, ids, pos, True)"
        and m: "m = \<lparr>hm_field = field, hm_policy = policy, hm_values = vals, hm_keys = dkeys vals,
            hm_identities = ids, hm_positions = pos, shape_valid = True\<rparr>" by blast
      from efold obtain es where es: "list_all2 (contributed ch policy) H es" "separate {} es" "ids = {} \<union> ids_of es"
        "pos = Map.empty ++ positions_of es" "vals = foldl (\<lambda>d (p, h). dput p h d) [] (histories_of es)"
        unfolding run by blast
      have "m = map_of_contributions field policy es"
        unfolding m es(3-5) vals [OF es(1)] keys [OF es(1)] map_of_contributions_def by simp
      with es(1,2) show ?r by blast
    next
      assume ?r
      then obtain es where es: "list_all2 (contributed ch policy) H es" "separate {} es"
        and m: "m = map_of_contributions field policy es" by blast
      have "efold (retain_history ch policy) ([], {}, Map.empty, True) H = Inr (histories_of es, ids_of es, positions_of es, True)"
        unfolding run using es vals [OF es(1)] by (intro conjI exI [of _ es]) simp_all
      moreover have "m = \<lparr>hm_field = field, hm_policy = policy, hm_values = histories_of es, hm_keys = dkeys (histories_of es),
            hm_identities = ids_of es, hm_positions = positions_of es, shape_valid = True\<rparr>"
        unfolding m map_of_contributions_def keys [OF es(1)] ..
      ultimately show ?l by blast
    qed
  qed
  finally show ?thesis .
qed

lemma dict_split:
  assumes "dget H p = Some vs"
  obtains H1 H2 where "H = H1 @ (p, vs) # H2" "p \<notin> set (dkeys H1)"
  using assms
proof (induction H arbitrary: thesis)
  case (Cons item H)
  show ?case
  proof (cases "fst item = p")
    case True
    with Cons.prems(2) show ?thesis by (intro Cons.prems(1) [of "[]" H]) (cases item; auto)+
  next
    case False
    with Cons.prems(2) have "dget H p = Some vs" by (cases item) auto
    then obtain H1 H2 where "H = H1 @ (p, vs) # H2" "p \<notin> set (dkeys H1)" by (rule Cons.IH [rotated])
    with False show ?thesis by (intro Cons.prems(1) [of "item # H1" H2]) auto
  qed
qed simp

lemma dput_split: "p \<notin> set (dkeys d1) \<Longrightarrow> dput p v (d1 @ (p, w) # d2) = d1 @ (p, v) # d2"
  by (induction d1) auto

lemma append_records_Inr:
  "append_records ch p rs m = Inr m' \<longleftrightarrow> shape_valid m \<and> p \<noteq> []
     \<and> (\<exists>J Q h'. contribution ch (hm_policy m) p (case dget (hm_values m) p of None \<Rightarrow> empty_history | Some h \<Rightarrow> h) rs
            = Inr (J, Q, h')
          \<and> hm_identities m \<inter> J = {}
          \<and> m' = m\<lparr>hm_values := dput p h' (hm_values m),
                 hm_keys := (if p \<in> set (hm_keys m) then hm_keys m else hm_keys m @ [p]),
                 hm_identities := hm_identities m \<union> J, hm_positions := hm_positions m ++ Q, shape_valid := True\<rparr>)"
    (is "_ \<longleftrightarrow> _ \<and> _ \<and> (\<exists>J Q h'. ?c J Q h' \<and> ?d J \<and> m' = ?m J Q h')")
proof -
  let ?h = "case dget (hm_values m) p of None \<Rightarrow> empty_history | Some h \<Rightarrow> h"
  have "append_records ch p rs m = Inr m' \<longleftrightarrow> shape_valid m \<and> p \<noteq> []
     \<and> (\<exists>ids pos h'. efold (append_record ch (hm_policy m) p) (hm_identities m, hm_positions m, ?h) rs = Inr (ids, pos, h')
        \<and> m' = m\<lparr>hm_values := dput p h' (hm_values m),
                 hm_keys := (if p \<in> set (hm_keys m) then hm_keys m else hm_keys m @ [p]),
                 hm_identities := ids, hm_positions := pos, shape_valid := True\<rparr>)"
    unfolding append_records_def Let_def ebind_eq_Inr require_eq_Inr split_paired_Ex prod.case by auto
  also have "\<dots> \<longleftrightarrow> shape_valid m \<and> p \<noteq> [] \<and> (\<exists>J Q h'. ?c J Q h' \<and> ?d J \<and> m' = ?m J Q h')"
    unfolding append_frame by blast
  finally show ?thesis .
qed

lemma disjoint_mono: "A \<inter> B = {} \<Longrightarrow> X \<subseteq> A \<Longrightarrow> Y \<subseteq> B \<Longrightarrow> X \<inter> Y = {}"
  by blast

lemma product_disjoint: "p \<notin> A \<Longrightarrow> ({p} \<times> UNIV) \<inter> (A \<times> UNIV) = {}"
  by blast

text \<open>An append to a map of contributions is the map of the extended contributions.\<close>

lemma append_contributions:
  assumes es: "list_all2 (contributed ch policy) H es" "separate {} es" and "dict_ok H"
    and app: "append_records ch p rs (map_of_contributions field policy es) = Inr m'" (is "append_records _ _ _ ?m = _")
  defines "old \<equiv> case dget H p of None \<Rightarrow> [] | Some vs \<Rightarrow> vs"
  shows "\<exists>fs. list_all2 (contributed ch policy) (dput p (old @ rs) H) fs \<and> separate {} fs
     \<and> m' = map_of_contributions field policy fs"
proof -
  define h where "h = (case dget (histories_of es) p of None \<Rightarrow> empty_history | Some h \<Rightarrow> h)"
  have m: "hm_values ?m = histories_of es" "hm_keys ?m = map fst es" "hm_identities ?m = ids_of es"
    "hm_positions ?m = positions_of es" "hm_policy ?m = policy"
    by (simp_all add: map_of_contributions_def)
  from app [unfolded append_records_Inr m, folded h_def] obtain J Q h' where p: "p \<noteq> []"
    and J: "contribution ch policy p h rs = Inr (J, Q, h')" "ids_of es \<inter> J = {}"
    and m': "m' = ?m\<lparr>hm_values := dput p h' (histories_of es),
          hm_keys := (if p \<in> set (map fst es) then map fst es else map fst es @ [p]),
          hm_identities := ids_of es \<union> J, hm_positions := positions_of es ++ Q, shape_valid := True\<rparr>"
    by blast
  have keys: "map fst es = dkeys H" using es(1) by (rule contributed_keys)
  show ?thesis
  proof (cases "dget H p")
    case None
    then have absent: "p \<notin> set (map fst es)" unfolding keys by (simp add: map_of_eq_None_iff)
    then have no_history: "dget (histories_of es) p = None"
      unfolding map_of_eq_None_iff by (metis histories_of_keys list.set_map)
    have "list_all2 (contributed ch policy) (H @ [(p, rs)]) (es @ [(p, J, Q, h')])"
      using es(1) p J(1) no_history by (intro list_all2_appendI) (simp_all add: contributed_def h_def)
    moreover have "separate {} (es @ [(p, J, Q, h')])"
      using es(2) J(2) by (simp add: separate_append)
    moreover have "m' = map_of_contributions field policy (es @ [(p, J, Q, h')])"
      using absent no_history by (simp add: m' map_of_contributions_def positions_of_append dput_absent)
    ultimately show ?thesis using None by (auto simp: old_def dput_absent)
  next
    case (Some vs)
    then obtain H1 H2 where H: "H = H1 @ (p, vs) # H2" "p \<notin> set (dkeys H1)" by (rule dict_split)
    with assms(3) have p2: "p \<notin> set (dkeys H2)" by simp
    from es(1) H(1) obtain es1 e es2 where parts: "es = es1 @ e # es2" "list_all2 (contributed ch policy) H1 es1"
      "contributed ch policy (p, vs) e" "list_all2 (contributed ch policy) H2 es2"
      by (auto simp: list_all2_append1 list_all2_Cons1)
    from parts(3) obtain I P g where e: "e = (p, I, P, g)" "contribution ch policy p empty_history vs = Inr (I, P, g)"
      by (cases e) (auto simp: contributed_def)
    have keys12: "map fst es1 = dkeys H1" "map fst es2 = dkeys H2"
      using parts(2,4) contributed_keys by blast+
    have absent: "p \<notin> set (dkeys (histories_of es1))"
      using H(2) by (simp only: histories_of_keys keys12 not_False_eq_True)
    then have "dget (histories_of es1) p = None" by (simp only: map_of_eq_None_iff list.set_map not_False_eq_True)
    then have h: "h = g" unfolding h_def parts(1) e(1) by (simp add: map_add_def)
    define f where "f = (p, I \<union> J, P ++ Q, h')"
    have "I \<inter> J = {}" using J(2) by (auto simp: parts(1) e(1))
    then have "contributed ch policy (p, vs @ rs) f"
      using e(2) J(1) p h by (auto simp: contributed_def f_def contribution_append)
    then have "list_all2 (contributed ch policy) (dput p (old @ rs) H) (es1 @ f # es2)"
      using parts(2,4) Some H by (simp add: old_def dput_split list_all2_appendI)
    moreover have "separate {} (es1 @ f # es2)"
      using es(2) J(2) separate_ids [of "ids_of es1 \<union> (I \<union> J)" es2] separate_ids [of "ids_of es1 \<union> I" es2]
      by (auto simp: parts(1) e(1) f_def separate_append)
    moreover have "m' = map_of_contributions field policy (es1 @ f # es2)"
    proof -
      have "dput p h' (histories_of es) = histories_of (es1 @ f # es2)"
        unfolding parts(1) e(1) f_def using dput_split [OF absent] by simp
      moreover have "ids_of es \<union> J = ids_of (es1 @ f # es2)" by (auto simp: parts(1) e(1) f_def)
      moreover have "positions_of es ++ Q = positions_of (es1 @ f # es2)"
      proof -
        have apart: "({p} \<times> UNIV) \<inter> (set (dkeys H2) \<times> UNIV) = ({} :: (py_text \<times> 'a py_value) set)"
          using p2 by (intro product_disjoint)
        from apart contribution_positions [OF J(1)] contributed_positions [OF parts(4)]
        have "dom Q \<inter> dom (positions_of es2) = {}" by (rule disjoint_mono)
        then have "positions_of es2 ++ Q = Q ++ positions_of es2"
          by (subst map_add_comm) (simp_all only: Int_commute)
        then show ?thesis
          by (simp only: parts(1) e(1) f_def positions_of_append positions_of.simps map_add_assoc [symmetric])
      qed
      ultimately show ?thesis
        by (simp add: m' map_of_contributions_def parts(1) e(1) f_def)
    qed
    ultimately show ?thesis by blast
  qed
qed

end
