(* ===== verification/KeptHistories.thy ===== *)
theory KeptHistories
  imports HistoryMaps
begin

text \<open>
  The history maps that the constructor and appends build: their histories grow record by record, a
  later map keeps the prefixes of an earlier one, and a record is found by its identifier. And the
  portable form of a value, whose admission never raises.
\<close>

section \<open>Kept maps\<close>

inductive kept_map :: "'i digest_chain \<Rightarrow> string \<Rightarrow> 'i history_policy \<Rightarrow> 'i history_map \<Rightarrow> bool" for ch field policy where
  kept_made: "dict_ok H \<Longrightarrow> make_history_map ch field H policy = Inr m \<Longrightarrow> kept_map ch field policy m"
| kept_append: "kept_map ch field policy m \<Longrightarrow> append_records ch p rs m = Inr m' \<Longrightarrow> kept_map ch field policy m'"

definition grown_values :: "'i digest_chain \<Rightarrow> 'i history_policy \<Rightarrow> (py_text, 'i history) dict \<Rightarrow> bool" where
  "grown_values ch policy d \<longleftrightarrow> dict_ok d \<and> (\<forall>p h. dget d p = Some h \<longrightarrow> grown ch policy h)"

lemma absorb_grown:
  "absorb_record ch policy p identity v (ids, pos, h) = Inr (ids', pos', h') \<Longrightarrow> grown ch policy h \<Longrightarrow> grown ch policy h'"
  by (auto simp: absorb_record_def ebind_eq_Inr intro: grown_append)

lemma contribution_grown:
  assumes "contribution ch policy p h vs = Inr (I, P, h')" and "grown ch policy h"
  shows "grown ch policy h'"
proof -
  have "case (I, P, h') of (ids, pos, h) \<Rightarrow> grown ch policy h"
    by (rule efold_invariant [OF assms(1) [unfolded contribution_def]])
      (use assms(2) in \<open>auto simp: append_record_def ebind_eq_Inr intro: absorb_grown\<close>)
  then show ?thesis by simp
qed

lemma retain_record_grown:
  "retain_record ch policy p ((ids, pos, h), ok) v = Inr ((ids', pos', h'), ok') \<Longrightarrow> grown ch policy h \<Longrightarrow> grown ch policy h'"
  by (auto simp: retain_record_def ebind_eq_Inr intro: absorb_grown)

lemma retain_history_grown:
  assumes "retain_history ch policy (d, ids, pos, ok) item = Inr (d', ids', pos', ok')" and "grown_values ch policy d"
  shows "grown_values ch policy d'"
proof -
  obtain p vs where item: "item = (p, vs)" by (cases item)
  from assms(1) obtain h where h: "efold (retain_record ch policy p) ((ids, pos, empty_history), ok) vs = Inr ((ids', pos', h), ok')"
    and d': "d' = dput p h d"
    by (auto simp: item retain_history_def ebind_eq_Inr)
  have "grown ch policy h"
  proof -
    have "case ((ids', pos', h), ok') of ((ids, pos, h), ok) \<Rightarrow> grown ch policy h"
      by (rule efold_invariant [OF h]) (auto intro: retain_record_grown grown_empty)
    then show ?thesis by simp
  qed
  with assms(2) show ?thesis by (simp add: grown_values_def d')
qed

lemma kept_map_values:
  "kept_map ch field policy m \<Longrightarrow> hm_policy m = policy \<and> hm_keys m = dkeys (hm_values m) \<and> grown_values ch policy (hm_values m)"
proof (induction rule: kept_map.induct)
  case (kept_made H m)
  then obtain d ids pos ok where d: "efold (retain_history ch policy) ([], {}, Map.empty, True) H = Inr (d, ids, pos, ok)"
    and m: "m = \<lparr>hm_field = field, hm_policy = policy, hm_values = d, hm_keys = dkeys d,
            hm_identities = ids, hm_positions = pos, shape_valid = ok\<rparr>"
    by (auto simp: make_history_map_def ebind_eq_Inr)
  have "grown_values ch policy d"
  proof -
    have "case (d, ids, pos, ok) of (d, ids, pos, ok) \<Rightarrow> grown_values ch policy d"
      by (rule efold_invariant [OF d]) (simp add: grown_values_def, clarify, rule retain_history_grown)
    then show ?thesis by simp
  qed
  with m show ?case by simp
next
  case (kept_append m p rs m')
  define h where "h = (case dget (hm_values m) p of None \<Rightarrow> empty_history | Some h \<Rightarrow> h)"
  from kept_append.hyps(2) obtain J Q h' where h': "contribution ch (hm_policy m) p h rs = Inr (J, Q, h')"
    and m': "m' = m\<lparr>hm_values := dput p h' (hm_values m),
                 hm_keys := (if p \<in> set (hm_keys m) then hm_keys m else hm_keys m @ [p]),
                 hm_identities := hm_identities m \<union> J, hm_positions := hm_positions m ++ Q, shape_valid := True\<rparr>"
    unfolding append_records_Inr h_def by blast
  have "grown ch policy h"
    using kept_append.IH by (auto simp: h_def grown_values_def grown_empty split: option.split)
  then have "grown ch policy h'"
    using h' kept_append.IH by (auto intro: contribution_grown)
  moreover have "(if p \<in> set (hm_keys m) then hm_keys m else hm_keys m @ [p]) = dkeys (dput p h' (hm_values m))"
    using kept_append.IH dget_None_iff [of "hm_values m" p]
    by (cases "dget (hm_values m) p") (simp_all add: dkeys_dput_present dput_absent dget_Some_key)
  ultimately show ?case using kept_append.IH by (simp add: m' grown_values_def)
qed

lemma kept_history: "kept_map ch field policy m \<Longrightarrow> dget (hm_values m) p = Some h \<Longrightarrow> grown ch policy h"
  using kept_map_values [of ch field policy m] by (auto simp: grown_values_def)

lemma kept_key: "kept_map ch field policy m \<Longrightarrow> p \<in> set (hm_keys m) \<Longrightarrow> \<exists>h. dget (hm_values m) p = Some h"
  using kept_map_values [of ch field policy m] dkeys_iff_dget [of p "hm_values m"] by auto

section \<open>Appends keep every prefix\<close>

definition extends_history :: "'i history \<Rightarrow> 'i history \<Rightarrow> bool" where
  "extends_history h h' \<longleftrightarrow> prefix (history_entries h) (history_entries h')"

lemma appended_extends: "appended ch policy v h = Inr h' \<Longrightarrow> extends_history h h'"
  by (auto elim!: appended_Inr simp: extends_history_def)

lemma contribution_extends:
  assumes "contribution ch policy p h vs = Inr (I, P, h')"
  shows "extends_history h h'"
proof -
  have "case (I, P, h') of (ids, pos, g) \<Rightarrow> extends_history h g"
    by (rule efold_invariant [OF assms [unfolded contribution_def]])
      (auto simp: append_record_Inr extends_history_def dest!: appended_extends)
  then show ?thesis by simp
qed

lemma extends_preserves:
  assumes "extends_history h h'"
  shows "preserves_prefix ch h (Some h')"
proof -
  obtain es where es: "history_entries h' = history_entries h @ es"
    using assms by (auto simp: extends_history_def prefix_def)
  then show ?thesis
    by (auto simp: preserves_prefix_def prefix_digest_def history_length_def nth_append nat_diff_distrib' Suc_le_eq)
qed

definition extends_map :: "'i history_map \<Rightarrow> 'i history_map \<Rightarrow> bool" where
  "extends_map m m' \<longleftrightarrow>
     (\<forall>p h. dget (hm_values m) p = Some h \<longrightarrow> (\<exists>h'. dget (hm_values m') p = Some h' \<and> extends_history h h'))"

lemma extends_map_refl [simp]: "extends_map m m"
  by (simp add: extends_map_def extends_history_def)

lemma extends_map_trans: "extends_map m m1 \<Longrightarrow> extends_map m1 m2 \<Longrightarrow> extends_map m m2"
  unfolding extends_map_def extends_history_def by (meson prefix_order.trans)

lemma append_extends:
  assumes "append_records ch p rs m = Inr m'"
  shows "extends_map m m'"
proof -
  define h where "h = (case dget (hm_values m) p of None \<Rightarrow> empty_history | Some h \<Rightarrow> h)"
  from assms obtain J Q h' where h': "contribution ch (hm_policy m) p h rs = Inr (J, Q, h')"
    and m': "hm_values m' = dput p h' (hm_values m)"
    unfolding append_records_Inr h_def by auto
  from contribution_extends [OF h'] show ?thesis
    by (auto simp: extends_map_def m' h_def extends_history_def)
qed

lemma appends_extend:
  assumes "efold (\<lambda>m (p, rs). append_records ch p rs m) m steps = Inr m'"
  shows "extends_map m m'"
  by (rule efold_invariant [OF assms]) (auto intro: extends_map_trans append_extends)

section \<open>Violations of the prefix\<close>

text \<open>The digests and texts that the histories of a map link.\<close>

definition map_links :: "'i digest_chain \<Rightarrow> 'i history_map \<Rightarrow> (string \<times> string) set" where
  "map_links ch m = (\<Union>(p, h) \<in> set (hm_values m). text_links ch (history_texts ch h))"

lemma map_links_history: "dget (hm_values m) p = Some h \<Longrightarrow> text_links ch (history_texts ch h) \<subseteq> map_links ch m"
  by (fastforce simp: map_links_def dest: map_of_SomeD)

definition participant_texts :: "'i digest_chain \<Rightarrow> 'i history_map \<Rightarrow> py_text \<Rightarrow> string list option" where
  "participant_texts ch m p = map_option (history_texts ch) (dget (hm_values m) p)"

lemma kept_preserves:
  assumes "kept_map ch field policy m" and "kept_map ch field' policy' m'" and "collision_free ch (map_links ch m \<union> map_links ch m')"
    and "p \<in> set (hm_keys m)"
  shows "preserves_prefix ch (the (dget (hm_values m) p)) (dget (hm_values m') p) \<longleftrightarrow>
     (\<exists>ts. participant_texts ch m' p = Some ts \<and> prefix (the (participant_texts ch m p)) ts)"
proof -
  obtain h where h: "dget (hm_values m) p = Some h" using kept_key [OF assms(1,4)] by blast
  show ?thesis
  proof (cases "dget (hm_values m') p")
    case None
    then show ?thesis by (simp add: preserves_prefix_def participant_texts_def)
  next
    case (Some h')
    have "preserves_prefix ch h (Some h') \<longleftrightarrow> prefix (history_texts ch h) (history_texts ch h')"
      by (rule preserved_prefix [OF assms(3) kept_history [OF assms(1) h] kept_history [OF assms(2) Some]])
        (use map_links_history [OF h, of ch] map_links_history [OF Some, of ch] in blast)+
    with h Some show ?thesis by (simp add: participant_texts_def)
  qed
qed

section \<open>Records by their identifier\<close>

lemma collect_related:
  assumes "collect f xs = Inr ys" and "\<And>x y. x \<in> set xs \<Longrightarrow> f x = Inr y \<Longrightarrow> g y = g' x"
  shows "map g ys = map g' xs"
proof (rule nth_equalityI)
  from assms(1) have all: "list_all2 (\<lambda>x y. f x = Inr y) xs ys" by (simp add: collect_eq_Inr)
  then show length: "length (map g ys) = length (map g' xs)" by (simp add: list_all2_lengthD)
  show "map g ys ! i = map g' xs ! i" if "i < length (map g ys)" for i
    using that length assms(2) [of "xs ! i" "ys ! i"] list_all2_nthD [OF all, of i] by simp
qed

lemma freeze_mutable: "freeze v = Inr w \<Longrightarrow> mutable_value w = mutable_value v"
proof (induction v arbitrary: w rule: freeze.induct)
  case (1 kvs)
  then obtain items where items: "collect (\<lambda>(k, v). ebind (freeze v) (\<lambda>w. Inr (k, w))) kvs = Inr items" and w: "w = PDict items"
    by (auto simp only: freeze.simps ebind_eq_Inr sum.inject)
  have "map (\<lambda>(k, v). (k, mutable_value v)) items = map (\<lambda>(k, v). (k, mutable_value v)) kvs"
  proof (rule collect_related [OF items])
    fix x y
    assume x: "x \<in> set kvs" and y: "(case x of (k, v) \<Rightarrow> ebind (freeze v) (\<lambda>w. Inr (k, w))) = Inr y"
    obtain k v where kv: "x = (k, v)" by (cases x)
    from y obtain u where "freeze v = Inr u" "y = (k, u)" by (auto simp only: kv prod.case ebind_eq_Inr sum.inject)
    with "1.IH" [OF x kv [symmetric]] show "(case y of (k, v) \<Rightarrow> (k, mutable_value v)) = (case x of (k, v) \<Rightarrow> (k, mutable_value v))"
      by (simp only: kv prod.case)
  qed
  then show ?case by (simp only: w mutable_value.simps)
next
  case (3 vs)
  then obtain ws where ws: "collect freeze vs = Inr ws" and w: "w = PTuple ws"
    by (auto simp only: freeze.simps ebind_eq_Inr sum.inject)
  have "map mutable_value ws = map mutable_value vs"
    by (rule collect_related [OF ws]) (rule "3.IH")
  then show ?case by (simp only: w mutable_value.simps)
next
  case (4 vs)
  then obtain ws where ws: "collect freeze vs = Inr ws" and w: "w = PTuple ws"
    by (auto simp only: freeze.simps ebind_eq_Inr sum.inject)
  have "map mutable_value ws = map mutable_value vs"
    by (rule collect_related [OF ws]) (rule "4.IH")
  then show ?case by (simp only: w mutable_value.simps)
qed (auto split: if_splits)

lemma frozen_record:
  assumes "is_mapping v" and "freeze (PDict (children v)) = Inr f"
  shows "mutable_value f = mutable_value v"
proof (cases v)
  case (PHistoryMap hs)
  show ?thesis
  proof (cases hs)
    case (Cons x hs')
    obtain p h where "x = (p, h)" by (cases x)
    with Cons PHistoryMap assms(2) show ?thesis by (simp add: ebind_eq_Inr collect_eq_Inr list_all2_Cons1)
  qed (use freeze_mutable [OF assms(2)] PHistoryMap in simp)
qed (use assms freeze_mutable [OF assms(2)] in auto)

text \<open>The position of the last record with an identity and this identifier.\<close>

definition identified :: "'i history_policy \<Rightarrow> py_text \<Rightarrow> 'i py_value \<Rightarrow> nat \<Rightarrow> 'i py_value \<Rightarrow> bool" where
  "identified policy p r position v \<longleftrightarrow>
     (case policy_identity policy p v (position + 1) of Inr (Some i) \<Rightarrow> record_id v = Inr r | _ \<Rightarrow> False)"

definition last_position :: "'i history_policy \<Rightarrow> py_text \<Rightarrow> 'i py_value \<Rightarrow> 'i py_value list \<Rightarrow> nat option" where
  "last_position policy p r vs =
     (let hits = filter (\<lambda>i. identified policy p r i (vs ! i)) [0..<length vs] in
      if hits = [] then None else Some (last hits))"

lemma last_position_snoc:
  "last_position policy p r (vs @ [v]) =
     (if identified policy p r (length vs) v then Some (length vs) else last_position policy p r vs)"
proof -
  have "filter (\<lambda>i. identified policy p r i ((vs @ [v]) ! i)) [0..<length vs]
      = filter (\<lambda>i. identified policy p r i (vs ! i)) [0..<length vs]"
    by (intro filter_cong) (simp_all add: nth_append)
  then show ?thesis by (simp add: last_position_def)
qed

definition stored :: "'i py_value list \<Rightarrow> 'i history \<Rightarrow> bool" where
  "stored vs h \<longleftrightarrow> map (\<lambda>(f, d). mutable_value f) (history_entries h) = map mutable_value vs"

lemma contribution_single:
  assumes "contribution ch policy p h [v] = Inr (I, P, h')"
  shows "P (p, r) = (if identified policy p r (history_length h) v then Some (history_length h) else None)"
    and "stored vs h \<Longrightarrow> stored (vs @ [v]) h'"
proof -
  from assms obtain identity where i: "is_mapping v" "policy_identity policy p v (history_length h + 1) = Inr identity"
    "appended ch policy v h = Inr h'"
    "case identity of None \<Rightarrow> P = Map.empty
     | Some i \<Rightarrow> \<exists>r. record_id v = Inr r \<and> P = [(p, r) \<mapsto> history_length h]"
    by (auto simp: contribution_def ebind_eq_Inr append_record_Inr split: option.splits)
  then show "P (p, r) = (if identified policy p r (history_length h) v then Some (history_length h) else None)"
    by (cases identity) (auto simp: identified_def)
  obtain f d where "freeze (PDict (children v)) = Inr f" "history_entries h' = history_entries h @ [(f, d)]"
    using i(3) by (rule appended_Inr) blast
  then show "stored vs h \<Longrightarrow> stored (vs @ [v]) h'"
    using frozen_record [OF i(1)] by (simp add: stored_def)
qed

lemma contribution_found:
  "contribution ch policy p empty_history vs = Inr (I, P, h) \<Longrightarrow> stored vs h \<and> P (p, r) = last_position policy p r vs"
proof (induction vs arbitrary: I P h rule: rev_induct)
  case Nil
  then show ?case by (auto simp: contribution_def stored_def empty_history_def last_position_def)
next
  case (snoc v vs)
  from snoc.prems obtain I1 P1 h1 I2 P2 where parts: "contribution ch policy p empty_history vs = Inr (I1, P1, h1)"
    "contribution ch policy p h1 [v] = Inr (I2, P2, h)" "P = P1 ++ P2"
    unfolding contribution_append by blast
  have old: "stored vs h1" "P1 (p, r) = last_position policy p r vs" using snoc.IH [OF parts(1)] by blast+
  have "history_length h1 = length vs"
    using arg_cong [OF old(1) [unfolded stored_def], of length] by (simp add: history_length_def)
  with contribution_single [OF parts(2)] old show ?case
    by (simp add: parts(3) map_add_def last_position_snoc)
qed

lemma positions_elsewhere:
  "list_all2 (contributed ch policy) H es \<Longrightarrow> p \<notin> set (dkeys H) \<Longrightarrow> positions_of es (p, r) = None"
proof (cases "positions_of es (p, r)")
  case (Some k)
  then have "(p, r) \<in> dom (positions_of es)" by (rule domI)
  moreover assume "list_all2 (contributed ch policy) H es"
  ultimately have "(p, r) \<in> set (dkeys H) \<times> UNIV" using contributed_positions by blast
  moreover assume "p \<notin> set (dkeys H)"
  ultimately show ?thesis by blast
qed

lemma contributions_found:
  assumes "list_all2 (contributed ch policy) H es" and "dict_ok H"
  shows "find_record (map_of_contributions field policy es) p t =
     Inr (case dget H p of
            None \<Rightarrow> None
          | Some rs \<Rightarrow> map_option (\<lambda>k. mutable_value (rs ! k)) (last_position policy p (PStr t) rs))"
proof (cases "dget H p")
  case None
  have "positions_of es (p, PStr t) = None"
    using positions_elsewhere [OF assms(1)] None unfolding dget_None_iff by blast
  with None show ?thesis by (simp add: find_record_def map_of_contributions_def)
next
  case (Some rs)
  then obtain H1 H2 where H: "H = H1 @ (p, rs) # H2" "p \<notin> set (dkeys H1)" by (rule dict_split)
  with assms(2) have absent: "p \<notin> set (dkeys H2)" by simp
  from assms(1) H(1) obtain es1 e es2 where parts: "es = es1 @ e # es2" "list_all2 (contributed ch policy) H1 es1"
    "contributed ch policy (p, rs) e" "list_all2 (contributed ch policy) H2 es2"
    by (auto simp: list_all2_append1 list_all2_Cons1)
  from parts(3) obtain I P h where e: "e = (p, I, P, h)" "contribution ch policy p empty_history rs = Inr (I, P, h)"
    by (cases e) (auto simp: contributed_def)
  have found: "stored rs h" "P (p, PStr t) = last_position policy p (PStr t) rs"
    using contribution_found [OF e(2)] by blast+
  have position: "positions_of es (p, PStr t) = last_position policy p (PStr t) rs"
    using positions_elsewhere [OF parts(2) H(2)] positions_elsewhere [OF parts(4) absent] found(2)
    by (simp add: parts(1) e(1) positions_of_append map_add_def split: option.split)
  have "dget (histories_of es1) p = None"
    unfolding map_of_eq_None_iff using H(2) contributed_keys [OF parts(2)] by (metis histories_of_keys list.set_map)
  then have history: "dget (histories_of es) p = Some h" by (simp add: parts(1) e(1) map_add_def)
  have item: "history_item h (int k) = Inr (mutable_value (rs ! k))" if "k < length rs" for k
  proof -
    have len: "length (history_entries h) = length rs"
      using arg_cong [OF found(1) [unfolded stored_def], of length] by simp
    have "map (\<lambda>(f, d). mutable_value f) (history_entries h) ! k = map mutable_value rs ! k"
      using found(1) by (simp add: stored_def)
    with that len show ?thesis by (simp add: history_item_def history_length_def case_prod_unfold)
  qed
  have "k < length rs" if "last_position policy p (PStr t) rs = Some k" for k
    using that last_in_set [of "filter (\<lambda>i. identified policy p (PStr t) i (rs ! i)) [0..<length rs]"]
    by (auto simp: last_position_def Let_def split: if_splits)
  with item position history show ?thesis
    by (auto simp: find_record_def map_of_contributions_def Some split: option.split)
qed

section \<open>Portable values\<close>

fun portable :: "'i py_value \<Rightarrow> bool" where
  "portable (PDict kvs) \<longleftrightarrow> list_all (\<lambda>(k, v). portable v) kvs"
| "portable (PList vs) \<longleftrightarrow> list_all portable vs"
| "portable (PTuple vs) \<longleftrightarrow> False"
| "portable (PHistory h) \<longleftrightarrow> False"
| "portable (PHistoryMap hs) \<longleftrightarrow> False"
| "portable (PRecord names extra) \<longleftrightarrow> False"
| "portable (PEnum is_str v) \<longleftrightarrow> False"
| "portable (PDocument t) \<longleftrightarrow> False"
| "portable v \<longleftrightarrow> True"

lemma portable_mutable: "frozen v \<Longrightarrow> portable (mutable_value v)"
  by (induction v rule: frozen.induct) (auto simp: list_all_iff)

lemma portable_child: "portable v \<Longrightarrow> (k, c) \<in> set (children v) \<Longrightarrow> portable c"
  by (cases v) (auto simp: list_all_iff dest: in_index_from)

lemma portable_plain: "portable v \<Longrightarrow> plain v"
  by (induction v rule: portable.induct) (auto simp: list_all_iff)

definition never_raises :: "'i py_value \<Rightarrow> bool" where
  "never_raises v \<longleftrightarrow> (\<forall>path depth b. \<not> isl (validate_bounded_value v path depth b))"

lemma members_never_raise:
  "\<forall>(k, c) \<in> set ms. never_raises c \<Longrightarrow> \<not> isl (members_failure mapping ms path depth b)"
proof (induction ms arbitrary: b)
  case (Cons m ms)
  obtain k c where m: "m = (k, c)" by (cases m)
  obtain b1 f1 where k: "key_failure mapping k path b = (b1, f1)" by fastforce
  have "\<not> isl (validate_bounded_value c (path @ [key_token k]) (depth + 1) b1)"
    using Cons.prems by (auto simp: m never_raises_def)
  then obtain b2 f2 where "validate_bounded_value c (path @ [key_token k]) (depth + 1) b1 = Inr (b2, f2)"
    by (cases "validate_bounded_value c (path @ [key_token k]) (depth + 1) b1") auto
  with k Cons show ?case by (auto simp: m split: option.split)
qed simp

lemma portable_never_raises: "portable v \<Longrightarrow> never_raises v"
proof (induction v rule: measure_induct_rule [of size])
  case (less v)
  have members: "\<forall>(k, c) \<in> set (children v). never_raises c"
    using less.IH child_size portable_child [OF less.prems] by fastforce
  have "\<not> isl (validate_bounded_value v path depth b)" for path depth b
  proof -
    have "charged_history v depth b = Inr None"
      using less.prems by (cases v) (simp_all add: charged_history_def charge_immutable_history_def)
    then have visit: "validate_bounded_value v path depth b = traversed v path depth b"
      by (simp add: validate_traversed)
    show ?thesis
      unfolding visit traversed_def admit_plain [OF portable_plain [OF less.prems]]
      using members_never_raise [OF members]
      by (auto split: prod.split option.split)
  qed
  then show ?case by (simp add: never_raises_def)
qed

section \<open>A map and its export\<close>

definition encodable_keys :: "'i history_map \<Rightarrow> bool" where
  "encodable_keys m \<longleftrightarrow> (\<forall>p \<in> set (hm_keys m). utf8_size p \<noteq> None)"

lemma map_value_histories:
  assumes "kept_map ch field policy m" and "map_value m = PHistoryMap hs"
  shows "list_all (\<lambda>(p, h). grown ch policy h) hs" and "map fst hs = hm_keys m"
  using assms(2) kept_key [OF assms(1)] kept_history [OF assms(1)]
  by (fastforce simp: map_value_def list_all_iff comp_def)+

lemma kept_map_plain:
  assumes "kept_map ch field policy m"
  shows "plain (map_value m)"
proof -
  obtain hs where hs: "map_value m = PHistoryMap hs" by (simp add: map_value_def)
  from map_value_histories(1) [OF assms hs] show ?thesis
    using grown_plain by (fastforce simp: hs list_all_iff)
qed

lemma kept_map_portable:
  assumes "kept_map ch field policy m"
  shows "portable (mutable_value (map_value m))"
proof -
  obtain hs where hs: "map_value m = PHistoryMap hs" by (simp add: map_value_def)
  have "portable (mutable_value v)" if "(p, h) \<in> set hs" "(v, d) \<in> set (history_entries h)" for p h v d
    using map_value_histories(1) [OF assms hs] that grown_frozen portable_mutable by (fastforce simp: list_all_iff)
  then show ?thesis by (auto simp: hs list_all_iff)
qed

lemma text_member_costs:
  "member_costs True (map (\<lambda>(p, v). (KText p, f v)) ps) c = Inr d \<Longrightarrow> (p, v) \<in> set ps \<Longrightarrow> utf8_size p \<noteq> None"
proof (induction ps arbitrary: c)
  case (Cons x ps)
  obtain q w where x: "x = (q, w)" by (cases x)
  from Cons.prems(1) show ?case
    using Cons.IH Cons.prems(2) by (auto simp: x ebind_eq_Inr key_bytes_def encoded_size_def split: option.splits)
qed simp

lemma history_member_costs:
  "(case member_costs True (map (\<lambda>(p, h). (KText p, PHistory h)) hs) c of
      Inl e \<Rightarrow> e = InvalidText \<and> (\<exists>p \<in> set (map fst hs). utf8_size p = None)
    | Inr d \<Rightarrow> True)"
proof (induction hs arbitrary: c)
  case (Cons x hs)
  obtain q h where x: "x = (q, h)" by (cases x)
  show ?case
  proof (cases "utf8_size q")
    case (Some n)
    from Cons.IH [of "extend_costs c (history_costs h) n 0"] show ?thesis
      by (auto simp: x Some key_bytes_def encoded_size_def split: sum.splits)
  qed (simp add: x key_bytes_def encoded_size_def)
qed simp

lemma costs_of_map_value:
  "map_value m = PHistoryMap hs \<Longrightarrow>
     costs_of (map_value m) =
       member_costs True (map (\<lambda>(p, h). (KText p, PHistory h)) hs) (unit_costs\<lparr>cost_members := length hs\<rparr>)"
  by (subst costs_of.simps) simp

lemma costs_of_exported:
  "map_value m = PHistoryMap hs \<Longrightarrow>
     costs_of (mutable_value (map_value m)) =
       member_costs True (map (\<lambda>(p, h). (KText p, history_list h)) hs) (unit_costs\<lparr>cost_members := length hs\<rparr>)"
  by (subst costs_of.simps) (simp add: history_list_def)

lemma exported_costs:
  assumes "kept_map ch field policy m"
  shows "costs_of (mutable_value (map_value m)) = costs_of (map_value m)"
proof -
  obtain hs where hs: "map_value m = PHistoryMap hs" by (simp add: map_value_def)
  have "list_all2 (\<lambda>(k, v) (k', w). k = k' \<and> costs_of v = costs_of w)
      (map (\<lambda>(p, h). (KText p, history_list h)) hs) (map (\<lambda>(p, h). (KText p, PHistory h)) hs)"
    using map_value_histories(1) [OF assms hs] history_list_costs grown_plain
    by (fastforce simp: list_all2_conv_all_nth list_all_iff case_prod_unfold)
  from dict_member_costs [OF this] show ?thesis
    unfolding costs_of_map_value [OF hs] costs_of_exported [OF hs] .
qed

definition alike :: "'i py_value \<Rightarrow> 'i py_value \<Rightarrow> bool" where
  "alike v w \<longleftrightarrow>
     (\<forall>path depth b. python_carriers b \<longrightarrow> validate_bounded_value v path depth b = validate_bounded_value w path depth b)"

lemma members_alike:
  assumes "list_all2 (\<lambda>(k, v) (k', w). k = k' \<and> plain v \<and> alike v w) ms ns" and "python_carriers b"
  shows "members_failure mapping ms path depth b = members_failure mapping ns path depth b"
  using assms
proof (induction ms ns arbitrary: b rule: list_all2_induct)
  case (Cons m ms n ns)
  obtain k v w where m: "m = (k, v)" "n = (k, w)" "plain v" "alike v w"
    using Cons.hyps(1) by (cases m; cases n) auto
  obtain b1 f1 where k: "key_failure mapping k path b = (b1, f1)" by fastforce
  show ?case
  proof (cases f1)
    case None
    with k Cons.prems have b1: "python_carriers b1" by (auto simp: key_failure_None)
    have same: "validate_bounded_value w (path @ [key_token k]) (depth + 1) b1
        = validate_bounded_value v (path @ [key_token k]) (depth + 1) b1"
      using m(4) b1 by (simp add: alike_def)
    have "python_carriers b2" if "validate_bounded_value v (path @ [key_token k]) (depth + 1) b1 = Inr (b2, None)" for b2
      using that plain_decided [OF m(3)] b1 by (auto simp: decided_def)
    then show ?thesis
      unfolding m(1,2) members_failure.simps k None prod.case option.case same
      by (intro ebind_cong) (use Cons.IH in \<open>auto split: option.split\<close>)
  qed (simp add: m k)
qed simp

lemma exported_alike:
  assumes "kept_map ch field policy m" and "encodable_keys m" and "python_carriers b"
  shows "validate_bounded_value (map_value m) path depth b
     = validate_bounded_value (mutable_value (map_value m)) path depth b"
proof -
  let ?v = "map_value m" and ?w = "mutable_value (map_value m)"
  obtain hs where hs: "?v = PHistoryMap hs" by (simp add: map_value_def)
  have "\<not> isl (costs_of ?v)"
    using history_member_costs [of hs "unit_costs\<lparr>cost_members := length hs\<rparr>"] assms(2)
      map_value_histories(2) [OF assms(1) hs]
    by (auto simp: costs_of_map_value [OF hs] encodable_keys_def split: sum.splits)
  then obtain c where c: "costs_of ?v = Inr c" by (cases "costs_of ?v") auto
  have w: "costs_of ?w = Inr c" using exported_costs [OF assms(1)] c by simp
  show ?thesis
  proof (cases "fits c depth b")
    case True
    have "validate_bounded_value u path depth b = Inr (charged c b, None)" if "plain u" "costs_of u = Inr c" for u :: "'a py_value"
      using plain_decided [OF that(1)] that(2) True assms(3) by (simp add: decided_def)
    then show ?thesis
      using kept_map_plain [OF assms(1)] portable_plain [OF kept_map_portable [OF assms(1)]] c w by simp
  next
    case False
    have v: "validate_bounded_value ?v path depth b = traversed ?v path depth b"
      using c False assms(3) by (simp add: validate_traversed charged_history_def hs charge_history)
    have w: "validate_bounded_value ?w path depth b = traversed ?w path depth b"
      by (simp add: validate_traversed charged_history_def charge_immutable_history_def hs)
    have members: "list_all2 (\<lambda>(k, v) (k', w). k = k' \<and> plain v \<and> alike v w) (children ?v) (children ?w)"
      using map_value_histories(1) [OF assms(1) hs] history_admitted_as_list grown_plain
      by (fastforce simp: hs list_all2_conv_all_nth list_all_iff alike_def case_prod_unfold history_list_def)
    have same: "bounded_scalar_failure ?v path b1 = bounded_scalar_failure ?w path b1" if "python_carriers b1" for b1
      using that by (simp add: hs bounded_scalar_failure_def spend_scalar_def scalar_ceiling_def scalar_size_def
        json_type_def spend_scalar_size_def Let_def)
    obtain b1 f1 where f1: "node_budget_failure depth path b = (b1, f1)" by fastforce
    have b1: "python_carriers b1"
      using f1 assms(3)
      by (auto simp: node_budget_failure_def spend_node_def spend_operation_def Let_def split: prod.splits if_splits)
    obtain b2 f2 where f2: "bounded_scalar_failure ?v path b1 = (b2, f2)" by fastforce
    then have f2': "bounded_scalar_failure ?w path b1 = (b2, f2)" using same [OF b1] by simp
    have shape: "is_bounded_container ?v (python_carriers b)" "is_bounded_container ?w (python_carriers b)"
      "is_mapping ?v = is_mapping ?w" "length (children ?v) = length (children ?w)"
      using assms(3) by (simp_all add: hs is_bounded_container_def)
    have visit: "members_failure (is_mapping ?w) (children ?v) path depth b2
        = members_failure (is_mapping ?w) (children ?w) path depth b2" if "f2 = None"
      using members_alike [OF members] container_scalar_None [of ?v b1 path b2] f2 b1 that by (simp add: hs)
    show ?thesis
      unfolding v w traversed_def admit_plain [OF kept_map_plain [OF assms(1)]]
        admit_plain [OF portable_plain [OF kept_map_portable [OF assms(1)]]] f1 prod.case
      using visit by (cases f1; cases f2) (simp_all only: f2 f2' shape prod.case option.case if_True not_True_eq_False if_False)
  qed
qed

end
