(* ===== verification/HistoryProperties.thy ===== *)
theory HistoryProperties
  imports KeptHistories
begin

text \<open>
  The properties of immutable histories and of the admission of their values, with witnesses over a
  digest that writes its texts one after another.
\<close>

section \<open>Sample records\<close>

definition sample_chain :: "unit digest_chain" where
  "sample_chain =
     \<lparr>empty_digest = '''',
      record_text = \<lambda>v. (case member_value v ''event_id'' of PStr t \<Rightarrow> map char_of t | _ \<Rightarrow> ''''),
      link_digest = \<lambda>d t. d @ CHR ''/'' # t\<rparr>"

definition sample_policy :: "unit history_policy" where
  "sample_policy =
     \<lparr>policy_identity = \<lambda>p v k. (case member_value v ''event_id'' of PStr t \<Rightarrow> Inr (Some (PairIdentity p t)) | _ \<Rightarrow> Inr None),
      retains_invalid = False, policy_index = None\<rparr>"

definition sample_event :: "string \<Rightarrow> unit py_value" where
  "sample_event s =
     PDict [(KText (text_of ''event_id''), PStr (text_of s)), (KText (text_of ''sizes''), PList [PInt 7, PTuple [PBool True]])]"

definition sample_histories :: "(py_text, unit py_value list) dict" where
  "sample_histories =
     [(text_of ''red'', [sample_event ''r1'', sample_event ''r2'']), (text_of ''blue'', [sample_event ''b1''])]"

definition sample_map :: "(py_text, unit py_value list) dict \<Rightarrow> unit history_map" where
  "sample_map H = projr (make_history_map sample_chain ''crossings'' H sample_policy)"

lemma Inr_projr: "\<not> isl x \<Longrightarrow> x = Inr (projr x)"
  by (cases x) simp_all

lemma made_sample:
  "\<not> isl (make_history_map sample_chain ''crossings'' H sample_policy) \<Longrightarrow>
     make_history_map sample_chain ''crossings'' H sample_policy = Inr (sample_map H)"
  unfolding sample_map_def by (rule Inr_projr)

lemmas sample_eval =
  sample_chain_def sample_policy_def sample_event_def sample_histories_def sample_map_def text_of_def
  make_history_map_def retain_history_def retain_record_def retained_identity_def record_identity_def absorb_record_def
  appended_def mapping_items_def collect_def require_def sortable_keys_def prefix_digest_def history_length_def
  empty_history_def costs_of.simps scalar_costs_def key_bytes_def encoded_size_def sized_costs_def int_size_def
  bit_length_def nat_bits.simps unit_costs_def extend_costs_def next_index_def member_value_def record_id_def
  append_records_def append_record_def

lemma sample_checks:
  "\<not> isl (make_history_map sample_chain ''crossings'' sample_histories sample_policy)"
  "shape_valid (sample_map sample_histories)"
  "\<not> isl (append_records sample_chain (text_of ''blue'') [sample_event ''b2''] (sample_map sample_histories))"
  "dict_ok sample_histories"
  by (simp_all add: sample_eval)

section \<open>Appending and rebuilding\<close>

definition records_of :: "(py_text, 'i py_value list) dict \<Rightarrow> py_text \<Rightarrow> 'i py_value list" where
  "records_of H p = (case dget H p of None \<Rightarrow> [] | Some vs \<Rightarrow> vs)"

lemma contributed_unique:
  "list_all2 (contributed ch policy) H es \<Longrightarrow> list_all2 (contributed ch policy) H fs \<Longrightarrow> es = fs"
proof (induction H arbitrary: es fs)
  case (Cons item H)
  then obtain e es' f fs' where "es = e # es'" "fs = f # fs'" "contributed ch policy item e" "contributed ch policy item f"
    "list_all2 (contributed ch policy) H es'" "list_all2 (contributed ch policy) H fs'"
    by (auto simp: list_all2_Cons1)
  moreover from this have "e = f" by (auto simp: contributed_def prod_eq_iff)
  ultimately show ?case using Cons.IH by blast
qed simp

lemma rebuilt_contribution:
  assumes "dict_ok H" and es: "list_all2 (contributed ch policy) H es"
    and fs: "list_all2 (contributed ch policy) (dput p (records_of H p @ rs) H) fs" "separate {} fs"
  shows "p \<noteq> [] \<and> (\<exists>J Q h'. contribution ch policy p
      (case dget (histories_of es) p of None \<Rightarrow> empty_history | Some h \<Rightarrow> h) rs = Inr (J, Q, h') \<and> ids_of es \<inter> J = {})"
proof (cases "dget H p")
  case None
  then have "dput p (records_of H p @ rs) H = H @ [(p, rs)]" by (simp add: records_of_def dput_absent)
  with fs(1) obtain es' f where parts: "fs = es' @ [f]" "list_all2 (contributed ch policy) H es'" "contributed ch policy (p, rs) f"
    by (auto simp: list_all2_append1 list_all2_Cons1)
  have same: "es' = es" using contributed_unique [OF parts(2) es] .
  obtain I P h where f: "f = (p, I, P, h)" "contribution ch policy p empty_history rs = Inr (I, P, h)" "p \<noteq> []"
    using parts(3) by (cases f) (auto simp: contributed_def)
  have "dget (histories_of es) p = None"
    unfolding map_of_eq_None_iff using None contributed_keys [OF es] by (metis dget_None_iff histories_of_keys list.set_map)
  with f fs(2) show ?thesis by (auto simp: parts(1) same separate_append)
next
  case (Some vs)
  then obtain H1 H2 where H: "H = H1 @ (p, vs) # H2" "p \<notin> set (dkeys H1)" by (rule dict_split)
  then have put: "dput p (records_of H p @ rs) H = H1 @ (p, vs @ rs) # H2"
    using Some by (simp add: records_of_def dput_split)
  from fs(1) obtain es1 f es2 where parts: "fs = es1 @ f # es2" "list_all2 (contributed ch policy) H1 es1"
    "contributed ch policy (p, vs @ rs) f" "list_all2 (contributed ch policy) H2 es2"
    by (auto simp: put list_all2_append1 list_all2_Cons1)
  from parts(3) obtain J Q h' where f: "f = (p, J, Q, h')" "contribution ch policy p empty_history (vs @ rs) = Inr (J, Q, h')" "p \<noteq> []"
    by (cases f) (auto simp: contributed_def)
  obtain I P g K R where c: "contribution ch policy p empty_history vs = Inr (I, P, g)"
    "contribution ch policy p g rs = Inr (K, R, h')" "I \<inter> K = {}" "J = I \<union> K"
    using f(2) unfolding contribution_append by blast
  have "list_all2 (contributed ch policy) H (es1 @ (p, I, P, g) # es2)"
    using parts(2,4) c(1) f(3) by (simp add: H(1) list_all2_appendI contributed_def)
  from contributed_unique [OF es this] have es_parts: "es = es1 @ (p, I, P, g) # es2" .
  have "dget (histories_of es1) p = None"
    unfolding map_of_eq_None_iff using H(2) contributed_keys [OF parts(2)] by (metis histories_of_keys list.set_map)
  then have history: "dget (histories_of es) p = Some g" by (simp add: es_parts map_add_def)
  have "ids_of es1 \<inter> K = {}" "ids_of es2 \<inter> K = {}"
    using fs(2) separate_ids [of "ids_of es1 \<union> J" es2] by (auto simp: parts(1) f(1) c(4) separate_append)
  then have "ids_of es \<inter> K = {}" using c(3) by (auto simp: es_parts)
  with c(2) f(3) history show ?thesis by auto
qed

lemma made_map_append:
  assumes "dict_ok H" and "make_history_map ch field H policy = Inr m" and "shape_valid m"
    and "append_records ch p rs m = Inr m'"
  shows "make_history_map ch field (dput p (records_of H p @ rs) H) policy = Inr m' \<and> shape_valid m'"
proof -
  from made_map [OF assms(1), of ch field policy m] assms(2,3) obtain es where
    es: "list_all2 (contributed ch policy) H es" "separate {} es" "m = map_of_contributions field policy es" by blast
  from append_contributions [OF es(1,2) assms(1) assms(4) [unfolded es(3)]] show ?thesis
    unfolding made_map [OF dict_ok_dput [OF assms(1)]] by (simp add: records_of_def)
qed

text \<open>C35: A map of histories grows by appending exactly as it would be built. Over a map that was built
  from records and retained no invalid one, an append of further records for a participant succeeds
  exactly when the map can be built from all the records together with none of them invalid, and
  then both give the same map, with the same histories, digests, costs, record indexes, identities
  and positions.\<close>

theorem appending_agrees_with_rebuilding:
  assumes "dict_ok H" and "make_history_map ch field H policy = Inr m" and "shape_valid m"
  shows "append_records ch p rs m = Inr m' \<longleftrightarrow>
     make_history_map ch field (dput p (records_of H p @ rs) H) policy = Inr m' \<and> shape_valid m'"
proof
  assume "append_records ch p rs m = Inr m'"
  with assms show "make_history_map ch field (dput p (records_of H p @ rs) H) policy = Inr m' \<and> shape_valid m'"
    by (rule made_map_append)
next
  assume made: "make_history_map ch field (dput p (records_of H p @ rs) H) policy = Inr m' \<and> shape_valid m'"
  then obtain fs where fs: "list_all2 (contributed ch policy) (dput p (records_of H p @ rs) H) fs" "separate {} fs"
    unfolding made_map [OF dict_ok_dput [OF assms(1)]] by blast
  from made_map [OF assms(1), of ch field policy m] assms(2,3) obtain es where
    es: "list_all2 (contributed ch policy) H es" "m = map_of_contributions field policy es" by blast
  have m: "hm_values m = histories_of es" "hm_identities m = ids_of es" "hm_policy m = policy"
    by (simp_all add: es(2) map_of_contributions_def)
  obtain m1 where m1: "append_records ch p rs m = Inr m1"
    using rebuilt_contribution [OF assms(1) es(1) fs] assms(3) unfolding append_records_Inr m by blast
  with made_map_append [OF assms m1] made show "append_records ch p rs m = Inr m'" by simp
qed

lemma appending_agrees_with_rebuilding_witness:
  "append_records sample_chain (text_of ''blue'') [sample_event ''b2''] (sample_map sample_histories) =
     make_history_map sample_chain ''crossings''
       (dput (text_of ''blue'') [sample_event ''b1'', sample_event ''b2''] sample_histories) sample_policy"
proof -
  have "records_of sample_histories (text_of ''blue'') = [sample_event ''b1'']"
    by (simp add: records_of_def sample_histories_def text_of_def)
  with appending_agrees_with_rebuilding [OF sample_checks(4) made_sample [OF sample_checks(1)] sample_checks(2),
      of "text_of ''blue''" "[sample_event ''b2'']"] Inr_projr [OF sample_checks(3)]
  show ?thesis by (metis append_Cons append_Nil)
qed

section \<open>Streams keep their prefix\<close>

lemma kept_sample:
  "dict_ok H \<Longrightarrow> \<not> isl (make_history_map sample_chain ''crossings'' H sample_policy) \<Longrightarrow>
     kept_map sample_chain ''crossings'' sample_policy (sample_map H)"
  by (rule kept_made [OF _ made_sample])

lemma sample_collisions:
  assumes "list_all (\<lambda>(p, h). list_all (\<lambda>t. CHR ''/'' \<notin> set t) (history_texts sample_chain h)) (hm_values m)"
    and "list_all (\<lambda>(p, h). list_all (\<lambda>t. CHR ''/'' \<notin> set t) (history_texts sample_chain h)) (hm_values m')"
  shows "collision_free sample_chain (map_links sample_chain m \<union> map_links sample_chain m')"
proof -
  have texts: "CHR ''/'' \<notin> set t" if "(d, t) \<in> map_links sample_chain m \<union> map_links sample_chain m'" for d t
  proof -
    from that obtain m0 p h where "m0 \<in> {m, m'}" "(p, h) \<in> set (hm_values m0)" "(d, t) \<in> text_links sample_chain (history_texts sample_chain h)"
      unfolding map_links_def by blast
    moreover from this(3) have "t \<in> set (history_texts sample_chain h)" by (auto simp: text_links_def)
    ultimately show ?thesis using assms by (auto simp: list_all_iff)
  qed
  have link: "(d, t) = (e, u)" if "d @ CHR ''/'' # t = e @ CHR ''/'' # u" "CHR ''/'' \<notin> set t" "CHR ''/'' \<notin> set u" for d t e u
  proof -
    from arg_cong [OF that(1), of rev] have reversed: "rev t @ CHR ''/'' # rev d = rev u @ CHR ''/'' # rev e" by simp
    have first: "takeWhile (\<lambda>c. c \<noteq> CHR ''/'') (rev xs @ CHR ''/'' # ys) = rev xs" if "CHR ''/'' \<notin> set xs" for xs ys
      using that by (subst takeWhile_tail) (auto simp: takeWhile_eq_all_conv)
    from arg_cong [OF reversed, of "takeWhile (\<lambda>c. c \<noteq> CHR ''/'')"] have "t = u" by (simp add: first that(2,3))
    with reversed show ?thesis by simp
  qed
  have "inj_on (\<lambda>(d, t). link_digest sample_chain d t) (map_links sample_chain m \<union> map_links sample_chain m')"
  proof (rule inj_onI)
    fix x y
    assume xy: "x \<in> map_links sample_chain m \<union> map_links sample_chain m'" "y \<in> map_links sample_chain m \<union> map_links sample_chain m'"
      and same: "(case x of (d, t) \<Rightarrow> link_digest sample_chain d t) = (case y of (d, t) \<Rightarrow> link_digest sample_chain d t)"
    obtain d t e u where p: "x = (d, t)" "y = (e, u)" by fastforce
    have "d @ CHR ''/'' # t = e @ CHR ''/'' # u" using same by (simp add: p sample_chain_def)
    then show "x = y" unfolding p by (rule link) (rule texts [OF xy(1) [unfolded p]], rule texts [OF xy(2) [unfolded p]])
  qed
  then show ?thesis by (simp add: collision_free_def sample_chain_def case_prod_unfold)
qed

text \<open>C36: The transition check finds every rewritten stream and nothing else. For maps of histories that
  were built by the constructor and by appends, and provided that the digests they link have no
  collision, the check reports exactly the participants of the earlier map, in its order, whose
  records are no longer there: those without a stream in the later map and those whose earlier
  record texts are not a prefix of the later ones.\<close>

theorem rewritten_streams_are_detected:
  assumes "kept_map ch field policy m" and "kept_map ch field' policy' m'"
    and "collision_free ch (map_links ch m \<union> map_links ch m')"
  shows "crossing_transition_violations ch m m' =
     filter (\<lambda>p. \<not> (\<exists>ts. participant_texts ch m' p = Some ts \<and> prefix (the (participant_texts ch m p)) ts)) (hm_keys m)"
  unfolding crossing_transition_violations_def by (intro filter_cong) (simp_all add: kept_preserves [OF assms])

definition rewritten_histories :: "(py_text, unit py_value list) dict" where
  "rewritten_histories =
     [(text_of ''blue'', [sample_event ''b1'', sample_event ''b2'']), (text_of ''red'', [sample_event ''r0'', sample_event ''r2''])]"

lemma rewritten_checks:
  "\<not> isl (make_history_map sample_chain ''crossings'' rewritten_histories sample_policy)"
  "dict_ok rewritten_histories"
  by (simp_all add: sample_eval rewritten_histories_def)

lemma rewritten_values:
  "map (\<lambda>(p, h). (p, history_texts sample_chain h)) (hm_values (sample_map sample_histories)) =
     [(text_of ''red'', [''r1'', ''r2'']), (text_of ''blue'', [''b1''])]"
  "map (\<lambda>(p, h). (p, history_texts sample_chain h)) (hm_values (sample_map rewritten_histories)) =
     [(text_of ''blue'', [''b1'', ''b2'']), (text_of ''red'', [''r0'', ''r2''])]"
  "hm_keys (sample_map sample_histories) = [text_of ''red'', text_of ''blue'']"
  by (simp_all add: sample_eval rewritten_histories_def history_texts_def char_of_def bit_Suc_0_iff)

lemma rewritten_streams_are_detected_witness:
  "crossing_transition_violations sample_chain (sample_map sample_histories) (sample_map rewritten_histories) = [text_of ''red'']"
proof -
  have texts: "participant_texts sample_chain m p = dget (map (\<lambda>(p, h). (p, history_texts sample_chain h)) (hm_values m)) p" for m p
    by (simp add: participant_texts_def dget_map_value)
  have clean: "list_all (\<lambda>(p, h). list_all (\<lambda>t. CHR ''/'' \<notin> set t) (history_texts sample_chain h)) (hm_values m)
      \<longleftrightarrow> list_all (\<lambda>(p, ts). list_all (\<lambda>t. CHR ''/'' \<notin> set t) ts) (map (\<lambda>(p, h). (p, history_texts sample_chain h)) (hm_values m))" for m
    by (simp add: list_all_iff case_prod_unfold)
  have "collision_free sample_chain (map_links sample_chain (sample_map sample_histories) \<union> map_links sample_chain (sample_map rewritten_histories))"
    by (rule sample_collisions) (simp_all only: clean rewritten_values, simp_all)
  from rewritten_streams_are_detected [OF kept_sample [OF sample_checks(4,1)] kept_sample [OF rewritten_checks(2,1)] this]
  show ?thesis by (simp add: texts rewritten_values text_of_def)
qed

section \<open>Records are found\<close>

text \<open>C37: A lookup by identifier answers from the records. In a map built from records with none of them
  invalid, a lookup returns the portable form of the last record of the participant that the policy
  gives an identity and whose evaluation or event id is the identifier, and nothing when there is no
  such record; the position it keeps never leads out of the history.\<close>

theorem last_identified_record_is_found:
  assumes "dict_ok H" and "make_history_map ch field H policy = Inr m" and "shape_valid m"
  shows "find_record m p t =
     Inr (map_option (\<lambda>k. mutable_value (records_of H p ! k)) (last_position policy p (PStr t) (records_of H p)))"
proof -
  from made_map [OF assms(1), of ch field policy m] assms(2,3) obtain es where
    es: "list_all2 (contributed ch policy) H es" "m = map_of_contributions field policy es" by blast
  show ?thesis
    unfolding es(2) contributions_found [OF es(1) assms(1)]
    by (simp add: records_of_def last_position_def split: option.split)
qed

lemma last_identified_record_is_found_witness:
  "find_record (sample_map sample_histories) (text_of ''red'') (text_of ''r2'') =
     Inr (Some (PDict [(KText (text_of ''event_id''), PStr (text_of ''r2'')),
       (KText (text_of ''sizes''), PList [PInt 7, PList [PBool True]])]))"
  using last_identified_record_is_found [OF sample_checks(4) made_sample [OF sample_checks(1)] sample_checks(2),
      of "text_of ''red''" "text_of ''r2''"]
  by (simp add: records_of_def last_position_def identified_def sample_histories_def sample_policy_def sample_event_def
      text_of_def member_value_def record_id_def upt_rec)

section \<open>Admission of retained histories\<close>

text \<open>C38: A map of histories is admitted as its portable export. For a map built by the constructor and
  by appends whose participants are encodable, the admission of the map, which charges the costs
  that its histories keep, gives for every path, depth and budget the budget and the failure that
  the complete visit of its export gives.\<close>

theorem history_map_admitted_as_exported:
  assumes "kept_map ch field policy m" and "encodable_keys m" and "python_carriers b"
  shows "validate_bounded_value (map_value m) path depth b
     = validate_bounded_value (mutable_value (map_value m)) path depth b"
  using assms by (rule exported_alike)

definition sample_limits :: constraint_limits where
  "sample_limits =
     \<lparr>max_depth = 4, max_nodes = 18, max_operations = 18, max_members = 2, max_identity_checks = 1,
      max_scalar_bytes = 8, max_total_scalar_bytes = 100, max_document_scalar_bytes = None\<rparr>"

lemma history_map_admitted_as_exported_witness:
  "validate_realization_value (map_value (sample_map sample_histories)) sample_limits True =
     validate_realization_value (mutable_value (map_value (sample_map sample_histories))) sample_limits True"
proof -
  have "encodable_keys (sample_map sample_histories)"
    by (simp add: encodable_keys_def rewritten_values text_of_def)
  then show ?thesis
    unfolding validate_realization_value_def
    by (subst history_map_admitted_as_exported [OF kept_sample [OF sample_checks(4,1)]])
      (simp_all add: fresh_budget_def)
qed

text \<open>C39: Admission is decided by costs. A value without data transfer objects, enumeration members and
  declared documents is admitted exactly when its costs exist, are valid and stay within the limits:
  its nodes within the nodes and the operations, its depth, the members of its largest container,
  its largest scalar or key and the sum of them all. So the order of the visit and the running
  counters never decide.\<close>

theorem bounded_admission_decided_by_costs:
  assumes "plain v"
  shows "validate_realization_value v limits True = Inr None \<longleftrightarrow>
     (\<exists>c. costs_of v = Inr c \<and> cost_valid c
        \<and> cost_nodes c \<le> max_nodes limits \<and> cost_nodes c \<le> max_operations limits
        \<and> cost_depth c \<le> max_depth limits \<and> cost_members c \<le> max_members limits
        \<and> cost_max_scalar c \<le> max_scalar_bytes limits \<and> cost_scalar_bytes c \<le> max_total_scalar_bytes limits)"
proof -
  have "validate_realization_value v limits True = Inr None \<longleftrightarrow>
      (\<exists>b'. validate_bounded_value v [] 0 (fresh_budget limits True) = Inr (b', None))"
    by (auto simp: validate_realization_value_def ebind_eq_Inr)
  also have "\<dots> \<longleftrightarrow> (\<exists>c. costs_of v = Inr c \<and> fits c 0 (fresh_budget limits True))"
    using plain_decided [OF assms] by (simp add: decided_def fresh_budget_def)
  finally show ?thesis by (auto simp: fits_def fresh_budget_def)
qed

lemma bounded_admission_decided_by_costs_witness:
  "validate_realization_value (sample_event ''r1'') (sample_limits\<lparr>max_nodes := 6\<rparr>) True = Inr None
   \<and> validate_realization_value (sample_event ''r1'') (sample_limits\<lparr>max_nodes := 5\<rparr>) True \<noteq> Inr None"
proof -
  have plain: "plain (sample_event ''r1'')" by (simp add: sample_event_def)
  show ?thesis
    unfolding bounded_admission_decided_by_costs [OF plain] by (simp add: sample_eval sample_limits_def)
qed

text \<open>C40: A participant whose name cannot be encoded makes the admission raise. When a participant of a
  map of histories has a lone surrogate in its name, the admission of the map raises an encoding
  error whatever the limits, where the admission of its portable export returns a failure: the
  shortcut does not fall back to the visit.\<close>

theorem unencodable_participant_raises:
  assumes "kept_map ch field policy m" and "p \<in> set (hm_keys m)" and "utf8_size p = None"
  shows "validate_realization_value (map_value m) limits True = Inl InvalidText
     \<and> (\<exists>f. validate_realization_value (mutable_value (map_value m)) limits True = Inr (Some f))"
proof -
  obtain hs where hs: "map_value m = PHistoryMap hs" by (simp add: map_value_def)
  from assms(2) obtain h where h: "(p, h) \<in> set hs"
    unfolding map_value_histories(2) [OF assms(1) hs, symmetric] by auto
  have raised: "costs_of (map_value m) = Inl InvalidText"
    using history_member_costs [of hs "unit_costs\<lparr>cost_members := length hs\<rparr>"]
      text_member_costs [of PHistory hs _ _ p h] h assms(3)
    by (auto simp: costs_of_map_value [OF hs] split: sum.splits)
  have "validate_realization_value (map_value m) limits True = Inl InvalidText"
    using raised
    by (simp add: validate_realization_value_def validate_traversed charged_history_def hs charge_history fresh_budget_def)
  moreover obtain b' f where run: "validate_bounded_value (mutable_value (map_value m)) [] 0 (fresh_budget limits True) = Inr (b', f)"
    using portable_never_raises [OF kept_map_portable [OF assms(1)]]
    unfolding never_raises_def by (metis Inr_projr surj_pair)
  moreover have "f \<noteq> None"
  proof
    assume "f = None"
    with run plain_decided [OF portable_plain [OF kept_map_portable [OF assms(1)]]]
    obtain c where "costs_of (mutable_value (map_value m)) = Inr c" by (auto simp: decided_def fresh_budget_def)
    with exported_costs [OF assms(1)] raised show False by simp
  qed
  ultimately show ?thesis by (auto simp: validate_realization_value_def)
qed

lemma unencodable_participant_raises_witness:
  "validate_realization_value (map_value (sample_map [([0xD800], [sample_event ''r1''])])) sample_limits True = Inl InvalidText"
proof -
  have "\<not> isl (make_history_map sample_chain ''crossings'' [([0xD800], [sample_event ''r1''])] sample_policy)"
    and keys: "hm_keys (sample_map [([0xD800], [sample_event ''r1''])]) = [[0xD800]]"
    by (simp_all add: sample_eval)
  from unencodable_participant_raises [OF kept_sample [OF _ this(1)], of "[0xD800]" sample_limits] keys show ?thesis
    by simp
qed

end
