(* ===== verification/Spec2Isabelle.thy ===== *)
theory Spec2Isabelle
  imports PlanCycles TimeProperties ResourceProperties ExploitProperties OpacityWitness EpisodeProperties OperationStoreRuns
    HistoryProperties
begin

text \<open>
  RAES, the Reproducible Agentic Environments System: a verification library for the core of its
  Python packages. All paths below are relative to src/implementations/python/packages.

  The program. A scenario is compiled into a model of resources with addresses (raes_processor).
  The planner orders these resources by their dependencies, compares them with the snapshot of an
  earlier run and produces the operations of a plan. At run time (raes_runtime,
  raes_backend_protocols) clocks, resource budgets and participant episodes are kept in a runtime
  snapshot, whose data and validators are contracts (raes_contracts), and the operations that a
  control plane accepts are kept with the snapshot in a store. Beside the run stand analyses over
  finite models: attack paths over an attack graph and the opacity of secrets for an observer. The
  parts meet in their data: compiled addresses name resources, clocks, participants and the
  addresses an operation changed; the planner, the mapping graph of the clocks and the parent graph
  of the budgets share the graph algorithms; the documents of all parts are validated before they
  are used; the snapshot that the runtime operations replace is the one the store commits, and the
  histories in it only grow.

  Conventions. A Python result that may be an exception is a sum, \<open>Inl\<close> the error; steps that
  can fail are chained with \<open>ebind\<close>, and \<open>require\<close> is a guard that raises. A
  dictionary is an association list in insertion order (\<open>dget\<close>, \<open>dput\<close>). A class with fields is a
  record with the field names, prefixed where two classes share one; an enumeration is a datatype
  whose constructors are its members. Python integers are \<open>int\<close>, or \<open>nat\<close> where the code's own
  validation excludes negative values. Validators are named after the validators of the code and
  hold its checks in its order. These conventions, the interface of a state machine whose runs keep
  an invariant (\<open>checked_machine\<close>) and of one that also keeps an append-only log (\<open>logged_machine\<close>)
  are in Prelude. Both interfaces are interpreted on the clock coordinator, the budget operations,
  the participant runtime and the operation store.
\<close>

section \<open>Addresses, graphs and plans\<close>

text \<open>
  Addressing is raes_contracts/addressing.py, JsonPointer is raes_contracts/json_pointer.py.

  Graphs, GraphComponents and GraphCycle are raes_contracts/graphs.py: the stable topological order
  over the sorter of the standard library, the strongly connected components by an iterative
  traversal, and the cycle check. GraphOrder shows that the stable order always returns and what it
  returns, and states it as the interface \<open>dependency_order\<close>; ComponentProofs shows that the
  traversal returns exactly the cyclic components.

  Planner is raes_processor/semantics/planner.py: dependency graphs of resource maps, ordering and
  teardown orders (which interpret \<open>dependency_order\<close>), refresh propagation and reconciliation.
  PlanOps is raes_processor/planner/ordering.py, operations.py and interaction_context.py with the
  plan data of raes_contracts/planning.py and the destroy plan of raes_runtime/manager_destroy.py.
  PlannerProofs and PlanProofs show that reconciliation meets its per-address specification, which
  is stated over the model, the snapshot and the match of an entry with a resource alone, that the
  refresh search finds exactly the impacted resources, and that a phase plan is built and complete:
  its startup order puts dependencies first, its teardown dependents first, and each operation is
  the one the specification asks for. PlanCycles shows that the reported dependency cycles are the components that make
  ordering impossible.
\<close>

section \<open>Clocks\<close>

text \<open>
  TimeModel is raes_contracts/contracts/time_model.py with its vocabulary; TimeCoordinator is
  raes_processor/models/time_model.py, the conversions of raes_processor/compiler/time_model.py and
  the reference coordinator raes_runtime/time_coordinator.py. TimeModelProofs shows what the
  validators admit: acyclic mappings, histories that move forward. TimeCoordinatorProofs relates
  every operation to a step of an abstract clock; TimeProperties states the properties of runs.

  The digest of a declaration is a parameter, and so is the reset of the participants in a
  coordinated reset, which the coordinator calls back. A coordinate is a triple of
  integers (segment, tick, microstep) in the lexicographic order.
\<close>

section \<open>Resource budgets\<close>

text \<open>
  ResourceModel is raes_contracts/contracts/participant_resource_types.py,
  participant_resource_validation.py and participant_resource_budgets.py; ResourceLedger is the four
  files raes_runtime/participant_resource_pool_ledger.py, participant_resource_budgets.py,
  participant_resource_reservation.py and participant_resource_accounting.py. ResourcePolicyProofs
  is about the admission of a policy, ResourceProofs, ResourceMachine and ResourceSettlement about
  what the operations do to states, pools and events, ResourceAccounts and ResourceGoverned about
  the clients that settle an operation once and in the generation that reserved it, for which no
  budget is ever overrun. The code leaves both to its clients: it compares the generation of a call
  with the budget only, so that ResourceProperties shows a reservation committed after a
  reconciliation, and that a release after a commit takes what other operations have reserved.
  Commit and release share the interface \<open>settlement\<close>. The digest of a pool identity and the admission of a profile
  coordinate are parameters.
\<close>

section \<open>Analyses\<close>

text \<open>
  ExploitModel and ExploitSearch are the package raes_processor/exploit_path: contracts, preflight,
  breadth-first search, analysis and replay. ExploitProofs and ExploitSafety relate the search to
  the runs of the attack graph; ExploitReturns shows that the analysis of an admitted input returns
  evidence that passes its own validator. The digests of documents and the order in which Python
  iterates a set of frozen sets are parameters: the properties hold for every order, and one of them
  shows that replay depends on it.

  OpacityContracts and OpacityEvidence are the contracts of opacity (raes_contracts/participant_opacity.py,
  _participant_opacity_model.py, _participant_opacity_model_check.py, _participant_opacity_common.py,
  behavioral_claims.py, behavioral_relations.py and the opacity part of
  behavioral_relation_profiles.py); OpacityCheck is the package raes_processor/participant_opacity.
  OpacityProofs, OpacityCoverage, OpacityProperties and OpacityCarrier show that the outcome of the
  model check, and of the bounded analysis of a carrier, is the truth about opacity over the
  reachable points, that a counterexample is a shortest run, and that an admitted check returns
  evidence exactly when the taxonomy revision of its claim has at most 128 characters; OpacityWitness
  has the examples. The package version, the catalog and the profile are arguments, digests parameters.
\<close>

section \<open>Episodes and operations\<close>

text \<open>
  EpisodeModel is raes_contracts/participant_episode.py, participant_episode_snapshot.py and
  participant_episode_closure.py; EpisodeRuntime is raes_backend_protocols/participant_runtime_base.py
  (episodes) and participant_reset.py. EpisodeProofs describes what the checkers accept,
  EpisodeRefinement relates every operation of the runtime object to a step of an abstract log of
  episodes, EpisodeProperties states what holds along runs, restarts of the runtime object over a
  stored snapshot included, and that after such a restart no batch reset succeeds for a participant
  that is still in the episode it was allocated first. The readings of the wall clock are arguments of the operations.

  OperationLifecycle is raes_contracts/operation_lifecycle.py, diagnostics.py and the receipts and
  statuses of runtime_state.py. OperationStore is the in-memory store
  raes_runtime/control_plane_store_memory.py with the rules all stores share (control_plane_store.py,
  control_plane_store_transitions.py, control_plane_store_revision.py, control_plane_store_history.py,
  control_plane_store_changes.py) and the refresh of the control plane's view of them
  (control_plane_durability.py). OperationStoreProofs and OperationStoreProperties give the invariant
  of the store and what each operation does, OperationStoreRuns the properties of its runs. A method
  runs under the lock of the store, so a run is a sequence of operations in any order.
\<close>

section \<open>Immutable histories and bounded values\<close>

text \<open>
  PyValues has the Python values that the admission of runtime values sees, with their costs;
  ImmutableHistory is raes_contracts/immutable_history.py, the histories of the participants and the
  maps of them, with the prefix check of raes_contracts/participant_crossing_history.py;
  BoundedValues is the admission of a value under limits in
  raes_contracts/realization_structure/_common.py, with the limits of _models.py and the shortcut
  that charges a history from the costs it keeps. HistoryCosts shows that the admission of a value is
  decided by its costs, HistoryProofs that the costs a history keeps are exact and what its prefix
  digests commit to, HistoryMaps what each participant contributes to a map, KeptHistories what holds
  of the maps that the constructor and appends build. HistoryProperties states the properties: a map
  grows by appending as it would be built anew, a rewritten stream is found, a lookup answers from
  the records, and a map is admitted as its export, unless a name in it cannot be encoded.

  A string is a list of code points, so that lone surrogates are values; a binary float is a mantissa
  and an exponent. The digest of an earlier digest with a text, the text of a record, the record
  rules of a field and its record index are parameters. Values are finite trees: a carrier that
  contains itself is not a value here.
\<close>

section \<open>Bounds, termination and limits of the model\<close>

text \<open>
  Loops are total functions: the sorters, the component traversal, the depth-first visits and the
  searches terminate by measures that count unvisited nodes and remaining work. The bounds of 4096
  checked states and points of the opacity analyses and the step bound of an attack path are those of
  the code; where a function walks along parents with fuel, the fuel is the number of parents, and
  the walk is shown never to run out of it.

  Not modelled. The parser of the scenario language, its validators and the compiler are left out,
  apart from the compiled time model: they are scans over several hundred record types with no
  algorithm of their own. Left out as well are parsing and printing of JSON and of pydantic
  documents (a document is the record its fields form), file and network access, the durable stores
  and their SQL, the HTTP interface, threads and leases of the control plane, callbacks into
  backends, the crossing and control records of participants, operations with invocation ledgers or
  injects, the conformance suites, and the command line. Message texts of diagnostics are kept only
  where a later check compares them. Cryptographic digests and the canonical text they are computed
  from are parameters; only the property of the prefix check assumes that digests differ, and only for
  the records of the two maps it compares. Time and memory are not modelled.
\<close>

end
